(* ===== verification/Prelude.thy ===== *)
theory Prelude
  imports Main "HOL-Library.Word" "HOL-Library.Monad_Syntax"
begin

text \<open>
  Shared vocabulary of the development: the integer types of the program, the
  named fact collections that carry the component proofs, and generic lemmas on
  lists, options and words.

  Conventions.  A Rust \<open>u8\<close> is \<open>8 word\<close>.  The wider unsigned integers
  (\<open>u16\<close>, \<open>u32\<close>, \<open>usize\<close>) are \<open>nat\<close>; where the source can leave the
  range of the type the wrap-around, the truncation of an \<open>as\<close> cast or the
  saturation is written out with the functions below.  A Rust panic is the value
  \<open>None\<close> of an \<open>option\<close>: a function that can panic returns \<open>'a option\<close>.
\<close>

unbundle bit_operations_syntax

type_synonym u8 = "8 word"
type_synonym byte = "8 word"

text \<open>
  \<open>screen_inv\<close> collects the preservation facts of the screen invariant,
  \<open>screen_frame\<close> the facts that say which part of the screen an operation leaves
  alone, \<open>grid_simps\<close> the shape facts of grid operations, and \<open>bsp_simps\<close>
  the facts on the leaves of split trees.
\<close>

named_theorems screen_inv
named_theorems screen_frame
named_theorems grid_simps
named_theorems bsp_simps

section \<open>Fixed-width arithmetic\<close>

definition u16_max :: nat where
  "u16_max = 65535"

definition u32_max :: nat where
  "u32_max = 4294967295"

definition wrap16 :: "nat \<Rightarrow> nat" where
  "wrap16 n = n mod 65536"

definition wrap32 :: "nat \<Rightarrow> nat" where
  "wrap32 n = n mod 4294967296"

definition sat_add16 :: "nat \<Rightarrow> nat \<Rightarrow> nat" where
  "sat_add16 a b = min (a + b) u16_max"

definition sat_add32 :: "nat \<Rightarrow> nat \<Rightarrow> nat" where
  "sat_add32 a b = min (a + b) u32_max"

definition sat_mul32 :: "nat \<Rightarrow> nat \<Rightarrow> nat" where
  "sat_mul32 a b = min (a * b) u32_max"

definition clamp :: "nat \<Rightarrow> nat \<Rightarrow> nat \<Rightarrow> nat" where
  "clamp lo hi n = (if n < lo then lo else if hi < n then hi else n)"

lemma wrap16_id [simp]: "n < 65536 \<Longrightarrow> wrap16 n = n"
  by (simp add: wrap16_def)

lemma wrap16_less [simp]: "wrap16 n < 65536"
  by (simp add: wrap16_def)

lemma wrap16_le [simp]: "wrap16 n \<le> 65535"
  using wrap16_less [of n] by linarith

lemma wrap32_id [simp]: "n < 4294967296 \<Longrightarrow> wrap32 n = n"
  by (simp add: wrap32_def)

lemma wrap32_less [simp]: "wrap32 n < 4294967296"
  by (simp add: wrap32_def)

lemma sat_add16_le [simp]: "sat_add16 a b \<le> u16_max"
  by (simp add: sat_add16_def)

lemma sat_add16_exact: "a + b \<le> u16_max \<Longrightarrow> sat_add16 a b = a + b"
  by (simp add: sat_add16_def)

lemma clamp_le: "lo \<le> hi \<Longrightarrow> clamp lo hi n \<le> hi"
  by (simp add: clamp_def)

lemma clamp_ge: "lo \<le> hi \<Longrightarrow> lo \<le> clamp lo hi n"
  by (simp add: clamp_def)

lemma clamp_id: "lo \<le> n \<Longrightarrow> n \<le> hi \<Longrightarrow> clamp lo hi n = n"
  by (simp add: clamp_def)

lemma unat_u8_less [simp]: "unat (b :: u8) < 256"
  using unsigned_less [of b] by simp

lemma unat_u8_le [simp]: "unat (b :: u8) \<le> 255"
  using unat_u8_less [of b] by linarith

section \<open>Lists\<close>

text \<open>
  A slice's \<open>get\<close>: the element, or nothing past the end.  Where the source indexes
  with \<open>xs[i]\<close> the same \<open>None\<close> is the panic.
\<close>

definition lget :: "'a list \<Rightarrow> nat \<Rightarrow> 'a option" where
  "lget xs i = (if i < length xs then Some (xs ! i) else None)"

lemma lget_Some [simp]: "i < length xs \<Longrightarrow> lget xs i = Some (xs ! i)"
  by (simp add: lget_def)

lemma lget_None [simp]: "length xs \<le> i \<Longrightarrow> lget xs i = None"
  by (simp add: lget_def)

lemma lget_eq_Some_iff: "lget xs i = Some x \<longleftrightarrow> i < length xs \<and> xs ! i = x"
  by (auto simp: lget_def)

lemma lget_Nil [simp]: "lget [] i = None"
  by (simp add: lget_def)

lemma lget_Cons_0 [simp]: "lget (x # xs) 0 = Some x"
  by (simp add: lget_def)

lemma lget_Cons_Suc [simp]: "lget (x # xs) (Suc i) = lget xs i"
  by (simp add: lget_def)

text \<open>A loop \<open>for i in a..b\<close> that updates a state.\<close>

definition for_range :: "nat \<Rightarrow> nat \<Rightarrow> (nat \<Rightarrow> 's \<Rightarrow> 's) \<Rightarrow> 's \<Rightarrow> 's" where
  "for_range a b f s = fold f [a..<b] s"

lemma for_range_empty [simp]: "b \<le> a \<Longrightarrow> for_range a b f s = s"
  by (simp add: for_range_def)

lemma for_range_Suc: "a \<le> b \<Longrightarrow> for_range a (Suc b) f s = f b (for_range a b f s)"
  by (simp add: for_range_def)

text \<open>The invariant rule for such a loop.\<close>

lemma for_range_inv:
  assumes "P s" and "\<And>i t. a \<le> i \<Longrightarrow> i < b \<Longrightarrow> P t \<Longrightarrow> P (f i t)"
  shows "P (for_range a b f s)"
proof -
  have "\<forall>i \<in> set xs. a \<le> i \<and> i < b \<Longrightarrow> P t \<Longrightarrow> P (fold f xs t)" for xs t
    by (induction xs arbitrary: t) (auto intro: assms(2))
  then show ?thesis using assms(1) by (simp add: for_range_def)
qed

text \<open>A projection no iteration changes is unchanged by the loop.\<close>

lemma for_range_frame:
  assumes "\<And>i t. g (f i t) = g t"
  shows "g (for_range a b f s) = g s"
  by (rule for_range_inv [of "\<lambda>t. g t = g s"]) (simp_all add: assms)

lemma nth_replicate_update:
  "i < n \<Longrightarrow> (replicate n x)[j := y] ! i = (if i = j then y else x)"
  by (simp add: nth_list_update)

lemma list_all2_take_drop_split: "xs = take k xs @ drop k xs"
  by simp

text \<open>The elements kept by \<open>filter\<close> satisfy the predicate.\<close>

lemma list_all_filter_self [simp]: "list_all P (filter P xs)"
  by (simp add: list_all_iff)

lemma fold_inv:
  assumes "P s" and "\<And>x t. x \<in> set xs \<Longrightarrow> P t \<Longrightarrow> P (f x t)"
  shows "P (fold f xs s)"
  using assms by (induction xs arbitrary: s) auto

section \<open>Panics\<close>

text \<open>
  A fold whose step may panic: the first panic ends it, as it would end the loop.
\<close>

fun foldM :: "('a \<Rightarrow> 's \<Rightarrow> 's option) \<Rightarrow> 'a list \<Rightarrow> 's \<Rightarrow> 's option" where
  "foldM f [] s = Some s"
| "foldM f (x # xs) s = Option.bind (f x s) (foldM f xs)"

lemma foldM_append: "foldM f (xs @ ys) s = Option.bind (foldM f xs s) (foldM f ys)"
proof (induction xs arbitrary: s)
  case (Cons x xs)
  then show ?case by (cases "f x s") simp_all
qed simp

lemma foldM_inv:
  assumes "foldM f xs s = Some t" and "P s"
    and "\<And>x u v. x \<in> set xs \<Longrightarrow> P u \<Longrightarrow> f x u = Some v \<Longrightarrow> P v"
  shows "P t"
  using assms by (induction xs arbitrary: s) (auto simp: Option.bind_eq_Some_conv)

lemma foldM_total:
  assumes "P s" and "\<And>x u. x \<in> set xs \<Longrightarrow> P u \<Longrightarrow> \<exists>v. f x u = Some v \<and> P v"
  shows "\<exists>t. foldM f xs s = Some t \<and> P t"
  using assms
proof (induction xs arbitrary: s)
  case Nil
  then show ?case by simp
next
  case (Cons x xs)
  from Cons.prems obtain v where v: "f x s = Some v" "P v" by fastforce
  moreover have "\<exists>t. foldM f xs v = Some t \<and> P t"
    using Cons.IH [OF v(2)] Cons.prems(2) by simp
  ultimately show ?case by simp
qed

text \<open>Where no step panics the loop is the plain fold.\<close>

lemma foldM_fold:
  assumes "P s" and "\<And>x u. x \<in> set xs \<Longrightarrow> P u \<Longrightarrow> f x u = Some (g x u) \<and> P (g x u)"
  shows "foldM f xs s = Some (fold g xs s) \<and> P (fold g xs s)"
  using assms by (induction xs arbitrary: s) auto

end
