(* ===== verification/Rust_Std.thy ===== *)
theory Rust_Std
  imports Prelude
begin

text \<open>
  What the program uses of Rust's \<open>core\<close> and \<open>std\<close>: characters and UTF-8,
  \<open>str\<close> slicing at character boundaries, trimming, splitting, integer parsing
  and the formatting of numbers.  A \<open>char\<close> is a Unicode scalar value, kept as
  its code point; a \<open>String\<close> or \<open>str\<close> is the list of its characters, and its
  \<open>len()\<close> is the number of bytes of the UTF-8 encoding.
\<close>

type_synonym uchar = nat
type_synonym rstr = "uchar list"

definition lit :: "string \<Rightarrow> rstr" where
  "lit s = map of_char s"

definition blit :: "string \<Rightarrow> byte list" where
  "blit s = map of_char s"

definition is_scalar :: "uchar \<Rightarrow> bool" where
  "is_scalar c \<longleftrightarrow> c < 55296 \<or> (57344 \<le> c \<and> c < 1114112)"

section \<open>UTF-8\<close>

definition utf8_enc :: "uchar \<Rightarrow> byte list" where
  "utf8_enc c =
     (if c < 128 then [of_nat c]
      else if c < 2048 then [of_nat (192 + c div 64), of_nat (128 + c mod 64)]
      else if c < 65536 then
        [of_nat (224 + c div 4096), of_nat (128 + c div 64 mod 64), of_nat (128 + c mod 64)]
      else
        [of_nat (240 + c div 262144), of_nat (128 + c div 4096 mod 64),
         of_nat (128 + c div 64 mod 64), of_nat (128 + c mod 64)])"

definition len_utf8 :: "uchar \<Rightarrow> nat" where
  "len_utf8 c = (if c < 128 then 1 else if c < 2048 then 2 else if c < 65536 then 3 else 4)"

definition str_len :: "rstr \<Rightarrow> nat" where
  "str_len s = sum_list (map len_utf8 s)"

definition as_bytes :: "rstr \<Rightarrow> byte list" where
  "as_bytes s = concat (map utf8_enc s)"

text \<open>
  One step of the decoder: the character at the front with its width, or the
  length of the maximal invalid prefix (at least one byte).  Reading past the end
  yields a byte that continues nothing.
\<close>

definition byte_at :: "byte list \<Rightarrow> nat \<Rightarrow> nat" where
  "byte_at bs i = (if i < length bs then unat (bs ! i) else 0)"

definition is_cont :: "nat \<Rightarrow> bool" where
  "is_cont b \<longleftrightarrow> 128 \<le> b \<and> b \<le> 191"

definition second3_ok :: "nat \<Rightarrow> nat \<Rightarrow> bool" where
  "second3_ok b0 b1 \<longleftrightarrow>
     (b0 = 224 \<and> 160 \<le> b1 \<and> b1 \<le> 191) \<or>
     (225 \<le> b0 \<and> b0 \<le> 236 \<and> is_cont b1) \<or>
     (b0 = 237 \<and> 128 \<le> b1 \<and> b1 \<le> 159) \<or>
     (238 \<le> b0 \<and> b0 \<le> 239 \<and> is_cont b1)"

definition second4_ok :: "nat \<Rightarrow> nat \<Rightarrow> bool" where
  "second4_ok b0 b1 \<longleftrightarrow>
     (b0 = 240 \<and> 144 \<le> b1 \<and> b1 \<le> 191) \<or>
     (241 \<le> b0 \<and> b0 \<le> 243 \<and> is_cont b1) \<or>
     (b0 = 244 \<and> 128 \<le> b1 \<and> b1 \<le> 143)"

definition utf8_step :: "byte list \<Rightarrow> uchar option \<times> nat" where
  "utf8_step bs =
     (let b0 = byte_at bs 0; b1 = byte_at bs 1; b2 = byte_at bs 2; b3 = byte_at bs 3 in
      if b0 < 128 then (Some b0, 1)
      else if 194 \<le> b0 \<and> b0 \<le> 223 then
        (if is_cont b1 then (Some ((b0 - 192) * 64 + (b1 - 128)), 2) else (None, 1))
      else if 224 \<le> b0 \<and> b0 \<le> 239 then
        (if \<not> second3_ok b0 b1 then (None, 1)
         else if \<not> is_cont b2 then (None, 2)
         else (Some ((b0 - 224) * 4096 + (b1 - 128) * 64 + (b2 - 128)), 3))
      else if 240 \<le> b0 \<and> b0 \<le> 244 then
        (if \<not> second4_ok b0 b1 then (None, 1)
         else if \<not> is_cont b2 then (None, 2)
         else if \<not> is_cont b3 then (None, 3)
         else (Some ((b0 - 240) * 262144 + (b1 - 128) * 4096 + (b2 - 128) * 64 + (b3 - 128)), 4))
      else (None, 1))"

lemma utf8_step_pos: "0 < snd (utf8_step bs)"
  by (simp add: utf8_step_def Let_def)

function from_utf8 :: "byte list \<Rightarrow> rstr option" where
  "from_utf8 bs =
     (if bs = [] then Some []
      else case utf8_step bs of
        (None, _) \<Rightarrow> None
      | (Some c, n) \<Rightarrow> map_option (Cons c) (from_utf8 (drop n bs)))"
  by pat_completeness auto
termination
  by (relation "measure length") (auto, metis diff_less length_greater_0_conv snd_conv utf8_step_pos)

declare from_utf8.simps [simp del]

text \<open>\<open>String::from_utf8_lossy\<close>: each maximal invalid prefix becomes U+FFFD.\<close>

function from_utf8_lossy :: "byte list \<Rightarrow> rstr" where
  "from_utf8_lossy bs =
     (if bs = [] then []
      else case utf8_step bs of
        (c, n) \<Rightarrow> (case c of None \<Rightarrow> 65533 | Some c' \<Rightarrow> c') # from_utf8_lossy (drop n bs))"
  by pat_completeness auto
termination
  by (relation "measure length") (auto, metis diff_less length_greater_0_conv snd_conv utf8_step_pos)

declare from_utf8_lossy.simps [simp del]

lemma from_utf8_Nil [simp]: "from_utf8 [] = Some []"
  by (simp add: from_utf8.simps)

lemma from_utf8_lossy_Nil [simp]: "from_utf8_lossy [] = []"
  by (simp add: from_utf8_lossy.simps)

lemma len_utf8_pos [simp]: "0 < len_utf8 c"
  by (simp add: len_utf8_def)

lemma len_utf8_le [simp]: "len_utf8 c \<le> 4"
  by (simp add: len_utf8_def)

lemma str_len_Nil [simp]: "str_len [] = 0"
  and str_len_Cons [simp]: "str_len (c # s) = len_utf8 c + str_len s"
  and str_len_append [simp]: "str_len (s @ t) = str_len s + str_len t"
  by (simp_all add: str_len_def)

lemma str_len_0_iff [simp]: "str_len s = 0 \<longleftrightarrow> s = []"
  by (cases s) (auto simp: len_utf8_def)

lemma str_len_filter: "str_len (filter P s) \<le> str_len s"
  by (induction s) auto

lemma str_len_take: "str_len (take n s) \<le> str_len s"
  by (induction s arbitrary: n) (auto simp: take_Cons split: nat.splits)

lemma length_le_str_len: "length s \<le> str_len s"
proof (induction s)
  case (Cons c s)
  then show ?case using len_utf8_pos [of c] by (simp del: len_utf8_pos)
qed simp

lemma length_utf8_enc [simp]: "length (utf8_enc c) = len_utf8 c"
  by (simp add: utf8_enc_def len_utf8_def)

lemma utf8_enc_not_Nil [simp]: "utf8_enc c \<noteq> []"
  by (simp add: utf8_enc_def)

lemma length_as_bytes [simp]: "length (as_bytes s) = str_len s"
  by (induction s) (simp_all add: as_bytes_def)

lemma as_bytes_Nil [simp]: "as_bytes [] = []"
  and as_bytes_Cons [simp]: "as_bytes (c # s) = utf8_enc c @ as_bytes s"
  and as_bytes_append [simp]: "as_bytes (s @ t) = as_bytes s @ as_bytes t"
  by (simp_all add: as_bytes_def)

lemma unat_of_nat_u8: "n < 256 \<Longrightarrow> unat (of_nat n :: u8) = n"
  by (simp add: unat_of_nat)

lemma unat_numeral_add_u8:
  "numeral k + n < (256 :: nat) \<Longrightarrow> unat (numeral k + of_nat n :: u8) = numeral k + n"
  by (metis of_nat_add of_nat_numeral unat_of_nat_u8)

text \<open>The decoder reads back what the encoder wrote, one width at a time.\<close>

lemma utf8_step_2:
  assumes "2 \<le> r" "r < 32" "t < 64"
  shows "utf8_step (of_nat (192 + r) # of_nat (128 + t) # bs) = (Some (r * 64 + t), 2)"
  using assms
  by (simp add: utf8_step_def byte_at_def unat_numeral_add_u8 is_cont_def Let_def)

lemma utf8_step_3:
  assumes "q < 16" "r < 64" "t < 64" "q = 0 \<Longrightarrow> 32 \<le> r" "q = 13 \<Longrightarrow> r < 32"
  shows "utf8_step (of_nat (224 + q) # of_nat (128 + r) # of_nat (128 + t) # bs) =
    (Some (q * 4096 + r * 64 + t), 3)"
proof -
  have "second3_ok (224 + q) (128 + r)"
    using assms by (cases "q = 0"; cases "q = 13") (auto simp: second3_ok_def is_cont_def)
  then show ?thesis using assms(1-3)
    by (simp add: utf8_step_def byte_at_def unat_numeral_add_u8 is_cont_def Let_def)
qed

lemma utf8_step_4:
  assumes "p < 5" "q < 64" "r < 64" "t < 64" "p = 0 \<Longrightarrow> 16 \<le> q" "p = 4 \<Longrightarrow> q < 16"
  shows "utf8_step (of_nat (240 + p) # of_nat (128 + q) # of_nat (128 + r) # of_nat (128 + t) # bs) =
    (Some (p * 262144 + q * 4096 + r * 64 + t), 4)"
proof -
  have "second4_ok (240 + p) (128 + q)"
    using assms by (cases "p = 0"; cases "p = 4") (auto simp: second4_ok_def is_cont_def)
  then show ?thesis using assms(1-4)
    by (simp add: utf8_step_def byte_at_def unat_numeral_add_u8 is_cont_def Let_def)
qed

lemma utf8_split3: "(c :: nat) = c div 4096 * 4096 + c div 64 mod 64 * 64 + c mod 64"
proof -
  have "c div 4096 = c div 64 div 64" by (simp flip: div_mult2_eq)
  moreover have "c = c div 64 * 64 + c mod 64" by simp
  moreover have "c div 64 = c div 64 div 64 * 64 + c div 64 mod 64" by simp
  ultimately show ?thesis by linarith
qed

lemma utf8_split4:
  "(c :: nat) = c div 262144 * 262144 + c div 4096 mod 64 * 4096 + c div 64 mod 64 * 64 + c mod 64"
proof -
  have "c div 262144 = c div 4096 div 64" by (simp flip: div_mult2_eq)
  moreover have "c div 4096 = c div 4096 div 64 * 64 + c div 4096 mod 64" by simp
  ultimately show ?thesis using utf8_split3 [of c] by linarith
qed

lemma utf8_step_enc:
  assumes "is_scalar c"
  shows "utf8_step (utf8_enc c @ bs) = (Some c, len_utf8 c)"
proof -
  consider (a) "c < 128" | (b) "128 \<le> c" "c < 2048" | (d) "2048 \<le> c" "c < 65536"
    | (e) "65536 \<le> c" "c < 1114112"
    using assms by (force simp: is_scalar_def)
  then show ?thesis
  proof cases
    case a
    then show ?thesis
      by (simp add: utf8_step_def utf8_enc_def len_utf8_def byte_at_def unat_of_nat_u8)
  next
    case b
    then have "utf8_step (of_nat (192 + c div 64) # of_nat (128 + c mod 64) # bs) =
        (Some (c div 64 * 64 + c mod 64), 2)"
      by (intro utf8_step_2) auto
    with b show ?thesis by (simp add: utf8_enc_def len_utf8_def del: of_nat_add)
  next
    case d
    have t: "c mod 64 < 64" by simp
    have "c div 4096 = 0 \<Longrightarrow> 32 \<le> c div 64 mod 64" using d(1) utf8_split3 [of c] t by linarith
    moreover have "c div 4096 = 13 \<Longrightarrow> c div 64 mod 64 < 32"
    proof -
      assume q: "c div 4096 = 13"
      then have "c < 57344" using utf8_split3 [of c] t by linarith
      with assms have "c < 55296" by (simp add: is_scalar_def)
      with q show ?thesis using utf8_split3 [of c] by linarith
    qed
    ultimately have "utf8_step (of_nat (224 + c div 4096) # of_nat (128 + c div 64 mod 64)
        # of_nat (128 + c mod 64) # bs)
      = (Some (c div 4096 * 4096 + c div 64 mod 64 * 64 + c mod 64), 3)"
      using d(2) by (intro utf8_step_3) auto
    with d show ?thesis
      by (simp add: utf8_enc_def len_utf8_def flip: utf8_split3 del: of_nat_add)
  next
    case e
    have t: "c mod 64 < 64" "c div 64 mod 64 < 64" by simp_all
    have "c div 262144 = 0 \<Longrightarrow> 16 \<le> c div 4096 mod 64"
      using e(1) utf8_split4 [of c] t by linarith
    moreover have "c div 262144 = 4 \<Longrightarrow> c div 4096 mod 64 < 16"
      using e(2) utf8_split4 [of c] t by linarith
    ultimately have "utf8_step (of_nat (240 + c div 262144) # of_nat (128 + c div 4096 mod 64)
        # of_nat (128 + c div 64 mod 64) # of_nat (128 + c mod 64) # bs)
      = (Some (c div 262144 * 262144 + c div 4096 mod 64 * 4096 + c div 64 mod 64 * 64 + c mod 64), 4)"
      using e(2) by (intro utf8_step_4) auto
    with e show ?thesis
      by (simp add: utf8_enc_def len_utf8_def flip: utf8_split4 del: of_nat_add)
  qed
qed

lemma from_utf8_as_bytes: "list_all is_scalar s \<Longrightarrow> from_utf8 (as_bytes s) = Some s"
proof (induction s)
  case (Cons c s)
  then show ?case
    by (subst from_utf8.simps) (simp add: utf8_step_enc)
qed simp

lemma from_utf8_lossy_as_bytes: "list_all is_scalar s \<Longrightarrow> from_utf8_lossy (as_bytes s) = s"
proof (induction s)
  case (Cons c s)
  then show ?case
    by (subst from_utf8_lossy.simps) (simp add: utf8_step_enc)
qed simp

end
