(* ===== verification/Rust_Str.thy ===== *)
theory Rust_Str
  imports Rust_Std
begin

text \<open>
  The \<open>str\<close> methods the program calls: character boundaries and slices,
  trimming, splitting, prefix tests, integer parsing and number formatting.
\<close>

section \<open>Character boundaries and slices\<close>

fun is_char_boundary :: "rstr \<Rightarrow> nat \<Rightarrow> bool" where
  "is_char_boundary [] n = (n = 0)"
| "is_char_boundary (c # s) n =
     (n = 0 \<or> (len_utf8 c \<le> n \<and> is_char_boundary s (n - len_utf8 c)))"

text \<open>The characters that fit in the first \<open>n\<close> bytes.\<close>

fun take_bytes :: "nat \<Rightarrow> rstr \<Rightarrow> rstr" where
  "take_bytes n [] = []"
| "take_bytes n (c # s) = (if len_utf8 c \<le> n then c # take_bytes (n - len_utf8 c) s else [])"

text \<open>\<open>&s[..n]\<close>: panics off a character boundary and past the end.\<close>

definition slice_to :: "rstr \<Rightarrow> nat \<Rightarrow> rstr option" where
  "slice_to s n = (if is_char_boundary s n then Some (take_bytes n s) else None)"

text \<open>The loop that walks an end index down to a character boundary.\<close>

fun floor_boundary :: "rstr \<Rightarrow> nat \<Rightarrow> nat" where
  "floor_boundary s 0 = 0"
| "floor_boundary s (Suc n) =
     (if is_char_boundary s (Suc n) then Suc n else floor_boundary s n)"

lemma is_char_boundary_0 [simp]: "is_char_boundary s 0"
  by (cases s) auto

lemma is_char_boundary_len [simp]: "is_char_boundary s (str_len s)"
  by (induction s) auto

lemma is_char_boundary_le: "is_char_boundary s n \<Longrightarrow> n \<le> str_len s"
  by (induction s n rule: is_char_boundary.induct) auto

lemma take_bytes_len: "str_len (take_bytes n s) \<le> n"
  by (induction n s rule: take_bytes.induct) auto

lemma take_bytes_prefix: "\<exists>r. s = take_bytes n s @ r"
  by (induction n s rule: take_bytes.induct) auto

lemma take_bytes_set: "set (take_bytes n s) \<subseteq> set s"
  by (induction n s rule: take_bytes.induct) auto

lemma take_bytes_all: "str_len s \<le> n \<Longrightarrow> take_bytes n s = s"
  by (induction n s rule: take_bytes.induct) auto

lemma take_bytes_boundary: "is_char_boundary s n \<Longrightarrow> str_len (take_bytes n s) = n"
  by (induction s n rule: is_char_boundary.induct) auto

text \<open>The prefix is maximal: one more character would not fit.\<close>

lemma take_bytes_maximal:
  "s = take_bytes n s @ c # r \<Longrightarrow> n < str_len (take_bytes n s) + len_utf8 c"
  by (induction n s rule: take_bytes.induct) (auto split: if_splits)

text \<open>Walking down from \<open>n\<close> to a boundary stops at the bytes the fitting prefix uses.\<close>

lemma is_char_boundary_take_bytes: "is_char_boundary s (str_len (take_bytes n s))"
  by (induction n s rule: take_bytes.induct) auto

lemma boundary_between:
  "is_char_boundary s m \<Longrightarrow> str_len (take_bytes n s) \<le> m \<Longrightarrow> m \<le> n \<Longrightarrow>
   m = str_len (take_bytes n s)"
proof (induction n s arbitrary: m rule: take_bytes.induct)
  case (1 n)
  then show ?case by simp
next
  case (2 n c s)
  show ?case
  proof (cases "len_utf8 c \<le> n")
    case True
    with "2.prems"(2) have "0 < m" using len_utf8_pos [of c] by (simp del: len_utf8_pos)
    with True "2.prems" have "len_utf8 c \<le> m" "is_char_boundary s (m - len_utf8 c)"
      "str_len (take_bytes (n - len_utf8 c) s) \<le> m - len_utf8 c" "m - len_utf8 c \<le> n - len_utf8 c"
      by auto
    with "2.IH" [OF True] have "m - len_utf8 c = str_len (take_bytes (n - len_utf8 c) s)" by blast
    with True \<open>len_utf8 c \<le> m\<close> show ?thesis by simp
  next
    case False
    with "2.prems" show ?thesis by auto
  qed
qed

lemma floor_boundary_eq: "floor_boundary s n = str_len (take_bytes n s)"
proof -
  have "str_len (take_bytes n s) \<le> m \<Longrightarrow> m \<le> n \<Longrightarrow> floor_boundary s m = str_len (take_bytes n s)" for m
  proof (induction m)
    case 0
    then show ?case by simp
  next
    case (Suc m)
    show ?case
    proof (cases "is_char_boundary s (Suc m)")
      case True
      with Suc.prems show ?thesis by (simp add: boundary_between)
    next
      case False
      then have "str_len (take_bytes n s) \<noteq> Suc m"
        using is_char_boundary_take_bytes [of s n] by auto
      with Suc False show ?thesis by simp
    qed
  qed
  then show ?thesis using take_bytes_len by blast
qed

lemma slice_to_floor_boundary: "slice_to s (floor_boundary s n) = Some (take_bytes n s)"
proof -
  have "take_bytes (str_len (take_bytes n s)) s = take_bytes n s"
    by (induction n s rule: take_bytes.induct) auto
  then show ?thesis
    by (simp add: slice_to_def floor_boundary_eq is_char_boundary_take_bytes)
qed

section \<open>Trimming\<close>

text \<open>The characters with the Unicode property White_Space.\<close>

definition is_whitespace :: "uchar \<Rightarrow> bool" where
  "is_whitespace c \<longleftrightarrow>
     (9 \<le> c \<and> c \<le> 13) \<or> c = 32 \<or> c = 133 \<or> c = 160 \<or> c = 5760 \<or>
     (8192 \<le> c \<and> c \<le> 8202) \<or> c = 8232 \<or> c = 8233 \<or> c = 8239 \<or> c = 8287 \<or> c = 12288"

definition trim_by :: "('a \<Rightarrow> bool) \<Rightarrow> 'a list \<Rightarrow> 'a list" where
  "trim_by P s = rev (dropWhile P (rev (dropWhile P s)))"

definition trim :: "rstr \<Rightarrow> rstr" where
  "trim s = trim_by is_whitespace s"

definition is_ascii_whitespace :: "byte \<Rightarrow> bool" where
  "is_ascii_whitespace b \<longleftrightarrow> b = 32 \<or> b = 9 \<or> b = 10 \<or> b = 12 \<or> b = 13"

definition trim_ascii :: "byte list \<Rightarrow> byte list" where
  "trim_ascii s = trim_by is_ascii_whitespace s"

section \<open>Splitting\<close>

text \<open>\<open>split(c)\<close>: the pieces between the separators, at least one.\<close>

fun split_on :: "'a \<Rightarrow> 'a list \<Rightarrow> 'a list list" where
  "split_on sep [] = [[]]"
| "split_on sep (c # s) =
     (if c = sep then [] # split_on sep s
      else case split_on sep s of p # ps \<Rightarrow> (c # p) # ps | [] \<Rightarrow> [[c]])"

definition split_once :: "'a \<Rightarrow> 'a list \<Rightarrow> ('a list \<times> 'a list) option" where
  "split_once sep s =
     (case dropWhile (\<lambda>c. c \<noteq> sep) s of
        [] \<Rightarrow> None
      | _ # r \<Rightarrow> Some (takeWhile (\<lambda>c. c \<noteq> sep) s, r))"

definition strip_prefix :: "'a list \<Rightarrow> 'a list \<Rightarrow> 'a list option" where
  "strip_prefix p s = (if take (length p) s = p then Some (drop (length p) s) else None)"

definition starts_with :: "'a list \<Rightarrow> 'a list \<Rightarrow> bool" where
  "starts_with s p \<longleftrightarrow> take (length p) s = p"

definition position :: "('a \<Rightarrow> bool) \<Rightarrow> 'a list \<Rightarrow> nat option" where
  "position P s = (let n = length (takeWhile (\<lambda>x. \<not> P x) s) in
     if n < length s then Some n else None)"

lemma split_on_not_Nil [simp]: "split_on sep s \<noteq> []"
  by (cases s) (auto split: list.splits)

text \<open>Joining the pieces with the separator gives the text back.\<close>

fun join_with :: "'a \<Rightarrow> 'a list list \<Rightarrow> 'a list" where
  "join_with sep [] = []"
| "join_with sep [p] = p"
| "join_with sep (p # ps) = p @ sep # join_with sep ps"

lemma split_on_single: "sep \<notin> set p \<Longrightarrow> split_on sep p = [p]"
  by (induction p) auto

lemma join_split_on: "join_with sep (split_on sep s) = s"
proof (induction s)
  case (Cons c s)
  obtain p ps where "split_on sep s = p # ps" by (cases "split_on sep s") auto
  with Cons show ?case by (cases ps) auto
qed simp

lemma split_on_no_sep: "p \<in> set (split_on sep s) \<Longrightarrow> sep \<notin> set p"
  by (induction s arbitrary: p) (auto split: if_splits list.splits)

lemma position_less: "position P s = Some n \<Longrightarrow> n < length s"
  by (auto simp: position_def Let_def split: if_splits)

lemma position_hit:
  assumes "position P s = Some n"
  shows "P (s ! n)"
proof -
  have n: "n = length (takeWhile (\<lambda>x. \<not> P x) s)" and l: "n < length s"
    using assms by (auto simp: position_def Let_def split: if_splits)
  from nth_length_takeWhile [of "\<lambda>x. \<not> P x" s] n l show ?thesis by simp
qed

section \<open>Parsing integers\<close>

definition is_ascii_digit :: "uchar \<Rightarrow> bool" where
  "is_ascii_digit c \<longleftrightarrow> 48 \<le> c \<and> c \<le> 57"

definition digits_val :: "rstr \<Rightarrow> nat" where
  "digits_val s = fold (\<lambda>c v. v * 10 + (c - 48)) s 0"

text \<open>
  \<open>parse\<close> of an unsigned type with the greatest value \<open>mx\<close>: one leading \<open>+\<close> is
  accepted, then decimal digits, at least one.  The overflow check after each
  digit is a check of the final value, since the value only grows.
\<close>

definition parse_uint :: "nat \<Rightarrow> rstr \<Rightarrow> nat option" where
  "parse_uint mx s =
     (let ds = (case s of [] \<Rightarrow> [] | c # r \<Rightarrow> if c = 43 then r else s) in
      if ds = [] \<or> \<not> list_all is_ascii_digit ds then None
      else if digits_val ds \<le> mx then Some (digits_val ds) else None)"

definition parse_i32 :: "rstr \<Rightarrow> int option" where
  "parse_i32 s =
     (case s of
        [] \<Rightarrow> None
      | c # r \<Rightarrow>
          (if c = 45 then map_option (\<lambda>n. - int n)
             (if r = [] \<or> \<not> list_all is_ascii_digit r then None
              else if digits_val r \<le> 2147483648 then Some (digits_val r) else None)
           else map_option int (parse_uint 2147483647 s)))"

lemma parse_uint_le: "parse_uint mx s = Some n \<Longrightarrow> n \<le> mx"
  by (auto simp: parse_uint_def Let_def split: if_splits)

lemma parse_i32_range:
  "parse_i32 s = Some n \<Longrightarrow> -2147483648 \<le> n \<and> n \<le> 2147483647"
  by (auto simp: parse_i32_def dest!: parse_uint_le split: list.splits if_splits)

definition hex_digit :: "uchar \<Rightarrow> nat option" where
  "hex_digit c =
     (if 48 \<le> c \<and> c \<le> 57 then Some (c - 48)
      else if 97 \<le> c \<and> c \<le> 102 then Some (c - 87)
      else if 65 \<le> c \<and> c \<le> 70 then Some (c - 55)
      else None)"

definition is_ascii_hexdigit :: "uchar \<Rightarrow> bool" where
  "is_ascii_hexdigit c \<longleftrightarrow> hex_digit c \<noteq> None"

definition hex_val :: "rstr \<Rightarrow> nat" where
  "hex_val s = fold (\<lambda>c v. v * 16 + the (hex_digit c)) s 0"

lemma hex_digit_less: "hex_digit c = Some n \<Longrightarrow> n < 16"
  by (auto simp: hex_digit_def split: if_splits)

lemma hex_val_snoc [simp]: "hex_val (s @ [c]) = hex_val s * 16 + the (hex_digit c)"
  by (simp add: hex_val_def)

lemma hex_val_less: "list_all is_ascii_hexdigit s \<Longrightarrow> hex_val s < 16 ^ length s"
proof (induction s rule: rev_induct)
  case Nil
  then show ?case by (simp add: hex_val_def)
next
  case (snoc c s)
  then have "the (hex_digit c) < 16"
    by (auto simp: is_ascii_hexdigit_def hex_digit_less)
  with snoc show ?case by simp
qed

section \<open>Formatting numbers\<close>

text \<open>Decimal, as \<open>{}\<close> prints it; two lower-case hexadecimal digits, as \<open>{:02x}\<close>.\<close>

fun dec :: "nat \<Rightarrow> rstr" where
  "dec n = (if n < 10 then [48 + n] else dec (n div 10) @ [48 + n mod 10])"

declare dec.simps [simp del]

definition hexd :: "nat \<Rightarrow> uchar" where
  "hexd n = (if n < 10 then 48 + n else 87 + n)"

definition hex02 :: "u8 \<Rightarrow> rstr" where
  "hex02 b = [hexd (unat b div 16), hexd (unat b mod 16)]"

lemma digits_val_snoc [simp]: "digits_val (s @ [c]) = digits_val s * 10 + (c - 48)"
  by (simp add: digits_val_def)

lemma dec_digits: "list_all is_ascii_digit (dec n) \<and> dec n \<noteq> []"
proof (induction n rule: dec.induct)
  case (1 n)
  have "is_ascii_digit (48 + n)" if "n < 10" using that by (simp add: is_ascii_digit_def)
  moreover have "is_ascii_digit (48 + n mod 10)" by (simp add: is_ascii_digit_def)
  ultimately show ?case using 1
    by (subst (1 2) dec.simps) auto
qed

lemma digits_val_dec: "digits_val (dec n) = n"
proof (induction n rule: dec.induct)
  case (1 n)
  show ?case
  proof (cases "n < 10")
    case True
    then show ?thesis by (subst dec.simps) (simp add: digits_val_def)
  next
    case False
    with 1 show ?thesis by (subst dec.simps) simp
  qed
qed

lemma parse_uint_dec: "n \<le> mx \<Longrightarrow> parse_uint mx (dec n) = Some n"
proof -
  assume n: "n \<le> mx"
  have d: "list_all is_ascii_digit (dec n)" "dec n \<noteq> []" using dec_digits by auto
  then have "(case dec n of [] \<Rightarrow> [] | c # r \<Rightarrow> if c = 43 then r else dec n) = dec n"
    by (cases "dec n") (auto simp: is_ascii_digit_def)
  with n d show ?thesis
    by (simp add: parse_uint_def Let_def digits_val_dec)
qed

lemma hex_digit_hexd: "n < 16 \<Longrightarrow> hex_digit (hexd n) = Some n"
  by (auto simp: hex_digit_def hexd_def)

lemma hex_val_hex02: "hex_val (hex02 b) = unat b"
proof -
  have "unat b div 16 < 16" using unat_u8_less [of b] by (intro less_mult_imp_div_less) simp
  then show ?thesis
    by (simp add: hex_val_def hex02_def hex_digit_hexd)
qed

end
