(* ===== verification/Cell_Grid.thy ===== *)
theory Cell_Grid
  imports Rust_Str
begin

text \<open>
  The cell and grid types of \<open>nexterm-proto\<close> (\<open>src/cell.rs\<close>, \<open>src/grid.rs\<close>):
  attribute bits, colours, cells, the W x H grid and its bounds-checked operations.
  The interface \<open>cell_store\<close> states what a grid promises to code that fills
  runs of cells; the grid is its instance.
\<close>

section \<open>Cells\<close>

type_synonym attrs = u8

definition BOLD :: u8 where "BOLD = 1"
definition ITALIC :: u8 where "ITALIC = 2"
definition UNDERLINE :: u8 where "UNDERLINE = 4"
definition BLINK :: u8 where "BLINK = 8"
definition REVERSE :: u8 where "REVERSE = 16"
definition STRIKETHROUGH :: u8 where "STRIKETHROUGH = 32"

lemmas attr_flag_defs = BOLD_def ITALIC_def UNDERLINE_def BLINK_def REVERSE_def STRIKETHROUGH_def

definition attrs_insert :: "u8 \<Rightarrow> attrs \<Rightarrow> attrs" where
  "attrs_insert flags a = a OR flags"

definition attrs_remove :: "u8 \<Rightarrow> attrs \<Rightarrow> attrs" where
  "attrs_remove flags a = a AND NOT flags"

definition is_bold :: "attrs \<Rightarrow> bool" where
  "is_bold a \<longleftrightarrow> a AND BOLD \<noteq> 0"

definition is_italic :: "attrs \<Rightarrow> bool" where
  "is_italic a \<longleftrightarrow> a AND ITALIC \<noteq> 0"

definition is_underline :: "attrs \<Rightarrow> bool" where
  "is_underline a \<longleftrightarrow> a AND UNDERLINE \<noteq> 0"

definition is_reverse :: "attrs \<Rightarrow> bool" where
  "is_reverse a \<longleftrightarrow> a AND REVERSE \<noteq> 0"

datatype color = Default | Indexed u8 | Rgb u8 u8 u8

record cell =
  cell_ch :: uchar
  cell_fg :: color
  cell_bg :: color
  cell_attrs :: attrs

definition default_cell :: cell where
  "default_cell = \<lparr>cell_ch = 32, cell_fg = Default, cell_bg = Default, cell_attrs = 0\<rparr>"

text \<open>Setting flags leaves the other bits alone, and removing undoes inserting.\<close>

lemma attrs_insert_idem [simp]: "attrs_insert f (attrs_insert f a) = attrs_insert f a"
  by (simp add: attrs_insert_def or.assoc)

lemma attrs_insert_has: "attrs_insert f a AND f = f"
  by (auto simp: attrs_insert_def bit_eq_iff bit_simps)

lemma attrs_remove_lacks: "attrs_remove f a AND f = 0"
  by (simp add: attrs_remove_def bit_eq_iff bit_simps)

lemma attrs_remove_insert: "a AND f = 0 \<Longrightarrow> attrs_remove f (attrs_insert f a) = a"
  by (auto simp: attrs_insert_def attrs_remove_def bit_eq_iff bit_simps)

lemma attrs_insert_other: "f AND g = 0 \<Longrightarrow> attrs_insert f a AND g = a AND g"
  by (auto simp: attrs_insert_def bit_eq_iff bit_simps)

lemma attrs_remove_other: "f AND g = 0 \<Longrightarrow> attrs_remove f a AND g = a AND g"
  by (auto simp: attrs_remove_def bit_eq_iff bit_simps)

section \<open>The grid\<close>

record dirty_row =
  dr_row :: nat
  dr_cells :: "cell list"

record hyperlink_span =
  hs_row :: nat
  hs_col_start :: nat
  hs_col_end :: nat
  hs_url :: rstr

record grid =
  g_width :: nat
  g_height :: nat
  g_rows :: "cell list list"
  g_cursor_col :: nat
  g_cursor_row :: nat
  g_hyperlinks :: "hyperlink_span list"

definition grid_new :: "nat \<Rightarrow> nat \<Rightarrow> grid" where
  "grid_new width height =
     \<lparr>g_width = width, g_height = height,
      g_rows = replicate height (replicate width default_cell),
      g_cursor_col = 0, g_cursor_row = 0, g_hyperlinks = []\<rparr>"

definition grid_get :: "grid \<Rightarrow> nat \<Rightarrow> nat \<Rightarrow> cell option" where
  "grid_get g col row = Option.bind (lget (g_rows g) row) (\<lambda>r. lget r col)"

definition grid_set :: "nat \<Rightarrow> nat \<Rightarrow> cell \<Rightarrow> grid \<Rightarrow> grid" where
  "grid_set col row c g =
     (case lget (g_rows g) row of
        None \<Rightarrow> g
      | Some r \<Rightarrow>
          (case lget r col of
             None \<Rightarrow> g
           | Some _ \<Rightarrow> g\<lparr>g_rows := (g_rows g)[row := r[col := c]]\<rparr>))"

definition grid_clear_row :: "nat \<Rightarrow> grid \<Rightarrow> grid" where
  "grid_clear_row row g =
     (case lget (g_rows g) row of
        None \<Rightarrow> g
      | Some r \<Rightarrow> g\<lparr>g_rows := (g_rows g)[row := map (\<lambda>_. default_cell) r]\<rparr>)"

definition apply_dirty_row :: "dirty_row \<Rightarrow> grid \<Rightarrow> grid" where
  "apply_dirty_row d g =
     (case lget (g_rows g) (dr_row d) of
        None \<Rightarrow> g
      | Some row \<Rightarrow>
          (if length row = length (dr_cells d)
           then g\<lparr>g_rows := (g_rows g)[dr_row d := dr_cells d]\<rparr>
           else (let n = min (length row) (length (dr_cells d)) in
             g\<lparr>g_rows := (g_rows g)[dr_row d := take n (dr_cells d) @ drop n row]\<rparr>)))"

definition grid_copy_row :: "nat \<Rightarrow> nat \<Rightarrow> grid \<Rightarrow> grid" where
  "grid_copy_row dst src g =
     (if dst = src then g
      else case lget (g_rows g) src of
        None \<Rightarrow> g
      | Some src_cells \<Rightarrow>
          (case lget (g_rows g) dst of
             None \<Rightarrow> g
           | Some _ \<Rightarrow> g\<lparr>g_rows := (g_rows g)[dst := src_cells]\<rparr>))"

text \<open>A grid is well shaped when it holds \<open>height\<close> rows of \<open>width\<close> cells each.\<close>

definition rows_shape :: "nat \<Rightarrow> nat \<Rightarrow> 'a list list \<Rightarrow> bool" where
  "rows_shape w h rs \<longleftrightarrow> length rs = h \<and> (\<forall>r \<in> set rs. length r = w)"

definition grid_wf :: "grid \<Rightarrow> bool" where
  "grid_wf g \<longleftrightarrow> g_width g \<le> u16_max \<and> g_height g \<le> u16_max \<and>
     rows_shape (g_width g) (g_height g) (g_rows g)"

lemma rows_shape_update [simp]:
  "rows_shape w h rs \<Longrightarrow> length r = w \<Longrightarrow> rows_shape w h (rs[i := r])"
  by (auto simp: rows_shape_def dest!: set_update_subset_insert [THEN subsetD])

lemma rows_shape_replicate [simp]: "rows_shape w h (replicate h (replicate w x))"
  by (simp add: rows_shape_def)

lemma rows_shape_nth: "rows_shape w h rs \<Longrightarrow> i < h \<Longrightarrow> length (rs ! i) = w"
  by (simp add: rows_shape_def)

lemma rows_shape_len: "rows_shape w h rs \<Longrightarrow> length rs = h"
  by (simp add: rows_shape_def)

lemma rows_shape_lget: "rows_shape w h rs \<Longrightarrow> lget rs i = Some r \<Longrightarrow> length r = w"
  by (auto simp: rows_shape_def lget_eq_Some_iff)

lemma rows_shape_lget_update:
  "rows_shape w h rs \<Longrightarrow> lget rs i = Some r \<Longrightarrow> length r' = length r \<Longrightarrow> rows_shape w h (rs[j := r'])"
  using rows_shape_lget by fastforce

text \<open>The operations touch the rows only, and keep their shape.\<close>

lemma grid_set_frame [grid_simps]:
  "g_width (grid_set col row c g) = g_width g"
  "g_height (grid_set col row c g) = g_height g"
  "g_cursor_col (grid_set col row c g) = g_cursor_col g"
  "g_cursor_row (grid_set col row c g) = g_cursor_row g"
  "g_hyperlinks (grid_set col row c g) = g_hyperlinks g"
  by (simp_all add: grid_set_def split: option.split)

lemma grid_clear_row_frame [grid_simps]:
  "g_width (grid_clear_row row g) = g_width g"
  "g_height (grid_clear_row row g) = g_height g"
  "g_cursor_col (grid_clear_row row g) = g_cursor_col g"
  "g_cursor_row (grid_clear_row row g) = g_cursor_row g"
  "g_hyperlinks (grid_clear_row row g) = g_hyperlinks g"
  by (simp_all add: grid_clear_row_def split: option.split)

lemma grid_copy_row_frame [grid_simps]:
  "g_width (grid_copy_row d s g) = g_width g"
  "g_height (grid_copy_row d s g) = g_height g"
  "g_cursor_col (grid_copy_row d s g) = g_cursor_col g"
  "g_cursor_row (grid_copy_row d s g) = g_cursor_row g"
  "g_hyperlinks (grid_copy_row d s g) = g_hyperlinks g"
  by (simp_all add: grid_copy_row_def split: option.split)

lemma apply_dirty_row_frame [grid_simps]:
  "g_width (apply_dirty_row d g) = g_width g"
  "g_height (apply_dirty_row d g) = g_height g"
  by (simp_all add: apply_dirty_row_def Let_def split: option.split)

lemma grid_wf_new [grid_simps]:
  "grid_wf (grid_new w h) \<longleftrightarrow> w \<le> u16_max \<and> h \<le> u16_max"
  by (simp add: grid_wf_def grid_new_def)

lemma grid_wf_set [grid_simps]: "grid_wf g \<Longrightarrow> grid_wf (grid_set col row c g)"
  by (auto simp: grid_wf_def grid_set_def split: option.split intro: rows_shape_lget_update)

lemma grid_wf_clear_row [grid_simps]: "grid_wf g \<Longrightarrow> grid_wf (grid_clear_row row g)"
  by (auto simp: grid_wf_def grid_clear_row_def split: option.split intro: rows_shape_lget_update)

lemma grid_wf_copy_row [grid_simps]: "grid_wf g \<Longrightarrow> grid_wf (grid_copy_row d s g)"
  by (auto simp: grid_wf_def grid_copy_row_def split: option.split intro: rows_shape_lget_update)

lemma grid_wf_apply_dirty_row [grid_simps]: "grid_wf g \<Longrightarrow> grid_wf (apply_dirty_row d g)"
  by (auto simp: grid_wf_def apply_dirty_row_def Let_def min_def
      split: option.split intro: rows_shape_lget_update)

text \<open>Reading back.\<close>

definition grid_inside :: "grid \<Rightarrow> nat \<Rightarrow> nat \<Rightarrow> bool" where
  "grid_inside g col row \<longleftrightarrow> row < length (g_rows g) \<and> col < length (g_rows g ! row)"

lemma grid_get_None_iff: "grid_get g col row = None \<longleftrightarrow> \<not> grid_inside g col row"
  by (auto simp: grid_get_def grid_inside_def lget_def)

lemma grid_wf_inside: "grid_wf g \<Longrightarrow> grid_inside g col row \<longleftrightarrow> col < g_width g \<and> row < g_height g"
  by (auto simp: grid_wf_def grid_inside_def rows_shape_def)

lemma grid_get_set_same: "grid_inside g col row \<Longrightarrow> grid_get (grid_set col row c g) col row = Some c"
  by (simp add: grid_get_def grid_set_def grid_inside_def)

lemma grid_get_set_other:
  "(col, row) \<noteq> (col', row') \<Longrightarrow> grid_get (grid_set col row c g) col' row' = grid_get g col' row'"
  by (cases "row < length (g_rows g)"; cases "row' < length (g_rows g)")
    (auto simp: grid_get_def grid_set_def lget_def nth_list_update)

lemma grid_set_outside: "\<not> grid_inside g col row \<Longrightarrow> grid_set col row c g = g"
  by (auto simp: grid_set_def grid_inside_def lget_def)

lemma grid_inside_set [simp]: "grid_inside (grid_set col row c g) x y = grid_inside g x y"
  by (auto simp: grid_set_def grid_inside_def lget_def nth_list_update split: option.split)

lemma grid_get_clear_row:
  "grid_get (grid_clear_row row g) x y =
     (if y = row then map_option (\<lambda>_. default_cell) (grid_get g x y) else grid_get g x y)"
  by (auto simp: grid_get_def grid_clear_row_def lget_def nth_list_update)

lemma grid_get_copy_row:
  "dst < length (g_rows g) \<Longrightarrow> src < length (g_rows g) \<Longrightarrow>
   grid_get (grid_copy_row dst src g) x y = grid_get g x (if y = dst then src else y)"
  by (auto simp: grid_get_def grid_copy_row_def lget_def nth_list_update)

lemma grid_rows_len [grid_simps]:
  "length (g_rows (grid_set col row c g)) = length (g_rows g)"
  "length (g_rows (grid_clear_row row g)) = length (g_rows g)"
  "length (g_rows (grid_copy_row d s g)) = length (g_rows g)"
  "length (g_rows (apply_dirty_row dr g)) = length (g_rows g)"
  by (simp_all add: grid_set_def grid_clear_row_def grid_copy_row_def apply_dirty_row_def Let_def
      split: option.split)

section \<open>The interface of a cell store\<close>

text \<open>
  Code that clears or fills runs of cells needs four laws of the store it writes to;
  what a filled run holds afterwards follows from them alone.
\<close>

locale cell_store =
  fixes inside :: "'s \<Rightarrow> nat \<Rightarrow> nat \<Rightarrow> bool"
    and get :: "'s \<Rightarrow> nat \<Rightarrow> nat \<Rightarrow> 'c option"
    and put :: "nat \<Rightarrow> nat \<Rightarrow> 'c \<Rightarrow> 's \<Rightarrow> 's"
  assumes inside_put: "inside (put x y c s) x' y' = inside s x' y'"
    and get_put_same: "inside s x y \<Longrightarrow> get (put x y c s) x y = Some c"
    and get_put_other: "(x, y) \<noteq> (x', y') \<Longrightarrow> get (put x y c s) x' y' = get s x' y'"
    and put_outside: "\<not> inside s x y \<Longrightarrow> put x y c s = s"
begin

lemma inside_fill: "inside (for_range a b (\<lambda>x. put x y (v x)) s) x' y' = inside s x' y'"
  by (rule for_range_frame [of "\<lambda>t. inside t x' y'"]) (simp add: inside_put)

text \<open>Filling columns \<open>a..b\<close> of a row changes exactly those cells.\<close>

lemma get_fill:
  "get (for_range a b (\<lambda>x. put x y (v x)) s) x' y' =
     (if y' = y \<and> a \<le> x' \<and> x' < b \<and> inside s x' y' then Some (v x') else get s x' y')"
proof (induction b)
  case 0
  then show ?case by simp
next
  case (Suc b)
  show ?case
  proof (cases "a \<le> b")
    case False
    then show ?thesis by auto
  next
    case True
    let ?t = "for_range a b (\<lambda>x. put x y (v x)) s"
    have step: "for_range a (Suc b) (\<lambda>x. put x y (v x)) s = put b y (v b) ?t"
      using True by (simp add: for_range_Suc)
    show ?thesis
    proof (cases "(b, y) = (x', y')")
      case True
      then show ?thesis unfolding step using Suc \<open>a \<le> b\<close>
        by (cases "inside s b y") (auto simp: inside_fill get_put_same put_outside)
    next
      case False
      then show ?thesis unfolding step using Suc
        by (auto simp: get_put_other)
    qed
  qed
qed

lemma inside_block:
  "inside (for_range 0 n (\<lambda>y. for_range 0 k (\<lambda>x. put x y (v x y))) s) x' y' = inside s x' y'"
  by (rule for_range_frame [of "\<lambda>t. inside t x' y'"]) (rule inside_fill)

text \<open>Filling a block of \<open>k\<close> columns and \<open>n\<close> rows at the origin.\<close>

lemma get_block:
  "get (for_range 0 n (\<lambda>y. for_range 0 k (\<lambda>x. put x y (v x y))) s) x' y' =
     (if x' < k \<and> y' < n \<and> inside s x' y' then Some (v x' y') else get s x' y')"
  by (induction n) (auto simp: for_range_Suc get_fill inside_block less_Suc_eq)

end

interpretation grid_store: cell_store grid_inside grid_get grid_set
  by unfold_locales
    (auto simp: grid_get_set_same grid_get_set_other grid_set_outside)

end
