(* ===== verification/Colors.thy ===== *)
theory Colors
  imports Rust_Str
begin

text \<open>
  Dynamic colours (\<open>nexterm-vt/src/colors.rs\<close>): parsing of colour
  specifications, the builtin 256-colour palette and the xterm reply format.
\<close>

type_synonym rgb = "u8 \<times> u8 \<times> u8"

definition FALLBACK_FG :: rgb where "FALLBACK_FG = (217, 217, 217)"
definition FALLBACK_BG :: rgb where "FALLBACK_BG = (13, 13, 13)"

text \<open>
  One \<open>rgb:\<close> channel of one to four hexadecimal digits.  The length test counts
  bytes; a string of hexadecimal digits is ASCII, so bytes and characters agree
  on the strings that pass the second test.
\<close>

definition parse_rgb_channel :: "rstr \<Rightarrow> u8 option" where
  "parse_rgb_channel s =
     (if s = [] \<or> str_len s > 4 \<or> \<not> list_all is_ascii_hexdigit s then None
      else let mx = 16 ^ length s - 1 in
        Some (of_nat ((hex_val s * 255 + mx div 2) div mx)))"

definition parse_color_spec :: "rstr \<Rightarrow> rgb option" where
  "parse_color_spec spec0 =
     (let spec = trim spec0 in
      case strip_prefix (lit ''#'') spec of
        Some hex \<Rightarrow>
          (if str_len hex \<noteq> 6 \<or> \<not> list_all is_ascii_hexdigit hex then None
           else Some (of_nat (hex_val (take 2 hex)),
                      of_nat (hex_val (take 2 (drop 2 hex))),
                      of_nat (hex_val (take 2 (drop 4 hex)))))
      | None \<Rightarrow>
          (case strip_prefix (lit ''rgb:'') spec of
             Some body \<Rightarrow>
               (case split_on 47 body of
                  [r, g, b] \<Rightarrow> do {
                    r' \<leftarrow> parse_rgb_channel r;
                    g' \<leftarrow> parse_rgb_channel g;
                    b' \<leftarrow> parse_rgb_channel b;
                    Some (r', g', b') }
                | _ \<Rightarrow> None)
           | None \<Rightarrow> None))"

definition format_rgb_reply :: "rgb \<Rightarrow> rstr" where
  "format_rgb_reply c =
     (case c of (r, g, b) \<Rightarrow>
        lit ''rgb:'' @ hex02 r @ hex02 r @ lit ''/'' @ hex02 g @ hex02 g
        @ lit ''/'' @ hex02 b @ hex02 b)"

definition ANSI16 :: "rgb list" where
  "ANSI16 =
     [(0, 0, 0), (205, 0, 0), (0, 205, 0), (205, 205, 0),
      (0, 0, 238), (205, 0, 205), (0, 205, 205), (229, 229, 229),
      (127, 127, 127), (255, 0, 0), (0, 255, 0), (255, 255, 0),
      (92, 92, 255), (255, 0, 255), (0, 255, 255), (255, 255, 255)]"

definition LEVELS :: "u8 list" where
  "LEVELS = [0, 95, 135, 175, 215, 255]"

definition builtin_palette_color :: "u8 \<Rightarrow> rgb" where
  "builtin_palette_color index =
     (if index \<le> 15 then ANSI16 ! unat index
      else if index \<le> 231 then
        (let i = unat index - 16 in
           (LEVELS ! (i div 36), LEVELS ! (i div 6 mod 6), LEVELS ! (i mod 6)))
      else (let v = 8 + 10 * (index - 232) in (v, v, v)))"

lemma length_LEVELS [simp]: "length LEVELS = 6"
  by (simp add: LEVELS_def)

text \<open>Every index the palette reads is in range, and the grey ramp does not wrap.\<close>

lemma builtin_palette_indices:
  fixes index :: u8
  shows "index \<le> 15 \<Longrightarrow> unat index < length ANSI16"
    and "\<lbrakk>15 < index; index \<le> 231\<rbrakk> \<Longrightarrow>
     (unat index - 16) div 36 < length LEVELS
     \<and> (unat index - 16) div 6 mod 6 < length LEVELS \<and> (unat index - 16) mod 6 < length LEVELS"
proof -
  show "index \<le> 15 \<Longrightarrow> unat index < length ANSI16"
    by (simp add: ANSI16_def word_le_nat_alt)
  assume "15 < index" "index \<le> 231"
  then have "unat index - 16 < 6 * 36" by (simp add: word_le_nat_alt word_less_nat_alt)
  then have "(unat index - 16) div 36 < 6" by (rule less_mult_imp_div_less)
  then show "(unat index - 16) div 36 < length LEVELS
     \<and> (unat index - 16) div 6 mod 6 < length LEVELS \<and> (unat index - 16) mod 6 < length LEVELS"
    by simp
qed

lemma grey_ramp_no_wrap:
  assumes "231 < (index :: u8)"
  shows "unat (8 + 10 * (index - 232)) = 8 + 10 * (unat index - 232)"
proof -
  have ge: "232 \<le> unat index" using assms by (simp add: word_less_nat_alt)
  then have sub: "unat (index - 232) = unat index - 232"
    by (simp add: unat_sub word_le_nat_alt)
  have le: "unat index - 232 \<le> 23" using unat_u8_le [of index] by linarith
  have "unat (10 * (index - 232)) = 10 * (unat index - 232)"
    using le by (subst unat_mult_lem [THEN iffD1]) (simp_all add: sub)
  then show ?thesis using le by (subst unat_add_lem [THEN iffD1]) simp_all
qed

text \<open>A channel is the exact value scaled to a byte and rounded to nearest.\<close>

lemma is_ascii_hexdigit_len: "is_ascii_hexdigit c \<Longrightarrow> len_utf8 c = 1"
  by (auto simp: is_ascii_hexdigit_def hex_digit_def len_utf8_def split: if_splits)

lemma hex_str_len: "list_all is_ascii_hexdigit s \<Longrightarrow> str_len s = length s"
  by (induction s) (auto simp: is_ascii_hexdigit_len)

lemma parse_rgb_channel_Some:
  assumes "parse_rgb_channel s = Some v"
  shows "list_all is_ascii_hexdigit s" "0 < length s" "length s \<le> 4"
    and "unat v = (hex_val s * 255 + (16 ^ length s - 1) div 2) div (16 ^ length s - 1)"
proof -
  let ?m = "16 ^ length s - (1 :: nat)"
  from assms show h: "list_all is_ascii_hexdigit s" and p: "0 < length s"
    by (auto simp: parse_rgb_channel_def split: if_splits)
  from assms h show "length s \<le> 4"
    by (auto simp: parse_rgb_channel_def hex_str_len split: if_splits)
  have "(16 :: nat) ^ 1 \<le> 16 ^ length s" using p by (intro power_increasing) (simp_all add: Suc_le_eq)
  then have m: "15 \<le> ?m" by simp
  have "hex_val s \<le> ?m" using hex_val_less [OF h] by simp
  then have "hex_val s * 255 + ?m div 2 < 256 * ?m" using m by linarith
  then have "(hex_val s * 255 + ?m div 2) div ?m < 256"
    by (intro less_mult_imp_div_less)
  then show "unat v = (hex_val s * 255 + ?m div 2) div ?m"
    using assms by (auto simp: parse_rgb_channel_def Let_def unat_of_nat_u8 split: if_splits)
qed

text \<open>
  The reply format widens each byte to two equal bytes, and parsing such a
  four-digit channel gives the byte back.
\<close>

lemma hex02_hexdigits: "list_all is_ascii_hexdigit (hex02 b)"
proof -
  have "unat b div 16 < 16" using unat_u8_less [of b] by (intro less_mult_imp_div_less) simp
  then show ?thesis by (simp add: hex02_def is_ascii_hexdigit_def hex_digit_hexd)
qed

lemma length_hex02 [simp]: "length (hex02 b) = 2"
  by (simp add: hex02_def)

lemma hex_val_append:
  "hex_val (s @ t) = hex_val s * 16 ^ length t + hex_val t"
  by (induction t rule: rev_induct) (simp_all add: hex_val_def algebra_simps)

lemma parse_rgb_channel_doubled: "parse_rgb_channel (hex02 b @ hex02 b) = Some b"
proof -
  let ?s = "hex02 b @ hex02 b"
  have h: "list_all is_ascii_hexdigit ?s" by (simp add: hex02_hexdigits)
  have l: "length ?s = 4" by simp
  have v: "hex_val ?s = unat b * 257"
    by (simp add: hex_val_append hex_val_hex02)
  have "(unat b * 257 * 255 + 65535 div 2) div 65535 = unat b" by simp
  then show ?thesis using h l hex_str_len [OF h]
    by (simp add: parse_rgb_channel_def v Let_def del: length_append) (auto simp: hex02_def)
qed

lemma hex02_no_slash: "47 \<notin> set (hex02 b)"
proof -
  have "unat b div 16 < 16" using unat_u8_less [of b] by (intro less_mult_imp_div_less) simp
  moreover have "unat b mod 16 < 16" by simp
  ultimately show ?thesis by (auto simp: hex02_def hexd_def split: if_splits)
qed

lemma split_on_append: "sep \<notin> set p \<Longrightarrow> split_on sep (p @ sep # s) = p # split_on sep s"
  by (induction p) auto

lemma hex02_last: "last (hex02 b @ hex02 b) = hexd (unat b mod 16)"
  by (simp add: hex02_def)

lemma hexd_not_ws: "n < 16 \<Longrightarrow> \<not> is_whitespace (hexd n)"
  by (auto simp: hexd_def is_whitespace_def)

lemma trim_by_id: "s \<noteq> [] \<Longrightarrow> \<not> P (hd s) \<Longrightarrow> \<not> P (last s) \<Longrightarrow> trim_by P s = s"
proof -
  assume s: "s \<noteq> []" "\<not> P (hd s)" "\<not> P (last s)"
  have keep: "dropWhile P xs = xs" if "xs \<noteq> []" "\<not> P (hd xs)" for xs
    using that by (cases xs) auto
  from s show ?thesis by (simp add: trim_by_def keep hd_rev)
qed

lemma trim_format_rgb_reply: "trim (format_rgb_reply c) = format_rgb_reply c"
proof (cases c)
  case (fields r g b)
  have "last (format_rgb_reply c) = hexd (unat b mod 16)"
    by (simp add: format_rgb_reply_def fields hex02_def)
  moreover have "hd (format_rgb_reply c) = 114" and "format_rgb_reply c \<noteq> []"
    by (simp_all add: format_rgb_reply_def fields lit_def)
  ultimately show ?thesis
    unfolding trim_def by (intro trim_by_id) (simp_all add: hexd_not_ws, simp add: is_whitespace_def)
qed

lemma parse_format_rgb_reply: "parse_color_spec (format_rgb_reply c) = Some c"
proof (cases c)
  case (fields r g b)
  let ?body = "hex02 r @ hex02 r @ 47 # hex02 g @ hex02 g @ 47 # hex02 b @ hex02 b"
  have f: "format_rgb_reply c = lit ''rgb:'' @ ?body"
    by (simp add: format_rgb_reply_def fields lit_def)
  have "split_on 47 ((hex02 r @ hex02 r) @ 47 # (hex02 g @ hex02 g) @ 47 # hex02 b @ hex02 b) =
      [hex02 r @ hex02 r, hex02 g @ hex02 g, hex02 b @ hex02 b]"
    by (simp only: split_on_append split_on_single set_append Un_iff hex02_no_slash simp_thms)
  then have s: "split_on 47 ?body = [hex02 r @ hex02 r, hex02 g @ hex02 g, hex02 b @ hex02 b]"
    by simp
  have 1: "strip_prefix (lit ''#'') (format_rgb_reply c) = None"
    and 2: "strip_prefix (lit ''rgb:'') (format_rgb_reply c) = Some ?body"
    unfolding f by (simp_all add: strip_prefix_def lit_def)
  show ?thesis
    unfolding parse_color_spec_def Let_def trim_format_rgb_reply 1 2
    by (simp add: s parse_rgb_channel_doubled fields)
qed

end
