(* ===== verification/Osc_Text.thy ===== *)
theory Osc_Text
  imports Rust_Str
begin

text \<open>
  The text processing that stands between an OSC sequence and the rest of the
  program (the free functions of \<open>nexterm-vt/src/screen.rs\<close>): sanitizing,
  hyperlink validation, the OSC 7 working directory and percent decoding.
\<close>

definition MAX_TITLE_LEN :: nat where "MAX_TITLE_LEN = 256"
definition MAX_NOTIFICATION_LEN :: nat where "MAX_NOTIFICATION_LEN = 1024"
definition MAX_HYPERLINK_URI_LEN :: nat where "MAX_HYPERLINK_URI_LEN = 2048"
definition MAX_CWD_LEN :: nat where "MAX_CWD_LEN = 4096"

definition ALLOWED_HYPERLINK_SCHEMES :: "rstr list" where
  "ALLOWED_HYPERLINK_SCHEMES =
     [lit ''http://'', lit ''https://'', lit ''mailto:'', lit ''ftp://'', lit ''ftps://'',
      lit ''ssh://'']"

section \<open>Sanitizing\<close>

definition osc_keeps :: "uchar \<Rightarrow> bool" where
  "osc_keeps cp \<longleftrightarrow>
     \<not> (cp \<le> 31 \<and> cp \<noteq> 9 \<and> cp \<noteq> 10 \<and> cp \<noteq> 13) \<and> cp \<noteq> 127 \<and> \<not> (128 \<le> cp \<and> cp \<le> 159)"

text \<open>
  The final slice is at a character boundary (\<open>slice_to_floor_boundary\<close>), so it
  does not panic and is written as the prefix it returns.
\<close>

definition sanitize_osc_string :: "rstr \<Rightarrow> nat \<Rightarrow> rstr" where
  "sanitize_osc_string s max_len =
     (let cleaned = filter osc_keeps s in
      if str_len cleaned \<le> max_len then cleaned
      else take_bytes (floor_boundary cleaned max_len) cleaned)"

section \<open>Hyperlink targets\<close>

text \<open>
  \<open>to_lowercase\<close>, as far as the scheme test can see it: the test compares an ASCII
  prefix, and of the characters outside ASCII only U+212A and U+0130 have an ASCII
  character in their lower-case form.  Every other character keeps its place with a
  character outside ASCII, which no scheme contains.
\<close>

definition lower_char :: "uchar \<Rightarrow> rstr" where
  "lower_char c =
     (if 65 \<le> c \<and> c \<le> 90 then [c + 32]
      else if c = 8490 then [107]
      else if c = 304 then [105, 775]
      else [c])"

definition to_lowercase :: "rstr \<Rightarrow> rstr" where
  "to_lowercase s = concat (map lower_char s)"

definition uri_keeps :: "uchar \<Rightarrow> bool" where
  "uri_keeps cp \<longleftrightarrow> cp \<ge> 32 \<and> cp \<noteq> 127 \<and> \<not> (128 \<le> cp \<and> cp \<le> 159)"

text \<open>
  The outer \<open>None\<close> is a panic: the warning for a disallowed scheme slices the URI at
  byte 80.  The slice is evaluated only when the log level enables the warning,
  which is the parameter \<open>warn\<close>.
\<close>

definition validate_hyperlink_uri :: "bool \<Rightarrow> rstr \<Rightarrow> rstr option option" where
  "validate_hyperlink_uri warn uri =
     (if uri = [] \<or> str_len uri > MAX_HYPERLINK_URI_LEN then Some None
      else if \<not> list_ex (starts_with (to_lowercase uri)) ALLOWED_HYPERLINK_SCHEMES then
        (if warn then map_option (\<lambda>_. None) (slice_to uri (min (str_len uri) 80))
         else Some None)
      else (let cleaned = filter uri_keeps uri in
        Some (if cleaned = [] then None else Some cleaned)))"

section \<open>Percent decoding and OSC 7\<close>

fun percent_bytes :: "byte list \<Rightarrow> byte list" where
  "percent_bytes (b # x # y # r) =
     (if b = 37 then
        (case (hex_digit (unat x), hex_digit (unat y)) of
           (Some h, Some l) \<Rightarrow> of_nat (h * 16 + l) # percent_bytes r
         | _ \<Rightarrow> b # percent_bytes (x # y # r))
      else b # percent_bytes (x # y # r))"
| "percent_bytes bs = bs"

definition percent_decode :: "rstr \<Rightarrow> rstr" where
  "percent_decode s = from_utf8_lossy (percent_bytes (as_bytes s))"

definition parse_osc7_cwd :: "rstr \<Rightarrow> rstr option" where
  "parse_osc7_cwd input =
     (if input = [] \<or> str_len input > MAX_CWD_LEN * 4 then None
      else case (case strip_prefix (lit ''file://'') input of
              Some rest \<Rightarrow> map_option (\<lambda>idx. drop idx rest) (position (\<lambda>c. c = 47) rest)
            | None \<Rightarrow> Some input) of
        None \<Rightarrow> None
      | Some after_scheme \<Rightarrow>
          (let cleaned = sanitize_osc_string (percent_decode after_scheme) MAX_CWD_LEN in
           if cleaned = [] then None else Some cleaned))"

section \<open>What sanitizing guarantees\<close>

text \<open>A sanitized string: no control characters, within the length cap.\<close>

definition osc_clean :: "nat \<Rightarrow> rstr \<Rightarrow> bool" where
  "osc_clean n s \<longleftrightarrow> str_len s \<le> n \<and> list_all osc_keeps s"

lemma take_bytes_idem: "take_bytes (str_len (take_bytes n s)) s = take_bytes n s"
  using slice_to_floor_boundary [of s n] by (simp add: slice_to_def floor_boundary_eq split: if_splits)

lemma sanitize_eq: "sanitize_osc_string s n = take_bytes n (filter osc_keeps s)"
proof (cases "str_len (filter osc_keeps s) \<le> n")
  case True
  then show ?thesis by (simp add: sanitize_osc_string_def Let_def take_bytes_all)
next
  case False
  then show ?thesis
    by (simp add: sanitize_osc_string_def Let_def floor_boundary_eq take_bytes_idem)
qed

lemma sanitize_clean [simp, intro]: "osc_clean n (sanitize_osc_string s n)"
  by (auto simp: osc_clean_def sanitize_eq take_bytes_len list_all_iff dest: take_bytes_set [THEN subsetD])

lemma sanitize_id: "osc_clean n s \<Longrightarrow> sanitize_osc_string s n = s"
  by (auto simp: osc_clean_def sanitize_eq take_bytes_all list_all_iff
      intro: filter_id_conv [THEN iffD2])

lemma osc_clean_Nil [simp]: "osc_clean n []"
  by (simp add: osc_clean_def str_len_def)

lemma osc_clean_mono: "osc_clean m s \<Longrightarrow> m \<le> n \<Longrightarrow> osc_clean n s"
  by (auto simp: osc_clean_def)

section \<open>Lengths in bytes\<close>

lemma as_bytes_append: "as_bytes (s @ t) = as_bytes s @ as_bytes t"
  by (simp add: as_bytes_def)

lemma as_bytes_ascii: "list_all (\<lambda>c. c < 128) s \<Longrightarrow> as_bytes s = map of_nat s"
  by (induction s) (simp_all add: as_bytes_def utf8_enc_def)

lemma percent_bytes_literal: "b \<noteq> 37 \<Longrightarrow> percent_bytes (b # bs) = b # percent_bytes bs"
  by (cases "(b # bs)" rule: percent_bytes.cases) auto

lemma str_len_ascii: "list_all (\<lambda>c. c < 128) s \<Longrightarrow> str_len s = length s"
  by (induction s) (simp_all add: str_len_def len_utf8_def)

lemma str_len_append [simp]: "str_len (s @ t) = str_len s + str_len t"
  by (simp add: str_len_def)

text \<open>What a validated link target is.\<close>

definition link_ok :: "rstr \<Rightarrow> bool" where
  "link_ok u \<longleftrightarrow> u \<noteq> [] \<and> str_len u \<le> MAX_HYPERLINK_URI_LEN \<and> list_all uri_keeps u"

lemma validate_hyperlink_uri_ok:
  "validate_hyperlink_uri w u = Some (Some v) \<Longrightarrow>
     link_ok v \<and> v = filter uri_keeps u
     \<and> list_ex (starts_with (to_lowercase u)) ALLOWED_HYPERLINK_SCHEMES"
  using order_trans [OF str_len_filter [of uri_keeps u]]
  by (auto simp: validate_hyperlink_uri_def link_ok_def Let_def split: if_splits)

text \<open>Without the warning the function does not panic.\<close>

lemma validate_hyperlink_uri_total:
  "\<not> w \<or> is_char_boundary u (min (str_len u) 80) \<Longrightarrow> \<exists>r. validate_hyperlink_uri w u = Some r"
  by (auto simp: validate_hyperlink_uri_def slice_to_def Let_def)

end
