(* ===== verification/Image_Bytes.thy ===== *)
theory Image_Bytes
  imports Rust_Str
begin

text \<open>
  The byte-level utilities of the image decoders (\<open>nexterm-vt/src/image.rs\<close>): the
  size guard, the two decimal readers and Base64.  Reading positions are kept as the
  list of bytes still to read.
\<close>

section \<open>Decoded images and the size guard\<close>

definition MAX_IMAGE_BYTES :: nat where
  "MAX_IMAGE_BYTES = 256 * 1024 * 1024"

definition checked_image_bytes :: "nat \<Rightarrow> nat \<Rightarrow> nat \<Rightarrow> nat option" where
  "checked_image_bytes width height channels =
     (if width * height \<ge> 2 ^ 64 then None
      else if width * height * channels \<ge> 2 ^ 64 then None
      else if width * height * channels > MAX_IMAGE_BYTES then None
      else Some (width * height * channels))"

record decoded_image =
  img_width :: nat
  img_height :: nat
  img_rgba :: "byte list"

text \<open>
  What every consumer of a decoded image relies on: four bytes for each pixel, within
  the size limit, and dimensions that fit their type.
\<close>

definition image_ok :: "decoded_image \<Rightarrow> bool" where
  "image_ok img \<longleftrightarrow>
     length (img_rgba img) = img_width img * img_height img * 4
     \<and> length (img_rgba img) \<le> MAX_IMAGE_BYTES
     \<and> img_width img \<le> u32_max \<and> img_height img \<le> u32_max"

lemma checked_image_bytes_Some:
  "checked_image_bytes w h c = Some n \<longleftrightarrow> n = w * h * c \<and> w * h < 2 ^ 64 \<and> n \<le> MAX_IMAGE_BYTES"
  by (auto simp: checked_image_bytes_def MAX_IMAGE_BYTES_def)

section \<open>Decimal readers\<close>

definition is_digit :: "byte \<Rightarrow> bool" where
  "is_digit b \<longleftrightarrow> 48 \<le> b \<and> b \<le> 57"

definition push_digit :: "byte \<Rightarrow> nat \<Rightarrow> nat" where
  "push_digit b v = sat_add32 (sat_mul32 v 10) (unat (b - 48))"

fun read_digits :: "byte list \<Rightarrow> nat \<Rightarrow> nat \<times> byte list" where
  "read_digits [] v = (v, [])"
| "read_digits (b # bs) v =
     (if is_digit b then read_digits bs (push_digit b v) else (v, b # bs))"

definition parse_decimal :: "byte list \<Rightarrow> (nat \<times> byte list) option" where
  "parse_decimal bs =
     (case bs of
        [] \<Rightarrow> None
      | b # _ \<Rightarrow>
          (if \<not> is_digit b then None
           else let (v, rest) = read_digits bs 0 in Some (min v u16_max, rest)))"

text \<open>\<open>parse_decimal(..).unwrap_or(d)\<close>.\<close>

definition decimal_or :: "nat \<Rightarrow> byte list \<Rightarrow> nat \<times> byte list" where
  "decimal_or d bs = (case parse_decimal bs of None \<Rightarrow> (d, bs) | Some r \<Rightarrow> r)"

definition parse_u32_bytes :: "byte list \<Rightarrow> nat" where
  "parse_u32_bytes bs = fold (\<lambda>b v. if is_digit b then push_digit b v else v) bs 0"

lemma push_digit_le [simp]: "push_digit b v \<le> u32_max"
  by (simp add: push_digit_def sat_add32_def)

lemma parse_u32_bytes_le [simp]: "parse_u32_bytes bs \<le> u32_max"
  unfolding parse_u32_bytes_def
  by (rule fold_inv [of "\<lambda>v. v \<le> u32_max"]) simp_all

lemma read_digits_len: "length (snd (read_digits bs v)) \<le> length bs"
  by (induction bs v rule: read_digits.induct) auto

lemma parse_decimal_len: "parse_decimal bs = Some (v, r) \<Longrightarrow> length r < length bs"
proof -
  assume a: "parse_decimal bs = Some (v, r)"
  then obtain b bs' where bs: "bs = b # bs'" "is_digit b"
    by (auto simp: parse_decimal_def split: list.splits if_splits)
  with a have "r = snd (read_digits bs' (push_digit b 0))"
    by (auto simp: parse_decimal_def split: prod.splits)
  then show ?thesis using read_digits_len [of bs'] bs by (simp add: le_imp_less_Suc)
qed

lemma parse_decimal_le: "parse_decimal bs = Some (v, r) \<Longrightarrow> v \<le> u16_max"
  by (auto simp: parse_decimal_def split: list.splits if_splits prod.splits)

lemma decimal_or_len: "length (snd (decimal_or d bs)) \<le> length bs"
  by (auto simp: decimal_or_def dest: parse_decimal_len split: option.split)

lemma decimal_or_le: "d \<le> u16_max \<Longrightarrow> fst (decimal_or d bs) \<le> u16_max"
  by (auto simp: decimal_or_def dest: parse_decimal_le split: option.split)

section \<open>Base64\<close>

definition decode_char :: "byte \<Rightarrow> byte option" where
  "decode_char c =
     (if 65 \<le> c \<and> c \<le> 90 then Some (c - 65)
      else if 97 \<le> c \<and> c \<le> 122 then Some (c - 97 + 26)
      else if 48 \<le> c \<and> c \<le> 57 then Some (c - 48 + 52)
      else if c = 43 then Some 62
      else if c = 47 then Some 63
      else None)"

definition join_ab :: "byte \<Rightarrow> byte \<Rightarrow> byte" where
  "join_ab a b = push_bit 2 a OR drop_bit 4 b"

definition join_bc :: "byte \<Rightarrow> byte \<Rightarrow> byte" where
  "join_bc b c = push_bit 4 b OR drop_bit 2 c"

definition join_cd :: "byte \<Rightarrow> byte \<Rightarrow> byte" where
  "join_cd c d = push_bit 6 c OR d"

fun base64_groups :: "byte list \<Rightarrow> byte list option" where
  "base64_groups (w # x # y # z # rest) = do {
     a \<leftarrow> decode_char w;
     b \<leftarrow> decode_char x;
     c \<leftarrow> decode_char y;
     d \<leftarrow> decode_char z;
     more \<leftarrow> base64_groups rest;
     Some (join_ab a b # join_bc b c # join_cd c d # more) }"
| "base64_groups [w, x, y] = do {
     a \<leftarrow> decode_char w;
     b \<leftarrow> decode_char x;
     c \<leftarrow> decode_char y;
     Some [join_ab a b, join_bc b c] }"
| "base64_groups [w, x] = do {
     a \<leftarrow> decode_char w;
     b \<leftarrow> decode_char x;
     Some [join_ab a b] }"
| "base64_groups [w] = Some []"
| "base64_groups [] = Some []"

definition base64_decode :: "byte list \<Rightarrow> byte list option" where
  "base64_decode input =
     base64_groups (filter (\<lambda>b. b \<noteq> 61 \<and> \<not> is_ascii_whitespace b) input)"

text \<open>The standard encoder, as the specification the decoder inverts.\<close>

definition enc6 :: "byte \<Rightarrow> byte" where
  "enc6 s =
     (if s < 26 then s + 65 else if s < 52 then s + 71 else if s < 62 then s - 4
      else if s = 62 then 43 else 47)"

fun base64_std :: "byte list \<Rightarrow> byte list" where
  "base64_std (x # y # z # rest) =
     enc6 (drop_bit 2 x)
     # enc6 (push_bit 4 (x AND 3) OR drop_bit 4 y)
     # enc6 (push_bit 2 (y AND 15) OR drop_bit 6 z)
     # enc6 (z AND 63)
     # base64_std rest"
| "base64_std [x, y] =
     [enc6 (drop_bit 2 x), enc6 (push_bit 4 (x AND 3) OR drop_bit 4 y),
      enc6 (push_bit 2 (y AND 15)), 61]"
| "base64_std [x] = [enc6 (drop_bit 2 x), enc6 (push_bit 4 (x AND 3)), 61, 61]"
| "base64_std [] = []"

lemma all_u8: "(\<forall>n < k. P (of_nat n :: u8)) \<Longrightarrow> unat s < k \<Longrightarrow> P s"
proof -
  assume "\<forall>n < k. P (of_nat n :: u8)" "unat s < k"
  then have "P (of_nat (unat s))" by blast
  then show "P s" by simp
qed

lemma enc6_table:
  "\<forall>n < 64. decode_char (enc6 (of_nat n)) = Some (of_nat n) \<and> enc6 (of_nat n) \<noteq> 61
     \<and> \<not> is_ascii_whitespace (enc6 (of_nat n))"
  by code_simp

lemma enc6_props:
  assumes "s < 64"
  shows "decode_char (enc6 s) = Some s" "enc6 s \<noteq> 61" "\<not> is_ascii_whitespace (enc6 s)"
proof -
  have "unat s < 64" using assms by (simp add: word_less_nat_alt)
  from all_u8 [OF enc6_table this]
  show "decode_char (enc6 s) = Some s" "enc6 s \<noteq> 61" "\<not> is_ascii_whitespace (enc6 s)"
    by auto
qed

lemma bits_u8_eqI:
  fixes v w :: u8
  assumes "\<And>n. n < 8 \<Longrightarrow> bit v n = bit w n"
  shows "v = w"
  by (rule bit_word_eqI) (simp add: assms)

lemma less_8_cases: "(n :: nat) < 8 \<Longrightarrow> n = 0 \<or> n = 1 \<or> n = 2 \<or> n = 3 \<or> n = 4 \<or> n = 5 \<or> n = 6 \<or> n = 7"
  by auto

lemma bit_u8_ge: "8 \<le> n \<Longrightarrow> \<not> bit (x :: u8) n"
  by (auto dest: bit_imp_le_length)

text \<open>Splitting a byte over two sextets and joining it again is the identity.\<close>

lemma join_ab_sextets: "join_ab (drop_bit 2 x) (push_bit 4 (x AND 3) OR drop_bit 4 y) = x"
  by (rule bits_u8_eqI, simp add: join_ab_def bit_simps bit_u8_ge, drule less_8_cases)
    (auto simp: numeral_eq_Suc bit_u8_ge)

lemma join_ab_last: "join_ab (drop_bit 2 x) (push_bit 4 (x AND 3)) = x"
  using join_ab_sextets [of x 0] by simp

lemma join_bc_sextets:
  "join_bc (push_bit 4 (x AND 3) OR drop_bit 4 y) (push_bit 2 (y AND 15) OR drop_bit 6 z) = y"
  by (rule bits_u8_eqI, simp add: join_bc_def bit_simps bit_u8_ge, drule less_8_cases)
    (auto simp: numeral_eq_Suc bit_u8_ge)

lemma join_bc_last: "join_bc (push_bit 4 (x AND 3) OR drop_bit 4 y) (push_bit 2 (y AND 15)) = y"
  using join_bc_sextets [of x y 0] by simp

lemma join_cd_sextets: "join_cd (push_bit 2 (y AND 15) OR drop_bit 6 z) (z AND 63) = z"
  by (rule bits_u8_eqI, simp add: join_cd_def bit_simps bit_u8_ge, drule less_8_cases)
    (auto simp: numeral_eq_Suc bit_u8_ge)

lemma sextet_lt: "(s :: u8) AND 63 = s \<Longrightarrow> s < 64"
proof -
  assume "s AND 63 = s"
  moreover have "s AND 63 \<le> 63" by (rule word_and_le1)
  ultimately have "s \<le> 63" by simp
  then show ?thesis by (simp add: word_le_nat_alt word_less_nat_alt)
qed

lemma sextets_lt:
  fixes x y z :: u8
  shows "drop_bit 2 x < 64" "push_bit 4 (x AND 3) OR drop_bit 4 y < 64"
    "push_bit 2 (y AND 15) OR drop_bit 6 z < 64" "z AND 63 < 64"
    "push_bit 4 (x AND 3) < 64" "push_bit 2 (y AND 15) < 64"
proof -
  have a: "push_bit 4 (x AND 3) OR drop_bit 4 y < 64" for y :: u8
    by (rule sextet_lt, rule bits_u8_eqI, simp add: bit_simps bit_u8_ge, drule less_8_cases)
      (auto simp: numeral_eq_Suc bit_u8_ge)
  have b: "push_bit 2 (y AND 15) OR drop_bit 6 z < 64" for z :: u8
    by (rule sextet_lt, rule bits_u8_eqI, simp add: bit_simps bit_u8_ge, drule less_8_cases)
      (auto simp: numeral_eq_Suc bit_u8_ge)
  show "push_bit 4 (x AND 3) OR drop_bit 4 y < 64" by (rule a)
  show "push_bit 2 (y AND 15) OR drop_bit 6 z < 64" by (rule b)
  show "push_bit 4 (x AND 3) < 64" using a [of 0] by simp
  show "push_bit 2 (y AND 15) < 64" using b [of 0] by simp
  show "drop_bit 2 x < 64"
    by (rule sextet_lt, rule bits_u8_eqI, simp add: bit_simps bit_u8_ge, drule less_8_cases)
      (auto simp: numeral_eq_Suc bit_u8_ge)
  show "z AND 63 < 64" by (rule sextet_lt) (simp add: and.assoc)
qed

lemmas sextet_chars = enc6_props [OF sextets_lt(1)] enc6_props [OF sextets_lt(2)]
  enc6_props [OF sextets_lt(3)] enc6_props [OF sextets_lt(4)]
  enc6_props [OF sextets_lt(5)] enc6_props [OF sextets_lt(6)]

lemma base64_decode_std: "base64_decode (base64_std bs) = Some bs"
proof -
  have 61: "\<not> is_ascii_whitespace 61" by (simp add: is_ascii_whitespace_def)
  show ?thesis
    by (induction bs rule: base64_std.induct)
      (simp_all add: base64_decode_def sextet_chars join_ab_sextets join_ab_last
        join_bc_sextets join_bc_last join_cd_sextets del: push_bit_and)
qed

text \<open>The decoded text is never longer than three quarters of the input.\<close>

lemma base64_groups_len: "base64_groups cs = Some bs \<Longrightarrow> 4 * length bs \<le> 3 * length cs"
  by (induction cs arbitrary: bs rule: base64_groups.induct)
    (auto simp: Option.bind_eq_Some_conv)

lemma base64_decode_len: "base64_decode cs = Some bs \<Longrightarrow> 4 * length bs \<le> 3 * length cs"
  unfolding base64_decode_def
  by (drule base64_groups_len) (meson length_filter_le mult_le_mono2 order_trans)

end
