(* ===== verification/Sixel.thy ===== *)
theory Sixel
  imports Image_Bytes Colors
begin

text \<open>
  The DCS Sixel decoder (\<open>decode_sixel\<close> of \<open>nexterm-vt/src/image.rs\<close>).  The
  decoder's mutable variables are a record, one input byte is one step, and the pixel
  buffer grows row by row as the source's \<open>Vec<Vec<Option<..>>>\<close> does.  The
  specification is the same command language painting on an unbounded canvas; the
  simulation between the two gives the pixels of the result.
\<close>

definition MAX_SIXEL_DIMENSION :: nat where
  "MAX_SIXEL_DIMENSION = 4096"

definition default_sixel_palette :: "(nat \<times> rgb) list" where
  "default_sixel_palette =
     [(0, 0, 0, 0), (1, 51, 204, 51), (2, 204, 51, 51), (3, 204, 204, 51),
      (4, 51, 51, 204), (5, 204, 51, 204), (6, 51, 204, 204), (7, 204, 204, 204),
      (8, 102, 102, 102), (9, 102, 255, 102), (10, 255, 102, 102), (11, 255, 255, 102),
      (12, 102, 102, 255), (13, 255, 102, 255), (14, 102, 255, 255), (15, 255, 255, 255)]"

type_synonym pixels = "rgb option list list"

text \<open>
  The variables of the decoding loop, over the type of the pixel store: the scratch
  buffer in the program, a canvas in the specification.
\<close>

record 'b sixel =
  sx_palette :: "nat \<rightharpoonup> rgb"
  sx_color :: nat
  sx_x :: nat
  sx_band :: nat
  sx_max_x :: nat
  sx_max_band :: nat
  sx_buf :: 'b

section \<open>The pixel buffer\<close>

definition ensure_bands :: "nat \<Rightarrow> pixels \<Rightarrow> pixels" where
  "ensure_bands band buf = buf @ replicate ((band + 1) * 6 - length buf) []"

definition put_pixel :: "nat \<Rightarrow> nat \<Rightarrow> rgb \<Rightarrow> pixels \<Rightarrow> pixels" where
  "put_pixel x row color buf =
     (if row < length buf
      then buf[row := (let r = buf ! row in
             (r @ replicate (x + 1 - length r) None)[x := Some color])]
      else buf)"

definition paint_col :: "nat \<Rightarrow> nat \<Rightarrow> byte \<Rightarrow> rgb \<Rightarrow> pixels \<Rightarrow> pixels" where
  "paint_col x band bits color buf =
     for_range 0 6 (\<lambda>b buf. if bit bits b then put_pixel x (band * 6 + b) color buf else buf) buf"

section \<open>The decoding loop\<close>

definition take_semi :: "byte list \<Rightarrow> byte list option" where
  "take_semi bs = (case bs of [] \<Rightarrow> None | b # r \<Rightarrow> if b = 59 then Some r else None)"

definition percent :: "nat \<Rightarrow> u8" where
  "percent p = of_nat (min (p * 255 div 100) 255)"

text \<open>A colour introducer after its number \<open>n\<close>: the palette it leaves and the rest.\<close>

definition sixel_define :: "nat \<Rightarrow> (nat \<rightharpoonup> rgb) \<Rightarrow> byte list \<Rightarrow> (nat \<rightharpoonup> rgb) \<times> byte list" where
  "sixel_define n pal ds =
     (case take_semi ds of None \<Rightarrow> (pal, ds)
      | Some ds \<Rightarrow>
        (let (kind, ds) = decimal_or 0 ds in
         case take_semi ds of None \<Rightarrow> (pal, ds)
         | Some ds \<Rightarrow>
           (let (p1, ds) = decimal_or 0 ds in
            case take_semi ds of None \<Rightarrow> (pal, ds)
            | Some ds \<Rightarrow>
              (let (p2, ds) = decimal_or 0 ds in
               case take_semi ds of None \<Rightarrow> (pal, ds)
               | Some ds \<Rightarrow>
                 (let (p3, ds) = decimal_or 0 ds in
                  (if kind = 2 then pal(n \<mapsto> (percent p1, percent p2, percent p3))
                   else if kind = 1 then pal(n \<mapsto> (200, 200, 200))
                   else pal, ds))))))"

definition current_rgb :: "'b sixel \<Rightarrow> rgb" where
  "current_rgb st = (case sx_palette st (sx_color st) of None \<Rightarrow> (200, 200, 200) | Some c \<Rightarrow> c)"

text \<open>
  One iteration of the loop, on the byte \<open>d\<close> and the bytes after it: \<open>None\<close> is the
  early \<open>return None\<close>.  \<open>grow\<close> and \<open>paint\<close> are the two operations on the store.
\<close>

definition sixel_step ::
  "(nat \<Rightarrow> 'b \<Rightarrow> 'b) \<Rightarrow> (nat \<Rightarrow> nat \<Rightarrow> byte \<Rightarrow> rgb \<Rightarrow> 'b \<Rightarrow> 'b) \<Rightarrow>
   byte \<Rightarrow> byte list \<Rightarrow> 'b sixel \<Rightarrow> ('b sixel \<times> byte list) option" where
  "sixel_step grow paint d ds st =
     (if d = 35 then
        (case parse_decimal ds of
           None \<Rightarrow> Some (st, ds)
         | Some (n, ds') \<Rightarrow>
             (let (pal, rest) = sixel_define n (sx_palette st) ds' in
              Some (st\<lparr>sx_palette := pal, sx_color := n\<rparr>, rest)))
      else if d = 36 then Some (st\<lparr>sx_x := 0\<rparr>, ds)
      else if d = 45 then
        (let band = sx_band st + 1 in
         if (band + 1) * 6 > MAX_SIXEL_DIMENSION then None
         else Some (st\<lparr>sx_x := 0, sx_band := band, sx_max_band := max (sx_max_band st) band,
                       sx_buf := grow band (sx_buf st)\<rparr>, ds))
      else if d = 33 then
        (let (count, ds') = decimal_or 1 ds in
         case ds' of
           [] \<Rightarrow> Some (st, [])
         | ch # rest \<Rightarrow>
             (if 63 \<le> ch \<and> ch \<le> 126 then
                (if sx_x st + count > MAX_SIXEL_DIMENSION then None
                 else Some (st\<lparr>sx_x := sx_x st + count,
                        sx_max_x := max (sx_max_x st) (sx_x st + count),
                        sx_buf := for_range (sx_x st) (sx_x st + count)
                          (\<lambda>x. paint x (sx_band st) (ch - 63) (current_rgb st))
                          (grow (sx_band st) (sx_buf st))\<rparr>, rest))
              else Some (st, rest)))
      else if 63 \<le> d \<and> d \<le> 126 then
        (if sx_x st \<ge> MAX_SIXEL_DIMENSION then None
         else Some (st\<lparr>sx_x := sx_x st + 1,
                sx_max_x := max (sx_max_x st) (sx_x st + 1),
                sx_buf := paint (sx_x st) (sx_band st) (d - 63) (current_rgb st)
                  (grow (sx_band st) (sx_buf st))\<rparr>, ds))
      else Some (st, ds))"

lemma take_semi_len: "take_semi bs = Some r \<Longrightarrow> length r \<le> length bs"
  by (auto simp: take_semi_def split: list.splits if_splits)

lemma decimal_or_len': "decimal_or d bs = (v, r) \<Longrightarrow> length r \<le> length bs"
  using decimal_or_len [of d bs] by simp

lemma sixel_define_len: "length (snd (sixel_define n pal ds)) \<le> length ds"
  by (auto simp: sixel_define_def dest!: take_semi_len decimal_or_len'
      split: option.split prod.split)

lemma sixel_step_len:
  assumes "sixel_step grow paint d ds st = Some (st', rest)"
  shows "length rest \<le> length ds"
proof -
  have def: "length r \<le> length ds" if "parse_decimal ds = Some (n, ds')"
    "sixel_define n pal ds' = (p, r)" for n ds' pal p r
    using parse_decimal_len [OF that(1)] sixel_define_len [of n pal ds'] that(2) by simp
  from assms show ?thesis
    by (auto simp: sixel_step_def Let_def def dest!: decimal_or_len'
        split: if_splits option.splits prod.splits list.splits)
qed

function sixel_loop ::
  "(nat \<Rightarrow> 'b \<Rightarrow> 'b) \<Rightarrow> (nat \<Rightarrow> nat \<Rightarrow> byte \<Rightarrow> rgb \<Rightarrow> 'b \<Rightarrow> 'b) \<Rightarrow>
   byte list \<Rightarrow> 'b sixel \<Rightarrow> 'b sixel option" where
  "sixel_loop grow paint [] st = Some st"
| "sixel_loop grow paint (d # ds) st =
     (case sixel_step grow paint d ds st of
        None \<Rightarrow> None
      | Some (st', rest) \<Rightarrow> sixel_loop grow paint rest st')"
  by pat_completeness auto
termination
  by (relation "measure (\<lambda>(_, _, ds, _). length ds)") (auto dest: sixel_step_len simp: le_imp_less_Suc)

definition sixel_init :: "'b \<Rightarrow> 'b sixel" where
  "sixel_init b =
     \<lparr>sx_palette = map_of default_sixel_palette, sx_color = 0, sx_x = 0, sx_band = 0,
      sx_max_x = 0, sx_max_band = 0, sx_buf = b\<rparr>"

text \<open>The final copy of the buffer into zeroed RGBA memory.\<close>

definition write_pixel :: "nat \<Rightarrow> rgb option \<Rightarrow> byte list \<Rightarrow> byte list" where
  "write_pixel idx p rgba =
     (case p of
        None \<Rightarrow> rgba
      | Some (r, g, b) \<Rightarrow> rgba[idx := r, idx + 1 := g, idx + 2 := b, idx + 3 := 255])"

definition sixel_rgba :: "nat \<Rightarrow> nat \<Rightarrow> pixels \<Rightarrow> byte list \<Rightarrow> byte list" where
  "sixel_rgba width height buf rgba0 =
     fold (\<lambda>(row_idx, row) rgba.
         fold (\<lambda>(col_idx, p) rgba. write_pixel ((row_idx * width + col_idx) * 4) p rgba)
           (take width (enumerate 0 row)) rgba)
       (take height (enumerate 0 buf)) rgba0"

definition decode_sixel :: "byte list \<Rightarrow> decoded_image option" where
  "decode_sixel data =
     (case sixel_loop ensure_bands paint_col data (sixel_init [[]]) of
        None \<Rightarrow> None
      | Some st \<Rightarrow>
          (let height = (sx_max_band st + 1) * 6; width = sx_max_x st in
           if width = 0 \<or> height = 0 then None
           else if width > u32_max \<or> height > u32_max then None
           else case checked_image_bytes width height 4 of
             None \<Rightarrow> None
           | Some nbytes \<Rightarrow>
               Some \<lparr>img_width = width, img_height = height,
                     img_rgba = sixel_rgba width height (sx_buf st) (replicate nbytes 0)\<rparr>))"

section \<open>Bounds\<close>

text \<open>
  The cursor and the recorded extent stay within the pixel cap, so the scratch buffer
  does too.
\<close>

definition sixel_bounded :: "'b sixel \<Rightarrow> bool" where
  "sixel_bounded st \<longleftrightarrow>
     sx_x st \<le> MAX_SIXEL_DIMENSION \<and> sx_max_x st \<le> MAX_SIXEL_DIMENSION
     \<and> (sx_band st + 1) * 6 \<le> MAX_SIXEL_DIMENSION
     \<and> (sx_max_band st + 1) * 6 \<le> MAX_SIXEL_DIMENSION"

lemma sixel_bounded_init [simp]: "sixel_bounded (sixel_init b)"
  by (simp add: sixel_bounded_def sixel_init_def MAX_SIXEL_DIMENSION_def)

lemma sixel_step_bounded:
  "sixel_step grow paint d ds st = Some (st', rest) \<Longrightarrow> sixel_bounded st \<Longrightarrow> sixel_bounded st'"
  by (auto simp: sixel_step_def sixel_bounded_def Let_def MAX_SIXEL_DIMENSION_def max_def
      split: if_splits option.splits prod.splits list.splits)

lemma sixel_loop_bounded:
  "sixel_loop grow paint ds st = Some st' \<Longrightarrow> sixel_bounded st \<Longrightarrow> sixel_bounded st'"
  by (induction grow paint ds st rule: sixel_loop.induct)
    (auto split: option.splits dest: sixel_step_bounded)

section \<open>The canvas specification\<close>

type_synonym canvas = "nat \<Rightarrow> nat \<Rightarrow> rgb option"

definition canvas_paint :: "nat \<Rightarrow> nat \<Rightarrow> byte \<Rightarrow> rgb \<Rightarrow> canvas \<Rightarrow> canvas" where
  "canvas_paint x band bits color cv =
     (\<lambda>c r. if c = x \<and> band * 6 \<le> r \<and> r < band * 6 + 6 \<and> bit bits (r - band * 6)
             then Some color else cv c r)"

definition canvas_loop :: "byte list \<Rightarrow> canvas sixel \<Rightarrow> canvas sixel option" where
  "canvas_loop = sixel_loop (\<lambda>_ cv. cv) canvas_paint"

definition pixel_at :: "pixels \<Rightarrow> canvas" where
  "pixel_at buf c r =
     (if r < length buf \<and> c < length (buf ! r) then buf ! r ! c else None)"

definition sixel_abs :: "pixels sixel \<Rightarrow> canvas sixel" where
  "sixel_abs st =
     \<lparr>sx_palette = sx_palette st, sx_color = sx_color st, sx_x = sx_x st, sx_band = sx_band st,
      sx_max_x = sx_max_x st, sx_max_band = sx_max_band st, sx_buf = pixel_at (sx_buf st)\<rparr>"

lemma sixel_abs_sel [simp]:
  "sx_palette (sixel_abs st) = sx_palette st" "sx_color (sixel_abs st) = sx_color st"
  "sx_x (sixel_abs st) = sx_x st" "sx_band (sixel_abs st) = sx_band st"
  "sx_max_x (sixel_abs st) = sx_max_x st" "sx_max_band (sixel_abs st) = sx_max_band st"
  "sx_buf (sixel_abs st) = pixel_at (sx_buf st)" "current_rgb (sixel_abs st) = current_rgb st"
  by (simp_all add: sixel_abs_def current_rgb_def)

lemma pixel_at_ensure_bands [simp]: "pixel_at (ensure_bands band buf) = pixel_at buf"
  by (auto simp: fun_eq_iff pixel_at_def ensure_bands_def nth_append)

lemma length_ensure_bands: "(band + 1) * 6 \<le> length (ensure_bands band buf)"
  by (simp add: ensure_bands_def)

lemma length_put_pixel [simp]: "length (put_pixel x row color buf) = length buf"
  by (simp add: put_pixel_def)

lemma pixel_at_put_pixel:
  assumes "row < length buf"
  shows "pixel_at (put_pixel x row color buf) c r =
    (if r = row \<and> c = x then Some color else pixel_at buf c r)"
proof (cases "r = row")
  case True
  with assms show ?thesis
    by (auto simp: pixel_at_def put_pixel_def Let_def nth_list_update nth_append)
next
  case False
  then show ?thesis by (auto simp: pixel_at_def put_pixel_def assms)
qed

lemma length_paint_col [simp]: "length (paint_col x band bits color buf) = length buf"
  unfolding paint_col_def by (rule for_range_frame [of length]) simp

lemma pixel_at_paint_col:
  assumes "(band + 1) * 6 \<le> length buf"
  shows "pixel_at (paint_col x band bits color buf) = canvas_paint x band bits color (pixel_at buf)"
proof -
  let ?step = "\<lambda>b buf. if bit bits b then put_pixel x (band * 6 + b) color buf else buf"
  have len: "length (for_range 0 k ?step buf) = length buf" for k
    by (rule for_range_frame [of length]) simp
  have "k \<le> 6 \<Longrightarrow> pixel_at (for_range 0 k ?step buf) c r =
      (if c = x \<and> band * 6 \<le> r \<and> r < band * 6 + k \<and> bit bits (r - band * 6)
       then Some color else pixel_at buf c r)" for k c r
  proof (induction k)
    case 0
    then show ?case by auto
  next
    case (Suc k)
    have "band * 6 + k < length (for_range 0 k ?step buf)" using assms Suc.prems by (simp add: len)
    with Suc show ?case
      by (auto simp: for_range_Suc pixel_at_put_pixel less_Suc_eq)
  qed
  from this [of 6] show ?thesis
    by (simp add: fun_eq_iff paint_col_def canvas_paint_def)
qed

lemma pixel_at_paint_run:
  assumes "(band + 1) * 6 \<le> length buf"
  shows "pixel_at (for_range a b (\<lambda>x. paint_col x band bits color) buf) =
    for_range a b (\<lambda>x. canvas_paint x band bits color) (pixel_at buf)"
proof (cases "a \<le> b")
  case True
  have len: "length (for_range a k (\<lambda>x. paint_col x band bits color) buf) = length buf" for k
    by (rule for_range_frame [of length]) simp
  from True show ?thesis
  proof (induction rule: dec_induct)
    case base
    then show ?case by simp
  next
    case (step k)
    then show ?case using assms
      by (simp add: for_range_Suc pixel_at_paint_col len)
  qed
qed simp

lemma pixel_at_init: "pixel_at [[]] = (\<lambda>_ _. None)"
  by (simp add: fun_eq_iff pixel_at_def)

lemma sixel_abs_init: "sixel_abs (sixel_init [[]]) = sixel_init (\<lambda>_ _. None)"
  by (simp add: sixel_abs_def sixel_init_def pixel_at_init)

text \<open>Each step of the decoder is the step of the specification on the abstract state.\<close>

lemma sixel_abs_upd:
  "(sixel_abs st)\<lparr>sx_x := x\<rparr> = sixel_abs (st\<lparr>sx_x := x\<rparr>)"
  "(sixel_abs st)\<lparr>sx_band := n\<rparr> = sixel_abs (st\<lparr>sx_band := n\<rparr>)"
  "(sixel_abs st)\<lparr>sx_max_x := n\<rparr> = sixel_abs (st\<lparr>sx_max_x := n\<rparr>)"
  "(sixel_abs st)\<lparr>sx_max_band := n\<rparr> = sixel_abs (st\<lparr>sx_max_band := n\<rparr>)"
  "(sixel_abs st)\<lparr>sx_palette := p\<rparr> = sixel_abs (st\<lparr>sx_palette := p\<rparr>)"
  "(sixel_abs st)\<lparr>sx_color := c\<rparr> = sixel_abs (st\<lparr>sx_color := c\<rparr>)"
  "(sixel_abs st)\<lparr>sx_buf := pixel_at b\<rparr> = sixel_abs (st\<lparr>sx_buf := b\<rparr>)"
  by (simp_all add: sixel_abs_def)

lemma canvas_paint_abs:
  "for_range a b (\<lambda>x. canvas_paint x (sx_band st) bits c) (pixel_at (sx_buf st)) =
     pixel_at (for_range a b (\<lambda>x. paint_col x (sx_band st) bits c)
      (ensure_bands (sx_band st) (sx_buf st)))"
  "canvas_paint x (sx_band st) bits c (pixel_at (sx_buf st)) =
     pixel_at (paint_col x (sx_band st) bits c (ensure_bands (sx_band st) (sx_buf st)))"
  by (simp_all add: pixel_at_paint_run pixel_at_paint_col length_ensure_bands [simplified])

lemma sixel_step_refines:
  "sixel_step (\<lambda>_ cv. cv) canvas_paint d ds (sixel_abs st) =
     map_option (\<lambda>(st', rest). (sixel_abs st', rest)) (sixel_step ensure_bands paint_col d ds st)"
proof -
  have grow: "(sixel_abs st)\<lparr>sx_x := 0, sx_band := n, sx_max_band := m, sx_buf := pixel_at (sx_buf st)\<rparr>
    = sixel_abs (st\<lparr>sx_x := 0, sx_band := n, sx_max_band := m,
        sx_buf := ensure_bands n (sx_buf st)\<rparr>)" for n m
    by (simp add: sixel_abs_def)
  consider "d = 35" | "d = 36" | "d = 45" | "d = 33" | "d \<notin> {33, 35, 36, 45}" by blast
  then show ?thesis
  proof cases
    case 1
    then show ?thesis
      by (simp add: sixel_step_def sixel_abs_upd split: option.split prod.split)
  next
    case 4
    then show ?thesis
      by (auto simp: sixel_step_def Let_def canvas_paint_abs sixel_abs_upd
          split: prod.split list.split)
  next
    case 5
    then show ?thesis
      by (simp add: sixel_step_def canvas_paint_abs sixel_abs_upd)
  qed (simp_all add: sixel_step_def Let_def grow sixel_abs_upd)
qed

lemma sixel_loop_refines:
  "canvas_loop ds (sixel_abs st) = map_option sixel_abs (sixel_loop ensure_bands paint_col ds st)"
  unfolding canvas_loop_def
  by (induction "ensure_bands" "paint_col" ds st rule: sixel_loop.induct)
    (auto simp: sixel_step_refines split: option.split)

section \<open>The bytes of the image\<close>

definition pixel_bytes :: "rgb option \<Rightarrow> byte list" where
  "pixel_bytes p = (case p of None \<Rightarrow> [0, 0, 0, 0] | Some (r, g, b) \<Rightarrow> [r, g, b, 255])"

definition quad :: "nat \<Rightarrow> byte list \<Rightarrow> byte list" where
  "quad k rgba = take 4 (drop (k * 4) rgba)"

lemma length_write_pixel [simp]: "length (write_pixel i p rgba) = length rgba"
  by (simp add: write_pixel_def split: option.split)

lemma quad_write_pixel:
  assumes "(j + 1) * 4 \<le> length rgba"
  shows "quad k (write_pixel (j * 4) p rgba) =
    (if k = j \<and> p \<noteq> None then pixel_bytes p else quad k rgba)"
proof (cases p)
  case (Some c)
  obtain r g b where c: "c = (r, g, b)" by (cases c)
  let ?w = "rgba[j * 4 := r, j * 4 + 1 := g, j * 4 + 2 := b, j * 4 + 3 := 255]"
  have in4: "i < 4 \<Longrightarrow> i = 0 \<or> i = 1 \<or> i = 2 \<or> i = 3" for i :: nat by arith
  show ?thesis
  proof (cases "k = j")
    case True
    have "quad j ?w = [r, g, b, 255]"
      using assms by (intro nth_equalityI) (auto simp: quad_def nth_list_update dest!: in4)
    then show ?thesis using True by (simp add: Some c write_pixel_def pixel_bytes_def)
  next
    case False
    then have "quad k ?w = quad k rgba"
      by (intro nth_equalityI) (auto simp: quad_def nth_list_update)
    then show ?thesis using False by (simp add: Some c write_pixel_def)
  qed
qed (simp add: write_pixel_def)

lemma take_enumerate: "take n (enumerate m xs) = enumerate m (take n xs)"
  by (induction xs arbitrary: m n) (auto simp: take_Cons split: nat.split)

definition write_row :: "nat \<Rightarrow> nat \<Rightarrow> nat \<Rightarrow> rgb option list \<Rightarrow> byte list \<Rightarrow> byte list" where
  "write_row width row_idx n row rgba =
     fold (\<lambda>(col_idx, p) rgba. write_pixel ((row_idx * width + col_idx) * 4) p rgba)
       (enumerate n row) rgba"

lemma length_write_row [simp]: "length (write_row w r n row rgba) = length rgba"
  by (induction row arbitrary: n rgba) (simp_all add: write_row_def)

lemma quad_write_row:
  assumes "(r * w + n + length row) * 4 \<le> length rgba"
  shows "quad k (write_row w r n row rgba) =
    (if r * w + n \<le> k \<and> k < r * w + n + length row \<and> row ! (k - (r * w + n)) \<noteq> None
     then pixel_bytes (row ! (k - (r * w + n))) else quad k rgba)"
  using assms
proof (induction row arbitrary: n rgba)
  case Nil
  then show ?case by (auto simp: write_row_def)
next
  case (Cons p row)
  have step: "write_row w r n (p # row) rgba =
      write_row w r (Suc n) row (write_pixel ((r * w + n) * 4) p rgba)"
    by (simp add: write_row_def)
  have ih: "quad k (write_row w r n (p # row) rgba) =
    (if r * w + Suc n \<le> k \<and> k < r * w + Suc n + length row \<and> row ! (k - (r * w + Suc n)) \<noteq> None
     then pixel_bytes (row ! (k - (r * w + Suc n)))
     else if k = r * w + n \<and> p \<noteq> None then pixel_bytes p else quad k rgba)"
    unfolding step using Cons.prems
    by (subst Cons.IH) (auto simp: quad_write_pixel [of "r * w + n", simplified])
  consider "k < r * w + n" | "k = r * w + n" | "r * w + Suc n \<le> k" by linarith
  then show ?case
  proof cases
    case 3
    then have "k - (r * w + n) = Suc (k - (r * w + Suc n))" by arith
    then show ?thesis using 3 by (simp only: ih nth_Cons_Suc) auto
  qed (use ih in auto)
qed

lemma row_index_unique:
  assumes "c < (w :: nat)" and "l \<le> w"
  shows "m * w \<le> r * w + c \<and> r * w + c < m * w + l \<longleftrightarrow> r = m \<and> c < l"
proof -
  have "r < m \<Longrightarrow> r * w + c < m * w"
    using assms(1) mult_le_mono1 [of "Suc r" m w] by simp
  moreover have "m < r \<Longrightarrow> m * w + l \<le> r * w + c"
    using assms(2) mult_le_mono1 [of "Suc m" r w] by simp
  ultimately show ?thesis by (cases r m rule: linorder_cases) auto
qed

lemma quad_write_rows:
  assumes "c < w" and "(m + length rows) * w * 4 \<le> length rgba"
  shows "quad (r * w + c)
      (fold (\<lambda>(i, row). write_row w i 0 (take w row)) (enumerate m rows) rgba) =
    (if m \<le> r \<and> r < m + length rows \<and> pixel_at rows c (r - m) \<noteq> None
     then pixel_bytes (pixel_at rows c (r - m)) else quad (r * w + c) rgba)"
  using assms(2)
proof (induction rows arbitrary: m rgba)
  case Nil
  then show ?case by auto
next
  case (Cons row rows)
  have fits: "m * w * 4 + min (length row) w * 4 \<le> length rgba"
    using Cons.prems by (simp add: algebra_simps min_def)
  have first: "quad (r * w + c) (write_row w m 0 (take w row) rgba) =
    (if r = m \<and> c < length row \<and> row ! c \<noteq> None
     then pixel_bytes (row ! c) else quad (r * w + c) rgba)"
    using row_index_unique [of c w "min (length row) w" m r] assms(1) fits
    by (subst quad_write_row) (auto simp: algebra_simps)
  have "quad (r * w + c)
      (fold (\<lambda>(i, row). write_row w i 0 (take w row)) (enumerate m (row # rows)) rgba) =
    (if Suc m \<le> r \<and> r < Suc m + length rows \<and> pixel_at rows c (r - Suc m) \<noteq> None
     then pixel_bytes (pixel_at rows c (r - Suc m))
     else quad (r * w + c) (write_row w m 0 (take w row) rgba))"
    using Cons.prems by (simp add: Cons.IH)
  moreover have "pixel_at (row # rows) c (r - m) =
    (if r \<le> m then (if c < length row then row ! c else None) else pixel_at rows c (r - Suc m))"
  proof (cases "r \<le> m")
    case False
    then have "r - m = Suc (r - Suc m)" by simp
    then show ?thesis using False by (simp add: pixel_at_def)
  qed (simp add: pixel_at_def)
  ultimately show ?case using first
    by (cases r m rule: linorder_cases) auto
qed

lemma sixel_rgba_rows:
  "sixel_rgba w h buf rgba =
     fold (\<lambda>(i, row). write_row w i 0 (take w row)) (enumerate 0 (take h buf)) rgba"
  by (simp add: sixel_rgba_def write_row_def [abs_def] take_enumerate split_def)

lemma length_sixel_rgba [simp]: "length (sixel_rgba w h buf rgba) = length rgba"
  unfolding sixel_rgba_rows by (rule fold_inv [of "\<lambda>x. length x = length rgba"]) auto

lemma less_imp_le_diff4: "k < (n :: nat) \<Longrightarrow> 4 \<le> n * 4 - k * 4"
  by simp

lemma quad_sixel_rgba:
  assumes "c < w" and "r < h"
  shows "quad (r * w + c) (sixel_rgba w h buf (replicate (w * h * 4) 0)) =
    pixel_bytes (pixel_at buf c r)"
proof -
  have "r * w + c < h * w" using assms mult_le_mono1 [of "Suc r" h w] by simp
  then have zero: "quad (r * w + c) (replicate (w * h * 4) 0) = [0, 0, 0, 0]"
    by (simp add: quad_def min_absorb1 mult.commute [of w h] less_imp_le_diff4)
      (simp add: numeral_eq_Suc)
  have "min (length buf) h * w * 4 \<le> w * h * 4" by (simp add: mult.commute)
  then have "quad (r * w + c) (sixel_rgba w h buf (replicate (w * h * 4) 0)) =
    (if pixel_at (take h buf) c r \<noteq> None then pixel_bytes (pixel_at (take h buf) c r)
     else [0, 0, 0, 0])"
    unfolding sixel_rgba_rows using assms(1)
    by (subst quad_write_rows) (auto simp: zero pixel_at_def)
  then show ?thesis using assms(2)
    by (cases "pixel_at buf c r") (auto simp: pixel_at_def pixel_bytes_def)
qed

lemma decode_sixel_cases:
  assumes "sixel_loop ensure_bands paint_col data (sixel_init [[]]) = Some st"
  shows "decode_sixel data =
    (if sx_max_x st = 0 then None
     else Some \<lparr>img_width = sx_max_x st, img_height = (sx_max_band st + 1) * 6,
        img_rgba = sixel_rgba (sx_max_x st) ((sx_max_band st + 1) * 6) (sx_buf st)
          (replicate (sx_max_x st * ((sx_max_band st + 1) * 6) * 4) 0)\<rparr>)"
proof -
  have b: "sx_max_x st \<le> 4096" "(sx_max_band st + 1) * 6 \<le> 4096"
    using sixel_loop_bounded [OF assms sixel_bounded_init]
    by (simp_all add: sixel_bounded_def MAX_SIXEL_DIMENSION_def)
  then have "sx_max_x st * ((sx_max_band st + 1) * 6) * 4 \<le> 4096 * 4096 * 4"
    by (intro mult_le_mono) simp_all
  then have "checked_image_bytes (sx_max_x st) ((sx_max_band st + 1) * 6) 4 =
      Some (sx_max_x st * ((sx_max_band st + 1) * 6) * 4)"
    by (simp add: checked_image_bytes_def MAX_IMAGE_BYTES_def)
  then show ?thesis using b by (simp add: decode_sixel_def assms Let_def u32_max_def)
qed

end
