(* ===== verification/Image_Decode.thy ===== *)
theory Image_Decode
  imports Rust_Str Sixel
begin

text \<open>
  The Kitty and iTerm2 image decoders (\<open>decode_kitty\<close>, \<open>decode_iterm2\<close> of
  \<open>nexterm-vt/src/image.rs\<close>) and the interface all three decoders offer to the
  screen: an image they return has four bytes for every pixel, within the size limit.
\<close>

section \<open>Kitty graphics\<close>

record kitty_params =
  kp_format :: u8
  kp_width :: nat
  kp_height :: nat
  kp_action :: byte

definition kitty_param :: "byte list \<Rightarrow> kitty_params \<Rightarrow> kitty_params" where
  "kitty_param param kp =
     (case param of
        key # eq # val \<Rightarrow>
          (if eq \<noteq> 61 then kp
           else if key = 97 then kp\<lparr>kp_action := (case val of [] \<Rightarrow> 84 | v # _ \<Rightarrow> v)\<rparr>
           else if key = 102 then kp\<lparr>kp_format := of_nat (parse_u32_bytes val)\<rparr>
           else if key = 115 then kp\<lparr>kp_width := parse_u32_bytes val\<rparr>
           else if key = 118 then kp\<lparr>kp_height := parse_u32_bytes val\<rparr>
           else kp)
      | _ \<Rightarrow> kp)"

fun rgb_to_rgba :: "byte list \<Rightarrow> byte list" where
  "rgb_to_rgba (r # g # b # rest) = r # g # b # 255 # rgb_to_rgba rest"
| "rgb_to_rgba _ = []"

definition kitty_pixels :: "kitty_params \<Rightarrow> byte list \<Rightarrow> decoded_image option" where
  "kitty_pixels kp pixel_data =
     (if kp_format kp = 32 then
        (if kp_width kp = 0 \<or> kp_height kp = 0 then None
         else case checked_image_bytes (kp_width kp) (kp_height kp) 4 of
           None \<Rightarrow> None
         | Some expected \<Rightarrow>
             (if length pixel_data < expected then None
              else Some \<lparr>img_width = kp_width kp, img_height = kp_height kp,
                         img_rgba = take expected pixel_data\<rparr>))
      else if kp_format kp = 24 then
        (if kp_width kp = 0 \<or> kp_height kp = 0 then None
         else case checked_image_bytes (kp_width kp) (kp_height kp) 3 of
           None \<Rightarrow> None
         | Some expected \<Rightarrow>
             (case checked_image_bytes (kp_width kp) (kp_height kp) 4 of
                None \<Rightarrow> None
              | Some _ \<Rightarrow>
                  (if length pixel_data < expected then None
                   else Some \<lparr>img_width = kp_width kp, img_height = kp_height kp,
                              img_rgba = rgb_to_rgba (take expected pixel_data)\<rparr>)))
      else None)"

definition decode_kitty :: "byte list \<Rightarrow> decoded_image option" where
  "decode_kitty apc_data =
     (case apc_data of
        [] \<Rightarrow> None
      | g # data \<Rightarrow>
          (if g \<noteq> 71 then None
           else case split_once 59 data of
             None \<Rightarrow> None
           | Some (params_bytes, payload) \<Rightarrow>
               (let kp = fold kitty_param (split_on 44 params_bytes)
                      \<lparr>kp_format = 32, kp_width = 0, kp_height = 0, kp_action = 84\<rparr> in
                if kp_action kp \<noteq> 84 then None
                else case base64_decode payload of
                  None \<Rightarrow> None
                | Some pixel_data \<Rightarrow> kitty_pixels kp pixel_data)))"

section \<open>iTerm2 inline images\<close>

text \<open>
  The \<open>image\<close> crate is a parameter: \<open>load\<close> gives the dimensions of a file it can
  read with the raw bytes of its RGBA form.  The crate documents that the raw form of
  an RGBA buffer has four bytes per pixel and that dimensions are \<open>u32\<close>.
\<close>

type_synonym image_loader = "byte list \<Rightarrow> (nat \<times> nat \<times> byte list) option"

definition loader_law :: "image_loader \<Rightarrow> bool" where
  "loader_law load \<longleftrightarrow>
     (\<forall>d w h raw. load d = Some (w, h, raw) \<longrightarrow>
        length raw = w * h * 4 \<and> w \<le> u32_max \<and> h \<le> u32_max)"

definition decode_iterm2 :: "image_loader \<Rightarrow> byte list \<Rightarrow> decoded_image option" where
  "decode_iterm2 load data =
     (case load data of
        None \<Rightarrow> None
      | Some (width, height, raw) \<Rightarrow>
          (case checked_image_bytes width height 4 of
             None \<Rightarrow> None
           | Some _ \<Rightarrow> Some \<lparr>img_width = width, img_height = height, img_rgba = raw\<rparr>))"

section \<open>The interface of a decoder\<close>

text \<open>
  The screen relies on one law of a decoder.  What follows for the queue of pending
  images is proved once, and holds for every decoder that keeps the law.
\<close>

locale image_decoder =
  fixes decode :: "byte list \<Rightarrow> decoded_image option"
  assumes decode_ok: "decode d = Some img \<Longrightarrow> image_ok img"
begin

lemma decoded_size: "decode d = Some img \<Longrightarrow> length (img_rgba img) \<le> MAX_IMAGE_BYTES"
  using decode_ok [of d img] by (simp add: image_ok_def)

lemma decoded_bytes:
  "decode d = Some img \<Longrightarrow> length (img_rgba img) = img_width img * img_height img * 4"
  using decode_ok [of d img] by (simp add: image_ok_def)

end

lemma kitty_params_bounded:
  "kp_width kp \<le> u32_max \<and> kp_height kp \<le> u32_max \<Longrightarrow>
   kp_width (fold kitty_param ps kp) \<le> u32_max \<and> kp_height (fold kitty_param ps kp) \<le> u32_max"
  by (rule fold_inv) (auto simp: kitty_param_def split: list.split)

lemma length_rgb_to_rgba: "length bs = 3 * n \<Longrightarrow> length (rgb_to_rgba bs) = 4 * n"
proof (induction n arbitrary: bs)
  case (Suc n)
  then obtain r g b rest where "bs = r # g # b # rest" "length rest = 3 * n"
    by (cases bs rule: rgb_to_rgba.cases) auto
  then show ?case by (simp add: Suc.IH)
qed simp

lemma kitty_pixels_ok:
  assumes "kitty_pixels kp d = Some img" "kp_width kp \<le> u32_max" "kp_height kp \<le> u32_max"
  shows "image_ok img"
proof -
  have 24: "length (rgb_to_rgba (take (w * h * 3) d)) = w * h * 4" if "w * h * 3 \<le> length d" for w h
    using length_rgb_to_rgba [of "take (w * h * 3) d" "w * h"] that by simp
  show ?thesis using assms
    by (auto simp: kitty_pixels_def image_ok_def checked_image_bytes_Some 24
        split: if_splits option.splits)
qed

lemma decode_kitty_ok: "decode_kitty d = Some img \<Longrightarrow> image_ok img"
  by (auto simp: decode_kitty_def Let_def kitty_params_bounded
      split: list.splits if_splits option.splits dest!: kitty_pixels_ok)

lemma decode_sixel_ok: "decode_sixel d = Some img \<Longrightarrow> image_ok img"
  by (auto simp: decode_sixel_def Let_def image_ok_def checked_image_bytes_Some
      split: if_splits option.splits)

lemma decode_iterm2_decoder: "loader_law load \<Longrightarrow> image_decoder (decode_iterm2 load)"
  by unfold_locales
    (auto simp: decode_iterm2_def loader_law_def image_ok_def checked_image_bytes_Some
      split: option.splits)

interpretation kitty: image_decoder decode_kitty
  by unfold_locales (rule decode_kitty_ok)

interpretation sixel: image_decoder decode_sixel
  by unfold_locales (rule decode_sixel_ok)

end
