(* ===== verification/Screen_State.thy ===== *)
theory Screen_State
  imports Cell_Grid Colors Osc_Text Image_Decode "HOL-Library.AList"
begin

text \<open>
  The virtual screen of \<open>nexterm-vt/src/screen.rs\<close>: its state (struct \<open>Screen\<close>) and
  the operations on the grid, the cursor, the scrolling region, the pen and the
  alternate buffer.  The two hash maps are association lists with distinct keys; their
  order is never observed by the program, which sorts the one it exports.
\<close>

section \<open>State\<close>

datatype semantic_mark_kind = PromptStart | CommandStart | OutputStart | CommandEnd

record semantic_mark =
  sm_row :: nat
  sm_kind :: semantic_mark_kind
  sm_exit_code :: "int option"

record text_sizing_event =
  ts_scale_num :: nat
  ts_scale_den :: nat
  ts_width_cells :: nat
  ts_valign :: nat
  ts_halign :: nat
  ts_col :: nat
  ts_row :: nat
  ts_text :: rstr

record pending_image =
  pi_id :: nat
  pi_col :: nat
  pi_row :: nat
  pi_width :: nat
  pi_height :: nat
  pi_rgba :: "byte list"

record screen_buffer =
  sb_rows :: "cell list list"
  sb_cursor_col :: nat
  sb_cursor_row :: nat

datatype dnd_request = DndData nat | DndComplete

record color_overrides =
  co_fg :: "rgb option"
  co_bg :: "rgb option"
  co_palette :: "(u8 \<times> rgb) list"

record screen =
  s_grid :: grid
  s_dirty :: "bool list"
  s_pending_scrollback :: "cell list list"
  s_cursor_col :: nat
  s_cursor_row :: nat
  s_current_fg :: color
  s_current_bg :: color
  s_current_attrs :: attrs
  s_scroll_top :: nat
  s_scroll_bottom :: nat
  s_dcs_sixel_active :: bool
  s_dcs_buf :: "byte list"
  s_dcs_cursor :: "nat \<times> nat"
  s_pending_images :: "pending_image list"
  s_pending_text_sizing :: "text_sizing_event list"
  s_next_image_id :: nat
  s_kitty_chunk_payload :: "byte list"
  s_kitty_chunk_params :: "byte list option"
  s_pending_bell :: bool
  s_pending_title :: "rstr option"
  s_pending_notification :: "(rstr \<times> rstr) option"
  s_pending_cwd :: "rstr option"
  s_alt_screen :: "screen_buffer option"
  s_alt_mode :: bool
  s_bracketed_paste :: bool
  s_synchronized_output :: bool
  s_mouse_mode :: nat
  s_semantic_marks :: "semantic_mark list"
  s_current_hyperlink_url :: "rstr option"
  s_hyperlink_start_col :: nat
  s_hyperlink_start_row :: nat
  s_pending_clipboard_writes :: "rstr list"
  s_keyboard_protocol_flags :: u8
  s_keyboard_protocol_stack :: "u8 list"
  s_pending_responses :: "byte list list"
  s_configured_fg :: rgb
  s_configured_bg :: rgb
  s_dynamic_fg :: "rgb option"
  s_dynamic_bg :: "rgb option"
  s_palette_overrides :: "(u8 \<times> rgb) list"
  s_pending_pointer_shape :: "rstr option"
  s_color_overrides_changed :: bool
  s_osc99_pending :: "(rstr \<times> (rstr \<times> rstr)) list"
  s_pending_progress :: "(nat \<times> nat) option"
  s_dnd_enabled :: bool
  s_pending_dnd_requests :: "dnd_request list"

definition screen_new :: "nat \<Rightarrow> nat \<Rightarrow> screen" where
  "screen_new cols rows =
     \<lparr>s_grid = grid_new cols rows, s_dirty = replicate rows False, s_pending_scrollback = [],
      s_cursor_col = 0, s_cursor_row = 0, s_current_fg = Default, s_current_bg = Default,
      s_current_attrs = 0, s_scroll_top = 0, s_scroll_bottom = rows - 1,
      s_dcs_sixel_active = False, s_dcs_buf = [], s_dcs_cursor = (0, 0), s_pending_images = [],
      s_pending_text_sizing = [], s_next_image_id = 1, s_kitty_chunk_payload = [],
      s_kitty_chunk_params = None, s_pending_bell = False, s_pending_title = None,
      s_pending_notification = None, s_pending_cwd = None, s_alt_screen = None,
      s_alt_mode = False, s_bracketed_paste = False, s_synchronized_output = False,
      s_mouse_mode = 0, s_semantic_marks = [], s_current_hyperlink_url = None,
      s_hyperlink_start_col = 0, s_hyperlink_start_row = 0, s_pending_clipboard_writes = [],
      s_keyboard_protocol_flags = 0, s_keyboard_protocol_stack = [], s_pending_responses = [],
      s_configured_fg = FALLBACK_FG, s_configured_bg = FALLBACK_BG, s_dynamic_fg = None,
      s_dynamic_bg = None, s_palette_overrides = [], s_pending_pointer_shape = None,
      s_color_overrides_changed = False, s_osc99_pending = [], s_pending_progress = None,
      s_dnd_enabled = False, s_pending_dnd_requests = []\<rparr>"

section \<open>Dirty rows\<close>

definition mark_dirty :: "nat \<Rightarrow> screen \<Rightarrow> screen" where
  "mark_dirty row s = s\<lparr>s_dirty := (s_dirty s)[row := True]\<rparr>"

definition is_dirty :: "screen \<Rightarrow> nat \<Rightarrow> bool" where
  "is_dirty s row = (case lget (s_dirty s) row of None \<Rightarrow> False | Some d \<Rightarrow> d)"

definition clear_dirty :: "screen \<Rightarrow> screen" where
  "clear_dirty s = s\<lparr>s_dirty := map (\<lambda>_. False) (s_dirty s)\<rparr>"

text \<open>The loop of \<open>take_dirty_rows\<close>; indexing the grid past its rows would panic.\<close>

fun collect_dirty :: "cell list list \<Rightarrow> nat \<Rightarrow> bool list \<Rightarrow> dirty_row list option" where
  "collect_dirty rows i [] = Some []"
| "collect_dirty rows i (d # ds) =
     (if d then
        (case lget rows i of
           None \<Rightarrow> None
         | Some cells \<Rightarrow>
             map_option (Cons \<lparr>dr_row = wrap16 i, dr_cells = cells\<rparr>) (collect_dirty rows (Suc i) ds))
      else collect_dirty rows (Suc i) ds)"

definition take_dirty_rows :: "screen \<Rightarrow> (dirty_row list \<times> screen) option" where
  "take_dirty_rows s =
     (if s_synchronized_output s then Some ([], s)
      else map_option (\<lambda>rows. (rows, s\<lparr>s_dirty := map (\<lambda>_. False) (s_dirty s)\<rparr>))
        (collect_dirty (g_rows (s_grid s)) 0 (s_dirty s)))"

definition set_synchronized_output :: "bool \<Rightarrow> screen \<Rightarrow> screen" where
  "set_synchronized_output enabled s = s\<lparr>s_synchronized_output := enabled\<rparr>"

definition full_refresh_grid :: "screen \<Rightarrow> grid" where
  "full_refresh_grid s =
     (s_grid s)\<lparr>g_cursor_col := s_cursor_col s, g_cursor_row := s_cursor_row s\<rparr>"

definition take_scrolled_off_lines :: "screen \<Rightarrow> cell list list \<times> screen" where
  "take_scrolled_off_lines s = (s_pending_scrollback s, s\<lparr>s_pending_scrollback := []\<rparr>)"

section \<open>The alternate screen\<close>

definition switch_to_alt :: "screen \<Rightarrow> screen" where
  "switch_to_alt s =
     (if s_alt_mode s then s
      else let cols = g_width (s_grid s); rows = g_height (s_grid s) in
        s\<lparr>s_alt_screen := Some \<lparr>sb_rows = g_rows (s_grid s), sb_cursor_col = s_cursor_col s,
            sb_cursor_row = s_cursor_row s\<rparr>,
          s_grid := grid_new cols rows,
          s_dirty := replicate rows True,
          s_cursor_col := 0, s_cursor_row := 0,
          s_scroll_top := 0, s_scroll_bottom := rows - 1,
          s_alt_mode := True\<rparr>)"

definition switch_to_primary :: "screen \<Rightarrow> screen" where
  "switch_to_primary s =
     (if \<not> s_alt_mode s then s
      else let s' = (case s_alt_screen s of
             None \<Rightarrow> s
           | Some saved \<Rightarrow>
               s\<lparr>s_alt_screen := None,
                 s_grid := (s_grid s)\<lparr>g_rows := sb_rows saved\<rparr>,
                 s_cursor_col := sb_cursor_col saved, s_cursor_row := sb_cursor_row saved,
                 s_dirty := replicate (g_height (s_grid s)) True\<rparr>) in
        s'\<lparr>s_scroll_top := 0, s_scroll_bottom := g_height (s_grid s') - 1, s_alt_mode := False\<rparr>)"

section \<open>Resizing\<close>

text \<open>
  The visible grid is copied cell by cell with checked indexing, the saved primary
  buffer with zipped iterators, which stop at the shorter side.
\<close>

definition copy_cell :: "grid \<Rightarrow> nat \<Rightarrow> nat \<Rightarrow> grid \<Rightarrow> grid option" where
  "copy_cell old r c new =
     (case grid_get old c r of
        None \<Rightarrow> None
      | Some x \<Rightarrow> (case grid_get new c r of None \<Rightarrow> None | Some _ \<Rightarrow> Some (grid_set c r x new)))"

definition copy_grid :: "grid \<Rightarrow> nat \<Rightarrow> nat \<Rightarrow> grid \<Rightarrow> grid option" where
  "copy_grid old copy_rows copy_cols new =
     foldM (\<lambda>r. foldM (copy_cell old r) [0..<copy_cols]) [0..<copy_rows] new"

definition copy_prefix :: "nat \<Rightarrow> ('a \<Rightarrow> 'b \<Rightarrow> 'b) \<Rightarrow> 'a list \<Rightarrow> 'b list \<Rightarrow> 'b list" where
  "copy_prefix n f src dst =
     (let k = min n (min (length dst) (length src)) in
      map (\<lambda>(d, x). f x d) (zip (take k dst) (take k src)) @ drop k dst)"

definition resize_saved :: "nat \<Rightarrow> nat \<Rightarrow> screen_buffer \<Rightarrow> screen_buffer" where
  "resize_saved new_cols new_rows saved =
     (let old_rows = wrap16 (length (sb_rows saved));
          old_cols = wrap16 (case sb_rows saved of [] \<Rightarrow> 0 | r # _ \<Rightarrow> length r);
          copy_rows = min old_rows new_rows;
          copy_cols = min old_cols new_cols in
      \<lparr>sb_rows = copy_prefix copy_rows (copy_prefix copy_cols (\<lambda>x _. x)) (sb_rows saved)
         (replicate new_rows (replicate new_cols default_cell)),
       sb_cursor_col = min (sb_cursor_col saved) (new_cols - 1),
       sb_cursor_row = min (sb_cursor_row saved) (new_rows - 1)\<rparr>)"

definition screen_resize :: "nat \<Rightarrow> nat \<Rightarrow> screen \<Rightarrow> screen option" where
  "screen_resize new_cols new_rows s =
     map_option (\<lambda>new_grid.
       s\<lparr>s_grid := new_grid,
         s_dirty := replicate new_rows True,
         s_cursor_col := min (s_cursor_col s) (new_cols - 1),
         s_cursor_row := min (s_cursor_row s) (new_rows - 1),
         s_scroll_top := 0,
         s_scroll_bottom := new_rows - 1,
         s_alt_screen := map_option (resize_saved new_cols new_rows) (s_alt_screen s)\<rparr>)
     (copy_grid (s_grid s) (min (g_height (s_grid s)) new_rows) (min (g_width (s_grid s)) new_cols)
       (grid_new new_cols new_rows))"

section \<open>Writing and scrolling\<close>

definition on_grid :: "(grid \<Rightarrow> grid) \<Rightarrow> screen \<Rightarrow> screen" where
  "on_grid f s = s\<lparr>s_grid := f (s_grid s)\<rparr>"

definition clear_and_mark :: "nat \<Rightarrow> screen \<Rightarrow> screen" where
  "clear_and_mark r s = mark_dirty r (on_grid (grid_clear_row r) s)"

definition scroll_up :: "screen \<Rightarrow> screen" where
  "scroll_up s =
     (let top = s_scroll_top s; bottom = s_scroll_bottom s;
          s1 = (if \<not> s_alt_mode s \<and> s_scroll_top s = 0 then
                  (case lget (g_rows (s_grid s)) top of
                     None \<Rightarrow> s
                   | Some row \<Rightarrow> s\<lparr>s_pending_scrollback := s_pending_scrollback s @ [row]\<rparr>)
                else s) in
      clear_and_mark bottom
        (for_range top bottom (\<lambda>r s. mark_dirty r (on_grid (grid_copy_row r (r + 1)) s)) s1))"

definition advance_line :: "screen \<Rightarrow> screen" where
  "advance_line s =
     (if s_cursor_row s \<ge> s_scroll_bottom s then scroll_up s
      else s\<lparr>s_cursor_row := s_cursor_row s + 1\<rparr>)"

text \<open>
  \<open>cw\<close> is the display width of a character (the \<open>unicode-width\<close> crate, a parameter);
  a character without one counts as one column.
\<close>

type_synonym char_width = "uchar \<Rightarrow> nat option"

definition pen_cell :: "screen \<Rightarrow> uchar \<Rightarrow> cell" where
  "pen_cell s ch =
     \<lparr>cell_ch = ch, cell_fg = s_current_fg s, cell_bg = s_current_bg s,
      cell_attrs = s_current_attrs s\<rparr>"

definition wrap_line :: "screen \<Rightarrow> screen" where
  "wrap_line s = advance_line (s\<lparr>s_cursor_col := 0\<rparr>)"

definition write_char :: "char_width \<Rightarrow> uchar \<Rightarrow> screen \<Rightarrow> screen" where
  "write_char cw ch s0 =
     (let char_width = wrap16 (case cw ch of None \<Rightarrow> 1 | Some n \<Rightarrow> n);
          s1 = (if s_cursor_col s0 \<ge> g_width (s_grid s0) then wrap_line s0 else s0);
          s2 = (if char_width = 2 \<and> wrap16 (s_cursor_col s1 + 1) \<ge> g_width (s_grid s1)
                then wrap_line s1 else s1);
          row = s_cursor_row s2;
          s3 = mark_dirty row (on_grid (grid_set (s_cursor_col s2) row (pen_cell s2 ch)) s2);
          s4 = s3\<lparr>s_cursor_col := wrap16 (s_cursor_col s3 + 1)\<rparr> in
      if char_width = 2 \<and> s_cursor_col s4 < g_width (s_grid s4) then
        (let s5 = on_grid (grid_set (s_cursor_col s4) row (pen_cell s4 32)) s4 in
         s5\<lparr>s_cursor_col := wrap16 (s_cursor_col s5 + 1)\<rparr>)
      else s4)"

section \<open>The pen\<close>

text \<open>
  One parameter of an SGR list and the parameters after it: the new screen, and how
  many of the following parameters it consumes.
\<close>

definition extended_color :: "nat list \<Rightarrow> (color \<times> nat) option" where
  "extended_color rest =
     (case rest of
        k # n # rs \<Rightarrow>
          (if k = 5 then Some (Indexed (of_nat n), 2)
           else if k = 2 then
             (case rs of
                g # b # _ \<Rightarrow> Some (Rgb (of_nat n) (of_nat g) (of_nat b), 4)
              | _ \<Rightarrow> None)
           else None)
      | _ \<Rightarrow> None)"

definition sgr_param :: "nat \<Rightarrow> nat list \<Rightarrow> screen \<Rightarrow> screen \<times> nat" where
  "sgr_param p rest s =
     (let attr = (\<lambda>f. (s\<lparr>s_current_attrs := f (s_current_attrs s)\<rparr>, 0));
          fg = (\<lambda>c. (s\<lparr>s_current_fg := c\<rparr>, 0));
          bg = (\<lambda>c. (s\<lparr>s_current_bg := c\<rparr>, 0)) in
      if p = 0 then
        (s\<lparr>s_current_fg := Default, s_current_bg := Default, s_current_attrs := 0\<rparr>, 0)
      else if p = 1 then attr (attrs_insert BOLD)
      else if p = 3 then attr (attrs_insert ITALIC)
      else if p = 4 then attr (attrs_insert UNDERLINE)
      else if p = 5 then attr (attrs_insert BLINK)
      else if p = 7 then attr (attrs_insert REVERSE)
      else if p = 9 then attr (attrs_insert STRIKETHROUGH)
      else if p = 22 then attr (attrs_remove BOLD)
      else if p = 24 then attr (attrs_remove UNDERLINE)
      else if p = 27 then attr (attrs_remove REVERSE)
      else if 30 \<le> p \<and> p \<le> 37 then fg (Indexed (of_nat p - 30))
      else if p = 38 then
        (case extended_color rest of None \<Rightarrow> (s, 0) | Some (c, n) \<Rightarrow> (s\<lparr>s_current_fg := c\<rparr>, n))
      else if p = 39 then fg Default
      else if 40 \<le> p \<and> p \<le> 47 then bg (Indexed (of_nat p - 40))
      else if p = 48 then
        (case extended_color rest of None \<Rightarrow> (s, 0) | Some (c, n) \<Rightarrow> (s\<lparr>s_current_bg := c\<rparr>, n))
      else if p = 49 then bg Default
      else if 90 \<le> p \<and> p \<le> 97 then fg (Indexed (of_nat p - 90 + 8))
      else if 100 \<le> p \<and> p \<le> 107 then bg (Indexed (of_nat p - 100 + 8))
      else (s, 0))"

function apply_sgr :: "nat list \<Rightarrow> screen \<Rightarrow> screen" where
  "apply_sgr [] s = s"
| "apply_sgr (p # ps) s = (case sgr_param p ps s of (s', n) \<Rightarrow> apply_sgr (drop n ps) s')"
  by pat_completeness auto
termination by (relation "measure (\<lambda>(ps, _). length ps)") auto

section \<open>Cursor, region, erasing\<close>

definition move_cursor :: "nat \<Rightarrow> nat \<Rightarrow> screen \<Rightarrow> screen" where
  "move_cursor col row s =
     s\<lparr>s_cursor_col := min col (g_width (s_grid s) - 1),
       s_cursor_row := min row (g_height (s_grid s) - 1)\<rparr>"

definition set_scroll_region :: "nat \<Rightarrow> nat \<Rightarrow> screen \<Rightarrow> screen" where
  "set_scroll_region tp bottom s =
     (let mx = g_height (s_grid s) - 1 in
      s\<lparr>s_scroll_top := min tp mx, s_scroll_bottom := min bottom mx,
        s_cursor_col := 0, s_cursor_row := 0\<rparr>)"

definition blank_cells :: "nat \<Rightarrow> nat \<Rightarrow> nat \<Rightarrow> screen \<Rightarrow> screen" where
  "blank_cells row a b = on_grid (for_range a b (\<lambda>c. grid_set c row default_cell))"

definition erase_in_line :: "nat \<Rightarrow> screen \<Rightarrow> screen" where
  "erase_in_line mode s =
     (let row = s_cursor_row s; width = g_width (s_grid s) in
      mark_dirty row
        (if mode = 0 then blank_cells row (s_cursor_col s) width s
         else if mode = 1 then blank_cells row 0 (s_cursor_col s + 1) s
         else if mode = 2 then on_grid (grid_clear_row row) s
         else s))"

definition erase_in_display :: "nat \<Rightarrow> screen \<Rightarrow> screen" where
  "erase_in_display mode s =
     (let height = g_height (s_grid s) in
      if mode = 0 then
        for_range (s_cursor_row s + 1) height clear_and_mark (erase_in_line 0 s)
      else if mode = 1 then
        erase_in_line 1 (for_range 0 (s_cursor_row s) clear_and_mark s)
      else if mode = 2 \<or> mode = 3 then
        (let s' = for_range 0 height clear_and_mark s in
         if mode = 2 then s'\<lparr>s_cursor_col := 0, s_cursor_row := 0\<rparr> else s')
      else s)"

end
