(* ===== verification/Screen_Inv.thy ===== *)
theory Screen_Inv
  imports Screen_State
begin

text \<open>
  The invariant of the grid side of the screen, and the tracking invariant of the dirty
  flags: a row not marked dirty is the row the client last received.  Both are kept by
  every operation of \<open>Screen_State\<close>.
\<close>

section \<open>The invariants\<close>

definition saved_ok :: "nat \<Rightarrow> nat \<Rightarrow> screen_buffer \<Rightarrow> bool" where
  "saved_ok w h b \<longleftrightarrow>
     rows_shape w h (sb_rows b) \<and> sb_cursor_col b \<le> max 1 w \<and> sb_cursor_row b \<le> h - 1"

definition geometry_ok :: "screen \<Rightarrow> bool" where
  "geometry_ok s \<longleftrightarrow>
     grid_wf (s_grid s)
     \<and> length (s_dirty s) = g_height (s_grid s)
     \<and> s_cursor_col s \<le> max 1 (g_width (s_grid s))
     \<and> s_cursor_row s \<le> g_height (s_grid s) - 1
     \<and> s_scroll_top s \<le> g_height (s_grid s) - 1
     \<and> s_scroll_bottom s \<le> g_height (s_grid s) - 1
     \<and> s_alt_mode s = (s_alt_screen s \<noteq> None)
     \<and> pred_option (saved_ok (g_width (s_grid s)) (g_height (s_grid s))) (s_alt_screen s)"

text \<open>\<open>m\<close> is the client's copy of the rows.\<close>

definition tracks :: "cell list list \<Rightarrow> screen \<Rightarrow> bool" where
  "tracks m s \<longleftrightarrow>
     (\<forall>r < g_height (s_grid s). \<not> s_dirty s ! r \<longrightarrow> lget m r = lget (g_rows (s_grid s)) r)"

definition good :: "cell list list \<Rightarrow> screen \<Rightarrow> bool" where
  "good m s \<longleftrightarrow> geometry_ok s \<and> tracks m s"

definition dims :: "screen \<Rightarrow> nat \<times> nat" where
  "dims s = (g_width (s_grid s), g_height (s_grid s))"

lemma good_geometry: "good m s \<Longrightarrow> geometry_ok s"
  by (simp add: good_def)

lemma geometry_bounds:
  assumes "geometry_ok s"
  shows "g_width (s_grid s) \<le> 65535" "g_height (s_grid s) \<le> 65535"
    "s_cursor_col s \<le> 65535" "s_cursor_row s \<le> 65535"
  using assms by (auto simp: geometry_ok_def grid_wf_def u16_max_def)

lemma geometry_len:
  "geometry_ok s \<Longrightarrow> length (s_dirty s) = length (g_rows (s_grid s))"
  by (simp add: geometry_ok_def grid_wf_def rows_shape_def)

text \<open>
  Everything the two invariants read.  An operation that leaves these fields alone
  keeps both.
\<close>

definition same_view :: "screen \<Rightarrow> screen \<Rightarrow> bool" where
  "same_view s t \<longleftrightarrow>
     s_grid t = s_grid s \<and> s_dirty t = s_dirty s \<and> s_cursor_col t = s_cursor_col s
     \<and> s_cursor_row t = s_cursor_row s \<and> s_scroll_top t = s_scroll_top s
     \<and> s_scroll_bottom t = s_scroll_bottom s \<and> s_alt_mode t = s_alt_mode s
     \<and> s_alt_screen t = s_alt_screen s"

lemma same_view_good: "same_view s t \<Longrightarrow> good m s \<Longrightarrow> good m t"
  by (simp add: same_view_def good_def geometry_ok_def tracks_def)

lemma same_view_refl [simp]: "same_view s s"
  by (simp add: same_view_def)

lemma same_view_trans: "same_view s t \<Longrightarrow> same_view t u \<Longrightarrow> same_view s u"
  by (simp add: same_view_def)

section \<open>Operations on one row\<close>

definition row_local :: "nat \<Rightarrow> (grid \<Rightarrow> grid) \<Rightarrow> bool" where
  "row_local r f \<longleftrightarrow>
     (\<forall>g. (grid_wf g \<longrightarrow> grid_wf (f g)) \<and> g_width (f g) = g_width g \<and> g_height (f g) = g_height g
        \<and> g_hyperlinks (f g) = g_hyperlinks g
        \<and> (\<forall>i. i \<noteq> r \<longrightarrow> lget (g_rows (f g)) i = lget (g_rows g) i))"

lemma row_local_set [simp, intro]: "row_local r (grid_set c r x)"
  by (auto simp: row_local_def grid_simps)
    (auto simp: grid_set_def lget_def nth_list_update split: option.split)

lemma row_local_clear [simp, intro]: "row_local r (grid_clear_row r)"
  by (auto simp: row_local_def grid_simps)
    (auto simp: grid_clear_row_def lget_def nth_list_update split: option.split)

lemma row_local_copy [simp, intro]: "row_local r (grid_copy_row r src)"
  by (auto simp: row_local_def grid_simps)
    (auto simp: grid_copy_row_def lget_def nth_list_update split: option.split)

lemma row_local_id [simp, intro]: "row_local r (\<lambda>g. g)"
  by (simp add: row_local_def)

lemma row_local_for [intro]:
  assumes "\<And>i. row_local r (f i)"
  shows "row_local r (for_range a b f)"
proof -
  have "row_local r (fold f xs)" for xs
  proof (induction xs)
    case (Cons x xs)
    then show ?case using assms [of x] by (auto simp: row_local_def)
  qed (simp add: row_local_def)
  then show ?thesis by (simp add: for_range_def [abs_def])
qed

lemma on_grid_sel [simp]:
  "s_grid (on_grid f s) = f (s_grid s)" "s_dirty (on_grid f s) = s_dirty s"
  "s_cursor_col (on_grid f s) = s_cursor_col s" "s_cursor_row (on_grid f s) = s_cursor_row s"
  "s_scroll_top (on_grid f s) = s_scroll_top s" "s_scroll_bottom (on_grid f s) = s_scroll_bottom s"
  "s_alt_mode (on_grid f s) = s_alt_mode s" "s_alt_screen (on_grid f s) = s_alt_screen s"
  by (simp_all add: on_grid_def)

lemma mark_dirty_sel [simp]:
  "s_grid (mark_dirty r s) = s_grid s" "s_dirty (mark_dirty r s) = (s_dirty s)[r := True]"
  "s_cursor_col (mark_dirty r s) = s_cursor_col s" "s_cursor_row (mark_dirty r s) = s_cursor_row s"
  "s_scroll_top (mark_dirty r s) = s_scroll_top s" "s_scroll_bottom (mark_dirty r s) = s_scroll_bottom s"
  "s_alt_mode (mark_dirty r s) = s_alt_mode s" "s_alt_screen (mark_dirty r s) = s_alt_screen s"
  by (simp_all add: mark_dirty_def)

lemma geometry_on_grid: "row_local r f \<Longrightarrow> geometry_ok s \<Longrightarrow> geometry_ok (on_grid f s)"
  by (auto simp: geometry_ok_def row_local_def)

lemma geometry_mark_dirty [simp]: "geometry_ok (mark_dirty r s) = geometry_ok s"
  by (simp add: geometry_ok_def)

lemma nth_marked: "i < length ds \<Longrightarrow> ds[r := True] ! i \<longleftrightarrow> i = r \<or> ds ! i"
  by (cases "i = r") simp_all

lemma good_mark_dirty [screen_inv]: "good m s \<Longrightarrow> good m (mark_dirty r s)"
  by (simp add: good_def tracks_def) (simp add: geometry_ok_def nth_marked)

lemma good_touch [screen_inv]:
  assumes "row_local r f" "good m s"
  shows "good m (mark_dirty r (on_grid f s))"
proof -
  have "length (s_dirty s) = g_height (s_grid s)"
    using assms(2) by (simp add: good_def geometry_ok_def)
  then show ?thesis using assms geometry_on_grid [OF assms(1), of s]
    by (auto simp: good_def tracks_def row_local_def nth_marked)
qed

lemma good_touch_dirty:
  assumes "row_local r f" "good m s" "r < g_height (s_grid s) \<Longrightarrow> s_dirty s ! r"
  shows "good m (on_grid f s)"
proof -
  have "geometry_ok (on_grid f s)"
    using assms(2) by (simp add: good_def geometry_on_grid [OF assms(1)])
  moreover have "lget m i = lget (g_rows (f (s_grid s))) i"
    if "i < g_height (s_grid s)" "\<not> s_dirty s ! i" for i
    using that assms by (cases "i = r") (simp_all add: row_local_def good_def tracks_def)
  ultimately show ?thesis
    using assms(1) by (simp add: good_def tracks_def row_local_def)
qed

lemma dims_on_grid: "row_local r f \<Longrightarrow> dims (on_grid f s) = dims s"
  by (simp add: dims_def row_local_def)

lemma dims_mark_dirty [simp]: "dims (mark_dirty r s) = dims s"
  by (simp add: dims_def)

lemma good_clear_and_mark [screen_inv]: "good m s \<Longrightarrow> good m (clear_and_mark r s)"
  by (simp add: clear_and_mark_def good_touch)

section \<open>Every operation keeps the invariants\<close>

lemma good_new [screen_inv]:
  assumes "cols \<le> u16_max" "rows \<le> u16_max"
  shows "good (g_rows (s_grid (screen_new cols rows))) (screen_new cols rows)"
  using assms by (simp add: good_def geometry_ok_def tracks_def screen_new_def grid_simps)
    (simp add: grid_new_def)

lemma good_scroll_up [screen_inv]:
  assumes "good m s"
  shows "good m (scroll_up s)"
proof -
  have push: "good m (s\<lparr>s_pending_scrollback := x\<rparr>)" for x
    using assms by (rule same_view_good [rotated]) (simp add: same_view_def)
  have loop: "good m (for_range a b (\<lambda>r s. mark_dirty r (on_grid (grid_copy_row r (Suc r)) s)) t)"
    if "good m t" for a b t
    using that by (rule for_range_inv) (rule good_touch [OF row_local_copy])
  show ?thesis
    by (auto simp: scroll_up_def Let_def push assms split: option.split
        intro!: good_clear_and_mark loop)
qed

lemma good_cursor_col:
  "good m s \<Longrightarrow> c \<le> max 1 (g_width (s_grid s)) \<Longrightarrow> good m (s\<lparr>s_cursor_col := c\<rparr>)"
  by (simp add: good_def geometry_ok_def tracks_def)

lemma good_cursor_row:
  "good m s \<Longrightarrow> r \<le> g_height (s_grid s) - 1 \<Longrightarrow> good m (s\<lparr>s_cursor_row := r\<rparr>)"
  by (simp add: good_def geometry_ok_def tracks_def)

lemma good_advance_line [screen_inv]:
  assumes "good m s"
  shows "good m (advance_line s)"
proof (cases "s_cursor_row s \<ge> s_scroll_bottom s")
  case True
  then show ?thesis using assms by (simp add: advance_line_def good_scroll_up)
next
  case False
  moreover have "s_scroll_bottom s \<le> g_height (s_grid s) - 1"
    using assms by (simp add: good_def geometry_ok_def)
  ultimately show ?thesis using assms by (simp add: advance_line_def good_cursor_row)
qed

lemma dims_for:
  "(\<And>i s. dims (f i s) = dims s) \<Longrightarrow> dims (for_range a b f s) = dims s"
  by (rule for_range_frame)

lemma dims_clear_and_mark [simp]: "dims (clear_and_mark r s) = dims s"
  by (simp add: clear_and_mark_def dims_on_grid [OF row_local_clear])

lemma dims_scroll_up [simp]: "dims (scroll_up s) = dims s"
proof -
  have "dims (s\<lparr>s_pending_scrollback := x\<rparr>) = dims s" for x by (simp add: dims_def)
  then show ?thesis
    by (simp add: scroll_up_def Let_def dims_for dims_on_grid [OF row_local_copy] split: option.split)
qed

lemma dims_advance_line [simp]: "dims (advance_line s) = dims s"
  by (simp add: advance_line_def) (simp add: dims_def)

lemma dims_eq: "dims s = dims t \<longleftrightarrow>
    g_width (s_grid s) = g_width (s_grid t) \<and> g_height (s_grid s) = g_height (s_grid t)"
  by (simp add: dims_def)

lemma cursor_col_advance_line [simp]: "s_cursor_col (advance_line s) = s_cursor_col s"
proof -
  have "s_cursor_col (for_range a b (\<lambda>r s. mark_dirty r (on_grid (grid_copy_row r (r + 1)) s)) t)
    = s_cursor_col t" for a b t
    by (rule for_range_frame [of s_cursor_col]) simp
  then show ?thesis
    by (simp add: advance_line_def scroll_up_def clear_and_mark_def Let_def split: option.split)
qed

lemma wrap_line_facts:
  assumes "good m s"
  shows "good m (wrap_line s)" "s_cursor_col (wrap_line s) = 0" "dims (wrap_line s) = dims s"
proof -
  have "good m (s\<lparr>s_cursor_col := 0\<rparr>)" using assms by (simp add: good_cursor_col)
  then show "good m (wrap_line s)" by (simp add: wrap_line_def good_advance_line)
  show "s_cursor_col (wrap_line s) = 0" by (simp add: wrap_line_def)
  have "dims (s\<lparr>s_cursor_col := 0\<rparr>) = dims s" by (simp add: dims_def)
  then show "dims (wrap_line s) = dims s" by (simp add: wrap_line_def)
qed

text \<open>
  The column a character is written to: inside the row, or column 0 of a screen that
  is no wider than one column.
\<close>

definition write_pos :: "char_width \<Rightarrow> uchar \<Rightarrow> screen \<Rightarrow> screen" where
  "write_pos cw ch s =
     (let char_width = wrap16 (case cw ch of None \<Rightarrow> 1 | Some n \<Rightarrow> n);
          s1 = (if s_cursor_col s \<ge> g_width (s_grid s) then wrap_line s else s) in
      if char_width = 2 \<and> wrap16 (s_cursor_col s1 + 1) \<ge> g_width (s_grid s1)
      then wrap_line s1 else s1)"

lemma write_pos_facts:
  assumes "good m s"
  shows "good m (write_pos cw ch s)" "dims (write_pos cw ch s) = dims s"
    "s_cursor_col (write_pos cw ch s) < max 1 (g_width (s_grid s))"
  using assms wrap_line_facts [OF assms] wrap_line_facts [of m "wrap_line s"]
  by (auto simp: write_pos_def Let_def dims_eq)

lemma write_char_eq:
  "write_char cw ch s =
     (let char_width = wrap16 (case cw ch of None \<Rightarrow> 1 | Some n \<Rightarrow> n);
          s2 = write_pos cw ch s;
          row = s_cursor_row s2;
          s3 = mark_dirty row (on_grid (grid_set (s_cursor_col s2) row (pen_cell s2 ch)) s2);
          s4 = s3\<lparr>s_cursor_col := wrap16 (s_cursor_col s3 + 1)\<rparr> in
      if char_width = 2 \<and> s_cursor_col s4 < g_width (s_grid s4) then
        (let s5 = on_grid (grid_set (s_cursor_col s4) row (pen_cell s4 32)) s4 in
         s5\<lparr>s_cursor_col := wrap16 (s_cursor_col s5 + 1)\<rparr>)
      else s4)"
  by (simp add: write_char_def write_pos_def Let_def)

lemma good_write_char [screen_inv]:
  assumes "good m s"
  shows "good m (write_char cw ch s)"
proof -
  let ?p = "write_pos cw ch s"
  let ?row = "s_cursor_row ?p"
  let ?s3 = "mark_dirty ?row (on_grid (grid_set (s_cursor_col ?p) ?row (pen_cell ?p ch)) ?p)"
  let ?s4 = "?s3\<lparr>s_cursor_col := s_cursor_col ?p + 1\<rparr>"
  note p = write_pos_facts [OF assms, of cw ch]
  have w: "g_width (s_grid ?p) = g_width (s_grid s)" and h: "g_height (s_grid ?p) = g_height (s_grid s)"
    using p(2) by (simp_all add: dims_eq)
  have wle: "g_width (s_grid s) \<le> 65535" using geometry_bounds [OF good_geometry [OF assms]] by simp
  have g3: "good m ?s3" using p(1) by (rule good_touch [OF row_local_set])
  have g4: "good m ?s4" using g3 p(3) by (intro good_cursor_col) (simp_all add: grid_simps w)
  have dirty: "?row < g_height (s_grid ?s4) \<Longrightarrow> s_dirty ?s4 ! ?row"
    using g4 by (simp add: good_def geometry_ok_def)
  have "good m (on_grid (grid_set c ?row x) ?s4)" for c x
    using dirty by (intro good_touch_dirty [OF row_local_set g4])
  then have g5: "good m ((on_grid (grid_set c ?row x) ?s4)\<lparr>s_cursor_col := d\<rparr>)"
    if "d \<le> max 1 (g_width (s_grid s))" for c x d
    using that by (intro good_cursor_col) (simp_all add: grid_simps w)
  have wrap: "wrap16 (s_cursor_col ?p + 1) = s_cursor_col ?p + 1"
    "s_cursor_col ?p + 1 < g_width (s_grid s) \<Longrightarrow> wrap16 (s_cursor_col ?p + 1 + 1) = s_cursor_col ?p + 2"
    using p(3) wle by auto
  show ?thesis using g4 g5 wrap p(3)
    by (auto simp: write_char_eq Let_def grid_simps w)
qed

text \<open>Switching buffers and resizing mark every row, so nothing has to be tracked.\<close>

lemma tracks_all_dirty:
  "s_dirty s = replicate (g_height (s_grid s)) True \<Longrightarrow> tracks m s"
  by (simp add: tracks_def)

lemma grid_new_sel [simp]:
  "g_width (grid_new w h) = w" "g_height (grid_new w h) = h"
  "g_rows (grid_new w h) = replicate h (replicate w default_cell)"
  "g_hyperlinks (grid_new w h) = []"
  by (simp_all add: grid_new_def)

lemma good_switch_to_alt [screen_inv]:
  assumes "good m s"
  shows "good m (switch_to_alt s)"
proof (cases "s_alt_mode s")
  case True
  then show ?thesis using assms by (simp add: switch_to_alt_def)
next
  case False
  have g: "grid_wf (s_grid s)" "s_cursor_col s \<le> max 1 (g_width (s_grid s))"
    "s_cursor_row s \<le> g_height (s_grid s) - 1"
    using assms by (simp_all add: good_def geometry_ok_def)
  then have "geometry_ok (switch_to_alt s)"
    using False by (simp add: geometry_ok_def switch_to_alt_def Let_def grid_simps saved_ok_def)
      (simp add: grid_wf_def)
  moreover have "tracks m (switch_to_alt s)"
    using False by (intro tracks_all_dirty) (simp add: switch_to_alt_def Let_def)
  ultimately show ?thesis by (simp add: good_def)
qed

lemma good_switch_to_primary [screen_inv]:
  assumes "good m s"
  shows "good m (switch_to_primary s)"
proof (cases "s_alt_screen s")
  case None
  then have "\<not> s_alt_mode s" using assms by (simp add: good_def geometry_ok_def)
  then show ?thesis using assms by (simp add: switch_to_primary_def)
next
  case (Some b)
  then have alt: "s_alt_mode s" and b: "saved_ok (g_width (s_grid s)) (g_height (s_grid s)) b"
    and wf: "grid_wf (s_grid s)"
    using assms by (simp_all add: good_def geometry_ok_def)
  then have "geometry_ok (switch_to_primary s)"
    by (simp add: geometry_ok_def switch_to_primary_def Some saved_ok_def) (simp add: grid_wf_def)
  moreover have "tracks m (switch_to_primary s)"
    using alt by (intro tracks_all_dirty) (simp add: switch_to_primary_def Some)
  ultimately show ?thesis by (simp add: good_def)
qed

lemma grid_get_wf: "grid_wf g \<Longrightarrow> c < g_width g \<Longrightarrow> r < g_height g \<Longrightarrow> \<exists>x. grid_get g c r = Some x"
  using grid_get_None_iff [of g c r] by (simp add: grid_wf_inside)

lemma copy_grid_block:
  assumes "grid_wf old" "grid_wf new" "n \<le> g_height old" "n \<le> g_height new"
    "k \<le> g_width old" "k \<le> g_width new"
  shows "copy_grid old n k new =
    Some (for_range 0 n (\<lambda>r. for_range 0 k (\<lambda>c. grid_set c r (the (grid_get old c r)))) new)"
proof -
  let ?P = "\<lambda>g. grid_wf g \<and> g_width g = g_width new \<and> g_height g = g_height new"
  have cell: "copy_cell old r c g = Some (grid_set c r (the (grid_get old c r)) g)"
    if "?P g" "r < n" "c < k" for r c g
  proof -
    note here = that
    obtain x y where "grid_get old c r = Some x" "grid_get g c r = Some y"
      using here assms grid_get_wf [of old c r] grid_get_wf [of g c r] by auto
    then show ?thesis by (simp add: copy_cell_def)
  qed
  have row: "foldM (copy_cell old r) [0..<k] g =
      Some (for_range 0 k (\<lambda>c. grid_set c r (the (grid_get old c r))) g)
    \<and> ?P (for_range 0 k (\<lambda>c. grid_set c r (the (grid_get old c r))) g)" if "?P g" "r < n" for r g
    unfolding for_range_def using that
    by (intro foldM_fold [where P = ?P]) (simp_all add: cell grid_simps)
  show ?thesis
    unfolding copy_grid_def
    by (subst foldM_fold [where P = ?P and
          g = "\<lambda>r. for_range 0 k (\<lambda>c. grid_set c r (the (grid_get old c r)))", THEN conjunct1])
      (use row assms in \<open>auto simp: for_range_def\<close>)
qed

lemma copy_grid_wf:
  assumes "grid_wf old" "w \<le> u16_max" "h \<le> u16_max"
  obtains g where "copy_grid old (min (g_height old) h) (min (g_width old) w) (grid_new w h) = Some g"
    "grid_wf g" "g_width g = w" "g_height g = h" "g_hyperlinks g = []"
    "\<And>x y. grid_get g x y =
       (if x < w \<and> y < h then
          Some (if x < g_width old \<and> y < g_height old then the (grid_get old x y) else default_cell)
        else None)"
proof -
  let ?n = "min (g_height old) h" and ?k = "min (g_width old) w"
  let ?g = "for_range 0 ?n (\<lambda>r. for_range 0 ?k (\<lambda>c. grid_set c r (the (grid_get old c r)))) (grid_new w h)"
  have new: "grid_wf (grid_new w h)" using assms(2,3) by (simp add: grid_simps)
  have "grid_wf ?g \<and> g_width ?g = w \<and> g_height ?g = h \<and> g_hyperlinks ?g = []"
    by (intro for_range_inv [where P = "\<lambda>g. grid_wf g \<and> g_width g = w \<and> g_height g = h \<and> g_hyperlinks g = []"])
      (simp_all add: grid_simps assms(2,3))
  moreover have "grid_get (grid_new w h) x y = (if x < w \<and> y < h then Some default_cell else None)" for x y
    by (auto simp: grid_get_def lget_def)
  moreover have "grid_inside (grid_new w h) x y = (x < w \<and> y < h)" for x y
    using new by (simp add: grid_wf_inside)
  ultimately show ?thesis
    by (intro that [of ?g]) (auto simp: copy_grid_block [OF assms(1) new] grid_store.get_block)
qed

lemma rows_shape_copy_prefix:
  "rows_shape w h (copy_prefix n (copy_prefix k (\<lambda>x _. x)) src (replicate h (replicate w x)))"
proof -
  have len: "length (copy_prefix k f xs ys) = length ys" for k xs and ys :: "'x list" and f :: "'y \<Rightarrow> 'x \<Rightarrow> 'x"
    by (simp add: copy_prefix_def Let_def)
  show ?thesis
    by (auto simp: rows_shape_def copy_prefix_def [of n] Let_def len dest!: set_zip_leftD
        in_set_takeD in_set_dropD)
qed

text \<open>
  Resizing never panics on a well-formed screen, keeps what fits of both buffers and
  leaves the screen well formed.
\<close>

lemma screen_resize_good:
  assumes "good m s" "w \<le> u16_max" "h \<le> u16_max"
  obtains t where "screen_resize w h s = Some t" "good m' t" "dims t = (w, h)"
    "\<And>x y. grid_get (s_grid t) x y =
       (if x < w \<and> y < h then
          Some (if x < g_width (s_grid s) \<and> y < g_height (s_grid s)
                then the (grid_get (s_grid s) x y) else default_cell)
        else None)"
proof -
  have wf: "grid_wf (s_grid s)" using assms by (simp add: good_def geometry_ok_def)
  from copy_grid_wf [OF this assms(2,3)] obtain g where g:
    "copy_grid (s_grid s) (min (g_height (s_grid s)) h) (min (g_width (s_grid s)) w) (grid_new w h) = Some g"
    "grid_wf g" "g_width g = w" "g_height g = h" and get: "\<And>x y. grid_get g x y =
       (if x < w \<and> y < h then
          Some (if x < g_width (s_grid s) \<and> y < g_height (s_grid s)
                then the (grid_get (s_grid s) x y) else default_cell)
        else None)" by metis
  let ?t = "s\<lparr>s_grid := g, s_dirty := replicate h True,
         s_cursor_col := min (s_cursor_col s) (w - 1), s_cursor_row := min (s_cursor_row s) (h - 1),
         s_scroll_top := 0, s_scroll_bottom := h - 1,
         s_alt_screen := map_option (resize_saved w h) (s_alt_screen s)\<rparr>"
  have "saved_ok w h (resize_saved w h b)" for b
    by (simp add: saved_ok_def resize_saved_def Let_def rows_shape_copy_prefix)
  then have "geometry_ok ?t" using assms(1) g(2-4)
    by (auto simp: geometry_ok_def good_def option.pred_map option.pred_True comp_def)
  moreover have "tracks m' ?t" by (rule tracks_all_dirty) (simp add: g(4))
  moreover have "screen_resize w h s = Some ?t" by (simp add: screen_resize_def g(1))
  ultimately show ?thesis using g(3,4) get by (intro that [of ?t]) (simp_all add: good_def dims_def)
qed

lemma same_view_sgr_param: "same_view s (fst (sgr_param p ps s))"
  by (simp add: sgr_param_def Let_def split: option.split prod.split) (simp add: same_view_def)

lemma same_view_apply_sgr: "same_view s (apply_sgr ps s)"
proof (induction ps s rule: apply_sgr.induct)
  case (2 p ps s)
  then show ?case using same_view_sgr_param [of s p ps]
    by (auto split: prod.split intro: same_view_trans)
qed simp

lemma good_apply_sgr [screen_inv]: "good m s \<Longrightarrow> good m (apply_sgr ps s)"
  using same_view_apply_sgr same_view_good by blast

lemma good_move_cursor [screen_inv]: "good m s \<Longrightarrow> good m (move_cursor c r s)"
  by (simp add: good_def geometry_ok_def tracks_def move_cursor_def)

lemma good_set_scroll_region [screen_inv]: "good m s \<Longrightarrow> good m (set_scroll_region t b s)"
  by (simp add: good_def geometry_ok_def tracks_def set_scroll_region_def Let_def)

lemma good_erase_in_line [screen_inv]: "good m s \<Longrightarrow> good m (erase_in_line mode s)"
proof -
  assume s: "good m s"
  have "row_local r (for_range a b (\<lambda>c. grid_set c r default_cell))" for r a b
    by (rule row_local_for) simp
  then have "good m (mark_dirty r (blank_cells r a b s))" for r a b
    unfolding blank_cells_def using s by (rule good_touch)
  then show ?thesis using s good_touch [OF row_local_clear s]
    by (simp add: erase_in_line_def Let_def good_mark_dirty)
qed

lemma good_erase_in_display [screen_inv]:
  assumes "good m s"
  shows "good m (erase_in_display mode s)"
proof -
  have loop: "good m (for_range a b clear_and_mark t)" if "good m t" for a b t
    using that by (rule for_range_inv) (rule good_clear_and_mark)
  have "good m (t\<lparr>s_cursor_col := 0, s_cursor_row := 0\<rparr>)" if "good m t" for t
    using that by (simp add: good_def geometry_ok_def tracks_def)
  then show ?thesis
    by (simp add: erase_in_display_def Let_def loop good_erase_in_line assms)
qed

section \<open>Differential transfer\<close>

lemma collect_dirty_Some:
  assumes "i + length ds \<le> length rows" "length rows \<le> 65536"
  shows "collect_dirty rows i ds =
    Some (map (\<lambda>j. \<lparr>dr_row = j, dr_cells = rows ! j\<rparr>) (filter (\<lambda>j. ds ! (j - i)) [i..<i + length ds]))"
  using assms
proof (induction ds arbitrary: i)
  case (Cons d ds)
  have "[i..<i + length (d # ds)] = i # [Suc i..<Suc i + length ds]"
    by (subst upt_conv_Cons) simp_all
  moreover have "filter (\<lambda>j. (e # ds) ! (j - i)) [Suc i..<Suc i + length ds] =
      filter (\<lambda>j. ds ! (j - Suc i)) [Suc i..<Suc i + length ds]" for e
    by (intro filter_cong) (auto simp: nth_Cons')
  ultimately show ?case using Cons.prems Cons.IH [of "Suc i"] by (simp del: upt.simps)
qed simp

lemma take_dirty_rows_Some:
  assumes "geometry_ok s" "\<not> s_synchronized_output s"
  shows "take_dirty_rows s =
    Some (map (\<lambda>j. \<lparr>dr_row = j, dr_cells = g_rows (s_grid s) ! j\<rparr>)
            (filter (\<lambda>j. s_dirty s ! j) [0..<length (s_dirty s)]),
          s\<lparr>s_dirty := map (\<lambda>_. False) (s_dirty s)\<rparr>)"
  using collect_dirty_Some [of 0 "s_dirty s" "g_rows (s_grid s)"] geometry_len [OF assms(1)]
    geometry_bounds(2) [OF assms(1)] assms
  by (simp add: take_dirty_rows_def geometry_ok_def)

text \<open>Applying transferred rows to a grid of the same shape replaces exactly those rows.\<close>

lemma lget_apply_rows:
  assumes "rows_shape w h (g_rows g)" "\<And>j. j \<in> set js \<Longrightarrow> j < h \<and> length (f j) = w"
  shows "lget (g_rows (fold apply_dirty_row (map (\<lambda>j. \<lparr>dr_row = j, dr_cells = f j\<rparr>) js) g)) i =
    (if i \<in> set js then Some (f i) else lget (g_rows g) i)"
  using assms
proof (induction js arbitrary: g)
  case (Cons j js)
  have j: "j < length (g_rows g)" "length (g_rows g ! j) = length (f j)"
    using Cons.prems rows_shape_nth [OF Cons.prems(1)] by (simp_all add: rows_shape_len)
  then have step: "apply_dirty_row \<lparr>dr_row = j, dr_cells = f j\<rparr> g = g\<lparr>g_rows := (g_rows g)[j := f j]\<rparr>"
    by (simp add: apply_dirty_row_def)
  have "rows_shape w h (g_rows (g\<lparr>g_rows := (g_rows g)[j := f j]\<rparr>))"
    using Cons.prems by simp
  then show ?case using Cons.IH Cons.prems(2) j(1) by (auto simp: step lget_def nth_list_update)
qed simp

end
