(* ===== verification/Screen_Osc.thy ===== *)
theory Screen_Osc
  imports Screen_Inv
begin

text \<open>
  The message side of the screen (\<open>nexterm-vt/src/screen.rs\<close>): image transfers,
  OSC payload handlers, dynamic colours, the keyboard protocol stack, hyperlinks, and
  the queues the reader thread drains.
\<close>

definition MAX_DCS_BUF_LEN :: nat where "MAX_DCS_BUF_LEN = 16 * 1024 * 1024"
definition MAX_KITTY_CHUNK_LEN :: nat where "MAX_KITTY_CHUNK_LEN = 64 * 1024 * 1024"
definition MAX_DND_REQUESTS :: nat where "MAX_DND_REQUESTS = 8"
definition MAX_OSC99_PENDING :: nat where "MAX_OSC99_PENDING = 4"
definition MAX_ITERM2_PAYLOAD_BYTES :: nat where "MAX_ITERM2_PAYLOAD_BYTES = 16 * 1024 * 1024"
definition MAX_TEXT_LEN :: nat where "MAX_TEXT_LEN = 4096"
definition MAX_CLIPBOARD_LEN :: nat where "MAX_CLIPBOARD_LEN = MAX_NOTIFICATION_LEN * 1024"
definition MAX_OSC99_ID_LEN :: nat where "MAX_OSC99_ID_LEN = 64"
definition MAX_POINTER_SHAPE_LEN :: nat where "MAX_POINTER_SHAPE_LEN = 64"

text \<open>A string literal read from bytes, with \<open>unwrap_or("")\<close> for invalid UTF-8.\<close>

definition utf8_or :: "rstr \<Rightarrow> byte list \<Rightarrow> rstr" where
  "utf8_or d bs = (case from_utf8 bs of None \<Rightarrow> d | Some s \<Rightarrow> s)"

section \<open>Images\<close>

definition register_image :: "decoded_image \<Rightarrow> nat \<times> nat \<Rightarrow> screen \<Rightarrow> screen" where
  "register_image img pos s =
     s\<lparr>s_next_image_id := wrap32 (s_next_image_id s + 1),
       s_pending_images := s_pending_images s @
         [\<lparr>pi_id = s_next_image_id s, pi_col = fst pos, pi_row = snd pos,
           pi_width = img_width img, pi_height = img_height img, pi_rgba = img_rgba img\<rparr>]\<rparr>"

definition register_decoded :: "decoded_image option \<Rightarrow> nat \<times> nat \<Rightarrow> screen \<Rightarrow> screen" where
  "register_decoded r pos s = (case r of None \<Rightarrow> s | Some img \<Rightarrow> register_image img pos s)"

definition cursor :: "screen \<Rightarrow> nat \<times> nat" where
  "cursor s = (s_cursor_col s, s_cursor_row s)"

definition start_sixel :: "screen \<Rightarrow> screen" where
  "start_sixel s = s\<lparr>s_dcs_sixel_active := True, s_dcs_buf := [], s_dcs_cursor := cursor s\<rparr>"

definition push_dcs_byte :: "byte \<Rightarrow> screen \<Rightarrow> screen" where
  "push_dcs_byte b s =
     (if \<not> s_dcs_sixel_active s then s
      else if length (s_dcs_buf s) \<ge> MAX_DCS_BUF_LEN
      then s\<lparr>s_dcs_buf := [], s_dcs_sixel_active := False\<rparr>
      else s\<lparr>s_dcs_buf := s_dcs_buf s @ [b]\<rparr>)"

definition finish_sixel :: "screen \<Rightarrow> screen" where
  "finish_sixel s =
     (if \<not> s_dcs_sixel_active s then s
      else (register_decoded (decode_sixel (s_dcs_buf s)) (s_dcs_cursor s)
              (s\<lparr>s_dcs_sixel_active := False\<rparr>))\<lparr>s_dcs_buf := []\<rparr>)"

definition kitty_split :: "byte list \<Rightarrow> byte list \<times> byte list" where
  "kitty_split inner = (case split_once 59 inner of None \<Rightarrow> (inner, []) | Some p \<Rightarrow> p)"

definition kitty_finish :: "byte list \<Rightarrow> byte list \<Rightarrow> screen \<Rightarrow> screen" where
  "kitty_finish ps payload s =
     register_decoded (decode_kitty (71 # ps @ 59 # payload)) (cursor s) s"

definition handle_kitty_apc :: "byte list \<Rightarrow> screen \<Rightarrow> screen" where
  "handle_kitty_apc data s =
     (case data of
        [] \<Rightarrow> s
      | g # inner \<Rightarrow>
          (if g \<noteq> 71 then s
           else let (params_bytes, payload) = kitty_split inner;
                    more_data = list_ex (\<lambda>p. p = blit ''m=1'') (split_on 44 params_bytes) in
             if more_data then
               (let s1 = (if s_kitty_chunk_params s = None
                          then s\<lparr>s_kitty_chunk_params := Some params_bytes\<rparr> else s) in
                if length (s_kitty_chunk_payload s1) + length payload > MAX_KITTY_CHUNK_LEN
                then s1\<lparr>s_kitty_chunk_payload := [], s_kitty_chunk_params := None\<rparr>
                else s1\<lparr>s_kitty_chunk_payload := s_kitty_chunk_payload s1 @ payload\<rparr>)
             else
               (case s_kitty_chunk_params s of
                  Some first_params \<Rightarrow>
                    (let s1 = s\<lparr>s_kitty_chunk_params := None\<rparr> in
                     if length (s_kitty_chunk_payload s1) + length payload > MAX_KITTY_CHUNK_LEN
                     then s1\<lparr>s_kitty_chunk_payload := []\<rparr>
                     else kitty_finish first_params (s_kitty_chunk_payload s1 @ payload)
                            (s1\<lparr>s_kitty_chunk_payload := []\<rparr>))
                | None \<Rightarrow> kitty_finish params_bytes payload s)))"

function trim_start_matches :: "'a list \<Rightarrow> 'a list \<Rightarrow> 'a list" where
  "trim_start_matches p s =
     (if p \<noteq> [] \<and> s \<noteq> [] \<and> starts_with s p then trim_start_matches p (drop (length p) s) else s)"
  by pat_completeness auto
termination by (relation "measure (\<lambda>(_, s). length s)") auto

declare trim_start_matches.simps [simp del]

definition to_ascii_lowercase :: "rstr \<Rightarrow> rstr" where
  "to_ascii_lowercase s = map (\<lambda>c. if 65 \<le> c \<and> c \<le> 90 then c + 32 else c) s"

definition eq_ignore_ascii_case :: "rstr \<Rightarrow> rstr \<Rightarrow> bool" where
  "eq_ignore_ascii_case a b \<longleftrightarrow> to_ascii_lowercase a = to_ascii_lowercase b"

text \<open>\<open>params[1..]\<close>, which panics on an empty list.\<close>

definition slice_from1 :: "'a list \<Rightarrow> 'a list option" where
  "slice_from1 ps = (case ps of [] \<Rightarrow> None | _ # r \<Rightarrow> Some r)"

definition iterm2_inline :: "byte list \<Rightarrow> bool" where
  "iterm2_inline args_bytes =
     (let args = trim_start_matches (lit ''File='') (trim (utf8_or [] args_bytes)) in
      list_ex (\<lambda>kv. eq_ignore_ascii_case (trim kv) (lit ''inline=1'')) (split_on 59 args))"

definition handle_iterm2_osc :: "image_loader \<Rightarrow> byte list list \<Rightarrow> screen \<Rightarrow> screen option" where
  "handle_iterm2_osc load params s =
     map_option (\<lambda>ps.
       case split_once 58 (join_with 59 ps) of
         None \<Rightarrow> s
       | Some (args_bytes, rest) \<Rightarrow>
           (let data_bytes = trim_ascii rest in
            if length data_bytes > MAX_ITERM2_PAYLOAD_BYTES then s
            else if \<not> iterm2_inline args_bytes then s
            else case base64_decode data_bytes of
              None \<Rightarrow> s
            | Some raw \<Rightarrow> register_decoded (decode_iterm2 load raw) (cursor s) s))
     (slice_from1 params)"

definition take_pending_images :: "screen \<Rightarrow> pending_image list \<times> screen" where
  "take_pending_images s = (s_pending_images s, s\<lparr>s_pending_images := []\<rparr>)"

section \<open>OSC 66: text sizing\<close>

record osc66_opts =
  o66_scale_int :: "nat option"
  o66_scale_num :: nat
  o66_scale_den :: nat
  o66_width :: nat
  o66_valign :: nat
  o66_halign :: nat

definition osc66_key :: "rstr \<Rightarrow> osc66_opts \<Rightarrow> osc66_opts" where
  "osc66_key kv opts =
     (let (k, v) = (case split_once 61 kv of None \<Rightarrow> (kv, []) | Some p \<Rightarrow> p);
          key = trim k; val = trim v;
          u8_then = (\<lambda>f. case parse_uint 255 val of None \<Rightarrow> opts | Some n \<Rightarrow> f n) in
      if key = lit ''s'' then u8_then (\<lambda>n. opts\<lparr>o66_scale_int := Some (clamp 1 7 n)\<rparr>)
      else if key = lit ''n'' then u8_then (\<lambda>n. opts\<lparr>o66_scale_num := max n 1\<rparr>)
      else if key = lit ''d'' then u8_then (\<lambda>n. opts\<lparr>o66_scale_den := max n 1\<rparr>)
      else if key = lit ''w'' then
        (case parse_uint u16_max val of None \<Rightarrow> opts | Some n \<Rightarrow> opts\<lparr>o66_width := n\<rparr>)
      else if key = lit ''v'' then u8_then (\<lambda>n. opts\<lparr>o66_valign := min n 2\<rparr>)
      else if key = lit ''h'' then u8_then (\<lambda>n. opts\<lparr>o66_halign := min n 2\<rparr>)
      else opts)"

definition osc66_parse :: "rstr \<Rightarrow> osc66_opts" where
  "osc66_parse metadata =
     (let opts = fold osc66_key (split_on 58 metadata)
            \<lparr>o66_scale_int = None, o66_scale_num = 1, o66_scale_den = 1, o66_width = 0,
             o66_valign = 0, o66_halign = 0\<rparr> in
      case o66_scale_int opts of
        None \<Rightarrow> opts
      | Some n \<Rightarrow> opts\<lparr>o66_scale_num := n, o66_scale_den := 1\<rparr>)"

definition handle_osc66 :: "byte list list \<Rightarrow> screen \<Rightarrow> screen" where
  "handle_osc66 params s =
     (case params of
        _ # p1 # p2 # _ \<Rightarrow>
          (case from_utf8 p2 of
             None \<Rightarrow> s
           | Some text \<Rightarrow>
               (if text = [] then s
                else let opts = osc66_parse (trim (utf8_or [] p1)) in
                  s\<lparr>s_pending_text_sizing := s_pending_text_sizing s @
                     [\<lparr>ts_scale_num = o66_scale_num opts, ts_scale_den = o66_scale_den opts,
                       ts_width_cells = o66_width opts, ts_valign = o66_valign opts,
                       ts_halign = o66_halign opts, ts_col = s_cursor_col s,
                       ts_row = s_cursor_row s,
                       ts_text = sanitize_osc_string text MAX_TEXT_LEN\<rparr>]\<rparr>))
      | _ \<Rightarrow> s)"

definition take_pending_text_sizing :: "screen \<Rightarrow> text_sizing_event list \<times> screen" where
  "take_pending_text_sizing s = (s_pending_text_sizing s, s\<lparr>s_pending_text_sizing := []\<rparr>)"

section \<open>Bell, title, notification, directory, clipboard, responses\<close>

definition take_pending_bell :: "screen \<Rightarrow> bool \<times> screen" where
  "take_pending_bell s = (s_pending_bell s, s\<lparr>s_pending_bell := False\<rparr>)"

definition set_pending_bell :: "screen \<Rightarrow> screen" where
  "set_pending_bell s = s\<lparr>s_pending_bell := True\<rparr>"

definition set_pending_title :: "rstr \<Rightarrow> screen \<Rightarrow> screen" where
  "set_pending_title title s = s\<lparr>s_pending_title := Some (sanitize_osc_string title MAX_TITLE_LEN)\<rparr>"

definition take_pending_title :: "screen \<Rightarrow> rstr option \<times> screen" where
  "take_pending_title s = (s_pending_title s, s\<lparr>s_pending_title := None\<rparr>)"

definition set_pending_notification :: "rstr \<Rightarrow> rstr \<Rightarrow> screen \<Rightarrow> screen" where
  "set_pending_notification title body s =
     s\<lparr>s_pending_notification :=
         Some (sanitize_osc_string title MAX_NOTIFICATION_LEN,
               sanitize_osc_string body MAX_NOTIFICATION_LEN)\<rparr>"

definition take_pending_notification :: "screen \<Rightarrow> (rstr \<times> rstr) option \<times> screen" where
  "take_pending_notification s = (s_pending_notification s, s\<lparr>s_pending_notification := None\<rparr>)"

definition set_pending_cwd :: "rstr \<Rightarrow> screen \<Rightarrow> screen" where
  "set_pending_cwd path s = s\<lparr>s_pending_cwd := Some (sanitize_osc_string path MAX_CWD_LEN)\<rparr>"

definition take_pending_cwd :: "screen \<Rightarrow> rstr option \<times> screen" where
  "take_pending_cwd s = (s_pending_cwd s, s\<lparr>s_pending_cwd := None\<rparr>)"

definition queue_clipboard_write :: "rstr \<Rightarrow> screen \<Rightarrow> screen" where
  "queue_clipboard_write text s =
     s\<lparr>s_pending_clipboard_writes :=
         s_pending_clipboard_writes s @ [sanitize_osc_string text MAX_CLIPBOARD_LEN]\<rparr>"

definition take_pending_clipboard_writes :: "screen \<Rightarrow> rstr list \<times> screen" where
  "take_pending_clipboard_writes s =
     (s_pending_clipboard_writes s, s\<lparr>s_pending_clipboard_writes := []\<rparr>)"

definition push_pending_response :: "byte list \<Rightarrow> screen \<Rightarrow> screen" where
  "push_pending_response bs s = s\<lparr>s_pending_responses := s_pending_responses s @ [bs]\<rparr>"

definition take_pending_responses :: "screen \<Rightarrow> byte list list \<times> screen" where
  "take_pending_responses s = (s_pending_responses s, s\<lparr>s_pending_responses := []\<rparr>)"

section \<open>Dynamic colours\<close>

definition set_default_colors :: "rgb \<Rightarrow> rgb \<Rightarrow> screen \<Rightarrow> screen" where
  "set_default_colors fg bg s = s\<lparr>s_configured_fg := fg, s_configured_bg := bg\<rparr>"

definition effective_fg :: "screen \<Rightarrow> rgb" where
  "effective_fg s = (case s_dynamic_fg s of None \<Rightarrow> s_configured_fg s | Some c \<Rightarrow> c)"

definition effective_bg :: "screen \<Rightarrow> rgb" where
  "effective_bg s = (case s_dynamic_bg s of None \<Rightarrow> s_configured_bg s | Some c \<Rightarrow> c)"

definition set_dynamic_fg :: "rgb option \<Rightarrow> screen \<Rightarrow> screen" where
  "set_dynamic_fg c s = s\<lparr>s_dynamic_fg := c, s_color_overrides_changed := True\<rparr>"

definition set_dynamic_bg :: "rgb option \<Rightarrow> screen \<Rightarrow> screen" where
  "set_dynamic_bg c s = s\<lparr>s_dynamic_bg := c, s_color_overrides_changed := True\<rparr>"

definition palette_color :: "screen \<Rightarrow> u8 \<Rightarrow> rgb" where
  "palette_color s index =
     (case map_of (s_palette_overrides s) index of
        None \<Rightarrow> builtin_palette_color index
      | Some c \<Rightarrow> c)"

definition set_palette_entry :: "u8 \<Rightarrow> rgb \<Rightarrow> screen \<Rightarrow> screen" where
  "set_palette_entry index c s =
     s\<lparr>s_palette_overrides := AList.update index c (s_palette_overrides s),
       s_color_overrides_changed := True\<rparr>"

definition reset_palette_entry :: "u8 \<Rightarrow> screen \<Rightarrow> screen" where
  "reset_palette_entry index s =
     (let s1 = s\<lparr>s_palette_overrides := AList.delete index (s_palette_overrides s)\<rparr> in
      if map_of (s_palette_overrides s) index \<noteq> None
      then s1\<lparr>s_color_overrides_changed := True\<rparr> else s1)"

definition reset_palette_all :: "screen \<Rightarrow> screen" where
  "reset_palette_all s =
     (let s1 = (if s_palette_overrides s \<noteq> [] then s\<lparr>s_color_overrides_changed := True\<rparr> else s) in
      s1\<lparr>s_palette_overrides := []\<rparr>)"

definition take_color_overrides_if_changed :: "screen \<Rightarrow> color_overrides option \<times> screen" where
  "take_color_overrides_if_changed s =
     (if \<not> s_color_overrides_changed s then (None, s)
      else (Some \<lparr>co_fg = s_dynamic_fg s, co_bg = s_dynamic_bg s,
                  co_palette = sort_key fst (s_palette_overrides s)\<rparr>,
            s\<lparr>s_color_overrides_changed := False\<rparr>))"

section \<open>OSC 99: kitty notifications\<close>

record osc99_opts =
  o99_id :: rstr
  o99_done :: bool
  o99_ptype :: rstr
  o99_base64 :: bool

definition osc99_key :: "rstr \<Rightarrow> osc99_opts \<Rightarrow> osc99_opts" where
  "osc99_key part opts =
     (case split_once 61 part of
        None \<Rightarrow> opts
      | Some (k, v) \<Rightarrow>
          (if k = lit ''i'' then opts\<lparr>o99_id := v\<rparr>
           else if k = lit ''d'' then opts\<lparr>o99_done := v \<noteq> lit ''0''\<rparr>
           else if k = lit ''p'' then opts\<lparr>o99_ptype := v\<rparr>
           else if k = lit ''e'' then opts\<lparr>o99_base64 := v = lit ''1''\<rparr>
           else opts))"

definition osc99_parse :: "rstr \<Rightarrow> osc99_opts" where
  "osc99_parse metadata =
     fold osc99_key (split_on 58 metadata)
       \<lparr>o99_id = lit ''0'', o99_done = True, o99_ptype = lit ''title'', o99_base64 = False\<rparr>"

definition osc99_text :: "bool \<Rightarrow> byte list \<Rightarrow> rstr option" where
  "osc99_text base64 payload =
     (if base64 then Option.bind (base64_decode payload) from_utf8 else from_utf8 payload)"

definition handle_osc99 :: "rstr \<Rightarrow> byte list \<Rightarrow> screen \<Rightarrow> screen" where
  "handle_osc99 metadata payload s =
     (let opts = osc99_parse metadata; id = o99_id opts in
      if str_len id > MAX_OSC99_ID_LEN then s
      else case osc99_text (o99_base64 opts) payload of
        None \<Rightarrow> s
      | Some text \<Rightarrow>
          (let (t0, b0) = (case map_of (s_osc99_pending s) id of None \<Rightarrow> ([], []) | Some e \<Rightarrow> e);
               s1 = s\<lparr>s_osc99_pending := AList.delete id (s_osc99_pending s)\<rparr>;
               t1 = (if o99_ptype opts = lit ''title'' then t0 @ text else t0);
               b1 = (if o99_ptype opts = lit ''body'' then b0 @ text else b0);
               t = sanitize_osc_string t1 MAX_NOTIFICATION_LEN;
               b = sanitize_osc_string b1 MAX_NOTIFICATION_LEN in
           if o99_done opts then
             (if t \<noteq> [] \<or> b \<noteq> [] then
                set_pending_notification (if t = [] then lit ''Nexterm'' else t) b s1
              else s1)
           else if length (s_osc99_pending s1) < MAX_OSC99_PENDING then
             s1\<lparr>s_osc99_pending := AList.update id (t, b) (s_osc99_pending s1)\<rparr>
           else s1))"

section \<open>OSC 9;4, OSC 72, OSC 22\<close>

definition handle_osc9_progress :: "rstr \<Rightarrow> rstr \<Rightarrow> screen \<Rightarrow> screen" where
  "handle_osc9_progress state progress s =
     (case parse_uint 255 (trim state) of
        None \<Rightarrow> s
      | Some st \<Rightarrow>
          (if st > 4 then s
           else let pr = (case parse_uint 255 (trim progress) of None \<Rightarrow> 0 | Some n \<Rightarrow> n) in
             s\<lparr>s_pending_progress := Some (st, min pr 100)\<rparr>))"

definition take_pending_progress :: "screen \<Rightarrow> (nat \<times> nat) option \<times> screen" where
  "take_pending_progress s = (s_pending_progress s, s\<lparr>s_pending_progress := None\<rparr>)"

record osc72_opts =
  o72_type :: rstr
  o72_id :: "rstr option"
  o72_index :: "nat option"
  o72_operation :: "rstr option"

definition osc72_key :: "rstr \<Rightarrow> osc72_opts \<Rightarrow> osc72_opts" where
  "osc72_key part opts =
     (case split_once 61 part of
        None \<Rightarrow> opts
      | Some (k, v) \<Rightarrow>
          (if k = lit ''t'' then opts\<lparr>o72_type := v\<rparr>
           else if k = lit ''i'' then opts\<lparr>o72_id := Some v\<rparr>
           else if k = lit ''x'' then opts\<lparr>o72_index := parse_uint u32_max (trim v)\<rparr>
           else if k = lit ''o'' then opts\<lparr>o72_operation := Some v\<rparr>
           else opts))"

definition osc72_parse :: "rstr \<Rightarrow> osc72_opts" where
  "osc72_parse metadata =
     fold osc72_key (split_on 58 metadata)
       \<lparr>o72_type = lit ''a'', o72_id = None, o72_index = None, o72_operation = None\<rparr>"

definition ESC :: rstr where "ESC = [27]"

definition osc72_reply :: "rstr \<Rightarrow> byte list" where
  "osc72_reply ident = as_bytes (ESC @ lit '']72;t=q:i='' @ ident @ ESC @ [92])"

definition handle_osc72 :: "rstr \<Rightarrow> screen \<Rightarrow> screen" where
  "handle_osc72 metadata s =
     (let opts = osc72_parse metadata in
      if o72_type opts = lit ''q'' then
        (let id = (case o72_id opts of None \<Rightarrow> lit ''0'' | Some i \<Rightarrow> i) in
         if str_len id > 32 \<or> \<not> list_all (\<lambda>c. is_ascii_digit c \<or> c = 45) id then s
         else push_pending_response (osc72_reply id) s)
      else if o72_type opts = lit ''a'' then s\<lparr>s_dnd_enabled := True\<rparr>
      else if o72_type opts = lit ''A'' then s\<lparr>s_dnd_enabled := False\<rparr>
      else if o72_type opts = lit ''r'' then
        (if length (s_pending_dnd_requests s) \<ge> MAX_DND_REQUESTS then s
         else case o72_index opts of
           Some index \<Rightarrow>
             (if index \<ge> 1 then
                s\<lparr>s_pending_dnd_requests := s_pending_dnd_requests s @ [DndData index]\<rparr>
              else if o72_operation opts \<noteq> None then
                s\<lparr>s_pending_dnd_requests := s_pending_dnd_requests s @ [DndComplete]\<rparr>
              else s)
         | None \<Rightarrow>
             (if o72_operation opts \<noteq> None then
                s\<lparr>s_pending_dnd_requests := s_pending_dnd_requests s @ [DndComplete]\<rparr>
              else s))
      else s)"

definition take_pending_dnd_requests :: "screen \<Rightarrow> dnd_request list \<times> screen" where
  "take_pending_dnd_requests s = (s_pending_dnd_requests s, s\<lparr>s_pending_dnd_requests := []\<rparr>)"

definition set_pending_pointer_shape :: "rstr \<Rightarrow> screen \<Rightarrow> screen" where
  "set_pending_pointer_shape name0 s =
     (let name = trim name0 in
      if str_len name > MAX_POINTER_SHAPE_LEN then s
      else s\<lparr>s_pending_pointer_shape := Some (if name = [] then lit ''default'' else name)\<rparr>)"

definition take_pending_pointer_shape :: "screen \<Rightarrow> rstr option \<times> screen" where
  "take_pending_pointer_shape s = (s_pending_pointer_shape s, s\<lparr>s_pending_pointer_shape := None\<rparr>)"

section \<open>Modes, the keyboard protocol stack, semantic marks\<close>

definition set_bracketed_paste :: "bool \<Rightarrow> screen \<Rightarrow> screen" where
  "set_bracketed_paste enabled s = s\<lparr>s_bracketed_paste := enabled\<rparr>"

definition push_keyboard_protocol_flags :: "u8 \<Rightarrow> screen \<Rightarrow> screen" where
  "push_keyboard_protocol_flags flags s =
     s\<lparr>s_keyboard_protocol_stack := s_keyboard_protocol_stack s @ [s_keyboard_protocol_flags s],
       s_keyboard_protocol_flags := flags\<rparr>"

fun pop_keyboard_protocol_flags :: "nat \<Rightarrow> screen \<Rightarrow> screen" where
  "pop_keyboard_protocol_flags 0 s = s"
| "pop_keyboard_protocol_flags (Suc n) s =
     (if s_keyboard_protocol_stack s = [] then s\<lparr>s_keyboard_protocol_flags := 0\<rparr>
      else pop_keyboard_protocol_flags n
        (s\<lparr>s_keyboard_protocol_flags := last (s_keyboard_protocol_stack s),
           s_keyboard_protocol_stack := butlast (s_keyboard_protocol_stack s)\<rparr>))"

definition add_semantic_mark :: "semantic_mark_kind \<Rightarrow> int option \<Rightarrow> screen \<Rightarrow> screen" where
  "add_semantic_mark kind exit_code s =
     s\<lparr>s_semantic_marks := s_semantic_marks s @
         [\<lparr>sm_row = s_cursor_row s, sm_kind = kind, sm_exit_code = exit_code\<rparr>]\<rparr>"

definition take_semantic_marks :: "screen \<Rightarrow> semantic_mark list \<times> screen" where
  "take_semantic_marks s = (s_semantic_marks s, s\<lparr>s_semantic_marks := []\<rparr>)"

section \<open>Hyperlinks\<close>

text \<open>
  Closing the active link.  The source compares the start row with a copy of itself, so
  the row condition always holds.
\<close>

definition close_hyperlink :: "screen \<Rightarrow> screen" where
  "close_hyperlink s =
     (case s_current_hyperlink_url s of
        None \<Rightarrow> s
      | Some active_url \<Rightarrow>
          (let s1 = s\<lparr>s_current_hyperlink_url := None\<rparr>;
               col_end = s_cursor_col s; row = s_hyperlink_start_row s in
           if s_hyperlink_start_row s = row \<and> col_end > s_hyperlink_start_col s then
             s1\<lparr>s_grid := (s_grid s1)\<lparr>g_hyperlinks := g_hyperlinks (s_grid s1) @
                  [\<lparr>hs_row = row, hs_col_start = s_hyperlink_start_col s, hs_col_end = col_end,
                    hs_url = active_url\<rparr>]\<rparr>\<rparr>
           else s1))"

definition set_hyperlink :: "bool \<Rightarrow> rstr option \<Rightarrow> screen \<Rightarrow> screen option" where
  "set_hyperlink warn url s0 =
     (let s = close_hyperlink s0 in
      case url of
        None \<Rightarrow> Some s
      | Some u \<Rightarrow>
          map_option (\<lambda>validated.
              case validated of
                None \<Rightarrow> s\<lparr>s_current_hyperlink_url := None\<rparr>
              | Some v \<Rightarrow>
                  s\<lparr>s_current_hyperlink_url := Some v, s_hyperlink_start_col := s_cursor_col s,
                    s_hyperlink_start_row := s_cursor_row s\<rparr>)
            (validate_hyperlink_uri warn u))"

end
