(* ===== verification/Screen_Bufs.thy ===== *)
theory Screen_Bufs
  imports Screen_Osc
begin

text \<open>
  The invariant of the message side of the screen: every buffer and queue keeps its
  bound and every queued message its promise, whatever the program on the other side of
  the PTY sends.  Also the interface of the queues the reader thread drains.
\<close>

section \<open>The invariant\<close>

definition pending_image_ok :: "pending_image \<Rightarrow> bool" where
  "pending_image_ok p \<longleftrightarrow>
     length (pi_rgba p) = pi_width p * pi_height p * 4 \<and> length (pi_rgba p) \<le> MAX_IMAGE_BYTES"

definition text_sizing_ok :: "text_sizing_event \<Rightarrow> bool" where
  "text_sizing_ok e \<longleftrightarrow>
     1 \<le> ts_scale_num e \<and> ts_scale_num e \<le> 255 \<and> 1 \<le> ts_scale_den e \<and> ts_scale_den e \<le> 255
     \<and> ts_width_cells e \<le> u16_max \<and> ts_valign e \<le> 2 \<and> ts_halign e \<le> 2
     \<and> osc_clean MAX_TEXT_LEN (ts_text e)"

definition pair_clean :: "rstr \<times> rstr \<Rightarrow> bool" where
  "pair_clean p \<longleftrightarrow>
     osc_clean MAX_NOTIFICATION_LEN (fst p) \<and> osc_clean MAX_NOTIFICATION_LEN (snd p)"

definition osc99_ok :: "(rstr \<times> (rstr \<times> rstr)) list \<Rightarrow> bool" where
  "osc99_ok m \<longleftrightarrow>
     distinct (map fst m) \<and> length m \<le> MAX_OSC99_PENDING
     \<and> (\<forall>(i, e) \<in> set m. str_len i \<le> MAX_OSC99_ID_LEN \<and> pair_clean e)"

definition span_ok :: "hyperlink_span \<Rightarrow> bool" where
  "span_ok h \<longleftrightarrow> hs_col_start h < hs_col_end h \<and> link_ok (hs_url h)"

definition dnd_ok :: "dnd_request \<Rightarrow> bool" where
  "dnd_ok r \<longleftrightarrow> (case r of DndData i \<Rightarrow> 1 \<le> i \<and> i \<le> u32_max | DndComplete \<Rightarrow> True)"

definition bufs_ok :: "screen \<Rightarrow> bool" where
  "bufs_ok s \<longleftrightarrow>
     length (s_dcs_buf s) \<le> MAX_DCS_BUF_LEN
     \<and> length (s_kitty_chunk_payload s) \<le> MAX_KITTY_CHUNK_LEN
     \<and> list_all pending_image_ok (s_pending_images s)
     \<and> list_all text_sizing_ok (s_pending_text_sizing s)
     \<and> pred_option (osc_clean MAX_TITLE_LEN) (s_pending_title s)
     \<and> pred_option pair_clean (s_pending_notification s)
     \<and> pred_option (osc_clean MAX_CWD_LEN) (s_pending_cwd s)
     \<and> list_all (osc_clean MAX_CLIPBOARD_LEN) (s_pending_clipboard_writes s)
     \<and> pred_option link_ok (s_current_hyperlink_url s)
     \<and> list_all span_ok (g_hyperlinks (s_grid s))
     \<and> distinct (map fst (s_palette_overrides s))
     \<and> osc99_ok (s_osc99_pending s)
     \<and> pred_option (\<lambda>(st, pr). st \<le> 4 \<and> pr \<le> 100) (s_pending_progress s)
     \<and> length (s_pending_dnd_requests s) \<le> MAX_DND_REQUESTS
     \<and> list_all dnd_ok (s_pending_dnd_requests s)
     \<and> pred_option (\<lambda>n. n \<noteq> [] \<and> str_len n \<le> MAX_POINTER_SHAPE_LEN) (s_pending_pointer_shape s)
     \<and> s_next_image_id s \<le> u32_max \<and> s_mouse_mode s \<le> 2"

text \<open>The fields the invariant does not read.\<close>

lemma bufs_ok_upd [simp]:
  "bufs_ok (s\<lparr>s_dirty := d\<rparr>) = bufs_ok s"
  "bufs_ok (s\<lparr>s_pending_scrollback := sb\<rparr>) = bufs_ok s"
  "bufs_ok (s\<lparr>s_cursor_col := n\<rparr>) = bufs_ok s"
  "bufs_ok (s\<lparr>s_cursor_row := n\<rparr>) = bufs_ok s"
  "bufs_ok (s\<lparr>s_scroll_top := n\<rparr>) = bufs_ok s"
  "bufs_ok (s\<lparr>s_scroll_bottom := n\<rparr>) = bufs_ok s"
  "bufs_ok (s\<lparr>s_current_fg := c\<rparr>) = bufs_ok s"
  "bufs_ok (s\<lparr>s_current_bg := c\<rparr>) = bufs_ok s"
  "bufs_ok (s\<lparr>s_current_attrs := a\<rparr>) = bufs_ok s"
  "bufs_ok (s\<lparr>s_alt_screen := al\<rparr>) = bufs_ok s"
  "bufs_ok (s\<lparr>s_alt_mode := b\<rparr>) = bufs_ok s"
  "bufs_ok (s\<lparr>s_dcs_sixel_active := b\<rparr>) = bufs_ok s"
  "bufs_ok (s\<lparr>s_dcs_cursor := cc\<rparr>) = bufs_ok s"
  "bufs_ok (s\<lparr>s_kitty_chunk_params := kp\<rparr>) = bufs_ok s"
  "bufs_ok (s\<lparr>s_pending_bell := b\<rparr>) = bufs_ok s"
  "bufs_ok (s\<lparr>s_bracketed_paste := b\<rparr>) = bufs_ok s"
  "bufs_ok (s\<lparr>s_synchronized_output := b\<rparr>) = bufs_ok s"
  "bufs_ok (s\<lparr>s_semantic_marks := sm\<rparr>) = bufs_ok s"
  "bufs_ok (s\<lparr>s_hyperlink_start_col := n\<rparr>) = bufs_ok s"
  "bufs_ok (s\<lparr>s_hyperlink_start_row := n\<rparr>) = bufs_ok s"
  "bufs_ok (s\<lparr>s_keyboard_protocol_flags := kf\<rparr>) = bufs_ok s"
  "bufs_ok (s\<lparr>s_keyboard_protocol_stack := ks\<rparr>) = bufs_ok s"
  "bufs_ok (s\<lparr>s_pending_responses := pr\<rparr>) = bufs_ok s"
  "bufs_ok (s\<lparr>s_configured_fg := col\<rparr>) = bufs_ok s"
  "bufs_ok (s\<lparr>s_configured_bg := col\<rparr>) = bufs_ok s"
  "bufs_ok (s\<lparr>s_dynamic_fg := oc\<rparr>) = bufs_ok s"
  "bufs_ok (s\<lparr>s_dynamic_bg := oc\<rparr>) = bufs_ok s"
  "bufs_ok (s\<lparr>s_color_overrides_changed := b\<rparr>) = bufs_ok s"
  "bufs_ok (s\<lparr>s_dnd_enabled := b\<rparr>) = bufs_ok s"
  "g_hyperlinks g = g_hyperlinks (s_grid s) \<Longrightarrow> bufs_ok (s\<lparr>s_grid := g\<rparr>) = bufs_ok s"
  by (simp_all add: bufs_ok_def)

lemma bufs_ok_new [simp]: "bufs_ok (screen_new cols rows)"
  by (simp add: bufs_ok_def screen_new_def grid_new_def osc99_ok_def u32_max_def)

section \<open>Grid operations leave it alone\<close>

lemma bufs_on_grid [simp]: "row_local r f \<Longrightarrow> bufs_ok (on_grid f s) = bufs_ok s"
  by (simp add: on_grid_def row_local_def)

lemma bufs_mark_dirty [simp]: "bufs_ok (mark_dirty r s) = bufs_ok s"
  by (simp add: mark_dirty_def)

lemma bufs_on_grid_ops [simp]:
  "bufs_ok (on_grid (grid_set c r x) s) = bufs_ok s"
  "bufs_ok (on_grid (grid_clear_row r) s) = bufs_ok s"
  "bufs_ok (on_grid (grid_copy_row r src) s) = bufs_ok s"
  "bufs_ok (blank_cells r a b s) = bufs_ok s"
  by (simp_all add: bufs_on_grid [OF row_local_set] bufs_on_grid [OF row_local_clear]
      bufs_on_grid [OF row_local_copy] blank_cells_def bufs_on_grid [OF row_local_for [OF row_local_set]])

lemma bufs_for [simp]: "(\<And>i s. bufs_ok (f i s) = bufs_ok s) \<Longrightarrow> bufs_ok (for_range a b f s) = bufs_ok s"
  by (rule for_range_frame)

lemma bufs_clear_and_mark [simp]: "bufs_ok (clear_and_mark r s) = bufs_ok s"
  by (simp add: clear_and_mark_def)

lemma bufs_scroll_up [simp]: "bufs_ok (scroll_up s) = bufs_ok s"
  by (simp add: scroll_up_def Let_def split: option.split)

lemma bufs_advance_line [simp]: "bufs_ok (advance_line s) = bufs_ok s"
  by (simp add: advance_line_def)

lemma bufs_write_char [simp]: "bufs_ok (write_char cw ch s) = bufs_ok s"
  by (simp add: write_char_def wrap_line_def Let_def)

lemma bufs_move_cursor [simp]: "bufs_ok (move_cursor c r s) = bufs_ok s"
  by (simp add: move_cursor_def)

lemma bufs_set_scroll_region [simp]: "bufs_ok (set_scroll_region t b s) = bufs_ok s"
  by (simp add: set_scroll_region_def Let_def)

lemma bufs_erase [simp]:
  "bufs_ok (erase_in_line mode s) = bufs_ok s" "bufs_ok (erase_in_display mode s) = bufs_ok s"
  by (simp_all add: erase_in_line_def erase_in_display_def Let_def)

lemma bufs_sgr_param: "bufs_ok (fst (sgr_param p ps s)) = bufs_ok s"
  by (simp add: sgr_param_def Let_def split: option.split prod.split)

lemma bufs_apply_sgr [simp]: "bufs_ok (apply_sgr ps s) = bufs_ok s"
proof (induction ps s rule: apply_sgr.induct)
  case (2 p ps s)
  then show ?case using bufs_sgr_param [of p ps s] by (auto split: prod.split)
qed simp

lemma bufs_grid_new: "bufs_ok s \<Longrightarrow> g_hyperlinks g = [] \<Longrightarrow> bufs_ok (s\<lparr>s_grid := g\<rparr>)"
  by (simp add: bufs_ok_def)

lemma bufs_switch [simp]:
  "bufs_ok s \<Longrightarrow> bufs_ok (switch_to_alt s)" "bufs_ok s \<Longrightarrow> bufs_ok (switch_to_primary s)"
  by (simp_all add: switch_to_alt_def switch_to_primary_def Let_def bufs_grid_new split: option.split)

section \<open>Message operations keep it\<close>

context image_decoder
begin

text \<open>Whatever a decoder returns may be queued.\<close>

lemma bufs_register [intro]: "bufs_ok s \<Longrightarrow> bufs_ok (register_decoded (decode d) pos s)"
  using decode_ok [of d]
  by (cases "decode d")
    (simp_all add: register_decoded_def register_image_def bufs_ok_def pending_image_ok_def
      image_ok_def wrap32_def u32_max_def)

end

lemma register_decoded_view: "same_view s (register_decoded r pos s)"
  by (simp add: same_view_def register_decoded_def register_image_def split: option.split)

lemma bufs_start_sixel [simp]: "bufs_ok s \<Longrightarrow> bufs_ok (start_sixel s)"
  by (simp add: start_sixel_def bufs_ok_def)

lemma bufs_push_dcs_byte [simp]: "bufs_ok s \<Longrightarrow> bufs_ok (push_dcs_byte b s)"
  by (simp add: push_dcs_byte_def bufs_ok_def)

lemma bufs_dcs_clear: "bufs_ok s \<Longrightarrow> bufs_ok (s\<lparr>s_dcs_buf := []\<rparr>)"
  by (simp add: bufs_ok_def)

lemma bufs_finish_sixel [simp]: "bufs_ok s \<Longrightarrow> bufs_ok (finish_sixel s)"
  by (simp add: finish_sixel_def bufs_dcs_clear sixel.bufs_register)

lemma bufs_kitty_payload:
  "bufs_ok s \<Longrightarrow> length p \<le> MAX_KITTY_CHUNK_LEN \<Longrightarrow> bufs_ok (s\<lparr>s_kitty_chunk_payload := p\<rparr>)"
  by (simp add: bufs_ok_def)

lemma bufs_kitty_finish: "bufs_ok s \<Longrightarrow> bufs_ok (kitty_finish ps payload s)"
  unfolding kitty_finish_def by (rule kitty.bufs_register)

lemma bufs_handle_kitty_apc [simp]: "bufs_ok s \<Longrightarrow> bufs_ok (handle_kitty_apc data s)"
  by (auto simp: handle_kitty_apc_def Let_def split: list.split prod.split option.split
      intro!: bufs_kitty_payload bufs_kitty_finish)

lemma bufs_handle_iterm2:
  assumes "loader_law load" "handle_iterm2_osc load ps s = Some t" "bufs_ok s"
  shows "bufs_ok t"
proof -
  have reg: "bufs_ok (register_decoded (decode_iterm2 load raw) pos s)" for raw pos
    using assms(3) by (rule image_decoder.bufs_register [OF decode_iterm2_decoder [OF assms(1)]])
  from assms(2) obtain z where z: "slice_from1 ps = Some z" by (auto simp: handle_iterm2_osc_def)
  have "pred_option bufs_ok (handle_iterm2_osc load ps s)"
    by (simp add: handle_iterm2_osc_def z Let_def reg assms(3) split: option.split prod.split)
  then show ?thesis by (simp add: assms(2))
qed

definition osc66_opts_ok :: "osc66_opts \<Rightarrow> bool" where
  "osc66_opts_ok opts \<longleftrightarrow>
     pred_option (\<lambda>n. 1 \<le> n \<and> n \<le> 7) (o66_scale_int opts)
     \<and> 1 \<le> o66_scale_num opts \<and> o66_scale_num opts \<le> 255
     \<and> 1 \<le> o66_scale_den opts \<and> o66_scale_den opts \<le> 255
     \<and> o66_width opts \<le> u16_max \<and> o66_valign opts \<le> 2 \<and> o66_halign opts \<le> 2"

lemma osc66_key_ok:
  assumes "osc66_opts_ok opts"
  shows "osc66_opts_ok (osc66_key kv opts)"
proof -
  obtain k v where kv: "(case split_once 61 kv of None \<Rightarrow> (kv, []) | Some p \<Rightarrow> p) = (k, v)"
    by (cases "case split_once 61 kv of None \<Rightarrow> (kv, []) | Some p \<Rightarrow> p")
  have w: "n \<le> u16_max" if "parse_uint u16_max (trim v) = Some n" for n
    using that by (rule parse_uint_le)
  have u8: "osc66_opts_ok (case parse_uint 255 (trim v) of None \<Rightarrow> opts | Some n \<Rightarrow> f n)"
    if "\<And>n. n \<le> 255 \<Longrightarrow> osc66_opts_ok (f n)" for f
    using that parse_uint_le [of 255 "trim v"] assms by (cases "parse_uint 255 (trim v)") simp_all
  have "osc66_opts_ok (case parse_uint u16_max (trim v) of None \<Rightarrow> opts | Some n \<Rightarrow> opts\<lparr>o66_width := n\<rparr>)"
    using w assms by (cases "parse_uint u16_max (trim v)") (simp_all add: osc66_opts_ok_def)
  then show ?thesis
    unfolding osc66_key_def Let_def kv prod.case
    by (simp only: split: if_split)
      (intro conjI impI u8; use assms in \<open>simp add: osc66_opts_ok_def clamp_def\<close>)
qed

lemma osc66_parse_ok: "osc66_opts_ok (osc66_parse m)"
proof -
  have "osc66_opts_ok (fold osc66_key ps
      \<lparr>o66_scale_int = None, o66_scale_num = 1, o66_scale_den = 1, o66_width = 0,
       o66_valign = 0, o66_halign = 0\<rparr>)" for ps
    by (rule fold_inv) (simp_all add: osc66_key_ok, simp add: osc66_opts_ok_def)
  note ok = this [of "split_on 58 m"]
  show ?thesis
  proof (cases "o66_scale_int (fold osc66_key (split_on 58 m)
      \<lparr>o66_scale_int = None, o66_scale_num = 1, o66_scale_den = 1, o66_width = 0,
       o66_valign = 0, o66_halign = 0\<rparr>)")
    case None
    then show ?thesis using ok by (simp add: osc66_parse_def)
  next
    case (Some n)
    then show ?thesis using ok by (simp add: osc66_parse_def osc66_opts_ok_def)
  qed
qed

lemma bufs_handle_osc66 [simp]: "bufs_ok s \<Longrightarrow> bufs_ok (handle_osc66 ps s)"
  using osc66_parse_ok
  by (auto simp: handle_osc66_def Let_def bufs_ok_def text_sizing_ok_def osc66_opts_ok_def
      split: list.split option.split)

lemma bufs_setters [simp]:
  "bufs_ok s \<Longrightarrow> bufs_ok (set_pending_bell s)"
  "bufs_ok s \<Longrightarrow> bufs_ok (set_pending_title t s)"
  "bufs_ok s \<Longrightarrow> bufs_ok (set_pending_notification t b s)"
  "bufs_ok s \<Longrightarrow> bufs_ok (set_pending_cwd t s)"
  "bufs_ok s \<Longrightarrow> bufs_ok (queue_clipboard_write t s)"
  "bufs_ok s \<Longrightarrow> bufs_ok (push_pending_response bs s)"
  by (simp_all add: bufs_ok_def set_pending_bell_def set_pending_title_def pair_clean_def
      set_pending_notification_def set_pending_cwd_def queue_clipboard_write_def
      push_pending_response_def)

lemma bufs_colors [simp]:
  "bufs_ok s \<Longrightarrow> bufs_ok (set_default_colors f b s)"
  "bufs_ok s \<Longrightarrow> bufs_ok (set_dynamic_fg c s)"
  "bufs_ok s \<Longrightarrow> bufs_ok (set_dynamic_bg c s)"
  "bufs_ok s \<Longrightarrow> bufs_ok (set_palette_entry i x s)"
  "bufs_ok s \<Longrightarrow> bufs_ok (reset_palette_entry i s)"
  "bufs_ok s \<Longrightarrow> bufs_ok (reset_palette_all s)"
  by (simp_all add: bufs_ok_def set_default_colors_def set_dynamic_fg_def set_dynamic_bg_def
      set_palette_entry_def reset_palette_entry_def reset_palette_all_def Let_def
      distinct_update distinct_delete)

lemma osc99_ok_delete: "osc99_ok m \<Longrightarrow> osc99_ok (AList.delete i m)"
  using distinct_delete [of m i]
  by (auto simp: osc99_ok_def AList.delete_eq intro: order_trans [OF length_filter_le])

lemma osc99_ok_insert:
  assumes "osc99_ok m" "length m < MAX_OSC99_PENDING" "str_len i \<le> MAX_OSC99_ID_LEN"
    "pair_clean e"
  shows "osc99_ok (AList.update i e m)"
proof -
  have "length (AList.update i e m) \<le> Suc (length m)" by (induction m) auto
  moreover have "set (AList.update i e m) \<subseteq> insert (i, e) (set m)" by (induction m) auto
  ultimately show ?thesis using assms by (fastforce simp: osc99_ok_def distinct_update)
qed

lemma bufs_osc99: "bufs_ok s \<Longrightarrow> osc99_ok m \<Longrightarrow> bufs_ok (s\<lparr>s_osc99_pending := m\<rparr>)"
  by (simp add: bufs_ok_def)

lemma bufs_handle_osc99 [simp]:
  assumes "bufs_ok s"
  shows "bufs_ok (handle_osc99 m p s)"
proof -
  let ?opts = "osc99_parse m"
  let ?i = "o99_id ?opts"
  let ?s1 = "s\<lparr>s_osc99_pending := AList.delete ?i (s_osc99_pending s)\<rparr>"
  have del: "osc99_ok (AList.delete ?i (s_osc99_pending s))"
    using assms by (simp add: bufs_ok_def osc99_ok_delete)
  then have s1: "bufs_ok ?s1" by (rule bufs_osc99 [OF assms])
  have ins: "bufs_ok (?s1\<lparr>s_osc99_pending := AList.update ?i
      (sanitize_osc_string t MAX_NOTIFICATION_LEN, sanitize_osc_string b MAX_NOTIFICATION_LEN)
      (AList.delete ?i (s_osc99_pending s))\<rparr>)"
    if "length (AList.delete ?i (s_osc99_pending s)) < MAX_OSC99_PENDING"
      "str_len ?i \<le> MAX_OSC99_ID_LEN" for t b
    using that by (intro bufs_osc99 s1 osc99_ok_insert del) (simp_all add: pair_clean_def)
  show ?thesis
  proof (cases "osc99_text (o99_base64 ?opts) p")
    case None
    then show ?thesis using assms by (simp add: handle_osc99_def Let_def)
  next
    case (Some tx)
    obtain t0 b0 where e: "(case map_of (s_osc99_pending s) ?i of None \<Rightarrow> ([], []) | Some e \<Rightarrow> e) = (t0, b0)"
      by (cases "case map_of (s_osc99_pending s) ?i of None \<Rightarrow> ([], []) | Some e \<Rightarrow> e")
    show ?thesis
      unfolding handle_osc99_def Let_def Some option.case e prod.case
      using assms s1 ins by (simp split del: if_split) (simp split: if_split)
  qed
qed

lemma bufs_handle_osc9_progress [simp]: "bufs_ok s \<Longrightarrow> bufs_ok (handle_osc9_progress a b s)"
  by (auto simp: handle_osc9_progress_def Let_def bufs_ok_def split: option.split)

lemma osc72_key_ok:
  "pred_option (\<lambda>i. i \<le> u32_max) (o72_index opts) \<Longrightarrow>
   pred_option (\<lambda>i. i \<le> u32_max) (o72_index (osc72_key p opts))"
  by (auto simp: osc72_key_def pred_option_def split: option.splits prod.splits dest: parse_uint_le)

lemma bufs_dnd:
  "bufs_ok s \<Longrightarrow> length (s_pending_dnd_requests s) < MAX_DND_REQUESTS \<Longrightarrow> dnd_ok r \<Longrightarrow>
   bufs_ok (s\<lparr>s_pending_dnd_requests := s_pending_dnd_requests s @ [r]\<rparr>)"
  by (simp add: bufs_ok_def)

lemma osc72_parse_index: "o72_index (osc72_parse m) = Some i \<Longrightarrow> i \<le> u32_max"
proof -
  have "pred_option (\<lambda>i. i \<le> u32_max) (o72_index (osc72_parse m))"
    unfolding osc72_parse_def by (rule fold_inv) (simp_all add: osc72_key_ok)
  then show "o72_index (osc72_parse m) = Some i \<Longrightarrow> i \<le> u32_max" by simp
qed

lemma bufs_handle_osc72 [simp]: "bufs_ok s \<Longrightarrow> bufs_ok (handle_osc72 m s)"
  by (simp add: handle_osc72_def Let_def bufs_dnd dnd_ok_def osc72_parse_index split: option.split)

lemma bufs_set_pending_pointer_shape [simp]:
  "bufs_ok s \<Longrightarrow> bufs_ok (set_pending_pointer_shape n s)"
  by (simp add: set_pending_pointer_shape_def Let_def bufs_ok_def)
    (simp add: lit_def str_len_def len_utf8_def MAX_POINTER_SHAPE_LEN_def)

lemma bufs_modes [simp]:
  "bufs_ok (set_bracketed_paste b s) = bufs_ok s"
  "bufs_ok (set_synchronized_output b s) = bufs_ok s"
  "bufs_ok (push_keyboard_protocol_flags f s) = bufs_ok s"
  "bufs_ok (add_semantic_mark k e s) = bufs_ok s"
  by (simp_all add: set_bracketed_paste_def set_synchronized_output_def
      push_keyboard_protocol_flags_def add_semantic_mark_def)

lemma bufs_pop_keyboard [simp]: "bufs_ok (pop_keyboard_protocol_flags n s) = bufs_ok s"
  by (induction n s rule: pop_keyboard_protocol_flags.induct) simp_all

lemma bufs_hyperlink_url: "bufs_ok s \<Longrightarrow> pred_option link_ok u \<Longrightarrow> bufs_ok (s\<lparr>s_current_hyperlink_url := u\<rparr>)"
  by (simp add: bufs_ok_def)

lemma bufs_close_hyperlink [simp]: "bufs_ok s \<Longrightarrow> bufs_ok (close_hyperlink s)"
  by (auto simp: close_hyperlink_def bufs_ok_def Let_def span_ok_def split: option.split)

lemma bufs_set_hyperlink:
  assumes "set_hyperlink w u s = Some t" "bufs_ok s"
  shows "bufs_ok t"
proof -
  have link: "link_ok y" if "validate_hyperlink_uri w x = Some (Some y)" for x y
    using validate_hyperlink_uri_ok [OF that] by (rule conjunct1)
  have c: "bufs_ok (close_hyperlink s)" using assms(2) by simp
  show ?thesis
  proof (cases u)
    case None
    then show ?thesis using assms(1) c by (simp add: set_hyperlink_def)
  next
    case (Some x)
    with assms(1) obtain v where v: "validate_hyperlink_uri w x = Some v"
      by (auto simp: set_hyperlink_def Let_def)
    have "pred_option link_ok v" using link [of x] v by (cases v) simp_all
    then show ?thesis using assms(1) c Some v
      by (cases v) (auto simp: set_hyperlink_def Let_def intro!: bufs_hyperlink_url)
  qed
qed

end
