(* ===== verification/Screen_Queues.thy ===== *)
theory Screen_Queues
  imports Screen_Bufs
begin

text \<open>
  The message side does not touch the grid side: every operation of \<open>Screen_Osc\<close> keeps
  the grid invariant and the tracking of dirty rows.  Then the interface of the queues the
  reader thread drains: messages are delivered once, in order, and none is lost.
\<close>

section \<open>The grid side is left alone\<close>

named_theorems view_simps

text \<open>The fields the grid side does not read.\<close>

lemma view_upd [simp]:
  "same_view s (t\<lparr>s_pending_scrollback := x0\<rparr>) = same_view s t"
  "same_view s (t\<lparr>s_current_fg := x1\<rparr>) = same_view s t"
  "same_view s (t\<lparr>s_current_bg := x2\<rparr>) = same_view s t"
  "same_view s (t\<lparr>s_current_attrs := x3\<rparr>) = same_view s t"
  "same_view s (t\<lparr>s_dcs_sixel_active := x4\<rparr>) = same_view s t"
  "same_view s (t\<lparr>s_dcs_buf := x5\<rparr>) = same_view s t"
  "same_view s (t\<lparr>s_dcs_cursor := x6\<rparr>) = same_view s t"
  "same_view s (t\<lparr>s_pending_images := x7\<rparr>) = same_view s t"
  "same_view s (t\<lparr>s_pending_text_sizing := x8\<rparr>) = same_view s t"
  "same_view s (t\<lparr>s_next_image_id := x9\<rparr>) = same_view s t"
  "same_view s (t\<lparr>s_kitty_chunk_payload := x10\<rparr>) = same_view s t"
  "same_view s (t\<lparr>s_kitty_chunk_params := x11\<rparr>) = same_view s t"
  "same_view s (t\<lparr>s_pending_bell := x12\<rparr>) = same_view s t"
  "same_view s (t\<lparr>s_pending_title := x13\<rparr>) = same_view s t"
  "same_view s (t\<lparr>s_pending_notification := x14\<rparr>) = same_view s t"
  "same_view s (t\<lparr>s_pending_cwd := x15\<rparr>) = same_view s t"
  "same_view s (t\<lparr>s_bracketed_paste := x16\<rparr>) = same_view s t"
  "same_view s (t\<lparr>s_synchronized_output := x17\<rparr>) = same_view s t"
  "same_view s (t\<lparr>s_mouse_mode := x18\<rparr>) = same_view s t"
  "same_view s (t\<lparr>s_semantic_marks := x19\<rparr>) = same_view s t"
  "same_view s (t\<lparr>s_current_hyperlink_url := x20\<rparr>) = same_view s t"
  "same_view s (t\<lparr>s_hyperlink_start_col := x21\<rparr>) = same_view s t"
  "same_view s (t\<lparr>s_hyperlink_start_row := x22\<rparr>) = same_view s t"
  "same_view s (t\<lparr>s_pending_clipboard_writes := x23\<rparr>) = same_view s t"
  "same_view s (t\<lparr>s_keyboard_protocol_flags := x24\<rparr>) = same_view s t"
  "same_view s (t\<lparr>s_keyboard_protocol_stack := x25\<rparr>) = same_view s t"
  "same_view s (t\<lparr>s_pending_responses := x26\<rparr>) = same_view s t"
  "same_view s (t\<lparr>s_configured_fg := x27\<rparr>) = same_view s t"
  "same_view s (t\<lparr>s_configured_bg := x28\<rparr>) = same_view s t"
  "same_view s (t\<lparr>s_dynamic_fg := x29\<rparr>) = same_view s t"
  "same_view s (t\<lparr>s_dynamic_bg := x30\<rparr>) = same_view s t"
  "same_view s (t\<lparr>s_palette_overrides := x31\<rparr>) = same_view s t"
  "same_view s (t\<lparr>s_pending_pointer_shape := x32\<rparr>) = same_view s t"
  "same_view s (t\<lparr>s_color_overrides_changed := x33\<rparr>) = same_view s t"
  "same_view s (t\<lparr>s_osc99_pending := x34\<rparr>) = same_view s t"
  "same_view s (t\<lparr>s_pending_progress := x35\<rparr>) = same_view s t"
  "same_view s (t\<lparr>s_dnd_enabled := x36\<rparr>) = same_view s t"
  "same_view s (t\<lparr>s_pending_dnd_requests := x37\<rparr>) = same_view s t"
  by (simp_all add: same_view_def)

lemma view_register [view_simps]: "same_view s t \<Longrightarrow> same_view s (register_decoded r pos t)"
  by (rule same_view_trans [OF _ register_decoded_view])

lemma view_images [view_simps]:
  "same_view s (start_sixel s)" "same_view s (push_dcs_byte b s)"
  "same_view s (kitty_finish ps p s)"
  by (simp_all add: start_sixel_def push_dcs_byte_def kitty_finish_def register_decoded_view)

lemma view_finish_sixel [view_simps]: "same_view s (finish_sixel s)"
  by (simp add: finish_sixel_def view_register)

lemma view_handle_kitty_apc [view_simps]: "same_view s (handle_kitty_apc d s)"
  by (simp add: handle_kitty_apc_def Let_def kitty_finish_def view_register
      split: list.split prod.split option.split)

lemma view_handle_iterm2: "handle_iterm2_osc load ps s = Some t \<Longrightarrow> same_view s t"
proof -
  assume t: "handle_iterm2_osc load ps s = Some t"
  then obtain z where z: "slice_from1 ps = Some z" by (auto simp: handle_iterm2_osc_def)
  have "pred_option (same_view s) (handle_iterm2_osc load ps s)"
    by (simp add: handle_iterm2_osc_def z Let_def view_register split: option.split prod.split)
  then show ?thesis by (simp add: t)
qed

lemma view_setters [view_simps]:
  "same_view s (handle_osc66 ps s)" "same_view s (set_pending_bell s)"
  "same_view s (set_pending_title t s)" "same_view s (set_pending_notification t b s)"
  "same_view s (set_pending_cwd t s)" "same_view s (queue_clipboard_write t s)"
  "same_view s (push_pending_response bs s)" "same_view s (set_default_colors f g s)"
  "same_view s (set_dynamic_fg oc s)" "same_view s (set_dynamic_bg oc s)"
  "same_view s (set_palette_entry i c s)" "same_view s (reset_palette_entry i s)"
  "same_view s (reset_palette_all s)"
  by (simp_all add: handle_osc66_def set_pending_bell_def set_pending_title_def
      set_pending_notification_def set_pending_cwd_def queue_clipboard_write_def
      push_pending_response_def set_default_colors_def set_dynamic_fg_def set_dynamic_bg_def
      set_palette_entry_def reset_palette_entry_def reset_palette_all_def Let_def
      split: list.split option.split)

lemma view_osc [view_simps]:
  "same_view s (handle_osc9_progress a b s)" "same_view s (handle_osc72 t s)"
  "same_view s (set_pending_pointer_shape t s)" "same_view s (set_bracketed_paste e s)"
  "same_view s (set_synchronized_output e s)" "same_view s (push_keyboard_protocol_flags f s)"
  "same_view s (add_semantic_mark k x s)"
  by (simp_all add: handle_osc9_progress_def handle_osc72_def
      set_pending_pointer_shape_def set_bracketed_paste_def set_synchronized_output_def
      push_keyboard_protocol_flags_def add_semantic_mark_def push_pending_response_def Let_def
      split: option.split)

lemma view_handle_osc99 [view_simps]: "same_view s (handle_osc99 m p s)"
  by (simp add: handle_osc99_def Let_def set_pending_notification_def
      split: option.split prod.split)

lemma view_pop_keyboard [view_simps]: "same_view s (pop_keyboard_protocol_flags n s)"
proof -
  have "same_view s t \<Longrightarrow> same_view s (pop_keyboard_protocol_flags n t)" for t
    by (induction n t rule: pop_keyboard_protocol_flags.induct) simp_all
  then show ?thesis by simp
qed

lemma good_view: "good m s \<Longrightarrow> same_view s t \<Longrightarrow> good m t"
  using same_view_good by blast

lemma good_hyperlinks:
  "good m (s\<lparr>s_grid := (s_grid s)\<lparr>g_hyperlinks := hs\<rparr>\<rparr>) = good m s"
  by (simp add: good_def geometry_ok_def tracks_def grid_wf_def)

lemma good_close_hyperlink [screen_inv]: "good m s \<Longrightarrow> good m (close_hyperlink s)"
proof -
  assume s: "good m s"
  have "same_view s (s\<lparr>s_current_hyperlink_url := None\<rparr>)" by (simp add: same_view_def)
  with s have g: "good m (s\<lparr>s_current_hyperlink_url := None\<rparr>)" by (rule good_view)
  then show ?thesis using s
    good_hyperlinks [where s = "s\<lparr>s_current_hyperlink_url := None\<rparr>"]
    by (simp add: close_hyperlink_def Let_def split: option.split)
qed

lemma good_set_hyperlink:
  assumes "set_hyperlink w u s = Some t" "good m s"
  shows "good m t"
proof -
  have "pred_option (same_view (close_hyperlink s)) (set_hyperlink w u s)"
    by (simp add: set_hyperlink_def Let_def option.pred_map comp_def split: option.split)
      (auto simp: pred_option_def split: option.split)
  then show ?thesis using assms good_close_hyperlink good_view by fastforce
qed

section \<open>The interface of a queue\<close>

text \<open>
  The reader thread drains a queue after every burst of output.  The laws are what it
  relies on.
\<close>

locale outbox =
  fixes pending :: "'s \<Rightarrow> 'a list"
    and enqueue :: "'x \<Rightarrow> 's \<Rightarrow> 's"
    and form :: "'x \<Rightarrow> 'a"
    and drain :: "'s \<Rightarrow> 'a list \<times> 's"
  assumes pending_enqueue: "pending (enqueue x s) = pending s @ [form x]"
    and drain_out: "fst (drain s) = pending s"
    and drain_rest: "pending (snd (drain s)) = []"
begin

lemma pending_burst: "pending (fold enqueue xs s) = pending s @ map form xs"
  by (induction xs arbitrary: s) (simp_all add: pending_enqueue)

lemma drain_twice: "fst (drain (snd (drain s))) = []"
  by (simp add: drain_out drain_rest)

text \<open>
  A burst, a drain, another burst, another drain: the reader receives both bursts in
  order, each message once.
\<close>

lemma two_bursts:
  "fst (drain (fold enqueue xs s)) = pending s @ map form xs"
  "fst (drain (fold enqueue ys (snd (drain (fold enqueue xs s))))) = map form ys"
  by (simp_all add: drain_out pending_burst drain_rest)

end

interpretation responses:
  outbox s_pending_responses push_pending_response "\<lambda>bs. bs" take_pending_responses
  by unfold_locales (simp_all add: push_pending_response_def take_pending_responses_def)

interpretation clipboard:
  outbox s_pending_clipboard_writes queue_clipboard_write
    "\<lambda>t. sanitize_osc_string t MAX_CLIPBOARD_LEN" take_pending_clipboard_writes
  by unfold_locales (simp_all add: queue_clipboard_write_def take_pending_clipboard_writes_def)

end
