(* ===== verification/Performer.thy ===== *)
theory Performer
  imports Screen_Queues
begin

text \<open>
  The callbacks of the \<open>vte\<close> parser (\<open>nexterm-vt/src/performer.rs\<close>): what a printed
  character, a control byte, a CSI or OSC sequence and a DCS string do to the screen.
  A parameter list of \<open>vte\<close> is a list of subparameter lists.  Calls that only log are
  left out, except where an argument of the call can panic.
\<close>

text \<open>What lies outside the repository: character widths, image files, the log level.\<close>

record host =
  h_width :: char_width
  h_load :: image_loader
  h_warn :: bool

section \<open>Control characters\<close>

definition execute :: "byte \<Rightarrow> screen \<Rightarrow> screen" where
  "execute b s =
     (let (col, row) = cursor s in
      if b = 7 then set_pending_bell s
      else if b = 8 \<and> col > 0 then move_cursor (col - 1) row s
      else if b = 9 then
        (let next_tab = wrap16 ((col div 8 + 1) * 8) in
         move_cursor (min next_tab (g_width (s_grid s) - 1)) row s)
      else if 10 \<le> b \<and> b \<le> 12 then advance_line s
      else if b = 13 then move_cursor 0 row s
      else s)"

section \<open>CSI sequences\<close>

definition sub_first :: "nat list \<Rightarrow> nat" where
  "sub_first sub = (case sub of [] \<Rightarrow> 0 | n # _ \<Rightarrow> n)"

definition set_private_mode :: "bool \<Rightarrow> nat \<Rightarrow> screen \<Rightarrow> screen" where
  "set_private_mode enable mode s =
     (if mode = 47 \<or> mode = 1047 then (if enable then switch_to_alt s else switch_to_primary s)
      else if mode = 1049 then (if enable then switch_to_alt s else switch_to_primary s)
      else if mode = 1000 then s\<lparr>s_mouse_mode := (if enable then 1 else 0)\<rparr>
      else if mode = 1006 then s\<lparr>s_mouse_mode := (if enable then 2 else 0)\<rparr>
      else if mode = 2004 then set_bracketed_paste enable s
      else if mode = 2026 then set_synchronized_output enable s
      else s)"

definition dec_private_mode :: "nat list list \<Rightarrow> bool \<Rightarrow> screen \<Rightarrow> screen" where
  "dec_private_mode params enable s =
     fold (\<lambda>param. set_private_mode enable (sub_first param)) params s"

definition param_or :: "nat list \<Rightarrow> nat \<Rightarrow> nat \<Rightarrow> nat" where
  "param_or p i d = (case lget p i of None \<Rightarrow> d | Some n \<Rightarrow> if n = 0 then d else n)"

definition first_param_or :: "nat \<Rightarrow> nat list list \<Rightarrow> nat" where
  "first_param_or d params =
     (case params of [] \<Rightarrow> d | sub # _ \<Rightarrow> (case sub of [] \<Rightarrow> d | n # _ \<Rightarrow> n))"

definition csi_keyboard :: "nat list list \<Rightarrow> byte list \<Rightarrow> screen \<Rightarrow> screen" where
  "csi_keyboard params intermediates s =
     (case intermediates of
        [] \<Rightarrow> s
      | i # _ \<Rightarrow>
          (if i = 62 then push_keyboard_protocol_flags (of_nat (first_param_or 0 params)) s
           else if i = 60 then pop_keyboard_protocol_flags (max (first_param_or 1 params) 1) s
           else s))"

definition csi_device_attributes :: "byte list \<Rightarrow> screen \<Rightarrow> screen" where
  "csi_device_attributes intermediates s =
     (case intermediates of
        [] \<Rightarrow> push_pending_response (27 # blit ''[?6c'') s
      | i # _ \<Rightarrow>
          (if i = 62 then push_pending_response (27 # blit ''[>1;276;0c'') s else s))"

definition cursor_report :: "screen \<Rightarrow> byte list" where
  "cursor_report s =
     as_bytes (ESC @ lit ''['' @ dec (sat_add16 (s_cursor_row s) 1) @ lit '';''
       @ dec (sat_add16 (s_cursor_col s) 1) @ lit ''R'')"

definition csi_status :: "nat \<Rightarrow> byte list \<Rightarrow> screen \<Rightarrow> screen" where
  "csi_status p intermediates s =
     (if intermediates \<noteq> [] \<and> hd intermediates = 63 then s
      else if p = 5 then push_pending_response (27 # blit ''[0n'') s
      else if p = 6 then push_pending_response (cursor_report s) s
      else s)"

definition csi_dispatch :: "nat list list \<Rightarrow> byte list \<Rightarrow> uchar \<Rightarrow> screen \<Rightarrow> screen" where
  "csi_dispatch params intermediates action s =
     (if intermediates \<noteq> [] \<and> hd intermediates = 63 \<and> action = of_char CHR ''h''
      then dec_private_mode params True s
      else if intermediates \<noteq> [] \<and> hd intermediates = 63 \<and> action = of_char CHR ''l''
      then dec_private_mode params False s
      else
        let p = map sub_first params;
            p1 = param_or p 0; p2 = param_or p 1;
            (col, row) = cursor s;
            height = g_height (s_grid s); width = g_width (s_grid s) in
        if action = of_char CHR ''H'' \<or> action = of_char CHR ''f'' then
          move_cursor (p2 1 - 1) (p1 1 - 1) s
        else if action = of_char CHR ''A'' then move_cursor col (row - p1 1) s
        else if action = of_char CHR ''B'' then
          move_cursor col (min (sat_add16 row (p1 1)) (height - 1)) s
        else if action = of_char CHR ''C'' then
          move_cursor (min (sat_add16 col (p1 1)) (width - 1)) row s
        else if action = of_char CHR ''D'' then move_cursor (col - p1 1) row s
        else if action = of_char CHR ''G'' then move_cursor (p1 1 - 1) row s
        else if action = of_char CHR ''d'' then move_cursor col (p1 1 - 1) s
        else if action = of_char CHR ''J'' then erase_in_display (p1 0) s
        else if action = of_char CHR ''K'' then erase_in_line (p1 0) s
        else if action = of_char CHR ''m'' then apply_sgr p s
        else if action = of_char CHR ''r'' then
          set_scroll_region (p1 1 - 1) (p2 height - 1) s
        else if action = of_char CHR ''u'' then csi_keyboard params intermediates s
        else if action = of_char CHR ''c'' then csi_device_attributes intermediates s
        else if action = of_char CHR ''n'' then csi_status (p1 0) intermediates s
        else s)"

section \<open>OSC sequences\<close>

definition osc_terminator :: "bool \<Rightarrow> rstr" where
  "osc_terminator bell_terminated = (if bell_terminated then [7] else [27, 92])"

text \<open>\<open>params.get(i)\<close> read as UTF-8.\<close>

definition osc_arg :: "byte list list \<Rightarrow> nat \<Rightarrow> rstr option" where
  "osc_arg params i = Option.bind (lget params i) from_utf8"

definition osc_arg_or :: "rstr \<Rightarrow> byte list list \<Rightarrow> nat \<Rightarrow> rstr" where
  "osc_arg_or d params i = (case osc_arg params i of None \<Rightarrow> d | Some s \<Rightarrow> s)"

definition osc_title :: "byte list list \<Rightarrow> screen \<Rightarrow> screen" where
  "osc_title params s =
     (case osc_arg params 1 of None \<Rightarrow> s | Some title \<Rightarrow> set_pending_title title s)"

definition osc_cwd :: "byte list list \<Rightarrow> screen \<Rightarrow> screen" where
  "osc_cwd params s =
     (case osc_arg params 1 of
        None \<Rightarrow> s
      | Some payload \<Rightarrow>
          (case parse_osc7_cwd (trim payload) of None \<Rightarrow> s | Some cwd \<Rightarrow> set_pending_cwd cwd s))"

definition osc_hyperlink :: "bool \<Rightarrow> byte list list \<Rightarrow> screen \<Rightarrow> screen option" where
  "osc_hyperlink warn params s =
     (let uri = trim (osc_arg_or [] params 2) in
      set_hyperlink warn (if uri = [] then None else Some uri) s)"

definition osc_notification :: "byte list list \<Rightarrow> screen \<Rightarrow> screen" where
  "osc_notification params s =
     (case osc_arg params 1 of
        None \<Rightarrow> s
      | Some msg \<Rightarrow>
          (if trim msg = lit ''4'' \<and> length params \<ge> 3 then
             handle_osc9_progress (osc_arg_or [] params 2) (osc_arg_or (lit ''0'') params 3) s
           else set_pending_notification (lit ''Nexterm'') msg s))"

definition MAX_OSC52_PAYLOAD_BYTES :: nat where
  "MAX_OSC52_PAYLOAD_BYTES = 16 * 1024 * 1024"

definition osc_clipboard :: "byte list list \<Rightarrow> screen \<Rightarrow> screen" where
  "osc_clipboard params s =
     (let selection = osc_arg_or [] params 1; payload = trim (osc_arg_or [] params 2) in
      if of_char CHR ''c'' \<notin> set selection then s
      else if payload = lit ''?'' then s
      else if str_len payload > MAX_OSC52_PAYLOAD_BYTES then s
      else case Option.bind (base64_decode (as_bytes payload)) from_utf8 of
        None \<Rightarrow> s
      | Some t \<Rightarrow> queue_clipboard_write t s)"

definition osc_kitty_notification :: "byte list list \<Rightarrow> screen \<Rightarrow> screen" where
  "osc_kitty_notification params s =
     handle_osc99 (osc_arg_or [] params 1) (join_with 59 (drop 2 params)) s"

definition osc_rxvt_notification :: "byte list list \<Rightarrow> screen \<Rightarrow> screen" where
  "osc_rxvt_notification params s =
     (if osc_arg_or [] params 1 \<noteq> lit ''notify'' then s
      else set_pending_notification (osc_arg_or (lit ''Nexterm'') params 2)
        (osc_arg_or [] params 3) s)"

fun chunks2 :: "'a list \<Rightarrow> ('a \<times> 'a) list" where
  "chunks2 (a # b # r) = (a, b) # chunks2 r"
| "chunks2 _ = []"

definition parse_index :: "byte list \<Rightarrow> u8 option" where
  "parse_index raw = map_option of_nat (Option.bind (from_utf8 raw) (\<lambda>t. parse_uint 255 (trim t)))"

definition palette_reply :: "bool \<Rightarrow> u8 \<Rightarrow> rgb \<Rightarrow> byte list" where
  "palette_reply bell index c =
     as_bytes (ESC @ lit '']4;'' @ dec (unat index) @ lit '';'' @ format_rgb_reply c
       @ osc_terminator bell)"

definition osc_palette_pair :: "bool \<Rightarrow> byte list \<times> byte list \<Rightarrow> screen \<Rightarrow> screen" where
  "osc_palette_pair bell pair s =
     (case parse_index (fst pair) of
        None \<Rightarrow> s
      | Some index \<Rightarrow>
          (case from_utf8 (snd pair) of
             None \<Rightarrow> s
           | Some spec \<Rightarrow>
               (if trim spec = lit ''?'' then
                  push_pending_response (palette_reply bell index (palette_color s index)) s
                else case parse_color_spec spec of
                  None \<Rightarrow> s
                | Some c \<Rightarrow> set_palette_entry index c s)))"

definition osc_palette :: "bool \<Rightarrow> byte list list \<Rightarrow> screen \<Rightarrow> screen option" where
  "osc_palette bell params s =
     map_option (\<lambda>ps. fold (osc_palette_pair bell) (chunks2 ps) s) (slice_from1 params)"

definition color_reply :: "bool \<Rightarrow> rstr \<Rightarrow> rgb \<Rightarrow> byte list" where
  "color_reply bell code c =
     as_bytes (ESC @ lit '']'' @ code @ lit '';'' @ format_rgb_reply c @ osc_terminator bell)"

definition osc_default_color :: "bool \<Rightarrow> rstr \<Rightarrow> byte list list \<Rightarrow> screen \<Rightarrow> screen" where
  "osc_default_color bell code params s =
     (case osc_arg params 1 of
        None \<Rightarrow> s
      | Some spec \<Rightarrow>
          (let is_fg = (code = lit ''10'') in
           if trim spec = lit ''?'' then
             push_pending_response
               (color_reply bell code (if is_fg then effective_fg s else effective_bg s)) s
           else case parse_color_spec spec of
             None \<Rightarrow> s
           | Some c \<Rightarrow> if is_fg then set_dynamic_fg (Some c) s else set_dynamic_bg (Some c) s))"

definition osc_palette_reset :: "byte list list \<Rightarrow> screen \<Rightarrow> screen" where
  "osc_palette_reset params s =
     (if length params \<le> 1 then reset_palette_all s
      else fold (\<lambda>raw s. case parse_index raw of None \<Rightarrow> s | Some i \<Rightarrow> reset_palette_entry i s)
        (tl params) s)"

definition osc_semantic_mark :: "byte list list \<Rightarrow> screen \<Rightarrow> screen" where
  "osc_semantic_mark params s =
     (case osc_arg params 1 of
        None \<Rightarrow> s
      | Some mark \<Rightarrow>
          (let m = trim mark in
           if m = lit ''A'' then add_semantic_mark PromptStart None s
           else if m = lit ''B'' then add_semantic_mark CommandStart None s
           else if m = lit ''C'' then add_semantic_mark OutputStart None s
           else if m = lit ''D'' then
             add_semantic_mark CommandEnd
               (Option.bind (osc_arg params 2) (\<lambda>t. parse_i32 (trim t))) s
           else s))"

definition osc_code :: "host \<Rightarrow> rstr \<Rightarrow> byte list list \<Rightarrow> bool \<Rightarrow> screen \<Rightarrow> screen option" where
  "osc_code h code params bell s =
     (if code = lit ''0'' \<or> code = lit ''1'' \<or> code = lit ''2'' then Some (osc_title params s)
      else if code = lit ''7'' then Some (osc_cwd params s)
      else if code = lit ''8'' then osc_hyperlink (h_warn h) params s
      else if code = lit ''9'' then Some (osc_notification params s)
      else if code = lit ''52'' then Some (osc_clipboard params s)
      else if code = lit ''72'' then Some (handle_osc72 (osc_arg_or [] params 1) s)
      else if code = lit ''99'' then Some (osc_kitty_notification params s)
      else if code = lit ''777'' then Some (osc_rxvt_notification params s)
      else if code = lit ''66'' then Some (handle_osc66 params s)
      else if code = lit ''1337'' then handle_iterm2_osc (h_load h) params s
      else if code = lit ''4'' then osc_palette bell params s
      else if code = lit ''10'' \<or> code = lit ''11'' then Some (osc_default_color bell code params s)
      else if code = lit ''22'' then Some (set_pending_pointer_shape (osc_arg_or [] params 1) s)
      else if code = lit ''104'' then Some (osc_palette_reset params s)
      else if code = lit ''110'' then Some (set_dynamic_fg None s)
      else if code = lit ''111'' then Some (set_dynamic_bg None s)
      else if code = lit ''133'' then Some (osc_semantic_mark params s)
      else Some s)"

definition osc_dispatch :: "host \<Rightarrow> byte list list \<Rightarrow> bool \<Rightarrow> screen \<Rightarrow> screen option" where
  "osc_dispatch h params bell s =
     (case params of
        [] \<Rightarrow> Some s
      | p0 # _ \<Rightarrow>
          (case from_utf8 p0 of
             None \<Rightarrow> Some s
           | Some c \<Rightarrow> osc_code h (trim c) params bell s))"

section \<open>The callbacks\<close>

datatype vt_event =
    Print uchar
  | Execute byte
  | CsiDispatch "nat list list" "byte list" uchar
  | OscDispatch "byte list list" bool
  | EscDispatch "byte list" byte
  | Hook "nat list list" "byte list" uchar
  | Put byte
  | Unhook

definition hook :: "uchar \<Rightarrow> screen \<Rightarrow> screen" where
  "hook action s = (if action = of_char CHR ''q'' then start_sixel s else s)"

fun perform :: "host \<Rightarrow> vt_event \<Rightarrow> screen \<Rightarrow> screen option" where
  "perform h (Print c) s = Some (write_char (h_width h) c s)"
| "perform h (Execute b) s = Some (execute b s)"
| "perform h (CsiDispatch params ims action) s = Some (csi_dispatch params ims action s)"
| "perform h (OscDispatch params bell) s = osc_dispatch h params bell s"
| "perform h (EscDispatch _ _) s = Some s"
| "perform h (Hook _ _ action) s = Some (hook action s)"
| "perform h (Put b) s = Some (push_dcs_byte b s)"
| "perform h Unhook s = Some (finish_sixel s)"

end
