(* ===== verification/Performer_Inv.thy ===== *)
theory Performer_Inv
  imports Performer
begin

text \<open>
  Every callback keeps the screen invariants; the only callback that can panic is a
  hyperlink.  The contract of the callbacks is a locale, proved once for any sequence of
  events and interpreted on the screen.
\<close>

section \<open>The contract of a stream of events\<close>

locale event_consumer =
  fixes step :: "'e \<Rightarrow> 's \<Rightarrow> 's option"
    and inv :: "'s \<Rightarrow> bool"
  assumes step_inv: "step e s = Some t \<Longrightarrow> inv s \<Longrightarrow> inv t"
begin

lemma run_inv: "foldM step es s = Some t \<Longrightarrow> inv s \<Longrightarrow> inv t"
  by (rule foldM_inv [of step es s t inv]) (auto intro: step_inv)

lemma run_total:
  assumes "\<And>e s. e \<in> set es \<Longrightarrow> step e s \<noteq> None" "inv s"
  shows "\<exists>t. foldM step es s = Some t \<and> inv t"
proof (rule foldM_total [where P = inv, OF assms(2)])
  fix e s
  assume "e \<in> set es" "inv s"
  moreover from assms(1) [OF this(1), of s] obtain t where "step e s = Some t" by auto
  ultimately show "\<exists>t. step e s = Some t \<and> inv t" by (auto intro: step_inv)
qed

end

section \<open>The grid side\<close>

lemma good_fold:
  "good m s \<Longrightarrow> (\<And>x t. good m t \<Longrightarrow> good m (f x t)) \<Longrightarrow> good m (fold f xs s)"
  by (rule fold_inv)

lemma good_execute [screen_inv]: "good m s \<Longrightarrow> good m (execute b s)"
  by (simp add: execute_def cursor_def Let_def screen_inv good_view [OF _ view_setters(2)])

lemma view_mouse [simp]: "same_view s (t\<lparr>s_mouse_mode := x\<rparr>) = same_view s t"
  by (simp add: same_view_def)

lemma good_set_private_mode [screen_inv]: "good m s \<Longrightarrow> good m (set_private_mode e mode s)"
  by (simp add: set_private_mode_def screen_inv good_view view_simps)

lemma good_csi_dispatch [screen_inv]:
  assumes "good m s"
  shows "good m (csi_dispatch ps ims a s)"
proof -
  have v: "same_view s (csi_keyboard ps ims s)" "same_view s (csi_device_attributes ims s)"
    "same_view s (csi_status n ims s)" for n
    by (simp_all add: csi_keyboard_def csi_device_attributes_def csi_status_def view_simps
        split: list.split)
  have mode: "good m (dec_private_mode ps e s)" for e
    unfolding dec_private_mode_def using assms by (rule good_fold) (rule good_set_private_mode)
  show ?thesis
    by (simp add: csi_dispatch_def Let_def mode cursor_def screen_inv assms good_view [OF assms v(1)]
        good_view [OF assms v(2)] good_view [OF assms v(3)])
qed

lemma view_fold:
  "(\<And>x t. same_view t (f x t)) \<Longrightarrow> same_view s (fold f xs s)"
  by (rule fold_inv) (auto intro: same_view_trans)

lemma view_palette_pair: "same_view s (osc_palette_pair b p s)"
  by (simp add: osc_palette_pair_def view_simps split: option.split)

lemma view_osc_code:
  assumes "osc_code h code ps bell s = Some t" "code \<noteq> lit ''8''"
  shows "same_view s t"
proof -
  have pal: "pred_option (same_view s) (osc_palette bell ps s)"
    by (simp add: osc_palette_def slice_from1_def view_fold view_palette_pair split: list.split)
  have img: "pred_option (same_view s) (handle_iterm2_osc (h_load h) ps s)"
    using view_handle_iterm2 by (auto simp: pred_option_def)
  have res: "same_view s (osc_palette_reset ps s)"
    by (auto simp: osc_palette_reset_def view_simps split: option.split intro!: view_fold)
  have rest: "same_view s (osc_title ps s)" "same_view s (osc_cwd ps s)"
    "same_view s (osc_notification ps s)" "same_view s (osc_clipboard ps s)"
    "same_view s (osc_kitty_notification ps s)" "same_view s (osc_rxvt_notification ps s)"
    "same_view s (osc_default_color bell code ps s)" "same_view s (osc_semantic_mark ps s)"
    by (simp_all add: osc_title_def osc_cwd_def osc_notification_def osc_clipboard_def
        osc_kitty_notification_def osc_rxvt_notification_def osc_default_color_def
        osc_semantic_mark_def Let_def view_simps split: option.split)
  have "pred_option (same_view s) (osc_code h code ps bell s)"
    by (simp add: osc_code_def assms(2) pal img res rest view_simps)
  then show ?thesis by (simp add: assms(1))
qed

lemma good_osc_code:
  assumes "osc_code h code ps bell s = Some t" "good m s"
  shows "good m t"
proof (cases "code = lit ''8''")
  case True
  then have "osc_hyperlink (h_warn h) ps s = Some t"
    using assms(1) by (simp add: osc_code_def) (simp add: lit_def)
  then show ?thesis using assms(2) by (auto simp: osc_hyperlink_def Let_def intro: good_set_hyperlink)
next
  case False
  with view_osc_code [OF assms(1)] assms(2) show ?thesis by (blast intro: good_view)
qed

lemma good_perform: "perform h e s = Some t \<Longrightarrow> good m s \<Longrightarrow> good m t"
  by (cases "(h, e, s)" rule: perform.cases)
    (auto simp: screen_inv osc_dispatch_def hook_def good_view view_simps
      split: list.splits option.splits if_splits intro: good_osc_code)

interpretation grid_side: event_consumer "perform h" "good m" for h m
  by unfold_locales (rule good_perform)

section \<open>The message side\<close>

lemma bufs_fold: "bufs_ok s \<Longrightarrow> (\<And>x t. bufs_ok t \<Longrightarrow> bufs_ok (f x t)) \<Longrightarrow> bufs_ok (fold f xs s)"
  by (rule fold_inv)

lemma bufs_execute [simp]: "bufs_ok s \<Longrightarrow> bufs_ok (execute b s)"
  by (simp add: execute_def cursor_def Let_def)

lemma bufs_mouse: "bufs_ok s \<Longrightarrow> n \<le> 2 \<Longrightarrow> bufs_ok (s\<lparr>s_mouse_mode := n\<rparr>)"
  by (simp add: bufs_ok_def)

lemma bufs_set_private_mode: "bufs_ok s \<Longrightarrow> bufs_ok (set_private_mode e mode s)"
  by (simp add: set_private_mode_def bufs_mouse)

lemma bufs_csi_dispatch [simp]: "bufs_ok s \<Longrightarrow> bufs_ok (csi_dispatch ps ims a s)"
proof -
  assume s: "bufs_ok s"
  have v: "bufs_ok (csi_keyboard ps ims s)" "bufs_ok (csi_device_attributes ims s)"
    "bufs_ok (csi_status n ims s)" for n
    using s by (simp_all add: csi_keyboard_def csi_device_attributes_def csi_status_def split: list.split)
  have mode: "bufs_ok (dec_private_mode ps e s)" for e
    unfolding dec_private_mode_def using s by (rule bufs_fold) (rule bufs_set_private_mode)
  show ?thesis using s by (simp add: csi_dispatch_def Let_def mode cursor_def v)
qed

lemma bufs_palette_pair: "bufs_ok s \<Longrightarrow> bufs_ok (osc_palette_pair b p s)"
  by (simp add: osc_palette_pair_def split: option.split)

lemma bufs_osc_code:
  assumes "osc_code h code ps bell s = Some t" "bufs_ok s" "loader_law (h_load h)"
  shows "bufs_ok t"
proof -
  have pal: "pred_option bufs_ok (osc_palette bell ps s)"
    using assms(2) by (simp add: osc_palette_def slice_from1_def bufs_fold bufs_palette_pair split: list.split)
  have img: "pred_option bufs_ok (handle_iterm2_osc (h_load h) ps s)"
    using bufs_handle_iterm2 [OF assms(3)] assms(2) by (auto simp: pred_option_def)
  have link: "pred_option bufs_ok (osc_hyperlink w ps s)" for w
    using bufs_set_hyperlink assms(2) by (auto simp: pred_option_def osc_hyperlink_def Let_def)
  have res: "bufs_ok (osc_palette_reset ps s)"
    using assms(2) by (auto simp: osc_palette_reset_def split: option.split intro!: bufs_fold)
  have rest: "bufs_ok (osc_title ps s)" "bufs_ok (osc_cwd ps s)"
    "bufs_ok (osc_notification ps s)" "bufs_ok (osc_clipboard ps s)"
    "bufs_ok (osc_kitty_notification ps s)" "bufs_ok (osc_rxvt_notification ps s)"
    "bufs_ok (osc_default_color bell code ps s)" "bufs_ok (osc_semantic_mark ps s)"
    using assms(2) by (simp_all add: osc_title_def osc_cwd_def osc_notification_def osc_clipboard_def
        osc_kitty_notification_def osc_rxvt_notification_def osc_default_color_def
        osc_semantic_mark_def Let_def split: option.split)
  have "pred_option bufs_ok (osc_code h code ps bell s)"
    by (simp add: osc_code_def pal img link res rest assms(2))
  then show ?thesis by (simp add: assms(1))
qed

lemma bufs_perform:
  "perform h e s = Some t \<Longrightarrow> loader_law (h_load h) \<Longrightarrow> bufs_ok s \<Longrightarrow> bufs_ok t"
  by (cases "(h, e, s)" rule: perform.cases)
    (auto simp: osc_dispatch_def hook_def split: list.splits option.splits if_splits
      intro: bufs_osc_code)

lemma message_side: "loader_law (h_load h) \<Longrightarrow> event_consumer (perform h) bufs_ok"
  by unfold_locales (rule bufs_perform)

section \<open>Panics\<close>

lemma slice_from1_Cons [simp]: "slice_from1 (p # ps) = Some ps"
  by (simp add: slice_from1_def)

lemma handle_iterm2_Cons: "handle_iterm2_osc load (p # ps) s \<noteq> None"
  by (simp add: handle_iterm2_osc_def)

lemma osc_palette_Cons: "osc_palette bell (p # ps) s \<noteq> None"
  by (simp add: osc_palette_def)

lemma set_hyperlink_None:
  "set_hyperlink w u s = None \<longleftrightarrow>
     (\<exists>v. u = Some v \<and> validate_hyperlink_uri w v = None)"
  by (simp add: set_hyperlink_def Let_def split: option.split)

lemma validate_hyperlink_uri_None:
  "validate_hyperlink_uri w v = None \<longleftrightarrow>
     w \<and> v \<noteq> [] \<and> str_len v \<le> MAX_HYPERLINK_URI_LEN
     \<and> \<not> list_ex (starts_with (to_lowercase v)) ALLOWED_HYPERLINK_SCHEMES
     \<and> \<not> is_char_boundary v (min (str_len v) 80)"
  by (auto simp: validate_hyperlink_uri_def slice_to_def Let_def)

lemma osc_code_None:
  assumes "osc_code h code (p # ps) bell s = None"
  shows "code = lit ''8'' \<and> osc_hyperlink (h_warn h) (p # ps) s = None"
  using assms handle_iterm2_Cons [of "h_load h" p ps s] osc_palette_Cons [of bell p ps s]
  by (auto simp: osc_code_def split: if_splits)

lemma perform_None:
  assumes "perform h e s = None"
  obtains p0 ps bell c uri where "e = OscDispatch (p0 # ps) bell" "from_utf8 p0 = Some c"
    "trim c = lit ''8''" "uri = trim (osc_arg_or [] (p0 # ps) 2)" "h_warn h"
    "str_len uri \<le> MAX_HYPERLINK_URI_LEN"
    "\<not> list_ex (starts_with (to_lowercase uri)) ALLOWED_HYPERLINK_SCHEMES"
    "\<not> is_char_boundary uri (min (str_len uri) 80)"
proof -
  from assms obtain ps bell where e: "e = OscDispatch ps bell" and d: "osc_dispatch h ps bell s = None"
    by (cases e) auto
  from d obtain p0 r c where ps: "ps = p0 # r" "from_utf8 p0 = Some c"
    "osc_code h (trim c) (p0 # r) bell s = None"
    by (auto simp: osc_dispatch_def split: list.splits option.splits)
  from osc_code_None [OF ps(3)] have "trim c = lit ''8''"
    "validate_hyperlink_uri (h_warn h) (trim (osc_arg_or [] (p0 # r) 2)) = None"
    by (auto simp: osc_hyperlink_def Let_def set_hyperlink_None split: if_splits)
  then show ?thesis using that e ps by (auto simp: validate_hyperlink_uri_None)
qed

end
