(* ===== verification/Vt_Parser.thy ===== *)
theory Vt_Parser
  imports Performer_Inv
begin

text \<open>
  The byte-level parser (\<open>nexterm-vt/src/lib.rs\<close>): \<open>VtParser\<close> intercepts APC strings
  (Kitty graphics) and hands every other byte to the \<open>vte\<close> crate, whose callbacks are
  the events of \<open>Performer\<close>.  The crate is a parameter: its state and a step giving the
  callbacks one byte causes.
\<close>

definition MAX_APC_BUF_LEN :: nat where
  "MAX_APC_BUF_LEN = 4 * 1024 * 1024"

type_synonym 'p vte = "'p \<Rightarrow> byte \<Rightarrow> vt_event list \<times> 'p"

record 'p vt_parser =
  vp_parser :: 'p
  vp_screen :: screen
  vp_apc_active :: bool
  vp_apc_buf :: "byte list"
  vp_apc_pending_esc :: bool
  vp_apc_overflow_warned :: bool

definition vt_new :: "'p \<Rightarrow> nat \<Rightarrow> nat \<Rightarrow> 'p vt_parser" where
  "vt_new p0 cols rows =
     \<lparr>vp_parser = p0, vp_screen = screen_new cols rows, vp_apc_active = False, vp_apc_buf = [],
      vp_apc_pending_esc = False, vp_apc_overflow_warned = False\<rparr>"

definition apc_push :: "byte \<Rightarrow> 'p vt_parser \<Rightarrow> 'p vt_parser" where
  "apc_push b p =
     (if length (vp_apc_buf p) \<ge> MAX_APC_BUF_LEN then
        (let p1 = (if \<not> vp_apc_overflow_warned p then p\<lparr>vp_apc_overflow_warned := True\<rparr> else p) in
         p1\<lparr>vp_apc_buf := [], vp_apc_active := False\<rparr>)
      else p\<lparr>vp_apc_buf := vp_apc_buf p @ [b]\<rparr>)"

definition vte_feed :: "'p vte \<Rightarrow> host \<Rightarrow> byte \<Rightarrow> 'p vt_parser \<Rightarrow> 'p vt_parser option" where
  "vte_feed vte h b p =
     (case vte (vp_parser p) b of
        (es, q) \<Rightarrow>
          map_option (\<lambda>s. p\<lparr>vp_parser := q, vp_screen := s\<rparr>)
            (foldM (perform h) es (vp_screen p)))"

definition on_screen :: "(screen \<Rightarrow> screen) \<Rightarrow> 'p vt_parser \<Rightarrow> 'p vt_parser" where
  "on_screen f p = p\<lparr>vp_screen := f (vp_screen p)\<rparr>"

definition advance_byte :: "'p vte \<Rightarrow> host \<Rightarrow> byte \<Rightarrow> 'p vt_parser \<Rightarrow> 'p vt_parser option" where
  "advance_byte vte h b p0 =
     (if vp_apc_pending_esc p0 then
        (let p = p0\<lparr>vp_apc_pending_esc := False\<rparr> in
         if b = 95 then Some (p\<lparr>vp_apc_active := True, vp_apc_buf := []\<rparr>)
         else if b = 92 \<and> vp_apc_active p then
           (let data = vp_apc_buf p in
            Some ((on_screen (handle_kitty_apc data) (p\<lparr>vp_apc_buf := []\<rparr>))\<lparr>vp_apc_active := False\<rparr>))
         else if vp_apc_active p then Some (apc_push b (apc_push 27 p))
         else Option.bind (vte_feed vte h 27 p) (vte_feed vte h b))
      else if b = 27 then Some (p0\<lparr>vp_apc_pending_esc := True\<rparr>)
      else if vp_apc_active p0 then Some (apc_push b p0)
      else vte_feed vte h b p0)"

definition advance :: "'p vte \<Rightarrow> host \<Rightarrow> byte list \<Rightarrow> 'p vt_parser \<Rightarrow> 'p vt_parser option" where
  "advance vte h bs p = foldM (advance_byte vte h) bs p"

section \<open>Invariant\<close>

definition parser_ok :: "(screen \<Rightarrow> bool) \<Rightarrow> 'p vt_parser \<Rightarrow> bool" where
  "parser_ok P p \<longleftrightarrow> length (vp_apc_buf p) \<le> MAX_APC_BUF_LEN \<and> P (vp_screen p)"

lemma apc_push_ok: "parser_ok P p \<Longrightarrow> parser_ok P (apc_push b p)"
  by (simp add: parser_ok_def apc_push_def)

text \<open>
  Any invariant of the callbacks that the Kitty handler also keeps is an invariant of the
  byte stream.
\<close>

lemma feed_inv:
  assumes "event_consumer (perform h) P" "vte_feed vte h b p = Some q" "parser_ok P p"
  shows "parser_ok P q"
  using assms event_consumer.run_inv [OF assms(1)] by (auto simp: vte_feed_def parser_ok_def split: prod.splits)

lemma advance_byte_inv:
  assumes h: "event_consumer (perform h) P" and kitty: "\<And>d s. P s \<Longrightarrow> P (handle_kitty_apc d s)"
    and "advance_byte vte h b p = Some q" "parser_ok P p"
  shows "parser_ok P q"
proof (cases "vp_apc_pending_esc p")
  case True
  let ?p = "p\<lparr>vp_apc_pending_esc := False\<rparr>"
  have p: "parser_ok P ?p" using assms(4) by (simp add: parser_ok_def)
  consider "b = 95" | "b = 92 \<and> vp_apc_active p" | "b \<noteq> 95 \<and> b \<noteq> 92 \<and> vp_apc_active p"
    | "b \<noteq> 95 \<and> \<not> vp_apc_active p" by blast
  then show ?thesis
  proof cases
    case 4
    then obtain r where r: "vte_feed vte h 27 ?p = Some r" "vte_feed vte h b r = Some q"
      using assms(3) True by (auto simp: advance_byte_def Option.bind_eq_Some_conv)
    show ?thesis by (rule feed_inv [OF h r(2) feed_inv [OF h r(1) p]])
  qed (use assms(3,4) True p kitty in
      \<open>auto simp: advance_byte_def Let_def on_screen_def parser_ok_def
        intro!: apc_push_ok [unfolded parser_ok_def]\<close>)
next
  case False
  then show ?thesis using assms(3,4) feed_inv [OF h, of vte b p q] apc_push_ok [OF assms(4), of b]
    by (auto simp: advance_byte_def parser_ok_def split: if_splits)
qed

lemma advance_inv:
  assumes "event_consumer (perform h) P" "\<And>d s. P s \<Longrightarrow> P (handle_kitty_apc d s)"
    and "advance vte h bs p = Some q" "parser_ok P p"
  shows "parser_ok P q"
  using assms(3,4) unfolding advance_def
  by (rule foldM_inv [where P = "parser_ok P"]) (rule advance_byte_inv [OF assms(1,2)])


lemma good_kitty: "good m s \<Longrightarrow> good m (handle_kitty_apc d s)"
  by (rule good_view [OF _ view_handle_kitty_apc])

lemma advance_good:
  assumes "advance vte h bs p = Some q" "parser_ok (good m) p"
  shows "parser_ok (good m) q"
  by (rule advance_inv [OF grid_side.event_consumer_axioms good_kitty assms])

lemma advance_bufs:
  assumes "loader_law (h_load h)" "advance vte h bs p = Some q" "parser_ok bufs_ok p"
  shows "parser_ok bufs_ok q"
  by (rule advance_inv [OF message_side [OF assms(1)] bufs_handle_kitty_apc assms(2,3)])

section \<open>Interception of APC strings\<close>

lemma advance_Nil [simp]: "advance vte h [] p = Some p"
  by (simp add: advance_def)

lemma advance_Cons: "advance vte h (b # bs) p = Option.bind (advance_byte vte h b p) (advance vte h bs)"
  by (simp add: advance_def [abs_def])

lemma advance_append: "advance vte h (as @ bs) p = Option.bind (advance vte h as p) (advance vte h bs)"
  by (simp add: advance_def [abs_def] foldM_append)

lemma advance_payload:
  assumes "vp_apc_active p" "\<not> vp_apc_pending_esc p" "27 \<notin> set d"
    "length (vp_apc_buf p) + length d \<le> MAX_APC_BUF_LEN"
  shows "advance vte h d p = Some (p\<lparr>vp_apc_buf := vp_apc_buf p @ d\<rparr>)"
  using assms
proof (induction d arbitrary: p)
  case (Cons b d)
  have "advance_byte vte h b p = Some (p\<lparr>vp_apc_buf := vp_apc_buf p @ [b]\<rparr>)"
    using Cons.prems by (simp add: advance_byte_def apc_push_def)
  moreover have "advance vte h d (p\<lparr>vp_apc_buf := vp_apc_buf p @ [b]\<rparr>) =
      Some (p\<lparr>vp_apc_buf := vp_apc_buf p @ b # d\<rparr>)"
    using Cons.prems by (subst Cons.IH) simp_all
  ultimately show ?case by (simp add: advance_Cons)
qed simp

text \<open>
  A complete APC string reaches the Kitty handler as it was sent; the \<open>vte\<close> parser does
  not see any of it.
\<close>

lemma advance_apc:
  assumes "\<not> vp_apc_pending_esc p" "27 \<notin> set d" "length d \<le> MAX_APC_BUF_LEN"
  shows "advance vte h ([27, 95] @ d @ [27, 92]) p =
    Some (p\<lparr>vp_screen := handle_kitty_apc d (vp_screen p), vp_apc_active := False, vp_apc_buf := []\<rparr>)"
proof -
  let ?p1 = "p\<lparr>vp_apc_active := True, vp_apc_buf := []\<rparr>"
  have start: "advance vte h [27, 95] p = Some ?p1"
    using assms(1) by (simp add: advance_Cons advance_byte_def)
  have body: "advance vte h d ?p1 = Some (?p1\<lparr>vp_apc_buf := d\<rparr>)"
    using assms by (subst advance_payload) simp_all
  have stop: "advance vte h [27, 92] (p\<lparr>vp_apc_active := True, vp_apc_buf := d\<rparr>) =
    Some (p\<lparr>vp_screen := handle_kitty_apc d (vp_screen p), vp_apc_active := False, vp_apc_buf := []\<rparr>)"
    using assms(1) by (simp add: advance_Cons advance_byte_def on_screen_def)
  show ?thesis by (simp add: advance_append start body stop del: append_Cons append_Nil)
qed

text \<open>A byte outside an APC string goes to the \<open>vte\<close> parser at once.\<close>

lemma advance_plain:
  assumes "\<not> vp_apc_pending_esc p" "\<not> vp_apc_active p" "b \<noteq> 27"
  shows "advance vte h [b] p = vte_feed vte h b p"
  using assms by (cases "vte_feed vte h b p") (simp_all add: advance_Cons advance_byte_def)

end
