(* ===== verification/Pane_Mirror.thy ===== *)
theory Pane_Mirror
  imports Vt_Parser
begin

text \<open>
  The grid and scrollback part of one burst of the PTY reader thread
  (\<open>nexterm-server/src/pane.rs\<close>, the closure of \<open>spawn_with_id\<close>): the changed rows are
  taken from the parser's screen, applied to the pane's full-grid snapshot and sent, and
  the lines that scrolled off are appended to a capped scrollback.  The main theorem is
  that the snapshot equals the parser's grid after every burst outside synchronized
  output.  Lock poisoning is not modelled: the locks are taken.
\<close>

section \<open>The dimensions of the screen are constant\<close>

lemma dims_simple [simp]:
  "dims (move_cursor c r s) = dims s" "dims (set_scroll_region t b s) = dims s"
  by (simp_all add: dims_def move_cursor_def set_scroll_region_def Let_def)

lemma dims_view: "same_view s t \<Longrightarrow> dims t = dims s"
  by (simp add: same_view_def dims_def)

lemma dims_apply_sgr [simp]: "dims (apply_sgr ps s) = dims s"
  by (rule dims_view) (rule same_view_apply_sgr)

lemma dims_blank_cells [simp]: "dims (blank_cells r a b s) = dims s"
  unfolding blank_cells_def by (rule dims_on_grid [OF row_local_for [OF row_local_set]])

lemma dims_erase_in_line [simp]: "dims (erase_in_line mode s) = dims s"
  by (simp add: erase_in_line_def Let_def dims_on_grid [OF row_local_clear])

lemma dims_cursor_upd: "dims (s\<lparr>s_cursor_col := a, s_cursor_row := b\<rparr>) = dims s"
  by (simp add: dims_def)

lemma dims_erase_in_display [simp]: "dims (erase_in_display mode s) = dims s"
  by (simp add: erase_in_display_def Let_def dims_cursor_upd dims_for)

lemma dims_cursor_col: "dims (s\<lparr>s_cursor_col := a\<rparr>) = dims s"
  by (simp add: dims_def)

lemma dims_write_char [simp]: "dims (write_char cw ch s) = dims s"
  by (simp add: write_char_def wrap_line_def Let_def dims_cursor_col dims_on_grid [OF row_local_set])

lemma dims_switch [simp]: "dims (switch_to_alt s) = dims s" "dims (switch_to_primary s) = dims s"
  by (simp_all add: dims_def switch_to_alt_def switch_to_primary_def Let_def split: option.split)

lemma dims_execute [simp]: "dims (execute b s) = dims s"
  by (simp add: execute_def cursor_def Let_def dims_view [OF view_setters(2)])

lemma dims_fold: "(\<And>x t. dims (f x t) = dims t) \<Longrightarrow> dims (fold f xs s) = dims s"
  by (rule fold_inv) simp_all

lemma dims_set_private_mode [simp]: "dims (set_private_mode e mode s) = dims s"
proof -
  have "dims (s\<lparr>s_mouse_mode := n\<rparr>) = dims s" for n by (simp add: dims_def)
  then show ?thesis
    by (simp add: set_private_mode_def dims_view [OF view_osc(4)] dims_view [OF view_osc(5)])
qed

lemma dims_csi_dispatch [simp]: "dims (csi_dispatch ps ims a s) = dims s"
proof -
  have v: "same_view s (csi_keyboard ps ims s)" "same_view s (csi_device_attributes ims s)"
    "same_view s (csi_status n ims s)" for n
    by (simp_all add: csi_keyboard_def csi_device_attributes_def csi_status_def view_simps
        split: list.split)
  show ?thesis
    by (simp add: csi_dispatch_def Let_def cursor_def dec_private_mode_def dims_fold v [THEN dims_view])
qed

lemma dims_set_hyperlink: "set_hyperlink w u s = Some t \<Longrightarrow> dims t = dims s"
proof -
  have "dims (close_hyperlink s) = dims s"
    by (simp add: close_hyperlink_def Let_def dims_def split: option.split)
  moreover have "pred_option (same_view (close_hyperlink s)) (set_hyperlink w u s)"
    by (simp add: set_hyperlink_def Let_def option.pred_map comp_def split: option.split)
      (auto simp: pred_option_def split: option.split)
  ultimately show "set_hyperlink w u s = Some t \<Longrightarrow> dims t = dims s"
    using dims_view by fastforce
qed

lemma dims_osc_code:
  assumes "osc_code h code ps bell s = Some t"
  shows "dims t = dims s"
proof (cases "code = lit ''8''")
  case True
  then have "osc_hyperlink (h_warn h) ps s = Some t"
    using assms by (simp add: osc_code_def) (simp add: lit_def)
  then show ?thesis by (auto simp: osc_hyperlink_def Let_def intro: dims_set_hyperlink)
next
  case False
  with view_osc_code [OF assms] show ?thesis by (blast intro: dims_view)
qed

lemma dims_perform: "perform h e s = Some t \<Longrightarrow> dims t = dims s"
  by (cases "(h, e, s)" rule: perform.cases)
    (auto simp: osc_dispatch_def hook_def dims_view view_simps
      split: list.splits option.splits if_splits intro: dims_osc_code)

text \<open>The grid invariant together with the dimensions, as one contract.\<close>

definition tracked :: "nat \<times> nat \<Rightarrow> cell list list \<Rightarrow> screen \<Rightarrow> bool" where
  "tracked wh m s \<longleftrightarrow> good m s \<and> dims s = wh"

interpretation tracked_side: event_consumer "perform h" "tracked wh m" for h wh m
  by unfold_locales (auto simp: tracked_def dims_perform intro: good_perform)

lemma tracked_kitty: "tracked wh m s \<Longrightarrow> tracked wh m (handle_kitty_apc d s)"
  by (simp add: tracked_def good_kitty dims_view [OF view_handle_kitty_apc])

lemma advance_tracked:
  assumes "advance vte h bs p = Some q" "parser_ok (tracked wh m) p"
  shows "parser_ok (tracked wh m) q"
  by (rule advance_inv [OF tracked_side.event_consumer_axioms tracked_kitty assms])

section \<open>One burst of the reader\<close>

record pane_mirror =
  pm_latest_grid :: grid
  pm_latest_scrollback :: "cell list list"

definition mirror_new :: "nat \<Rightarrow> nat \<Rightarrow> pane_mirror" where
  "mirror_new cols rows = \<lparr>pm_latest_grid = grid_new cols rows, pm_latest_scrollback = []\<rparr>"

text \<open>The scrollback after some lines scrolled off, capped from the front.\<close>

definition push_scrollback :: "nat \<Rightarrow> cell list list \<Rightarrow> cell list list \<Rightarrow> cell list list" where
  "push_scrollback limit scrolled sb =
     (if scrolled = [] then sb
      else if limit = 0 then []
      else drop (length (sb @ scrolled) - limit) (sb @ scrolled))"

record grid_diff =
  gd_dirty_rows :: "dirty_row list"
  gd_cursor_col :: nat
  gd_cursor_row :: nat

definition reader_burst ::
  "nat \<Rightarrow> pane_mirror \<Rightarrow> screen \<Rightarrow> (pane_mirror \<times> grid_diff option \<times> screen) option" where
  "reader_burst limit pm s0 =
     (case take_dirty_rows s0 of
        None \<Rightarrow> None
      | Some (dirty, s1) \<Rightarrow>
          (if dirty = [] then Some (pm, None, s1)
           else let (cursor_col, cursor_row) = cursor s1;
                    g = (fold apply_dirty_row dirty (pm_latest_grid pm))
                      \<lparr>g_cursor_col := cursor_col, g_cursor_row := cursor_row,
                       g_hyperlinks := g_hyperlinks (s_grid s1)\<rparr>;
                    (scrolled, s2) = take_scrolled_off_lines s1 in
             Some (pm\<lparr>pm_latest_grid := g,
                      pm_latest_scrollback := push_scrollback limit scrolled (pm_latest_scrollback pm)\<rparr>,
                   Some \<lparr>gd_dirty_rows = dirty, gd_cursor_col = cursor_col, gd_cursor_row = cursor_row\<rparr>,
                   s2)))"

text \<open>What holds in every reachable state.\<close>

definition in_sync :: "nat \<times> nat \<Rightarrow> 'p vt_parser \<Rightarrow> pane_mirror \<Rightarrow> bool" where
  "in_sync wh p pm \<longleftrightarrow>
     parser_ok (tracked wh (g_rows (pm_latest_grid pm))) p
     \<and> rows_shape (fst wh) (snd wh) (g_rows (pm_latest_grid pm))"

lemma tracked_shape:
  assumes "tracked wh m s"
  shows "rows_shape (fst wh) (snd wh) (g_rows (s_grid s))" "length (s_dirty s) = snd wh"
  using assms by (auto simp: tracked_def good_def geometry_ok_def grid_wf_def dims_def)

lemma lget_ext:
  assumes "\<And>i. lget xs i = lget ys i"
  shows "xs = ys"
proof (rule nth_equalityI)
  show len: "length xs = length ys"
    using assms [of "length xs"] assms [of "length ys"] by (auto simp: lget_def split: if_splits)
  show "xs ! i = ys ! i" if "i < length xs" for i
    using assms [of i] that len by simp
qed

text \<open>Taking the dirty rows and applying them to the mirror makes the mirror exact.\<close>

lemma apply_taken_rows:
  assumes t: "tracked wh (g_rows g) s" and sh: "rows_shape (fst wh) (snd wh) (g_rows g)"
    and d: "take_dirty_rows s = Some (dirty, s1)" "\<not> s_synchronized_output s"
  shows "g_rows (fold apply_dirty_row dirty g) = g_rows (s_grid s)"
    and "s1 = s\<lparr>s_dirty := map (\<lambda>_. False) (s_dirty s)\<rparr>"
proof -
  have geo: "geometry_ok s" and tr: "tracks (g_rows g) s"
    using t by (simp_all add: tracked_def good_def)
  let ?js = "filter (\<lambda>j. s_dirty s ! j) [0..<length (s_dirty s)]"
  have eq: "dirty = map (\<lambda>j. \<lparr>dr_row = j, dr_cells = g_rows (s_grid s) ! j\<rparr>) ?js"
    and "s1 = s\<lparr>s_dirty := map (\<lambda>_. False) (s_dirty s)\<rparr>"
    using d(1) take_dirty_rows_Some [OF geo d(2)] by simp_all
  then show "s1 = s\<lparr>s_dirty := map (\<lambda>_. False) (s_dirty s)\<rparr>" by simp
  note s_sh = tracked_shape [OF t]
  have h: "g_height (s_grid s) = snd wh" using t by (auto simp: tracked_def dims_def)
  have "lget (g_rows (fold apply_dirty_row dirty g)) i = lget (g_rows (s_grid s)) i" for i
  proof -
    have rows: "j < snd wh \<and> length (g_rows (s_grid s) ! j) = fst wh" if "j \<in> set ?js" for j
      using that s_sh rows_shape_nth [OF s_sh(1), of j] by simp
    have get: "lget (g_rows (fold apply_dirty_row dirty g)) i =
        (if i \<in> set ?js then Some (g_rows (s_grid s) ! i) else lget (g_rows g) i)"
      unfolding eq by (rule lget_apply_rows [OF sh]) (rule rows)
    have len: "length (g_rows g) = snd wh" "length (g_rows (s_grid s)) = snd wh"
      using rows_shape_len [OF sh] rows_shape_len [OF s_sh(1)] .
    show ?thesis
    proof (cases "i < snd wh")
      case True
      then have "i \<in> set ?js \<longleftrightarrow> s_dirty s ! i" by (simp add: s_sh(2))
      with True tr h len show ?thesis unfolding get by (simp add: tracks_def)
    next
      case False
      then have "i \<notin> set ?js" by (simp add: s_sh(2))
      with False len show ?thesis unfolding get by simp
    qed
  qed
  then show "g_rows (fold apply_dirty_row dirty g) = g_rows (s_grid s)" by (rule lget_ext)
qed

lemma take_dirty_sync: "s_synchronized_output s \<Longrightarrow> take_dirty_rows s = Some ([], s)"
  by (simp add: take_dirty_rows_def)

lemma tracked_scrollback: "tracked wh m (s\<lparr>s_pending_scrollback := x\<rparr>) = tracked wh m s"
  by (simp add: tracked_def good_def geometry_ok_def tracks_def dims_def)

lemma tracked_clean:
  assumes "tracked wh m s"
  shows "tracked wh (g_rows (s_grid s)) (s\<lparr>s_dirty := map (\<lambda>_. False) (s_dirty s)\<rparr>)"
  using assms by (simp add: tracked_def good_def geometry_ok_def tracks_def dims_def)

lemma reader_burst_exact:
  assumes t: "tracked wh (g_rows (pm_latest_grid pm)) s"
    and sh: "rows_shape (fst wh) (snd wh) (g_rows (pm_latest_grid pm))"
    and b: "reader_burst limit pm s = Some (pm', diff, s')" and sync: "\<not> s_synchronized_output s"
  shows "g_rows (pm_latest_grid pm') = g_rows (s_grid s)" "s_grid s' = s_grid s"
    "tracked wh (g_rows (s_grid s)) s'"
proof -
  obtain dirty s1 where d: "take_dirty_rows s = Some (dirty, s1)"
    using b by (auto simp: reader_burst_def split: option.splits)
  note taken = apply_taken_rows [OF t sh d sync]
  show "g_rows (pm_latest_grid pm') = g_rows (s_grid s)" "s_grid s' = s_grid s"
    "tracked wh (g_rows (s_grid s)) s'"
    using b taken tracked_clean [OF t]
    by (auto simp: reader_burst_def d Let_def take_scrolled_off_lines_def cursor_def
        tracked_scrollback split: if_splits)
qed

lemma reader_burst_held:
  "reader_burst limit pm s = Some (pm', diff, s') \<Longrightarrow> s_synchronized_output s \<Longrightarrow>
     pm' = pm \<and> diff = None \<and> s' = s"
  by (auto simp: reader_burst_def take_dirty_sync)

text \<open>A burst never panics in a reachable state.\<close>

lemma reader_burst_total:
  assumes "tracked wh m s"
  shows "\<exists>r. reader_burst limit pm s = Some r"
proof (cases "s_synchronized_output s")
  case True
  then show ?thesis by (simp add: reader_burst_def take_dirty_sync)
next
  case False
  have "geometry_ok s" using assms by (simp add: tracked_def good_def)
  from take_dirty_rows_Some [OF this False] show ?thesis
    by (simp add: reader_burst_def Let_def split: prod.split)
qed

lemma push_scrollback_len: "length sb \<le> limit \<Longrightarrow> length (push_scrollback limit xs sb) \<le> limit"
proof -
  have "n - (n - limit) \<le> limit" for n :: nat by simp
  then show "length sb \<le> limit \<Longrightarrow> ?thesis"
    unfolding push_scrollback_def by (simp only: length_drop split: if_split) simp
qed

text \<open>The scrollback is the most recent lines, in order.\<close>

lemma push_scrollback_suffix: "\<exists>old. old @ push_scrollback limit xs sb = sb @ xs"
proof (cases "xs = [] \<or> limit = 0")
  case True
  then show ?thesis by (auto simp: push_scrollback_def)
next
  case False
  then have "push_scrollback limit xs sb = drop (length (sb @ xs) - limit) (sb @ xs)"
    by (simp add: push_scrollback_def)
  then show ?thesis using append_take_drop_id [of _ "sb @ xs"] by (simp only:) blast
qed

end
