(* ===== verification/Screen_Spec.thy ===== *)
theory Screen_Spec
  imports Screen_Inv
begin

text \<open>
  What the operations on the visible grid do to each cell: scrolling, erasing, writing and
  the alternate screen.  \<open>cell_at\<close> reads one cell, \<open>None\<close> outside the grid.
\<close>

definition cell_at :: "screen \<Rightarrow> nat \<Rightarrow> nat \<Rightarrow> cell option" where
  "cell_at s x y = grid_get (s_grid s) x y"

lemma cell_at_inside:
  "geometry_ok s \<Longrightarrow> cell_at s x y = None \<longleftrightarrow> \<not> (x < g_width (s_grid s) \<and> y < g_height (s_grid s))"
  by (simp add: cell_at_def grid_get_None_iff grid_wf_inside geometry_ok_def)

lemma cell_at_mark_dirty [simp]: "cell_at (mark_dirty r s) x y = cell_at s x y"
  by (simp add: cell_at_def)

lemma cell_at_on_grid [simp]: "cell_at (on_grid f s) x y = grid_get (f (s_grid s)) x y"
  by (simp add: cell_at_def)

lemma cell_at_clear_and_mark:
  "cell_at (clear_and_mark r s) x y =
     (if y = r then map_option (\<lambda>_. default_cell) (cell_at s x y) else cell_at s x y)"
  by (simp add: clear_and_mark_def grid_get_clear_row cell_at_def)

section \<open>Scrolling\<close>

text \<open>Copying each row of a range from the row below it shifts the range up by one.\<close>

definition shift_row :: "nat \<Rightarrow> screen \<Rightarrow> screen" where
  "shift_row r s = mark_dirty r (on_grid (grid_copy_row r (r + 1)) s)"

lemma cell_at_shift_row:
  "r + 1 < length (g_rows (s_grid s)) \<Longrightarrow>
   cell_at (shift_row r s) x y = cell_at s x (if y = r then r + 1 else y)"
  by (simp add: shift_row_def grid_get_copy_row cell_at_def)

lemma shift_rows:
  assumes "b < length (g_rows (s_grid s))"
  shows "length (g_rows (s_grid (for_range a b shift_row s))) = length (g_rows (s_grid s))"
    and "cell_at (for_range a b shift_row s) x y = cell_at s x (if a \<le> y \<and> y < b then y + 1 else y)"
proof -
  show len: "length (g_rows (s_grid (for_range a b shift_row s))) = length (g_rows (s_grid s))" for b
    by (rule for_range_frame) (simp add: shift_row_def grid_simps)
  show "cell_at (for_range a b shift_row s) x y = cell_at s x (if a \<le> y \<and> y < b then y + 1 else y)"
    using assms
  proof (induction b arbitrary: y)
    case (Suc b)
    show ?case
    proof (cases "a \<le> b")
      case True
      have "cell_at (shift_row b (for_range a b shift_row s)) x y =
          cell_at (for_range a b shift_row s) x (if y = b then b + 1 else y)"
        using Suc.prems len [of b] by (intro cell_at_shift_row) simp
      also have "\<dots> = cell_at s x (if a \<le> y \<and> y < Suc b then y + 1 else y)"
        using Suc.IH [of "if y = b then b + 1 else y"] Suc.prems True by (auto simp: less_Suc_eq)
      finally show ?thesis using True by (simp only: for_range_Suc)
    qed (use Suc.prems in auto)
  qed simp
qed

lemma scroll_up_eq:
  "scroll_up s = clear_and_mark (s_scroll_bottom s) (for_range (s_scroll_top s) (s_scroll_bottom s) shift_row
     (if \<not> s_alt_mode s \<and> s_scroll_top s = 0 then
        (case lget (g_rows (s_grid s)) 0 of None \<Rightarrow> s
         | Some row \<Rightarrow> s\<lparr>s_pending_scrollback := s_pending_scrollback s @ [row]\<rparr>) else s))"
  by (simp add: scroll_up_def Let_def shift_row_def [abs_def])

lemma scroll_bottom_inside:
  assumes "geometry_ok s" "0 < g_height (s_grid s)"
  shows "s_scroll_bottom s < length (g_rows (s_grid s))" "g_rows (s_grid s) \<noteq> []"
proof -
  have "s_scroll_bottom s \<le> g_height (s_grid s) - 1" "length (g_rows (s_grid s)) = g_height (s_grid s)"
    using assms(1) by (simp_all add: geometry_ok_def grid_wf_def rows_shape_def)
  then show "s_scroll_bottom s < length (g_rows (s_grid s))" "g_rows (s_grid s) \<noteq> []"
    using assms(2) by auto
qed

lemma scroll_up_cell:
  assumes "geometry_ok s" "0 < g_height (s_grid s)"
  shows "cell_at (scroll_up s) x y =
    (if y = s_scroll_bottom s then map_option (\<lambda>_. default_cell) (cell_at s x y)
     else if s_scroll_top s \<le> y \<and> y < s_scroll_bottom s then cell_at s x (y + 1)
     else cell_at s x y)"
proof -
  let ?s1 = "if \<not> s_alt_mode s \<and> s_scroll_top s = 0 then
      (case lget (g_rows (s_grid s)) 0 of None \<Rightarrow> s
       | Some row \<Rightarrow> s\<lparr>s_pending_scrollback := s_pending_scrollback s @ [row]\<rparr>) else s"
  have s1: "s_grid ?s1 = s_grid s" by (simp split: option.split)
  then have at: "cell_at ?s1 x y = cell_at s x y" for x y by (simp only: cell_at_def)
  have h: "cell_at (for_range (s_scroll_top s) (s_scroll_bottom s) shift_row ?s1) x y =
      cell_at s x (if s_scroll_top s \<le> y \<and> y < s_scroll_bottom s then y + 1 else y)"
    unfolding at [symmetric]
    by (rule shift_rows(2)) (simp only: s1 scroll_bottom_inside [OF assms])
  show ?thesis unfolding scroll_up_eq cell_at_clear_and_mark h by simp
qed

text \<open>The line that leaves the screen is kept exactly when the region starts at the top.\<close>

lemma scroll_up_scrollback:
  assumes "geometry_ok s" "0 < g_height (s_grid s)"
  shows "s_pending_scrollback (scroll_up s) =
    s_pending_scrollback s @ (if \<not> s_alt_mode s \<and> s_scroll_top s = 0 then [hd (g_rows (s_grid s))] else [])"
proof -
  have frame: "s_pending_scrollback (for_range a b shift_row t) = s_pending_scrollback t" for a b t
    by (rule for_range_frame) (simp add: shift_row_def mark_dirty_def on_grid_def)
  have "lget (g_rows (s_grid s)) 0 = Some (hd (g_rows (s_grid s)))"
    using scroll_bottom_inside [OF assms] by (simp add: lget_def hd_conv_nth)
  moreover have "s_pending_scrollback (clear_and_mark r t) = s_pending_scrollback t" for r t
    by (simp add: clear_and_mark_def mark_dirty_def on_grid_def)
  ultimately show ?thesis by (simp add: scroll_up_eq frame)
qed

section \<open>Erasing\<close>

lemma blank_cells_cell:
  "cell_at (blank_cells row a b s) x y =
     (if y = row \<and> a \<le> x \<and> x < b \<and> cell_at s x y \<noteq> None then Some default_cell else cell_at s x y)"
  by (auto simp: blank_cells_def cell_at_def grid_store.get_fill grid_get_None_iff)

text \<open>The part of a line an erase blanks.\<close>

definition line_erased :: "nat \<Rightarrow> nat \<Rightarrow> nat \<Rightarrow> bool" where
  "line_erased mode cursor_col x \<longleftrightarrow>
     mode = 0 \<and> cursor_col \<le> x \<or> mode = 1 \<and> x \<le> cursor_col \<or> mode = 2"

definition display_erased :: "nat \<Rightarrow> nat \<times> nat \<Rightarrow> nat \<Rightarrow> nat \<Rightarrow> bool" where
  "display_erased mode cur x y \<longleftrightarrow>
     mode = 0 \<and> (snd cur < y \<or> y = snd cur \<and> fst cur \<le> x)
     \<or> mode = 1 \<and> (y < snd cur \<or> y = snd cur \<and> x \<le> fst cur)
     \<or> mode = 2 \<or> mode = 3"

definition blank_where :: "(nat \<Rightarrow> nat \<Rightarrow> bool) \<Rightarrow> screen \<Rightarrow> nat \<Rightarrow> nat \<Rightarrow> cell option" where
  "blank_where P s x y = (if P x y then map_option (\<lambda>_. default_cell) (cell_at s x y) else cell_at s x y)"

lemma map_blank: "map_option (\<lambda>_. d) z = (if z = None then None else Some d)"
  by (cases z) simp_all

lemma erase_in_line_cell:
  assumes "geometry_ok s"
  shows "cell_at (erase_in_line mode s) x y =
    blank_where (\<lambda>x y. y = s_cursor_row s \<and> line_erased mode (s_cursor_col s) x) s x y"
proof -
  have "cell_at s x y = None" if "\<not> x < g_width (s_grid s)" using cell_at_inside [OF assms] that by simp
  then show ?thesis
    by (auto simp: erase_in_line_def Let_def blank_cells_cell blank_where_def line_erased_def
        grid_get_clear_row map_blank)
      (auto simp: cell_at_def)
qed

lemma clear_rows_cell:
  "cell_at (for_range a b clear_and_mark s) x y =
     (if a \<le> y \<and> y < b then map_option (\<lambda>_. default_cell) (cell_at s x y) else cell_at s x y)"
proof (induction b)
  case (Suc b)
  then show ?case by (cases "a \<le> b") (auto simp: for_range_Suc cell_at_clear_and_mark map_blank less_Suc_eq)
qed simp

lemma cell_at_cursor: "cell_at (s\<lparr>s_cursor_col := a, s_cursor_row := b\<rparr>) x y = cell_at s x y"
  by (simp add: cell_at_def)

lemma cursor_clear_rows:
  "s_cursor_col (for_range a b clear_and_mark s) = s_cursor_col s"
  "s_cursor_row (for_range a b clear_and_mark s) = s_cursor_row s"
  by (rule for_range_frame, simp add: clear_and_mark_def)+

lemma geometry_clear_rows: "geometry_ok s \<Longrightarrow> geometry_ok (for_range a b clear_and_mark s)"
  by (erule for_range_inv) (simp add: clear_and_mark_def geometry_on_grid [OF row_local_clear])

lemma erase_in_display_cell:
  assumes "geometry_ok s"
  shows "cell_at (erase_in_display mode s) x y =
    blank_where (display_erased mode (s_cursor_col s, s_cursor_row s)) s x y"
proof -
  have out: "cell_at s x y = None" if "\<not> y < g_height (s_grid s)" using cell_at_inside [OF assms] that by simp
  consider "mode = 0" | "mode = 1" | "mode = 2 \<or> mode = 3" | "3 < mode" by linarith
  then show ?thesis
  proof cases
    case 1
    then show ?thesis using out
      by (auto simp: erase_in_display_def Let_def clear_rows_cell erase_in_line_cell [OF assms]
          blank_where_def display_erased_def line_erased_def map_blank)
  next
    case 2
    then show ?thesis
      by (auto simp: erase_in_display_def Let_def clear_rows_cell cursor_clear_rows
          erase_in_line_cell [OF geometry_clear_rows [OF assms]]
          blank_where_def display_erased_def line_erased_def map_blank)
  next
    case 3
    then show ?thesis using out
      by (auto simp: erase_in_display_def Let_def clear_rows_cell cell_at_cursor
          blank_where_def display_erased_def map_blank)
  next
    case 4
    then show ?thesis by (simp add: erase_in_display_def Let_def blank_where_def display_erased_def)
  qed
qed

section \<open>Writing\<close>

text \<open>
  A character is written at \<open>write_pos\<close>, where the cursor is after any wrapping; a
  double-width character also blanks the cell to its right.
\<close>

definition is_wide :: "char_width \<Rightarrow> uchar \<Rightarrow> bool" where
  "is_wide cw ch \<longleftrightarrow> wrap16 (case cw ch of None \<Rightarrow> 1 | Some n \<Rightarrow> n) = 2"

lemma good_self: "geometry_ok s \<Longrightarrow> good (g_rows (s_grid s)) s"
  by (simp add: good_def tracks_def)

lemma pen_frame:
  "pen_cell (mark_dirty r s) = pen_cell s" "pen_cell (on_grid f s) = pen_cell s"
  "pen_cell (s\<lparr>s_cursor_col := n\<rparr>) = pen_cell s"
  by (simp_all add: pen_cell_def mark_dirty_def on_grid_def fun_eq_iff)

lemma pen_scroll_up: "pen_cell (scroll_up s) = pen_cell s"
proof -
  have "pen_cell (for_range a b shift_row t) = pen_cell t" for a b t
    by (rule for_range_frame) (simp add: shift_row_def pen_frame)
  then show ?thesis
    by (simp add: scroll_up_eq clear_and_mark_def pen_frame split: option.split)
      (simp add: pen_cell_def fun_eq_iff)
qed

lemma pen_write_pos: "pen_cell (write_pos cw ch s) = pen_cell s"
proof -
  have "pen_cell (wrap_line s) = pen_cell s" for s
    by (simp add: wrap_line_def advance_line_def pen_scroll_up pen_frame)
      (simp add: pen_cell_def fun_eq_iff)
  then show ?thesis by (simp add: write_pos_def Let_def)
qed

lemma write_char_cell:
  assumes "geometry_ok s" "0 < g_width (s_grid s)" "0 < g_height (s_grid s)"
  shows "cell_at (write_char cw ch s) x y =
    (if y = s_cursor_row (write_pos cw ch s) \<and> x = s_cursor_col (write_pos cw ch s)
     then Some (pen_cell s ch)
     else if is_wide cw ch \<and> y = s_cursor_row (write_pos cw ch s)
       \<and> x = s_cursor_col (write_pos cw ch s) + 1 \<and> x < g_width (s_grid s)
     then Some (pen_cell s 32) else cell_at (write_pos cw ch s) x y)"
proof -
  let ?t = "write_pos cw ch s"
  note facts = write_pos_facts [OF good_self [OF assms(1)], of cw ch]
  have dims: "g_width (s_grid ?t) = g_width (s_grid s)" "g_height (s_grid ?t) = g_height (s_grid s)"
    using facts(2) by (simp_all add: dims_def)
  have geo: "geometry_ok ?t" using facts(1) by (rule good_geometry)
  have wf: "grid_wf (s_grid ?t)" using geo by (simp add: geometry_ok_def)
  have col: "s_cursor_col ?t < g_width (s_grid s)" using facts(3) assms(2) by simp
  have "s_cursor_row ?t \<le> g_height (s_grid ?t) - 1" using geo by (simp add: geometry_ok_def)
  then have row: "s_cursor_row ?t < g_height (s_grid s)" using assms(3) by (simp add: dims)
  have "g_width (s_grid s) \<le> 65535" using geometry_bounds [OF assms(1)] by simp
  then have step: "wrap16 (Suc (s_cursor_col ?t)) = Suc (s_cursor_col ?t)" using col by simp
  have inside: "grid_inside (s_grid ?t) c (s_cursor_row ?t) \<longleftrightarrow> c < g_width (s_grid s)" for c
    using row by (simp add: grid_wf_inside [OF wf] dims)
  have set: "grid_get (grid_set c (s_cursor_row ?t) v g) x' y' =
      (if x' = c \<and> y' = s_cursor_row ?t then Some v else grid_get g x' y')"
    if "grid_inside g c (s_cursor_row ?t)" for g c v x' y'
    using that grid_get_set_same grid_get_set_other [of c "s_cursor_row ?t" x' y'] by auto
  show ?thesis
    using col by (auto simp: write_char_eq Let_def is_wide_def [symmetric] step dims pen_frame
        pen_write_pos set inside cell_at_def grid_simps)
qed

section \<open>The alternate screen\<close>

text \<open>
  Whatever was done on the alternate screen, leaving it brings back the rows and the
  cursor of the primary screen, as long as the saved buffer was not resized.
\<close>

lemma alt_round_trip:
  assumes "\<not> s_alt_mode s" "s_alt_mode t" "s_alt_screen t = s_alt_screen (switch_to_alt s)"
  shows "g_rows (s_grid (switch_to_primary t)) = g_rows (s_grid s)
    \<and> s_cursor_col (switch_to_primary t) = s_cursor_col s
    \<and> s_cursor_row (switch_to_primary t) = s_cursor_row s
    \<and> \<not> s_alt_mode (switch_to_primary t) \<and> s_alt_screen (switch_to_primary t) = None"
  using assms by (simp add: switch_to_alt_def switch_to_primary_def Let_def)

end
