(* ===== verification/Alt_Screen.thy ===== *)
theory Alt_Screen
  imports Pane_Mirror Screen_Spec
begin

text \<open>
  The saved primary screen while a program runs on the alternate screen: no callback but
  the DEC private modes 47, 1047 and 1049 touches it, so whatever the program does, leaving
  the alternate screen restores the rows and the cursor.
\<close>

definition alt_of :: "screen \<Rightarrow> bool \<times> screen_buffer option" where
  "alt_of s = (s_alt_mode s, s_alt_screen s)"

definition switch_modes :: "nat set" where
  "switch_modes = {47, 1047, 1049}"

text \<open>The callbacks that enter or leave the alternate screen.\<close>

fun switches :: "vt_event \<Rightarrow> bool" where
  "switches (CsiDispatch params ims action) \<longleftrightarrow>
     (case ims of i # _ \<Rightarrow> i = 63 | [] \<Rightarrow> False)
     \<and> (action = of_char CHR ''h'' \<or> action = of_char CHR ''l'')
     \<and> list_ex (\<lambda>p. sub_first p \<in> switch_modes) params"
| "switches _ \<longleftrightarrow> False"

lemma alt_view: "same_view s t \<Longrightarrow> alt_of t = alt_of s"
  by (simp add: same_view_def alt_of_def)

lemma alt_simple [simp]:
  "alt_of (mark_dirty r s) = alt_of s" "alt_of (on_grid f s) = alt_of s"
  "alt_of (move_cursor c r s) = alt_of s" "alt_of (set_scroll_region t b s) = alt_of s"
  "alt_of (s\<lparr>s_cursor_col := a\<rparr>) = alt_of s" "alt_of (s\<lparr>s_cursor_row := b\<rparr>) = alt_of s"
  "alt_of (s\<lparr>s_mouse_mode := n\<rparr>) = alt_of s" "alt_of (s\<lparr>s_pending_scrollback := x\<rparr>) = alt_of s"
  by (simp_all add: alt_of_def move_cursor_def set_scroll_region_def Let_def)

lemma alt_for: "(\<And>i s. alt_of (f i s) = alt_of s) \<Longrightarrow> alt_of (for_range a b f s) = alt_of s"
  by (rule for_range_frame)

lemma alt_grid_ops [simp]:
  "alt_of (clear_and_mark r s) = alt_of s" "alt_of (shift_row r s) = alt_of s"
  "alt_of (blank_cells r a b s) = alt_of s"
  by (simp_all add: clear_and_mark_def shift_row_def blank_cells_def)

lemma alt_scroll_up [simp]: "alt_of (scroll_up s) = alt_of s"
  by (simp add: scroll_up_eq alt_for split: option.split)

lemma alt_write_char [simp]: "alt_of (write_char cw ch s) = alt_of s"
  by (simp add: write_char_def wrap_line_def advance_line_def Let_def)

lemma alt_erase [simp]:
  "alt_of (erase_in_line mode s) = alt_of s" "alt_of (erase_in_display mode s) = alt_of s"
  by (simp_all add: erase_in_line_def erase_in_display_def Let_def alt_for)

lemma alt_apply_sgr [simp]: "alt_of (apply_sgr ps s) = alt_of s"
  by (rule alt_view) (rule same_view_apply_sgr)

lemma alt_execute: "alt_of (execute b s) = alt_of s"
  by (simp add: execute_def cursor_def advance_line_def Let_def alt_view [OF view_setters(2)])

lemma alt_set_private_mode:
  "mode \<notin> switch_modes \<Longrightarrow> alt_of (set_private_mode e mode s) = alt_of s"
  by (simp add: set_private_mode_def switch_modes_def alt_view [OF view_osc(4)] alt_view [OF view_osc(5)])

lemma alt_dec_private_mode:
  assumes "\<not> list_ex (\<lambda>p. sub_first p \<in> switch_modes) params"
  shows "alt_of (dec_private_mode params e s) = alt_of s"
proof -
  have "\<forall>p \<in> set ps. sub_first p \<notin> switch_modes \<Longrightarrow>
      alt_of (fold (\<lambda>p. set_private_mode e (sub_first p)) ps s) = alt_of s" for ps
    by (induction ps arbitrary: s) (simp_all add: alt_set_private_mode)
  then show ?thesis using assms by (simp add: dec_private_mode_def list_ex_iff)
qed

lemma alt_csi_dispatch:
  assumes "\<not> switches (CsiDispatch params ims action)"
  shows "alt_of (csi_dispatch params ims action s) = alt_of s"
proof -
  have v: "same_view s (csi_keyboard params ims s)" "same_view s (csi_device_attributes ims s)"
    "same_view s (csi_status n ims s)" for n
    by (simp_all add: csi_keyboard_def csi_device_attributes_def csi_status_def view_simps
        split: list.split)
  show ?thesis
    using assms by (auto simp: csi_dispatch_def Let_def cursor_def v [THEN alt_view] alt_dec_private_mode
        split: list.splits)
qed

lemma alt_set_hyperlink: "set_hyperlink w u s = Some t \<Longrightarrow> alt_of t = alt_of s"
proof -
  have "alt_of (close_hyperlink s) = alt_of s"
    by (simp add: close_hyperlink_def Let_def alt_of_def split: option.split)
  moreover have "pred_option (same_view (close_hyperlink s)) (set_hyperlink w u s)"
    by (simp add: set_hyperlink_def Let_def option.pred_map comp_def split: option.split)
      (auto simp: pred_option_def split: option.split)
  ultimately show "set_hyperlink w u s = Some t \<Longrightarrow> alt_of t = alt_of s"
    using alt_view by fastforce
qed

lemma alt_osc_code:
  assumes "osc_code h code ps bell s = Some t"
  shows "alt_of t = alt_of s"
proof (cases "code = lit ''8''")
  case True
  then have "osc_hyperlink (h_warn h) ps s = Some t"
    using assms by (simp add: osc_code_def) (simp add: lit_def)
  then show ?thesis by (auto simp: osc_hyperlink_def Let_def intro: alt_set_hyperlink)
next
  case False
  with view_osc_code [OF assms] show ?thesis by (blast intro: alt_view)
qed

lemma alt_perform:
  "perform h e s = Some t \<Longrightarrow> \<not> switches e \<Longrightarrow> alt_of t = alt_of s"
  by (cases "(h, e, s)" rule: perform.cases)
    (auto simp: osc_dispatch_def hook_def alt_view view_simps alt_execute alt_csi_dispatch
      split: list.splits option.splits if_splits intro: alt_osc_code simp del: switches.simps(1))

lemma alt_events:
  "foldM (perform h) es s = Some t \<Longrightarrow> list_all (\<lambda>e. \<not> switches e) es \<Longrightarrow> alt_of t = alt_of s"
  by (induction es arbitrary: s) (auto simp: Option.bind_eq_Some_conv alt_perform)

lemma alt_program:
  assumes "\<not> s_alt_mode s" "foldM (perform h) es (switch_to_alt s) = Some t"
    and "list_all (\<lambda>e. \<not> switches e) es"
  shows "g_rows (s_grid (switch_to_primary t)) = g_rows (s_grid s)
    \<and> s_cursor_col (switch_to_primary t) = s_cursor_col s
    \<and> s_cursor_row (switch_to_primary t) = s_cursor_row s
    \<and> \<not> s_alt_mode (switch_to_primary t) \<and> s_alt_screen (switch_to_primary t) = None"
  using alt_events [OF assms(2,3)] assms(1)
  by (intro alt_round_trip) (auto simp: alt_of_def switch_to_alt_def Let_def)

end
