(* ===== verification/F32.thy ===== *)
theory F32
  imports Prelude "HOL-Library.Log_Nat"
begin

text \<open>
  Rust's \<open>f32\<close> as far as the split ratios use it: IEEE binary32 values, rounding to
  nearest even, addition, subtraction, multiplication, \<open>clamp\<close>, \<open>round\<close> and the
  saturating cast to \<open>u16\<close>.  The sign of a zero result is not represented; none of the
  operations used here can observe it.
\<close>

datatype f32 = Fin rat | Inf bool | NaN

text \<open>\<open>Inf True\<close> is the positive infinity.\<close>

definition round_even :: "rat \<Rightarrow> int" where
  "round_even x =
     (let n = \<lfloor>x\<rfloor>; d = x - of_int n in
      if d < 1/2 then n else if d > 1/2 then n + 1 else if even n then n else n + 1)"

definition pow2 :: "int \<Rightarrow> rat" where
  "pow2 e = (if 0 \<le> e then 2 ^ nat e else 1 / 2 ^ nat (- e))"

text \<open>The exponent \<open>e\<close> with \<open>2 ^ e \<le> x < 2 ^ (e + 1)\<close> for a positive \<open>x\<close>.\<close>

definition exponent_of :: "rat \<Rightarrow> int" where
  "exponent_of x =
     (let (a, b) = quotient_of x;
          e = int (floorlog 2 (nat a)) - int (floorlog 2 (nat b)) in
      if pow2 e \<le> x then e else e - 1)"

definition round_pos :: "rat \<Rightarrow> f32" where
  "round_pos x =
     (let u = pow2 (max (exponent_of x - 23) (- 149)); y = of_int (round_even (x / u)) * u in
      if y \<ge> pow2 128 then Inf True else Fin y)"

definition neg32 :: "f32 \<Rightarrow> f32" where
  "neg32 x = (case x of Fin r \<Rightarrow> Fin (- r) | Inf b \<Rightarrow> Inf (\<not> b) | NaN \<Rightarrow> NaN)"

definition to_f32 :: "rat \<Rightarrow> f32" where
  "to_f32 x = (if x = 0 then Fin 0 else if x > 0 then round_pos x else neg32 (round_pos (- x)))"

definition add32 :: "f32 \<Rightarrow> f32 \<Rightarrow> f32" where
  "add32 x y =
     (case (x, y) of
        (Fin a, Fin b) \<Rightarrow> to_f32 (a + b)
      | (Inf a, Inf b) \<Rightarrow> if a = b then Inf a else NaN
      | (Inf a, Fin _) \<Rightarrow> Inf a
      | (Fin _, Inf b) \<Rightarrow> Inf b
      | _ \<Rightarrow> NaN)"

definition sub32 :: "f32 \<Rightarrow> f32 \<Rightarrow> f32" where
  "sub32 x y = add32 x (neg32 y)"

definition mul32 :: "f32 \<Rightarrow> f32 \<Rightarrow> f32" where
  "mul32 x y =
     (case (x, y) of
        (Fin a, Fin b) \<Rightarrow> to_f32 (a * b)
      | (Inf a, Inf b) \<Rightarrow> Inf (a = b)
      | (Inf a, Fin r) \<Rightarrow> if r = 0 then NaN else Inf (a = (r > 0))
      | (Fin r, Inf b) \<Rightarrow> if r = 0 then NaN else Inf (b = (r > 0))
      | _ \<Rightarrow> NaN)"

text \<open>\<open>round\<close>: half away from zero; a binary32 value rounds to one exactly.\<close>

definition round32 :: "f32 \<Rightarrow> f32" where
  "round32 x =
     (case x of
        Fin r \<Rightarrow> Fin (if r \<ge> 0 then of_int \<lfloor>r + 1/2\<rfloor> else - of_int \<lfloor>- r + 1/2\<rfloor>)
      | _ \<Rightarrow> x)"

text \<open>\<open>as u16\<close>: truncation, saturating; \<open>NaN\<close> becomes 0.\<close>

definition as_u16 :: "f32 \<Rightarrow> nat" where
  "as_u16 x =
     (case x of
        Fin r \<Rightarrow> if r \<le> 0 then 0 else min (nat \<lfloor>r\<rfloor>) u16_max
      | Inf b \<Rightarrow> if b then u16_max else 0
      | NaN \<Rightarrow> 0)"

definition u16_as_f32 :: "nat \<Rightarrow> f32" where
  "u16_as_f32 n = Fin (of_nat n)"

text \<open>\<open>clamp\<close> with finite bounds; a \<open>NaN\<close> stays.\<close>

definition clamp32 :: "rat \<Rightarrow> rat \<Rightarrow> f32 \<Rightarrow> f32" where
  "clamp32 lo hi x =
     (case x of
        Fin r \<Rightarrow> if r < lo then Fin lo else if r > hi then Fin hi else Fin r
      | Inf b \<Rightarrow> if b then Fin hi else Fin lo
      | NaN \<Rightarrow> NaN)"

text \<open>The constants 0.1, 0.5, 0.6, 0.7 and 0.9 as \<open>f32\<close> literals.\<close>

definition RATIO_MIN :: rat where "RATIO_MIN = 13421773 / 134217728"
definition RATIO_MAX :: rat where "RATIO_MAX = 15099494 / 16777216"
definition RATIO_HALF :: f32 where "RATIO_HALF = Fin (1 / 2)"
definition F0_6 :: f32 where "F0_6 = Fin (10066330 / 16777216)"
definition F0_7 :: f32 where "F0_7 = Fin (11744051 / 16777216)"

lemma as_u16_le: "as_u16 x \<le> u16_max"
  by (simp add: as_u16_def u16_max_def split: f32.split)

lemma clamp32_range:
  "lo \<le> hi \<Longrightarrow> x \<noteq> NaN \<Longrightarrow> \<exists>r. clamp32 lo hi x = Fin r \<and> lo \<le> r \<and> r \<le> hi"
  by (cases x) (auto simp: clamp32_def)

lemma clamp32_NaN: "clamp32 lo hi x = NaN \<longleftrightarrow> x = NaN"
  by (auto simp: clamp32_def split: f32.split)

lemma RATIO_bounds: "RATIO_MIN \<le> RATIO_MAX" "0 < RATIO_MIN" "RATIO_MAX < 1"
  by (simp_all add: RATIO_MIN_def RATIO_MAX_def)

end
