(* ===== verification/Bsp.thy ===== *)
theory Bsp
  imports F32 "HOL-Library.Multiset"
begin

text \<open>
  The split tree of a window (\<open>nexterm-server/src/window/bsp.rs\<close>).  A method that
  mutates \<open>self\<close> and returns a value is a function to the pair of both.
\<close>

datatype split_dir = Vertical | Horizontal

record pane_rect =
  pr_pane_id :: nat
  pr_col_off :: nat
  pr_row_off :: nat
  pr_cols :: nat
  pr_rows :: nat

datatype remove_result = RemoveSelf | Removed | NotFound

datatype split_node =
    Pane nat
  | Split split_dir f32 split_node split_node

datatype 'c snapshot_node =
    PaneSnapshot nat "'c option"
  | SplitSnapshot split_dir f32 "'c snapshot_node" "'c snapshot_node"

definition MIN_CHILD_EXTENT :: nat where
  "MIN_CHILD_EXTENT = 1"

definition split_extent :: "nat \<Rightarrow> f32 \<Rightarrow> nat \<times> nat \<times> nat" where
  "split_extent tot ratio =
     (let separator = (if tot = 0 then 0 else 1);
          available = tot - separator;
          first = (if available < 2 * MIN_CHILD_EXTENT then available
                   else clamp MIN_CHILD_EXTENT (available - MIN_CHILD_EXTENT)
                          (as_u16 (round32 (mul32 (u16_as_f32 tot) ratio))));
          second = available - first in
      (first, separator, second))"

fun insert_after :: "split_node \<Rightarrow> nat \<Rightarrow> nat \<Rightarrow> split_dir \<Rightarrow> bool \<times> split_node" where
  "insert_after (Pane p) target new dir =
     (if p = target then (True, Split dir RATIO_HALF (Pane p) (Pane new)) else (False, Pane p))"
| "insert_after (Split d r left right) target new dir =
     (case insert_after left target new dir of
        (True, left') \<Rightarrow> (True, Split d r left' right)
      | (False, left') \<Rightarrow>
          (case insert_after right target new dir of (b, right') \<Rightarrow> (b, Split d r left' right')))"

fun compute :: "split_node \<Rightarrow> nat \<Rightarrow> nat \<Rightarrow> nat \<Rightarrow> nat \<Rightarrow> pane_rect list" where
  "compute (Pane p) col_off row_off cols rows =
     [\<lparr>pr_pane_id = p, pr_col_off = col_off, pr_row_off = row_off, pr_cols = cols,
       pr_rows = rows\<rparr>]"
| "compute (Split Vertical r left right) col_off row_off cols rows =
     (case split_extent cols r of (left_cols, separator, right_cols) \<Rightarrow>
        compute left col_off row_off left_cols rows
        @ compute right (wrap16 (col_off + left_cols + separator)) row_off right_cols rows)"
| "compute (Split Horizontal r left right) col_off row_off cols rows =
     (case split_extent rows r of (top_rows, separator, bot_rows) \<Rightarrow>
        compute left col_off row_off cols top_rows
        @ compute right col_off (wrap16 (row_off + top_rows + separator)) cols bot_rows)"

fun sn_remove :: "split_node \<Rightarrow> nat \<Rightarrow> remove_result \<times> split_node" where
  "sn_remove (Pane p) target = (if p = target then RemoveSelf else NotFound, Pane p)"
| "sn_remove (Split d r left right) target =
     (case sn_remove left target of
        (RemoveSelf, _) \<Rightarrow> (Removed, right)
      | (Removed, left') \<Rightarrow> (Removed, Split d r left' right)
      | (NotFound, left') \<Rightarrow>
          (case sn_remove right target of
             (RemoveSelf, _) \<Rightarrow> (Removed, left')
           | (other, right') \<Rightarrow> (other, Split d r left' right')))"

fun contains :: "split_node \<Rightarrow> nat \<Rightarrow> bool" where
  "contains (Pane p) target = (p = target)"
| "contains (Split d r left right) target = (contains left target \<or> contains right target)"

fun adjust_ratio_for :: "split_node \<Rightarrow> nat \<Rightarrow> f32 \<Rightarrow> bool \<times> split_node" where
  "adjust_ratio_for (Pane p) target delta = (False, Pane p)"
| "adjust_ratio_for (Split d ratio left right) target delta =
     (let in_left = contains left target; in_right = contains right target in
      if \<not> in_left \<and> \<not> in_right then (False, Split d ratio left right)
      else if in_left then
        (case adjust_ratio_for left target delta of
           (True, left') \<Rightarrow> (True, Split d ratio left' right)
         | (False, left') \<Rightarrow>
             (True, Split d (clamp32 RATIO_MIN RATIO_MAX (add32 ratio delta)) left' right))
      else
        (case adjust_ratio_for right target delta of
           (True, right') \<Rightarrow> (True, Split d ratio left right')
         | (False, right') \<Rightarrow>
             (True, Split d (clamp32 RATIO_MIN RATIO_MAX (sub32 ratio delta)) left right')))"

fun swap_ids :: "split_node \<Rightarrow> nat \<Rightarrow> nat \<Rightarrow> bool \<times> split_node" where
  "swap_ids (Pane p) a b =
     (if p = a then (True, Pane b) else if p = b then (True, Pane a) else (False, Pane p))"
| "swap_ids (Split d r left right) a b =
     (case swap_ids left a b of (bl, left') \<Rightarrow>
        (case swap_ids right a b of (br, right') \<Rightarrow> (bl \<or> br, Split d r left' right')))"

fun first_pane_id :: "split_node \<Rightarrow> nat option" where
  "first_pane_id (Pane p) = Some p"
| "first_pane_id (Split d r left right) = first_pane_id left"

fun neighbor_id :: "split_node \<Rightarrow> nat \<Rightarrow> nat option" where
  "neighbor_id (Pane p) target = None"
| "neighbor_id (Split d r left right) target =
     (if contains left target then first_pane_id right
      else if contains right target then first_pane_id left
      else case neighbor_id left target of Some i \<Rightarrow> Some i | None \<Rightarrow> neighbor_id right target)"

fun to_snapshot :: "split_node \<Rightarrow> 'c snapshot_node" where
  "to_snapshot (Pane p) = PaneSnapshot p None"
| "to_snapshot (Split d r left right) = SplitSnapshot d r (to_snapshot left) (to_snapshot right)"

fun from_snapshot :: "'c snapshot_node \<Rightarrow> split_node" where
  "from_snapshot (PaneSnapshot p cwd) = Pane p"
| "from_snapshot (SplitSnapshot d r left right) =
     Split d r (from_snapshot left) (from_snapshot right)"

fun collect_pane_ids :: "'c snapshot_node \<Rightarrow> nat list" where
  "collect_pane_ids (PaneSnapshot p cwd) = [p]"
| "collect_pane_ids (SplitSnapshot d r left right) = collect_pane_ids left @ collect_pane_ids right"

fun first_duplicate :: "nat list \<Rightarrow> nat set \<Rightarrow> nat option" where
  "first_duplicate [] seen = None"
| "first_duplicate (i # is) seen =
     (if i \<in> seen then Some i else first_duplicate is (insert i seen))"

definition find_duplicate_pane_id :: "'c snapshot_node \<Rightarrow> nat option" where
  "find_duplicate_pane_id snap = first_duplicate (collect_pane_ids snap) {}"

section \<open>Splitting an extent\<close>

text \<open>The three parts add up exactly, whatever the ratio, and the children keep their minimum.\<close>

lemma split_extent_sum: "split_extent tot r = (a, s, b) \<Longrightarrow> a + s + b = tot"
proof -
  assume e: "split_extent tot r = (a, s, b)"
  let ?avail = "tot - (if tot = 0 then 0 else 1)"
  have "a \<le> ?avail" using e
    by (auto simp: split_extent_def Let_def MIN_CHILD_EXTENT_def clamp_def split: if_splits)
  then show ?thesis using e by (auto simp: split_extent_def Let_def split: if_splits)
qed

lemma split_extent_separator: "split_extent tot r = (a, s, b) \<Longrightarrow> s = (if tot = 0 then 0 else 1)"
  by (simp add: split_extent_def Let_def split: if_splits)

lemma split_extent_min:
  "split_extent tot r = (a, s, b) \<Longrightarrow> 3 \<le> tot \<Longrightarrow> 1 \<le> a \<and> 1 \<le> b"
  by (auto simp: split_extent_def Let_def MIN_CHILD_EXTENT_def clamp_def split: if_splits)

lemma split_extent_tiny: "split_extent tot r = (a, s, b) \<Longrightarrow> tot < 3 \<Longrightarrow> b = 0"
  by (auto simp: split_extent_def Let_def MIN_CHILD_EXTENT_def split: if_splits)

section \<open>The panes of a tree\<close>

fun leaves :: "split_node \<Rightarrow> nat list" where
  "leaves (Pane p) = [p]"
| "leaves (Split d r left right) = leaves left @ leaves right"

lemma leaves_not_Nil [simp]: "leaves t \<noteq> []"
  by (induction t) auto

lemma contains_leaves [bsp_simps]: "contains t i \<longleftrightarrow> i \<in> set (leaves t)"
  by (induction t) auto

text \<open>The new pane goes directly after the first leaf with the target's id.\<close>

fun insert_behind :: "nat \<Rightarrow> nat \<Rightarrow> nat list \<Rightarrow> nat list" where
  "insert_behind target new [] = []"
| "insert_behind target new (x # xs) =
     (if x = target then x # new # xs else x # insert_behind target new xs)"

lemma insert_behind_append:
  "insert_behind target new (xs @ ys) =
     (if target \<in> set xs then insert_behind target new xs @ ys else xs @ insert_behind target new ys)"
  by (induction xs) auto

lemma insert_after_found [bsp_simps]:
  "fst (insert_after t target new dir) \<longleftrightarrow> target \<in> set (leaves t)"
  by (induction t) (auto split: prod.split bool.split)

lemma insert_after_same: "target \<notin> set (leaves t) \<Longrightarrow> insert_after t target new dir = (False, t)"
  by (induction t) auto

lemma insert_after_leaves [bsp_simps]:
  "leaves (snd (insert_after t target new dir)) = insert_behind target new (leaves t)"
proof (induction t)
  case (Split d r left right)
  show ?case
  proof (cases "target \<in> set (leaves left)")
    case True
    then obtain left' where "insert_after left target new dir = (True, left')"
      using insert_after_found [of left target new dir] by (cases "insert_after left target new dir") auto
    then show ?thesis using Split.IH(1) True by (simp add: insert_behind_append)
  next
    case False
    then show ?thesis using Split.IH(2) insert_after_same [OF False, of new dir]
      by (cases "insert_after right target new dir") (simp add: insert_behind_append)
  qed
qed simp

lemma set_insert_behind: "target \<in> set xs \<Longrightarrow> set (insert_behind target new xs) = insert new (set xs)"
  by (induction xs) auto

lemma distinct_insert_behind:
  "distinct xs \<Longrightarrow> new \<notin> set xs \<Longrightarrow> distinct (insert_behind target new xs)"
proof (induction xs)
  case (Cons x xs)
  have "set (insert_behind target new xs) \<subseteq> insert new (set xs)" by (induction xs) auto
  with Cons show ?case by auto
qed simp

lemma insert_behind_absent: "target \<notin> set xs \<Longrightarrow> insert_behind target new xs = xs"
  by (induction xs) auto

text \<open>Removal takes out the first leaf with the id and keeps the order of the others.\<close>

lemma sn_remove_result [bsp_simps]:
  "fst (sn_remove t i) = RemoveSelf \<longleftrightarrow> t = Pane i"
  "fst (sn_remove t i) = NotFound \<longleftrightarrow> i \<notin> set (leaves t)"
proof (induction t)
  case (Split d r left right)
  { case 1 show ?case by (auto split: prod.split remove_result.split) }
  { case 2
    show ?case using Split
      by (cases "sn_remove left i"; cases "sn_remove right i")
        (auto split: prod.split remove_result.split) }
qed auto

lemma sn_remove_leaves [bsp_simps]:
  "t \<noteq> Pane i \<Longrightarrow> leaves (snd (sn_remove t i)) = remove1 i (leaves t)"
proof (induction t)
  case (Split d r left right)
  obtain rl left' where l: "sn_remove left i = (rl, left')" by (cases "sn_remove left i")
  obtain rr right' where rr: "sn_remove right i = (rr, right')" by (cases "sn_remove right i")
  note res = sn_remove_result [of left i] sn_remove_result [of right i]
  show ?case
  proof (cases rl)
    case RemoveSelf
    then have "left = Pane i" using res l by simp
    then show ?thesis by simp
  next
    case Removed
    then have "left \<noteq> Pane i" "i \<in> set (leaves left)" using res l by auto
    then show ?thesis using Split.IH(1) l Removed by (simp add: remove1_append)
  next
    case NotFound
    then have nl: "i \<notin> set (leaves left)" "left \<noteq> Pane i" using res l by auto
    then have left': "leaves left' = leaves left" using Split.IH(1) l by (simp add: remove1_idem)
    show ?thesis
    proof (cases rr)
      case RemoveSelf
      then have "right = Pane i" using res rr by simp
      then show ?thesis using l NotFound nl left' by (simp add: remove1_append remove1_idem)
    next
      case Removed
      then have "right \<noteq> Pane i" using res rr by auto
      then show ?thesis using Split.IH(2) l rr NotFound Removed nl left'
        by (simp add: remove1_append)
    next
      case nf: NotFound
      then have "i \<notin> set (leaves right)" "right \<noteq> Pane i" using res rr by auto
      then show ?thesis using Split.IH(2) l rr NotFound nf nl left' by (simp add: remove1_append)
    qed
  qed
qed simp

lemma sn_remove_absent: "i \<notin> set (leaves t) \<Longrightarrow> sn_remove t i = (NotFound, t)"
  by (induction t) auto

text \<open>Removing a pane that was just inserted gives the tree back.\<close>

lemma remove_insert_after:
  assumes "new \<notin> set (leaves t)" "target \<in> set (leaves t)"
  shows "sn_remove (snd (insert_after t target new dir)) new = (Removed, t)"
  using assms
proof (induction t)
  case (Split d r left right)
  obtain bl left' where l: "insert_after left target new dir = (bl, left')"
    by (cases "insert_after left target new dir")
  obtain br right' where r: "insert_after right target new dir = (br, right')"
    by (cases "insert_after right target new dir")
  have bl: "bl \<longleftrightarrow> target \<in> set (leaves left)"
    using insert_after_found [of left target new dir] l by simp
  show ?case
  proof (cases bl)
    case True
    then have "sn_remove left' new = (Removed, left)" using Split l bl by simp
    then show ?thesis using l True by simp
  next
    case False
    then have "left' = left"
      using l bl insert_after_same by simp
    moreover have "sn_remove right' new = (Removed, right)" using Split r bl False by simp
    ultimately show ?thesis using l r False Split.prems by (simp add: sn_remove_absent)
  qed
qed auto

section \<open>Rectangles\<close>

definition covers :: "pane_rect \<Rightarrow> nat \<Rightarrow> nat \<Rightarrow> bool" where
  "covers r x y \<longleftrightarrow>
     pr_col_off r \<le> x \<and> x < pr_col_off r + pr_cols r
     \<and> pr_row_off r \<le> y \<and> y < pr_row_off r + pr_rows r"

definition rect_inside :: "nat \<Rightarrow> nat \<Rightarrow> nat \<Rightarrow> nat \<Rightarrow> pane_rect \<Rightarrow> bool" where
  "rect_inside c0 r0 w h r \<longleftrightarrow>
     c0 \<le> pr_col_off r \<and> pr_col_off r + pr_cols r \<le> c0 + w
     \<and> r0 \<le> pr_row_off r \<and> pr_row_off r + pr_rows r \<le> r0 + h"

definition rects_disjoint :: "pane_rect \<Rightarrow> pane_rect \<Rightarrow> bool" where
  "rects_disjoint a b \<longleftrightarrow> (\<forall>x y. \<not> (covers a x y \<and> covers b x y))"

text \<open>The cells of the separator lines of a tree laid out in an area.\<close>

fun on_separator :: "split_node \<Rightarrow> nat \<Rightarrow> nat \<Rightarrow> nat \<Rightarrow> nat \<Rightarrow> nat \<Rightarrow> nat \<Rightarrow> bool" where
  "on_separator (Pane p) c0 r0 cols rows x y = False"
| "on_separator (Split Vertical r left right) c0 r0 cols rows x y =
     (case split_extent cols r of (a, sep, b) \<Rightarrow>
        if x < c0 + a then on_separator left c0 r0 a rows x y
        else if x < c0 + a + sep then True
        else on_separator right (c0 + a + sep) r0 b rows x y)"
| "on_separator (Split Horizontal r left right) c0 r0 cols rows x y =
     (case split_extent rows r of (a, sep, b) \<Rightarrow>
        if y < r0 + a then on_separator left c0 r0 cols a x y
        else if y < r0 + a + sep then True
        else on_separator right c0 (r0 + a + sep) cols b x y)"

lemma compute_ids [bsp_simps]: "map pr_pane_id (compute t c0 r0 w h) = leaves t"
  by (induction t c0 r0 w h rule: compute.induct) (auto split: prod.split)

lemma compute_inside:
  assumes "c0 + w \<le> 65535" "r0 + h \<le> 65535"
  shows "list_all (rect_inside c0 r0 w h) (compute t c0 r0 w h)"
  using assms
proof (induction t c0 r0 w h rule: compute.induct)
  case (1 p c0 r0 w h)
  then show ?case by (simp add: rect_inside_def)
next
  case (2 r left right c0 r0 w h)
  obtain a s b where e: "split_extent w r = (a, s, b)" by (cases "split_extent w r")
  have "list_all (rect_inside c0 r0 a h) (compute left c0 r0 a h)"
    using 2(1) [OF e [symmetric] refl] 2(3,4) split_extent_sum [OF e] by simp
  moreover have "list_all (rect_inside (c0 + a + s) r0 b h) (compute right (wrap16 (c0 + a + s)) r0 b h)"
    using 2(2) [OF e [symmetric] refl] 2(3,4) split_extent_sum [OF e] by simp
  ultimately show ?case using split_extent_sum [OF e]
    by (auto simp: e list_all_iff rect_inside_def)
next
  case (3 r left right c0 r0 w h)
  obtain a s b where e: "split_extent h r = (a, s, b)" by (cases "split_extent h r")
  have "list_all (rect_inside c0 r0 w a) (compute left c0 r0 w a)"
    using 3(1) [OF e [symmetric] refl] 3(3,4) split_extent_sum [OF e] by simp
  moreover have "list_all (rect_inside c0 (r0 + a + s) w b) (compute right c0 (wrap16 (r0 + a + s)) w b)"
    using 3(2) [OF e [symmetric] refl] 3(3,4) split_extent_sum [OF e] by simp
  ultimately show ?case using split_extent_sum [OF e]
    by (auto simp: e list_all_iff rect_inside_def)
qed

text \<open>A cell of the area belongs to a pane exactly when it is not on a separator.\<close>

lemma compute_covers:
  assumes "c0 + w \<le> 65535" "r0 + h \<le> 65535"
    and "c0 \<le> x" "x < c0 + w" "r0 \<le> y" "y < r0 + h"
  shows "list_ex (\<lambda>r. covers r x y) (compute t c0 r0 w h) \<longleftrightarrow> \<not> on_separator t c0 r0 w h x y"
  using assms
proof (induction t c0 r0 w h rule: compute.induct)
  case (1 p c0 r0 w h)
  then show ?case by (simp add: covers_def)
next
  case (2 r left right c0 r0 w h)
  obtain a s b where e: "split_extent w r = (a, s, b)" by (cases "split_extent w r")
  note sum = split_extent_sum [OF e]
  have wr: "wrap16 (c0 + a + s) = c0 + a + s" using sum 2(3) by simp
  have inl: "list_all (rect_inside c0 r0 a h) (compute left c0 r0 a h)"
    and inr: "list_all (rect_inside (c0 + a + s) r0 b h) (compute right (c0 + a + s) r0 b h)"
    using 2(3,4) sum by (auto intro!: compute_inside)
  have L: "list_ex (\<lambda>r. covers r x y) (compute left c0 r0 a h) \<longleftrightarrow>
      x < c0 + a \<and> \<not> on_separator left c0 r0 a h x y"
  proof (cases "x < c0 + a")
    case True
    then show ?thesis using 2(1) [OF e [symmetric] refl] 2(3-) sum by simp
  next
    case False
    then show ?thesis using inl by (auto simp: list_ex_iff list_all_iff rect_inside_def covers_def)
  qed
  have R: "list_ex (\<lambda>r. covers r x y) (compute right (c0 + a + s) r0 b h) \<longleftrightarrow>
      c0 + a + s \<le> x \<and> \<not> on_separator right (c0 + a + s) r0 b h x y"
  proof (cases "c0 + a + s \<le> x")
    case True
    then show ?thesis using 2(2) [OF e [symmetric] refl] 2(3-) sum by (simp add: wr)
  next
    case False
    then show ?thesis using inr by (auto simp: list_ex_iff list_all_iff rect_inside_def covers_def)
  qed
  show ?case by (auto simp: e wr L R)
next
  case (3 r left right c0 r0 w h)
  obtain a s b where e: "split_extent h r = (a, s, b)" by (cases "split_extent h r")
  note sum = split_extent_sum [OF e]
  have wr: "wrap16 (r0 + a + s) = r0 + a + s" using sum 3(4) by simp
  have inl: "list_all (rect_inside c0 r0 w a) (compute left c0 r0 w a)"
    and inr: "list_all (rect_inside c0 (r0 + a + s) w b) (compute right c0 (r0 + a + s) w b)"
    using 3(3,4) sum by (auto intro!: compute_inside)
  have L: "list_ex (\<lambda>r. covers r x y) (compute left c0 r0 w a) \<longleftrightarrow>
      y < r0 + a \<and> \<not> on_separator left c0 r0 w a x y"
  proof (cases "y < r0 + a")
    case True
    then show ?thesis using 3(1) [OF e [symmetric] refl] 3(3-) sum by simp
  next
    case False
    then show ?thesis using inl by (auto simp: list_ex_iff list_all_iff rect_inside_def covers_def)
  qed
  have R: "list_ex (\<lambda>r. covers r x y) (compute right c0 (r0 + a + s) w b) \<longleftrightarrow>
      r0 + a + s \<le> y \<and> \<not> on_separator right c0 (r0 + a + s) w b x y"
  proof (cases "r0 + a + s \<le> y")
    case True
    then show ?thesis using 3(2) [OF e [symmetric] refl] 3(3-) sum by (simp add: wr)
  next
    case False
    then show ?thesis using inr by (auto simp: list_ex_iff list_all_iff rect_inside_def covers_def)
  qed
  show ?case by (auto simp: e wr L R)
qed

text \<open>Two panes never share a cell.\<close>

lemma disjoint_areas:
  assumes "list_all (rect_inside c0 r0 w h) as" "list_all (rect_inside c1 r1 w' h') bs"
    and "c0 + w \<le> c1 \<or> r0 + h \<le> r1"
  shows "\<forall>a \<in> set as. \<forall>b \<in> set bs. rects_disjoint a b"
  using assms by (fastforce simp: list_all_iff rect_inside_def rects_disjoint_def covers_def)

lemma compute_disjoint:
  assumes "c0 + w \<le> 65535" "r0 + h \<le> 65535"
  shows "sorted_wrt rects_disjoint (compute t c0 r0 w h)"
  using assms
proof (induction t c0 r0 w h rule: compute.induct)
  case (1 p c0 r0 w h)
  then show ?case by simp
next
  case (2 r left right c0 r0 w h)
  obtain a s b where e: "split_extent w r = (a, s, b)" by (cases "split_extent w r")
  note sum = split_extent_sum [OF e]
  have "\<forall>x \<in> set (compute left c0 r0 a h). \<forall>y \<in> set (compute right (c0 + a + s) r0 b h). rects_disjoint x y"
    using 2(3,4) sum by (intro disjoint_areas [OF compute_inside compute_inside]) simp_all
  then show ?case using 2(1,2) [OF e [symmetric] refl] 2(3,4) sum
    by (simp add: e sorted_wrt_append)
next
  case (3 r left right c0 r0 w h)
  obtain a s b where e: "split_extent h r = (a, s, b)" by (cases "split_extent h r")
  note sum = split_extent_sum [OF e]
  have "\<forall>x \<in> set (compute left c0 r0 w a). \<forall>y \<in> set (compute right c0 (r0 + a + s) w b). rects_disjoint x y"
    using 3(3,4) sum by (intro disjoint_areas [OF compute_inside compute_inside]) simp_all
  then show ?case using 3(1,2) [OF e [symmetric] refl] 3(3,4) sum
    by (simp add: e sorted_wrt_append)
qed

section \<open>Swapping and resizing\<close>

definition swap_id :: "nat \<Rightarrow> nat \<Rightarrow> nat \<Rightarrow> nat" where
  "swap_id a b p = (if p = a then b else if p = b then a else p)"

lemma swap_ids_leaves [bsp_simps]:
  "leaves (snd (swap_ids t a b)) = map (swap_id a b) (leaves t)"
  by (induction t) (auto simp: swap_id_def split: prod.split)

lemma swap_ids_found [bsp_simps]:
  "fst (swap_ids t a b) \<longleftrightarrow> a \<in> set (leaves t) \<or> b \<in> set (leaves t)"
  by (induction t) (auto split: prod.split)

lemma swap_ids_involution: "snd (swap_ids (snd (swap_ids t a b)) a b) = t"
proof (induction t)
  case (Split d r left right)
  obtain bl left' br right' where "swap_ids left a b = (bl, left')" "swap_ids right a b = (br, right')"
    by (cases "swap_ids left a b"; cases "swap_ids right a b")
  then show ?case using Split by (simp split: prod.split) (metis snd_conv)
qed simp

lemma swap_id_set:
  assumes "a \<in> A" "b \<in> A"
  shows "swap_id a b ` A = A"
proof
  show "swap_id a b ` A \<subseteq> A" using assms by (auto simp: swap_id_def)
  have "swap_id a b (swap_id a b x) = x" for x by (simp add: swap_id_def)
  moreover have "swap_id a b x \<in> A" if "x \<in> A" for x using assms that by (simp add: swap_id_def)
  ultimately show "A \<subseteq> swap_id a b ` A" by (metis image_eqI subsetI)
qed

lemma inj_swap_id: "inj (swap_id a b)"
  by (rule injI) (auto simp: swap_id_def split: if_splits)

text \<open>The ratios a tree can hold: \<open>NaN\<close> or between the two limits of the clamp.\<close>

definition ratio_ok :: "f32 \<Rightarrow> bool" where
  "ratio_ok x \<longleftrightarrow> (\<exists>r. x = Fin r \<and> RATIO_MIN \<le> r \<and> r \<le> RATIO_MAX)"

fun ratios :: "split_node \<Rightarrow> f32 list" where
  "ratios (Pane p) = []"
| "ratios (Split d r left right) = r # ratios left @ ratios right"

lemma ratio_ok_half [simp]: "ratio_ok RATIO_HALF"
  by (auto simp: ratio_ok_def RATIO_HALF_def RATIO_MIN_def RATIO_MAX_def intro!: exI [of _ "1/2"])

lemma to_f32_not_NaN: "to_f32 x \<noteq> NaN"
  by (simp add: to_f32_def round_pos_def neg32_def Let_def)

lemma add32_not_NaN: "add32 (Fin a) (Fin b) \<noteq> NaN"
  by (simp add: add32_def to_f32_not_NaN)

lemma ratio_ok_step:
  assumes "ratio_ok x"
  shows "ratio_ok (clamp32 RATIO_MIN RATIO_MAX (add32 x (Fin d)))"
    "ratio_ok (clamp32 RATIO_MIN RATIO_MAX (sub32 x (Fin d)))"
proof -
  obtain a where "x = Fin a" using assms by (auto simp: ratio_ok_def)
  then have "add32 x (Fin d) \<noteq> NaN" "sub32 x (Fin d) \<noteq> NaN"
    by (simp_all add: sub32_def neg32_def add32_not_NaN)
  then show "ratio_ok (clamp32 RATIO_MIN RATIO_MAX (add32 x (Fin d)))"
    "ratio_ok (clamp32 RATIO_MIN RATIO_MAX (sub32 x (Fin d)))"
    using clamp32_range [OF RATIO_bounds(1)] by (simp_all add: ratio_ok_def)
qed

lemma adjust_leaves [bsp_simps]: "leaves (snd (adjust_ratio_for t i d)) = leaves t"
  by (induction t) (auto simp: Let_def split: prod.split bool.split)

lemma adjust_found:
  "fst (adjust_ratio_for t i d) \<longleftrightarrow> i \<in> set (leaves t) \<and> (\<forall>p. t \<noteq> Pane p)"
  by (induction t) (auto simp: Let_def contains_leaves split: prod.split bool.split)

lemma adjust_ratios_ok:
  "list_all ratio_ok (ratios t) \<Longrightarrow> list_all ratio_ok (ratios (snd (adjust_ratio_for t i (Fin d))))"
  by (induction t) (auto simp: Let_def ratio_ok_step split: prod.split bool.split)

text \<open>Exactly one ratio changes: the one of the split whose child is the target's leaf.\<close>

fun parent_adjusted :: "split_node \<Rightarrow> nat \<Rightarrow> f32 \<Rightarrow> split_node" where
  "parent_adjusted (Pane p) i delta = Pane p"
| "parent_adjusted (Split d r left right) i delta =
     (if left = Pane i then Split d (clamp32 RATIO_MIN RATIO_MAX (add32 r delta)) left right
      else if i \<in> set (leaves left) then Split d r (parent_adjusted left i delta) right
      else if right = Pane i then Split d (clamp32 RATIO_MIN RATIO_MAX (sub32 r delta)) left right
      else Split d r left (parent_adjusted right i delta))"

lemma parent_adjusted_absent: "i \<notin> set (leaves t) \<Longrightarrow> parent_adjusted t i delta = t"
  by (induction t) auto

lemma adjust_is_parent: "snd (adjust_ratio_for t i delta) = parent_adjusted t i delta"
proof (induction t)
  case (Split d r left right)
  have found: "adjust_ratio_for x i delta = (True, parent_adjusted x i delta)"
    if "i \<in> set (leaves x)" "x \<noteq> Pane i" "snd (adjust_ratio_for x i delta) = parent_adjusted x i delta" for x
    using that adjust_found [of x i delta] by (cases "adjust_ratio_for x i delta") auto
  consider "left = Pane i" | "left \<noteq> Pane i" "i \<in> set (leaves left)"
    | "i \<notin> set (leaves left)" "right = Pane i"
    | "i \<notin> set (leaves left)" "right \<noteq> Pane i" "i \<in> set (leaves right)"
    | "i \<notin> set (leaves left)" "i \<notin> set (leaves right)" by blast
  then show ?case
  proof cases
    case 2
    then show ?thesis using found [OF 2(2,1) Split.IH(1)] by (simp add: contains_leaves)
  next
    case 4
    then show ?thesis using found [OF 4(3,2) Split.IH(2)] by (auto simp: contains_leaves)
  next
    case 5
    then show ?thesis by (auto simp: contains_leaves parent_adjusted_absent)
  qed (auto simp: contains_leaves)
qed simp

section \<open>Snapshots\<close>

lemma from_to_snapshot: "from_snapshot (to_snapshot t) = t"
  by (induction t) simp_all

lemma collect_from_snapshot: "leaves (from_snapshot snap) = collect_pane_ids snap"
  by (induction snap) simp_all

lemma first_duplicate_None: "first_duplicate is seen = None \<longleftrightarrow> distinct is \<and> set is \<inter> seen = {}"
  by (induction "is" seen rule: first_duplicate.induct) auto

lemma find_duplicate_None: "find_duplicate_pane_id snap = None \<longleftrightarrow> distinct (collect_pane_ids snap)"
  by (simp add: find_duplicate_pane_id_def first_duplicate_None)

section \<open>The interface of a pane tree\<close>

text \<open>
  A window keeps a map of panes next to the tree.  What keeps the two consistent is stated
  over the operations it calls.
\<close>

locale pane_tree =
  fixes ids :: "'t \<Rightarrow> nat list"
    and ins :: "'t \<Rightarrow> nat \<Rightarrow> nat \<Rightarrow> 'd \<Rightarrow> bool \<times> 't"
    and del :: "'t \<Rightarrow> nat \<Rightarrow> 'r \<times> 't"
    and swap :: "'t \<Rightarrow> nat \<Rightarrow> nat \<Rightarrow> bool \<times> 't"
  assumes ins_found: "target \<in> set (ids t) \<Longrightarrow> fst (ins t target new d)"
    and ins_absent: "target \<notin> set (ids t) \<Longrightarrow> ins t target new d = (False, t)"
    and ins_ids: "target \<in> set (ids t) \<Longrightarrow>
      mset (ids (snd (ins t target new d))) = add_mset new (mset (ids t))"
    and del_ids: "ids t \<noteq> [i] \<Longrightarrow> mset (ids (snd (del t i))) = mset (ids t) - {#i#}"
    and swap_ids_mset: "mset (ids (snd (swap t a b))) = image_mset (swap_id a b) (mset (ids t))"
begin

text \<open>The tree holds each of the known panes once.\<close>

definition holds :: "'t \<Rightarrow> nat set \<Rightarrow> bool" where
  "holds t K \<longleftrightarrow> distinct (ids t) \<and> set (ids t) = K"

lemma mset_distinct: "mset xs = mset ys \<Longrightarrow> distinct ys \<Longrightarrow> distinct xs \<and> set xs = set ys"
  by (metis distinct_count_atmost_1 set_mset_mset)

lemma holds_ins:
  assumes "holds t K" "target \<in> K" "new \<notin> K"
  shows "holds (snd (ins t target new d)) (insert new K)" "fst (ins t target new d)"
proof -
  have "mset (ids (snd (ins t target new d))) = mset (new # ids t)"
    using assms ins_ids [of target t new d] by (simp add: holds_def)
  from mset_distinct [OF this] show "holds (snd (ins t target new d)) (insert new K)"
    using assms by (simp add: holds_def)
  show "fst (ins t target new d)" using assms by (simp add: holds_def ins_found)
qed

lemma holds_del:
  assumes "holds t K" "K \<noteq> {i}"
  shows "holds (snd (del t i)) (K - {i})"
proof -
  have "ids t \<noteq> [i]" using assms by (auto simp: holds_def)
  then have "mset (ids (snd (del t i))) = mset (remove1 i (ids t))"
    by (simp add: del_ids)
  from mset_distinct [OF this] show ?thesis
    using assms by (simp add: holds_def)
qed

lemma holds_swap:
  assumes "holds t K" "a \<in> K" "b \<in> K"
  shows "holds (snd (swap t a b)) K"
proof -
  have "mset (ids (snd (swap t a b))) = mset (map (swap_id a b) (ids t))"
    by (simp add: swap_ids_mset)
  moreover have "distinct (map (swap_id a b) (ids t))"
    using assms(1) inj_swap_id by (simp add: holds_def distinct_map inj_on_def)
  ultimately show ?thesis using mset_distinct assms swap_id_set [of a K b]
    by (metis holds_def set_map)
qed

end

lemma mset_insert_behind: "target \<in> set xs \<Longrightarrow> mset (insert_behind target new xs) = add_mset new (mset xs)"
  by (induction xs) auto

interpretation bsp_tree: pane_tree leaves insert_after sn_remove swap_ids
proof
  fix t :: split_node and i :: nat
  assume "leaves t \<noteq> [i]"
  then have "t \<noteq> Pane i" by auto
  then show "mset (leaves (snd (sn_remove t i))) = mset (leaves t) - {#i#}"
    by (simp add: sn_remove_leaves)
qed (simp_all add: insert_after_found insert_after_same insert_after_leaves mset_insert_behind
    swap_ids_leaves)

end
