(* ===== verification/Tiling.thy ===== *)
theory Tiling
  imports Bsp
begin

text \<open>
  The tiling layout and the sizes of a snapshot's panes
  (\<open>nexterm-server/src/window/tiling.rs\<close>), and the bounds of a floating pane
  (\<open>window/floating.rs\<close>).  The indexing of \<open>pane_ids\<close> is checked: \<open>None\<close> is the panic.
\<close>

text \<open>
  \<open>ceil(sqrt(n))\<close>.  The source computes it in \<open>f64\<close>, which is exact in this range: a
  count of panes is far below the 2^52 where the square root of a non-square could
  round to an integer.
\<close>

definition ceil_sqrt :: "nat \<Rightarrow> nat" where
  "ceil_sqrt n = length (takeWhile (\<lambda>k. k * k < n) [0..<n])"

fun tile_rows ::
  "nat list \<Rightarrow> nat \<Rightarrow> nat \<Rightarrow> nat \<Rightarrow> nat \<Rightarrow> nat list \<Rightarrow> nat \<Rightarrow> (pane_rect list \<times> nat) option" where
  "tile_rows pane_ids total_rows col_off col_width cnt [] pane_idx = Some ([], pane_idx)"
| "tile_rows pane_ids total_rows col_off col_width cnt (row_idx # row_idxs) pane_idx =
     (let row_off = wrap16 (row_idx * total_rows div cnt);
          next_row_off = wrap16 ((row_idx + 1) * total_rows div cnt);
          row_height = max (next_row_off - row_off) 1 in
      case lget pane_ids pane_idx of
        None \<Rightarrow> None
      | Some i \<Rightarrow>
          (let rect = \<lparr>pr_pane_id = i, pr_col_off = col_off, pr_row_off = row_off,
                       pr_cols = col_width, pr_rows = row_height\<rparr> in
           if pane_idx + 1 \<ge> length pane_ids then Some ([rect], pane_idx + 1)
           else map_option (\<lambda>(rs, k). (rect # rs, k))
             (tile_rows pane_ids total_rows col_off col_width cnt row_idxs (pane_idx + 1))))"

fun tile_cols ::
  "nat list \<Rightarrow> nat \<Rightarrow> nat \<Rightarrow> nat \<Rightarrow> nat list \<Rightarrow> nat \<Rightarrow> pane_rect list option" where
  "tile_cols pane_ids total_cols total_rows ncols [] pane_idx = Some []"
| "tile_cols pane_ids total_cols total_rows ncols (col_idx # col_idxs) pane_idx =
     (let n = length pane_ids;
          cnt = n div ncols + (if col_idx < n mod ncols then 1 else 0) in
      if cnt = 0 then tile_cols pane_ids total_cols total_rows ncols col_idxs pane_idx
      else
        let col_off = wrap16 (col_idx * total_cols div ncols);
            next_col_off = wrap16 ((col_idx + 1) * total_cols div ncols);
            col_width = max (next_col_off - col_off) 1 in
        case tile_rows pane_ids total_rows col_off col_width cnt [0..<cnt] pane_idx of
          None \<Rightarrow> None
        | Some (rs, k) \<Rightarrow>
            map_option (\<lambda>rest. rs @ rest)
              (tile_cols pane_ids total_cols total_rows ncols col_idxs k))"

definition compute_tiling_layouts :: "nat list \<Rightarrow> nat \<Rightarrow> nat \<Rightarrow> pane_rect list option" where
  "compute_tiling_layouts pane_ids total_cols total_rows =
     (let n = length pane_ids in
      if n = 0 then Some []
      else if n = 1 then
        Some [\<lparr>pr_pane_id = hd pane_ids, pr_col_off = 0, pr_row_off = 0, pr_cols = total_cols,
               pr_rows = total_rows\<rparr>]
      else
        let ncols = min (max (ceil_sqrt n) 1) n in
        tile_cols pane_ids total_cols total_rows ncols [0..<ncols] 0)"

fun compute_pane_sizes :: "'c snapshot_node \<Rightarrow> nat \<Rightarrow> nat \<Rightarrow> (nat \<times> nat \<times> nat) list" where
  "compute_pane_sizes (PaneSnapshot p cwd) cols rows = [(p, cols, rows)]"
| "compute_pane_sizes (SplitSnapshot Vertical r left right) cols rows =
     (case split_extent cols r of (lc, _, rc) \<Rightarrow>
        compute_pane_sizes left lc rows @ compute_pane_sizes right rc rows)"
| "compute_pane_sizes (SplitSnapshot Horizontal r left right) cols rows =
     (case split_extent rows r of (lr, _, rr) \<Rightarrow>
        compute_pane_sizes left cols lr @ compute_pane_sizes right cols rr)"

fun find_cwd_in_snapshot :: "'c snapshot_node \<Rightarrow> nat \<Rightarrow> 'c option" where
  "find_cwd_in_snapshot (PaneSnapshot p cwd) target = (if p = target then cwd else None)"
| "find_cwd_in_snapshot (SplitSnapshot d r left right) target =
     (case find_cwd_in_snapshot left target of
        Some c \<Rightarrow> Some c
      | None \<Rightarrow> find_cwd_in_snapshot right target)"

section \<open>Floating panes\<close>

record float_rect =
  fr_col_off :: nat
  fr_row_off :: nat
  fr_cols :: nat
  fr_rows :: nat

definition MIN_COLS :: nat where "MIN_COLS = 10"
definition MIN_ROWS :: nat where "MIN_ROWS = 5"

definition clamp_to :: "nat \<Rightarrow> nat \<Rightarrow> float_rect \<Rightarrow> float_rect" where
  "clamp_to total_cols total_rows r =
     (let cols = clamp MIN_COLS (max total_cols MIN_COLS) (fr_cols r);
          rows = clamp MIN_ROWS (max total_rows MIN_ROWS) (fr_rows r) in
      \<lparr>fr_col_off = min (fr_col_off r) (total_cols - cols),
       fr_row_off = min (fr_row_off r) (total_rows - rows),
       fr_cols = cols, fr_rows = rows\<rparr>)"

text \<open>Inside the window, except that a window below the minimum size keeps the minimum.\<close>

definition float_ok :: "nat \<Rightarrow> nat \<Rightarrow> float_rect \<Rightarrow> bool" where
  "float_ok w h r \<longleftrightarrow>
     MIN_COLS \<le> fr_cols r \<and> MIN_ROWS \<le> fr_rows r
     \<and> fr_col_off r + fr_cols r \<le> max w MIN_COLS \<and> fr_row_off r + fr_rows r \<le> max h MIN_ROWS"

lemma clamp_max:
  "clamp lo (max w lo) n = max lo (min n w)"
  by (simp add: clamp_def max_def min_def)

lemma clamp_to_eq:
  "clamp_to w h r =
     (let cols = max MIN_COLS (min (fr_cols r) w); rows = max MIN_ROWS (min (fr_rows r) h) in
      \<lparr>fr_col_off = min (fr_col_off r) (w - cols), fr_row_off = min (fr_row_off r) (h - rows),
       fr_cols = cols, fr_rows = rows\<rparr>)"
  by (simp add: clamp_to_def clamp_max)

lemma clamp_axis:
  fixes lo off n w :: nat
  shows "lo \<le> max lo (min n w)"
    and "min off (w - max lo (min n w)) + max lo (min n w) \<le> max w lo"
    and "lo \<le> n \<Longrightarrow> off + n \<le> max w lo \<Longrightarrow> lo \<le> w \<Longrightarrow> max lo (min n w) = n"
    and "lo \<le> n \<Longrightarrow> off + n \<le> max w lo \<Longrightarrow> lo \<le> w \<Longrightarrow> min off (w - n) = off"
  by linarith+

lemma float_ok_clamp [simp]: "float_ok w h (clamp_to w h r)"
  by (simp only: float_ok_def clamp_to_eq Let_def float_rect.select_convs clamp_axis simp_thms)

lemma clamp_to_id:
  assumes "float_ok w h r" "MIN_COLS \<le> w" "MIN_ROWS \<le> h"
  shows "clamp_to w h r = r"
proof -
  have f: "MIN_COLS \<le> fr_cols r" "fr_col_off r + fr_cols r \<le> max w MIN_COLS"
    "MIN_ROWS \<le> fr_rows r" "fr_row_off r + fr_rows r \<le> max h MIN_ROWS"
    using assms(1) by (simp_all only: float_ok_def)
  show ?thesis
    by (simp only: clamp_to_eq Let_def clamp_axis(3,4) [OF f(1,2) assms(2)]
        clamp_axis(3,4) [OF f(3,4) assms(3)]) simp
qed

section \<open>The tiling layout\<close>

lemma ceil_sqrt_le: "ceil_sqrt n \<le> n"
  by (simp add: ceil_sqrt_def) (metis length_takeWhile_le length_upt minus_nat.diff_0)

lemma ceil_sqrt_square:
  assumes "1 \<le> n"
  shows "n \<le> ceil_sqrt n * ceil_sqrt n"
proof (cases "ceil_sqrt n < n")
  case True
  then have "\<not> (\<lambda>k. k * k < n) ([0..<n] ! ceil_sqrt n)"
    unfolding ceil_sqrt_def by (intro nth_length_takeWhile) simp
  then show ?thesis using True by simp
next
  case False
  then have "ceil_sqrt n = n" using ceil_sqrt_le [of n] by simp
  then show ?thesis using assms by simp
qed

lemma ceil_sqrt_least: "k < ceil_sqrt n \<Longrightarrow> k * k < n"
proof -
  assume k: "k < ceil_sqrt n"
  then have "k < n" using ceil_sqrt_le [of n] by simp
  moreover have "[0..<n] ! k \<in> set (takeWhile (\<lambda>k. k * k < n) [0..<n])"
    using k takeWhile_nth [of k "\<lambda>k. k * k < n" "[0..<n]"] nth_mem
    by (metis ceil_sqrt_def)
  ultimately show ?thesis using set_takeWhileD by fastforce
qed

text \<open>The rows of one column take the next ids in order.\<close>

lemma tile_rows_ids:
  assumes "k + length is \<le> length ids"
  shows "\<exists>rs. tile_rows ids R co cw cnt is k = Some (rs, k + length is)
    \<and> map pr_pane_id rs = take (length is) (drop k ids)"
  using assms
proof (induction "is" arbitrary: k)
  case (Cons i js)
  then have k: "k < length ids" by simp
  have dk: "drop k ids = ids ! k # drop (Suc k) ids" using k by (simp add: Cons_nth_drop_Suc)
  show ?case
  proof (cases "Suc k \<ge> length ids")
    case True
    then have "js = []" using Cons.prems by (cases js) simp_all
    then show ?thesis using True k by (simp add: Let_def dk)
  next
    case False
    from Cons.IH [of "Suc k"] Cons.prems obtain rs where
      "tile_rows ids R co cw cnt js (Suc k) = Some (rs, Suc k + length js)"
      "map pr_pane_id rs = take (length js) (drop (Suc k) ids)" by auto
    then show ?thesis using False k by (simp add: Let_def dk)
  qed
qed simp

definition column_count :: "nat \<Rightarrow> nat \<Rightarrow> nat \<Rightarrow> nat" where
  "column_count n ncols c = n div ncols + (if c < n mod ncols then 1 else 0)"

lemma column_counts_sum:
  assumes "k \<le> ncols" "0 < ncols"
  shows "sum_list (map (column_count n ncols) [0..<k]) = k * (n div ncols) + min k (n mod ncols)"
  using assms by (induction k) (auto simp: column_count_def min_def)

lemma column_counts_total: "0 < ncols \<Longrightarrow> sum_list (map (column_count n ncols) [0..<ncols]) = n"
  using column_counts_sum [of ncols ncols n] mod_less_divisor [of ncols n]
  by (simp add: min_absorb2 less_imp_le)

lemma tile_cols_ids:
  assumes "k + sum_list (map (column_count (length ids) ncols) cs) \<le> length ids"
  shows "\<exists>rs. tile_cols ids C R ncols cs k = Some rs
    \<and> map pr_pane_id rs = take (sum_list (map (column_count (length ids) ncols) cs)) (drop k ids)"
  using assms
proof (induction cs arbitrary: k)
  case (Cons c cs)
  let ?cnt = "column_count (length ids) ncols c"
  show ?case
  proof (cases "?cnt = 0")
    case True
    then show ?thesis using Cons.IH [of k] Cons.prems by (simp add: column_count_def)
  next
    case False
    let ?co = "wrap16 (c * C div ncols)"
    let ?cw = "max (wrap16 ((c + 1) * C div ncols) - ?co) 1"
    from tile_rows_ids [of k "[0..<?cnt]" ids R ?co ?cw ?cnt] Cons.prems obtain rs where
      rs: "tile_rows ids R ?co ?cw ?cnt [0..<?cnt] k = Some (rs, k + ?cnt)"
      "map pr_pane_id rs = take ?cnt (drop k ids)" by auto
    from Cons.IH [of "k + ?cnt"] Cons.prems obtain rest where
      rest: "tile_cols ids C R ncols cs (k + ?cnt) = Some rest"
      "map pr_pane_id rest =
        take (sum_list (map (column_count (length ids) ncols) cs)) (drop (k + ?cnt) ids)"
      by (auto simp: add.assoc)
    have "tile_cols ids C R ncols (c # cs) k = Some (rs @ rest)"
      using False rs(1) rest(1) by (simp add: Let_def column_count_def [symmetric])
    moreover have "map pr_pane_id (rs @ rest) =
        take (?cnt + sum_list (map (column_count (length ids) ncols) cs)) (drop k ids)"
      by (simp add: rs(2) rest(2) take_add drop_drop add.commute)
    ultimately show ?thesis by simp
  qed
qed simp

text \<open>The layout never panics and has one rectangle per pane, in the order given.\<close>

lemma tiling_layout_ids:
  "\<exists>rs. compute_tiling_layouts ids C R = Some rs \<and> map pr_pane_id rs = ids"
proof -
  consider "ids = []" | i where "ids = [i]" | "2 \<le> length ids"
    by (cases ids rule: remdups_adj.cases) auto
  then show ?thesis
  proof cases
    case 3
    let ?nc = "min (max (ceil_sqrt (length ids)) 1) (length ids)"
    have "0 < ?nc" using 3 by auto
    then show ?thesis using tile_cols_ids [of 0 ids ?nc "[0..<?nc]" C R] column_counts_total [of ?nc "length ids"] 3
      by (auto simp: compute_tiling_layouts_def Let_def)
  qed (simp_all add: compute_tiling_layouts_def)
qed

section \<open>Sizes restored from a snapshot\<close>

text \<open>The restore path computes the sizes the live tree would give.\<close>

lemma compute_pane_sizes_agree:
  "compute_pane_sizes snap cols rows =
     map (\<lambda>r. (pr_pane_id r, pr_cols r, pr_rows r)) (compute (from_snapshot snap) c0 r0 cols rows)"
proof (induction snap arbitrary: cols rows c0 r0)
  case (SplitSnapshot d r left right)
  show ?case
  proof (cases d)
    case Vertical
    obtain a s b where e: "split_extent cols r = (a, s, b)" by (cases "split_extent cols r")
    show ?thesis using SplitSnapshot.IH(1) [of a rows c0 r0]
        SplitSnapshot.IH(2) [of b rows "wrap16 (c0 + a + s)" r0]
      by (simp add: Vertical e)
  next
    case Horizontal
    obtain a s b where e: "split_extent rows r = (a, s, b)" by (cases "split_extent rows r")
    show ?thesis using SplitSnapshot.IH(1) [of cols a c0 r0]
        SplitSnapshot.IH(2) [of cols b c0 "wrap16 (r0 + a + s)"]
      by (simp add: Horizontal e)
  qed
qed simp

end
