(* ===== verification/Window.thy ===== *)
theory Window
  imports Tiling Rust_Std "HOL-Library.AList"
begin

text \<open>
  A window and its panes (\<open>nexterm-server/src/window/mod.rs\<close>).  A hash map is an
  association list with distinct keys.  A pane is modelled by the size its PTY was last
  given; spawning a pane is an external operation whose outcome and fresh id are
  arguments.  A method that returns a value is a function to the pair of the value and the
  window; \<open>None\<close> around the pair is a panic.
\<close>

type_synonym psize = "nat \<times> nat"

datatype layout_mode = BspMode | TilingMode

record window =
  w_id :: nat
  w_name :: rstr
  w_panes :: "(nat \<times> psize) list"
  w_serial_panes :: "(nat \<times> psize) list"
  w_focused_pane_id :: nat
  w_layout :: split_node
  w_zoomed :: bool
  w_layout_mode :: layout_mode
  w_floating_panes :: "(nat \<times> psize \<times> float_rect) list"
  w_last_cols :: nat
  w_last_rows :: nat
  w_pane_order :: "nat list"

definition layout_mode_from_str :: "rstr \<Rightarrow> layout_mode" where
  "layout_mode_from_str s = (if s = lit ''tiling'' then TilingMode else BspMode)"

definition layout_mode_as_str :: "layout_mode \<Rightarrow> rstr" where
  "layout_mode_as_str m = (case m of BspMode \<Rightarrow> lit ''bsp'' | TilingMode \<Rightarrow> lit ''tiling'')"

section \<open>Tab order\<close>

definition compute_insert_position :: "nat \<Rightarrow> nat option \<Rightarrow> nat option \<Rightarrow> nat" where
  "compute_insert_position current_len requested focused_index =
     (case requested of
        Some pos \<Rightarrow> min pos current_len
      | None \<Rightarrow>
          (case focused_index of
             Some idx \<Rightarrow> if idx + 1 < current_len then idx + 1 else current_len
           | None \<Rightarrow> current_len))"

fun pick_known :: "nat list \<Rightarrow> nat list \<Rightarrow> nat list \<Rightarrow> nat list" where
  "pick_known known next [] = next"
| "pick_known known next (i # is) =
     (if i \<in> set known \<and> i \<notin> set next then pick_known known (next @ [i]) is
      else pick_known known next is)"

definition compute_reordered :: "nat list \<Rightarrow> nat list \<Rightarrow> nat list \<Rightarrow> nat list" where
  "compute_reordered current requested known =
     (let next = pick_known known (pick_known known [] requested) current in
      next @ sort (filter (\<lambda>i. i \<notin> set next) known))"

definition insert_at :: "nat \<Rightarrow> 'a \<Rightarrow> 'a list \<Rightarrow> 'a list" where
  "insert_at n x xs = take n xs @ x # drop n xs"

section \<open>Layouts and sizes\<close>

definition pane_ids :: "window \<Rightarrow> nat list" where
  "pane_ids w = map fst (w_panes w) @ map fst (w_serial_panes w)"

text \<open>The tiling layout never panics (\<open>tiling_layout_ids\<close>).\<close>

definition compute_layouts :: "nat \<Rightarrow> nat \<Rightarrow> window \<Rightarrow> pane_rect list" where
  "compute_layouts cols rows w =
     (case w_layout_mode w of
        BspMode \<Rightarrow> compute (w_layout w) 0 0 cols rows
      | TilingMode \<Rightarrow>
          (case compute_tiling_layouts (sort (pane_ids w)) cols rows of
             None \<Rightarrow> []
           | Some rs \<Rightarrow> rs))"

definition has_key :: "'k \<Rightarrow> ('k \<times> 'v) list \<Rightarrow> bool" where
  "has_key k m \<longleftrightarrow> map_of m k \<noteq> None"

definition resize_one :: "pane_rect \<Rightarrow> (nat \<times> psize) list \<Rightarrow> (nat \<times> psize) list" where
  "resize_one r m =
     (if has_key (pr_pane_id r) m then AList.update (pr_pane_id r) (pr_cols r, pr_rows r) m else m)"

definition resize_ptys :: "pane_rect list \<Rightarrow> window \<Rightarrow> window" where
  "resize_ptys rects w = w\<lparr>w_panes := fold resize_one rects (w_panes w)\<rparr>"

definition resize_any :: "pane_rect \<Rightarrow> window \<Rightarrow> window" where
  "resize_any r w =
     (if has_key (pr_pane_id r) (w_panes w) then w\<lparr>w_panes := resize_one r (w_panes w)\<rparr>
      else w\<lparr>w_serial_panes := resize_one r (w_serial_panes w)\<rparr>)"

definition reclamp_floating :: "nat \<Rightarrow> nat \<Rightarrow> (psize \<times> float_rect) \<Rightarrow> (psize \<times> float_rect)" where
  "reclamp_floating cols rows e =
     (let r = clamp_to cols rows (snd e) in ((fr_cols r, fr_rows r), r))"

definition resize_all_panes :: "nat \<Rightarrow> nat \<Rightarrow> window \<Rightarrow> window" where
  "resize_all_panes cols rows w0 =
     (let w1 = w0\<lparr>w_last_cols := cols, w_last_rows := rows\<rparr>;
          w2 = fold resize_any (compute_layouts cols rows w1) w1 in
      w2\<lparr>w_floating_panes := map (\<lambda>(i, e). (i, reclamp_floating cols rows e)) (w_floating_panes w2)\<rparr>)"

section \<open>Construction\<close>

definition window_single :: "nat \<Rightarrow> rstr \<Rightarrow> nat \<times> psize \<Rightarrow> nat \<Rightarrow> nat \<Rightarrow> window" where
  "window_single wid name pane cols rows =
     \<lparr>w_id = wid, w_name = name, w_panes = [pane], w_serial_panes = [],
      w_focused_pane_id = fst pane, w_layout = Pane (fst pane), w_zoomed = False,
      w_layout_mode = BspMode, w_floating_panes = [], w_last_cols = cols, w_last_rows = rows,
      w_pane_order = [fst pane]\<rparr>"

text \<open>\<open>spawned\<close> is the id of the pane the external spawn gives, or its failure.\<close>

definition window_new :: "nat \<Rightarrow> rstr \<Rightarrow> nat \<Rightarrow> nat \<Rightarrow> nat option \<Rightarrow> window option" where
  "window_new wid name cols rows spawned =
     map_option (\<lambda>i. window_single wid name (i, (cols, rows)) cols rows) spawned"

definition window_new_with_pane :: "nat \<Rightarrow> rstr \<Rightarrow> nat \<times> psize \<Rightarrow> nat \<Rightarrow> nat \<Rightarrow> window" where
  "window_new_with_pane wid name pane cols rows =
     resize_all_panes cols rows (window_single wid name pane cols rows)"

definition add_pane_with_options ::
  "nat \<Rightarrow> bool \<Rightarrow> split_dir \<Rightarrow> nat \<Rightarrow> nat \<Rightarrow> window \<Rightarrow> nat option \<times> window" where
  "add_pane_with_options new_id spawn_ok dir total_cols total_rows w =
     (case insert_after (w_layout w) (w_focused_pane_id w) new_id dir of
        (False, layout) \<Rightarrow> (None, w\<lparr>w_layout := layout\<rparr>)
      | (True, layout) \<Rightarrow>
          (let w1 = w\<lparr>w_layout := layout\<rparr>;
               layouts = compute_layouts total_cols total_rows w1;
               sz = (case List.find (\<lambda>r. pr_pane_id r = new_id) layouts of
                         Some r \<Rightarrow> (pr_cols r, pr_rows r)
                       | None \<Rightarrow> (total_cols, total_rows)) in
           if \<not> spawn_ok then (None, w1)
           else (Some new_id,
             resize_ptys (filter (\<lambda>r. pr_pane_id r \<noteq> new_id) layouts)
               (w1\<lparr>w_panes := AList.update new_id sz (w_panes w1),
                   w_focused_pane_id := new_id,
                   w_pane_order := w_pane_order w1 @ [new_id]\<rparr>))))"

definition add_serial_pane ::
  "nat option \<Rightarrow> split_dir \<Rightarrow> nat \<Rightarrow> nat \<Rightarrow> window \<Rightarrow> nat option \<times> window" where
  "add_serial_pane spawned dir total_cols total_rows w =
     (case spawned of
        None \<Rightarrow> (None, w)
      | Some new_id \<Rightarrow>
          (Some new_id,
           resize_all_panes total_cols total_rows
             (w\<lparr>w_layout := snd (insert_after (w_layout w) (w_focused_pane_id w) new_id dir),
                w_serial_panes := AList.update new_id (total_cols, total_rows) (w_serial_panes w),
                w_focused_pane_id := new_id,
                w_pane_order := w_pane_order w @ [new_id]\<rparr>)))"

definition set_layout_mode :: "layout_mode \<Rightarrow> nat \<Rightarrow> nat \<Rightarrow> window \<Rightarrow> window" where
  "set_layout_mode mode cols rows w = resize_all_panes cols rows (w\<lparr>w_layout_mode := mode\<rparr>)"

section \<open>Floating panes\<close>

definition open_floating_pane ::
  "nat \<Rightarrow> bool \<Rightarrow> nat \<Rightarrow> nat \<Rightarrow> window \<Rightarrow> (nat \<times> float_rect) option \<times> window" where
  "open_floating_pane new_id spawn_ok total_cols total_rows w =
     (let w1 = w\<lparr>w_last_cols := total_cols, w_last_rows := total_rows\<rparr>;
          fp_cols = as_u16 (mul32 (u16_as_f32 total_cols) F0_6);
          fp_rows = as_u16 (mul32 (u16_as_f32 total_rows) F0_7);
          rect = clamp_to total_cols total_rows
            \<lparr>fr_col_off = (total_cols - fp_cols) div 2, fr_row_off = (total_rows - fp_rows) div 2,
             fr_cols = fp_cols, fr_rows = fp_rows\<rparr> in
      if \<not> spawn_ok then (None, w1)
      else (Some (new_id, rect),
        w1\<lparr>w_floating_panes :=
             AList.update new_id ((fr_cols rect, fr_rows rect), rect) (w_floating_panes w1)\<rparr>))"

definition close_floating_pane :: "nat \<Rightarrow> window \<Rightarrow> bool \<times> window" where
  "close_floating_pane i w =
     (has_key i (w_floating_panes w), w\<lparr>w_floating_panes := AList.delete i (w_floating_panes w)\<rparr>)"

definition move_floating_pane :: "nat \<Rightarrow> nat \<Rightarrow> nat \<Rightarrow> window \<Rightarrow> float_rect option \<times> window" where
  "move_floating_pane i col_off row_off w =
     (case map_of (w_floating_panes w) i of
        None \<Rightarrow> (None, w)
      | Some (sz, rect) \<Rightarrow>
          (let r = clamp_to (w_last_cols w) (w_last_rows w)
                 (rect\<lparr>fr_col_off := col_off, fr_row_off := row_off\<rparr>) in
           (Some r, w\<lparr>w_floating_panes := AList.update i (sz, r) (w_floating_panes w)\<rparr>)))"

definition resize_floating_pane :: "nat \<Rightarrow> nat \<Rightarrow> nat \<Rightarrow> window \<Rightarrow> float_rect option \<times> window" where
  "resize_floating_pane i cols rows w =
     (case map_of (w_floating_panes w) i of
        None \<Rightarrow> (None, w)
      | Some (sz, rect) \<Rightarrow>
          (let r = clamp_to (w_last_cols w) (w_last_rows w)
                 (rect\<lparr>fr_cols := cols, fr_rows := rows\<rparr>) in
           (Some r, w\<lparr>w_floating_panes :=
              AList.update i ((fr_cols r, fr_rows r), r) (w_floating_panes w)\<rparr>)))"

section \<open>Messages, order, zoom, focus\<close>

record pane_layout =
  pl_pane_id :: nat
  pl_col_offset :: nat
  pl_row_offset :: nat
  pl_cols :: nat
  pl_rows :: nat
  pl_is_focused :: bool

definition to_pane_layout :: "nat \<Rightarrow> pane_rect \<Rightarrow> pane_layout" where
  "to_pane_layout focused r =
     \<lparr>pl_pane_id = pr_pane_id r, pl_col_offset = pr_col_off r, pl_row_offset = pr_row_off r,
      pl_cols = pr_cols r, pl_rows = pr_rows r, pl_is_focused = (pr_pane_id r = focused)\<rparr>"

text \<open>
  The lookup map is collected from the rectangles, so that of two rectangles with the same
  id the later one would be found.
\<close>

definition layout_changed_msg :: "nat \<Rightarrow> nat \<Rightarrow> window \<Rightarrow> pane_layout list \<times> nat" where
  "layout_changed_msg cols rows w =
     (let focused = w_focused_pane_id w in
      if w_zoomed w then
        ([\<lparr>pl_pane_id = focused, pl_col_offset = 0, pl_row_offset = 0, pl_cols = cols,
           pl_rows = rows, pl_is_focused = True\<rparr>], focused)
      else
        let rects = compute_layouts cols rows w;
            rect_by_id = map_of (rev (map (\<lambda>r. (pr_pane_id r, r)) rects)) in
        (map (to_pane_layout focused) (List.map_filter rect_by_id (w_pane_order w))
         @ map (to_pane_layout focused)
             (filter (\<lambda>r. pr_pane_id r \<notin> set (w_pane_order w)) rects),
         focused))"

definition reorder_panes :: "nat list \<Rightarrow> window \<Rightarrow> bool \<times> window" where
  "reorder_panes new_order w =
     (let next = compute_reordered (w_pane_order w) new_order (pane_ids w) in
      if next = w_pane_order w then (False, w) else (True, w\<lparr>w_pane_order := next\<rparr>))"

definition toggle_zoom :: "nat \<Rightarrow> nat \<Rightarrow> window \<Rightarrow> bool \<times> window" where
  "toggle_zoom cols rows w =
     (let w1 = w\<lparr>w_zoomed := \<not> w_zoomed w\<rparr> in
      (w_zoomed w1,
       if w_zoomed w1 then
         (if has_key (w_focused_pane_id w1) (w_panes w1)
          then w1\<lparr>w_panes := AList.update (w_focused_pane_id w1) (cols, rows) (w_panes w1)\<rparr> else w1)
       else resize_all_panes cols rows w1))"

definition set_focused_pane :: "nat \<Rightarrow> window \<Rightarrow> window" where
  "set_focused_pane i w = (if has_key i (w_panes w) then w\<lparr>w_focused_pane_id := i\<rparr> else w)"

fun index_of :: "'a \<Rightarrow> 'a list \<Rightarrow> nat option" where
  "index_of x [] = None"
| "index_of x (y # ys) = (if x = y then Some 0 else map_option Suc (index_of x ys))"

definition sorted_pane_ids :: "window \<Rightarrow> nat list" where
  "sorted_pane_ids w = sort (map fst (w_panes w))"

definition focus_next :: "window \<Rightarrow> window" where
  "focus_next w =
     (let ids = sorted_pane_ids w in
      case index_of (w_focused_pane_id w) ids of
        None \<Rightarrow> w
      | Some pos \<Rightarrow> w\<lparr>w_focused_pane_id := ids ! ((pos + 1) mod length ids)\<rparr>)"

definition focus_prev :: "window \<Rightarrow> window" where
  "focus_prev w =
     (let ids = sorted_pane_ids w in
      case index_of (w_focused_pane_id w) ids of
        None \<Rightarrow> w
      | Some pos \<Rightarrow>
          w\<lparr>w_focused_pane_id := ids ! (if pos = 0 then length ids - 1 else pos - 1)\<rparr>)"

section \<open>Removing, swapping and moving panes\<close>

definition drop_pane_order :: "nat \<Rightarrow> nat list \<Rightarrow> nat list" where
  "drop_pane_order i order = filter (\<lambda>j. j \<noteq> i) order"

definition remove_focused_pane :: "nat \<Rightarrow> nat \<Rightarrow> window \<Rightarrow> (nat option \<times> window) option" where
  "remove_focused_pane cols rows w =
     (if length (w_panes w) \<le> 1 then Some (None, w)
      else let target = w_focused_pane_id w;
               w1 = w\<lparr>w_layout := snd (sn_remove (w_layout w) target),
                      w_panes := AList.delete target (w_panes w),
                      w_serial_panes := AList.delete target (w_serial_panes w),
                      w_pane_order := drop_pane_order target (w_pane_order w)\<rparr> in
        case sorted_pane_ids w1 of
          [] \<Rightarrow> None
        | next_id # _ \<Rightarrow>
            (let w2 = w1\<lparr>w_focused_pane_id := next_id\<rparr> in
             Some (Some target, resize_ptys (compute_layouts cols rows w2) w2)))"

definition adjust_split_ratio :: "f32 \<Rightarrow> nat \<Rightarrow> nat \<Rightarrow> window \<Rightarrow> window" where
  "adjust_split_ratio delta cols rows w =
     (case adjust_ratio_for (w_layout w) (w_focused_pane_id w) delta of
        (done, layout) \<Rightarrow>
          (let w1 = w\<lparr>w_layout := layout\<rparr> in
           if done then resize_ptys (compute_layouts cols rows w1) w1 else w1))"

definition swap_focused_with :: "nat \<Rightarrow> window \<Rightarrow> window" where
  "swap_focused_with target w =
     (let focused = w_focused_pane_id w in
      if focused \<noteq> target then w\<lparr>w_layout := snd (swap_ids (w_layout w) focused target)\<rparr> else w)"

definition swap_with_next :: "window \<Rightarrow> window" where
  "swap_with_next w =
     (let ids = sorted_pane_ids w in
      case index_of (w_focused_pane_id w) ids of
        None \<Rightarrow> w
      | Some pos \<Rightarrow>
          w\<lparr>w_layout := snd (swap_ids (w_layout w) (w_focused_pane_id w) (ids ! ((pos + 1) mod length ids)))\<rparr>)"

definition swap_with_prev :: "window \<Rightarrow> window" where
  "swap_with_prev w =
     (let ids = sorted_pane_ids w in
      case index_of (w_focused_pane_id w) ids of
        None \<Rightarrow> w
      | Some pos \<Rightarrow>
          w\<lparr>w_layout := snd (swap_ids (w_layout w) (w_focused_pane_id w)
             (if pos = 0 then ids ! (length ids - 1) else ids ! (pos - 1)))\<rparr>)"

text \<open>The pane taken out of the window, or nothing.\<close>

definition take_focused_pane ::
  "nat \<Rightarrow> nat \<Rightarrow> window \<Rightarrow> ((nat \<times> psize) option \<times> window) option" where
  "take_focused_pane cols rows w =
     (if length (w_panes w) \<le> 1 then Some (None, w)
      else let target = w_focused_pane_id w;
               w1 = w\<lparr>w_layout := snd (sn_remove (w_layout w) target)\<rparr> in
        if has_key target (w_serial_panes w1) then Some (None, w1)
        else case map_of (w_panes w1) target of
          None \<Rightarrow> Some (None, w1)
        | Some sz \<Rightarrow>
            (let w2 = w1\<lparr>w_panes := AList.delete target (w_panes w1),
                         w_pane_order := drop_pane_order target (w_pane_order w1)\<rparr> in
             case sorted_pane_ids w2 of
               [] \<Rightarrow> None
             | next_id # _ \<Rightarrow>
                 (let w3 = w2\<lparr>w_focused_pane_id := next_id, w_zoomed := False\<rparr> in
                  Some (Some (target, sz), resize_ptys (compute_layouts cols rows w3) w3))))"

definition into_single_pane :: "window \<Rightarrow> (nat \<times> psize) option" where
  "into_single_pane w =
     (if w_serial_panes w \<noteq> [] then None
      else case w_panes w of [p] \<Rightarrow> Some p | _ \<Rightarrow> None)"

definition take_pane_by_id ::
  "nat \<Rightarrow> nat \<Rightarrow> nat \<Rightarrow> window \<Rightarrow> ((nat \<times> psize) option \<times> window) option" where
  "take_pane_by_id i cols rows w =
     (if length (w_panes w) \<le> 1 then Some (None, w)
      else if has_key i (w_serial_panes w) then Some (None, w)
      else case map_of (w_panes w) i of
        None \<Rightarrow> Some (None, w)
      | Some sz \<Rightarrow>
          (let w1 = w\<lparr>w_layout := snd (sn_remove (w_layout w) i),
                      w_panes := AList.delete i (w_panes w),
                      w_pane_order := drop_pane_order i (w_pane_order w)\<rparr> in
           case (if w_focused_pane_id w1 = i then
                   (case sorted_pane_ids w1 of [] \<Rightarrow> None | n # _ \<Rightarrow> Some n)
                 else Some (w_focused_pane_id w1)) of
             None \<Rightarrow> None
           | Some focus \<Rightarrow>
               (let w2 = w1\<lparr>w_focused_pane_id := focus, w_zoomed := False\<rparr> in
                Some (Some (i, sz), resize_ptys (compute_layouts cols rows w2) w2))))"

definition insert_pane_at ::
  "nat \<times> psize \<Rightarrow> nat \<Rightarrow> nat \<Rightarrow> split_dir \<Rightarrow> nat option \<Rightarrow> window \<Rightarrow> window" where
  "insert_pane_at pane total_cols total_rows dir position w =
     (let new_id = fst pane;
          w1 = w\<lparr>w_layout := snd (insert_after (w_layout w) (w_focused_pane_id w) new_id dir),
                 w_panes := AList.update new_id (snd pane) (w_panes w),
                 w_focused_pane_id := new_id, w_zoomed := False\<rparr>;
          focused_index = index_of (w_focused_pane_id w1) (w_pane_order w1);
          new_pos = compute_insert_position (length (w_pane_order w1)) position focused_index;
          w2 = w1\<lparr>w_pane_order := insert_at new_pos new_id (w_pane_order w1)\<rparr> in
      resize_ptys (compute_layouts total_cols total_rows w2) w2)"

definition insert_pane :: "nat \<times> psize \<Rightarrow> nat \<Rightarrow> nat \<Rightarrow> split_dir \<Rightarrow> window \<Rightarrow> window" where
  "insert_pane pane total_cols total_rows dir w = insert_pane_at pane total_cols total_rows dir None w"

definition pane_count :: "window \<Rightarrow> nat" where
  "pane_count w = length (w_panes w) + length (w_serial_panes w)"

section \<open>Snapshots\<close>

record 'c window_snapshot =
  ws_id :: nat
  ws_name :: rstr
  ws_focused_pane_id :: nat
  ws_layout :: "'c snapshot_node"

text \<open>\<open>cwd\<close> gives the working directory of a pane (read from the operating system).\<close>

fun fill_cwd_in_snapshot ::
  "(nat \<Rightarrow> 'c option) \<Rightarrow> window \<Rightarrow> 'c snapshot_node \<Rightarrow> 'c snapshot_node" where
  "fill_cwd_in_snapshot cwd w (PaneSnapshot p c) =
     (if has_key p (w_panes w) then PaneSnapshot p (cwd p)
      else if has_key p (w_serial_panes w) then PaneSnapshot p (cwd p)
      else PaneSnapshot p c)"
| "fill_cwd_in_snapshot cwd w (SplitSnapshot d r left right) =
     SplitSnapshot d r (fill_cwd_in_snapshot cwd w left) (fill_cwd_in_snapshot cwd w right)"

definition window_to_snapshot :: "(nat \<Rightarrow> 'c option) \<Rightarrow> window \<Rightarrow> 'c window_snapshot" where
  "window_to_snapshot cwd w =
     \<lparr>ws_id = w_id w, ws_name = w_name w, ws_focused_pane_id = w_focused_pane_id w,
      ws_layout = fill_cwd_in_snapshot cwd w (to_snapshot (w_layout w))\<rparr>"

text \<open>
  \<open>spawn_ok\<close> is the outcome of the external spawn of a pane with its id, size and
  directory.  The first failure ends the restore.
\<close>

definition window_restore ::
  "(nat \<times> nat \<times> nat \<Rightarrow> 'c option \<Rightarrow> bool) \<Rightarrow> 'c window_snapshot \<Rightarrow> nat \<Rightarrow> nat \<Rightarrow> window option" where
  "window_restore spawn_ok snap cols rows =
     (case find_duplicate_pane_id (ws_layout snap) of
        Some _ \<Rightarrow> None
      | None \<Rightarrow>
          (let size_map = compute_pane_sizes (ws_layout snap) cols rows in
           if list_all (\<lambda>e. spawn_ok e (find_cwd_in_snapshot (ws_layout snap) (fst e))) size_map
           then Some \<lparr>w_id = ws_id snap, w_name = ws_name snap,
               w_panes = fold (\<lambda>(i, c, r). AList.update i (c, r)) size_map [],
               w_serial_panes = [], w_focused_pane_id = ws_focused_pane_id snap,
               w_layout = from_snapshot (ws_layout snap), w_zoomed = False,
               w_layout_mode = BspMode, w_floating_panes = [], w_last_cols = cols,
               w_last_rows = rows, w_pane_order = map fst size_map\<rparr>
           else None))"

end
