(* ===== verification/Server_Msg.thy ===== *)
theory Server_Msg
  imports Pane_Mirror Window
begin

text \<open>
  The messages from the server to its clients (\<open>ServerToClient\<close> of
  \<open>nexterm-proto/src/message.rs\<close>): those the pane reader and the windows of this
  development produce, with the id of the pane first, and the answers to the requests of
  \<open>Dispatch\<close>.  The remaining variants of the enum report on files, plugins and transfers.
\<close>

record session_info =
  si_name :: rstr
  si_window_count :: nat
  si_attached :: bool
  si_workspace_name :: rstr

record window_info =
  wi_window_id :: nat
  wi_name :: rstr
  wi_pane_count :: nat
  wi_is_focused :: bool

record workspace_info =
  ki_name :: rstr
  ki_session_count :: nat
  ki_is_active :: bool

datatype server_msg =
    FullRefresh nat grid
  | GridDiff nat grid_diff
  | ServerError rstr
  | LayoutChanged "pane_layout list" nat
  | Bell nat
  | TitleChanged nat rstr
  | PointerShapeChanged nat rstr
  | ProgressChanged nat nat nat
  | PaneColorsChanged nat color_overrides
  | DesktopNotification nat rstr rstr
  | ClipboardWriteRequest nat rstr
  | CwdChanged nat rstr
  | SemanticMarkSent nat nat string "int option"
  | ImagePlaced nat pending_image
  | TextSized nat text_sizing_event
  | PaneClosed nat
  | SessionList "session_info list"
  | Pong
  | WindowListChanged "window_info list"
  | ProcessChanged nat "rstr option"
  | BroadcastModeChanged bool
  | ZoomChanged bool
  | PaneBroken nat nat
  | SerialConnected nat rstr
  | FloatingPaneOpened nat float_rect
  | FloatingPaneMoved nat float_rect
  | FloatingPaneClosed nat
  | WorkspaceList rstr "workspace_info list"
  | WorkspaceSwitched rstr
  | QuakeToggleRequest rstr
  | HelloAck nat rstr
  | ForegroundProcessStatus nat bool

end
