(* ===== verification/Pane_Codec.thy ===== *)
theory Pane_Codec
  imports Screen_Osc
begin

text \<open>
  The encoders of the pane (\<open>nexterm-server/src/pane.rs\<close>): Base64, the replies that
  serve a drag-and-drop payload, and the \<open>file://\<close> form of a path.  Each is shown to be
  the inverse of the decoder at the other end: the Base64 decoder of \<open>image.rs\<close>, and
  the OSC 7 reader of \<open>screen.rs\<close>.
\<close>

section \<open>Base64\<close>

definition ALPHABET :: rstr where
  "ALPHABET = lit ''ABCDEFGHIJKLMNOPQRSTUVWXYZabcdefghijklmnopqrstuvwxyz0123456789+/''"

text \<open>\<open>chunks(n)\<close> of a slice, with a shorter last chunk.  The source never asks for \<open>n = 0\<close>.\<close>

function chunks :: "nat \<Rightarrow> 'a list \<Rightarrow> 'a list list" where
  "chunks n xs = (if xs = [] \<or> n = 0 then [] else take n xs # chunks n (drop n xs))"
  by pat_completeness auto
termination by (relation "measure (\<lambda>(_, xs). length xs)") auto

declare chunks.simps [simp del]

definition byte_or_0 :: "byte list \<Rightarrow> nat \<Rightarrow> byte" where
  "byte_or_0 c k = (case lget c k of None \<Rightarrow> 0 | Some b \<Rightarrow> b)"

text \<open>The 24 bits of a chunk and the character of one of its sextets.\<close>

definition bits24 :: "byte list \<Rightarrow> 32 word" where
  "bits24 c =
     push_bit 16 (ucast (byte_or_0 c 0)) OR push_bit 8 (ucast (byte_or_0 c 1)) OR ucast (byte_or_0 c 2)"

definition sextet_char :: "32 word \<Rightarrow> nat \<Rightarrow> uchar" where
  "sextet_char n k = ALPHABET ! unat (drop_bit k n AND 63)"

definition base64_quad :: "byte list \<Rightarrow> rstr" where
  "base64_quad c =
     (let n = bits24 c in
      [sextet_char n 18, sextet_char n 12,
       if length c > 1 then sextet_char n 6 else 61,
       if length c > 2 then sextet_char n 0 else 61])"

definition base64_encode :: "byte list \<Rightarrow> rstr" where
  "base64_encode data = concat (map base64_quad (chunks 3 data))"

lemma alphabet_table: "\<forall>n < 64. ALPHABET ! n = unat (enc6 (of_nat n))"
  by code_simp

lemma alphabet_enc6: "s < 64 \<Longrightarrow> ALPHABET ! unat s = unat (enc6 s)"
proof -
  assume "s < 64"
  then have "unat s < 64" by (simp add: word_less_nat_alt)
  with alphabet_table have "ALPHABET ! unat s = unat (enc6 (of_nat (unat s)))" by blast
  then show ?thesis by simp
qed

lemma bit_u8_lt: "bit (x :: u8) n \<Longrightarrow> n < 8"
  using bit_u8_ge not_le by blast

lemma sextet_of_bits:
  fixes x y z :: u8
  defines "n \<equiv> push_bit 16 (ucast x) OR push_bit 8 (ucast y) OR ucast z :: 32 word"
  shows "drop_bit 18 n AND 63 = ucast (drop_bit 2 x)"
    "drop_bit 12 n AND 63 = ucast (push_bit 4 (x AND 3) OR drop_bit 4 y)"
    "drop_bit 6 n AND 63 = ucast (push_bit 2 (y AND 15) OR drop_bit 6 z)"
    "drop_bit 0 n AND 63 = ucast (z AND 63)"
proof -
  have m: "(63 :: 32 word) = mask 6" "(63 :: u8) = mask 6" "(3 :: u8) = mask 2" "(15 :: u8) = mask 4"
    by (simp_all add: mask_eq_exp_minus_1)
  have lt: "bit v (Suc (Suc k)) \<Longrightarrow> k < 6" "bit v (4 + k) \<Longrightarrow> k < 4" "bit v (6 + k) \<Longrightarrow> k < 2"
    for v :: u8 and k by (auto dest: bit_u8_lt)
  have lt: "bit v (Suc (Suc k)) \<Longrightarrow> k < 6" "bit v (4 + k) \<Longrightarrow> k < 6" "bit v (6 + k) \<Longrightarrow> k < 6"
    for v :: u8 and k using lt [of v k] by auto
  show "drop_bit 18 n AND 63 = ucast (drop_bit 2 x)"
    unfolding m n_def by (rule bit_word_eqI) (auto simp: bit_simps bit_u8_ge dest: lt)
  show "drop_bit 12 n AND 63 = ucast (push_bit 4 (x AND 3) OR drop_bit 4 y)"
    unfolding m n_def by (rule bit_word_eqI) (auto simp: bit_simps bit_u8_ge dest: lt)
  show "drop_bit 6 n AND 63 = ucast (push_bit 2 (y AND 15) OR drop_bit 6 z)"
    unfolding m n_def by (rule bit_word_eqI) (auto simp: bit_simps bit_u8_ge dest: lt)
  show "drop_bit 0 n AND 63 = ucast (z AND 63)"
    unfolding m n_def by (rule bit_word_eqI) (auto simp: bit_simps bit_u8_ge dest: lt)
qed

lemma unat_up: "unat (ucast (s :: u8) :: 32 word) = unat s"
proof -
  have "unat s < 2 ^ 32" using unat_u8_less [of s] by (rule order.strict_trans) simp
  then show ?thesis by (simp add: unsigned_ucast_eq take_bit_nat_eq_self)
qed

lemma sextet_char_enc6:
  assumes "drop_bit k n AND 63 = ucast s" "s < 64"
  shows "sextet_char n k = unat (enc6 s)"
  by (simp add: sextet_char_def assms(1) unat_up alphabet_enc6 [OF assms(2)])

lemma sextet_chars_of_bits:
  fixes x y z :: u8
  defines "n \<equiv> push_bit 16 (ucast x) OR push_bit 8 (ucast y) OR ucast z :: 32 word"
  shows "sextet_char n 18 = unat (enc6 (drop_bit 2 x))"
    "sextet_char n 12 = unat (enc6 (push_bit 4 (x AND 3) OR drop_bit 4 y))"
    "sextet_char n 6 = unat (enc6 (push_bit 2 (y AND 15) OR drop_bit 6 z))"
    "sextet_char n 0 = unat (enc6 (z AND 63))"
  unfolding n_def
  by (rule sextet_char_enc6 [OF sextet_of_bits(1) sextets_lt(1)]
      sextet_char_enc6 [OF sextet_of_bits(2) sextets_lt(2)]
      sextet_char_enc6 [OF sextet_of_bits(3) sextets_lt(3)]
      sextet_char_enc6 [OF sextet_of_bits(4) sextets_lt(4)])+

lemma bits24_simps:
  "bits24 (x # y # z # r) = push_bit 16 (ucast x) OR push_bit 8 (ucast y) OR ucast z"
  "bits24 [x, y] = push_bit 16 (ucast x) OR push_bit 8 (ucast y) OR ucast (0 :: u8)"
  "bits24 [x] = push_bit 16 (ucast x) OR push_bit 8 (ucast (0 :: u8)) OR ucast (0 :: u8)"
  by (simp_all add: bits24_def byte_or_0_def lget_def)

lemma chunks3:
  "chunks 3 (x # y # z # r) = [x, y, z] # chunks 3 r"
  "chunks 3 [x, y] = [[x, y]]" "chunks 3 [x] = [[x]]" "chunks n [] = []"
  by (simp_all add: chunks.simps [of 3] chunks.simps [of n "[]"])

lemma base64_quad_std:
  "base64_quad [x, y, z] = map unat
     [enc6 (drop_bit 2 x), enc6 (push_bit 4 (x AND 3) OR drop_bit 4 y),
      enc6 (push_bit 2 (y AND 15) OR drop_bit 6 z), enc6 (z AND 63)]"
  "base64_quad [x, y] = map unat
     [enc6 (drop_bit 2 x), enc6 (push_bit 4 (x AND 3) OR drop_bit 4 y),
      enc6 (push_bit 2 (y AND 15)), 61]"
  "base64_quad [x] = map unat [enc6 (drop_bit 2 x), enc6 (push_bit 4 (x AND 3)), 61, 61]"
  using sextet_chars_of_bits [of x y z] sextet_chars_of_bits [of x y 0] sextet_chars_of_bits [of x 0 0]
  by (simp_all only: base64_quad_def bits24_simps Let_def) simp_all

text \<open>The encoder computes the standard encoding, as characters.\<close>

lemma base64_encode_std: "base64_encode bs = map unat (base64_std bs)"
  by (induction bs rule: base64_std.induct)
    (simp_all add: base64_encode_def chunks3 base64_quad_std)

lemma base64_encode_ascii: "list_all (\<lambda>c. c < 128) (base64_encode bs)"
proof -
  have t: "\<forall>n < 64. ALPHABET ! n < 128" by code_simp
  have "unat (enc6 s) < 128" if "s < 64" for s
  proof -
    have "unat s < 64" using that by (simp add: word_less_nat_alt)
    with t have "ALPHABET ! unat s < 128" by blast
    then show ?thesis by (simp only: alphabet_enc6 [OF that])
  qed
  then show ?thesis unfolding base64_encode_std
    by (induction bs rule: base64_std.induct) (simp_all add: sextets_lt del: push_bit_and)
qed

lemma as_bytes_base64: "as_bytes (base64_encode bs) = base64_std bs"
  by (simp add: as_bytes_ascii base64_encode_ascii) (simp add: base64_encode_std comp_def)

section \<open>Drag-and-drop replies\<close>

definition DND_CHUNK_BYTES :: nat where
  "DND_CHUNK_BYTES = 4096"

definition dnd_head :: "nat \<Rightarrow> string \<Rightarrow> byte list" where
  "dnd_head index rest = as_bytes (ESC @ lit '']72;t=r:x='' @ dec index @ lit rest)"

definition dnd_tail :: "byte list" where
  "dnd_tail = as_bytes (ESC @ [92])"

definition build_dnd_data_replies :: "nat \<Rightarrow> rstr option \<Rightarrow> byte list list" where
  "build_dnd_data_replies index payload =
     (case (if index = 1 then payload else None) of
        None \<Rightarrow> [as_bytes (ESC @ lit '']72;t=R:x='' @ dec index @ lit '';ENOENT'' @ ESC @ [92])]
      | Some p \<Rightarrow>
          map (\<lambda>c. dnd_head index '':m=1;'' @ c @ dnd_tail)
            (chunks DND_CHUNK_BYTES (as_bytes (base64_encode (as_bytes p))))
          @ [dnd_head index '':m=0;'' @ dnd_tail])"

lemma chunks_concat: "0 < n \<Longrightarrow> concat (chunks n xs) = xs"
proof (induction n xs rule: chunks.induct)
  case (1 n xs)
  then show ?case by (cases "xs = []") (simp_all add: chunks.simps [of n xs] chunks3)
qed

lemma chunks_bound: "c \<in> set (chunks n xs) \<Longrightarrow> c \<noteq> [] \<and> length c \<le> n"
proof (induction n xs rule: chunks.induct)
  case (1 n xs)
  show ?case
  proof (cases "xs = [] \<or> n = 0")
    case True
    then show ?thesis using 1(2) by (auto simp: chunks.simps [of n xs])
  next
    case False
    then have "c = take n xs \<or> c \<in> set (chunks n (drop n xs))"
      using 1(2) by (simp add: chunks.simps [of n xs])
    then show ?thesis using False 1(1) by auto
  qed
qed

section \<open>Paths as URIs\<close>

definition uri_plain :: "nat \<Rightarrow> bool" where
  "uri_plain b \<longleftrightarrow> (65 \<le> b \<and> b \<le> 90) \<or> (97 \<le> b \<and> b \<le> 122) \<or> (48 \<le> b \<and> b \<le> 57)
     \<or> b = 47 \<or> b = 58 \<or> b = 45 \<or> b = 95 \<or> b = 46 \<or> b = 126"

definition upper_hexd :: "nat \<Rightarrow> uchar" where
  "upper_hexd n = (if n < 10 then 48 + n else 55 + n)"

definition uri_byte :: "byte \<Rightarrow> rstr" where
  "uri_byte b =
     (if uri_plain (unat b) then [unat b]
      else [37, upper_hexd (unat b div 16), upper_hexd (unat b mod 16)])"

definition uri_path :: "rstr \<Rightarrow> rstr" where
  "uri_path s = concat (map uri_byte (as_bytes s))"

definition slashes :: "rstr \<Rightarrow> rstr" where
  "slashes path = map (\<lambda>c. if c = 92 then 47 else c) path"

definition path_to_file_uri :: "rstr \<Rightarrow> rstr" where
  "path_to_file_uri path =
     (let normalized = slashes path in
      lit ''file://'' @ (if starts_with normalized [47] then [] else [47]) @ uri_path normalized)"

lemma uri_plain_ascii: "uri_plain b \<Longrightarrow> b < 128"
  by (auto simp: uri_plain_def)

lemma upper_hexd_less: "n < 16 \<Longrightarrow> upper_hexd n < 128"
  by (simp add: upper_hexd_def)

lemma hex_digit_upper: "n < 16 \<Longrightarrow> hex_digit (upper_hexd n) = Some n"
  by (auto simp: hex_digit_def upper_hexd_def)

lemma nibbles: "unat (b :: u8) div 16 < 16" "unat (b :: u8) mod 16 < 16"
  using unat_u8_less [of b] by (auto intro: less_mult_imp_div_less)

lemma uri_byte_ascii: "list_all (\<lambda>c. c < 128) (uri_byte b)"
  by (auto simp: uri_byte_def upper_hexd_less nibbles dest: uri_plain_ascii)

lemma uri_path_ascii: "list_all (\<lambda>c. c < 128) (uri_path s)"
proof -
  have "list_all (\<lambda>c. c < 128) (concat (map uri_byte bs))" for bs
    by (induction bs) (simp_all add: uri_byte_ascii)
  then show ?thesis by (simp add: uri_path_def)
qed

lemma unat_upper_hexd: "n < 16 \<Longrightarrow> unat (of_nat (upper_hexd n) :: u8) = upper_hexd n"
  by (simp add: unat_of_nat_u8 upper_hexd_less [THEN order.strict_trans])

lemma percent_bytes_uri_byte: "percent_bytes (map of_nat (uri_byte b) @ r) = b # percent_bytes r"
proof (cases "uri_plain (unat b)")
  case True
  then have "b \<noteq> 37" by (auto simp: uri_plain_def)
  with True show ?thesis by (simp add: uri_byte_def percent_bytes_literal)
next
  case False
  then show ?thesis
    by (simp add: uri_byte_def unat_upper_hexd nibbles hex_digit_upper)
qed

lemma percent_bytes_uri: "percent_bytes (map of_nat (concat (map uri_byte bs))) = bs"
  by (induction bs) (simp_all add: percent_bytes_uri_byte)

lemma percent_decode_uri: "list_all is_scalar s \<Longrightarrow> percent_decode (uri_path s) = s"
proof -
  assume s: "list_all is_scalar s"
  show ?thesis
    by (simp add: percent_decode_def as_bytes_ascii uri_path_ascii)
      (simp add: uri_path_def percent_bytes_uri from_utf8_lossy_as_bytes s)
qed

lemma str_len_uri_path: "str_len (uri_path s) \<le> 3 * str_len s"
proof -
  have "length (concat (map uri_byte bs)) \<le> 3 * length bs" for bs
    by (induction bs) (simp_all add: uri_byte_def)
  from this [of "as_bytes s"] show ?thesis
    unfolding str_len_ascii [OF uri_path_ascii] unfolding uri_path_def length_as_bytes .
qed

lemma uri_path_slash: "uri_path (47 # p) = 47 # uri_path p"
  by (simp add: uri_path_def as_bytes_def utf8_enc_def uri_byte_def uri_plain_def)

text \<open>An absolute path in the form a shell reports it, with or without a host name.\<close>

lemma parse_osc7_uri:
  assumes "list_all is_scalar path" "osc_clean MAX_CWD_LEN path" "path = 47 # p"
    and "47 \<notin> set host" "str_len host \<le> 4089"
  shows "parse_osc7_cwd (lit ''file://'' @ host @ uri_path path) = Some path"
proof -
  have "str_len (uri_path path) \<le> 3 * 4096"
    using str_len_uri_path [of path] assms(2) by (simp add: osc_clean_def MAX_CWD_LEN_def)
  moreover have "str_len (lit ''file://'') = 7" by (simp add: lit_def str_len_def len_utf8_def)
  ultimately have len: "str_len (lit ''file://'' @ host @ uri_path path) \<le> MAX_CWD_LEN * 4"
    using assms(5) by (simp add: MAX_CWD_LEN_def)
  have ne: "path \<noteq> []" "lit ''file://'' \<noteq> []" using assms(3) by (simp_all add: lit_def)
  have strip: "strip_prefix (lit ''file://'') (lit ''file://'' @ r) = Some r" for r
    by (simp add: strip_prefix_def)
  have enc: "uri_path path = 47 # uri_path p" by (simp add: assms(3) uri_path_slash)
  have "takeWhile (\<lambda>x. x \<noteq> 47) (host @ 47 # uri_path p) = host"
    using assms(4) by (induction host) auto
  then have pos: "position (\<lambda>c. c = 47) (host @ uri_path path) = Some (length host)"
    by (simp add: position_def enc)
  show ?thesis
    using len ne
    by (simp add: parse_osc7_cwd_def strip pos Let_def percent_decode_uri [OF assms(1)]
        sanitize_id [OF assms(2)] linorder_not_less del: str_len_append)
qed

lemma parse_osc7_file_uri:
  assumes "full = (if starts_with (slashes path) [47] then slashes path else 47 # slashes path)"
    and "list_all is_scalar full" "osc_clean MAX_CWD_LEN full"
  shows "parse_osc7_cwd (path_to_file_uri path) = Some full"
proof -
  obtain p where p: "full = 47 # p"
    using assms(1) by (cases "slashes path") (auto simp: starts_with_def split: if_splits)
  have "path_to_file_uri path = lit ''file://'' @ [] @ uri_path full"
    by (simp add: path_to_file_uri_def Let_def assms(1) uri_path_slash)
  then show ?thesis using parse_osc7_uri [OF assms(2,3) p, of "[]"] by (simp add: str_len_def)
qed

end
