(* ===== verification/Pane_Reader.thy ===== *)
theory Pane_Reader
  imports Server_Msg Pane_Codec
begin

text \<open>
  One iteration of the PTY reader thread (\<open>nexterm-server/src/pane.rs\<close>): a chunk of
  output is parsed, queued replies are written back to the PTY, the mode flags are
  mirrored, drag-and-drop requests are answered, the changed rows are sent and every
  queue of the screen is drained into messages for the clients.  The recording files and
  the logging are not modelled; the writes to the PTY are taken to succeed and locks not to
  be poisoned.
\<close>

section \<open>Shared state and messages\<close>

record pane_shared =
  sh_mirror :: pane_mirror
  sh_scrollback_limit :: nat
  sh_bracketed_paste :: bool
  sh_mouse_mode :: nat
  sh_keyboard_flags :: u8
  sh_dnd_enabled :: bool
  sh_dnd_payload :: "rstr option"
  sh_current_cwd :: "rstr option"

definition DEFAULT_PANE_SCROLLBACK_LINES :: nat where
  "DEFAULT_PANE_SCROLLBACK_LINES = 10000"

definition shared_new :: "nat \<Rightarrow> nat \<Rightarrow> pane_shared" where
  "shared_new cols rows =
     \<lparr>sh_mirror = mirror_new cols rows, sh_scrollback_limit = DEFAULT_PANE_SCROLLBACK_LINES,
      sh_bracketed_paste = False, sh_mouse_mode = 0, sh_keyboard_flags = 0,
      sh_dnd_enabled = False, sh_dnd_payload = None, sh_current_cwd = None\<rparr>"

fun mark_kind_str :: "semantic_mark_kind \<Rightarrow> string" where
  "mark_kind_str PromptStart = ''A''"
| "mark_kind_str CommandStart = ''B''"
| "mark_kind_str OutputStart = ''C''"
| "mark_kind_str CommandEnd = ''D''"

section \<open>The steps of an iteration\<close>

definition apply_theme :: "(rgb \<times> rgb) option \<Rightarrow> screen \<Rightarrow> screen" where
  "apply_theme theme s = (case theme of None \<Rightarrow> s | Some (fg, bg) \<Rightarrow> set_default_colors fg bg s)"

definition mirror_flags :: "screen \<Rightarrow> pane_shared \<Rightarrow> pane_shared" where
  "mirror_flags s sh =
     sh\<lparr>sh_bracketed_paste := s_bracketed_paste s, sh_mouse_mode := s_mouse_mode s,
        sh_keyboard_flags := s_keyboard_protocol_flags s, sh_dnd_enabled := s_dnd_enabled s\<rparr>"

text \<open>The replies to one request, and the payload that is left.\<close>

definition answer_dnd :: "dnd_request \<Rightarrow> rstr option \<times> byte list list \<Rightarrow> rstr option \<times> byte list list" where
  "answer_dnd req st =
     (case st of (payload, out) \<Rightarrow>
        (case req of
           DndData index \<Rightarrow> (payload, out @ build_dnd_data_replies index payload)
         | DndComplete \<Rightarrow> (None, out)))"

text \<open>Taking one queue and turning what was in it into messages.\<close>

definition emit ::
  "(screen \<Rightarrow> 'a \<times> screen) \<Rightarrow> ('a \<Rightarrow> server_msg list) \<Rightarrow> screen \<times> server_msg list \<Rightarrow> screen \<times> server_msg list" where
  "emit drain msgs st = (case st of (s, out) \<Rightarrow> (case drain s of (x, s') \<Rightarrow> (s', out @ msgs x)))"

definition opt_msg :: "('a \<Rightarrow> server_msg) \<Rightarrow> 'a option \<Rightarrow> server_msg list" where
  "opt_msg f x = (case x of None \<Rightarrow> [] | Some a \<Rightarrow> [f a])"

definition mark_msg :: "nat \<Rightarrow> semantic_mark \<Rightarrow> server_msg" where
  "mark_msg i m = SemanticMarkSent i (sm_row m) (mark_kind_str (sm_kind m)) (sm_exit_code m)"

definition drain_messages :: "nat \<Rightarrow> screen \<Rightarrow> screen \<times> server_msg list" where
  "drain_messages i s =
     emit take_pending_text_sizing (map (TextSized i))
     (emit take_pending_images (map (ImagePlaced i))
     (emit take_semantic_marks (map (mark_msg i))
     (emit take_pending_cwd (opt_msg (CwdChanged i))
     (emit take_pending_clipboard_writes (map (ClipboardWriteRequest i))
     (emit take_pending_notification (opt_msg (\<lambda>(t, b). DesktopNotification i t b))
     (emit take_color_overrides_if_changed (opt_msg (PaneColorsChanged i))
     (emit take_pending_progress (opt_msg (\<lambda>(st, pr). ProgressChanged i st pr))
     (emit take_pending_pointer_shape (opt_msg (PointerShapeChanged i))
     (emit take_pending_title (opt_msg (TitleChanged i))
     (emit take_pending_bell (\<lambda>b. if b then [Bell i] else []) (s, [])))))))))))"

definition reader_chunk ::
  "'p vte \<Rightarrow> host \<Rightarrow> nat \<Rightarrow> (rgb \<times> rgb) option \<Rightarrow> byte list \<Rightarrow> 'p vt_parser \<Rightarrow> pane_shared
   \<Rightarrow> ('p vt_parser \<times> pane_shared \<times> byte list list \<times> server_msg list) option" where
  "reader_chunk vte h i theme bs p0 sh0 = do {
     p \<leftarrow> advance vte h bs (on_screen (apply_theme theme) p0);
     let (responses, s1) = take_pending_responses (vp_screen p);
     let sh1 = mirror_flags s1 sh0;
     let (reqs, s2) = take_pending_dnd_requests s1;
     let (payload, replies) = fold answer_dnd reqs (sh_dnd_payload sh1, []);
     (mirror, diff, s3) \<leftarrow> reader_burst (sh_scrollback_limit sh1) (sh_mirror sh1) s2;
     let (s4, msgs) = drain_messages i s3;
     Some (p\<lparr>vp_screen := s4\<rparr>,
       sh1\<lparr>sh_dnd_payload := payload, sh_mirror := mirror,
           sh_current_cwd := (case s_pending_cwd s3 of None \<Rightarrow> sh_current_cwd sh1 | Some c \<Rightarrow> Some c)\<rparr>,
       responses @ replies, opt_msg (GridDiff i) diff @ msgs)
   }"

text \<open>What the rest of the server does to the shared state.\<close>

definition set_scrollback_limit :: "nat \<Rightarrow> pane_shared \<Rightarrow> pane_shared" where
  "set_scrollback_limit limit sh = sh\<lparr>sh_scrollback_limit := limit\<rparr>"

text \<open>The drop event goes to the PTY, the payload waits for the data request.\<close>

definition offer_dnd_drop :: "rstr \<Rightarrow> pane_shared \<Rightarrow> byte list \<times> pane_shared" where
  "offer_dnd_drop uri_list sh =
     (as_bytes (ESC @ lit '']72;t=M:x=0:y=0:o=1;text/uri-list'' @ ESC @ [92]),
      sh\<lparr>sh_dnd_payload := Some uri_list\<rparr>)"

section \<open>The queues after an iteration\<close>

text \<open>Nothing the reader drains is left behind.\<close>

definition drained :: "screen \<Rightarrow> bool" where
  "drained s \<longleftrightarrow>
     s_pending_responses s = [] \<and> s_pending_dnd_requests s = [] \<and> \<not> s_pending_bell s
     \<and> s_pending_title s = None \<and> s_pending_pointer_shape s = None \<and> s_pending_progress s = None
     \<and> \<not> s_color_overrides_changed s \<and> s_pending_notification s = None
     \<and> s_pending_clipboard_writes s = [] \<and> s_pending_cwd s = None \<and> s_semantic_marks s = []
     \<and> s_pending_images s = [] \<and> s_pending_text_sizing s = []"

text \<open>The messages of one iteration, in terms of the screen before they are drained.\<close>

definition color_msgs :: "nat \<Rightarrow> screen \<Rightarrow> server_msg list" where
  "color_msgs i s =
     (if s_color_overrides_changed s then
        [PaneColorsChanged i \<lparr>co_fg = s_dynamic_fg s, co_bg = s_dynamic_bg s,
           co_palette = sort_key fst (s_palette_overrides s)\<rparr>] else [])"

definition queued_messages :: "nat \<Rightarrow> screen \<Rightarrow> server_msg list" where
  "queued_messages i s =
     (if s_pending_bell s then [Bell i] else [])
     @ opt_msg (TitleChanged i) (s_pending_title s)
     @ opt_msg (PointerShapeChanged i) (s_pending_pointer_shape s)
     @ opt_msg (\<lambda>(st, pr). ProgressChanged i st pr) (s_pending_progress s)
     @ color_msgs i s
     @ opt_msg (\<lambda>(t, b). DesktopNotification i t b) (s_pending_notification s)
     @ map (ClipboardWriteRequest i) (s_pending_clipboard_writes s)
     @ opt_msg (CwdChanged i) (s_pending_cwd s)
     @ map (mark_msg i) (s_semantic_marks s)
     @ map (ImagePlaced i) (s_pending_images s)
     @ map (TextSized i) (s_pending_text_sizing s)"

definition drain_all :: "screen \<Rightarrow> screen" where
  "drain_all s =
     s\<lparr>s_pending_bell := False, s_pending_title := None, s_pending_pointer_shape := None,
       s_pending_progress := None, s_color_overrides_changed := False,
       s_pending_notification := None, s_pending_clipboard_writes := [], s_pending_cwd := None,
       s_semantic_marks := [], s_pending_images := [], s_pending_text_sizing := []\<rparr>"

lemmas emit_defs = emit_def take_pending_text_sizing_def take_pending_images_def take_semantic_marks_def
  take_pending_cwd_def take_pending_clipboard_writes_def take_pending_notification_def
  take_pending_progress_def take_pending_pointer_shape_def take_pending_title_def take_pending_bell_def

lemma emit_colors:
  "emit take_color_overrides_if_changed (opt_msg (PaneColorsChanged i)) (s, out) =
     (s\<lparr>s_color_overrides_changed := False\<rparr>, out @ color_msgs i s)"
  by (simp add: emit_def take_color_overrides_if_changed_def color_msgs_def opt_msg_def)

lemma color_msgs_upd [simp]:
  "color_msgs i (s\<lparr>s_pending_bell := b\<rparr>) = color_msgs i s"
  "color_msgs i (s\<lparr>s_pending_title := t\<rparr>) = color_msgs i s"
  "color_msgs i (s\<lparr>s_pending_pointer_shape := t\<rparr>) = color_msgs i s"
  "color_msgs i (s\<lparr>s_pending_progress := pr\<rparr>) = color_msgs i s"
  by (simp_all add: color_msgs_def)

lemma drain_messages_eq: "drain_messages i s = (drain_all s, queued_messages i s)"
proof -
  let ?s4 = "s\<lparr>s_pending_bell := False, s_pending_title := None, s_pending_pointer_shape := None,
    s_pending_progress := None\<rparr>"
  have "emit take_pending_progress (opt_msg (\<lambda>(st, pr). ProgressChanged i st pr))
     (emit take_pending_pointer_shape (opt_msg (PointerShapeChanged i))
     (emit take_pending_title (opt_msg (TitleChanged i))
     (emit take_pending_bell (\<lambda>b. if b then [Bell i] else []) (s, [])))) =
    (?s4, (if s_pending_bell s then [Bell i] else [])
     @ opt_msg (TitleChanged i) (s_pending_title s)
     @ opt_msg (PointerShapeChanged i) (s_pending_pointer_shape s)
     @ opt_msg (\<lambda>(st, pr). ProgressChanged i st pr) (s_pending_progress s))"
    by (simp add: emit_defs)
  then show ?thesis
    unfolding drain_messages_def
    by (simp only: emit_colors) (simp add: emit_defs drain_all_def queued_messages_def)
qed

section \<open>One iteration\<close>

definition after_pty :: "screen \<Rightarrow> screen" where
  "after_pty s = s\<lparr>s_pending_responses := [], s_pending_dnd_requests := []\<rparr>"

definition dnd_answers :: "screen \<Rightarrow> pane_shared \<Rightarrow> rstr option \<times> byte list list" where
  "dnd_answers s sh = fold answer_dnd (s_pending_dnd_requests s) (sh_dnd_payload sh, [])"

lemma reader_chunk_eq:
  "reader_chunk vte h i theme bs p0 sh0 = do {
     p \<leftarrow> advance vte h bs (on_screen (apply_theme theme) p0);
     (mirror, diff, s3) \<leftarrow>
       reader_burst (sh_scrollback_limit sh0) (sh_mirror sh0) (after_pty (vp_screen p));
     Some (p\<lparr>vp_screen := drain_all s3\<rparr>,
       (mirror_flags (vp_screen p) sh0)\<lparr>sh_dnd_payload := fst (dnd_answers (vp_screen p) sh0),
         sh_mirror := mirror,
         sh_current_cwd := (case s_pending_cwd s3 of None \<Rightarrow> sh_current_cwd sh0 | Some c \<Rightarrow> Some c)\<rparr>,
       s_pending_responses (vp_screen p) @ snd (dnd_answers (vp_screen p) sh0),
       opt_msg (GridDiff i) diff @ queued_messages i s3)
   }"
  unfolding reader_chunk_def
  by (simp add: take_pending_responses_def take_pending_dnd_requests_def drain_messages_eq
      mirror_flags_def after_pty_def dnd_answers_def Let_def split_def cong: option.case_cong)

lemma reader_chunk_Some:
  assumes "reader_chunk vte h i theme bs p0 sh0 = Some (q, sh, pty, msgs)"
  obtains p mirror diff s3 where
    "advance vte h bs (on_screen (apply_theme theme) p0) = Some p"
    "reader_burst (sh_scrollback_limit sh0) (sh_mirror sh0) (after_pty (vp_screen p)) = Some (mirror, diff, s3)"
    "q = p\<lparr>vp_screen := drain_all s3\<rparr>"
    "pty = s_pending_responses (vp_screen p) @ snd (dnd_answers (vp_screen p) sh0)"
    "msgs = opt_msg (GridDiff i) diff @ queued_messages i s3"
    "sh = (mirror_flags (vp_screen p) sh0)\<lparr>sh_dnd_payload := fst (dnd_answers (vp_screen p) sh0),
       sh_mirror := mirror,
       sh_current_cwd := (case s_pending_cwd s3 of None \<Rightarrow> sh_current_cwd sh0 | Some c \<Rightarrow> Some c)\<rparr>"
  using assms unfolding reader_chunk_eq
  by (auto simp: Option.bind_eq_Some_conv split_def)

lemma reader_burst_queues:
  "reader_burst limit pm s = Some (pm', diff, s') \<Longrightarrow>
     \<exists>d sb. s' = s\<lparr>s_dirty := d, s_pending_scrollback := sb\<rparr>"
proof -
  assume b: "reader_burst limit pm s = Some (pm', diff, s')"
  then obtain dirty s1 where t: "take_dirty_rows s = Some (dirty, s1)"
    by (auto simp: reader_burst_def split: option.splits)
  have "\<exists>d. s1 = s\<lparr>s_dirty := d\<rparr>"
  proof (cases "s_synchronized_output s")
    case True
    then have "s1 = s\<lparr>s_dirty := s_dirty s\<rparr>" using t by (simp add: take_dirty_rows_def)
    then show ?thesis by blast
  next
    case False
    then show ?thesis using t by (auto simp: take_dirty_rows_def split: option.splits prod.splits)
  qed
  then obtain d where d: "s1 = s\<lparr>s_dirty := d\<rparr>" by blast
  have "s' = s\<lparr>s_dirty := d, s_pending_scrollback := s_pending_scrollback s\<rparr>
      \<or> s' = s\<lparr>s_dirty := d, s_pending_scrollback := []\<rparr>"
    using b t d by (auto simp: reader_burst_def Let_def take_scrolled_off_lines_def split: if_splits prod.splits)
  then show ?thesis by blast
qed

text \<open>Every queue is empty once the iteration is over.\<close>

lemma reader_chunk_drained:
  "reader_chunk vte h i theme bs p0 sh0 = Some (q, sh, pty, msgs) \<Longrightarrow> drained (vp_screen q)"
  by (erule reader_chunk_Some, drule reader_burst_queues)
    (auto simp: drained_def drain_all_def after_pty_def)

lemma queued_messages_upd:
  "queued_messages i (s\<lparr>s_dirty := d, s_pending_scrollback := sb\<rparr>) = queued_messages i s"
  "queued_messages i (after_pty s) = queued_messages i s"
  by (simp_all add: queued_messages_def color_msgs_def after_pty_def)

text \<open>The messages are the row changes, then everything the output queued, in a fixed order.\<close>

lemma reader_chunk_messages:
  assumes "reader_chunk vte h i theme bs p0 sh0 = Some (q, sh, pty, msgs)"
    and "advance vte h bs (on_screen (apply_theme theme) p0) = Some p"
  shows "\<exists>diff. msgs = opt_msg (GridDiff i) diff @ queued_messages i (vp_screen p)"
proof -
  obtain mirror diff s3 where
    b: "reader_burst (sh_scrollback_limit sh0) (sh_mirror sh0) (after_pty (vp_screen p)) = Some (mirror, diff, s3)"
    and m: "msgs = opt_msg (GridDiff i) diff @ queued_messages i s3"
    by (rule reader_chunk_Some [OF assms(1)]) (use assms(2) in simp)
  from reader_burst_queues [OF b] have "queued_messages i s3 = queued_messages i (vp_screen p)"
    by (auto simp: queued_messages_upd)
  then show ?thesis using m by auto
qed

section \<open>Reachable states\<close>

text \<open>
  The reader of a pane that was spawned with size \<open>wh\<close>, between its iterations: chunks
  of output arrive with whatever theme the clients last reported, and the server may change
  the scrollback limit or offer a drop.
\<close>

inductive reader_reach ::
  "'p vte \<Rightarrow> host \<Rightarrow> nat \<Rightarrow> 'p \<Rightarrow> nat \<times> nat \<Rightarrow> 'p vt_parser \<times> pane_shared \<Rightarrow> bool"
  for vte :: "'p vte" and h :: host and i :: nat and p0 :: 'p and wh :: "nat \<times> nat" where
  spawned: "reader_reach vte h i p0 wh (vt_new p0 (fst wh) (snd wh), shared_new (fst wh) (snd wh))"
| chunk: "reader_reach vte h i p0 wh (p, sh) \<Longrightarrow>
    reader_chunk vte h i theme bs p sh = Some (q, sh', pty, msgs) \<Longrightarrow>
    reader_reach vte h i p0 wh (q, sh')"
| limited: "reader_reach vte h i p0 wh (p, sh) \<Longrightarrow>
    reader_reach vte h i p0 wh (p, set_scrollback_limit limit sh)"
| offered: "reader_reach vte h i p0 wh (p, sh) \<Longrightarrow>
    reader_reach vte h i p0 wh (p, snd (offer_dnd_drop uri_list sh))"

lemma tracked_view: "same_view s t \<Longrightarrow> tracked wh m s \<Longrightarrow> tracked wh m t"
  using good_view [of m s t] dims_view [of s t] by (simp add: tracked_def)

lemma view_iteration:
  "same_view s (apply_theme theme s)" "same_view s (after_pty s)" "same_view s (drain_all s)"
  by (simp_all add: apply_theme_def after_pty_def drain_all_def view_simps split: option.split)

lemma bufs_iteration:
  assumes "bufs_ok s"
  shows "bufs_ok (apply_theme theme s)" "bufs_ok (after_pty s)" "bufs_ok (drain_all s)"
    "bufs_ok (s\<lparr>s_dirty := d, s_pending_scrollback := sb\<rparr>)"
  using assms by (simp_all add: apply_theme_def after_pty_def drain_all_def bufs_ok_def
      set_default_colors_def split: option.split)

lemma in_sync_theme: "in_sync wh p pm \<Longrightarrow> in_sync wh (on_screen (apply_theme theme) p) pm"
  by (auto simp: in_sync_def parser_ok_def on_screen_def intro: tracked_view view_iteration)

lemma reader_chunk_sync:
  assumes "reader_chunk vte h i theme bs p sh = Some (q, sh', pty, msgs)" "in_sync wh p (sh_mirror sh)"
  shows "in_sync wh q (sh_mirror sh')"
    and "\<not> s_synchronized_output (vp_screen q) \<Longrightarrow>
      g_rows (pm_latest_grid (sh_mirror sh')) = g_rows (s_grid (vp_screen q))"
proof -
  let ?m = "g_rows (pm_latest_grid (sh_mirror sh))"
  have "in_sync wh q (sh_mirror sh') \<and> (\<not> s_synchronized_output (vp_screen q) \<longrightarrow>
      g_rows (pm_latest_grid (sh_mirror sh')) = g_rows (s_grid (vp_screen q)))"
  proof (rule reader_chunk_Some [OF assms(1)])
    fix r mirror diff s3
    assume adv: "advance vte h bs (on_screen (apply_theme theme) p) = Some r"
      and b: "reader_burst (sh_scrollback_limit sh) (sh_mirror sh) (after_pty (vp_screen r)) = Some (mirror, diff, s3)"
      and q: "q = r\<lparr>vp_screen := drain_all s3\<rparr>"
      and "sh' = (mirror_flags (vp_screen r) sh)\<lparr>sh_dnd_payload := fst (dnd_answers (vp_screen r) sh),
        sh_mirror := mirror,
        sh_current_cwd := (case s_pending_cwd s3 of None \<Rightarrow> sh_current_cwd sh | Some c \<Rightarrow> Some c)\<rparr>"
    then have m: "sh_mirror sh' = mirror" by simp
    have ok: "parser_ok (tracked wh ?m) r" and sh: "rows_shape (fst wh) (snd wh) ?m"
      using advance_tracked [OF adv] in_sync_theme [OF assms(2)] by (simp_all add: in_sync_def)
    then have t: "tracked wh ?m (after_pty (vp_screen r))" and len: "length (vp_apc_buf r) \<le> MAX_APC_BUF_LEN"
      by (auto simp: parser_ok_def intro: tracked_view [OF view_iteration(2)])
    have drain: "tracked wh m' s3 \<Longrightarrow> rows_shape (fst wh) (snd wh) m' \<Longrightarrow> m' = g_rows (pm_latest_grid mirror) \<Longrightarrow>
        in_sync wh q mirror" for m'
      using len by (simp add: in_sync_def parser_ok_def q tracked_view [OF view_iteration(3)])
    have held: "s_synchronized_output (vp_screen q) = s_synchronized_output (after_pty (vp_screen r))"
      "s_grid (vp_screen q) = s_grid s3"
      using reader_burst_queues [OF b] by (auto simp: q drain_all_def)
    show ?thesis
    proof (cases "s_synchronized_output (after_pty (vp_screen r))")
      case True
      with reader_burst_held [OF b] have eq: "mirror = sh_mirror sh" "s3 = after_pty (vp_screen r)" by simp_all
      have "in_sync wh q mirror"
        by (rule drain [of ?m]) (simp_all only: eq t sh)
      then show ?thesis using True by (simp only: m held(1) simp_thms)
    next
      case False
      note ex = reader_burst_exact [OF t sh b False]
      have "in_sync wh q mirror" by (rule drain [OF ex(3) tracked_shape(1) [OF t] ex(1) [symmetric]])
      moreover have "g_rows (pm_latest_grid mirror) = g_rows (s_grid (vp_screen q))"
        by (simp only: ex(1) held(2) ex(2))
      ultimately show ?thesis by (simp add: m)
    qed
  qed
  then show "in_sync wh q (sh_mirror sh')"
    and "\<not> s_synchronized_output (vp_screen q) \<Longrightarrow>
      g_rows (pm_latest_grid (sh_mirror sh')) = g_rows (s_grid (vp_screen q))" by simp_all
qed

lemma reader_reach_sync:
  assumes "reader_reach vte h i p0 wh (p, sh)" "fst wh \<le> u16_max" "snd wh \<le> u16_max"
  shows "in_sync wh p (sh_mirror sh)"
  using assms(1)
proof (induction "(p, sh)" arbitrary: p sh rule: reader_reach.induct)
  case spawned
  then show ?case using good_new [OF assms(2,3)]
    by (simp add: in_sync_def parser_ok_def vt_new_def shared_new_def mirror_new_def tracked_def)
      (simp add: screen_new_def dims_def)
next
  case (chunk p sh theme bs q sh' pty msgs)
  then show ?case using reader_chunk_sync(1) by blast
qed (simp_all add: set_scrollback_limit_def offer_dnd_drop_def)

lemma reader_chunk_bufs:
  assumes "reader_chunk vte h i theme bs p sh = Some (q, sh', pty, msgs)"
    and "loader_law (h_load h)" "parser_ok bufs_ok p"
  shows "parser_ok bufs_ok q"
proof (rule reader_chunk_Some [OF assms(1)])
  fix r mirror diff s3
  assume adv: "advance vte h bs (on_screen (apply_theme theme) p) = Some r"
    and b: "reader_burst (sh_scrollback_limit sh) (sh_mirror sh) (after_pty (vp_screen r)) = Some (mirror, diff, s3)"
    and q: "q = r\<lparr>vp_screen := drain_all s3\<rparr>"
  have "parser_ok bufs_ok (on_screen (apply_theme theme) p)"
    using assms(3) by (simp add: parser_ok_def on_screen_def bufs_iteration)
  from advance_bufs [OF assms(2) adv this] have r: "parser_ok bufs_ok r" .
  then have "bufs_ok (after_pty (vp_screen r))" by (simp add: parser_ok_def bufs_iteration)
  with reader_burst_queues [OF b] have "bufs_ok s3" using bufs_iteration(4) by blast
  then show ?thesis using r by (simp add: q parser_ok_def bufs_iteration)
qed

lemma reader_reach_bufs:
  assumes "reader_reach vte h i p0 wh (p, sh)" "loader_law (h_load h)"
  shows "parser_ok bufs_ok p"
  using assms(1)
proof (induction "(p, sh)" arbitrary: p sh rule: reader_reach.induct)
  case spawned
  then show ?case by (simp add: parser_ok_def vt_new_def)
next
  case (chunk p sh theme bs q sh' pty msgs)
  then show ?case using reader_chunk_bufs [OF chunk(3) assms(2)] by blast
qed simp_all

end
