(* ===== verification/Client_State.thy ===== *)
theory Client_State
  imports Pane_Reader
begin

text \<open>
  The state of the text client (\<open>nexterm-client-tui/src/state.rs\<close>): the panes with their
  grids, the layout and the focus, the prefix mode and the error toast.  \<open>now\<close> is the
  reading of the clock in milliseconds; the terminal size is an argument.
\<close>

record pane_state =
  cp_grid :: grid
  cp_cursor_col :: nat
  cp_cursor_row :: nat

definition pane_state_new :: "nat \<Rightarrow> nat \<Rightarrow> pane_state" where
  "pane_state_new cols rows = \<lparr>cp_grid = grid_new cols rows, cp_cursor_col = 0, cp_cursor_row = 0\<rparr>"

text \<open>A row of the message replaces the row of the grid, if there is one.\<close>

definition replace_row :: "dirty_row \<Rightarrow> grid \<Rightarrow> grid" where
  "replace_row d g =
     (if dr_row d < length (g_rows g) then g\<lparr>g_rows := (g_rows g)[dr_row d := dr_cells d]\<rparr> else g)"

definition apply_diff :: "dirty_row list \<Rightarrow> nat \<Rightarrow> nat \<Rightarrow> pane_state \<Rightarrow> pane_state" where
  "apply_diff dirty_rows cursor_col cursor_row st =
     st\<lparr>cp_grid := fold replace_row dirty_rows (cp_grid st),
        cp_cursor_col := cursor_col, cp_cursor_row := cursor_row\<rparr>"

datatype prefix_mode = PrefixNone | CtrlB | Help

record error_toast =
  et_message :: rstr
  et_shown_at :: nat

record client_state =
  cs_panes :: "(nat \<times> pane_state) list"
  cs_focused_pane_id :: "nat option"
  cs_pane_layouts :: "pane_layout list"
  cs_cols :: nat
  cs_rows :: nat
  cs_session_name :: rstr
  cs_prefix_mode :: prefix_mode
  cs_error_toast :: "error_toast option"

definition client_state_new :: "(nat \<times> nat) option \<Rightarrow> client_state" where
  "client_state_new term_size =
     (let (cols, rows) = (case term_size of None \<Rightarrow> (80, 24) | Some sz \<Rightarrow> sz) in
      \<lparr>cs_panes = [], cs_focused_pane_id = None, cs_pane_layouts = [], cs_cols = cols,
       cs_rows = rows, cs_session_name = lit ''main'', cs_prefix_mode = PrefixNone,
       cs_error_toast = None\<rparr>)"

fun apply_server_message :: "nat \<Rightarrow> server_msg \<Rightarrow> client_state \<Rightarrow> client_state" where
  "apply_server_message now (FullRefresh i g) c =
     (let st = (case map_of (cs_panes c) i of
                  None \<Rightarrow> pane_state_new (g_width g) (g_height g) | Some st \<Rightarrow> st);
          st1 = st\<lparr>cp_grid := g, cp_cursor_col := g_cursor_col g, cp_cursor_row := g_cursor_row g\<rparr>;
          c1 = c\<lparr>cs_panes := AList.update i st1 (cs_panes c)\<rparr> in
      if cs_focused_pane_id c1 = None then c1\<lparr>cs_focused_pane_id := Some i\<rparr> else c1)"
| "apply_server_message now (GridDiff i d) c =
     (case map_of (cs_panes c) i of
        None \<Rightarrow> c
      | Some st \<Rightarrow>
          c\<lparr>cs_panes := AList.update i
               (apply_diff (gd_dirty_rows d) (gd_cursor_col d) (gd_cursor_row d) st) (cs_panes c)\<rparr>)"
| "apply_server_message now (ServerError msg) c =
     c\<lparr>cs_error_toast := Some \<lparr>et_message = msg, et_shown_at = now\<rparr>\<rparr>"
| "apply_server_message now (LayoutChanged panes focused) c =
     c\<lparr>cs_pane_layouts := panes, cs_focused_pane_id := Some focused\<rparr>"
| "apply_server_message now _ c = c"

definition client_resize :: "nat \<Rightarrow> nat \<Rightarrow> client_state \<Rightarrow> client_state" where
  "client_resize cols rows c = c\<lparr>cs_cols := cols, cs_rows := rows\<rparr>"

definition focused_pane :: "client_state \<Rightarrow> pane_state option" where
  "focused_pane c = Option.bind (cs_focused_pane_id c) (map_of (cs_panes c))"

definition tick_toasts :: "nat \<Rightarrow> client_state \<Rightarrow> client_state" where
  "tick_toasts now c =
     (case cs_error_toast c of
        None \<Rightarrow> c
      | Some toast \<Rightarrow>
          (if (now - et_shown_at toast) div 1000 \<ge> 3 then c\<lparr>cs_error_toast := None\<rparr> else c))"

definition enter_prefix :: "client_state \<Rightarrow> client_state" where
  "enter_prefix c = c\<lparr>cs_prefix_mode := CtrlB\<rparr>"

definition exit_prefix :: "client_state \<Rightarrow> client_state" where
  "exit_prefix c = c\<lparr>cs_prefix_mode := PrefixNone\<rparr>"

definition toggle_help :: "client_state \<Rightarrow> client_state" where
  "toggle_help c =
     (if cs_prefix_mode c = Help then c\<lparr>cs_prefix_mode := PrefixNone\<rparr> else c\<lparr>cs_prefix_mode := Help\<rparr>)"

section \<open>Replacing rows and applying rows\<close>

text \<open>
  The server copies the common prefix of a row into its snapshot, the client replaces the
  row.  On rows of the width of the grid, as the reader sends them, the two agree.
\<close>

lemma replace_row_eq:
  assumes "rows_shape w h (g_rows g)" "length (dr_cells d) = w" "g_rows g' = g_rows g"
  shows "g_rows (replace_row d g') = g_rows (apply_dirty_row d g)"
  using assms by (auto simp: replace_row_def apply_dirty_row_def lget_def rows_shape_def list_all_iff)

end
