(* ===== verification/Attach.thy ===== *)
theory Attach
  imports Client_State
begin

text \<open>
  The delivery of a pane's screen to one client (\<open>handle_attach\<close> in
  \<open>nexterm-server/src/ipc/session_dispatch.rs\<close>, with the PTY reader of
  \<open>nexterm-server/src/pane.rs\<close> at one end and the client state at the other).  Four
  parties interleave: the reader updates the full-grid snapshot and then broadcasts the
  difference; the forwarder task moves broadcast messages into the client's channel and,
  when the receiver has lagged, resynchronizes with a full refresh, which the session composes
  for the panes of its focused window only; the attach handler
  composes a full refresh and sends it into the same channel; the client applies what
  arrives.
\<close>

section \<open>State and steps\<close>

record link =
  lk_grid :: grid
  lk_unsent :: "grid_diff option"
  lk_queue :: "grid_diff list"
  lk_lagged :: bool
  lk_resync :: "grid option"
  lk_refresh :: "grid option"
  lk_channel :: "server_msg list"
  lk_client :: client_state
  lk_focused :: bool
  lk_missed :: bool

text \<open>
  \<open>lk_focused\<close>: the pane is in the focused window of the session.  \<open>lk_missed\<close> is not state of
  the program: the last overflow was answered while the pane was in a window in the background, so
  that the pane was not refreshed.
\<close>

text \<open>What a burst of the reader does to the snapshot.\<close>

definition install_diff :: "grid_diff \<Rightarrow> grid \<Rightarrow> grid" where
  "install_diff d g =
     (fold apply_dirty_row (gd_dirty_rows d) g)
       \<lparr>g_cursor_col := gd_cursor_col d, g_cursor_row := gd_cursor_row d\<rparr>"

text \<open>Rows as the reader sends them: whole rows of the grid.\<close>

definition diff_fits :: "nat \<times> nat \<Rightarrow> grid_diff \<Rightarrow> bool" where
  "diff_fits wh d \<longleftrightarrow>
     list_all (\<lambda>r. dr_row r < snd wh \<and> length (dr_cells r) = fst wh) (gd_dirty_rows d)"

text \<open>The steps that carry a published difference to the client.\<close>

inductive delivery :: "nat \<Rightarrow> link \<Rightarrow> link \<Rightarrow> bool" for i :: nat where
  publish: "lk_unsent l = Some d \<Longrightarrow>
    delivery i l (l\<lparr>lk_unsent := None, lk_queue := lk_queue l @ [d]\<rparr>)"
| overflow: "lk_queue l = d # q \<Longrightarrow> delivery i l (l\<lparr>lk_queue := q, lk_lagged := True\<rparr>)"
| forward: "\<not> lk_lagged l \<Longrightarrow> lk_resync l = None \<Longrightarrow> lk_queue l = d # q \<Longrightarrow>
    delivery i l (l\<lparr>lk_queue := q, lk_channel := lk_channel l @ [GridDiff i d]\<rparr>)"
| compose_resync: "lk_lagged l \<Longrightarrow> lk_resync l = None \<Longrightarrow> lk_focused l \<Longrightarrow>
    delivery i l (l\<lparr>lk_lagged := False, lk_resync := Some (lk_grid l), lk_missed := False\<rparr>)"
| pass_over: "lk_lagged l \<Longrightarrow> lk_resync l = None \<Longrightarrow> \<not> lk_focused l \<Longrightarrow>
    delivery i l (l\<lparr>lk_lagged := False, lk_missed := True\<rparr>)"
| send_resync: "lk_resync l = Some g \<Longrightarrow>
    delivery i l (l\<lparr>lk_resync := None, lk_channel := lk_channel l @ [FullRefresh i g]\<rparr>)"
| receive: "lk_channel l = m # ms \<Longrightarrow>
    delivery i l (l\<lparr>lk_channel := ms, lk_client := apply_server_message now m (lk_client l)\<rparr>)"

text \<open>Deliveries interleaved with the updates of the reader.\<close>

definition reader_update :: "grid_diff \<Rightarrow> link \<Rightarrow> link" where
  "reader_update d l = l\<lparr>lk_grid := install_diff d (lk_grid l), lk_unsent := Some d\<rparr>"

inductive flow :: "nat \<times> nat \<Rightarrow> nat \<Rightarrow> link \<Rightarrow> link \<Rightarrow> bool" for wh :: "nat \<times> nat" and i :: nat where
  update: "lk_unsent l = None \<Longrightarrow> diff_fits wh d \<Longrightarrow> flow wh i l (reader_update d l)"
| deliver: "delivery i l m \<Longrightarrow> flow wh i l m"

inductive_cases deliveryE: "delivery i l m"

text \<open>The two steps of the attach handler, after it has subscribed.\<close>

inductive handler :: "nat \<Rightarrow> link \<Rightarrow> link \<Rightarrow> bool" for i :: nat where
  compose_refresh: "handler i l (l\<lparr>lk_refresh := Some (lk_grid l)\<rparr>)"
| send_refresh: "lk_refresh l = Some g \<Longrightarrow>
    handler i l (l\<lparr>lk_refresh := None, lk_channel := lk_channel l @ [FullRefresh i g]\<rparr>)"

text \<open>Nothing is under way.\<close>

definition settled :: "link \<Rightarrow> bool" where
  "settled l \<longleftrightarrow> lk_unsent l = None \<and> lk_queue l = [] \<and> \<not> lk_lagged l \<and> lk_resync l = None
     \<and> lk_refresh l = None \<and> lk_channel l = []"

section \<open>What the client sees of the pane\<close>

type_synonym view = "cell list list \<times> nat \<times> nat"

definition grid_view :: "grid \<Rightarrow> view" where
  "grid_view g = (g_rows g, g_cursor_col g, g_cursor_row g)"

definition client_view :: "nat \<Rightarrow> client_state \<Rightarrow> view option" where
  "client_view i c =
     map_option (\<lambda>st. (g_rows (cp_grid st), cp_cursor_col st, cp_cursor_row st)) (map_of (cs_panes c) i)"

definition put_row :: "dirty_row \<Rightarrow> cell list list \<Rightarrow> cell list list" where
  "put_row d rows = rows[dr_row d := dr_cells d]"

definition diff_view :: "grid_diff \<Rightarrow> view \<Rightarrow> view" where
  "diff_view d v = (fold put_row (gd_dirty_rows d) (fst v), gd_cursor_col d, gd_cursor_row d)"

fun msg_view :: "nat \<Rightarrow> server_msg \<Rightarrow> view option \<Rightarrow> view option" where
  "msg_view i (FullRefresh j g) v = (if j = i then Some (grid_view g) else v)"
| "msg_view i (GridDiff j d) v = (if j = i then map_option (diff_view d) v else v)"
| "msg_view i _ v = v"

lemma fold_replace_row: "g_rows (fold replace_row ds g) = fold put_row ds (g_rows g)"
proof (induction ds arbitrary: g)
  case (Cons d ds)
  have "g_rows (replace_row d g) = put_row d (g_rows g)"
    by (simp add: replace_row_def put_row_def list_update_beyond)
  with Cons show ?case by simp
qed simp

lemma client_view_message: "client_view i (apply_server_message now m c) = msg_view i m (client_view i c)"
  by (cases "(now, m, c)" rule: apply_server_message.cases)
    (auto simp: client_view_def Let_def grid_view_def diff_view_def apply_diff_def
      fold_replace_row AList.update_conv' split: option.splits)

lemma put_row_shape:
  "rows_shape w h rows \<Longrightarrow> length (dr_cells d) = w \<Longrightarrow> rows_shape w h (put_row d rows)"
  by (cases "dr_row d < length rows")
    (auto simp: put_row_def rows_shape_def list_all_iff dest: set_update_subset_insert [THEN subsetD])

lemma fold_apply_rows:
  assumes "rows_shape w h (g_rows g)" "list_all (\<lambda>r. length (dr_cells r) = w) ds"
  shows "g_rows (fold apply_dirty_row ds g) = fold put_row ds (g_rows g)"
  using assms
proof (induction ds arbitrary: g)
  case (Cons d ds)
  have "g_rows (apply_dirty_row d g) = put_row d (g_rows g)"
    using replace_row_eq [OF Cons.prems(1), of d g] Cons.prems(2)
    by (simp add: replace_row_def put_row_def list_update_beyond split: if_splits)
  with Cons put_row_shape [OF Cons.prems(1), of d] show ?case by simp
qed simp

lemma install_diff_view:
  assumes "rows_shape (fst wh) (snd wh) (g_rows g)" "diff_fits wh d"
  shows "grid_view (install_diff d g) = diff_view d (grid_view g)"
  using fold_apply_rows [OF assms(1), of "gd_dirty_rows d"] assms(2)
  by (simp add: grid_view_def install_diff_def diff_view_def diff_fits_def list_all_iff)

section \<open>Replaying differences\<close>

text \<open>
  A list of differences overwrites some rows with fixed contents and leaves the others
  alone, whatever it is applied to.
\<close>

lemma put_row_nth:
  "length (put_row d rows) = length rows"
  "r < length rows \<Longrightarrow> put_row d rows ! r = (if r = dr_row d then dr_cells d else rows ! r)"
  by (simp_all add: put_row_def nth_list_update)

lemma fold_put_row_nth:
  "\<exists>f. \<forall>rows. length (fold put_row ds rows) = length rows
     \<and> (\<forall>r < length rows. fold put_row ds rows ! r = (case f r of None \<Rightarrow> rows ! r | Some c \<Rightarrow> c))"
proof (induction ds)
  case Nil
  show ?case by (rule exI [of _ "\<lambda>_. None"]) simp
next
  case (Cons d ds)
  then obtain f where f: "length (fold put_row ds rows) = length rows"
    "r < length rows \<Longrightarrow> fold put_row ds rows ! r = (case f r of None \<Rightarrow> rows ! r | Some c \<Rightarrow> c)" for rows r
    by blast
  show ?case
    by (rule exI [of _ "\<lambda>r. case f r of None \<Rightarrow> if r = dr_row d then Some (dr_cells d) else None | Some c \<Rightarrow> Some c"])
      (simp add: f put_row_nth split: option.split)
qed

definition diffs_rows :: "grid_diff list \<Rightarrow> dirty_row list" where
  "diffs_rows ds = concat (map gd_dirty_rows ds)"

lemma fold_diff_view:
  "fold diff_view ds v =
     (fold put_row (diffs_rows ds) (fst v),
      if ds = [] then snd v else (gd_cursor_col (last ds), gd_cursor_row (last ds)))"
  by (induction ds arbitrary: v) (auto simp: diffs_rows_def diff_view_def)

text \<open>
  What the snapshot already contains may be replayed: with a further difference on top,
  and with the oldest difference missing.
\<close>

lemma replay_update:
  assumes "fold diff_view ds v = v"
  shows "fold diff_view (ds @ [d]) (diff_view d v) = diff_view d v"
proof -
  obtain f where f: "\<And>rows. length (fold put_row (diffs_rows ds) rows) = length rows"
    "\<And>rows r. r < length rows \<Longrightarrow>
       fold put_row (diffs_rows ds) rows ! r = (case f r of None \<Rightarrow> rows ! r | Some c \<Rightarrow> c)"
    using fold_put_row_nth [of "diffs_rows ds"] by blast
  obtain e where e: "\<And>rows. length (fold put_row (gd_dirty_rows d) rows) = length rows"
    "\<And>rows r. r < length rows \<Longrightarrow>
       fold put_row (gd_dirty_rows d) rows ! r = (case e r of None \<Rightarrow> rows ! r | Some c \<Rightarrow> c)"
    using fold_put_row_nth [of "gd_dirty_rows d"] by blast
  have v: "fold put_row (diffs_rows ds) (fst v) = fst v" using assms by (simp add: fold_diff_view prod_eq_iff)
  have "fold put_row (gd_dirty_rows d) (fold put_row (diffs_rows ds) (fold put_row (gd_dirty_rows d) (fst v))) =
      fold put_row (gd_dirty_rows d) (fst v)"
  proof (rule nth_equalityI)
    fix r assume r: "r < length (fold put_row (gd_dirty_rows d) (fold put_row (diffs_rows ds) (fold put_row (gd_dirty_rows d) (fst v))))"
    then have "fst v ! r = (case f r of None \<Rightarrow> fst v ! r | Some c \<Rightarrow> c)"
      using f(2) [of r "fst v"] v by (simp add: e(1) f(1))
    with r show "fold put_row (gd_dirty_rows d) (fold put_row (diffs_rows ds) (fold put_row (gd_dirty_rows d) (fst v))) ! r =
        fold put_row (gd_dirty_rows d) (fst v) ! r"
      by (simp add: e f split: option.splits)
  qed (simp add: e(1) f(1))
  then show ?thesis by (cases "ds = []") (simp_all add: fold_diff_view diff_view_def diffs_rows_def)
qed

lemma replay_tail:
  assumes "fold diff_view (d # ds) v = v"
  shows "fold diff_view ds v = v"
proof -
  obtain f where f: "\<And>rows. length (fold put_row (diffs_rows ds) rows) = length rows"
    "\<And>rows r. r < length rows \<Longrightarrow>
       fold put_row (diffs_rows ds) rows ! r = (case f r of None \<Rightarrow> rows ! r | Some c \<Rightarrow> c)"
    using fold_put_row_nth [of "diffs_rows ds"] by blast
  let ?rows = "fst (diff_view d v)"
  have v: "fold put_row (diffs_rows ds) ?rows = fst v"
    using assms by (simp add: fold_diff_view [of ds] prod_eq_iff)
  have len: "length ?rows = length (fst v)" by (metis f(1) v)
  have "fold put_row (diffs_rows ds) (fst v) ! r = fst v ! r" if "r < length (fst v)" for r
  proof -
    have "fst v ! r = (case f r of None \<Rightarrow> ?rows ! r | Some c \<Rightarrow> c)"
      using f(2) [of r ?rows] that by (simp add: v len)
    then show ?thesis using f(2) [OF that] by (simp split: option.splits)
  qed
  then have "fold put_row (diffs_rows ds) (fst v) = fst v"
    by (intro nth_equalityI) (simp_all add: f(1))
  moreover have "ds \<noteq> [] \<Longrightarrow> snd v = (gd_cursor_col (last ds), gd_cursor_row (last ds))"
    using assms by (simp add: fold_diff_view [of ds] prod_eq_iff)
  ultimately show ?thesis by (simp add: fold_diff_view prod_eq_iff)
qed

section \<open>The invariant of the flow\<close>

definition pending :: "link \<Rightarrow> grid_diff list" where
  "pending l = lk_queue l @ (case lk_unsent l of None \<Rightarrow> [] | Some d \<Rightarrow> [d])"

text \<open>The client's view once it has received what is in its channel.\<close>

definition arriving_view :: "nat \<Rightarrow> link \<Rightarrow> view option" where
  "arriving_view i l = fold (msg_view i) (lk_channel l) (client_view i (lk_client l))"

text \<open>
  Unless the receiver has lagged or the pane was passed over, replaying what is still under way on top of the view the
  client is about to have gives the snapshot; and the snapshot contains all of it already.
\<close>

definition link_sync :: "nat \<times> nat \<Rightarrow> nat \<Rightarrow> link \<Rightarrow> bool" where
  "link_sync wh i l \<longleftrightarrow>
     rows_shape (fst wh) (snd wh) (g_rows (lk_grid l))
     \<and> fold diff_view (pending l) (grid_view (lk_grid l)) = grid_view (lk_grid l)
     \<and> (\<not> lk_lagged l \<and> \<not> lk_missed l \<longrightarrow>
          map_option (fold diff_view (pending l))
            (case lk_resync l of None \<Rightarrow> arriving_view i l | Some g \<Rightarrow> Some (grid_view g)) =
          Some (grid_view (lk_grid l)))"

lemma install_diff_shape:
  assumes "rows_shape (fst wh) (snd wh) (g_rows g)" "diff_fits wh d"
  shows "rows_shape (fst wh) (snd wh) (g_rows (install_diff d g))"
proof -
  have "rows_shape w h rows \<Longrightarrow> list_all (\<lambda>r. length (dr_cells r) = w) ds \<Longrightarrow>
      rows_shape w h (fold put_row ds rows)" for w h rows ds
    by (induction ds arbitrary: rows) (simp_all add: put_row_shape)
  then show ?thesis
    using install_diff_view [OF assms] assms
    by (simp add: grid_view_def diff_view_def diff_fits_def list_all_iff)
qed

lemma link_sync_same:
  assumes "arriving_view i m = arriving_view i l" "pending m = pending l" "lk_grid m = lk_grid l"
    "lk_lagged m = lk_lagged l" "lk_resync m = lk_resync l" "lk_missed m = lk_missed l"
  shows "link_sync wh i m = link_sync wh i l"
  by (simp only: link_sync_def assms)

lemma update_ok:
  assumes "lk_unsent l = None" "diff_fits wh d" "link_sync wh i l"
  shows "link_sync wh i (reader_update d l)"
proof -
  let ?m = "reader_update d l"
  have sh: "rows_shape (fst wh) (snd wh) (g_rows (lk_grid l))" using assms(3) by (simp add: link_sync_def)
  have v: "grid_view (lk_grid ?m) = diff_view d (grid_view (lk_grid l))"
    using install_diff_view [OF sh assms(2)] by (simp add: reader_update_def)
  have p: "pending ?m = pending l @ [d]" by (simp add: pending_def reader_update_def assms(1))
  have self: "fold diff_view (pending ?m) (grid_view (lk_grid ?m)) = grid_view (lk_grid ?m)"
    unfolding v p by (rule replay_update) (use assms(3) in \<open>simp add: link_sync_def\<close>)
  have shm: "rows_shape (fst wh) (snd wh) (g_rows (lk_grid ?m))"
    using install_diff_shape [OF sh assms(2)] by (simp add: reader_update_def)
  have same: "arriving_view i ?m = arriving_view i l" "lk_resync ?m = lk_resync l" "lk_lagged ?m = lk_lagged l"
    "lk_missed ?m = lk_missed l"
    by (simp_all add: reader_update_def arriving_view_def)
  let ?from = "case lk_resync l of None \<Rightarrow> arriving_view i l | Some g \<Rightarrow> Some (grid_view g)"
  have "\<not> lk_lagged l \<and> \<not> lk_missed l \<Longrightarrow> map_option (fold diff_view (pending ?m)) ?from = Some (grid_view (lk_grid ?m))"
    using assms(3) by (auto simp: link_sync_def p v)
  with self shm show ?thesis unfolding link_sync_def same by blast
qed

lemma delivery_ok:
  assumes "delivery i l m" "link_sync wh i l"
  shows "link_sync wh i m"
  using assms
proof (cases rule: delivery.cases)
  case (overflow d q)
  have "pending l = d # pending m" by (simp add: pending_def overflow)
  then have "fold diff_view (pending m) (grid_view (lk_grid l)) = grid_view (lk_grid l)"
    using assms(2) replay_tail [of d "pending m"] by (simp add: link_sync_def)
  then show ?thesis using assms(2) by (simp add: link_sync_def overflow(1))
next
  case (forward d q)
  have p: "pending l = d # pending m" by (simp add: pending_def forward)
  then have "fold diff_view (pending m) (grid_view (lk_grid l)) = grid_view (lk_grid l)"
    using assms(2) replay_tail [of d "pending m"] by (simp add: link_sync_def)
  moreover have "\<not> lk_missed l \<longrightarrow>
      map_option (fold diff_view (pending m)) (arriving_view i m) = Some (grid_view (lk_grid l))"
    using assms(2) p forward(2,3) by (simp add: link_sync_def forward(1) arriving_view_def option.map_comp comp_def)
  ultimately show ?thesis using assms(2) forward(2,3) by (simp add: link_sync_def forward(1))
next
  case (receive m' ms now)
  then have "arriving_view i m = arriving_view i l"
    by (simp add: arriving_view_def client_view_message)
  moreover have "pending m = pending l" "lk_grid m = lk_grid l" "lk_lagged m = lk_lagged l"
    "lk_resync m = lk_resync l" "lk_missed m = lk_missed l" by (simp_all add: receive(1) pending_def)
  ultimately show ?thesis using assms(2) link_sync_same [of i m l] by blast
next
  case (publish d)
  then have "arriving_view i m = arriving_view i l" "pending m = pending l" "lk_grid m = lk_grid l"
    "lk_lagged m = lk_lagged l" "lk_resync m = lk_resync l" "lk_missed m = lk_missed l"
    by (simp_all add: arriving_view_def pending_def)
  then show ?thesis using assms(2) link_sync_same [of i m l] by blast
qed (auto simp: link_sync_def pending_def arriving_view_def)

lemma flow_ok: "flow wh i l m \<Longrightarrow> link_sync wh i l \<Longrightarrow> link_sync wh i m"
  by (erule flow.cases) (auto intro: update_ok delivery_ok)

lemma flow_star_ok: "(flow wh i)\<^sup>*\<^sup>* l m \<Longrightarrow> link_sync wh i l \<Longrightarrow> link_sync wh i m"
  by (induction rule: rtranclp_induct) (blast intro: flow_ok)+

lemma settled_view:
  assumes "link_sync wh i l" "settled l" "\<not> lk_missed l"
  shows "client_view i (lk_client l) = Some (grid_view (lk_grid l))"
  using assms by (simp add: link_sync_def settled_def pending_def arriving_view_def)
    (metis (no_types, lifting) fold_simps(1) option.map_id0 id_apply option.map_comp)

section \<open>The reader's bursts are updates of the flow\<close>

lemma fold_apply_frame:
  "g_width (fold apply_dirty_row ds g) = g_width g" "g_height (fold apply_dirty_row ds g) = g_height g"
  by (induction ds arbitrary: g) (simp_all add: grid_simps)

lemma reader_burst_update:
  assumes "reader_burst limit pm s = Some (pm', Some d, s')" "tracked wh m s"
  shows "diff_fits wh d" "grid_view (pm_latest_grid pm') = grid_view (install_diff d (pm_latest_grid pm))"
proof -
  have sync: "\<not> s_synchronized_output s" using reader_burst_held [OF assms(1)] by auto
  have geo: "geometry_ok s" using assms(2) by (simp add: tracked_def good_def)
  note sh = tracked_shape [OF assms(2)]
  let ?js = "filter (\<lambda>j. s_dirty s ! j) [0..<length (s_dirty s)]"
  let ?dirty = "map (\<lambda>j. \<lparr>dr_row = j, dr_cells = g_rows (s_grid s) ! j\<rparr>) ?js"
  have d: "gd_dirty_rows d = ?dirty"
    and v: "grid_view (pm_latest_grid pm') = grid_view (install_diff d (pm_latest_grid pm))"
    using assms(1) take_dirty_rows_Some [OF geo sync]
    by (auto simp: reader_burst_def Let_def cursor_def take_scrolled_off_lines_def install_diff_def
        grid_view_def split: if_splits)
  show "grid_view (pm_latest_grid pm') = grid_view (install_diff d (pm_latest_grid pm))" by (rule v)
  show "diff_fits wh d"
    unfolding diff_fits_def d using rows_shape_nth [OF sh(1)] by (auto simp: list_all_iff sh(2))
qed

end
