(* ===== verification/Reader_Facts.thy ===== *)
theory Reader_Facts
  imports Alt_Screen Attach
begin

text \<open>
  Facts on whole iterations of the reader: when a chunk of output can panic, what one chunk
  makes of the snapshot and of the scrollback, and when an iteration sends nothing.
\<close>

section \<open>The one callback that can panic\<close>

text \<open>
  The parameters of an OSC 8 sequence whose target is refused and whose refusal slices the
  target off a character boundary.
\<close>

definition unsafe_refusal :: "byte list list \<Rightarrow> bool" where
  "unsafe_refusal ps \<longleftrightarrow>
     (case ps of [] \<Rightarrow> False
      | p0 # _ \<Rightarrow>
          (case from_utf8 p0 of None \<Rightarrow> False
           | Some c \<Rightarrow> trim c = lit ''8''
               \<and> (let uri = trim (osc_arg_or [] ps 2) in
                    uri \<noteq> [] \<and> str_len uri \<le> MAX_HYPERLINK_URI_LEN
                    \<and> \<not> list_ex (starts_with (to_lowercase uri)) ALLOWED_HYPERLINK_SCHEMES
                    \<and> \<not> is_char_boundary uri (min (str_len uri) 80))))"

lemma osc_code_8: "osc_code h (lit ''8'') ps bell s = osc_hyperlink (h_warn h) ps s"
  by (simp add: osc_code_def) (simp add: lit_def)

lemma perform_panics:
  "perform h e s = None \<longleftrightarrow> (\<exists>ps bell. e = OscDispatch ps bell \<and> h_warn h \<and> unsafe_refusal ps)"
proof
  assume "perform h e s = None"
  then obtain p0 ps bell c uri where "e = OscDispatch (p0 # ps) bell" "from_utf8 p0 = Some c"
    "trim c = lit ''8''" "uri = trim (osc_arg_or [] (p0 # ps) 2)" "h_warn h"
    "str_len uri \<le> MAX_HYPERLINK_URI_LEN"
    "\<not> list_ex (starts_with (to_lowercase uri)) ALLOWED_HYPERLINK_SCHEMES"
    "\<not> is_char_boundary uri (min (str_len uri) 80)" by (rule perform_None)
  then show "\<exists>ps bell. e = OscDispatch ps bell \<and> h_warn h \<and> unsafe_refusal ps"
    by (auto simp: unsafe_refusal_def Let_def)
next
  assume "\<exists>ps bell. e = OscDispatch ps bell \<and> h_warn h \<and> unsafe_refusal ps"
  then obtain ps bell where e: "e = OscDispatch ps bell" "h_warn h" "unsafe_refusal ps" by blast
  then obtain p0 qs c where ps: "ps = p0 # qs" "from_utf8 p0 = Some c" "trim c = lit ''8''"
    by (auto simp: unsafe_refusal_def split: list.splits option.splits)
  have "set_hyperlink True (Some (trim (osc_arg_or [] ps 2))) s = None"
    using e(3) by (simp add: ps set_hyperlink_None validate_hyperlink_uri_None unsafe_refusal_def Let_def)
  moreover have "trim (osc_arg_or [] ps 2) \<noteq> []"
    using e(3) by (simp add: ps unsafe_refusal_def Let_def)
  ultimately show "perform h e s = None"
    by (simp add: e ps osc_dispatch_def osc_code_8 osc_hyperlink_def Let_def)
qed

text \<open>When the warning is not logged, nothing panics, and a chunk is always consumed.\<close>

lemma feed_total:
  assumes "\<not> h_warn h"
  shows "\<exists>q. vte_feed vte h b p = Some q"
proof -
  have "perform h e s \<noteq> None" for e s using assms by (auto simp: perform_panics)
  then have "\<exists>t. foldM (perform h) es s = Some t \<and> True" for es s
    by (intro foldM_total [where P = "\<lambda>_. True"]) auto
  then show ?thesis by (auto simp: vte_feed_def split: prod.split)
qed

lemma advance_byte_total:
  assumes "\<not> h_warn h"
  shows "\<exists>q. advance_byte vte h b p = Some q"
proof -
  have "\<exists>q. Option.bind (vte_feed vte h 27 r) (vte_feed vte h b) = Some q" for r
    using feed_total [OF assms, of vte 27 r] feed_total [OF assms, of vte b] by fastforce
  then show ?thesis using feed_total [OF assms, of vte b p] by (auto simp: advance_byte_def Let_def)
qed

lemma advance_total: "\<not> h_warn h \<Longrightarrow> \<exists>q. advance vte h bs p = Some q"
  using foldM_total [where P = "\<lambda>_. True" and f = "advance_byte vte h"] advance_byte_total
  by (fastforce simp: advance_def)

lemma reader_chunk_total:
  assumes "\<not> h_warn h" "in_sync wh p (sh_mirror sh)"
  shows "\<exists>r. reader_chunk vte h i theme bs p sh = Some r"
proof -
  obtain q where q: "advance vte h bs (on_screen (apply_theme theme) p) = Some q"
    using advance_total [OF assms(1)] by blast
  have "parser_ok (tracked wh (g_rows (pm_latest_grid (sh_mirror sh)))) (on_screen (apply_theme theme) p)"
    using in_sync_theme [OF assms(2)] by (simp add: in_sync_def)
  from advance_tracked [OF q this] have "tracked wh (g_rows (pm_latest_grid (sh_mirror sh))) (vp_screen q)"
    by (simp add: parser_ok_def)
  then have "tracked wh (g_rows (pm_latest_grid (sh_mirror sh))) (after_pty (vp_screen q))"
    by (rule tracked_view [OF view_iteration(2)])
  from reader_burst_total [OF this, of "sh_scrollback_limit sh" "sh_mirror sh"]
  show ?thesis by (auto simp: reader_chunk_eq q split_def)
qed

section \<open>The snapshot and the scrollback after a chunk\<close>

lemma reader_chunk_scrollback:
  assumes "reader_chunk vte h i theme bs p sh = Some (q, sh', pty, msgs)"
  shows "\<exists>xs. pm_latest_scrollback (sh_mirror sh') =
    push_scrollback (sh_scrollback_limit sh) xs (pm_latest_scrollback (sh_mirror sh))"
proof (rule reader_chunk_Some [OF assms])
  fix r mirror diff s3
  assume b: "reader_burst (sh_scrollback_limit sh) (sh_mirror sh) (after_pty (vp_screen r)) = Some (mirror, diff, s3)"
    and "sh' = (mirror_flags (vp_screen r) sh)\<lparr>sh_dnd_payload := fst (dnd_answers (vp_screen r) sh),
       sh_mirror := mirror,
       sh_current_cwd := (case s_pending_cwd s3 of None \<Rightarrow> sh_current_cwd sh | Some c \<Rightarrow> Some c)\<rparr>"
  then have m: "sh_mirror sh' = mirror" by simp
  obtain dirty s1 where d: "take_dirty_rows (after_pty (vp_screen r)) = Some (dirty, s1)"
    using b by (auto simp: reader_burst_def split: option.splits)
  show ?thesis
  proof (cases "dirty = []")
    case True
    then have "mirror = sh_mirror sh" using b by (simp add: reader_burst_def d)
    moreover have "push_scrollback limit [] sb = sb" for limit and sb :: "cell list list"
      by (simp add: push_scrollback_def)
    ultimately show ?thesis unfolding m by metis
  next
    case False
    have "pm_latest_scrollback mirror = pm_latest_scrollback (fst (the
        (reader_burst (sh_scrollback_limit sh) (sh_mirror sh) (after_pty (vp_screen r)))))"
      by (simp only: b option.sel fst_conv)
    also have "\<dots> = push_scrollback (sh_scrollback_limit sh) (s_pending_scrollback s1)
        (pm_latest_scrollback (sh_mirror sh))"
      using False by (simp add: reader_burst_def d Let_def take_scrolled_off_lines_def cursor_def)
    finally have "pm_latest_scrollback mirror = push_scrollback (sh_scrollback_limit sh)
        (s_pending_scrollback s1) (pm_latest_scrollback (sh_mirror sh))" .
    then show ?thesis unfolding m by blast
  qed
qed

text \<open>An iteration that marks no row sends no difference and leaves the snapshot alone.\<close>

lemma reader_burst_clean:
  assumes "geometry_ok s" "True \<notin> set (s_dirty s)"
  shows "\<exists>s'. reader_burst limit pm s = Some (pm, None, s')"
proof (cases "s_synchronized_output s")
  case False
  have "\<not> s_dirty s ! j" if "j < length (s_dirty s)" for j
    using assms(2) nth_mem [OF that] by auto
  then have "filter (\<lambda>j. s_dirty s ! j) [0..<length (s_dirty s)] = []"
    by (simp add: filter_empty_conv)
  then show ?thesis using take_dirty_rows_Some [OF assms(1) False] by (simp add: reader_burst_def)
qed (simp add: reader_burst_def take_dirty_sync)

end
