(* ===== verification/Live_Link.thy ===== *)
theory Live_Link
  imports Reader_Facts
begin

text \<open>
  The whole path from the output of a program to the screen of a client: the reader of
  \<open>Pane_Reader\<close> drives the link of \<open>Attach\<close>.  The client sees the rows of the terminal
  once everything under way has arrived, and what is under way arrives in a bounded number
  of steps.
\<close>

section \<open>The difference a chunk publishes\<close>

fun as_diff :: "server_msg \<Rightarrow> grid_diff option" where
  "as_diff (GridDiff i d) = Some d"
| "as_diff _ = None"

definition diff_of :: "server_msg list \<Rightarrow> grid_diff option" where
  "diff_of msgs = (case List.map_filter as_diff msgs of [] \<Rightarrow> None | d # _ \<Rightarrow> Some d)"

lemma map_filter_append: "List.map_filter f (xs @ ys) = List.map_filter f xs @ List.map_filter f ys"
  by (simp add: map_filter_def)

lemma map_filter_map_None: "(\<And>x. f (g x) = None) \<Longrightarrow> List.map_filter f (map g xs) = []"
  by (simp add: map_filter_def)

lemma map_filter_opt_None: "(\<And>x. f (g x) = None) \<Longrightarrow> List.map_filter f (opt_msg g x) = []"
  by (simp add: opt_msg_def map_filter_def split: option.split)

lemma queued_no_diff: "List.map_filter as_diff (queued_messages i s) = []"
proof -
  have "List.map_filter as_diff (color_msgs i s) = []"
    by (simp add: color_msgs_def map_filter_def)
  moreover have "List.map_filter as_diff (if b then [Bell i] else []) = []" for b
    by (simp add: map_filter_def)
  ultimately show ?thesis
    by (simp add: queued_messages_def map_filter_append map_filter_map_None map_filter_opt_None
        mark_msg_def split_def)
qed

lemma diff_of_messages: "diff_of (opt_msg (GridDiff i) diff @ queued_messages i s) = diff"
  by (cases diff) (simp_all add: diff_of_def map_filter_append queued_no_diff opt_msg_def)

text \<open>A chunk updates the snapshot by the difference it publishes, or leaves it alone.\<close>

lemma reader_chunk_diff:
  assumes "reader_chunk vte h i theme bs p sh = Some (q, sh', pty, msgs)" "in_sync wh p (sh_mirror sh)"
  shows "case diff_of msgs of
      None \<Rightarrow> pm_latest_grid (sh_mirror sh') = pm_latest_grid (sh_mirror sh)
    | Some d \<Rightarrow> diff_fits wh d \<and> grid_view (pm_latest_grid (sh_mirror sh')) =
        grid_view (install_diff d (pm_latest_grid (sh_mirror sh)))"
proof (rule reader_chunk_Some [OF assms(1)])
  fix r mirror diff s3
  assume adv: "advance vte h bs (on_screen (apply_theme theme) p) = Some r"
    and b: "reader_burst (sh_scrollback_limit sh) (sh_mirror sh) (after_pty (vp_screen r)) = Some (mirror, diff, s3)"
    and msgs: "msgs = opt_msg (GridDiff i) diff @ queued_messages i s3"
    and "sh' = (mirror_flags (vp_screen r) sh)\<lparr>sh_dnd_payload := fst (dnd_answers (vp_screen r) sh),
       sh_mirror := mirror,
       sh_current_cwd := (case s_pending_cwd s3 of None \<Rightarrow> sh_current_cwd sh | Some c \<Rightarrow> Some c)\<rparr>"
  then have m: "sh_mirror sh' = mirror" by simp
  have d: "diff_of msgs = diff" by (simp add: msgs diff_of_messages)
  from in_sync_theme [OF assms(2)] advance_tracked [OF adv]
  have "tracked wh (g_rows (pm_latest_grid (sh_mirror sh))) (vp_screen r)"
    by (auto simp: in_sync_def parser_ok_def)
  then have t: "tracked wh (g_rows (pm_latest_grid (sh_mirror sh))) (after_pty (vp_screen r))"
    by (rule tracked_view [OF view_iteration(2)])
  show ?thesis unfolding d m
  proof (cases diff)
    case None
    then have "mirror = sh_mirror sh" using b
      by (auto simp: reader_burst_def Let_def split: option.splits prod.splits if_splits)
    then show "case diff of None \<Rightarrow> pm_latest_grid mirror = pm_latest_grid (sh_mirror sh)
      | Some d \<Rightarrow> diff_fits wh d \<and> grid_view (pm_latest_grid mirror) =
          grid_view (install_diff d (pm_latest_grid (sh_mirror sh)))" using None by simp
  next
    case (Some d)
    then show "case diff of None \<Rightarrow> pm_latest_grid mirror = pm_latest_grid (sh_mirror sh)
      | Some d \<Rightarrow> diff_fits wh d \<and> grid_view (pm_latest_grid mirror) =
          grid_view (install_diff d (pm_latest_grid (sh_mirror sh)))"
      using reader_burst_update [OF b [unfolded Some] t] by simp
  qed
qed

text \<open>The rest of an iteration leaves the grid and the output mode as the output left them.\<close>

lemma reader_chunk_frame:
  assumes "reader_chunk vte h i theme bs p0 sh0 = Some (q, sh, pty, msgs)"
    and "advance vte h bs (on_screen (apply_theme theme) p0) = Some p"
  shows "s_grid (vp_screen q) = s_grid (vp_screen p)
    \<and> s_synchronized_output (vp_screen q) = s_synchronized_output (vp_screen p)"
proof (rule reader_chunk_Some [OF assms(1)])
  fix r mirror diff s3
  assume r: "advance vte h bs (on_screen (apply_theme theme) p0) = Some r"
    and b: "reader_burst (sh_scrollback_limit sh0) (sh_mirror sh0) (after_pty (vp_screen r)) = Some (mirror, diff, s3)"
    and q: "q = r\<lparr>vp_screen := drain_all s3\<rparr>"
  obtain d sb where "s3 = (after_pty (vp_screen r))\<lparr>s_dirty := d, s_pending_scrollback := sb\<rparr>"
    using reader_burst_queues [OF b] by blast
  then have "s_grid s3 = s_grid (vp_screen r)" "s_synchronized_output s3 = s_synchronized_output (vp_screen r)"
    by (simp_all add: after_pty_def)
  moreover have "r = p" using r assms(2) by simp
  ultimately show ?thesis by (simp add: q drain_all_def)
qed

section \<open>The live system\<close>

text \<open>
  A client whose full refresh was composed and sent before the forwarder moved anything;
  the difference of the last chunk may not be published yet.
\<close>

definition link_start :: "nat \<Rightarrow> grid \<Rightarrow> grid_diff option \<Rightarrow> client_state \<Rightarrow> link" where
  "link_start i g unsent c =
     \<lparr>lk_grid = g, lk_unsent = unsent, lk_queue = [], lk_lagged = False, lk_resync = None,
      lk_refresh = None, lk_channel = [FullRefresh i g], lk_client = c, lk_focused = True, lk_missed = False\<rparr>"

inductive live ::
  "'p vte \<Rightarrow> host \<Rightarrow> nat \<Rightarrow> 'p \<Rightarrow> nat \<times> nat \<Rightarrow> 'p vt_parser \<times> pane_shared \<times> link \<Rightarrow> bool"
  for vte :: "'p vte" and h :: host and i :: nat and p0 :: 'p and wh :: "nat \<times> nat" where
  attached: "reader_reach vte h i p0 wh (p, sh) \<Longrightarrow>
    live vte h i p0 wh (p, sh, link_start i (pm_latest_grid (sh_mirror sh)) None c)"
| attached_late: "reader_reach vte h i p0 wh (p, sh) \<Longrightarrow>
    reader_chunk vte h i theme bs p sh = Some (q, sh', pty, msgs) \<Longrightarrow>
    live vte h i p0 wh (q, sh', link_start i (pm_latest_grid (sh_mirror sh')) (diff_of msgs) c)"
| produced: "live vte h i p0 wh (p, sh, l) \<Longrightarrow> lk_unsent l = None \<Longrightarrow>
    reader_chunk vte h i theme bs p sh = Some (q, sh', pty, msgs) \<Longrightarrow>
    live vte h i p0 wh (q, sh',
      l\<lparr>lk_grid := pm_latest_grid (sh_mirror sh'), lk_unsent := diff_of msgs\<rparr>)"
| carried: "live vte h i p0 wh (p, sh, l) \<Longrightarrow> delivery i l m \<Longrightarrow> live vte h i p0 wh (p, sh, m)"
| window_focused: "live vte h i p0 wh (p, sh, l) \<Longrightarrow> live vte h i p0 wh (p, sh, l\<lparr>lk_focused := b\<rparr>)"
| others_lost: "live vte h i p0 wh (p, sh, l) \<Longrightarrow> live vte h i p0 wh (p, sh, l\<lparr>lk_lagged := True\<rparr>)"

text \<open>
  \<open>window_focused\<close>: the session focuses another window or this one; \<open>others_lost\<close>: the messages the
  receiver missed were those of other panes.
\<close>

text \<open>Outside synchronized output the snapshot has the rows of the screen.\<close>

lemma reader_reach_exact:
  assumes "reader_reach vte h i p0 wh (p, sh)" "fst wh \<le> u16_max" "snd wh \<le> u16_max"
    and "\<not> s_synchronized_output (vp_screen p)"
  shows "g_rows (pm_latest_grid (sh_mirror sh)) = g_rows (s_grid (vp_screen p))"
  using assms(1,4)
proof (induction "(p, sh)" arbitrary: p sh rule: reader_reach.induct)
  case spawned
  then show ?case by (simp add: vt_new_def shared_new_def mirror_new_def screen_new_def)
next
  case (chunk p sh theme bs q sh' pty msgs)
  then show ?case using reader_chunk_sync(2) reader_reach_sync [OF chunk(1) assms(2,3)] by blast
qed (simp_all add: set_scrollback_limit_def offer_dnd_drop_def)

lemma link_sync_grid:
  assumes "grid_view g = grid_view (lk_grid l)"
  shows "link_sync wh i (l\<lparr>lk_grid := g\<rparr>) = link_sync wh i l"
proof -
  have "g_rows g = g_rows (lk_grid l)" using assms by (simp add: grid_view_def)
  moreover have "pending (l\<lparr>lk_grid := g\<rparr>) = pending l" "arriving_view i (l\<lparr>lk_grid := g\<rparr>) = arriving_view i l"
    by (simp_all add: pending_def arriving_view_def)
  ultimately show ?thesis by (simp add: link_sync_def assms del: fold_simps cong: option.case_cong)
qed

lemma link_sync_start:
  assumes "rows_shape (fst wh) (snd wh) (g_rows g)"
    "\<And>d. unsent = Some d \<Longrightarrow> diff_view d (grid_view g) = grid_view g"
  shows "link_sync wh i (link_start i g unsent c)"
  using assms by (simp add: link_sync_def link_start_def pending_def arriving_view_def split: option.split)

text \<open>What holds in every state of the live system.\<close>

definition live_ok :: "nat \<times> nat \<Rightarrow> nat \<Rightarrow> 'p vt_parser \<times> pane_shared \<times> link \<Rightarrow> bool" where
  "live_ok wh i st = (case st of (p, sh, l) \<Rightarrow>
     in_sync wh p (sh_mirror sh) \<and> lk_grid l = pm_latest_grid (sh_mirror sh) \<and> lk_refresh l = None
     \<and> (\<not> s_synchronized_output (vp_screen p) \<longrightarrow>
          g_rows (lk_grid l) = g_rows (s_grid (vp_screen p)))
     \<and> link_sync wh i l)"

lemma delivery_frame:
  "delivery i l m \<Longrightarrow> lk_grid m = lk_grid l \<and> lk_refresh m = lk_refresh l"
  by (erule deliveryE) auto

lemma live_ok_output:
  assumes "live_ok wh i (p, sh, l)" "lk_unsent l = None"
    and c: "reader_chunk vte h i theme bs p sh = Some (q, sh', pty, msgs)"
  shows "live_ok wh i (q, sh', l\<lparr>lk_grid := pm_latest_grid (sh_mirror sh'), lk_unsent := diff_of msgs\<rparr>)"
proof -
  have sync: "in_sync wh p (sh_mirror sh)" and ok: "link_sync wh i l"
    and g: "lk_grid l = pm_latest_grid (sh_mirror sh)" using assms(1) by (simp_all add: live_ok_def)
  note d = reader_chunk_diff [OF c sync]
  have "link_sync wh i (l\<lparr>lk_grid := pm_latest_grid (sh_mirror sh'), lk_unsent := diff_of msgs\<rparr>)"
  proof (cases "diff_of msgs")
    case None
    then have "l\<lparr>lk_grid := pm_latest_grid (sh_mirror sh'), lk_unsent := diff_of msgs\<rparr> = l"
      using d assms(2) by (simp add: g [symmetric])
    then show ?thesis using ok by simp
  next
    case (Some e)
    have "link_sync wh i (reader_update e l)"
      using d Some by (intro update_ok [OF assms(2) _ ok]) simp
    moreover have "grid_view (pm_latest_grid (sh_mirror sh')) = grid_view (lk_grid (reader_update e l))"
      using d Some by (simp add: reader_update_def g)
    ultimately have "link_sync wh i ((reader_update e l)\<lparr>lk_grid := pm_latest_grid (sh_mirror sh')\<rparr>)"
      by (simp add: link_sync_grid)
    moreover have "(reader_update e l)\<lparr>lk_grid := pm_latest_grid (sh_mirror sh')\<rparr> =
        l\<lparr>lk_grid := pm_latest_grid (sh_mirror sh'), lk_unsent := diff_of msgs\<rparr>"
      by (simp add: reader_update_def Some)
    ultimately show ?thesis by simp
  qed
  then show ?thesis using assms(1) reader_chunk_sync [OF c sync] by (simp add: live_ok_def)
qed

lemma live_ok_start:
  assumes "in_sync wh p (sh_mirror sh)"
    and "\<not> s_synchronized_output (vp_screen p) \<Longrightarrow>
      g_rows (pm_latest_grid (sh_mirror sh)) = g_rows (s_grid (vp_screen p))"
    and "\<And>d. unsent = Some d \<Longrightarrow>
      diff_view d (grid_view (pm_latest_grid (sh_mirror sh))) = grid_view (pm_latest_grid (sh_mirror sh))"
  shows "live_ok wh i (p, sh, link_start i (pm_latest_grid (sh_mirror sh)) unsent c)"
proof -
  have "link_sync wh i (link_start i (pm_latest_grid (sh_mirror sh)) unsent c)"
    using assms(1,3) by (intro link_sync_start) (simp_all add: in_sync_def)
  then show ?thesis using assms(1,2) by (simp add: live_ok_def) (simp add: link_start_def)
qed

lemma live_invariant:
  assumes "live vte h i p0 wh st" "fst wh \<le> u16_max" "snd wh \<le> u16_max"
  shows "live_ok wh i st"
  using assms(1)
proof (induction rule: live.induct)
  case (attached p sh c)
  show ?case
    using reader_reach_sync [OF attached assms(2,3)] reader_reach_exact [OF attached assms(2,3)]
    by (intro live_ok_start) simp_all
next
  case (attached_late p sh theme bs q sh' pty msgs c)
  note sync = reader_reach_sync [OF attached_late(1) assms(2,3)]
  have sh: "rows_shape (fst wh) (snd wh) (g_rows (pm_latest_grid (sh_mirror sh)))"
    using sync by (simp add: in_sync_def)
  show ?case
  proof (rule live_ok_start [OF reader_chunk_sync [OF attached_late(2) sync]])
    fix d assume "diff_of msgs = Some d"
    then have "diff_fits wh d" "grid_view (pm_latest_grid (sh_mirror sh')) =
        grid_view (install_diff d (pm_latest_grid (sh_mirror sh)))"
      using reader_chunk_diff [OF attached_late(2) sync] by simp_all
    then show "diff_view d (grid_view (pm_latest_grid (sh_mirror sh'))) = grid_view (pm_latest_grid (sh_mirror sh'))"
      using install_diff_view [OF sh] replay_update [of "[]" _ d] by simp
  qed simp_all
next
  case (produced p sh l theme bs q sh' pty msgs)
  then show ?case by (intro live_ok_output)
next
  case (carried p sh l m)
  then show ?case using delivery_ok [OF carried(2)] delivery_frame [OF carried(2)]
    by (auto simp: live_ok_def)
next
  case (window_focused p sh l b)
  then show ?case using link_sync_same [of i "l\<lparr>lk_focused := b\<rparr>" l]
    by (auto simp: live_ok_def arriving_view_def pending_def)
next
  case (others_lost p sh l)
  then show ?case by (auto simp: live_ok_def link_sync_def pending_def)
qed

section \<open>What is under way arrives\<close>

text \<open>A bound on the steps that remain before nothing is under way.\<close>

definition load :: "link \<Rightarrow> nat" where
  "load l = (if lk_unsent l = None then 0 else 5) + 4 * length (lk_queue l)
     + (if lk_lagged l then 3 else 0) + (if lk_resync l = None then 0 else 2) + length (lk_channel l)"

lemma delivery_load: "delivery i l m \<Longrightarrow> load m < load l"
  by (erule deliveryE) (auto simp: load_def)

lemma delivery_run: "(delivery i ^^ n) l m \<Longrightarrow> n + load m \<le> load l"
proof (induction n arbitrary: m)
  case (Suc n)
  then obtain k where "(delivery i ^^ n) l k" "delivery i k m" by auto
  with Suc.IH [of k] delivery_load [of i k m] show ?case by simp
qed simp

lemma delivery_progress:
  assumes "lk_refresh l = None" "\<not> settled l"
  shows "\<exists>m. delivery i l m"
proof (rule ccontr)
  assume stuck: "\<nexists>m. delivery i l m"
  have "lk_channel l = []" using stuck receive [of l _ _ i 0] by (cases "lk_channel l") blast+
  moreover have unsent: "lk_unsent l = None" using stuck publish [of l _ i] by (cases "lk_unsent l") blast+
  moreover have resync: "lk_resync l = None" using stuck send_resync [of l _ i] by (cases "lk_resync l") blast+
  moreover have lagged: "\<not> lk_lagged l" using stuck compose_resync [of l i] pass_over [of l i] resync by blast
  moreover have "lk_queue l = []" using stuck forward [OF lagged resync, of _ _ i] by (cases "lk_queue l") blast+
  ultimately show False using assms by (simp add: settled_def)
qed

lemma delivery_drains:
  assumes "lk_refresh l = None"
  shows "\<exists>n m. n \<le> load l \<and> (delivery i ^^ n) l m \<and> settled m"
  using assms
proof (induction "load l" arbitrary: l rule: less_induct)
  case less
  show ?case
  proof (cases "settled l")
    case True
    then show ?thesis by (intro exI [of _ 0]) auto
  next
    case False
    obtain k where k: "delivery i l k" using delivery_progress [OF less.prems False] by blast
    have "lk_refresh k = None" using delivery_frame [OF k] less.prems by simp
    from less.hyps [OF delivery_load [OF k] this] obtain n m
      where "n \<le> load k" "(delivery i ^^ n) k m" "settled m" by blast
    moreover have "(delivery i ^^ Suc n) l m" using relpowp_Suc_I2 [of "delivery i" l k n m] k calculation by blast
    ultimately show ?thesis using delivery_load [OF k] by (intro exI [of _ "Suc n"] exI [of _ m]) simp
  qed
qed

text \<open>A pane in the focused window is not passed over.\<close>

lemma delivery_focused:
  "delivery i l m \<Longrightarrow> lk_focused m = lk_focused l \<and> (lk_focused l \<and> \<not> lk_missed l \<longrightarrow> \<not> lk_missed m)"
  by (erule deliveryE) auto

lemma run_focused:
  "(delivery i ^^ n) l m \<Longrightarrow> lk_focused l \<Longrightarrow> \<not> lk_missed l \<Longrightarrow> lk_focused m \<and> \<not> lk_missed m"
  by (induction n arbitrary: m) (auto dest: delivery_focused)

lemma live_run:
  "live vte h i p0 wh (p, sh, l) \<Longrightarrow> (delivery i ^^ n) l m \<Longrightarrow> live vte h i p0 wh (p, sh, m)"
  by (induction n arbitrary: m) (auto intro: live.carried)

section \<open>The attach handler against the forwarder\<close>

text \<open>
  A client that has subscribed and for which nothing is under way; the handler has yet to
  compose its full refresh.
\<close>

definition link_subscribed :: "grid \<Rightarrow> client_state \<Rightarrow> link" where
  "link_subscribed g c =
     \<lparr>lk_grid = g, lk_unsent = None, lk_queue = [], lk_lagged = False, lk_resync = None,
      lk_refresh = None, lk_channel = [], lk_client = c, lk_focused = True, lk_missed = False\<rparr>"

definition attach_step :: "nat \<times> nat \<Rightarrow> nat \<Rightarrow> link \<Rightarrow> link \<Rightarrow> bool" where
  "attach_step wh i l m \<longleftrightarrow> handler i l m \<or> flow wh i l m"

text \<open>
  A difference that is forwarded between composing and sending the refresh is overwritten
  by the older refresh.
\<close>

lemma attach_overtaken:
  assumes "diff_fits wh d"
  shows "\<exists>l. (attach_step wh i)\<^sup>*\<^sup>* (link_subscribed g c) l \<and> settled l
    \<and> lk_grid l = install_diff d g \<and> client_view i (lk_client l) = Some (grid_view g)"
proof -
  let ?l0 = "link_subscribed g c"
  let ?l1 = "?l0\<lparr>lk_refresh := Some g\<rparr>"
  let ?l2 = "reader_update d ?l1"
  let ?l3 = "?l2\<lparr>lk_unsent := None, lk_queue := [d]\<rparr>"
  let ?l4 = "?l3\<lparr>lk_queue := [], lk_channel := [GridDiff i d]\<rparr>"
  let ?c5 = "apply_server_message 0 (GridDiff i d) c"
  let ?l5 = "?l4\<lparr>lk_channel := [], lk_client := ?c5\<rparr>"
  let ?l6 = "?l5\<lparr>lk_refresh := None, lk_channel := [FullRefresh i g]\<rparr>"
  let ?c7 = "apply_server_message 0 (FullRefresh i g) ?c5"
  let ?l7 = "?l6\<lparr>lk_channel := [], lk_client := ?c7\<rparr>"
  have s1: "attach_step wh i ?l0 ?l1"
    using compose_refresh [of i ?l0] by (simp add: attach_step_def link_subscribed_def)
  have s2: "attach_step wh i ?l1 ?l2"
    using update [of ?l1 wh d i] assms by (simp add: attach_step_def link_subscribed_def)
  have s3: "attach_step wh i ?l2 ?l3"
    using publish [of ?l2 d i] by (simp add: attach_step_def link_subscribed_def reader_update_def flow.deliver)
  have s4: "attach_step wh i ?l3 ?l4"
    using forward [of ?l3 d "[]" i] by (simp add: attach_step_def link_subscribed_def reader_update_def flow.deliver)
  have s5: "attach_step wh i ?l4 ?l5"
    using receive [of ?l4 "GridDiff i d" "[]" i 0]
    by (simp add: attach_step_def link_subscribed_def reader_update_def flow.deliver)
  have s6: "attach_step wh i ?l5 ?l6"
    using send_refresh [of ?l5 g i] by (simp add: attach_step_def link_subscribed_def reader_update_def)
  have s7: "attach_step wh i ?l6 ?l7"
    using receive [of ?l6 "FullRefresh i g" "[]" i 0]
    by (simp add: attach_step_def link_subscribed_def reader_update_def flow.deliver)
  have "(attach_step wh i)\<^sup>*\<^sup>* ?l0 ?l7"
    using s1 s2 s3 s4 s5 s6 s7 by (meson converse_rtranclp_into_rtranclp rtranclp.rtrancl_refl)
  moreover have "settled ?l7" "lk_grid ?l7 = install_diff d g"
    by (simp_all add: settled_def link_subscribed_def reader_update_def)
  moreover have "client_view i ?c7 = Some (grid_view g)" by (simp only: client_view_message) simp
  then have "client_view i (lk_client ?l7) = Some (grid_view g)" by simp
  ultimately show ?thesis by blast
qed

section \<open>An overflow while the window is in the background\<close>

text \<open>
  A difference that is dropped while the pane is in a window in the background is not made up
  for: everything has arrived and the client shows the screen from before.
\<close>

lemma background_loss:
  assumes "diff_fits wh d" and "client_view i c = Some (grid_view g)"
  shows "\<exists>l. (flow wh i)\<^sup>*\<^sup>* ((link_subscribed g c)\<lparr>lk_focused := False\<rparr>) l \<and> settled l \<and> lk_missed l
    \<and> lk_grid l = install_diff d g \<and> client_view i (lk_client l) = Some (grid_view g)"
proof -
  let ?l0 = "(link_subscribed g c)\<lparr>lk_focused := False\<rparr>"
  let ?l1 = "reader_update d ?l0"
  let ?l2 = "?l1\<lparr>lk_unsent := None, lk_queue := [d]\<rparr>"
  let ?l3 = "?l2\<lparr>lk_queue := [], lk_lagged := True\<rparr>"
  let ?l4 = "?l3\<lparr>lk_lagged := False, lk_missed := True\<rparr>"
  have "flow wh i ?l0 ?l1"
    using update [of ?l0 wh d i] assms(1) by (simp add: link_subscribed_def)
  moreover have "flow wh i ?l1 ?l2"
    using publish [of ?l1 d i] by (simp add: link_subscribed_def reader_update_def flow.deliver)
  moreover have "flow wh i ?l2 ?l3"
    using overflow [of ?l2 d "[]" i] by (simp add: link_subscribed_def reader_update_def flow.deliver)
  moreover have "flow wh i ?l3 ?l4"
    using pass_over [of ?l3 i] by (simp add: link_subscribed_def reader_update_def flow.deliver)
  ultimately have "(flow wh i)\<^sup>*\<^sup>* ?l0 ?l4"
    by (meson converse_rtranclp_into_rtranclp rtranclp.rtrancl_refl)
  then show ?thesis using assms(2)
    by (intro exI [of _ ?l4]) (simp add: settled_def link_subscribed_def reader_update_def)
qed

end
