(* ===== verification/Sample_Run.thy ===== *)
theory Sample_Run
  imports Live_Link
begin

text \<open>
  An instance of the parameters, for the witnesses: a parser that prints every byte from 32
  on and executes the others, characters of width one, no images, no warnings; a pane of one
  row of three columns and the chunk of output that writes the letter H.
\<close>

definition demo_vte :: "unit vte" where
  "demo_vte q b = ([if b < 32 then Execute b else Print (unat b)], q)"

definition demo_host :: host where
  "demo_host = \<lparr>h_width = (\<lambda>_. Some 1), h_load = (\<lambda>_. None), h_warn = False\<rparr>"

definition demo_parser :: "unit vt_parser" where
  "demo_parser = vt_new () 3 1"

definition demo_shared :: pane_shared where
  "demo_shared = shared_new 3 1"

lemma demo_spawned: "reader_reach demo_vte demo_host 1 () (3, 1) (demo_parser, demo_shared)"
  using reader_reach.spawned [of demo_vte demo_host 1 "()" "(3, 1)"]
  by (simp add: demo_parser_def demo_shared_def)

lemma demo_advance:
  "\<exists>q. advance demo_vte demo_host [72] (on_screen (apply_theme None) demo_parser) = Some q
     \<and> \<not> s_synchronized_output (vp_screen q)
     \<and> map (map cell_ch) (g_rows (s_grid (vp_screen q))) = [[72, 32, 32]]"
  by (simp add: advance_Cons advance_byte_def vte_feed_def demo_vte_def demo_host_def demo_parser_def
      vt_new_def screen_new_def write_char_def wrap_line_def Let_def on_screen_def apply_theme_def
      wrap16_def on_grid_def mark_dirty_def grid_set_def grid_new_def pen_cell_def default_cell_def numeral_3_eq_3 lget_def)

lemma demo_chunk:
  "\<exists>q sh pty msgs. reader_chunk demo_vte demo_host 1 None [72] demo_parser demo_shared = Some (q, sh, pty, msgs)
     \<and> \<not> s_synchronized_output (vp_screen q)
     \<and> map (map cell_ch) (g_rows (s_grid (vp_screen q))) = [[72, 32, 32]]"
proof -
  have s: "in_sync (3, 1) demo_parser (sh_mirror demo_shared)"
    using demo_spawned by (rule reader_reach_sync) (simp_all add: u16_max_def)
  obtain q sh pty msgs where r: "reader_chunk demo_vte demo_host 1 None [72] demo_parser demo_shared = Some (q, sh, pty, msgs)"
    using reader_chunk_total [OF _ s, of demo_host demo_vte 1 None "[72]"] by (auto simp: demo_host_def)
  obtain p where p: "advance demo_vte demo_host [72] (on_screen (apply_theme None) demo_parser) = Some p"
     "\<not> s_synchronized_output (vp_screen p)"
     "map (map cell_ch) (g_rows (s_grid (vp_screen p))) = [[72, 32, 32]]" using demo_advance by (elim exE conjE)
  have "s_grid (vp_screen q) = s_grid (vp_screen p)
    \<and> s_synchronized_output (vp_screen q) = s_synchronized_output (vp_screen p)"
    by (rule reader_chunk_frame [OF r p(1)])
  then show ?thesis using r p by (intro exI [of _ q] exI [of _ sh] exI [of _ pty] exI [of _ msgs]) simp
qed

text \<open>The pane after the chunk, with a client that has received everything.\<close>

lemma demo_live:
  "\<exists>p sh l. live demo_vte demo_host 1 () (3, 1) (p, sh, l) \<and> settled l \<and> \<not> lk_missed l
     \<and> \<not> s_synchronized_output (vp_screen p)
     \<and> map (map cell_ch) (g_rows (s_grid (vp_screen p))) = [[72, 32, 32]]"
proof -
  obtain q sh pty msgs where r: "reader_chunk demo_vte demo_host 1 None [72] demo_parser demo_shared = Some (q, sh, pty, msgs)"
    and q: "\<not> s_synchronized_output (vp_screen q)" "map (map cell_ch) (g_rows (s_grid (vp_screen q))) = [[72, 32, 32]]"
    using demo_chunk by (elim exE conjE)
  let ?l = "link_start 1 (pm_latest_grid (sh_mirror demo_shared)) None (client_state_new None)"
  let ?m = "?l\<lparr>lk_grid := pm_latest_grid (sh_mirror sh), lk_unsent := diff_of msgs\<rparr>"
  have "live demo_vte demo_host 1 () (3, 1) (demo_parser, demo_shared, ?l)"
    by (rule live.attached [OF demo_spawned])
  from live.produced [OF this _ r]
  have live: "live demo_vte demo_host 1 () (3, 1) (q, sh, ?m)" by (simp add: link_start_def)
  have "lk_refresh ?m = None" by (simp add: link_start_def)
  from delivery_drains [OF this] obtain n m where m: "(delivery 1 ^^ n) ?m m" "settled m" by blast
  have "\<not> lk_missed m" using run_focused [OF m(1)] by (simp add: link_start_def)
  then show ?thesis using m live_run [OF live] q
    by (intro exI [of _ q] exI [of _ sh] exI [of _ m] conjI) simp_all
qed

end
