(* ===== verification/Terminal_Properties.thy ===== *)
theory Terminal_Properties
  imports Sample_Run
begin

text \<open>
  The properties of one pane: the screen, the parser that feeds it and the reader thread.
\<close>

section \<open>The screen\<close>

text \<open>A screen of two rows of three columns for the witnesses.\<close>

definition demo_screen :: screen where
  "demo_screen = write_char (\<lambda>_. Some 1) 65 (screen_new 3 2)"

lemma demo_screen_good: "good (g_rows (s_grid (screen_new 3 2))) demo_screen"
  unfolding demo_screen_def by (intro good_write_char good_new) (simp_all add: u16_max_def)

lemma demo_screen_facts:
  "geometry_ok demo_screen" "g_width (s_grid demo_screen) = 3" "g_height (s_grid demo_screen) = 2"
proof -
  show "geometry_ok demo_screen" by (rule good_geometry [OF demo_screen_good])
  have "dims demo_screen = (3, 2)" by (simp add: demo_screen_def) (simp add: dims_def screen_new_def)
  then show "g_width (s_grid demo_screen) = 3" "g_height (s_grid demo_screen) = 2" by (simp_all add: dims_def)
qed

text \<open>Scrolling moves each row of the scroll region up by one, blanks its last row and leaves
  the rows outside it alone; the row that leaves the screen is appended to the pending
  scrollback when the region starts at the top of the primary screen.\<close>

lemma scroll_region:
  assumes "geometry_ok s" "0 < g_height (s_grid s)"
  shows "cell_at (scroll_up s) x y =
      (if y = s_scroll_bottom s then map_option (\<lambda>_. default_cell) (cell_at s x y)
       else if s_scroll_top s \<le> y \<and> y < s_scroll_bottom s then cell_at s x (y + 1)
       else cell_at s x y)
    \<and> s_pending_scrollback (scroll_up s) = s_pending_scrollback s @
        (if \<not> s_alt_mode s \<and> s_scroll_top s = 0 then [hd (g_rows (s_grid s))] else [])"
  using scroll_up_cell [OF assms] scroll_up_scrollback [OF assms] by simp

lemma scroll_region_witness:
  "s_pending_scrollback (scroll_up demo_screen) = s_pending_scrollback demo_screen @
     (if \<not> s_alt_mode demo_screen \<and> s_scroll_top demo_screen = 0
      then [hd (g_rows (s_grid demo_screen))] else [])"
  using scroll_region [of demo_screen 0 0] by (simp add: demo_screen_facts)

text \<open>Erasing in the display or in the line blanks exactly the cells its mode names, relative to the
  cursor, and no other; an unknown mode blanks none.\<close>

lemma erase_display:
  assumes "geometry_ok s"
  shows "cell_at (erase_in_display mode s) x y =
      blank_where (display_erased mode (s_cursor_col s, s_cursor_row s)) s x y
    \<and> cell_at (erase_in_line mode s) x y =
      blank_where (\<lambda>x y. y = s_cursor_row s \<and> line_erased mode (s_cursor_col s) x) s x y"
  using erase_in_display_cell [OF assms] erase_in_line_cell [OF assms] by simp

lemma erase_display_witness:
  "cell_at (erase_in_display 2 demo_screen) 0 0 = map_option (\<lambda>_. default_cell) (cell_at demo_screen 0 0)"
  using erase_display [OF demo_screen_facts(1), of 2 0 0] by (simp add: blank_where_def display_erased_def)

text \<open>A printed character lands, with the current pen, where the cursor is after wrapping;
  a wide character also blanks the cell to its right; no other cell changes apart from the
  scrolling the wrapping may cause.\<close>

lemma print_char:
  assumes "geometry_ok s" "0 < g_width (s_grid s)" "0 < g_height (s_grid s)"
  shows "cell_at (write_char cw ch s) x y =
    (if y = s_cursor_row (write_pos cw ch s) \<and> x = s_cursor_col (write_pos cw ch s)
     then Some (pen_cell s ch)
     else if is_wide cw ch \<and> y = s_cursor_row (write_pos cw ch s)
       \<and> x = s_cursor_col (write_pos cw ch s) + 1 \<and> x < g_width (s_grid s)
     then Some (pen_cell s 32) else cell_at (write_pos cw ch s) x y)"
  by (rule write_char_cell [OF assms])

lemma print_char_witness:
  "cell_at (write_char (\<lambda>_. Some 1) 66 demo_screen) (s_cursor_col (write_pos (\<lambda>_. Some 1) 66 demo_screen))
     (s_cursor_row (write_pos (\<lambda>_. Some 1) 66 demo_screen)) = Some (pen_cell demo_screen 66)"
  using print_char [of demo_screen "\<lambda>_. Some 1" 66] by (simp add: demo_screen_facts)

text \<open>Resizing never panics on a well-formed screen, gives the new dimensions, keeps every
  cell that is inside both sizes and blanks the new ones, and leaves the screen well-formed.\<close>

lemma resize_screen:
  assumes "geometry_ok s" "cols \<le> u16_max" "rows \<le> u16_max"
  shows "\<exists>t. screen_resize cols rows s = Some t \<and> geometry_ok t \<and> dims t = (cols, rows)
    \<and> (\<forall>x y. cell_at t x y =
         (if x < cols \<and> y < rows then
            (if x < g_width (s_grid s) \<and> y < g_height (s_grid s) then cell_at s x y
             else Some default_cell)
          else None))"
proof -
  obtain t where t: "screen_resize cols rows s = Some t" "good [] t" "dims t = (cols, rows)"
    "\<And>x y. grid_get (s_grid t) x y =
       (if x < cols \<and> y < rows then
          Some (if x < g_width (s_grid s) \<and> y < g_height (s_grid s)
                then the (grid_get (s_grid s) x y) else default_cell)
        else None)"
    using screen_resize_good [OF good_self [OF assms(1)] assms(2,3)] by metis
  have "cell_at s x y \<noteq> None" if "x < g_width (s_grid s)" "y < g_height (s_grid s)" for x y
    using cell_at_inside [OF assms(1)] that by simp
  then have "cell_at t x y =
      (if x < cols \<and> y < rows then
         (if x < g_width (s_grid s) \<and> y < g_height (s_grid s) then cell_at s x y else Some default_cell)
       else None)" for x y
    unfolding cell_at_def by (simp add: t(4))
  then show ?thesis using t(1-3) good_geometry by blast
qed

lemma resize_screen_witness: "\<exists>t. screen_resize 5 1 demo_screen = Some t \<and> dims t = (5, 1)"
  using resize_screen [OF demo_screen_facts(1), of 5 1] by (auto simp: u16_max_def)

text \<open>Whatever a program does on the alternate screen, short of the modes that switch
  screens, leaving it brings back the rows and the cursor of the primary screen.\<close>

lemma alternate_screen:
  assumes "\<not> s_alt_mode s" "foldM (perform h) es (switch_to_alt s) = Some t"
    and "list_all (\<lambda>e. \<not> switches e) es"
  shows "g_rows (s_grid (switch_to_primary t)) = g_rows (s_grid s)
    \<and> s_cursor_col (switch_to_primary t) = s_cursor_col s
    \<and> s_cursor_row (switch_to_primary t) = s_cursor_row s
    \<and> \<not> s_alt_mode (switch_to_primary t) \<and> s_alt_screen (switch_to_primary t) = None"
  by (rule alt_program [OF assms])

lemma alternate_screen_witness:
  "g_rows (s_grid (switch_to_primary (erase_in_display 2 (write_char (\<lambda>_. Some 1) 90
      (switch_to_alt (screen_new 3 2)))))) = g_rows (s_grid (screen_new 3 2))"
proof -
  have "foldM (perform demo_host) [Print 90, CsiDispatch [[2]] [] (of_char CHR ''J'')]
      (switch_to_alt (screen_new 3 2)) =
      Some (erase_in_display 2 (write_char (\<lambda>_. Some 1) 90 (switch_to_alt (screen_new 3 2))))"
    by (simp add: demo_host_def csi_dispatch_def cursor_def first_param_or_def param_or_def sub_first_def Let_def)
  from alternate_screen [OF _ this] show ?thesis by (simp add: screen_new_def)
qed

section \<open>The parser\<close>

text \<open>C7: the only callback that can panic is an OSC 8 hyperlink whose target is refused, while
  warnings are logged, with a character across the eightieth byte; every other sequence of
  bytes is handled.\<close>

theorem panic_source:
  "perform h e s = None \<longleftrightarrow> (\<exists>ps bell. e = OscDispatch ps bell \<and> h_warn h \<and> unsafe_refusal ps)"
  by (rule perform_panics)

text \<open>A Kitty graphics string reaches its handler byte for byte and the parser for everything
  else sees none of it, whatever state that parser is in.\<close>

lemma apc_delivery:
  assumes "\<not> vp_apc_pending_esc p" "27 \<notin> set d" "length d \<le> MAX_APC_BUF_LEN"
  shows "advance vte h ([27, 95] @ d @ [27, 92]) p =
    Some (p\<lparr>vp_screen := handle_kitty_apc d (vp_screen p), vp_apc_active := False, vp_apc_buf := []\<rparr>)"
  by (rule advance_apc [OF assms])

lemma apc_delivery_witness:
  "advance demo_vte demo_host ([27, 95] @ [71, 97] @ [27, 92]) demo_parser =
    Some (demo_parser\<lparr>vp_screen := handle_kitty_apc [71, 97] (vp_screen demo_parser),
      vp_apc_active := False, vp_apc_buf := []\<rparr>)"
  using apc_delivery [of demo_parser "[71, 97]" demo_vte demo_host]
  by (simp add: demo_parser_def vt_new_def MAX_APC_BUF_LEN_def)

section \<open>The reader\<close>




lemma demo_reached:
  "\<exists>q sh pty msgs. reader_chunk demo_vte demo_host 1 None [72] demo_parser demo_shared = Some (q, sh, pty, msgs)
     \<and> reader_reach demo_vte demo_host 1 () (3, 1) (q, sh) \<and> \<not> s_synchronized_output (vp_screen q)"
proof -
  obtain q sh pty msgs where r: "reader_chunk demo_vte demo_host 1 None [72] demo_parser demo_shared = Some (q, sh, pty, msgs)"
    and q: "\<not> s_synchronized_output (vp_screen q)"
    using demo_chunk by (elim exE conjE)
  show ?thesis using reader_reach.chunk [OF demo_spawned r] r q
    by (intro exI [of _ q] exI [of _ sh] exI [of _ pty] exI [of _ msgs]) simp
qed


text \<open>C6: as long as no warning is logged, the reader consumes every chunk of output without a
  panic, in every state it can be in.\<close>

theorem reader_total:
  assumes "reader_reach vte h i p0 wh (p, sh)" "fst wh \<le> u16_max" "snd wh \<le> u16_max" "\<not> h_warn h"
  shows "\<exists>q sh' pty msgs. reader_chunk vte h i theme bs p sh = Some (q, sh', pty, msgs)"
  using reader_chunk_total [OF assms(4) reader_reach_sync [OF assms(1-3)]] by auto

lemma reader_total_witness:
  "\<exists>q sh' pty msgs. reader_chunk demo_vte demo_host 1 (Some ((1, 2, 3), (4, 5, 6))) [255, 27, 7, 65]
     demo_parser demo_shared = Some (q, sh', pty, msgs)"
  by (rule reader_total [OF demo_spawned]) (simp_all add: u16_max_def demo_host_def)

text \<open>C4: after a chunk, outside synchronized output, the snapshot a new client would get has
  exactly the rows of the screen; a difference is sent exactly for the change it makes to the
  snapshot, and without a difference the snapshot is unchanged.\<close>

theorem snapshot_exact:
  assumes "reader_reach vte h i p0 wh (p, sh)" "fst wh \<le> u16_max" "snd wh \<le> u16_max"
    and "reader_chunk vte h i theme bs p sh = Some (q, sh', pty, msgs)"
  shows "(\<not> s_synchronized_output (vp_screen q) \<longrightarrow>
       g_rows (pm_latest_grid (sh_mirror sh')) = g_rows (s_grid (vp_screen q)))
    \<and> (case diff_of msgs of
         None \<Rightarrow> pm_latest_grid (sh_mirror sh') = pm_latest_grid (sh_mirror sh)
       | Some d \<Rightarrow> diff_fits wh d \<and> grid_view (pm_latest_grid (sh_mirror sh')) =
           grid_view (install_diff d (pm_latest_grid (sh_mirror sh))))"
  using reader_chunk_sync(2) [OF assms(4) reader_reach_sync [OF assms(1-3)]]
    reader_chunk_diff [OF assms(4) reader_reach_sync [OF assms(1-3)]] by blast

lemma snapshot_exact_witness:
  "\<exists>q sh pty msgs. reader_chunk demo_vte demo_host 1 None [72] demo_parser demo_shared = Some (q, sh, pty, msgs)
     \<and> g_rows (pm_latest_grid (sh_mirror sh)) = g_rows (s_grid (vp_screen q))"
proof -
  obtain q sh pty msgs where r: "reader_chunk demo_vte demo_host 1 None [72] demo_parser demo_shared = Some (q, sh, pty, msgs)"
    and q: "\<not> s_synchronized_output (vp_screen q)"
    using demo_reached by (elim exE conjE)
  show ?thesis using snapshot_exact [OF demo_spawned _ _ r] r q
    by (intro exI [of _ q] exI [of _ sh] exI [of _ pty] exI [of _ msgs]) (simp add: u16_max_def)
qed

text \<open>C8: an iteration of the reader sends, after the difference, one message for every event the
  output queued, in a fixed order of the kinds and in order within a kind, and every queue
  is empty afterwards, so that no event is sent twice.\<close>

theorem messages_exact:
  assumes "reader_chunk vte h i theme bs p0 sh0 = Some (q, sh, pty, msgs)"
    and "advance vte h bs (on_screen (apply_theme theme) p0) = Some p"
  shows "(\<exists>diff. msgs = opt_msg (GridDiff i) diff @ queued_messages i (vp_screen p))
    \<and> pty = s_pending_responses (vp_screen p)
        @ snd (fold answer_dnd (s_pending_dnd_requests (vp_screen p)) (sh_dnd_payload sh0, []))
    \<and> drained (vp_screen q)"
proof -
  have "pty = s_pending_responses (vp_screen p) @ snd (dnd_answers (vp_screen p) sh0)"
    by (rule reader_chunk_Some [OF assms(1)]) (use assms(2) in simp)
  then show ?thesis using reader_chunk_messages [OF assms] reader_chunk_drained [OF assms(1)]
    by (simp add: dnd_answers_def)
qed

lemma messages_exact_witness:
  "\<exists>q sh pty msgs. reader_chunk demo_vte demo_host 1 None [72] demo_parser demo_shared = Some (q, sh, pty, msgs)
     \<and> drained (vp_screen q)"
proof -
  obtain q sh pty msgs where r: "reader_chunk demo_vte demo_host 1 None [72] demo_parser demo_shared = Some (q, sh, pty, msgs)"
    using demo_chunk by (elim exE conjE)
  obtain p where p: "advance demo_vte demo_host [72] (on_screen (apply_theme None) demo_parser) = Some p"
    using demo_advance by (elim exE conjE)
  show ?thesis using messages_exact [OF r p] r
    by (intro exI [of _ q] exI [of _ sh] exI [of _ pty] exI [of _ msgs]) simp
qed

text \<open>After a chunk the scrollback is the most recent part of the old scrollback followed by the
  lines that scrolled off, and a chunk that adds lines leaves no more than the limit.\<close>

lemma scrollback_recent:
  assumes "reader_chunk vte h i theme bs p sh = Some (q, sh', pty, msgs)"
  shows "\<exists>xs dropped. dropped @ pm_latest_scrollback (sh_mirror sh') = pm_latest_scrollback (sh_mirror sh) @ xs
    \<and> (xs = [] \<and> dropped = [] \<or> length (pm_latest_scrollback (sh_mirror sh')) \<le> sh_scrollback_limit sh)"
proof -
  obtain xs where xs: "pm_latest_scrollback (sh_mirror sh') =
      push_scrollback (sh_scrollback_limit sh) xs (pm_latest_scrollback (sh_mirror sh))"
    using reader_chunk_scrollback [OF assms] by blast
  show ?thesis
  proof (cases "xs = []")
    case True
    then show ?thesis by (intro exI [of _ "[]"]) (simp add: xs push_scrollback_def)
  next
    case False
    obtain old where "old @ pm_latest_scrollback (sh_mirror sh') = pm_latest_scrollback (sh_mirror sh) @ xs"
      unfolding xs using push_scrollback_suffix by blast
    moreover have "n - (n - k) \<le> k" for n k :: nat by simp
    then have "length (pm_latest_scrollback (sh_mirror sh')) \<le> sh_scrollback_limit sh"
      using False unfolding xs push_scrollback_def by (simp only: if_False length_drop split: if_split) simp
    ultimately show ?thesis by blast
  qed
qed

lemma scrollback_recent_witness:
  "\<exists>q sh pty msgs. reader_chunk demo_vte demo_host 1 None [72] demo_parser demo_shared = Some (q, sh, pty, msgs)
     \<and> (\<exists>xs dropped. dropped @ pm_latest_scrollback (sh_mirror sh) =
          pm_latest_scrollback (sh_mirror demo_shared) @ xs)"
proof -
  obtain q sh pty msgs where r: "reader_chunk demo_vte demo_host 1 None [72] demo_parser demo_shared = Some (q, sh, pty, msgs)"
    using demo_chunk by (elim exE conjE)
  show ?thesis using scrollback_recent [OF r] r
    by (intro exI [of _ q] exI [of _ sh] exI [of _ pty] exI [of _ msgs]) blast
qed

section \<open>A departure\<close>

lemma backspace_moves:
  assumes "geometry_ok s" "0 < s_cursor_col s"
  shows "execute 8 s = s\<lparr>s_cursor_col := s_cursor_col s - 1\<rparr>"
proof -
  have "s_cursor_col s \<le> max 1 (g_width (s_grid s))" "s_cursor_row s \<le> g_height (s_grid s) - 1"
    using assms(1) by (simp_all add: geometry_ok_def)
  then show ?thesis using assms(2)
    by (simp add: execute_def cursor_def move_cursor_def Let_def max_def min_def split: if_splits)
qed

lemma advance_backspace:
  assumes "\<not> vp_apc_pending_esc p" "\<not> vp_apc_active p" "vte (vp_parser p) 8 = ([Execute 8], r)"
    and "geometry_ok (vp_screen p)" "0 < s_cursor_col (vp_screen p)"
  shows "advance vte h [8] p = Some (p\<lparr>vp_parser := r, vp_screen :=
    (vp_screen p)\<lparr>s_cursor_col := s_cursor_col (vp_screen p) - 1\<rparr>\<rparr>)"
  using assms by (simp add: advance_plain vte_feed_def backspace_moves)

text \<open>A chunk that only moves the cursor, here a single backspace, sends no difference and
  leaves the snapshot as it was: clients and new clients keep the old cursor.\<close>

lemma cursor_unsent:
  assumes "reader_reach vte h i p0 wh (p, sh)" "fst wh \<le> u16_max" "snd wh \<le> u16_max"
    and "True \<notin> set (s_dirty (vp_screen p))" "0 < s_cursor_col (vp_screen p)"
    and "\<not> vp_apc_pending_esc p" "\<not> vp_apc_active p" "vte (vp_parser p) 8 = ([Execute 8], r)"
  shows "\<exists>q sh' pty msgs. reader_chunk vte h i None [8] p sh = Some (q, sh', pty, msgs)
    \<and> s_cursor_col (vp_screen q) = s_cursor_col (vp_screen p) - 1
    \<and> diff_of msgs = None \<and> pm_latest_grid (sh_mirror sh') = pm_latest_grid (sh_mirror sh)"
proof -
  define t where "t = (vp_screen p)\<lparr>s_cursor_col := s_cursor_col (vp_screen p) - 1\<rparr>"
  have geo: "geometry_ok (vp_screen p)"
    using reader_reach_sync [OF assms(1-3)] by (simp add: in_sync_def parser_ok_def tracked_def good_def)
  have same: "on_screen (apply_theme None) p = p" by (simp add: on_screen_def apply_theme_def)
  have adv: "advance vte h [8] (on_screen (apply_theme None) p) = Some (p\<lparr>vp_parser := r, vp_screen := t\<rparr>)"
    unfolding same t_def using assms(5-8) geo by (intro advance_backspace)
  have "geometry_ok t" using geo by (auto simp: t_def geometry_ok_def)
  then have "geometry_ok (after_pty t)"
    using good_view [OF good_self view_iteration(2)] good_geometry by blast
  then obtain s' where b: "reader_burst (sh_scrollback_limit sh) (sh_mirror sh) (after_pty t) =
      Some (sh_mirror sh, None, s')"
    using reader_burst_clean [of "after_pty t"] assms(4) by (auto simp: t_def after_pty_def)
  have col: "s_cursor_col s' = s_cursor_col (vp_screen p) - 1"
    using reader_burst_queues [OF b] by (auto simp: t_def after_pty_def)
  have none: "diff_of (queued_messages i s') = None"
    using diff_of_messages [of i None s'] by (simp add: opt_msg_def)
  show ?thesis unfolding reader_chunk_eq adv
    by (simp add: b) (simp add: opt_msg_def none col drain_all_def)
qed

text \<open>For the witness: the pane after the letter, its cursor in column one.\<close>

lemma reader_chunk_rest:
  assumes "reader_chunk vte h i theme bs p0 sh0 = Some (q, sh, pty, msgs)"
    and "advance vte h bs (on_screen (apply_theme theme) p0) = Some p"
    and "\<not> s_synchronized_output (vp_screen p)"
  shows "s_cursor_col (vp_screen q) = s_cursor_col (vp_screen p) \<and> True \<notin> set (s_dirty (vp_screen q))
    \<and> vp_apc_pending_esc q = vp_apc_pending_esc p \<and> vp_apc_active q = vp_apc_active p"
proof (rule reader_chunk_Some [OF assms(1)])
  fix r mirror diff s3
  assume r: "advance vte h bs (on_screen (apply_theme theme) p0) = Some r"
    and b: "reader_burst (sh_scrollback_limit sh0) (sh_mirror sh0) (after_pty (vp_screen r)) = Some (mirror, diff, s3)"
    and q: "q = r\<lparr>vp_screen := drain_all s3\<rparr>"
  have "r = p" using r assms(2) by simp
  obtain dirty where d: "take_dirty_rows (after_pty (vp_screen p)) =
      Some (dirty, (after_pty (vp_screen p))\<lparr>s_dirty := map (\<lambda>_. False) (s_dirty (vp_screen p))\<rparr>)"
    using b assms(3) \<open>r = p\<close>
    by (cases "collect_dirty (g_rows (s_grid (vp_screen p))) 0 (s_dirty (vp_screen p))")
      (auto simp: reader_burst_def take_dirty_rows_def after_pty_def)
  have "True \<notin> set (s_dirty s3)" using b d \<open>r = p\<close>
    by (auto simp: reader_burst_def Let_def take_scrolled_off_lines_def cursor_def split: if_splits)
  moreover obtain e sb where "s3 = (after_pty (vp_screen p))\<lparr>s_dirty := e, s_pending_scrollback := sb\<rparr>"
    using reader_burst_queues [OF b] \<open>r = p\<close> by blast
  ultimately show ?thesis using \<open>r = p\<close> by (simp add: q drain_all_def after_pty_def)
qed

lemma demo_after_letter:
  "\<exists>q sh. reader_reach demo_vte demo_host 1 () (3, 1) (q, sh) \<and> s_cursor_col (vp_screen q) = 1
     \<and> True \<notin> set (s_dirty (vp_screen q)) \<and> \<not> vp_apc_pending_esc q \<and> \<not> vp_apc_active q"
proof -
  obtain q sh pty msgs where r: "reader_chunk demo_vte demo_host 1 None [72] demo_parser demo_shared = Some (q, sh, pty, msgs)"
    using demo_chunk by (elim exE conjE)
  obtain p where p: "advance demo_vte demo_host [72] (on_screen (apply_theme None) demo_parser) = Some p"
    "\<not> s_synchronized_output (vp_screen p)" using demo_advance by (elim exE conjE)
  have "map_option (\<lambda>p. (s_cursor_col (vp_screen p), vp_apc_pending_esc p, vp_apc_active p))
      (advance demo_vte demo_host [72] (on_screen (apply_theme None) demo_parser)) = Some (1, False, False)"
    by (simp add: advance_Cons advance_byte_def vte_feed_def demo_vte_def demo_host_def demo_parser_def
        vt_new_def screen_new_def write_char_def wrap_line_def Let_def on_screen_def apply_theme_def
        wrap16_def on_grid_def mark_dirty_def grid_new_def)
  then show ?thesis using reader_chunk_rest [OF r p] reader_reach.chunk [OF demo_spawned r] p(1)
    by (intro exI [of _ q] exI [of _ sh]) simp
qed

lemma cursor_unsent_witness:
  "\<exists>q sh q' sh' pty msgs. reader_chunk demo_vte demo_host 1 None [8] q sh = Some (q', sh', pty, msgs)
     \<and> s_cursor_col (vp_screen q) = 1 \<and> s_cursor_col (vp_screen q') = 0
     \<and> diff_of msgs = None \<and> pm_latest_grid (sh_mirror sh') = pm_latest_grid (sh_mirror sh)"
proof -
  obtain q sh where r: "reader_reach demo_vte demo_host 1 () (3, 1) (q, sh)"
    and q: "s_cursor_col (vp_screen q) = 1" "True \<notin> set (s_dirty (vp_screen q))"
      "\<not> vp_apc_pending_esc q" "\<not> vp_apc_active q"
    using demo_after_letter by (elim exE conjE)
  have "\<exists>q' sh' pty msgs. reader_chunk demo_vte demo_host 1 None [8] q sh = Some (q', sh', pty, msgs)
     \<and> s_cursor_col (vp_screen q') = s_cursor_col (vp_screen q) - 1
     \<and> diff_of msgs = None \<and> pm_latest_grid (sh_mirror sh') = pm_latest_grid (sh_mirror sh)"
    by (rule cursor_unsent [OF r]) (use q in \<open>simp_all add: u16_max_def demo_vte_def\<close>)
  then obtain q' sh' pty msgs where
    "reader_chunk demo_vte demo_host 1 None [8] q sh = Some (q', sh', pty, msgs)"
    "s_cursor_col (vp_screen q') = s_cursor_col (vp_screen q) - 1"
    "diff_of msgs = None" "pm_latest_grid (sh_mirror sh') = pm_latest_grid (sh_mirror sh)"
    by (elim exE conjE)
  then show ?thesis using q(1)
    by (intro exI [of _ q] exI [of _ sh] exI [of _ q'] exI [of _ sh'] exI [of _ pty] exI [of _ msgs]) simp
qed

end
