(* ===== verification/Codec_Properties.thy ===== *)
theory Codec_Properties
  imports Pane_Codec Screen_Bufs
begin

text \<open>
  The properties of the decoders and encoders: images, base64, drag-and-drop replies,
  directories, colours and the strings of OSC sequences.
\<close>

section \<open>Images\<close>

text \<open>C11: decoding a sixel stream gives the image that painting the stream on an unbounded canvas
  gives: the same extent, and at every pixel the bytes of the colour painted there last, or
  four zeros where nothing was painted.  The interpreter of the commands (\<open>sixel_step\<close>) is the same for both,
  what is compared is the growing buffer, painting a column and the copy to the image.\<close>

theorem sixel_canvas:
  assumes "canvas_loop data (sixel_init (\<lambda>_ _. None)) = Some cv"
  shows "if sx_max_x cv = 0 then decode_sixel data = None
    else \<exists>img. decode_sixel data = Some img \<and> img_width img = sx_max_x cv
      \<and> img_height img = (sx_max_band cv + 1) * 6
      \<and> (\<forall>c < img_width img. \<forall>r < img_height img.
           quad (r * img_width img + c) (img_rgba img) = pixel_bytes (sx_buf cv c r))"
proof -
  obtain st where st: "sixel_loop ensure_bands paint_col data (sixel_init [[]]) = Some st" "cv = sixel_abs st"
    using assms sixel_loop_refines [of data "sixel_init [[]]"]
    by (cases "sixel_loop ensure_bands paint_col data (sixel_init [[]])") (auto simp: sixel_abs_init)
  show ?thesis using decode_sixel_cases [OF st(1)]
    by (simp add: st(2) quad_sixel_rgba)
qed

lemma sixel_canvas_witness:
  "\<exists>cv. canvas_loop [63] (sixel_init (\<lambda>_ _. None)) = Some cv \<and> sx_max_x cv = 1 \<and> decode_sixel [63] \<noteq> None"
proof -
  have "\<exists>cv. canvas_loop [63] (sixel_init (\<lambda>_ _. None)) = Some cv \<and> sx_max_x cv = 1"
    by (simp add: canvas_loop_def sixel_loop.simps sixel_step_def sixel_init_def MAX_SIXEL_DIMENSION_def
        current_rgb_def Let_def)
  then obtain cv where cv: "canvas_loop [63] (sixel_init (\<lambda>_ _. None)) = Some cv" "sx_max_x cv = 1" by blast
  show ?thesis using sixel_canvas [OF cv(1)] cv by auto
qed

text \<open>An image that any of the three decoders accepts has four bytes for each of its pixels and
  stays within the size limit, given an image library that returns what it documents.\<close>

lemma images_sized:
  assumes "loader_law load"
  shows "(decode_sixel d = Some img \<longrightarrow> image_ok img) \<and> (decode_kitty d = Some img \<longrightarrow> image_ok img)
    \<and> (decode_iterm2 load d = Some img \<longrightarrow> image_ok img)"
  using sixel.decode_ok kitty.decode_ok image_decoder.decode_ok [OF decode_iterm2_decoder [OF assms]]
  by blast

lemma images_sized_witness: "image_ok \<lparr>img_width = 1, img_height = 1, img_rgba = [1, 2, 3, 4]\<rparr>"
proof -
  let ?load = "\<lambda>_ :: byte list. Some (1 :: nat, 1 :: nat, [1, 2, 3, 4 :: byte])"
  have "loader_law ?load" by (simp add: loader_law_def u32_max_def)
  from images_sized [OF this, of "[]" "\<lparr>img_width = 1, img_height = 1, img_rgba = [1, 2, 3, 4]\<rparr>"]
  show ?thesis by (simp add: decode_iterm2_def checked_image_bytes_def MAX_IMAGE_BYTES_def)
qed

section \<open>Base64 and drag-and-drop\<close>

text \<open>What the server encodes, the decoder of the terminal decodes to the same bytes; the
  encoder agrees with the standard alphabet and padding.\<close>

lemma base64_roundtrip:
  "base64_decode (as_bytes (base64_encode bs)) = Some bs \<and> as_bytes (base64_encode bs) = base64_std bs"
  by (simp add: as_bytes_base64 base64_decode_std)

text \<open>The answer to a request for the dropped data is a sequence of replies with non-empty
  chunks of at most 4096 bytes, closed by one empty final reply; the chunks together decode
  to the data offered.  Any other index is answered with an error reply.\<close>

lemma dnd_replies:
  "(\<exists>cs. build_dnd_data_replies 1 (Some p) =
        map (\<lambda>c. dnd_head 1 '':m=1;'' @ c @ dnd_tail) cs @ [dnd_head 1 '':m=0;'' @ dnd_tail]
      \<and> (\<forall>c \<in> set cs. c \<noteq> [] \<and> length c \<le> DND_CHUNK_BYTES)
      \<and> base64_decode (concat cs) = Some (as_bytes p))
   \<and> (i \<noteq> 1 \<longrightarrow> build_dnd_data_replies i (Some p) = build_dnd_data_replies i None
        \<and> length (build_dnd_data_replies i (Some p)) = 1)"
proof -
  let ?cs = "chunks DND_CHUNK_BYTES (as_bytes (base64_encode (as_bytes p)))"
  have "concat ?cs = base64_std (as_bytes p)"
    by (simp add: chunks_concat DND_CHUNK_BYTES_def as_bytes_base64)
  then have "base64_decode (concat ?cs) = Some (as_bytes p)" by (simp add: base64_decode_std)
  moreover have "build_dnd_data_replies 1 (Some p) =
      map (\<lambda>c. dnd_head 1 '':m=1;'' @ c @ dnd_tail) ?cs @ [dnd_head 1 '':m=0;'' @ dnd_tail]"
    by (simp add: build_dnd_data_replies_def)
  ultimately show ?thesis using chunks_bound [of _ DND_CHUNK_BYTES]
    by (intro conjI exI [of _ ?cs]) (auto simp: build_dnd_data_replies_def)
qed

lemma dnd_replies_witness: "length (build_dnd_data_replies 2 (Some [65])) = 1"
  using dnd_replies [of "[65]" 2] by auto

section \<open>Directories and colours\<close>

text \<open>A directory that the server turns into a file URI is read back from an OSC 7 report as the
  same absolute path, with any host name in front.\<close>

lemma directory_roundtrip:
  assumes "full = (if starts_with (slashes path) [47] then slashes path else 47 # slashes path)"
    and "list_all is_scalar full" "osc_clean MAX_CWD_LEN full"
    and "47 \<notin> set host_name" "str_len host_name \<le> 4089"
  shows "parse_osc7_cwd (path_to_file_uri path) = Some full
    \<and> parse_osc7_cwd (lit ''file://'' @ host_name @ uri_path full) = Some full"
proof -
  obtain p where p: "full = 47 # p"
    using assms(1) by (cases "slashes path") (auto simp: starts_with_def split: if_splits)
  show ?thesis
    using parse_osc7_file_uri [OF assms(1-3)] parse_osc7_uri [OF assms(2,3) p assms(4,5)] by simp
qed

lemma directory_roundtrip_witness:
  "parse_osc7_cwd (path_to_file_uri [47, 104, 32, 233]) = Some [47, 104, 32, 233]"
  using directory_roundtrip [of "[47, 104, 32, 233]" "[47, 104, 32, 233]" "[]"]
  by (simp add: slashes_def starts_with_def is_scalar_def osc_clean_def osc_keeps_def str_len_def
      len_utf8_def MAX_CWD_LEN_def)

text \<open>The reply to a colour query, sent back as a colour specification, sets the same
  colour.\<close>

lemma colour_roundtrip: "parse_color_spec (format_rgb_reply c) = Some c"
  by (rule parse_format_rgb_reply)

section \<open>Strings of OSC sequences\<close>

text \<open>Sanitizing keeps, in order, the characters that are not control characters, cuts at a
  character boundary within the limit, and is the identity on strings that are clean.\<close>

lemma sanitized:
  "sanitize_osc_string s n = take_bytes n (filter osc_keeps s)
    \<and> str_len (sanitize_osc_string s n) \<le> n \<and> list_all osc_keeps (sanitize_osc_string s n)
    \<and> sanitize_osc_string (sanitize_osc_string s n) n = sanitize_osc_string s n"
  using sanitize_clean [of n s] sanitize_id [OF sanitize_clean [of n s]]
  by (simp add: sanitize_eq osc_clean_def)

text \<open>A hyperlink target that is accepted starts, up to case, with an allowed scheme, is at most
  2048 bytes long and has lost nothing but control characters; without the warning every
  target is decided without a panic.\<close>

lemma hyperlink_schemes:
  "(validate_hyperlink_uri w u = Some (Some v) \<longrightarrow>
      list_ex (starts_with (to_lowercase u)) ALLOWED_HYPERLINK_SCHEMES
      \<and> v = filter uri_keeps u \<and> v \<noteq> [] \<and> str_len v \<le> MAX_HYPERLINK_URI_LEN)
   \<and> validate_hyperlink_uri False u \<noteq> None"
  using validate_hyperlink_uri_ok [of w u v] validate_hyperlink_uri_total [of False u]
  by (auto simp: link_ok_def)

lemma hyperlink_schemes_witness:
  "validate_hyperlink_uri True (lit ''https://a'') = Some (Some (lit ''https://a''))
    \<and> list_ex (starts_with (to_lowercase (lit ''https://a''))) ALLOWED_HYPERLINK_SCHEMES"
proof -
  have "validate_hyperlink_uri True (lit ''https://a'') = Some (Some (lit ''https://a''))"
    by (simp add: validate_hyperlink_uri_def ALLOWED_HYPERLINK_SCHEMES_def lit_def to_lowercase_def
        lower_char_def starts_with_def str_len_def len_utf8_def MAX_HYPERLINK_URI_LEN_def uri_keeps_def Let_def)
  then show ?thesis using hyperlink_schemes [of True "lit ''https://a''" "lit ''https://a''"] by blast
qed

end
