(* ===== verification/Window_Inv.thy ===== *)
theory Window_Inv
  imports Window
begin

text \<open>
  The invariant of a window: the split tree, the two pane maps and the tab order name the
  same panes, each once, the focus is one of them, and floating panes are within bounds.
  Every operation keeps it, except where the source breaks it; those cases are stated as
  theorems of their own.
\<close>

section \<open>Association lists\<close>

lemma keys_update: "map fst (AList.update k v m) = (if k \<in> fst ` set m then map fst m else map fst m @ [k])"
  by (induction m) auto

lemma keys_delete: "map fst (AList.delete k m) = filter (\<lambda>j. j \<noteq> k) (map fst m)"
  by (simp add: AList.delete_eq filter_map comp_def split_def eq_commute [of k])

lemma has_key_iff: "has_key k m \<longleftrightarrow> k \<in> set (map fst m)"
  by (simp add: has_key_def map_of_eq_None_iff)

lemma keys_resize_one [simp]: "map fst (resize_one r m) = map fst m"
  by (simp add: resize_one_def keys_update has_key_iff)

lemma keys_resize_fold [simp]: "map fst (fold resize_one rs m) = map fst m"
  by (induction rs arbitrary: m) simp_all

lemma set_update_subset: "set (AList.update k v m) \<subseteq> insert (k, v) (set m)"
  by (induction m) auto

section \<open>The invariant\<close>

definition floats_ok :: "window \<Rightarrow> bool" where
  "floats_ok w \<longleftrightarrow>
     distinct (map fst (w_floating_panes w))
     \<and> list_all (\<lambda>(_, _, r). float_ok (w_last_cols w) (w_last_rows w) r) (w_floating_panes w)"

definition tabs_ok :: "window \<Rightarrow> bool" where
  "tabs_ok w \<longleftrightarrow>
     distinct (pane_ids w) \<and> bsp_tree.holds (w_layout w) (set (pane_ids w))
     \<and> distinct (w_pane_order w) \<and> set (w_pane_order w) = set (pane_ids w)
     \<and> w_focused_pane_id w \<in> set (pane_ids w)"

definition window_ok :: "window \<Rightarrow> bool" where
  "window_ok w \<longleftrightarrow> tabs_ok w \<and> floats_ok w"

text \<open>Resizing touches sizes only.\<close>

definition same_core :: "window \<Rightarrow> window \<Rightarrow> bool" where
  "same_core w v \<longleftrightarrow>
     map fst (w_panes v) = map fst (w_panes w) \<and> map fst (w_serial_panes v) = map fst (w_serial_panes w)
     \<and> w_layout v = w_layout w \<and> w_pane_order v = w_pane_order w
     \<and> w_focused_pane_id v = w_focused_pane_id w \<and> w_layout_mode v = w_layout_mode w
     \<and> w_zoomed v = w_zoomed w"

lemma same_core_tabs: "same_core w v \<Longrightarrow> tabs_ok v \<longleftrightarrow> tabs_ok w"
  by (simp add: same_core_def tabs_ok_def pane_ids_def)

lemma same_core_trans: "same_core u v \<Longrightarrow> same_core v w \<Longrightarrow> same_core u w"
  by (simp add: same_core_def)

lemma core_resize_ptys: "same_core w (resize_ptys rs w)"
  by (simp add: same_core_def resize_ptys_def)

lemma floats_resize_ptys [simp]: "floats_ok (resize_ptys rs w) = floats_ok w"
  by (simp add: resize_ptys_def floats_ok_def)

lemma core_resize_any: "same_core w (resize_any r w)"
  by (simp add: same_core_def resize_any_def)

lemma core_resize_any_fold: "same_core w (fold resize_any rs w)"
proof (rule fold_inv [of "same_core w"])
  show "same_core w w" by (simp add: same_core_def)
qed (blast intro: same_core_trans core_resize_any)

lemma core_resize_all: "same_core w (resize_all_panes cols rows w)"
proof -
  let ?w1 = "w\<lparr>w_last_cols := cols, w_last_rows := rows\<rparr>"
  have "same_core w ?w1" by (simp add: same_core_def)
  from same_core_trans [OF this core_resize_any_fold, of "compute_layouts cols rows ?w1"]
  show ?thesis by (simp add: resize_all_panes_def Let_def same_core_def)
qed

lemma fold_resize_any_other:
  "w_floating_panes (fold resize_any rs w) = w_floating_panes w"
  "w_last_cols (fold resize_any rs w) = w_last_cols w"
  "w_last_rows (fold resize_any rs w) = w_last_rows w"
proof -
  have "w_floating_panes (fold resize_any rs w) = w_floating_panes w
    \<and> w_last_cols (fold resize_any rs w) = w_last_cols w
    \<and> w_last_rows (fold resize_any rs w) = w_last_rows w"
    by (rule fold_inv) (auto simp: resize_any_def)
  then show "w_floating_panes (fold resize_any rs w) = w_floating_panes w"
    "w_last_cols (fold resize_any rs w) = w_last_cols w"
    "w_last_rows (fold resize_any rs w) = w_last_rows w" by simp_all
qed

lemma floats_resize_all:
  "distinct (map fst (w_floating_panes w)) \<Longrightarrow> floats_ok (resize_all_panes cols rows w)"
  by (auto simp: resize_all_panes_def Let_def floats_ok_def fold_resize_any_other list_all_iff
      reclamp_floating_def comp_def split_def)

lemma window_ok_resize_all: "window_ok w \<Longrightarrow> window_ok (resize_all_panes cols rows w)"
  using same_core_tabs [OF core_resize_all] floats_resize_all [of w cols rows]
  by (simp add: window_ok_def floats_ok_def)

lemma window_ok_resize_ptys [simp]: "window_ok (resize_ptys rs w) = window_ok w"
  using same_core_tabs [OF core_resize_ptys] by (simp add: window_ok_def)

section \<open>Construction and insertion\<close>

lemma window_ok_single: "window_ok (window_single wid name pane cols rows)"
  by (simp add: window_ok_def tabs_ok_def floats_ok_def window_single_def pane_ids_def
      bsp_tree.holds_def)

lemma tabs_insert:
  assumes "tabs_ok w" "new \<notin> set (pane_ids w)"
    and "set (pane_ids v) = insert new (set (pane_ids w))" "distinct (pane_ids v)"
    and "w_layout v = snd (insert_after (w_layout w) (w_focused_pane_id w) new dir)"
    and "distinct (w_pane_order v)" "set (w_pane_order v) = insert new (set (w_pane_order w))"
    and "w_focused_pane_id v = new"
  shows "tabs_ok v"
proof -
  have "bsp_tree.holds (w_layout v) (insert new (set (pane_ids w)))"
    unfolding assms(5)
    by (rule bsp_tree.holds_ins(1)) (use assms(1,2) in \<open>simp_all add: tabs_ok_def\<close>)
  then show ?thesis using assms by (simp add: tabs_ok_def)
qed

lemma pane_ids_update:
  "new \<notin> set (pane_ids w) \<Longrightarrow> distinct (pane_ids w) \<Longrightarrow>
   set (map fst (AList.update new v (w_panes w)) @ map fst (w_serial_panes w)) = insert new (set (pane_ids w))
   \<and> distinct (map fst (AList.update new v (w_panes w)) @ map fst (w_serial_panes w))"
  "new \<notin> set (pane_ids w) \<Longrightarrow> distinct (pane_ids w) \<Longrightarrow>
   set (map fst (w_panes w) @ map fst (AList.update new v (w_serial_panes w))) = insert new (set (pane_ids w))
   \<and> distinct (map fst (w_panes w) @ map fst (AList.update new v (w_serial_panes w)))"
  by (auto simp: pane_ids_def keys_update)

lemma insert_after_in_tree:
  assumes "tabs_ok w" "new \<notin> set (pane_ids w)"
  obtains lay where "insert_after (w_layout w) (w_focused_pane_id w) new dir = (True, lay)"
  using bsp_tree.holds_ins(2) [of "w_layout w" "set (pane_ids w)" "w_focused_pane_id w" new dir] assms
  by (cases "insert_after (w_layout w) (w_focused_pane_id w) new dir") (simp add: tabs_ok_def)

lemma add_pane_ok:
  assumes "window_ok w" "new \<notin> set (pane_ids w)"
    and "add_pane_with_options new True dir tc tr w = (r, v)"
  shows "r = Some new \<and> window_ok v \<and> set (pane_ids v) = insert new (set (pane_ids w))
    \<and> w_focused_pane_id v = new \<and> w_pane_order v = w_pane_order w @ [new]"
proof -
  have t: "tabs_ok w" using assms(1) by (simp add: window_ok_def)
  obtain lay where lay: "insert_after (w_layout w) (w_focused_pane_id w) new dir = (True, lay)"
    using insert_after_in_tree [OF t assms(2)] .
  let ?v = "\<lambda>sz. w\<lparr>w_layout := lay, w_panes := AList.update new sz (w_panes w),
      w_focused_pane_id := new, w_pane_order := w_pane_order w @ [new]\<rparr>"
  have "\<exists>sz rs. add_pane_with_options new True dir tc tr w = (Some new, resize_ptys rs (?v sz))"
    by (simp add: add_pane_with_options_def lay Let_def del: split_paired_Ex)
      (intro exI, rule refl)
  then obtain sz rs where v: "v = resize_ptys rs (?v sz)" and r: "r = Some new"
    using assms(3) by auto
  have ids: "set (pane_ids (?v sz)) = insert new (set (pane_ids w))" "distinct (pane_ids (?v sz))"
    using pane_ids_update(1) [OF assms(2), of sz] t by (simp_all add: tabs_ok_def pane_ids_def)
  have "tabs_ok (?v sz)"
    by (rule tabs_insert [where dir = dir, OF t assms(2) ids])
      (use t assms(2) in \<open>simp_all add: tabs_ok_def lay\<close>)
  moreover have "floats_ok (?v sz)" using assms(1) by (simp add: window_ok_def floats_ok_def)
  ultimately have "window_ok (?v sz)" by (simp only: window_ok_def)
  moreover have "set (pane_ids v) = set (pane_ids (?v sz))"
    by (simp add: v resize_ptys_def pane_ids_def)
  moreover have "w_focused_pane_id v = new" "w_pane_order v = w_pane_order w @ [new]"
    by (simp_all add: v resize_ptys_def)
  ultimately show ?thesis using r ids(1) by (simp add: v)
qed

lemma insert_at_mset: "mset (insert_at n x xs) = add_mset x (mset xs)"
proof -
  have "mset xs = mset (take n xs) + mset (drop n xs)"
    by (metis append_take_drop_id mset_append)
  then show ?thesis by (simp add: insert_at_def)
qed

lemma insert_at_set: "set (insert_at n x xs) = insert x (set xs)"
  using insert_at_mset [of n x xs] by (metis set_mset_add_mset_insert set_mset_mset)

lemma insert_at_distinct: "distinct (insert_at n x xs) \<longleftrightarrow> distinct xs \<and> x \<notin> set xs"
  using insert_at_mset [of n x xs] by (metis distinct.simps(2) mset.simps(2) mset_eq_imp_distinct_iff)

lemma insert_pane_at_ok:
  assumes "window_ok w" "fst p \<notin> set (pane_ids w)"
  shows "window_ok (insert_pane_at p tc tr dir pos w)"
proof -
  have t: "tabs_ok w" using assms(1) by (simp add: window_ok_def)
  let ?v = "\<lambda>n. w\<lparr>w_layout := snd (insert_after (w_layout w) (w_focused_pane_id w) (fst p) dir),
      w_panes := AList.update (fst p) (snd p) (w_panes w), w_focused_pane_id := fst p,
      w_zoomed := False, w_pane_order := insert_at n (fst p) (w_pane_order w)\<rparr>"
  have "tabs_ok (?v n)" for n
  proof (rule tabs_insert [OF t assms(2)])
    show "set (pane_ids (?v n)) = insert (fst p) (set (pane_ids w))" "distinct (pane_ids (?v n))"
      using pane_ids_update(1) [OF assms(2), of "snd p"] t by (simp_all add: tabs_ok_def pane_ids_def)
  qed (use t assms(2) in \<open>simp_all add: tabs_ok_def insert_at_distinct insert_at_set\<close>)
  moreover have "floats_ok (?v n)" for n
    using assms(1) by (simp add: window_ok_def floats_ok_def)
  ultimately have "window_ok (?v n)" for n by (simp only: window_ok_def)
  then show ?thesis by (simp add: insert_pane_at_def Let_def)
qed

lemma add_serial_ok:
  assumes "window_ok w" "new \<notin> set (pane_ids w)"
  shows "window_ok (snd (add_serial_pane (Some new) dir tc tr w))"
proof -
  have t: "tabs_ok w" using assms(1) by (simp add: window_ok_def)
  let ?v = "w\<lparr>w_layout := snd (insert_after (w_layout w) (w_focused_pane_id w) new dir),
      w_serial_panes := AList.update new (tc, tr) (w_serial_panes w), w_focused_pane_id := new,
      w_pane_order := w_pane_order w @ [new]\<rparr>"
  have "tabs_ok ?v"
  proof (rule tabs_insert [OF t assms(2)])
    show "set (pane_ids ?v) = insert new (set (pane_ids w))" "distinct (pane_ids ?v)"
      using pane_ids_update(2) [OF assms(2), of "(tc, tr)"] t by (simp_all add: tabs_ok_def pane_ids_def)
  qed (use t assms(2) in \<open>simp_all add: tabs_ok_def\<close>)
  moreover have "floats_ok ?v" using assms(1) by (simp add: window_ok_def floats_ok_def)
  ultimately have "window_ok ?v" by (simp only: window_ok_def)
  then show ?thesis by (simp add: add_serial_pane_def window_ok_resize_all)
qed

section \<open>Removal\<close>

lemma pane_ids_delete:
  "map fst (AList.delete i (w_panes w)) @ map fst (AList.delete i (w_serial_panes w)) =
     filter (\<lambda>j. j \<noteq> i) (pane_ids w)"
  by (simp add: pane_ids_def keys_delete)

lemma delete_absent: "i \<notin> set (map fst m) \<Longrightarrow> map fst (AList.delete i m) = map fst m"
  by (auto simp: keys_delete filter_id_conv)

lemma tabs_remove:
  assumes "tabs_ok w" "i \<in> set (pane_ids w)" "set (pane_ids w) \<noteq> {i}"
    and "pane_ids v = filter (\<lambda>j. j \<noteq> i) (pane_ids w)"
    and "w_layout v = snd (sn_remove (w_layout w) i)"
    and "w_pane_order v = drop_pane_order i (w_pane_order w)"
    and "w_focused_pane_id v \<in> set (pane_ids v)"
  shows "tabs_ok v"
proof -
  have "bsp_tree.holds (w_layout v) (set (pane_ids w) - {i})"
    unfolding assms(5) by (rule bsp_tree.holds_del) (use assms(1,3) in \<open>simp_all add: tabs_ok_def\<close>)
  moreover have "set (pane_ids v) = set (pane_ids w) - {i}" using assms(4) by auto
  ultimately show ?thesis using assms(1,4,6,7)
    by (auto simp: tabs_ok_def drop_pane_order_def)
qed

lemma two_panes:
  assumes "1 < length (w_panes w)" "distinct (pane_ids w)"
  shows "\<exists>j. j \<noteq> i \<and> j \<in> set (map fst (w_panes w))" "set (pane_ids w) \<noteq> {i}"
proof -
  obtain p q r where ps: "w_panes w = p # q # r"
    using assms(1) by (cases "w_panes w" rule: remdups_adj.cases) auto
  then have "fst p \<noteq> fst q" using assms(2) by (auto simp: pane_ids_def)
  then have "(if i = fst p then fst q else fst p) \<noteq> i
    \<and> (if i = fst p then fst q else fst p) \<in> set (map fst (w_panes w))" using ps by auto
  then show "\<exists>j. j \<noteq> i \<and> j \<in> set (map fst (w_panes w))" by blast
  then show "set (pane_ids w) \<noteq> {i}" by (auto simp: pane_ids_def)
qed

lemma sorted_pane_ids_set: "set (sorted_pane_ids w) = set (map fst (w_panes w))"
  by (simp add: sorted_pane_ids_def)

lemma next_focus:
  assumes "1 < length (w_panes w)" "distinct (pane_ids w)" "w_panes v = AList.delete i (w_panes w)"
  obtains n ns where "sorted_pane_ids v = n # ns" "n \<in> set (map fst (w_panes v))" "n \<noteq> i"
    "\<And>j. j \<in> set (map fst (w_panes v)) \<Longrightarrow> n \<le> j"
proof -
  obtain j where "j \<noteq> i" "j \<in> set (map fst (w_panes w))" using two_panes(1) [OF assms(1,2)] by blast
  then have "j \<in> set (sorted_pane_ids v)"
    by (simp only: sorted_pane_ids_set assms(3) keys_delete) simp
  then obtain n ns where ns: "sorted_pane_ids v = n # ns" by (cases "sorted_pane_ids v") auto
  then have n: "n \<in> set (map fst (w_panes v))" using sorted_pane_ids_set [of v] by auto
  moreover have "n \<noteq> i" using n by (simp only: assms(3) keys_delete) simp
  moreover have "n \<le> k" if "k \<in> set (map fst (w_panes v))" for k
  proof -
    have "sorted (n # ns)" using ns by (metis sorted_pane_ids_def sorted_sort)
    moreover have "k \<in> set (n # ns)" using that sorted_pane_ids_set [of v] ns by auto
    ultimately show ?thesis by auto
  qed
  ultimately show ?thesis using that ns by blast
qed

text \<open>Removing the focused pane never panics; the focus goes to the smallest id left.\<close>

lemma remove_focused_ok:
  assumes "window_ok w"
  shows "\<exists>r v. remove_focused_pane cols rows w = Some (r, v) \<and> window_ok v
    \<and> (if length (w_panes w) \<le> 1 then r = None \<and> v = w
       else r = Some (w_focused_pane_id w)
         \<and> set (pane_ids v) = set (pane_ids w) - {w_focused_pane_id w})"
proof (cases "length (w_panes w) \<le> 1")
  case True
  then show ?thesis using assms by (simp add: remove_focused_pane_def)
next
  case False
  let ?i = "w_focused_pane_id w"
  have t: "tabs_ok w" and f: "floats_ok w" using assms by (simp_all add: window_ok_def)
  have d: "distinct (pane_ids w)" and fi: "?i \<in> set (pane_ids w)" using t by (simp_all add: tabs_ok_def)
  let ?w1 = "w\<lparr>w_layout := snd (sn_remove (w_layout w) ?i), w_panes := AList.delete ?i (w_panes w),
    w_serial_panes := AList.delete ?i (w_serial_panes w),
    w_pane_order := drop_pane_order ?i (w_pane_order w)\<rparr>"
  obtain n ns where n: "sorted_pane_ids ?w1 = n # ns" "n \<in> set (map fst (w_panes ?w1))"
    by (rule next_focus [of w ?w1 ?i]) (use False d in simp_all)
  let ?w2 = "?w1\<lparr>w_focused_pane_id := n\<rparr>"
  have ids: "pane_ids ?w2 = filter (\<lambda>j. j \<noteq> ?i) (pane_ids w)"
    using pane_ids_delete [of ?i w] by (simp add: pane_ids_def)
  have "tabs_ok ?w2"
    by (rule tabs_remove [OF t fi two_panes(2) [OF _ d] ids])
      (use False n in \<open>simp_all add: pane_ids_def\<close>)
  then have ok: "window_ok ?w2" using f by (simp add: window_ok_def floats_ok_def)
  have "remove_focused_pane cols rows w = Some (Some ?i, resize_ptys (compute_layouts cols rows ?w2) ?w2)"
    using False n(1) by (simp add: remove_focused_pane_def Let_def)
  moreover have "pane_ids (resize_ptys rs u) = pane_ids u" for rs u
    by (simp add: resize_ptys_def pane_ids_def)
  ultimately show ?thesis using False ok ids by auto
qed

lemma take_pane_ok:
  assumes "window_ok w"
  shows "\<exists>r v. take_pane_by_id i cols rows w = Some (r, v) \<and> window_ok v
    \<and> (case r of None \<Rightarrow> v = w
       | Some p \<Rightarrow> fst p = i \<and> map_of (w_panes w) i = Some (snd p)
           \<and> set (pane_ids v) = set (pane_ids w) - {i})"
proof (cases "length (w_panes w) \<le> 1 \<or> has_key i (w_serial_panes w) \<or> map_of (w_panes w) i = None")
  case True
  then show ?thesis using assms by (auto simp: take_pane_by_id_def)
next
  case False
  then obtain sz where sz: "map_of (w_panes w) i = Some sz" by auto
  have t: "tabs_ok w" and f: "floats_ok w" using assms by (simp_all add: window_ok_def)
  have d: "distinct (pane_ids w)" using t by (simp add: tabs_ok_def)
  have ip: "i \<in> set (map fst (w_panes w))" using sz by (metis map_of_eq_None_iff option.distinct(1) set_map)
  then have iw: "i \<in> set (pane_ids w)" by (simp add: pane_ids_def)
  have noser: "i \<notin> set (map fst (w_serial_panes w))" using False by (simp add: has_key_iff)
  let ?w1 = "w\<lparr>w_layout := snd (sn_remove (w_layout w) i), w_panes := AList.delete i (w_panes w),
    w_pane_order := drop_pane_order i (w_pane_order w)\<rparr>"
  obtain n ns where n: "sorted_pane_ids ?w1 = n # ns" "n \<in> set (map fst (w_panes ?w1))"
    by (rule next_focus [of w ?w1 i]) (use False d in simp_all)
  let ?focus = "if w_focused_pane_id w = i then n else w_focused_pane_id w"
  let ?w2 = "?w1\<lparr>w_focused_pane_id := ?focus, w_zoomed := False\<rparr>"
  have ids: "pane_ids ?w2 = filter (\<lambda>j. j \<noteq> i) (pane_ids w)"
    using pane_ids_delete [of i w] delete_absent [OF noser] by (simp add: pane_ids_def)
  have "n \<in> set (pane_ids ?w2)" using n(2) by (simp add: pane_ids_def)
  moreover have "w_focused_pane_id w \<noteq> i \<Longrightarrow> w_focused_pane_id w \<in> set (pane_ids ?w2)"
    unfolding ids using t by (simp add: tabs_ok_def)
  ultimately have "?focus \<in> set (pane_ids ?w2)" by (simp add: pane_ids_def)
  then have "tabs_ok ?w2"
    by (intro tabs_remove [OF t iw two_panes(2) [OF _ d] ids]) (use False in simp_all)
  then have ok: "window_ok ?w2" using f by (simp add: window_ok_def floats_ok_def)
  have "take_pane_by_id i cols rows w = Some (Some (i, sz), resize_ptys (compute_layouts cols rows ?w2) ?w2)"
    using False sz n(1) by (simp add: take_pane_by_id_def Let_def)
  moreover have "pane_ids (resize_ptys rs u) = pane_ids u" for rs u
    by (simp add: resize_ptys_def pane_ids_def)
  ultimately show ?thesis using ok ids sz by auto
qed

section \<open>Focus, order, zoom, swapping\<close>

lemma tabs_focus: "tabs_ok w \<Longrightarrow> i \<in> set (pane_ids w) \<Longrightarrow> tabs_ok (w\<lparr>w_focused_pane_id := i\<rparr>)"
  by (simp add: tabs_ok_def pane_ids_def)

lemma window_ok_focus: "window_ok w \<Longrightarrow> i \<in> set (map fst (w_panes w)) \<Longrightarrow> window_ok (w\<lparr>w_focused_pane_id := i\<rparr>)"
  using tabs_focus [of w i] by (simp add: window_ok_def floats_ok_def) (simp add: pane_ids_def)

lemma index_of_Some: "index_of x xs = Some n \<Longrightarrow> n < length xs \<and> xs ! n = x"
  by (induction xs arbitrary: n) (auto split: if_splits)

lemma index_of_None: "index_of x xs = None \<longleftrightarrow> x \<notin> set xs"
  by (induction xs) auto

lemma sorted_nth: "n < length (sorted_pane_ids w) \<Longrightarrow> sorted_pane_ids w ! n \<in> set (map fst (w_panes w))"
  using nth_mem sorted_pane_ids_set by blast

lemma mod_in_range: "n < m \<Longrightarrow> k mod m < (m :: nat)"
  by simp

lemma window_ok_focus_ops:
  assumes "window_ok w"
  shows "window_ok (set_focused_pane i w)" "window_ok (focus_next w)" "window_ok (focus_prev w)"
proof -
  show "window_ok (set_focused_pane i w)"
    using window_ok_focus [OF assms, of i] assms by (simp only: set_focused_pane_def has_key_iff) simp
  show "window_ok (focus_next w)" "window_ok (focus_prev w)"
    using assms
    by (auto simp: focus_next_def focus_prev_def Let_def split: option.split
        dest!: index_of_Some intro!: window_ok_focus sorted_nth intro: mod_in_range)
qed

lemma pick_known_props:
  "distinct next \<Longrightarrow> set next \<subseteq> set known \<Longrightarrow>
   distinct (pick_known known next is) \<and> set (pick_known known next is) \<subseteq> set known
   \<and> set next \<union> (set is \<inter> set known) = set (pick_known known next is)"
  by (induction known "next" "is" rule: pick_known.induct) auto

text \<open>Whatever the client asks for, the new order is a permutation of the known panes.\<close>

lemma compute_reordered_perm:
  assumes "distinct known"
  shows "distinct (compute_reordered current requested known)
    \<and> set (compute_reordered current requested known) = set known"
proof -
  let ?a = "pick_known known [] requested"
  let ?b = "pick_known known ?a current"
  have a: "distinct ?a" "set ?a \<subseteq> set known" using pick_known_props [of "[]" known requested] by simp_all
  then have "distinct ?b" "set ?b \<subseteq> set known" using pick_known_props [of ?a known current] by simp_all
  then show ?thesis using assms by (auto simp: compute_reordered_def Let_def)
qed

lemma window_ok_reorder: "window_ok w \<Longrightarrow> window_ok (snd (reorder_panes order w))"
  using compute_reordered_perm [of "pane_ids w" "w_pane_order w" order]
  by (auto simp: reorder_panes_def Let_def window_ok_def tabs_ok_def floats_ok_def pane_ids_def)

lemma window_ok_zoom: "window_ok w \<Longrightarrow> window_ok (snd (toggle_zoom cols rows w))"
proof -
  assume w: "window_ok w"
  have core: "same_core w v \<Longrightarrow> floats_ok v \<Longrightarrow> window_ok v" for v
    using w same_core_tabs [of w v] by (simp add: window_ok_def)
  have "tabs_ok (w\<lparr>w_zoomed := z\<rparr>) = tabs_ok w" "floats_ok (w\<lparr>w_zoomed := z\<rparr>) = floats_ok w" for z
    by (simp_all add: tabs_ok_def floats_ok_def pane_ids_def)
  then have z: "window_ok (w\<lparr>w_zoomed := z\<rparr>)" for z using w by (simp add: window_ok_def)
  have "tabs_ok (u\<lparr>w_panes := AList.update i x (w_panes u)\<rparr>) = tabs_ok u"
    "floats_ok (u\<lparr>w_panes := AList.update i x (w_panes u)\<rparr>) = floats_ok u"
    if "has_key i (w_panes u)" for u i x
    using that by (simp_all add: tabs_ok_def floats_ok_def pane_ids_def keys_update has_key_iff)
  then have upd: "window_ok (u\<lparr>w_panes := AList.update i x (w_panes u)\<rparr>)"
    if "has_key i (w_panes u)" "window_ok u" for u i x using that by (simp add: window_ok_def)
  show ?thesis
    using upd [of _ "w\<lparr>w_zoomed := True\<rparr>"] z
    by (simp add: toggle_zoom_def Let_def window_ok_resize_all)
qed

lemma window_ok_layout:
  "window_ok w \<Longrightarrow> bsp_tree.holds t (set (pane_ids w)) \<Longrightarrow> window_ok (w\<lparr>w_layout := t\<rparr>)"
  by (simp add: window_ok_def tabs_ok_def floats_ok_def pane_ids_def)

lemma window_ok_adjust: "window_ok w \<Longrightarrow> window_ok (adjust_split_ratio delta cols rows w)"
proof -
  assume w: "window_ok w"
  have "bsp_tree.holds (snd (adjust_ratio_for (w_layout w) i delta)) (set (pane_ids w))" for i
    using w by (simp add: bsp_tree.holds_def adjust_leaves window_ok_def tabs_ok_def)
  from window_ok_layout [OF w this [of "w_focused_pane_id w"]] show ?thesis
    using w by (cases "adjust_ratio_for (w_layout w) (w_focused_pane_id w) delta")
      (simp add: adjust_split_ratio_def Let_def)
qed

lemma window_ok_swap:
  assumes "window_ok w" "i \<in> set (pane_ids w)"
  shows "window_ok (w\<lparr>w_layout := snd (swap_ids (w_layout w) (w_focused_pane_id w) i)\<rparr>)"
  using assms
  by (intro window_ok_layout bsp_tree.holds_swap) (simp_all add: window_ok_def tabs_ok_def)

lemma window_ok_swaps:
  assumes "window_ok w"
  shows "window_ok (swap_with_next w)" "window_ok (swap_with_prev w)"
    "i \<in> set (pane_ids w) \<Longrightarrow> window_ok (swap_focused_with i w)"
proof -
  have in_ids: "n < length (sorted_pane_ids w) \<Longrightarrow> sorted_pane_ids w ! n \<in> set (pane_ids w)" for n
    using sorted_nth [of n w] by (simp add: pane_ids_def)
  show "window_ok (swap_with_next w)" "window_ok (swap_with_prev w)"
    using assms
    by (auto simp: swap_with_next_def swap_with_prev_def Let_def split: option.split
        dest!: index_of_Some intro!: window_ok_swap in_ids intro: mod_in_range)
  show "i \<in> set (pane_ids w) \<Longrightarrow> window_ok (swap_focused_with i w)"
    using assms by (simp add: swap_focused_with_def Let_def window_ok_swap)
qed

section \<open>Floating panes\<close>

lemma floats_update:
  assumes "window_ok w" "float_ok (w_last_cols w) (w_last_rows w) r"
  shows "window_ok (w\<lparr>w_floating_panes := AList.update i (sz, r) (w_floating_panes w)\<rparr>)"
proof -
  have "distinct (map fst (w_floating_panes w))" using assms(1) by (simp add: window_ok_def floats_ok_def)
  then have "distinct (map fst (AList.update i (sz, r) (w_floating_panes w)))"
    by (rule distinct_update)
  then show ?thesis using assms set_update_subset [of i "(sz, r)" "w_floating_panes w"]
    by (fastforce simp: window_ok_def floats_ok_def tabs_ok_def pane_ids_def list_all_iff)
qed

lemma window_ok_floating:
  assumes "window_ok w"
  shows "window_ok (snd (move_floating_pane i c r w))" "window_ok (snd (resize_floating_pane i c r w))"
    "window_ok (snd (close_floating_pane i w))"
proof -
  show "window_ok (snd (move_floating_pane i c r w))" "window_ok (snd (resize_floating_pane i c r w))"
    using assms by (simp_all add: move_floating_pane_def resize_floating_pane_def Let_def floats_update
        split: option.split prod.split)
  have "distinct (map fst (w_floating_panes w))" using assms by (simp add: window_ok_def floats_ok_def)
  then have "distinct (map fst (AList.delete i (w_floating_panes w)))" by (rule distinct_delete)
  then show "window_ok (snd (close_floating_pane i w))" using assms
    by (simp add: close_floating_pane_def window_ok_def floats_ok_def tabs_ok_def pane_ids_def
        list_all_iff AList.delete_eq)
qed

end
