(* ===== verification/Window_Facts.thy ===== *)
theory Window_Facts
  imports Window_Inv
begin

text \<open>
  What the operations of a window deliver beyond its invariant: the layout message lists
  each pane once in tab order, a restored window is well-formed when its snapshot is, and
  the cases in which an operation leaves the invariant or its documented behaviour.
\<close>

section \<open>The layout message\<close>

lemma compute_layouts_ids:
  assumes "tabs_ok w"
  shows "distinct (map pr_pane_id (compute_layouts cols rows w))
    \<and> set (map pr_pane_id (compute_layouts cols rows w)) = set (pane_ids w)"
proof (cases "w_layout_mode w")
  case BspMode
  then show ?thesis using assms
    by (simp add: compute_layouts_def compute_ids tabs_ok_def bsp_tree.holds_def del: set_map)
next
  case TilingMode
  obtain rs where rs: "compute_tiling_layouts (sort (pane_ids w)) cols rows = Some rs"
    "map pr_pane_id rs = sort (pane_ids w)"
    using tiling_layout_ids by blast
  then show ?thesis using assms TilingMode
    by (simp add: compute_layouts_def tabs_ok_def del: set_map)
qed

lemma map_of_rev_key:
  assumes "distinct (map f xs)" "x \<in> set xs"
  shows "map_of (rev (map (\<lambda>r. (f r, r)) xs)) (f x) = Some x"
proof -
  have "distinct (map fst (rev (map (\<lambda>r. (f r, r)) xs)))"
    using assms(1) by (simp add: rev_map [symmetric] comp_def)
  then show ?thesis using assms(2) by (intro map_of_is_SomeI) auto
qed

lemma map_filter_keys:
  assumes "distinct (map f xs)" "set is \<subseteq> f ` set xs"
  shows "map f (List.map_filter (map_of (rev (map (\<lambda>r. (f r, r)) xs))) is) = is"
  using assms(2)
proof (induction "is")
  case (Cons i "is")
  then obtain x where x: "x \<in> set xs" "i = f x" by auto
  have "map_of (rev (map (\<lambda>r. (f r, r)) xs)) i = Some x"
    unfolding x(2) by (rule map_of_rev_key [OF assms(1) x(1)])
  with Cons x show ?case by simp
qed simp

lemma layout_message_tabs:
  assumes "window_ok w" "\<not> w_zoomed w"
  shows "map pl_pane_id (fst (layout_changed_msg cols rows w)) = w_pane_order w"
    and "pl \<in> set (fst (layout_changed_msg cols rows w)) \<Longrightarrow>
      pl_is_focused pl \<longleftrightarrow> pl_pane_id pl = w_focused_pane_id w"
proof -
  let ?rs = "compute_layouts cols rows w"
  have t: "tabs_ok w" using assms(1) by (simp add: window_ok_def)
  note ids = compute_layouts_ids [OF t, of cols rows]
  have ord: "set (w_pane_order w) = pr_pane_id ` set ?rs" using t ids by (simp add: tabs_ok_def)
  then have extra: "filter (\<lambda>r. pr_pane_id r \<notin> set (w_pane_order w)) ?rs = []" by auto
  have pl: "map pl_pane_id (map (to_pane_layout f) xs) = map pr_pane_id xs" for f xs
    by (simp add: to_pane_layout_def)
  have msg: "fst (layout_changed_msg cols rows w) = map (to_pane_layout (w_focused_pane_id w))
      (List.map_filter (map_of (rev (map (\<lambda>r. (pr_pane_id r, r)) ?rs))) (w_pane_order w))"
    using assms(2) by (simp add: layout_changed_msg_def Let_def extra)
  show "map pl_pane_id (fst (layout_changed_msg cols rows w)) = w_pane_order w"
    unfolding msg pl by (rule map_filter_keys) (use ids ord in simp_all)
  show "pl \<in> set (fst (layout_changed_msg cols rows w)) \<Longrightarrow>
      pl_is_focused pl \<longleftrightarrow> pl_pane_id pl = w_focused_pane_id w"
    using assms(2) by (auto simp: layout_changed_msg_def Let_def to_pane_layout_def)
qed

section \<open>Restoring a snapshot\<close>

lemma keys_update_fold:
  "distinct (map fst m @ map fst es) \<Longrightarrow>
   map fst (fold (\<lambda>(i, c, r). AList.update i (c, r)) es m) = map fst m @ map fst es"
proof (induction es arbitrary: m)
  case (Cons e es)
  obtain i c r where e: "e = (i, c, r)" by (cases e) auto
  have "map fst (AList.update i (c, r) m) = map fst m @ [i]"
    using Cons.prems by (auto simp: keys_update e)
  then show ?case using Cons.IH [of "AList.update i (c, r) m"] Cons.prems by (simp add: e)
qed simp

lemma sizes_ids: "map fst (compute_pane_sizes snap cols rows) = collect_pane_ids snap"
proof -
  have "map fst (compute_pane_sizes snap cols rows) = map pr_pane_id (compute (from_snapshot snap) 0 0 cols rows)"
    by (simp add: compute_pane_sizes_agree [of snap cols rows 0 0] comp_def)
  also have "\<dots> = collect_pane_ids snap" by (simp add: compute_ids collect_from_snapshot)
  finally show ?thesis .
qed

lemma window_restore_Some:
  assumes "window_restore spawn_ok snap cols rows = Some w"
  shows "distinct (collect_pane_ids (ws_layout snap))" "pane_ids w = collect_pane_ids (ws_layout snap)"
    "w_pane_order w = collect_pane_ids (ws_layout snap)" "w_layout w = from_snapshot (ws_layout snap)"
    "w_focused_pane_id w = ws_focused_pane_id snap" "w_floating_panes w = []"
proof -
  show d: "distinct (collect_pane_ids (ws_layout snap))"
    using assms find_duplicate_None [of "ws_layout snap"]
    by (auto simp: window_restore_def split: option.splits)
  have "map fst (fold (\<lambda>(i, c, r). AList.update i (c, r)) (compute_pane_sizes (ws_layout snap) cols rows) []) =
      collect_pane_ids (ws_layout snap)"
    using keys_update_fold [of "[]" "compute_pane_sizes (ws_layout snap) cols rows"] d
    by (simp only: sizes_ids list.map(1) append_Nil)
  then show "pane_ids w = collect_pane_ids (ws_layout snap)"
    "w_pane_order w = collect_pane_ids (ws_layout snap)" "w_layout w = from_snapshot (ws_layout snap)"
    "w_focused_pane_id w = ws_focused_pane_id snap" "w_floating_panes w = []"
    using assms by (auto simp: window_restore_def pane_ids_def Let_def sizes_ids split: option.splits if_splits)
qed

lemma window_restore_ok:
  assumes "window_restore spawn_ok snap cols rows = Some w"
  shows "window_ok w \<longleftrightarrow> ws_focused_pane_id snap \<in> set (collect_pane_ids (ws_layout snap))"
  using window_restore_Some [OF assms]
  by (simp add: window_ok_def tabs_ok_def floats_ok_def bsp_tree.holds_def collect_from_snapshot)

section \<open>Departures\<close>

text \<open>When the spawn of the new pane fails, its leaf stays in the tree.\<close>

lemma failed_spawn_ghost:
  assumes "window_ok w" "new \<notin> set (pane_ids w)"
    and "add_pane_with_options new False dir cols rows w = (r, v)"
  shows "r = None \<and> new \<in> set (leaves (w_layout v)) \<and> new \<notin> set (pane_ids v) \<and> \<not> window_ok v"
proof -
  have t: "tabs_ok w" using assms(1) by (simp add: window_ok_def)
  obtain lay where lay: "insert_after (w_layout w) (w_focused_pane_id w) new dir = (True, lay)"
    using insert_after_in_tree [OF t assms(2)] .
  then have v: "r = None" "v = w\<lparr>w_layout := lay\<rparr>"
    using assms(3) by (simp_all add: add_pane_with_options_def Let_def)
  have "leaves lay = insert_behind (w_focused_pane_id w) new (leaves (w_layout w))"
    using insert_after_leaves [of "w_layout w" "w_focused_pane_id w" new dir] by (simp add: lay)
  moreover have "w_focused_pane_id w \<in> set (leaves (w_layout w))"
    using t by (simp add: tabs_ok_def bsp_tree.holds_def)
  ultimately have new: "new \<in> set (leaves lay)" using set_insert_behind by simp
  have ids: "pane_ids v = pane_ids w" and lay_v: "w_layout v = lay" by (simp_all add: v(2) pane_ids_def)
  have "set (leaves (w_layout v)) \<noteq> set (pane_ids v)" unfolding ids lay_v using new assms(2) by blast
  then have "\<not> window_ok v" by (simp add: window_ok_def tabs_ok_def bsp_tree.holds_def)
  then show ?thesis using new assms(2) by (simp add: v(1) ids lay_v)
qed

text \<open>Swapping with an id that names no pane loses the focused pane from the tree.\<close>

lemma swap_unknown:
  assumes "window_ok w" "j \<notin> set (pane_ids w)"
  shows "w_focused_pane_id w \<notin> set (leaves (w_layout (swap_focused_with j w)))
    \<and> \<not> window_ok (swap_focused_with j w)"
proof -
  let ?f = "w_focused_pane_id w"
  have t: "?f \<in> set (pane_ids w)" "set (leaves (w_layout w)) = set (pane_ids w)"
    using assms(1) by (simp_all add: window_ok_def tabs_ok_def bsp_tree.holds_def)
  then have ne: "?f \<noteq> j" using assms(2) by auto
  have "leaves (w_layout (swap_focused_with j w)) = map (swap_id ?f j) (leaves (w_layout w))"
    by (simp add: swap_focused_with_def Let_def ne swap_ids_leaves)
  then have gone: "?f \<notin> set (leaves (w_layout (swap_focused_with j w)))"
    using t(2) assms(2) ne by (auto simp: swap_id_def split: if_splits)
  have "pane_ids (swap_focused_with j w) = pane_ids w"
    by (simp add: swap_focused_with_def Let_def pane_ids_def)
  then have "\<not> tabs_ok (swap_focused_with j w)" using gone t(1)
    by (auto simp: tabs_ok_def bsp_tree.holds_def)
  then show ?thesis using gone by (simp add: window_ok_def)
qed

text \<open>A focused serial pane is not handed out, but its leaf is removed.\<close>

lemma take_focused_serial:
  assumes "window_ok w" "1 < length (w_panes w)" "w_focused_pane_id w \<in> set (map fst (w_serial_panes w))"
  shows "\<exists>v. take_focused_pane cols rows w = Some (None, v)
    \<and> w_focused_pane_id w \<in> set (pane_ids v) \<and> w_focused_pane_id w \<notin> set (leaves (w_layout v))"
proof -
  let ?f = "w_focused_pane_id w"
  let ?v = "w\<lparr>w_layout := snd (sn_remove (w_layout w) ?f)\<rparr>"
  have t: "distinct (leaves (w_layout w))" "distinct (pane_ids w)" "set (leaves (w_layout w)) = set (pane_ids w)"
    using assms(1) by (simp_all add: window_ok_def tabs_ok_def bsp_tree.holds_def)
  have "w_layout w \<noteq> Pane ?f" using two_panes(2) [OF assms(2) t(2)] t(3) by fastforce
  then have "?f \<notin> set (leaves (w_layout ?v))" using t(1) by (simp add: sn_remove_leaves)
  moreover have "has_key ?f (w_serial_panes w)" using assms(3) by (simp only: has_key_iff)
  then have "take_focused_pane cols rows w = Some (None, ?v)"
    using assms(2) by (simp add: take_focused_pane_def Let_def)
  moreover have "?f \<in> set (pane_ids ?v)" using assms(3) by (simp add: pane_ids_def)
  ultimately show ?thesis by blast
qed

text \<open>With no position requested, the inserted pane is always the last tab.\<close>

lemma insert_pane_last:
  assumes "window_ok w" "fst p \<notin> set (pane_ids w)"
  shows "w_pane_order (insert_pane_at p cols rows dir None w) = w_pane_order w @ [fst p]"
proof -
  have "fst p \<notin> set (w_pane_order w)" using assms by (simp add: window_ok_def tabs_ok_def)
  then have "index_of (fst p) (w_pane_order w) = None" by (simp add: index_of_None)
  then show ?thesis
    by (simp add: insert_pane_at_def Let_def compute_insert_position_def insert_at_def resize_ptys_def)
qed

end
