(* ===== verification/Window_Life.thy ===== *)
theory Window_Life
  imports Window_Facts
begin

text \<open>
  The life of a window: every operation of \<open>Window\<close> as one step, under what its callers
  guarantee (fresh ids from the pane counter that spawn, swaps with a pane of the window, no serial pane taken
  out by the focus, the terminal size the window was last given).  A window that was created or restored well-formed stays
  well-formed.
\<close>

section \<open>The operations not covered yet\<close>

text \<open>Taking the focused pane is taking the pane with the focused id.\<close>

lemma take_focused_by_id:
  assumes "window_ok w" "w_focused_pane_id w \<notin> set (map fst (w_serial_panes w))"
  shows "take_focused_pane cols rows w = take_pane_by_id (w_focused_pane_id w) cols rows w"
proof (cases "length (w_panes w) \<le> 1")
  case False
  have serial: "\<not> has_key (w_focused_pane_id w) (w_serial_panes w)"
    using assms(2) by (simp only: has_key_iff not_False_eq_True)
  have "w_focused_pane_id w \<in> set (map fst (w_panes w))"
    using assms by (auto simp: window_ok_def tabs_ok_def pane_ids_def)
  then obtain sz where "map_of (w_panes w) (w_focused_pane_id w) = Some sz"
    by (metis has_key_def has_key_iff not_None_eq)
  with False serial show ?thesis
    by (simp add: take_focused_pane_def take_pane_by_id_def Let_def sorted_pane_ids_def split: list.split)
qed (simp add: take_focused_pane_def take_pane_by_id_def)

lemma window_ok_open_floating:
  assumes "window_ok w"
  shows "window_ok (snd (open_floating_pane i spawned (w_last_cols w) (w_last_rows w) w))"
  using floats_update [OF assms float_ok_clamp] assms
  by (simp add: open_floating_pane_def Let_def)

lemma window_ok_layout_mode:
  assumes "window_ok w"
  shows "window_ok (set_layout_mode mode cols rows w)"
proof -
  have "window_ok (w\<lparr>w_layout_mode := mode\<rparr>)"
    using assms by (simp add: window_ok_def tabs_ok_def floats_ok_def pane_ids_def)
  then show ?thesis unfolding set_layout_mode_def by (rule window_ok_resize_all)
qed

lemma pane_ids_single [simp]: "pane_ids (window_single wid name pane cols rows) = [fst pane]"
  by (simp add: pane_ids_def window_single_def)

section \<open>The operations as steps\<close>

text \<open>
  Not steps, because the source then leaves a window that is not well-formed: a split whose spawn fails, a
  swap with an id that is not in the window, taking the focused pane out while it is a serial pane, and, in
  \<open>window_reach\<close> below, restoring a snapshot whose focus is not in its tree.  \<open>Layout_Properties\<close>
  shows of each that it does.
\<close>

inductive window_op :: "window \<Rightarrow> window \<Rightarrow> bool" where
  split: "new \<notin> set (pane_ids w) \<Longrightarrow> window_op w (snd (add_pane_with_options new True dir cols rows w))"
| split_serial: "(\<And>i. spawned = Some i \<Longrightarrow> i \<notin> set (pane_ids w)) \<Longrightarrow>
    window_op w (snd (add_serial_pane spawned dir cols rows w))"
| insert: "fst p \<notin> set (pane_ids w) \<Longrightarrow> window_op w (insert_pane_at p cols rows dir pos w)"
| remove: "remove_focused_pane cols rows w = Some (r, v) \<Longrightarrow> window_op w v"
| take: "take_pane_by_id i cols rows w = Some (p, v) \<Longrightarrow> window_op w v"
| take_focused: "w_focused_pane_id w \<notin> set (map fst (w_serial_panes w)) \<Longrightarrow>
    take_focused_pane cols rows w = Some (p, v) \<Longrightarrow> window_op w v"
| resize: "window_op w (resize_all_panes cols rows w)"
| set_mode: "window_op w (set_layout_mode mode cols rows w)"
| adjust: "window_op w (adjust_split_ratio delta cols rows w)"
| swap: "i \<in> set (pane_ids w) \<Longrightarrow> window_op w (swap_focused_with i w)"
| swap_next: "window_op w (swap_with_next w)"
| swap_prev: "window_op w (swap_with_prev w)"
| focus: "window_op w (set_focused_pane i w)"
| focus_forward: "window_op w (focus_next w)"
| focus_back: "window_op w (focus_prev w)"
| zoom: "window_op w (snd (toggle_zoom cols rows w))"
| reorder: "window_op w (snd (reorder_panes order w))"
| rename: "window_op w (w\<lparr>w_name := name\<rparr>)"
| float: "window_op w (snd (open_floating_pane i spawned (w_last_cols w) (w_last_rows w) w))"
| float_move: "window_op w (snd (move_floating_pane i c r w))"
| float_resize: "window_op w (snd (resize_floating_pane i c r w))"
| float_close: "window_op w (snd (close_floating_pane i w))"

lemma window_op_ok: "window_op w v \<Longrightarrow> window_ok w \<Longrightarrow> window_ok v"
proof (induction rule: window_op.induct)
  case (split new w dir cols rows)
  then show ?case
    using add_pane_ok [of w new dir cols rows] by (cases "add_pane_with_options new True dir cols rows w") auto
next
  case (split_serial spawned w dir cols rows)
  then show ?case using add_serial_ok by (cases spawned) (auto simp: add_serial_pane_def)
next
  case (remove cols rows w r v)
  then show ?case using remove_focused_ok [of w cols rows] by auto
next
  case (take i cols rows w p v)
  then show ?case using take_pane_ok [of w i cols rows] by auto
next
  case (take_focused w cols rows p v)
  then show ?case
    using take_pane_ok [of w "w_focused_pane_id w" cols rows] take_focused_by_id [of w cols rows] by auto
next
  case (rename w name)
  then show ?case by (simp add: window_ok_def tabs_ok_def floats_ok_def pane_ids_def)
qed (simp_all add: insert_pane_at_ok window_ok_resize_all window_ok_layout_mode
    window_ok_adjust window_ok_swaps window_ok_focus_ops window_ok_zoom window_ok_reorder
    window_ok_open_floating window_ok_floating)

section \<open>Reachable windows\<close>

inductive window_reach :: "window \<Rightarrow> bool" where
  created: "window_new wid name cols rows (Some i) = Some w \<Longrightarrow> window_reach w"
| moved_in: "window_reach (window_new_with_pane wid name pane cols rows)"
| restored: "window_restore spawn_ok (snap :: string window_snapshot) cols rows = Some w \<Longrightarrow>
    ws_focused_pane_id snap \<in> set (collect_pane_ids (ws_layout snap)) \<Longrightarrow> window_reach w"
| step: "window_reach w \<Longrightarrow> window_op w v \<Longrightarrow> window_reach v"

lemma window_ok_new_with_pane: "window_ok (window_new_with_pane wid name pane cols rows)"
  unfolding window_new_with_pane_def by (intro window_ok_resize_all window_ok_single)

lemma window_reach_ok: "window_reach w \<Longrightarrow> window_ok w"
proof (induction rule: window_reach.induct)
  case (created wid name cols rows i w)
  then show ?case by (auto simp: window_new_def window_ok_single)
qed (simp_all add: window_ok_new_with_pane window_restore_ok window_op_ok)

section \<open>Saving and restoring\<close>

lemma update_fresh: "i \<notin> set (map fst m) \<Longrightarrow> AList.update i y m = m @ [(i, y)]"
  by (induction m) auto

lemma update_fresh_fold:
  "distinct (map fst m @ map fst es) \<Longrightarrow> fold (\<lambda>(i, c, r). AList.update i (c, r)) es m = m @ es"
proof (induction es arbitrary: m)
  case (Cons e es)
  obtain i c r where e: "e = (i, c, r)" by (cases e) auto
  have "AList.update i (c, r) m = m @ [e]" using Cons.prems by (simp only: e, intro update_fresh) simp
  then show ?case using Cons.IH [of "m @ [e]"] Cons.prems by (simp only: fold_simps o_apply e) (simp add: e)
qed simp

lemma from_fill_cwd: "from_snapshot (fill_cwd_in_snapshot cwd w t) = from_snapshot t"
  by (induction t) auto

lemma restore_own:
  assumes "window_ok w"
  shows "\<exists>v. window_restore (\<lambda>_ _. True) (window_to_snapshot cwd w) cols rows = Some v
    \<and> w_layout v = w_layout w \<and> w_focused_pane_id v = w_focused_pane_id w
    \<and> w_pane_order v = leaves (w_layout w) \<and> w_panes v =
        map (\<lambda>r. (pr_pane_id r, (pr_cols r, pr_rows r))) (compute (w_layout w) 0 0 cols rows)
    \<and> window_ok v \<and> w_id v = w_id w \<and> w_name v = w_name w"
proof -
  let ?snap = "window_to_snapshot cwd w"
  have lay: "from_snapshot (ws_layout ?snap) = w_layout w"
    by (simp add: window_to_snapshot_def from_fill_cwd from_to_snapshot)
  then have ids: "collect_pane_ids (ws_layout ?snap) = leaves (w_layout w)"
    using collect_from_snapshot [of "ws_layout ?snap"] by simp
  have t: "distinct (leaves (w_layout w))" "w_focused_pane_id w \<in> set (leaves (w_layout w))"
    using assms by (simp_all add: window_ok_def tabs_ok_def bsp_tree.holds_def)
  then have nodup: "find_duplicate_pane_id (ws_layout ?snap) = None" by (simp add: find_duplicate_None ids)
  then obtain v where v: "window_restore (\<lambda>_ _. True) ?snap cols rows = Some v"
    by (simp add: window_restore_def Let_def list_all_iff)
  note facts = window_restore_Some [OF v]
  have "window_ok v" using window_restore_ok [OF v] t(2) by (simp add: ids) (simp add: window_to_snapshot_def)
  moreover have "w_panes v = fold (\<lambda>(i, c, r). AList.update i (c, r))
      (compute_pane_sizes (ws_layout ?snap) cols rows) []"
    using v nodup by (auto simp: window_restore_def Let_def split: if_splits)
  moreover have "\<dots> = map (\<lambda>r. (pr_pane_id r, (pr_cols r, pr_rows r))) (compute (w_layout w) 0 0 cols rows)"
    using update_fresh_fold [of "[]" "compute_pane_sizes (ws_layout ?snap) cols rows"] t(1)
    by (simp add: sizes_ids ids del: map_map) (simp add: compute_pane_sizes_agree [of _ _ _ 0 0] lay)
  moreover have "w_id v = ws_id ?snap" "w_name v = ws_name ?snap"
    using v nodup by (auto simp: window_restore_def Let_def split: if_splits)
  ultimately show ?thesis using v facts lay ids
    by (intro exI [of _ v]) (simp add: window_to_snapshot_def)
qed

end
