(* ===== verification/Layout_Properties.thy ===== *)
theory Layout_Properties
  imports Window_Life
begin

text \<open>
  The properties of the pane layouts and of the windows.  A sample window of two panes
  serves the witnesses.
\<close>

section \<open>Split trees\<close>

lemma disjoint_once:
  assumes "sorted_wrt rects_disjoint rs"
  shows "length (filter (\<lambda>r. covers r x y) rs) = (if list_ex (\<lambda>r. covers r x y) rs then 1 else 0)"
  using assms
proof (induction rs)
  case (Cons r rs)
  then have "covers r x y \<Longrightarrow> filter (\<lambda>r. covers r x y) rs = []"
    by (auto simp: rects_disjoint_def filter_empty_conv)
  then show ?case using Cons by (auto simp: list_ex_iff filter_empty_conv)
qed simp

text \<open>C10: the rectangles of a split layout lie inside the window, and every cell of
  the window belongs to exactly one pane unless it is on a separator, and then to none.\<close>

theorem layout_partition:
  assumes "cols \<le> 65535" "rows \<le> 65535"
  shows "list_all (rect_inside 0 0 cols rows) (compute t 0 0 cols rows)
    \<and> (\<forall>x < cols. \<forall>y < rows. length (filter (\<lambda>r. covers r x y) (compute t 0 0 cols rows)) =
         (if on_separator t 0 0 cols rows x y then 0 else 1))"
  using compute_inside [of 0 cols 0 rows t] compute_disjoint [of 0 cols 0 rows t]
    compute_covers [of 0 cols 0 rows _ _ t] assms
  by (simp add: disjoint_once)

definition sample_tree :: split_node where
  "sample_tree = Split Vertical RATIO_HALF (Pane 1) (Split Horizontal RATIO_HALF (Pane 2) (Pane 3))"

lemma layout_partition_witness:
  "length (filter (\<lambda>r. covers r 7 3) (compute sample_tree 0 0 9 5)) =
    (if on_separator sample_tree 0 0 9 5 7 3 then 0 else 1)"
  using layout_partition [of 9 5 sample_tree] by simp

text \<open>A split uses up the extent exactly, with a separator of one cell, and leaves both
  children at least one cell as soon as there are three.\<close>

lemma split_exact:
  assumes "split_extent extent ratio = (first, separator, second)"
  shows "first + separator + second = extent \<and> separator = (if extent = 0 then 0 else 1)
    \<and> (if extent < 3 then second = 0 else 1 \<le> first \<and> 1 \<le> second)"
  using split_extent_sum [OF assms] split_extent_separator [OF assms] split_extent_min [OF assms]
    split_extent_tiny [OF assms] by simp

lemma split_exact_witness: "\<exists>a s b. split_extent 80 NaN = (a, s, b) \<and> a + s + b = 80 \<and> 1 \<le> a \<and> 1 \<le> b"
proof -
  obtain a s b where e: "split_extent 80 NaN = (a, s, b)" by (cases "split_extent 80 NaN")
  show ?thesis using e split_exact [OF e] by simp
qed

text \<open>Closing a pane that was just split off gives the tree before the split.\<close>

lemma split_then_close:
  assumes "new \<notin> set (leaves t)" "target \<in> set (leaves t)"
  shows "fst (insert_after t target new dir)
    \<and> sn_remove (snd (insert_after t target new dir)) new = (Removed, t)"
  using remove_insert_after [OF assms] assms(2) by (simp add: insert_after_found)

lemma split_then_close_witness:
  "sn_remove (snd (insert_after sample_tree 2 9 Vertical)) 9 = (Removed, sample_tree)"
  using split_then_close [of 9 sample_tree 2 Vertical] by (simp add: sample_tree_def)

text \<open>Adjusting the ratio for a pane changes the ratio of the split just above it and of
  no other; the order of the panes is kept and the ratio stays between the two bounds.\<close>

lemma adjust_parent:
  assumes "list_all ratio_ok (ratios t)"
  shows "snd (adjust_ratio_for t i (Fin delta)) = parent_adjusted t i (Fin delta)
    \<and> leaves (snd (adjust_ratio_for t i (Fin delta))) = leaves t
    \<and> list_all ratio_ok (ratios (snd (adjust_ratio_for t i (Fin delta))))"
  using adjust_is_parent adjust_leaves adjust_ratios_ok [OF assms] by simp

lemma adjust_parent_witness:
  "list_all ratio_ok (ratios (snd (adjust_ratio_for sample_tree 3 (Fin (1 / 8)))))"
  using adjust_parent [of sample_tree 3 "1 / 8"] by (simp add: sample_tree_def)

text \<open>Swapping two panes exchanges them in the order of the leaves and swapping them again
  gives the tree back.\<close>

lemma swap_twice:
  "leaves (snd (swap_ids t a b)) = map (swap_id a b) (leaves t)
    \<and> snd (swap_ids (snd (swap_ids t a b)) a b) = t"
  by (simp add: swap_ids_leaves swap_ids_involution)

text \<open>The sizes a restore spawns the panes with are those of the rectangles the restored
  tree is laid out in, whatever its offset.\<close>

lemma sizes_agree:
  "compute_pane_sizes snap cols rows =
     map (\<lambda>r. (pr_pane_id r, pr_cols r, pr_rows r)) (compute (from_snapshot snap) c0 r0 cols rows)"
  by (rule compute_pane_sizes_agree)

text \<open>The tiling layout never panics and places every pane once, in the order given, for
  every number of panes and every size of the window.\<close>

lemma tiling_complete:
  "\<exists>rs. compute_tiling_layouts ids cols rows = Some rs \<and> map pr_pane_id rs = ids"
  by (rule tiling_layout_ids)

text \<open>Clamping a floating pane gives a rectangle of at least the minimal size that lies in
  the window (or starts at its edge when the window is smaller), and clamping again changes nothing.\<close>

lemma clamp_floating:
  assumes "MIN_COLS \<le> cols" "MIN_ROWS \<le> rows"
  shows "float_ok cols rows (clamp_to cols rows r)
    \<and> fr_col_off (clamp_to cols rows r) + fr_cols (clamp_to cols rows r) \<le> cols
    \<and> fr_row_off (clamp_to cols rows r) + fr_rows (clamp_to cols rows r) \<le> rows
    \<and> clamp_to cols rows (clamp_to cols rows r) = clamp_to cols rows r"
  using float_ok_clamp [of cols rows r] clamp_to_id [OF float_ok_clamp assms] assms
  by (simp add: float_ok_def max_def split: if_splits)

lemma clamp_floating_witness:
  "clamp_to 80 24 (clamp_to 80 24 \<lparr>fr_col_off = 90, fr_row_off = 3, fr_cols = 4, fr_rows = 60\<rparr>) =
    clamp_to 80 24 \<lparr>fr_col_off = 90, fr_row_off = 3, fr_cols = 4, fr_rows = 60\<rparr>"
  using clamp_floating [of 80 24] by (simp add: MIN_COLS_def MIN_ROWS_def)

section \<open>Windows\<close>

text \<open>A window of two panes, the second focused.\<close>

definition sample_window :: window where
  "sample_window = snd (add_pane_with_options 2 True Vertical 80 24 (window_single 1 (lit ''w'') (1, (80, 24)) 80 24))"

lemma sample_window_facts:
  "window_reach sample_window" "window_ok sample_window" "set (pane_ids sample_window) = {1, 2}"
  "w_focused_pane_id sample_window = 2"
proof -
  have new: "window_new 1 (lit ''w'') 80 24 (Some 1) = Some (window_single 1 (lit ''w'') (1, (80, 24)) 80 24)"
    by (simp add: window_new_def)
  have "window_reach sample_window" unfolding sample_window_def
    by (rule window_reach.step [OF window_reach.created [OF new] window_op.split]) simp
  then show "window_reach sample_window" "window_ok sample_window" by (simp_all add: window_reach_ok)
  show "set (pane_ids sample_window) = {1, 2}" "w_focused_pane_id sample_window = 2"
    using add_pane_ok [OF window_ok_single, of 2 1 "lit ''w''" "(1, (80, 24))" 80 24 Vertical 80 24]
    by (auto simp: sample_window_def prod_eq_iff)
qed

text \<open>A swap with an id that is not in the window.\<close>

lemma swap_breaks:
  assumes "window_ok w" "j \<notin> set (pane_ids w)"
  shows "w_focused_pane_id w \<notin> set (leaves (w_layout (swap_focused_with j w)))
    \<and> j \<in> set (leaves (w_layout (swap_focused_with j w)))"
proof -
  have t: "w_focused_pane_id w \<in> set (leaves (w_layout w))" "w_focused_pane_id w \<noteq> j"
    using assms by (auto simp: window_ok_def tabs_ok_def bsp_tree.holds_def)
  then have "j \<in> set (leaves (w_layout (swap_focused_with j w)))"
    by (auto simp: swap_focused_with_def Let_def swap_ids_leaves swap_id_def image_iff intro!: bexI [of _ "w_focused_pane_id w"])
  then show ?thesis using swap_unknown [OF assms] by simp
qed



text \<open>Restoring does not look whether the focus of the snapshot is a pane of its tree: when it is not,
  the window has no focused pane.\<close>

lemma restore_stray_focus:
  assumes "window_restore spawn_ok snap cols rows = Some w"
    and "ws_focused_pane_id snap \<notin> set (collect_pane_ids (ws_layout snap))"
  shows "w_focused_pane_id w \<notin> set (pane_ids w)"
  using window_restore_Some [OF assms(1)] assms(2) by simp

lemma restore_stray_focus_witness:
  "\<exists>w. window_restore (\<lambda>_ _. True) (\<lparr>ws_id = 1, ws_name = [], ws_focused_pane_id = 9,
       ws_layout = PaneSnapshot 1 None\<rparr> :: string window_snapshot) 80 24 = Some w \<and> w_focused_pane_id w \<notin> set (pane_ids w)"
proof -
  let ?snap = "\<lparr>ws_id = 1, ws_name = [], ws_focused_pane_id = 9, ws_layout = PaneSnapshot 1 None\<rparr> :: string window_snapshot"
  have "collect_pane_ids (ws_layout ?snap) = [1]" by simp
  then have "find_duplicate_pane_id (ws_layout ?snap) = None" by (simp add: find_duplicate_pane_id_def)
  then obtain w where "window_restore (\<lambda>_ _. True) ?snap 80 24 = Some w"
    by (simp add: window_restore_def Let_def list_all_iff)
  from this restore_stray_focus [OF this] show ?thesis by simp
qed

text \<open>Splitting the focused pane adds the new pane right behind it in the tree, at the end of
  the tabs, focuses it, and keeps the window well-formed.\<close>

lemma split_pane:
  assumes "window_ok w" "new \<notin> set (pane_ids w)"
    and "add_pane_with_options new True dir cols rows w = (r, v)"
  shows "r = Some new \<and> window_ok v \<and> w_focused_pane_id v = new
    \<and> leaves (w_layout v) = insert_behind (w_focused_pane_id w) new (leaves (w_layout w))
    \<and> w_pane_order v = w_pane_order w @ [new] \<and> set (pane_ids v) = insert new (set (pane_ids w))"
proof -
  have t: "tabs_ok w" using assms(1) by (simp add: window_ok_def)
  obtain lay where lay: "insert_after (w_layout w) (w_focused_pane_id w) new dir = (True, lay)"
    using insert_after_in_tree [OF t assms(2)] .
  then have "w_layout v = lay" using assms(3)
    by (auto simp: add_pane_with_options_def Let_def resize_ptys_def)
  then have "leaves (w_layout v) = insert_behind (w_focused_pane_id w) new (leaves (w_layout w))"
    using insert_after_leaves [of "w_layout w" "w_focused_pane_id w" new dir] by (simp add: lay)
  then show ?thesis using add_pane_ok [OF assms] by simp
qed

lemma split_pane_witness:
  "\<exists>v. add_pane_with_options 3 True Horizontal 80 24 sample_window = (Some 3, v) \<and> window_ok v"
proof -
  obtain r v where e: "add_pane_with_options 3 True Horizontal 80 24 sample_window = (r, v)"
    by (cases "add_pane_with_options 3 True Horizontal 80 24 sample_window")
  show ?thesis using split_pane [OF sample_window_facts(2) _ e] e by (simp add: sample_window_facts)
qed

text \<open>Closing the focused pane does nothing when it is the last one that runs a shell; otherwise
  the pane disappears from the tree, the tabs and the maps, and the smallest id that is left
  gets the focus.\<close>

lemma close_pane:
  assumes "window_ok w"
  shows "\<exists>r v. remove_focused_pane cols rows w = Some (r, v) \<and> window_ok v
    \<and> (if length (w_panes w) \<le> 1 then r = None \<and> v = w
       else r = Some (w_focused_pane_id w)
         \<and> set (pane_ids v) = set (pane_ids w) - {w_focused_pane_id w})"
  by (rule remove_focused_ok [OF assms])

lemma sample_two_panes: "length (w_panes sample_window) = 2"
  by (simp add: sample_window_def add_pane_with_options_def window_single_def Let_def resize_ptys_def)
    (simp add: compute_layouts_def split_extent_def Let_def resize_one_def has_key_def split: prod.split)

lemma close_pane_witness:
  "\<exists>v. remove_focused_pane 80 24 sample_window = Some (Some 2, v) \<and> set (pane_ids v) = {1}"
proof -
  have "insert 1 {2} - {2} = {1 :: nat}" by auto
  then show ?thesis
    using close_pane [OF sample_window_facts(2), of 80 24]
    by (auto simp: sample_two_panes sample_window_facts)
qed

text \<open>Taking a pane out of a window hands over exactly that pane, leaves the window well-formed
  without it, and changes nothing when the pane cannot be taken.\<close>

lemma take_pane:
  assumes "window_ok w"
  shows "\<exists>r v. take_pane_by_id i cols rows w = Some (r, v) \<and> window_ok v
    \<and> (case r of None \<Rightarrow> v = w
       | Some p \<Rightarrow> fst p = i \<and> map_of (w_panes w) i = Some (snd p)
           \<and> set (pane_ids v) = set (pane_ids w) - {i})"
  by (rule take_pane_ok [OF assms])

lemma take_pane_witness: "\<exists>r v. take_pane_by_id 1 80 24 sample_window = Some (r, v) \<and> window_ok v"
  using take_pane [OF sample_window_facts(2), of 1 80 24] by blast

lemma pick_known_distinct:
  assumes "distinct (next @ filter (\<lambda>i. i \<notin> set next) is)" "set is \<subseteq> set known"
  shows "pick_known known next is = next @ filter (\<lambda>i. i \<notin> set next) is"
  using assms
proof (induction "is" arbitrary: "next")
  case (Cons i "is")
  show ?case
  proof (cases "i \<in> set next")
    case False
    have "filter (\<lambda>j. j \<noteq> i \<and> j \<notin> set next) is = filter (\<lambda>j. j \<notin> set next) is"
      using Cons.prems(1) False by (intro filter_cong) auto
    with Cons.IH [of "next @ [i]"] Cons.prems False show ?thesis by (simp add: conj_commute)
  qed (use Cons in simp)
qed simp

text \<open>Reordering the tabs with distinct known ids puts them first, in the order requested, and
  keeps the other tabs behind them in the order they had; the result is reported as a change
  exactly when it differs, and nothing else of the window is touched.\<close>

lemma reorder_keeps:
  assumes "window_ok w" "distinct order" "set order \<subseteq> set (pane_ids w)"
  shows "reorder_panes order w =
    (order @ filter (\<lambda>i. i \<notin> set order) (w_pane_order w) \<noteq> w_pane_order w,
     w\<lparr>w_pane_order := order @ filter (\<lambda>i. i \<notin> set order) (w_pane_order w)\<rparr>)"
proof -
  let ?next = "order @ filter (\<lambda>i. i \<notin> set order) (w_pane_order w)"
  have t: "distinct (w_pane_order w)" "set (w_pane_order w) = set (pane_ids w)"
    using assms(1) by (simp_all add: window_ok_def tabs_ok_def)
  have "pick_known (pane_ids w) [] order = order"
    using pick_known_distinct [of "[]" order "pane_ids w"] assms(2,3) by simp
  moreover have "pick_known (pane_ids w) order (w_pane_order w) = ?next"
    using assms(2) t by (intro pick_known_distinct) auto
  moreover have "filter (\<lambda>i. i \<notin> set ?next) (pane_ids w) = []"
    using t(2) by (auto simp: filter_empty_conv)
  ultimately have "compute_reordered (w_pane_order w) order (pane_ids w) = ?next"
    by (simp add: compute_reordered_def Let_def del: filter_append set_append)
  then show ?thesis by (cases w) (simp add: reorder_panes_def Let_def)
qed

lemma reorder_keeps_witness:
  "fst (reorder_panes [2] sample_window) \<longleftrightarrow>
     [2] @ filter (\<lambda>i. i \<notin> {2}) (w_pane_order sample_window) \<noteq> w_pane_order sample_window"
  using reorder_keeps [OF sample_window_facts(2), of "[2]"] by (simp add: sample_window_facts)

lemma filter_only: "distinct xs \<Longrightarrow> x \<in> set xs \<Longrightarrow> filter (\<lambda>i. i = x) xs = [x]"
  by (induction xs) (auto simp: filter_empty_conv)

text \<open>The layout message of a window that is not zoomed lists every pane once, in the
  order of the tabs, and marks the focused pane and no other.\<close>

lemma tabs_message:
  assumes "window_ok w" "\<not> w_zoomed w"
  shows "map pl_pane_id (fst (layout_changed_msg cols rows w)) = w_pane_order w
    \<and> map pl_pane_id (filter pl_is_focused (fst (layout_changed_msg cols rows w))) = [w_focused_pane_id w]"
proof -
  let ?ls = "fst (layout_changed_msg cols rows w)"
  note m = layout_message_tabs [OF assms, where cols = cols and rows = rows]
  have t: "distinct (w_pane_order w)" "w_focused_pane_id w \<in> set (w_pane_order w)"
    using assms(1) by (simp_all add: window_ok_def tabs_ok_def)
  have "map pl_pane_id (filter pl_is_focused ?ls) =
      map pl_pane_id (filter (\<lambda>l. pl_pane_id l = w_focused_pane_id w) ?ls)"
    using m(2) by (intro arg_cong [where f = "map pl_pane_id"] filter_cong) auto
  also have "\<dots> = filter (\<lambda>i. i = w_focused_pane_id w) (map pl_pane_id ?ls)"
    by (simp add: filter_map comp_def)
  also have "\<dots> = [w_focused_pane_id w]"
    unfolding m(1) by (rule filter_only [OF t])
  finally show ?thesis using m(1) by simp
qed

lemma tabs_message_witness:
  "map pl_pane_id (fst (layout_changed_msg 80 24 (window_single 1 (lit ''w'') (1, (80, 24)) 80 24))) = [1]"
  using tabs_message [OF window_ok_single, of 1 "lit ''w''" "(1, (80, 24))" 80 24 80 24]
  by (simp add: window_single_def)

text \<open>Restoring the snapshot of a window gives, when every pane can be spawned, a well-formed
  window with the same split tree and focus, the tabs in tree order, and each pane spawned
  with the size of its rectangle.\<close>

lemma save_restore:
  assumes "window_ok w"
  shows "\<exists>v. window_restore (\<lambda>_ _. True) (window_to_snapshot cwd w) cols rows = Some v
    \<and> w_layout v = w_layout w \<and> w_focused_pane_id v = w_focused_pane_id w
    \<and> w_pane_order v = leaves (w_layout w) \<and> w_panes v =
        map (\<lambda>r. (pr_pane_id r, (pr_cols r, pr_rows r))) (compute (w_layout w) 0 0 cols rows)
    \<and> window_ok v"
  using restore_own [OF assms] by blast

lemma save_restore_witness:
  "\<exists>v. window_restore (\<lambda>_ _. True) (window_to_snapshot (\<lambda>_. None) sample_window) 100 40 = Some v
    \<and> window_ok v"
  using save_restore [OF sample_window_facts(2), of "\<lambda>_. None" 100 40] by blast

section \<open>Where the windows depart from their contract\<close>

text \<open>When the shell of a new pane cannot be spawned, the split reports the failure but its
  leaf stays in the tree: the layout then has an id that names no pane.\<close>

lemma ghost_leaf:
  assumes "window_ok w" "new \<notin> set (pane_ids w)"
    and "add_pane_with_options new False dir cols rows w = (r, v)"
  shows "r = None \<and> new \<in> set (leaves (w_layout v)) \<and> new \<notin> set (pane_ids v) \<and> \<not> window_ok v"
  by (rule failed_spawn_ghost [OF assms])

lemma ghost_leaf_witness:
  "5 \<in> set (leaves (w_layout (snd (add_pane_with_options 5 False Vertical 80 24 sample_window))))"
proof -
  obtain r v where e: "add_pane_with_options 5 False Vertical 80 24 sample_window = (r, v)"
    by (cases "add_pane_with_options 5 False Vertical 80 24 sample_window")
  show ?thesis using ghost_leaf [OF sample_window_facts(2) _ e] by (simp add: e sample_window_facts)
qed

text \<open>Swapping the focused pane with an id that is not in the window replaces the focused
  pane in the tree by that id, so that the focused pane is no longer laid out.\<close>

lemma swap_stranger:
  assumes "window_ok w" "j \<notin> set (pane_ids w)"
  shows "w_focused_pane_id w \<notin> set (leaves (w_layout (swap_focused_with j w)))
    \<and> j \<in> set (leaves (w_layout (swap_focused_with j w))) \<and> \<not> window_ok (swap_focused_with j w)"
  using swap_breaks [OF assms] swap_unknown [OF assms] by simp

lemma swap_stranger_witness: "2 \<notin> set (leaves (w_layout (swap_focused_with 7 sample_window)))"
  using swap_stranger [OF sample_window_facts(2), of 7] by (simp add: sample_window_facts)

text \<open>Taking the focused pane out of a window when it is a serial pane returns nothing, yet
  removes its leaf: the pane is still in the window but no longer in the layout.\<close>

lemma serial_lost:
  assumes "window_ok w" "1 < length (w_panes w)" "w_focused_pane_id w \<in> set (map fst (w_serial_panes w))"
  shows "\<exists>v. take_focused_pane cols rows w = Some (None, v)
    \<and> w_focused_pane_id w \<in> set (pane_ids v) \<and> w_focused_pane_id w \<notin> set (leaves (w_layout v))"
  by (rule take_focused_serial [OF assms])

definition serial_window :: window where
  "serial_window = snd (add_serial_pane (Some 3) Vertical 80 24 sample_window)"

lemma serial_window_facts:
  "window_ok serial_window" "length (w_panes serial_window) = 2" "w_focused_pane_id serial_window = 3"
  "3 \<in> set (map fst (w_serial_panes serial_window))"
proof -
  let ?v = "sample_window\<lparr>w_layout := snd (insert_after (w_layout sample_window)
      (w_focused_pane_id sample_window) 3 Vertical),
    w_serial_panes := AList.update 3 (80, 24) (w_serial_panes sample_window),
    w_focused_pane_id := 3, w_pane_order := w_pane_order sample_window @ [3]\<rparr>"
  show "window_ok serial_window"
    unfolding serial_window_def by (rule add_serial_ok [OF sample_window_facts(2)]) (simp add: sample_window_facts)
  have eq: "serial_window = resize_all_panes 80 24 ?v" by (simp add: serial_window_def add_serial_pane_def)
  have core: "same_core ?v serial_window" unfolding eq by (rule core_resize_all)
  have "length (map fst (w_panes serial_window)) = 2"
    using core sample_two_panes by (simp add: same_core_def del: length_map) simp
  then show "length (w_panes serial_window) = 2" by simp
  show "w_focused_pane_id serial_window = 3" "3 \<in> set (map fst (w_serial_panes serial_window))"
    using core by (simp_all add: same_core_def keys_update)
qed

lemma serial_lost_witness: "\<exists>v. take_focused_pane 80 24 serial_window = Some (None, v)"
  using serial_lost [OF serial_window_facts(1), of 80 24] serial_window_facts(2,3,4)
  by (simp only: serial_window_facts) (auto simp del: set_map)

end
