(* ===== verification/Session.thy ===== *)
theory Session
  imports Window_Life Pane_Reader
begin

text \<open>
  A session and its windows (\<open>nexterm-server/src/session.rs\<close>).  The map of windows is an
  association list with distinct keys; where the source takes the first key of the map in
  its unspecified order, the choice is the argument \<open>pick\<close>.  The counter of window ids is a
  static of the source: operations that draw an id take it and return it.  Spawning is
  external, its outcome (the id of the new pane, or the text of the error) an argument.  A
  fallible method returns its error or its value beside the session it leaves behind, and
  \<open>None\<close> around the whole is a panic.
\<close>

section \<open>State\<close>

definition new_window_id :: "nat \<Rightarrow> nat \<times> nat" where
  "new_window_id next = (next, wrap32 (next + 1))"

definition set_min_window_id :: "nat \<Rightarrow> nat \<Rightarrow> nat" where
  "set_min_window_id min_id next = max next min_id"

datatype session_error =
    CannotRemoveLast
  | WindowNotFound nat
  | FocusedWindowNotFound
  | CannotBreakLast
  | PaneNotFound nat
  | AlreadyInWindow nat nat
  | CannotExtract nat
  | CannotTake nat nat
  | SameWindow
  | CannotMoveLast
  | FocusedPaneNotFound
  | NothingRestored rstr
  | SpawnError rstr

fun error_text :: "session_error \<Rightarrow> rstr" where
  "error_text CannotRemoveLast = lit ''cannot remove the last remaining window''"
| "error_text (WindowNotFound i) = lit ''window '' @ dec i @ lit '' not found''"
| "error_text FocusedWindowNotFound = lit ''focused window not found''"
| "error_text CannotBreakLast = lit ''cannot break out the last remaining pane''"
| "error_text (PaneNotFound i) = lit ''pane '' @ dec i @ lit '' not found''"
| "error_text (AlreadyInWindow p w) = lit ''pane '' @ dec p @ lit '' is already in window '' @ dec w"
| "error_text (CannotExtract w) =
     lit ''cannot extract the last pane of window '' @ dec w @ lit '' (unsupported pane such as serial)''"
| "error_text (CannotTake p w) = lit ''cannot take pane '' @ dec p @ lit '' out of window '' @ dec w"
| "error_text SameWindow = lit ''destination is the same as the current window''"
| "error_text CannotMoveLast = lit ''cannot move the last remaining pane''"
| "error_text FocusedPaneNotFound = lit ''focused pane not found''"
| "error_text (NothingRestored n) = lit ''no window could be restored for session '' @ [39] @ n @ [39]"
| "error_text (SpawnError e) = e"

record session =
  ss_name :: rstr
  ss_windows :: "(nat \<times> window) list"
  ss_focused_window_id :: nat
  ss_shell :: rstr
  ss_shell_args :: "rstr list"
  ss_cols :: nat
  ss_rows :: nat
  ss_broadcast :: bool
  ss_workspace_name :: rstr

definition DEFAULT_WORKSPACE :: rstr where
  "DEFAULT_WORKSPACE = lit ''default''"

definition put_window :: "nat \<Rightarrow> window \<Rightarrow> session \<Rightarrow> session" where
  "put_window i w s = s\<lparr>ss_windows := AList.update i w (ss_windows s)\<rparr>"

definition drop_window :: "nat \<Rightarrow> session \<Rightarrow> session" where
  "drop_window i s = s\<lparr>ss_windows := AList.delete i (ss_windows s)\<rparr>"

definition session_window :: "nat \<Rightarrow> session \<Rightarrow> window option" where
  "session_window i s = map_of (ss_windows s) i"

definition focused_window :: "session \<Rightarrow> window option" where
  "focused_window s = session_window (ss_focused_window_id s) s"

definition on_focused :: "(window \<Rightarrow> window) \<Rightarrow> session \<Rightarrow> session" where
  "on_focused f s =
     (case focused_window s of
        None \<Rightarrow> s
      | Some w \<Rightarrow> put_window (ss_focused_window_id s) (f w) s)"

section \<open>Windows of a session\<close>

text \<open>\<open>Window::new\<close> with the error of the spawn.\<close>

definition spawn_window :: "nat \<Rightarrow> rstr \<Rightarrow> nat \<Rightarrow> nat \<Rightarrow> rstr + nat \<Rightarrow> session_error + window" where
  "spawn_window wid name cols rows spawned =
     (case spawned of
        Inl e \<Rightarrow> Inl (SpawnError e)
      | Inr pane \<Rightarrow> Inr (window_single wid name (pane, (cols, rows)) cols rows))"

definition new_in_workspace ::
  "rstr \<Rightarrow> nat \<Rightarrow> nat \<Rightarrow> rstr \<Rightarrow> rstr list \<Rightarrow> rstr \<Rightarrow> rstr + nat \<Rightarrow> nat \<Rightarrow> (session_error + session) \<times> nat" where
  "new_in_workspace name cols rows shell args workspace spawned next =
     (let (wid, next') = new_window_id next in
      case spawn_window wid (lit ''window-1'') cols rows spawned of
        Inl e \<Rightarrow> (Inl e, next')
      | Inr w \<Rightarrow>
          (Inr \<lparr>ss_name = name, ss_windows = [(wid, w)], ss_focused_window_id = wid,
             ss_shell = shell, ss_shell_args = args, ss_cols = cols, ss_rows = rows,
             ss_broadcast = False, ss_workspace_name = workspace\<rparr>, next'))"

definition session_info_of :: "nat \<Rightarrow> session \<Rightarrow> session_info" where
  "session_info_of receivers s =
     \<lparr>si_name = ss_name s, si_window_count = wrap32 (length (ss_windows s)),
      si_attached = (receivers > 0), si_workspace_name = ss_workspace_name s\<rparr>"

definition add_window :: "rstr + nat \<Rightarrow> nat \<Rightarrow> session \<Rightarrow> (session_error + nat) \<times> nat \<times> session" where
  "add_window spawned next s =
     (let (wid, next') = new_window_id next in
      case spawn_window wid (lit ''window-'' @ dec wid) (ss_cols s) (ss_rows s) spawned of
        Inl e \<Rightarrow> (Inl e, next', s)
      | Inr w \<Rightarrow> (Inr wid, next', (put_window wid w s)\<lparr>ss_focused_window_id := wid\<rparr>))"

definition remove_window :: "(nat list \<Rightarrow> nat) \<Rightarrow> nat \<Rightarrow> session \<Rightarrow> (session_error + unit) \<times> session" where
  "remove_window pick i s =
     (if length (ss_windows s) \<le> 1 then (Inl CannotRemoveLast, s)
      else if \<not> has_key i (ss_windows s) then (Inl (WindowNotFound i), s)
      else let s1 = drop_window i s in
        (Inr (),
         if ss_focused_window_id s1 = i
         then s1\<lparr>ss_focused_window_id := pick (map fst (ss_windows s1))\<rparr> else s1))"

definition focus_window :: "nat \<Rightarrow> session \<Rightarrow> (session_error + unit) \<times> session" where
  "focus_window i s =
     (if has_key i (ss_windows s) then (Inr (), s\<lparr>ss_focused_window_id := i\<rparr>)
      else (Inl (WindowNotFound i), s))"

definition rename_window :: "nat \<Rightarrow> rstr \<Rightarrow> session \<Rightarrow> (session_error + unit) \<times> session" where
  "rename_window i name s =
     (case session_window i s of
        None \<Rightarrow> (Inl (WindowNotFound i), s)
      | Some w \<Rightarrow> (Inr (), put_window i (w\<lparr>w_name := name\<rparr>) s))"

definition window_info_of :: "nat \<Rightarrow> window \<Rightarrow> window_info" where
  "window_info_of focused w =
     \<lparr>wi_window_id = w_id w, wi_name = w_name w, wi_pane_count = wrap32 (pane_count w),
      wi_is_focused = (w_id w = focused)\<rparr>"

definition window_list :: "session \<Rightarrow> window_info list" where
  "window_list s =
     sort_key wi_window_id (map (window_info_of (ss_focused_window_id s) \<circ> snd) (ss_windows s))"

section \<open>Moving panes between windows\<close>

definition break_pane :: "nat \<Rightarrow> session \<Rightarrow> ((session_error + nat) \<times> nat \<times> session) option" where
  "break_pane next s =
     (case focused_window s of
        None \<Rightarrow> Some (Inl FocusedWindowNotFound, next, s)
      | Some w \<Rightarrow>
          (case take_focused_pane (ss_cols s) (ss_rows s) w of
             None \<Rightarrow> None
           | Some (None, w') \<Rightarrow>
               Some (Inl CannotBreakLast, next, put_window (ss_focused_window_id s) w' s)
           | Some (Some pane, w') \<Rightarrow>
               (let (wid, next') = new_window_id next;
                    v = window_new_with_pane wid (lit ''window-broken'') pane (ss_cols s) (ss_rows s) in
                Some (Inr wid, next',
                  (put_window wid v (put_window (ss_focused_window_id s) w' s))
                    \<lparr>ss_focused_window_id := wid\<rparr>))))"

text \<open>The pane out of its window, which goes away with its only pane.\<close>

definition extract_pane ::
  "nat \<Rightarrow> nat \<Rightarrow> window \<Rightarrow> session \<Rightarrow> ((session_error + nat \<times> psize) \<times> session) option" where
  "extract_pane pane_id src w s =
     (if pane_count w \<le> 1 then
        Some (case into_single_pane w of
            None \<Rightarrow> Inl (CannotExtract src)
          | Some p \<Rightarrow> Inr p, drop_window src s)
      else
        (case take_pane_by_id pane_id (ss_cols s) (ss_rows s) w of
           None \<Rightarrow> None
         | Some (p, w') \<Rightarrow>
             Some (case p of None \<Rightarrow> Inl (CannotTake pane_id src) | Some p \<Rightarrow> Inr p, put_window src w' s)))"

definition place_pane ::
  "nat \<times> psize \<Rightarrow> nat \<Rightarrow> nat option \<Rightarrow> nat \<Rightarrow> session \<Rightarrow> (session_error + nat) \<times> nat \<times> session" where
  "place_pane pane target pos next s =
     (if target = 0 then
        (let (wid, next') = new_window_id next;
             v = window_new_with_pane wid (lit ''window-torn'') pane (ss_cols s) (ss_rows s) in
         (Inr wid, next', put_window wid v s))
      else
        (case session_window target s of
           None \<Rightarrow> (Inl (WindowNotFound target), next, s)
         | Some t \<Rightarrow>
             (Inr target, next,
              put_window target (insert_pane_at pane (ss_cols s) (ss_rows s) Vertical pos t) s)))"

definition move_pane ::
  "nat \<Rightarrow> nat \<Rightarrow> nat option \<Rightarrow> nat \<Rightarrow> session
   \<Rightarrow> ((session_error + nat \<times> nat \<times> nat) \<times> nat \<times> session) option" where
  "move_pane pane_id target pos next s =
     (case List.find (\<lambda>(_, w). pane_id \<in> set (pane_ids w)) (ss_windows s) of
        None \<Rightarrow> Some (Inl (PaneNotFound pane_id), next, s)
      | Some (src, w) \<Rightarrow>
          (if src = target then Some (Inl (AlreadyInWindow pane_id target), next, s)
           else
             (case extract_pane pane_id src w s of
                None \<Rightarrow> None
              | Some (Inl e, s1) \<Rightarrow> Some (Inl e, next, s1)
              | Some (Inr pane, s1) \<Rightarrow>
                  (case place_pane pane target pos next s1 of
                     (Inl e, next', s2) \<Rightarrow> Some (Inl e, next', s2)
                   | (Inr wid, next', s2) \<Rightarrow>
                       Some (Inr (src, wid, pane_id), next', s2\<lparr>ss_focused_window_id := wid\<rparr>)))))"

definition join_pane :: "nat \<Rightarrow> session \<Rightarrow> ((session_error + nat) \<times> session) option" where
  "join_pane target s =
     (if ss_focused_window_id s = target then Some (Inl SameWindow, s)
      else
        (case focused_window s of
           None \<Rightarrow> Some (Inl FocusedWindowNotFound, s)
         | Some w \<Rightarrow>
             (case take_focused_pane (ss_cols s) (ss_rows s) w of
                None \<Rightarrow> None
              | Some (None, w') \<Rightarrow>
                  Some (Inl CannotMoveLast, put_window (ss_focused_window_id s) w' s)
              | Some (Some pane, w') \<Rightarrow>
                  (let s1 = put_window (ss_focused_window_id s) w' s in
                   case session_window target s1 of
                     None \<Rightarrow> Some (Inl (WindowNotFound target), s1)
                   | Some t \<Rightarrow>
                       Some (Inr (fst pane),
                         (put_window target (insert_pane pane (ss_cols s) (ss_rows s) Vertical t) s1)
                           \<lparr>ss_focused_window_id := target\<rparr>)))))"

section \<open>Input\<close>

text \<open>Writing gives the bytes for each PTY; the writes themselves are external.\<close>

definition set_broadcast :: "bool \<Rightarrow> session \<Rightarrow> session" where
  "set_broadcast enabled s = s\<lparr>ss_broadcast := enabled\<rparr>"

definition write_to_all :: "byte list \<Rightarrow> session \<Rightarrow> session_error + (nat \<times> byte list) list" where
  "write_to_all data s =
     (case focused_window s of
        None \<Rightarrow> Inl FocusedWindowNotFound
      | Some w \<Rightarrow>
          Inr (map (\<lambda>i. (i, data)) (filter (\<lambda>i. has_key i (w_panes w)) (pane_ids w))))"

definition window_write_to_focused :: "byte list \<Rightarrow> window \<Rightarrow> session_error + (nat \<times> byte list) list" where
  "window_write_to_focused data w =
     (if has_key (w_focused_pane_id w) (w_panes w) then Inr [(w_focused_pane_id w, data)]
      else if has_key (w_focused_pane_id w) (w_serial_panes w) then Inr [(w_focused_pane_id w, data)]
      else Inl FocusedPaneNotFound)"

definition session_write_to_focused :: "byte list \<Rightarrow> session \<Rightarrow> session_error + (nat \<times> byte list) list" where
  "session_write_to_focused data s =
     (if ss_broadcast s then write_to_all data s
      else
        (case focused_window s of
           None \<Rightarrow> Inl FocusedWindowNotFound
         | Some w \<Rightarrow> window_write_to_focused data w))"

text \<open>What the reader thread of the focused pane has mirrored; \<open>shared\<close> are the panes' shared states.\<close>

definition focused_shared :: "(nat \<Rightarrow> pane_shared) \<Rightarrow> session \<Rightarrow> pane_shared option" where
  "focused_shared shared s =
     Option.bind (focused_window s)
       (\<lambda>w. if has_key (w_focused_pane_id w) (w_panes w) then Some (shared (w_focused_pane_id w)) else None)"

definition focused_bracketed_paste_mode :: "(nat \<Rightarrow> pane_shared) \<Rightarrow> session \<Rightarrow> bool" where
  "focused_bracketed_paste_mode shared s =
     (case focused_shared shared s of None \<Rightarrow> False | Some sh \<Rightarrow> sh_bracketed_paste sh)"

definition focused_mouse_mode :: "(nat \<Rightarrow> pane_shared) \<Rightarrow> session \<Rightarrow> nat" where
  "focused_mouse_mode shared s = (case focused_shared shared s of None \<Rightarrow> 0 | Some sh \<Rightarrow> sh_mouse_mode sh)"

definition focused_keyboard_protocol_flags :: "(nat \<Rightarrow> pane_shared) \<Rightarrow> session \<Rightarrow> u8" where
  "focused_keyboard_protocol_flags shared s =
     (case focused_shared shared s of None \<Rightarrow> 0 | Some sh \<Rightarrow> sh_keyboard_flags sh)"

definition focused_dnd_enabled :: "(nat \<Rightarrow> pane_shared) \<Rightarrow> session \<Rightarrow> bool" where
  "focused_dnd_enabled shared s =
     (case focused_shared shared s of None \<Rightarrow> False | Some sh \<Rightarrow> sh_dnd_enabled sh)"

definition resize_focused :: "nat \<Rightarrow> nat \<Rightarrow> session \<Rightarrow> (session_error + unit) \<times> session" where
  "resize_focused cols rows s =
     (let s1 = s\<lparr>ss_cols := cols, ss_rows := rows\<rparr> in
      case focused_window s1 of
        None \<Rightarrow> (Inl FocusedWindowNotFound, s1)
      | Some w \<Rightarrow>
          (Inr (), put_window (ss_focused_window_id s1) (resize_all_panes cols rows w) s1))"

section \<open>Snapshots\<close>

record 'c session_snapshot =
  sn_name :: rstr
  sn_shell :: rstr
  sn_shell_args :: "rstr list"
  sn_cols :: nat
  sn_rows :: nat
  sn_windows :: "'c window_snapshot list"
  sn_focused_window_id :: nat
  sn_session_title :: "rstr option"
  sn_workspace_name :: rstr

definition session_to_snapshot :: "(nat \<Rightarrow> 'c option) \<Rightarrow> session \<Rightarrow> 'c session_snapshot" where
  "session_to_snapshot cwd s =
     \<lparr>sn_name = ss_name s, sn_shell = ss_shell s, sn_shell_args = ss_shell_args s,
      sn_cols = ss_cols s, sn_rows = ss_rows s,
      sn_windows = map (window_to_snapshot cwd \<circ> snd) (ss_windows s),
      sn_focused_window_id = ss_focused_window_id s, sn_session_title = None,
      sn_workspace_name = ss_workspace_name s\<rparr>"

text \<open>A window that cannot be restored is skipped with a warning.\<close>

definition restore_window ::
  "(nat \<times> nat \<times> nat \<Rightarrow> 'c option \<Rightarrow> bool) \<Rightarrow> nat \<Rightarrow> nat \<Rightarrow> 'c window_snapshot
   \<Rightarrow> (nat \<times> window) list \<Rightarrow> (nat \<times> window) list" where
  "restore_window spawn_ok cols rows snap ws =
     (case window_restore spawn_ok snap cols rows of
        None \<Rightarrow> ws
      | Some w \<Rightarrow> AList.update (ws_id snap) w ws)"

definition session_restore ::
  "(nat list \<Rightarrow> nat) \<Rightarrow> (nat \<times> nat \<times> nat \<Rightarrow> 'c option \<Rightarrow> bool) \<Rightarrow> 'c session_snapshot
   \<Rightarrow> session_error + session" where
  "session_restore pick spawn_ok snap =
     (let ws = fold (restore_window spawn_ok (sn_cols snap) (sn_rows snap)) (sn_windows snap) [] in
      if ws = [] then Inl (NothingRestored (sn_name snap))
      else Inr \<lparr>ss_name = sn_name snap, ss_windows = ws,
          ss_focused_window_id =
            (if has_key (sn_focused_window_id snap) ws then sn_focused_window_id snap
             else pick (map fst ws)),
          ss_shell = sn_shell snap, ss_shell_args = sn_shell_args snap, ss_cols = sn_cols snap,
          ss_rows = sn_rows snap, ss_broadcast = False,
          ss_workspace_name =
            (if sn_workspace_name snap = [] then DEFAULT_WORKSPACE else sn_workspace_name snap)\<rparr>)"

end
