(* ===== verification/Session_Inv.thy ===== *)
theory Session_Inv
  imports Session
begin

text \<open>
  The invariant of a session: its windows are well-formed and filed under their ids, no pane
  is in two windows, and the focused window exists.  Every operation keeps it, with the ids
  of windows drawn from the counter and the ids of panes from the spawner.
\<close>

section \<open>Association lists by position\<close>

lemma delete_conv_filter: "AList.delete k m = filter (\<lambda>p. fst p \<noteq> k) m"
  by (simp add: AList.delete_eq split_def eq_commute)

lemma alist_at:
  assumes "map_of m k = Some v" "distinct (map fst m)"
  obtains us vs where "m = us @ (k, v) # vs" "AList.update k v' m = us @ (k, v') # vs"
    "AList.delete k m = us @ vs"
proof -
  from assms(1) have "(k, v) \<in> set m" by (rule map_of_SomeD)
  then obtain us vs where m: "m = us @ (k, v) # vs" by (meson split_list)
  with assms(2) have k: "k \<notin> set (map fst us)" "k \<notin> set (map fst vs)" by auto
  have "AList.update k v' (us @ (k, v) # vs) = us @ (k, v') # vs" using k(1) by (induction us) auto
  moreover have "filter (\<lambda>p. fst p \<noteq> k) us = us" "filter (\<lambda>p. fst p \<noteq> k) vs = vs"
    using k by (auto simp: filter_id_conv)
  then have "AList.delete k (us @ (k, v) # vs) = us @ vs" by (simp add: delete_conv_filter)
  ultimately show ?thesis using that m by blast
qed

section \<open>What a window operation does to the ids\<close>

lemma w_id_resize_ptys [simp]: "w_id (resize_ptys rs w) = w_id w"
  by (simp add: resize_ptys_def)

lemma w_id_resize_any [simp]: "w_id (resize_any r w) = w_id w"
  by (simp add: resize_any_def)

lemma w_id_resize_fold [simp]: "w_id (fold resize_any rs w) = w_id w"
  by (induction rs arbitrary: w) auto

lemma w_id_resize_all [simp]: "w_id (resize_all_panes cols rows w) = w_id w"
  by (simp add: resize_all_panes_def Let_def)

lemma w_id_take: "take_pane_by_id i cols rows w = Some (p, v) \<Longrightarrow> w_id v = w_id w"
  by (auto simp: take_pane_by_id_def Let_def split: if_splits option.splits list.splits)

lemma w_id_take_focused: "take_focused_pane cols rows w = Some (p, v) \<Longrightarrow> w_id v = w_id w"
  by (auto simp: take_focused_pane_def Let_def split: if_splits option.splits list.splits)

lemma w_id_insert [simp]: "w_id (insert_pane_at p cols rows dir pos w) = w_id w"
  by (simp add: insert_pane_at_def Let_def)

lemma w_id_remove: "remove_focused_pane cols rows w = Some (r, v) \<Longrightarrow> w_id v = w_id w"
  by (auto simp: remove_focused_pane_def Let_def split: if_splits list.splits)

lemma w_id_add: "w_id (snd (add_pane_with_options new ok dir cols rows w)) = w_id w"
  by (auto simp: add_pane_with_options_def Let_def split: prod.splits bool.splits)

lemma window_op_id: "window_op w v \<Longrightarrow> w_id v = w_id w"
proof (induction rule: window_op.induct)
  case (split_serial spawned w dir cols rows)
  then show ?case by (cases spawned) (simp_all add: add_serial_pane_def)
next
  case (adjust w delta cols rows)
  show ?case by (simp add: adjust_split_ratio_def Let_def split: prod.split)
qed (simp_all add: w_id_add w_id_remove w_id_take w_id_take_focused set_layout_mode_def swap_focused_with_def swap_with_next_def
    swap_with_prev_def set_focused_pane_def focus_next_def focus_prev_def toggle_zoom_def Let_def
    reorder_panes_def open_floating_pane_def move_floating_pane_def resize_floating_pane_def
    close_floating_pane_def split: option.split prod.split)

lemma pane_ids_resize_ptys [simp]: "pane_ids (resize_ptys rs w) = pane_ids w"
  by (simp add: resize_ptys_def pane_ids_def)

lemma pane_ids_resize_all [simp]: "pane_ids (resize_all_panes cols rows w) = pane_ids w"
  using core_resize_all [of w cols rows] by (simp add: same_core_def pane_ids_def)

lemma pane_ids_insert:
  assumes "fst p \<notin> set (pane_ids w)" "window_ok w"
  shows "set (pane_ids (insert_pane_at p cols rows dir pos w)) = insert (fst p) (set (pane_ids w))"
proof -
  have "distinct (pane_ids w)" using assms(2) by (simp add: window_ok_def tabs_ok_def)
  from pane_ids_update(1) [OF assms(1) this, of "snd p"] show ?thesis
    by (simp add: insert_pane_at_def Let_def) (simp add: pane_ids_def)
qed

lemma new_with_pane [simp]:
  "pane_ids (window_new_with_pane wid name p cols rows) = [fst p]"
  "w_id (window_new_with_pane wid name p cols rows) = wid"
  by (simp_all add: window_new_with_pane_def) (simp_all add: window_single_def pane_ids_def)

lemma into_single:
  assumes "into_single_pane w = Some p"
  shows "pane_ids w = [fst p]"
  using assms by (auto simp: into_single_pane_def pane_ids_def split: if_splits list.splits)

text \<open>A window never loses its last PTY pane.\<close>

lemma keys_nonempty: "map fst m = map fst m' \<Longrightarrow> m \<noteq> [] \<longleftrightarrow> m' \<noteq> []"
  by (metis map_is_Nil_conv)

lemma panes_resize_ptys [simp]: "w_panes (resize_ptys rs w) = [] \<longleftrightarrow> w_panes w = []"
  using core_resize_ptys [of w rs] keys_nonempty by (auto simp: same_core_def)

lemma panes_resize_all [simp]: "w_panes (resize_all_panes cols rows w) = [] \<longleftrightarrow> w_panes w = []"
  using core_resize_all [of w cols rows] keys_nonempty by (auto simp: same_core_def)

lemma update_nonempty [simp]: "AList.update k v m \<noteq> []"
  by (cases m) auto

lemma delete_nonempty: "1 < length (w_panes w) \<Longrightarrow> window_ok w \<Longrightarrow> AList.delete i (w_panes w) \<noteq> []"
  using two_panes(1) [of w i] by (force simp: window_ok_def tabs_ok_def AList.delete_eq filter_empty_conv)

lemma panes_take:
  assumes "take_pane_by_id i cols rows w = Some (p, v)" "window_ok w" "w_panes w \<noteq> []"
  shows "w_panes v \<noteq> []"
proof (cases "length (w_panes w) \<le> 1")
  case False
  then have "AList.delete i (w_panes w) \<noteq> []" using delete_nonempty assms(2) by simp
  with False assms(1,3) show ?thesis
    by (auto simp only: take_pane_by_id_def Let_def if_False panes_resize_ptys window.simps option.simps
        prod.inject split: if_split_asm option.split_asm list.split_asm) simp_all
next
  case True
  with assms(1) have "v = w" by (simp only: take_pane_by_id_def if_True option.inject prod.inject)
  with assms(3) show ?thesis by simp
qed

lemma panes_take_focused:
  assumes "take_focused_pane cols rows w = Some (p, v)" "window_ok w" "w_panes w \<noteq> []"
  shows "w_panes v \<noteq> []"
proof (cases "length (w_panes w) \<le> 1")
  case False
  then have "AList.delete (w_focused_pane_id w) (w_panes w) \<noteq> []" using delete_nonempty assms(2) by simp
  with False assms(1,3) show ?thesis
    by (auto simp only: take_focused_pane_def Let_def if_False panes_resize_ptys window.simps option.simps
        prod.inject split: if_split_asm option.split_asm list.split_asm) simp_all
next
  case True
  with assms(1) have "v = w" by (simp only: take_focused_pane_def if_True option.inject prod.inject)
  with assms(3) show ?thesis by simp
qed

lemma panes_remove:
  assumes "remove_focused_pane cols rows w = Some (r, v)" "window_ok w" "w_panes w \<noteq> []"
  shows "w_panes v \<noteq> []"
proof (cases "length (w_panes w) \<le> 1")
  case False
  then have "AList.delete (w_focused_pane_id w) (w_panes w) \<noteq> []" using delete_nonempty assms(2) by simp
  with False assms(1,3) show ?thesis
    by (auto simp only: remove_focused_pane_def Let_def if_False panes_resize_ptys window.simps option.simps
        prod.inject split: if_split_asm list.split_asm) simp_all
next
  case True
  with assms(1) have "v = w" by (simp only: remove_focused_pane_def if_True option.inject prod.inject)
  with assms(3) show ?thesis by simp
qed

lemma panes_insert [simp]: "w_panes (insert_pane_at p cols rows dir pos w) \<noteq> []"
  by (simp add: insert_pane_at_def Let_def)

lemma panes_new_with_pane [simp]: "w_panes (window_new_with_pane wid name p cols rows) \<noteq> []"
  by (simp add: window_new_with_pane_def) (simp add: window_single_def)

lemma panes_add:
  "w_panes w \<noteq> [] \<Longrightarrow> w_panes (snd (add_pane_with_options new True dir cols rows w)) \<noteq> []"
  by (auto simp: add_pane_with_options_def Let_def split: prod.splits bool.splits)

lemma window_op_pty: "window_op w v \<Longrightarrow> window_ok w \<Longrightarrow> w_panes w \<noteq> [] \<Longrightarrow> w_panes v \<noteq> []"
proof (induction rule: window_op.induct)
  case (split_serial spawned w dir cols rows)
  then show ?case by (cases spawned) (simp_all add: add_serial_pane_def)
next
  case (adjust w delta cols rows)
  then show ?case by (simp add: adjust_split_ratio_def Let_def split: prod.split)
next
  case (remove cols rows w r v)
  then show ?case using panes_remove by blast
next
  case (take i cols rows w p v)
  then show ?case using panes_take by blast
next
  case (take_focused w cols rows p v)
  then show ?case using panes_take_focused by blast
qed (simp_all add: panes_add set_layout_mode_def swap_focused_with_def swap_with_next_def
    swap_with_prev_def set_focused_pane_def focus_next_def focus_prev_def toggle_zoom_def Let_def
    reorder_panes_def open_floating_pane_def move_floating_pane_def resize_floating_pane_def
    close_floating_pane_def split: option.split prod.split)

section \<open>The invariant\<close>

definition panes_of :: "(nat \<times> window) list \<Rightarrow> nat list" where
  "panes_of ws = concat (map (pane_ids \<circ> snd) ws)"

abbreviation session_panes :: "session \<Rightarrow> nat list" where
  "session_panes s \<equiv> panes_of (ss_windows s)"

definition filed_ok :: "nat \<Rightarrow> window \<Rightarrow> bool" where
  "filed_ok i w \<longleftrightarrow> w_id w = i \<and> window_ok w \<and> w_panes w \<noteq> []"

definition windows_ok :: "(nat \<times> window) list \<Rightarrow> bool" where
  "windows_ok ws \<longleftrightarrow>
     distinct (map fst ws) \<and> list_all (\<lambda>(i, w). filed_ok i w) ws \<and> distinct (panes_of ws)"

definition session_ok :: "session \<Rightarrow> bool" where
  "session_ok s \<longleftrightarrow> windows_ok (ss_windows s) \<and> ss_focused_window_id s \<in> set (map fst (ss_windows s))"

lemma windows_okD:
  assumes "windows_ok ws" "map_of ws i = Some w"
  shows "filed_ok i w" "set (pane_ids w) \<subseteq> set (panes_of ws)" "i \<in> set (map fst ws)"
  using assms by (auto simp: windows_ok_def list_all_iff panes_of_def dest!: map_of_SomeD
      intro: rev_image_eqI)

lemma windows_ok_update:
  assumes "windows_ok ws" "map_of ws i = Some w" "filed_ok i v"
    and "set (pane_ids v) \<inter> (set (panes_of ws) - set (pane_ids w)) = {}"
  shows "windows_ok (AList.update i v ws)"
    and "set (panes_of (AList.update i v ws)) = set (panes_of ws) - set (pane_ids w) \<union> set (pane_ids v)"
    and "map fst (AList.update i v ws) = map fst ws"
proof -
  have "distinct (map fst ws)" using assms(1) by (simp add: windows_ok_def)
  from alist_at [OF assms(2) this, of v] obtain us vs where
    ws: "ws = us @ (i, w) # vs" "AList.update i v ws = us @ (i, v) # vs" by metis
  have "distinct (pane_ids v)" using assms(3) by (simp add: filed_ok_def window_ok_def tabs_ok_def)
  moreover have "set (pane_ids w) \<inter> (set (panes_of us) \<union> set (panes_of vs)) = {}"
    using assms(1) by (auto simp: ws windows_ok_def panes_of_def)
  ultimately show "windows_ok (AList.update i v ws)"
    "set (panes_of (AList.update i v ws)) = set (panes_of ws) - set (pane_ids w) \<union> set (pane_ids v)"
    "map fst (AList.update i v ws) = map fst ws"
    using assms unfolding ws(2) by (auto simp: ws(1) windows_ok_def panes_of_def)
qed

lemma windows_ok_insert:
  assumes "windows_ok ws" "i \<notin> set (map fst ws)" "filed_ok i v"
    and "set (pane_ids v) \<inter> set (panes_of ws) = {}"
  shows "windows_ok (AList.update i v ws)"
    and "set (panes_of (AList.update i v ws)) = set (panes_of ws) \<union> set (pane_ids v)"
    and "map fst (AList.update i v ws) = map fst ws @ [i]"
  using assms unfolding update_fresh [OF assms(2)]
  by (auto simp: windows_ok_def panes_of_def filed_ok_def window_ok_def tabs_ok_def)

lemma windows_ok_delete:
  assumes "windows_ok ws" "map_of ws i = Some w"
  shows "windows_ok (AList.delete i ws)"
    and "set (panes_of (AList.delete i ws)) = set (panes_of ws) - set (pane_ids w)"
    and "map fst (AList.delete i ws) = filter (\<lambda>j. j \<noteq> i) (map fst ws)"
proof -
  have "distinct (map fst ws)" using assms(1) by (simp add: windows_ok_def)
  from alist_at [OF assms(2) this] obtain us vs where
    ws: "ws = us @ (i, w) # vs" "AList.delete i ws = us @ vs" by metis
  show "windows_ok (AList.delete i ws)"
    "set (panes_of (AList.delete i ws)) = set (panes_of ws) - set (pane_ids w)"
    using assms(1) unfolding ws(2) by (auto simp: ws(1) windows_ok_def panes_of_def)
qed (rule keys_delete)

end
