(* ===== verification/Session_Life.thy ===== *)
theory Session_Life
  imports Session_Inv
begin

text \<open>
  The operations of a session keep its invariant, moving a pane conserves the panes, and the
  sessions that operations produce are well-formed.
\<close>

section \<open>Fields\<close>

lemma put_window_fields [simp]:
  "ss_windows (put_window i w s) = AList.update i w (ss_windows s)"
  "ss_focused_window_id (put_window i w s) = ss_focused_window_id s"
  "ss_cols (put_window i w s) = ss_cols s" "ss_rows (put_window i w s) = ss_rows s"
  by (simp_all add: put_window_def)

lemma drop_window_fields [simp]:
  "ss_windows (drop_window i s) = AList.delete i (ss_windows s)"
  "ss_focused_window_id (drop_window i s) = ss_focused_window_id s"
  "ss_cols (drop_window i s) = ss_cols s" "ss_rows (drop_window i s) = ss_rows s"
  by (simp_all add: drop_window_def)

lemma session_okD:
  assumes "session_ok s" "session_window i s = Some w"
  shows "filed_ok i w" "set (pane_ids w) \<subseteq> set (session_panes s)" "i \<in> set (map fst (ss_windows s))"
  using windows_okD [of "ss_windows s" i w] assms by (simp_all add: session_ok_def session_window_def)

lemma session_focus:
  assumes "session_ok s"
  obtains w where "focused_window s = Some w" "session_window (ss_focused_window_id s) s = Some w"
  using assms by (metis focused_window_def has_key_def has_key_iff not_None_eq session_ok_def session_window_def)

lemma put_same: "session_window i s = Some w \<Longrightarrow> session_ok s \<Longrightarrow> put_window i w s = s"
  using alist_at [of "ss_windows s" i w w]
  by (metis put_window_def session_ok_def session_window_def session.surjective session.update_convs(2)
      windows_ok_def)

section \<open>Replacing, adding and dropping a window\<close>

lemma session_ok_put:
  assumes "session_ok s" "session_window i s = Some w" "filed_ok i v"
    and "set (pane_ids v) \<inter> (set (session_panes s) - set (pane_ids w)) = {}"
  shows "session_ok (put_window i v s)"
    and "set (session_panes (put_window i v s)) = set (session_panes s) - set (pane_ids w) \<union> set (pane_ids v)"
    and "map fst (ss_windows (put_window i v s)) = map fst (ss_windows s)"
  using windows_ok_update [of "ss_windows s" i w v] assms by (simp_all add: session_ok_def session_window_def)

lemma session_ok_add:
  assumes "session_ok s" "i \<notin> set (map fst (ss_windows s))" "filed_ok i v"
    and "set (pane_ids v) \<inter> set (session_panes s) = {}"
  shows "session_ok ((put_window i v s)\<lparr>ss_focused_window_id := i\<rparr>)"
    and "set (session_panes (put_window i v s)) = set (session_panes s) \<union> set (pane_ids v)"
    and "map fst (ss_windows (put_window i v s)) = map fst (ss_windows s) @ [i]"
  using windows_ok_insert [of "ss_windows s" i v] assms by (simp_all add: session_ok_def del: set_map)

lemma filed_ok_new: "filed_ok wid (window_new_with_pane wid name p cols rows)"
  by (simp add: filed_ok_def window_ok_new_with_pane)

lemma filed_ok_op: "window_op w v \<Longrightarrow> filed_ok i w \<Longrightarrow> filed_ok i v"
  by (simp add: filed_ok_def window_op_id window_op_ok window_op_pty)

section \<open>Taking and placing a pane\<close>

lemma take_focused_ok:
  assumes "window_ok w" "w_focused_pane_id w \<notin> set (map fst (w_serial_panes w))"
  shows "\<exists>r v. take_focused_pane cols rows w = Some (r, v) \<and>
    (case r of None \<Rightarrow> v = w
     | Some p \<Rightarrow> fst p = w_focused_pane_id w \<and> fst p \<in> set (pane_ids w)
         \<and> set (pane_ids v) = set (pane_ids w) - {fst p})"
proof -
  obtain r v where "take_pane_by_id (w_focused_pane_id w) cols rows w = Some (r, v)"
    "case r of None \<Rightarrow> v = w
       | Some p \<Rightarrow> fst p = w_focused_pane_id w \<and> map_of (w_panes w) (w_focused_pane_id w) = Some (snd p)
           \<and> set (pane_ids v) = set (pane_ids w) - {w_focused_pane_id w}"
    using take_pane_ok [OF assms(1)] by blast
  moreover have "w_focused_pane_id w \<in> set (pane_ids w)"
    using assms(1) by (simp add: window_ok_def tabs_ok_def)
  ultimately show ?thesis unfolding take_focused_by_id [OF assms]
    by (intro exI [of _ r] exI [of _ v]) (cases r; simp)
qed

text \<open>A window without one of its panes, as taking leaves it.\<close>

lemma session_ok_taken:
  assumes "session_ok s" "session_window i s = Some w" "filed_ok i v"
    and "p \<in> set (pane_ids w)" "set (pane_ids v) = set (pane_ids w) - {p}"
  shows "session_ok (put_window i v s)"
    and "set (session_panes (put_window i v s)) = set (session_panes s) - {p}"
    and "map fst (ss_windows (put_window i v s)) = map fst (ss_windows s)"
    and "p \<in> set (session_panes s)"
  using session_ok_put [OF assms(1-3)] session_okD(2) [OF assms(1,2)] assms(4,5) by auto

lemma session_ok_fresh_window:
  assumes "session_ok s" "i \<notin> set (map fst (ss_windows s))" "fst p \<notin> set (session_panes s)"
  shows "session_ok ((put_window i (window_new_with_pane i name p cols rows) s)\<lparr>ss_focused_window_id := i\<rparr>)"
    and "set (session_panes (put_window i (window_new_with_pane i name p cols rows) s)) =
      insert (fst p) (set (session_panes s))"
  using session_ok_add [OF assms(1,2) filed_ok_new, of name p cols rows] assms(3) by auto

lemma break_pane_ok:
  assumes "session_ok s" "focused_window s = Some w" "next \<notin> set (map fst (ss_windows s))"
    and "w_focused_pane_id w \<notin> set (map fst (w_serial_panes w))"
  shows "\<exists>r n s'. break_pane next s = Some (r, n, s') \<and> session_ok s'
    \<and> set (session_panes s') = set (session_panes s)
    \<and> (case r of Inl _ \<Rightarrow> n = next \<and> s' = s
       | Inr i \<Rightarrow> i = next \<and> n = wrap32 (next + 1)
           \<and> set (map fst (ss_windows s')) = insert next (set (map fst (ss_windows s)))
           \<and> ss_focused_window_id s' = next
           \<and> map_option pane_ids (session_window next s') = Some [w_focused_pane_id w])"
proof -
  let ?f = "ss_focused_window_id s"
  have sw: "session_window ?f s = Some w" using assms(2) by (simp add: focused_window_def)
  have w: "filed_ok ?f w" by (rule session_okD [OF assms(1) sw])
  then obtain r v where t: "take_focused_pane (ss_cols s) (ss_rows s) w = Some (r, v)"
    and c: "case r of None \<Rightarrow> v = w
     | Some p \<Rightarrow> fst p = w_focused_pane_id w \<and> fst p \<in> set (pane_ids w)
         \<and> set (pane_ids v) = set (pane_ids w) - {fst p}"
    using take_focused_ok [OF _ assms(4)] unfolding filed_ok_def by blast
  have v: "filed_ok ?f v" by (rule filed_ok_op [OF window_op.take_focused [OF assms(4) t] w])
  show ?thesis
  proof (cases r)
    case None
    with c assms(1,2) t put_same [OF sw assms(1)] show ?thesis by (simp add: break_pane_def)
  next
    case (Some p)
    have p: "fst p = w_focused_pane_id w" "fst p \<in> set (pane_ids w)"
      "set (pane_ids v) = set (pane_ids w) - {fst p}" using c unfolding Some option.case by blast+
    note s1 = session_ok_taken [OF assms(1) sw v p(2,3)]
    have fresh: "next \<notin> set (map fst (ss_windows (put_window ?f v s)))" using assms(3) s1(3) by simp
    have gone: "fst p \<notin> set (session_panes (put_window ?f v s))" using s1(2) by simp
    let ?v = "window_new_with_pane next (lit ''window-broken'') p (ss_cols s) (ss_rows s)"
    let ?s = "(put_window next ?v (put_window ?f v s))\<lparr>ss_focused_window_id := next\<rparr>"
    have "break_pane next s = Some (Inr next, wrap32 (next + 1), ?s)"
      by (simp add: break_pane_def assms(2) t Some new_window_id_def)
    moreover note session_ok_fresh_window [OF s1(1) fresh gone]
    moreover have "set (session_panes ?s) = set (session_panes s)"
      using session_ok_fresh_window(2) [OF s1(1) fresh gone] s1(2,4) by (simp add: insert_absorb)
    moreover have "set (map fst (ss_windows ?s)) = insert next (set (map fst (ss_windows s)))"
      using session_ok_add(3) [OF s1(1) fresh filed_ok_new [of _ "lit ''window-broken''" p]] gone s1(3) by simp
    moreover have "map_option pane_ids (session_window next ?s) = Some [w_focused_pane_id w]"
      by (simp add: session_window_def update_conv' p(1))
    ultimately show ?thesis by (intro exI [of _ "Inr next"] exI [of _ "wrap32 (next + 1)"] exI [of _ ?s]) simp
  qed
qed

text \<open>Moving and joining go through the windows alone: the focus may be gone in between.\<close>

lemma extract_pane_ok:
  assumes "windows_ok (ss_windows s)" "session_window src s = Some w" "p \<in> set (pane_ids w)"
  shows "\<exists>r s1. extract_pane p src w s = Some (r, s1) \<and>
    (case r of Inl _ \<Rightarrow> s1 = s
     | Inr q \<Rightarrow> fst q = p \<and> windows_ok (ss_windows s1) \<and> set (session_panes s1) = set (session_panes s) - {p}
         \<and> set (map fst (ss_windows s1)) \<subseteq> set (map fst (ss_windows s))
         \<and> set (map fst (ss_windows s)) - {src} \<subseteq> set (map fst (ss_windows s1)))"
proof -
  have sw: "map_of (ss_windows s) src = Some w" using assms(2) by (simp add: session_window_def)
  have w: "filed_ok src w" "window_ok w" "w_panes w \<noteq> []" and sub: "set (pane_ids w) \<subseteq> set (session_panes s)"
    using windows_okD [OF assms(1) sw] by (simp_all add: filed_ok_def)
  show ?thesis
  proof (cases "pane_count w \<le> 1")
    case True
    then obtain q where q: "w_panes w = [q]" "w_serial_panes w = []"
      using w(3) by (cases "w_panes w") (auto simp: pane_count_def)
    then have "fst q = p" "pane_ids w = [p]" using assms(3) by (auto simp: pane_ids_def)
    moreover have "extract_pane p src w s = Some (Inr q, drop_window src s)"
      using True q by (simp add: extract_pane_def into_single_pane_def)
    ultimately show ?thesis using windows_ok_delete [OF assms(1) sw]
      by (intro exI [of _ "Inr q"] exI [of _ "drop_window src s"]) (auto simp del: set_map)
  next
    case False
    obtain r v where t: "take_pane_by_id p (ss_cols s) (ss_rows s) w = Some (r, v)"
      and c: "case r of None \<Rightarrow> v = w
       | Some q \<Rightarrow> fst q = p \<and> map_of (w_panes w) p = Some (snd q) \<and> set (pane_ids v) = set (pane_ids w) - {p}"
      using take_pane_ok [OF w(2)] by blast
    show ?thesis
    proof (cases r)
      case None
      have "put_window src w s = s"
        using alist_at [OF sw, of w] assms(1) by (metis put_window_def session.surjective
            session.update_convs(2) windows_ok_def)
      with None False t c show ?thesis
        by (intro exI [of _ "Inl (CannotTake p src)"] exI [of _ s]) (simp add: extract_pane_def)
    next
      case (Some q)
      have q: "fst q = p" "set (pane_ids v) = set (pane_ids w) - {p}" using c unfolding Some option.case by blast+
      have v: "filed_ok src v" by (rule filed_ok_op [OF window_op.take [OF t] w(1)])
      have "extract_pane p src w s = Some (Inr q, put_window src v s)"
        using False t Some by (simp add: extract_pane_def)
      moreover have "windows_ok (ss_windows (put_window src v s))"
        "set (session_panes (put_window src v s)) = set (session_panes s) - {p}"
        "map fst (ss_windows (put_window src v s)) = map fst (ss_windows s)"
        using windows_ok_update [OF assms(1) sw v] q(2) sub assms(3) by auto
      ultimately show ?thesis using q(1)
        by (intro exI [of _ "Inr q"] exI [of _ "put_window src v s"]) (simp del: put_window_fields(1))
    qed
  qed
qed

lemma place_pane_ok:
  assumes "windows_ok (ss_windows s)" "fst q \<notin> set (session_panes s)"
    and "next \<notin> set (map fst (ss_windows s))" "target = 0 \<or> target \<in> set (map fst (ss_windows s))"
  shows "\<exists>i n s'. place_pane q target pos next s = (Inr i, n, s') \<and> windows_ok (ss_windows s')
    \<and> i = (if target = 0 then next else target) \<and> n = (if target = 0 then wrap32 (next + 1) else next)
    \<and> set (session_panes s') = insert (fst q) (set (session_panes s))
    \<and> set (map fst (ss_windows s')) = insert i (set (map fst (ss_windows s)))
    \<and> (\<exists>t. session_window i s' = Some t \<and> fst q \<in> set (pane_ids t))"
proof (cases "target = 0")
  case True
  let ?v = "window_new_with_pane next (lit ''window-torn'') q (ss_cols s) (ss_rows s)"
  note new = windows_ok_insert [OF assms(1,3) filed_ok_new [of "next" "lit ''window-torn''" q]]
  have "place_pane q target pos next s = (Inr next, wrap32 (next + 1), put_window next ?v s)"
    using True by (simp add: place_pane_def new_window_id_def)
  moreover have "session_window next (put_window next ?v s) = Some ?v"
    by (simp add: session_window_def update_conv')
  ultimately show ?thesis using new assms(2) True
    by (intro exI [of _ "next"] exI [of _ "wrap32 (next + 1)"] exI [of _ "put_window next ?v s"]) simp
next
  case False
  then obtain t where t: "map_of (ss_windows s) target = Some t"
    using assms(4) by (metis has_key_def has_key_iff not_None_eq)
  note D = windows_okD [OF assms(1) t]
  have q: "fst q \<notin> set (pane_ids t)" using D(2) assms(2) by blast
  let ?v = "insert_pane_at q (ss_cols s) (ss_rows s) Vertical pos t"
  have ids: "set (pane_ids ?v) = insert (fst q) (set (pane_ids t))"
    using pane_ids_insert [OF q] D(1) by (simp add: filed_ok_def)
  have v: "filed_ok target ?v" by (rule filed_ok_op [OF window_op.insert [OF q] D(1)])
  have "place_pane q target pos next s = (Inr target, next, put_window target ?v s)"
    using False t by (simp add: place_pane_def session_window_def)
  moreover have "session_window target (put_window target ?v s) = Some ?v"
    by (simp add: session_window_def update_conv')
  moreover have "set (panes_of (AList.update target ?v (ss_windows s))) = insert (fst q) (set (session_panes s))"
    "windows_ok (AList.update target ?v (ss_windows s))"
    "map fst (AList.update target ?v (ss_windows s)) = map fst (ss_windows s)"
    using windows_ok_update [OF assms(1) t v] ids D(2) assms(2) by auto
  ultimately show ?thesis using False D(3) ids
    by (intro exI [of _ target] exI [of _ "next"] exI [of _ "put_window target ?v s"])
      (simp add: insert_absorb del: set_map)
qed

lemma find_pane:
  assumes "windows_ok (ss_windows s)" "p \<in> set (session_panes s)"
  obtains src w where "List.find (\<lambda>(_, w). p \<in> set (pane_ids w)) (ss_windows s) = Some (src, w)"
    "session_window src s = Some w" "p \<in> set (pane_ids w)"
proof -
  obtain i w where "(i, w) \<in> set (ss_windows s)" "p \<in> set (pane_ids w)"
    using assms(2) by (auto simp: panes_of_def)
  then obtain x where x: "List.find (\<lambda>(_, w). p \<in> set (pane_ids w)) (ss_windows s) = Some x"
    by (cases "List.find (\<lambda>(_, w). p \<in> set (pane_ids w)) (ss_windows s)") (auto simp: find_None_iff)
  obtain src v where xv: "x = (src, v)" by (cases x)
  have "(src, v) \<in> set (ss_windows s)" "p \<in> set (pane_ids v)" using x xv by (auto simp: find_Some_iff) (metis nth_mem)
  moreover from this have "session_window src s = Some v"
    using assms(1) by (simp add: session_window_def windows_ok_def)
  ultimately show ?thesis using that x xv by blast
qed

definition moved :: "session \<Rightarrow> nat \<Rightarrow> nat \<Rightarrow> session \<Rightarrow> bool" where
  "moved s p i s' \<longleftrightarrow>
     session_ok s' \<and> set (session_panes s') = set (session_panes s) \<and> ss_focused_window_id s' = i
     \<and> (\<exists>t. session_window i s' = Some t \<and> p \<in> set (pane_ids t))"

lemma move_pane_ok:
  assumes "session_ok s" "next \<notin> set (map fst (ss_windows s))"
    and "target = 0 \<or> target \<in> set (map fst (ss_windows s))"
  shows "\<exists>r n s'. move_pane p target pos next s = Some (r, n, s') \<and>
    (case r of Inl _ \<Rightarrow> n = next \<and> s' = s
     | Inr (src, i, q) \<Rightarrow> q = p \<and> i = (if target = 0 then next else target)
         \<and> n = (if target = 0 then wrap32 (next + 1) else next)
         \<and> set (map fst (ss_windows s')) \<subseteq> insert i (set (map fst (ss_windows s)))
         \<and> moved s p i s')"
proof (cases "p \<in> set (session_panes s)")
  case False
  then have "List.find (\<lambda>(_, w). p \<in> set (pane_ids w)) (ss_windows s) = None"
    by (force simp: find_None_iff panes_of_def)
  then show ?thesis by (simp add: move_pane_def)
next
  case True
  have ok: "windows_ok (ss_windows s)" using assms(1) by (simp add: session_ok_def)
  obtain src w where f: "List.find (\<lambda>(_, w). p \<in> set (pane_ids w)) (ss_windows s) = Some (src, w)"
    and w: "session_window src s = Some w" "p \<in> set (pane_ids w)"
    by (rule find_pane [OF ok True])
  show ?thesis
  proof (cases "src = target")
    case same: True
    with f show ?thesis by (simp add: move_pane_def)
  next
    case other: False
    obtain r s1 where e: "extract_pane p src w s = Some (r, s1)"
      and c: "case r of Inl _ \<Rightarrow> s1 = s
       | Inr q \<Rightarrow> fst q = p \<and> windows_ok (ss_windows s1) \<and> set (session_panes s1) = set (session_panes s) - {p}
           \<and> set (map fst (ss_windows s1)) \<subseteq> set (map fst (ss_windows s))
           \<and> set (map fst (ss_windows s)) - {src} \<subseteq> set (map fst (ss_windows s1))"
      using extract_pane_ok [OF ok w] by blast
    show ?thesis
    proof (cases r)
      case (Inl err)
      with c f other e show ?thesis by (simp add: move_pane_def)
    next
      case (Inr q)
      have q: "fst q = p" and s1: "windows_ok (ss_windows s1)" "set (session_panes s1) = set (session_panes s) - {p}"
        "set (map fst (ss_windows s1)) \<subseteq> set (map fst (ss_windows s))"
        "set (map fst (ss_windows s)) - {src} \<subseteq> set (map fst (ss_windows s1))"
        using c unfolding Inr sum.case by blast+
      have "fst q \<notin> set (session_panes s1)" "next \<notin> set (map fst (ss_windows s1))"
        "target = 0 \<or> target \<in> set (map fst (ss_windows s1))"
        using q s1(2-4) assms(2,3) other by blast+
      from place_pane_ok [OF s1(1) this, of pos] obtain i n s2 where
        pl: "place_pane q target pos next s1 = (Inr i, n, s2)" and ok2: "windows_ok (ss_windows s2)"
        and i: "i = (if target = 0 then next else target)" and n: "n = (if target = 0 then wrap32 (next + 1) else next)"
        and ps: "set (session_panes s2) = insert (fst q) (set (session_panes s1))"
        and ks: "set (map fst (ss_windows s2)) = insert i (set (map fst (ss_windows s1)))"
        and t: "\<exists>t. session_window i s2 = Some t \<and> fst q \<in> set (pane_ids t)"
        by (elim exE conjE) (rule that, assumption+, blast)
      let ?s = "s2\<lparr>ss_focused_window_id := i\<rparr>"
      have "move_pane p target pos next s = Some (Inr (src, i, p), n, ?s)"
        using f other e Inr pl by (simp add: move_pane_def)
      moreover have "moved s p i ?s"
        unfolding moved_def session_ok_def using ok2 ks ps t s1(2) q True
        by (simp add: session_window_def insert_absorb del: set_map)
      moreover have "set (map fst (ss_windows ?s)) \<subseteq> insert i (set (map fst (ss_windows s)))"
        using ks s1(3) by auto
      ultimately show ?thesis using i n
        by (intro exI [of _ "Inr (src, i, p)"] exI [of _ n] exI [of _ ?s]) (simp del: set_map)
    qed
  qed
qed

text \<open>Joining is taking the focused pane and placing it at the end of the target.\<close>

lemma join_pane_ok:
  assumes "session_ok s" "focused_window s = Some w" "target \<in> set (map fst (ss_windows s))"
    and "w_focused_pane_id w \<notin> set (map fst (w_serial_panes w))"
  shows "\<exists>r s'. join_pane target s = Some (r, s') \<and>
    (case r of Inl _ \<Rightarrow> s' = s
     | Inr p \<Rightarrow> p = w_focused_pane_id w \<and> map fst (ss_windows s') = map fst (ss_windows s)
         \<and> moved s p target s')"
proof (cases "ss_focused_window_id s = target")
  case True
  then show ?thesis by (simp add: join_pane_def)
next
  case other: False
  let ?f = "ss_focused_window_id s"
  have sw: "session_window ?f s = Some w" using assms(2) by (simp add: focused_window_def)
  have w: "filed_ok ?f w" by (rule session_okD [OF assms(1) sw])
  then obtain r v where t: "take_focused_pane (ss_cols s) (ss_rows s) w = Some (r, v)"
    and c: "case r of None \<Rightarrow> v = w
     | Some p \<Rightarrow> fst p = w_focused_pane_id w \<and> fst p \<in> set (pane_ids w)
         \<and> set (pane_ids v) = set (pane_ids w) - {fst p}"
    using take_focused_ok [OF _ assms(4)] unfolding filed_ok_def by blast
  have v: "filed_ok ?f v" by (rule filed_ok_op [OF window_op.take_focused [OF assms(4) t] w])
  show ?thesis
  proof (cases r)
    case None
    with c assms(1,2) t other put_same [OF sw assms(1)] show ?thesis by (simp add: join_pane_def)
  next
    case (Some p)
    have p: "fst p = w_focused_pane_id w" "fst p \<in> set (pane_ids w)"
      "set (pane_ids v) = set (pane_ids w) - {fst p}" using c unfolding Some option.case by blast+
    let ?s1 = "put_window ?f v s"
    note s1 = session_ok_taken [OF assms(1) sw v p(2,3)]
    have ok: "windows_ok (ss_windows ?s1)" using s1(1) by (simp only: session_ok_def)
    obtain t where tt: "session_window target ?s1 = Some t"
      using assms(3) s1(3) by (metis has_key_def has_key_iff not_None_eq session_window_def)
    note D = windows_okD [OF ok tt [unfolded session_window_def]]
    have q: "fst p \<notin> set (pane_ids t)" using D(2) s1(2) by blast
    let ?v = "insert_pane p (ss_cols s) (ss_rows s) Vertical t"
    have ids: "set (pane_ids ?v) = insert (fst p) (set (pane_ids t))"
      using pane_ids_insert [OF q] D(1) by (simp add: filed_ok_def insert_pane_def)
    have fv: "filed_ok target ?v"
      unfolding insert_pane_def by (rule filed_ok_op [OF window_op.insert [OF q] D(1)])
    have new: "set (pane_ids ?v) \<inter> (set (session_panes ?s1) - set (pane_ids t)) = {}"
      using ids s1(2) by auto
    note s2 = session_ok_put [OF s1(1) tt fv new]
    let ?s2 = "(put_window target ?v ?s1)\<lparr>ss_focused_window_id := target\<rparr>"
    have "join_pane target s = Some (Inr (fst p), ?s2)"
      using other assms(2) t Some tt by (simp add: join_pane_def)
    moreover have "moved s (fst p) target ?s2"
    proof -
      have "session_ok ?s2" using s2(1,3) s1(3) assms(3) by (simp add: session_ok_def del: set_map put_window_fields(1))
      moreover have "set (session_panes ?s2) = set (session_panes s)"
        using s2(2) ids s1(2,4) D(2) by auto
      moreover have "session_window target ?s2 = Some ?v" by (simp add: session_window_def update_conv')
      ultimately show ?thesis using ids by (simp add: moved_def)
    qed
    moreover have "map fst (ss_windows ?s2) = map fst (ss_windows s)" using s2(3) s1(3) by simp
    ultimately show ?thesis using p(1)
      by (intro exI [of _ "Inr (fst p)"] exI [of _ ?s2]) (simp only: sum.case simp_thms)
  qed
qed

text \<open>
  A target that does not exist is found out after the pane was taken: the session loses the
  pane but stays well-formed, as long as its focused window is still there.
\<close>

lemma session_ok_focused: "windows_ok (ss_windows s) \<Longrightarrow> focused_window s \<noteq> None \<Longrightarrow> session_ok s"
  unfolding session_ok_def focused_window_def session_window_def has_key_def [symmetric] has_key_iff by simp

lemma move_nowhere_ok:
  assumes "session_ok s" "target \<noteq> 0" "target \<notin> set (map fst (ss_windows s))"
    and "move_pane p target pos next s = Some (r, n, s')" "focused_window s' \<noteq> None"
  shows "session_ok s' \<and> n = next \<and> set (map fst (ss_windows s')) \<subseteq> set (map fst (ss_windows s))"
proof (cases "p \<in> set (session_panes s)")
  case False
  then have "List.find (\<lambda>(_, w). p \<in> set (pane_ids w)) (ss_windows s) = None"
    by (force simp: find_None_iff panes_of_def)
  then show ?thesis using assms(1,4) by (simp add: move_pane_def)
next
  case True
  have ok: "windows_ok (ss_windows s)" using assms(1) by (simp add: session_ok_def)
  obtain src w where f: "List.find (\<lambda>(_, w). p \<in> set (pane_ids w)) (ss_windows s) = Some (src, w)"
    and w: "session_window src s = Some w" "p \<in> set (pane_ids w)"
    by (rule find_pane [OF ok True])
  obtain x s1 where e: "extract_pane p src w s = Some (x, s1)"
    and c: "case x of Inl _ \<Rightarrow> s1 = s
       | Inr q \<Rightarrow> fst q = p \<and> windows_ok (ss_windows s1) \<and> set (session_panes s1) = set (session_panes s) - {p}
           \<and> set (map fst (ss_windows s1)) \<subseteq> set (map fst (ss_windows s))
           \<and> set (map fst (ss_windows s)) - {src} \<subseteq> set (map fst (ss_windows s1))"
    using extract_pane_ok [OF ok w] by blast
  have "src \<noteq> target" using windows_okD(3) [OF ok w(1) [unfolded session_window_def]] assms(3) by blast
  moreover have "session_window target s1 = None" if "x = Inr q" for q
    using that c assms(3) by (auto simp: session_window_def map_of_eq_None_iff)
  ultimately have s': "n = next" "s' = s1" using assms(2,4) f e
    by (auto simp: move_pane_def place_pane_def split: sum.splits)
  show ?thesis using c assms(1,5) session_ok_focused [of s1] s' by (cases x) (simp_all del: set_map)
qed

lemma join_nowhere_ok:
  assumes "session_ok s" "focused_window s = Some w" "target \<notin> set (map fst (ss_windows s))"
    and "w_focused_pane_id w \<notin> set (map fst (w_serial_panes w))"
    and "join_pane target s = Some (r, s')"
  shows "session_ok s' \<and> map fst (ss_windows s') = map fst (ss_windows s)"
proof -
  let ?f = "ss_focused_window_id s"
  have sw: "session_window ?f s = Some w" using assms(2) by (simp add: focused_window_def)
  have w: "filed_ok ?f w" by (rule session_okD [OF assms(1) sw])
  then obtain x v where t: "take_focused_pane (ss_cols s) (ss_rows s) w = Some (x, v)"
    and c: "case x of None \<Rightarrow> v = w
     | Some p \<Rightarrow> fst p = w_focused_pane_id w \<and> fst p \<in> set (pane_ids w)
         \<and> set (pane_ids v) = set (pane_ids w) - {fst p}"
    using take_focused_ok [OF _ assms(4)] unfolding filed_ok_def by blast
  have v: "filed_ok ?f v" by (rule filed_ok_op [OF window_op.take_focused [OF assms(4) t] w])
  have other: "?f \<noteq> target" using assms(1,3) by (auto simp: session_ok_def has_key_iff)
  show ?thesis
  proof (cases x)
    case None
    with c assms t other put_same [OF sw assms(1)] show ?thesis by (simp add: join_pane_def)
  next
    case (Some p)
    have p: "fst p \<in> set (pane_ids w)" "set (pane_ids v) = set (pane_ids w) - {fst p}"
      using c unfolding Some option.case by blast+
    note s1 = session_ok_taken [OF assms(1) sw v p]
    have "session_window target (put_window ?f v s) = None"
      using assms(3) unfolding s1(3) [symmetric] session_window_def map_of_eq_None_iff set_map .
    then show ?thesis using assms(2,5) t other Some s1(1,3) by (simp add: join_pane_def)
  qed
qed

end
