(* ===== verification/Session_Reach.thy ===== *)
theory Session_Reach
  imports Session_Life
begin

text \<open>
  The remaining operations of a session, the sessions that operations can produce, and where
  the operations depart from their contract.
\<close>

section \<open>The remaining operations\<close>

lemma session_ok_focus:
  "session_ok s \<Longrightarrow> i \<in> set (map fst (ss_windows s)) \<Longrightarrow> session_ok (s\<lparr>ss_focused_window_id := i\<rparr>)"
  by (simp add: session_ok_def)

lemma filed_ok_single: "filed_ok i (window_single i name p cols rows)"
  by (simp add: filed_ok_def window_ok_single) (simp add: window_single_def)

lemma new_in_workspace_ok:
  assumes "new_in_workspace name cols rows shell args ws (Inr pane) next = (r, n)"
  shows "\<exists>s. r = Inr s \<and> session_ok s \<and> session_panes s = [pane] \<and> map fst (ss_windows s) = [next]
    \<and> n = wrap32 (next + 1) \<and> ss_name s = name \<and> ss_workspace_name s = ws"
  using assms filed_ok_single
  by (auto simp: new_in_workspace_def new_window_id_def spawn_window_def session_ok_def windows_ok_def panes_of_def)

lemma add_window_ok:
  assumes "session_ok s" "next \<notin> set (map fst (ss_windows s))" "pane \<notin> set (session_panes s)"
    and "add_window (Inr pane) next s = (r, n, s')"
  shows "r = Inr next \<and> n = wrap32 (next + 1) \<and> session_ok s'
    \<and> set (session_panes s') = insert pane (set (session_panes s))
    \<and> map fst (ss_windows s') = map fst (ss_windows s) @ [next] \<and> ss_focused_window_id s' = next"
proof -
  let ?v = "window_single next (lit ''window-'' @ dec next) (pane, (ss_cols s, ss_rows s)) (ss_cols s) (ss_rows s)"
  have "s' = (put_window next ?v s)\<lparr>ss_focused_window_id := next\<rparr>" "r = Inr next" "n = wrap32 (next + 1)"
    using assms(4) by (simp_all add: add_window_def new_window_id_def spawn_window_def)
  with session_ok_add [OF assms(1,2) filed_ok_single, of "lit ''window-'' @ dec next" "(pane, (ss_cols s, ss_rows s))"]
    assms(3) show ?thesis by simp
qed

definition picks :: "(nat list \<Rightarrow> nat) \<Rightarrow> bool" where
  "picks pick \<longleftrightarrow> (\<forall>xs. xs \<noteq> [] \<longrightarrow> pick xs \<in> set xs)"

lemma remove_window_ok:
  assumes "session_ok s" "picks pick" "remove_window pick i s = (r, s')"
  shows "session_ok s' \<and>
    (case r of
       Inl _ \<Rightarrow> s' = s \<and> (length (ss_windows s) \<le> 1 \<or> i \<notin> set (map fst (ss_windows s)))
     | Inr _ \<Rightarrow> map fst (ss_windows s') = filter (\<lambda>j. j \<noteq> i) (map fst (ss_windows s))
         \<and> (ss_focused_window_id s \<noteq> i \<longrightarrow> ss_focused_window_id s' = ss_focused_window_id s))"
proof (cases "length (ss_windows s) \<le> 1 \<or> \<not> has_key i (ss_windows s)")
  case True
  have "remove_window pick i s = (Inl CannotRemoveLast, s) \<or> remove_window pick i s = (Inl (WindowNotFound i), s)"
    using True by (auto simp: remove_window_def)
  with True assms show ?thesis by (auto simp: has_key_iff simp del: set_map)
next
  case False
  then obtain w where w: "map_of (ss_windows s) i = Some w" by (auto simp: has_key_def)
  have ok: "windows_ok (ss_windows s)" using assms(1) by (simp add: session_ok_def)
  note del = windows_ok_delete [OF ok w]
  have two: "1 < length (map fst (ss_windows s))" and d: "distinct (map fst (ss_windows s))"
    using False ok by (simp_all add: windows_ok_def)
  then have ne: "filter (\<lambda>j. j \<noteq> i) (map fst (ss_windows s)) \<noteq> []"
    by (cases "map fst (ss_windows s)" rule: remdups_adj.cases) auto
  have "remove_window pick i s = (Inr (), if ss_focused_window_id s = i
      then (drop_window i s)\<lparr>ss_focused_window_id := pick (map fst (ss_windows (drop_window i s)))\<rparr>
      else drop_window i s)"
    using False by (simp add: remove_window_def)
  moreover have "pick (map fst (ss_windows (drop_window i s))) \<in> set (map fst (ss_windows (drop_window i s)))"
    using assms(2) ne del(3) unfolding picks_def drop_window_fields by metis
  ultimately show ?thesis using assms(1,3) del
    by (auto simp: session_ok_def simp del: set_map)
qed

lemma rename_window_ok:
  assumes "session_ok s"
  shows "session_ok (snd (rename_window i name s))"
    and "session_panes (snd (rename_window i name s)) = session_panes s"
    and "map fst (ss_windows (snd (rename_window i name s))) = map fst (ss_windows s)"
proof -
  have "session_ok (snd (rename_window i name s))
    \<and> session_panes (snd (rename_window i name s)) = session_panes s
    \<and> map fst (ss_windows (snd (rename_window i name s))) = map fst (ss_windows s)"
  proof (cases "session_window i s")
    case (Some w)
    let ?v = "w\<lparr>w_name := name\<rparr>"
    have v: "filed_ok i ?v"
      by (rule filed_ok_op [OF window_op.rename session_okD(1) [OF assms Some]])
    have ids: "pane_ids ?v = pane_ids w" by (simp add: pane_ids_def)
    have "distinct (map fst (ss_windows s))" using assms by (simp add: session_ok_def windows_ok_def)
    from alist_at [OF Some [unfolded session_window_def] this, of ?v] obtain us vs where
      "ss_windows s = us @ (i, w) # vs" "AList.update i ?v (ss_windows s) = us @ (i, ?v) # vs" by metis
    then have "session_panes (put_window i ?v s) = session_panes s" using ids by (simp add: panes_of_def)
    with session_ok_put [OF assms Some v] ids Some show ?thesis
      by (simp add: rename_window_def del: put_window_fields(1))
  qed (simp add: rename_window_def assms)
  then show "session_ok (snd (rename_window i name s))"
    "session_panes (snd (rename_window i name s)) = session_panes s"
    "map fst (ss_windows (snd (rename_window i name s))) = map fst (ss_windows s)" by blast+
qed

text \<open>An operation on the focused window.\<close>

lemma on_focused_ok:
  assumes "session_ok s" "focused_window s = Some w" "filed_ok (ss_focused_window_id s) v"
    and "set (pane_ids v) \<inter> (set (session_panes s) - set (pane_ids w)) = {}"
  shows "session_ok (put_window (ss_focused_window_id s) v s)"
    and "map fst (ss_windows (put_window (ss_focused_window_id s) v s)) = map fst (ss_windows s)"
  using session_ok_put [OF assms(1) _ assms(3,4)] assms(2) by (simp_all add: focused_window_def)

lemma session_ok_size [simp]: "session_ok (s\<lparr>ss_cols := c, ss_rows := r\<rparr>) = session_ok s"
  by (simp add: session_ok_def)

lemma session_ok_broadcast [simp]: "session_ok (set_broadcast b s) = session_ok s"
  by (simp add: session_ok_def set_broadcast_def)

lemma resize_focused_eq:
  assumes "session_ok s"
  obtains w where "focused_window s = Some w" "resize_focused cols rows s = (Inr (),
    put_window (ss_focused_window_id s) (resize_all_panes cols rows w) (s\<lparr>ss_cols := cols, ss_rows := rows\<rparr>))"
proof -
  obtain w where w: "focused_window s = Some w" using session_focus [OF assms] by blast
  then have "focused_window (s\<lparr>ss_cols := cols, ss_rows := rows\<rparr>) = Some w"
    by (simp add: focused_window_def session_window_def)
  with that w show ?thesis by (simp add: resize_focused_def)
qed

lemma resize_focused_ok:
  assumes "session_ok s" "resize_focused cols rows s = (r, s')"
  shows "session_ok s' \<and> map fst (ss_windows s') = map fst (ss_windows s)"
proof -
  let ?s = "s\<lparr>ss_cols := cols, ss_rows := rows\<rparr>"
  obtain w where w: "focused_window s = Some w" and e: "s' =
    put_window (ss_focused_window_id s) (resize_all_panes cols rows w) ?s"
    using resize_focused_eq [OF assms(1), of cols rows] assms(2) by auto
  have "focused_window ?s = Some w" using w by (simp add: focused_window_def session_window_def)
  moreover have "filed_ok (ss_focused_window_id s) (resize_all_panes cols rows w)"
    using filed_ok_op [OF window_op.resize] session_okD(1) [OF assms(1)] w by (simp add: focused_window_def)
  ultimately show ?thesis using on_focused_ok [of ?s w "resize_all_panes cols rows w"] assms(1)
    unfolding e by simp
qed

section \<open>Restoring\<close>

text \<open>The snapshots the server writes: ids are not repeated and every focus is a pane.\<close>

definition snapshot_ok :: "'c session_snapshot \<Rightarrow> bool" where
  "snapshot_ok snap \<longleftrightarrow>
     distinct (map ws_id (sn_windows snap))
     \<and> distinct (concat (map (\<lambda>w. collect_pane_ids (ws_layout w)) (sn_windows snap)))
     \<and> list_all (\<lambda>w. ws_focused_pane_id w \<in> set (collect_pane_ids (ws_layout w))) (sn_windows snap)"

lemma window_restore_filed:
  assumes "window_restore spawn_ok snap cols rows = Some v"
    and "ws_focused_pane_id snap \<in> set (collect_pane_ids (ws_layout snap))"
  shows "filed_ok (ws_id snap) v" "pane_ids v = collect_pane_ids (ws_layout snap)"
proof -
  show ids: "pane_ids v = collect_pane_ids (ws_layout snap)" by (rule window_restore_Some [OF assms(1)])
  have "w_id v = ws_id snap" "w_serial_panes v = []"
    using assms(1) by (auto simp: window_restore_def Let_def split: option.splits if_splits)
  moreover have "collect_pane_ids (ws_layout snap) \<noteq> []" using assms(2) by auto
  ultimately show "filed_ok (ws_id snap) v"
    using ids assms(2) window_restore_ok [OF assms(1)] by (auto simp: filed_ok_def pane_ids_def)
qed

lemma restore_windows_ok:
  assumes "windows_ok ws" "distinct (map fst ws @ map ws_id snaps)"
    and "distinct (panes_of ws @ concat (map (\<lambda>w. collect_pane_ids (ws_layout w)) snaps))"
    and "list_all (\<lambda>w. ws_focused_pane_id w \<in> set (collect_pane_ids (ws_layout w))) snaps"
  shows "windows_ok (fold (restore_window spawn_ok cols rows) snaps ws)
    \<and> set (map fst (fold (restore_window spawn_ok cols rows) snaps ws)) \<subseteq> set (map fst ws) \<union> set (map ws_id snaps)
    \<and> set (panes_of (fold (restore_window spawn_ok cols rows) snaps ws)) \<subseteq>
        set (panes_of ws) \<union> set (concat (map (\<lambda>w. collect_pane_ids (ws_layout w)) snaps))"
  using assms
proof (induction snaps arbitrary: ws)
  case (Cons snap snaps)
  show ?case
  proof (cases "window_restore spawn_ok snap cols rows")
    case None
    have "distinct (map fst ws @ map ws_id snaps)"
      "distinct (panes_of ws @ concat (map (\<lambda>w. collect_pane_ids (ws_layout w)) snaps))"
      "list_all (\<lambda>w. ws_focused_pane_id w \<in> set (collect_pane_ids (ws_layout w))) snaps"
      using Cons.prems(2-4) by auto
    from Cons.IH [OF Cons.prems(1) this] None show ?thesis by (auto simp: restore_window_def)
  next
    case (Some v)
    have foc: "ws_focused_pane_id snap \<in> set (collect_pane_ids (ws_layout snap))" using Cons.prems(4) by simp
    note v = window_restore_filed [OF Some foc]
    have i: "ws_id snap \<notin> set (map fst ws)" using Cons.prems(2) by auto
    have fresh: "set (pane_ids v) \<inter> set (panes_of ws) = {}" using Cons.prems(3) v(2) by auto
    note ins = windows_ok_insert [OF Cons.prems(1) i v(1) fresh]
    let ?ws = "AList.update (ws_id snap) v ws"
    have app: "panes_of ?ws = panes_of ws @ pane_ids v" by (simp only: update_fresh [OF i] panes_of_def) simp
    then have "distinct (map fst ?ws @ map ws_id snaps)"
      "distinct (panes_of ?ws @ concat (map (\<lambda>w. collect_pane_ids (ws_layout w)) snaps))"
      "list_all (\<lambda>w. ws_focused_pane_id w \<in> set (collect_pane_ids (ws_layout w))) snaps"
      using Cons.prems(2-4) ins(3) v(2) by auto
    from Cons.IH [OF ins(1) this] Some ins(3) app v(2) show ?thesis
      by (auto simp: restore_window_def simp del: set_map)
  qed
qed simp

lemma session_restore_ok:
  assumes "session_restore pick spawn_ok snap = Inr s" "snapshot_ok snap" "picks pick"
  shows "session_ok s \<and> set (map fst (ss_windows s)) \<subseteq> set (map ws_id (sn_windows snap))
    \<and> set (session_panes s) \<subseteq> set (concat (map (\<lambda>w. collect_pane_ids (ws_layout w)) (sn_windows snap)))"
proof -
  let ?ws = "fold (restore_window spawn_ok (sn_cols snap) (sn_rows snap)) (sn_windows snap) []"
  have ne: "?ws \<noteq> []" and ws: "ss_windows s = ?ws"
    and foc: "ss_focused_window_id s = (if has_key (sn_focused_window_id snap) ?ws
      then sn_focused_window_id snap else pick (map fst ?ws))"
    using assms(1) by (auto simp: session_restore_def Let_def split: if_splits)
  have "windows_ok ?ws \<and> set (map fst ?ws) \<subseteq> set (map ws_id (sn_windows snap))
    \<and> set (panes_of ?ws) \<subseteq> set (concat (map (\<lambda>w. collect_pane_ids (ws_layout w)) (sn_windows snap)))"
    using restore_windows_ok [of "[]" "sn_windows snap" spawn_ok] assms(2)
    by (simp add: snapshot_ok_def windows_ok_def panes_of_def)
  moreover have "pick (map fst ?ws) \<in> set (map fst ?ws)" using assms(3) ne by (simp add: picks_def del: set_map)
  ultimately show ?thesis unfolding session_ok_def ws foc by (auto simp: has_key_iff simp del: set_map)
qed

section \<open>The operations as steps\<close>

text \<open>
  A step takes the value of the window counter, which other sessions may have advanced.
  Window operations act on the focused window with pane ids that are new to the session.
  A move or a join to a window that does not exist is a step too, and loses its pane.  Not
  steps, because the source then leaves a session that is not well-formed: breaking or joining
  while a serial pane is focused, and moving the last pane of the focused window to a window
  that does not exist, which leaves no focused window (\<open>move_last_pane\<close>).  The window
  counter, of 32 bits, must not wrap around.
\<close>

inductive session_op :: "nat \<Rightarrow> session \<Rightarrow> nat \<Rightarrow> session \<Rightarrow> bool" where
  add: "n < u32_max \<Longrightarrow> (\<And>i. spawned = Inr i \<Longrightarrow> i \<notin> set (session_panes s)) \<Longrightarrow>
    add_window spawned n s = (r, n', s') \<Longrightarrow> session_op n s n' s'"
| remove: "picks pick \<Longrightarrow> remove_window pick i s = (q, s') \<Longrightarrow> session_op n s n s'"
| focus: "session_op n s n (snd (focus_window i s))"
| rename: "session_op n s n (snd (rename_window i name s))"
| break: "n < u32_max \<Longrightarrow> focused_window s = Some w \<Longrightarrow>
    w_focused_pane_id w \<notin> set (map fst (w_serial_panes w)) \<Longrightarrow>
    break_pane n s = Some (r, n', s') \<Longrightarrow> session_op n s n' s'"
| move: "n < u32_max \<Longrightarrow> target = 0 \<or> target \<in> set (map fst (ss_windows s)) \<Longrightarrow>
    move_pane p target pos n s = Some (t, n', s') \<Longrightarrow> session_op n s n' s'"
| join: "target \<in> set (map fst (ss_windows s)) \<Longrightarrow> focused_window s = Some w \<Longrightarrow>
    w_focused_pane_id w \<notin> set (map fst (w_serial_panes w)) \<Longrightarrow>
    join_pane target s = Some (r, s') \<Longrightarrow> session_op n s n s'"
| move_nowhere: "target \<noteq> 0 \<Longrightarrow> target \<notin> set (map fst (ss_windows s)) \<Longrightarrow>
    move_pane p target pos n s = Some (t, n', s') \<Longrightarrow> focused_window s' \<noteq> None \<Longrightarrow> session_op n s n' s'"
| join_nowhere: "target \<notin> set (map fst (ss_windows s)) \<Longrightarrow> focused_window s = Some w \<Longrightarrow>
    w_focused_pane_id w \<notin> set (map fst (w_serial_panes w)) \<Longrightarrow>
    join_pane target s = Some (r, s') \<Longrightarrow> session_op n s n s'"
| resize: "resize_focused cols rows s = (q, s') \<Longrightarrow> session_op n s n s'"
| broadcast: "session_op n s n (set_broadcast b s)"
| inside: "focused_window s = Some w \<Longrightarrow> window_op w v \<Longrightarrow>
    set (pane_ids v) \<inter> (set (session_panes s) - set (pane_ids w)) = {} \<Longrightarrow>
    session_op n s n (put_window (ss_focused_window_id s) v s)"

definition counted :: "nat \<Rightarrow> session \<Rightarrow> bool" where
  "counted n s \<longleftrightarrow> (\<forall>i \<in> set (map fst (ss_windows s)). i < n)"

lemma counted_fresh: "counted n s \<Longrightarrow> n \<notin> set (map fst (ss_windows s))"
  by (auto simp: counted_def)

lemma counted_mono: "counted n s \<Longrightarrow> n \<le> m \<Longrightarrow> set (map fst (ss_windows s')) \<subseteq> set (map fst (ss_windows s)) \<Longrightarrow> counted m s'"
  unfolding counted_def by (meson less_le_trans subsetD)

lemma counted_Suc:
  "counted n s \<Longrightarrow> set (map fst (ss_windows s')) \<subseteq> insert n (set (map fst (ss_windows s))) \<Longrightarrow> counted (n + 1) s'"
  unfolding counted_def by (auto simp del: set_map intro: less_SucI)

lemma wrap_next: "n < u32_max \<Longrightarrow> wrap32 (n + 1) = n + 1"
  by (simp add: u32_max_def)

lemma session_op_ok: "session_op n s n' s' \<Longrightarrow> session_ok s \<Longrightarrow> counted n s \<Longrightarrow> session_ok s' \<and> counted n' s' \<and> n \<le> n'"
proof (induction rule: session_op.induct)
  case (add n spawned s r n' s')
  show ?case
  proof (cases spawned)
    case (Inl e)
    then have "n' = n + 1" "s' = s" using add.hyps(3) wrap_next [OF add.hyps(1)]
      by (simp_all add: add_window_def new_window_id_def spawn_window_def)
    with add.prems show ?thesis using counted_mono [of n s "n + 1" s] by simp
  next
    case (Inr i)
    with add.hyps(2) have "i \<notin> set (session_panes s)" by simp
    from add_window_ok [OF add.prems(1) counted_fresh [OF add.prems(2)] this add.hyps(3) [unfolded Inr]]
      wrap_next [OF add.hyps(1)]
    show ?thesis using counted_Suc [OF add.prems(2), of s'] by (simp del: set_map)
  qed
next
  case (remove pick i s q s' n)
  then show ?case using remove_window_ok [OF _ remove.hyps] counted_mono [of n s n s']
    by (cases q) (auto simp del: set_map)
next
  case (focus n s i)
  then show ?case by (auto simp: focus_window_def session_ok_focus has_key_iff counted_def simp del: set_map)
next
  case (rename n s i name)
  then show ?case using rename_window_ok [of s i name] by (simp add: counted_def del: set_map)
next
  case (break n s w r n' s')
  note ok = break.prems(1) and cnt = break.prems(2)
  from break_pane_ok [OF ok break.hyps(2) counted_fresh [OF cnt] break.hyps(3)] break.hyps(4)
  have sok: "session_ok s'" and c: "case r of Inl _ \<Rightarrow> n' = n \<and> s' = s
      | Inr i \<Rightarrow> i = n \<and> n' = wrap32 (n + 1)
          \<and> set (map fst (ss_windows s')) = insert n (set (map fst (ss_windows s)))
          \<and> ss_focused_window_id s' = n
          \<and> map_option pane_ids (session_window n s') = Some [w_focused_pane_id w]"
    by (auto simp del: set_map)
  show ?case using sok c cnt counted_Suc [OF cnt, of s'] wrap_next [OF break.hyps(1)]
    by (cases r) (simp_all del: set_map)
next
  case (move n target s p pos t n' s')
  note ok = move.prems(1) and cnt = move.prems(2)
  from move_pane_ok [OF ok counted_fresh [OF cnt] move.hyps(2), of p pos] move.hyps(3)
  have c: "case t of Inl _ \<Rightarrow> n' = n \<and> s' = s
     | Inr (src, i, q) \<Rightarrow> q = p \<and> i = (if target = 0 then n else target)
         \<and> n' = (if target = 0 then wrap32 (n + 1) else n)
         \<and> set (map fst (ss_windows s')) \<subseteq> insert i (set (map fst (ss_windows s)))
         \<and> moved s p i s'" by (auto simp del: set_map)
  show ?case
  proof (cases t)
    case (Inr x)
    obtain src i q where x: "x = (src, i, q)" by (cases x)
    have i: "i = (if target = 0 then n else target)" "n' = (if target = 0 then wrap32 (n + 1) else n)"
      and ks: "set (map fst (ss_windows s')) \<subseteq> insert i (set (map fst (ss_windows s)))"
      and m: "moved s p i s'"
      using c unfolding Inr x sum.case prod.case by blast+
    note i = i [unfolded wrap_next [OF move.hyps(1)]]
    have "counted n' s' \<and> n \<le> n'"
    proof (cases "target = 0")
      case True
      with i ks show ?thesis using counted_Suc [OF cnt, of s'] by (simp del: set_map)
    next
      case False
      with i ks move.hyps(2) show ?thesis using counted_mono [OF cnt order_refl, of s'] by (auto simp del: set_map)
    qed
    with m show ?thesis by (simp add: moved_def)
  qed (use c ok cnt in simp)
next
  case (join target s w r s' n)
  note ok = join.prems(1) and cnt = join.prems(2)
  from join_pane_ok [OF ok join.hyps(2,1,3)] join.hyps(4)
  have c: "case r of Inl _ \<Rightarrow> s' = s
     | Inr p \<Rightarrow> p = w_focused_pane_id w \<and> map fst (ss_windows s') = map fst (ss_windows s)
         \<and> moved s p target s'" by (auto simp del: set_map)
  then show ?case using ok cnt counted_mono [OF cnt order_refl, of s']
    by (cases r) (simp_all add: moved_def del: set_map)
next
  case (move_nowhere target s p pos n t n' s')
  from move_nowhere_ok [OF move_nowhere.prems(1) move_nowhere.hyps] move_nowhere.prems(2) show ?case
    using counted_mono [of n s n s'] by (simp del: set_map)
next
  case (join_nowhere target s w r s' n)
  from join_nowhere_ok [OF join_nowhere.prems(1) join_nowhere.hyps(2,1,3,4)] join_nowhere.prems(2) show ?case
    using counted_mono [of n s n s'] by (simp del: set_map)
next
  case (resize cols rows s q s' n)
  then show ?case using resize_focused_ok [OF resize.prems(1) resize.hyps] counted_mono [of n s n s'] by (simp del: set_map)
next
  case (broadcast n s b)
  then show ?case by (simp add: counted_def set_broadcast_def session_ok_def)
next
  case (inside s w v n)
  have "session_window (ss_focused_window_id s) s = Some w" using inside.hyps(1) by (simp add: focused_window_def)
  then have "filed_ok (ss_focused_window_id s) v"
    using filed_ok_op [OF inside.hyps(2)] session_okD(1) inside.prems(1) by blast
  from on_focused_ok [OF inside.prems(1) inside.hyps(1) this inside.hyps(3)] inside.prems(2) show ?case
    by (simp add: counted_def del: set_map put_window_fields(1))
qed

text \<open>No operation touches the name of the session or its workspace.\<close>

lemma put_window_names [simp]:
  "ss_name (put_window i w s) = ss_name s" "ss_workspace_name (put_window i w s) = ss_workspace_name s"
  by (simp_all add: put_window_def)

lemma drop_window_names [simp]:
  "ss_name (drop_window i s) = ss_name s" "ss_workspace_name (drop_window i s) = ss_workspace_name s"
  by (simp_all add: drop_window_def)

lemma extract_pane_names:
  "extract_pane p src w s = Some (r, s1) \<Longrightarrow> ss_name s1 = ss_name s \<and> ss_workspace_name s1 = ss_workspace_name s"
  by (auto simp: extract_pane_def split: if_splits option.splits)

lemma place_pane_names:
  "place_pane q target pos next s = (r, n, s1) \<Longrightarrow> ss_name s1 = ss_name s \<and> ss_workspace_name s1 = ss_workspace_name s"
  by (auto simp: place_pane_def new_window_id_def split: if_splits option.splits)

lemma session_op_names:
  "session_op n s n' s' \<Longrightarrow> ss_name s' = ss_name s \<and> ss_workspace_name s' = ss_workspace_name s"
proof (induction rule: session_op.induct)
  case (add n spawned s r n' s')
  then show ?case by (auto simp: add_window_def new_window_id_def spawn_window_def split: sum.splits)
next
  case (remove pick i s q s' n)
  then show ?case by (auto simp: remove_window_def Let_def split: if_splits)
next
  case (break n s w r n' s')
  then show ?case by (auto simp: break_pane_def new_window_id_def split: option.splits)
next
  case (move n target s p pos t n' s')
  then show ?case using extract_pane_names place_pane_names
    by (auto simp: move_pane_def split: option.splits if_splits sum.splits prod.splits)
next
  case (join target s w r s' n)
  then show ?case by (auto simp: join_pane_def Let_def split: option.splits if_splits)
next
  case (move_nowhere target s p pos n t n' s')
  then show ?case using extract_pane_names place_pane_names
    by (auto simp: move_pane_def split: option.splits if_splits sum.splits prod.splits)
next
  case (join_nowhere target s w r s' n)
  then show ?case by (auto simp: join_pane_def Let_def split: option.splits if_splits)
next
  case (resize cols rows s q s' n)
  then show ?case by (auto simp: resize_focused_def Let_def split: option.splits)
qed (simp_all add: focus_window_def rename_window_def set_broadcast_def split: option.split)

section \<open>Reachable sessions\<close>

inductive session_reach :: "nat \<Rightarrow> session \<Rightarrow> bool" where
  created: "n < u32_max \<Longrightarrow> new_in_workspace name cols rows shell args ws (Inr pane) n = (Inr s, n') \<Longrightarrow>
    session_reach n' s"
| restored: "session_restore pick spawn_ok (snap :: string session_snapshot) = Inr s \<Longrightarrow> snapshot_ok snap \<Longrightarrow>
    picks pick \<Longrightarrow> list_all (\<lambda>w. ws_id w < n) (sn_windows snap) \<Longrightarrow> session_reach n s"
| advanced: "session_reach n s \<Longrightarrow> n \<le> m \<Longrightarrow> session_reach m s"
| step: "session_reach n s \<Longrightarrow> session_op n s n' s' \<Longrightarrow> session_reach n' s'"

lemma session_reach_ok: "session_reach n s \<Longrightarrow> session_ok s \<and> counted n s"
proof (induction rule: session_reach.induct)
  case (created n name cols rows shell args ws pane s n')
  then show ?case using new_in_workspace_ok [OF created(2)] wrap_next by (auto simp: counted_def simp del: set_map)
next
  case (restored pick spawn_ok snap s n)
  then show ?case using session_restore_ok [OF restored(1-3)]
    by (auto simp: counted_def list_all_iff simp del: set_map) (auto)
next
  case (advanced n s m)
  then show ?case using counted_mono by blast
next
  case (step n s n' s')
  then show ?case using session_op_ok by blast
qed

section \<open>Saving and restoring\<close>

definition same_saved :: "nat \<times> window \<Rightarrow> nat \<times> window \<Rightarrow> bool" where
  "same_saved a b \<longleftrightarrow>
     fst b = fst a \<and> w_id (snd b) = w_id (snd a) \<and> w_name (snd b) = w_name (snd a)
     \<and> w_layout (snd b) = w_layout (snd a) \<and> w_focused_pane_id (snd b) = w_focused_pane_id (snd a)"

lemma restore_own_windows:
  assumes "list_all (\<lambda>(i, w). filed_ok i w) ws" "distinct (map fst (acc @ ws))"
  shows "\<exists>ws'. fold (restore_window (\<lambda>_ _. True) cols rows) (map (\<lambda>e. window_to_snapshot cwd (snd e)) ws) acc = acc @ ws'
    \<and> list_all2 same_saved ws ws'"
  using assms
proof (induction ws arbitrary: acc)
  case (Cons e ws)
  obtain i w where e: "e = (i, w)" by (cases e)
  have w: "window_ok w" "w_id w = i" using Cons.prems(1) by (simp_all add: e filed_ok_def)
  from restore_own [OF w(1)] obtain v where
    v: "window_restore (\<lambda>_ _. True) (window_to_snapshot cwd w) cols rows = Some v"
    "w_id v = w_id w" "w_name v = w_name w" "w_layout v = w_layout w" "w_focused_pane_id v = w_focused_pane_id w"
    by blast
  have "ws_id (window_to_snapshot cwd w) = i" using w(2) by (simp add: window_to_snapshot_def)
  moreover have "AList.update i v acc = acc @ [(i, v)]" using Cons.prems(2) by (intro update_fresh) (simp add: e)
  ultimately have step: "restore_window (\<lambda>_ _. True) cols rows (window_to_snapshot cwd w) acc = acc @ [(i, v)]"
    by (simp add: restore_window_def v(1))
  have "list_all (\<lambda>(i, w). filed_ok i w) ws" "distinct (map fst ((acc @ [(i, v)]) @ ws))"
    using Cons.prems by (simp_all add: e)
  from Cons.IH [OF this] obtain ws' where
    "fold (restore_window (\<lambda>_ _. True) cols rows) (map (\<lambda>e. window_to_snapshot cwd (snd e)) ws) (acc @ [(i, v)])
      = (acc @ [(i, v)]) @ ws'" "list_all2 same_saved ws ws'" by blast
  moreover have "same_saved e (i, v)" using v(2-5) by (simp add: same_saved_def e)
  ultimately show ?case using step
    by (intro exI [of _ "(i, v) # ws'"]) (simp add: e)
qed simp

lemma same_saved_keys: "list_all2 same_saved ws ws' \<Longrightarrow> map fst ws' = map fst ws"
  by (induction rule: list_all2_induct) (auto simp: same_saved_def)

lemma session_restore_own:
  assumes "session_ok s" "ss_workspace_name s \<noteq> []"
  shows "\<exists>s'. session_restore pick (\<lambda>_ _. True) (session_to_snapshot cwd s) = Inr s'
    \<and> list_all2 same_saved (ss_windows s) (ss_windows s')
    \<and> ss_focused_window_id s' = ss_focused_window_id s \<and> ss_name s' = ss_name s
    \<and> ss_shell s' = ss_shell s \<and> ss_shell_args s' = ss_shell_args s
    \<and> ss_cols s' = ss_cols s \<and> ss_rows s' = ss_rows s \<and> ss_workspace_name s' = ss_workspace_name s"
proof -
  have ok: "list_all (\<lambda>(i, w). filed_ok i w) (ss_windows s)" "distinct (map fst ([] @ ss_windows s))"
    and f: "ss_focused_window_id s \<in> set (map fst (ss_windows s))"
    using assms(1) by (simp_all add: session_ok_def windows_ok_def)
  from restore_own_windows [OF ok, of "ss_cols s" "ss_rows s" cwd] obtain ws' where
    ws: "fold (restore_window (\<lambda>_ _. True) (ss_cols s) (ss_rows s))
      (map (\<lambda>e. window_to_snapshot cwd (snd e)) (ss_windows s)) [] = ws'" "list_all2 same_saved (ss_windows s) ws'"
    by auto
  have "has_key (ss_focused_window_id s) ws'" using f same_saved_keys [OF ws(2)] by (simp add: has_key_iff)
  moreover from this have "ws' \<noteq> []" by (auto simp: has_key_def)
  ultimately show ?thesis using ws assms(2)
    by (simp add: session_restore_def session_to_snapshot_def comp_def)
qed

section \<open>Departures\<close>

text \<open>A pane can be taken out of its window unless it is the last PTY pane beside a serial one.\<close>

lemma extract_pane_takes:
  assumes "windows_ok (ss_windows s)" "session_window src s = Some w" "p \<in> set (map fst (w_panes w))"
    and "1 < length (w_panes w) \<or> w_serial_panes w = []"
  shows "\<exists>q s1. extract_pane p src w s = Some (Inr q, s1)"
proof (cases "pane_count w \<le> 1")
  case True
  then obtain q where "w_panes w = [q]" "w_serial_panes w = []"
    using assms(3) by (cases "w_panes w") (auto simp: pane_count_def)
  with True show ?thesis
    by (intro exI [of _ q] exI [of _ "drop_window src s"]) (simp add: extract_pane_def into_single_pane_def)
next
  case False
  have ok: "window_ok w" using windows_okD(1) [OF assms(1)] assms(2) by (simp add: session_window_def filed_ok_def)
  have two: "\<not> length (w_panes w) \<le> 1" using False assms(4) by (auto simp: pane_count_def)
  have "\<not> has_key p (w_serial_panes w)"
    using assms(3) ok by (auto simp: has_key_iff window_ok_def tabs_ok_def pane_ids_def)
  moreover obtain sz where "map_of (w_panes w) p = Some sz"
    using assms(3) by (metis has_key_def has_key_iff not_None_eq)
  moreover obtain r v where "take_pane_by_id p (ss_cols s) (ss_rows s) w = Some (r, v)"
    using take_pane_ok [OF ok] by blast
  ultimately show ?thesis using False two
    by (auto simp: extract_pane_def take_pane_by_id_def Let_def split: option.splits)
qed

lemma find_owner:
  assumes "windows_ok (ss_windows s)" "session_window src s = Some w" "p \<in> set (pane_ids w)"
  shows "List.find (\<lambda>(_, w). p \<in> set (pane_ids w)) (ss_windows s) = Some (src, w)"
proof -
  have sw: "map_of (ss_windows s) src = Some w" using assms(2) by (simp add: session_window_def)
  have "distinct (map fst (ss_windows s))" using assms(1) by (simp add: windows_ok_def)
  from alist_at [OF sw this] obtain us vs where ws: "ss_windows s = us @ (src, w) # vs" by metis
  have "p \<notin> set (panes_of us)" using assms(1,3) unfolding windows_ok_def ws by (auto simp: panes_of_def)
  then have "List.find (\<lambda>(_, w). p \<in> set (pane_ids w)) (us @ (src, w) # vs) = Some (src, w)"
    using assms(3) by (induction us) (auto simp: panes_of_def)
  then show ?thesis by (simp add: ws)
qed

lemma move_pane_loses:
  assumes "session_ok s" "session_window src s = Some w" "p \<in> set (map fst (w_panes w))"
    and "1 < length (w_panes w) \<or> w_serial_panes w = []"
    and "target \<noteq> 0" "target \<notin> set (map fst (ss_windows s))"
  shows "\<exists>s'. move_pane p target pos next s = Some (Inl (WindowNotFound target), next, s')
    \<and> p \<in> set (session_panes s) \<and> set (session_panes s') = set (session_panes s) - {p}"
proof -
  have ok: "windows_ok (ss_windows s)" using assms(1) by (simp add: session_ok_def)
  have sw: "map_of (ss_windows s) src = Some w" using assms(2) by (simp add: session_window_def)
  have pw: "p \<in> set (pane_ids w)" using assms(3) by (simp add: pane_ids_def)
  note f = find_owner [OF ok assms(2) pw]
  obtain q s1 where e: "extract_pane p src w s = Some (Inr q, s1)"
    using extract_pane_takes [OF ok assms(2-4)] by blast
  with extract_pane_ok [OF ok assms(2) pw] have s1: "set (session_panes s1) = set (session_panes s) - {p}"
    "set (map fst (ss_windows s1)) \<subseteq> set (map fst (ss_windows s))" by auto
  have "session_window target s1 = None"
    using s1(2) assms(6) by (metis has_key_def has_key_iff session_window_def subsetD)
  moreover have "src \<noteq> target" using assms(6) windows_okD(3) [OF ok sw] by blast
  moreover have "p \<in> set (session_panes s)" using windows_okD(2) [OF ok sw] pw by blast
  ultimately show ?thesis using f e s1(1) assms(5)
    by (simp add: move_pane_def place_pane_def)
qed

text \<open>Moving the only pane of the focused window there leaves no focused window.\<close>

lemma move_last_pane:
  assumes "session_ok s" "focused_window s = Some w" "w_panes w = [q]" "w_serial_panes w = []"
    and "target \<noteq> 0" "target \<notin> set (map fst (ss_windows s))"
  shows "\<exists>s'. move_pane (fst q) target pos next s = Some (Inl (WindowNotFound target), next, s')
    \<and> focused_window s' = None"
proof -
  let ?f = "ss_focused_window_id s"
  have ok: "windows_ok (ss_windows s)" using assms(1) by (simp add: session_ok_def)
  have sw: "session_window ?f s = Some w" using assms(2) by (simp add: focused_window_def)
  have f: "List.find (\<lambda>(_, w). fst q \<in> set (pane_ids w)) (ss_windows s) = Some (?f, w)"
    by (rule find_owner [OF ok sw]) (simp add: pane_ids_def assms(3))
  have e: "extract_pane (fst q) ?f w s = Some (Inr q, drop_window ?f s)"
    by (simp add: extract_pane_def pane_count_def into_single_pane_def assms(3,4))
  have "?f \<noteq> target" using assms(1,6) by (auto simp: session_ok_def)
  moreover have "session_window target (drop_window ?f s) = None"
    using assms(6) by (simp add: session_window_def drop_window_def delete_conv' map_of_eq_None_iff)
  moreover have "focused_window (drop_window ?f s) = None"
    by (simp add: focused_window_def session_window_def drop_window_def delete_conv')
  ultimately show ?thesis using f e assms(5)
    by (simp add: move_pane_def place_pane_def)
qed

text \<open>Only the focused window follows the terminal size.\<close>

lemma resize_others:
  assumes "session_ok s" "session_window i s = Some v" "i \<noteq> ss_focused_window_id s"
  shows "session_window i (snd (resize_focused cols rows s)) = Some v"
    and "ss_cols (snd (resize_focused cols rows s)) = cols" "ss_rows (snd (resize_focused cols rows s)) = rows"
proof -
  obtain w where e: "resize_focused cols rows s = (Inr (), put_window (ss_focused_window_id s)
      (resize_all_panes cols rows w) (s\<lparr>ss_cols := cols, ss_rows := rows\<rparr>))"
    using resize_focused_eq [OF assms(1), of cols rows] by blast
  show "session_window i (snd (resize_focused cols rows s)) = Some v"
    "ss_cols (snd (resize_focused cols rows s)) = cols" "ss_rows (snd (resize_focused cols rows s)) = rows"
    using assms(2,3) unfolding e snd_conv by (simp_all add: session_window_def update_conv')
qed

end
