(* ===== verification/Manager.thy ===== *)
theory Manager
  imports Session_Reach
begin

text \<open>
  The session manager and the workspaces (\<open>nexterm-server/src/session.rs\<close>), with the
  restart helpers of \<open>nexterm-server/src/lib.rs\<close>.  Each method is one atomic step: the
  locks of the source are taken one after the other, which the model does not interleave.
  The map of sessions is an association list with distinct keys.
\<close>

section \<open>State\<close>

record workspace_state =
  wk_known :: "rstr list"
  wk_current :: rstr

definition workspace_state_new :: workspace_state where
  "workspace_state_new = \<lparr>wk_known = [DEFAULT_WORKSPACE], wk_current = DEFAULT_WORKSPACE\<rparr>"

record manager =
  mg_sessions :: "(rstr \<times> session) list"
  mg_shell :: rstr
  mg_shell_args :: "rstr list"
  mg_workspaces :: workspace_state
  mg_startup_warnings :: "rstr list"
  mg_next_window_id :: nat

definition manager_new :: "rstr \<Rightarrow> rstr list \<Rightarrow> manager" where
  "manager_new shell args =
     \<lparr>mg_sessions = [], mg_shell = shell, mg_shell_args = args, mg_workspaces = workspace_state_new,
      mg_startup_warnings = [], mg_next_window_id = 1\<rparr>"

datatype manager_error =
    SessionExists rstr
  | SessionNotFound rstr
  | EmptyWorkspaceName
  | EmptyNewWorkspaceName
  | WorkspaceExists rstr
  | WorkspaceNotFound rstr
  | DefaultNotRenamed
  | DefaultNotDeleted
  | WorkspaceInUse rstr nat
  | InSession session_error

definition quoted :: "rstr \<Rightarrow> rstr" where
  "quoted s = [39] @ s @ [39]"

fun manager_error_text :: "manager_error \<Rightarrow> rstr" where
  "manager_error_text (SessionExists n) = lit ''session '' @ quoted n @ lit '' already exists''"
| "manager_error_text (SessionNotFound n) = lit ''session '' @ quoted n @ lit '' not found''"
| "manager_error_text EmptyWorkspaceName = lit ''workspace name is empty''"
| "manager_error_text EmptyNewWorkspaceName = lit ''new workspace name is empty''"
| "manager_error_text (WorkspaceExists n) = lit ''workspace '' @ quoted n @ lit '' already exists''"
| "manager_error_text (WorkspaceNotFound n) = lit ''workspace '' @ quoted n @ lit '' not found''"
| "manager_error_text DefaultNotRenamed = lit ''cannot rename the default workspace '' @ quoted DEFAULT_WORKSPACE"
| "manager_error_text DefaultNotDeleted = lit ''cannot delete the default workspace '' @ quoted DEFAULT_WORKSPACE"
| "manager_error_text (WorkspaceInUse n k) =
     lit ''workspace '' @ quoted n @ lit '' still has '' @ dec k @ lit '' session(s); retry with force=true''"
| "manager_error_text (InSession e) = error_text e"

section \<open>Sessions\<close>

definition set_startup_warnings :: "rstr list \<Rightarrow> manager \<Rightarrow> manager" where
  "set_startup_warnings warnings m = m\<lparr>mg_startup_warnings := warnings\<rparr>"

definition take_startup_warnings :: "manager \<Rightarrow> rstr list \<times> manager" where
  "take_startup_warnings m = (mg_startup_warnings m, m\<lparr>mg_startup_warnings := []\<rparr>)"

definition session_of :: "rstr \<Rightarrow> manager \<Rightarrow> session option" where
  "session_of name m = map_of (mg_sessions m) name"

definition put_session :: "rstr \<Rightarrow> session \<Rightarrow> manager \<Rightarrow> manager" where
  "put_session name s m = m\<lparr>mg_sessions := AList.update name s (mg_sessions m)\<rparr>"

text \<open>Creating a session, which the next two methods share.\<close>

definition insert_new_session ::
  "rstr + nat \<Rightarrow> rstr \<Rightarrow> nat \<Rightarrow> nat \<Rightarrow> manager \<Rightarrow> (manager_error + unit) \<times> manager" where
  "insert_new_session spawned name cols rows m =
     (case new_in_workspace name cols rows (mg_shell m) (mg_shell_args m) (wk_current (mg_workspaces m))
             spawned (mg_next_window_id m) of
        (Inl e, next) \<Rightarrow> (Inl (InSession e), m\<lparr>mg_next_window_id := next\<rparr>)
      | (Inr s, next) \<Rightarrow> (Inr (), (put_session name s m)\<lparr>mg_next_window_id := next\<rparr>))"

definition create_session ::
  "rstr + nat \<Rightarrow> rstr \<Rightarrow> nat \<Rightarrow> nat \<Rightarrow> manager \<Rightarrow> (manager_error + unit) \<times> manager" where
  "create_session spawned name cols rows m =
     (if has_key name (mg_sessions m) then (Inl (SessionExists name), m)
      else insert_new_session spawned name cols rows m)"

definition get_or_create_and_attach ::
  "rstr + nat \<Rightarrow> rstr \<Rightarrow> nat \<Rightarrow> nat \<Rightarrow> manager \<Rightarrow> (manager_error + unit) \<times> manager" where
  "get_or_create_and_attach spawned name cols rows m =
     (if has_key name (mg_sessions m) then (Inr (), m)
      else insert_new_session spawned name cols rows m)"

definition kill_session :: "rstr \<Rightarrow> manager \<Rightarrow> (manager_error + unit) \<times> manager" where
  "kill_session name m =
     (if has_key name (mg_sessions m) then (Inr (), m\<lparr>mg_sessions := AList.delete name (mg_sessions m)\<rparr>)
      else (Inl (SessionNotFound name), m))"

definition list_sessions :: "(rstr \<Rightarrow> nat) \<Rightarrow> manager \<Rightarrow> session_info list" where
  "list_sessions receivers m = map (\<lambda>(n, s). session_info_of (receivers n) s) (mg_sessions m)"

text \<open>The best-effort read for plugins: \<open>locked\<close> sessions are skipped.\<close>

definition pane_snapshot ::
  "(rstr \<Rightarrow> bool) \<Rightarrow> (nat \<Rightarrow> pane_shared) \<Rightarrow> nat \<Rightarrow> manager \<Rightarrow> (grid \<times> cell list list) option" where
  "pane_snapshot locked shared i m =
     (if list_ex (\<lambda>(n, s). \<not> locked n \<and> list_ex (\<lambda>(_, w). has_key i (w_panes w)) (ss_windows s)) (mg_sessions m)
      then Some (pm_latest_grid (sh_mirror (shared i)), pm_latest_scrollback (sh_mirror (shared i)))
      else None)"

section \<open>Polling the foreground processes\<close>

text \<open>The PTY panes with what the operating system reports, session by session.\<close>

definition foreground_now :: "(nat \<Rightarrow> rstr option) \<Rightarrow> manager \<Rightarrow> (rstr \<times> nat \<times> rstr option) list" where
  "foreground_now fg m =
     concat (map (\<lambda>(n, s). concat (map (\<lambda>(_, w).
       map (\<lambda>i. (n, i, fg i)) (filter (\<lambda>i. has_key i (w_panes w)) (pane_ids w))) (ss_windows s)))
       (mg_sessions m))"

text \<open>One observation against the last one, with the messages sent so far.\<close>

definition note_process ::
  "rstr \<times> nat \<times> rstr option \<Rightarrow> (nat \<times> rstr option) list \<times> (rstr \<times> server_msg) list
   \<Rightarrow> (nat \<times> rstr option) list \<times> (rstr \<times> server_msg) list" where
  "note_process obs st =
     (case (obs, st) of
        ((n, i, name), (last_seen, out)) \<Rightarrow>
          (if map_of last_seen i \<noteq> Some name
           then (AList.update i name last_seen, out @ [(n, ProcessChanged i name)])
           else (last_seen, out)))"

definition poll_foreground_processes ::
  "(nat \<Rightarrow> rstr option) \<Rightarrow> (nat \<times> rstr option) list \<Rightarrow> manager
   \<Rightarrow> (nat \<times> rstr option) list \<times> (rstr \<times> server_msg) list" where
  "poll_foreground_processes fg last_seen m =
     (let current = foreground_now fg m;
          (seen, out) = fold note_process current (last_seen, []) in
      (filter (\<lambda>(i, _). i \<in> set (map (fst \<circ> snd) current)) seen, out))"

definition broadcast_quake_request :: "rstr \<Rightarrow> manager \<Rightarrow> (rstr \<times> server_msg) list \<times> nat" where
  "broadcast_quake_request action m =
     (map (\<lambda>(n, _). (n, QuakeToggleRequest action)) (mg_sessions m), length (mg_sessions m))"

section \<open>Workspaces\<close>

definition count_in :: "rstr \<Rightarrow> manager \<Rightarrow> nat" where
  "count_in ws m = length (filter (\<lambda>(_, s). ss_workspace_name s = ws) (mg_sessions m))"

definition list_workspaces :: "manager \<Rightarrow> rstr \<times> workspace_info list" where
  "list_workspaces m =
     (wk_current (mg_workspaces m),
      map (\<lambda>name. \<lparr>ki_name = name, ki_session_count = wrap32 (count_in name m),
             ki_is_active = (name = wk_current (mg_workspaces m))\<rparr>) (wk_known (mg_workspaces m)))"

definition create_workspace :: "rstr \<Rightarrow> manager \<Rightarrow> (manager_error + unit) \<times> manager" where
  "create_workspace name m =
     (let trimmed = trim name; st = mg_workspaces m in
      if trimmed = [] then (Inl EmptyWorkspaceName, m)
      else if trimmed \<in> set (wk_known st) then (Inl (WorkspaceExists trimmed), m)
      else (Inr (), m\<lparr>mg_workspaces := st\<lparr>wk_known := wk_known st @ [trimmed]\<rparr>\<rparr>))"

definition switch_workspace :: "rstr \<Rightarrow> manager \<Rightarrow> (manager_error + rstr) \<times> manager" where
  "switch_workspace name m =
     (let st = mg_workspaces m in
      if name \<notin> set (wk_known st) then (Inl (WorkspaceNotFound name), m)
      else (Inr name, m\<lparr>mg_workspaces := st\<lparr>wk_current := name\<rparr>\<rparr>))"

definition rehome :: "rstr \<Rightarrow> rstr \<Rightarrow> session \<Rightarrow> session" where
  "rehome from to s = (if ss_workspace_name s = from then s\<lparr>ss_workspace_name := to\<rparr> else s)"

definition rehome_sessions :: "rstr \<Rightarrow> rstr \<Rightarrow> manager \<Rightarrow> manager" where
  "rehome_sessions from to m = m\<lparr>mg_sessions := map (\<lambda>(n, s). (n, rehome from to s)) (mg_sessions m)\<rparr>"

definition rename_workspace :: "rstr \<Rightarrow> rstr \<Rightarrow> manager \<Rightarrow> (manager_error + unit) \<times> manager" where
  "rename_workspace from to m =
     (let to_trimmed = trim to; st = mg_workspaces m in
      if to_trimmed = [] then (Inl EmptyNewWorkspaceName, m)
      else if from = to_trimmed then (Inr (), m)
      else if from \<notin> set (wk_known st) then (Inl (WorkspaceNotFound from), m)
      else if to_trimmed \<in> set (wk_known st) then (Inl (WorkspaceExists to_trimmed), m)
      else if from = DEFAULT_WORKSPACE then (Inl DefaultNotRenamed, m)
      else
        (Inr (), rehome_sessions from to_trimmed
           (m\<lparr>mg_workspaces :=
              \<lparr>wk_known = map (\<lambda>w. if w = from then to_trimmed else w) (wk_known st),
               wk_current = (if wk_current st = from then to_trimmed else wk_current st)\<rparr>\<rparr>)))"

definition delete_workspace :: "rstr \<Rightarrow> bool \<Rightarrow> manager \<Rightarrow> (manager_error + unit) \<times> manager" where
  "delete_workspace name force m =
     (let st = mg_workspaces m; session_count = count_in name m in
      if name = DEFAULT_WORKSPACE then (Inl DefaultNotDeleted, m)
      else if name \<notin> set (wk_known st) then (Inl (WorkspaceNotFound name), m)
      else if session_count > 0 \<and> \<not> force then (Inl (WorkspaceInUse name session_count), m)
      else
        (let m1 = m\<lparr>mg_workspaces :=
               \<lparr>wk_known = filter (\<lambda>w. w \<noteq> name) (wk_known st),
                wk_current = (if wk_current st = name then DEFAULT_WORKSPACE else wk_current st)\<rparr>\<rparr> in
         (Inr (), if force then rehome_sessions name DEFAULT_WORKSPACE m1 else m1)))"

section \<open>Snapshots\<close>

definition SNAPSHOT_VERSION :: nat where "SNAPSHOT_VERSION = 5"
definition SNAPSHOT_VERSION_MIN :: nat where "SNAPSHOT_VERSION_MIN = 1"

record os_window_snapshot =
  ow_position :: "int \<times> int"
  ow_size :: "nat \<times> nat"
  ow_server_window_ids :: "nat list"
  ow_focused_server_window_id :: nat

record 'c server_snapshot =
  sv_version :: nat
  sv_sessions :: "'c session_snapshot list"
  sv_saved_at :: nat
  sv_current_workspace :: rstr
  sv_client_os_windows :: "os_window_snapshot list"
  sv_known_workspaces :: "rstr list"

definition manager_to_snapshot :: "(nat \<Rightarrow> 'c option) \<Rightarrow> nat \<Rightarrow> manager \<Rightarrow> 'c server_snapshot" where
  "manager_to_snapshot cwd saved_at m =
     \<lparr>sv_version = SNAPSHOT_VERSION, sv_sessions = map (session_to_snapshot cwd \<circ> snd) (mg_sessions m),
      sv_saved_at = saved_at, sv_current_workspace = wk_current (mg_workspaces m),
      sv_client_os_windows = [], sv_known_workspaces = wk_known (mg_workspaces m)\<rparr>"

text \<open>One session of the snapshot: the sessions, the restored names and their workspaces.\<close>

definition restore_session ::
  "(nat list \<Rightarrow> nat) \<Rightarrow> (nat \<times> nat \<times> nat \<Rightarrow> 'c option \<Rightarrow> bool) \<Rightarrow> 'c session_snapshot
   \<Rightarrow> (rstr \<times> session) list \<times> rstr list \<times> rstr list \<Rightarrow> (rstr \<times> session) list \<times> rstr list \<times> rstr list" where
  "restore_session pick spawn_ok snap st =
     (case st of (sessions, restored, workspaces) \<Rightarrow>
        (if has_key (sn_name snap) sessions then st
         else
           (case session_restore pick spawn_ok snap of
              Inl e \<Rightarrow> st
            | Inr s \<Rightarrow>
                (AList.update (sn_name snap) s sessions, restored @ [sn_name snap],
                 if ss_workspace_name s \<noteq> [] \<and> ss_workspace_name s \<notin> set workspaces
                 then workspaces @ [ss_workspace_name s] else workspaces))))"

definition learn_workspace :: "rstr \<Rightarrow> rstr list \<Rightarrow> rstr list" where
  "learn_workspace ws known = (if ws \<noteq> [] \<and> ws \<notin> set known then known @ [ws] else known)"

definition manager_restore ::
  "(nat list \<Rightarrow> nat) \<Rightarrow> (nat \<times> nat \<times> nat \<Rightarrow> 'c option \<Rightarrow> bool) \<Rightarrow> 'c server_snapshot \<Rightarrow> manager
   \<Rightarrow> rstr list \<times> manager" where
  "manager_restore pick spawn_ok snap m =
     (if sv_version snap < SNAPSHOT_VERSION_MIN \<or> sv_version snap > SNAPSHOT_VERSION then ([], m)
      else
        (let (sessions, restored, workspaces) =
               fold (restore_session pick spawn_ok) (sv_sessions snap) (mg_sessions m, [], []);
             known = fold learn_workspace (sv_known_workspaces snap @ workspaces) (wk_known (mg_workspaces m));
             current = sv_current_workspace snap in
         (restored, m\<lparr>mg_sessions := sessions,
            mg_workspaces := \<lparr>wk_known = known,
              wk_current = (if current \<noteq> [] \<and> current \<in> set known then current
                            else wk_current (mg_workspaces m))\<rparr>\<rparr>)))"

text \<open>The older versions are brought to the current one when a file is read.\<close>

definition migrate :: "'c server_snapshot \<Rightarrow> 'c server_snapshot option" where
  "migrate snap =
     (if sv_version snap < SNAPSHOT_VERSION_MIN then None
      else if sv_version snap < SNAPSHOT_VERSION then Some (snap\<lparr>sv_version := SNAPSHOT_VERSION\<rparr>)
      else Some snap)"

fun max_pane_id_in_node :: "'c snapshot_node \<Rightarrow> nat" where
  "max_pane_id_in_node (PaneSnapshot p c) = p"
| "max_pane_id_in_node (SplitSnapshot d r left right) = max (max_pane_id_in_node left) (max_pane_id_in_node right)"

definition snapshot_windows :: "'c server_snapshot \<Rightarrow> 'c window_snapshot list" where
  "snapshot_windows snap = concat (map sn_windows (sv_sessions snap))"

definition list_max :: "nat list \<Rightarrow> nat" where
  "list_max xs = fold max xs 0"

definition max_pane_id_in_snapshot :: "'c server_snapshot \<Rightarrow> nat" where
  "max_pane_id_in_snapshot snap = list_max (map (max_pane_id_in_node \<circ> ws_layout) (snapshot_windows snap))"

definition max_window_id_in_snapshot :: "'c server_snapshot \<Rightarrow> nat" where
  "max_window_id_in_snapshot snap = list_max (map ws_id (snapshot_windows snap))"

definition total_window_count :: "'c server_snapshot \<Rightarrow> nat" where
  "total_window_count snap = sum_list (map (length \<circ> sn_windows) (sv_sessions snap))"

text \<open>
  The start of the server: restore, then raise the counters above every restored id.  The
  pane counter \<open>next_pane\<close> is a static of \<open>pane.rs\<close>.  The last component says whether the
  snapshot file is rewritten because something could not be restored.
\<close>

definition startup ::
  "(nat list \<Rightarrow> nat) \<Rightarrow> (nat \<times> nat \<times> nat \<Rightarrow> 'c option \<Rightarrow> bool) \<Rightarrow> (nat \<Rightarrow> 'c option) \<Rightarrow> nat
   \<Rightarrow> 'c server_snapshot option \<Rightarrow> nat \<Rightarrow> manager \<Rightarrow> nat \<times> manager \<times> bool" where
  "startup pick spawn_ok cwd now loaded next_pane m =
     (case loaded of
        None \<Rightarrow> (next_pane, m, False)
      | Some snap \<Rightarrow>
          (let (restored, m1) = manager_restore pick spawn_ok snap m;
               (next_pane', m2) =
                 (if restored = [] then (next_pane, m1)
                  else (max next_pane (wrap32 (max_pane_id_in_snapshot snap + 1)),
                        m1\<lparr>mg_next_window_id :=
                             set_min_window_id (wrap32 (max_window_id_in_snapshot snap + 1)) (mg_next_window_id m1)\<rparr>));
               current_snap = manager_to_snapshot cwd now m2 in
           (next_pane', m2,
            total_window_count current_snap < total_window_count snap
            \<or> length (sv_sessions current_snap) < length (sv_sessions snap))))"

end
