(* ===== verification/Manager_Inv.thy ===== *)
theory Manager_Inv
  imports Manager
begin

text \<open>
  The invariant of the session manager: sessions are well-formed and filed under their names,
  every workspace in use is known, the known workspaces are distinct and begin with the
  default one, and the current one is known.  The manager's operations keep it.
\<close>

section \<open>The invariant\<close>

definition workspaces_ok :: "workspace_state \<Rightarrow> bool" where
  "workspaces_ok st \<longleftrightarrow>
     wk_known st \<noteq> [] \<and> hd (wk_known st) = DEFAULT_WORKSPACE \<and> distinct (wk_known st)
     \<and> [] \<notin> set (wk_known st) \<and> wk_current st \<in> set (wk_known st)"

definition member_ok :: "nat \<Rightarrow> rstr list \<Rightarrow> rstr \<times> session \<Rightarrow> bool" where
  "member_ok next known e \<longleftrightarrow>
     ss_name (snd e) = fst e \<and> session_ok (snd e) \<and> counted next (snd e)
     \<and> ss_workspace_name (snd e) \<in> set known"

definition manager_ok :: "manager \<Rightarrow> bool" where
  "manager_ok m \<longleftrightarrow>
     workspaces_ok (mg_workspaces m) \<and> distinct (map fst (mg_sessions m))
     \<and> list_all (member_ok (mg_next_window_id m) (wk_known (mg_workspaces m))) (mg_sessions m)"

lemma default_not_empty [simp]: "DEFAULT_WORKSPACE \<noteq> []" "[] \<noteq> DEFAULT_WORKSPACE"
  by (simp_all add: DEFAULT_WORKSPACE_def lit_def)

lemma default_known: "workspaces_ok st \<Longrightarrow> DEFAULT_WORKSPACE \<in> set (wk_known st)"
  by (metis hd_in_set workspaces_ok_def)

lemma member_ok_mono:
  "member_ok next known e \<Longrightarrow> next \<le> next' \<Longrightarrow> set known \<subseteq> set known' \<Longrightarrow> member_ok next' known' e"
  using counted_mono [of "next" "snd e" next' "snd e"] by (auto simp: member_ok_def)

lemma members_ok_mono:
  "list_all (member_ok next known) es \<Longrightarrow> next \<le> next' \<Longrightarrow> set known \<subseteq> set known' \<Longrightarrow>
   list_all (member_ok next' known') es"
  by (auto simp: list_all_iff intro: member_ok_mono)

lemma manager_new_ok: "manager_ok (manager_new shell args)"
  by (simp add: manager_ok_def manager_new_def workspace_state_new_def workspaces_ok_def)

lemma list_all_update: "list_all P m \<Longrightarrow> P (k, v) \<Longrightarrow> list_all P (AList.update k v m)"
  using set_update_subset [of k v m] by (auto simp: list_all_iff)

lemma distinct_update [simp]: "distinct (map fst (AList.update k v m)) = distinct (map fst m)"
  by (simp add: keys_update image_iff)

section \<open>Sessions\<close>

lemma manager_ok_put:
  assumes "manager_ok m" "mg_next_window_id m \<le> n"
    and "member_ok n (wk_known (mg_workspaces m)) (name, s)"
  shows "manager_ok ((put_session name s m)\<lparr>mg_next_window_id := n\<rparr>)"
  using assms members_ok_mono [OF _ assms(2), of "wk_known (mg_workspaces m)"] unfolding manager_ok_def
  by (simp add: put_session_def distinct_update list_all_update)

lemma insert_new_session_ok:
  assumes "manager_ok m" "mg_next_window_id m < u32_max"
  shows "manager_ok (snd (insert_new_session spawned name cols rows m))"
proof (cases spawned)
  case (Inl e)
  have "list_all (member_ok (mg_next_window_id m + 1) (wk_known (mg_workspaces m))) (mg_sessions m)"
    using assms(1) members_ok_mono unfolding manager_ok_def by (metis le_add1 subset_refl)
  with Inl assms wrap_next [OF assms(2)] show ?thesis
    by (simp add: insert_new_session_def new_in_workspace_def new_window_id_def spawn_window_def manager_ok_def)
next
  case (Inr pane)
  obtain r n where e: "new_in_workspace name cols rows (mg_shell m) (mg_shell_args m)
      (wk_current (mg_workspaces m)) spawned (mg_next_window_id m) = (r, n)" by (meson surj_pair)
  from new_in_workspace_ok [OF e [unfolded Inr]] obtain s where s: "r = Inr s" "session_ok s"
    "map fst (ss_windows s) = [mg_next_window_id m]" "n = mg_next_window_id m + 1" "ss_name s = name"
    "ss_workspace_name s = wk_current (mg_workspaces m)"
    using wrap_next [OF assms(2)] by auto
  have "counted n s" using s(3,4) by (simp add: counted_def del: set_map)
  then have "member_ok n (wk_known (mg_workspaces m)) (name, s)"
    using s assms(1) by (simp add: member_ok_def manager_ok_def workspaces_ok_def)
  from manager_ok_put [OF assms(1) _ this] s(1,4) e show ?thesis by (simp add: insert_new_session_def)
qed

lemma manager_ok_create:
  assumes "manager_ok m" "mg_next_window_id m < u32_max"
  shows "manager_ok (snd (create_session spawned name cols rows m))"
    and "manager_ok (snd (get_or_create_and_attach spawned name cols rows m))"
  using insert_new_session_ok [OF assms] assms(1)
  by (simp_all add: create_session_def get_or_create_and_attach_def)

lemma manager_ok_kill: "manager_ok m \<Longrightarrow> manager_ok (snd (kill_session name m))"
  using keys_delete [of name "mg_sessions m"]
  by (auto simp: kill_session_def manager_ok_def delete_conv_filter list_all_iff distinct_map_filter)

lemma manager_ok_inside:
  assumes "manager_ok m" "session_of name m = Some s" "session_op (mg_next_window_id m) s n s'"
  shows "manager_ok ((put_session name s' m)\<lparr>mg_next_window_id := n\<rparr>)"
proof -
  have "(name, s) \<in> set (mg_sessions m)" using assms(2) by (simp add: session_of_def map_of_SomeD)
  then have "member_ok (mg_next_window_id m) (wk_known (mg_workspaces m)) (name, s)"
    using assms(1) by (auto simp: manager_ok_def list_all_iff)
  with session_op_ok [OF assms(3)] session_op_names [OF assms(3)] manager_ok_put [OF assms(1), of n name s']
  show ?thesis by (simp add: member_ok_def)
qed

section \<open>Workspaces\<close>

lemma manager_ok_create_workspace: "manager_ok m \<Longrightarrow> manager_ok (snd (create_workspace name m))"
  using members_ok_mono [of _ "wk_known (mg_workspaces m)" "mg_sessions m" _
      "wk_known (mg_workspaces m) @ [trim name]"]
  by (auto simp: create_workspace_def Let_def manager_ok_def workspaces_ok_def)

lemma manager_ok_switch: "manager_ok m \<Longrightarrow> manager_ok (snd (switch_workspace name m))"
  by (auto simp: switch_workspace_def Let_def manager_ok_def workspaces_ok_def)

lemma keys_rehome: "map fst (map (\<lambda>(n, s). (n, rehome from to s)) es) = map fst es"
  by (simp add: comp_def split_def)

lemma member_rehome:
  "member_ok next known (n, s) \<Longrightarrow> to \<in> set known' \<Longrightarrow> set known - {from} \<subseteq> set known' \<Longrightarrow>
   member_ok next known' (n, rehome from to s)"
  by (auto simp: member_ok_def rehome_def session_ok_def counted_def)

lemma manager_ok_rehome:
  assumes "manager_ok m" "workspaces_ok st" "to \<in> set (wk_known st)"
    and "set (wk_known (mg_workspaces m)) - {from} \<subseteq> set (wk_known st)"
  shows "manager_ok (rehome_sessions from to (m\<lparr>mg_workspaces := st\<rparr>))"
  using assms member_rehome [OF _ assms(3,4)] unfolding manager_ok_def
  by (auto simp: rehome_sessions_def keys_rehome list_all_iff simp del: map_map)

lemma map_replace:
  assumes "distinct xs" "b \<notin> set xs"
  shows "distinct (map (\<lambda>x. if x = a then b else x) xs)"
  using assms by (induction xs) auto

lemma manager_ok_rename_workspace:
  assumes "manager_ok m"
  shows "manager_ok (snd (rename_workspace from to m))"
proof -
  let ?k = "wk_known (mg_workspaces m)" and ?t = "trim to"
  let ?st = "\<lparr>wk_known = map (\<lambda>w. if w = from then ?t else w) ?k,
    wk_current = (if wk_current (mg_workspaces m) = from then ?t else wk_current (mg_workspaces m))\<rparr>"
  have w: "workspaces_ok (mg_workspaces m)" using assms by (simp add: manager_ok_def)
  have "manager_ok (rehome_sessions from ?t (m\<lparr>mg_workspaces := ?st\<rparr>))"
    if "?t \<noteq> []" "from \<in> set ?k" "?t \<notin> set ?k" "from \<noteq> DEFAULT_WORKSPACE"
  proof (rule manager_ok_rehome [OF assms])
    show "workspaces_ok ?st"
      using w that map_replace [of ?k ?t "from"] by (cases ?k) (auto simp: workspaces_ok_def)
  qed (use that in auto)
  with assms show ?thesis by (simp add: rename_workspace_def Let_def)
qed

lemma manager_ok_delete_workspace:
  assumes "manager_ok m"
  shows "manager_ok (snd (delete_workspace name force m))"
proof -
  let ?k = "wk_known (mg_workspaces m)"
  let ?st = "\<lparr>wk_known = filter (\<lambda>w. w \<noteq> name) ?k,
    wk_current = (if wk_current (mg_workspaces m) = name then DEFAULT_WORKSPACE else wk_current (mg_workspaces m))\<rparr>"
  have w: "workspaces_ok (mg_workspaces m)" using assms by (simp add: manager_ok_def)
  have st: "workspaces_ok ?st" if "name \<noteq> DEFAULT_WORKSPACE"
    using w that default_known [OF w] by (cases ?k) (auto simp: workspaces_ok_def)
  then have "manager_ok (rehome_sessions name DEFAULT_WORKSPACE (m\<lparr>mg_workspaces := ?st\<rparr>))"
    if "name \<noteq> DEFAULT_WORKSPACE"
    by (rule manager_ok_rehome [OF assms]) (use that default_known [OF w] in auto)
  moreover have "rehome_sessions name DEFAULT_WORKSPACE (m\<lparr>mg_workspaces := ?st\<rparr>) = m\<lparr>mg_workspaces := ?st\<rparr>"
    if "count_in name m = 0"
  proof -
    have "map (\<lambda>(n, s). (n, rehome name DEFAULT_WORKSPACE s)) (mg_sessions m) = mg_sessions m"
      using that by (intro map_idI) (auto simp: rehome_def count_in_def filter_empty_conv)
    then show ?thesis by (cases m) (simp add: rehome_sessions_def)
  qed
  ultimately show ?thesis using assms by (auto simp: delete_workspace_def Let_def)
qed

end
