(* ===== verification/Manager_Life.thy ===== *)
theory Manager_Life
  imports Manager_Inv
begin

text \<open>
  Restoring the sessions when the server starts, the reachable managers, and the facts about
  polling and counting.
\<close>

section \<open>Restoring\<close>

lemma learn_known:
  assumes "distinct known" "[] \<notin> set known"
  shows "\<exists>ys. fold learn_workspace xs known = known @ ys \<and> distinct (known @ ys) \<and> [] \<notin> set ys
    \<and> set ys \<subseteq> set xs \<and> set xs - {[]} \<subseteq> set (known @ ys)"
  using assms
proof (induction xs arbitrary: known)
  case (Cons x xs)
  show ?case
  proof (cases "x \<noteq> [] \<and> x \<notin> set known")
    case True
    then have "distinct (known @ [x])" "[] \<notin> set (known @ [x])" using Cons.prems by auto
    from Cons.IH [OF this] obtain ys where
      "fold learn_workspace xs (known @ [x]) = (known @ [x]) @ ys" "distinct ((known @ [x]) @ ys)"
      "[] \<notin> set ys" "set ys \<subseteq> set xs" "set xs - {[]} \<subseteq> set ((known @ [x]) @ ys)" by blast
    moreover have "learn_workspace x known = known @ [x]" using True by (simp add: learn_workspace_def)
    ultimately show ?thesis using True by (intro exI [of _ "x # ys"]) auto
  next
    case False
    with Cons.IH [OF Cons.prems] show ?thesis by (auto simp: learn_workspace_def)
  qed
qed simp

lemma learn_nothing: "set xs \<subseteq> set known \<Longrightarrow> fold learn_workspace xs known = known"
  by (induction xs) (auto simp: learn_workspace_def)

lemma workspaces_ok_learn:
  assumes "workspaces_ok st" "current \<in> set (fold learn_workspace xs (wk_known st))"
  shows "workspaces_ok \<lparr>wk_known = fold learn_workspace xs (wk_known st), wk_current = current\<rparr>"
  using learn_known [of "wk_known st" xs] assms by (auto simp: workspaces_ok_def)

lemma session_restore_names:
  assumes "session_restore pick spawn_ok snap = Inr s"
  shows "ss_name s = sn_name snap" "ss_workspace_name s \<noteq> []"
  using assms by (auto simp: session_restore_def Let_def split: if_splits)

text \<open>The loop over the sessions of a snapshot.\<close>

definition restoring :: "nat \<Rightarrow> rstr list \<Rightarrow> (rstr \<times> session) list \<times> rstr list \<times> rstr list \<Rightarrow> bool" where
  "restoring next known st =
     (case st of (es, restored, wss) \<Rightarrow>
        distinct (map fst es) \<and> list_all (member_ok next (known @ wss)) es \<and> [] \<notin> set wss)"

lemma restore_session_ok:
  assumes "restoring next known st" "snapshot_ok snap" "picks pick"
    and "list_all (\<lambda>w. ws_id w < next) (sn_windows snap)"
  shows "restoring next known (restore_session pick spawn_ok snap st)"
proof -
  obtain es restored wss where st: "st = (es, restored, wss)" by (cases st)
  show ?thesis
  proof (cases "has_key (sn_name snap) es \<or> (\<exists>e. session_restore pick spawn_ok snap = Inl e)")
    case True
    with assms(1) show ?thesis by (auto simp: st restore_session_def)
  next
    case False
    then obtain s where s: "session_restore pick spawn_ok snap = Inr s"
      by (cases "session_restore pick spawn_ok snap") auto
    note ok = session_restore_ok [OF s assms(2,3)] and nm = session_restore_names [OF s]
    have "counted next s" using ok assms(4) by (force simp: counted_def list_all_iff)
    let ?w = "if ss_workspace_name s \<noteq> [] \<and> ss_workspace_name s \<notin> set wss then wss @ [ss_workspace_name s] else wss"
    have "member_ok next (known @ ?w) (sn_name snap, s)"
      using ok nm \<open>counted next s\<close> by (simp add: member_ok_def)
    moreover have "list_all (member_ok next (known @ ?w)) es"
      by (rule members_ok_mono [of "next" "known @ wss"]) (use assms(1) in \<open>auto simp: restoring_def st\<close>)
    ultimately show ?thesis using False s assms(1) nm(2)
      by (simp add: st restore_session_def restoring_def list_all_update)
  qed
qed

lemma restore_sessions_ok:
  assumes "restoring next known st" "list_all snapshot_ok snaps" "picks pick"
    and "list_all (\<lambda>w. ws_id w < next) (concat (map sn_windows snaps))"
  shows "restoring next known (fold (restore_session pick spawn_ok) snaps st)"
  using assms
proof (induction snaps arbitrary: st)
  case (Cons snap snaps)
  then have "restoring next known (restore_session pick spawn_ok snap st)"
    by (intro restore_session_ok) auto
  then show ?case using Cons by simp
qed simp

text \<open>No restored name, no change.\<close>

lemma restore_session_grows:
  "restore_session pick spawn_ok snap (es, rs, wss) = (es', rs', wss') \<Longrightarrow>
   (es', rs', wss') = (es, rs, wss) \<or> rs' = rs @ [sn_name snap]"
  by (auto simp: restore_session_def split: if_splits sum.splits)

lemma restore_none:
  "fold (restore_session pick spawn_ok) snaps (es, [], wss) = (es', [], wss') \<Longrightarrow> es' = es \<and> wss' = wss"
proof (induction snaps arbitrary: es wss)
  case (Cons snap snaps)
  obtain es1 rs1 wss1 where e: "restore_session pick spawn_ok snap (es, [], wss) = (es1, rs1, wss1)" by (metis surj_pair)
  have keep: "fold (restore_session pick spawn_ok) ss (a, b, c) = (a', b', c') \<Longrightarrow> b \<noteq> [] \<Longrightarrow> b' \<noteq> []" for ss a b c a' b' c'
  proof (induction ss arbitrary: a b c)
    case (Cons x ss)
    obtain a1 b1 c1 where "restore_session pick spawn_ok x (a, b, c) = (a1, b1, c1)" by (metis surj_pair)
    with Cons restore_session_grows [of pick spawn_ok x a b c a1 b1 c1] show ?case by auto
  qed simp
  have "rs1 = []" using keep [of snaps es1 rs1 wss1 es' "[]" wss'] Cons.prems e by auto
  with restore_session_grows [OF e] have "es1 = es" "wss1 = wss" by auto
  with Cons e \<open>rs1 = []\<close> show ?case by simp
qed simp

lemma manager_restore_ok:
  assumes "manager_ok m" "list_all snapshot_ok (sv_sessions snap)" "picks pick" "mg_next_window_id m \<le> n"
    and "list_all (\<lambda>w. ws_id w < n) (snapshot_windows snap)"
    and "manager_restore pick spawn_ok snap m = (restored, m')"
  shows "manager_ok (m'\<lparr>mg_next_window_id := n\<rparr>) \<and> mg_next_window_id m' = mg_next_window_id m
    \<and> (restored = [] \<longrightarrow> manager_ok m')"
proof (cases "sv_version snap < SNAPSHOT_VERSION_MIN \<or> sv_version snap > SNAPSHOT_VERSION")
  case True
  have "manager_ok (m\<lparr>mg_next_window_id := n\<rparr>)"
    using assms(1) members_ok_mono [OF _ assms(4) subset_refl] unfolding manager_ok_def by simp
  with True assms(1,6) show ?thesis by (auto simp: manager_restore_def)
next
  case False
  let ?st = "mg_workspaces m"
  obtain es rs wss where f: "fold (restore_session pick spawn_ok) (sv_sessions snap) (mg_sessions m, [], []) = (es, rs, wss)"
    by (metis surj_pair)
  let ?k = "fold learn_workspace (sv_known_workspaces snap @ wss) (wk_known ?st)"
  let ?c = "sv_current_workspace snap"
  let ?ws = "\<lparr>wk_known = ?k, wk_current = (if ?c \<noteq> [] \<and> ?c \<in> set ?k then ?c else wk_current ?st)\<rparr>"
  have w: "workspaces_ok ?st" using assms(1) by (simp add: manager_ok_def)
  obtain ys where ys: "?k = wk_known ?st @ ys" "set (sv_known_workspaces snap @ wss) - {[]} \<subseteq> set ?k"
    using learn_known [of "wk_known ?st" "sv_known_workspaces snap @ wss"] w by (auto simp: workspaces_ok_def)
  have m': "restored = rs" "m' = m\<lparr>mg_sessions := es, mg_workspaces := ?ws\<rparr>"
    using assms(6) by (simp_all only: manager_restore_def False if_False f Let_def prod.case prod.inject)
  have wok: "workspaces_ok ?ws"
    using w ys(1) by (intro workspaces_ok_learn) (auto simp: workspaces_ok_def)
  have "list_all (member_ok n (wk_known ?st @ [])) (mg_sessions m)"
    by (rule members_ok_mono [OF _ assms(4)]) (use assms(1) in \<open>auto simp: manager_ok_def\<close>)
  then have "restoring n (wk_known ?st) (mg_sessions m, [], [])"
    using assms(1) by (simp add: manager_ok_def restoring_def)
  from restore_sessions_ok [OF this assms(2,3), of spawn_ok] assms(5) f
  have es: "distinct (map fst es)" "list_all (member_ok n (wk_known ?st @ wss)) es" "[] \<notin> set wss"
    by (simp_all add: snapshot_windows_def restoring_def)
  have "list_all (member_ok n ?k) es"
    by (rule members_ok_mono [OF es(2) order_refl]) (use ys es(3) in auto)
  then have "manager_ok (m'\<lparr>mg_next_window_id := n\<rparr>)" using es(1) wok by (simp add: m' manager_ok_def)
  moreover have "manager_ok m'" if "restored = []"
  proof -
    have "es = mg_sessions m" using restore_none [of pick spawn_ok] f m'(1) that by blast
    moreover have "list_all (member_ok (mg_next_window_id m) ?k) (mg_sessions m)"
      by (rule members_ok_mono [of _ "wk_known ?st", OF _ order_refl]) (use assms(1) ys in \<open>auto simp: manager_ok_def\<close>)
    ultimately show ?thesis using wok assms(1) by (simp add: m' manager_ok_def)
  qed
  ultimately show ?thesis by (simp add: m'(2))
qed

section \<open>Starting the server\<close>

lemma fold_max_ge: "n \<le> fold max xs (n :: nat) \<and> (\<forall>x \<in> set xs. x \<le> fold max xs n)"
proof (induction xs arbitrary: n)
  case (Cons x xs)
  from Cons.IH [of "max x n"] show ?case by auto
qed simp

lemma list_max_ge: "x \<in> set xs \<Longrightarrow> x \<le> list_max xs"
  using fold_max_ge [of 0 xs] by (simp add: list_max_def)

lemma max_pane_id_ge: "p \<in> set (collect_pane_ids t) \<Longrightarrow> p \<le> max_pane_id_in_node t"
  by (induction t) auto

lemma snapshot_window_ids:
  "max_window_id_in_snapshot snap < n \<Longrightarrow> list_all (\<lambda>w. ws_id w < n) (snapshot_windows snap)"
  using list_max_ge [of _ "map ws_id (snapshot_windows snap)"]
  by (force simp: max_window_id_in_snapshot_def list_all_iff)

lemma startup_ok:
  assumes "manager_ok m" "list_all snapshot_ok (sv_sessions snap)" "picks pick"
    and "max_window_id_in_snapshot snap < u32_max"
  shows "manager_ok (fst (snd (startup pick spawn_ok cwd now (Some snap) next_pane m)))"
proof -
  let ?n = "set_min_window_id (wrap32 (max_window_id_in_snapshot snap + 1)) (mg_next_window_id m)"
  have n: "mg_next_window_id m \<le> ?n" "max_window_id_in_snapshot snap < ?n"
    using wrap_next [OF assms(4)] by (auto simp: set_min_window_id_def)
  obtain restored m1 where r: "manager_restore pick spawn_ok snap m = (restored, m1)" by (metis surj_pair)
  from manager_restore_ok [OF assms(1-3) n(1) snapshot_window_ids [OF n(2)] r] show ?thesis
    by (simp add: startup_def r Let_def split: prod.split)
qed

lemma restored_panes:
  assumes "list_all snapshot_ok snaps" "picks pick" "\<forall>e \<in> set es. set (session_panes (snd e)) \<subseteq> P"
    and "\<forall>s \<in> set snaps. set (concat (map (\<lambda>w. collect_pane_ids (ws_layout w)) (sn_windows s))) \<subseteq> P"
    and "fold (restore_session pick spawn_ok) snaps (es, rs, wss) = (es', rs', wss')"
  shows "\<forall>e \<in> set es'. set (session_panes (snd e)) \<subseteq> P"
  using assms
proof (induction snaps arbitrary: es rs wss)
  case (Cons snap snaps)
  obtain es1 rs1 wss1 where e: "restore_session pick spawn_ok snap (es, rs, wss) = (es1, rs1, wss1)" by (metis surj_pair)
  have "\<forall>e \<in> set es1. set (session_panes (snd e)) \<subseteq> P"
  proof (cases "has_key (sn_name snap) es \<or> (\<exists>e. session_restore pick spawn_ok snap = Inl e)")
    case True
    then have "es1 = es" using e by (auto simp: restore_session_def split: if_splits)
    with Cons.prems(3) show ?thesis by simp
  next
    case False
    then obtain s where s: "session_restore pick spawn_ok snap = Inr s"
      by (cases "session_restore pick spawn_ok snap") auto
    have "snapshot_ok snap" using Cons.prems(1) by simp
    from session_restore_ok [OF s this Cons.prems(2)] Cons.prems(4) have "set (session_panes s) \<subseteq> P" by force
    moreover have "es1 = AList.update (sn_name snap) s es" using e False s by (simp add: restore_session_def)
    ultimately show ?thesis using Cons.prems(3) set_update_subset [of "sn_name snap" s es] by fastforce
  qed
  from Cons.IH [OF _ Cons.prems(2) this] Cons.prems(1,4,5) e show ?case by simp
qed auto

lemma startup_fresh:
  assumes "mg_sessions m = []" "list_all snapshot_ok (sv_sessions snap)" "picks pick"
    and "max_pane_id_in_snapshot snap < u32_max"
    and "startup pick spawn_ok cwd now (Some snap) next_pane m = (next_pane', m', rewrite)"
    and "(n, s) \<in> set (mg_sessions m')" "p \<in> set (session_panes s)"
  shows "p < next_pane'"
proof -
  let ?mx = "max_pane_id_in_snapshot snap"
  obtain restored m1 where r: "manager_restore pick spawn_ok snap m = (restored, m1)" by (metis surj_pair)
  have ses: "mg_sessions m' = mg_sessions m1"
    and np: "restored \<noteq> [] \<Longrightarrow> ?mx < next_pane'"
    using assms(5) wrap_next [OF assms(4)] by (auto simp: startup_def r Let_def split: if_splits)
  have v: "\<not> (sv_version snap < SNAPSHOT_VERSION_MIN \<or> sv_version snap > SNAPSHOT_VERSION)"
    using r assms(1,6) ses by (auto simp: manager_restore_def)
  obtain es rs wss where f: "fold (restore_session pick spawn_ok) (sv_sessions snap) ([], [], []) = (es, rs, wss)"
    by (metis surj_pair)
  have m1: "restored = rs" "mg_sessions m1 = es" using r v f assms(1) by (simp_all add: manager_restore_def Let_def) auto
  have "rs \<noteq> []" using restore_none [of pick spawn_ok "sv_sessions snap" "[]" "[]" es wss] f m1 assms(6) ses by auto
  have "\<forall>x \<in> set (sv_sessions snap). set (concat (map (\<lambda>w. collect_pane_ids (ws_layout w)) (sn_windows x))) \<subseteq> {..?mx}"
  proof (intro ballI subsetI)
    fix x q
    assume x: "x \<in> set (sv_sessions snap)" "q \<in> set (concat (map (\<lambda>w. collect_pane_ids (ws_layout w)) (sn_windows x)))"
    then obtain w where "w \<in> set (sn_windows x)" "q \<in> set (collect_pane_ids (ws_layout w))" by auto
    with x(1) have "w \<in> set (snapshot_windows snap)" "q \<le> max_pane_id_in_node (ws_layout w)"
      by (auto simp: snapshot_windows_def max_pane_id_ge)
    then show "q \<in> {..?mx}"
      using list_max_ge [of "max_pane_id_in_node (ws_layout w)" "map (max_pane_id_in_node \<circ> ws_layout) (snapshot_windows snap)"]
      by (force simp: max_pane_id_in_snapshot_def)
  qed
  from restored_panes [OF assms(2,3) _ this f] have "set (session_panes s) \<subseteq> {..?mx}"
    using assms(6) ses m1(2) by force
  with assms(7) np \<open>rs \<noteq> []\<close> m1(1) show ?thesis by fastforce
qed

section \<open>Counting and polling\<close>

lemma count_partition:
  "distinct ks \<Longrightarrow> sum_list (map (\<lambda>k. length (filter (\<lambda>x. f x = k) xs)) ks) = length (filter (\<lambda>x. f x \<in> set ks) xs)"
proof (induction ks)
  case (Cons k ks)
  have "length (filter (\<lambda>x. f x \<in> set (k # ks)) xs) =
    length (filter (\<lambda>x. f x = k) xs) + length (filter (\<lambda>x. f x \<in> set ks) xs)"
    using Cons.prems by (induction xs) auto
  with Cons show ?case by simp
qed simp

lemma counts_total:
  assumes "manager_ok m"
  shows "sum_list (map (\<lambda>k. count_in k m) (wk_known (mg_workspaces m))) = length (mg_sessions m)"
proof -
  have "filter (\<lambda>x. ss_workspace_name (snd x) \<in> set (wk_known (mg_workspaces m))) (mg_sessions m) = mg_sessions m"
    using assms by (auto simp: manager_ok_def member_ok_def list_all_iff intro: filter_True)
  moreover have "distinct (wk_known (mg_workspaces m))" using assms by (simp add: manager_ok_def workspaces_ok_def)
  ultimately show ?thesis
    using count_partition [of "wk_known (mg_workspaces m)" "\<lambda>x. ss_workspace_name (snd x)" "mg_sessions m"]
    by (simp add: count_in_def split_def)
qed

lemma map_of_filter_key: "map_of (filter (\<lambda>(i, _). i \<in> A) m) = (\<lambda>i. if i \<in> A then map_of m i else None)"
  by (induction m) auto

lemma note_process_eq:
  "note_process (n, i, name) (seen, out) =
     (if map_of seen i \<noteq> Some name then (AList.update i name seen, out @ [(n, ProcessChanged i name)])
      else (seen, out))"
  by (simp add: note_process_def)

lemma fold_note_process:
  assumes "distinct (map (fst \<circ> snd) obs)"
  shows "fold note_process obs (seen, out) =
    (fold (\<lambda>(_, i, name) m. if map_of seen i \<noteq> Some name then AList.update i name m else m) obs seen,
     out @ map (\<lambda>(n, i, name). (n, ProcessChanged i name)) (filter (\<lambda>(_, i, name). map_of seen i \<noteq> Some name) obs))"
proof -
  have "fold note_process obs (m, out) =
    (fold (\<lambda>(_, i, name) m. if map_of seen i \<noteq> Some name then AList.update i name m else m) obs m,
     out @ map (\<lambda>(n, i, name). (n, ProcessChanged i name)) (filter (\<lambda>(_, i, name). map_of seen i \<noteq> Some name) obs))"
    if "\<forall>i \<in> set (map (fst \<circ> snd) obs). map_of m i = map_of seen i" for m
    using that assms
  proof (induction obs arbitrary: m out)
    case (Cons o1 obs)
    obtain n i name where o1: "o1 = (n, i, name)" by (cases o1)
    let ?m = "if map_of seen i \<noteq> Some name then AList.update i name m else m"
    have "\<forall>j \<in> set (map (fst \<circ> snd) obs). map_of ?m j = map_of seen j"
      using Cons.prems by (auto simp: o1 update_conv')
    from Cons.IH [OF this] Cons.prems show ?case
      by (cases "map_of seen i = Some name") (simp_all add: o1 note_process_eq)
  qed simp
  then show ?thesis by simp
qed

lemma fold_update_seen:
  assumes "distinct (map (fst \<circ> snd) obs)"
  shows "map_of (fold (\<lambda>(_, i, name) m. if P i name then AList.update i name m else m) obs m) j =
    (case List.find (\<lambda>(_, i, _). i = j) obs of
       Some (_, _, name) \<Rightarrow> if P j name then Some name else map_of m j
     | None \<Rightarrow> map_of m j)"
  using assms
proof (induction obs arbitrary: m)
  case (Cons o1 obs)
  obtain n i name where o1: "o1 = (n, i, name)" by (cases o1)
  have "i = j \<Longrightarrow> List.find (\<lambda>(_, i, _). i = j) obs = None"
    using Cons.prems by (force simp: o1 find_None_iff)
  with Cons.IH [of "if P i name then AList.update i name m else m"] Cons.prems show ?case
    by (auto simp: o1 update_conv' split: option.splits)
qed simp

lemma poll_result:
  assumes "distinct (map (fst \<circ> snd) (foreground_now fg m))"
    and "poll_foreground_processes fg last_seen m = (seen, out)"
  shows "map_of seen = (\<lambda>i. if i \<in> set (map (fst \<circ> snd) (foreground_now fg m)) then Some (fg i) else None)"
    and "out = map (\<lambda>(n, i, name). (n, ProcessChanged i name))
      (filter (\<lambda>(_, i, name). map_of last_seen i \<noteq> Some name) (foreground_now fg m))"
proof -
  let ?obs = "foreground_now fg m"
  have fg: "name = fg i" if "(n, i, name) \<in> set ?obs" for n i name
    using that by (auto simp: foreground_now_def)
  show "out = map (\<lambda>(n, i, name). (n, ProcessChanged i name))
      (filter (\<lambda>(_, i, name). map_of last_seen i \<noteq> Some name) ?obs)"
    using assms(2) by (simp add: poll_foreground_processes_def fold_note_process [OF assms(1)] Let_def)
  have seen: "seen = filter (\<lambda>(i, _). i \<in> set (map (fst \<circ> snd) ?obs))
    (fold (\<lambda>(_, i, name) m. if map_of last_seen i \<noteq> Some name then AList.update i name m else m) ?obs last_seen)"
    using assms(2) by (simp add: poll_foreground_processes_def fold_note_process [OF assms(1)] Let_def)
  show "map_of seen = (\<lambda>i. if i \<in> set (map (fst \<circ> snd) ?obs) then Some (fg i) else None)"
  proof
    fix j
    show "map_of seen j = (if j \<in> set (map (fst \<circ> snd) ?obs) then Some (fg j) else None)"
    proof (cases "j \<in> set (map (fst \<circ> snd) ?obs)")
      case True
      then obtain n name where f: "List.find (\<lambda>(_, i, _). i = j) ?obs = Some (n, j, name)"
        by (cases "List.find (\<lambda>(_, i, _). i = j) ?obs") (force simp: find_None_iff find_Some_iff)+
      then have "(n, j, name) \<in> set ?obs" by (auto simp: find_Some_iff) (metis nth_mem)
      then have "name = fg j" by (rule fg)
      with f True show ?thesis unfolding seen map_of_filter_key fold_update_seen [OF assms(1)] by auto
    qed (simp add: seen map_of_filter_key)
  qed
qed

section \<open>A restart\<close>

text \<open>What a restart keeps of a session.\<close>

definition same_session :: "rstr \<times> session \<Rightarrow> rstr \<times> session \<Rightarrow> bool" where
  "same_session a b \<longleftrightarrow>
     fst b = fst a \<and> list_all2 same_saved (ss_windows (snd a)) (ss_windows (snd b))
     \<and> ss_focused_window_id (snd b) = ss_focused_window_id (snd a) \<and> ss_name (snd b) = ss_name (snd a)
     \<and> ss_cols (snd b) = ss_cols (snd a) \<and> ss_rows (snd b) = ss_rows (snd a)
     \<and> ss_workspace_name (snd b) = ss_workspace_name (snd a)"

lemma restore_own_sessions:
  assumes "list_all (member_ok next known) es" "[] \<notin> set known" "distinct (map fst (acc @ es))" "set wss \<subseteq> set known"
  shows "\<exists>es' wss'. fold (restore_session pick (\<lambda>_ _. True)) (map (\<lambda>e. session_to_snapshot cwd (snd e)) es) (acc, rs, wss)
      = (acc @ es', rs @ map fst es, wss')
    \<and> list_all2 same_session es es' \<and> set wss' \<subseteq> set known"
  using assms
proof (induction es arbitrary: acc rs wss)
  case (Cons e es)
  obtain n s where e: "e = (n, s)" by (cases e)
  have s: "session_ok s" "ss_name s = n" "ss_workspace_name s \<in> set known"
    using Cons.prems(1) by (simp_all add: e member_ok_def)
  then have "ss_workspace_name s \<noteq> []" using Cons.prems(2) by auto
  from session_restore_own [OF s(1) this, of pick cwd] obtain s' where
    s': "session_restore pick (\<lambda>_ _. True) (session_to_snapshot cwd s) = Inr s'" "same_session (n, s) (n, s')"
    "ss_workspace_name s' = ss_workspace_name s"
    by (auto simp: same_session_def)
  have nm: "sn_name (session_to_snapshot cwd s) = n" by (simp add: session_to_snapshot_def s(2))
  have new: "n \<notin> set (map fst acc)" using Cons.prems(3) by (simp add: e)
  let ?w = "if ss_workspace_name s' \<noteq> [] \<and> ss_workspace_name s' \<notin> set wss then wss @ [ss_workspace_name s'] else wss"
  have step: "restore_session pick (\<lambda>_ _. True) (session_to_snapshot cwd s) (acc, rs, wss) = (acc @ [(n, s')], rs @ [n], ?w)"
    using new s'(1) update_fresh [OF new, of s'] by (simp add: restore_session_def nm has_key_iff del: set_map)
  have "list_all (member_ok next known) es" "distinct (map fst ((acc @ [(n, s')]) @ es))" "set ?w \<subseteq> set known"
    using Cons.prems s(3) s'(3) by (auto simp: e)
  from Cons.IH [OF this(1) Cons.prems(2) this(2,3), of "rs @ [n]"] obtain es' wss' where
    "fold (restore_session pick (\<lambda>_ _. True)) (map (\<lambda>e. session_to_snapshot cwd (snd e)) es) (acc @ [(n, s')], rs @ [n], ?w)
      = ((acc @ [(n, s')]) @ es', (rs @ [n]) @ map fst es, wss')"
    "list_all2 same_session es es'" "set wss' \<subseteq> set known" by blast
  with step s'(2) show ?case
    by (intro exI [of _ "(n, s') # es'"] exI [of _ wss']) (simp add: e)
qed simp

lemma manager_restore_own:
  assumes "manager_ok m"
  shows "\<exists>m'. manager_restore pick (\<lambda>_ _. True) (manager_to_snapshot cwd now m) (manager_new shell args)
      = (map fst (mg_sessions m), m')
    \<and> mg_workspaces m' = mg_workspaces m \<and> list_all2 same_session (mg_sessions m) (mg_sessions m')"
proof -
  let ?st = "mg_workspaces m" and ?snap = "manager_to_snapshot cwd now m"
  have w: "workspaces_ok ?st" using assms by (simp add: manager_ok_def)
  have "list_all (member_ok (mg_next_window_id m) (wk_known ?st)) (mg_sessions m)" "[] \<notin> set (wk_known ?st)"
    "distinct (map fst ([] @ mg_sessions m))" "set [] \<subseteq> set (wk_known ?st)"
    using assms w by (simp_all add: manager_ok_def workspaces_ok_def)
  from restore_own_sessions [OF this, of pick cwd "[]"] obtain es' wss' where
    f: "fold (restore_session pick (\<lambda>_ _. True)) (map (\<lambda>e. session_to_snapshot cwd (snd e)) (mg_sessions m)) ([], [], [])
      = (es', map fst (mg_sessions m), wss')"
    and es': "list_all2 same_session (mg_sessions m) es'" "set wss' \<subseteq> set (wk_known ?st)" by auto
  obtain rest where k: "wk_known ?st = DEFAULT_WORKSPACE # rest"
    using w by (cases "wk_known ?st") (auto simp: workspaces_ok_def)
  have "fold learn_workspace rest acc = acc @ rest" if "distinct (acc @ rest)" "[] \<notin> set rest" for acc
    using that
  proof (induction rest arbitrary: acc)
    case (Cons x rest)
    have "learn_workspace x acc = acc @ [x]" using Cons.prems by (auto simp: learn_workspace_def)
    with Cons.IH [of "acc @ [x]"] Cons.prems show ?case by simp
  qed simp
  from this [of "[DEFAULT_WORKSPACE]"] w k
  have "fold learn_workspace (wk_known ?st) [DEFAULT_WORKSPACE] = wk_known ?st"
    by (simp add: workspaces_ok_def learn_workspace_def)
  then have "fold learn_workspace (wk_known ?st @ wss') [DEFAULT_WORKSPACE] = wk_known ?st"
    using learn_nothing [OF es'(2)] by simp
  moreover have "wk_current ?st \<in> set (wk_known ?st)" "wk_current ?st \<noteq> []"
    using w by (auto simp: workspaces_ok_def)
  ultimately show ?thesis using es'(1) f
    by (simp add: manager_restore_def manager_to_snapshot_def manager_new_def workspace_state_new_def
        SNAPSHOT_VERSION_def SNAPSHOT_VERSION_MIN_def comp_def)
qed

section \<open>Reachable managers\<close>

inductive manager_reach :: "manager \<Rightarrow> bool" where
  empty: "manager_reach (manager_new shell args)"
| started: "manager_reach m \<Longrightarrow> list_all snapshot_ok (sv_sessions (snap :: string server_snapshot)) \<Longrightarrow>
    picks pick \<Longrightarrow> max_window_id_in_snapshot snap < u32_max \<Longrightarrow>
    manager_reach (fst (snd (startup pick spawn_ok cwd now (Some snap) next_pane m)))"
| created: "manager_reach m \<Longrightarrow> mg_next_window_id m < u32_max \<Longrightarrow>
    manager_reach (snd (create_session spawned name cols rows m))"
| attached: "manager_reach m \<Longrightarrow> mg_next_window_id m < u32_max \<Longrightarrow>
    manager_reach (snd (get_or_create_and_attach spawned name cols rows m))"
| killed: "manager_reach m \<Longrightarrow> manager_reach (snd (kill_session name m))"
| workspace_created: "manager_reach m \<Longrightarrow> manager_reach (snd (create_workspace name m))"
| workspace_switched: "manager_reach m \<Longrightarrow> manager_reach (snd (switch_workspace name m))"
| workspace_renamed: "manager_reach m \<Longrightarrow> manager_reach (snd (rename_workspace from_name to_name m))"
| workspace_deleted: "manager_reach m \<Longrightarrow> manager_reach (snd (delete_workspace name force m))"
| warned: "manager_reach m \<Longrightarrow> manager_reach (set_startup_warnings ws m)"
| drained: "manager_reach m \<Longrightarrow> manager_reach (snd (take_startup_warnings m))"
| inside: "manager_reach m \<Longrightarrow> session_of name m = Some s \<Longrightarrow> session_op (mg_next_window_id m) s n s' \<Longrightarrow>
    manager_reach ((put_session name s' m)\<lparr>mg_next_window_id := n\<rparr>)"

lemma manager_reach_ok: "manager_reach m \<Longrightarrow> manager_ok m"
proof (induction rule: manager_reach.induct)
  case (started m snap pick spawn_ok cwd now next_pane)
  then show ?case using startup_ok by blast
next
  case (inside m name s n s')
  then show ?case using manager_ok_inside by blast
qed (simp_all add: manager_new_ok manager_ok_create manager_ok_kill manager_ok_create_workspace
    manager_ok_switch manager_ok_rename_workspace manager_ok_delete_workspace
    set_startup_warnings_def take_startup_warnings_def, simp_all add: manager_ok_def)

end
