(* ===== verification/Keys.thy ===== *)
theory Keys
  imports Osc_Text
begin

text \<open>
  Key events as the bytes a program expects (\<open>nexterm-server/src/ipc/key.rs\<close>), with the
  keys and modifiers of \<open>nexterm-proto/src/message.rs\<close>.
\<close>

section \<open>Keys and modifiers\<close>

datatype key_code =
    KChar uchar | KF nat | KEnter | KBackspace | KDelete | KEscape | KTab | KBackTab
  | KUp | KDown | KLeft | KRight | KHome | KEnd | KPageUp | KPageDown | KInsert

type_synonym modifiers = u8

definition SHIFT :: u8 where "SHIFT = 1"
definition CTRL :: u8 where "CTRL = 2"
definition ALT :: u8 where "ALT = 4"
definition META :: u8 where "META = 8"

definition is_shift :: "modifiers \<Rightarrow> bool" where "is_shift m \<longleftrightarrow> m AND SHIFT \<noteq> 0"
definition is_ctrl :: "modifiers \<Rightarrow> bool" where "is_ctrl m \<longleftrightarrow> m AND CTRL \<noteq> 0"
definition is_alt :: "modifiers \<Rightarrow> bool" where "is_alt m \<longleftrightarrow> m AND ALT \<noteq> 0"
definition is_meta :: "modifiers \<Rightarrow> bool" where "is_meta m \<longleftrightarrow> m AND META \<noteq> 0"

section \<open>Escape sequences\<close>

definition csi :: "string \<Rightarrow> byte list" where
  "csi s = 27 # 91 # blit s"

definition function_key :: "nat \<Rightarrow> byte list" where
  "function_key n =
     (if n = 1 then 27 # blit ''OP'' else if n = 2 then 27 # blit ''OQ''
      else if n = 3 then 27 # blit ''OR'' else if n = 4 then 27 # blit ''OS''
      else if n = 5 then csi ''15~'' else if n = 6 then csi ''17~'' else if n = 7 then csi ''18~''
      else if n = 8 then csi ''19~'' else if n = 9 then csi ''20~'' else if n = 10 then csi ''21~''
      else if n = 11 then csi ''23~'' else if n = 12 then csi ''24~'' else [])"

text \<open>\<open>ch as u8\<close> keeps the low byte of the character.\<close>

fun key_to_bytes :: "key_code \<Rightarrow> modifiers \<Rightarrow> byte list" where
  "key_to_bytes (KChar ch) mods =
     (let c = (of_nat ch :: u8) AND 31 in
      if is_ctrl mods \<and> c > 0 then [c] else as_bytes [ch])"
| "key_to_bytes (KF n) mods = function_key n"
| "key_to_bytes KEnter mods = [13]"
| "key_to_bytes KBackspace mods = [127]"
| "key_to_bytes KDelete mods = csi ''3~''"
| "key_to_bytes KEscape mods = [27]"
| "key_to_bytes KTab mods = [9]"
| "key_to_bytes KBackTab mods = csi ''Z''"
| "key_to_bytes KUp mods = csi ''A''"
| "key_to_bytes KDown mods = csi ''B''"
| "key_to_bytes KRight mods = csi ''C''"
| "key_to_bytes KLeft mods = csi ''D''"
| "key_to_bytes KHome mods = csi ''H''"
| "key_to_bytes KEnd mods = csi ''F''"
| "key_to_bytes KPageUp mods = csi ''5~''"
| "key_to_bytes KPageDown mods = csi ''6~''"
| "key_to_bytes KInsert mods = csi ''2~''"

section \<open>The Kitty keyboard protocol\<close>

definition kitty_mods_param :: "modifiers \<Rightarrow> u8" where
  "kitty_mods_param m =
     ((if is_shift m then 1 else 0) OR (if is_alt m then 2 else 0) OR (if is_ctrl m then 4 else 0)
      OR (if is_meta m then 8 else 0)) + 1"

fun kitty_functional_codepoint :: "key_code \<Rightarrow> nat option" where
  "kitty_functional_codepoint KEscape = Some 27"
| "kitty_functional_codepoint KEnter = Some 13"
| "kitty_functional_codepoint KTab = Some 9"
| "kitty_functional_codepoint KBackspace = Some 127"
| "kitty_functional_codepoint KDelete = Some 57361"
| "kitty_functional_codepoint KInsert = Some 57348"
| "kitty_functional_codepoint KUp = Some 57352"
| "kitty_functional_codepoint KDown = Some 57353"
| "kitty_functional_codepoint KRight = Some 57351"
| "kitty_functional_codepoint KLeft = Some 57350"
| "kitty_functional_codepoint KHome = Some 57358"
| "kitty_functional_codepoint KEnd = Some 57359"
| "kitty_functional_codepoint KPageUp = Some 57360"
| "kitty_functional_codepoint KPageDown = Some 57362"
| "kitty_functional_codepoint KBackTab = Some 9"
| "kitty_functional_codepoint (KF n) = (if 1 \<le> n \<and> n \<le> 12 then Some (57398 + n) else None)"
| "kitty_functional_codepoint (KChar c) = None"

text \<open>The code point and the modifiers of a key, or nothing for the legacy encoding.\<close>

fun kitty_key :: "key_code \<Rightarrow> modifiers \<Rightarrow> (nat \<times> modifiers) option" where
  "kitty_key (KChar ch) mods = Some (ch, mods)"
| "kitty_key KBackTab mods = Some (9, mods OR SHIFT)"
| "kitty_key code mods = map_option (\<lambda>cp. (cp, mods)) (kitty_functional_codepoint code)"

definition kitty_seq :: "nat \<Rightarrow> nat \<Rightarrow> nat \<Rightarrow> bool \<Rightarrow> rstr" where
  "kitty_seq codepoint mods_param event_type report =
     (let emit_event = report \<or> event_type \<noteq> 1;
          emit_mods = mods_param \<noteq> 1 \<or> emit_event in
      [27, 91] @ dec codepoint @ (if emit_mods then 59 # dec mods_param else [])
      @ (if emit_event then (if emit_mods then [] else [59]) @ 59 # dec event_type else []) @ [117])"

definition kitty_key_to_bytes :: "key_code \<Rightarrow> modifiers \<Rightarrow> nat \<Rightarrow> u8 \<Rightarrow> byte list" where
  "kitty_key_to_bytes code mods event_type flags =
     (case kitty_key code mods of
        None \<Rightarrow> key_to_bytes code mods
      | Some (cp, extra) \<Rightarrow>
          as_bytes (kitty_seq cp (unat (kitty_mods_param extra)) event_type (flags AND 2 \<noteq> 0)))"

section \<open>Reading the sequence back\<close>

text \<open>What a program reads from \<open>CSI code ; modifiers ; event u\<close>, with the defaults of the protocol.\<close>

definition read_csi_u :: "rstr \<Rightarrow> (nat \<times> nat \<times> nat) option" where
  "read_csi_u s =
     (if take 2 s = [27, 91] \<and> 2 < length s \<and> last s = 117 then
        (case map (parse_uint u32_max) (split_on 59 (butlast (drop 2 s))) of
           [Some c] \<Rightarrow> Some (c, 1, 1)
         | [Some c, Some m] \<Rightarrow> Some (c, m, 1)
         | [Some c, Some m, Some e] \<Rightarrow> Some (c, m, e)
         | _ \<Rightarrow> None)
      else None)"

lemma split_on_app: "sep \<notin> set p \<Longrightarrow> split_on sep (p @ sep # r) = p # split_on sep r"
  by (induction p) auto

lemma dec_no_sep: "59 \<notin> set (dec n)" "dec n \<noteq> []"
  using dec_digits [of n] by (auto simp: list_all_iff is_ascii_digit_def)

lemma read_kitty_seq:
  assumes "c \<le> u32_max" "m \<le> u32_max" "e \<le> u32_max"
  shows "read_csi_u (kitty_seq c m e report) = Some (c, m, e)"
proof -
  note d = dec_no_sep parse_uint_dec [OF assms(1)] parse_uint_dec [OF assms(2)] parse_uint_dec [OF assms(3)]
  have tail: "last ([27, 91] @ x @ [117]) = 117" "take 2 ([27, 91] @ x @ [117 :: nat]) = [27, 91]"
    "butlast (drop 2 ([27, 91] @ x @ [117 :: nat])) = x" "2 < length ([27, 91] @ x @ [117 :: nat])" for x
    by (simp_all add: butlast_append)
  have "\<exists>x. kitty_seq c m e report = [27, 91] @ x @ [117] \<and>
    (case map (parse_uint u32_max) (split_on 59 x) of
           [Some c] \<Rightarrow> Some (c, 1, 1)
         | [Some c, Some m] \<Rightarrow> Some (c, m, 1)
         | [Some c, Some m, Some e] \<Rightarrow> Some (c, m, e)
         | _ \<Rightarrow> None) = Some (c, m, e)"
  proof (cases "report \<or> e \<noteq> 1")
    case True
    then show ?thesis
      by (intro exI [of _ "dec c @ 59 # dec m @ 59 # dec e"])
        (auto simp: kitty_seq_def split_on_app split_on_single d)
  next
    case e: False
    show ?thesis
    proof (cases "m = 1")
      case True
      with e show ?thesis
        by (intro exI [of _ "dec c"]) (auto simp: kitty_seq_def split_on_single d)
    next
      case False
      with e show ?thesis
        by (intro exI [of _ "dec c @ 59 # dec m"]) (auto simp: kitty_seq_def split_on_app split_on_single d)
    qed
  qed
  then obtain x where x: "kitty_seq c m e report = [27, 91] @ x @ [117]"
    "(case map (parse_uint u32_max) (split_on 59 x) of
           [Some c] \<Rightarrow> Some (c, 1, 1)
         | [Some c, Some m] \<Rightarrow> Some (c, m, 1)
         | [Some c, Some m, Some e] \<Rightarrow> Some (c, m, e)
         | _ \<Rightarrow> None) = Some (c, m, e)" by blast
  then show ?thesis unfolding x(1) read_csi_u_def tail by (simp only: simp_thms if_True tail)
qed

lemma kitty_mods_bits:
  "bit (kitty_mods_param m - 1) 0 = is_shift m" "bit (kitty_mods_param m - 1) 1 = is_alt m"
  "bit (kitty_mods_param m - 1) 2 = is_ctrl m" "bit (kitty_mods_param m - 1) 3 = is_meta m"
  by (simp_all add: kitty_mods_param_def bit_simps)

lemma dec_ascii: "list_all (\<lambda>c. c < 128) (dec n)"
  using dec_digits [of n] by (auto simp: list_all_iff is_ascii_digit_def)

lemma kitty_seq_scalar: "list_all is_scalar (kitty_seq c m e r)"
proof -
  have "list_all is_scalar (dec n)" for n
    using dec_ascii [of n] by (auto simp: list_all_iff is_scalar_def)
  then show ?thesis by (simp add: kitty_seq_def Let_def is_scalar_def)
qed

end
