(* ===== verification/Dispatch.thy ===== *)
theory Dispatch
  imports Manager_Life Client_State Keys
begin

text \<open>
  The dispatch of a client's requests (\<open>nexterm-server/src/ipc/{dispatch,pane_dispatch,
  window_dispatch,session_dispatch}.rs\<close>).  A handler maps the window counter and the session
  to the messages for the client, the bytes for the PTYs, the counter and the session; where
  it can panic the result is an option.  The locks are taken once per handler: the second
  look at the session, after a reply was chosen, sees the same session.
\<close>

section \<open>What is outside\<close>

text \<open>
  The outcome of the spawn a request causes, with the id drawn from the pane counter, the
  grids and shared states of the panes, the processes in the foreground, and the number of
  receivers of each session's channel.
\<close>

record env =
  ev_pane :: nat
  ev_spawn :: "rstr + unit"
  ev_view :: "nat \<Rightarrow> grid"
  ev_shared :: "nat \<Rightarrow> pane_shared"
  ev_busy :: "nat \<Rightarrow> bool"
  ev_receivers :: "rstr \<Rightarrow> nat"
  ev_pick :: "nat list \<Rightarrow> nat"

definition spawned :: "env \<Rightarrow> rstr + nat" where
  "spawned ev = (case ev_spawn ev of Inl e \<Rightarrow> Inl e | Inr _ \<Rightarrow> Inr (ev_pane ev))"

record reply =
  rp_msgs :: "server_msg list"
  rp_writes :: "(nat \<times> byte list) list"
  rp_next :: nat
  rp_session :: session

definition answer :: "server_msg list \<Rightarrow> nat \<Rightarrow> session \<Rightarrow> reply" where
  "answer msgs next s = \<lparr>rp_msgs = msgs, rp_writes = [], rp_next = next, rp_session = s\<rparr>"

definition layout_msg :: "nat \<Rightarrow> nat \<Rightarrow> window \<Rightarrow> server_msg" where
  "layout_msg cols rows w =
     (case layout_changed_msg cols rows w of (panes, focused) \<Rightarrow> LayoutChanged panes focused)"

definition focused_layout :: "session \<Rightarrow> server_msg list" where
  "focused_layout s =
     (case focused_window s of None \<Rightarrow> [] | Some w \<Rightarrow> [layout_msg (ss_cols s) (ss_rows s) w])"

definition window_layout :: "nat \<Rightarrow> session \<Rightarrow> server_msg list" where
  "window_layout i s =
     (case session_window i s of None \<Rightarrow> [] | Some w \<Rightarrow> [layout_msg (ss_cols s) (ss_rows s) w])"

text \<open>The refresh of a PTY pane of a window, and of the focused one.\<close>

definition pane_refresh :: "env \<Rightarrow> nat \<Rightarrow> window \<Rightarrow> server_msg list" where
  "pane_refresh ev i w = (if has_key i (w_panes w) then [FullRefresh i (ev_view ev i)] else [])"

definition focused_refresh :: "env \<Rightarrow> session \<Rightarrow> server_msg list" where
  "focused_refresh ev s =
     (case focused_window s of None \<Rightarrow> [] | Some w \<Rightarrow> pane_refresh ev (w_focused_pane_id w) w)"

definition error_msg :: "session_error \<Rightarrow> server_msg" where
  "error_msg e = ServerError (error_text e)"

section \<open>Windows\<close>

definition handle_resize :: "nat \<Rightarrow> nat \<Rightarrow> nat \<Rightarrow> session \<Rightarrow> reply" where
  "handle_resize cols rows next s =
     (let s' = snd (resize_focused cols rows s) in
      answer (case focused_window s' of None \<Rightarrow> [] | Some w \<Rightarrow> [layout_msg cols rows w]) next s')"

text \<open>The size the reply claims for a new pane comes from the layout message, if it is listed.\<close>

definition claimed_size :: "nat \<Rightarrow> session \<Rightarrow> window \<Rightarrow> nat \<times> nat" where
  "claimed_size i s w =
     (case List.find (\<lambda>p. pl_pane_id p = i) (fst (layout_changed_msg (ss_cols s) (ss_rows s) w)) of
        Some p \<Rightarrow> (pl_cols p, pl_rows p)
      | None \<Rightarrow> (ss_cols s, ss_rows s))"

definition split_error :: "env \<Rightarrow> split_dir \<Rightarrow> window \<Rightarrow> rstr" where
  "split_error ev dir w =
     (if fst (insert_after (w_layout w) (w_focused_pane_id w) (ev_pane ev) dir)
      then (case ev_spawn ev of Inl e \<Rightarrow> e | Inr _ \<Rightarrow> [])
      else lit ''failed to insert pane '' @ dec (ev_pane ev)
        @ lit '' into the BSP tree next to focused pane '' @ dec (w_focused_pane_id w))"

definition handle_split :: "env \<Rightarrow> split_dir \<Rightarrow> nat \<Rightarrow> session \<Rightarrow> reply" where
  "handle_split ev dir next s =
     (case focused_window s of
        None \<Rightarrow> answer [] next s
      | Some w \<Rightarrow>
          (case add_pane_with_options (ev_pane ev) (\<not> isl (ev_spawn ev)) dir (ss_cols s) (ss_rows s) w of
             (None, w') \<Rightarrow>
               answer [ServerError (split_error ev dir w)] next (put_window (ss_focused_window_id s) w' s)
           | (Some i, w') \<Rightarrow>
               (let (pc, pr) = claimed_size i s w' in
                answer [FullRefresh i (grid_new pc pr), layout_msg (ss_cols s) (ss_rows s) w'] next
                  (put_window (ss_focused_window_id s) w' s))))"

text \<open>An operation on the focused window, answered with its layout.\<close>

definition with_layout :: "(window \<Rightarrow> window) \<Rightarrow> nat \<Rightarrow> session \<Rightarrow> reply" where
  "with_layout f next s = (let s' = on_focused f s in answer (focused_layout s') next s')"

definition handle_resize_split :: "f32 \<Rightarrow> nat \<Rightarrow> session \<Rightarrow> reply" where
  "handle_resize_split delta next s =
     with_layout (adjust_split_ratio delta (ss_cols s) (ss_rows s)) next s"

definition handle_new_window :: "env \<Rightarrow> nat \<Rightarrow> session \<Rightarrow> reply" where
  "handle_new_window ev next s =
     (case add_window (spawned ev) next s of
        (Inl e, next', s') \<Rightarrow> answer [error_msg e] next' s'
      | (Inr wid, next', s') \<Rightarrow>
          answer (WindowListChanged (window_list s')
            # (case focused_refresh ev s' of [] \<Rightarrow> [] | m # _ \<Rightarrow> m # focused_layout s')) next' s')"

definition handle_close_window :: "env \<Rightarrow> nat \<Rightarrow> nat \<Rightarrow> session \<Rightarrow> reply" where
  "handle_close_window ev i next s =
     (case remove_window (ev_pick ev) i s of
        (Inl e, s') \<Rightarrow> answer [error_msg e] next s'
      | (Inr _, s') \<Rightarrow> answer [WindowListChanged (window_list s')] next s')"

definition handle_focus_window :: "env \<Rightarrow> nat \<Rightarrow> nat \<Rightarrow> session \<Rightarrow> reply" where
  "handle_focus_window ev i next s =
     (case focus_window i s of
        (Inl e, s') \<Rightarrow> answer [error_msg e] next s'
      | (Inr _, s') \<Rightarrow>
          answer (case focused_window s' of
              None \<Rightarrow> []
            | Some w \<Rightarrow> WindowListChanged (window_list s') # focused_layout s' @ focused_refresh ev s') next s')"

definition handle_rename_window :: "nat \<Rightarrow> rstr \<Rightarrow> nat \<Rightarrow> session \<Rightarrow> reply" where
  "handle_rename_window i name next s =
     (case rename_window i name s of
        (Inl e, s') \<Rightarrow> answer [error_msg e] next s'
      | (Inr _, s') \<Rightarrow> answer [WindowListChanged (window_list s')] next s')"

definition handle_set_layout_mode :: "rstr \<Rightarrow> nat \<Rightarrow> session \<Rightarrow> reply" where
  "handle_set_layout_mode mode next s =
     with_layout (set_layout_mode (layout_mode_from_str mode) (ss_cols s) (ss_rows s)) next s"

definition has_foreground_process :: "env \<Rightarrow> window \<Rightarrow> bool" where
  "has_foreground_process ev w = list_ex (ev_busy ev) (map fst (w_panes w))"

definition handle_query_foreground_process :: "env \<Rightarrow> nat \<Rightarrow> nat \<Rightarrow> session \<Rightarrow> reply" where
  "handle_query_foreground_process ev i next s =
     answer [ForegroundProcessStatus i
       (case session_window i s of None \<Rightarrow> False | Some w \<Rightarrow> has_foreground_process ev w)] next s"

section \<open>Panes\<close>

definition handle_focus_next_pane :: "nat \<Rightarrow> session \<Rightarrow> reply" where
  "handle_focus_next_pane next s = with_layout focus_next next s"

definition handle_focus_prev_pane :: "nat \<Rightarrow> session \<Rightarrow> reply" where
  "handle_focus_prev_pane next s = with_layout focus_prev next s"

definition handle_focus_pane :: "nat \<Rightarrow> nat \<Rightarrow> session \<Rightarrow> reply" where
  "handle_focus_pane i next s = with_layout (set_focused_pane i) next s"

definition handle_close_pane :: "nat \<Rightarrow> session \<Rightarrow> reply option" where
  "handle_close_pane next s =
     (case focused_window s of
        None \<Rightarrow> Some (answer [] next s)
      | Some w \<Rightarrow>
          (case remove_focused_pane (ss_cols s) (ss_rows s) w of
             None \<Rightarrow> None
           | Some (None, w') \<Rightarrow>
               Some (answer [ServerError (lit ''cannot remove the last remaining pane'')] next
                 (put_window (ss_focused_window_id s) w' s))
           | Some (Some i, w') \<Rightarrow>
               (let s' = put_window (ss_focused_window_id s) w' s in
                Some (answer (PaneClosed i # focused_layout s') next s'))))"

definition handle_toggle_zoom :: "nat \<Rightarrow> session \<Rightarrow> reply" where
  "handle_toggle_zoom next s =
     (case focused_window s of
        None \<Rightarrow> answer [] next s
      | Some w \<Rightarrow>
          (case toggle_zoom (ss_cols s) (ss_rows s) w of
             (zoomed, w') \<Rightarrow>
               answer [ZoomChanged zoomed, layout_msg (ss_cols s) (ss_rows s) w'] next
                 (put_window (ss_focused_window_id s) w' s)))"

definition handle_reorder_panes :: "nat list \<Rightarrow> nat \<Rightarrow> session \<Rightarrow> reply" where
  "handle_reorder_panes order next s =
     (case focused_window s of
        None \<Rightarrow> answer [] next s
      | Some w \<Rightarrow>
          (case reorder_panes order w of
             (changed, w') \<Rightarrow>
               answer (if changed then [layout_msg (ss_cols s) (ss_rows s) w'] else []) next
                 (put_window (ss_focused_window_id s) w' s)))"

definition handle_swap_pane :: "nat \<Rightarrow> nat \<Rightarrow> session \<Rightarrow> reply" where
  "handle_swap_pane target next s = with_layout (swap_focused_with target) next s"

definition handle_break_pane :: "nat \<Rightarrow> session \<Rightarrow> reply option" where
  "handle_break_pane next s =
     (case break_pane next s of
        None \<Rightarrow> None
      | Some (Inl e, next', s') \<Rightarrow> Some (answer [] next' s')
      | Some (Inr wid, next', s') \<Rightarrow>
          Some (answer ([PaneBroken wid (case focused_window s' of None \<Rightarrow> 0 | Some w \<Rightarrow> w_focused_pane_id w),
              WindowListChanged (window_list s')] @ focused_layout s @ focused_layout s') next' s'))"

definition handle_join_pane :: "env \<Rightarrow> nat \<Rightarrow> nat \<Rightarrow> session \<Rightarrow> reply option" where
  "handle_join_pane ev target next s =
     (case join_pane target s of
        None \<Rightarrow> None
      | Some (Inl e, s') \<Rightarrow> Some (answer [] next s')
      | Some (Inr i, s') \<Rightarrow>
          Some (answer (WindowListChanged (window_list s') # focused_layout s'
            @ (case focused_window s' of None \<Rightarrow> [] | Some w \<Rightarrow> pane_refresh ev i w)) next s'))"

definition handle_move_pane_to_window :: "env \<Rightarrow> nat \<Rightarrow> nat \<Rightarrow> nat option \<Rightarrow> nat \<Rightarrow> session \<Rightarrow> reply option" where
  "handle_move_pane_to_window ev i target pos next s =
     (case move_pane i target pos next s of
        None \<Rightarrow> None
      | Some (Inl e, next', s') \<Rightarrow> Some (answer [] next' s')
      | Some (Inr (src, wid, q), next', s') \<Rightarrow>
          Some (answer (WindowListChanged (window_list s') # window_layout src s' @ window_layout wid s'
            @ (case session_window wid s' of None \<Rightarrow> [] | Some w \<Rightarrow> pane_refresh ev q w)) next' s'))"

definition handle_open_floating_pane :: "env \<Rightarrow> nat \<Rightarrow> session \<Rightarrow> reply" where
  "handle_open_floating_pane ev next s =
     (case focused_window s of
        None \<Rightarrow> answer [] next s
      | Some w \<Rightarrow>
          (case open_floating_pane (ev_pane ev) (\<not> isl (ev_spawn ev)) (ss_cols s) (ss_rows s) w of
             (None, w') \<Rightarrow>
               answer [ServerError (case ev_spawn ev of Inl e \<Rightarrow> e | Inr _ \<Rightarrow> [])] next
                 (put_window (ss_focused_window_id s) w' s)
           | (Some (i, r), w') \<Rightarrow>
               answer [FloatingPaneOpened i r] next (put_window (ss_focused_window_id s) w' s)))"

definition handle_close_floating_pane :: "nat \<Rightarrow> nat \<Rightarrow> session \<Rightarrow> reply" where
  "handle_close_floating_pane i next s =
     (case focused_window s of
        None \<Rightarrow> answer [] next s
      | Some w \<Rightarrow>
          (case close_floating_pane i w of
             (was, w') \<Rightarrow>
               answer (if was then [FloatingPaneClosed i] else []) next
                 (put_window (ss_focused_window_id s) w' s)))"

definition floating_moved :: "nat \<Rightarrow> float_rect option \<times> window \<Rightarrow> nat \<Rightarrow> session \<Rightarrow> reply" where
  "floating_moved i r next s =
     answer (case fst r of None \<Rightarrow> [] | Some rect \<Rightarrow> [FloatingPaneMoved i rect]) next
       (put_window (ss_focused_window_id s) (snd r) s)"

definition handle_move_floating_pane :: "nat \<Rightarrow> nat \<Rightarrow> nat \<Rightarrow> nat \<Rightarrow> session \<Rightarrow> reply" where
  "handle_move_floating_pane i col_off row_off next s =
     (case focused_window s of
        None \<Rightarrow> answer [] next s
      | Some w \<Rightarrow> floating_moved i (move_floating_pane i col_off row_off w) next s)"

definition handle_resize_floating_pane :: "nat \<Rightarrow> nat \<Rightarrow> nat \<Rightarrow> nat \<Rightarrow> session \<Rightarrow> reply" where
  "handle_resize_floating_pane i cols rows next s =
     (case focused_window s of
        None \<Rightarrow> answer [] next s
      | Some w \<Rightarrow> floating_moved i (resize_floating_pane i cols rows w) next s)"

definition handle_connect_serial :: "env \<Rightarrow> rstr \<Rightarrow> nat \<Rightarrow> session \<Rightarrow> reply" where
  "handle_connect_serial ev port next s =
     (case focused_window s of
        None \<Rightarrow> answer [error_msg FocusedWindowNotFound] next s
      | Some w \<Rightarrow>
          (case add_serial_pane (if isl (ev_spawn ev) then None else Some (ev_pane ev)) Vertical
                  (ss_cols s) (ss_rows s) w of
             (None, w') \<Rightarrow> answer [ServerError (case ev_spawn ev of Inl e \<Rightarrow> e | Inr _ \<Rightarrow> [])] next s
           | (Some i, w') \<Rightarrow>
               (let s' = put_window (ss_focused_window_id s) w' s in
                answer (SerialConnected i port # focused_layout s') next s')))"

definition handle_set_broadcast :: "bool \<Rightarrow> nat \<Rightarrow> session \<Rightarrow> reply" where
  "handle_set_broadcast enabled next s = answer [BroadcastModeChanged enabled] next (set_broadcast enabled s)"

section \<open>Input\<close>

text \<open>An error of the write is only logged.\<close>

definition typed :: "byte list \<Rightarrow> nat \<Rightarrow> session \<Rightarrow> reply" where
  "typed data next s =
     \<lparr>rp_msgs = [], rp_writes = (case session_write_to_focused data s of Inl _ \<Rightarrow> [] | Inr ws \<Rightarrow> ws),
      rp_next = next, rp_session = s\<rparr>"

definition handle_key_event :: "env \<Rightarrow> key_code \<Rightarrow> modifiers \<Rightarrow> nat \<Rightarrow> nat \<Rightarrow> session \<Rightarrow> reply" where
  "handle_key_event ev code mods event_type next s =
     (let flags = focused_keyboard_protocol_flags (ev_shared ev) s;
          bytes = (if flags \<noteq> 0 then kitty_key_to_bytes code mods event_type flags
                   else key_to_bytes code mods) in
      if bytes = [] then answer [] next s else typed bytes next s)"

definition paste_bytes :: "bool \<Rightarrow> rstr \<Rightarrow> byte list" where
  "paste_bytes bracketed text =
     (if bracketed then 27 # blit ''[200~'' @ as_bytes text @ 27 # blit ''[201~'' else as_bytes text)"

definition handle_paste_text :: "env \<Rightarrow> rstr \<Rightarrow> nat \<Rightarrow> session \<Rightarrow> reply" where
  "handle_paste_text ev text next s =
     typed (paste_bytes (focused_bracketed_paste_mode (ev_shared ev) s) text) next s"

text \<open>The drop event goes to the focused PTY pane, never to the other panes in broadcast mode.\<close>

definition handle_dnd_drop :: "env \<Rightarrow> rstr \<Rightarrow> rstr \<Rightarrow> nat \<Rightarrow> session \<Rightarrow> reply" where
  "handle_dnd_drop ev path paste_fallback next s =
     (if focused_dnd_enabled (ev_shared ev) s then
        (case focused_window s of
           None \<Rightarrow> answer [] next s
         | Some w \<Rightarrow>
             (if has_key (w_focused_pane_id w) (w_panes w) then
                \<lparr>rp_msgs = [],
                 rp_writes = [(w_focused_pane_id w,
                   fst (offer_dnd_drop (path_to_file_uri path) (ev_shared ev (w_focused_pane_id w))))],
                 rp_next = next, rp_session = s\<rparr>
              else answer [] next s))
      else handle_paste_text ev paste_fallback next s)"

definition mouse_seq :: "nat \<Rightarrow> nat \<Rightarrow> nat \<Rightarrow> bool \<Rightarrow> bool \<Rightarrow> rstr" where
  "mouse_seq button col row pressed motion =
     [27, 91, 60] @ dec (button + (if motion then 32 else 0)) @ 59 # dec (wrap16 (col + 1)) @ 59 # dec (wrap16 (row + 1))
     @ [if pressed \<or> motion then 77 else 109]"

definition handle_mouse_report ::
  "env \<Rightarrow> nat \<Rightarrow> nat \<Rightarrow> nat \<Rightarrow> bool \<Rightarrow> bool \<Rightarrow> nat \<Rightarrow> session \<Rightarrow> reply" where
  "handle_mouse_report ev button col row pressed motion next s =
     (if focused_mouse_mode (ev_shared ev) s > 0
      then typed (as_bytes (mouse_seq button col row pressed motion)) next s else answer [] next s)"

end
