(* ===== verification/Framing.thy ===== *)
theory Framing
  imports Rust_Str
begin

text \<open>
  The frames of the connection between server and client: a length of four bytes, low byte
  first, and the payload.  Both ends write them the same way
  (\<open>nexterm-server/src/ipc/handler.rs\<close>, \<open>nexterm-client-core/src/lib.rs\<close>) and refuse a
  length above the limit of \<open>nexterm-proto/src/lib.rs\<close>.  The payloads are the encodings of
  the \<open>postcard\<close> library.
\<close>

section \<open>Lengths\<close>

definition MAX_MSG_LEN :: nat where "MAX_MSG_LEN = 64 * 1024 * 1024"

definition validate_msg_len :: "nat \<Rightarrow> rstr + unit" where
  "validate_msg_len n =
     (if n > MAX_MSG_LEN
      then Inl (lit ''IPC message size exceeds the limit: '' @ dec n @ lit '' > '' @ dec MAX_MSG_LEN @ lit '' bytes'')
      else Inr ())"

fun from_le_bytes :: "byte list \<Rightarrow> nat" where
  "from_le_bytes [] = 0"
| "from_le_bytes (b # bs) = unat b + 256 * from_le_bytes bs"

fun to_le_bytes :: "nat \<Rightarrow> nat \<Rightarrow> byte list" where
  "to_le_bytes 0 n = []"
| "to_le_bytes (Suc k) n = of_nat n # to_le_bytes k (n div 256)"

lemma to_le_length [simp]: "length (to_le_bytes k n) = k"
  by (induction k arbitrary: n) auto

lemma from_to_le: "n < 256 ^ k \<Longrightarrow> from_le_bytes (to_le_bytes k n) = n"
proof (induction k arbitrary: n)
  case (Suc k)
  then have "n div 256 < 256 ^ k" by (simp add: less_mult_imp_div_less)
  with Suc.IH show ?case by (simp add: unat_of_nat)
qed simp

section \<open>Frames\<close>

text \<open>The payload with its length, which is cut to 32 bits.\<close>

definition frame :: "byte list \<Rightarrow> byte list" where
  "frame payload = to_le_bytes 4 (wrap32 (length payload)) @ payload"

text \<open>\<open>read_exact\<close> on what is left of the stream, and one frame: its payload and the rest.\<close>

definition read_exact :: "nat \<Rightarrow> byte list \<Rightarrow> (byte list \<times> byte list) option" where
  "read_exact n bs = (if n \<le> length bs then Some (take n bs, drop n bs) else None)"

datatype frame_error = NoHeader | Oversized nat | NoPayload

definition read_frame :: "byte list \<Rightarrow> frame_error + byte list \<times> byte list" where
  "read_frame bs =
     (case read_exact 4 bs of
        None \<Rightarrow> Inl NoHeader
      | Some (len_buf, rest) \<Rightarrow>
          (let msg_len = from_le_bytes len_buf in
           if isl (validate_msg_len msg_len) then Inl (Oversized msg_len)
           else (case read_exact msg_len rest of None \<Rightarrow> Inl NoPayload | Some r \<Rightarrow> Inr r)))"

lemma read_frame_less:
  assumes "read_frame bs = Inr (payload, rest)"
  shows "length rest < length bs"
  using assms by (auto simp: read_frame_def read_exact_def Let_def split: if_splits)

lemma valid_len: "isl (validate_msg_len n) \<longleftrightarrow> n > MAX_MSG_LEN"
  by (simp add: validate_msg_len_def)

lemma wrap32_small: "n \<le> MAX_MSG_LEN \<Longrightarrow> wrap32 n = n"
  by (simp add: MAX_MSG_LEN_def)

lemma header:
  assumes "n < 2 ^ 32"
  shows "read_exact 4 (to_le_bytes 4 n @ rest) = Some (to_le_bytes 4 n, rest)" "from_le_bytes (to_le_bytes 4 n) = n"
  using assms by (simp_all add: read_exact_def from_to_le)

lemma read_frame_frame:
  assumes "length payload \<le> MAX_MSG_LEN"
  shows "read_frame (frame payload @ rest) = Inr (payload, rest)"
proof -
  have "length payload < 2 ^ 32" using assms by (simp add: MAX_MSG_LEN_def)
  note h = header [OF this]
  show ?thesis unfolding read_frame_def frame_def wrap32_small [OF assms] append_assoc h(1) option.case prod.case
    using assms by (simp add: h(2) valid_len read_exact_def)
qed

lemma read_frame_oversized:
  assumes "length payload > MAX_MSG_LEN" "length payload < 2 ^ 32"
  shows "read_frame (frame payload @ rest) = Inl (Oversized (length payload))"
proof -
  have w: "wrap32 (length payload) = length payload" using assms(2) by simp
  note h = header [OF assms(2)]
  show ?thesis unfolding read_frame_def frame_def w append_assoc h(1) option.case prod.case
    using assms by (simp add: h(2) valid_len)
qed

lemma read_frame_end [simp]: "read_frame [] = Inl NoHeader"
  by (simp add: read_frame_def read_exact_def)

section \<open>Receiving\<close>

text \<open>
  The receiver of a client: the messages it passes on before the stream ends or a frame is
  refused.  A payload that does not decode is skipped.
\<close>

function client_receive :: "(byte list \<Rightarrow> 'm option) \<Rightarrow> byte list \<Rightarrow> 'm list \<times> frame_error" where
  "client_receive decode bs =
     (case read_frame bs of
        Inl e \<Rightarrow> ([], e)
      | Inr (payload, rest) \<Rightarrow>
          (case client_receive decode rest of
             (ms, e) \<Rightarrow> (case decode payload of None \<Rightarrow> ms | Some m \<Rightarrow> m # ms, e)))"
  by pat_completeness auto
termination
  by (relation "measure (\<lambda>(decode, bs). length bs)") (auto dest: read_frame_less)

declare client_receive.simps [simp del]

lemma client_receive_frame:
  assumes "length payload \<le> MAX_MSG_LEN"
  shows "client_receive decode (frame payload @ rest) =
    (case client_receive decode rest of
       (ms, e) \<Rightarrow> (case decode payload of None \<Rightarrow> ms | Some m \<Rightarrow> m # ms, e))"
  by (subst client_receive.simps) (simp add: read_frame_frame [OF assms])

lemma client_receive_frames:
  assumes "\<forall>m \<in> set ms. decode (encode m) = Some m \<and> length (encode m) \<le> MAX_MSG_LEN"
  shows "client_receive decode (concat (map (frame \<circ> encode) ms) @ rest) =
    (case client_receive decode rest of (ns, e) \<Rightarrow> (ms @ ns, e))"
  using assms
proof (induction ms)
  case (Cons m ms)
  then show ?case by (simp add: client_receive_frame split: prod.splits)
qed (simp split: prod.split)

end
