(* ===== verification/Requests.thy ===== *)
theory Requests
  imports Dispatch Framing
begin

text \<open>
  A connection of a client: the requests (\<open>ClientToServer\<close> of \<open>nexterm-proto/src/message.rs\<close>),
  the handlers that act on the session manager (\<open>nexterm-server/src/ipc/session_dispatch.rs\<close>),
  the dispatch of a request (\<open>dispatch.rs\<close>) and the loop that reads requests from the stream
  behind the handshake (\<open>handler.rs\<close>).
\<close>

section \<open>Requests\<close>

text \<open>
  \<open>OtherRequest\<close> stands for the variants of recordings, templates, SSH, SFTP, macros and
  plugins, by their position in the enum; their handlers are outside this development.
\<close>

datatype (plugins only: code) client_msg =
    KeyEvent key_code modifiers nat
  | Resize nat nat
  | Detach
  | Attach rstr
  | SplitVertical
  | SplitHorizontal
  | SplitWithShell
  | FocusNextPane
  | FocusPrevPane
  | FocusPane nat
  | PasteText rstr
  | Ping
  | ListSessions
  | KillSession rstr
  | ClosePane
  | ResizeSplit f32
  | NewWindow
  | CloseWindow nat
  | FocusWindow nat
  | RenameWindow nat rstr
  | SetBroadcast bool
  | DisplayPanes bool
  | ToggleZoom
  | SwapPane nat
  | BreakPane
  | JoinPane nat
  | MouseReport nat nat nat bool bool
  | SetLayoutMode rstr
  | OpenFloatingPane
  | CloseFloatingPane nat
  | MoveFloatingPane nat nat nat
  | ResizeFloatingPane nat nat nat
  | ConnectSerial rstr
  | ListWorkspaces
  | CreateWorkspace rstr
  | SwitchWorkspace rstr
  | RenameWorkspace rstr rstr
  | DeleteWorkspace rstr bool
  | QuakeToggle rstr
  | ReorderPanes "nat list"
  | MovePaneToWindow nat nat "nat option"
  | Hello nat
  | QueryForegroundProcess nat
  | SetThemeColors "nat \<times> nat \<times> nat" "nat \<times> nat \<times> nat"
  | DndDrop rstr rstr
  | OtherRequest nat

text \<open>
  What a connection keeps: the session named by the last attach and the session whose
  channel the forwarder task subscribed to, beside the shared manager and the theme colours.
\<close>

record served =
  sd_current :: "rstr option"
  sd_forwarder :: "rstr option"
  sd_manager :: manager
  sd_theme :: "((nat \<times> nat \<times> nat) \<times> (nat \<times> nat \<times> nat)) option"

text \<open>
  What a request causes: messages to this client, messages into the channels of sessions,
  and bytes for the PTYs.
\<close>

record effects =
  ef_msgs :: "server_msg list"
  ef_sent :: "(rstr \<times> server_msg) list"
  ef_writes :: "(nat \<times> byte list) list"

definition send_only :: "server_msg list \<Rightarrow> effects" where
  "send_only msgs = \<lparr>ef_msgs = msgs, ef_sent = [], ef_writes = []\<rparr>"

section \<open>Handlers of the current session\<close>

text \<open>A handler on the current session; \<open>missing\<close> is the answer when it is gone.\<close>

definition at_session ::
  "(nat \<Rightarrow> session \<Rightarrow> reply option) \<Rightarrow> (rstr \<Rightarrow> server_msg list) \<Rightarrow> served \<Rightarrow> (effects \<times> served) option" where
  "at_session h missing d =
     (case sd_current d of
        None \<Rightarrow> Some (send_only [], d)
      | Some name \<Rightarrow>
          (case session_of name (sd_manager d) of
             None \<Rightarrow> Some (send_only (missing name), d)
           | Some s \<Rightarrow>
               map_option (\<lambda>r. (\<lparr>ef_msgs = rp_msgs r, ef_sent = [], ef_writes = rp_writes r\<rparr>,
                   d\<lparr>sd_manager := (put_session name (rp_session r) (sd_manager d))\<lparr>mg_next_window_id := rp_next r\<rparr>\<rparr>))
                 (h (mg_next_window_id (sd_manager d)) s)))"

abbreviation on_session :: "(nat \<Rightarrow> session \<Rightarrow> reply) \<Rightarrow> served \<Rightarrow> (effects \<times> served) option" where
  "on_session h \<equiv> at_session (\<lambda>next s. Some (h next s)) (\<lambda>_. [])"

section \<open>Handlers of the manager\<close>

definition is_blank_grid :: "grid \<Rightarrow> bool" where
  "is_blank_grid g = list_all (list_all (\<lambda>c. cell_ch c = 32)) (g_rows g)"

definition focused_pane_full_refresh :: "env \<Rightarrow> window \<Rightarrow> (nat \<times> grid) option" where
  "focused_pane_full_refresh ev w =
     (let i = w_focused_pane_id w in
      if has_key i (w_panes w) \<or> has_key i (w_serial_panes w) then Some (i, ev_view ev i) else None)"

text \<open>The carriage return for a pane whose shell has not printed its prompt.\<close>

definition attach_nudge :: "env \<Rightarrow> session \<Rightarrow> (nat \<times> byte list) list" where
  "attach_nudge ev s =
     (case focused_window s of
        None \<Rightarrow> []
      | Some w \<Rightarrow>
          (case focused_pane_full_refresh ev w of
             None \<Rightarrow> []
           | Some (i, g) \<Rightarrow>
               (if g_width g > 0 \<and> g_height g > 0 \<and> is_blank_grid g \<and> has_key i (w_panes w)
                then [(i, [13])] else [])))"

definition attach_refresh :: "env \<Rightarrow> session \<Rightarrow> server_msg list" where
  "attach_refresh ev s =
     (case Option.bind (focused_window s) (focused_pane_full_refresh ev) of
        None \<Rightarrow> [] | Some (i, g) \<Rightarrow> [FullRefresh i g])"

fun join_strs :: "rstr \<Rightarrow> rstr list \<Rightarrow> rstr" where
  "join_strs sep [] = []"
| "join_strs sep [s] = s"
| "join_strs sep (s # t # ss) = s @ sep @ join_strs sep (t # ss)"

definition handle_attach :: "env \<Rightarrow> rstr \<Rightarrow> served \<Rightarrow> effects \<times> served" where
  "handle_attach ev name d =
     (case get_or_create_and_attach (spawned ev) name 80 24 (sd_manager d) of
        (Inl e, m) \<Rightarrow> (send_only [ServerError (manager_error_text e)], d\<lparr>sd_manager := m\<rparr>)
      | (Inr _, m) \<Rightarrow>
          (let (refresh, nudge, layout) =
                 (case session_of name m of
                    None \<Rightarrow> ([], [], [])
                  | Some s \<Rightarrow> (attach_refresh ev s, attach_nudge ev s, focused_layout s));
               (warnings, m') = take_startup_warnings m in
           (\<lparr>ef_msgs = refresh @ layout @ SessionList (list_sessions (ev_receivers ev) m)
               # (if warnings = [] then [] else [ServerError (join_strs (lit ''; '') warnings)]),
             ef_sent = [], ef_writes = nudge\<rparr>,
            d\<lparr>sd_current := Some name, sd_forwarder := Some name, sd_manager := m'\<rparr>)))"

text \<open>Detaching forgets the session; \<open>detach_all\<close> is empty and the forwarder goes on.\<close>

definition handle_detach :: "served \<Rightarrow> effects \<times> served" where
  "handle_detach d = (send_only [], d\<lparr>sd_current := None\<rparr>)"

definition handle_list_sessions :: "env \<Rightarrow> served \<Rightarrow> effects \<times> served" where
  "handle_list_sessions ev d = (send_only [SessionList (list_sessions (ev_receivers ev) (sd_manager d))], d)"

text \<open>The answer of a manager operation: what it announces, or its error.\<close>

definition reply_with ::
  "(manager \<Rightarrow> server_msg list) \<Rightarrow> (manager_error + 'a) \<times> manager \<Rightarrow> served \<Rightarrow> effects \<times> served" where
  "reply_with ok r d =
     (case r of
        (Inl e, m) \<Rightarrow> (send_only [ServerError (manager_error_text e)], d\<lparr>sd_manager := m\<rparr>)
      | (Inr _, m) \<Rightarrow> (send_only (ok m), d\<lparr>sd_manager := m\<rparr>))"

definition handle_kill_session :: "env \<Rightarrow> rstr \<Rightarrow> served \<Rightarrow> effects \<times> served" where
  "handle_kill_session ev name d =
     reply_with (\<lambda>m. [SessionList (list_sessions (ev_receivers ev) m)]) (kill_session name (sd_manager d)) d"

definition workspace_list_msg :: "manager \<Rightarrow> server_msg" where
  "workspace_list_msg m = (case list_workspaces m of (current, infos) \<Rightarrow> WorkspaceList current infos)"

definition handle_list_workspaces :: "served \<Rightarrow> effects \<times> served" where
  "handle_list_workspaces d = (send_only [workspace_list_msg (sd_manager d)], d)"

definition handle_create_workspace :: "rstr \<Rightarrow> served \<Rightarrow> effects \<times> served" where
  "handle_create_workspace name d =
     reply_with (\<lambda>m. [workspace_list_msg m]) (create_workspace name (sd_manager d)) d"

definition handle_switch_workspace :: "rstr \<Rightarrow> served \<Rightarrow> effects \<times> served" where
  "handle_switch_workspace name d =
     reply_with (\<lambda>m. [WorkspaceSwitched name, workspace_list_msg m]) (switch_workspace name (sd_manager d)) d"

definition handle_rename_workspace :: "rstr \<Rightarrow> rstr \<Rightarrow> served \<Rightarrow> effects \<times> served" where
  "handle_rename_workspace from to d =
     reply_with (\<lambda>m. [workspace_list_msg m]) (rename_workspace from to (sd_manager d)) d"

definition handle_delete_workspace :: "rstr \<Rightarrow> bool \<Rightarrow> served \<Rightarrow> effects \<times> served" where
  "handle_delete_workspace name force d =
     reply_with (\<lambda>m. [workspace_list_msg m]) (delete_workspace name force (sd_manager d)) d"

definition normal_quake :: "rstr \<Rightarrow> rstr" where
  "normal_quake action =
     (if action \<in> set [lit ''toggle'', lit ''show'', lit ''hide''] then action else lit ''toggle'')"

definition handle_quake_toggle :: "rstr \<Rightarrow> served \<Rightarrow> effects \<times> served" where
  "handle_quake_toggle action d =
     (\<lparr>ef_msgs = [], ef_sent = fst (broadcast_quake_request (normal_quake action) (sd_manager d)), ef_writes = []\<rparr>, d)"

text \<open>The answer to a query about a window is sent in every case.\<close>

definition handle_query :: "env \<Rightarrow> nat \<Rightarrow> served \<Rightarrow> effects \<times> served" where
  "handle_query ev i d =
     (case Option.bind (sd_current d) (\<lambda>name. session_of name (sd_manager d)) of
        None \<Rightarrow> (send_only [ForegroundProcessStatus i False], d)
      | Some s \<Rightarrow> (send_only (rp_msgs (handle_query_foreground_process ev i 0 s)), d))"

section \<open>Dispatch\<close>

text \<open>\<open>other\<close> serves the requests whose handlers are outside; \<open>None\<close> is a panic.\<close>

primrec dispatch ::
  "(nat \<Rightarrow> served \<Rightarrow> effects \<times> served) \<Rightarrow> env \<Rightarrow> client_msg \<Rightarrow> served \<Rightarrow> (effects \<times> served) option" where
  "dispatch other ev Ping d = Some (send_only [Pong], d)"
| "dispatch other ev (Hello v) d = Some (send_only [], d)"
| "dispatch other ev (Attach name) d = Some (handle_attach ev name d)"
| "dispatch other ev Detach d = Some (handle_detach d)"
| "dispatch other ev ListSessions d = Some (handle_list_sessions ev d)"
| "dispatch other ev (KillSession name) d = Some (handle_kill_session ev name d)"
| "dispatch other ev (SetBroadcast enabled) d = on_session (handle_set_broadcast enabled) d"
| "dispatch other ev (DisplayPanes flag) d = Some (send_only [], d)"
| "dispatch other ev ListWorkspaces d = Some (handle_list_workspaces d)"
| "dispatch other ev (CreateWorkspace name) d = Some (handle_create_workspace name d)"
| "dispatch other ev (SwitchWorkspace name) d = Some (handle_switch_workspace name d)"
| "dispatch other ev (RenameWorkspace from to) d = Some (handle_rename_workspace from to d)"
| "dispatch other ev (DeleteWorkspace name force) d = Some (handle_delete_workspace name force d)"
| "dispatch other ev (QuakeToggle action) d = Some (handle_quake_toggle action d)"
| "dispatch other ev (SetThemeColors fg bg) d = Some (send_only [], d\<lparr>sd_theme := Some (fg, bg)\<rparr>)"
| "dispatch other ev (KeyEvent code mods event_type) d = on_session (handle_key_event ev code mods event_type) d"
| "dispatch other ev (PasteText text) d = on_session (handle_paste_text ev text) d"
| "dispatch other ev (DndDrop path paste_fallback) d = on_session (handle_dnd_drop ev path paste_fallback) d"
| "dispatch other ev (MouseReport button col row pressed motion) d =
     on_session (handle_mouse_report ev button col row pressed motion) d"
| "dispatch other ev FocusNextPane d = on_session handle_focus_next_pane d"
| "dispatch other ev FocusPrevPane d = on_session handle_focus_prev_pane d"
| "dispatch other ev (FocusPane i) d = on_session (handle_focus_pane i) d"
| "dispatch other ev ClosePane d = at_session handle_close_pane (\<lambda>_. []) d"
| "dispatch other ev ToggleZoom d = on_session handle_toggle_zoom d"
| "dispatch other ev (SwapPane target) d = on_session (handle_swap_pane target) d"
| "dispatch other ev (ReorderPanes order) d = on_session (handle_reorder_panes order) d"
| "dispatch other ev (MovePaneToWindow i target pos) d =
     at_session (handle_move_pane_to_window ev i target pos) (\<lambda>_. []) d"
| "dispatch other ev (QueryForegroundProcess i) d = Some (handle_query ev i d)"
| "dispatch other ev BreakPane d = at_session handle_break_pane (\<lambda>_. []) d"
| "dispatch other ev (JoinPane target) d = at_session (handle_join_pane ev target) (\<lambda>_. []) d"
| "dispatch other ev OpenFloatingPane d = on_session (handle_open_floating_pane ev) d"
| "dispatch other ev (CloseFloatingPane i) d = on_session (handle_close_floating_pane i) d"
| "dispatch other ev (MoveFloatingPane i c r) d = on_session (handle_move_floating_pane i c r) d"
| "dispatch other ev (ResizeFloatingPane i c r) d = on_session (handle_resize_floating_pane i c r) d"
| "dispatch other ev (Resize cols rows) d = on_session (handle_resize cols rows) d"
| "dispatch other ev SplitVertical d = on_session (handle_split ev Vertical) d"
| "dispatch other ev SplitHorizontal d = on_session (handle_split ev Horizontal) d"
| "dispatch other ev SplitWithShell d = on_session (handle_split ev Vertical) d"
| "dispatch other ev (ResizeSplit delta) d = on_session (handle_resize_split delta) d"
| "dispatch other ev NewWindow d = on_session (handle_new_window ev) d"
| "dispatch other ev (CloseWindow i) d =
     at_session (\<lambda>next s. Some (handle_close_window ev i next s)) (\<lambda>_. [WindowListChanged []]) d"
| "dispatch other ev (FocusWindow i) d = on_session (handle_focus_window ev i) d"
| "dispatch other ev (RenameWindow i name) d =
     at_session (\<lambda>next s. Some (handle_rename_window i name next s)) (\<lambda>_. [WindowListChanged []]) d"
| "dispatch other ev (SetLayoutMode mode) d = on_session (handle_set_layout_mode mode) d"
| "dispatch other ev (ConnectSerial port) d =
     at_session (\<lambda>next s. Some (handle_connect_serial ev port next s))
       (\<lambda>name. [ServerError (manager_error_text (SessionNotFound name))]) d"
| "dispatch other ev (OtherRequest k) d = Some (other k d)"

section \<open>The stream\<close>

definition PROTOCOL_VERSION :: nat where "PROTOCOL_VERSION = 11"
definition CARGO_PKG_VERSION :: rstr where "CARGO_PKG_VERSION = lit ''1.17.1''"

datatype closed_by = Disconnected | TooLong nat | Truncated | WrongVersion nat | NoHello | Panicked

text \<open>The first message must be a hello of the same version.\<close>

definition version_mismatch :: "nat \<Rightarrow> rstr" where
  "version_mismatch v = lit ''protocol version mismatch (client='' @ dec v @ lit '', server='' @ dec PROTOCOL_VERSION
     @ lit ''). please update the client.''"

definition handshake :: "client_msg \<Rightarrow> server_msg \<times> closed_by option" where
  "handshake msg =
     (case msg of
        Hello v \<Rightarrow>
          (if v \<noteq> PROTOCOL_VERSION then (ServerError (version_mismatch v), Some (WrongVersion v))
           else (HelloAck PROTOCOL_VERSION CARGO_PKG_VERSION, None))
      | _ \<Rightarrow> (ServerError (lit ''handshake required: send a Hello message first.''), Some NoHello))"

fun closed_for :: "frame_error \<Rightarrow> closed_by" where
  "closed_for NoHeader = Disconnected"
| "closed_for (Oversized n) = TooLong n"
| "closed_for NoPayload = Truncated"

text \<open>
  The loop over the bytes a client sends until it disconnects.  \<open>decode\<close> is the decoder of
  the \<open>postcard\<close> library and \<open>evs\<close> the environment of each message in turn; the result has
  the effects in order, the final state and why the loop ended.
\<close>

function serve ::
  "(byte list \<Rightarrow> client_msg option) \<Rightarrow> (nat \<Rightarrow> served \<Rightarrow> effects \<times> served) \<Rightarrow> (nat \<Rightarrow> env) \<Rightarrow> nat
   \<Rightarrow> byte list \<Rightarrow> bool \<Rightarrow> served \<Rightarrow> effects list \<times> served \<times> closed_by" where
  "serve decode other evs k bs hello_received d =
     (case read_frame bs of
        Inl why \<Rightarrow> ([], d, closed_for why)
      | Inr (payload, rest) \<Rightarrow>
          (case decode payload of
             None \<Rightarrow> serve decode other evs (Suc k) rest hello_received d
           | Some msg \<Rightarrow>
               (if hello_received then
                  (case dispatch other (evs k) msg d of
                     None \<Rightarrow> ([], d, Panicked)
                   | Some (e, d') \<Rightarrow>
                       (case serve decode other evs (Suc k) rest True d' of
                          (es, d'', why) \<Rightarrow> (e # es, d'', why)))
                else
                  (case handshake msg of
                     (m, Some why) \<Rightarrow> ([send_only [m]], d, why)
                   | (m, None) \<Rightarrow>
                       (case serve decode other evs (Suc k) rest True d of
                          (es, d'', why) \<Rightarrow> (send_only [m] # es, d'', why))))))"
  by pat_completeness auto
termination
  by (relation "measure (\<lambda>(decode, other, evs, k, bs, h, d). length bs)") (auto dest: read_frame_less)

declare serve.simps [simp del]

end
