(* ===== verification/Request_Facts.thy ===== *)
theory Request_Facts
  imports Requests
begin

text \<open>
  Every request is a step of the manager: the handlers of \<open>Dispatch\<close> and \<open>Requests\<close> compose
  the operations of windows, sessions and the manager, so that a server that answers requests
  that fit its state stays reachable and does not panic.  What \<open>request_fits\<close> excludes are the
  requests that break the state.
\<close>

section \<open>Handlers as steps of a session\<close>

definition steps :: "nat \<Rightarrow> session \<Rightarrow> reply \<Rightarrow> bool" where
  "steps next s r \<longleftrightarrow>
     session_op next s (rp_next r) (rp_session r) \<or> rp_next r = next \<and> rp_session r = s"

lemma answer_sel [simp]:
  "rp_next (answer ms n s) = n" "rp_session (answer ms n s) = s" "rp_msgs (answer ms n s) = ms"
  "rp_writes (answer ms n s) = []"
  by (simp_all add: answer_def)

lemma steps_same [simp]: "steps next s (answer ms next s)"
  by (simp add: steps_def)

lemma steps_typed [simp]: "steps next s (typed bs next s)"
  by (simp add: steps_def typed_def)

lemma steps_op: "session_op next s n s' \<Longrightarrow> steps next s (answer ms n s')"
  by (simp add: steps_def)

text \<open>The operations that keep the panes of the window.\<close>

lemma pane_ids_kept [simp]:
  "pane_ids (adjust_split_ratio delta cols rows w) = pane_ids w"
  "pane_ids (swap_focused_with i w) = pane_ids w"
  "pane_ids (set_focused_pane i w) = pane_ids w"
  "pane_ids (focus_next w) = pane_ids w"
  "pane_ids (focus_prev w) = pane_ids w"
  "pane_ids (set_layout_mode mode cols rows w) = pane_ids w"
  "pane_ids (snd (reorder_panes order w)) = pane_ids w"
  "pane_ids (snd (open_floating_pane i ok cols rows w)) = pane_ids w"
  "pane_ids (snd (close_floating_pane i w)) = pane_ids w"
  "pane_ids (snd (move_floating_pane i c r w)) = pane_ids w"
  "pane_ids (snd (resize_floating_pane i c r w)) = pane_ids w"
  by (simp_all add: adjust_split_ratio_def swap_focused_with_def set_focused_pane_def focus_next_def
      focus_prev_def set_layout_mode_def reorder_panes_def open_floating_pane_def close_floating_pane_def
      move_floating_pane_def resize_floating_pane_def Let_def split: prod.split option.split)
    (simp_all add: pane_ids_def)

lemma keys_update_same: "has_key k m \<Longrightarrow> map fst (AList.update k v m) = map fst m"
  by (simp add: keys_update has_key_iff)

lemma pane_ids_zoom [simp]: "pane_ids (snd (toggle_zoom cols rows w)) = pane_ids w"
  by (auto simp: toggle_zoom_def Let_def) (simp_all add: pane_ids_def keys_update_same del: pane_ids_resize_all)

lemma steps_window:
  assumes "focused_window s = Some w" "window_op w v" "pane_ids v = pane_ids w"
  shows "steps next s (answer ms next (put_window (ss_focused_window_id s) v s))"
  using session_op.inside [OF assms(1,2)] assms(3) by (intro steps_op) auto

lemma steps_with_layout:
  assumes "session_ok s" "\<And>w. focused_window s = Some w \<Longrightarrow> window_op w (f w) \<and> pane_ids (f w) = pane_ids w"
  shows "steps next s (with_layout f next s)"
proof -
  obtain w where "focused_window s = Some w" using session_focus [OF assms(1)] by blast
  with assms(2) steps_window show ?thesis by (simp add: with_layout_def on_focused_def Let_def)
qed

lemmas window_kept = window_op.adjust window_op.swap window_op.focus window_op.focus_forward
  window_op.focus_back window_op.set_mode

lemma steps_layouts:
  assumes "session_ok s"
  shows "steps next s (handle_focus_next_pane next s)" "steps next s (handle_focus_prev_pane next s)"
    "steps next s (handle_focus_pane i next s)" "steps next s (handle_resize_split delta next s)"
    "steps next s (handle_set_layout_mode mode next s)"
  unfolding handle_focus_next_pane_def handle_focus_prev_pane_def handle_focus_pane_def
    handle_resize_split_def handle_set_layout_mode_def
  by (rule steps_with_layout [OF assms], simp add: window_kept)+

lemma steps_swap:
  assumes "session_ok s" "\<And>w. focused_window s = Some w \<Longrightarrow> i \<in> set (pane_ids w)"
  shows "steps next s (handle_swap_pane i next s)"
  unfolding handle_swap_pane_def
  by (rule steps_with_layout [OF assms(1)], simp add: window_kept assms(2))

text \<open>A handler that takes the new window from a pair.\<close>

lemma steps_pair:
  assumes "focused_window s = Some w" "window_op w (snd p)" "pane_ids (snd p) = pane_ids w"
  shows "steps next s (answer ms next (put_window (ss_focused_window_id s) (snd p) s))"
  using steps_window [OF assms] .

lemma steps_others:
  assumes "focused_window s = Some w"
  shows "steps next s (handle_toggle_zoom next s)" "steps next s (handle_reorder_panes order next s)"
    "steps next s (handle_close_floating_pane i next s)"
    "steps next s (handle_move_floating_pane i c r next s)"
    "steps next s (handle_resize_floating_pane i c r next s)"
  using assms
  by (simp_all add: handle_toggle_zoom_def handle_reorder_panes_def handle_close_floating_pane_def
      handle_move_floating_pane_def handle_resize_floating_pane_def floating_moved_def case_prod_beta
      steps_window window_op.zoom window_op.reorder window_op.float_close window_op.float_move
      window_op.float_resize del: prod.case_eq_if)

lemma steps_open_floating:
  assumes "focused_window s = Some w" "ss_cols s = w_last_cols w" "ss_rows s = w_last_rows w"
  shows "steps next s (handle_open_floating_pane ev next s)"
proof -
  let ?r = "open_floating_pane (ev_pane ev) (\<not> isl (ev_spawn ev)) (w_last_cols w) (w_last_rows w) w"
  obtain o' v where r: "?r = (o', v)" by fastforce
  have v: "window_op w v" "pane_ids v = pane_ids w" using window_op.float [of w "ev_pane ev"] r
    by (metis snd_conv, metis pane_ids_kept(8) snd_conv)
  show ?thesis using assms r v by (cases o') (auto simp: handle_open_floating_pane_def steps_window)
qed

section \<open>Panes that come and go\<close>

text \<open>The pane the spawner gives is new to the session.\<close>

definition fresh_pane :: "env \<Rightarrow> session \<Rightarrow> bool" where
  "fresh_pane ev s \<longleftrightarrow> ev_pane ev \<notin> set (session_panes s)"

lemma fresh_in_window:
  assumes "fresh_pane ev s" "session_ok s" "focused_window s = Some w"
  shows "ev_pane ev \<notin> set (pane_ids w)"
  using assms session_okD(2) [OF assms(2)] by (auto simp: fresh_pane_def focused_window_def)

lemma window_ok_focused: "session_ok s \<Longrightarrow> focused_window s = Some w \<Longrightarrow> window_ok w"
  using session_okD(1) by (auto simp: focused_window_def filed_ok_def)

lemma steps_grown:
  assumes "focused_window s = Some w" "window_op w v" "set (pane_ids v) = insert new (set (pane_ids w))"
    and "new \<notin> set (session_panes s)"
  shows "steps next s (answer ms next (put_window (ss_focused_window_id s) v s))"
  using session_op.inside [OF assms(1,2)] assms(3,4) by (intro steps_op) auto

lemma steps_split:
  assumes "session_ok s" "fresh_pane ev s" "\<not> isl (ev_spawn ev)"
  shows "steps next s (handle_split ev dir next s)"
proof -
  obtain w where w: "focused_window s = Some w" using session_focus [OF assms(1)] by blast
  obtain r v where r: "add_pane_with_options (ev_pane ev) True dir (ss_cols s) (ss_rows s) w = (r, v)" by fastforce
  have new: "ev_pane ev \<notin> set (pane_ids w)" by (rule fresh_in_window [OF assms(2,1) w])
  have v: "r = Some (ev_pane ev)" "set (pane_ids v) = insert (ev_pane ev) (set (pane_ids w))"
    using add_pane_ok [OF window_ok_focused [OF assms(1) w] new r] by blast+
  have op: "window_op w v" using window_op.split [OF new, of dir "ss_cols s" "ss_rows s"] r by simp
  show ?thesis using w r v(1) assms(3) steps_grown [OF w op v(2)] assms(2)
    by (simp add: handle_split_def fresh_pane_def case_prod_beta)
qed

lemma serial_panes_ids:
  assumes "window_ok w" "new \<notin> set (pane_ids w)"
  shows "set (pane_ids (snd (add_serial_pane (Some new) dir cols rows w))) = insert new (set (pane_ids w))"
  using assms pane_ids_update(2) [OF assms(2), of "(cols, rows)"]
  by (simp add: add_serial_pane_def window_ok_def tabs_ok_def) (simp add: pane_ids_def)

lemma steps_serial:
  assumes "session_ok s" "fresh_pane ev s"
  shows "steps next s (handle_connect_serial ev port next s)"
proof -
  obtain w where w: "focused_window s = Some w" using session_focus [OF assms(1)] by blast
  have new: "ev_pane ev \<notin> set (pane_ids w)" by (rule fresh_in_window [OF assms(2,1) w])
  show ?thesis
  proof (cases "isl (ev_spawn ev)")
    case True
    then show ?thesis by (simp add: handle_connect_serial_def w add_serial_pane_def)
  next
    case False
    let ?r = "add_serial_pane (Some (ev_pane ev)) Vertical (ss_cols s) (ss_rows s) w"
    obtain v where r: "?r = (Some (ev_pane ev), v)" by (simp add: add_serial_pane_def)
    have "window_op w v" using window_op.split_serial [of "Some (ev_pane ev)" w] new r by (metis option.inject snd_conv)
    moreover have "set (pane_ids v) = insert (ev_pane ev) (set (pane_ids w))"
      using serial_panes_ids [OF window_ok_focused [OF assms(1) w] new, of Vertical "ss_cols s" "ss_rows s"] r by simp
    ultimately show ?thesis using False w r steps_grown [OF w] assms(2)
      by (simp add: handle_connect_serial_def fresh_pane_def Let_def)
  qed
qed

lemma steps_close_pane:
  assumes "session_ok s"
  shows "\<exists>r. handle_close_pane next s = Some r \<and> steps next s r"
proof -
  obtain w where w: "focused_window s = Some w" using session_focus [OF assms] by blast
  obtain r v where v: "remove_focused_pane (ss_cols s) (ss_rows s) w = Some (r, v)"
    "set (pane_ids v) \<subseteq> set (pane_ids w)"
    using remove_focused_ok [OF window_ok_focused [OF assms w], of "ss_cols s" "ss_rows s"]
    by (auto split: if_split_asm)
  have "session_op next s next (put_window (ss_focused_window_id s) v s)"
    using session_op.inside [OF w window_op.remove [OF v(1)]] v(2) by blast
  then show ?thesis using steps_op by (cases r) (simp_all add: handle_close_pane_def w v(1) Let_def)
qed

section \<open>Windows that come and go\<close>

lemma steps_new_window:
  assumes "next < u32_max" "fresh_pane ev s"
  shows "steps next s (handle_new_window ev next s)"
proof -
  obtain r n s' where a: "add_window (spawned ev) next s = (r, n, s')" using prod_cases3 by blast
  have "spawned ev = Inr i \<Longrightarrow> i \<notin> set (session_panes s)" for i
    using assms(2) by (auto simp: spawned_def fresh_pane_def split: sum.splits)
  from steps_op [OF session_op.add [OF assms(1) this a]] show ?thesis
    by (cases r) (simp_all add: handle_new_window_def a)
qed

lemma steps_close_window:
  assumes "picks (ev_pick ev)"
  shows "steps next s (handle_close_window ev i next s)"
proof -
  obtain r s' where a: "remove_window (ev_pick ev) i s = (r, s')" by fastforce
  from steps_op [OF session_op.remove [OF assms a]] show ?thesis
    by (cases r) (simp_all add: handle_close_window_def a)
qed

lemma steps_focus_window: "steps next s (handle_focus_window ev i next s)"
proof -
  obtain r s' where a: "focus_window i s = (r, s')" by fastforce
  from steps_op [OF session_op.focus [of "next" s i, unfolded a snd_conv]] show ?thesis
    by (cases r) (simp_all add: handle_focus_window_def a)
qed

lemma steps_rename_window: "steps next s (handle_rename_window i name next s)"
proof -
  obtain r s' where a: "rename_window i name s = (r, s')" by fastforce
  from steps_op [OF session_op.rename [of "next" s i name, unfolded a snd_conv]] show ?thesis
    by (cases r) (simp_all add: handle_rename_window_def a)
qed

lemma steps_resize: "steps next s (handle_resize cols rows next s)"
  using steps_op [OF session_op.resize [OF prod.collapse [symmetric]]]
  by (simp add: handle_resize_def Let_def)

lemma steps_broadcast: "steps next s (handle_set_broadcast b next s)"
  using steps_op [OF session_op.broadcast] by (simp add: handle_set_broadcast_def)

lemma steps_input [simp]:
  "steps next s (handle_key_event ev code mods event_type next s)"
  "steps next s (handle_paste_text ev text next s)"
  "steps next s (handle_dnd_drop ev path paste_fallback next s)"
  "steps next s (handle_mouse_report ev button col row pressed motion next s)"
  by (simp_all add: handle_key_event_def handle_paste_text_def handle_dnd_drop_def handle_mouse_report_def
      Let_def split: option.split) (simp_all add: steps_def)

section \<open>Panes between windows\<close>

definition serial_focused :: "session \<Rightarrow> bool" where
  "serial_focused s \<longleftrightarrow>
     (case focused_window s of
        None \<Rightarrow> False | Some w \<Rightarrow> w_focused_pane_id w \<in> set (map fst (w_serial_panes w)))"

lemma steps_break:
  assumes "session_ok s" "counted next s" "next < u32_max" "\<not> serial_focused s"
  shows "\<exists>r. handle_break_pane next s = Some r \<and> steps next s r"
proof -
  obtain w where w: "focused_window s = Some w" using session_focus [OF assms(1)] by blast
  have sf: "w_focused_pane_id w \<notin> set (map fst (w_serial_panes w))" using assms(4) by (simp only: serial_focused_def w option.case not_False_eq_True)
  obtain r n s' where b: "break_pane next s = Some (r, n, s')"
    using break_pane_ok [OF assms(1) w counted_fresh [OF assms(2)] sf] by blast
  from steps_op [OF session_op.break [OF assms(3) w sf b]] show ?thesis
    by (cases r) (simp_all add: handle_break_pane_def b)
qed

lemma steps_join:
  assumes "session_ok s" "target \<in> set (map fst (ss_windows s))" "\<not> serial_focused s"
  shows "\<exists>r. handle_join_pane ev target next s = Some r \<and> steps next s r"
proof -
  obtain w where w: "focused_window s = Some w" using session_focus [OF assms(1)] by blast
  have sf: "w_focused_pane_id w \<notin> set (map fst (w_serial_panes w))" using assms(3) by (simp only: serial_focused_def w option.case not_False_eq_True)
  obtain r s' where b: "join_pane target s = Some (r, s')"
    using join_pane_ok [OF assms(1) w assms(2) sf] by blast
  from steps_op [OF session_op.join [OF assms(2) w sf b]] show ?thesis
    by (cases r) (simp_all add: handle_join_pane_def b)
qed

lemma steps_move:
  assumes "session_ok s" "counted next s" "next < u32_max" "target = 0 \<or> target \<in> set (map fst (ss_windows s))"
  shows "\<exists>r. handle_move_pane_to_window ev i target pos next s = Some r \<and> steps next s r"
proof -
  obtain r n s' where b: "move_pane i target pos next s = Some (r, n, s')"
    using move_pane_ok [OF assms(1) counted_fresh [OF assms(2)] assms(4)] by blast
  from steps_op [OF session_op.move [OF assms(3,4) b]] show ?thesis
    by (cases r) (auto simp: handle_move_pane_to_window_def b)
qed

section \<open>Requests as steps of the manager\<close>

definition current_session :: "served \<Rightarrow> session option" where
  "current_session d = Option.bind (sd_current d) (\<lambda>name. session_of name (sd_manager d))"

text \<open>What a request of a well-behaved client is: the targets it names exist.\<close>

definition session_fits :: "env \<Rightarrow> session \<Rightarrow> client_msg \<Rightarrow> bool" where
  "session_fits ev s msg =
     (case msg of
        SplitVertical \<Rightarrow> \<not> isl (ev_spawn ev)
      | SplitHorizontal \<Rightarrow> \<not> isl (ev_spawn ev)
      | SplitWithShell \<Rightarrow> \<not> isl (ev_spawn ev)
      | SwapPane i \<Rightarrow> (case focused_window s of None \<Rightarrow> False | Some w \<Rightarrow> i \<in> set (pane_ids w))
      | BreakPane \<Rightarrow> \<not> serial_focused s
      | JoinPane i \<Rightarrow> \<not> serial_focused s \<and> i \<in> set (map fst (ss_windows s))
      | MovePaneToWindow p i pos \<Rightarrow> i = 0 \<or> i \<in> set (map fst (ss_windows s))
      | OpenFloatingPane \<Rightarrow>
          (case focused_window s of
             None \<Rightarrow> False | Some w \<Rightarrow> ss_cols s = w_last_cols w \<and> ss_rows s = w_last_rows w)
      | OtherRequest k \<Rightarrow> False
      | _ \<Rightarrow> True)"

definition request_fits :: "env \<Rightarrow> client_msg \<Rightarrow> served \<Rightarrow> bool" where
  "request_fits ev msg d \<longleftrightarrow>
     picks (ev_pick ev) \<and> mg_next_window_id (sd_manager d) < u32_max \<and> (\<forall>k. msg \<noteq> OtherRequest k)
     \<and> (case current_session d of None \<Rightarrow> True | Some s \<Rightarrow> fresh_pane ev s \<and> session_fits ev s msg)"

lemma update_same: "map_of m k = Some v \<Longrightarrow> AList.update k v m = m"
  by (induction m) (auto split: if_split_asm)

lemma put_session_same:
  assumes "session_of name m = Some s"
  shows "(put_session name s m)\<lparr>mg_next_window_id := mg_next_window_id m\<rparr> = m"
  using update_same [of "mg_sessions m" name s] assms by (simp add: put_session_def session_of_def)

lemma reach_session:
  assumes "manager_reach m" "session_of name m = Some s"
  shows "session_ok s" "counted (mg_next_window_id m) s"
  using manager_reach_ok [OF assms(1)] assms(2)
  by (auto simp: manager_ok_def session_of_def member_ok_def list_all_iff dest!: map_of_SomeD)

lemma reach_steps:
  assumes "manager_reach m" "session_of name m = Some s" "steps (mg_next_window_id m) s r"
  shows "manager_reach ((put_session name (rp_session r) m)\<lparr>mg_next_window_id := rp_next r\<rparr>)"
  using assms(3) manager_reach.inside [OF assms(1,2)] put_session_same [OF assms(2)] assms(1)
  by (auto simp: steps_def)


text \<open>A request that is answered and leaves the manager reachable.\<close>

definition answered :: "(effects \<times> served) option \<Rightarrow> bool" where
  "answered x \<longleftrightarrow> (case x of None \<Rightarrow> False | Some (e, d) \<Rightarrow> manager_reach (sd_manager d))"

lemma answered_Some [simp]: "answered (Some p) \<longleftrightarrow> manager_reach (sd_manager (snd p))"
  by (simp add: answered_def case_prod_beta)

definition serving :: "env \<Rightarrow> client_msg \<Rightarrow> served \<Rightarrow> session \<Rightarrow> bool" where
  "serving ev msg d s \<longleftrightarrow>
     session_ok s \<and> counted (mg_next_window_id (sd_manager d)) s \<and> fresh_pane ev s \<and> session_fits ev s msg"

definition fits :: "env \<Rightarrow> client_msg \<Rightarrow> served \<Rightarrow> bool" where
  "fits ev msg d \<longleftrightarrow> manager_reach (sd_manager d) \<and> request_fits ev msg d"

lemma fitsD:
  assumes "fits ev msg d"
  shows "manager_reach (sd_manager d)" "request_fits ev msg d"
    "mg_next_window_id (sd_manager d) < u32_max" "picks (ev_pick ev)"
  using assms by (simp_all add: fits_def request_fits_def)

lemma fits_at:
  assumes "fits ev msg d"
    and "\<And>s. serving ev msg d s \<Longrightarrow>
      \<exists>r. h (mg_next_window_id (sd_manager d)) s = Some r \<and> steps (mg_next_window_id (sd_manager d)) s r"
  shows "answered (at_session h missing d)"
proof (cases "current_session d")
  case None
  then show ?thesis using fitsD(1) [OF assms(1)] by (auto simp: at_session_def current_session_def split: option.split bind_splits)
next
  case (Some s)
  then obtain name where n: "sd_current d = Some name" "session_of name (sd_manager d) = Some s"
    by (auto simp: current_session_def bind_eq_Some_conv)
  have "serving ev msg d s"
    using Some fitsD(2) [OF assms(1)] reach_session [OF fitsD(1) [OF assms(1)] n(2)] by (simp add: serving_def request_fits_def)
  then obtain r where r: "h (mg_next_window_id (sd_manager d)) s = Some r" "steps (mg_next_window_id (sd_manager d)) s r"
    using assms(2) by blast
  show ?thesis using reach_steps [OF fitsD(1) [OF assms(1)] n(2) r(2)] by (simp add: at_session_def n r(1))
qed

lemma fits_on:
  assumes "fits ev msg d"
    and "\<And>s. serving ev msg d s \<Longrightarrow> steps (mg_next_window_id (sd_manager d)) s (f (mg_next_window_id (sd_manager d)) s)"
  shows "answered (at_session (\<lambda>next s. Some (f next s)) missing d)"
  by (rule fits_at [OF assms(1)]) (simp add: assms(2))

lemma answered_reply:
  "manager_reach (snd r) \<Longrightarrow> answered (Some (reply_with ok r d))"
  by (cases r) (auto simp: reply_with_def split: sum.split)

lemma answered_attach:
  assumes "manager_reach (sd_manager d)" "mg_next_window_id (sd_manager d) < u32_max"
  shows "answered (Some (handle_attach ev name d))"
proof -
  obtain r m where r: "get_or_create_and_attach (spawned ev) name 80 24 (sd_manager d) = (r, m)" by fastforce
  have m: "manager_reach m" using manager_reach.attached [OF assms, of "spawned ev" name 80 24] r by simp
  then have "manager_reach (snd (take_startup_warnings m))" by (rule manager_reach.drained)
  with r m show ?thesis
    by (cases r) (auto simp: handle_attach_def Let_def case_prod_beta split: option.split)
qed

lemma answered_query: "manager_reach (sd_manager d) \<Longrightarrow> answered (Some (handle_query ev i d))"
  by (simp add: handle_query_def split: option.split)

lemma serving_focused:
  assumes "serving ev msg d s"
  obtains w where "focused_window s = Some w"
  using assms session_focus by (auto simp: serving_def)


text \<open>The requests by group: what is served, moves between windows, splits, floating panes.\<close>

lemma servingD:
  assumes "serving ev msg d s"
  shows "session_ok s" "counted (mg_next_window_id (sd_manager d)) s" "fresh_pane ev s" "session_fits ev s msg"
  using assms by (simp_all add: serving_def)

lemma answered_moves:
  "fits ev ClosePane d \<Longrightarrow> answered (dispatch other ev ClosePane d)"
  "fits ev BreakPane d \<Longrightarrow> answered (dispatch other ev BreakPane d)"
  "fits ev (JoinPane i) d \<Longrightarrow> answered (dispatch other ev (JoinPane i) d)"
  "fits ev (MovePaneToWindow q i pos) d \<Longrightarrow> answered (dispatch other ev (MovePaneToWindow q i pos) d)"
  unfolding dispatch.simps
     apply (erule fits_at, rule steps_close_pane, erule servingD(1))
    apply (rule fits_at, assumption, rule steps_break)
       apply (auto simp: session_fits_def fitsD dest: servingD)[4]
   apply (rule fits_at, assumption, rule steps_join)
     apply (auto simp: session_fits_def dest: servingD)[3]
  apply (rule fits_at, assumption, rule steps_move)
     apply (auto simp: session_fits_def fitsD dest: servingD)[4]
  done

lemma answered_splits:
  "fits ev SplitVertical d \<Longrightarrow> answered (dispatch other ev SplitVertical d)"
  "fits ev SplitHorizontal d \<Longrightarrow> answered (dispatch other ev SplitHorizontal d)"
  "fits ev SplitWithShell d \<Longrightarrow> answered (dispatch other ev SplitWithShell d)"
  unfolding dispatch.simps
  by (rule fits_on, assumption, rule steps_split, auto simp: session_fits_def dest: servingD)+

lemma swap_fits:
  "session_fits ev s (SwapPane i) \<Longrightarrow> focused_window s = Some w \<Longrightarrow> i \<in> set (pane_ids w)"
  by (simp add: session_fits_def)

lemma floating_fits:
  "session_fits ev s OpenFloatingPane \<Longrightarrow> focused_window s = Some w \<Longrightarrow>
   ss_cols s = w_last_cols w \<and> ss_rows s = w_last_rows w"
  by (simp add: session_fits_def)

lemma answered_focused:
  "fits ev (SwapPane i) d \<Longrightarrow> answered (dispatch other ev (SwapPane i) d)"
  "fits ev OpenFloatingPane d \<Longrightarrow> answered (dispatch other ev OpenFloatingPane d)"
  "fits ev ToggleZoom d \<Longrightarrow> answered (dispatch other ev ToggleZoom d)"
  "fits ev (ReorderPanes order) d \<Longrightarrow> answered (dispatch other ev (ReorderPanes order) d)"
  "fits ev (CloseFloatingPane i) d \<Longrightarrow> answered (dispatch other ev (CloseFloatingPane i) d)"
  "fits ev (MoveFloatingPane i c r) d \<Longrightarrow> answered (dispatch other ev (MoveFloatingPane i c r) d)"
  "fits ev (ResizeFloatingPane i c r) d \<Longrightarrow> answered (dispatch other ev (ResizeFloatingPane i c r) d)"
  unfolding dispatch.simps
  by (rule fits_on, assumption, rule steps_swap, auto dest: servingD swap_fits)
    (rule fits_on, assumption, rule serving_focused, assumption, rule steps_open_floating steps_others,
      (auto dest: servingD floating_fits)?)+

lemma answered_sessions:
  "fits ev FocusNextPane d \<Longrightarrow> answered (dispatch other ev FocusNextPane d)"
  "fits ev FocusPrevPane d \<Longrightarrow> answered (dispatch other ev FocusPrevPane d)"
  "fits ev (FocusPane i) d \<Longrightarrow> answered (dispatch other ev (FocusPane i) d)"
  "fits ev (ResizeSplit delta) d \<Longrightarrow> answered (dispatch other ev (ResizeSplit delta) d)"
  "fits ev (SetLayoutMode mode) d \<Longrightarrow> answered (dispatch other ev (SetLayoutMode mode) d)"
  "fits ev (ConnectSerial port) d \<Longrightarrow> answered (dispatch other ev (ConnectSerial port) d)"
  "fits ev NewWindow d \<Longrightarrow> answered (dispatch other ev NewWindow d)"
  "fits ev (CloseWindow i) d \<Longrightarrow> answered (dispatch other ev (CloseWindow i) d)"
  "fits ev (FocusWindow i) d \<Longrightarrow> answered (dispatch other ev (FocusWindow i) d)"
  "fits ev (RenameWindow i name) d \<Longrightarrow> answered (dispatch other ev (RenameWindow i name) d)"
  "fits ev (Resize cols rows) d \<Longrightarrow> answered (dispatch other ev (Resize cols rows) d)"
  "fits ev (SetBroadcast flag) d \<Longrightarrow> answered (dispatch other ev (SetBroadcast flag) d)"
  unfolding dispatch.simps
  by (rule fits_on, assumption,
      (rule steps_layouts steps_serial steps_new_window steps_close_window steps_focus_window
        steps_rename_window steps_resize steps_broadcast),
      (auto simp: fitsD dest: servingD)?)+

lemma answered_input:
  "fits ev (KeyEvent code mods event_type) d \<Longrightarrow> answered (dispatch other ev (KeyEvent code mods event_type) d)"
  "fits ev (PasteText text) d \<Longrightarrow> answered (dispatch other ev (PasteText text) d)"
  "fits ev (DndDrop path paste_fallback) d \<Longrightarrow> answered (dispatch other ev (DndDrop path paste_fallback) d)"
  "fits ev (MouseReport button col row pressed motion) d \<Longrightarrow>
     answered (dispatch other ev (MouseReport button col row pressed motion) d)"
  unfolding dispatch.simps by (rule fits_on, assumption, rule steps_input)+

lemma answered_manager:
  "fits ev msg d \<Longrightarrow> answered (dispatch other ev (KillSession name) d)"
  "fits ev msg d \<Longrightarrow> answered (dispatch other ev (CreateWorkspace name) d)"
  "fits ev msg d \<Longrightarrow> answered (dispatch other ev (SwitchWorkspace name) d)"
  "fits ev msg d \<Longrightarrow> answered (dispatch other ev (RenameWorkspace from_name to_name) d)"
  "fits ev msg d \<Longrightarrow> answered (dispatch other ev (DeleteWorkspace name force) d)"
  "fits ev msg d \<Longrightarrow> answered (dispatch other ev (Attach name) d)"
  "fits ev msg d \<Longrightarrow> answered (dispatch other ev (QueryForegroundProcess i) d)"
  unfolding dispatch.simps handle_kill_session_def handle_create_workspace_def handle_switch_workspace_def
    handle_rename_workspace_def handle_delete_workspace_def
  by (rule answered_reply answered_attach answered_query, erule fitsD(1) manager_reach.intros(5-9) [OF fitsD(1)];
      simp add: fitsD)+

lemma answered_plain:
  assumes "fits ev msg d"
  shows "answered (dispatch other ev Ping d)" "answered (dispatch other ev (Hello v) d)"
    "answered (dispatch other ev Detach d)" "answered (dispatch other ev ListSessions d)"
    "answered (dispatch other ev (DisplayPanes flag) d)" "answered (dispatch other ev ListWorkspaces d)"
    "answered (dispatch other ev (QuakeToggle action) d)" "answered (dispatch other ev (SetThemeColors fg bg) d)"
  using fitsD(1) [OF assms]
  by (simp_all add: handle_detach_def handle_list_sessions_def handle_list_workspaces_def handle_quake_toggle_def)

lemma dispatch_answered:
  assumes "fits ev msg d"
  shows "answered (dispatch other ev msg d)"
proof (cases msg)
  case (OtherRequest k)
  then show ?thesis using assms by (simp add: fits_def request_fits_def)
qed (insert assms, simp_all only: answered_moves answered_splits answered_focused answered_sessions
    answered_input answered_manager answered_plain)

section \<open>The stream as a sequence of requests\<close>

text \<open>The requests one after the other, until one of them panics.\<close>

fun run_requests ::
  "(nat \<Rightarrow> served \<Rightarrow> effects \<times> served) \<Rightarrow> (nat \<Rightarrow> env) \<Rightarrow> nat \<Rightarrow> client_msg list \<Rightarrow> served
   \<Rightarrow> effects list \<times> served \<times> closed_by" where
  "run_requests other evs k [] d = ([], d, Disconnected)"
| "run_requests other evs k (m # ms) d =
     (case dispatch other (evs k) m d of
        None \<Rightarrow> ([], d, Panicked)
      | Some (e, d') \<Rightarrow>
          (case run_requests other evs (Suc k) ms d' of (es, d'', why) \<Rightarrow> (e # es, d'', why)))"

lemma serve_frame:
  assumes "length payload \<le> MAX_MSG_LEN" "decode payload = Some m"
  shows "serve decode other evs k (frame payload @ rest) True d =
    (case dispatch other (evs k) m d of
       None \<Rightarrow> ([], d, Panicked)
     | Some (e, d') \<Rightarrow>
         (case serve decode other evs (Suc k) rest True d' of (es, d'', why) \<Rightarrow> (e # es, d'', why)))"
  by (subst serve.simps) (simp add: read_frame_frame [OF assms(1)] assms(2))

lemma serve_hello:
  assumes "length payload \<le> MAX_MSG_LEN" "decode payload = Some (Hello PROTOCOL_VERSION)"
  shows "serve decode other evs k (frame payload @ rest) False d =
    (case serve decode other evs (Suc k) rest True d of
       (es, d'', why) \<Rightarrow> (send_only [HelloAck PROTOCOL_VERSION CARGO_PKG_VERSION] # es, d'', why))"
  by (subst serve.simps) (simp add: read_frame_frame [OF assms(1)] assms(2) handshake_def)

lemma serve_requests:
  assumes "\<forall>m \<in> set ms. decode (encode m) = Some m \<and> length (encode m) \<le> MAX_MSG_LEN"
  shows "serve decode other evs k (concat (map (frame \<circ> encode) ms)) True d = run_requests other evs k ms d"
  using assms
proof (induction ms arbitrary: k d)
  case Nil
  show ?case by (subst serve.simps) simp
next
  case (Cons m ms)
  then have m: "decode (encode m) = Some m" "length (encode m) \<le> MAX_MSG_LEN" by simp_all
  show ?case using Cons by (simp add: serve_frame [where decode = decode, OF m(2,1)] split: option.split prod.split)
qed

text \<open>The first message of a stream that decodes.\<close>

function first_message :: "(byte list \<Rightarrow> client_msg option) \<Rightarrow> byte list \<Rightarrow> client_msg option" where
  "first_message decode bs =
     (case read_frame bs of
        Inl e \<Rightarrow> None
      | Inr (payload, rest) \<Rightarrow>
          (case decode payload of None \<Rightarrow> first_message decode rest | Some m \<Rightarrow> Some m))"
  by pat_completeness auto
termination
  by (relation "measure (\<lambda>(decode, bs). length bs)") (auto dest: read_frame_less)

declare first_message.simps [simp del]

definition refused :: "effects list \<Rightarrow> bool" where
  "refused es \<longleftrightarrow> es = [] \<or> (\<exists>t. es = [send_only [ServerError t]])"

lemma handshake_refused:
  "m \<noteq> Hello PROTOCOL_VERSION \<Longrightarrow> \<exists>t why. handshake m = (ServerError t, Some why)"
  by (cases m) (auto simp: handshake_def)

lemma serve_gate:
  assumes "first_message decode bs \<noteq> Some (Hello PROTOCOL_VERSION)"
    and "serve decode other evs k bs False d = (es, d', why)"
  shows "d' = d \<and> refused es"
  using assms
proof (induction decode bs arbitrary: k rule: first_message.induct)
  case (1 decode bs)
  show ?case
  proof (cases "read_frame bs")
    case (Inl e)
    then show ?thesis using "1.prems"(2) by (subst (asm) serve.simps) (simp add: refused_def)
  next
    case (Inr r)
    obtain payload rest where r: "read_frame bs = Inr (payload, rest)" using Inr by (cases r) auto
    show ?thesis
    proof (cases "decode payload")
      case None
      have "serve decode other evs (Suc k) rest False d = (es, d', why)"
        using "1.prems"(2) by (subst (asm) serve.simps) (simp add: r None)
      moreover have "first_message decode rest \<noteq> Some (Hello PROTOCOL_VERSION)"
        using "1.prems"(1) by (subst (asm) first_message.simps) (simp add: r None)
      ultimately show ?thesis using "1.IH" [OF r refl None] by blast
    next
      case (Some m)
      then have "m \<noteq> Hello PROTOCOL_VERSION"
        using "1.prems"(1) by (subst (asm) first_message.simps) (simp add: r)
      then obtain t w where "handshake m = (ServerError t, Some w)" using handshake_refused by blast
      then show ?thesis using "1.prems"(2) by (subst (asm) serve.simps) (auto simp: r Some refused_def)
    qed
  qed
qed

end
