(* ===== verification/Client_Sync.thy ===== *)
theory Client_Sync
  imports Request_Facts
begin

text \<open>
  What a client knows of its session: the handlers end their answers with the layout of the
  focused window whenever it may have changed, so that the client that sent the request
  stays in step with the server (\<open>apply_server_message\<close> of \<open>nexterm-client-tui/src/state.rs\<close>
  against \<open>nexterm-server/src/ipc\<close>).  Only a request's own connection is answered.
\<close>

section \<open>The client's side\<close>

definition client_hears :: "nat \<Rightarrow> server_msg list \<Rightarrow> client_state \<Rightarrow> client_state" where
  "client_hears now ms c = fold (apply_server_message now) ms c"

text \<open>The layout and the focus a client holds, and the last layout it is told.\<close>

definition layout_view :: "client_state \<Rightarrow> pane_layout list \<times> nat option" where
  "layout_view c = (cs_pane_layouts c, cs_focused_pane_id c)"

fun told :: "server_msg \<Rightarrow> (pane_layout list \<times> nat) option" where
  "told (LayoutChanged panes focused) = Some (panes, focused)"
| "told _ = None"

fun last_told :: "server_msg list \<Rightarrow> (pane_layout list \<times> nat) option" where
  "last_told [] = None"
| "last_told (m # ms) = (case last_told ms of None \<Rightarrow> told m | Some l \<Rightarrow> Some l)"

lemma last_told_append [simp]:
  "last_told (xs @ ys) = (case last_told ys of None \<Rightarrow> last_told xs | Some l \<Rightarrow> Some l)"
  by (induction xs) (auto split: option.split)

lemma view_step:
  assumes "snd (layout_view c) \<noteq> None"
  shows "layout_view (apply_server_message now m c)
    = (case told m of None \<Rightarrow> layout_view c | Some (p, f) \<Rightarrow> (p, Some f))"
  using assms by (cases m) (auto simp: layout_view_def Let_def split: option.split)

lemma view_hears:
  assumes "snd (layout_view c) \<noteq> None"
  shows "layout_view (client_hears now ms c)
    = (case last_told ms of None \<Rightarrow> layout_view c | Some (p, f) \<Rightarrow> (p, Some f))"
  using assms
proof (induction ms arbitrary: c)
  case (Cons m ms)
  have "snd (layout_view (apply_server_message now m c)) \<noteq> None"
    using view_step [OF Cons.prems] Cons.prems by (auto split: option.split)
  from Cons.IH [OF this] show ?case using view_step [OF Cons.prems]
    by (auto simp: client_hears_def split: option.split)
qed (simp add: client_hears_def)

text \<open>A client without a focus takes the first refresh; a layout settles the matter.\<close>

lemma view_after_layout:
  assumes "last_told ms = Some (p, f)"
  shows "layout_view (client_hears now ms c) = (p, Some f)"
  using assms
proof (induction ms arbitrary: c)
  case (Cons m ms)
  show ?case
  proof (cases "last_told ms")
    case None
    with Cons.prems obtain ps g where m: "m = LayoutChanged ps g" by (cases m) auto
    have "snd (layout_view (apply_server_message now m c)) \<noteq> None" by (simp add: m layout_view_def)
    from view_hears [OF this, of now ms] None Cons.prems show ?thesis
      by (simp add: m client_hears_def layout_view_def)
  next
    case (Some l)
    with Cons show ?thesis by (simp add: client_hears_def)
  qed
qed simp

section \<open>The server's side\<close>

definition shown :: "session \<Rightarrow> (pane_layout list \<times> nat) option" where
  "shown s = map_option (layout_changed_msg (ss_cols s) (ss_rows s)) (focused_window s)"

lemma told_layout [simp]: "told (layout_msg cols rows w) = Some (layout_changed_msg cols rows w)"
  by (simp add: layout_msg_def case_prod_beta)

lemma last_told_layout [simp]: "last_told (focused_layout s) = shown s"
  by (simp add: focused_layout_def shown_def split: option.split)

lemma told_refresh [simp]: "last_told (pane_refresh ev i w) = None" "last_told (focused_refresh ev s) = None"
  "last_told (case x of None \<Rightarrow> [] | Some w \<Rightarrow> pane_refresh ev i w) = None"
  by (simp_all add: focused_refresh_def pane_refresh_def split: option.split)

lemma told_error [simp]: "told (error_msg e) = None"
  by (simp add: error_msg_def)

text \<open>The answer tells the layout of the focused window, or it has not changed.\<close>

definition tells :: "session \<Rightarrow> reply \<Rightarrow> bool" where
  "tells s r \<longleftrightarrow>
     (case last_told (rp_msgs r) of
        None \<Rightarrow> shown (rp_session r) = shown s | Some l \<Rightarrow> shown (rp_session r) = Some l)"

lemma tells_silent: "last_told ms = None \<Longrightarrow> shown s' = shown s \<Longrightarrow> tells s (answer ms next s')"
  by (simp add: tells_def)

lemma tells_layout: "last_told ms = shown s' \<Longrightarrow> shown s' \<noteq> None \<Longrightarrow> tells s (answer ms next s')"
  by (auto simp: tells_def)

lemma session_shown: "session_ok s \<Longrightarrow> shown s \<noteq> None"
  by (metis map_option_is_None option.simps(3) session_focus shown_def)

lemma focused_put [simp]: "focused_window (put_window (ss_focused_window_id s) v s) = Some v"
  by (simp add: focused_window_def session_window_def put_window_def update_conv')

lemma shown_put [simp]:
  "shown (put_window (ss_focused_window_id s) v s) = Some (layout_changed_msg (ss_cols s) (ss_rows s) v)"
  by (simp add: shown_def put_window_fields)

lemma tells_with_layout: "tells s (with_layout f next s)"
proof (cases "focused_window s")
  case None
  then show ?thesis by (simp add: with_layout_def on_focused_def tells_def split: option.split)
next
  case (Some w)
  then show ?thesis by (simp add: with_layout_def on_focused_def tells_def Let_def)
qed

text \<open>What the layout message does not depend on.\<close>

lemma layout_floats [simp]:
  "layout_changed_msg cols rows (w\<lparr>w_floating_panes := fs\<rparr>) = layout_changed_msg cols rows w"
  "layout_changed_msg cols rows (w\<lparr>w_name := name\<rparr>) = layout_changed_msg cols rows w"
  "layout_changed_msg cols rows (w\<lparr>w_last_cols := a, w_last_rows := b, w_floating_panes := fs\<rparr>)
     = layout_changed_msg cols rows w"
  "layout_changed_msg cols rows (w\<lparr>w_last_cols := a, w_last_rows := b\<rparr>) = layout_changed_msg cols rows w"
  by (simp_all add: layout_changed_msg_def compute_layouts_def pane_ids_def Let_def
      cong: layout_mode.case_cong)

lemma layout_floating [simp]:
  "layout_changed_msg cols rows (snd (open_floating_pane i ok tc tr w)) = layout_changed_msg cols rows w"
  "layout_changed_msg cols rows (snd (close_floating_pane i w)) = layout_changed_msg cols rows w"
  "layout_changed_msg cols rows (snd (move_floating_pane i c r w)) = layout_changed_msg cols rows w"
  "layout_changed_msg cols rows (snd (resize_floating_pane i c r w)) = layout_changed_msg cols rows w"
  by (simp_all add: open_floating_pane_def close_floating_pane_def move_floating_pane_def
      resize_floating_pane_def Let_def split: prod.split option.split)

lemma tells_kept:
  assumes "focused_window s = Some w" "last_told ms = None"
    "layout_changed_msg (ss_cols s) (ss_rows s) v = layout_changed_msg (ss_cols s) (ss_rows s) w"
  shows "tells s (answer ms next (put_window (ss_focused_window_id s) v s))"
  by (rule tells_silent [OF assms(2)]) (simp add: assms(3), simp add: shown_def assms(1))

section \<open>The handlers\<close>

lemma tells_layouts:
  "tells s (handle_focus_next_pane next s)" "tells s (handle_focus_prev_pane next s)"
  "tells s (handle_focus_pane i next s)" "tells s (handle_swap_pane i next s)"
  "tells s (handle_resize_split delta next s)" "tells s (handle_set_layout_mode mode next s)"
  by (simp_all add: handle_focus_next_pane_def handle_focus_prev_pane_def handle_focus_pane_def
      handle_swap_pane_def handle_resize_split_def handle_set_layout_mode_def tells_with_layout)

lemma tells_floating:
  assumes "focused_window s = Some w"
  shows "tells s (handle_open_floating_pane ev next s)" "tells s (handle_close_floating_pane i next s)"
    "tells s (handle_move_floating_pane i c r next s)" "tells s (handle_resize_floating_pane i c r next s)"
proof -
  obtain o' v where r: "open_floating_pane (ev_pane ev) (\<not> isl (ev_spawn ev)) (ss_cols s) (ss_rows s) w = (o', v)"
    by fastforce
  have "layout_changed_msg (ss_cols s) (ss_rows s) v = layout_changed_msg (ss_cols s) (ss_rows s) w"
    by (metis layout_floating(1) r snd_conv)
  then show "tells s (handle_open_floating_pane ev next s)" using tells_kept [OF assms]
    by (cases o') (auto simp: handle_open_floating_pane_def assms r)
  show "tells s (handle_close_floating_pane i next s)" using tells_kept [OF assms]
    by (simp add: handle_close_floating_pane_def assms case_prod_beta)
  show "tells s (handle_move_floating_pane i c r next s)" "tells s (handle_resize_floating_pane i c r next s)"
    using tells_kept [OF assms]
    by (simp_all add: handle_move_floating_pane_def handle_resize_floating_pane_def assms floating_moved_def
        split: option.split)
qed

lemma tells_zoom:
  assumes "focused_window s = Some w"
  shows "tells s (handle_toggle_zoom next s)" "tells s (handle_reorder_panes order next s)"
proof -
  show "tells s (handle_toggle_zoom next s)"
    by (cases "toggle_zoom (ss_cols s) (ss_rows s) w") (simp add: handle_toggle_zoom_def assms tells_def)
  have "v = w" if "reorder_panes order w = (False, v)" for v
    using that by (simp add: reorder_panes_def Let_def split: if_split_asm)
  moreover have "shown s = Some (layout_changed_msg (ss_cols s) (ss_rows s) w)" by (simp add: shown_def assms)
  ultimately show "tells s (handle_reorder_panes order next s)"
    by (cases "reorder_panes order w") (auto simp: handle_reorder_panes_def assms tells_def)
qed

lemma tells_split:
  assumes "focused_window s = Some w"
    "add_pane_with_options (ev_pane ev) (\<not> isl (ev_spawn ev)) dir (ss_cols s) (ss_rows s) w = (Some i, v)"
  shows "tells s (handle_split ev dir next s)"
  by (simp add: handle_split_def assms case_prod_beta tells_def)

lemma tells_serial:
  assumes "focused_window s = Some w"
  shows "tells s (handle_connect_serial ev port next s)"
  by (simp add: handle_connect_serial_def assms add_serial_pane_def Let_def tells_def split: option.split)

lemma tells_close_pane:
  assumes "session_ok s" "handle_close_pane next s = Some r"
  shows "tells s r"
proof -
  obtain w where w: "focused_window s = Some w" using session_focus [OF assms(1)] by blast
  obtain q v where v: "remove_focused_pane (ss_cols s) (ss_rows s) w = Some (q, v)" "q = None \<longrightarrow> v = w"
    using remove_focused_ok [OF window_ok_focused [OF assms(1) w], of "ss_cols s" "ss_rows s"]
    by (auto split: if_split_asm)
  show ?thesis using assms(2) v(2)
    by (cases q) (auto simp: handle_close_pane_def w v(1) Let_def tells_def, simp add: shown_def w)
qed

lemma shown_windows:
  "ss_focused_window_id s' = ss_focused_window_id s \<Longrightarrow> ss_cols s' = ss_cols s \<Longrightarrow> ss_rows s' = ss_rows s \<Longrightarrow>
   map_of (ss_windows s') (ss_focused_window_id s) = map_of (ss_windows s) (ss_focused_window_id s) \<Longrightarrow> shown s' = shown s"
  by (simp add: shown_def focused_window_def session_window_def)

lemma tells_new_window: "tells s (handle_new_window ev next s)"
proof (cases "spawned ev")
  case (Inl e)
  then show ?thesis by (simp add: handle_new_window_def add_window_def spawn_window_def new_window_id_def tells_def)
next
  case (Inr i)
  let ?w = "window_single next (lit ''window-'' @ dec next) (i, (ss_cols s, ss_rows s)) (ss_cols s) (ss_rows s)"
  let ?s = "(put_window next ?w s)\<lparr>ss_focused_window_id := next\<rparr>"
  have w: "focused_window ?s = Some ?w"
    by (simp add: focused_window_def session_window_def put_window_def update_conv')
  have h: "has_key i (w_panes ?w)" "w_focused_pane_id ?w = i" by (simp_all add: window_single_def has_key_iff)
  have "focused_refresh ev ?s = [FullRefresh i (ev_view ev i)]"
    unfolding focused_refresh_def w option.case pane_refresh_def h(2) using h(1) by simp
  moreover obtain l where "shown ?s = Some l" by (simp add: shown_def w)
  ultimately show ?thesis
    by (simp add: handle_new_window_def add_window_def spawn_window_def new_window_id_def Inr Let_def tells_def
        split: option.split)
qed

lemma tells_close_window:
  assumes "i \<noteq> ss_focused_window_id s"
  shows "tells s (handle_close_window ev i next s)"
proof -
  have "map_of (ss_windows (drop_window i s)) (ss_focused_window_id s) = map_of (ss_windows s) (ss_focused_window_id s)"
    using assms by (simp add: drop_window_def delete_conv')
  then have "shown (drop_window i s) = shown s" by (intro shown_windows) (simp_all add: drop_window_def)
  with assms show ?thesis
    by (auto simp: handle_close_window_def remove_window_def Let_def tells_def drop_window_def)
qed

lemma tells_focus_window: "session_ok s \<Longrightarrow> tells s (handle_focus_window ev i next s)"
proof (cases "has_key i (ss_windows s)")
  case True
  let ?s = "s\<lparr>ss_focused_window_id := i\<rparr>"
  obtain w where w: "focused_window ?s = Some w"
    using True by (auto simp: has_key_def focused_window_def session_window_def split: option.splits)
  then have "shown ?s = Some (layout_changed_msg (ss_cols s) (ss_rows s) w)" by (simp add: shown_def)
  then show ?thesis using True w
    by (simp add: handle_focus_window_def focus_window_def tells_def)
next
  case False
  then show ?thesis by (simp add: handle_focus_window_def focus_window_def tells_def)
qed

lemma tells_rename_window: "tells s (handle_rename_window i name next s)"
proof (cases "session_window i s")
  case (Some w)
  have "shown (put_window i (w\<lparr>w_name := name\<rparr>) s) = shown s"
  proof (cases "i = ss_focused_window_id s")
    case True
    then show ?thesis using Some by (simp add: shown_def focused_window_def) (simp add: put_window_def session_window_def update_conv')
  next
    case False
    then show ?thesis by (intro shown_windows) (simp_all add: put_window_def update_conv')
  qed
  then show ?thesis by (simp add: handle_rename_window_def rename_window_def Some tells_def)
qed (simp add: handle_rename_window_def rename_window_def tells_def)

lemma tells_resize:
  assumes "session_ok s"
  shows "tells s (handle_resize cols rows next s)"
proof -
  obtain w where w: "focused_window s = Some w" "resize_focused cols rows s = (Inr (),
    put_window (ss_focused_window_id s) (resize_all_panes cols rows w) (s\<lparr>ss_cols := cols, ss_rows := rows\<rparr>))"
    using resize_focused_eq [OF assms] by blast
  let ?s = "put_window (ss_focused_window_id s) (resize_all_panes cols rows w) (s\<lparr>ss_cols := cols, ss_rows := rows\<rparr>)"
  have "focused_window ?s = Some (resize_all_panes cols rows w)"
    by (simp add: focused_window_def session_window_def put_window_def update_conv')
  then show ?thesis by (simp add: handle_resize_def w(2) tells_def shown_def put_window_fields)
qed

lemma tells_broadcast: "tells s (handle_set_broadcast b next s)"
  by (simp add: handle_set_broadcast_def set_broadcast_def tells_def shown_def focused_window_def session_window_def)

lemma tells_input [simp]:
  "tells s (handle_key_event ev code mods event_type next s)"
  "tells s (handle_paste_text ev text next s)"
  "tells s (handle_dnd_drop ev path paste_fallback next s)"
  "tells s (handle_mouse_report ev button col row pressed motion next s)"
  by (simp_all add: handle_key_event_def handle_paste_text_def handle_dnd_drop_def handle_mouse_report_def
      typed_def Let_def tells_def split: option.split)

lemma focused_found: "session_ok s \<Longrightarrow> shown s = map_option (layout_changed_msg (ss_cols s) (ss_rows s))
    (session_window (ss_focused_window_id s) s)"
  by (simp add: shown_def focused_window_def)

lemma tells_break:
  assumes "session_ok s" "counted next s" "\<not> serial_focused s" "handle_break_pane next s = Some r"
  shows "tells s r"
proof -
  obtain w where w: "focused_window s = Some w" using session_focus [OF assms(1)] by blast
  have sf: "w_focused_pane_id w \<notin> set (map fst (w_serial_panes w))"
    using assms(3) by (simp only: serial_focused_def w option.case not_False_eq_True)
  obtain q n s' where b: "break_pane next s = Some (q, n, s')" "session_ok s'" "isl q \<longrightarrow> s' = s"
    using break_pane_ok [OF assms(1) w counted_fresh [OF assms(2)] sf]
    by (elim exE conjE) (rule that, assumption, auto split: sum.split_asm)
  show ?thesis using assms(4) b(3) session_shown [OF b(2)]
    by (cases q) (auto simp: handle_break_pane_def b(1) tells_def split: option.split)
qed

lemma tells_join:
  assumes "session_ok s" "target \<in> set (map fst (ss_windows s))" "\<not> serial_focused s"
    "handle_join_pane ev target next s = Some r"
  shows "tells s r"
proof -
  obtain w where w: "focused_window s = Some w" using session_focus [OF assms(1)] by blast
  have sf: "w_focused_pane_id w \<notin> set (map fst (w_serial_panes w))"
    using assms(3) by (simp only: serial_focused_def w option.case not_False_eq_True)
  obtain q s' where b: "join_pane target s = Some (q, s')" "isl q \<longrightarrow> s' = s" "\<not> isl q \<longrightarrow> session_ok s'"
    using join_pane_ok [OF assms(1) w assms(2) sf]
    by (elim exE conjE) (rule that, assumption, auto simp: moved_def split: sum.splits)
  show ?thesis
  proof (cases q)
    case (Inl e)
    then show ?thesis using assms(4) b(2) by (auto simp: handle_join_pane_def b(1) tells_def)
  next
    case (Inr p)
    then have "shown s' \<noteq> None" using b(3) session_shown by simp
    then show ?thesis using assms(4) Inr by (auto simp: handle_join_pane_def b(1) tells_def split: option.split)
  qed
qed

lemma tells_move:
  assumes "session_ok s" "counted next s" "target = 0 \<or> target \<in> set (map fst (ss_windows s))"
    "handle_move_pane_to_window ev i target pos next s = Some r"
  shows "tells s r"
proof -
  obtain q n s' where b: "move_pane i target pos next s = Some (q, n, s')" "isl q \<longrightarrow> s' = s"
    "\<forall>src wid p. q = Inr (src, wid, p) \<longrightarrow> session_ok s' \<and> ss_focused_window_id s' = wid"
    using move_pane_ok [OF assms(1) counted_fresh [OF assms(2)] assms(3), of i pos]
    by (elim exE conjE) (rule that, assumption, auto simp: moved_def split: sum.split_asm)
  show ?thesis
  proof (cases q)
    case (Inl e)
    then show ?thesis using assms(4) b(2) by (auto simp: handle_move_pane_to_window_def b(1) tells_def)
  next
    case (Inr t)
    obtain src wid p where t: "t = (src, wid, p)" by (cases t)
    have s': "session_ok s'" "ss_focused_window_id s' = wid" using b(3) Inr t by blast+
    have "last_told (window_layout wid s') = shown s'"
      by (simp add: window_layout_def shown_def focused_window_def s'(2) split: option.split)
    moreover have "shown s' \<noteq> None" by (rule session_shown [OF s'(1)])
    ultimately show ?thesis using assms(4)
      by (auto simp: handle_move_pane_to_window_def b(1) Inr t tells_def split: option.split)
  qed
qed

section \<open>The connection\<close>

text \<open>The client's view is the focused window of the connection's session.\<close>

definition view_in_sync :: "client_state \<Rightarrow> served \<Rightarrow> bool" where
  "view_in_sync c d \<longleftrightarrow>
     (case Option.bind (current_session d) shown of
        None \<Rightarrow> True | Some (p, f) \<Rightarrow> layout_view c = (p, Some f))"

definition kept :: "served \<Rightarrow> effects \<Rightarrow> served \<Rightarrow> bool" where
  "kept d e d' \<longleftrightarrow>
     (case last_told (ef_msgs e) of
        None \<Rightarrow> Option.bind (current_session d') shown \<in> {None, Option.bind (current_session d) shown}
      | Some l \<Rightarrow> Option.bind (current_session d') shown = Some l)"

lemma view_in_sync_kept:
  assumes "view_in_sync c d" "kept d e d'" 
  shows "view_in_sync (client_hears now (ef_msgs e) c) d'"
proof (cases "last_told (ef_msgs e)")
  case None
  show ?thesis
  proof (cases "Option.bind (current_session d') shown")
    case (Some l)
    with assms(2) None have "Option.bind (current_session d) shown = Some l" by (simp add: kept_def)
    with assms(1) have "layout_view c = (fst l, Some (snd l))" by (simp add: view_in_sync_def case_prod_beta)
    then show ?thesis using Some None view_hears [of c now "ef_msgs e"] by (simp add: view_in_sync_def case_prod_beta)
  qed (simp add: view_in_sync_def)
next
  case (Some l)
  then show ?thesis using assms(2) view_after_layout [of "ef_msgs e" "fst l" "snd l" now c]
    by (simp add: view_in_sync_def kept_def case_prod_beta)
qed

lemma session_of_put: "session_of name ((put_session name s m)\<lparr>mg_next_window_id := n\<rparr>) = Some s"
  by (simp add: session_of_def put_session_def update_conv')

lemma kept_at:
  assumes "at_session h missing d = Some (e, d')" "\<And>name. last_told (missing name) = None"
    and "\<And>s r. current_session d = Some s \<Longrightarrow> h (mg_next_window_id (sd_manager d)) s = Some r \<Longrightarrow> tells s r"
  shows "kept d e d'"
proof (cases "current_session d")
  case None
  then show ?thesis using assms(1,2)
    by (auto simp: at_session_def current_session_def kept_def send_only_def split: option.splits bind_splits)
next
  case (Some s)
  then obtain name where n: "sd_current d = Some name" "session_of name (sd_manager d) = Some s"
    by (auto simp: current_session_def bind_eq_Some_conv)
  from assms(1) n obtain r where r: "h (mg_next_window_id (sd_manager d)) s = Some r"
    "e = \<lparr>ef_msgs = rp_msgs r, ef_sent = [], ef_writes = rp_writes r\<rparr>"
    "d' = d\<lparr>sd_manager := (put_session name (rp_session r) (sd_manager d))\<lparr>mg_next_window_id := rp_next r\<rparr>\<rparr>"
    by (auto simp: at_session_def)
  have "current_session d' = Some (rp_session r)" by (simp add: current_session_def r(3) n(1) session_of_put)
  with assms(3) [OF Some r(1)] Some show ?thesis by (auto simp: kept_def r(2) tells_def split: option.splits)
qed

text \<open>Operations of the manager do not change what the current session shows.\<close>

lemma kept_manager:
  assumes "last_told ms = None" "sd_current d' = sd_current d"
    and "\<And>name s'. session_of name (sd_manager d') = Some s' \<Longrightarrow>
      \<exists>s. session_of name (sd_manager d) = Some s \<and> shown s' = shown s"
  shows "kept d (send_only ms) d'"
proof (cases "sd_current d")
  case (Some name)
  then show ?thesis using assms
    by (cases "session_of name (sd_manager d')") (force simp: kept_def send_only_def current_session_def)+
qed (simp add: kept_def send_only_def assms current_session_def)

lemma kept_same: "last_told ms = None \<Longrightarrow> kept d (send_only ms) d"
  by (simp add: kept_def send_only_def)

lemma session_of_rehome:
  "session_of n (rehome_sessions old new m) = map_option (rehome old new) (session_of n m)"
  by (simp add: rehome_sessions_def session_of_def map_of_map)

lemma shown_rehome [simp]: "shown (rehome old new s) = shown s"
  by (simp add: rehome_def shown_def focused_window_def session_window_def)

lemma session_of_workspaces [simp]: "session_of n (m\<lparr>mg_workspaces := ws\<rparr>) = session_of n m"
  by (simp add: session_of_def)

lemma workspace_sessions:
  "session_of n (snd (create_workspace name m)) = session_of n m"
  "session_of n (snd (switch_workspace name m)) = session_of n m"
  "session_of n (snd (rename_workspace old new m)) = Some s' \<Longrightarrow> \<exists>s. session_of n m = Some s \<and> shown s' = shown s"
  "session_of n (snd (delete_workspace name force m)) = Some s' \<Longrightarrow> \<exists>s. session_of n m = Some s \<and> shown s' = shown s"
  "session_of n (snd (kill_session name m)) = Some s' \<Longrightarrow> \<exists>s. session_of n m = Some s \<and> shown s' = shown s"
  by (auto simp: create_workspace_def switch_workspace_def rename_workspace_def delete_workspace_def Let_def
      session_of_rehome kill_session_def split: if_splits)
    (auto simp: session_of_def delete_conv' split: if_splits)

lemma kept_reply:
  assumes "\<And>m. last_told (ok m) = None"
    and "\<And>n s'. session_of n (snd r) = Some s' \<Longrightarrow> \<exists>s. session_of n (sd_manager d) = Some s \<and> shown s' = shown s"
    and "reply_with ok r d = (e, d')"
  shows "kept d e d'"
  using assms(2,3) kept_manager [of _ d' d]
  by (cases r) (auto simp: reply_with_def assms(1) split: sum.splits)

lemma told_workspaces [simp]: "told (workspace_list_msg m) = None"
  by (simp add: workspace_list_msg_def split: prod.split)

text \<open>Attaching ends with the layout of the session it attached to.\<close>

lemma attach_error:
  "get_or_create_and_attach spawn name cols rows m = (Inl e, m') \<Longrightarrow> session_of n m' = session_of n m"
  by (auto simp: get_or_create_and_attach_def insert_new_session_def session_of_def put_session_def
      split: if_splits prod.splits sum.splits)

lemma attach_found:
  assumes "get_or_create_and_attach spawn name cols rows m = (Inr x, m')"
  obtains s where "session_of name m' = Some s"
  using assms by (auto simp: get_or_create_and_attach_def insert_new_session_def session_of_def put_session_def
      has_key_def update_conv' split: if_splits prod.splits sum.splits option.splits)

lemma kept_attach:
  assumes "fits ev msg d" "handle_attach ev name d = (e, d')"
  shows "kept d e d'"
proof -
  obtain r m where g: "get_or_create_and_attach (spawned ev) name 80 24 (sd_manager d) = (r, m)" by fastforce
  show ?thesis
  proof (cases r)
    case (Inl x)
    with g assms(2) have e: "e = send_only [ServerError (manager_error_text x)]" "d' = d\<lparr>sd_manager := m\<rparr>"
      by (simp_all add: handle_attach_def)
    show ?thesis unfolding e(1) by (rule kept_manager) (simp_all add: e(2) attach_error [OF g [unfolded Inl]])
  next
    case (Inr x)
    have "manager_reach m"
      using manager_reach.attached [OF fitsD(1,3) [OF assms(1)], of "spawned ev" name 80 24] g by simp
    moreover obtain s where s: "session_of name m = Some s" using attach_found [OF g [unfolded Inr]] by blast
    ultimately obtain l where l: "shown s = Some l" using reach_session(1) session_shown by blast
    have "session_of name (snd (take_startup_warnings m)) = Some s" using s
      by (simp add: take_startup_warnings_def session_of_def)
    then show ?thesis using assms(2) g Inr s l
      by (auto simp: handle_attach_def case_prod_beta Let_def kept_def current_session_def split: if_splits)
  qed
qed

section \<open>Every request\<close>

definition closes_focused :: "client_msg \<Rightarrow> served \<Rightarrow> bool" where
  "closes_focused msg d \<longleftrightarrow>
     (case current_session d of
        None \<Rightarrow> False | Some s \<Rightarrow> msg = CloseWindow (ss_focused_window_id s) \<and> length (ss_windows s) > 1)"

lemma tells_only_window:
  "length (ss_windows s) \<le> 1 \<Longrightarrow> tells s (handle_close_window ev i next s)"
  by (simp add: handle_close_window_def remove_window_def tells_def)

text \<open>A request on a session that serves it keeps the client in step.\<close>

lemma kept_on:
  assumes "fits ev msg d" "at_session h missing d = Some (e, d')" "\<And>name. last_told (missing name) = None"
    and "\<And>s r. current_session d = Some s \<Longrightarrow> serving ev msg d s \<Longrightarrow>
      h (mg_next_window_id (sd_manager d)) s = Some r \<Longrightarrow> tells s r"
  shows "kept d e d'"
proof (rule kept_at [OF assms(2,3)])
  fix s r assume s: "current_session d = Some s" and r: "h (mg_next_window_id (sd_manager d)) s = Some r"
  obtain name where n: "session_of name (sd_manager d) = Some s"
    using s by (auto simp: current_session_def bind_eq_Some_conv)
  have "serving ev msg d s"
    using s fitsD(2) [OF assms(1)] reach_session [OF fitsD(1) [OF assms(1)] n] by (simp add: serving_def request_fits_def)
  with assms(4) s r show "tells s r" by blast
qed

lemma tells_split_serving:
  assumes "serving ev msg d s" "\<not> isl (ev_spawn ev)"
  shows "tells s (handle_split ev dir next s)"
proof -
  obtain w where w: "focused_window s = Some w" using serving_focused [OF assms(1)] by blast
  have new: "ev_pane ev \<notin> set (pane_ids w)" by (rule fresh_in_window [OF servingD(3,1) w, OF assms(1) assms(1)])
  obtain r v where r: "add_pane_with_options (ev_pane ev) True dir (ss_cols s) (ss_rows s) w = (r, v)" by fastforce
  then have "r = Some (ev_pane ev)" using add_pane_ok [OF window_ok_focused [OF servingD(1) [OF assms(1)] w] new] by blast
  then show ?thesis using tells_split [OF w] r assms(2) by simp
qed

lemma tells_focused:
  assumes "serving ev msg d s"
  shows "tells s (handle_open_floating_pane ev next s)" "tells s (handle_close_floating_pane i next s)"
    "tells s (handle_move_floating_pane i c r next s)" "tells s (handle_resize_floating_pane i c r next s)"
    "tells s (handle_toggle_zoom next s)" "tells s (handle_reorder_panes order next s)"
    "tells s (handle_connect_serial ev port next s)" "tells s (handle_resize cols rows next s)"
    "tells s (handle_focus_window ev i next s)"
  using serving_focused [OF assms] tells_floating tells_zoom tells_serial tells_resize tells_focus_window
    servingD(1) [OF assms] by metis+

lemma kept_queries:
  assumes "dispatch other ev msg d = Some (e, d')"
  shows "msg = QueryForegroundProcess i \<Longrightarrow> kept d e d'" "msg = ListSessions \<Longrightarrow> kept d e d'"
    "msg = ListWorkspaces \<Longrightarrow> kept d e d'" "msg = Ping \<Longrightarrow> kept d e d'" "msg = Hello v \<Longrightarrow> kept d e d'"
    "msg = DisplayPanes flag \<Longrightarrow> kept d e d'" "msg = QuakeToggle action \<Longrightarrow> kept d e d'"
    "msg = SetThemeColors fg bg \<Longrightarrow> kept d e d'" "msg = Detach \<Longrightarrow> kept d e d'"
  using assms kept_same
  by (auto simp: handle_query_def handle_query_foreground_process_def handle_list_sessions_def
      handle_list_workspaces_def handle_quake_toggle_def handle_detach_def kept_def send_only_def
      current_session_def split: option.splits)

lemma kept_workspaces:
  "handle_kill_session ev name d = (e, d') \<Longrightarrow> kept d e d'"
  "handle_create_workspace name d = (e, d') \<Longrightarrow> kept d e d'"
  "handle_switch_workspace name d = (e, d') \<Longrightarrow> kept d e d'"
  "handle_rename_workspace old new d = (e, d') \<Longrightarrow> kept d e d'"
  "handle_delete_workspace name force d = (e, d') \<Longrightarrow> kept d e d'"
  unfolding handle_kill_session_def handle_create_workspace_def handle_switch_workspace_def
    handle_rename_workspace_def handle_delete_workspace_def
  by (erule kept_reply [rotated 2], simp, (simp add: workspace_sessions; fail | erule workspace_sessions))+

lemma kept_handler:
  assumes "fits ev msg d" "at_session (\<lambda>next s. Some (f next s)) missing d = Some (e, d')"
    and "\<And>name. last_told (missing name) = None"
    and "\<And>s next. serving ev msg d s \<Longrightarrow> tells s (f next s)"
  shows "kept d e d'"
  by (rule kept_on [OF assms(1,2,3)]) (use assms(4) in auto)

lemmas tells_all = tells_layouts tells_focused tells_new_window tells_rename_window tells_broadcast tells_input

lemma kept_handlers:
  "fits ev msg d \<Longrightarrow> on_session h d = Some (e, d') \<Longrightarrow>
   (\<And>s next. serving ev msg d s \<Longrightarrow> tells s (h next s)) \<Longrightarrow> kept d e d'"
  by (rule kept_handler, assumption, assumption) (rule last_told.simps, blast)

lemma dispatch_kept:
  assumes "fits ev msg d" "\<not> closes_focused msg d" "dispatch other ev msg d = Some (e, d')"
  shows "kept d e d'"
proof -
  note on = kept_on [OF assms(1)] and handler = kept_handler [OF assms(1)]
  have sv: "session_ok s" "counted (mg_next_window_id (sd_manager d)) s" "session_fits ev s msg"
    if "serving ev msg d s" for s using that by (simp_all add: serving_def)
  show ?thesis
  proof (cases msg)
    case (CloseWindow i)
    have "tells s (handle_close_window ev i n s)" if "current_session d = Some s" for s n
      using assms(2) that tells_close_window tells_only_window
      by (auto simp: CloseWindow closes_focused_def not_less)
    then show ?thesis using assms(3) on unfolding CloseWindow dispatch.simps by (auto elim!: kept_at)
  next
    case BreakPane
    show ?thesis using assms(3) unfolding BreakPane dispatch.simps
      by (rule on) (use sv in \<open>auto simp: session_fits_def BreakPane intro: tells_break\<close>)
  next
    case (JoinPane i)
    show ?thesis using assms(3) unfolding JoinPane dispatch.simps
      by (rule on) (use sv in \<open>auto simp: session_fits_def JoinPane simp del: set_map intro: tells_join\<close>)
  next
    case (MovePaneToWindow q i pos)
    show ?thesis using assms(3) unfolding MovePaneToWindow dispatch.simps
      by (rule on) (use sv in \<open>auto simp: session_fits_def MovePaneToWindow simp del: set_map intro: tells_move\<close>)
  next
    case ClosePane
    show ?thesis using assms(3) unfolding ClosePane dispatch.simps
      by (rule on) (use sv in \<open>auto intro: tells_close_pane\<close>)
  next
    case SplitVertical
    show ?thesis using assms(3) unfolding SplitVertical dispatch.simps
      by (rule handler) (use sv in \<open>auto simp: session_fits_def SplitVertical intro: tells_split_serving\<close>)
  next
    case SplitHorizontal
    show ?thesis using assms(3) unfolding SplitHorizontal dispatch.simps
      by (rule handler) (use sv in \<open>auto simp: session_fits_def SplitHorizontal intro: tells_split_serving\<close>)
  next
    case SplitWithShell
    show ?thesis using assms(3) unfolding SplitWithShell dispatch.simps
      by (rule handler) (use sv in \<open>auto simp: session_fits_def SplitWithShell intro: tells_split_serving\<close>)
  next
    case (OtherRequest k)
    then show ?thesis using fitsD(2) [OF assms(1)] by (simp add: request_fits_def)
  next
    case (Attach name)
    then show ?thesis using assms kept_attach by auto
  next
    case (ConnectSerial port)
    show ?thesis using assms(3) unfolding ConnectSerial dispatch.simps
      by (rule handler) (auto simp: ConnectSerial intro: tells_all)
  next
    case (RenameWindow i name)
    show ?thesis using assms(3) unfolding RenameWindow dispatch.simps
      by (rule handler) (auto intro: tells_all)
  qed (insert assms(3) kept_queries [OF assms(3)],
    (simp_all only: dispatch.simps option.inject, (blast intro: kept_workspaces kept_handlers [OF assms(1)] tells_all)+)?)
qed

end
