(* ===== verification/Server_Properties.thy ===== *)
theory Server_Properties
  imports Client_Sync
begin

text \<open>
  The properties of sessions, the manager, restart, key encoding and the service of requests,
  with the inputs that show their hypotheses can hold: a session of two windows that the
  operations of \<open>Session\<close> produce, and a connection that has attached to a new session.
\<close>

section \<open>Samples\<close>

definition two_windows :: session where
  "two_windows =
     \<lparr>ss_name = lit ''main'',
      ss_windows = [(1, window_single 1 (lit ''window-1'') (1, (80, 24)) 80 24),
                    (2, window_single 2 (lit ''window-'' @ dec 2) (2, (80, 24)) 80 24)],
      ss_focused_window_id = 2, ss_shell = lit ''sh'', ss_shell_args = [], ss_cols = 80, ss_rows = 24,
      ss_broadcast = False, ss_workspace_name = DEFAULT_WORKSPACE\<rparr>"

lemma two_windows_reach: "session_reach 3 two_windows"
proof -
  let ?s = "\<lparr>ss_name = lit ''main'', ss_windows = [(1, window_single 1 (lit ''window-1'') (1, (80, 24)) 80 24)],
      ss_focused_window_id = 1, ss_shell = lit ''sh'', ss_shell_args = [], ss_cols = 80, ss_rows = 24,
      ss_broadcast = False, ss_workspace_name = DEFAULT_WORKSPACE\<rparr>"
  have u: "1 < u32_max" "2 < u32_max" by (simp_all add: u32_max_def)
  have "session_reach 2 ?s"
    by (rule session_reach.created [OF u(1), of "lit ''main''" 80 24 "lit ''sh''" "[]" DEFAULT_WORKSPACE 1])
      (simp add: new_in_workspace_def new_window_id_def spawn_window_def)
  moreover have "session_op 2 ?s 3 two_windows"
    by (rule session_op.add [OF u(2), of "Inr 2" _ "Inr 2"])
      (simp_all add: add_window_def new_window_id_def spawn_window_def two_windows_def put_window_def
        panes_of_def window_single_def pane_ids_def)
  ultimately show ?thesis by (rule session_reach.step)
qed

lemmas two_windows_ok = session_reach_ok [OF two_windows_reach, THEN conjunct1]

lemma two_windows_facts:
  "map fst (ss_windows two_windows) = [1, 2]" "session_panes two_windows = [1, 2]"
  "focused_window two_windows = Some (window_single 2 (lit ''window-'' @ dec 2) (2, (80, 24)) 80 24)"
  "session_window 1 two_windows = Some (window_single 1 (lit ''window-1'') (1, (80, 24)) 80 24)"
  "ss_focused_window_id two_windows = 2"
  by (simp_all add: two_windows_def panes_of_def focused_window_def session_window_def window_single_def pane_ids_def)

section \<open>Sessions\<close>



text \<open>Breaking a pane out and moving a pane to another window never panic, lose no pane of the
  session and duplicate none; a pane that moved is in the window that is then focused.  The
  target must exist and a serial pane must not be focused when breaking.
\<close>

lemma panes_conserved:
  assumes "session_ok s" "counted next s" "target = 0 \<or> target \<in> set (map fst (ss_windows s))"
    and "\<not> serial_focused s"
  shows "(\<exists>r n s'. move_pane p target pos next s = Some (r, n, s') \<and> session_ok s'
      \<and> set (session_panes s') = set (session_panes s)
      \<and> (\<not> isl r \<longrightarrow> (\<exists>w. focused_window s' = Some w \<and> p \<in> set (pane_ids w))))
    \<and> (\<exists>r n s'. break_pane next s = Some (r, n, s') \<and> session_ok s'
      \<and> set (session_panes s') = set (session_panes s))"
proof
  obtain w where w: "focused_window s = Some w" using session_focus [OF assms(1)] by blast
  have sf: "w_focused_pane_id w \<notin> set (map fst (w_serial_panes w))"
    using assms(4) by (simp only: serial_focused_def w option.case not_False_eq_True)
  note fresh = counted_fresh [OF assms(2)]
  show "\<exists>r n s'. break_pane next s = Some (r, n, s') \<and> session_ok s'
      \<and> set (session_panes s') = set (session_panes s)"
    using break_pane_ok [OF assms(1) w fresh sf] by blast
  obtain r n s' where m: "move_pane p target pos next s = Some (r, n, s')"
    "case r of Inl _ \<Rightarrow> n = next \<and> s' = s
     | Inr (src, i, q) \<Rightarrow> q = p \<and> i = (if target = 0 then next else target)
         \<and> n = (if target = 0 then wrap32 (next + 1) else next)
         \<and> set (map fst (ss_windows s')) \<subseteq> insert i (set (map fst (ss_windows s)))
         \<and> moved s p i s'"
    using move_pane_ok [OF assms(1) fresh assms(3), of p pos] by blast
  then show "\<exists>r n s'. move_pane p target pos next s = Some (r, n, s') \<and> session_ok s'
      \<and> set (session_panes s') = set (session_panes s)
      \<and> (\<not> isl r \<longrightarrow> (\<exists>w. focused_window s' = Some w \<and> p \<in> set (pane_ids w)))"
    using assms(1) by (cases r) (auto simp: moved_def focused_window_def)
qed

lemma panes_conserved_witness:
  "\<exists>r n s'. move_pane 1 2 None 3 two_windows = Some (r, n, s') \<and> set (session_panes s') = {1, 2}"
proof -
  have "counted 3 two_windows" using session_reach_ok [OF two_windows_reach] by blast
  moreover have "\<not> serial_focused two_windows" by (simp add: serial_focused_def two_windows_facts window_single_def)
  ultimately show ?thesis
    using panes_conserved [OF two_windows_ok, of 3 2 1 None] by (simp add: two_windows_facts del: set_map) blast
qed

text \<open>C28: Moving a pane to a window that does not exist is rejected, but the pane has already been
  taken out: it is in no window of the session any more.
\<close>

theorem pane_lost:
  assumes "session_ok s" "session_window src s = Some w" "p \<in> set (map fst (w_panes w))"
    and "1 < length (w_panes w) \<or> w_serial_panes w = []"
    and "target \<noteq> 0" "target \<notin> set (map fst (ss_windows s))"
  shows "\<exists>s'. move_pane p target pos next s = Some (Inl (WindowNotFound target), next, s')
    \<and> p \<in> set (session_panes s) \<and> set (session_panes s') = set (session_panes s) - {p}"
  using assms by (rule move_pane_loses)

lemma pane_lost_witness:
  "\<exists>s'. move_pane 1 9 None 3 two_windows = Some (Inl (WindowNotFound 9), 3, s') \<and> set (session_panes s') = {2}"
  using pane_lost [OF two_windows_ok two_windows_facts(4), of 1 9 None 3]
  by (auto simp: window_single_def two_windows_facts simp del: set_map)

text \<open>Resizing the terminal resizes only the focused window: a window in the background keeps
  its panes and their sizes, while the session, and so the layout sent when that window is
  focused, already has the new size.
\<close>

lemma stale_sizes:
  assumes "session_ok s" "session_window i s = Some v" "i \<noteq> ss_focused_window_id s"
  shows "\<exists>s' s''. resize_focused cols rows s = (Inr (), s') \<and> focus_window i s' = (Inr (), s'')
    \<and> focused_window s'' = Some v \<and> shown s'' = Some (layout_changed_msg cols rows v)"
proof -
  obtain s' where s': "resize_focused cols rows s = (Inr (), s')" using resize_focused_eq [OF assms(1)] by metis
  have f: "session_window i s' = Some v" "ss_cols s' = cols" "ss_rows s' = rows"
    using resize_others [OF assms, of cols rows] s' by simp_all
  then have "focus_window i s' = (Inr (), s'\<lparr>ss_focused_window_id := i\<rparr>)"
    by (simp add: focus_window_def has_key_def session_window_def)
  moreover have "focused_window (s'\<lparr>ss_focused_window_id := i\<rparr>) = Some v"
    using f(1) by (simp add: focused_window_def session_window_def)
  ultimately show ?thesis using s' f by (simp add: shown_def)
qed

lemma stale_sizes_witness:
  "\<exists>s' s'' w. resize_focused 100 40 two_windows = (Inr (), s') \<and> focus_window 1 s' = (Inr (), s'')
     \<and> focused_window s'' = Some w \<and> w_panes w = [(1, (80, 24))]"
  using stale_sizes [OF two_windows_ok two_windows_facts(4), of 100 40]
  by (auto simp: two_windows_facts window_single_def)

text \<open>Moving the only pane of the focused window to a window that does not exist leaves a session whose
  focused window does not exist.
\<close>

lemma no_focused_window:
  assumes "session_ok s" "focused_window s = Some w" "w_panes w = [q]" "w_serial_panes w = []"
    and "target \<noteq> 0" "target \<notin> set (map fst (ss_windows s))"
  shows "\<exists>s'. move_pane (fst q) target pos next s = Some (Inl (WindowNotFound target), next, s')
    \<and> focused_window s' = None"
  by (rule move_last_pane [OF assms])

lemma no_focused_window_witness:
  "\<exists>s'. move_pane 2 9 None 3 two_windows = Some (Inl (WindowNotFound 9), 3, s') \<and> focused_window s' = None"
  using no_focused_window [OF two_windows_ok two_windows_facts(3), of "(2, (80, 24))" 9 None 3]
  by (simp add: window_single_def two_windows_facts)

section \<open>The manager\<close>



text \<open>The counts of the workspace list add up to the number of sessions, and deleting a
  workspace with force keeps every session: those that were in it are in the default one.
\<close>

lemma workspace_counts:
  assumes "manager_reach m"
  shows "sum_list (map (\<lambda>k. count_in k m) (wk_known (mg_workspaces m))) = length (mg_sessions m)
    \<and> (\<forall>name m'. delete_workspace name True m = (Inr (), m') \<longrightarrow>
         map fst (mg_sessions m') = map fst (mg_sessions m) \<and> count_in name m' = 0
         \<and> count_in DEFAULT_WORKSPACE m' = count_in DEFAULT_WORKSPACE m + count_in name m)"
proof (intro conjI allI impI)
  show "sum_list (map (\<lambda>k. count_in k m) (wk_known (mg_workspaces m))) = length (mg_sessions m)"
    by (rule counts_total [OF manager_reach_ok [OF assms]])
  fix name m'
  assume d: "delete_workspace name True m = (Inr (), m')"
  let ?f = "\<lambda>(n, s). (n, rehome name DEFAULT_WORKSPACE s)"
  have m': "mg_sessions m' = map ?f (mg_sessions m)" and n: "name \<noteq> DEFAULT_WORKSPACE"
    using d by (auto simp: delete_workspace_def Let_def rehome_sessions_def split: if_splits)
  show "map fst (mg_sessions m') = map fst (mg_sessions m)" by (simp add: m' split_def)
  show "count_in name m' = 0" using n
    by (auto simp: count_in_def m' filter_map comp_def split_def rehome_def filter_empty_conv)
  have "length (filter (\<lambda>(_, s). ss_workspace_name s = DEFAULT_WORKSPACE) (map ?f xs))
      = length (filter (\<lambda>(_, s). ss_workspace_name s = DEFAULT_WORKSPACE) xs)
        + length (filter (\<lambda>(_, s). ss_workspace_name s = name) xs)" for xs
    using n by (induction xs) (auto simp: rehome_def)
  then show "count_in DEFAULT_WORKSPACE m' = count_in DEFAULT_WORKSPACE m + count_in name m"
    by (simp add: count_in_def m')
qed

lemma workspace_counts_witness:
  "sum_list (map (\<lambda>k. count_in k (manager_new [] [])) (wk_known (mg_workspaces (manager_new [] []))))
     = length (mg_sessions (manager_new [] []))"
  using workspace_counts [OF manager_reach.empty] by blast

text \<open>C27: A server restarted from its own snapshot has the same sessions in the same order, with
  the same windows, names, trees and focus, and the same workspaces, whenever the shells can
  be spawned again.
\<close>

theorem restart_roundtrip:
  assumes "manager_reach m"
  shows "\<exists>m'. manager_restore pick (\<lambda>_ _. True) (manager_to_snapshot cwd now m) (manager_new shell args)
      = (map fst (mg_sessions m), m')
    \<and> mg_workspaces m' = mg_workspaces m \<and> list_all2 same_session (mg_sessions m) (mg_sessions m')"
  by (rule manager_restore_own [OF manager_reach_ok [OF assms]])

lemma restart_roundtrip_witness:
  "\<exists>m'. manager_restore hd (\<lambda>_ _. True)
      (manager_to_snapshot (\<lambda>_. None :: string option) 7 (snd (get_or_create_and_attach (Inr 1) (lit ''main'') 80 24 (manager_new [] []))))
      (manager_new [] []) = ([lit ''main''], m')"
proof -
  have "mg_next_window_id (manager_new [] []) < u32_max" by (simp add: manager_new_def u32_max_def)
  from restart_roundtrip [OF manager_reach.attached [OF manager_reach.empty this, of "Inr 1" "lit ''main''" 80 24],
      of hd "\<lambda>_. None :: string option" 7 "[]" "[]"]
  show ?thesis
    by (auto simp: get_or_create_and_attach_def insert_new_session_def new_in_workspace_def new_window_id_def
        spawn_window_def put_session_def manager_new_def has_key_def Let_def)
qed

text \<open>After a start from a snapshot the pane counter is above the id of every restored pane,
  so that no new pane gets an id that is in use.
\<close>

lemma startup_ids:
  assumes "list_all snapshot_ok (sv_sessions snap)" "picks pick" "max_pane_id_in_snapshot snap < u32_max"
    and "startup pick spawn_ok cwd now (Some snap) next_pane (manager_new shell args) = (next_pane', m', rewrite)"
    and "(n, s) \<in> set (mg_sessions m')" "p \<in> set (session_panes s)"
  shows "p < next_pane'"
  by (rule startup_fresh [OF _ assms]) (simp add: manager_new_def)

lemma startup_ids_witness:
  "\<exists>next_pane m'. startup hd (\<lambda>_ _. True) (\<lambda>_. None) 7
      (Some (manager_to_snapshot (\<lambda>_. None :: string option) 7 (put_session (lit ''main'') two_windows (manager_new [] []))))
      1 (manager_new [] []) = (next_pane, m', False) \<and> 2 < next_pane"
proof -
  let ?snap = "manager_to_snapshot (\<lambda>_. None :: string option) 7 (put_session (lit ''main'') two_windows (manager_new [] []))"
  have h: "list_all snapshot_ok (sv_sessions ?snap)" "max_pane_id_in_snapshot ?snap < u32_max" "picks hd"
    by (simp_all add: manager_to_snapshot_def put_session_def manager_new_def session_to_snapshot_def two_windows_def
        window_to_snapshot_def window_single_def snapshot_ok_def max_pane_id_in_snapshot_def snapshot_windows_def
        list_max_def u32_max_def has_key_def picks_def)
  have "\<exists>next_pane m' s. startup hd (\<lambda>_ _. True) (\<lambda>_. None :: string option) 7 (Some ?snap) 1 (manager_new [] [])
      = (next_pane, m', False) \<and> (lit ''main'', s) \<in> set (mg_sessions m') \<and> 2 \<in> set (session_panes s)"
    by (simp add: startup_def manager_restore_def restore_session_def session_restore_def restore_window_def
        window_restore_def manager_to_snapshot_def put_session_def manager_new_def session_to_snapshot_def
        two_windows_def window_to_snapshot_def window_single_def has_key_def SNAPSHOT_VERSION_def
        SNAPSHOT_VERSION_MIN_def find_duplicate_pane_id_def pane_ids_def panes_of_def total_window_count_def Let_def)
  then show ?thesis using startup_ids [OF h(1,3,2)] by blast
qed

text \<open>A round of the foreground poll announces a pane exactly when what it runs differs from
  what the last round saw, remembers what it announced and forgets closed panes; a second
  round that sees the same announces nothing.
\<close>

lemma poll_exact:
  assumes "distinct (map (fst \<circ> snd) (foreground_now fg m))"
    and "poll_foreground_processes fg last_seen m = (seen, out)"
  shows "out = map (\<lambda>(n, i, name). (n, ProcessChanged i name))
      (filter (\<lambda>(_, i, name). map_of last_seen i \<noteq> Some name) (foreground_now fg m))
    \<and> (\<forall>i. map_of seen i = (if i \<in> set (map (fst \<circ> snd) (foreground_now fg m)) then Some (fg i) else None))
    \<and> snd (poll_foreground_processes fg seen m) = []"
proof (intro conjI allI)
  note r = poll_result [OF assms]
  show "out = map (\<lambda>(n, i, name). (n, ProcessChanged i name))
      (filter (\<lambda>(_, i, name). map_of last_seen i \<noteq> Some name) (foreground_now fg m))" by (rule r(2))
  show "map_of seen i = (if i \<in> set (map (fst \<circ> snd) (foreground_now fg m)) then Some (fg i) else None)" for i
    by (simp add: r(1) del: set_map)
  obtain seen' out' where p: "poll_foreground_processes fg seen m = (seen', out')" by fastforce
  have "map_of seen i = Some name" if "(n, i, name) \<in> set (foreground_now fg m)" for n i name
  proof -
    have "name = fg i" using that by (auto simp: foreground_now_def)
    with that r(1) show ?thesis by (auto simp: rev_image_eqI)
  qed
  then have "filter (\<lambda>(_, i, name). map_of seen i \<noteq> Some name) (foreground_now fg m) = []"
    by (auto simp: filter_empty_conv)
  then show "snd (poll_foreground_processes fg seen m) = []" using poll_result(2) [OF assms(1) p] p by simp
qed

lemma poll_exact_witness:
  "snd (poll_foreground_processes (\<lambda>_. Some []) [] (put_session (lit ''main'') two_windows (manager_new [] [])))
     = [(lit ''main'', ProcessChanged 1 (Some [])), (lit ''main'', ProcessChanged 2 (Some []))]"
proof -
  let ?m = "put_session (lit ''main'') two_windows (manager_new [] [])"
  have f: "foreground_now (\<lambda>_. Some []) ?m = [(lit ''main'', 1, Some []), (lit ''main'', 2, Some [])]"
    by (simp add: foreground_now_def put_session_def manager_new_def two_windows_def window_single_def
        pane_ids_def has_key_def)
  obtain seen out where p: "poll_foreground_processes (\<lambda>_. Some []) [] ?m = (seen, out)" by fastforce
  show ?thesis using poll_exact [OF _ p] by (simp add: f p)
qed

section \<open>Keys\<close>

text \<open>A key of the Kitty protocol is sent so that the program reads back its code point, the
  modifiers and the kind of the event, whether or not event kinds are reported, and with the
  four modifier bits in the order of the protocol.
\<close>

lemma kitty_roundtrip:
  assumes "kitty_key code mods = Some (cp, extra)" "cp \<le> u32_max" "event_type \<le> u32_max"
  shows "\<exists>text. kitty_key_to_bytes code mods event_type flags = as_bytes text
    \<and> list_all is_scalar text \<and> read_csi_u text = Some (cp, unat (kitty_mods_param extra), event_type)
    \<and> bit (kitty_mods_param extra - 1) 0 = is_shift extra \<and> bit (kitty_mods_param extra - 1) 1 = is_alt extra
    \<and> bit (kitty_mods_param extra - 1) 2 = is_ctrl extra \<and> bit (kitty_mods_param extra - 1) 3 = is_meta extra"
proof -
  let ?m = "unat (kitty_mods_param extra)"
  let ?t = "kitty_seq cp ?m event_type (flags AND 2 \<noteq> 0)"
  have "?m < 2 ^ LENGTH(8)" by (rule unsigned_less)
  then have "?m < 256" unfolding len_bit0 len_num1 by simp
  then have m: "?m \<le> u32_max" unfolding u32_max_def by linarith
  show ?thesis
    by (intro exI [of _ ?t] conjI kitty_mods_bits kitty_seq_scalar read_kitty_seq [OF assms(2) m assms(3)])
      (simp add: kitty_key_to_bytes_def assms(1))
qed

lemma kitty_roundtrip_witness:
  "\<exists>text. kitty_key_to_bytes (KChar 97) CTRL 3 1 = as_bytes text
     \<and> read_csi_u text = Some (97, unat (kitty_mods_param CTRL), 3)"
  using kitty_roundtrip [of "KChar 97" CTRL 97 CTRL 3 1] by (simp add: u32_max_def) blast

section \<open>Requests\<close>

definition quiet_env :: env where
  "quiet_env =
     \<lparr>ev_pane = 7, ev_spawn = Inr (), ev_view = (\<lambda>_. grid_new 80 24), ev_shared = (\<lambda>_. shared_new 80 24),
      ev_busy = (\<lambda>_. False), ev_receivers = (\<lambda>_. 1), ev_pick = hd\<rparr>"

definition fresh_served :: served where
  "fresh_served = \<lparr>sd_current = None, sd_forwarder = None, sd_manager = manager_new [] [], sd_theme = None\<rparr>"

definition attached :: served where
  "attached = snd (handle_attach quiet_env (lit ''main'') fresh_served)"

lemma picks_hd: "picks hd"
  by (simp add: picks_def)

lemma fits_attach: "fits quiet_env (Attach (lit ''main'')) fresh_served"
  by (simp add: fits_def request_fits_def fresh_served_def manager_reach.empty quiet_env_def picks_hd
      current_session_def) (simp add: manager_new_def u32_max_def)

lemma attached_session:
  "current_session attached = Some \<lparr>ss_name = lit ''main'', ss_windows = [(1, window_single 1 (lit ''window-1'') (7, (80, 24)) 80 24)],
     ss_focused_window_id = 1, ss_shell = [], ss_shell_args = [], ss_cols = 80, ss_rows = 24,
     ss_broadcast = False, ss_workspace_name = DEFAULT_WORKSPACE\<rparr>"
  "mg_next_window_id (sd_manager attached) = 2"
  by (simp_all add: attached_def handle_attach_def fresh_served_def get_or_create_and_attach_def insert_new_session_def
      new_in_workspace_def new_window_id_def spawn_window_def manager_new_def spawned_def quiet_env_def Let_def
      take_startup_warnings_def has_key_def put_session_def session_of_def current_session_def workspace_state_new_def)

lemma attached_fits: "fits (quiet_env\<lparr>ev_pane := 8\<rparr>) NewWindow attached"
proof -
  have "manager_reach (sd_manager attached)"
    using answered_attach [OF fitsD(1,3) [OF fits_attach]] by (simp add: attached_def)
  then show ?thesis
    by (simp add: fits_def request_fits_def quiet_env_def picks_hd attached_session u32_max_def fresh_pane_def
        panes_of_def window_single_def pane_ids_def session_fits_def)
qed

text \<open>C14: A request that fits the server's state (the windows and panes it names exist, the spawn it
  needs succeeds, the new pane id is unused) is answered without a panic and leaves a manager
  that is reachable, and so keeps every invariant.
\<close>

theorem requests_safe:
  assumes "manager_reach (sd_manager d)" "request_fits ev msg d"
  shows "\<exists>e d'. dispatch other ev msg d = Some (e, d') \<and> manager_reach (sd_manager d')"
  using dispatch_answered [of ev msg d other] assms
  by (auto simp: fits_def answered_def split: option.splits)

lemma requests_safe_witness:
  "\<exists>e d'. dispatch (\<lambda>_ d. (send_only [], d)) (quiet_env\<lparr>ev_pane := 8\<rparr>) NewWindow attached = Some (e, d')"
  using requests_safe [OF fitsD(1,2) [OF attached_fits]] by blast

text \<open>C15: If the client that sends a request was in step, its layout and focus being those of the focused window
  of its session, and the request fits the state of a reachable server (\<open>fits\<close>, as in C14), then it stays in step
  after the answer.  Fitting means that the next pane id is new to the session, a split can spawn its
  shell, a swap names a pane of the window, a join or a move names a window there is, no serial pane is focused when a
  pane is broken out or joined, a floating pane is opened in a window of the size of the session, the window
  counter is not at its end and the request is one that the model answers.  The request must not close the focused window of a session
  with another one: the claim then fails (\<open>close_window_stale\<close>).
\<close>

theorem client_layout:
  assumes "fits ev msg d" "\<not> closes_focused msg d" "view_in_sync c d"
    and "dispatch other ev msg d = Some (e, d')"
  shows "view_in_sync (client_hears now (ef_msgs e) c) d'"
  using view_in_sync_kept [OF assms(3) dispatch_kept [OF assms(1,2,4)]] .

lemma client_layout_witness:
  "\<exists>e d'. dispatch (\<lambda>_ d. (send_only [], d)) quiet_env (Attach (lit ''main'')) fresh_served = Some (e, d')
     \<and> view_in_sync (client_hears 0 (ef_msgs e) (client_state_new None)) d'"
proof -
  obtain e d' where r: "handle_attach quiet_env (lit ''main'') fresh_served = (e, d')" by fastforce
  have "view_in_sync (client_state_new None) fresh_served" "\<not> closes_focused (Attach (lit ''main'')) fresh_served"
    by (simp_all add: view_in_sync_def closes_focused_def current_session_def fresh_served_def)
  then show ?thesis using client_layout [OF fits_attach] r by simp
qed

text \<open>Closing the focused window of a session with another one moves the focus of the session
  to another window, but the answer is only the list of windows: the client keeps the layout
  and the focused pane of the window that is gone.
\<close>

lemma close_window_stale:
  assumes "session_ok s" "length (ss_windows s) > 1" "picks (ev_pick ev)"
  shows "\<exists>ws s'. handle_close_window ev (ss_focused_window_id s) next s = answer [WindowListChanged ws] next s'
    \<and> session_window (ss_focused_window_id s) s' = None
    \<and> ss_focused_window_id s' \<noteq> ss_focused_window_id s \<and> focused_window s' \<noteq> None
    \<and> layout_view (client_hears now [WindowListChanged ws] c) = layout_view c"
proof -
  let ?i = "ss_focused_window_id s"
  obtain r s' where a: "remove_window (ev_pick ev) ?i s = (r, s')" by fastforce
  have "has_key ?i (ss_windows s)" using assms(1) by (simp only: session_ok_def has_key_iff)
  with a assms(2) have r: "r = Inr ()" by (auto simp: remove_window_def Let_def)
  have ok: "session_ok s'" "map fst (ss_windows s') = filter (\<lambda>j. j \<noteq> ?i) (map fst (ss_windows s))"
    using remove_window_ok [OF assms(1,3) a] r by simp_all
  have i: "?i \<notin> set (map fst (ss_windows s'))" unfolding ok(2) by simp
  obtain w where w: "focused_window s' = Some w" using session_focus [OF ok(1)] by blast
  have "ss_focused_window_id s' \<in> set (map fst (ss_windows s'))" using ok(1) by (simp only: session_ok_def)
  with i have "ss_focused_window_id s' \<noteq> ?i" by metis
  moreover have "session_window ?i s' = None" using i by (simp add: session_window_def map_of_eq_None_iff)
  ultimately show ?thesis using w
    by (intro exI [of _ "window_list s'"] exI [of _ s'])
      (simp add: handle_close_window_def a r layout_view_def client_hears_def)
qed

lemma close_window_stale_witness:
  "\<exists>ws s'. handle_close_window quiet_env 2 3 two_windows = answer [WindowListChanged ws] 3 s'
     \<and> ss_focused_window_id s' \<noteq> 2"
proof -
  have h: "length (ss_windows two_windows) > 1" "picks (ev_pick quiet_env)"
    by (simp_all add: two_windows_def quiet_env_def picks_hd)
  show ?thesis using close_window_stale [OF two_windows_ok h, of 3, unfolded two_windows_facts(5)] by blast
qed

text \<open>Attaching sends the grid of the focused pane only.  The text client drops differences for
  panes it has no grid of, so that every other pane of the window stays unknown to it and its
  output is lost.
\<close>

lemma attach_one_pane:
  assumes "session_of name (sd_manager d) = Some s" "focused_window s = Some w"
    and "i \<noteq> w_focused_pane_id w" "cs_panes c = []" "handle_attach ev name d = (e, d')"
  shows "map_of (cs_panes (client_hears now (ef_msgs e) c)) i = None
    \<and> apply_server_message now (GridDiff i diff) (client_hears now (ef_msgs e) c) = client_hears now (ef_msgs e) c"
proof -
  have "map_of (mg_sessions (sd_manager d)) name = Some s" using assms(1) by (simp add: session_of_def)
  then have "get_or_create_and_attach (spawned ev) name 80 24 (sd_manager d) = (Inr (), sd_manager d)"
    by (simp add: get_or_create_and_attach_def has_key_def)
  then have e: "\<exists>rest. ef_msgs e = attach_refresh ev s @ focused_layout s @ rest
      \<and> (\<forall>m \<in> set rest. (\<exists>t. m = ServerError t) \<or> (\<exists>l. m = SessionList l))"
    using assms(1,5) by (auto simp: handle_attach_def Let_def take_startup_warnings_def split: if_splits)
  have rest: "cs_panes (fold (apply_server_message now) rest c0) = cs_panes c0"
    if "\<forall>m \<in> set rest. (\<exists>t. m = ServerError t) \<or> (\<exists>l. m = SessionList l)" for rest c0
    using that by (induction rest arbitrary: c0) auto
  have "map_of (cs_panes (fold (apply_server_message now) (attach_refresh ev s @ focused_layout s) c)) i = None"
    using assms(2-4) by (auto simp: attach_refresh_def focused_pane_full_refresh_def focused_layout_def layout_msg_def
        Let_def split: prod.split)
  then have n: "map_of (cs_panes (client_hears now (ef_msgs e) c)) i = None"
    using e rest by (auto simp: client_hears_def)
  then show ?thesis by simp
qed

lemma unsent:
  "at_session h missing d = Some (e, d') \<Longrightarrow> ef_sent e = []"
  "reply_with ok r d = (e, d') \<Longrightarrow> ef_sent e = []"
  by (auto simp: at_session_def reply_with_def send_only_def split: option.splits prod.splits sum.splits)

lemma attach_one_pane_witness:
  "\<exists>e d'. handle_attach quiet_env (lit ''main'') attached = (e, d')
     \<and> map_of (cs_panes (client_hears 0 (ef_msgs e) (client_state_new None))) 9 = None"
proof -
  obtain e d' where a: "handle_attach quiet_env (lit ''main'') attached = (e, d')" by fastforce
  obtain s w where s: "session_of (lit ''main'') (sd_manager attached) = Some s" "focused_window s = Some w"
    "w_focused_pane_id w = 7"
  proof -
    have "sd_current attached = Some (lit ''main'')"
      by (simp add: attached_def handle_attach_def fresh_served_def get_or_create_and_attach_def
          insert_new_session_def new_in_workspace_def new_window_id_def spawn_window_def manager_new_def
          spawned_def quiet_env_def Let_def has_key_def split: prod.split)
    then show ?thesis using that attached_session(1)
      by (auto simp: current_session_def focused_window_def session_window_def window_single_def)
  qed
  show ?thesis using attach_one_pane [OF s(1,2) _ _ a, of 9 "client_state_new None" 0] s(3) a
    by (simp add: client_state_new_def Let_def)
qed

text \<open>Except for the quake toggle no request puts a message into the channel of a session: the
  other clients of the session are told nothing of a new layout, window list or workspace.
\<close>

lemma others_untold:
  assumes "dispatch other ev msg d = Some (e, d')" "\<forall>action. msg \<noteq> QuakeToggle action" "\<forall>k. msg \<noteq> OtherRequest k"
  shows "ef_sent e = []"
  using assms
  by (cases msg)
    (auto simp: send_only_def handle_attach_def handle_detach_def handle_list_sessions_def handle_query_def
      handle_kill_session_def handle_list_workspaces_def handle_create_workspace_def handle_switch_workspace_def
      handle_rename_workspace_def handle_delete_workspace_def Let_def case_prod_beta dest!: unsent
      split: option.splits sum.splits)

lemma others_untold_witness:
  "\<exists>e d'. dispatch (\<lambda>_ d. (send_only [], d)) (quiet_env\<lparr>ev_pane := 8\<rparr>) NewWindow attached = Some (e, d') \<and> ef_sent e = []"
proof -
  have "answered (dispatch (\<lambda>_ d. (send_only [], d)) (quiet_env\<lparr>ev_pane := 8\<rparr>) NewWindow attached)"
    by (rule dispatch_answered [OF attached_fits])
  then obtain e d' where d: "dispatch (\<lambda>_ d. (send_only [], d)) (quiet_env\<lparr>ev_pane := 8\<rparr>) NewWindow attached = Some (e, d')"
    by (auto simp: answered_def split: option.splits)
  show ?thesis using others_untold [OF d] d by blast
qed

text \<open>A connection that detaches forgets its session, so that its requests are not answered any
  more, but the forwarder of the last attach goes on: it still receives what the session sends.
\<close>

lemma detach_keeps_stream:
  "handle_detach d = (send_only [], d\<lparr>sd_current := None\<rparr>)
   \<and> sd_forwarder (snd (handle_detach d)) = sd_forwarder d
   \<and> at_session h missing (snd (handle_detach d)) = Some (send_only [], snd (handle_detach d))"
  by (simp add: handle_detach_def at_session_def)

section \<open>The stream\<close>

text \<open>C17: Unless the first message that decodes is a hello of the server's protocol version, the
  server's state does not change and the client gets nothing but one error message.
\<close>

theorem handshake_gate:
  assumes "first_message decode bs \<noteq> Some (Hello PROTOCOL_VERSION)"
    and "serve decode other evs k bs False d = (es, d', why)"
  shows "d' = d \<and> (es = [] \<or> (\<exists>t. es = [send_only [ServerError t]]))"
  using serve_gate [OF assms] by (simp add: refused_def)

lemma handshake_gate_witness:
  "\<exists>es why. serve (\<lambda>_. Some Ping) (\<lambda>_ d. (send_only [], d)) (\<lambda>_. quiet_env) 0 (frame [5]) False fresh_served = (es, fresh_served, why)"
proof -
  have f: "read_frame (frame [5]) = Inr ([5], [])"
    using read_frame_frame [of "[5]" "[]"] by (simp add: MAX_MSG_LEN_def)
  have "first_message (\<lambda>_. Some Ping) (frame [5]) \<noteq> Some (Hello PROTOCOL_VERSION)"
    by (subst first_message.simps) (simp add: f)
  then show ?thesis
    using handshake_gate [of "\<lambda>_. Some Ping" "frame [5]" "\<lambda>_ d. (send_only [], d)" "\<lambda>_. quiet_env" 0 fresh_served]
    by (cases "serve (\<lambda>_. Some Ping) (\<lambda>_ d. (send_only [], d)) (\<lambda>_. quiet_env) 0 (frame [5]) False fresh_served") auto
qed

text \<open>C16: Serving the bytes a client writes, a hello and then its requests, is answering the
  requests one after the other; and the client reads back exactly the messages the server
  frames.  The codec of the \<open>postcard\<close> library must decode what it encodes, and the payloads
  must be within the limit.
\<close>

theorem wire_equivalence:
  assumes "\<forall>m \<in> set (Hello PROTOCOL_VERSION # ms). decode (encode m) = Some m \<and> length (encode m) \<le> MAX_MSG_LEN"
    and "\<forall>r \<in> set rs. read (write r) = Some r \<and> length (write r) \<le> MAX_MSG_LEN"
  shows "serve decode other evs k (concat (map (frame \<circ> encode) (Hello PROTOCOL_VERSION # ms))) False d
      = (case run_requests other evs (Suc k) ms d of
           (es, d', why) \<Rightarrow> (send_only [HelloAck PROTOCOL_VERSION CARGO_PKG_VERSION] # es, d', why))
    \<and> client_receive read (concat (map (frame \<circ> write) rs)) = (rs, NoHeader)"
proof
  have h: "length (encode (Hello PROTOCOL_VERSION)) \<le> MAX_MSG_LEN"
    "decode (encode (Hello PROTOCOL_VERSION)) = Some (Hello PROTOCOL_VERSION)" using assms(1) by simp_all
  show "serve decode other evs k (concat (map (frame \<circ> encode) (Hello PROTOCOL_VERSION # ms))) False d
      = (case run_requests other evs (Suc k) ms d of
           (es, d', why) \<Rightarrow> (send_only [HelloAck PROTOCOL_VERSION CARGO_PKG_VERSION] # es, d', why))"
    using serve_hello [where decode = decode, OF h] serve_requests [of ms decode encode] assms(1) by simp
  have "client_receive read [] = ([], NoHeader)" by (subst client_receive.simps) simp
  with client_receive_frames [OF assms(2), of "[]"] show "client_receive read (concat (map (frame \<circ> write) rs)) = (rs, NoHeader)"
    by simp
qed

lemma wire_equivalence_witness:
  "serve (\<lambda>p. if p = [1] then Some (Hello PROTOCOL_VERSION) else Some Ping) (\<lambda>_ d. (send_only [], d)) (\<lambda>_. quiet_env) 0
     (concat (map (frame \<circ> (\<lambda>m. if m = Ping then [2] else [1])) [Hello PROTOCOL_VERSION, Ping])) False fresh_served
   = ([send_only [HelloAck PROTOCOL_VERSION CARGO_PKG_VERSION], send_only [Pong]], fresh_served, Disconnected)"
  using wire_equivalence [of "[Ping]" "\<lambda>p. if p = [1] then Some (Hello PROTOCOL_VERSION) else Some Ping"
      "\<lambda>m. if m = Ping then [2] else [1]" "[]" "\<lambda>_. Some ()" "\<lambda>_. []" "\<lambda>_ d. (send_only [], d)" "\<lambda>_. quiet_env" 0 fresh_served]
  by (simp add: MAX_MSG_LEN_def)

text \<open>The decoder accepts images of 256 MiB, but a message may have 64 MiB: an image of
  8192 by 8192 pixels is accepted, and the frame of a message with its pixels makes the client
  close the connection, whatever follows.
\<close>

lemma image_disconnects:
  assumes "length rgba = 8192 * 8192 * 4" "length payload < 2 ^ 32" "length rgba \<le> length payload"
  shows "checked_image_bytes 8192 8192 4 = Some (length rgba)
    \<and> client_receive read (frame payload @ rest) = ([], Oversized (length payload))"
proof
  show "checked_image_bytes 8192 8192 4 = Some (length rgba)"
    using assms(1) by (simp add: checked_image_bytes_def MAX_IMAGE_BYTES_def)
  have "length payload > MAX_MSG_LEN" using assms(1,3) by (simp add: MAX_MSG_LEN_def)
  from read_frame_oversized [OF this assms(2)]
  show "client_receive read (frame payload @ rest) = ([], Oversized (length payload))"
    by (subst client_receive.simps) simp
qed

lemma image_disconnects_witness:
  "\<exists>payload. client_receive (\<lambda>_. Some ()) (frame payload @ []) = ([], Oversized (length payload))"
  using image_disconnects [of "replicate (8192 * 8192 * 4) (0 :: u8)" "replicate (8192 * 8192 * 4) 0" "\<lambda>_. Some ()" "[]"]
  by (intro exI [of _ "replicate (8192 * 8192 * 4) 0"]) simp

end
