(* ===== verification/Scrollback.thy ===== *)
theory Scrollback
  imports Cell_Grid Rust_Str
begin

text \<open>
  The history of a pane in the graphical client
  (\<open>nexterm-client-gpu/src/scrollback.rs\<close>): a ring buffer of rows with a full-text search.
  The \<open>regex\<close> crate is a parameter: \<open>regex_new\<close> compiles a pattern or rejects it,
  \<open>is_match\<close> and \<open>find_iter\<close> are the methods of the compiled pattern.
\<close>

record scrollback =
  rb_capacity :: nat
  rb_lines :: "cell list list"
  rb_head :: nat
  rb_len :: nat

definition scrollback_new :: "nat \<Rightarrow> scrollback" where
  "scrollback_new capacity = \<lparr>rb_capacity = capacity, rb_lines = [], rb_head = 0, rb_len = 0\<rparr>"

text \<open>Both branches of the source store the row in the same way; the last line divides by
  the capacity and panics when it is zero.\<close>

definition store_line :: "cell list \<Rightarrow> scrollback \<Rightarrow> scrollback" where
  "store_line line sb =
     (if length (rb_lines sb) \<le> rb_head sb then sb\<lparr>rb_lines := rb_lines sb @ [line]\<rparr>
      else sb\<lparr>rb_lines := (rb_lines sb)[rb_head sb := line]\<rparr>)"

definition push_line :: "cell list \<Rightarrow> scrollback \<Rightarrow> scrollback option" where
  "push_line line sb =
     (let sb1 = (if rb_len sb < rb_capacity sb
                 then store_line line sb\<lparr>rb_len := rb_len sb + 1\<rparr> else store_line line sb) in
      if rb_capacity sb1 = 0 then None
      else Some (sb1\<lparr>rb_head := (rb_head sb1 + 1) mod rb_capacity sb1\<rparr>))"

definition get_line :: "scrollback \<Rightarrow> nat \<Rightarrow> cell list option" where
  "get_line sb idx =
     (if rb_len sb \<le> idx then None
      else let actual = (if rb_len sb < rb_capacity sb then idx
                         else (rb_head sb + idx) mod rb_capacity sb) in
        lget (rb_lines sb) actual)"

definition set_capacity :: "nat \<Rightarrow> scrollback \<Rightarrow> scrollback" where
  "set_capacity new_capacity sb =
     (let cap = max new_capacity 1 in
      if cap = rb_capacity sb then sb
      else let keep_from = rb_len sb - cap;
               kept = List.map_filter (get_line sb) [keep_from..<rb_len sb] in
        \<lparr>rb_capacity = cap, rb_lines = kept, rb_head = length kept mod cap, rb_len = length kept\<rparr>)"

definition trim_end :: "rstr \<Rightarrow> rstr" where
  "trim_end s = rev (dropWhile is_whitespace (rev s))"

definition line_to_string :: "cell list \<Rightarrow> rstr" where
  "line_to_string line = trim_end (map cell_ch line)"

definition search_all ::
    "(rstr \<Rightarrow> 're option) \<Rightarrow> ('re \<Rightarrow> rstr \<Rightarrow> (nat \<times> nat) list) \<Rightarrow> rstr \<Rightarrow> scrollback
     \<Rightarrow> (nat \<times> nat \<times> nat) list" where
  "search_all regex_new find_iter pattern sb =
     (case regex_new pattern of
        None \<Rightarrow> []
      | Some re \<Rightarrow> concat (map (\<lambda>row_idx.
          case get_line sb row_idx of
            None \<Rightarrow> []
          | Some line \<Rightarrow> map (Pair row_idx) (find_iter re (line_to_string line)))
          [0..<rb_len sb]))"

definition row_matches :: "('re \<Rightarrow> rstr \<Rightarrow> bool) \<Rightarrow> 're \<Rightarrow> scrollback \<Rightarrow> nat \<Rightarrow> bool" where
  "row_matches is_match re sb row_idx =
     (case get_line sb row_idx of None \<Rightarrow> False | Some line \<Rightarrow> is_match re (line_to_string line))"

definition search_next ::
    "(rstr \<Rightarrow> 're option) \<Rightarrow> ('re \<Rightarrow> rstr \<Rightarrow> bool) \<Rightarrow> rstr \<Rightarrow> nat \<Rightarrow> scrollback \<Rightarrow> nat option" where
  "search_next regex_new is_match pattern from_row sb =
     (if pattern = [] then None
      else case regex_new pattern of
        None \<Rightarrow> None
      | Some re \<Rightarrow> List.find (row_matches is_match re sb)
          (map (\<lambda>offset. (from_row + offset) mod rb_len sb) [0..<rb_len sb]))"

definition search_prev ::
    "(rstr \<Rightarrow> 're option) \<Rightarrow> ('re \<Rightarrow> rstr \<Rightarrow> bool) \<Rightarrow> rstr \<Rightarrow> nat \<Rightarrow> scrollback \<Rightarrow> nat option" where
  "search_prev regex_new is_match pattern before_row sb =
     (if pattern = [] \<or> rb_len sb = 0 then None
      else case regex_new pattern of
        None \<Rightarrow> None
      | Some re \<Rightarrow> List.find (row_matches is_match re sb)
          (map (\<lambda>offset. (before_row + rb_len sb - offset) mod rb_len sb) [1..<rb_len sb + 1]))"

section \<open>The most recent elements of a list\<close>

definition recent :: "nat \<Rightarrow> 'a list \<Rightarrow> 'a list" where
  "recent n xs = drop (length xs - n) xs"

lemma length_recent [simp]: "length (recent n xs) = min n (length xs)"
  by (simp add: recent_def min_def)

lemma recent_all [simp]: "length xs \<le> n \<Longrightarrow> recent n xs = xs"
  by (simp add: recent_def)

lemma recent_snoc_full: "length xs = n \<Longrightarrow> 0 < n \<Longrightarrow> recent n (xs @ [x]) = tl xs @ [x]"
  by (simp add: recent_def drop_Suc)

lemma recent_append: "recent n (recent n xs @ ys) = recent n (xs @ ys)"
proof -
  have "length xs + length ys - n - length xs = length ys - n" by arith
  then show ?thesis
    by (cases "length xs \<le> n"; cases "length ys \<le> n") (auto simp: recent_def add.commute)
qed

text \<open>
  A store that keeps the most recent elements put into it: what its users rely on, and what
  follows for a whole sequence.
\<close>

locale recent_store =
  fixes put :: "'a \<Rightarrow> 's \<Rightarrow> 's option"
    and view :: "'s \<Rightarrow> 'a list"
    and limit :: "'s \<Rightarrow> nat"
    and ok :: "'s \<Rightarrow> bool"
  assumes put_ok: "ok s \<Longrightarrow> \<exists>s'. put x s = Some s' \<and> ok s' \<and> limit s' = limit s
      \<and> view s' = recent (limit s) (view s @ [x])"
begin

lemma put_all:
  assumes "ok s"
  shows "\<exists>s'. foldM put xs s = Some s' \<and> ok s' \<and> limit s' = limit s
    \<and> recent (limit s) (view s') = recent (limit s) (view s @ xs)"
  using assms
proof (induction xs arbitrary: s)
  case Nil
  then show ?case by simp
next
  case (Cons x xs)
  from put_ok [OF Cons.prems, of x] obtain s1 where s1: "put x s = Some s1" "ok s1"
    "limit s1 = limit s" "view s1 = recent (limit s) (view s @ [x])" by blast
  from Cons.IH [OF s1(2)] obtain s2 where "foldM put xs s1 = Some s2" "ok s2"
    "limit s2 = limit s" "recent (limit s) (view s2) = recent (limit s) (view s1 @ xs)"
    using s1(3) by auto
  with s1 show ?case by (simp add: recent_append)
qed

end

section \<open>The ring holds the most recent rows\<close>

definition ring_ok :: "scrollback \<Rightarrow> bool" where
  "ring_ok sb \<longleftrightarrow> 0 < rb_capacity sb \<and> rb_len sb = length (rb_lines sb) \<and> rb_len sb \<le> rb_capacity sb
     \<and> (if rb_len sb < rb_capacity sb then rb_head sb = rb_len sb else rb_head sb < rb_capacity sb)"

text \<open>The rows from the oldest to the newest.\<close>

definition rb_rows :: "scrollback \<Rightarrow> cell list list" where
  "rb_rows sb =
     (if rb_len sb < rb_capacity sb then rb_lines sb
      else drop (rb_head sb) (rb_lines sb) @ take (rb_head sb) (rb_lines sb))"

lemma length_rb_rows: "ring_ok sb \<Longrightarrow> length (rb_rows sb) = rb_len sb"
  by (auto simp: ring_ok_def rb_rows_def)

lemma get_line_rows:
  assumes "ring_ok sb"
  shows "get_line sb i = lget (rb_rows sb) i"
proof (cases "i < rb_len sb")
  case True
  show ?thesis
  proof (cases "rb_len sb < rb_capacity sb")
    case full: False
    with assms have c: "rb_len sb = rb_capacity sb" "length (rb_lines sb) = rb_capacity sb"
      "rb_head sb < rb_capacity sb" by (auto simp: ring_ok_def)
    have "(rb_head sb + i) mod rb_capacity sb =
        (if i < rb_capacity sb - rb_head sb then rb_head sb + i else i - (rb_capacity sb - rb_head sb))"
      using True c by (auto simp: mod_if)
    then show ?thesis using True c
      by (auto simp: get_line_def rb_rows_def lget_def nth_append Let_def)
  qed (use True assms in \<open>auto simp: get_line_def rb_rows_def ring_ok_def\<close>)
qed (use assms in \<open>auto simp: get_line_def length_rb_rows\<close>)

lemma push_line_ok:
  assumes "ring_ok sb"
  shows "\<exists>sb'. push_line line sb = Some sb' \<and> ring_ok sb' \<and> rb_capacity sb' = rb_capacity sb
    \<and> rb_rows sb' = recent (rb_capacity sb) (rb_rows sb @ [line])"
proof (cases "rb_len sb < rb_capacity sb")
  case True
  with assms show ?thesis
    by (auto simp: push_line_def store_line_def ring_ok_def rb_rows_def Let_def mod_Suc)
next
  case False
  with assms have c: "rb_len sb = rb_capacity sb" "length (rb_lines sb) = rb_capacity sb"
    "rb_head sb < rb_capacity sb" "0 < rb_capacity sb" by (auto simp: ring_ok_def)
  let ?l = "rb_lines sb" and ?h = "rb_head sb"
  have split: "drop ?h ?l = ?l ! ?h # drop (Suc ?h) ?l" using c by (simp add: Cons_nth_drop_Suc)
  have "recent (rb_capacity sb) (rb_rows sb @ [line]) = drop (Suc ?h) ?l @ take ?h ?l @ [line]"
    using recent_snoc_full [of "rb_rows sb" "rb_capacity sb" line] length_rb_rows [OF assms] c
    by (simp add: rb_rows_def split)
  moreover have "drop (Suc ?h mod rb_capacity sb) (?l[?h := line]) @ take (Suc ?h mod rb_capacity sb) (?l[?h := line])
      = drop (Suc ?h) ?l @ take ?h ?l @ [line]"
    using c by (cases "Suc ?h = rb_capacity sb") (auto simp: take_Suc_conv_app_nth upd_conv_take_nth_drop)
  ultimately show ?thesis using c
    by (simp add: push_line_def store_line_def ring_ok_def rb_rows_def Let_def)
qed

interpretation ring: recent_store push_line rb_rows rb_capacity ring_ok
  by unfold_locales (rule push_line_ok)

lemma scrollback_new_ok: "0 < c \<Longrightarrow> ring_ok (scrollback_new c) \<and> rb_rows (scrollback_new c) = []"
  by (simp add: scrollback_new_def ring_ok_def rb_rows_def)

lemma map_filter_lget: "List.map_filter (lget xs) [k..<length xs] = drop k xs"
proof -
  have "\<forall>i \<in> set is. i < length xs \<Longrightarrow> List.map_filter (lget xs) is = map ((!) xs) is" for "is"
    by (induction "is") (auto simp: List.map_filter_simps)
  then have "List.map_filter (lget xs) [k..<length xs] = map ((!) xs) [k..<length xs]" by simp
  also have "\<dots> = drop k xs" by (rule nth_equalityI) simp_all
  finally show ?thesis .
qed

lemma ring_rebuild:
  assumes "0 < cap" "length rows \<le> cap"
  defines "sb \<equiv> \<lparr>rb_capacity = cap, rb_lines = rows, rb_head = length rows mod cap, rb_len = length rows\<rparr>"
  shows "ring_ok sb \<and> rb_rows sb = rows"
  using assms by (cases "length rows = cap") (auto simp: ring_ok_def rb_rows_def)

lemma set_capacity_ok:
  assumes "ring_ok sb"
  shows "ring_ok (set_capacity c sb) \<and> rb_capacity (set_capacity c sb) = max c 1
    \<and> rb_rows (set_capacity c sb) = recent (max c 1) (rb_rows sb)"
proof (cases "max c 1 = rb_capacity sb")
  case True
  with assms show ?thesis using length_rb_rows [OF assms] by (auto simp: set_capacity_def ring_ok_def)
next
  case False
  have "get_line sb = lget (rb_rows sb)" using get_line_rows [OF assms] by auto
  then have k: "List.map_filter (get_line sb) [rb_len sb - max c 1..<rb_len sb] = recent (max c 1) (rb_rows sb)"
    using map_filter_lget [of "rb_rows sb" "rb_len sb - max c 1"]
    by (simp add: length_rb_rows [OF assms] recent_def)
  define m where "m = max c 1"
  have m: "0 < m" by (simp add: m_def)
  have "set_capacity c sb = \<lparr>rb_capacity = m, rb_lines = recent m (rb_rows sb),
      rb_head = length (recent m (rb_rows sb)) mod m, rb_len = length (recent m (rb_rows sb))\<rparr>"
    using False k unfolding m_def [symmetric] set_capacity_def Let_def by (simp del: length_recent)
  then show ?thesis using ring_rebuild [OF m, of "recent m (rb_rows sb)"]
    unfolding m_def [symmetric] by simp
qed

text \<open>A life of the history: rows pushed and changes of the capacity, in any order.\<close>

datatype scrollback_op = PushLine "cell list" | SetCapacity nat

fun scrollback_step :: "scrollback_op \<Rightarrow> scrollback \<Rightarrow> scrollback option" where
  "scrollback_step (PushLine line) sb = push_line line sb"
| "scrollback_step (SetCapacity c) sb = Some (set_capacity c sb)"

text \<open>The same life of a plain list with a limit.\<close>

fun recent_step :: "scrollback_op \<Rightarrow> nat \<times> cell list list \<Rightarrow> nat \<times> cell list list" where
  "recent_step (PushLine line) (n, rows) = (n, recent n (rows @ [line]))"
| "recent_step (SetCapacity c) (n, rows) = (max c 1, recent (max c 1) rows)"

lemma scrollback_step_ok:
  assumes "ring_ok sb"
  shows "\<exists>sb'. scrollback_step r sb = Some sb' \<and> ring_ok sb'
    \<and> (rb_capacity sb', rb_rows sb') = recent_step r (rb_capacity sb, rb_rows sb)"
  by (cases r) (use push_line_ok [OF assms] set_capacity_ok [OF assms] in auto)

lemma scrollback_run_ok:
  assumes "ring_ok sb"
  shows "\<exists>sb'. foldM scrollback_step rs sb = Some sb' \<and> ring_ok sb'
    \<and> (rb_capacity sb', rb_rows sb') = fold recent_step rs (rb_capacity sb, rb_rows sb)"
  using assms
proof (induction rs arbitrary: sb)
  case (Cons r rs)
  from scrollback_step_ok [OF Cons.prems, of r] obtain sb1 where "scrollback_step r sb = Some sb1" "ring_ok sb1"
    "(rb_capacity sb1, rb_rows sb1) = recent_step r (rb_capacity sb, rb_rows sb)" by blast
  with Cons.IH [of sb1] show ?case by simp
qed simp

section \<open>The searches\<close>

lemma find_some_iff: "List.find P xs = Some x \<Longrightarrow> P x \<and> x \<in> set xs"
  by (auto simp: find_Some_iff)

text \<open>A loop over all offsets finds a row whenever one matches.\<close>

lemma cycle_onto:
  assumes "r < (n :: nat)"
  shows "\<exists>k < n. (a + k) mod n = r"
proof (intro exI conjI)
  let ?k = "(r + (n - a mod n)) mod n"
  show "?k < n" using assms by simp
  have le: "a mod n \<le> n" using assms by (simp add: less_imp_le_nat)
  have "(a + ?k) mod n = (a mod n + (r + (n - a mod n))) mod n" by (simp only: mod_simps)
  also have "a mod n + (r + (n - a mod n)) = r + n" using le by arith
  finally show "(a + ?k) mod n = r" using assms by simp
qed

text \<open>Searching a row from every offset of a cycle: nothing is found only if no row
  matches, and what is found is the first match of the cycle.\<close>

lemma find_map_upt:
  "List.find P (map f [a..<b]) = Some x \<longleftrightarrow> (\<exists>i. a \<le> i \<and> i < b \<and> x = f i \<and> P x \<and> (\<forall>j. a \<le> j \<and> j < i \<longrightarrow> \<not> P (f j)))"
proof -
  have "List.find P (map f [a..<b]) = Some x \<longleftrightarrow>
      (\<exists>k < b - a. P (f (a + k)) \<and> x = f (a + k) \<and> (\<forall>j < k. \<not> P (f (a + j))))"
    unfolding find_Some_iff length_map length_upt
  proof (rule iff_exI)
    fix k
    have "map f [a..<b] ! j = f (a + j)" if "j \<le> k" "k < b - a" for j using that by simp
    then show "k < b - a \<and> P (map f [a..<b] ! k) \<and> x = map f [a..<b] ! k \<and> (\<forall>j < k. \<not> P (map f [a..<b] ! j))
      \<longleftrightarrow> k < b - a \<and> P (f (a + k)) \<and> x = f (a + k) \<and> (\<forall>j < k. \<not> P (f (a + j)))"
      by (metis less_imp_le order_refl)
  qed
  also have "\<dots> \<longleftrightarrow> (\<exists>i. a \<le> i \<and> i < b \<and> x = f i \<and> P x \<and> (\<forall>j. a \<le> j \<and> j < i \<longrightarrow> \<not> P (f j)))"
    (is "?l \<longleftrightarrow> ?r")
  proof
    assume ?l
    then obtain k where "k < b - a" "P (f (a + k))" "x = f (a + k)" "\<forall>j < k. \<not> P (f (a + j))" by blast
    moreover have "\<not> P (f j)" if "a \<le> j \<and> j < a + k" for j
      using calculation(4) [rule_format, of "j - a"] that by (simp add: less_diff_conv2)
    ultimately show ?r by (intro exI [of _ "a + k"]) simp
  next
    assume ?r
    then obtain i where "a \<le> i" "i < b" "x = f i" "P x" "\<forall>j. a \<le> j \<and> j < i \<longrightarrow> \<not> P (f j)" by blast
    then show ?l by (intro exI [of _ "i - a"]) simp
  qed
  finally show ?thesis .
qed

lemma find_map_upt_none: "List.find P (map f [a..<b]) = None \<longleftrightarrow> (\<forall>i. a \<le> i \<and> i < b \<longrightarrow> \<not> P (f i))"
  by (auto simp: find_None_iff)

lemma row_matches_rows:
  "ring_ok sb \<Longrightarrow> row_matches is_match re sb r \<longleftrightarrow>
     r < rb_len sb \<and> is_match re (line_to_string (rb_rows sb ! r))"
  by (auto simp: row_matches_def get_line_rows lget_def length_rb_rows split: option.splits)

lemma search_next_none:
  assumes "pattern \<noteq> []" "regex_new pattern = Some re"
  shows "search_next regex_new is_match pattern a sb = None \<longleftrightarrow>
    (\<forall>r < rb_len sb. \<not> row_matches is_match re sb r)"
  using assms cycle_onto [of _ "rb_len sb" a] by (fastforce simp: search_next_def find_map_upt_none)

lemma search_next_some:
  assumes "search_next regex_new is_match pattern a sb = Some r"
  shows "\<exists>re k. regex_new pattern = Some re \<and> row_matches is_match re sb r \<and> r < rb_len sb
    \<and> k < rb_len sb \<and> r = (a + k) mod rb_len sb
    \<and> (\<forall>j < k. \<not> row_matches is_match re sb ((a + j) mod rb_len sb))"
  using assms
  by (auto simp: search_next_def find_map_upt split: if_splits option.splits)

text \<open>The search backwards is the search forwards on the reversed cycle.\<close>

lemma cycle_back_onto:
  assumes "r < (n :: nat)"
  shows "\<exists>k. 1 \<le> k \<and> k < n + 1 \<and> (a + n - k) mod n = r"
proof -
  obtain j where j: "j < n" "(a + j) mod n = r" using cycle_onto [OF assms] by blast
  then show ?thesis by (intro exI [of _ "n - j"]) auto
qed

lemma search_prev_none:
  assumes "pattern \<noteq> []" "regex_new pattern = Some re"
  shows "search_prev regex_new is_match pattern b sb = None \<longleftrightarrow>
    (\<forall>r < rb_len sb. \<not> row_matches is_match re sb r)"
  using assms cycle_back_onto [of _ "rb_len sb" b]
  by (fastforce simp: search_prev_def find_map_upt_none simp del: upt_Suc)

lemma search_prev_some:
  assumes "search_prev regex_new is_match pattern b sb = Some r"
  shows "\<exists>re k. regex_new pattern = Some re \<and> row_matches is_match re sb r \<and> r < rb_len sb
    \<and> 1 \<le> k \<and> k \<le> rb_len sb \<and> r = (b + rb_len sb - k) mod rb_len sb
    \<and> (\<forall>j. 1 \<le> j \<and> j < k \<longrightarrow> \<not> row_matches is_match re sb ((b + rb_len sb - j) mod rb_len sb))"
  using assms
  by (auto simp: search_prev_def find_map_upt simp del: upt_Suc split: if_splits option.splits)

end
