(* ===== verification/Command_Blocks.thy ===== *)
theory Command_Blocks
  imports Scrollback
begin

text \<open>
  The command blocks of the graphical client
  (\<open>nexterm-client-gpu/src/command_blocks.rs\<close>): the fold of the OSC 133 marks into blocks,
  navigation, the rows a collapsed block hides, the walk of the renderer over the history with
  its inverse for clicks, the overlay of the visible blocks and the check of a command that is
  to be run again.
\<close>

text \<open>The client's own copy of the mark kinds (\<open>SemanticMarkKind\<close>).\<close>

datatype block_mark_kind = PromptMark | CommandMark | OutputMark | EndMark

definition kind_from_ipc :: "string \<Rightarrow> block_mark_kind option" where
  "kind_from_ipc kind =
     (if kind = ''A'' then Some PromptMark
      else if kind = ''B'' then Some CommandMark
      else if kind = ''C'' then Some OutputMark
      else if kind = ''D'' then Some EndMark
      else None)"

record block_mark =
  bm_row :: nat
  bm_kind :: block_mark_kind
  bm_exit_code :: "int option"

definition make_block_id :: "nat \<Rightarrow> nat \<Rightarrow> nat" where
  "make_block_id pane_id prompt_row = push_bit 32 pane_id OR wrap32 prompt_row"

record command_block =
  cb_id :: nat
  cb_pane_id :: nat
  cb_prompt_row :: nat
  cb_command_row :: nat
  cb_output_row :: nat
  cb_end_row :: "nat option"
  cb_exit_code :: "int option"
  cb_collapsed :: bool

definition is_complete :: "command_block \<Rightarrow> bool" where
  "is_complete b \<longleftrightarrow> cb_end_row b \<noteq> None"

definition is_failure :: "command_block \<Rightarrow> bool" where
  "is_failure b \<longleftrightarrow> (case cb_exit_code b of Some code \<Rightarrow> code \<noteq> 0 | None \<Rightarrow> False)"

definition open_block :: "nat \<Rightarrow> nat \<Rightarrow> command_block" where
  "open_block pane_id row =
     \<lparr>cb_id = make_block_id pane_id row, cb_pane_id = pane_id, cb_prompt_row = row,
      cb_command_row = row, cb_output_row = row, cb_end_row = None, cb_exit_code = None,
      cb_collapsed = False\<rparr>"

definition extract_step ::
    "nat \<Rightarrow> block_mark \<Rightarrow> command_block list \<times> command_block option
     \<Rightarrow> command_block list \<times> command_block option" where
  "extract_step pane_id m = (\<lambda>(blocks, current).
     (case bm_kind m of
        PromptMark \<Rightarrow>
          ((case current of None \<Rightarrow> blocks | Some prev \<Rightarrow> blocks @ [prev]),
           Some (open_block pane_id (bm_row m)))
      | CommandMark \<Rightarrow>
          (blocks, map_option (\<lambda>b. b\<lparr>cb_command_row := bm_row m, cb_output_row := bm_row m\<rparr>) current)
      | OutputMark \<Rightarrow> (blocks, map_option (\<lambda>b. b\<lparr>cb_output_row := bm_row m\<rparr>) current)
      | EndMark \<Rightarrow>
          (case current of
             None \<Rightarrow> (blocks, None)
           | Some b \<Rightarrow> (blocks @ [b\<lparr>cb_end_row := Some (bm_row m), cb_exit_code := bm_exit_code m\<rparr>], None))))"

definition extract_command_blocks :: "nat \<Rightarrow> block_mark list \<Rightarrow> command_block list" where
  "extract_command_blocks pane_id marks =
     (case fold (extract_step pane_id) marks ([], None) of
        (blocks, None) \<Rightarrow> blocks
      | (blocks, Some b) \<Rightarrow> blocks @ [b])"

section \<open>Navigation\<close>

definition find_block_by_id :: "command_block list \<Rightarrow> nat \<Rightarrow> command_block option" where
  "find_block_by_id blocks i = List.find (\<lambda>b. cb_id b = i) blocks"

text \<open>A block without an end contains every later row: the bound \<open>usize::MAX\<close> is above
  every row.\<close>

definition covers_row :: "command_block \<Rightarrow> nat \<Rightarrow> bool" where
  "covers_row b r \<longleftrightarrow> cb_prompt_row b \<le> r \<and> (case cb_end_row b of None \<Rightarrow> True | Some e \<Rightarrow> r \<le> e)"

definition block_containing_row :: "command_block list \<Rightarrow> nat \<Rightarrow> command_block option" where
  "block_containing_row blocks abs_row = List.find (\<lambda>b. covers_row b abs_row) blocks"

fun is_row_collapsed :: "command_block list \<Rightarrow> nat \<Rightarrow> bool" where
  "is_row_collapsed [] abs_row = False"
| "is_row_collapsed (b # bs) abs_row =
     (if \<not> cb_collapsed b then is_row_collapsed bs abs_row
      else case cb_end_row b of
        None \<Rightarrow> is_row_collapsed bs abs_row
      | Some e \<Rightarrow>
          if abs_row < cb_prompt_row b \<or> e < abs_row then is_row_collapsed bs abs_row
          else \<not> (abs_row = cb_prompt_row b \<or> abs_row = cb_output_row b))"

function resolve_walk :: "command_block list \<Rightarrow> nat \<Rightarrow> nat \<Rightarrow> nat \<Rightarrow> nat \<Rightarrow> nat option" where
  "resolve_walk blocks scrollback_len visual_row visual sb =
     (if scrollback_len \<le> sb then None
      else if is_row_collapsed blocks sb then resolve_walk blocks scrollback_len visual_row visual (sb + 1)
      else if visual = visual_row then Some sb
      else resolve_walk blocks scrollback_len visual_row (visual + 1) (sb + 1))"
  by pat_completeness auto
termination by (relation "measure (\<lambda>(_, n, _, _, sb). n - sb)") auto

declare resolve_walk.simps [simp del]

definition resolve_clicked_scrollback_row :: "command_block list \<Rightarrow> nat \<Rightarrow> nat \<Rightarrow> nat \<Rightarrow> nat option" where
  "resolve_clicked_scrollback_row blocks scrollback_len scroll_offset visual_row =
     resolve_walk blocks scrollback_len visual_row 0 scroll_offset"

definition next_block_id :: "command_block list \<Rightarrow> nat option \<Rightarrow> nat option" where
  "next_block_id blocks current =
     (case current of
        None \<Rightarrow> map_option cb_id (lget blocks 0)
      | Some i \<Rightarrow> Option.bind (position (\<lambda>b. cb_id b = i) blocks)
                    (\<lambda>idx. map_option cb_id (lget blocks (idx + 1))))"

definition prev_block_id :: "command_block list \<Rightarrow> nat option \<Rightarrow> nat option" where
  "prev_block_id blocks current =
     (case current of
        None \<Rightarrow> if blocks = [] then None else Some (cb_id (last blocks))
      | Some i \<Rightarrow> Option.bind (position (\<lambda>b. cb_id b = i) blocks)
                    (\<lambda>idx. if idx = 0 then None else map_option cb_id (lget blocks (idx - 1))))"

section \<open>The overlay of the visible blocks\<close>

datatype block_status = Running | Success | Failure

definition block_status_of :: "command_block \<Rightarrow> block_status" where
  "block_status_of b =
     (case (cb_end_row b, cb_exit_code b) of
        (None, _) \<Rightarrow> Running
      | (Some _, None) \<Rightarrow> Running
      | (Some _, Some c) \<Rightarrow> if c = 0 then Success else Failure)"

record block_overlay_line =
  ol_block_id :: nat
  ol_visual_row_start :: int
  ol_visual_row_end :: int
  ol_status :: block_status
  ol_selected :: bool
  ol_prompt_visual_row :: "int option"

definition usize_max :: nat where
  "usize_max = 18446744073709551615"

text \<open>\<open>as i32\<close>, and the subtraction of the release profile.\<close>

definition as_i32 :: "int \<Rightarrow> int" where
  "as_i32 n = (n + 2147483648) mod 4294967296 - 2147483648"

definition overlay_line :: "nat option \<Rightarrow> nat \<Rightarrow> nat \<Rightarrow> nat \<Rightarrow> command_block \<Rightarrow> block_overlay_line option" where
  "overlay_line selected_block visible_top viewport_end_exclusive viewport_end_inclusive b =
     (let block_start = cb_prompt_row b;
          block_end = (case cb_end_row b of None \<Rightarrow> viewport_end_inclusive | Some e \<Rightarrow> e) in
      if block_end < visible_top then None
      else if viewport_end_exclusive \<le> block_start then None
      else Some
        \<lparr>ol_block_id = cb_id b,
         ol_visual_row_start = as_i32 (as_i32 (int block_start) - as_i32 (int visible_top)),
         ol_visual_row_end = as_i32 (as_i32 (int block_end) - as_i32 (int visible_top)),
         ol_status = block_status_of b,
         ol_selected = (selected_block = Some (cb_id b)),
         ol_prompt_visual_row =
           (if visible_top \<le> block_start
            then Some (as_i32 (as_i32 (int block_start) - as_i32 (int visible_top))) else None)\<rparr>)"

definition compute_block_overlay_lines ::
    "command_block list \<Rightarrow> nat option \<Rightarrow> nat \<Rightarrow> nat \<Rightarrow> block_overlay_line list" where
  "compute_block_overlay_lines blocks selected_block visible_top visible_rows =
     (if visible_rows = 0 then []
      else let viewport_end_exclusive = min (visible_top + visible_rows) usize_max;
               viewport_end_inclusive = viewport_end_exclusive - 1 in
        List.map_filter
          (overlay_line selected_block visible_top viewport_end_exclusive viewport_end_inclusive) blocks)"

section \<open>Commands to run again\<close>

definition replay_byte_ok :: "byte \<Rightarrow> bool" where
  "replay_byte_ok b \<longleftrightarrow> b = 9 \<or> \<not> (b < 32 \<or> b = 127 \<or> b = 155)"

definition sanitize_replay_command :: "rstr \<Rightarrow> rstr option" where
  "sanitize_replay_command raw =
     (let s0 = trim raw;
          s = (if s0 \<noteq> [] \<and> last s0 = 10
               then rev (dropWhile (\<lambda>c. c = 13) (rev (butlast s0))) else s0) in
      if s = [] then None
      else if list_all replay_byte_ok (as_bytes s) then Some s
      else None)"

section \<open>The walk of the renderer over the history\<close>

text \<open>
  A row past the end of every finished block is not collapsed, so that the loop of
  \<open>build_scrollback_verts\<close> (\<open>renderer/grid_verts.rs\<close>), which skips collapsed rows
  without counting them, ends.
\<close>

definition blocks_bound :: "command_block list \<Rightarrow> nat" where
  "blocks_bound blocks = Max (insert 0 {e. \<exists>b \<in> set blocks. cb_end_row b = Some e})"

lemma blocks_bound_ge:
  assumes "b \<in> set blocks" "cb_end_row b = Some e"
  shows "e \<le> blocks_bound blocks"
proof -
  have "finite {e. \<exists>b \<in> set blocks. cb_end_row b = Some e}"
    by (rule finite_subset [of _ "(\<lambda>b. the (cb_end_row b)) ` set blocks"]) (auto intro!: image_eqI)
  then show ?thesis unfolding blocks_bound_def using assms by (auto intro!: Max_ge)
qed

lemma collapsed_covered:
  "is_row_collapsed blocks r \<Longrightarrow> \<exists>b \<in> set blocks. \<exists>e. cb_end_row b = Some e \<and> r \<le> e
     \<and> cb_prompt_row b < r \<and> cb_collapsed b \<and> r \<noteq> cb_output_row b"
  by (induction blocks) (force split: if_splits option.splits)+

lemma collapsed_bound: "is_row_collapsed blocks r \<Longrightarrow> r \<le> blocks_bound blocks"
  using collapsed_covered blocks_bound_ge le_trans by blast

text \<open>The rows drawn, with their positions in the history.\<close>

function drawn_rows :: "command_block list \<Rightarrow> scrollback \<Rightarrow> nat \<Rightarrow> nat \<Rightarrow> (nat \<times> cell list) list" where
  "drawn_rows blocks sb visible rb_row =
     (if visible = 0 then []
      else if is_row_collapsed blocks rb_row then drawn_rows blocks sb visible (rb_row + 1)
      else case get_line sb rb_row of
        None \<Rightarrow> []
      | Some line \<Rightarrow> (rb_row, line) # drawn_rows blocks sb (visible - 1) (rb_row + 1))"
  by pat_completeness auto
termination
  by (relation "measures [\<lambda>(_, _, v, _). v, \<lambda>(blocks, _, _, r). Suc (blocks_bound blocks) - r]")
    (auto dest!: collapsed_bound)

declare drawn_rows.simps [simp del]

end
