(* ===== verification/Selection.thy ===== *)
theory Selection
  imports Cell_Grid Rust_Str
begin

text \<open>
  The selections of the graphical client (\<open>nexterm-client-gpu/src/state/selection.rs\<close>):
  URLs in a row, the selection by the mouse and the state of the copy mode.  Positions in a
  string are byte offsets as in the source, and a slice away from a character boundary is a
  panic.
\<close>

section \<open>Searching in strings\<close>

text \<open>\<open>str::find\<close> of a string and of a predicate, \<open>str::rfind\<close>, and \<open>&s[n..]\<close>.\<close>

fun find_str :: "rstr \<Rightarrow> rstr \<Rightarrow> nat option" where
  "find_str pat [] = (if pat = [] then Some 0 else None)"
| "find_str pat (c # s) =
     (if starts_with (c # s) pat then Some 0 else map_option ((+) (len_utf8 c)) (find_str pat s))"

fun find_char :: "(uchar \<Rightarrow> bool) \<Rightarrow> rstr \<Rightarrow> nat option" where
  "find_char P [] = None"
| "find_char P (c # s) = (if P c then Some 0 else map_option ((+) (len_utf8 c)) (find_char P s))"

fun rfind_str :: "rstr \<Rightarrow> rstr \<Rightarrow> nat option" where
  "rfind_str pat [] = (if pat = [] then Some 0 else None)"
| "rfind_str pat (c # s) =
     (case rfind_str pat s of
        Some n \<Rightarrow> Some (len_utf8 c + n)
      | None \<Rightarrow> if starts_with (c # s) pat then Some 0 else None)"

fun drop_bytes :: "nat \<Rightarrow> rstr \<Rightarrow> rstr" where
  "drop_bytes n [] = []"
| "drop_bytes n (c # s) = (if n = 0 then c # s else drop_bytes (n - len_utf8 c) s)"

definition slice_from :: "rstr \<Rightarrow> nat \<Rightarrow> rstr option" where
  "slice_from s n = (if is_char_boundary s n then Some (drop_bytes n s) else None)"

section \<open>URLs\<close>

record detected_url =
  du_row :: nat
  du_col_start :: nat
  du_col_end :: nat
  du_url :: rstr

definition url_contains :: "nat \<Rightarrow> nat \<Rightarrow> detected_url \<Rightarrow> bool" where
  "url_contains col row u \<longleftrightarrow> row = du_row u \<and> du_col_start u \<le> col \<and> col < du_col_end u"

definition ends_url :: "uchar \<Rightarrow> bool" where
  "ends_url c \<longleftrightarrow> is_whitespace c \<or> c \<in> set (map of_char [CHR 0x22, CHR 0x27, CHR ''<'', CHR ''>'', CHR '')''])"

text \<open>One round of the inner loop: the URL at the first occurrence of the prefix from
  \<open>search_from\<close> on and the position after its first byte.\<close>

definition push_url :: "nat \<Rightarrow> rstr \<Rightarrow> nat \<Rightarrow> nat \<Rightarrow> detected_url list option" where
  "push_url row_idx text abs_start stop =
     (if abs_start < stop then do {
        before \<leftarrow> slice_to text abs_start;
        upto \<leftarrow> slice_to text stop;
        tail \<leftarrow> slice_from text abs_start;
        url \<leftarrow> slice_to tail (stop - abs_start);
        Some [\<lparr>du_row = row_idx, du_col_start = wrap16 (length before),
               du_col_end = wrap16 (length upto), du_url = url\<rparr>]
      } else Some [])"

definition next_url :: "nat \<Rightarrow> rstr \<Rightarrow> rstr \<Rightarrow> nat \<Rightarrow> (detected_url list \<times> nat) option option" where
  "next_url row_idx text prefix search_from = do {
     rest \<leftarrow> slice_from text search_from;
     case find_str prefix rest of
       None \<Rightarrow> Some None
     | Some start \<Rightarrow> do {
         let abs_start = search_from + start;
         tail \<leftarrow> slice_from text abs_start;
         let stop = (case find_char ends_url tail of Some i \<Rightarrow> abs_start + i | None \<Rightarrow> str_len text);
         urls \<leftarrow> push_url row_idx text abs_start stop;
         Some (Some (urls, abs_start + 1))
       }
   }"

lemma next_url_moves:
  assumes "next_url row_idx text prefix n = Some (Some (urls, m))"
  shows "n \<le> str_len text \<and> n < m"
  using assms
  by (auto simp: next_url_def Let_def Option.bind_eq_Some_conv slice_from_def is_char_boundary_le
      split: option.splits if_splits)

function url_loop :: "nat \<Rightarrow> rstr \<Rightarrow> rstr \<Rightarrow> nat \<Rightarrow> detected_url list option" where
  "url_loop row_idx text prefix search_from =
     (case next_url row_idx text prefix search_from of
        None \<Rightarrow> None
      | Some None \<Rightarrow> Some []
      | Some (Some (urls, from)) \<Rightarrow> map_option ((@) urls) (url_loop row_idx text prefix from))"
  by pat_completeness auto
termination
proof (relation "measure (\<lambda>(_, text, _, n). Suc (str_len text) - n)", goal_cases)
  case (2 row_idx t prefix n r y x z)
  then have n: "next_url row_idx t prefix n = Some (Some (x, z))" by simp
  from next_url_moves [OF n] show ?case by (simp add: diff_less_mono2)
qed simp

declare url_loop.simps [simp del]

definition URL_PREFIXES :: "rstr list" where
  "URL_PREFIXES = [lit ''https://'', lit ''http://'']"

definition detect_urls_in_row :: "nat \<Rightarrow> cell list \<Rightarrow> detected_url list option" where
  "detect_urls_in_row row_idx cells =
     (let text = map cell_ch cells in
      foldM (\<lambda>prefix urls. map_option ((@) urls) (url_loop row_idx text prefix 0)) URL_PREFIXES [])"

section \<open>The selection by the mouse\<close>

type_synonym cell_pos = "nat \<times> nat"

record mouse_selection =
  ms_is_dragging :: bool
  ms_start :: cell_pos
  ms_end :: cell_pos

definition mouse_selection_new :: mouse_selection where
  "mouse_selection_new = \<lparr>ms_is_dragging = False, ms_start = (0, 0), ms_end = (0, 0)\<rparr>"

definition sel_begin :: "nat \<Rightarrow> nat \<Rightarrow> mouse_selection \<Rightarrow> mouse_selection" where
  "sel_begin col row m = m\<lparr>ms_is_dragging := True, ms_start := (col, row), ms_end := (col, row)\<rparr>"

definition sel_update :: "nat \<Rightarrow> nat \<Rightarrow> mouse_selection \<Rightarrow> mouse_selection" where
  "sel_update col row m = (if ms_is_dragging m then m\<lparr>ms_end := (col, row)\<rparr> else m)"

definition sel_finish :: "mouse_selection \<Rightarrow> mouse_selection" where
  "sel_finish m = m\<lparr>ms_is_dragging := False\<rparr>"

text \<open>The comparison of tuples: first the rows, then the columns.\<close>

definition pos_le :: "cell_pos \<Rightarrow> cell_pos \<Rightarrow> bool" where
  "pos_le p q \<longleftrightarrow> snd p < snd q \<or> snd p = snd q \<and> fst p \<le> fst q"

definition sel_normalized :: "mouse_selection \<Rightarrow> (cell_pos \<times> cell_pos) option" where
  "sel_normalized m =
     (if ms_start m = ms_end m then None
      else if pos_le (ms_start m) (ms_end m) then Some (ms_start m, ms_end m)
      else Some (ms_end m, ms_start m))"

definition sel_contains :: "nat \<Rightarrow> nat \<Rightarrow> mouse_selection \<Rightarrow> bool" where
  "sel_contains col row m =
     (case sel_normalized m of
        Some ((sc, sr), (ec, er)) \<Rightarrow>
          if row < sr \<or> er < row then False
          else if row = sr \<and> row = er then sc \<le> col \<and> col \<le> ec
          else if row = sr then sc \<le> col
          else if row = er then col \<le> ec
          else True
      | None \<Rightarrow> False)"

section \<open>Copy mode\<close>

datatype vi_mode = ViNormal | ViVisual | ViVisualLine

record copy_mode_state =
  cm_is_active :: bool
  cm_cursor_col :: nat
  cm_cursor_row :: nat
  cm_vi_mode :: vi_mode
  cm_selection_start :: "cell_pos option"
  cm_search_input :: "rstr option"
  cm_last_search_query :: rstr
  cm_search_backward :: bool
  cm_gg_pending :: bool

definition copy_mode_new :: copy_mode_state where
  "copy_mode_new =
     \<lparr>cm_is_active = False, cm_cursor_col = 0, cm_cursor_row = 0, cm_vi_mode = ViNormal,
      cm_selection_start = None, cm_search_input = None, cm_last_search_query = [],
      cm_search_backward = False, cm_gg_pending = False\<rparr>"

definition copy_enter :: "nat \<Rightarrow> nat \<Rightarrow> copy_mode_state \<Rightarrow> copy_mode_state" where
  "copy_enter col row cm =
     cm\<lparr>cm_is_active := True, cm_cursor_col := col, cm_cursor_row := row, cm_vi_mode := ViNormal,
        cm_selection_start := None, cm_gg_pending := False\<rparr>"

definition copy_exit :: "copy_mode_state \<Rightarrow> copy_mode_state" where
  "copy_exit cm =
     cm\<lparr>cm_is_active := False, cm_vi_mode := ViNormal, cm_selection_start := None,
        cm_search_input := None, cm_gg_pending := False\<rparr>"

definition toggle_selection :: "copy_mode_state \<Rightarrow> copy_mode_state" where
  "toggle_selection cm =
     (if cm_vi_mode cm = ViVisual
      then cm\<lparr>cm_vi_mode := ViNormal, cm_selection_start := None\<rparr>
      else cm\<lparr>cm_vi_mode := ViVisual, cm_selection_start := Some (cm_cursor_col cm, cm_cursor_row cm)\<rparr>)"

definition toggle_visual_line :: "copy_mode_state \<Rightarrow> copy_mode_state" where
  "toggle_visual_line cm =
     (if cm_vi_mode cm = ViVisualLine
      then cm\<lparr>cm_vi_mode := ViNormal, cm_selection_start := None\<rparr>
      else cm\<lparr>cm_vi_mode := ViVisualLine, cm_selection_start := Some (cm_cursor_col cm, cm_cursor_row cm)\<rparr>)"

definition normalized_selection :: "copy_mode_state \<Rightarrow> (cell_pos \<times> cell_pos) option" where
  "normalized_selection cm =
     map_option (\<lambda>start. let cur = (cm_cursor_col cm, cm_cursor_row cm) in
       if pos_le start cur then (start, cur) else (cur, start)) (cm_selection_start cm)"

definition normalized_visual_line_range :: "copy_mode_state \<Rightarrow> (nat \<times> nat) option" where
  "normalized_visual_line_range cm =
     map_option (\<lambda>(_, sr). let er = cm_cursor_row cm in if sr \<le> er then (sr, er) else (er, sr))
       (cm_selection_start cm)"

definition is_in_search_input :: "copy_mode_state \<Rightarrow> bool" where
  "is_in_search_input cm \<longleftrightarrow> cm_search_input cm \<noteq> None"

section \<open>The URLs of a row, in columns\<close>

lemma drop_bytes_append [simp]: "drop_bytes (str_len p) (p @ q) = q"
  by (induction p) (cases q; auto simp: less_imp_neq [OF len_utf8_pos, symmetric])+

lemma take_bytes_append [simp]: "take_bytes (str_len p) (p @ q) = p"
proof (induction p)
  case Nil
  then show ?case by (cases q) (simp_all add: not_le)
qed simp

lemma boundary_append [simp]: "is_char_boundary (p @ q) (str_len p)"
  by (induction p) auto

lemma slices [simp]:
  "slice_from (p @ q) (str_len p) = Some q" "slice_to (p @ q) (str_len p) = Some p"
  by (simp_all add: slice_from_def slice_to_def)

lemma find_str_split:
  "(find_str pat s = None \<longrightarrow> (\<nexists>p q. s = p @ pat @ q))
   \<and> (\<forall>n. find_str pat s = Some n \<longrightarrow> (\<exists>p q. s = p @ pat @ q \<and> n = str_len p
        \<and> (\<forall>k < length p. \<not> starts_with (drop k s) pat)))"
proof (induction s)
  case Nil
  then show ?case by (auto intro: exI [of _ "[]"])
next
  case (Cons c s)
  show ?case
  proof (cases "starts_with (c # s) pat")
    case True
    then have "c # s = pat @ drop (length pat) (c # s)"
      unfolding starts_with_def by (metis append_take_drop_id)
    then have "c # s = [] @ pat @ drop (length pat) (c # s)" by simp
    with True show ?thesis
      by (intro conjI impI allI) (simp, intro exI [of _ "[]"] exI conjI, assumption, simp_all)
  next
    case False
    have "(\<exists>p q. c # s = p @ pat @ q) \<longleftrightarrow> (\<exists>p q. s = p @ pat @ q)"
    proof
      assume "\<exists>p q. c # s = p @ pat @ q"
      then obtain p q where pq: "c # s = p @ pat @ q" by blast
      with False have "p \<noteq> []" by (auto simp: starts_with_def)
      with pq show "\<exists>p q. s = p @ pat @ q" by (cases p) auto
    qed (metis append_Cons)
    moreover have "\<exists>p q. c # s = p @ pat @ q \<and> len_utf8 c + m = str_len p
        \<and> (\<forall>k < length p. \<not> starts_with (drop k (c # s)) pat)" if "find_str pat s = Some m" for m
    proof -
      from Cons that obtain p q where "s = p @ pat @ q" "m = str_len p"
        "\<forall>k < length p. \<not> starts_with (drop k s) pat" by blast
      with False show ?thesis
        by (intro exI [of _ "c # p"] exI [of _ q]) (auto simp: less_Suc_eq_0_disj)
    qed
    ultimately show ?thesis using Cons False by auto
  qed
qed

lemma find_char_split:
  "find_char P s = (if \<exists>c \<in> set s. P c then Some (str_len (takeWhile (\<lambda>c. \<not> P c) s)) else None)"
  by (induction s) auto

text \<open>The URL at the column \<open>k\<close>, which reaches up to the first character that ends it.\<close>

definition url_at :: "nat \<Rightarrow> rstr \<Rightarrow> nat \<Rightarrow> detected_url" where
  "url_at row_idx text k =
     (let u = takeWhile (\<lambda>c. \<not> ends_url c) (drop k text) in
      \<lparr>du_row = row_idx, du_col_start = wrap16 k, du_col_end = wrap16 (k + length u), du_url = u\<rparr>)"

lemma find_char_stop:
  "(case find_char ends_url tail of Some i \<Rightarrow> str_len p + i | None \<Rightarrow> str_len (p @ tail)) =
     str_len (p @ takeWhile (\<lambda>c. \<not> ends_url c) tail)"
proof (cases "\<exists>c \<in> set tail. ends_url c")
  case False
  then show ?thesis by (simp add: find_char_split takeWhile_eq_all_conv [THEN iffD2])
qed (simp add: find_char_split)

lemma push_url_at:
  assumes "tail \<noteq> []" "\<not> ends_url (hd tail)"
  shows "push_url r (p @ tail) (str_len p) (str_len (p @ takeWhile (\<lambda>c. \<not> ends_url c) tail)) =
    Some [url_at r (p @ tail) (length p)]"
proof -
  let ?u = "takeWhile (\<lambda>c. \<not> ends_url c) tail" and ?d = "dropWhile (\<lambda>c. \<not> ends_url c) tail"
  have u: "?u \<noteq> []" using assms by (cases tail) auto
  have "slice_to (p @ tail) (str_len (p @ ?u)) = Some (p @ ?u)"
    using slices(2) [of "p @ ?u" ?d] by (simp del: str_len_append)
  moreover have "slice_to tail (str_len ?u) = Some ?u"
    using slices(2) [of ?u ?d] by simp
  moreover have "str_len p < str_len (p @ ?u)" using u str_len_0_iff [of ?u] by (simp del: str_len_0_iff)
  ultimately show ?thesis by (simp add: push_url_def url_at_def Let_def)
qed

lemma starts_with_split: "starts_with s pat \<longleftrightarrow> (\<exists>q. s = pat @ q)"
  by (metis append_eq_conv_conj starts_with_def)

lemma url_loop_exact:
  assumes "prefix = c # cs" "c < 128" "\<not> ends_url c" "j \<le> length text"
  shows "url_loop r text prefix (str_len (take j text)) =
    Some (map (url_at r text) [k \<leftarrow> [j..<length text]. starts_with (drop k text) prefix])"
  using assms(4)
proof (induction "length text - j" arbitrary: j rule: less_induct)
  case less
  let ?p = "take j text" and ?q = "drop j text"
  have rest: "slice_from text (str_len ?p) = Some ?q" using slices(1) [of ?p ?q] by simp
  show ?case
  proof (cases "find_str prefix ?q")
    case None
    then have none: "\<nexists>a b. ?q = a @ prefix @ b" using find_str_split [of prefix ?q] by simp
    have "\<not> starts_with (drop k text) prefix" if "j \<le> k" for k
    proof
      assume "starts_with (drop k text) prefix"
      then obtain b where "drop k text = prefix @ b" by (auto simp: starts_with_split)
      moreover have "drop k text = drop (k - j) ?q" using that by simp
      then have "?q = take (k - j) ?q @ drop k text" by (metis append_take_drop_id)
      ultimately show False using none by metis
    qed
    then have "[k \<leftarrow> [j..<length text]. starts_with (drop k text) prefix] = []" by (simp add: filter_empty_conv)
    with None rest show ?thesis by (subst url_loop.simps) (simp add: next_url_def)
  next
    case (Some n)
    then obtain a b where q: "?q = a @ prefix @ b" "n = str_len a"
      and first: "\<forall>i < length a. \<not> starts_with (drop i ?q) prefix"
      using find_str_split [of prefix ?q] Some by blast
    let ?k = "j + length a"
    have tx: "text = (?p @ a) @ prefix @ b" using q(1) by (metis append.assoc append_take_drop_id)
    have len: "length (?p @ a) = ?k" using less.prems by simp
    have k: "?k < length text" using arg_cong [OF tx, of length] assms(1) len by simp
    have parts: "take (length s) (s @ prefix @ b) = s" "drop (length s) (s @ prefix @ b) = prefix @ b"
      "take (length s + 1) (s @ prefix @ b) = s @ [c]" for s
      using assms(1) by simp_all
    have tk: "take ?k text = ?p @ a" "drop ?k text = prefix @ b" "take (?k + 1) text = (?p @ a) @ [c]"
      using parts [of "?p @ a", folded tx] unfolding len by blast+
    have "next_url r text prefix (str_len ?p) = Some (Some ([url_at r text ?k], str_len (take (?k + 1) text)))"
    proof -
      have n: "str_len ?p + n = str_len (?p @ a)" using q(2) by simp
      have tail: "slice_from text (str_len (?p @ a)) = Some (prefix @ b)"
        using slices(1) [of "?p @ a" "prefix @ b", folded tx] .
      have "push_url r text (str_len (?p @ a)) (str_len ((?p @ a) @ takeWhile (\<lambda>c. \<not> ends_url c) (prefix @ b)))
          = Some [url_at r text ?k]"
        using push_url_at [of "prefix @ b" r "?p @ a", folded tx] assms(1,3) unfolding len by simp
      moreover have "(case find_char ends_url (prefix @ b) of Some i \<Rightarrow> str_len (?p @ a) + i | None \<Rightarrow> str_len text)
          = str_len ((?p @ a) @ takeWhile (\<lambda>c. \<not> ends_url c) (prefix @ b))"
        using find_char_stop [of "?p @ a" "prefix @ b", folded tx] .
      moreover have "str_len (?p @ a) + 1 = str_len (take (?k + 1) text)"
        unfolding tk(3) using assms(2) by (simp add: len_utf8_def)
      ultimately show ?thesis
        unfolding next_url_def Let_def rest Option.bind.bind_lunit Some option.case n tail
        by (simp del: str_len_append)
    qed
    moreover have "url_loop r text prefix (str_len (take (?k + 1) text)) =
        Some (map (url_at r text) [i \<leftarrow> [?k + 1..<length text]. starts_with (drop i text) prefix])"
      using k by (intro less.hyps) auto
    moreover have "[i \<leftarrow> [j..<length text]. starts_with (drop i text) prefix] =
        ?k # [i \<leftarrow> [?k + 1..<length text]. starts_with (drop i text) prefix]"
    proof -
      have "[j..<length text] = [j..<?k] @ ?k # [?k + 1..<length text]"
        using upt_add_eq_append [of j ?k "length text - ?k"] k by (simp add: upt_conv_Cons)
      moreover have "[i \<leftarrow> [j..<?k]. starts_with (drop i text) prefix] = []"
      proof -
        have "\<not> starts_with (drop i text) prefix" if "j \<le> i" "i < ?k" for i
          using first [rule_format, of "i - j"] that by simp
        then show ?thesis by (simp add: filter_empty_conv)
      qed
      moreover have "starts_with (drop ?k text) prefix" unfolding tk(2) by (auto simp: starts_with_split)
      ultimately show ?thesis by simp
    qed
    ultimately show ?thesis by (subst url_loop.simps) simp
  qed
qed

text \<open>The columns of the two prefixes, those of \<open>https\<close> first, each with its URL.\<close>

lemma detect_urls_exact:
  "detect_urls_in_row r cells =
     (let text = map cell_ch cells;
          found = (\<lambda>prefix. map (url_at r text) [k \<leftarrow> [0..<length text]. starts_with (drop k text) prefix]) in
      Some (found (lit ''https://'') @ found (lit ''http://'')))"
proof -
  have "url_loop r (map cell_ch cells) (lit (CHR ''h'' # p)) 0 =
      Some (map (url_at r (map cell_ch cells))
        [k \<leftarrow> [0..<length (map cell_ch cells)]. starts_with (drop k (map cell_ch cells)) (lit (CHR ''h'' # p))])" for p
    using url_loop_exact [of "lit (CHR ''h'' # p)" 104 "lit p" 0 "map cell_ch cells" r]
    by (simp add: lit_def ends_url_def is_whitespace_def)
  then show ?thesis by (simp add: detect_urls_in_row_def URL_PREFIXES_def Let_def)
qed

section \<open>Selected cells\<close>

text \<open>The selection is the cells from one corner to the other in reading order, whichever
  way the mouse went.\<close>

lemma sel_contains_order:
  "sel_contains col row m \<longleftrightarrow> ms_start m \<noteq> ms_end m \<and>
     (pos_le (ms_start m) (col, row) \<and> pos_le (col, row) (ms_end m)
      \<or> pos_le (ms_end m) (col, row) \<and> pos_le (col, row) (ms_start m))"
proof -
  obtain sc sr ec er where e: "ms_start m = (sc, sr)" "ms_end m = (ec, er)" by (meson surj_pair)
  show ?thesis unfolding sel_contains_def sel_normalized_def e by (auto simp: pos_le_def)
qed

lemma sel_contains_swap:
  "sel_contains col row (m\<lparr>ms_start := ms_end m, ms_end := ms_start m\<rparr>) \<longleftrightarrow> sel_contains col row m"
  by (auto simp: sel_contains_order)

text \<open>In the copy mode the two ends are in order and are the mark and the cursor.\<close>

lemma normalized_selection_ordered:
  "normalized_selection cm = Some (a, b) \<Longrightarrow>
     pos_le a b \<and> cm_selection_start cm \<noteq> None
     \<and> {a, b} = {the (cm_selection_start cm), (cm_cursor_col cm, cm_cursor_row cm)}"
  by (auto simp: normalized_selection_def pos_le_def Let_def split: if_splits)

end
