(* ===== verification/Quick_Select.thy ===== *)
theory Quick_Select
  imports Selection
begin

text \<open>
  The quick select mode of the graphical client: matches of regular expressions on the visible
  rows get labels, and typing a label copies the match
  (\<open>nexterm-client-gpu/src/state/menus.rs\<close>, \<open>renderer/input_handler/special_modes.rs\<close>).
  A compiled pattern of the \<open>regex\<close> crate is a parameter: the byte ranges \<open>find_iter\<close>
  returns on a line.  An index out of range is a panic.
\<close>

type_synonym find_iter = "rstr \<Rightarrow> (nat \<times> nat) list"

record quick_select_match =
  qm_row :: nat
  qm_col_start :: nat
  qm_col_end :: nat
  qm_text :: rstr
  qm_label :: rstr

record quick_select_state =
  qs_is_active :: bool
  qs_matches :: "quick_select_match list"
  qs_typed_label :: rstr

definition quick_select_new :: quick_select_state where
  "quick_select_new = \<lparr>qs_is_active = False, qs_matches = [], qs_typed_label = []\<rparr>"

section \<open>The matches\<close>

definition overlaps :: "(nat \<times> nat) list \<Rightarrow> nat \<Rightarrow> nat \<Rightarrow> bool" where
  "overlaps occupied start stop = list_ex (\<lambda>(s, e). \<not> (stop \<le> s \<or> e \<le> start)) occupied"

definition add_match ::
    "nat \<Rightarrow> rstr \<Rightarrow> nat \<times> nat \<Rightarrow> (nat \<times> nat) list \<times> quick_select_match list
     \<Rightarrow> (nat \<times> nat) list \<times> quick_select_match list" where
  "add_match row_idx line m = (\<lambda>(occupied, found).
     let (start, stop) = m in
     if overlaps occupied start stop then (occupied, found)
     else (occupied @ [(start, stop)],
       found @ [\<lparr>qm_row = wrap16 row_idx, qm_col_start = wrap16 start, qm_col_end = wrap16 stop,
                 qm_text = take_bytes (stop - start) (drop_bytes start line), qm_label = []\<rparr>]))"

definition row_matches_of :: "find_iter list \<Rightarrow> nat \<Rightarrow> cell list \<Rightarrow> quick_select_match list" where
  "row_matches_of compiled row_idx cells =
     (let line = map cell_ch cells in
      snd (fold (\<lambda>re. fold (add_match row_idx line) (re line)) compiled ([], [])))"

definition label_chars :: rstr where
  "label_chars = lit ''abcdefghijklmnopqrstuvwxyz''"

definition index_to_label :: "nat \<Rightarrow> nat \<Rightarrow> rstr \<Rightarrow> rstr option" where
  "index_to_label i n chars =
     (let base = length chars in
      if n \<le> base then map_option (\<lambda>c. [c]) (lget chars (i mod base))
      else let second = i div base; first = i mod base in
        if second = 0 then map_option (\<lambda>c. [c]) (lget chars first)
        else do {
          c2 \<leftarrow> lget chars (second - 1);
          c1 \<leftarrow> lget chars first;
          Some [c2, c1]
        })"

fun assign_labels :: "nat \<Rightarrow> nat \<Rightarrow> quick_select_match list \<Rightarrow> quick_select_match list option" where
  "assign_labels i n [] = Some []"
| "assign_labels i n (m # ms) = do {
     label \<leftarrow> index_to_label i n label_chars;
     rest \<leftarrow> assign_labels (i + 1) n ms;
     Some (m\<lparr>qm_label := label\<rparr> # rest)
   }"

definition all_row_matches :: "find_iter list \<Rightarrow> cell list list \<Rightarrow> quick_select_match list" where
  "all_row_matches compiled rows =
     concat (map (\<lambda>(row_idx, cells). row_matches_of compiled row_idx cells) (enumerate 0 rows))"

definition find_quick_select_matches :: "find_iter list \<Rightarrow> cell list list \<Rightarrow> quick_select_match list option" where
  "find_quick_select_matches compiled rows =
     (let all_matches = all_row_matches compiled rows in
      assign_labels 0 (length all_matches) all_matches)"

section \<open>The mode\<close>

definition quick_enter :: "find_iter list \<Rightarrow> cell list list \<Rightarrow> quick_select_state \<Rightarrow> quick_select_state option" where
  "quick_enter compiled rows qs =
     map_option (\<lambda>ms. qs\<lparr>qs_is_active := True, qs_typed_label := [], qs_matches := ms\<rparr>)
       (find_quick_select_matches compiled rows)"

definition quick_exit :: "quick_select_state \<Rightarrow> quick_select_state" where
  "quick_exit qs = qs\<lparr>qs_is_active := False, qs_matches := [], qs_typed_label := []\<rparr>"

definition quick_accept :: "quick_select_state \<Rightarrow> quick_select_match option" where
  "quick_accept qs =
     (if qs_typed_label qs = [] then None
      else List.find (\<lambda>m. qm_label m = qs_typed_label qs) (qs_matches qs))"

text \<open>The keys by what the handler distinguishes: \<open>QsLetter\<close> is a key code that
  \<open>winit_code_to_char\<close> maps to a character.  The result has the text given to the clipboard.\<close>

datatype quick_key = QsEscape | QsBackspace | QsLetter uchar | QsOther

fun handle_quick_select_key :: "quick_key \<Rightarrow> quick_select_state \<Rightarrow> quick_select_state \<times> rstr option" where
  "handle_quick_select_key QsEscape qs = (quick_exit qs, None)"
| "handle_quick_select_key QsBackspace qs = (qs\<lparr>qs_typed_label := butlast (qs_typed_label qs)\<rparr>, None)"
| "handle_quick_select_key (QsLetter ch) qs =
     (let qs1 = qs\<lparr>qs_typed_label := qs_typed_label qs @ [ch]\<rparr> in
      case quick_accept qs1 of
        Some m \<Rightarrow> (quick_exit qs1, Some (qm_text m))
      | None \<Rightarrow> (qs1, None))"
| "handle_quick_select_key QsOther qs = (qs, None)"

text \<open>Keys are sent to the mode while it is active; the text copied last is kept.\<close>

fun quick_keys :: "quick_key list \<Rightarrow> quick_select_state \<Rightarrow> rstr option" where
  "quick_keys [] qs = None"
| "quick_keys (k # ks) qs =
     (if \<not> qs_is_active qs then None
      else case handle_quick_select_key k qs of
        (qs', Some t) \<Rightarrow> Some t
      | (qs', None) \<Rightarrow> quick_keys ks qs')"

section \<open>Labels\<close>

lemma length_label_chars [simp]: "length label_chars = 26"
  by (simp add: label_chars_def lit_def)

lemma label_char_nth: "i < 26 \<Longrightarrow> label_chars ! i = 97 + i"
proof -
  have "\<forall>i \<in> set [0..<26]. label_chars ! i = 97 + i" by (simp add: label_chars_def lit_def upt_rec)
  then show "i < 26 \<Longrightarrow> ?thesis" by simp
qed

text \<open>The label of the index: one letter, or two letters past the 26th; the 703rd has none.\<close>

lemma index_to_label_eq:
  "index_to_label i n label_chars =
     (if n \<le> 26 then Some [97 + i mod 26]
      else if i < 26 then Some [97 + i]
      else if i < 702 then Some [96 + i div 26, 97 + i mod 26]
      else None)"
proof -
  have m: "lget label_chars (i mod 26) = Some (97 + i mod 26)" by (simp add: label_char_nth)
  consider "n \<le> 26" | "26 < n" "i < 26" | "26 < n" "26 \<le> i" "i < 702" | "26 < n" "702 \<le> i" by linarith
  then show ?thesis
  proof cases
    case 3
    then have "1 \<le> i div 26" "i div 26 < 27" by (simp_all add: div_greater_zero_iff Suc_le_eq less_mult_imp_div_less)
    moreover from this have "lget label_chars (i div 26 - 1) = Some (96 + i div 26)"
      by (subst lget_Some) (auto simp: label_char_nth)
    ultimately show ?thesis using 3 m by (simp add: index_to_label_def Let_def)
  next
    case 4
    then have "27 \<le> i div 26" by (simp add: less_eq_div_iff_mult_less_eq)
    then show ?thesis using 4 by (simp add: index_to_label_def Let_def)
  qed (use m in \<open>simp_all add: index_to_label_def Let_def\<close>)
qed

definition label_of :: "nat \<Rightarrow> nat \<Rightarrow> rstr" where
  "label_of n i = the (index_to_label i n label_chars)"

lemma assign_labels_eq:
  assumes "length ms + i \<le> n"
  shows "assign_labels i n ms =
    (if n \<le> 26 \<or> i + length ms \<le> 702 \<or> ms = []
     then Some (map (\<lambda>(k, m). m\<lparr>qm_label := label_of n k\<rparr>) (enumerate i ms)) else None)"
  using assms
proof (induction ms arbitrary: i)
  case (Cons m ms)
  have IH: "assign_labels (Suc i) n ms =
      (if n \<le> 26 \<or> Suc i + length ms \<le> 702 \<or> ms = []
       then Some (map (\<lambda>(k, m). m\<lparr>qm_label := label_of n k\<rparr>) (enumerate (Suc i) ms)) else None)"
    using Cons.IH [of "Suc i"] Cons.prems by simp
  show ?case
  proof (cases "n \<le> 26 \<or> i < 702")
    case True
    then have "index_to_label i n label_chars = Some (label_of n i)"
      by (auto simp: label_of_def index_to_label_eq)
    then show ?thesis using True IH by (cases ms) auto
  next
    case False
    then have "index_to_label i n label_chars = None" by (simp add: index_to_label_eq)
    then show ?thesis using False by simp
  qed
qed simp

lemma label_of_small: "n \<le> 26 \<Longrightarrow> i < n \<Longrightarrow> label_of n i = [97 + i]"
  by (simp add: label_of_def index_to_label_eq)

lemma label_of_large:
  assumes "26 < n" "i < 702"
  shows "label_of n i = (if i < 26 then [97 + i] else [96 + i div 26, 97 + i mod 26])"
  using assms by (simp add: label_of_def index_to_label_eq)

lemma label_of_hd:
  assumes "n \<le> 26 \<and> i < n \<or> 26 < n \<and> i < 702"
  shows "97 \<le> hd (label_of n i) \<and> hd (label_of n i) < 123"
proof -
  have "26 \<le> i \<Longrightarrow> i < 702 \<Longrightarrow> 1 \<le> i div 26 \<and> i div 26 < 27"
    by (simp add: div_greater_zero_iff Suc_le_eq less_mult_imp_div_less)
  then show ?thesis using assms
    by (cases "n \<le> 26"; cases "i < 26") (auto simp: label_of_small label_of_large)
qed

lemma label_of_inj:
  assumes "i < n" "j < n" "n \<le> 702" "label_of n i = label_of n j"
  shows "i = j"
proof (cases "n \<le> 26")
  case False
  have "i div 26 = j div 26 \<Longrightarrow> i mod 26 = j mod 26 \<Longrightarrow> i = j" by (metis div_mult_mod_eq)
  with False assms show ?thesis by (auto simp: label_of_large split: if_splits)
qed (use assms in \<open>simp add: label_of_small\<close>)

section \<open>What can be selected\<close>

definition labelled :: "quick_select_match list \<Rightarrow> bool" where
  "labelled ms \<longleftrightarrow> length ms \<le> 702 \<and> (\<forall>i < length ms. qm_label (ms ! i) = label_of (length ms) i)"

lemma find_labelled:
  "find_quick_select_matches compiled rows = Some ms \<Longrightarrow> labelled ms"
  by (auto simp: find_quick_select_matches_def Let_def assign_labels_eq labelled_def nth_enumerate_eq
      split: if_splits)

lemma find_matches_none:
  "find_quick_select_matches compiled rows = None \<longleftrightarrow>
     702 < length (all_row_matches compiled rows)"
  by (auto simp: find_quick_select_matches_def Let_def assign_labels_eq)

text \<open>With more than 26 matches every one-letter label is taken, so that no second letter can
  follow the first: only the first 26 matches can be selected.\<close>

definition dead_start :: "rstr \<Rightarrow> bool" where
  "dead_start typed \<longleftrightarrow> typed = [] \<or> hd typed < 97 \<or> 123 \<le> hd typed"

lemma dead_start_butlast: "dead_start typed \<Longrightarrow> dead_start (butlast typed)"
  by (cases typed) (auto simp: dead_start_def)

lemma quick_accept_first:
  assumes "labelled (qs_matches qs)" "26 < length (qs_matches qs)" "dead_start (butlast (qs_typed_label qs))"
    "qs_typed_label qs \<noteq> []"
  shows "case quick_accept qs of
      Some m \<Rightarrow> \<exists>i < 26. m = qs_matches qs ! i
    | None \<Rightarrow> dead_start (qs_typed_label qs)"
proof -
  let ?ms = "qs_matches qs" and ?t = "qs_typed_label qs"
  have lab: "i < length ?ms \<Longrightarrow> qm_label (?ms ! i) = label_of (length ?ms) i" "length ?ms \<le> 702" for i
    using assms(1) by (auto simp: labelled_def)
  have hd: "i < length ?ms \<Longrightarrow> 97 \<le> hd (qm_label (?ms ! i)) \<and> hd (qm_label (?ms ! i)) < 123" for i
    using label_of_hd [of "length ?ms" i] lab assms(2) by simp
  show ?thesis
  proof (cases "quick_accept qs")
    case (Some m)
    then obtain i where i: "i < length ?ms" "m = ?ms ! i" "qm_label m = ?t"
      using assms(4) by (auto simp: quick_accept_def find_Some_iff)
    have "\<not> 26 \<le> i"
    proof
      assume "26 \<le> i"
      with i lab assms(2) have "?t = [96 + i div 26, 97 + i mod 26]" by (simp add: label_of_large)
      then have "butlast ?t = [96 + i div 26]" by simp
      moreover have "hd (qm_label (?ms ! i)) = 96 + i div 26"
        using i \<open>?t = _\<close> by simp
      ultimately show False using hd [OF i(1)] assms(3) by (auto simp: dead_start_def)
    qed
    with Some i show ?thesis by (auto intro: exI [of _ i])
  next
    case None
    have "dead_start ?t"
    proof (rule ccontr)
      assume t: "\<not> dead_start ?t"
      have "butlast ?t = []" using assms(3,4) t by (cases ?t) (auto simp: dead_start_def split: if_splits)
      with t have c: "?t = [hd ?t]" "97 \<le> hd ?t" "hd ?t < 123"
        by (cases ?t; auto simp: dead_start_def split: if_splits)+
      let ?i = "hd ?t - 97"
      have "?i < 26" using c by simp
      then have "qm_label (?ms ! ?i) = [97 + ?i]" "?i < length ?ms"
        using lab assms(2) by (simp_all add: label_of_large)
      then have "qm_label (?ms ! ?i) = ?t" "?ms ! ?i \<in> set ?ms" using c by simp_all
      with None show False using assms(4) by (auto simp: quick_accept_def find_None_iff)
    qed
    with None show ?thesis by simp
  qed
qed

lemma quick_keys_first:
  assumes "labelled (qs_matches qs)" "26 < length (qs_matches qs)" "dead_start (qs_typed_label qs)"
    "quick_keys ks qs = Some t"
  shows "\<exists>i < 26. t = qm_text (qs_matches qs ! i)"
  using assms
proof (induction ks arbitrary: qs)
  case (Cons k ks)
  show ?case
  proof (cases k)
    case QsEscape
    with Cons.prems(4) have "quick_keys ks (quick_exit qs) = Some t" by (simp split: if_splits)
    then show ?thesis by (cases ks) (simp_all add: quick_exit_def)
  next
    case QsBackspace
    with Cons.prems show ?thesis
      using Cons.IH [of "qs\<lparr>qs_typed_label := butlast (qs_typed_label qs)\<rparr>"]
      by (simp add: dead_start_butlast split: if_splits)
  next
    case (QsLetter ch)
    let ?q = "qs\<lparr>qs_typed_label := qs_typed_label qs @ [ch]\<rparr>"
    have a: "case quick_accept ?q of
        Some m \<Rightarrow> \<exists>i < 26. m = qs_matches qs ! i | None \<Rightarrow> dead_start (qs_typed_label qs @ [ch])"
      using quick_accept_first [of ?q] Cons.prems(1-3) by (simp split: option.splits)
    with QsLetter Cons.prems Cons.IH [of ?q] show ?thesis
      by (cases "quick_accept ?q") (auto simp: Let_def split: if_splits)
  next
    case QsOther
    with Cons show ?thesis by (simp split: if_splits)
  qed
qed simp

text \<open>With at most 26 matches the letter of a match selects it.\<close>

lemma quick_key_selects:
  assumes "labelled (qs_matches qs)" "qs_is_active qs" "qs_typed_label qs = []"
    "i < length (qs_matches qs)" "length (qs_matches qs) \<le> 26 \<or> i < 26"
  shows "quick_keys [QsLetter (97 + i)] qs = Some (qm_text (qs_matches qs ! i))"
proof -
  let ?ms = "qs_matches qs"
  have lab: "\<And>j. j < length ?ms \<Longrightarrow> qm_label (?ms ! j) = label_of (length ?ms) j" "length ?ms \<le> 702"
    using assms(1) by (auto simp: labelled_def)
  have li: "label_of (length ?ms) i = [97 + i]"
    using assms(4,5) lab(2) by (cases "length ?ms \<le> 26") (auto simp: label_of_small label_of_large)
  have "List.find (\<lambda>m. qm_label m = [97 + i]) ?ms = Some (?ms ! i)"
  proof -
    have "qm_label (?ms ! j) \<noteq> [97 + i]" if "j < i" for j
      using label_of_inj [of j "length ?ms" i] lab assms(4) that li by fastforce
    then show ?thesis using assms(4) lab li by (auto simp: find_Some_iff)
  qed
  then show ?thesis using assms(2,3) by (simp add: quick_accept_def Let_def)
qed

section \<open>The ranges of a row\<close>

abbreviation ranges_apart :: "(nat \<times> nat) list \<Rightarrow> bool" where
  "ranges_apart \<equiv> sorted_wrt (\<lambda>(s, e) (s', e'). e' \<le> s \<or> e \<le> s')"

lemma add_match_apart:
  "ranges_apart (fst st) \<Longrightarrow> ranges_apart (fst (add_match row_idx line m st))"
  by (cases st; cases m) (auto simp: add_match_def Let_def overlaps_def sorted_wrt_append list_ex_iff)

lemma add_match_found:
  assumes "map (\<lambda>m. (qm_col_start m, qm_col_end m)) (snd st) = map (map_prod wrap16 wrap16) (fst st)"
  shows "map (\<lambda>m. (qm_col_start m, qm_col_end m)) (snd (add_match row_idx line m st)) =
    map (map_prod wrap16 wrap16) (fst (add_match row_idx line m st))"
  using assms by (cases st; cases m) (auto simp: add_match_def Let_def)

text \<open>The matches of a row lie apart.\<close>

lemma row_matches_apart:
  "\<exists>rs. ranges_apart rs \<and>
     map (\<lambda>m. (qm_col_start m, qm_col_end m)) (row_matches_of compiled row_idx cells) = map (map_prod wrap16 wrap16) rs"
proof -
  let ?P = "\<lambda>st. ranges_apart (fst st) \<and>
    map (\<lambda>m. (qm_col_start m, qm_col_end m)) (snd st) = map (map_prod wrap16 wrap16) (fst st)"
  have "?P (fold (\<lambda>re. fold (add_match row_idx (map cell_ch cells)) (re (map cell_ch cells))) compiled ([], []))"
    by (rule fold_inv, simp, rule fold_inv, assumption)
      (auto intro: add_match_apart add_match_found)
  then show ?thesis unfolding row_matches_of_def Let_def by blast
qed

end
