(* ===== verification/Named_Blocks.thy ===== *)
theory Named_Blocks
  imports Rust_Str "HOL-Library.AList" "HOL-Library.Multiset"
begin

text \<open>
  The names the user gives to command blocks
  (\<open>nexterm-client-gpu/src/named_blocks.rs\<close>) and the dialog that edits them
  (\<open>BlockNameModal\<close> of \<open>state/blocks.rs\<close>).  The map is an association list with
  distinct keys; \<open>now\<close> is the reading of the clock in seconds.  Reading and writing the file
  is not part of the model.
\<close>

definition MAX_NAMED_BLOCKS :: nat where
  "MAX_NAMED_BLOCKS = 10000"

record named_block_entry =
  ne_name :: rstr
  ne_last_used_unix :: int

type_synonym named_block_store = "(nat \<times> named_block_entry) list"

definition names_get :: "nat \<Rightarrow> named_block_store \<Rightarrow> rstr option" where
  "names_get i store = map_option ne_name (map_of store i)"

definition evict_oldest :: "named_block_store \<Rightarrow> named_block_store" where
  "evict_oldest store =
     (let target = length store - MAX_NAMED_BLOCKS;
          extra = MAX_NAMED_BLOCKS div 10;
          to_drop = target + extra;
          by_age = sort_key (\<lambda>(_, ts). ts) (map (\<lambda>(i, e). (i, ne_last_used_unix e)) store) in
      fold AList.delete (map fst (take to_drop by_age)) store)"

definition names_remove :: "nat \<Rightarrow> named_block_store \<Rightarrow> named_block_store \<times> bool" where
  "names_remove i store = (AList.delete i store, map_of store i \<noteq> None)"

definition names_set :: "int \<Rightarrow> nat \<Rightarrow> rstr \<Rightarrow> named_block_store \<Rightarrow> named_block_store \<times> bool" where
  "names_set now i name store =
     (let trimmed = trim name in
      if trimmed = [] then names_remove i store
      else case map_of store i of
        Some existing \<Rightarrow>
          let changed = (ne_name existing \<noteq> trimmed);
              store1 = AList.update i \<lparr>ne_name = trimmed, ne_last_used_unix = now\<rparr> store in
          (if MAX_NAMED_BLOCKS < length store1 then evict_oldest store1 else store1, changed)
      | None \<Rightarrow>
          let store1 = AList.update i \<lparr>ne_name = trimmed, ne_last_used_unix = now\<rparr> store in
          (if MAX_NAMED_BLOCKS < length store1 then evict_oldest store1 else store1, True))"

definition names_touch :: "int \<Rightarrow> nat \<Rightarrow> named_block_store \<Rightarrow> named_block_store" where
  "names_touch now i store =
     (case map_of store i of
        None \<Rightarrow> store
      | Some e \<Rightarrow> AList.update i (e\<lparr>ne_last_used_unix := now\<rparr>) store)"

section \<open>The dialog\<close>

definition MAX_BLOCK_NAME_LEN :: nat where
  "MAX_BLOCK_NAME_LEN = 64"

record block_name_modal =
  bn_is_open :: bool
  bn_target_block :: "nat option"
  bn_input :: rstr
  bn_error :: "rstr option"

definition modal_default :: block_name_modal where
  "modal_default = \<lparr>bn_is_open = False, bn_target_block = None, bn_input = [], bn_error = None\<rparr>"

definition modal_open_for :: "nat \<Rightarrow> rstr option \<Rightarrow> block_name_modal \<Rightarrow> block_name_modal" where
  "modal_open_for block_id current_name m =
     (let m1 = m\<lparr>bn_is_open := True, bn_target_block := Some block_id, bn_input := []\<rparr>;
          m2 = (case current_name of
                  None \<Rightarrow> m1
                | Some name \<Rightarrow>
                    let m2 = m1\<lparr>bn_input := bn_input m1 @ name\<rparr> in
                    if MAX_BLOCK_NAME_LEN < length (bn_input m2)
                    then m2\<lparr>bn_input := take MAX_BLOCK_NAME_LEN (bn_input m2)\<rparr> else m2) in
      m2\<lparr>bn_error := None\<rparr>)"

definition modal_close :: "block_name_modal \<Rightarrow> block_name_modal" where
  "modal_close m = m\<lparr>bn_is_open := False, bn_target_block := None, bn_input := [], bn_error := None\<rparr>"

definition modal_push_char :: "uchar \<Rightarrow> block_name_modal \<Rightarrow> block_name_modal \<times> bool" where
  "modal_push_char ch m =
     (if \<not> bn_is_open m then (m, False)
      else if ch < 32 \<or> ch = 127 then (m, False)
      else if MAX_BLOCK_NAME_LEN \<le> length (bn_input m) then (m, False)
      else (m\<lparr>bn_input := bn_input m @ [ch]\<rparr>, True))"

definition modal_pop_char :: "block_name_modal \<Rightarrow> block_name_modal \<times> bool" where
  "modal_pop_char m =
     (if \<not> bn_is_open m then (m, False)
      else (m\<lparr>bn_input := butlast (bn_input m)\<rparr>, bn_input m \<noteq> []))"

definition modal_take_input :: "block_name_modal \<Rightarrow> block_name_modal \<times> rstr" where
  "modal_take_input m = (m\<lparr>bn_input := []\<rparr>, bn_input m)"

section \<open>The store stays small\<close>

definition store_ok :: "named_block_store \<Rightarrow> bool" where
  "store_ok store \<longleftrightarrow> distinct (map fst store) \<and> length store \<le> MAX_NAMED_BLOCKS
     \<and> (\<forall>(i, e) \<in> set store. ne_name e \<noteq> [])"

lemma length_update:
  "length (AList.update k v xs) = (if k \<in> fst ` set xs then length xs else length xs + 1)"
  by (induction xs) auto

lemma update_set: "set (AList.update k v xs) \<subseteq> insert (k, v) (set xs)"
  by (induction xs) auto

lemma length_delete:
  "distinct (map fst xs) \<Longrightarrow> k \<in> fst ` set xs \<Longrightarrow> length (AList.delete k xs) + 1 = length xs"
proof (induction xs)
  case (Cons x xs)
  show ?case
  proof (cases "fst x = k")
    case True
    with Cons.prems(1) have k: "k \<notin> fst ` set xs" by auto
    have "filter (\<lambda>(k', _). k \<noteq> k') xs = xs"
    proof (intro filter_True ballI)
      fix y
      assume "y \<in> set xs"
      with k show "case y of (k', _) \<Rightarrow> k \<noteq> k'" by (cases y) force
    qed
    with True show ?thesis by (simp add: AList.delete_eq split_beta)
  next
    case False
    with Cons have "length (AList.delete k xs) + 1 = length xs" by simp
    with False show ?thesis by (simp add: AList.delete_eq split_beta)
  qed
qed simp

lemma delete_set: "set (AList.delete k xs) \<subseteq> set xs"
  by (auto simp: AList.delete_eq)

lemma distinct_delete_keys: "distinct (map fst xs) \<Longrightarrow> distinct (map fst (AList.delete k xs))"
  by (rule distinct_delete)

text \<open>Deleting distinct keys of the store drops as many entries.\<close>

lemma fold_delete:
  assumes "distinct (map fst xs)" "distinct ks" "set ks \<subseteq> fst ` set xs"
  shows "length (fold AList.delete ks xs) + length ks = length xs
    \<and> distinct (map fst (fold AList.delete ks xs)) \<and> set (fold AList.delete ks xs) \<subseteq> set xs"
  using assms
proof (induction ks arbitrary: xs)
  case (Cons k ks)
  let ?ys = "AList.delete k xs"
  have "fst ` set ?ys = fst ` set xs - {k}" by (auto simp: AList.delete_eq split_beta image_iff)
  then have "set ks \<subseteq> fst ` set ?ys" using Cons.prems by auto
  with Cons.IH [of ?ys] Cons.prems have "length (fold AList.delete ks ?ys) + length ks = length ?ys
      \<and> distinct (map fst (fold AList.delete ks ?ys)) \<and> set (fold AList.delete ks ?ys) \<subseteq> set ?ys"
    by (simp add: distinct_delete_keys)
  moreover have "length ?ys + 1 = length xs" using length_delete [of xs k] Cons.prems by auto
  ultimately show ?case using delete_set [of k xs] by auto
qed simp

lemma evict_oldest_ok:
  assumes "distinct (map fst store)" "length store = MAX_NAMED_BLOCKS + 1"
  shows "length (evict_oldest store) = 9000 \<and> distinct (map fst (evict_oldest store))
    \<and> set (evict_oldest store) \<subseteq> set store"
proof -
  let ?age = "sort_key (\<lambda>(_, ts). ts) (map (\<lambda>(i, e). (i, ne_last_used_unix e)) store)"
  let ?ks = "map fst (take 1001 ?age)"
  have "mset (map fst ?age) = mset (map fst store)"
    by (simp add: image_mset.compositionality comp_def split_beta)
  then have "distinct (map fst ?age)" "set (map fst ?age) = set (map fst store)"
    using assms(1) by (metis mset_eq_imp_distinct_iff, metis mset_eq_setD)
  moreover have "set ?ks \<subseteq> set (map fst ?age)" by (simp only: take_map [symmetric] set_take_subset)
  ultimately have "distinct ?ks" "set ?ks \<subseteq> fst ` set store"
    by (simp only: take_map [symmetric] distinct_take, simp only: list.set_map)
  from fold_delete [OF assms(1) this] show ?thesis using assms(2)
    by (simp add: evict_oldest_def MAX_NAMED_BLOCKS_def Let_def)
qed

lemma names_update_ok:
  fixes i :: nat and now :: int
  assumes "store_ok store" "n \<noteq> []"
  defines "store1 \<equiv> AList.update i \<lparr>ne_name = n, ne_last_used_unix = now\<rparr> store"
  shows "store_ok (if MAX_NAMED_BLOCKS < length store1 then evict_oldest store1 else store1)"
proof -
  have s: "distinct (map fst store1)" "\<forall>(j, e) \<in> set store1. ne_name e \<noteq> []"
    "length store1 \<le> MAX_NAMED_BLOCKS + 1"
    using assms(1,2) update_set [of i "\<lparr>ne_name = n, ne_last_used_unix = now\<rparr>" store]
    by (auto simp: store1_def store_ok_def distinct_update length_update)
  show ?thesis
  proof (cases "MAX_NAMED_BLOCKS < length store1")
    case True
    with s have "length store1 = MAX_NAMED_BLOCKS + 1" by simp
    from evict_oldest_ok [OF s(1) this] s(2) True show ?thesis
      by (auto simp: store_ok_def MAX_NAMED_BLOCKS_def)
  qed (use s in \<open>simp add: store_ok_def\<close>)
qed

lemma names_set_ok: "store_ok store \<Longrightarrow> store_ok (fst (names_set now i name store))"
  using names_update_ok [of store "trim name" i now] distinct_delete_keys [of store i]
  by (auto simp: names_set_def names_remove_def Let_def store_ok_def AList.delete_eq
      intro: order_trans [OF length_filter_le] split: option.split)

text \<open>Reading back what was set, unless the store was full.\<close>

lemma names_set_get:
  assumes "length store < MAX_NAMED_BLOCKS"
  shows "names_get j (fst (names_set now i name store)) =
    (if j = i then (if trim name = [] then None else Some (trim name)) else names_get j store)"
proof -
  have full: "(MAX_NAMED_BLOCKS < length (AList.update i e store)) = False" for e
    using assms by (simp add: length_update)
  show ?thesis
    by (auto simp: full names_set_def names_remove_def names_get_def Let_def update_conv' delete_conv'
        split: option.split)
qed

text \<open>The text of the dialog has at most 64 characters, none of them a control character.\<close>

definition modal_ok :: "block_name_modal \<Rightarrow> bool" where
  "modal_ok m \<longleftrightarrow> length (bn_input m) \<le> MAX_BLOCK_NAME_LEN"

lemma modal_ops_ok:
  "modal_ok m \<Longrightarrow> modal_ok (fst (modal_push_char c m))"
  "modal_ok m \<Longrightarrow> modal_ok (fst (modal_pop_char m))"
  "modal_ok (modal_open_for i name m)" "modal_ok (modal_close m)" "modal_ok (fst (modal_take_input m))"
  by (auto simp: modal_ok_def modal_push_char_def modal_pop_char_def modal_open_for_def modal_close_def
      modal_take_input_def Let_def split: option.split)

end
