(* ===== verification/Consent.thy ===== *)
theory Consent
  imports Rust_Str
begin

text \<open>
  The consent of the user to sensitive operations in the graphical client: opening a URL,
  writing the clipboard (OSC 52) and desktop notifications (OSC 9 and 777).  The requests are
  \<open>nexterm-client-gpu/src/renderer/event_handler/consent.rs\<close>, the dialog
  \<open>state/consent.rs\<close>, its keys \<open>renderer/input_handler/special_modes.rs\<close> and the policies
  \<open>nexterm-config/src/schema/security.rs\<close>.  What reaches the operating system is a list of
  effects; the animations of the dialog are not part of the model.
\<close>

datatype consent_policy = Allow | Deny | Prompt

record security_config =
  sc_external_url :: consent_policy
  sc_osc52_clipboard :: consent_policy
  sc_osc_notification :: consent_policy
  sc_osc52_max_bytes :: nat
  sc_notification_max_bytes :: nat

record consent_overrides =
  so_external_url :: "bool option"
  so_osc52_clipboard :: "bool option"
  so_osc_notification :: "bool option"

datatype consent_kind =
    OpenUrl rstr
  | ClipboardWrite "nat option" rstr
  | NotificationConsent nat rstr rstr

record consent_dialog =
  cd_kind :: consent_kind
  cd_selected :: nat

definition consent_dialog_new :: "consent_kind \<Rightarrow> consent_dialog" where
  "consent_dialog_new kind = \<lparr>cd_kind = kind, cd_selected = 0\<rparr>"

text \<open>The part of the client state the consent uses.\<close>

record consent_state =
  cn_pending_consent :: "consent_dialog option"
  cn_session_consent_overrides :: consent_overrides

definition consent_init :: consent_state where
  "consent_init =
     \<lparr>cn_pending_consent = None,
      cn_session_consent_overrides =
        \<lparr>so_external_url = None, so_osc52_clipboard = None, so_osc_notification = None\<rparr>\<rparr>"

datatype consent_effect =
    OpenedUrl rstr
  | WroteClipboard rstr
  | SentNotification rstr rstr

definition show_consent_dialog :: "consent_dialog \<Rightarrow> consent_state \<Rightarrow> consent_state" where
  "show_consent_dialog dialog st = st\<lparr>cn_pending_consent := Some dialog\<rparr>"

definition dismiss_consent_dialog :: "consent_state \<Rightarrow> consent_state" where
  "dismiss_consent_dialog st = st\<lparr>cn_pending_consent := None\<rparr>"

section \<open>The requests\<close>

definition truncate_utf8_at :: "rstr \<Rightarrow> nat \<Rightarrow> rstr option" where
  "truncate_utf8_at s max_bytes =
     (if str_len s \<le> max_bytes then Some s else slice_to s (floor_boundary s max_bytes))"

text \<open>The decision of the override or the policy; none asks the user.\<close>

fun consent_decision :: "consent_policy \<Rightarrow> bool option \<Rightarrow> bool option" where
  "consent_decision policy (Some decision) = Some decision"
| "consent_decision Allow None = Some True"
| "consent_decision Deny None = Some False"
| "consent_decision Prompt None = None"

definition handle_notification_request ::
    "security_config \<Rightarrow> nat \<Rightarrow> rstr \<Rightarrow> rstr \<Rightarrow> consent_state \<Rightarrow> (consent_state \<times> consent_effect list) option" where
  "handle_notification_request cfg pane_id title body0 st = do {
     body \<leftarrow> truncate_utf8_at body0 (sc_notification_max_bytes cfg);
     Some (case consent_decision (sc_osc_notification cfg)
                  (so_osc_notification (cn_session_consent_overrides st)) of
        None \<Rightarrow> (show_consent_dialog (consent_dialog_new (NotificationConsent pane_id title body)) st, [])
      | Some allow \<Rightarrow> (st, if allow then [SentNotification title body] else []))
   }"

definition handle_clipboard_write_request ::
    "security_config \<Rightarrow> nat \<Rightarrow> rstr \<Rightarrow> consent_state \<Rightarrow> consent_state \<times> consent_effect list" where
  "handle_clipboard_write_request cfg pane_id t st =
     (if sc_osc52_max_bytes cfg < str_len t then (st, [])
      else case consent_decision (sc_osc52_clipboard cfg)
                  (so_osc52_clipboard (cn_session_consent_overrides st)) of
        None \<Rightarrow> (show_consent_dialog (consent_dialog_new (ClipboardWrite (Some pane_id) t)) st, [])
      | Some allow \<Rightarrow> (st, if allow then [WroteClipboard t] else []))"

definition request_open_url ::
    "security_config \<Rightarrow> rstr \<Rightarrow> consent_state \<Rightarrow> consent_state \<times> consent_effect list" where
  "request_open_url cfg url st =
     (case consent_decision (sc_external_url cfg)
             (so_external_url (cn_session_consent_overrides st)) of
        None \<Rightarrow> (show_consent_dialog (consent_dialog_new (OpenUrl url)) st, [])
      | Some allow \<Rightarrow> (st, if allow then [OpenedUrl url] else []))"

section \<open>The answer\<close>

fun effect_of :: "consent_kind \<Rightarrow> consent_effect" where
  "effect_of (OpenUrl url) = OpenedUrl url"
| "effect_of (ClipboardWrite source t) = WroteClipboard t"
| "effect_of (NotificationConsent source title body) = SentNotification title body"

fun set_override :: "consent_kind \<Rightarrow> bool \<Rightarrow> consent_overrides \<Rightarrow> consent_overrides" where
  "set_override (OpenUrl _) allow ov = ov\<lparr>so_external_url := Some allow\<rparr>"
| "set_override (ClipboardWrite _ _) allow ov = ov\<lparr>so_osc52_clipboard := Some allow\<rparr>"
| "set_override (NotificationConsent _ _ _) allow ov = ov\<lparr>so_osc_notification := Some allow\<rparr>"

definition resolve_pending_consent ::
    "bool option \<Rightarrow> bool \<Rightarrow> consent_state \<Rightarrow> consent_state \<times> consent_effect list" where
  "resolve_pending_consent decision always st =
     (case cn_pending_consent st of
        None \<Rightarrow> (st, [])
      | Some dialog \<Rightarrow>
          let st1 = dismiss_consent_dialog st;
              allow = (case decision of None \<Rightarrow> False | Some d \<Rightarrow> d);
              st2 = (if always
                     then st1\<lparr>cn_session_consent_overrides :=
                            set_override (cd_kind dialog) allow (cn_session_consent_overrides st1)\<rparr>
                     else st1) in
          (st2, if allow then [effect_of (cd_kind dialog)] else []))"

datatype consent_key =
  KeyY | KeyEnter | KeyN | KeyEscape | KeyA | KeyD | KeyLeft | KeyRight | KeyTab | KeyOther

fun handle_consent_dialog_key :: "consent_key \<Rightarrow> consent_state \<Rightarrow> consent_state \<times> consent_effect list" where
  "handle_consent_dialog_key KeyY st = resolve_pending_consent (Some True) False st"
| "handle_consent_dialog_key KeyEnter st = resolve_pending_consent (Some True) False st"
| "handle_consent_dialog_key KeyN st = resolve_pending_consent (Some False) False st"
| "handle_consent_dialog_key KeyEscape st = resolve_pending_consent (Some False) False st"
| "handle_consent_dialog_key KeyA st = resolve_pending_consent (Some True) True st"
| "handle_consent_dialog_key KeyD st = resolve_pending_consent (Some False) True st"
| "handle_consent_dialog_key k st =
     (if k = KeyOther then (st, [])
      else case cn_pending_consent st of
        None \<Rightarrow> (st, [])
      | Some dialog \<Rightarrow>
          let dir = (if k = KeyLeft then 3 else 1) in
          (st\<lparr>cn_pending_consent := Some (dialog\<lparr>cd_selected := (cd_selected dialog + dir) mod 4\<rparr>)\<rparr>, []))"

text \<open>The events that reach the consent: requests, and the keys while a dialog is open.\<close>

datatype consent_event =
    NotificationRequest nat rstr rstr
  | ClipboardRequest nat rstr
  | UrlRequest rstr
  | ConsentKey consent_key

fun consent_step ::
    "security_config \<Rightarrow> consent_event \<Rightarrow> consent_state \<Rightarrow> (consent_state \<times> consent_effect list) option" where
  "consent_step cfg (NotificationRequest p title body) st = handle_notification_request cfg p title body st"
| "consent_step cfg (ClipboardRequest p t) st = Some (handle_clipboard_write_request cfg p t st)"
| "consent_step cfg (UrlRequest url) st = Some (request_open_url cfg url st)"
| "consent_step cfg (ConsentKey k) st =
     Some (if cn_pending_consent st = None then (st, []) else handle_consent_dialog_key k st)"

fun consent_run ::
    "security_config \<Rightarrow> consent_event list \<Rightarrow> consent_state \<Rightarrow> (consent_state \<times> consent_effect list) option" where
  "consent_run cfg [] st = Some (st, [])"
| "consent_run cfg (ev # evs) st = do {
     (st1, effs1) \<leftarrow> consent_step cfg ev st;
     (st2, effs2) \<leftarrow> consent_run cfg evs st1;
     Some (st2, effs1 @ effs2)
   }"

section \<open>The truncation\<close>

lemma truncate_utf8_eq: "truncate_utf8_at s n = Some (take_bytes n s)"
  by (simp add: truncate_utf8_at_def slice_to_floor_boundary take_bytes_all)

section \<open>What needs consent\<close>

fun policy_for :: "security_config \<Rightarrow> consent_effect \<Rightarrow> consent_policy" where
  "policy_for cfg (OpenedUrl _) = sc_external_url cfg"
| "policy_for cfg (WroteClipboard _) = sc_osc52_clipboard cfg"
| "policy_for cfg (SentNotification _ _) = sc_osc_notification cfg"

fun override_for :: "consent_overrides \<Rightarrow> consent_effect \<Rightarrow> bool option" where
  "override_for ov (OpenedUrl _) = so_external_url ov"
| "override_for ov (WroteClipboard _) = so_osc52_clipboard ov"
| "override_for ov (SentNotification _ _) = so_osc_notification ov"

fun within_limits :: "security_config \<Rightarrow> consent_effect \<Rightarrow> bool" where
  "within_limits cfg (OpenedUrl _) = True"
| "within_limits cfg (WroteClipboard t) = (str_len t \<le> sc_osc52_max_bytes cfg)"
| "within_limits cfg (SentNotification _ body) = (str_len body \<le> sc_notification_max_bytes cfg)"

definition allow_keys :: "consent_key set" where
  "allow_keys = {KeyY, KeyEnter, KeyA}"

text \<open>
  The invariant: a dialog is open only under the policy to ask, what it would do is within the
  limits, and an override exists only where the policy is to ask or nothing was decided;
  \<open>asked\<close> says whether the user has pressed a key that allows.
\<close>

definition consent_ok :: "security_config \<Rightarrow> bool \<Rightarrow> consent_state \<Rightarrow> bool" where
  "consent_ok cfg asked st \<longleftrightarrow>
     (\<forall>d. cn_pending_consent st = Some d \<longrightarrow>
        policy_for cfg (effect_of (cd_kind d)) = Prompt \<and> within_limits cfg (effect_of (cd_kind d)))
     \<and> (\<forall>e. override_for (cn_session_consent_overrides st) e \<noteq> None \<longrightarrow> policy_for cfg e = Prompt)
     \<and> (\<forall>e. override_for (cn_session_consent_overrides st) e = Some True \<longrightarrow> asked)"

definition permitted :: "security_config \<Rightarrow> bool \<Rightarrow> consent_effect \<Rightarrow> bool" where
  "permitted cfg asked e \<longleftrightarrow> within_limits cfg e \<and> (policy_for cfg e = Allow \<or> policy_for cfg e = Prompt \<and> asked)"

lemma consent_init_ok: "consent_ok cfg asked consent_init"
proof -
  have "override_for (cn_session_consent_overrides consent_init) e = None" for e
    by (cases e) (simp_all add: consent_init_def)
  then show ?thesis by (simp add: consent_ok_def) (simp add: consent_init_def)
qed

lemma consent_ok_mono: "consent_ok cfg a st \<Longrightarrow> a \<le> b \<Longrightarrow> consent_ok cfg b st"
  by (auto simp: consent_ok_def)

lemma consent_ok_show:
  assumes "consent_ok cfg a st" "policy_for cfg (effect_of (cd_kind d)) = Prompt"
    "within_limits cfg (effect_of (cd_kind d))"
  shows "consent_ok cfg a (show_consent_dialog d st)"
  using assms by (simp add: consent_ok_def show_consent_dialog_def)

text \<open>A request: the effect it stands for, decided now or by the dialog.\<close>

lemma decision_cases:
  "consent_decision p ov = Some True \<Longrightarrow> ov = Some True \<or> ov = None \<and> p = Allow"
  "consent_decision p ov = None \<Longrightarrow> ov = None \<and> p = Prompt"
  by (cases ov; cases p; simp)+

lemma request_permitted:
  assumes "consent_ok cfg a st" "within_limits cfg e"
    "consent_decision (policy_for cfg e) (override_for (cn_session_consent_overrides st) e) = Some True"
  shows "permitted cfg a e"
  using decision_cases(1) [OF assms(3)] assms(1,2) by (auto simp: consent_ok_def permitted_def)

fun about :: "consent_kind \<Rightarrow> consent_effect \<Rightarrow> bool" where
  "about (OpenUrl _) (OpenedUrl _) = True"
| "about (ClipboardWrite _ _) (WroteClipboard _) = True"
| "about (NotificationConsent _ _ _) (SentNotification _ _) = True"
| "about _ _ = False"

lemma override_set:
  "override_for (set_override k allow ov) e = (if about k e then Some allow else override_for ov e)"
  by (cases k; cases e) simp_all

lemma policy_about: "about k e \<Longrightarrow> policy_for cfg e = policy_for cfg (effect_of k)"
  by (cases k; cases e) simp_all

lemma consent_key_ok:
  assumes "consent_ok cfg a st" "handle_consent_dialog_key k st = (st', effs)"
  shows "consent_ok cfg (a \<or> k \<in> allow_keys) st' \<and> (\<forall>e \<in> set effs. permitted cfg (a \<or> k \<in> allow_keys) e)"
proof (cases "cn_pending_consent st")
  case None
  then show ?thesis using assms
    by (cases k) (auto simp: resolve_pending_consent_def intro: consent_ok_mono)
next
  case (Some d)
  have d: "policy_for cfg (effect_of (cd_kind d)) = Prompt" "within_limits cfg (effect_of (cd_kind d))"
    using assms(1) Some by (auto simp: consent_ok_def)
  have o: "override_for (cn_session_consent_overrides st) e \<noteq> None \<Longrightarrow> policy_for cfg e = Prompt"
    "override_for (cn_session_consent_overrides st) e = Some True \<Longrightarrow> a" for e
    using assms(1) by (auto simp: consent_ok_def)
  have res: "resolve_pending_consent (Some allow) always st = (st', effs) \<Longrightarrow>
      consent_ok cfg (a \<or> allow) st' \<and> (\<forall>e \<in> set effs. permitted cfg (a \<or> allow) e)" for allow always
    using d o Some by (auto simp: resolve_pending_consent_def dismiss_consent_dialog_def Let_def consent_ok_def
        permitted_def override_set policy_about split: if_splits)
  show ?thesis using assms(2) res [of True False] res [of False False] res [of True True] res [of False True] d o Some
    by (cases k) (auto simp: allow_keys_def consent_ok_def Let_def)
qed

lemma consent_step_ok:
  assumes "consent_ok cfg a st" "consent_step cfg ev st = Some (st', effs)"
  defines "b \<equiv> a \<or> (\<exists>k \<in> allow_keys. ev = ConsentKey k)"
  shows "consent_ok cfg b st' \<and> (\<forall>e \<in> set effs. permitted cfg b e)"
proof (cases ev)
  case (NotificationRequest p title body)
  let ?e = "SentNotification title (take_bytes (sc_notification_max_bytes cfg) body)"
  have l: "within_limits cfg ?e" by (simp add: take_bytes_len)
  have b: "b = a" using NotificationRequest by (simp add: b_def)
  show ?thesis unfolding b using assms(1,2) NotificationRequest l request_permitted [OF assms(1) l]
      consent_ok_show [OF assms(1), of "consent_dialog_new (NotificationConsent p title (take_bytes (sc_notification_max_bytes cfg) body))"]
    by (auto simp: handle_notification_request_def truncate_utf8_eq consent_dialog_new_def
        dest: decision_cases(2) split: option.splits if_splits)
next
  case (ClipboardRequest p t)
  let ?e = "WroteClipboard t"
  have b: "b = a" using ClipboardRequest by (simp add: b_def)
  show ?thesis unfolding b using assms(1,2) ClipboardRequest request_permitted [OF assms(1), of ?e]
      consent_ok_show [OF assms(1), of "consent_dialog_new (ClipboardWrite (Some p) t)"]
    by (auto simp: handle_clipboard_write_request_def consent_dialog_new_def not_less
        dest: decision_cases(2) split: option.splits if_splits)
next
  case (UrlRequest url)
  let ?e = "OpenedUrl url"
  have b: "b = a" using UrlRequest by (simp add: b_def)
  show ?thesis unfolding b using assms(1,2) UrlRequest request_permitted [OF assms(1), of ?e]
      consent_ok_show [OF assms(1), of "consent_dialog_new (OpenUrl url)"]
    by (auto simp: request_open_url_def consent_dialog_new_def
        dest: decision_cases(2) split: option.splits if_splits)
next
  case (ConsentKey k)
  have b: "b = (a \<or> k \<in> allow_keys)" using ConsentKey by (auto simp: b_def)
  show ?thesis unfolding b using assms(1,2) ConsentKey consent_key_ok [OF assms(1), of k st' effs]
    by (auto split: if_splits intro: consent_ok_mono)
qed

lemma consent_run_ok:
  assumes "consent_ok cfg a st" "consent_run cfg evs st = Some (st', effs)"
  shows "\<forall>e \<in> set effs. permitted cfg (a \<or> (\<exists>k \<in> allow_keys. ConsentKey k \<in> set evs)) e"
  using assms
proof (induction evs arbitrary: a st effs)
  case (Cons ev evs)
  then obtain st1 effs1 effs2 where r: "consent_step cfg ev st = Some (st1, effs1)"
    "consent_run cfg evs st1 = Some (st', effs2)" "effs = effs1 @ effs2"
    by (auto simp: Option.bind_eq_Some_conv)
  let ?b = "a \<or> (\<exists>k \<in> allow_keys. ev = ConsentKey k)"
  have "consent_ok cfg ?b st1" "\<forall>e \<in> set effs1. permitted cfg ?b e"
    using consent_step_ok [OF Cons.prems(1) r(1)] by blast+
  moreover from Cons.IH [OF this(1) r(2)]
  have "\<forall>e \<in> set effs2. permitted cfg (?b \<or> (\<exists>k \<in> allow_keys. ConsentKey k \<in> set evs)) e" .
  ultimately show ?case unfolding r(3) by (auto simp: permitted_def)
qed simp

text \<open>Nothing in it can panic.\<close>

lemma consent_run_total: "\<exists>st' effs. consent_run cfg evs st = Some (st', effs)"
proof (induction evs arbitrary: st)
  case (Cons ev evs)
  have "\<exists>st1 effs1. consent_step cfg ev st = Some (st1, effs1)"
    by (cases ev) (auto simp: handle_notification_request_def truncate_utf8_eq surj_pair
        split: option.split)
  then obtain st1 effs1 where "consent_step cfg ev st = Some (st1, effs1)" by blast
  moreover obtain st2 effs2 where "consent_run cfg evs st1 = Some (st2, effs2)" using Cons.IH by blast
  ultimately show ?case by simp
qed simp

section \<open>What the user allowed, from the history alone\<close>

text \<open>
  What a request asks for, within the limits: a text for the clipboard that is too long is not a request,
  the body of a notification is cut.
\<close>

fun asked_by :: "security_config \<Rightarrow> consent_event \<Rightarrow> consent_effect option" where
  "asked_by cfg (NotificationRequest _ title body) =
     Some (SentNotification title (take_bytes (sc_notification_max_bytes cfg) body))"
| "asked_by cfg (ClipboardRequest _ t) = (if str_len t \<le> sc_osc52_max_bytes cfg then Some (WroteClipboard t) else None)"
| "asked_by cfg (UrlRequest url) = Some (OpenedUrl url)"
| "asked_by cfg (ConsentKey _) = None"

fun same_class :: "consent_effect \<Rightarrow> consent_effect \<Rightarrow> bool" where
  "same_class (OpenedUrl _) (OpenedUrl _) = True"
| "same_class (WroteClipboard _) (WroteClipboard _) = True"
| "same_class (SentNotification _ _) (SentNotification _ _) = True"
| "same_class _ _ = False"

text \<open>
  Over the past events, the last one first: the effect the open dialog asks about, and the standing decision
  on an effect.  A dialog opens for a request on which nothing stands, in place of any other, and
  closes with a key that answers it.  A decision stands by the policy, or from the last A or D that answered a dialog
  about an effect of the same class.
\<close>

definition answer_keys :: "consent_key set" where
  "answer_keys = {KeyY, KeyEnter, KeyA, KeyN, KeyEscape, KeyD}"

fun dialog_at :: "security_config \<Rightarrow> consent_event list \<Rightarrow> consent_effect option"
  and standing :: "security_config \<Rightarrow> consent_event list \<Rightarrow> consent_effect \<Rightarrow> bool option" where
  "dialog_at cfg [] = None"
| "dialog_at cfg (ev # past) =
     (case asked_by cfg ev of
        Some e \<Rightarrow> if standing cfg past e = None then Some e else dialog_at cfg past
      | None \<Rightarrow> if \<exists>k \<in> answer_keys. ev = ConsentKey k then None else dialog_at cfg past)"
| "standing cfg [] e = (case policy_for cfg e of Allow \<Rightarrow> Some True | Deny \<Rightarrow> Some False | Prompt \<Rightarrow> None)"
| "standing cfg (ev # past) e =
     (case dialog_at cfg past of
        Some d \<Rightarrow>
          if same_class d e \<and> ev = ConsentKey KeyA then Some True
          else if same_class d e \<and> ev = ConsentKey KeyD then Some False
          else standing cfg past e
      | None \<Rightarrow> standing cfg past e)"

text \<open>The effects an event may have after a past, and those of the events that follow it.\<close>

definition allowed_now :: "security_config \<Rightarrow> consent_event list \<Rightarrow> consent_event \<Rightarrow> consent_effect list" where
  "allowed_now cfg past ev =
     (if \<exists>k \<in> allow_keys. ev = ConsentKey k then (case dialog_at cfg past of Some e \<Rightarrow> [e] | None \<Rightarrow> [])
      else case asked_by cfg ev of
        Some e \<Rightarrow> if standing cfg past e = Some True then [e] else []
      | None \<Rightarrow> [])"

fun allowed_after :: "security_config \<Rightarrow> consent_event list \<Rightarrow> consent_event list \<Rightarrow> consent_effect list" where
  "allowed_after cfg past [] = []"
| "allowed_after cfg past (ev # evs) = allowed_now cfg past ev @ allowed_after cfg (ev # past) evs"

text \<open>The state holds what the history says.\<close>

definition remembers :: "security_config \<Rightarrow> consent_event list \<Rightarrow> consent_state \<Rightarrow> bool" where
  "remembers cfg past st \<longleftrightarrow>
     map_option (\<lambda>d. effect_of (cd_kind d)) (cn_pending_consent st) = dialog_at cfg past
     \<and> (\<forall>e. consent_decision (policy_for cfg e) (override_for (cn_session_consent_overrides st) e) = standing cfg past e)"

lemma remembers_init: "remembers cfg [] consent_init"
proof -
  have "override_for (cn_session_consent_overrides consent_init) e = None" for e
    by (cases e) (simp_all add: consent_init_def)
  moreover have "consent_decision p None = (case p of Allow \<Rightarrow> Some True | Deny \<Rightarrow> Some False | Prompt \<Rightarrow> None)" for p
    by (cases p) simp_all
  ultimately show ?thesis by (simp add: remembers_def) (simp add: consent_init_def)
qed

lemma about_class: "about k e \<longleftrightarrow> same_class (effect_of k) e"
  by (cases k; cases e) simp_all

text \<open>A request for \<open>e\<close>: a standing decision answers it, otherwise the dialog opens.\<close>

lemma remembers_request:
  assumes "remembers cfg past st" "asked_by cfg ev = Some (effect_of k)"
    and "(st', effs) = (case consent_decision (policy_for cfg (effect_of k))
            (override_for (cn_session_consent_overrides st) (effect_of k)) of
        None \<Rightarrow> (show_consent_dialog (consent_dialog_new k) st, [])
      | Some allow \<Rightarrow> (st, if allow then [effect_of k] else []))"
  shows "remembers cfg (ev # past) st' \<and> effs = allowed_now cfg past ev"
proof -
  have key: "ev \<noteq> ConsentKey x" for x using assms(2) by auto
  have s: "consent_decision (policy_for cfg (effect_of k))
      (override_for (cn_session_consent_overrides st) (effect_of k)) = standing cfg past (effect_of k)"
    using assms(1) by (simp add: remembers_def)
  have stand: "standing cfg (ev # past) e = standing cfg past e" for e
    using key by (auto split: option.split)
  show ?thesis using assms key unfolding s
    by (auto simp: remembers_def stand allowed_now_def show_consent_dialog_def consent_dialog_new_def
        simp del: standing.simps split: option.splits)
qed

lemma remembers_key:
  assumes "remembers cfg past st" "consent_step cfg (ConsentKey k) st = Some (st', effs)"
  shows "remembers cfg (ConsentKey k # past) st' \<and> effs = allowed_now cfg past (ConsentKey k)"
proof (cases "cn_pending_consent st")
  case None
  then have "dialog_at cfg past = None" using assms(1) by (simp add: remembers_def)
  with None assms show ?thesis by (auto simp: remembers_def allowed_now_def)
next
  case (Some d)
  then have d: "dialog_at cfg past = Some (effect_of (cd_kind d))"
    and st: "\<And>e. consent_decision (policy_for cfg e) (override_for (cn_session_consent_overrides st) e) = standing cfg past e"
    using assms(1) by (auto simp: remembers_def)
  have k: "handle_consent_dialog_key k st = (st', effs)" using assms(2) Some by simp
  have keep: "standing cfg (ConsentKey k # past) e = standing cfg past e" if "k \<noteq> KeyA" "k \<noteq> KeyD" for e
    using that by (auto split: option.split)
  have set: "consent_decision (policy_for cfg e)
      (override_for (set_override (cd_kind d) allow (cn_session_consent_overrides st)) e) =
      (if same_class (effect_of (cd_kind d)) e then Some allow else standing cfg past e)" for allow e
    using st [of e] by (simp add: override_set about_class)
  show ?thesis using k d st set keep Some
    by (cases k) (auto simp: remembers_def allowed_now_def allow_keys_def answer_keys_def resolve_pending_consent_def
        dismiss_consent_dialog_def Let_def)
qed

lemma remembers_step:
  assumes "remembers cfg past st" "consent_step cfg ev st = Some (st', effs)"
  shows "remembers cfg (ev # past) st' \<and> effs = allowed_now cfg past ev"
proof (cases ev)
  case (NotificationRequest p title body)
  show ?thesis
    by (rule remembers_request [OF assms(1), of _ "NotificationConsent p title (take_bytes (sc_notification_max_bytes cfg) body)"])
      (use assms(2) NotificationRequest in \<open>auto simp: handle_notification_request_def truncate_utf8_eq split: option.splits\<close>)
next
  case (ClipboardRequest p t)
  show ?thesis
  proof (cases "str_len t \<le> sc_osc52_max_bytes cfg")
    case True
    show ?thesis
      by (rule remembers_request [OF assms(1), of _ "ClipboardWrite (Some p) t"])
        (use assms(2) ClipboardRequest True in \<open>auto simp: handle_clipboard_write_request_def split: option.splits\<close>)
  next
    case False
    with assms ClipboardRequest show ?thesis
      by (auto simp: handle_clipboard_write_request_def remembers_def allowed_now_def split: option.splits)
  qed
next
  case (UrlRequest url)
  show ?thesis
    by (rule remembers_request [OF assms(1), of _ "OpenUrl url"])
      (use assms(2) UrlRequest in \<open>auto simp: request_open_url_def split: option.splits\<close>)
next
  case (ConsentKey k)
  with remembers_key assms show ?thesis by blast
qed

lemma consent_run_allowed:
  "remembers cfg past st \<Longrightarrow> consent_run cfg evs st = Some (st', effs) \<Longrightarrow> effs = allowed_after cfg past evs"
proof (induction evs arbitrary: past st effs)
  case (Cons ev evs)
  then obtain st1 effs1 effs2 where r: "consent_step cfg ev st = Some (st1, effs1)"
    "consent_run cfg evs st1 = Some (st', effs2)" "effs = effs1 @ effs2"
    by (auto simp: Option.bind_eq_Some_conv)
  from remembers_step [OF Cons.prems(1) r(1)] Cons.IH [OF _ r(2)] r(3) show ?case by auto
qed simp

end
