(* ===== verification/Info_Bars.thy ===== *)
theory Info_Bars
  imports Rust_Std "HOL-Library.Product_Lexorder"
begin

text \<open>
  The status bars over the terminal
  (\<open>nexterm-client-gpu/src/renderer/overlay/infobar.rs\<close> and the operations of
  \<open>state/mod.rs\<close> on them).  Times are milliseconds of the monotonic clock.  A timer
  (\<open>animations/timed.rs\<close>) is its start and duration; whether it is done is the
  floating-point computation \<open>is_done\<close>, a parameter, and the exit timer is an argument where
  the source computes it from the progress of the entrance.
\<close>

record timed =
  tm_start :: nat
  tm_duration_ms :: nat

datatype severity = SevInfo | SevWarning | SevError

datatype info_bar_slot = UpdateSlot | OfflineSlot | ServerErrorSlot

datatype info_bar_kind =
    UpdateAvailable rstr
  | Offline nat
  | ServerErrorBar rstr

fun bar_slot :: "info_bar_kind \<Rightarrow> info_bar_slot" where
  "bar_slot (UpdateAvailable _) = UpdateSlot"
| "bar_slot (Offline _) = OfflineSlot"
| "bar_slot (ServerErrorBar _) = ServerErrorSlot"

fun bar_severity :: "info_bar_kind \<Rightarrow> severity" where
  "bar_severity (UpdateAvailable _) = SevInfo"
| "bar_severity (Offline _) = SevWarning"
| "bar_severity (ServerErrorBar _) = SevError"

text \<open>The derived order of the severities.\<close>

fun severity_rank :: "severity \<Rightarrow> nat" where
  "severity_rank SevInfo = 0"
| "severity_rank SevWarning = 1"
| "severity_rank SevError = 2"

definition is_dismissible :: "info_bar_kind \<Rightarrow> bool" where
  "is_dismissible kind = (case kind of Offline _ \<Rightarrow> False | _ \<Rightarrow> True)"

definition INFO_BAR_TTL :: nat where
  "INFO_BAR_TTL = 20000"

definition auto_dismiss_after :: "info_bar_kind \<Rightarrow> nat option" where
  "auto_dismiss_after kind = (case bar_severity kind of SevInfo \<Rightarrow> Some INFO_BAR_TTL | _ \<Rightarrow> None)"

record info_bar =
  ib_kind :: info_bar_kind
  ib_created_at :: nat
  ib_entrance :: timed
  ib_exit :: "timed option"
  ib_expires_at :: "nat option"

definition info_bar_new :: "info_bar_kind \<Rightarrow> nat \<Rightarrow> timed \<Rightarrow> info_bar" where
  "info_bar_new kind now entrance =
     \<lparr>ib_kind = kind, ib_created_at = now, ib_entrance = entrance, ib_exit = None,
      ib_expires_at = map_option (\<lambda>d. now + d) (auto_dismiss_after kind)\<rparr>"

definition is_expired :: "nat \<Rightarrow> info_bar \<Rightarrow> bool" where
  "is_expired now bar = (case ib_expires_at bar of None \<Rightarrow> False | Some deadline \<Rightarrow> deadline \<le> now)"

definition is_dismissed :: "info_bar \<Rightarrow> bool" where
  "is_dismissed bar \<longleftrightarrow> ib_exit bar \<noteq> None"

definition is_retired :: "(nat \<Rightarrow> timed \<Rightarrow> bool) \<Rightarrow> nat \<Rightarrow> info_bar \<Rightarrow> bool" where
  "is_retired is_done now bar = (case ib_exit bar of None \<Rightarrow> False | Some exit \<Rightarrow> is_done now exit)"

definition stack_order :: "info_bar list \<Rightarrow> nat list" where
  "stack_order bars =
     sort_key (\<lambda>i. (2 - severity_rank (bar_severity (ib_kind (bars ! i))), ib_created_at (bars ! i)))
       [0..<length bars]"

definition top_live :: "info_bar list \<Rightarrow> nat option" where
  "top_live bars = List.find (\<lambda>i. \<not> is_dismissed (bars ! i)) (stack_order bars)"

definition top_dismissible :: "info_bar list \<Rightarrow> nat option" where
  "top_dismissible bars =
     List.find (\<lambda>i. \<not> is_dismissed (bars ! i) \<and> is_dismissible (ib_kind (bars ! i))) (stack_order bars)"

section \<open>Operations of the client state\<close>

definition remove_info_bar :: "info_bar_slot \<Rightarrow> info_bar list \<Rightarrow> info_bar list \<times> bool" where
  "remove_info_bar slot bars =
     (let bars1 = filter (\<lambda>bar. bar_slot (ib_kind bar) \<noteq> slot) bars in
      (bars1, length bars1 \<noteq> length bars))"

definition push_info_bar :: "info_bar_kind \<Rightarrow> nat \<Rightarrow> nat \<Rightarrow> info_bar list \<Rightarrow> info_bar list \<times> bool" where
  "push_info_bar kind now ms bars =
     (if list_ex (\<lambda>bar. ib_kind bar = kind \<and> \<not> is_dismissed bar) bars then (bars, False)
      else (fst (remove_info_bar (bar_slot kind) bars)
              @ [info_bar_new kind now \<lparr>tm_start = now, tm_duration_ms = ms\<rparr>], True))"

fun dismiss_info_bar :: "info_bar_slot \<Rightarrow> timed \<Rightarrow> info_bar list \<Rightarrow> info_bar list \<times> bool" where
  "dismiss_info_bar slot exit [] = ([], False)"
| "dismiss_info_bar slot exit (bar # bars) =
     (if bar_slot (ib_kind bar) = slot \<and> \<not> is_dismissed bar
      then (bar\<lparr>ib_exit := Some exit\<rparr> # bars, True)
      else map_prod ((#) bar) id (dismiss_info_bar slot exit bars))"

definition expire_info_bars :: "nat \<Rightarrow> timed \<Rightarrow> info_bar list \<Rightarrow> info_bar list \<times> bool" where
  "expire_info_bars now exit bars =
     fold (\<lambda>slot (bs, changed). let (bs1, c) = dismiss_info_bar slot exit bs in (bs1, changed \<or> c))
       (map (\<lambda>bar. bar_slot (ib_kind bar)) (filter (\<lambda>bar. \<not> is_dismissed bar \<and> is_expired now bar) bars))
       (bars, False)"

definition retire_info_bars :: "(nat \<Rightarrow> timed \<Rightarrow> bool) \<Rightarrow> nat \<Rightarrow> info_bar list \<Rightarrow> info_bar list \<times> bool" where
  "retire_info_bars is_done now bars =
     (let bars1 = filter (\<lambda>bar. \<not> is_retired is_done now bar) bars in
      (bars1, length bars1 \<noteq> length bars))"

definition has_info_bar :: "info_bar_slot \<Rightarrow> info_bar list \<Rightarrow> bool" where
  "has_info_bar slot bars \<longleftrightarrow> list_ex (\<lambda>bar. bar_slot (ib_kind bar) = slot \<and> \<not> is_dismissed bar) bars"

section \<open>One bar for each slot\<close>

abbreviation slots_of :: "info_bar list \<Rightarrow> info_bar_slot list" where
  "slots_of bars \<equiv> map (\<lambda>bar. bar_slot (ib_kind bar)) bars"

lemma distinct_slots_filter: "distinct (slots_of bars) \<Longrightarrow> distinct (slots_of (filter P bars))"
  by (induction bars) auto

lemma push_info_bar_slots:
  "distinct (slots_of bars) \<Longrightarrow> distinct (slots_of (fst (push_info_bar kind now ms bars)))"
  by (auto simp: push_info_bar_def remove_info_bar_def Let_def distinct_slots_filter info_bar_new_def)

lemma dismiss_info_bar_slots: "slots_of (fst (dismiss_info_bar slot exit bars)) = slots_of bars"
  by (induction slot exit bars rule: dismiss_info_bar.induct) auto

lemma expire_info_bars_slots: "slots_of (fst (expire_info_bars now exit bars)) = slots_of bars"
proof -
  have "slots_of (fst (fold (\<lambda>slot (bs, changed). let (bs1, c) = dismiss_info_bar slot exit bs in (bs1, changed \<or> c))
      slots (bs, c))) = slots_of bs" for slots bs c
  proof (induction slots arbitrary: bs c)
    case (Cons slot slots)
    have "slots_of (fst (dismiss_info_bar slot exit bs)) = slots_of bs" by (rule dismiss_info_bar_slots)
    with Cons show ?case by (cases "dismiss_info_bar slot exit bs") simp
  qed simp
  then show ?thesis by (simp add: expire_info_bars_def)
qed

text \<open>A message is shown once it was pushed, and the error bar is above all others.\<close>

lemma push_info_bar_shown: "has_info_bar (bar_slot kind) (fst (push_info_bar kind now ms bars))"
  by (auto simp: push_info_bar_def has_info_bar_def list_ex_iff info_bar_new_def is_dismissed_def)

lemma top_live_loudest:
  assumes "top_live bars = Some i" "j < length bars" "\<not> is_dismissed (bars ! j)"
  shows "i < length bars \<and> \<not> is_dismissed (bars ! i)
    \<and> severity_rank (bar_severity (ib_kind (bars ! j))) \<le> severity_rank (bar_severity (ib_kind (bars ! i)))"
proof -
  let ?k = "\<lambda>i. (2 - severity_rank (bar_severity (ib_kind (bars ! i))), ib_created_at (bars ! i))"
  let ?xs = "stack_order bars"
  have xs: "sorted (map ?k ?xs)" "set ?xs = {0..<length bars}" by (simp_all add: stack_order_def)
  from assms(1) obtain p where p: "p < length ?xs" "?xs ! p = i" "\<not> is_dismissed (bars ! i)"
    "\<forall>q < p. is_dismissed (bars ! (?xs ! q))"
    by (auto simp: top_live_def find_Some_iff)
  obtain q where q: "q < length ?xs" "?xs ! q = j" using assms(2) xs(2) by (auto simp: set_eq_iff in_set_conv_nth)
  have "p \<le> q" using p(4) q assms(3) by (meson not_le)
  then have "?k i \<le> ?k j" using sorted_nth_mono [OF xs(1), of p q] p q by simp
  then have "2 - severity_rank (bar_severity (ib_kind (bars ! i))) \<le> 2 - severity_rank (bar_severity (ib_kind (bars ! j)))"
    by auto
  moreover have "severity_rank s \<le> 2" for s by (cases s) simp_all
  moreover have "i < length bars" using p xs(2) by (metis atLeastLessThan_iff nth_mem)
  ultimately show ?thesis using p(3) by (metis diff_le_mono2 diff_diff_cancel)
qed

end
