(* ===== verification/Gpu_State.thy ===== *)
theory Gpu_State
  imports Server_Msg Command_Blocks Quick_Select Named_Blocks Consent Info_Bars
begin

text \<open>
  The state of the graphical client: panes (\<open>nexterm-client-gpu/src/state/pane.rs\<close>), the
  state of the client (\<open>state/mod.rs\<close>) without what only the renderer reads, the messages of
  the server (\<open>state/server_message.rs\<close>), scrolling, jumping to prompts and the search
  (\<open>state/search.rs\<close>).  \<open>now\<close> is the clock, \<open>anim_ms\<close> the duration of an entrance.
  A panic of the history is \<open>None\<close>.
\<close>

section \<open>Panes\<close>

record gpu_pane =
  gp_grid :: grid
  gp_cursor_col :: nat
  gp_cursor_row :: nat
  gp_scrollback :: scrollback
  gp_scroll_offset :: nat
  gp_images :: "(nat \<times> pending_image) list"
  gp_text_sizes :: "text_sizing_event list"
  gp_has_activity :: bool
  gp_title :: rstr
  gp_process_name :: "rstr option"
  gp_cwd :: "rstr option"
  gp_pointer_shape :: "rstr option"
  gp_color_overrides :: color_overrides
  gp_progress :: "(nat \<times> nat) option"
  gp_prompt_anchors :: "nat list"
  gp_marks :: "block_mark list"
  gp_blocks :: "command_block list"
  gp_content_dirty :: bool

definition MAX_SEMANTIC_MARKS :: nat where
  "MAX_SEMANTIC_MARKS = 8192"

definition MAX_PROMPT_ANCHORS :: nat where
  "MAX_PROMPT_ANCHORS = 1024"

definition gpu_pane_new :: "nat \<Rightarrow> nat \<Rightarrow> nat \<Rightarrow> gpu_pane" where
  "gpu_pane_new cols rows scrollback_capacity =
     \<lparr>gp_grid = grid_new cols rows, gp_cursor_col = 0, gp_cursor_row = 0,
      gp_scrollback = scrollback_new scrollback_capacity, gp_scroll_offset = 0, gp_images = [],
      gp_text_sizes = [], gp_has_activity = False, gp_title = [], gp_process_name = None,
      gp_cwd = None, gp_pointer_shape = None,
      gp_color_overrides = \<lparr>co_fg = None, co_bg = None, co_palette = []\<rparr>, gp_progress = None,
      gp_prompt_anchors = [], gp_marks = [], gp_blocks = [], gp_content_dirty = True\<rparr>"

definition gpu_diff_row :: "dirty_row \<Rightarrow> gpu_pane \<Rightarrow> gpu_pane option" where
  "gpu_diff_row dirty pane =
     (case lget (g_rows (gp_grid pane)) (dr_row dirty) of
        None \<Rightarrow> Some pane
      | Some row \<Rightarrow> do {
          sb \<leftarrow> push_line row (gp_scrollback pane);
          Some (pane\<lparr>gp_scrollback := sb,
            gp_grid := gp_grid pane\<lparr>g_rows := (g_rows (gp_grid pane))[dr_row dirty := dr_cells dirty]\<rparr>\<rparr>)
        })"

definition gpu_apply_diff :: "dirty_row list \<Rightarrow> nat \<Rightarrow> nat \<Rightarrow> gpu_pane \<Rightarrow> gpu_pane option" where
  "gpu_apply_diff dirty_rows cursor_col cursor_row pane = do {
     pane1 \<leftarrow> foldM gpu_diff_row dirty_rows pane;
     Some (pane1\<lparr>gp_cursor_col := cursor_col, gp_cursor_row := cursor_row, gp_scroll_offset := 0,
                 gp_content_dirty := True\<rparr>)
   }"

text \<open>The part of the message handler for a prompt mark and for any mark.\<close>

definition push_anchor :: "nat \<Rightarrow> gpu_pane \<Rightarrow> gpu_pane" where
  "push_anchor abs_row pane =
     (let as = gp_prompt_anchors pane;
          as1 = (if as = [] \<or> last as \<noteq> abs_row then as @ [abs_row] else as) in
      pane\<lparr>gp_prompt_anchors := drop (length as1 - MAX_PROMPT_ANCHORS) as1\<rparr>)"

definition push_mark :: "nat \<Rightarrow> block_mark \<Rightarrow> gpu_pane \<Rightarrow> gpu_pane" where
  "push_mark pane_id m pane =
     (let ms = gp_marks pane @ [m];
          ms1 = (if MAX_SEMANTIC_MARKS < length ms then drop (MAX_SEMANTIC_MARKS div 4) ms else ms) in
      pane\<lparr>gp_marks := ms1, gp_blocks := extract_command_blocks pane_id ms1\<rparr>)"

definition mark_pane :: "nat \<Rightarrow> string \<Rightarrow> int option \<Rightarrow> gpu_pane \<Rightarrow> gpu_pane" where
  "mark_pane pane_id kind exit_code pane =
     (let abs_row = rb_len (gp_scrollback pane);
          pane1 = (if kind = ''A'' then push_anchor abs_row pane else pane) in
      case kind_from_ipc kind of
        None \<Rightarrow> pane1
      | Some parsed \<Rightarrow>
          push_mark pane_id \<lparr>bm_row = abs_row, bm_kind = parsed, bm_exit_code = exit_code\<rparr> pane1)"

section \<open>The state of the client\<close>

record search_state =
  ss_query :: rstr
  ss_is_active :: bool
  ss_current_match :: "nat option"

datatype alert_kind = BellAlert | NotificationAlert

record alert_entry =
  ae_seq :: nat
  ae_kind :: alert_kind
  ae_pane_id :: nat
  ae_title :: rstr
  ae_body :: rstr
  ae_created_at :: nat

record gpu_state =
  gs_panes :: "(nat \<times> gpu_pane) list"
  gs_focused_pane_id :: "nat option"
  gs_pane_layouts :: "(nat \<times> pane_layout) list"
  gs_cols :: nat
  gs_rows :: nat
  gs_workspace_actions :: "rstr list"
  gs_search :: search_state
  gs_scrollback_capacity :: nat
  gs_status_bar_text :: rstr
  gs_pending_bell :: bool
  gs_copy_mode :: copy_mode_state
  gs_mouse_sel :: mouse_selection
  gs_broadcast_mode :: bool
  gs_is_zoomed :: bool
  gs_quick_select :: quick_select_state
  gs_floating_pane_rects :: "(nat \<times> float_rect) list"
  gs_info_bars :: "info_bar list"
  gs_consent :: consent_state
  gs_current_workspace :: rstr
  gs_workspaces :: "(rstr \<times> bool) list"
  gs_pending_quake_action :: "rstr option"
  gs_tab_order :: "nat list"
  gs_focused_server_window_id :: nat
  gs_foreground_process_status :: "(nat \<times> bool) option"
  gs_alerts :: "alert_entry list"
  gs_next_alert_seq :: nat
  gs_selected_block :: "nat option"
  gs_named_blocks :: named_block_store
  gs_block_name_modal :: block_name_modal

definition gpu_state_new :: "nat \<Rightarrow> nat \<Rightarrow> nat \<Rightarrow> named_block_store \<Rightarrow> gpu_state" where
  "gpu_state_new cols rows scrollback_capacity names =
     \<lparr>gs_panes = [], gs_focused_pane_id = None, gs_pane_layouts = [], gs_cols = cols, gs_rows = rows,
      gs_workspace_actions = [],
      gs_search = \<lparr>ss_query = [], ss_is_active = False, ss_current_match = None\<rparr>,
      gs_scrollback_capacity = scrollback_capacity, gs_status_bar_text = [], gs_pending_bell = False,
      gs_copy_mode = copy_mode_new, gs_mouse_sel = mouse_selection_new, gs_broadcast_mode = False,
      gs_is_zoomed = False, gs_quick_select = quick_select_new, gs_floating_pane_rects = [],
      gs_info_bars = [], gs_consent = consent_init, gs_current_workspace = lit ''default'',
      gs_workspaces = [], gs_pending_quake_action = None, gs_tab_order = [],
      gs_focused_server_window_id = 0, gs_foreground_process_status = None, gs_alerts = [],
      gs_next_alert_seq = 0, gs_selected_block = None, gs_named_blocks = names,
      gs_block_name_modal = modal_default\<rparr>"

definition gpu_focused_pane :: "gpu_state \<Rightarrow> gpu_pane option" where
  "gpu_focused_pane c = Option.bind (gs_focused_pane_id c) (map_of (gs_panes c))"

text \<open>An update of a pane that exists, as through \<open>get_mut\<close>.\<close>

definition update_pane :: "nat \<Rightarrow> (gpu_pane \<Rightarrow> gpu_pane) \<Rightarrow> gpu_state \<Rightarrow> gpu_state" where
  "update_pane i f c =
     (case map_of (gs_panes c) i of
        None \<Rightarrow> c
      | Some pane \<Rightarrow> c\<lparr>gs_panes := AList.update i (f pane) (gs_panes c)\<rparr>)"

definition update_focused :: "(gpu_pane \<Rightarrow> gpu_pane) \<Rightarrow> gpu_state \<Rightarrow> gpu_state" where
  "update_focused f c = (case gs_focused_pane_id c of None \<Rightarrow> c | Some i \<Rightarrow> update_pane i f c)"

definition ALERTS_MAX_LEN :: nat where
  "ALERTS_MAX_LEN = 16"

definition ALERT_TTL :: nat where
  "ALERT_TTL = 5000"

definition add_alert :: "nat \<Rightarrow> alert_kind \<Rightarrow> nat \<Rightarrow> rstr \<Rightarrow> rstr \<Rightarrow> gpu_state \<Rightarrow> gpu_state" where
  "add_alert now kind pane_id title body c =
     (let alerts = gs_alerts c @ [\<lparr>ae_seq = gs_next_alert_seq c, ae_kind = kind, ae_pane_id = pane_id,
                      ae_title = title, ae_body = body, ae_created_at = now\<rparr>] in
      c\<lparr>gs_next_alert_seq := (gs_next_alert_seq c + 1) mod 2 ^ 64,
        gs_alerts := drop (length alerts - ALERTS_MAX_LEN) alerts\<rparr>)"

definition expire_alerts :: "nat \<Rightarrow> gpu_state \<Rightarrow> gpu_state \<times> nat" where
  "expire_alerts now c =
     (let alerts = dropWhile (\<lambda>a. ALERT_TTL \<le> now - ae_created_at a) (gs_alerts c) in
      (c\<lparr>gs_alerts := alerts\<rparr>, length (gs_alerts c) - length alerts))"

definition dismiss_alert :: "nat \<Rightarrow> gpu_state \<Rightarrow> gpu_state \<times> bool" where
  "dismiss_alert seq c =
     (let alerts = filter (\<lambda>a. ae_seq a \<noteq> seq) (gs_alerts c) in
      (c\<lparr>gs_alerts := alerts\<rparr>, length (gs_alerts c) \<noteq> length alerts))"

definition gpu_set_focused_pane :: "nat \<Rightarrow> gpu_state \<Rightarrow> gpu_state" where
  "gpu_set_focused_pane pane_id c =
     update_pane pane_id (\<lambda>p. p\<lparr>gp_has_activity := False\<rparr>) (c\<lparr>gs_focused_pane_id := Some pane_id\<rparr>)"

definition active_pane_ids :: "gpu_state \<Rightarrow> nat list" where
  "active_pane_ids c = map fst (filter (\<lambda>(_, p). gp_has_activity p) (gs_panes c))"

definition gpu_resize :: "nat \<Rightarrow> nat \<Rightarrow> gpu_state \<Rightarrow> gpu_state" where
  "gpu_resize cols rows c = c\<lparr>gs_cols := cols, gs_rows := rows\<rparr>"

text \<open>The actions of the palette for the workspaces, by their identifiers
  (\<open>build_workspace_actions\<close> of \<open>palette.rs\<close>).\<close>

definition workspace_actions :: "(rstr \<times> bool) list \<Rightarrow> rstr list" where
  "workspace_actions workspaces =
     map (\<lambda>(name, _). lit ''WorkspaceSwitch:'' @ name) (filter (\<lambda>(_, is_active). \<not> is_active) workspaces)
       @ [lit ''WorkspaceCreate'']"

definition refresh_workspace_palette_actions :: "gpu_state \<Rightarrow> gpu_state" where
  "refresh_workspace_palette_actions c = c\<lparr>gs_workspace_actions := workspace_actions (gs_workspaces c)\<rparr>"

definition prune_block_selection :: "gpu_state \<Rightarrow> gpu_state" where
  "prune_block_selection c =
     (case gs_selected_block c of
        None \<Rightarrow> c
      | Some i \<Rightarrow>
          if (case gpu_focused_pane c of None \<Rightarrow> False | Some p \<Rightarrow> find_block_by_id (gp_blocks p) i \<noteq> None)
          then c else c\<lparr>gs_selected_block := None\<rparr>)"

text \<open>A change of the capacity by a new configuration (\<open>renderer/event_handler/lifecycle.rs\<close>).\<close>

definition reload_scrollback :: "nat \<Rightarrow> gpu_state \<Rightarrow> gpu_state" where
  "reload_scrollback new_capacity c =
     c\<lparr>gs_panes := map (\<lambda>(i, p). (i, p\<lparr>gp_scrollback := set_capacity new_capacity (gp_scrollback p)\<rparr>)) (gs_panes c),
       gs_scrollback_capacity := new_capacity\<rparr>"

section \<open>The messages of the server\<close>

definition mark_activity :: "nat \<Rightarrow> gpu_state \<Rightarrow> gpu_pane \<Rightarrow> gpu_pane" where
  "mark_activity i c p = (if gs_focused_pane_id c = Some i then p else p\<lparr>gp_has_activity := True\<rparr>)"

definition show_int :: "int \<Rightarrow> rstr" where
  "show_int n = (if n < 0 then lit ''-'' @ dec (nat (- n)) else dec (nat n))"

primrec gpu_apply_server_message :: "nat \<Rightarrow> nat \<Rightarrow> server_msg \<Rightarrow> gpu_state \<Rightarrow> gpu_state option" where
  "gpu_apply_server_message now ms (FullRefresh i g) = (\<lambda>c.
     let st = (case map_of (gs_panes c) i of
                 None \<Rightarrow> gpu_pane_new (g_width g) (g_height g) (gs_scrollback_capacity c)
               | Some st \<Rightarrow> st);
         c1 = c\<lparr>gs_panes := AList.update i
               (st\<lparr>gp_grid := g, gp_cursor_col := g_cursor_col g, gp_cursor_row := g_cursor_row g,
                   gp_content_dirty := True\<rparr>) (gs_panes c)\<rparr> in
     Some (if gs_focused_pane_id c1 = None then c1\<lparr>gs_focused_pane_id := Some i\<rparr> else c1))"
| "gpu_apply_server_message now ms (GridDiff i d) = (\<lambda>c.
     case map_of (gs_panes c) i of
       None \<Rightarrow> Some c
     | Some pane \<Rightarrow> do {
         pane1 \<leftarrow> gpu_apply_diff (gd_dirty_rows d) (gd_cursor_col d) (gd_cursor_row d) pane;
         Some (c\<lparr>gs_panes := AList.update i (mark_activity i c pane1) (gs_panes c)\<rparr>)
       })"
| "gpu_apply_server_message now ms (ServerError message) = (\<lambda>c.
     Some (c\<lparr>gs_info_bars := fst (push_info_bar (ServerErrorBar message) now ms (gs_info_bars c))\<rparr>))"
| "gpu_apply_server_message now ms (LayoutChanged panes focused) = (\<lambda>c.
     let c1 = c\<lparr>gs_tab_order := map pl_pane_id panes,
                gs_pane_layouts := fold (\<lambda>l. AList.update (pl_pane_id l) l) panes [],
                gs_focused_pane_id := Some focused\<rparr> in
     Some (update_pane focused (\<lambda>p. p\<lparr>gp_has_activity := False\<rparr>) c1))"
| "gpu_apply_server_message now ms (Bell i) = (\<lambda>c.
     Some (add_alert now BellAlert i (lit ''Bell'') [] (c\<lparr>gs_pending_bell := True\<rparr>)))"
| "gpu_apply_server_message now ms (TitleChanged i title) = (\<lambda>c.
     Some (update_pane i (\<lambda>p. p\<lparr>gp_title := title\<rparr>) c))"
| "gpu_apply_server_message now ms (PointerShapeChanged i shape) = (\<lambda>c.
     Some (update_pane i (\<lambda>p. p\<lparr>gp_pointer_shape := (if shape = lit ''default'' then None else Some shape)\<rparr>) c))"
| "gpu_apply_server_message now ms (ProgressChanged i st progress) = (\<lambda>c.
     Some (update_pane i (\<lambda>p. p\<lparr>gp_progress := (if st = 0 then None else Some (st, progress))\<rparr>) c))"
| "gpu_apply_server_message now ms (PaneColorsChanged i co) = (\<lambda>c.
     Some (update_pane i (\<lambda>p. p\<lparr>gp_color_overrides := co, gp_content_dirty := True\<rparr>) c))"
| "gpu_apply_server_message now ms (DesktopNotification i title body) = Some"
| "gpu_apply_server_message now ms (ClipboardWriteRequest i t) = Some"
| "gpu_apply_server_message now ms (CwdChanged i cwd) = (\<lambda>c.
     Some (update_pane i (\<lambda>p. p\<lparr>gp_cwd := Some cwd\<rparr>) c))"
| "gpu_apply_server_message now ms (SemanticMarkSent i row kind exit_code) = (\<lambda>c.
     let c1 = update_pane i (mark_pane i kind exit_code) c;
         c2 = (case exit_code of
                 None \<Rightarrow> c1
               | Some code \<Rightarrow>
                   if kind = ''D'' \<and> gs_focused_pane_id c1 = Some i
                   then c1\<lparr>gs_status_bar_text := (if code \<noteq> 0 then lit ''[exit: '' @ show_int code @ lit '']'' else [])\<rparr>
                   else c1) in
     Some (prune_block_selection c2))"
| "gpu_apply_server_message now ms (ImagePlaced i im) = (\<lambda>c.
     Some (update_pane i (\<lambda>p. mark_activity i c
       (p\<lparr>gp_images := AList.update (pi_id im) im (gp_images p)\<rparr>)) c))"
| "gpu_apply_server_message now ms (TextSized i ev) = (\<lambda>c.
     Some (update_pane i (\<lambda>p. p\<lparr>gp_text_sizes := gp_text_sizes p @ [ev]\<rparr>) c))"
| "gpu_apply_server_message now ms (PaneClosed i) = Some"
| "gpu_apply_server_message now ms (SessionList sessions) = Some"
| "gpu_apply_server_message now ms Pong = Some"
| "gpu_apply_server_message now ms (WindowListChanged windows) = (\<lambda>c.
     Some (case List.find wi_is_focused windows of
             None \<Rightarrow> c
           | Some w \<Rightarrow> c\<lparr>gs_focused_server_window_id := wi_window_id w\<rparr>))"
| "gpu_apply_server_message now ms (ProcessChanged i name) = (\<lambda>c.
     Some (update_pane i (\<lambda>p. p\<lparr>gp_process_name := name\<rparr>) c))"
| "gpu_apply_server_message now ms (BroadcastModeChanged enabled) = (\<lambda>c. Some (c\<lparr>gs_broadcast_mode := enabled\<rparr>))"
| "gpu_apply_server_message now ms (ZoomChanged is_zoomed) = (\<lambda>c. Some (c\<lparr>gs_is_zoomed := is_zoomed\<rparr>))"
| "gpu_apply_server_message now ms (PaneBroken w i) = Some"
| "gpu_apply_server_message now ms (SerialConnected i port) = Some"
| "gpu_apply_server_message now ms (FloatingPaneOpened i rect) = (\<lambda>c.
     Some (c\<lparr>gs_floating_pane_rects := AList.update i rect (gs_floating_pane_rects c)\<rparr>))"
| "gpu_apply_server_message now ms (FloatingPaneMoved i rect) = (\<lambda>c.
     Some (c\<lparr>gs_floating_pane_rects := AList.update i rect (gs_floating_pane_rects c)\<rparr>))"
| "gpu_apply_server_message now ms (FloatingPaneClosed i) = (\<lambda>c.
     Some (c\<lparr>gs_floating_pane_rects := AList.delete i (gs_floating_pane_rects c)\<rparr>))"
| "gpu_apply_server_message now ms (WorkspaceList current workspaces) = (\<lambda>c.
     Some (refresh_workspace_palette_actions
       (c\<lparr>gs_current_workspace := current,
          gs_workspaces := map (\<lambda>w. (ki_name w, ki_is_active w)) workspaces\<rparr>)))"
| "gpu_apply_server_message now ms (WorkspaceSwitched name) = (\<lambda>c.
     Some (refresh_workspace_palette_actions
       (c\<lparr>gs_workspaces := map (\<lambda>(ws_name, _). (ws_name, ws_name = name)) (gs_workspaces c),
          gs_current_workspace := name\<rparr>)))"
| "gpu_apply_server_message now ms (QuakeToggleRequest action) = (\<lambda>c.
     Some (c\<lparr>gs_pending_quake_action := Some action\<rparr>))"
| "gpu_apply_server_message now ms (HelloAck proto version) = Some"
| "gpu_apply_server_message now ms (ForegroundProcessStatus w has_foreground) = (\<lambda>c.
     Some (c\<lparr>gs_foreground_process_status := Some (w, has_foreground)\<rparr>))"

section \<open>Scrolling and prompts\<close>

definition gpu_scroll_up :: "nat \<Rightarrow> gpu_state \<Rightarrow> gpu_state" where
  "gpu_scroll_up lines =
     update_focused (\<lambda>p. p\<lparr>gp_scroll_offset := min (gp_scroll_offset p + lines) (rb_len (gp_scrollback p) - 1)\<rparr>)"

definition gpu_scroll_down :: "nat \<Rightarrow> gpu_state \<Rightarrow> gpu_state" where
  "gpu_scroll_down lines = update_focused (\<lambda>p. p\<lparr>gp_scroll_offset := gp_scroll_offset p - lines\<rparr>)"

definition prev_prompt_target :: "gpu_pane \<Rightarrow> nat option" where
  "prev_prompt_target p =
     List.find (\<lambda>idx. gp_scroll_offset p < idx \<and> idx \<le> rb_len (gp_scrollback p) - 1)
       (rev (gp_prompt_anchors p))"

definition jump_prev_prompt :: "gpu_state \<Rightarrow> gpu_state \<times> bool" where
  "jump_prev_prompt c =
     (case gpu_focused_pane c of
        None \<Rightarrow> (c, False)
      | Some p \<Rightarrow>
          case prev_prompt_target p of
            Some idx \<Rightarrow> (update_focused (\<lambda>p. p\<lparr>gp_scroll_offset := idx\<rparr>) c, True)
          | None \<Rightarrow> (c, False))"

definition jump_next_prompt :: "gpu_state \<Rightarrow> gpu_state \<times> bool" where
  "jump_next_prompt c =
     (case gpu_focused_pane c of
        None \<Rightarrow> (c, False)
      | Some p \<Rightarrow>
          case List.find (\<lambda>idx. idx < gp_scroll_offset p) (rev (gp_prompt_anchors p)) of
            Some idx \<Rightarrow> (update_focused (\<lambda>p. p\<lparr>gp_scroll_offset := idx\<rparr>) c, True)
          | None \<Rightarrow>
              if 0 < gp_scroll_offset p \<and> gp_prompt_anchors p \<noteq> []
              then (update_focused (\<lambda>p. p\<lparr>gp_scroll_offset := 0\<rparr>) c, True)
              else (c, False))"

section \<open>The search\<close>

definition start_search :: "gpu_state \<Rightarrow> gpu_state" where
  "start_search c = c\<lparr>gs_search := \<lparr>ss_query = [], ss_is_active = True, ss_current_match = None\<rparr>\<rparr>"

definition show_match :: "nat option \<Rightarrow> gpu_state \<Rightarrow> gpu_state" where
  "show_match result c =
     (let c1 = c\<lparr>gs_search := (gs_search c)\<lparr>ss_current_match := result\<rparr>\<rparr> in
      case result of
        None \<Rightarrow> c1
      | Some row \<Rightarrow> update_focused (\<lambda>p. p\<lparr>gp_scroll_offset := row\<rparr>) c1)"

definition search_next_from ::
    "(rstr \<Rightarrow> 're option) \<Rightarrow> ('re \<Rightarrow> rstr \<Rightarrow> bool) \<Rightarrow> nat \<Rightarrow> gpu_state \<Rightarrow> gpu_state" where
  "search_next_from regex_new is_match from_row c =
     show_match (Option.bind (gpu_focused_pane c)
       (\<lambda>p. search_next regex_new is_match (ss_query (gs_search c)) from_row (gp_scrollback p))) c"

definition push_search_char ::
    "(rstr \<Rightarrow> 're option) \<Rightarrow> ('re \<Rightarrow> rstr \<Rightarrow> bool) \<Rightarrow> uchar \<Rightarrow> gpu_state \<Rightarrow> gpu_state" where
  "push_search_char regex_new is_match ch c =
     search_next_from regex_new is_match 0
       (c\<lparr>gs_search := (gs_search c)\<lparr>ss_query := ss_query (gs_search c) @ [ch]\<rparr>\<rparr>)"

definition pop_search_char ::
    "(rstr \<Rightarrow> 're option) \<Rightarrow> ('re \<Rightarrow> rstr \<Rightarrow> bool) \<Rightarrow> gpu_state \<Rightarrow> gpu_state" where
  "pop_search_char regex_new is_match c =
     search_next_from regex_new is_match 0
       (c\<lparr>gs_search := (gs_search c)\<lparr>ss_query := butlast (ss_query (gs_search c))\<rparr>\<rparr>)"

definition gpu_search_next ::
    "(rstr \<Rightarrow> 're option) \<Rightarrow> ('re \<Rightarrow> rstr \<Rightarrow> bool) \<Rightarrow> gpu_state \<Rightarrow> gpu_state" where
  "gpu_search_next regex_new is_match c =
     search_next_from regex_new is_match
       (case ss_current_match (gs_search c) of None \<Rightarrow> 0 | Some m \<Rightarrow> m + 1) c"

definition gpu_search_prev ::
    "(rstr \<Rightarrow> 're option) \<Rightarrow> ('re \<Rightarrow> rstr \<Rightarrow> bool) \<Rightarrow> gpu_state \<Rightarrow> gpu_state" where
  "gpu_search_prev regex_new is_match c =
     show_match (Option.bind (gpu_focused_pane c)
       (\<lambda>p. search_prev regex_new is_match (ss_query (gs_search c))
          (case ss_current_match (gs_search c) of None \<Rightarrow> 0 | Some m \<Rightarrow> m) (gp_scrollback p))) c"

definition end_search :: "gpu_state \<Rightarrow> gpu_state" where
  "end_search c =
     update_focused (\<lambda>p. p\<lparr>gp_scroll_offset := 0\<rparr>)
       (c\<lparr>gs_search := \<lparr>ss_query = [], ss_is_active = False, ss_current_match = None\<rparr>\<rparr>)"

end
