(* ===== verification/Block_Ui.thy ===== *)
theory Block_Ui
  imports Gpu_State
begin

text \<open>
  The operations of the user on command blocks
  (\<open>nexterm-client-gpu/src/state/blocks.rs\<close>): selection, names, collapsing, jumping, the text
  of a block and the command to run again.  Saving the names to disk is not part of the model.
\<close>

definition cells_to_string :: "cell list \<Rightarrow> rstr" where
  "cells_to_string line = trim_end (map cell_ch line)"

definition extract_rows :: "gpu_pane \<Rightarrow> nat \<Rightarrow> nat \<Rightarrow> rstr option" where
  "extract_rows pane start_row end_row =
     (if end_row < start_row then None
      else let lines = map cells_to_string
                 (List.map_filter (get_line (gp_scrollback pane)) [start_row..<end_row + 1]) in
        if lines = [] then None else Some (join_with 10 lines))"

definition selected_command_block :: "gpu_state \<Rightarrow> command_block option" where
  "selected_command_block c = do {
     pane \<leftarrow> gpu_focused_pane c;
     i \<leftarrow> gs_selected_block c;
     find_block_by_id (gp_blocks pane) i
   }"

definition select_next_block :: "gpu_state \<Rightarrow> gpu_state \<times> nat option" where
  "select_next_block c =
     (case gpu_focused_pane c of
        None \<Rightarrow> (c, None)
      | Some pane \<Rightarrow>
          let nxt = next_block_id (gp_blocks pane) (gs_selected_block c) in
          (if nxt \<noteq> None then c\<lparr>gs_selected_block := nxt\<rparr> else c, nxt))"

definition select_prev_block :: "gpu_state \<Rightarrow> gpu_state \<times> nat option" where
  "select_prev_block c =
     (case gpu_focused_pane c of
        None \<Rightarrow> (c, None)
      | Some pane \<Rightarrow>
          let prv = prev_block_id (gp_blocks pane) (gs_selected_block c) in
          (if prv \<noteq> None then c\<lparr>gs_selected_block := prv\<rparr> else c, prv))"

definition set_selected_block_name :: "int \<Rightarrow> rstr \<Rightarrow> gpu_state \<Rightarrow> gpu_state \<times> bool" where
  "set_selected_block_name now name c =
     (case gs_selected_block c of
        None \<Rightarrow> (c, False)
      | Some i \<Rightarrow>
          let (names, changed) = names_set now i name (gs_named_blocks c) in
          (c\<lparr>gs_named_blocks := names\<rparr>, changed))"

definition remove_block_name_by_id :: "nat \<Rightarrow> gpu_state \<Rightarrow> gpu_state \<times> bool" where
  "remove_block_name_by_id i c =
     (let (names, changed) = names_remove i (gs_named_blocks c) in
      (c\<lparr>gs_named_blocks := names\<rparr>, changed))"

definition remove_selected_block_name :: "gpu_state \<Rightarrow> gpu_state \<times> bool" where
  "remove_selected_block_name c =
     (case gs_selected_block c of
        None \<Rightarrow> (c, False)
      | Some i \<Rightarrow>
          let (names, changed) = names_remove i (gs_named_blocks c) in
          (c\<lparr>gs_named_blocks := names\<rparr>, changed))"

definition selected_block_name :: "gpu_state \<Rightarrow> rstr option" where
  "selected_block_name c = Option.bind (gs_selected_block c) (\<lambda>i. names_get i (gs_named_blocks c))"

definition collect_named_block_palette_entries :: "gpu_state \<Rightarrow> (nat \<times> rstr) list" where
  "collect_named_block_palette_entries c =
     (case gpu_focused_pane c of
        None \<Rightarrow> []
      | Some pane \<Rightarrow>
          if gp_blocks pane = [] \<or> gs_named_blocks c = [] then []
          else List.map_filter (\<lambda>b. map_option (Pair (cb_id b)) (names_get (cb_id b) (gs_named_blocks c)))
                 (gp_blocks pane))"

definition jump_to_block :: "nat \<Rightarrow> gpu_state \<Rightarrow> gpu_state \<times> bool" where
  "jump_to_block i c =
     (case gpu_focused_pane c of
        None \<Rightarrow> (c, False)
      | Some pane \<Rightarrow>
          case find_block_by_id (gp_blocks pane) i of
            None \<Rightarrow> (c, False)
          | Some block \<Rightarrow>
              let offset = (if rb_len (gp_scrollback pane) \<le> cb_prompt_row block then 0 else cb_prompt_row block) in
              ((update_focused (\<lambda>p. p\<lparr>gp_scroll_offset := offset\<rparr>) c)\<lparr>gs_selected_block := Some i\<rparr>, True))"

definition select_block_by_id :: "nat \<Rightarrow> gpu_state \<Rightarrow> gpu_state \<times> bool" where
  "select_block_by_id i c =
     (if gs_selected_block c = Some i then (c, False)
      else if (case gpu_focused_pane c of
                 None \<Rightarrow> False
               | Some p \<Rightarrow> list_ex (\<lambda>b. cb_id b = i) (gp_blocks p))
      then (c\<lparr>gs_selected_block := Some i\<rparr>, True)
      else (c, False))"

text \<open>The first block with the id, and its flag flipped.\<close>

fun flip_collapsed :: "nat \<Rightarrow> command_block list \<Rightarrow> command_block list" where
  "flip_collapsed i [] = []"
| "flip_collapsed i (b # bs) =
     (if cb_id b = i then b\<lparr>cb_collapsed := \<not> cb_collapsed b\<rparr> # bs else b # flip_collapsed i bs)"

definition toggle_block_collapse_by_id :: "nat \<Rightarrow> gpu_state \<Rightarrow> gpu_state \<times> bool" where
  "toggle_block_collapse_by_id i c =
     (case gpu_focused_pane c of
        None \<Rightarrow> (c, False)
      | Some pane \<Rightarrow>
          case find_block_by_id (gp_blocks pane) i of
            None \<Rightarrow> (c, False)
          | Some block \<Rightarrow>
              if cb_end_row block = None then (c, False)
              else (update_focused (\<lambda>p. p\<lparr>gp_blocks := flip_collapsed i (gp_blocks p), gp_content_dirty := True\<rparr>) c, True))"

definition toggle_selected_block_collapse :: "gpu_state \<Rightarrow> gpu_state \<times> bool" where
  "toggle_selected_block_collapse c =
     (case gs_selected_block c of
        None \<Rightarrow> (c, False)
      | Some i \<Rightarrow> toggle_block_collapse_by_id i c)"

definition block_text :: "gpu_pane \<Rightarrow> command_block \<Rightarrow> rstr option" where
  "block_text pane block =
     (let end_row = (case cb_end_row block of Some e \<Rightarrow> e | None \<Rightarrow> rb_len (gp_scrollback pane) - 1) in
      extract_rows pane (cb_prompt_row block) end_row)"

definition block_text_by_id :: "nat \<Rightarrow> gpu_state \<Rightarrow> rstr option" where
  "block_text_by_id i c = do {
     pane \<leftarrow> gpu_focused_pane c;
     block \<leftarrow> find_block_by_id (gp_blocks pane) i;
     block_text pane block
   }"

definition selected_block_text :: "gpu_state \<Rightarrow> rstr option" where
  "selected_block_text c = do {
     pane \<leftarrow> gpu_focused_pane c;
     i \<leftarrow> gs_selected_block c;
     block \<leftarrow> find_block_by_id (gp_blocks pane) i;
     block_text pane block
   }"

definition block_replay :: "gpu_pane \<Rightarrow> command_block \<Rightarrow> rstr option" where
  "block_replay pane block =
     (let (start, end_inclusive) =
            (if cb_command_row block = cb_output_row block
             then (cb_command_row block, cb_command_row block)
             else (cb_command_row block, cb_output_row block - 1)) in
      Option.bind (extract_rows pane start end_inclusive) sanitize_replay_command)"

definition block_replay_command_by_id :: "nat \<Rightarrow> gpu_state \<Rightarrow> rstr option" where
  "block_replay_command_by_id i c = do {
     pane \<leftarrow> gpu_focused_pane c;
     block \<leftarrow> find_block_by_id (gp_blocks pane) i;
     block_replay pane block
   }"

definition selected_block_replay_command :: "gpu_state \<Rightarrow> rstr option" where
  "selected_block_replay_command c = do {
     pane \<leftarrow> gpu_focused_pane c;
     i \<leftarrow> gs_selected_block c;
     block \<leftarrow> find_block_by_id (gp_blocks pane) i;
     block_replay pane block
   }"

definition open_block_name_modal_for :: "nat \<Rightarrow> gpu_state \<Rightarrow> gpu_state \<times> bool" where
  "open_block_name_modal_for i c =
     (case gpu_focused_pane c of
        None \<Rightarrow> (c, False)
      | Some pane \<Rightarrow>
          if list_ex (\<lambda>b. cb_id b = i) (gp_blocks pane)
          then (c\<lparr>gs_block_name_modal :=
                    modal_open_for i (names_get i (gs_named_blocks c)) (gs_block_name_modal c)\<rparr>, True)
          else (c, False))"

definition open_block_name_modal :: "gpu_state \<Rightarrow> gpu_state \<times> bool" where
  "open_block_name_modal c =
     (case selected_command_block c of
        None \<Rightarrow> (c, False)
      | Some b \<Rightarrow>
          (c\<lparr>gs_block_name_modal :=
              modal_open_for (cb_id b) (names_get (cb_id b) (gs_named_blocks c)) (gs_block_name_modal c)\<rparr>, True))"

definition commit_block_name_modal :: "int \<Rightarrow> gpu_state \<Rightarrow> gpu_state \<times> bool" where
  "commit_block_name_modal now c =
     (case bn_target_block (gs_block_name_modal c) of
        None \<Rightarrow> (c\<lparr>gs_block_name_modal := modal_close (gs_block_name_modal c)\<rparr>, False)
      | Some i \<Rightarrow>
          let (m, name) = modal_take_input (gs_block_name_modal c);
              (names, changed) = names_set now i name (gs_named_blocks c) in
          (c\<lparr>gs_named_blocks := names, gs_block_name_modal := modal_close m\<rparr>, changed))"

end
