(* ===== verification/Block_Facts.thy ===== *)
theory Block_Facts
  imports Command_Blocks
begin

text \<open>
  Facts on command blocks: the fold over the marks against a definition by runs of marks, the
  order of the rows, identifiers, navigation, the rows that are drawn and clicked, and the
  characters of a command that may be run again.
\<close>

section \<open>Blocks by runs of marks\<close>

abbreviation not_prompt :: "block_mark \<Rightarrow> bool" where
  "not_prompt m \<equiv> bm_kind m \<noteq> PromptMark"

text \<open>Each prompt mark with the marks up to the next one.\<close>

fun prompt_runs :: "block_mark list \<Rightarrow> (block_mark \<times> block_mark list) list" where
  "prompt_runs [] = []"
| "prompt_runs (m # ms) =
     (if not_prompt m then prompt_runs ms else (m, takeWhile not_prompt ms) # prompt_runs ms)"

definition last_row :: "nat \<Rightarrow> block_mark list \<Rightarrow> nat" where
  "last_row r ms = (if ms = [] then r else bm_row (last ms))"

text \<open>The block of a run: the marks before the first end mark count, and the end mark closes.\<close>

definition block_of_run :: "nat \<Rightarrow> block_mark \<times> block_mark list \<Rightarrow> command_block" where
  "block_of_run pane_id = (\<lambda>(m, ms).
     let live = takeWhile (\<lambda>x. bm_kind x \<noteq> EndMark) ms;
         ends = dropWhile (\<lambda>x. bm_kind x \<noteq> EndMark) ms in
     \<lparr>cb_id = make_block_id pane_id (bm_row m), cb_pane_id = pane_id, cb_prompt_row = bm_row m,
      cb_command_row = last_row (bm_row m) (filter (\<lambda>x. bm_kind x = CommandMark) live),
      cb_output_row = last_row (bm_row m) (filter (\<lambda>x. bm_kind x \<in> {CommandMark, OutputMark}) live),
      cb_end_row = map_option bm_row (lget ends 0),
      cb_exit_code = Option.bind (lget ends 0) bm_exit_code,
      cb_collapsed = False\<rparr>)"

text \<open>What the marks after a prompt do to the open block.\<close>

fun run_block :: "block_mark list \<Rightarrow> command_block \<Rightarrow> command_block" where
  "run_block [] b = b"
| "run_block (m # ms) b =
     (case bm_kind m of
        PromptMark \<Rightarrow> b
      | CommandMark \<Rightarrow> run_block ms (b\<lparr>cb_command_row := bm_row m, cb_output_row := bm_row m\<rparr>)
      | OutputMark \<Rightarrow> run_block ms (b\<lparr>cb_output_row := bm_row m\<rparr>)
      | EndMark \<Rightarrow> b\<lparr>cb_end_row := Some (bm_row m), cb_exit_code := bm_exit_code m\<rparr>)"

lemma last_row_simps [simp]:
  "last_row r [] = r" "last_row r (m # ms) = last_row (bm_row m) ms"
  by (simp_all add: last_row_def)

lemma run_block_eq:
  assumes "list_all not_prompt ms" "cb_end_row b = None" "cb_exit_code b = None"
  shows "run_block ms b =
    (let live = takeWhile (\<lambda>x. bm_kind x \<noteq> EndMark) ms;
         ends = dropWhile (\<lambda>x. bm_kind x \<noteq> EndMark) ms in
     b\<lparr>cb_command_row := last_row (cb_command_row b) (filter (\<lambda>x. bm_kind x = CommandMark) live),
       cb_output_row := last_row (cb_output_row b) (filter (\<lambda>x. bm_kind x \<in> {CommandMark, OutputMark}) live),
       cb_end_row := map_option bm_row (lget ends 0),
       cb_exit_code := Option.bind (lget ends 0) bm_exit_code\<rparr>)"
  using assms
proof (induction ms arbitrary: b)
  case Nil
  then show ?case by simp
next
  case (Cons m ms)
  then show ?case by (cases "bm_kind m") (simp_all add: Let_def)
qed

lemma run_block_open:
  "list_all not_prompt ms \<Longrightarrow> run_block ms (open_block pane_id (bm_row m)) = block_of_run pane_id (m, ms)"
  by (simp add: run_block_eq block_of_run_def open_block_def Let_def)

definition extract_finish :: "command_block list \<times> command_block option \<Rightarrow> command_block list" where
  "extract_finish = (\<lambda>(blocks, current). blocks @ (case current of None \<Rightarrow> [] | Some b \<Rightarrow> [b]))"

lemma list_all_takeWhile [simp]: "list_all P (takeWhile P xs)"
  by (induction xs) auto

lemma extract_fold:
  "extract_finish (fold (extract_step p) ms (bs, None)) = bs @ map (block_of_run p) (prompt_runs ms)
   \<and> extract_finish (fold (extract_step p) ms (bs, Some b)) =
       bs @ run_block (takeWhile not_prompt ms) b # map (block_of_run p) (prompt_runs ms)"
proof (induction ms arbitrary: bs b)
  case Nil
  then show ?case by (simp add: extract_finish_def)
next
  case (Cons m ms)
  then show ?case
    by (cases "bm_kind m") (simp_all add: extract_step_def run_block_open)
qed

lemma extract_runs: "extract_command_blocks p ms = map (block_of_run p) (prompt_runs ms)"
  using extract_fold [THEN conjunct1, of p ms "[]"]
  by (cases "fold (extract_step p) ms ([], None)")
    (simp add: extract_command_blocks_def extract_finish_def split: option.splits)

section \<open>The order of the rows\<close>

lemma prompt_runs_split:
  "(m, run) \<in> set (prompt_runs ms) \<Longrightarrow> \<exists>pre post. ms = pre @ m # run @ post \<and> bm_kind m = PromptMark"
proof (induction ms)
  case (Cons k ks)
  show ?case
  proof (cases "(m, run) \<in> set (prompt_runs ks)")
    case True
    with Cons.IH obtain pre post where "ks = pre @ m # run @ post" "bm_kind m = PromptMark" by blast
    then show ?thesis by (intro exI [of _ "k # pre"] exI [of _ post]) simp
  next
    case False
    with Cons.prems have "m = k" "run = takeWhile not_prompt ks" "bm_kind m = PromptMark"
      by (auto split: if_splits)
    then show ?thesis
      by (intro exI [of _ "[]"] exI [of _ "dropWhile not_prompt ks"]) simp
  qed
qed simp

lemma last_row_in: "last_row r ms \<in> insert r (bm_row ` set ms)"
  by (auto simp: last_row_def)

lemma last_row_mono:
  assumes "sorted (map bm_row ms)" "\<forall>m \<in> set ms. r \<le> bm_row m" "\<And>m. P m \<Longrightarrow> Q m"
  shows "last_row r (filter P ms) \<le> last_row r (filter Q ms) \<and> r \<le> last_row r (filter P ms)"
  using assms(1,2)
proof (induction ms arbitrary: r)
  case (Cons m ms)
  then have "last_row (bm_row m) (filter P ms) \<le> last_row (bm_row m) (filter Q ms)"
    "bm_row m \<le> last_row (bm_row m) (filter P ms)" "last_row r (filter P ms) \<le> last_row r (filter Q ms)"
    "r \<le> last_row r (filter P ms)" by auto
  moreover have "last_row r (filter P ms) \<le> last_row (bm_row m) (filter Q ms)"
    if "\<not> P m" "Q m"
  proof (cases "filter P ms = []")
    case True
    then show ?thesis using Cons.prems(2) last_row_in [of "bm_row m" "filter Q ms"] Cons.prems(1) by auto
  next
    case False
    then have "last_row r (filter P ms) = last_row (bm_row m) (filter P ms)" by (simp add: last_row_def)
    with calculation(1) show ?thesis by simp
  qed
  ultimately show ?case using assms(3) [of m] Cons.prems(2) by (auto intro: order_trans)
qed simp

lemma first_dropped: "lget (dropWhile P xs) 0 = Some d \<Longrightarrow> d \<in> set (dropWhile P xs) \<and> d \<in> set xs"
  by (induction xs) (auto simp: lget_def split: if_splits)

text \<open>The rows of a block follow each other when the marks do.\<close>

definition rows_ordered :: "command_block \<Rightarrow> bool" where
  "rows_ordered b \<longleftrightarrow> cb_prompt_row b \<le> cb_command_row b \<and> cb_command_row b \<le> cb_output_row b
     \<and> (\<forall>e. cb_end_row b = Some e \<longrightarrow> cb_output_row b \<le> e)"

lemma block_of_run_ordered:
  assumes "sorted (map bm_row (m # run))"
  shows "rows_ordered (block_of_run p (m, run))"
proof -
  let ?live = "takeWhile (\<lambda>x. bm_kind x \<noteq> EndMark) run"
  let ?ends = "dropWhile (\<lambda>x. bm_kind x \<noteq> EndMark) run"
  have s: "sorted (map bm_row (m # ?live @ ?ends))" using assms by simp
  then have "sorted (map bm_row ?live)" "\<forall>x \<in> set ?live. bm_row m \<le> bm_row x"
    by (auto simp: sorted_append simp del: takeWhile_dropWhile_id)
  from last_row_mono [OF this, of "\<lambda>x. bm_kind x = CommandMark" "\<lambda>x. bm_kind x \<in> {CommandMark, OutputMark}"]
  have 1: "last_row (bm_row m) (filter (\<lambda>x. bm_kind x = CommandMark) ?live)
      \<le> last_row (bm_row m) (filter (\<lambda>x. bm_kind x \<in> {CommandMark, OutputMark}) ?live)"
    "bm_row m \<le> last_row (bm_row m) (filter (\<lambda>x. bm_kind x = CommandMark) ?live)" by blast+
  have 2: "last_row (bm_row m) (filter (\<lambda>x. bm_kind x \<in> {CommandMark, OutputMark}) ?live) \<le> bm_row d"
    if "lget ?ends 0 = Some d" for d
  proof -
    have "d \<in> set ?ends" using first_dropped [OF that] by simp
    then have "\<forall>x \<in> set (m # ?live). bm_row x \<le> bm_row d"
      using s by (auto simp: sorted_append simp del: takeWhile_dropWhile_id)
    then show ?thesis
      using last_row_in [of "bm_row m" "filter (\<lambda>x. bm_kind x \<in> {CommandMark, OutputMark}) ?live"] by auto
  qed
  show ?thesis using 1 2 by (auto simp: rows_ordered_def block_of_run_def Let_def)
qed

text \<open>Blocks do not overlap: the last row a block knows is not after the next prompt.\<close>

definition block_last :: "command_block \<Rightarrow> nat" where
  "block_last b = (case cb_end_row b of None \<Rightarrow> cb_output_row b | Some e \<Rightarrow> e)"

lemma prompt_runs_heads: "(m, run) \<in> set (prompt_runs ms) \<Longrightarrow> m \<in> set ms \<and> set run \<subseteq> set ms"
  using prompt_runs_split by fastforce

lemma block_last_in:
  "block_last (block_of_run p (m, run)) \<in> insert (bm_row m) (bm_row ` set run)"
proof -
  let ?out = "filter (\<lambda>x. bm_kind x \<in> {CommandMark, OutputMark}) (takeWhile (\<lambda>x. bm_kind x \<noteq> EndMark) run)"
  have "set ?out \<subseteq> set run" by (auto dest: set_takeWhileD)
  then have out: "last_row (bm_row m) ?out \<in> insert (bm_row m) (bm_row ` set run)"
    using last_row_in [of "bm_row m" ?out] by blast
  show ?thesis
  proof (cases "lget (dropWhile (\<lambda>x. bm_kind x \<noteq> EndMark) run) 0")
    case None
    with out show ?thesis by (simp add: block_last_def block_of_run_def Let_def)
  next
    case (Some d)
    with first_dropped [OF Some] show ?thesis by (simp add: block_last_def block_of_run_def Let_def)
  qed
qed

lemma blocks_disjoint:
  assumes "sorted (map bm_row ms)"
  shows "sorted_wrt (\<lambda>a b. block_last a \<le> cb_prompt_row b) (extract_command_blocks p ms)"
  using assms unfolding extract_runs
proof (induction ms)
  case (Cons m ms)
  have "block_last (block_of_run p (m, takeWhile not_prompt ms)) \<le> bm_row k"
    if "(k, run) \<in> set (prompt_runs ms)" for k run
  proof -
    from prompt_runs_split [OF that] obtain pre post where k: "ms = pre @ k # run @ post" "bm_kind k = PromptMark"
      by blast
    have "set (takeWhile not_prompt ms) \<subseteq> set pre"
      unfolding k(1) using k(2) by (auto simp: takeWhile_append dest: set_takeWhileD split: if_splits)
    moreover have "\<forall>x \<in> insert m (set pre). bm_row x \<le> bm_row k"
      using Cons.prems unfolding k(1) by (auto simp: sorted_append)
    ultimately show ?thesis using block_last_in [of p m "takeWhile not_prompt ms"] by auto
  qed
  moreover have "cb_prompt_row (block_of_run p (k, run)) = bm_row k" for k run
    by (simp add: block_of_run_def Let_def)
  ultimately show ?case using Cons by auto
qed simp

lemma blocks_ordered:
  assumes "sorted (map bm_row ms)" "b \<in> set (extract_command_blocks p ms)"
  shows "rows_ordered b"
proof -
  from assms(2) obtain m run where b: "b = block_of_run p (m, run)" "(m, run) \<in> set (prompt_runs ms)"
    by (auto simp: extract_runs)
  from prompt_runs_split [OF b(2)] assms(1) have "sorted (map bm_row (m # run))"
    by (auto simp: sorted_append)
  then show ?thesis unfolding b(1) by (rule block_of_run_ordered)
qed

section \<open>Identifiers and navigation\<close>

lemma make_block_id_add: "make_block_id p r = p * 4294967296 + wrap32 r"
proof -
  have "push_bit 32 p + wrap32 r = push_bit 32 p OR wrap32 r"
  proof (rule disjunctive_add)
    fix n
    have "wrap32 r = take_bit 32 r" by (simp add: wrap32_def take_bit_eq_mod)
    then show "\<not> bit (push_bit 32 p) n \<or> \<not> bit (wrap32 r) n"
      by (auto simp: bit_push_bit_iff bit_take_bit_iff)
  qed
  then show ?thesis by (simp add: make_block_id_def push_bit_eq_mult mult.commute)
qed

lemma make_block_id_inj: "make_block_id p r = make_block_id q t \<longleftrightarrow> p = q \<and> wrap32 r = wrap32 t"
proof
  assume "make_block_id p r = make_block_id q t"
  then have e: "wrap32 r + 4294967296 * p = wrap32 t + 4294967296 * q"
    unfolding make_block_id_add by (simp add: algebra_simps)
  have "p = q" using arg_cong [OF e, of "\<lambda>n. n div 4294967296"] by simp
  with e show "p = q \<and> wrap32 r = wrap32 t" by simp
qed (simp add: make_block_id_add)

lemma position_nth:
  assumes "distinct (map f xs)" "i < length xs"
  shows "position (\<lambda>x. f x = f (xs ! i)) xs = Some i"
proof -
  have "takeWhile (\<lambda>x. f x \<noteq> f (xs ! i)) xs = take i xs"
  proof (rule takeWhile_eq_take_P_nth)
    fix j
    assume "j < i" "j < length xs"
    then show "f (xs ! j) \<noteq> f (xs ! i)" using nth_eq_iff_index_eq [OF assms(1), of j i] assms(2) by simp
  qed simp
  then show ?thesis using assms(2) by (simp add: position_def)
qed

lemma next_block_nth:
  assumes "distinct (map cb_id bs)" "i < length bs"
  shows "next_block_id bs (Some (cb_id (bs ! i))) = map_option cb_id (lget bs (i + 1))"
  using position_nth [OF assms] by (simp add: next_block_id_def)

lemma prev_block_nth:
  assumes "distinct (map cb_id bs)" "i < length bs"
  shows "prev_block_id bs (Some (cb_id (bs ! i))) =
    (if i = 0 then None else Some (cb_id (bs ! (i - 1))))"
  using position_nth [OF assms] assms(2) by (simp add: prev_block_id_def)

text \<open>The two directions undo each other, and an unknown block has no neighbour.\<close>

lemma block_navigation:
  assumes "distinct (map cb_id bs)"
  shows "next_block_id bs (Some x) = Some y \<longleftrightarrow> prev_block_id bs (Some y) = Some x"
proof -
  have known: "z \<in> cb_id ` set bs" if "position (\<lambda>b. cb_id b = z) bs = Some k" for z k
    using position_less [OF that] position_hit [OF that] by force
  show ?thesis
  proof
    assume n: "next_block_id bs (Some x) = Some y"
    then obtain k where "position (\<lambda>b. cb_id b = x) bs = Some k"
      by (auto simp: next_block_id_def bind_eq_Some_conv)
    from known [OF this] obtain i where i: "i < length bs" "x = cb_id (bs ! i)" by (auto simp: in_set_conv_nth)
    with n have y: "i + 1 < length bs" "y = cb_id (bs ! (i + 1))"
      using next_block_nth [OF assms i(1)] by (auto simp: lget_def split: if_splits)
    then show "prev_block_id bs (Some y) = Some x" using prev_block_nth [OF assms y(1)] i by simp
  next
    assume p: "prev_block_id bs (Some y) = Some x"
    then obtain k where "position (\<lambda>b. cb_id b = y) bs = Some k"
      by (auto simp: prev_block_id_def bind_eq_Some_conv)
    from known [OF this] obtain i where i: "i < length bs" "y = cb_id (bs ! i)" by (auto simp: in_set_conv_nth)
    with p have x: "0 < i" "x = cb_id (bs ! (i - 1))"
      using prev_block_nth [OF assms i(1)] by (auto split: if_splits)
    then show "next_block_id bs (Some x) = Some y"
      using next_block_nth [OF assms, of "i - 1"] i by (simp add: lget_def)
  qed
qed

section \<open>The rows drawn and the rows clicked\<close>

lemma drawn_past_end:
  assumes "ring_ok sb" "rb_len sb \<le> r"
  shows "drawn_rows bs sb visible r = []"
  using assms(2)
proof (induction bs sb visible r rule: drawn_rows.induct)
  case (1 bs s visible r)
  have "get_line s r = None" using 1 by (simp add: get_line_def)
  with 1 show ?case by (subst drawn_rows.simps) simp
qed

text \<open>A click on a visible line resolves to the row that was drawn there.\<close>

lemma resolve_drawn:
  assumes "ring_ok sb" "k < visible"
  shows "resolve_walk bs (rb_len sb) (vis + k) vis r = map_option fst (lget (drawn_rows bs sb visible r) k)"
  using assms(2)
proof (induction "rb_len sb - r" arbitrary: r k vis visible)
  case 0
  then have "drawn_rows bs sb visible r = []" using drawn_past_end [OF assms(1)] by simp
  with 0 show ?case by (subst resolve_walk.simps) simp
next
  case (Suc n)
  then have r: "r < rb_len sb" by simp
  then obtain line where line: "get_line sb r = Some line"
    using get_line_rows [OF assms(1), of r] length_rb_rows [OF assms(1)] by simp
  have n: "n = rb_len sb - (r + 1)" using Suc(2) by simp
  show ?case
  proof (cases "is_row_collapsed bs r")
    case True
    with r Suc(3) Suc(1) [OF n Suc(3), of vis] show ?thesis
      by (subst resolve_walk.simps, subst drawn_rows.simps) simp
  next
    case False
    show ?thesis
    proof (cases k)
      case 0
      with r False line Suc(3) show ?thesis
        by (subst resolve_walk.simps, subst drawn_rows.simps) simp
    next
      case (Suc j)
      with \<open>k < visible\<close> have "j < visible - 1" by simp
      from Suc.hyps(1) [OF n this, of "vis + 1"] r False line Suc \<open>k < visible\<close> show ?thesis
        by (subst resolve_walk.simps, subst drawn_rows.simps) simp
    qed
  qed
qed

text \<open>Without collapsed blocks the lines are the rows from the offset on, the oldest row being
  row 0.\<close>

lemma drawn_plain:
  assumes "ring_ok sb"
  shows "map snd (drawn_rows [] sb visible r) = take visible (drop r (rb_rows sb))"
proof (induction visible arbitrary: r)
  case 0
  then show ?case by (subst drawn_rows.simps) simp
next
  case (Suc v)
  show ?case
  proof (cases "r < rb_len sb")
    case True
    then have "drop r (rb_rows sb) = rb_rows sb ! r # drop (r + 1) (rb_rows sb)"
      using length_rb_rows [OF assms] by (simp add: Cons_nth_drop_Suc)
    with True Suc show ?thesis
      using get_line_rows [OF assms, of r] length_rb_rows [OF assms] by (subst drawn_rows.simps) simp
  next
    case False
    then show ?thesis using drawn_past_end [OF assms] length_rb_rows [OF assms] by simp
  qed
qed

section \<open>Commands to run again\<close>

lemma small_char_byte: "c < 128 \<Longrightarrow> utf8_enc c = [of_nat c]"
  by (simp add: utf8_enc_def)

lemma replay_char_ok:
  assumes "list_all replay_byte_ok (utf8_enc c)"
  shows "c = 9 \<or> 32 \<le> c \<and> c \<noteq> 127"
proof (cases "c < 128")
  case True
  then have "replay_byte_ok (of_nat c)" using assms by (simp add: small_char_byte)
  then show ?thesis using True
    by (auto simp: replay_byte_ok_def word_less_nat_alt unat_of_nat word_unat_eq_iff)
qed simp

lemma trim_infix: "\<exists>p q. s = p @ trim_by P s @ q"
proof -
  obtain p where p: "s = p @ dropWhile P s" by (metis takeWhile_dropWhile_id)
  let ?t = "dropWhile P s"
  have "rev ?t = takeWhile P (rev ?t) @ dropWhile P (rev ?t)" by simp
  then have "?t = rev (dropWhile P (rev ?t)) @ rev (takeWhile P (rev ?t))"
    by (metis rev_append rev_rev_ident)
  with p show ?thesis by (metis trim_by_def append.assoc)
qed

text \<open>After trimming no newline is left at the end, so that the branch for it is never taken.\<close>

lemma trim_last: "trim_by P s \<noteq> [] \<Longrightarrow> \<not> P (last (trim_by P s))"
  using hd_dropWhile [of P "rev (dropWhile P s)"] by (auto simp: trim_by_def last_rev)

lemma sanitize_trimmed:
  "sanitize_replay_command raw =
     (if trim raw \<noteq> [] \<and> list_all replay_byte_ok (as_bytes (trim raw)) then Some (trim raw) else None)"
proof -
  have "\<not> (trim raw \<noteq> [] \<and> last (trim raw) = 10)"
    using trim_last [of is_whitespace raw] by (auto simp: trim_def is_whitespace_def)
  then show ?thesis by (auto simp: sanitize_replay_command_def Let_def)
qed

lemma sanitize_chars:
  assumes "sanitize_replay_command raw = Some s"
  shows "s \<noteq> [] \<and> (\<exists>p q. raw = p @ s @ q) \<and> (\<forall>c \<in> set s. c = 9 \<or> 32 \<le> c \<and> c \<noteq> 127)"
proof -
  have s: "s = trim raw" "s \<noteq> []" "list_all replay_byte_ok (as_bytes s)"
    using assms by (auto simp: sanitize_trimmed split: if_splits)
  have "c = 9 \<or> 32 \<le> c \<and> c \<noteq> 127" if "c \<in> set s" for c
    using s(3) that by (intro replay_char_ok) (auto simp: as_bytes_def list_all_iff)
  with s trim_infix [of raw is_whitespace] show ?thesis by (auto simp: trim_def)
qed

end
