(* ===== verification/Gpu_Facts.thy ===== *)
theory Gpu_Facts
  imports Gpu_State Block_Ui Block_Facts Client_State
begin

text \<open>
  Facts on the state of the graphical client: its history and marks keep their bounds and no
  message makes it panic, it holds the same grids and focus as the text client, and what the
  history, the scrolling and the command blocks do.
\<close>

section \<open>The two clients hold the same screens\<close>

definition pane_view :: "gpu_pane \<Rightarrow> pane_state" where
  "pane_view p = \<lparr>cp_grid = gp_grid p, cp_cursor_col = gp_cursor_col p, cp_cursor_row = gp_cursor_row p\<rparr>"

text \<open>What the text client keeps of the same messages.\<close>

definition screens :: "gpu_state \<Rightarrow> (nat \<times> pane_state) list \<times> nat option" where
  "screens c = (map (map_prod id pane_view) (gs_panes c), gs_focused_pane_id c)"

definition text_screens :: "client_state \<Rightarrow> (nat \<times> pane_state) list \<times> nat option" where
  "text_screens c = (cs_panes c, cs_focused_pane_id c)"

lemma map_of_view: "map_of (map (map_prod id f) xs) k = map_option f (map_of xs k)"
  by (induction xs) auto

lemma update_view: "map (map_prod id f) (AList.update k v xs) = AList.update k (f v) (map (map_prod id f) xs)"
  by (induction xs) auto

lemma update_as_before: "map_of xs k = Some v \<Longrightarrow> AList.update k v xs = xs"
  by (induction xs) auto

lemma screens_update_pane:
  assumes "\<And>p. pane_view (f p) = pane_view p"
  shows "screens (update_pane i f c) = screens c"
proof (cases "map_of (gs_panes c) i")
  case (Some p)
  then have "map_of (map (map_prod id pane_view) (gs_panes c)) i = Some (pane_view (f p))"
    using assms by (simp add: map_of_view)
  from update_as_before [OF this] Some show ?thesis by (simp add: screens_def update_pane_def update_view)
qed (simp add: update_pane_def)

lemma mark_activity_view: "pane_view (mark_activity i c p) = pane_view p"
  by (simp add: mark_activity_def pane_view_def)

lemma mark_pane_view: "pane_view (mark_pane i kind code p) = pane_view p"
  by (simp add: mark_pane_def push_anchor_def push_mark_def pane_view_def Let_def split: option.split)

lemma screens_prune: "screens (prune_block_selection c) = screens c"
  by (simp add: prune_block_selection_def screens_def split: option.split)

lemma screens_fields [simp]:
  "screens (c\<lparr>gs_status_bar_text := x0\<rparr>) = screens c"
  "screens (c\<lparr>gs_info_bars := x1\<rparr>) = screens c"
  "screens (c\<lparr>gs_pending_bell := x2\<rparr>) = screens c"
  "screens (c\<lparr>gs_focused_server_window_id := x3\<rparr>) = screens c"
  "screens (c\<lparr>gs_broadcast_mode := x4\<rparr>) = screens c"
  "screens (c\<lparr>gs_is_zoomed := x5\<rparr>) = screens c"
  "screens (c\<lparr>gs_floating_pane_rects := x6\<rparr>) = screens c"
  "screens (c\<lparr>gs_workspaces := x7\<rparr>) = screens c"
  "screens (c\<lparr>gs_current_workspace := x8\<rparr>) = screens c"
  "screens (c\<lparr>gs_workspace_actions := x9\<rparr>) = screens c"
  "screens (c\<lparr>gs_pending_quake_action := x10\<rparr>) = screens c"
  "screens (c\<lparr>gs_foreground_process_status := x11\<rparr>) = screens c"
  "screens (c\<lparr>gs_alerts := x12\<rparr>) = screens c"
  "screens (c\<lparr>gs_next_alert_seq := x13\<rparr>) = screens c"
  by (simp_all add: screens_def)

lemma gpu_diff_row_view:
  "gpu_diff_row d p = Some p' \<Longrightarrow> gp_grid p' = replace_row d (gp_grid p)
     \<and> gp_cursor_col p' = gp_cursor_col p \<and> gp_cursor_row p' = gp_cursor_row p"
  by (auto simp: gpu_diff_row_def replace_row_def lget_def Option.bind_eq_Some_conv split: if_splits)

lemma gpu_diff_rows_view:
  "foldM gpu_diff_row ds p = Some p' \<Longrightarrow> gp_grid p' = fold replace_row ds (gp_grid p)"
  by (induction ds arbitrary: p) (auto simp: Option.bind_eq_Some_conv dest!: gpu_diff_row_view)

lemma gpu_apply_diff_view:
  "gpu_apply_diff ds col row p = Some p' \<Longrightarrow> pane_view p' = apply_diff ds col row (pane_view p)"
  by (auto simp: gpu_apply_diff_def apply_diff_def pane_view_def Option.bind_eq_Some_conv
      dest!: gpu_diff_rows_view)

text \<open>A message does the same to the screens of both.\<close>

lemma clients_agree:
  assumes "gpu_apply_server_message now ms m c = Some c'" "screens c = text_screens t"
  shows "screens c' = text_screens (apply_server_message now m t)"
proof -
  have panes: "cs_panes t = map (map_prod id pane_view) (gs_panes c)" "cs_focused_pane_id t = gs_focused_pane_id c"
    using assms(2) by (simp_all add: screens_def text_screens_def)
  show ?thesis
  proof (cases m)
    case (FullRefresh i g)
    with assms(1) panes show ?thesis
      by (auto simp: screens_def text_screens_def Let_def update_view map_of_view pane_view_def
          pane_state_new_def split: option.split)
  next
    case (GridDiff i d)
    with assms(1) panes show ?thesis
      by (auto simp: screens_def text_screens_def map_of_view update_view mark_activity_view
          Option.bind_eq_Some_conv split: option.split_asm dest!: gpu_apply_diff_view)
  next
    case (LayoutChanged panes focused)
    with assms(1) \<open>cs_panes t = _\<close> show ?thesis
      using screens_update_pane [of "\<lambda>p. p\<lparr>gp_has_activity := False\<rparr>" focused]
      by (auto simp: text_screens_def Let_def pane_view_def screens_def)
  next
    case (SemanticMarkSent i row kind code)
    have "screens c' = screens (update_pane i (mark_pane i kind code) c)"
      using assms(1) SemanticMarkSent by (auto simp: Let_def screens_prune split: option.split)
    with SemanticMarkSent assms(2) show ?thesis
      by (simp add: screens_update_pane mark_pane_view text_screens_def)
  qed (insert assms, auto simp: screens_update_pane pane_view_def mark_activity_def text_screens_def
        add_alert_def refresh_workspace_palette_actions_def Let_def split: option.splits)
qed

section \<open>The invariant\<close>

abbreviation uncollapsed :: "command_block list \<Rightarrow> command_block list" where
  "uncollapsed \<equiv> map (\<lambda>b. b\<lparr>cb_collapsed := False\<rparr>)"

definition gpu_pane_ok :: "nat \<Rightarrow> gpu_pane \<Rightarrow> bool" where
  "gpu_pane_ok i p \<longleftrightarrow> ring_ok (gp_scrollback p)
     \<and> length (gp_prompt_anchors p) \<le> MAX_PROMPT_ANCHORS
     \<and> length (gp_marks p) \<le> MAX_SEMANTIC_MARKS
     \<and> uncollapsed (gp_blocks p) = extract_command_blocks i (gp_marks p)"

definition gpu_ok :: "gpu_state \<Rightarrow> bool" where
  "gpu_ok c \<longleftrightarrow> 0 < gs_scrollback_capacity c \<and> distinct (map fst (gs_panes c))
     \<and> (\<forall>(i, p) \<in> set (gs_panes c). gpu_pane_ok i p)
     \<and> length (gs_alerts c) \<le> ALERTS_MAX_LEN \<and> distinct (slots_of (gs_info_bars c))
     \<and> store_ok (gs_named_blocks c) \<and> modal_ok (gs_block_name_modal c)"

lemma map_of_ok: "gpu_ok c \<Longrightarrow> map_of (gs_panes c) i = Some p \<Longrightarrow> gpu_pane_ok i p"
  by (auto simp: gpu_ok_def dest: map_of_SomeD)

lemma gpu_ok_update:
  assumes "gpu_ok c" "gpu_pane_ok i p"
  shows "gpu_ok (c\<lparr>gs_panes := AList.update i p (gs_panes c)\<rparr>)"
  using assms update_set [of i p "gs_panes c"] by (auto simp: gpu_ok_def distinct_update)

lemma gpu_ok_update_pane:
  assumes "gpu_ok c" "\<And>p. gpu_pane_ok i p \<Longrightarrow> gpu_pane_ok i (f p)"
  shows "gpu_ok (update_pane i f c)"
  using gpu_ok_update [OF assms(1)] map_of_ok [OF assms(1)] assms
  by (auto simp: update_pane_def split: option.split)

lemma gpu_ok_update_focused:
  assumes "gpu_ok c" "\<And>i p. gpu_pane_ok i p \<Longrightarrow> gpu_pane_ok i (f p)"
  shows "gpu_ok (update_focused f c)"
  using assms gpu_ok_update_pane by (auto simp: update_focused_def split: option.split)

lemma gpu_pane_new_ok: "0 < cap \<Longrightarrow> gpu_pane_ok i (gpu_pane_new cols rows cap)"
  by (simp add: gpu_pane_ok_def gpu_pane_new_def scrollback_new_ok extract_runs)

lemma extract_uncollapsed: "uncollapsed (extract_command_blocks i ms) = extract_command_blocks i ms"
  by (auto simp: extract_runs block_of_run_def Let_def)

lemma mark_pane_ok: "gpu_pane_ok i p \<Longrightarrow> gpu_pane_ok i (mark_pane i kind code p)"
  by (auto simp: gpu_pane_ok_def mark_pane_def push_anchor_def push_mark_def Let_def extract_uncollapsed
      MAX_SEMANTIC_MARKS_def MAX_PROMPT_ANCHORS_def split: option.split)

text \<open>Every row a difference replaces goes to the history, whatever has scrolled.\<close>

lemma gpu_diff_row_ok:
  assumes "gpu_pane_ok i p"
  shows "\<exists>p'. gpu_diff_row d p = Some p' \<and> gpu_pane_ok i p'
    \<and> rb_capacity (gp_scrollback p') = rb_capacity (gp_scrollback p)
    \<and> g_rows (gp_grid p') = g_rows (replace_row d (gp_grid p))
    \<and> rb_rows (gp_scrollback p') = recent (rb_capacity (gp_scrollback p))
        (rb_rows (gp_scrollback p) @ (case lget (g_rows (gp_grid p)) (dr_row d) of None \<Rightarrow> [] | Some r \<Rightarrow> [r]))"
proof (cases "lget (g_rows (gp_grid p)) (dr_row d)")
  case None
  have "length (rb_rows (gp_scrollback p)) \<le> rb_capacity (gp_scrollback p)"
    using assms by (simp add: gpu_pane_ok_def length_rb_rows) (simp add: ring_ok_def)
  with None assms show ?thesis by (auto simp: gpu_diff_row_def replace_row_def lget_def split: if_splits)
next
  case (Some r)
  have "ring_ok (gp_scrollback p)" using assms by (simp add: gpu_pane_ok_def)
  from push_line_ok [OF this, of r] Some assms show ?thesis
    by (auto simp: gpu_diff_row_def replace_row_def gpu_pane_ok_def lget_def split: if_splits)
qed

lemma gpu_diff_rows_ok:
  assumes "gpu_pane_ok i p"
  shows "\<exists>p'. foldM gpu_diff_row ds p = Some p' \<and> gpu_pane_ok i p'"
proof -
  have "\<exists>p'. gpu_diff_row d u = Some p' \<and> gpu_pane_ok i p'" if "gpu_pane_ok i u" for d u
    using gpu_diff_row_ok [OF that, of d] by blast
  then show ?thesis using assms by (intro foldM_total) auto
qed

lemma gpu_apply_diff_ok:
  assumes "gpu_pane_ok i p"
  shows "\<exists>p'. gpu_apply_diff ds col row p = Some p' \<and> gpu_pane_ok i p'"
  using gpu_diff_rows_ok [OF assms, of ds] by (auto simp: gpu_apply_diff_def gpu_pane_ok_def)

lemma gpu_ok_fields:
  "gpu_ok c \<Longrightarrow> gpu_ok (c\<lparr>gs_status_bar_text := x1\<rparr>)" "gpu_ok c \<Longrightarrow> gpu_ok (c\<lparr>gs_pending_bell := x2\<rparr>)"
  "gpu_ok c \<Longrightarrow> gpu_ok (c\<lparr>gs_focused_server_window_id := x3\<rparr>)" "gpu_ok c \<Longrightarrow> gpu_ok (c\<lparr>gs_broadcast_mode := x4\<rparr>)"
  "gpu_ok c \<Longrightarrow> gpu_ok (c\<lparr>gs_is_zoomed := x5\<rparr>)" "gpu_ok c \<Longrightarrow> gpu_ok (c\<lparr>gs_floating_pane_rects := x6\<rparr>)"
  "gpu_ok c \<Longrightarrow> gpu_ok (c\<lparr>gs_workspaces := x7\<rparr>)" "gpu_ok c \<Longrightarrow> gpu_ok (c\<lparr>gs_current_workspace := x8\<rparr>)"
  "gpu_ok c \<Longrightarrow> gpu_ok (c\<lparr>gs_workspace_actions := x9\<rparr>)" "gpu_ok c \<Longrightarrow> gpu_ok (c\<lparr>gs_pending_quake_action := x10\<rparr>)"
  "gpu_ok c \<Longrightarrow> gpu_ok (c\<lparr>gs_foreground_process_status := x11\<rparr>)" "gpu_ok c \<Longrightarrow> gpu_ok (c\<lparr>gs_focused_pane_id := x12\<rparr>)"
  "gpu_ok c \<Longrightarrow> gpu_ok (c\<lparr>gs_tab_order := x13\<rparr>)" "gpu_ok c \<Longrightarrow> gpu_ok (c\<lparr>gs_pane_layouts := x14\<rparr>)"
  "gpu_ok c \<Longrightarrow> gpu_ok (c\<lparr>gs_selected_block := x15\<rparr>)" "gpu_ok c \<Longrightarrow> gpu_ok (c\<lparr>gs_search := x16\<rparr>)"
  "gpu_ok c \<Longrightarrow> gpu_ok (c\<lparr>gs_cols := x17\<rparr>)" "gpu_ok c \<Longrightarrow> gpu_ok (c\<lparr>gs_rows := x18\<rparr>)"
  "gpu_ok c \<Longrightarrow> gpu_ok (c\<lparr>gs_copy_mode := x19\<rparr>)" "gpu_ok c \<Longrightarrow> gpu_ok (c\<lparr>gs_mouse_sel := x20\<rparr>)"
  "gpu_ok c \<Longrightarrow> gpu_ok (c\<lparr>gs_quick_select := x21\<rparr>)" "gpu_ok c \<Longrightarrow> gpu_ok (c\<lparr>gs_consent := x22\<rparr>)"
  by (simp_all add: gpu_ok_def)

lemma gpu_ok_alert: "gpu_ok c \<Longrightarrow> gpu_ok (add_alert now k i title body c)"
  by (simp add: gpu_ok_def add_alert_def Let_def ALERTS_MAX_LEN_def)

lemma gpu_ok_prune: "gpu_ok c \<Longrightarrow> gpu_ok (prune_block_selection c)"
  by (auto simp: prune_block_selection_def gpu_ok_fields split: option.split)

lemma pane_ok_fields:
  "gpu_pane_ok i p \<Longrightarrow> gpu_pane_ok i (p\<lparr>gp_scroll_offset := x1\<rparr>)"
  "gpu_pane_ok i p \<Longrightarrow> gpu_pane_ok i (p\<lparr>gp_has_activity := x2\<rparr>)"
  "gpu_pane_ok i p \<Longrightarrow> gpu_pane_ok i (p\<lparr>gp_title := x3\<rparr>)" "gpu_pane_ok i p \<Longrightarrow> gpu_pane_ok i (p\<lparr>gp_cwd := x4\<rparr>)"
  "gpu_pane_ok i p \<Longrightarrow> gpu_pane_ok i (p\<lparr>gp_pointer_shape := x5\<rparr>)"
  "gpu_pane_ok i p \<Longrightarrow> gpu_pane_ok i (p\<lparr>gp_progress := x6\<rparr>)"
  "gpu_pane_ok i p \<Longrightarrow> gpu_pane_ok i (p\<lparr>gp_images := x7\<rparr>)"
  "gpu_pane_ok i p \<Longrightarrow> gpu_pane_ok i (p\<lparr>gp_text_sizes := x8\<rparr>)"
  "gpu_pane_ok i p \<Longrightarrow> gpu_pane_ok i (p\<lparr>gp_process_name := x9\<rparr>)"
  "gpu_pane_ok i p \<Longrightarrow> gpu_pane_ok i (p\<lparr>gp_color_overrides := x10, gp_content_dirty := x11\<rparr>)"
  "gpu_pane_ok i p \<Longrightarrow> gpu_pane_ok i (p\<lparr>gp_grid := x12, gp_cursor_col := x13, gp_cursor_row := x14, gp_content_dirty := x15\<rparr>)"
  "gpu_pane_ok i p \<Longrightarrow> gpu_pane_ok i (mark_activity j c p)"
  by (simp_all add: gpu_pane_ok_def mark_activity_def)

text \<open>No message makes the client panic.\<close>

lemma gpu_message_ok:
  assumes "gpu_ok c"
  shows "\<exists>c'. gpu_apply_server_message now ms m c = Some c' \<and> gpu_ok c'"
proof (cases m)
  case (FullRefresh i g)
  have "gpu_pane_ok i (case map_of (gs_panes c) i of
      None \<Rightarrow> gpu_pane_new (g_width g) (g_height g) (gs_scrollback_capacity c) | Some st \<Rightarrow> st)"
    using map_of_ok [OF assms, of i] assms by (auto simp: gpu_pane_new_ok gpu_ok_def split: option.split)
  from gpu_ok_update [OF assms pane_ok_fields(11) [OF this]] FullRefresh show ?thesis
    by (auto simp: Let_def gpu_ok_fields)
next
  case (GridDiff i d)
  show ?thesis
  proof (cases "map_of (gs_panes c) i")
    case (Some p)
    from gpu_apply_diff_ok [OF map_of_ok [OF assms Some], of "gd_dirty_rows d" "gd_cursor_col d" "gd_cursor_row d"]
    obtain p' where "gpu_apply_diff (gd_dirty_rows d) (gd_cursor_col d) (gd_cursor_row d) p = Some p'"
      "gpu_pane_ok i p'" by blast
    with Some GridDiff gpu_ok_update [OF assms pane_ok_fields(12)] show ?thesis by auto
  qed (use assms GridDiff in auto)
next
  case (ServerError message)
  with assms show ?thesis by (auto simp: gpu_ok_def push_info_bar_slots)
next
  case (SemanticMarkSent i row kind code)
  have "gpu_ok (update_pane i (mark_pane i kind code) c)"
    by (rule gpu_ok_update_pane [OF assms mark_pane_ok])
  with SemanticMarkSent show ?thesis
    by (auto simp: Let_def gpu_ok_fields gpu_ok_prune split: option.split)
qed (use assms in \<open>auto simp: Let_def gpu_ok_fields gpu_ok_alert refresh_workspace_palette_actions_def
      intro!: gpu_ok_update_pane pane_ok_fields split: option.split\<close>)

section \<open>Reachable states\<close>

text \<open>
  What happens to the state of a client: messages, the user's operations, the information bars that the
  client pushes, dismisses, expires and retires, and a new configuration.  \<open>caps\<close> are the capacities of the
  history that configurations give and \<open>names\<close> the names of blocks read from the file;
  \<open>regex_new\<close> and \<open>is_match\<close> are the regular expressions.  The selection, the copy mode, the quick
  select and the consent dialog may change in any way, which covers their operations.
\<close>

inductive gpu_reach ::
    "nat set \<Rightarrow> named_block_store \<Rightarrow> (rstr \<Rightarrow> 're option) \<Rightarrow> ('re \<Rightarrow> rstr \<Rightarrow> bool) \<Rightarrow> gpu_state \<Rightarrow> bool"
  for caps names regex_new is_match where
  started: "cap \<in> caps \<Longrightarrow> gpu_reach caps names regex_new is_match (gpu_state_new cols rows cap names)"
| message: "gpu_reach caps names regex_new is_match c \<Longrightarrow> gpu_apply_server_message now ms m c = Some c' \<Longrightarrow>
    gpu_reach caps names regex_new is_match c'"
| scrolled_up: "gpu_reach caps names regex_new is_match c \<Longrightarrow> gpu_reach caps names regex_new is_match (gpu_scroll_up n c)"
| scrolled_down: "gpu_reach caps names regex_new is_match c \<Longrightarrow> gpu_reach caps names regex_new is_match (gpu_scroll_down n c)"
| jumped_prev: "gpu_reach caps names regex_new is_match c \<Longrightarrow> gpu_reach caps names regex_new is_match (fst (jump_prev_prompt c))"
| jumped_next: "gpu_reach caps names regex_new is_match c \<Longrightarrow> gpu_reach caps names regex_new is_match (fst (jump_next_prompt c))"
| search_started: "gpu_reach caps names regex_new is_match c \<Longrightarrow> gpu_reach caps names regex_new is_match (start_search c)"
| search_typed: "gpu_reach caps names regex_new is_match c \<Longrightarrow>
    gpu_reach caps names regex_new is_match (push_search_char regex_new is_match ch c)"
| search_erased: "gpu_reach caps names regex_new is_match c \<Longrightarrow>
    gpu_reach caps names regex_new is_match (pop_search_char regex_new is_match c)"
| searched_next: "gpu_reach caps names regex_new is_match c \<Longrightarrow>
    gpu_reach caps names regex_new is_match (gpu_search_next regex_new is_match c)"
| searched_prev: "gpu_reach caps names regex_new is_match c \<Longrightarrow>
    gpu_reach caps names regex_new is_match (gpu_search_prev regex_new is_match c)"
| search_ended: "gpu_reach caps names regex_new is_match c \<Longrightarrow> gpu_reach caps names regex_new is_match (end_search c)"
| focused: "gpu_reach caps names regex_new is_match c \<Longrightarrow> gpu_reach caps names regex_new is_match (gpu_set_focused_pane i c)"
| resized: "gpu_reach caps names regex_new is_match c \<Longrightarrow> gpu_reach caps names regex_new is_match (gpu_resize cols rows c)"
| alerted: "gpu_reach caps names regex_new is_match c \<Longrightarrow> gpu_reach caps names regex_new is_match (add_alert now k i title body c)"
| alerts_expired: "gpu_reach caps names regex_new is_match c \<Longrightarrow> gpu_reach caps names regex_new is_match (fst (expire_alerts now c))"
| alert_dismissed: "gpu_reach caps names regex_new is_match c \<Longrightarrow> gpu_reach caps names regex_new is_match (fst (dismiss_alert seq c))"
| reloaded: "gpu_reach caps names regex_new is_match c \<Longrightarrow> cap \<in> caps \<Longrightarrow> gpu_reach caps names regex_new is_match (reload_scrollback cap c)"
| block_selected: "gpu_reach caps names regex_new is_match c \<Longrightarrow> gpu_reach caps names regex_new is_match (c\<lparr>gs_selected_block := b\<rparr>)"
| block_jumped: "gpu_reach caps names regex_new is_match c \<Longrightarrow> gpu_reach caps names regex_new is_match (fst (jump_to_block i c))"
| block_toggled: "gpu_reach caps names regex_new is_match c \<Longrightarrow>
    gpu_reach caps names regex_new is_match (fst (toggle_block_collapse_by_id i c))"
| block_named: "gpu_reach caps names regex_new is_match c \<Longrightarrow>
    gpu_reach caps names regex_new is_match (fst (set_selected_block_name now_s name c))"
| block_unnamed: "gpu_reach caps names regex_new is_match c \<Longrightarrow>
    gpu_reach caps names regex_new is_match (fst (remove_block_name_by_id i c))"
| modal_opened: "gpu_reach caps names regex_new is_match c \<Longrightarrow>
    gpu_reach caps names regex_new is_match (fst (open_block_name_modal_for i c))"
| modal_typed: "gpu_reach caps names regex_new is_match c \<Longrightarrow>
    gpu_reach caps names regex_new is_match (c\<lparr>gs_block_name_modal := fst (modal_push_char ch (gs_block_name_modal c))\<rparr>)"
| modal_erased: "gpu_reach caps names regex_new is_match c \<Longrightarrow>
    gpu_reach caps names regex_new is_match (c\<lparr>gs_block_name_modal := fst (modal_pop_char (gs_block_name_modal c))\<rparr>)"
| modal_committed: "gpu_reach caps names regex_new is_match c \<Longrightarrow>
    gpu_reach caps names regex_new is_match (fst (commit_block_name_modal now_s c))"
| bar_pushed: "gpu_reach caps names regex_new is_match c \<Longrightarrow>
    gpu_reach caps names regex_new is_match (c\<lparr>gs_info_bars := fst (push_info_bar kind now ms (gs_info_bars c))\<rparr>)"
| bar_removed: "gpu_reach caps names regex_new is_match c \<Longrightarrow>
    gpu_reach caps names regex_new is_match (c\<lparr>gs_info_bars := fst (remove_info_bar slot (gs_info_bars c))\<rparr>)"
| bar_dismissed: "gpu_reach caps names regex_new is_match c \<Longrightarrow>
    gpu_reach caps names regex_new is_match (c\<lparr>gs_info_bars := fst (dismiss_info_bar slot exit (gs_info_bars c))\<rparr>)"
| bars_expired: "gpu_reach caps names regex_new is_match c \<Longrightarrow>
    gpu_reach caps names regex_new is_match (c\<lparr>gs_info_bars := fst (expire_info_bars now exit (gs_info_bars c))\<rparr>)"
| bars_retired: "gpu_reach caps names regex_new is_match c \<Longrightarrow>
    gpu_reach caps names regex_new is_match (c\<lparr>gs_info_bars := fst (retire_info_bars is_done now (gs_info_bars c))\<rparr>)"
| selected: "gpu_reach caps names regex_new is_match c \<Longrightarrow> gpu_reach caps names regex_new is_match (c\<lparr>gs_mouse_sel := x\<rparr>)"
| copying: "gpu_reach caps names regex_new is_match c \<Longrightarrow> gpu_reach caps names regex_new is_match (c\<lparr>gs_copy_mode := x\<rparr>)"
| quick_selected: "gpu_reach caps names regex_new is_match c \<Longrightarrow> gpu_reach caps names regex_new is_match (c\<lparr>gs_quick_select := x\<rparr>)"
| consent_changed: "gpu_reach caps names regex_new is_match c \<Longrightarrow> gpu_reach caps names regex_new is_match (c\<lparr>gs_consent := x\<rparr>)"

lemma gpu_ok_bars:
  assumes "gpu_ok c"
  shows "gpu_ok (c\<lparr>gs_info_bars := fst (push_info_bar kind now ms (gs_info_bars c))\<rparr>)"
    and "gpu_ok (c\<lparr>gs_info_bars := fst (remove_info_bar slot (gs_info_bars c))\<rparr>)"
    and "gpu_ok (c\<lparr>gs_info_bars := fst (dismiss_info_bar slot exit (gs_info_bars c))\<rparr>)"
    and "gpu_ok (c\<lparr>gs_info_bars := fst (expire_info_bars now exit (gs_info_bars c))\<rparr>)"
    and "gpu_ok (c\<lparr>gs_info_bars := fst (retire_info_bars is_done now (gs_info_bars c))\<rparr>)"
  using assms distinct_slots_filter [of "gs_info_bars c"]
  by (auto simp: gpu_ok_def push_info_bar_slots dismiss_info_bar_slots expire_info_bars_slots remove_info_bar_def
      retire_info_bars_def Let_def simp del: set_map)

lemma gpu_ok_offset: "gpu_ok c \<Longrightarrow> gpu_ok (update_focused (\<lambda>p. p\<lparr>gp_scroll_offset := f p\<rparr>) c)"
  by (rule gpu_ok_update_focused) (auto intro: pane_ok_fields)

lemma gpu_ok_show_match: "gpu_ok c \<Longrightarrow> gpu_ok (show_match r c)"
  by (auto simp: show_match_def Let_def gpu_ok_fields gpu_ok_offset split: option.split)

lemma gpu_ok_searches:
  "gpu_ok c \<Longrightarrow> gpu_ok (start_search c)" "gpu_ok c \<Longrightarrow> gpu_ok (search_next_from rn im a c)"
  "gpu_ok c \<Longrightarrow> gpu_ok (push_search_char rn im ch c)" "gpu_ok c \<Longrightarrow> gpu_ok (pop_search_char rn im c)"
  "gpu_ok c \<Longrightarrow> gpu_ok (gpu_search_next rn im c)" "gpu_ok c \<Longrightarrow> gpu_ok (gpu_search_prev rn im c)"
  "gpu_ok c \<Longrightarrow> gpu_ok (end_search c)"
  by (simp_all add: start_search_def search_next_from_def push_search_char_def pop_search_char_def
      gpu_search_next_def gpu_search_prev_def end_search_def gpu_ok_fields gpu_ok_show_match gpu_ok_offset)

lemma gpu_ok_scrolls:
  "gpu_ok c \<Longrightarrow> gpu_ok (gpu_scroll_up n c)" "gpu_ok c \<Longrightarrow> gpu_ok (gpu_scroll_down n c)"
  "gpu_ok c \<Longrightarrow> gpu_ok (fst (jump_prev_prompt c))" "gpu_ok c \<Longrightarrow> gpu_ok (fst (jump_next_prompt c))"
  by (auto simp: gpu_scroll_up_def gpu_scroll_down_def jump_prev_prompt_def jump_next_prompt_def
      gpu_ok_offset split: option.split)

lemma gpu_ok_reload:
  assumes "gpu_ok c" "0 < cap"
  shows "gpu_ok (reload_scrollback cap c)"
proof -
  have "gpu_pane_ok i (p\<lparr>gp_scrollback := set_capacity cap (gp_scrollback p)\<rparr>)"
    if "(i, p) \<in> set (gs_panes c)" for i p
    using assms(1) that set_capacity_ok [of "gp_scrollback p" cap] by (auto simp: gpu_ok_def gpu_pane_ok_def)
  moreover have "map (fst \<circ> (\<lambda>(i, p). (i, p\<lparr>gp_scrollback := set_capacity cap (gp_scrollback p)\<rparr>))) (gs_panes c)
      = map fst (gs_panes c)" by (simp add: comp_def split_beta)
  ultimately show ?thesis using assms by (auto simp: gpu_ok_def reload_scrollback_def simp del: map_eq_conv)
qed

lemma flip_collapsed_uncollapsed: "uncollapsed (flip_collapsed i bs) = uncollapsed bs"
  by (induction i bs rule: flip_collapsed.induct) auto

lemma gpu_ok_blocks:
  "gpu_ok c \<Longrightarrow> gpu_ok (fst (toggle_block_collapse_by_id i c))" "gpu_ok c \<Longrightarrow> gpu_ok (fst (jump_to_block i c))"
proof -
  have "gpu_pane_ok j (p\<lparr>gp_blocks := flip_collapsed i (gp_blocks p), gp_content_dirty := True\<rparr>)"
    if "gpu_pane_ok j p" for j p
    using that by (simp add: gpu_pane_ok_def flip_collapsed_uncollapsed)
  then show "gpu_ok c \<Longrightarrow> gpu_ok (fst (toggle_block_collapse_by_id i c))"
    by (auto simp: toggle_block_collapse_by_id_def intro!: gpu_ok_update_focused split: option.split)
qed (auto simp: jump_to_block_def Let_def gpu_ok_fields gpu_ok_offset split: option.split)

lemma gpu_ok_modal: "gpu_ok c \<Longrightarrow> modal_ok m \<Longrightarrow> gpu_ok (c\<lparr>gs_block_name_modal := m\<rparr>)"
  by (simp add: gpu_ok_def)

lemma gpu_ok_names: "gpu_ok c \<Longrightarrow> store_ok s \<Longrightarrow> gpu_ok (c\<lparr>gs_named_blocks := s\<rparr>)"
  by (simp add: gpu_ok_def)

lemma names_remove_ok: "store_ok s \<Longrightarrow> store_ok (fst (names_remove i s))"
  using names_set_ok [of s 0 i "[]"] by (simp add: names_set_def trim_def trim_by_def)

lemma gpu_ok_naming:
  assumes "gpu_ok c"
  shows "gpu_ok (fst (set_selected_block_name now name c))" "gpu_ok (fst (remove_block_name_by_id i c))"
    "gpu_ok (fst (open_block_name_modal_for i c))" "gpu_ok (fst (commit_block_name_modal now c))"
proof -
  have s: "store_ok (gs_named_blocks c)" "modal_ok (gs_block_name_modal c)" using assms by (simp_all add: gpu_ok_def)
  show "gpu_ok (fst (set_selected_block_name now name c))"
    using gpu_ok_names [OF assms names_set_ok [OF s(1)]] assms
    by (auto simp: set_selected_block_name_def split_beta split: option.split)
  show "gpu_ok (fst (remove_block_name_by_id i c))"
    using gpu_ok_names [OF assms names_remove_ok [OF s(1)]] by (simp add: remove_block_name_by_id_def split_beta)
  show "gpu_ok (fst (open_block_name_modal_for i c))"
    using assms by (auto simp: open_block_name_modal_for_def gpu_ok_modal modal_ops_ok split: option.split)
  show "gpu_ok (fst (commit_block_name_modal now c))"
    using assms s names_set_ok [OF s(1), of now]
    by (auto simp: commit_block_name_modal_def modal_take_input_def split_beta gpu_ok_def modal_ops_ok
        split: option.split)
qed

lemma gpu_ok_alert_ops:
  "gpu_ok c \<Longrightarrow> gpu_ok (fst (expire_alerts now c))" "gpu_ok c \<Longrightarrow> gpu_ok (fst (dismiss_alert seq c))"
  by (auto simp: gpu_ok_def expire_alerts_def dismiss_alert_def Let_def
      intro: order_trans [OF length_dropWhile_le] order_trans [OF length_filter_le])

lemma gpu_reach_ok: "gpu_reach caps names rn im c \<Longrightarrow> 0 \<notin> caps \<Longrightarrow> store_ok names \<Longrightarrow> gpu_ok c"
proof (induction rule: gpu_reach.induct)
  case (started cap cols rows)
  then have "0 < cap" by (cases cap) auto
  with started show ?case by (simp add: gpu_ok_def gpu_state_new_def modal_ok_def modal_default_def)
next
  case (message c now ms m c')
  with gpu_message_ok [of c now ms m] show ?case by auto
next
  case (focused c i)
  then show ?case by (auto simp: gpu_set_focused_pane_def intro!: gpu_ok_update_pane gpu_ok_fields pane_ok_fields)
next
  case (resized c cols rows)
  from resized have "gpu_ok c" by blast
  then have "gpu_ok (c\<lparr>gs_cols := cols\<rparr>)" by (rule gpu_ok_fields)
  then show ?case unfolding gpu_resize_def by (rule gpu_ok_fields)
next
  case (reloaded c cap)
  then have "0 < cap" by (cases cap) auto
  with reloaded show ?case by (simp add: gpu_ok_reload)
next
  case (modal_typed c ch)
  then show ?case by (intro gpu_ok_modal modal_ops_ok) (simp_all add: gpu_ok_def)
next
  case (modal_erased c)
  then show ?case by (intro gpu_ok_modal modal_ops_ok) (simp_all add: gpu_ok_def)
qed (simp_all add: gpu_ok_scrolls gpu_ok_searches gpu_ok_alert gpu_ok_alert_ops gpu_ok_fields
    gpu_ok_blocks gpu_ok_naming gpu_ok_bars)

end
