(* ===== verification/Gpu_View.thy ===== *)
theory Gpu_View
  imports Gpu_Facts "HOL-Library.While_Combinator"
begin

text \<open>
  What the user of the graphical client sees: the lines of the focused pane, the history a
  stream of differences leaves behind, scrolling, jumping to prompts and command blocks.
\<close>

text \<open>The rows the renderer draws of the focused pane in a rectangle of \<open>visible\<close> rows
  (\<open>renderer/render_frame.rs\<close>, \<open>renderer/grid_verts.rs\<close>): the history from the scroll
  offset on, or the grid.\<close>

definition pane_lines :: "nat \<Rightarrow> gpu_pane \<Rightarrow> cell list list" where
  "pane_lines visible p =
     (if 0 < gp_scroll_offset p
      then map snd (drawn_rows (gp_blocks p) (gp_scrollback p) visible (gp_scroll_offset p))
      else take (min visible (g_height (gp_grid p))) (g_rows (gp_grid p)))"

section \<open>The loop of the renderer\<close>

text \<open>
  The loop that finds \<open>drawn_rows\<close>, as it is written: the rows drawn so far, the next row
  of the history, and whether the loop was left.
\<close>

type_synonym draw_state = "(nat \<times> cell list) list \<times> nat \<times> bool"

definition draw_step :: "command_block list \<Rightarrow> scrollback \<Rightarrow> draw_state \<Rightarrow> draw_state" where
  "draw_step blocks sb = (\<lambda>(drawn, sb_row, left).
     if is_row_collapsed blocks sb_row then (drawn, sb_row + 1, left)
     else case get_line sb sb_row of
       None \<Rightarrow> (drawn, sb_row, True)
     | Some line \<Rightarrow> (drawn @ [(sb_row, line)], sb_row + 1, left))"

definition draw_loop :: "command_block list \<Rightarrow> scrollback \<Rightarrow> nat \<Rightarrow> nat \<Rightarrow> draw_state option" where
  "draw_loop blocks sb visible offset =
     while_option (\<lambda>(drawn, sb_row, left). length drawn < visible \<and> \<not> left) (draw_step blocks sb) ([], offset, False)"

lemma draw_from:
  "\<exists>r left. while_option (\<lambda>(drawn, sb_row, left). length drawn < length acc + visible \<and> \<not> left) (draw_step blocks sb)
     (acc, sb_row, False) = Some (acc @ drawn_rows blocks sb visible sb_row, r, left)"
proof (induction blocks sb visible sb_row arbitrary: acc rule: drawn_rows.induct)
  case (1 blocks sb visible sb_row)
  let ?b = "\<lambda>n (drawn, sb_row, left). length drawn < n \<and> \<not> left"
  let ?w = "\<lambda>n s. while_option (?b n) (draw_step blocks sb) s"
  let ?n = "length acc + visible"
  consider "visible = 0" | "visible \<noteq> 0" "is_row_collapsed blocks sb_row"
    | "visible \<noteq> 0" "\<not> is_row_collapsed blocks sb_row" "get_line sb sb_row = None"
    | line where "visible \<noteq> 0" "\<not> is_row_collapsed blocks sb_row" "get_line sb sb_row = Some line"
    by fastforce
  then show ?case
  proof cases
    case 1
    then show ?thesis by (auto simp: while_option_unfold drawn_rows.simps [of _ _ 0] intro: exI [of _ False])
  next
    case 2
    have "?w ?n (acc, sb_row, False) = ?w ?n (acc, sb_row + 1, False)"
      using 2 by (subst while_option_unfold) (simp add: draw_step_def)
    with 1(1) [OF 2, of acc] 2 show ?thesis by (simp add: drawn_rows.simps [of _ _ visible sb_row])
  next
    case 3
    have "?w ?n (acc, sb_row, False) = ?w ?n (acc, sb_row, True)"
      using 3 by (subst while_option_unfold) (simp add: draw_step_def)
    also have "\<dots> = Some (acc, sb_row, True)" by (subst while_option_unfold) simp
    finally show ?thesis using 3 by (auto simp: drawn_rows.simps [of _ _ visible sb_row] intro: exI [of _ True])
  next
    case (4 line)
    let ?acc = "acc @ [(sb_row, line)]"
    have n: "?n = length ?acc + (visible - 1)" using 4(1) by simp
    have "?w ?n (acc, sb_row, False) = ?w ?n (?acc, sb_row + 1, False)"
      using 4 by (subst while_option_unfold) (simp add: draw_step_def)
    moreover from 1(2) [OF 4, of ?acc] obtain r left where
      "?w ?n (?acc, sb_row + 1, False) = Some (?acc @ drawn_rows blocks sb (visible - 1) (sb_row + 1), r, left)"
      unfolding n by blast
    ultimately show ?thesis using 4 by (simp add: drawn_rows.simps [of _ _ visible sb_row])
  qed
qed

lemma draw_loop_ends: "\<exists>r left. draw_loop blocks sb visible offset = Some (drawn_rows blocks sb visible offset, r, left)"
  using draw_from [of "[]" visible blocks sb offset] by (simp add: draw_loop_def)

section \<open>The history\<close>

abbreviation history :: "gpu_pane \<Rightarrow> cell list list" where
  "history p \<equiv> rb_rows (gp_scrollback p)"

abbreviation history_cap :: "gpu_pane \<Rightarrow> nat" where
  "history_cap p \<equiv> rb_capacity (gp_scrollback p)"

lemma recent_snoc_append: "recent n (recent n (xs @ [x]) @ ys) = recent n (xs @ x # ys)"
  using recent_append [of n "xs @ [x]" ys] by simp

text \<open>A difference that rewrites different rows adds all of them to the history, in their old
  state.\<close>

lemma diff_history:
  assumes "gpu_pane_ok i p" "distinct (map dr_row ds)" "\<forall>d \<in> set ds. dr_row d < length (g_rows (gp_grid p))"
  shows "\<exists>p'. foldM gpu_diff_row ds p = Some p' \<and> gpu_pane_ok i p' \<and> history_cap p' = history_cap p
    \<and> history p' = recent (history_cap p) (history p @ map (\<lambda>d. g_rows (gp_grid p) ! dr_row d) ds)"
  using assms
proof (induction ds arbitrary: p)
  case Nil
  then have "length (history p) \<le> history_cap p"
    by (simp add: gpu_pane_ok_def length_rb_rows) (simp add: ring_ok_def)
  with Nil show ?case by simp
next
  case (Cons d ds)
  have r: "lget (g_rows (gp_grid p)) (dr_row d) = Some (g_rows (gp_grid p) ! dr_row d)" using Cons.prems(3) by simp
  from gpu_diff_row_ok [OF Cons.prems(1), of d] r obtain p1 where p1: "gpu_diff_row d p = Some p1"
    "gpu_pane_ok i p1" "history_cap p1 = history_cap p"
    "g_rows (gp_grid p1) = (g_rows (gp_grid p))[dr_row d := dr_cells d]"
    "history p1 = recent (history_cap p) (history p @ [g_rows (gp_grid p) ! dr_row d])"
    using Cons.prems(3) by (auto simp: replace_row_def)
  have "map (\<lambda>d. g_rows (gp_grid p1) ! dr_row d) ds = map (\<lambda>d. g_rows (gp_grid p) ! dr_row d) ds"
    using Cons.prems(2) by (auto simp: p1(4) image_iff)
  moreover obtain p2 where "foldM gpu_diff_row ds p1 = Some p2" "gpu_pane_ok i p2" "history_cap p2 = history_cap p"
    "history p2 = recent (history_cap p) (history p1 @ map (\<lambda>d. g_rows (gp_grid p1) ! dr_row d) ds)"
    using Cons.IH [OF p1(2)] Cons.prems(2,3) by (auto simp: p1(3,4))
  ultimately have "foldM gpu_diff_row (d # ds) p = Some p2 \<and> gpu_pane_ok i p2 \<and> history_cap p2 = history_cap p
      \<and> history p2 = recent (history_cap p) (history p1 @ map (\<lambda>d. g_rows (gp_grid p) ! dr_row d) ds)"
    using p1(1) by (simp del: map_eq_conv)
  then show ?case by (intro exI [of _ p2]) (simp add: p1(5) recent_snoc_append)
qed

section \<open>Scrolling\<close>

text \<open>The lines after scrolling up from the live screen start at the oldest end of the history.\<close>

lemma scrolled_lines:
  assumes "gpu_pane_ok i p" "gp_blocks p = []" "0 < gp_scroll_offset p"
  shows "pane_lines visible p = take visible (drop (gp_scroll_offset p) (history p))"
  using assms drawn_plain [of "gp_scrollback p"] by (simp add: pane_lines_def gpu_pane_ok_def)

lemma focused_update:
  assumes "gpu_focused_pane c = Some p"
  shows "gpu_focused_pane (update_focused f c) = Some (f p)"
  using assms by (auto simp: gpu_focused_pane_def update_focused_def update_pane_def Option.bind_eq_Some_conv
      update_conv' split: option.split)

lemma focused_ok: "gpu_ok c \<Longrightarrow> gpu_focused_pane c = Some p \<Longrightarrow> \<exists>i. gpu_pane_ok i p"
  using map_of_ok by (auto simp: gpu_focused_pane_def Option.bind_eq_Some_conv)

section \<open>Prompts\<close>

lemma find_rev_sorted:
  assumes "sorted xs" "List.find P (rev xs) = Some (x :: nat)" "y \<in> set xs" "P y"
  shows "y \<le> x"
proof -
  from assms(2) obtain k where k: "k < length xs" "rev xs ! k = x" "\<forall>j < k. \<not> P (rev xs ! j)"
    by (auto simp: find_Some_iff)
  obtain j where j: "j < length xs" "rev xs ! j = y" using assms(3) by (metis in_set_conv_nth length_rev set_rev)
  have "k \<le> j" using k(3) j assms(4) by (meson not_le)
  then show ?thesis using sorted_nth_mono [OF assms(1), of "length xs - Suc j" "length xs - Suc k"] j k
    by (simp add: rev_nth)
qed

text \<open>The jump to the previous prompt goes to the newest anchor, from which there is no further
  jump.\<close>

lemma jump_prev_newest:
  assumes "gpu_focused_pane c = Some p" "sorted (gp_prompt_anchors p)" "jump_prev_prompt c = (c', True)"
  shows "snd (jump_prev_prompt c') = False
    \<and> (\<forall>p'. gpu_focused_pane c' = Some p' \<longrightarrow>
         (\<forall>a \<in> set (gp_prompt_anchors p). a \<le> rb_len (gp_scrollback p) - 1 \<longrightarrow> a \<le> gp_scroll_offset p'))"
proof -
  let ?P = "\<lambda>idx. gp_scroll_offset p < idx \<and> idx \<le> rb_len (gp_scrollback p) - 1"
  from assms(1,3) obtain idx where idx: "List.find ?P (rev (gp_prompt_anchors p)) = Some idx"
    "c' = update_focused (\<lambda>p. p\<lparr>gp_scroll_offset := idx\<rparr>) c"
    by (auto simp: jump_prev_prompt_def prev_prompt_target_def split: option.splits)
  have P: "?P idx" using idx(1) by (auto simp: find_Some_iff)
  have max: "a \<le> idx" if "a \<in> set (gp_prompt_anchors p)" "a \<le> rb_len (gp_scrollback p) - 1" for a
    using find_rev_sorted [OF assms(2) idx(1) that(1)] that P by (cases "gp_scroll_offset p < a") auto
  have f: "gpu_focused_pane c' = Some (p\<lparr>gp_scroll_offset := idx\<rparr>)"
    using focused_update [OF assms(1)] by (simp add: idx(2))
  have "prev_prompt_target (p\<lparr>gp_scroll_offset := idx\<rparr>) = None"
    using max by (force simp: prev_prompt_target_def find_None_iff)
  then show ?thesis using f max by (simp add: jump_prev_prompt_def)
qed

section \<open>Command blocks\<close>

text \<open>Every mark rebuilds the blocks, all of them unfolded.\<close>

lemma mark_unfolds:
  assumes "kind_from_ipc kind \<noteq> None"
  shows "\<forall>b \<in> set (gp_blocks (mark_pane i kind code p)). \<not> cb_collapsed b"
  using assms by (auto simp: mark_pane_def push_mark_def Let_def extract_runs block_of_run_def)

lemma prompt_runs_snoc:
  "bm_kind a = PromptMark \<Longrightarrow> prompt_runs (ms @ [a]) = prompt_runs ms @ [(a, [])]"
proof (induction ms)
  case (Cons m ms)
  have "takeWhile not_prompt (ms @ [a]) = takeWhile not_prompt ms"
    using Cons.prems by (induction ms) auto
  with Cons show ?case by simp
qed simp

text \<open>Two prompts at the same row of the history have blocks with the same id.\<close>

lemma same_row_same_id:
  assumes "bm_kind a = PromptMark" "bm_kind b = PromptMark" "bm_row a = bm_row b"
  shows "\<not> distinct (map cb_id (extract_command_blocks i (ms @ [a, b])))"
proof -
  have "prompt_runs (ms @ [a, b]) = prompt_runs ms @ [(a, []), (b, [])]"
    using prompt_runs_snoc [OF assms(2), of "ms @ [a]"] prompt_runs_snoc [OF assms(1), of ms] by simp
  then show ?thesis using assms(3) by (simp add: extract_runs block_of_run_def Let_def)
qed

text \<open>A full history keeps its length.\<close>

lemma diff_full:
  assumes "gpu_pane_ok i p" "rb_len (gp_scrollback p) = history_cap p" "gpu_apply_diff ds col row p = Some p'"
  shows "rb_len (gp_scrollback p') = history_cap p \<and> gp_marks p' = gp_marks p"
proof -
  have step: "rb_len (gp_scrollback u') = history_cap u' \<and> history_cap u' = history_cap u \<and> gp_marks u' = gp_marks u
      \<and> gpu_pane_ok i u'"
    if "gpu_pane_ok i u" "rb_len (gp_scrollback u) = history_cap u" "gpu_diff_row d u = Some u'" for u u' d
  proof -
    from gpu_diff_row_ok [OF that(1), of d] that(3) have ok: "gpu_pane_ok i u'" "history_cap u' = history_cap u"
      "history u' = recent (history_cap u) (history u @ (case lget (g_rows (gp_grid u)) (dr_row d) of None \<Rightarrow> [] | Some r \<Rightarrow> [r]))"
      by auto
    have "ring_ok (gp_scrollback u)" "ring_ok (gp_scrollback u')" using that(1) ok(1) by (simp_all add: gpu_pane_ok_def)
    then have "length (history u) = rb_len (gp_scrollback u)" "length (history u') = rb_len (gp_scrollback u')"
      by (simp_all add: length_rb_rows)
    with ok that(2) have "rb_len (gp_scrollback u') = history_cap u'" by (simp split: option.split_asm)
    moreover have "gp_marks u' = gp_marks u"
      using that(3) by (auto simp: gpu_diff_row_def Option.bind_eq_Some_conv split: option.split_asm)
    ultimately show ?thesis using ok by simp
  qed
  have "\<exists>q. foldM gpu_diff_row ds p = Some q \<and> gp_scrollback p' = gp_scrollback q \<and> gp_marks p' = gp_marks q"
    using assms(3) by (auto simp: gpu_apply_diff_def Option.bind_eq_Some_conv)
  then obtain q where q: "foldM gpu_diff_row ds p = Some q" "gp_scrollback p' = gp_scrollback q" "gp_marks p' = gp_marks q"
    by blast
  have "rb_len (gp_scrollback q) = history_cap q \<and> history_cap q = history_cap p \<and> gp_marks q = gp_marks p
      \<and> gpu_pane_ok i q"
  proof (rule foldM_inv [OF q(1)])
    fix u d u'
    assume "gpu_diff_row d u = Some u'"
      and "rb_len (gp_scrollback u) = history_cap u \<and> history_cap u = history_cap p \<and> gp_marks u = gp_marks p
        \<and> gpu_pane_ok i u"
    then show "rb_len (gp_scrollback u') = history_cap u' \<and> history_cap u' = history_cap p \<and> gp_marks u' = gp_marks p
        \<and> gpu_pane_ok i u'"
      using step [of u d u'] by metis
  qed (use assms in simp)
  with q show ?thesis by simp
qed

text \<open>So that from then on every two prompts share an id.\<close>

lemma full_history_ids:
  assumes "gpu_pane_ok i p" "rb_len (gp_scrollback p) = history_cap p" "length (gp_marks p) + 2 \<le> MAX_SEMANTIC_MARKS"
    "gpu_apply_diff ds col row (mark_pane i ''A'' e1 p) = Some p'"
  shows "\<not> distinct (map cb_id (gp_blocks (mark_pane i ''A'' e2 p')))"
proof -
  let ?a = "\<lambda>e. \<lparr>bm_row = history_cap p, bm_kind = PromptMark, bm_exit_code = e\<rparr>"
  let ?p1 = "mark_pane i ''A'' e1 p"
  have p1: "gp_marks ?p1 = gp_marks p @ [?a e1]" "gp_scrollback ?p1 = gp_scrollback p"
    using assms(2,3) by (simp_all add: mark_pane_def push_mark_def push_anchor_def kind_from_ipc_def Let_def)
  from diff_full [OF mark_pane_ok [OF assms(1)] _ assms(4)] p1 assms(2)
  have "rb_len (gp_scrollback p') = history_cap p" "gp_marks p' = gp_marks p @ [?a e1]" by auto
  then have "gp_blocks (mark_pane i ''A'' e2 p') = extract_command_blocks i (gp_marks p @ [?a e1, ?a e2])"
    using assms(3) by (simp add: mark_pane_def push_mark_def push_anchor_def kind_from_ipc_def Let_def)
  then show ?thesis using same_row_same_id [of "?a e1" "?a e2" i "gp_marks p"] by simp
qed

section \<open>Panes that are closed\<close>

lemma keys_updated: "fst ` set (AList.update k v xs) = insert k (fst ` set xs)"
  by (induction xs) auto

lemma update_pane_keys: "map fst (gs_panes (update_pane i f c)) = map fst (gs_panes c)"
proof -
  have "map_of xs i = Some p \<Longrightarrow> map fst (AList.update i q xs) = map fst xs" for xs and p q :: gpu_pane
    by (induction xs) auto
  then show ?thesis by (auto simp: update_pane_def split: option.split)
qed

text \<open>No message takes a pane away.\<close>

lemma panes_stay:
  assumes "gpu_apply_server_message now ms m c = Some c'"
  shows "set (map fst (gs_panes c)) \<subseteq> set (map fst (gs_panes c'))"
proof (cases m)
  case (FullRefresh i g)
  with assms show ?thesis by (force simp: Let_def keys_updated split: option.splits)
next
  case (GridDiff i d)
  with assms show ?thesis
    by (force simp: Option.bind_eq_Some_conv keys_updated split: option.split_asm)
next
  case (SemanticMarkSent i row kind code)
  have "gs_panes c' = gs_panes (update_pane i (mark_pane i kind code) c)"
    using assms SemanticMarkSent by (auto simp: Let_def prune_block_selection_def split: option.split if_splits)
  then show ?thesis using update_pane_keys [of i "mark_pane i kind code" c] by simp
next
  case (LayoutChanged panes focused)
  with assms show ?thesis
    using update_pane_keys [of focused] by (auto simp: Let_def simp del: set_map)
qed (use assms update_pane_keys in \<open>auto simp: add_alert_def refresh_workspace_palette_actions_def Let_def
      simp del: set_map split: option.split\<close>)

end
