(* ===== verification/Gpu_Properties.thy ===== *)
theory Gpu_Properties
  imports Gpu_View
begin

text \<open>
  The properties of the graphical client: its history, command blocks, selections, the
  consent of the user, and its state under the messages of the server.
\<close>

section \<open>The history\<close>

text \<open>C31: after any lines and changes of the capacity the ring holds the most recent
  lines that fit, in order, and reading by index reads that list.\<close>

theorem history_is_recent:
  assumes "0 < c"
  shows "\<exists>sb. foldM scrollback_step rs (scrollback_new c) = Some sb
    \<and> (rb_capacity sb, rb_rows sb) = fold recent_step rs (c, [])
    \<and> (\<forall>i. get_line sb i = lget (rb_rows sb) i)"
proof -
  have new: "ring_ok (scrollback_new c)" "rb_rows (scrollback_new c) = []" "rb_capacity (scrollback_new c) = c"
    using scrollback_new_ok [OF assms] by (simp_all add: scrollback_new_def)
  from scrollback_run_ok [OF new(1), of rs] new(2,3) get_line_rows show ?thesis by fastforce
qed

lemma history_is_recent_witness:
  "\<exists>sb. foldM scrollback_step [PushLine [], PushLine [default_cell], PushLine [], SetCapacity 1] (scrollback_new 2) = Some sb
     \<and> rb_rows sb = [[]] \<and> get_line sb 0 = Some []"
proof -
  obtain sb where sb: "foldM scrollback_step [PushLine [], PushLine [default_cell], PushLine [], SetCapacity 1] (scrollback_new 2) = Some sb"
    "(rb_capacity sb, rb_rows sb) = fold recent_step [PushLine [], PushLine [default_cell], PushLine [], SetCapacity 1] (2, [])"
    "\<forall>i. get_line sb i = lget (rb_rows sb) i"
    using history_is_recent [of 2 "[PushLine [], PushLine [default_cell], PushLine [], SetCapacity 1]"] by auto
  have "fold recent_step [PushLine [], PushLine [default_cell], PushLine [], SetCapacity 1] (2, []) = (1, [[]])"
    by (simp add: recent_def)
  with sb show ?thesis by (intro exI [of _ sb]) simp
qed

text \<open>The search finds a line exactly when one matches, and goes to the nearest
  one in its direction, around the end.\<close>

lemma search_nearest:
  assumes "pattern \<noteq> []" "regex_new pattern = Some re"
  shows "let hit = row_matches is_match re sb; n = rb_len sb;
           forward = search_next regex_new is_match pattern a sb;
           backward = search_prev regex_new is_match pattern a sb in
      (forward = None \<longleftrightarrow> (\<forall>r < n. \<not> hit r)) \<and> (backward = None \<longleftrightarrow> (\<forall>r < n. \<not> hit r))
      \<and> (\<forall>r. forward = Some r \<longrightarrow>
           (\<exists>k < n. r = (a + k) mod n \<and> hit r \<and> (\<forall>j < k. \<not> hit ((a + j) mod n))))
      \<and> (\<forall>r. backward = Some r \<longrightarrow>
           (\<exists>k. 1 \<le> k \<and> k \<le> n \<and> r = (a + n - k) mod n \<and> hit r
              \<and> (\<forall>j. 1 \<le> j \<and> j < k \<longrightarrow> \<not> hit ((a + n - j) mod n))))"
  unfolding Let_def
proof (intro conjI allI impI)
  show "search_next regex_new is_match pattern a sb = None \<longleftrightarrow> (\<forall>r < rb_len sb. \<not> row_matches is_match re sb r)"
    by (rule search_next_none [of pattern regex_new re, OF assms])
  show "search_prev regex_new is_match pattern a sb = None \<longleftrightarrow> (\<forall>r < rb_len sb. \<not> row_matches is_match re sb r)"
    by (rule search_prev_none [of pattern regex_new re, OF assms])
next
  fix r assume "search_next regex_new is_match pattern a sb = Some r"
  from search_next_some [OF this] assms(2)
  show "\<exists>k < rb_len sb. r = (a + k) mod rb_len sb \<and> row_matches is_match re sb r
      \<and> (\<forall>j < k. \<not> row_matches is_match re sb ((a + j) mod rb_len sb))" by auto
next
  fix r assume "search_prev regex_new is_match pattern a sb = Some r"
  from search_prev_some [OF this] assms(2)
  show "\<exists>k. 1 \<le> k \<and> k \<le> rb_len sb \<and> r = (a + rb_len sb - k) mod rb_len sb \<and> row_matches is_match re sb r
      \<and> (\<forall>j. 1 \<le> j \<and> j < k \<longrightarrow> \<not> row_matches is_match re sb ((a + rb_len sb - j) mod rb_len sb))" by auto
qed

lemma search_nearest_witness:
  "search_next Some (\<lambda>re s. s = re) [65] 0
     \<lparr>rb_capacity = 3, rb_lines = [[default_cell], [default_cell\<lparr>cell_ch := 65\<rparr>]], rb_head = 2, rb_len = 2\<rparr> \<noteq> None"
proof -
  let ?sb = "\<lparr>rb_capacity = 3, rb_lines = [[default_cell], [default_cell\<lparr>cell_ch := 65\<rparr>]], rb_head = 2, rb_len = 2\<rparr>"
  have "row_matches (\<lambda>re s. s = re) [65] ?sb 1"
    by (simp add: row_matches_def get_line_def line_to_string_def trim_end_def
        is_whitespace_def)
  then show ?thesis
    using search_nearest [of "[65]" Some "[65]" "\<lambda>re s. s = re" ?sb 0] by (auto simp: Let_def)
qed

section \<open>Command blocks and selections\<close>

text \<open>C33: the command blocks of a pane are those of the runs of marks between two
  prompts, in order; over increasing rows the parts of a block are in order and blocks do not
  overlap.\<close>

theorem blocks_by_runs:
  assumes "sorted (map bm_row ms)"
  shows "extract_command_blocks i ms = map (block_of_run i) (prompt_runs ms)
    \<and> (\<forall>b \<in> set (extract_command_blocks i ms). rows_ordered b)
    \<and> sorted_wrt (\<lambda>a b. block_last a \<le> cb_prompt_row b) (extract_command_blocks i ms)"
  using extract_runs blocks_ordered [OF assms] blocks_disjoint [OF assms] by simp

abbreviation mark_at :: "nat \<Rightarrow> block_mark_kind \<Rightarrow> block_mark" where
  "mark_at r k \<equiv> \<lparr>bm_row = r, bm_kind = k, bm_exit_code = (if k = EndMark then Some 0 else None)\<rparr>"

definition sample_marks :: "block_mark list" where
  "sample_marks = [mark_at 0 PromptMark, mark_at 0 CommandMark, mark_at 1 OutputMark, mark_at 4 EndMark,
     mark_at 5 PromptMark]"

lemma blocks_by_runs_witness:
  "map (\<lambda>b. (cb_prompt_row b, cb_output_row b, cb_end_row b)) (extract_command_blocks 7 sample_marks) =
     [(0, 1, Some 4), (5, 5, None)]"
proof -
  have "sorted (map bm_row sample_marks)" by (simp add: sample_marks_def)
  from blocks_by_runs [OF this, of 7] show ?thesis
    by (simp add: sample_marks_def block_of_run_def last_row_def Let_def)
qed

text \<open>C34: the loop of the renderer over the history ends whatever blocks are folded, and a
  click on one of the lines drawn is resolved to the row of the history drawn there.\<close>

theorem click_is_drawn:
  assumes "ring_ok sb" "k < visible"
  shows "\<exists>drawn r left. draw_loop blocks sb visible offset = Some (drawn, r, left)
    \<and> resolve_clicked_scrollback_row blocks (rb_len sb) offset k = map_option fst (lget drawn k)"
proof -
  obtain r left where "draw_loop blocks sb visible offset = Some (drawn_rows blocks sb visible offset, r, left)"
    using draw_loop_ends by blast
  with resolve_drawn [OF assms, of blocks 0 offset] show ?thesis
    by (intro exI) (simp add: resolve_clicked_scrollback_row_def)
qed

definition sample_history :: scrollback where
  "sample_history = \<lparr>rb_capacity = 9, rb_lines = map (\<lambda>n. [default_cell\<lparr>cell_ch := n\<rparr>]) [65..<71],
     rb_head = 6, rb_len = 6\<rparr>"

definition folded_blocks :: "command_block list" where
  "folded_blocks = map (\<lambda>b. b\<lparr>cb_collapsed := True\<rparr>) (extract_command_blocks 7 sample_marks)"

lemma click_is_drawn_witness:
  "\<exists>drawn r left. draw_loop folded_blocks sample_history 3 0 = Some (drawn, r, left)
     \<and> resolve_clicked_scrollback_row folded_blocks (rb_len sample_history) 0 2 = map_option fst (lget drawn 2)
     \<and> drawn \<noteq> []"
proof -
  have ok: "ring_ok sample_history" by (simp add: ring_ok_def sample_history_def)
  have b: "extract_command_blocks 7 sample_marks = map (block_of_run 7) (prompt_runs sample_marks)"
    by (rule extract_runs)
  have r: "resolve_clicked_scrollback_row folded_blocks (rb_len sample_history) 0 2 = Some 5"
    unfolding folded_blocks_def b
    by (simp add: resolve_clicked_scrollback_row_def sample_marks_def block_of_run_def Let_def
        last_row_def sample_history_def resolve_walk.simps)
  show ?thesis using click_is_drawn [OF ok, of 2 3 folded_blocks 0] unfolding r
    by (auto simp: lget_def split: if_splits)
qed

text \<open>A command that is run again is a non-empty part of the text of the block and has no
  ASCII control character but tabs, so that it cannot end a line or contain an escape.\<close>

lemma replay_harmless:
  assumes "sanitize_replay_command raw = Some s"
  shows "s \<noteq> [] \<and> (\<exists>p q. raw = p @ s @ q) \<and> (\<forall>c \<in> set s. c = 9 \<or> 32 \<le> c \<and> c \<noteq> 127)"
  by (rule sanitize_chars [OF assms])

lemma replay_harmless_witness:
  "\<exists>p q. [32, 108, 115, 10 :: uchar] = p @ [108, 115] @ q"
proof -
  have "sanitize_replay_command [32, 108, 115, 10] = Some [108, 115]"
    by (simp add: sanitize_trimmed trim_def trim_by_def is_whitespace_def small_char_byte replay_byte_ok_def
        as_bytes_def)
  from replay_harmless [OF this] show ?thesis by blast
qed

text \<open>
  Where a URL ends, by character codes: white space, the double quote, the single quote, the two angle brackets
  and the closing parenthesis; and the URL from a column on, by positions.
\<close>

definition url_stops :: "uchar \<Rightarrow> bool" where
  "url_stops c \<longleftrightarrow> is_whitespace c \<or> c \<in> {34, 39, 60, 62, 41}"

fun stop_column :: "rstr \<Rightarrow> nat \<Rightarrow> nat" where
  "stop_column [] k = k"
| "stop_column (c # s) k = (if url_stops c then k else stop_column s (k + 1))"

definition url_from :: "nat \<Rightarrow> rstr \<Rightarrow> nat \<Rightarrow> detected_url" where
  "url_from r text k =
     (let e = stop_column (drop k text) k in
      \<lparr>du_row = r, du_col_start = wrap16 k, du_col_end = wrap16 e, du_url = take (e - k) (drop k text)\<rparr>)"

lemma stop_column_eq: "stop_column s k = k + length (takeWhile (\<lambda>c. \<not> url_stops c) s)"
  by (induction s arbitrary: k) auto

lemma url_from_at: "url_at = url_from"
proof -
  have "ends_url = url_stops" by (auto simp: fun_eq_iff ends_url_def url_stops_def)
  then show ?thesis
    by (simp add: fun_eq_iff url_at_def url_from_def stop_column_eq Let_def takeWhile_eq_take [symmetric])
qed

text \<open>C37: URL detection never panics and gives, for both schemes, one URL for every column where the
  scheme starts, with its columns, up to but not including the first white space, quote, angle bracket or closing
  parenthesis, or the end of the row.  Every other character belongs to the URL: also control
  characters and square brackets (\<open>url_runs_on\<close>), which the comment in the source says would end it.\<close>

theorem urls_exact:
  "detect_urls_in_row r cells =
     (let text = map cell_ch cells;
          found = (\<lambda>prefix. map (url_from r text) [k \<leftarrow> [0..<length text]. starts_with (drop k text) prefix]) in
      Some (found (lit ''https://'') @ found (lit ''http://'')))"
  unfolding url_from_at [symmetric] by (rule detect_urls_exact)

text \<open>A closing bracket, an escape and a closing brace belong to the URL.\<close>

lemma url_runs_on:
  "detect_urls_in_row 0 (map (\<lambda>c. default_cell\<lparr>cell_ch := c\<rparr>) (lit ''http://'' @ [93, 27, 125, 41])) =
     Some [\<lparr>du_row = 0, du_col_start = 0, du_col_end = 10, du_url = lit ''http://'' @ [93, 27, 125]\<rparr>]"
proof -
  let ?t = "[104, 116, 116, 112, 58, 47, 47, 93, 27, 125, 41] :: rstr"
  have "map cell_ch (map (\<lambda>c. default_cell\<lparr>cell_ch := c\<rparr>) (lit ''http://'' @ [93, 27, 125, 41])) = ?t"
    by (simp add: lit_def)
  moreover have l: "lit ''https://'' = [104, 116, 116, 112, 115, 58, 47, 47]"
    "lit ''http://'' = [104, 116, 116, 112, 58, 47, 47]" by (simp_all add: lit_def)
  moreover have cols: "[0..<length ?t] = [0, 1, 2, 3, 4, 5, 6, 7, 8, 9, 10]" by (simp add: upt_rec)
  moreover have "[k \<leftarrow> [0..<length ?t]. starts_with (drop k ?t) (lit ''https://'')] = []"
    "[k \<leftarrow> [0..<length ?t]. starts_with (drop k ?t) (lit ''http://'')] = [0]"
    unfolding cols l by (simp_all add: starts_with_def)
  moreover have "url_from 0 ?t 0 = \<lparr>du_row = 0, du_col_start = 0, du_col_end = 10, du_url = lit ''http://'' @ [93, 27, 125]\<rparr>"
    by (simp add: url_from_def url_stops_def is_whitespace_def lit_def)
  ultimately show ?thesis unfolding detect_urls_exact url_from_at Let_def by simp
qed

text \<open>Quick select panics exactly on more than 702 matches, and with more than 26 no
  sequence of keys selects a match after the first 26: the 27th has the label aa, but its first
letter already selects the first match.\<close>

lemma quick_select_limits:
  assumes "quick_enter compiled rows qs = Some qs'" "26 < length (qs_matches qs')" "quick_keys ks qs' = Some t"
  shows "(\<exists>i < 26. t = qm_text (qs_matches qs' ! i)) \<and> qm_label (qs_matches qs' ! 26) = lit ''aa''
    \<and> (\<forall>cs rs. quick_enter cs rs qs = None \<longleftrightarrow> 702 < length (all_row_matches cs rs))"
proof -
  from assms(1) obtain ms where "find_quick_select_matches compiled rows = Some ms"
    "qs' = qs\<lparr>qs_is_active := True, qs_typed_label := [], qs_matches := ms\<rparr>"
    by (auto simp: quick_enter_def)
  with find_labelled [of compiled rows ms] have "labelled (qs_matches qs')" "dead_start (qs_typed_label qs')"
    by (simp_all add: dead_start_def)
  from quick_keys_first [OF this(1) assms(2) this(2) assms(3)] find_matches_none this(1) assms(2) show ?thesis
    by (simp add: quick_enter_def labelled_def label_of_large lit_def)
qed

lemma quick_select_limits_witness:
  "\<exists>qs'. quick_enter [\<lambda>line. [(0, 1)]] (replicate 27 [default_cell]) quick_select_new = Some qs'
     \<and> qm_label (qs_matches qs' ! 26) = lit ''aa''"
proof -
  let ?re = "[\<lambda>line :: rstr. [(0, 1)]] :: find_iter list" and ?rows = "replicate 27 [default_cell]"
  have n: "length (all_row_matches ?re ?rows) = 27"
  proof -
    have "map (\<lambda>(i, cells). length (row_matches_of ?re i cells)) (enumerate 0 ?rows) = map (\<lambda>_. 1) (enumerate 0 ?rows)"
      by (rule map_cong [OF refl]) (auto simp: row_matches_of_def add_match_def overlaps_def in_set_enumerate_eq)
    from arg_cong [OF this, of sum_list] show ?thesis
      by (simp add: all_row_matches_def length_concat o_def split_def sum_list_triv del: map_eq_conv)
  qed
  obtain ms where "find_quick_select_matches ?re ?rows = Some ms"
    using find_matches_none [of ?re ?rows] n by (cases "find_quick_select_matches ?re ?rows") auto
  moreover from this n have "length ms = 27"
    by (auto simp: find_quick_select_matches_def Let_def assign_labels_eq split: if_splits)
  ultimately obtain qs' where qs': "quick_enter ?re ?rows quick_select_new = Some qs'"
    "length (qs_matches qs') = 27"
    by (auto simp: quick_enter_def)
  have l: "labelled (qs_matches qs')" "qs_is_active qs'" "qs_typed_label qs' = []"
    using qs'(1) by (auto simp: quick_enter_def dest: find_labelled)
  from qs'(2) have "quick_keys [QsLetter (97 + 0)] qs' = Some (qm_text (qs_matches qs' ! 0))"
    by (intro quick_key_selects [OF l]) simp_all
  from quick_select_limits [OF qs'(1) _ this] qs' show ?thesis by (intro exI [of _ qs']) simp
qed

section \<open>Consent\<close>

text \<open>C32: whatever requests arrive and keys are pressed, in any order, nothing panics, and the URLs
  opened, the texts written to the clipboard and the notifications shown are exactly, and in order, those that
  the history allows: a request is carried out at once only under a decision that stands, by the
  policy or from the last A or D that answered a dialog of its class, and a key carries out
  only what the dialog open at that moment asks about, and only Y, Enter or A does.  A dialog closes
  with its answer, so that Y allows once and after N nothing is left to allow.  All of it keeps to
  the size limits, and nothing is done under the policy to deny.\<close>

theorem consent_needed:
  "\<exists>st effs. consent_run cfg evs consent_init = Some (st, effs)
     \<and> effs = allowed_after cfg [] evs
     \<and> (\<forall>e \<in> set effs. within_limits cfg e
          \<and> (policy_for cfg e = Allow
             \<or> policy_for cfg e = Prompt \<and> (\<exists>k \<in> {KeyY, KeyEnter, KeyA}. ConsentKey k \<in> set evs)))"
proof -
  obtain st effs where r: "consent_run cfg evs consent_init = Some (st, effs)" using consent_run_total by blast
  from consent_run_ok [OF consent_init_ok r, of False] consent_run_allowed [OF remembers_init r] show ?thesis
    by (intro exI [of _ st] exI [of _ effs]) (auto simp: r permitted_def allow_keys_def)
qed

definition asking :: security_config where
  "asking = \<lparr>sc_external_url = Prompt, sc_osc52_clipboard = Prompt, sc_osc_notification = Deny,
     sc_osc52_max_bytes = 8, sc_notification_max_bytes = 8\<rparr>"

text \<open>A URL that Y allows once, the next one that N refuses, and two that A allows.\<close>

lemma consent_needed_witness:
  "\<exists>st. consent_run asking [UrlRequest [97], ConsentKey KeyY, UrlRequest [98], ConsentKey KeyN,
       UrlRequest [99], ConsentKey KeyA, UrlRequest [100]] consent_init
     = Some (st, [OpenedUrl [97], OpenedUrl [99], OpenedUrl [100]])"
proof -
  let ?evs = "[UrlRequest [97], ConsentKey KeyY, UrlRequest [98], ConsentKey KeyN,
       UrlRequest [99], ConsentKey KeyA, UrlRequest [100]]"
  obtain st effs where "consent_run asking ?evs consent_init = Some (st, effs)" "effs = allowed_after asking [] ?evs"
    using consent_needed by blast
  moreover have "allowed_after asking [] ?evs = [OpenedUrl [97], OpenedUrl [99], OpenedUrl [100]]"
    by (simp add: asking_def allowed_now_def allow_keys_def answer_keys_def)
  ultimately show ?thesis by (intro exI [of _ st]) simp
qed

text \<open>A request that arrives while a dialog is open replaces it, so that the answer the
  user gives to the first one, with the same key, goes to the other; and Enter allows even when the
  button to deny is highlighted.\<close>

lemma consent_swapped:
  assumes "sc_external_url cfg = Prompt" "sc_osc52_clipboard cfg = Prompt" "str_len t \<le> sc_osc52_max_bytes cfg"
  shows "(\<exists>st. consent_run cfg [UrlRequest url, ClipboardRequest i t, ConsentKey KeyY] consent_init =
        Some (st, [WroteClipboard t]))
    \<and> (\<exists>st. consent_run cfg [UrlRequest url, ConsentKey KeyRight, ConsentKey KeyEnter] consent_init =
        Some (st, [OpenedUrl url]))"
  using assms by (simp add: consent_init_def request_open_url_def handle_clipboard_write_request_def not_less [symmetric]
      show_consent_dialog_def consent_dialog_new_def resolve_pending_consent_def dismiss_consent_dialog_def)

lemma consent_swapped_witness:
  "\<exists>st. consent_run asking [UrlRequest [97], ClipboardRequest 1 [98], ConsentKey KeyY] consent_init =
     Some (st, [WroteClipboard [98]])"
proof -
  have limits: "sc_external_url asking = Prompt" "sc_osc52_clipboard asking = Prompt"
    "str_len [98] \<le> sc_osc52_max_bytes asking"
    by (simp_all add: asking_def len_utf8_def)
  from consent_swapped [OF limits] show ?thesis by blast
qed

section \<open>The state under the messages of the server\<close>

text \<open>C29: if the configurations never set the capacity of the history to 0 and the names of blocks
  read from the file keep their limits, then in every state that messages, the operations of the user,
  information bars and reloads of the configuration can produce the
  history is a ring of its capacity, anchors, marks, alerts, names and the input of the name dialog
  keep their limits, the blocks are those of the marks but for their folding, each information bar has
  a slot of its own, and no further message panics.  With a capacity of 0 the first line of a history panics
  (\<open>no_capacity_panics\<close>).\<close>

theorem gpu_invariant:
  assumes "gpu_reach caps names regex_new is_match c" "0 \<notin> caps" "store_ok names"
  shows "gpu_ok c \<and> (\<forall>now ms m. \<exists>c'. gpu_apply_server_message now ms m c = Some c' \<and> gpu_ok c')"
  using gpu_reach_ok [OF assms] gpu_message_ok by blast

definition tiny_grid :: "nat \<Rightarrow> grid" where
  "tiny_grid ch = (grid_new 1 1)\<lparr>g_rows := [[default_cell\<lparr>cell_ch := ch\<rparr>]]\<rparr>"

lemma no_names: "0 \<notin> {100 :: nat}" "store_ok []"
  by (simp_all add: store_ok_def)

text \<open>A history of capacity 0 cannot take a line.\<close>

lemma no_capacity_panics: "push_line line (scrollback_new 0) = None"
  by (simp add: push_line_def scrollback_new_def store_line_def Let_def)

lemma gpu_invariant_witness:
  "\<exists>c. gpu_reach {100} [] Some (=) c \<and> gs_panes c \<noteq> [] \<and> gpu_ok c"
proof -
  have start: "gpu_reach {100} [] Some (=) (gpu_state_new 80 24 100 [])"
    by (rule gpu_reach.started) simp
  then obtain c where c: "gpu_apply_server_message 0 0 (FullRefresh 1 (tiny_grid 65)) (gpu_state_new 80 24 100 []) = Some c"
    using gpu_invariant [OF start] no_names by blast
  have r: "gpu_reach {100} [] Some (=) c" by (rule gpu_reach.message [OF start c])
  moreover have "gs_panes c \<noteq> []" using c by (auto simp: gpu_state_new_def Let_def)
  ultimately show ?thesis using gpu_invariant [OF r] no_names by blast
qed

text \<open>C30: the graphical client consumes any messages without a panic, and after them it
  has the same panes with the same grids and cursors, and the same focus, as the text client.\<close>

theorem clients_equivalent:
  assumes "0 < cap" "store_ok names"
  shows "\<exists>c. foldM (\<lambda>(now, ms, m). gpu_apply_server_message now ms m) msgs (gpu_state_new cols rows cap names) = Some c
    \<and> (let t = fold (\<lambda>(now, ms, m). apply_server_message now m) msgs (client_state_new term_size) in
        cs_panes t = map (map_prod id pane_view) (gs_panes c) \<and> cs_focused_pane_id t = gs_focused_pane_id c)"
proof -
  have run: "\<exists>c'. foldM (\<lambda>(now, ms, m). gpu_apply_server_message now ms m) msgs c = Some c'
      \<and> screens c' = text_screens (fold (\<lambda>(now, ms, m). apply_server_message now m) msgs t)"
    if "gpu_ok c" "screens c = text_screens t" for c t
    using that
  proof (induction msgs arbitrary: c t)
    case (Cons x msgs)
    obtain now ms m where x: "x = (now, ms, m)" by (cases x)
    obtain c1 where c1: "gpu_apply_server_message now ms m c = Some c1" "gpu_ok c1"
      using gpu_message_ok [OF Cons.prems(1)] by blast
    from Cons.IH [OF c1(2) clients_agree [OF c1(1) Cons.prems(2)]] c1(1) show ?case by (simp add: x)
  qed simp
  have "gpu_ok (gpu_state_new cols rows cap names)"
    by (rule gpu_reach_ok [of "{cap}" names Some "(=)"]) (use assms in \<open>simp_all add: gpu_reach.started\<close>)
  from run [OF this, of "client_state_new term_size"] show ?thesis
    by (auto simp: screens_def text_screens_def gpu_state_new_def client_state_new_def Let_def split: option.splits prod.splits)
qed

lemma clients_equivalent_witness:
  "\<exists>c. foldM (\<lambda>(now, ms, m). gpu_apply_server_message now ms m) [(0, 0, FullRefresh 1 (tiny_grid 65)), (1, 0, PaneClosed 1)]
       (gpu_state_new 80 24 100 []) = Some c \<and> gs_focused_pane_id c = Some 1"
  using clients_equivalent [of 100 "[]" "[(0, 0, FullRefresh 1 (tiny_grid 65)), (1, 0, PaneClosed 1)]" 80 24 None]
  by (auto simp: store_ok_def Let_def client_state_new_def)

section \<open>History and scrolling as the user sees them\<close>

text \<open>Every row that a difference changes goes to the history of the graphical client
  with its old content, although nothing has scrolled.\<close>

lemma unscrolled_history:
  assumes "gpu_reach caps names regex_new is_match c" "0 \<notin> caps" "store_ok names" "map_of (gs_panes c) i = Some p"
    and "distinct (map dr_row (gd_dirty_rows d))" "\<forall>x \<in> set (gd_dirty_rows d). dr_row x < length (g_rows (gp_grid p))"
  shows "\<exists>c' p'. gpu_apply_server_message now ms (GridDiff i d) c = Some c' \<and> map_of (gs_panes c') i = Some p'
    \<and> rb_rows (gp_scrollback p') = recent (rb_capacity (gp_scrollback p))
        (rb_rows (gp_scrollback p) @ map (\<lambda>x. g_rows (gp_grid p) ! dr_row x) (gd_dirty_rows d))"
proof -
  have "gpu_pane_ok i p" by (rule map_of_ok [OF gpu_reach_ok [OF assms(1-3)] assms(4)])
  from diff_history [OF this assms(5,6)] assms(4) show ?thesis
    by (auto simp: gpu_apply_diff_def update_conv' mark_activity_def)
qed

definition after_refresh :: "nat \<Rightarrow> gpu_state" where
  "after_refresh ch = (gpu_state_new 80 24 100 [])\<lparr>gs_panes := [(1, (gpu_pane_new 1 1 100)\<lparr>gp_grid := tiny_grid ch\<rparr>)],
     gs_focused_pane_id := Some 1\<rparr>"

lemma after_refresh_reach: "gpu_reach {100} [] Some (=) (after_refresh ch)"
proof (rule gpu_reach.message)
  show "gpu_reach {100} [] Some (=) (gpu_state_new 80 24 100 [])"
    by (rule gpu_reach.started) simp
  show "gpu_apply_server_message 0 0 (FullRefresh 1 (tiny_grid ch)) (gpu_state_new 80 24 100 []) = Some (after_refresh ch)"
    by (simp add: after_refresh_def gpu_state_new_def tiny_grid_def grid_new_def gpu_pane_new_def Let_def)
qed

lemma unscrolled_history_witness:
  "\<exists>c p. gpu_apply_server_message 0 0 (GridDiff 1 \<lparr>gd_dirty_rows = [\<lparr>dr_row = 0, dr_cells = []\<rparr>], gd_cursor_col = 0,
        gd_cursor_row = 0\<rparr>) (after_refresh 65) = Some c \<and> map_of (gs_panes c) 1 = Some p
     \<and> rb_rows (gp_scrollback p) = [[default_cell\<lparr>cell_ch := 65\<rparr>]]"
proof -
  let ?d = "\<lparr>gd_dirty_rows = [\<lparr>dr_row = 0, dr_cells = []\<rparr>], gd_cursor_col = 0, gd_cursor_row = 0\<rparr>"
  let ?p = "(gpu_pane_new 1 1 100)\<lparr>gp_grid := tiny_grid 65\<rparr>"
  have p: "map_of (gs_panes (after_refresh 65)) 1 = Some ?p" by (simp add: after_refresh_def)
  have g: "g_rows (gp_grid ?p) = [[default_cell\<lparr>cell_ch := 65\<rparr>]]" "gp_scrollback ?p = scrollback_new 100"
    by (simp_all add: tiny_grid_def gpu_pane_new_def)
  have h: "rb_rows (scrollback_new 100) = []" "rb_capacity (scrollback_new 100) = 100"
    using scrollback_new_ok [of 100] by (simp_all add: scrollback_new_def)
  from unscrolled_history [OF after_refresh_reach no_names p, of ?d 0 0] show ?thesis unfolding g
    by (simp add: h g)
qed

text \<open>Scrolling up from the live screen shows the history from its oldest end: with \<open>n\<close>
  lines, the lines after the \<open>n\<close> oldest ones, not those that just left the screen.\<close>

lemma scroll_from_oldest:
  assumes "gpu_reach caps names regex_new is_match c" "0 \<notin> caps" "store_ok names"
    and "gpu_focused_pane c = Some p" "gp_blocks p = []"
    and "gp_scroll_offset p = 0" "0 < n" "n < rb_len (gp_scrollback p)"
  shows "\<exists>p'. gpu_focused_pane (gpu_scroll_up n c) = Some p'
    \<and> pane_lines visible p' = take visible (drop n (rb_rows (gp_scrollback p)))"
proof -
  obtain i where ok: "gpu_pane_ok i p" using focused_ok [OF gpu_reach_ok [OF assms(1-3)] assms(4)] by blast
  let ?p = "p\<lparr>gp_scroll_offset := min (gp_scroll_offset p + n) (rb_len (gp_scrollback p) - 1)\<rparr>"
  have "gpu_focused_pane (gpu_scroll_up n c) = Some ?p"
    unfolding gpu_scroll_up_def by (rule focused_update [OF assms(4)])
  moreover have "pane_lines visible ?p = take visible (drop (gp_scroll_offset ?p) (history ?p))"
    using assms(5,7,8) by (intro scrolled_lines [OF pane_ok_fields(1) [OF ok]]) simp_all
  ultimately show ?thesis using assms(6-8) by simp
qed

definition deep_pane :: gpu_pane where
  "deep_pane = (gpu_pane_new 1 1 100)\<lparr>gp_grid := tiny_grid 68,
     gp_scrollback := \<lparr>rb_capacity = 100, rb_lines = map (\<lambda>ch. [default_cell\<lparr>cell_ch := ch\<rparr>]) [65, 66, 67],
       rb_head = 3, rb_len = 3\<rparr>\<rparr>"

definition deep_state :: gpu_state where
  "deep_state = (after_refresh 65)\<lparr>gs_panes := [(1, deep_pane)]\<rparr>"

lemma deep_state_reach: "gpu_reach {100} [] Some (=) deep_state"
proof (rule gpu_reach.message [OF after_refresh_reach])
  show "gpu_apply_server_message 0 0 (GridDiff 1 \<lparr>gd_dirty_rows = map (\<lambda>ch. \<lparr>dr_row = 0,
      dr_cells = [default_cell\<lparr>cell_ch := ch\<rparr>]\<rparr>) [66, 67, 68], gd_cursor_col = 0, gd_cursor_row = 0\<rparr>)
      (after_refresh 65) = Some deep_state"
    by (simp add: deep_state_def deep_pane_def after_refresh_def tiny_grid_def gpu_apply_diff_def gpu_diff_row_def
        push_line_def store_line_def scrollback_new_def gpu_pane_new_def mark_activity_def Let_def)
qed

lemma scroll_from_oldest_witness:
  "\<exists>p. gpu_focused_pane (gpu_scroll_up 1 deep_state) = Some p
     \<and> pane_lines 1 p = [[default_cell\<lparr>cell_ch := 66\<rparr>]]"
proof -
  have p: "gpu_focused_pane deep_state = Some deep_pane"
    by (simp add: gpu_focused_pane_def deep_state_def after_refresh_def)
  have f: "gp_blocks deep_pane = []" "gp_scroll_offset deep_pane = 0" "rb_len (gp_scrollback deep_pane) = 3"
    "rb_rows (gp_scrollback deep_pane) = map (\<lambda>ch. [default_cell\<lparr>cell_ch := ch\<rparr>]) [65, 66, 67]"
    by (simp_all add: deep_pane_def gpu_pane_new_def rb_rows_def)
  from scroll_from_oldest [OF deep_state_reach no_names p f(1,2), of 1 1] show ?thesis by (simp add: f(3,4))
qed

text \<open>Jumping to the previous prompt goes to the newest prompt in the history, past all
  others, and from there a second jump is not possible.\<close>

lemma jump_stuck:
  assumes "gpu_focused_pane c = Some p" "sorted (gp_prompt_anchors p)" "jump_prev_prompt c = (c', True)"
  shows "snd (jump_prev_prompt c') = False
    \<and> (\<exists>p'. gpu_focused_pane c' = Some p'
         \<and> (\<forall>a \<in> set (gp_prompt_anchors p). a < rb_len (gp_scrollback p) \<longrightarrow> a \<le> gp_scroll_offset p'))"
proof -
  from assms(1,3) obtain idx where "c' = update_focused (\<lambda>p. p\<lparr>gp_scroll_offset := idx\<rparr>) c"
    by (auto simp: jump_prev_prompt_def split: option.splits)
  with focused_update [OF assms(1)] have "gpu_focused_pane c' = Some (p\<lparr>gp_scroll_offset := idx\<rparr>)" by simp
  with jump_prev_newest [OF assms] show ?thesis by auto
qed

lemma jump_stuck_witness:
  "snd (jump_prev_prompt (fst (jump_prev_prompt
     (deep_state\<lparr>gs_panes := [(1, deep_pane\<lparr>gp_prompt_anchors := [1, 2]\<rparr>)]\<rparr>)))) = False"
proof -
  let ?p = "deep_pane\<lparr>gp_prompt_anchors := [1, 2]\<rparr>"
  let ?c = "deep_state\<lparr>gs_panes := [(1, ?p)]\<rparr>"
  have p: "gpu_focused_pane ?c = Some ?p"
    by (simp add: gpu_focused_pane_def deep_state_def after_refresh_def)
  have "snd (jump_prev_prompt ?c) = True"
    using p by (simp add: jump_prev_prompt_def prev_prompt_target_def deep_pane_def gpu_pane_new_def)
  then have j: "jump_prev_prompt ?c = (fst (jump_prev_prompt ?c), True)" by (simp add: prod_eq_iff)
  from jump_stuck [OF p _ j] show ?thesis by simp
qed

text \<open>Once the history is full, the prompts of two commands have blocks with the same
  identifier, whatever the command between them has printed.\<close>

lemma block_ids_collide:
  assumes "gpu_pane_ok i p" "rb_len (gp_scrollback p) = rb_capacity (gp_scrollback p)"
    and "length (gp_marks p) + 2 \<le> MAX_SEMANTIC_MARKS"
  shows "\<exists>p'. gpu_apply_diff ds col row (mark_pane i ''A'' e p) = Some p'
    \<and> \<not> distinct (map cb_id (gp_blocks (mark_pane i ''A'' e' p')))"
  using gpu_apply_diff_ok [OF mark_pane_ok [OF assms(1)]] full_history_ids [OF assms] by blast

definition full_pane :: gpu_pane where
  "full_pane = (gpu_pane_new 1 1 1)\<lparr>gp_scrollback := \<lparr>rb_capacity = 1, rb_lines = [[]], rb_head = 0, rb_len = 1\<rparr>\<rparr>"

lemma block_ids_collide_witness:
  "\<exists>p'. gpu_apply_diff [\<lparr>dr_row = 0, dr_cells = []\<rparr>] 0 0 (mark_pane 7 ''A'' None full_pane) = Some p'
    \<and> \<not> distinct (map cb_id (gp_blocks (mark_pane 7 ''A'' None p')))"
proof -
  have "gpu_pane_ok 7 full_pane" "rb_len (gp_scrollback full_pane) = rb_capacity (gp_scrollback full_pane)"
    "length (gp_marks full_pane) + 2 \<le> MAX_SEMANTIC_MARKS"
    by (simp_all add: gpu_pane_ok_def full_pane_def gpu_pane_new_def ring_ok_def extract_runs MAX_SEMANTIC_MARKS_def)
  then show ?thesis by (rule block_ids_collide)
qed

end
