(* ===== verification/Copy_Mode.thy ===== *)
theory Copy_Mode
  imports Gpu_State
begin

text \<open>
  The keys of the copy mode (\<open>renderer/input_handler/copy_mode.rs\<close> of the graphical client): the motions by
  words, the search, copying, and which keys go on to the server.  The clipboard is the text that a key
  puts there; a key that panics gives \<open>None\<close>.
\<close>

section \<open>Motions by words\<close>

abbreviation blank :: "cell \<Rightarrow> bool" where
  "blank c \<equiv> is_whitespace (cell_ch c)"

definition skip_while :: "(cell \<Rightarrow> bool) \<Rightarrow> cell list \<Rightarrow> nat \<Rightarrow> nat" where
  "skip_while P cells c = c + length (takeWhile P (drop c cells))"

text \<open>The first cell that is not blank at or after a position, up to the last row.\<close>

function next_word_loop :: "cell list list \<Rightarrow> nat \<Rightarrow> nat \<Rightarrow> nat \<Rightarrow> (nat \<times> nat) option" where
  "next_word_loop rows max_row c r =
     (let hit = (case lget rows r of
            None \<Rightarrow> None
          | Some cells \<Rightarrow> let c' = skip_while blank cells c in if c' < length cells then Some c' else None) in
      case hit of
        Some c' \<Rightarrow> Some (c', r)
      | None \<Rightarrow> if max_row \<le> r then None else next_word_loop rows max_row 0 (Suc r))"
  by auto
termination by (relation "measure (\<lambda>(_, max_row, _, r). max_row - r)") auto

definition find_next_word_start :: "cell list list \<Rightarrow> nat \<Rightarrow> nat \<Rightarrow> nat \<Rightarrow> nat \<Rightarrow> nat \<times> nat" where
  "find_next_word_start rows col row max_col max_row =
     (let c = (case lget rows row of None \<Rightarrow> col | Some cells \<Rightarrow> skip_while (\<lambda>x. \<not> blank x) cells col) in
      case next_word_loop rows max_row c row of
        Some (c', r) \<Rightarrow> (wrap16 c', wrap16 r)
      | None \<Rightarrow> (max_col, max_row))"

text \<open>Back over blanks; \<open>k\<close> is the column plus one, so that 0 is the column before the first.  An
  empty row is read at its column before the first, which panics.\<close>

function prev_skip :: "cell list list \<Rightarrow> nat \<Rightarrow> nat \<Rightarrow> (nat \<times> nat) option option" where
  "prev_skip rows k r =
     (if k = 0 \<and> r = 0 then Some None
      else
        let (k', r') = (if k = 0
              then (case lget rows (r - 1) of None \<Rightarrow> 1 | Some cells \<Rightarrow> length cells, r - 1) else (k, r)) in
        case lget rows r' of
          None \<Rightarrow> prev_skip rows (k' - 1) r'
        | Some cells \<Rightarrow>
            if k' = 0 then None
            else if k' - 1 < length cells \<and> \<not> blank (cells ! (k' - 1)) then Some (Some (k' - 1, r'))
            else prev_skip rows (k' - 1) r')"
  by auto
termination by (relation "measures [\<lambda>(_, _, r). r, \<lambda>(_, k, _). k]") (auto split: if_splits)

fun back_to_start :: "cell list \<Rightarrow> nat \<Rightarrow> nat" where
  "back_to_start cells 0 = 0"
| "back_to_start cells (Suc c) = (if c < length cells \<and> blank (cells ! c) then Suc c else back_to_start cells c)"

definition find_prev_word_start :: "cell list list \<Rightarrow> nat \<Rightarrow> nat \<Rightarrow> (nat \<times> nat) option" where
  "find_prev_word_start rows col row =
     (case prev_skip rows col row of
        None \<Rightarrow> None
      | Some None \<Rightarrow> Some (0, 0)
      | Some (Some (c, r)) \<Rightarrow>
          Some (wrap16 (case lget rows r of None \<Rightarrow> c | Some cells \<Rightarrow> back_to_start cells c), wrap16 r))"

definition ends_word :: "cell list \<Rightarrow> nat \<Rightarrow> bool" where
  "ends_word cells c \<longleftrightarrow> \<not> blank (cells ! c) \<and> (length cells \<le> c + 1 \<or> blank (cells ! (c + 1)))"

function word_end_loop :: "cell list list \<Rightarrow> nat \<Rightarrow> nat \<Rightarrow> nat \<Rightarrow> (nat \<times> nat) option" where
  "word_end_loop rows max_row c r =
     (let hit = (case lget rows r of
            None \<Rightarrow> None
          | Some cells \<Rightarrow> List.find (ends_word cells) [skip_while blank cells c..<length cells]) in
      case hit of
        Some c' \<Rightarrow> Some (c', r)
      | None \<Rightarrow> if max_row \<le> r then None else word_end_loop rows max_row 0 (Suc r))"
  by auto
termination by (relation "measure (\<lambda>(_, max_row, _, r). max_row - r)") auto

definition find_word_end :: "cell list list \<Rightarrow> nat \<Rightarrow> nat \<Rightarrow> nat \<Rightarrow> nat \<Rightarrow> nat \<times> nat" where
  "find_word_end rows col row max_col max_row =
     (case word_end_loop rows max_row (col + 1) row of
        Some (c, r) \<Rightarrow> (wrap16 c, wrap16 r)
      | None \<Rightarrow> (max_col, max_row))"

declare next_word_loop.simps [simp del] prev_skip.simps [simp del] word_end_loop.simps [simp del]

section \<open>The search\<close>

text \<open>The characters before a byte offset.\<close>

definition chars_before :: "nat \<Rightarrow> rstr \<Rightarrow> nat" where
  "chars_before n s = length (take_bytes n s)"

fun forward_scan :: "cell list list \<Rightarrow> rstr \<Rightarrow> nat \<Rightarrow> nat \<Rightarrow> nat \<Rightarrow> nat \<Rightarrow> nat list \<Rightarrow> (nat \<times> nat) option" where
  "forward_scan rows q start_col start_row max_col rows_total [] = None"
| "forward_scan rows q start_col start_row max_col rows_total (dr # drs) =
     (let r = (start_row + dr) mod rows_total in
      case lget rows r of
        None \<Rightarrow> None
      | Some cells \<Rightarrow>
          let col_start = (if dr = 0 then start_col else 0);
              search_in = map cell_ch (drop col_start cells) in
          case (if length cells \<le> col_start then None else find_str q search_in) of
            Some off \<Rightarrow> Some (wrap16 (min (col_start + chars_before off search_in) max_col), wrap16 r)
          | None \<Rightarrow> forward_scan rows q start_col start_row max_col rows_total drs)"

definition copy_search_forward :: "cell list list \<Rightarrow> rstr \<Rightarrow> nat \<Rightarrow> nat \<Rightarrow> nat \<Rightarrow> nat \<Rightarrow> (nat \<times> nat) option" where
  "copy_search_forward rows q start_col start_row max_col max_row =
     (let rows_total = wrap16 (max_row + 1) in forward_scan rows q start_col start_row max_col rows_total [0..<rows_total])"

fun backward_scan :: "cell list list \<Rightarrow> rstr \<Rightarrow> nat \<Rightarrow> nat \<Rightarrow> nat \<Rightarrow> nat \<Rightarrow> nat list \<Rightarrow> (nat \<times> nat) option" where
  "backward_scan rows q start_col start_row max_col rows_total [] = None"
| "backward_scan rows q start_col start_row max_col rows_total (dr # drs) =
     (let r = (start_row + rows_total - dr) mod rows_total in
      case lget rows r of
        None \<Rightarrow> None
      | Some cells \<Rightarrow>
          let end_col = (if dr = 0 then min (start_col + length q) (length cells) else length cells);
              search_in = map cell_ch (take end_col cells) in
          case rfind_str q search_in of
            Some off \<Rightarrow> Some (wrap16 (min (chars_before off search_in) max_col), wrap16 r)
          | None \<Rightarrow> backward_scan rows q start_col start_row max_col rows_total drs)"

definition copy_search_prev :: "cell list list \<Rightarrow> rstr \<Rightarrow> nat \<Rightarrow> nat \<Rightarrow> nat \<Rightarrow> nat \<Rightarrow> (nat \<times> nat) option" where
  "copy_search_prev rows q start_col start_row max_col max_row =
     (let rows_total = wrap16 (max_row + 1) in backward_scan rows q start_col start_row max_col rows_total [0..<rows_total])"

section \<open>Copying\<close>

text \<open>The text that is copied, for the rows of the focused pane if there is one.\<close>

definition selected_text :: "cell list list \<Rightarrow> copy_mode_state \<Rightarrow> rstr" where
  "selected_text rows cm =
     (if cm_vi_mode cm = ViVisualLine then
        (case normalized_visual_line_range cm of
           None \<Rightarrow> []
         | Some (sr, er) \<Rightarrow> join_with 10 (map (map cell_ch) (List.map_filter (lget rows) [sr..<Suc er])))
      else
        (case normalized_selection cm of
           None \<Rightarrow> []
         | Some ((sc, sr), (ec, er)) \<Rightarrow>
             join_with 10 (List.map_filter (\<lambda>i. map_option (\<lambda>row.
                 let col_start = (if i = sr then sc else 0);
                     col_end = (if i = er then wrap16 (ec + 1) else length row) in
                 map cell_ch (drop col_start (take col_end row))) (lget rows i)) [sr..<Suc er])))"

section \<open>Keys\<close>

datatype copy_key =
    CmQ | CmEscape | CmH | CmLeft | CmL | CmRight | CmJ | CmDown | CmK | CmUp | CmDigit0 | CmDigit4 | CmDigit6
  | CmG | CmU | CmD | CmW | CmB | CmE | CmV | CmY | CmSlash | CmN | CmEnter | CmBackspace | CmOther nat

record copy_mods =
  md_shift :: bool
  md_ctrl :: bool

text \<open>The size of the client's grid and the rows of the focused pane.\<close>

record copy_view =
  cv_cols :: nat
  cv_rows :: nat
  cv_pane :: "cell list list option"

definition copy_view_of :: "gpu_state \<Rightarrow> copy_view" where
  "copy_view_of c = \<lparr>cv_cols = gs_cols c, cv_rows = gs_rows c,
     cv_pane = map_option (\<lambda>p. g_rows (gp_grid p)) (gpu_focused_pane c)\<rparr>"

definition move_to :: "(nat \<times> nat) option \<Rightarrow> copy_mode_state \<Rightarrow> copy_mode_state" where
  "move_to target cm =
     (case target of None \<Rightarrow> cm | Some (col, row) \<Rightarrow> cm\<lparr>cm_cursor_col := col, cm_cursor_row := row\<rparr>)"

text \<open>The state, whether the key was consumed, and the text put into the clipboard.\<close>

type_synonym copy_result = "copy_mode_state \<times> bool \<times> rstr option"

definition to_clipboard :: "rstr \<Rightarrow> rstr option" where
  "to_clipboard t = (if t = [] then None else Some t)"

definition handle_copy_mode_search_key :: "copy_view \<Rightarrow> copy_key \<Rightarrow> copy_mode_state \<Rightarrow> copy_result" where
  "handle_copy_mode_search_key cv key cm =
     (case key of
        CmEscape \<Rightarrow> (cm\<lparr>cm_search_input := None\<rparr>, True, None)
      | CmEnter \<Rightarrow>
          (let q = (case cm_search_input cm of None \<Rightarrow> [] | Some q \<Rightarrow> q); cm1 = cm\<lparr>cm_search_input := None\<rparr> in
           if q = [] then (cm1, True, None)
           else
             let result = Option.bind (cv_pane cv) (\<lambda>rows.
                   (if cm_search_backward cm then copy_search_prev else copy_search_forward)
                     rows q (cm_cursor_col cm) (cm_cursor_row cm) (cv_cols cv - 1) (cv_rows cv - 1)) in
             (case result of
                None \<Rightarrow> (cm1, True, None)
              | Some _ \<Rightarrow> ((move_to result cm1)\<lparr>cm_last_search_query := q\<rparr>, True, None)))
      | CmBackspace \<Rightarrow> (cm\<lparr>cm_search_input := map_option butlast (cm_search_input cm)\<rparr>, True, None)
      | _ \<Rightarrow> (cm, False, None))"

definition repeat_search :: "copy_view \<Rightarrow> copy_mods \<Rightarrow> copy_mode_state \<Rightarrow> copy_mode_state" where
  "repeat_search cv m cm =
     (let q = cm_last_search_query cm; backward = (cm_search_backward cm \<noteq> md_shift m) in
      if q = [] then cm
      else move_to (Option.bind (cv_pane cv) (\<lambda>rows.
        if backward then copy_search_prev rows q (cm_cursor_col cm - 1) (cm_cursor_row cm) (cv_cols cv - 1) (cv_rows cv - 1)
        else copy_search_forward rows q (wrap16 (cm_cursor_col cm + 1)) (cm_cursor_row cm) (cv_cols cv - 1) (cv_rows cv - 1))) cm)"

definition first_nonblank :: "copy_view \<Rightarrow> nat \<Rightarrow> nat" where
  "first_nonblank cv row =
     (case Option.bind (Option.bind (cv_pane cv) (\<lambda>rows. lget rows row)) (position (\<lambda>c. \<not> blank c)) of
        None \<Rightarrow> 0 | Some i \<Rightarrow> wrap16 i)"

definition half_page :: "copy_view \<Rightarrow> nat" where
  "half_page cv = max ((cv_rows cv - 1) div 2) 1"

text \<open>The main match, after a pending \<open>g\<close>.\<close>

definition copy_motion :: "copy_view \<Rightarrow> copy_mods \<Rightarrow> copy_key \<Rightarrow> copy_mode_state \<Rightarrow> copy_result option" where
  "copy_motion cv m key cm =
     (let max_col = cv_cols cv - 1; max_row = cv_rows cv - 1; col = cm_cursor_col cm; row = cm_cursor_row cm;
          ok = (\<lambda>cm'. Some (cm', True, None)); left = cm\<lparr>cm_cursor_col := col - 1\<rparr>;
          right = (if col < max_col then cm\<lparr>cm_cursor_col := col + 1\<rparr> else cm);
          down = (if row < max_row then cm\<lparr>cm_cursor_row := row + 1\<rparr> else cm);
          up = cm\<lparr>cm_cursor_row := row - 1\<rparr> in
      case key of
        CmQ \<Rightarrow> ok (copy_exit cm)
      | CmEscape \<Rightarrow> ok (copy_exit cm)
      | CmH \<Rightarrow> ok left
      | CmLeft \<Rightarrow> ok left
      | CmL \<Rightarrow> ok right
      | CmRight \<Rightarrow> ok right
      | CmJ \<Rightarrow> ok down
      | CmDown \<Rightarrow> ok down
      | CmK \<Rightarrow> ok up
      | CmUp \<Rightarrow> ok up
      | CmDigit0 \<Rightarrow> ok (cm\<lparr>cm_cursor_col := 0\<rparr>)
      | CmDigit4 \<Rightarrow> ok (cm\<lparr>cm_cursor_col := max_col\<rparr>)
      | CmDigit6 \<Rightarrow> ok (cm\<lparr>cm_cursor_col := first_nonblank cv row\<rparr>)
      | CmG \<Rightarrow> ok (if md_shift m then cm\<lparr>cm_cursor_row := max_row, cm_cursor_col := 0\<rparr> else cm\<lparr>cm_gg_pending := True\<rparr>)
      | CmU \<Rightarrow> if md_ctrl m then ok (cm\<lparr>cm_cursor_row := row - half_page cv\<rparr>) else Some (cm, False, None)
      | CmD \<Rightarrow> if md_ctrl m then ok (cm\<lparr>cm_cursor_row := min (wrap16 (row + half_page cv)) max_row\<rparr>)
               else Some (cm, False, None)
      | CmW \<Rightarrow> ok (move_to (map_option (\<lambda>rows. find_next_word_start rows col row max_col max_row) (cv_pane cv)) cm)
      | CmB \<Rightarrow>
          (case cv_pane cv of
             None \<Rightarrow> ok cm
           | Some rows \<Rightarrow> (case find_prev_word_start rows col row of None \<Rightarrow> None | Some p \<Rightarrow> ok (move_to (Some p) cm)))
      | CmE \<Rightarrow> ok (move_to (map_option (\<lambda>rows. find_word_end rows col row max_col max_row) (cv_pane cv)) cm)
      | CmV \<Rightarrow> ok (if md_shift m then toggle_visual_line cm else toggle_selection cm)
      | CmY \<Rightarrow>
          Some (copy_exit cm, True, to_clipboard
            (case cv_pane cv of
               None \<Rightarrow> []
             | Some rows \<Rightarrow>
                 if md_shift m then (case lget rows row of None \<Rightarrow> [] | Some cells \<Rightarrow> map cell_ch cells)
                 else selected_text rows cm))
      | CmSlash \<Rightarrow> ok (cm\<lparr>cm_search_input := Some [], cm_search_backward := md_shift m\<rparr>)
      | CmN \<Rightarrow> ok (repeat_search cv m cm)
      | CmEnter \<Rightarrow> Some (cm, False, None)
      | CmBackspace \<Rightarrow> Some (cm, False, None)
      | CmOther _ \<Rightarrow> Some (cm, False, None))"

definition handle_copy_mode_key :: "copy_view \<Rightarrow> copy_mods \<Rightarrow> copy_key \<Rightarrow> copy_mode_state \<Rightarrow> copy_result option" where
  "handle_copy_mode_key cv m key cm =
     (if is_in_search_input cm then Some (handle_copy_mode_search_key cv key cm)
      else if cm_gg_pending cm \<and> key = CmG \<and> \<not> md_shift m
      then Some (cm\<lparr>cm_gg_pending := False, cm_cursor_row := 0, cm_cursor_col := 0\<rparr>, True, None)
      else copy_motion cv m key (cm\<lparr>cm_gg_pending := False\<rparr>))"

text \<open>The keys typed while the mode is active, until it is left: those that are not consumed go to
  the server.  Shortcuts that \<open>handle_key\<close> takes before it asks the copy mode, such as Ctrl+F and
  Ctrl+Shift+P, do not get here.\<close>

fun copy_keys :: "copy_view \<Rightarrow> (copy_mods \<times> copy_key) list \<Rightarrow> copy_mode_state
    \<Rightarrow> (copy_mode_state \<times> (copy_mods \<times> copy_key) list) option" where
  "copy_keys cv [] cm = Some (cm, [])"
| "copy_keys cv ((m, key) # keys) cm =
     (if \<not> cm_is_active cm then Some (cm, [])
      else case handle_copy_mode_key cv m key cm of
        None \<Rightarrow> None
      | Some (cm', consumed, _) \<Rightarrow>
          (case copy_keys cv keys cm' of
             None \<Rightarrow> None
           | Some (cm'', sent) \<Rightarrow> Some (cm'', if consumed then sent else (m, key) # sent)))"

end
