(* ===== verification/Copy_Facts.thy ===== *)
theory Copy_Facts
  imports Copy_Mode
begin

text \<open>
  The word motions of the copy mode against a definition by the starts and ends of words in reading
  order, and what becomes of the search.
\<close>

section \<open>Words in reading order\<close>

definition pos_less :: "cell_pos \<Rightarrow> cell_pos \<Rightarrow> bool" where
  "pos_less p q \<longleftrightarrow> snd p < snd q \<or> snd p = snd q \<and> fst p < fst q"

definition filled_at :: "cell list list \<Rightarrow> cell_pos \<Rightarrow> bool" where
  "filled_at rows p \<longleftrightarrow> snd p < length rows \<and> fst p < length (rows ! snd p) \<and> \<not> blank (rows ! snd p ! fst p)"

definition starts_word_at :: "cell list list \<Rightarrow> cell_pos \<Rightarrow> bool" where
  "starts_word_at rows p \<longleftrightarrow> filled_at rows p \<and> (fst p = 0 \<or> \<not> filled_at rows (fst p - 1, snd p))"

definition ends_word_at :: "cell list list \<Rightarrow> cell_pos \<Rightarrow> bool" where
  "ends_word_at rows p \<longleftrightarrow> filled_at rows p \<and> \<not> filled_at rows (fst p + 1, snd p)"

text \<open>The least position with a property, or else a default.\<close>

definition nearest :: "(cell_pos \<Rightarrow> bool) \<Rightarrow> (cell_pos \<Rightarrow> cell_pos \<Rightarrow> bool) \<Rightarrow> cell_pos \<Rightarrow> cell_pos \<Rightarrow> bool" where
  "nearest P le other p \<longleftrightarrow> (if \<exists>q. P q then P p \<and> (\<forall>q. P q \<longrightarrow> le p q) else p = other)"

lemma nearest_none: "\<not> (\<exists>q. P q) \<Longrightarrow> nearest P le other other"
  and nearest_some: "\<lbrakk>P p; \<And>q. P q \<Longrightarrow> le p q\<rbrakk> \<Longrightarrow> nearest P le other p"
  unfolding nearest_def by metis+

lemma pos_less_simp [simp]: "pos_less (c, r) (c', r') \<longleftrightarrow> r < r' \<or> r = r' \<and> c < c'"
  by (simp add: pos_less_def)

lemma pos_le_simp [simp]: "pos_le (c, r) (c', r') \<longleftrightarrow> r < r' \<or> r = r' \<and> c \<le> c'"
  by (simp add: pos_le_def)

lemma skip_while_spec:
  shows "c \<le> skip_while P cells c" "c \<le> j \<Longrightarrow> j < skip_while P cells c \<Longrightarrow> j < length cells \<and> P (cells ! j)"
    "skip_while P cells c < length cells \<Longrightarrow> \<not> P (cells ! skip_while P cells c)"
proof -
  let ?t = "takeWhile P (drop c cells)"
  have len: "length ?t \<le> length cells - c" using length_takeWhile_le [of P "drop c cells"] by simp
  show "c \<le> skip_while P cells c" by (simp add: skip_while_def)
  show "j < length cells \<and> P (cells ! j)" if "c \<le> j" "j < skip_while P cells c"
  proof -
    have j: "j - c < length ?t" using that by (simp add: skip_while_def)
    then have "P (?t ! (j - c))" using set_takeWhileD [OF nth_mem [OF j]] by blast
    moreover have "?t ! (j - c) = drop c cells ! (j - c)" by (rule takeWhile_nth [OF j])
    ultimately show ?thesis using that(1) j len by simp
  qed
  show "\<not> P (cells ! skip_while P cells c)" if "skip_while P cells c < length cells"
    using that nth_length_takeWhile [of P "drop c cells"] by (simp add: skip_while_def)
qed

section \<open>The next start\<close>

definition from_pos :: "cell list list \<Rightarrow> nat \<Rightarrow> cell_pos \<Rightarrow> cell_pos \<Rightarrow> bool" where
  "from_pos rows max_row p q \<longleftrightarrow> filled_at rows q \<and> pos_le p q \<and> snd q \<le> max_row"

lemma next_word_loop_spec:
  assumes "r \<le> max_row"
  shows "(case next_word_loop rows max_row c r of
      Some p \<Rightarrow> from_pos rows max_row (c, r) p \<and> (\<forall>q. from_pos rows max_row (c, r) q \<longrightarrow> pos_le p q)
    | None \<Rightarrow> \<not> (\<exists>q. from_pos rows max_row (c, r) q))"
  using assms
proof (induction rows max_row c r rule: next_word_loop.induct)
  case (1 rows max_row c r)
  let ?c = "skip_while blank (rows ! r) c"
  show ?case
  proof (cases "r < length rows \<and> ?c < length (rows ! r)")
    case True
    then have "next_word_loop rows max_row c r = Some (?c, r)" by (subst next_word_loop.simps) simp
    moreover have "\<not> blank (rows ! r ! ?c)" "c \<le> ?c" using True skip_while_spec(3) [of blank "rows ! r" c] skip_while_spec(1) [of c blank "rows ! r"] by blast+
    moreover have "?c \<le> c'" if "filled_at rows (c', r)" "c \<le> c'" for c'
      using that skip_while_spec(2) [of c c' blank "rows ! r"] by (fastforce simp: filled_at_def not_less)
    ultimately show ?thesis using True 1(2) by (auto simp: from_pos_def filled_at_def)
  next
    case False
    have none: "\<not> filled_at rows (c', r)" if "c \<le> c'" for c'
      using that False skip_while_spec(2) [of c c' blank "rows ! r"] by (auto simp: filled_at_def)
    have step: "next_word_loop rows max_row c r =
        (if max_row \<le> r then None else next_word_loop rows max_row 0 (Suc r))"
      using False by (subst next_word_loop.simps) (auto simp: lget_def Let_def)
    have same: "from_pos rows max_row (c, r) q \<longleftrightarrow> r < max_row \<and> from_pos rows max_row (0, Suc r) q" for q
      using none by (cases q) (auto simp: from_pos_def Suc_le_eq dest: le_neq_implies_less)
    show ?thesis
    proof (cases "max_row \<le> r")
      case True
      then show ?thesis using same by (simp add: step)
    next
      case less: False
      have hit: "(case lget rows r of None \<Rightarrow> None
            | Some cells \<Rightarrow> let c' = skip_while blank cells c in if c' < length cells then Some c' else None) = None"
        using False by (auto simp: lget_def Let_def)
      from 1(1) [OF refl] less hit have "case next_word_loop rows max_row 0 (Suc r) of
          Some p \<Rightarrow> from_pos rows max_row (0, Suc r) p \<and> (\<forall>q. from_pos rows max_row (0, Suc r) q \<longrightarrow> pos_le p q)
        | None \<Rightarrow> \<not> (\<exists>q. from_pos rows max_row (0, Suc r) q)" by simp
      then show ?thesis using less same
        by (cases "next_word_loop rows max_row 0 (Suc r)") (simp_all add: step del: pos_le_simp split_paired_All split_paired_Ex)
    qed
  qed
qed

lemma next_start_spec:
  assumes "row \<le> max_row" "max_row < 65536" "\<forall>cells \<in> set rows. length cells \<le> 65536"
  shows "nearest (\<lambda>p. starts_word_at rows p \<and> pos_less (col, row) p \<and> snd p \<le> max_row) pos_le (max_col, max_row)
    (find_next_word_start rows col row max_col max_row)"
proof -
  define C where "C = (case lget rows row of None \<Rightarrow> col | Some cells \<Rightarrow> skip_while (\<lambda>x. \<not> blank x) cells col)"
  let ?P = "\<lambda>p. starts_word_at rows p \<and> pos_less (col, row) p \<and> snd p \<le> max_row"
  have col: "col \<le> C" using skip_while_spec(1) by (auto simp: C_def lget_def)
  have inside: "filled_at rows (j, row)" if "col \<le> j" "j < C" for j
    using that skip_while_spec(2) [of col j "\<lambda>x. \<not> blank x" "rows ! row"] by (auto simp: C_def lget_def filled_at_def split: if_splits)
  have at: "\<not> filled_at rows (C, row)"
    using skip_while_spec(3) [of "\<lambda>x. \<not> blank x" "rows ! row" col] by (auto simp: C_def lget_def filled_at_def split: if_splits)
  have later: "from_pos rows max_row (C, row) q" if "?P q" for q
  proof (cases q)
    case (Pair c' r')
    have "C \<le> c'" if "r' = row"
    proof (rule ccontr)
      assume "\<not> C \<le> c'"
      then have "col \<le> c' - 1" "c' - 1 < C" using \<open>?P q\<close> Pair that by auto
      from inside [OF this] show False using \<open>?P q\<close> Pair that by (auto simp: starts_word_at_def)
    qed
    then show ?thesis using \<open>?P q\<close> Pair by (auto simp: from_pos_def starts_word_at_def)
  qed
  show ?thesis
  proof (cases "next_word_loop rows max_row C row")
    case None
    then have "\<not> (\<exists>q. from_pos rows max_row (C, row) q)"
      using next_word_loop_spec [OF assms(1), of rows C] by (simp del: split_paired_Ex)
    then have "\<not> (\<exists>q. ?P q)" using later by blast
    then have "nearest ?P pos_le (max_col, max_row) (max_col, max_row)" by (rule nearest_none)
    then show ?thesis by (simp add: find_next_word_start_def C_def [symmetric] None)
  next
    case (Some p)
    obtain c' r' where p: "p = (c', r')" by fastforce
    have f: "from_pos rows max_row (C, row) (c', r')" "\<And>q. from_pos rows max_row (C, row) q \<Longrightarrow> pos_le (c', r') q"
      using next_word_loop_spec [OF assms(1), of rows C] Some p by auto
    have "\<not> filled_at rows (c' - 1, r')" if "c' \<noteq> 0"
    proof
      assume prev: "filled_at rows (c' - 1, r')"
      have "C < c'" if "r' = row" using f(1) at that by (auto simp: from_pos_def intro: le_neq_implies_less)
      then have "from_pos rows max_row (C, row) (c' - 1, r')" using prev f(1) by (auto simp: from_pos_def)
      from f(2) [OF this] show False using that by simp
    qed
    moreover have "pos_less (col, row) (c', r')" using f(1) at col by (auto simp: from_pos_def intro: le_neq_implies_less)
    ultimately have start: "?P (c', r')" using f(1) by (auto simp: starts_word_at_def from_pos_def)
    have "length (rows ! r') \<le> 65536" using f(1) assms(3) by (simp add: from_pos_def filled_at_def)
    then have "c' < 65536" "r' < 65536" using f(1) assms(2) by (simp_all add: from_pos_def filled_at_def)
    moreover have "nearest ?P pos_le (max_col, max_row) (c', r')"
      by (rule nearest_some, rule start, rule f(2), rule later)
    ultimately show ?thesis by (simp add: find_next_word_start_def C_def [symmetric] Some p)
  qed
qed

section \<open>The next end\<close>

definition end_from :: "cell list list \<Rightarrow> nat \<Rightarrow> cell_pos \<Rightarrow> cell_pos \<Rightarrow> bool" where
  "end_from rows max_row p q \<longleftrightarrow> ends_word_at rows q \<and> pos_le p q \<and> snd q \<le> max_row"

lemma ends_word_at_row:
  "ends_word_at rows (c, r) \<longleftrightarrow> r < length rows \<and> c < length (rows ! r) \<and> ends_word (rows ! r) c"
  by (auto simp: ends_word_at_def filled_at_def ends_word_def)

lemma find_upt:
  "(case List.find P [a..<b] of
     Some c \<Rightarrow> a \<le> c \<and> c < b \<and> P c \<and> (\<forall>j. a \<le> j \<and> j < c \<longrightarrow> \<not> P j)
   | None \<Rightarrow> \<forall>j. a \<le> j \<and> j < b \<longrightarrow> \<not> P j)"
proof (cases "List.find P [a..<b]")
  case (Some c)
  then obtain i where i: "i < b - a" "P (a + i)" "c = a + i" "\<forall>j < i. \<not> P (a + j)"
    by (auto simp: find_Some_iff)
  have "\<not> P j" if "a \<le> j" "j < c" for j
    using i(3) spec [OF i(4), of "j - a"] that by simp
  with i show ?thesis by (simp add: Some)
next
  case None
  then have "\<forall>j. a \<le> j \<and> j < b \<longrightarrow> \<not> P j" by (auto simp: find_None_iff)
  then show ?thesis by (simp add: None)
qed

lemma word_end_loop_spec:
  assumes "r \<le> max_row"
  shows "(case word_end_loop rows max_row c r of
      Some p \<Rightarrow> end_from rows max_row (c, r) p \<and> (\<forall>q. end_from rows max_row (c, r) q \<longrightarrow> pos_le p q)
    | None \<Rightarrow> \<not> (\<exists>q. end_from rows max_row (c, r) q))"
  using assms
proof (induction rows max_row c r rule: word_end_loop.induct)
  case (1 rows max_row c r)
  let ?hit = "case lget rows r of None \<Rightarrow> None
    | Some cells \<Rightarrow> List.find (ends_word cells) [skip_while blank cells c..<length cells]"
  have skipped: "skip_while blank (rows ! r) c \<le> j" if "c \<le> j" "ends_word (rows ! r) j" for j
    using that skip_while_spec(2) [of c j blank "rows ! r"] by (force simp: ends_word_def not_less [symmetric])
  have hit: "(case ?hit of
      Some c' \<Rightarrow> c \<le> c' \<and> ends_word_at rows (c', r) \<and> (\<forall>j. c \<le> j \<and> ends_word_at rows (j, r) \<longrightarrow> c' \<le> j)
    | None \<Rightarrow> \<forall>j \<ge> c. \<not> ends_word_at rows (j, r))"
  proof (cases "r < length rows")
    case True
    let ?s = "skip_while blank (rows ! r) c"
    let ?find = "List.find (ends_word (rows ! r)) [?s..<length (rows ! r)]"
    note found = find_upt [where P = "ends_word (rows ! r)" and a = ?s and b = "length (rows ! r)"]
    show ?thesis
    proof (cases ?find)
      case None
      have "\<not> ends_word_at rows (j, r)" if "c \<le> j" for j
        using found None skipped [OF that] by (auto simp: ends_word_at_row)
      then show ?thesis using True None by simp
    next
      case (Some c')
      then have f: "?s \<le> c'" "c' < length (rows ! r)" "ends_word (rows ! r) c'"
        "\<And>j. ?s \<le> j \<Longrightarrow> j < c' \<Longrightarrow> \<not> ends_word (rows ! r) j" using found by auto
      have "c' \<le> j" if "c \<le> j" "ends_word_at rows (j, r)" for j
        using f(4) [of j] skipped [OF that(1)] that(2) by (auto simp: ends_word_at_row not_less [symmetric])
      then show ?thesis using True Some f skip_while_spec(1) [of c blank "rows ! r"] by (simp add: ends_word_at_row)
    qed
  qed (simp add: ends_word_at_row)
  have step: "word_end_loop rows max_row c r =
      (case ?hit of Some c' \<Rightarrow> Some (c', r) | None \<Rightarrow> if max_row \<le> r then None else word_end_loop rows max_row 0 (Suc r))"
    by (subst word_end_loop.simps) (simp add: Let_def)
  show ?case
  proof (cases ?hit)
    case (Some c')
    then show ?thesis using hit 1(2) step by (auto simp: end_from_def)
  next
    case None
    have same: "end_from rows max_row (c, r) q \<longleftrightarrow> r < max_row \<and> end_from rows max_row (0, Suc r) q" for q
      using hit None by (cases q) (auto simp: end_from_def Suc_le_eq dest: le_neq_implies_less)
    show ?thesis
    proof (cases "max_row \<le> r")
      case True
      then show ?thesis using same None by (simp add: step)
    next
      case False
      from 1(1) [OF refl None False] False show ?thesis using same None
        by (cases "word_end_loop rows max_row 0 (Suc r)") (simp_all add: step del: pos_le_simp split_paired_All split_paired_Ex)
    qed
  qed
qed

lemma next_end_spec:
  assumes "row \<le> max_row" "max_row < 65536" "\<forall>cells \<in> set rows. length cells \<le> 65536"
  shows "nearest (\<lambda>p. ends_word_at rows p \<and> pos_less (col, row) p \<and> snd p \<le> max_row) pos_le (max_col, max_row)
    (find_word_end rows col row max_col max_row)"
proof -
  have same: "(ends_word_at rows p \<and> pos_less (col, row) p \<and> snd p \<le> max_row) \<longleftrightarrow> end_from rows max_row (Suc col, row) p" for p
    by (cases p) (auto simp: end_from_def)
  show ?thesis
  proof (cases "word_end_loop rows max_row (Suc col) row")
    case None
    then have "\<not> (\<exists>q. end_from rows max_row (Suc col, row) q)"
      using word_end_loop_spec [OF assms(1), of rows "Suc col"] by (simp del: split_paired_Ex)
    from nearest_none [OF this] show ?thesis using None unfolding same by (simp add: find_word_end_def)
  next
    case (Some p)
    obtain c' r' where p: "p = (c', r')" by fastforce
    have f: "end_from rows max_row (Suc col, row) (c', r')"
      "\<And>q. end_from rows max_row (Suc col, row) q \<Longrightarrow> pos_le (c', r') q"
      using word_end_loop_spec [OF assms(1), of rows "Suc col"] Some p by auto
    have "length (rows ! r') \<le> 65536" using f(1) assms(3) by (simp add: end_from_def ends_word_at_row)
    then have "c' < 65536" "r' < 65536" using f(1) assms(2) by (simp_all add: end_from_def ends_word_at_row)
    moreover have "nearest (end_from rows max_row (Suc col, row)) pos_le (max_col, max_row) (c', r')"
      by (rule nearest_some, rule f(1), rule f(2))
    ultimately show ?thesis unfolding same by (simp add: find_word_end_def Some p)
  qed
qed

section \<open>The previous start\<close>

definition filled_before :: "cell list list \<Rightarrow> cell_pos \<Rightarrow> cell_pos \<Rightarrow> bool" where
  "filled_before rows p q \<longleftrightarrow> filled_at rows q \<and> pos_less q p"

lemma filled_before_0: "filled_before rows (0, Suc r) q \<longleftrightarrow>
    filled_before rows (case lget rows r of None \<Rightarrow> 1 | Some cells \<Rightarrow> length cells, r) q"
  by (cases q) (auto simp: filled_before_def filled_at_def lget_def less_Suc_eq)

lemma filled_before_Suc: "filled_before rows (Suc k, r) q \<longleftrightarrow>
    filled_at rows (k, r) \<and> q = (k, r) \<or> filled_before rows (k, r) q"
  by (cases q) (auto simp: filled_before_def less_Suc_eq)

lemma prev_skip_spec:
  assumes "\<forall>cells \<in> set rows. cells \<noteq> []"
  shows "(case prev_skip rows k r of
      None \<Rightarrow> False
    | Some None \<Rightarrow> \<not> (\<exists>q. filled_before rows (k, r) q)
    | Some (Some p) \<Rightarrow> filled_before rows (k, r) p \<and> (\<forall>q. filled_before rows (k, r) q \<longrightarrow> pos_le q p))"
  using assms
proof (induction rows k r rule: prev_skip.induct)
  case (1 rows k r)
  show ?case
  proof (cases "k = 0 \<and> r = 0")
    case True
    then show ?thesis by (subst prev_skip.simps) (auto simp: filled_before_def)
  next
    case False
    define k' where "k' = (if k = 0 then case lget rows (r - 1) of None \<Rightarrow> 1 | Some cells \<Rightarrow> length cells else k)"
    define r' where "r' = (if k = 0 then r - 1 else r)"
    have pair: "(if k = 0 then (case lget rows (r - 1) of None \<Rightarrow> 1 | Some cells \<Rightarrow> length cells, r - 1) else (k, r)) = (k', r')"
      by (simp add: k'_def r'_def)
    have pos: "0 < k'" using 1(3) by (auto simp: k'_def lget_def)
    have same: "filled_before rows (k, r) = filled_before rows (k', r')"
      using False filled_before_0 [of rows "r - 1"] by (auto simp: k'_def r'_def fun_eq_iff split: if_splits)
    have less: "filled_before rows (k', r') q \<longleftrightarrow> filled_at rows (k' - 1, r') \<and> q = (k' - 1, r') \<or> filled_before rows (k' - 1, r') q" for q
      using filled_before_Suc [of rows "k' - 1" r' q] pos by simp
    have step: "prev_skip rows k r =
        (if filled_at rows (k' - 1, r') then Some (Some (k' - 1, r')) else prev_skip rows (k' - 1) r')"
    proof -
      have "prev_skip rows k r = (case lget rows r' of
          None \<Rightarrow> prev_skip rows (k' - 1) r'
        | Some cells \<Rightarrow>
            if k' = 0 then None
            else if k' - 1 < length cells \<and> \<not> blank (cells ! (k' - 1)) then Some (Some (k' - 1, r'))
            else prev_skip rows (k' - 1) r')"
        by (subst prev_skip.simps) (simp only: pair False if_False Let_def prod.case)
      then show ?thesis using pos by (cases "r' < length rows") (simp_all add: filled_at_def)
    qed
    show ?thesis
    proof (cases "filled_at rows (k' - 1, r')")
      case True
      have "pos_le q (k' - 1, r')" if "filled_before rows (k', r') q" for q
        using that pos by (cases q) (auto simp: filled_before_def)
      then show ?thesis using True less by (simp add: step same)
    next
      case notfilled: False
      have eq: "filled_before rows (k, r) = filled_before rows (k' - 1, r')" using less notfilled by (auto simp: same fun_eq_iff)
      have st: "prev_skip rows k r = prev_skip rows (k' - 1) r'" using notfilled by (simp add: step)
      have rest: "(case prev_skip rows (k' - 1) r' of
          None \<Rightarrow> False
        | Some None \<Rightarrow> \<not> (\<exists>q. filled_before rows (k' - 1, r') q)
        | Some (Some p) \<Rightarrow> filled_before rows (k' - 1, r') p \<and> (\<forall>q. filled_before rows (k' - 1, r') q \<longrightarrow> pos_le q p))"
      proof (cases "lget rows r'")
        case None
        from 1(1) [OF False refl pair [symmetric] this 1(3)] show ?thesis .
      next
        case (Some cells)
        then have cond: "\<not> (k' - 1 < length cells \<and> \<not> blank (cells ! (k' - 1)))" using notfilled
          by (auto simp: filled_at_def lget_def split: if_splits)
        have "k' \<noteq> 0" using pos by simp
        from 1(2) [OF False refl pair [symmetric] Some this cond 1(3)] show ?thesis .
      qed
      show ?thesis unfolding st eq by (rule rest)
    qed
  qed
qed

lemma back_to_start_spec:
  assumes "c < length cells" "\<not> blank (cells ! c)"
  shows "back_to_start cells c \<le> c \<and> (\<forall>j. back_to_start cells c \<le> j \<and> j \<le> c \<longrightarrow> \<not> blank (cells ! j))
    \<and> (back_to_start cells c = 0 \<or> blank (cells ! (back_to_start cells c - 1)))"
  using assms
proof (induction cells c rule: back_to_start.induct)
  case (2 cells c)
  show ?case
  proof (cases "c < length cells \<and> blank (cells ! c)")
    case True
    then show ?thesis using 2(3) by (auto simp: le_Suc_eq dest: le_antisym)
  next
    case False
    then have "c < length cells" "\<not> blank (cells ! c)" using 2(2) by auto
    from 2(1) [OF False this] False 2(3) show ?thesis by (auto simp: le_Suc_eq)
  qed
qed simp

lemma prev_start_spec:
  assumes "length rows \<le> 65536" "\<forall>cells \<in> set rows. cells \<noteq> [] \<and> length cells \<le> 65536"
  shows "\<exists>p. find_prev_word_start rows col row = Some p
    \<and> nearest (\<lambda>p. starts_word_at rows p \<and> pos_less p (col, row)) (\<lambda>p q. pos_le q p) (0, 0) p"
proof -
  let ?P = "\<lambda>p. starts_word_at rows p \<and> pos_less p (col, row)"
  have spec: "case prev_skip rows col row of
      None \<Rightarrow> False
    | Some None \<Rightarrow> \<not> (\<exists>q. filled_before rows (col, row) q)
    | Some (Some p) \<Rightarrow> filled_before rows (col, row) p \<and> (\<forall>q. filled_before rows (col, row) q \<longrightarrow> pos_le q p)"
    using prev_skip_spec assms(2) by blast
  have before: "filled_before rows (col, row) q" if "?P q" for q
    using that by (simp add: filled_before_def starts_word_at_def)
  show ?thesis
  proof (cases "prev_skip rows col row")
    case None
    then show ?thesis using spec by simp
  next
    case (Some res)
    show ?thesis
    proof (cases res)
      case None
      then have "\<not> (\<exists>q. filled_before rows (col, row) q)" using spec Some by (simp del: split_paired_Ex)
      then have none: "\<not> (\<exists>q. ?P q)" using before by blast
      from nearest_none [OF none] show ?thesis using Some None by (simp add: find_prev_word_start_def)
    next
      case p: (Some p)
      obtain c r where cr: "p = (c, r)" by fastforce
      have f: "filled_before rows (col, row) (c, r)" "\<And>q. filled_before rows (col, row) q \<Longrightarrow> pos_le q (c, r)"
        using spec Some p cr by auto
      let ?cells = "rows ! r" and ?s = "back_to_start (rows ! r) c"
      have in_row: "r < length rows" "c < length ?cells" "\<not> blank (?cells ! c)"
        using f(1) by (auto simp: filled_before_def filled_at_def)
      note s = back_to_start_spec [OF in_row(2,3)]
      have start: "?P (?s, r)"
      proof -
        have "?s < length ?cells" "\<not> blank (?cells ! ?s)" using s in_row(2) by auto
        moreover have "pos_less (?s, r) (col, row)" using f(1) s by (auto simp: filled_before_def)
        ultimately show ?thesis using s in_row(1) by (auto simp: starts_word_at_def filled_at_def)
      qed
      have most: "pos_le q (?s, r)" if "?P q" for q
      proof (cases q)
        case (Pair c' r')
        have le: "pos_le (c', r') (c, r)" using f(2) [OF before [OF that]] Pair by simp
        have "c' \<le> ?s" if "r' = r"
        proof (rule ccontr)
          assume "\<not> c' \<le> ?s"
          then have "?s \<le> c' - 1" "c' - 1 \<le> c" using le that by auto
          then have "filled_at rows (c' - 1, r)" using s in_row by (auto simp: filled_at_def)
          then show False using \<open>?P q\<close> Pair that \<open>\<not> c' \<le> ?s\<close> by (auto simp: starts_word_at_def simp del: One_nat_def)
        qed
        then show ?thesis using le Pair by auto
      qed
      have "length ?cells \<le> 65536" using assms(2) in_row(1) by simp
      then have small: "?s < 65536" "r < 65536" using s in_row assms(1) by linarith+
      have "nearest ?P (\<lambda>p q. pos_le q p) (0, 0) (?s, r)"
        by (rule nearest_some, rule start, rule most)
      then show ?thesis using Some p cr in_row(1) small by (simp add: find_prev_word_start_def)
    qed
  qed
qed

section \<open>What becomes of the search\<close>

definition never_searched :: "copy_mode_state \<Rightarrow> bool" where
  "never_searched cm \<longleftrightarrow> cm_search_input cm \<in> {None, Some []} \<and> cm_last_search_query cm = []"

lemma move_to_fields [simp]:
  "cm_search_input (move_to t cm) = cm_search_input cm" "cm_last_search_query (move_to t cm) = cm_last_search_query cm"
  by (simp_all add: move_to_def split: option.split)

lemma never_searched_updates [simp]:
  "never_searched (cm\<lparr>cm_cursor_col := x\<rparr>) = never_searched cm"
  "never_searched (cm\<lparr>cm_cursor_row := x\<rparr>) = never_searched cm"
  "never_searched (cm\<lparr>cm_gg_pending := g\<rparr>) = never_searched cm"
  "never_searched (move_to t cm) = never_searched cm"
  "never_searched (toggle_selection cm) = never_searched cm"
  "never_searched (toggle_visual_line cm) = never_searched cm"
  "never_searched (repeat_search cv m cm) = never_searched cm"
  by (simp_all add: never_searched_def toggle_selection_def toggle_visual_line_def repeat_search_def Let_def)

lemma never_searched_input [simp]:
  "never_searched cm \<Longrightarrow> never_searched (copy_exit cm)"
  "never_searched cm \<Longrightarrow> never_searched (cm\<lparr>cm_search_input := Some [], cm_search_backward := b\<rparr>)"
  by (simp_all add: never_searched_def copy_exit_def)

lemma never_searched_motion:
  assumes "never_searched cm" "copy_motion cv m key cm = Some (cm', rest)"
  shows "never_searched cm'"
proof -
  have "case copy_motion cv m key cm of None \<Rightarrow> True | Some (cm', _) \<Rightarrow> never_searched cm'"
    using assms(1) by (cases key) (simp_all add: copy_motion_def Let_def split: option.split)
  with assms(2) show ?thesis by simp
qed

lemma never_searched_key:
  assumes "never_searched cm" "handle_copy_mode_key cv m key cm = Some (cm', rest)"
  shows "never_searched cm'"
proof (cases "is_in_search_input cm")
  case True
  with assms show ?thesis
    by (cases key) (auto simp: handle_copy_mode_key_def handle_copy_mode_search_key_def is_in_search_input_def
        never_searched_def Let_def)
next
  case False
  have clear: "never_searched (cm\<lparr>cm_gg_pending := False\<rparr>)" using assms(1) by simp
  show ?thesis
  proof (cases "cm_gg_pending cm \<and> key = CmG \<and> \<not> md_shift m")
    case True
    have "cm' = cm\<lparr>cm_gg_pending := False, cm_cursor_row := 0, cm_cursor_col := 0\<rparr>"
      using assms(2) False True by (simp add: handle_copy_mode_key_def)
    then show ?thesis using assms(1) by simp
  next
    case other: False
    have "copy_motion cv m key (cm\<lparr>cm_gg_pending := False\<rparr>) = Some (cm', rest)"
      using assms(2) False other by (simp only: handle_copy_mode_key_def if_False)
    from never_searched_motion [OF clear this] show ?thesis .
  qed
qed

lemma never_searched_run:
  "\<lbrakk>never_searched cm; copy_keys cv keys cm = Some (cm', sent)\<rbrakk> \<Longrightarrow> never_searched cm'"
proof (induction cv keys cm arbitrary: sent rule: copy_keys.induct)
  case (2 cv m key keys cm)
  show ?case
  proof (cases "cm_is_active cm")
    case True
    then obtain cm1 consumed t where h: "handle_copy_mode_key cv m key cm = Some (cm1, consumed, t)"
      using "2.prems"(2) by (auto split: option.splits)
    then obtain sent1 where "copy_keys cv keys cm1 = Some (cm', sent1)"
      using True "2.prems"(2) by (auto split: option.splits)
    with "2.IH" [of "(cm1, consumed, t)" cm1 "(consumed, t)" consumed t] True h never_searched_key [OF "2.prems"(1) h]
    show ?thesis by auto
  qed (use 2 in simp)
qed simp

lemma search_text_sent:
  assumes "cm_is_active cm" "cm_search_input cm = Some q" "snd ` set typed \<inter> {CmEscape, CmEnter, CmBackspace} = {}"
  shows "copy_keys cv (typed @ keys) cm = (case copy_keys cv keys cm of None \<Rightarrow> None | Some (cm', sent) \<Rightarrow> Some (cm', typed @ sent))"
  using assms(3)
proof (induction typed)
  case Nil
  then show ?case by (simp split: option.split prod.split)
next
  case (Cons e typed)
  obtain m key where e: "e = (m, key)" by fastforce
  have "handle_copy_mode_key cv m key cm = Some (cm, False, None)"
    using Cons.prems assms(2)
    by (cases key) (auto simp: e handle_copy_mode_key_def is_in_search_input_def handle_copy_mode_search_key_def)
  with Cons assms(1) show ?case by (simp add: e split: option.split prod.split)
qed

section \<open>The properties\<close>

text \<open>C35: The keys w and e go to the nearest start and end of a word after the cursor in reading order, or to the last cell
  of the screen, and b to the nearest start before it, or to the first cell; b does not panic while no row is empty.
\<close>

theorem word_motions_exact:
  assumes "row \<le> max_row" "max_row < 65536" "length rows \<le> 65536"
    and "\<forall>cells \<in> set rows. cells \<noteq> [] \<and> length cells \<le> 65536"
  shows "nearest (\<lambda>p. starts_word_at rows p \<and> pos_less (col, row) p \<and> snd p \<le> max_row) pos_le (max_col, max_row)
      (find_next_word_start rows col row max_col max_row)
    \<and> nearest (\<lambda>p. ends_word_at rows p \<and> pos_less (col, row) p \<and> snd p \<le> max_row) pos_le (max_col, max_row)
      (find_word_end rows col row max_col max_row)
    \<and> (\<exists>p. find_prev_word_start rows col row = Some p
      \<and> nearest (\<lambda>p. starts_word_at rows p \<and> pos_less p (col, row)) (\<lambda>p q. pos_le q p) (0, 0) p)"
proof -
  have "\<forall>cells \<in> set rows. length cells \<le> 65536" using assms(4) by blast
  then show ?thesis
    using next_start_spec [OF assms(1,2)] next_end_spec [OF assms(1,2)] prev_start_spec [OF assms(3,4)] by simp
qed

lemma word_motions_exact_witness:
  "\<exists>p. find_prev_word_start [[default_cell, default_cell]] 1 0 = Some p"
proof -
  have "\<forall>cells \<in> set [[default_cell, default_cell]]. cells \<noteq> [] \<and> length cells \<le> 65536" by simp
  from word_motions_exact [OF _ _ _ this, of 0 0 1 1] show ?thesis by auto
qed

text \<open>C36: The search of the copy mode never gets a query: whatever keys came before, what is typed after
  a slash goes to the program in the pane, and Enter searches for nothing.  The keys are those that reach the
  handler of the copy mode: the shortcuts that are taken before it, such as Ctrl+F, are none of them.
\<close>

theorem copy_search_dead:
  assumes "copy_keys cv0 keys (copy_enter col row copy_mode_new) = Some (cm, sent0)"
    and "cm_is_active cm" "cm_search_input cm = None"
    and "snd ` set typed \<inter> {CmEscape, CmEnter, CmBackspace} = {}"
  shows "copy_keys cv ((m, CmSlash) # typed @ [(m', CmEnter)]) cm =
    Some (cm\<lparr>cm_search_backward := md_shift m, cm_gg_pending := False\<rparr>, typed)"
proof -
  have "never_searched (copy_enter col row copy_mode_new)"
    by (simp add: never_searched_def copy_enter_def copy_mode_new_def)
  from never_searched_run [OF this assms(1)] have "cm_last_search_query cm = []" by (simp add: never_searched_def)
  let ?cm = "cm\<lparr>cm_gg_pending := False, cm_search_input := Some [], cm_search_backward := md_shift m\<rparr>"
  have slash: "handle_copy_mode_key cv m CmSlash cm = Some (?cm, True, None)"
    using assms(3) by (simp add: handle_copy_mode_key_def is_in_search_input_def copy_motion_def Let_def)
  have enter: "copy_keys cv [(m', CmEnter)] ?cm =
      Some (cm\<lparr>cm_search_backward := md_shift m, cm_gg_pending := False\<rparr>, [])"
    using assms(2,3) by (cases cm) (simp add: handle_copy_mode_key_def is_in_search_input_def handle_copy_mode_search_key_def)
  show ?thesis
    using search_text_sent [of ?cm "[]" typed cv "[(m', CmEnter)]"] assms(2,4) slash enter by simp
qed

lemma copy_search_dead_witness:
  "\<exists>cm. copy_keys \<lparr>cv_cols = 80, cv_rows = 24, cv_pane = None\<rparr>
      ((\<lparr>md_shift = False, md_ctrl = False\<rparr>, CmSlash) # [(\<lparr>md_shift = False, md_ctrl = False\<rparr>, CmL), (\<lparr>md_shift = False, md_ctrl = False\<rparr>, CmOther 7)]
        @ [(\<lparr>md_shift = False, md_ctrl = False\<rparr>, CmEnter)]) (copy_enter 3 4 copy_mode_new)
    = Some (cm, [(\<lparr>md_shift = False, md_ctrl = False\<rparr>, CmL), (\<lparr>md_shift = False, md_ctrl = False\<rparr>, CmOther 7)])
    \<and> (cm_cursor_col cm, cm_cursor_row cm) = (3, 4)"
proof -
  let ?none = "\<lparr>md_shift = False, md_ctrl = False\<rparr>"
  have "copy_keys \<lparr>cv_cols = 80, cv_rows = 24, cv_pane = None\<rparr> [] (copy_enter 3 4 copy_mode_new) = Some (copy_enter 3 4 copy_mode_new, [])"
    by simp
  from copy_search_dead [OF this, of "[(?none, CmL), (?none, CmOther 7)]" "\<lparr>cv_cols = 80, cv_rows = 24, cv_pane = None\<rparr>" ?none ?none]
  show ?thesis by (simp add: copy_enter_def copy_mode_new_def)
qed

end
