(* ===== verification/Web_Auth.thy ===== *)
theory Web_Auth
  imports Rust_Str "HOL-Library.AList"
begin

text \<open>
  The authentication state of the web terminal (\<open>nexterm-server/src/web\<close>): the rate limiter
  (\<open>rate_limit.rs\<close>), one-time passwords (\<open>otp.rs\<close>), session tokens and cookies (\<open>auth.rs\<close>).
  An instant is a number of nanoseconds, the Unix time a number of seconds.  A lock is taken
  once for each operation and never poisoned.
\<close>

definition from_secs :: "nat \<Rightarrow> nat" where
  "from_secs s = s * 1000000000"

section \<open>The rate limiter\<close>

record rate_limit_config =
  rl_window :: nat
  rl_max_attempts :: nat

definition totp_default :: rate_limit_config where
  "totp_default = \<lparr>rl_window = from_secs 60, rl_max_attempts = 5\<rparr>"

record rate_limiter =
  lim_config :: rate_limit_config
  lim_attempts :: "(rstr \<times> nat list) list"

definition rate_limiter_new :: "rate_limit_config \<Rightarrow> rate_limiter" where
  "rate_limiter_new config = \<lparr>lim_config = config, lim_attempts = []\<rparr>"

definition attempts_of :: "rate_limiter \<Rightarrow> rstr \<Rightarrow> nat list" where
  "attempts_of l key = (case map_of (lim_attempts l) key of None \<Rightarrow> [] | Some ts \<Rightarrow> ts)"

definition check_and_record :: "nat \<Rightarrow> rstr \<Rightarrow> rate_limiter \<Rightarrow> rate_limiter \<times> bool" where
  "check_and_record now key l =
     (let entry = filter (\<lambda>t. now - t < rl_window (lim_config l)) (attempts_of l key) in
      if rl_max_attempts (lim_config l) \<le> length entry
      then (l\<lparr>lim_attempts := AList.update key entry (lim_attempts l)\<rparr>, False)
      else let at1 = AList.update key (entry @ [now]) (lim_attempts l);
               at2 = (if 1024 < length at1 then filter (\<lambda>(_, v). v \<noteq> []) at1 else at1) in
        (l\<lparr>lim_attempts := at2\<rparr>, True))"

definition limiter_reset :: "rstr \<Rightarrow> rate_limiter \<Rightarrow> rate_limiter" where
  "limiter_reset key l = l\<lparr>lim_attempts := AList.delete key (lim_attempts l)\<rparr>"

section \<open>One-time passwords\<close>

text \<open>\<open>tm_generate\<close> is the code of the crate \<open>totp-rs\<close> for a Unix time.\<close>

record totp_manager =
  tm_generate :: "nat \<Rightarrow> rstr"
  tm_secret_b32 :: rstr
  tm_used_codes :: "(nat \<times> rstr) list"

definition TOTP_STEP :: nat where
  "TOTP_STEP = 30"

definition REPLAY_WINDOW_RANGE :: nat where
  "REPLAY_WINDOW_RANGE = 2"

definition try_record_use :: "nat \<Rightarrow> rstr \<Rightarrow> nat \<Rightarrow> totp_manager \<Rightarrow> totp_manager \<times> bool" where
  "try_record_use window code current_window tm =
     (if (window, code) \<in> set (tm_used_codes tm) then (tm, False)
      else let used = (window, code) # tm_used_codes tm;
               cutoff = int current_window - int REPLAY_WINDOW_RANGE in
        (tm\<lparr>tm_used_codes := filter (\<lambda>(w, _). cutoff \<le> int w) used\<rparr>, True))"

text \<open>The windows that are tried: the one before, unless it is before the epoch, the current
  one and the next.\<close>

definition tried_windows :: "nat \<Rightarrow> nat list" where
  "tried_windows current = (if current = 0 then [] else [current - 1]) @ [current, current + 1]"

definition otp_verify :: "nat \<Rightarrow> rstr \<Rightarrow> totp_manager \<Rightarrow> totp_manager \<times> bool" where
  "otp_verify now code0 tm =
     (let code = trim code0 in
      if str_len code \<noteq> 6 \<or> \<not> list_all is_ascii_digit code then (tm, False)
      else let current_window = now div TOTP_STEP;
               matches = (\<lambda>w. let expected = tm_generate tm (w * TOTP_STEP) in
                             str_len expected = str_len code \<and> as_bytes expected = as_bytes code) in
        case List.find matches (tried_windows current_window) of
          None \<Rightarrow> (tm, False)
        | Some w \<Rightarrow> try_record_use w (tm_generate tm (w * TOTP_STEP)) current_window tm)"

section \<open>Sessions\<close>

record session_entry =
  se_expiry :: nat
  se_auth_method :: rstr
  se_user_id :: rstr

record auth_manager =
  am_sessions :: "(rstr \<times> session_entry) list"
  am_ttl :: nat
  am_max_sessions :: nat

definition auth_manager_new :: "nat \<Rightarrow> nat \<Rightarrow> auth_manager" where
  "auth_manager_new session_timeout_secs max_sessions =
     \<lparr>am_sessions = [], am_ttl = from_secs session_timeout_secs, am_max_sessions = max_sessions\<rparr>"

text \<open>The token of the first session with the least expiry in the order of the map.\<close>

fun oldest_key :: "(rstr \<times> session_entry) list \<Rightarrow> rstr option" where
  "oldest_key [] = None"
| "oldest_key ((k, e) # xs) =
     (if \<exists>(_, e') \<in> set xs. se_expiry e' < se_expiry e then oldest_key xs else Some k)"

text \<open>\<open>token\<close> is the random token; the expiry of the new session is \<open>now\<close> plus the lifetime.\<close>

definition auth_create_session :: "nat \<Rightarrow> rstr \<Rightarrow> rstr \<Rightarrow> rstr \<Rightarrow> auth_manager \<Rightarrow> auth_manager \<times> rstr option" where
  "auth_create_session now token auth_method user_id am =
     (let live = filter (\<lambda>(_, e). now < se_expiry e) (am_sessions am);
          kept = (if 0 < am_max_sessions am \<and> am_max_sessions am \<le> length live
                  then case oldest_key live of None \<Rightarrow> live | Some k \<Rightarrow> AList.delete k live
                  else live) in
      (am\<lparr>am_sessions := AList.update token
            \<lparr>se_expiry = now + am_ttl am, se_auth_method = auth_method, se_user_id = user_id\<rparr> kept\<rparr>,
       Some token))"

definition is_valid :: "nat \<Rightarrow> rstr \<Rightarrow> auth_manager \<Rightarrow> bool" where
  "is_valid now token am \<longleftrightarrow>
     list_ex (\<lambda>(stored, e). as_bytes stored = as_bytes token \<and> now < se_expiry e) (am_sessions am)"

definition token_info :: "nat \<Rightarrow> rstr \<Rightarrow> auth_manager \<Rightarrow> (rstr \<times> rstr) option" where
  "token_info now token am =
     Option.bind (map_of (am_sessions am) token)
       (\<lambda>e. if now < se_expiry e then Some (se_auth_method e, se_user_id e) else None)"

definition revoke_session :: "rstr \<Rightarrow> auth_manager \<Rightarrow> auth_manager" where
  "revoke_session token am = am\<lparr>am_sessions := AList.delete token (am_sessions am)\<rparr>"

definition active_count :: "nat \<Rightarrow> auth_manager \<Rightarrow> nat" where
  "active_count now am = length (filter (\<lambda>(_, e). now < se_expiry e) (am_sessions am))"

section \<open>Cookies\<close>

definition session_cookie_in :: "rstr \<Rightarrow> rstr option" where
  "session_cookie_in cookie_str =
     (case List.map_filter (\<lambda>part. strip_prefix (lit ''nexterm_session='') (trim part)) (split_on 59 cookie_str) of
        [] \<Rightarrow> None
      | v # _ \<Rightarrow> Some v)"

definition make_session_cookie :: "rstr \<Rightarrow> bool \<Rightarrow> rstr" where
  "make_session_cookie token secure =
     lit ''nexterm_session='' @ token @ lit ''; HttpOnly; Path=/; SameSite=Strict''
       @ (if secure then lit ''; Secure'' else [])"

definition make_logout_cookie :: rstr where
  "make_logout_cookie = lit ''nexterm_session=; HttpOnly; Path=/; SameSite=Strict; Max-Age=0''"

end
