(* ===== verification/Web_Oauth.thy ===== *)
theory Web_Oauth
  imports Web_Auth
begin

text \<open>
  OAuth2 of the web terminal (\<open>nexterm-server/src/web/oauth.rs\<close>): the state tokens against
  forged callbacks, the addresses of the providers, what is read of the user, the allow lists, and the
  check of the address that a discovery document names.  The network (\<open>reqwest\<close>) and the
  building of addresses (\<open>oauth2\<close>) are parameters.
\<close>

section \<open>Strings\<close>

text \<open>\<open>to_lowercase\<close> and \<open>to_uppercase\<close>; \<open>lc\<close> and \<open>uc\<close> map the characters beyond ASCII.\<close>

definition ascii_lower :: "uchar \<Rightarrow> uchar" where
  "ascii_lower c = (if 65 \<le> c \<and> c \<le> 90 then c + 32 else c)"

definition ascii_upper :: "uchar \<Rightarrow> uchar" where
  "ascii_upper c = (if 97 \<le> c \<and> c \<le> 122 then c - 32 else c)"

definition lowercase_of :: "(uchar \<Rightarrow> rstr) \<Rightarrow> rstr \<Rightarrow> rstr" where
  "lowercase_of lc s = concat (map (\<lambda>c. if c < 128 then [ascii_lower c] else lc c) s)"

definition uppercase_of :: "(uchar \<Rightarrow> rstr) \<Rightarrow> rstr \<Rightarrow> rstr" where
  "uppercase_of uc s = concat (map (\<lambda>c. if c < 128 then [ascii_upper c] else uc c) s)"

definition trim_end_slashes :: "rstr \<Rightarrow> rstr" where
  "trim_end_slashes s = rev (dropWhile (\<lambda>c. c = 47) (rev s))"

text \<open>The text before and after the first occurrence of a pattern.\<close>

fun break_str :: "rstr \<Rightarrow> rstr \<Rightarrow> (rstr \<times> rstr) option" where
  "break_str pat [] = (if pat = [] then Some ([], []) else None)"
| "break_str pat (c # s) =
     (if starts_with (c # s) pat then Some ([], drop (length pat) (c # s))
      else map_option (\<lambda>(a, b). (c # a, b)) (break_str pat s))"

section \<open>Configuration and state\<close>

record oauth_config =
  oc_provider :: rstr
  oc_client_id :: "rstr option"
  oc_client_secret :: "rstr option"
  oc_issuer_url :: "rstr option"
  oc_allowed_emails :: "rstr list"
  oc_allowed_orgs :: "rstr list"
  oc_redirect_url :: "rstr option"

record oauth_user =
  ou_provider :: rstr
  ou_user_id :: rstr
  ou_email :: "rstr option"
  ou_login :: "rstr option"

record oauth_manager =
  om_config :: oauth_config
  om_pending_states :: "(rstr \<times> nat) list"
  om_redirect_base :: rstr

text \<open>The answers of the network: the exchange of a code, the users of the providers, a
  discovery document, and whether a membership request succeeds.\<close>

record oauth_net =
  on_token :: "rstr \<Rightarrow> rstr option"
  on_github_user :: "rstr \<Rightarrow> (nat \<times> rstr \<times> rstr option) option"
  on_github_emails :: "rstr \<Rightarrow> (rstr \<times> bool \<times> bool) list option"
  on_google_user :: "rstr \<Rightarrow> (rstr \<times> rstr option \<times> rstr option) option"
  on_azure_user :: "rstr \<Rightarrow> (rstr option \<times> rstr option \<times> rstr option \<times> rstr option \<times> rstr option) option"
  on_discovery :: "rstr \<Rightarrow> rstr option option"
  on_oidc_user :: "rstr \<Rightarrow> rstr \<Rightarrow> (rstr \<times> rstr option \<times> rstr option) option"
  on_org_member :: "rstr \<Rightarrow> rstr \<Rightarrow> bool"

text \<open>The crate \<open>oauth2\<close>: which addresses it accepts and the authorization address.\<close>

record oauth_crate =
  ox_env_secret :: "rstr option"
  ox_url_ok :: "rstr \<Rightarrow> bool"
  ox_authorize_url :: "rstr \<Rightarrow> rstr \<Rightarrow> rstr \<Rightarrow> rstr list \<Rightarrow> rstr \<Rightarrow> rstr"

datatype oauth_error =
    StateExpired
  | StateInvalid
  | NoClientId
  | NoClientSecret
  | NoIssuerUrl
  | UnsupportedProvider rstr
  | InvalidUrl rstr
  | NetworkFailed
  | NoUserinfoEndpoint
  | NotHttps
  | NoHost
  | InternalHost rstr
  | ForeignHost rstr rstr

definition STATE_TTL :: nat where
  "STATE_TTL = from_secs 600"

definition oauth_manager_new :: "oauth_config \<Rightarrow> rstr \<Rightarrow> oauth_manager" where
  "oauth_manager_new config redirect_base =
     \<lparr>om_config = config, om_pending_states = [], om_redirect_base = redirect_base\<rparr>"

section \<open>The provider\<close>

definition required_scopes :: "oauth_config \<Rightarrow> rstr list" where
  "required_scopes cfg =
     (if oc_provider cfg = lit ''github'' then [lit ''read:user'', lit ''user:email'']
      else if oc_provider cfg = lit ''google'' then [lit ''openid'', lit ''email'', lit ''profile'']
      else if oc_provider cfg = lit ''azure'' then [lit ''openid'', lit ''email'', lit ''profile'', lit ''User.Read'']
      else if oc_provider cfg = lit ''oidc'' then [lit ''openid'', lit ''email'', lit ''profile'']
      else [])"

definition provider_urls :: "oauth_config \<Rightarrow> oauth_error + rstr \<times> rstr" where
  "provider_urls cfg =
     (if oc_provider cfg = lit ''github'' then
        Inr (lit ''https://github.com/login/oauth/authorize'', lit ''https://github.com/login/oauth/access_token'')
      else if oc_provider cfg = lit ''google'' then
        Inr (lit ''https://accounts.google.com/o/oauth2/v2/auth'', lit ''https://oauth2.googleapis.com/token'')
      else if oc_provider cfg = lit ''azure'' then
        let tenant = (case oc_issuer_url cfg of None \<Rightarrow> lit ''common'' | Some u \<Rightarrow> u);
            base = (if starts_with tenant (lit ''http'') then trim_end_slashes tenant
                    else lit ''https://login.microsoftonline.com/'' @ tenant @ lit ''/v2.0'') in
        Inr (base @ lit ''/authorize'', base @ lit ''/token'')
      else if oc_provider cfg = lit ''oidc'' then
        (case oc_issuer_url cfg of
           None \<Rightarrow> Inl NoIssuerUrl
         | Some u \<Rightarrow> let base = trim_end_slashes u in Inr (base @ lit ''/authorize'', base @ lit ''/token''))
      else Inl (UnsupportedProvider (oc_provider cfg)))"

text \<open>The client identifier, the authorization address and the callback.\<close>

definition build_client :: "oauth_crate \<Rightarrow> oauth_manager \<Rightarrow> oauth_error + rstr \<times> rstr \<times> rstr" where
  "build_client ox om =
     (let cfg = om_config om in
      case oc_client_id cfg of
        None \<Rightarrow> Inl NoClientId
      | Some client_id \<Rightarrow>
          if ox_env_secret ox = None \<and> oc_client_secret cfg = None then Inl NoClientSecret
          else case provider_urls cfg of
            Inl e \<Rightarrow> Inl e
          | Inr (auth_url, token_url) \<Rightarrow>
              let redirect_url = (case oc_redirect_url cfg of
                    None \<Rightarrow> om_redirect_base om @ lit ''/auth/callback'' | Some u \<Rightarrow> u) in
              if \<not> ox_url_ok ox auth_url then Inl (InvalidUrl auth_url)
              else if \<not> ox_url_ok ox token_url then Inl (InvalidUrl token_url)
              else if \<not> ox_url_ok ox redirect_url then Inl (InvalidUrl redirect_url)
              else Inr (client_id, auth_url, redirect_url))"

text \<open>\<open>csrf\<close> is the random state token.\<close>

definition authorization_url ::
    "oauth_crate \<Rightarrow> nat \<Rightarrow> rstr \<Rightarrow> oauth_manager \<Rightarrow> oauth_manager \<times> (oauth_error + rstr)" where
  "authorization_url ox now csrf om =
     (case build_client ox om of
        Inl e \<Rightarrow> (om, Inl e)
      | Inr (client_id, auth_url, redirect_url) \<Rightarrow>
          (om\<lparr>om_pending_states := AList.update csrf (now + STATE_TTL)
                (filter (\<lambda>(_, v). now < v) (om_pending_states om))\<rparr>,
           Inr (ox_authorize_url ox auth_url client_id redirect_url (required_scopes (om_config om)) csrf)))"

section \<open>The address of a discovery document\<close>

definition extract_host :: "(uchar \<Rightarrow> rstr) \<Rightarrow> rstr \<Rightarrow> rstr option" where
  "extract_host lc url =
     (case break_str (lit ''://'') url of
        None \<Rightarrow> None
      | Some (_, r) \<Rightarrow>
          let after_scheme = (case break_str (lit ''://'') r of None \<Rightarrow> r | Some (a, _) \<Rightarrow> a);
              host_with_port = hd (split_on 47 after_scheme);
              host = hd (split_on 58 host_with_port) in
          if host = [] then None else Some (lowercase_of lc host))"

definition is_disallowed_host :: "(uchar \<Rightarrow> rstr) \<Rightarrow> rstr \<Rightarrow> bool" where
  "is_disallowed_host lc host =
     (let lower = lowercase_of lc host in
      lower = lit ''localhost'' \<or> lower = lit ''127.0.0.1'' \<or> lower = lit ''::1''
      \<or> starts_with lower (lit ''127.'') \<or> starts_with lower (lit ''169.254.'')
      \<or> starts_with lower (lit ''10.'') \<or> starts_with lower (lit ''192.168.'')
      \<or> starts_with lower (lit ''0.0.0.0'') \<or> starts_with lower (lit ''fe80:'')
      \<or> starts_with lower (lit ''fc'') \<or> starts_with lower (lit ''fd'')
      \<or> (case strip_prefix (lit ''172.'') lower of
           None \<Rightarrow> False
         | Some rest \<Rightarrow>
             (case parse_uint 255 (hd (split_on 46 rest)) of
                None \<Rightarrow> False | Some n \<Rightarrow> 16 \<le> n \<and> n \<le> 31)))"

definition ends_with :: "rstr \<Rightarrow> rstr \<Rightarrow> bool" where
  "ends_with s p \<longleftrightarrow> length p \<le> length s \<and> drop (length s - length p) s = p"

definition is_same_or_subdomain :: "rstr \<Rightarrow> rstr \<Rightarrow> bool" where
  "is_same_or_subdomain host issuer_host \<longleftrightarrow>
     host = issuer_host
     \<or> ends_with host issuer_host \<and> str_len issuer_host < str_len host
       \<and> as_bytes host ! (str_len host - str_len issuer_host - 1) = 46"

definition validate_userinfo_endpoint :: "(uchar \<Rightarrow> rstr) \<Rightarrow> rstr \<Rightarrow> rstr \<Rightarrow> oauth_error + unit" where
  "validate_userinfo_endpoint lc userinfo issuer_url =
     (if \<not> starts_with (lowercase_of lc userinfo) (lit ''https://'') then Inl NotHttps
      else case extract_host lc userinfo of
        None \<Rightarrow> Inl NoHost
      | Some host \<Rightarrow>
          if is_disallowed_host lc host then Inl (InternalHost host)
          else case extract_host lc issuer_url of
            None \<Rightarrow> Inl NoHost
          | Some issuer_host \<Rightarrow>
              if is_same_or_subdomain host issuer_host then Inr ()
              else Inl (ForeignHost host issuer_host))"

section \<open>The user\<close>

definition from_net :: "'a option \<Rightarrow> oauth_error + 'a" where
  "from_net r = (case r of None \<Rightarrow> Inl NetworkFailed | Some x \<Rightarrow> Inr x)"

definition then_ok :: "oauth_error + 'a \<Rightarrow> ('a \<Rightarrow> oauth_error + 'b) \<Rightarrow> oauth_error + 'b" where
  "then_ok r f = (case r of Inl e \<Rightarrow> Inl e | Inr x \<Rightarrow> f x)"

definition fetch_github_primary_email :: "oauth_net \<Rightarrow> rstr \<Rightarrow> rstr option" where
  "fetch_github_primary_email net access_token =
     Option.bind (on_github_emails net access_token)
       (\<lambda>emails. map_option fst (List.find (\<lambda>(_, primary, verified). primary \<and> verified) emails))"

definition fetch_github_user :: "oauth_net \<Rightarrow> rstr \<Rightarrow> oauth_error + oauth_user" where
  "fetch_github_user net access_token =
     then_ok (from_net (on_github_user net access_token)) (\<lambda>(i, login, email).
       Inr \<lparr>ou_provider = lit ''github'', ou_user_id = dec i,
            ou_email = (if email \<noteq> None then email else fetch_github_primary_email net access_token),
            ou_login = Some login\<rparr>)"

definition fetch_google_user :: "oauth_net \<Rightarrow> rstr \<Rightarrow> oauth_error + oauth_user" where
  "fetch_google_user net access_token =
     then_ok (from_net (on_google_user net access_token)) (\<lambda>(sub, email, name).
       Inr \<lparr>ou_provider = lit ''google'', ou_user_id = sub, ou_email = email, ou_login = name\<rparr>)"

definition or_else :: "'a option \<Rightarrow> 'a option \<Rightarrow> 'a option" where
  "or_else a b = (if a = None then b else a)"

definition fetch_azure_user :: "oauth_net \<Rightarrow> rstr \<Rightarrow> oauth_error + oauth_user" where
  "fetch_azure_user net access_token =
     then_ok (from_net (on_azure_user net access_token)) (\<lambda>(i, oid, mail, upn, display_name).
       Inr \<lparr>ou_provider = lit ''azure'',
            ou_user_id = (case or_else i oid of None \<Rightarrow> lit ''unknown'' | Some u \<Rightarrow> u),
            ou_email = or_else mail upn, ou_login = display_name\<rparr>)"

definition fetch_oidc_user :: "(uchar \<Rightarrow> rstr) \<Rightarrow> oauth_net \<Rightarrow> oauth_config \<Rightarrow> rstr \<Rightarrow> oauth_error + oauth_user" where
  "fetch_oidc_user lc net cfg access_token =
     (case oc_issuer_url cfg of
        None \<Rightarrow> Inl NoIssuerUrl
      | Some issuer_url \<Rightarrow>
          then_ok (from_net (on_discovery net (trim_end_slashes issuer_url @ lit ''/.well-known/openid-configuration'')))
            (\<lambda>discovery. case discovery of
               None \<Rightarrow> Inl NoUserinfoEndpoint
             | Some endpoint \<Rightarrow>
                 then_ok (validate_userinfo_endpoint lc endpoint issuer_url) (\<lambda>_.
                   then_ok (from_net (on_oidc_user net endpoint access_token)) (\<lambda>(sub, email, name).
                     Inr \<lparr>ou_provider = lit ''oidc'', ou_user_id = sub, ou_email = email, ou_login = name\<rparr>))))"

definition fetch_user_info :: "(uchar \<Rightarrow> rstr) \<Rightarrow> oauth_net \<Rightarrow> oauth_config \<Rightarrow> rstr \<Rightarrow> oauth_error + oauth_user" where
  "fetch_user_info lc net cfg access_token =
     (if oc_provider cfg = lit ''github'' then fetch_github_user net access_token
      else if oc_provider cfg = lit ''google'' then fetch_google_user net access_token
      else if oc_provider cfg = lit ''azure'' then fetch_azure_user net access_token
      else if oc_provider cfg = lit ''oidc'' then fetch_oidc_user lc net cfg access_token
      else Inl (UnsupportedProvider (oc_provider cfg)))"

text \<open>The state token is used up whatever comes of it.\<close>

definition take_state :: "nat \<Rightarrow> rstr \<Rightarrow> oauth_manager \<Rightarrow> oauth_manager \<times> (oauth_error + unit)" where
  "take_state now oauth_state om =
     (om\<lparr>om_pending_states := AList.delete oauth_state (om_pending_states om)\<rparr>,
      case map_of (om_pending_states om) oauth_state of
        Some expiry \<Rightarrow> if now < expiry then Inr () else Inl StateExpired
      | None \<Rightarrow> Inl StateInvalid)"

definition exchange_code ::
    "(uchar \<Rightarrow> rstr) \<Rightarrow> oauth_crate \<Rightarrow> oauth_net \<Rightarrow> nat \<Rightarrow> rstr \<Rightarrow> rstr \<Rightarrow> oauth_manager
     \<Rightarrow> oauth_manager \<times> (oauth_error + oauth_user \<times> rstr)" where
  "exchange_code lc ox net now code oauth_state om =
     (let (om1, checked) = take_state now oauth_state om in
      (om1, then_ok checked (\<lambda>_. then_ok (build_client ox om1) (\<lambda>_.
              then_ok (from_net (on_token net code)) (\<lambda>access_token.
                then_ok (fetch_user_info lc net (om_config om1) access_token) (\<lambda>user.
                  Inr (user, access_token)))))))"

definition check_github_org :: "oauth_net \<Rightarrow> oauth_config \<Rightarrow> rstr \<Rightarrow> bool" where
  "check_github_org net cfg access_token = list_ex (on_org_member net access_token) (oc_allowed_orgs cfg)"

definition is_user_allowed :: "oauth_net \<Rightarrow> oauth_config \<Rightarrow> oauth_user \<Rightarrow> rstr \<Rightarrow> bool" where
  "is_user_allowed net cfg user access_token =
     (if oc_allowed_emails cfg = [] \<and> oc_allowed_orgs cfg = [] then True
      else if oc_allowed_emails cfg \<noteq> []
              \<and> (case ou_email user of None \<Rightarrow> False | Some email \<Rightarrow> email \<in> set (oc_allowed_emails cfg))
      then True
      else oc_allowed_orgs cfg \<noteq> [] \<and> oc_provider cfg = lit ''github'' \<and> ou_login user \<noteq> None
           \<and> check_github_org net cfg access_token)"

end
