(* ===== verification/Access_Log.thy ===== *)
theory Access_Log
  imports Rust_Str
begin

text \<open>
  The access log of the web terminal (\<open>nexterm-server/src/web/access_log.rs\<close>): CSV lines,
  the calendar date of a Unix time, and the rotation of the files.  The file system is a map from
  paths to contents, operations on it succeed; \<open>gzip\<close> is the compression of the crate
  \<open>flate2\<close>.
\<close>

section \<open>Lines\<close>

record access_log_entry =
  al_remote_addr :: rstr
  al_method :: rstr
  al_path :: rstr
  al_status :: nat
  al_auth_method :: rstr
  al_user_id :: rstr

definition CSV_HEADER :: rstr where
  "CSV_HEADER = lit ''timestamp,remote_addr,method,path,status,auth_method,user_id''"

definition strip_query_string :: "rstr \<Rightarrow> rstr" where
  "strip_query_string path = hd (split_on 63 (hd (split_on 35 path)))"

definition csv_escape :: "rstr \<Rightarrow> rstr" where
  "csv_escape s =
     (if 44 \<in> set s \<or> 34 \<in> set s \<or> 10 \<in> set s
      then [34] @ concat (map (\<lambda>c. if c = 34 then [34, 34] else [c]) s) @ [34]
      else s)"

definition log_line :: "rstr \<Rightarrow> access_log_entry \<Rightarrow> rstr" where
  "log_line timestamp e =
     timestamp @ [44] @ csv_escape (al_remote_addr e) @ [44] @ csv_escape (al_method e) @ [44]
       @ csv_escape (strip_query_string (al_path e)) @ [44] @ dec (al_status e) @ [44]
       @ csv_escape (al_auth_method e) @ [44] @ csv_escape (al_user_id e) @ [10]"

section \<open>The time\<close>

definition days_to_ymd :: "nat \<Rightarrow> nat \<times> nat \<times> nat" where
  "days_to_ymd days =
     (let z = days + 719468;
          era = z div 146097;
          doe = z mod 146097;
          yoe = (doe - doe div 1460 + doe div 36524 - doe div 146096) div 365;
          y = yoe + era * 400;
          doy = doe - (365 * yoe + yoe div 4 - yoe div 100);
          mp = (5 * doy + 2) div 153;
          d = doy - (153 * mp + 2) div 5 + 1;
          m = (if mp < 10 then mp + 3 else mp - 9);
          y = (if m \<le> 2 then y + 1 else y) in
      (y, m, d))"

definition pad_dec :: "nat \<Rightarrow> nat \<Rightarrow> rstr" where
  "pad_dec width n = replicate (width - length (dec n)) 48 @ dec n"

definition chrono_now :: "nat \<Rightarrow> rstr" where
  "chrono_now secs =
     (let s = secs mod 60; m = (secs div 60) mod 60; h = (secs div 3600) mod 24;
          (year, month, day) = days_to_ymd (secs div 86400) in
      pad_dec 4 year @ lit ''-'' @ pad_dec 2 month @ lit ''-'' @ pad_dec 2 day @ lit ''T''
        @ pad_dec 2 h @ lit '':'' @ pad_dec 2 m @ lit '':'' @ pad_dec 2 s @ lit ''Z'')"

section \<open>Rotation\<close>

type_synonym files = "rstr \<Rightarrow> byte list option"

definition generation_path :: "rstr \<Rightarrow> nat \<Rightarrow> bool \<Rightarrow> rstr" where
  "generation_path base n compress = base @ lit ''.'' @ dec n @ (if compress then lit ''.gz'' else [])"

definition rename_file :: "rstr \<Rightarrow> rstr \<Rightarrow> files \<Rightarrow> files" where
  "rename_file src dst fs = (if fs src = None then fs else fs(dst := fs src, src := None))"

definition shift_generation :: "rstr \<Rightarrow> bool \<Rightarrow> nat \<Rightarrow> files \<Rightarrow> files" where
  "shift_generation path compress i fs =
     fold (\<lambda>ext. rename_file (generation_path path i ext) (generation_path path (i + 1) ext))
       [compress, \<not> compress] fs"

definition rotate_files :: "(byte list \<Rightarrow> byte list) \<Rightarrow> rstr \<Rightarrow> nat \<Rightarrow> bool \<Rightarrow> files \<Rightarrow> files" where
  "rotate_files gzip path max_generations compress fs =
     (if max_generations = 0 then fs
      else let fs1 = fs(generation_path path max_generations compress := None);
               fs2 = fs1(generation_path path max_generations (\<not> compress) := None);
               fs3 = fold (shift_generation path compress) (rev [1..<max_generations]) fs2;
               dest = generation_path path 1 compress;
               fs4 = fs3(dest := None) in
        if compress
        then fs4(dest := map_option gzip (fs4 path), path := None)
        else rename_file path dest fs4)"

record access_logger =
  lg_file_path :: "rstr option"
  lg_enabled :: bool
  lg_max_size_bytes :: nat
  lg_max_generations :: nat
  lg_compress :: bool

definition ensure_header :: "rstr \<Rightarrow> files \<Rightarrow> files" where
  "ensure_header path fs =
     fs(path := Some ((case fs path of None \<Rightarrow> [] | Some c \<Rightarrow> c) @ as_bytes (CSV_HEADER @ [10])))"

definition u64_max :: nat where
  "u64_max = 18446744073709551615"

definition access_logger_new :: "bool \<Rightarrow> rstr option \<Rightarrow> nat \<Rightarrow> nat \<Rightarrow> bool \<Rightarrow> files \<Rightarrow> access_logger \<times> files" where
  "access_logger_new enabled file max_size_mib max_generations compress fs =
     (\<lparr>lg_file_path = file, lg_enabled = enabled, lg_max_size_bytes = min (max_size_mib * 1048576) u64_max,
       lg_max_generations = max_generations, lg_compress = compress\<rparr>,
      case file of None \<Rightarrow> fs | Some path \<Rightarrow> if enabled \<and> fs path = None then ensure_header path fs else fs)"

definition rotation_enabled :: "access_logger \<Rightarrow> bool" where
  "rotation_enabled lg \<longleftrightarrow> 0 < lg_max_size_bytes lg \<and> 0 < lg_max_generations lg"

definition rotate_if_needed :: "(byte list \<Rightarrow> byte list) \<Rightarrow> access_logger \<Rightarrow> rstr \<Rightarrow> files \<Rightarrow> files" where
  "rotate_if_needed gzip lg path fs =
     (case fs path of
        None \<Rightarrow> fs
      | Some c \<Rightarrow>
          if length c < lg_max_size_bytes lg then fs
          else rotate_files gzip path (lg_max_generations lg) (lg_compress lg) fs)"

definition access_log :: "(byte list \<Rightarrow> byte list) \<Rightarrow> nat \<Rightarrow> access_log_entry \<Rightarrow> access_logger \<Rightarrow> files \<Rightarrow> files" where
  "access_log gzip secs e lg fs =
     (if \<not> lg_enabled lg then fs
      else case lg_file_path lg of
        None \<Rightarrow> fs
      | Some path \<Rightarrow>
          let fs1 = (if rotation_enabled lg then rotate_if_needed gzip lg path fs else fs);
              fs2 = (if fs1 path = None then ensure_header path fs1 else fs1) in
          fs2(path := Some ((case fs2 path of None \<Rightarrow> [] | Some c \<Rightarrow> c) @ as_bytes (log_line (chrono_now secs) e))))"

section \<open>Reading the lines back\<close>

text \<open>
  A reader of CSV files that knows nothing of the writer.  A field that starts with a quote goes on to
  its closing quote, a doubled quote in it is one; any other field ends at a comma.  Outside
  quotes a line feed, a carriage return, or both together end the record.
\<close>

datatype csv_mode = Field_Start | Unquoted | In_Quotes | Quote_Seen | After_Return

fun csv_read :: "csv_mode \<Rightarrow> rstr \<Rightarrow> rstr list \<Rightarrow> rstr \<Rightarrow> rstr list list" where
  "csv_read m cur fs [] =
     (if fs = [] \<and> (m = Field_Start \<or> m = After_Return) then [] else [fs @ [cur]])"
| "csv_read m cur fs (c # s) =
     (if m = In_Quotes then
        (if c = 34 then csv_read Quote_Seen cur fs s else csv_read In_Quotes (cur @ [c]) fs s)
      else if m = Quote_Seen \<and> c = 34 then csv_read In_Quotes (cur @ [34]) fs s
      else if m = After_Return \<and> c = 10 then csv_read Field_Start [] [] s
      else if (m = Field_Start \<or> m = After_Return) \<and> c = 34 then csv_read In_Quotes [] fs s
      else if c = 44 then csv_read Field_Start [] (fs @ [cur]) s
      else if c = 10 then (fs @ [cur]) # csv_read Field_Start [] [] s
      else if c = 13 then (fs @ [cur]) # csv_read After_Return [] [] s
      else csv_read Unquoted (cur @ [c]) fs s)"

definition csv_records :: "rstr \<Rightarrow> rstr list list" where
  "csv_records s = csv_read Field_Start [] [] s"

text \<open>The characters that mean something outside quotes.\<close>

definition csv_special :: "uchar set" where
  "csv_special = {44, 34, 10, 13}"

lemma csv_read_unquoted:
  "set f \<inter> csv_special = {} \<Longrightarrow> csv_read Unquoted cur fs (f @ s) = csv_read Unquoted (cur @ f) fs s"
  by (induction f arbitrary: cur) (auto simp: csv_special_def)

abbreviation doubled :: "rstr \<Rightarrow> rstr" where
  "doubled s \<equiv> concat (map (\<lambda>c. if c = 34 then [34, 34] else [c]) s)"

lemma csv_read_quoted:
  "csv_read In_Quotes cur fs (doubled f @ 34 # s) = csv_read Quote_Seen (cur @ f) fs s"
  by (induction f arbitrary: cur) simp_all

text \<open>A carriage return alone does not make \<open>csv_escape\<close> quote the field.\<close>

definition return_quoted :: "rstr \<Rightarrow> bool" where
  "return_quoted f \<longleftrightarrow> (13 \<in> set f \<longrightarrow> 44 \<in> set f \<or> 34 \<in> set f \<or> 10 \<in> set f)"

lemma csv_read_escape:
  assumes "return_quoted f"
  shows "csv_read Field_Start [] fs (csv_escape f @ 44 # s) = csv_read Field_Start [] (fs @ [f]) s"
    and "csv_read Field_Start [] fs (csv_escape f @ 10 # s) = (fs @ [f]) # csv_records s"
proof -
  have "\<exists>m. m \<in> {Field_Start, Unquoted, Quote_Seen}
    \<and> (\<forall>s. csv_read Field_Start [] fs (csv_escape f @ s) = csv_read m f fs s)"
  proof (cases "44 \<in> set f \<or> 34 \<in> set f \<or> 10 \<in> set f")
    case True
    have "csv_read Field_Start [] fs (csv_escape f @ s) = csv_read Quote_Seen f fs s" for s
      using True csv_read_quoted [of "[]" fs f s] by (simp add: csv_escape_def)
    then show ?thesis by blast
  next
    case False
    then have plain: "set f \<inter> csv_special = {}" "csv_escape f = f"
      using assms by (auto simp: return_quoted_def csv_special_def csv_escape_def)
    show ?thesis
    proof (cases f)
      case (Cons c g)
      have "csv_read Field_Start [] fs (f @ s) = csv_read Unquoted f fs s" for s
        using plain(1) csv_read_unquoted [of g "[c]" fs s] by (auto simp: Cons csv_special_def)
      then show ?thesis unfolding plain(2) by blast
    qed (auto simp: csv_escape_def)
  qed
  then obtain m where m: "m \<in> {Field_Start, Unquoted, Quote_Seen}"
    "\<And>s. csv_read Field_Start [] fs (csv_escape f @ s) = csv_read m f fs s" by blast
  show "csv_read Field_Start [] fs (csv_escape f @ 44 # s) = csv_read Field_Start [] (fs @ [f]) s"
    "csv_read Field_Start [] fs (csv_escape f @ 10 # s) = (fs @ [f]) # csv_records s"
    unfolding m(2) csv_records_def using m(1) by auto
qed

lemma strip_query_eq: "strip_query_string path = takeWhile (\<lambda>c. c \<noteq> 35 \<and> c \<noteq> 63) path"
proof -
  have hd: "hd (split_on sep s) = takeWhile (\<lambda>c. c \<noteq> sep) s" for sep :: uchar and s
  proof (induction s)
    case (Cons c s)
    then show ?case by (cases "split_on sep s") auto
  qed simp
  have "takeWhile (\<lambda>c. c \<noteq> 63) (takeWhile (\<lambda>c. c \<noteq> 35) path) = takeWhile (\<lambda>c. c \<noteq> 35 \<and> c \<noteq> 63) path"
    by (induction path) auto
  then show ?thesis by (simp add: strip_query_string_def hd)
qed

lemma escape_plain: "set s \<inter> csv_special = {} \<Longrightarrow> csv_escape s = s \<and> return_quoted s"
  by (auto simp: csv_escape_def csv_special_def return_quoted_def)

lemma dec_plain: "csv_escape (dec n) = dec n \<and> return_quoted (dec n)"
proof -
  have "\<forall>c \<in> set (dec n). is_ascii_digit c" using dec_digits [of n] by (simp add: list_all_iff)
  then show ?thesis by (intro escape_plain) (auto simp: csv_special_def is_ascii_digit_def)
qed

lemma chrono_plain: "csv_escape (chrono_now secs) = chrono_now secs \<and> return_quoted (chrono_now secs)"
proof -
  have d: "\<forall>c \<in> set (dec n). 48 \<le> c \<and> c \<le> 57" for n
    using dec_digits [of n] by (auto simp: list_all_iff is_ascii_digit_def)
  have p: "\<forall>c \<in> set (pad_dec w n). 48 \<le> c \<and> c \<le> 57" for w n
    using d by (auto simp: pad_dec_def set_replicate_conv_if split: if_splits)
  obtain y m dd where ymd: "days_to_ymd (secs div 86400) = (y, m, dd)" by (cases "days_to_ymd (secs div 86400)")
  have "\<forall>c \<in> set (chrono_now secs). (48 \<le> c \<and> c \<le> 57) \<or> c \<in> {45, 84, 58, 90}"
    using p by (auto simp: chrono_now_def Let_def ymd lit_def)
  then show ?thesis by (intro escape_plain) (fastforce simp: csv_special_def)
qed

text \<open>
  Facts on the access log: its dates are those of the Gregorian calendar, its lines are read
  back, and the rotation moves every generation by one.
\<close>

section \<open>The calendar\<close>

definition is_leap :: "nat \<Rightarrow> bool" where
  "is_leap y \<longleftrightarrow> 4 dvd y \<and> (\<not> 100 dvd y \<or> 400 dvd y)"

definition month_length :: "nat \<Rightarrow> nat \<Rightarrow> nat" where
  "month_length y m =
     (if m = 2 then (if is_leap y then 29 else 28) else if m \<in> {4, 6, 9, 11} then 30 else 31)"

fun next_date :: "nat \<times> nat \<times> nat \<Rightarrow> nat \<times> nat \<times> nat" where
  "next_date (y, m, d) =
     (if d < month_length y m then (y, m, d + 1) else if m < 12 then (y, m + 1, 1) else (y + 1, 1, 1))"

subsection \<open>Years that start in March\<close>

definition year_start :: "nat \<Rightarrow> nat" where
  "year_start y = 365 * y + y div 4 - y div 100 + y div 400"

definition year_length :: "nat \<Rightarrow> nat" where
  "year_length y = (if is_leap (y + 1) then 366 else 365)"

lemma year_step:
  fixes a b c y :: nat
  assumes "b \<le> 365 * y" "q \<longrightarrow> p" "r \<longrightarrow> q"
  shows "365 * Suc y + (if p then Suc a else a) - (if q then Suc b else b) + (if r then Suc c else c) =
    365 * y + a - b + c + (if p \<and> (\<not> q \<or> r) then 366 else 365)"
  using assms by (cases p; cases q; cases r) auto

lemma div_Suc_dvd: "Suc y div n = (if n dvd Suc y then Suc (y div n) else y div n)"
  by (simp add: div_Suc dvd_eq_mod_eq_0)

lemma year_start_Suc: "year_start (y + 1) = year_start y + year_length y"
proof -
  have "y div 100 \<le> 365 * y" by (simp add: div_le_dividend le_trans)
  moreover have "100 dvd Suc y \<longrightarrow> 4 dvd Suc y" using dvd_trans [of 4 100 "Suc y"] by simp
  moreover have "400 dvd Suc y \<longrightarrow> 100 dvd Suc y" using dvd_trans [of 100 400 "Suc y"] by simp
  ultimately show ?thesis unfolding year_start_def year_length_def is_leap_def Suc_eq_plus1 [symmetric] div_Suc_dvd
    by (rule year_step)
qed

lemma year_start_0 [simp]: "year_start 0 = 0"
  by (simp add: year_start_def)

lemma year_exists: "doe < year_start n \<Longrightarrow> \<exists>y < n. year_start y \<le> doe \<and> doe < year_start (y + 1)"
proof (induction n)
  case (Suc n)
  then show ?case by (cases "doe < year_start n") (auto intro: less_SucI)
qed simp

text \<open>The number that the year is read from never decreases, and is right at both ends of each
  of the 400 years of an era; the table of the ends is evaluated over the integers.\<close>

definition year_days :: "nat \<Rightarrow> nat" where
  "year_days doe = doe - doe div 1460 + doe div 36524 - doe div 146096"

definition start_int :: "int \<Rightarrow> int" where
  "start_int y = 365 * y + y div 4 - y div 100 + y div 400"

definition days_int :: "int \<Rightarrow> int" where
  "days_int doe = doe - doe div 1460 + doe div 36524 - doe div 146096"

definition year_ok :: "int \<Rightarrow> bool" where
  "year_ok y \<longleftrightarrow> 365 * y \<le> days_int (start_int y) \<and> days_int (start_int (y + 1) - 1) < 365 * (y + 1)"

lemma year_table: "list_all year_ok [0..399]"
  by code_simp

lemma start_int: "int (year_start y) = start_int (int y)"
proof -
  have "y div 100 \<le> 365 * y + y div 4" by (simp add: div_le_dividend le_trans trans_le_add1)
  then show ?thesis by (simp add: year_start_def start_int_def of_nat_diff zdiv_int)
qed

lemma days_int: "int (year_days d) = days_int (int d)"
proof -
  have "d div 1460 \<le> d" "d div 146096 \<le> d - d div 1460 + d div 36524"
    by (simp_all add: div_le_dividend div_le_mono2 trans_le_add2)
  then show ?thesis by (simp add: year_days_def days_int_def of_nat_diff zdiv_int)
qed

lemma year_days_ends:
  assumes "y < 400"
  shows "365 * y \<le> year_days (year_start y) \<and> year_days (year_start (y + 1) - 1) < 365 * (y + 1)"
proof -
  have "int y \<in> set [0..399]" using assms by simp
  then have "year_ok (int y)" using year_table unfolding list_all_iff by blast
  moreover have "0 < year_start (y + 1)" by (simp add: year_start_def)
  then have "int (year_start (y + 1) - 1) = start_int (int y + 1) - 1"
    using start_int [of "y + 1"] by (simp add: of_nat_diff add.commute)
  ultimately have "365 * int y \<le> int (year_days (year_start y))" "int (year_days (year_start (y + 1) - 1)) < 365 * (int y + 1)"
    by (simp_all only: year_ok_def days_int start_int)
  then show ?thesis by simp
qed

lemma days_step:
  fixes a b c d :: nat
  assumes "b \<le> d" "e \<le> c" "r \<longrightarrow> q \<and> \<not> p"
  shows "d - b + c - e \<le>
    Suc d - (if p then Suc b else b) + (if q then Suc c else c) - (if r then Suc e else e)"
  using assms by (cases p; cases q; cases r) auto

lemma year_days_Suc:
  assumes "d < 146096"
  shows "year_days d \<le> year_days (Suc d)"
proof -
  have "d div 1460 \<le> d" "d div 146096 \<le> d div 36524" by (simp_all add: div_le_dividend div_le_mono2)
  moreover have "146096 dvd Suc d \<longrightarrow> 36524 dvd Suc d \<and> \<not> 1460 dvd Suc d"
  proof
    assume "146096 dvd Suc d"
    then have "146096 \<le> Suc d" by (rule dvd_imp_le) simp
    then have "Suc d = 146096" using assms by simp
    then show "36524 dvd Suc d \<and> \<not> 1460 dvd Suc d" by simp
  qed
  ultimately show ?thesis unfolding year_days_def div_Suc_dvd by (rule days_step)
qed

lemma year_days_mono: "b \<le> 146096 \<Longrightarrow> a \<le> b \<Longrightarrow> year_days a \<le> year_days b"
proof (induction "b - a" arbitrary: b)
  case (Suc n)
  then obtain c where c: "b = Suc c" "a \<le> c" "n = c - a" by (cases b) auto
  then have "year_days a \<le> year_days c" using Suc by simp
  also have "year_days c \<le> year_days (Suc c)" using year_days_Suc [of c] Suc.prems c(1) by simp
  finally show ?case by (simp add: c(1))
qed simp

lemma year_start_mono: "a \<le> b \<Longrightarrow> year_start a \<le> year_start b"
proof (induction "b - a" arbitrary: b)
  case (Suc n)
  then obtain c where "b = c + 1" "a \<le> c" "n = c - a" by (cases b) auto
  with Suc year_start_Suc [of c] show ?case by fastforce
qed simp

lemma year_of_day:
  assumes "y < 400" "year_start y \<le> doe" "doe < year_start (y + 1)"
  shows "year_days doe div 365 = y"
proof -
  have "year_start (y + 1) \<le> 146097"
    using year_start_mono [of "y + 1" 400] assms(1) by (simp add: year_start_def)
  then have "year_days (year_start y) \<le> year_days doe" "year_days doe \<le> year_days (year_start (y + 1) - 1)"
    using assms(2,3) by (auto intro: year_days_mono)
  with year_days_ends [OF assms(1)] show ?thesis by (intro div_nat_eqI) simp_all
qed

subsection \<open>Months\<close>

definition month_day :: "nat \<Rightarrow> nat \<times> nat" where
  "month_day doy =
     (let mp = (5 * doy + 2) div 153 in (if mp < 10 then mp + 3 else mp - 9, doy - (153 * mp + 2) div 5 + 1))"

definition month_day_int :: "int \<Rightarrow> int \<times> int" where
  "month_day_int doy =
     (let mp = (5 * doy + 2) div 153 in (if mp < 10 then mp + 3 else mp - 9, doy - (153 * mp + 2) div 5 + 1))"

definition month_ok :: "int \<Rightarrow> bool" where
  "month_ok n \<longleftrightarrow>
     (let (m, d) = month_day_int n; len = (if m = 2 then 28 else if m = 4 \<or> m = 6 \<or> m = 9 \<or> m = 11 then 30 else 31) in
      1 \<le> m \<and> m \<le> 12 \<and> (m = 2 \<longrightarrow> 337 \<le> n) \<and> 
      month_day_int (n + 1) = (if d < len then (m, d + 1) else if m = 12 then (1, 1) else (m + 1, 1)))"

lemma month_table: "list_all month_ok [0..363]"
  by code_simp

lemma month_day_int: "map_prod int int (month_day n) = month_day_int (int n)"
proof -
  have "153 * ((5 * n + 2) div 153) \<le> 5 * n + 2" by simp
  then have "(153 * ((5 * n + 2) div 153) + 2) div 5 \<le> (5 * n + 4) div 5" by (intro div_le_mono) simp
  then have "(153 * ((5 * n + 2) div 153) + 2) div 5 \<le> n" by simp
  then show ?thesis by (auto simp: month_day_def month_day_int_def Let_def of_nat_diff zdiv_int add.commute)
qed

lemma month_step:
  assumes "n < 364" "month_day n = (m, d)"
  shows "1 \<le> m \<and> m \<le> 12
    \<and> month_day (n + 1) = (let len = (if m = 2 then 28 else if m \<in> {4, 6, 9, 11} then 30 else 31) in
        if d < len then (m, d + 1) else if m = 12 then (1, 1) else (m + 1, 1))"
proof -
  have "int n \<in> set [0..363]" using assms(1) by simp
  then have "month_ok (int n)" using month_table unfolding list_all_iff by blast
  moreover have "month_day_int (int n) = (int m, int d)" using month_day_int [of n] assms(2) by simp
  moreover obtain m' d' where n': "month_day (n + 1) = (m', d')" by (cases "month_day (n + 1)")
  then have "month_day_int (int n + 1) = (int m', int d')" using month_day_int [of "n + 1"] by (simp add: add.commute)
  ultimately have "1 \<le> m \<and> m \<le> 12 \<and> (int m', int d') =
      (if int d < (if int m = 2 then 28 else if int m = 4 \<or> int m = 6 \<or> int m = 9 \<or> int m = 11 then 30 else 31)
       then (int m, int d + 1) else if int m = 12 then (1, 1) else (int m + 1, 1))"
    by (simp add: month_ok_def Let_def)
  then show ?thesis unfolding n' by (auto simp: Let_def split: if_splits)
qed

subsection \<open>Days\<close>

definition civil :: "nat \<Rightarrow> nat \<Rightarrow> nat \<times> nat \<times> nat" where
  "civil y doy = (let (m, d) = month_day doy in (if m \<le> 2 then y + 1 else y, m, d))"

lemma era_step:
  fixes a b c e y :: nat
  assumes "b \<le> 365 * y"
  shows "365 * (400 * e + y) + (100 * e + a) - (4 * e + b) + (e + c) = 146097 * e + (365 * y + a - b + c)"
proof -
  have "365 * (400 * e + y) + (100 * e + a) - (4 * e + b) = 146096 * e + (365 * y + a - b)"
    using assms by (simp add: algebra_simps)
  then show ?thesis by simp
qed

lemma year_start_era: "year_start (400 * e + y) = 146097 * e + year_start y"
proof -
  have *: "(400 * e + y) div 4 = 100 * e + y div 4" "(400 * e + y) div 100 = 4 * e + y div 100"
    "(400 * e + y) div 400 = e + y div 400" by simp_all
  have "y div 100 \<le> 365 * y" by (simp add: div_le_dividend le_trans)
  then show ?thesis unfolding year_start_def * by (rule era_step)
qed

lemma days_to_ymd_civil:
  assumes "n + 719468 = year_start y + doy" "doy < year_length y"
  shows "days_to_ymd n = civil y doy"
proof -
  define e k where "e = y div 400" and "k = y mod 400"
  have y: "y = 400 * e + k" "k < 400" by (simp_all add: e_def k_def)
  have "year_length k = year_length y"
    using year_start_era [of e k] year_start_era [of e "k + 1"] year_start_Suc [of y] year_start_Suc [of k] y(1) by simp
  then have doe: "year_start k \<le> year_start k + doy" "year_start k + doy < year_start (k + 1)"
    using assms(2) year_start_Suc [of k] by simp_all
  have "year_start (k + 1) \<le> 146097" using year_start_mono [of "k + 1" 400] y(2) by (simp add: year_start_def)
  moreover have "n + 719468 = 146097 * e + (year_start k + doy)" using assms(1) year_start_era [of e k] y(1) by simp
  ultimately have z: "(n + 719468) div 146097 = e" "(n + 719468) mod 146097 = year_start k + doy"
    using doe(2) by simp_all
  have yoe: "(year_start k + doy - (year_start k + doy) div 1460 + (year_start k + doy) div 36524
      - (year_start k + doy) div 146096) div 365 = k"
    using year_of_day [OF y(2) doe] by (simp add: year_days_def)
  have start: "365 * k + k div 4 - k div 100 = year_start k" using y(2) by (simp add: year_start_def)
  show ?thesis unfolding days_to_ymd_def Let_def z yoe start civil_def month_day_def
    using y(1) by (simp add: Let_def add.commute)
qed

lemma month_day_ends:
  "month_day 0 = (3, 1)" "month_day 364 = (2, 28)" "month_day 365 = (2, 29)"
  by (simp_all add: month_day_def Let_def)

lemma next_date_civil:
  assumes "doy < year_length y"
  shows "next_date (civil y doy) = (if doy + 1 < year_length y then civil y (doy + 1) else civil (y + 1) 0)"
proof -
  have len: "year_length y = 365 \<and> \<not> is_leap (y + 1) \<or> year_length y = 366 \<and> is_leap (y + 1)"
    by (simp add: year_length_def)
  consider "doy < 364" | "doy = 364" | "doy = 365" using assms len by linarith
  then show ?thesis
  proof cases
    case 1
    obtain m d where md: "month_day doy = (m, d)" by (cases "month_day doy")
    note step = month_step [OF 1 md]
    have "m = 2 \<Longrightarrow> d < 28"
    proof -
      assume "m = 2"
      then have "d = 28 \<or> d < 28 \<or> 28 < d" "month_day (doy + 1) = (if d < 28 then (2, d + 1) else (3, 1))" using step by (auto simp: Let_def)
      moreover have "month_day (doy + 1) \<noteq> (3, 1)"
      proof
        assume "month_day (doy + 1) = (3, 1)"
        then show False using 1 by (auto simp: month_day_def Let_def split: if_splits)
      qed
      ultimately show "d < 28" by (auto split: if_splits)
    qed
    then show ?thesis using step md 1 len by (auto simp: civil_def month_length_def Let_def split: if_splits)
  next
    case 2
    then show ?thesis using len by (auto simp: civil_def month_day_ends month_length_def)
  next
    case 3
    then show ?thesis using len assms by (auto simp: civil_def month_day_ends month_length_def)
  qed
qed

text \<open>The dates of consecutive days follow each other from the epoch on.\<close>

lemma days_to_ymd_Suc: "days_to_ymd (Suc n) = next_date (days_to_ymd n)"
proof -
  have ge: "k \<le> year_start k" for k
  proof -
    have "k div 100 \<le> 364 * k" by (simp add: div_le_dividend le_trans)
    then show ?thesis by (simp add: year_start_def)
  qed
  obtain y where y: "year_start y \<le> n + 719468" "n + 719468 < year_start (y + 1)"
    using year_exists [of "n + 719468" "n + 719469"] ge [of "n + 719469"] by auto
  define doy where "doy = n + 719468 - year_start y"
  have doy: "n + 719468 = year_start y + doy" "doy < year_length y"
    using y year_start_Suc [of y] by (simp_all add: doy_def)
  show ?thesis
  proof (cases "doy + 1 < year_length y")
    case True
    then have "days_to_ymd (Suc n) = civil y (doy + 1)" using doy(1) by (intro days_to_ymd_civil) simp_all
    then show ?thesis using days_to_ymd_civil [OF doy] next_date_civil [OF doy(2)] True by simp
  next
    case False
    then have "days_to_ymd (Suc n) = civil (y + 1) 0"
      using doy year_start_Suc [of y] by (intro days_to_ymd_civil) (simp_all add: year_length_def)
    then show ?thesis using days_to_ymd_civil [OF doy] next_date_civil [OF doy(2)] False by simp
  qed
qed

lemma days_to_ymd_calendar: "days_to_ymd n = (next_date ^^ n) (1970, 1, 1)"
proof (induction n)
  case 0
  have "days_to_ymd 0 = civil 1969 306"
    by (rule days_to_ymd_civil) (simp_all add: year_start_def year_length_def)
  then show ?case by (simp add: civil_def month_day_def)
qed (simp add: days_to_ymd_Suc)

section \<open>Lines\<close>

definition entry_fields :: "rstr \<Rightarrow> access_log_entry \<Rightarrow> rstr list" where
  "entry_fields timestamp e =
     [timestamp, al_remote_addr e, al_method e, strip_query_string (al_path e), dec (al_status e),
      al_auth_method e, al_user_id e]"

definition fields_readable :: "access_log_entry \<Rightarrow> bool" where
  "fields_readable e \<longleftrightarrow> return_quoted (al_remote_addr e) \<and> return_quoted (al_method e)
     \<and> return_quoted (strip_query_string (al_path e)) \<and> return_quoted (al_auth_method e) \<and> return_quoted (al_user_id e)"

definition header_names :: "rstr list" where
  "header_names = [lit ''timestamp'', lit ''remote_addr'', lit ''method'', lit ''path'', lit ''status'',
     lit ''auth_method'', lit ''user_id'']"

lemma log_line_record:
  assumes "fields_readable e"
  shows "csv_records (log_line (chrono_now secs) e @ s) = entry_fields (chrono_now secs) e # csv_records s"
proof -
  have l: "log_line (chrono_now secs) e @ s =
      csv_escape (chrono_now secs) @ 44 # csv_escape (al_remote_addr e) @ 44 # csv_escape (al_method e)
        @ 44 # csv_escape (strip_query_string (al_path e)) @ 44 # csv_escape (dec (al_status e))
        @ 44 # csv_escape (al_auth_method e) @ 44 # csv_escape (al_user_id e) @ 10 # s"
    by (simp add: log_line_def chrono_plain dec_plain)
  have q: "return_quoted (chrono_now secs)" "return_quoted (dec (al_status e))"
    "return_quoted (al_remote_addr e)" "return_quoted (al_method e)" "return_quoted (strip_query_string (al_path e))"
    "return_quoted (al_auth_method e)" "return_quoted (al_user_id e)"
    using assms chrono_plain dec_plain by (simp_all add: fields_readable_def)
  show ?thesis
    unfolding l entry_fields_def
    by (subst csv_records_def) (simp add: csv_read_escape q del: csv_read.simps)
qed

lemma header_record: "csv_records (CSV_HEADER @ [10] @ s) = header_names # csv_records s"
proof -
  have plain: "set (lit w) \<inter> csv_special = {}" if "set (lit w) \<subseteq> {95 .. 122}" for w
    using that by (auto simp: csv_special_def)
  have q: "csv_escape (lit w) = lit w" "return_quoted (lit w)" if "set (lit w) \<subseteq> {95 .. 122}" for w
    using escape_plain [OF plain [OF that]] by simp_all
  have w: "set (lit ''timestamp'') \<subseteq> {95 .. 122}" "set (lit ''remote_addr'') \<subseteq> {95 .. 122}"
    "set (lit ''method'') \<subseteq> {95 .. 122}" "set (lit ''path'') \<subseteq> {95 .. 122}" "set (lit ''status'') \<subseteq> {95 .. 122}"
    "set (lit ''auth_method'') \<subseteq> {95 .. 122}" "set (lit ''user_id'') \<subseteq> {95 .. 122}"
    by (simp_all add: lit_def)
  have h: "CSV_HEADER @ [10] @ s = csv_escape (lit ''timestamp'') @ 44 # csv_escape (lit ''remote_addr'')
      @ 44 # csv_escape (lit ''method'') @ 44 # csv_escape (lit ''path'') @ 44 # csv_escape (lit ''status'')
      @ 44 # csv_escape (lit ''auth_method'') @ 44 # csv_escape (lit ''user_id'') @ 10 # s"
    by (simp only: q [OF w(1)] q [OF w(2)] q [OF w(3)] q [OF w(4)] q [OF w(5)] q [OF w(6)] q [OF w(7)])
      (simp add: CSV_HEADER_def lit_def)
  show ?thesis
    unfolding h header_names_def
    by (subst csv_records_def) (simp add: csv_read_escape q(2) w del: csv_read.simps)
qed

lemma log_records:
  assumes "\<forall>(secs, e) \<in> set entries. fields_readable e"
  shows "csv_records (CSV_HEADER @ [10] @ concat (map (\<lambda>(secs, e). log_line (chrono_now secs) e) entries)) =
    header_names # map (\<lambda>(secs, e). entry_fields (chrono_now secs) e) entries"
proof -
  have "csv_records (concat (map (\<lambda>(secs, e). log_line (chrono_now secs) e) entries)) =
      map (\<lambda>(secs, e). entry_fields (chrono_now secs) e) entries"
    using assms by (induction entries) (auto simp: csv_records_def [of "[]"] log_line_record)
  then show ?thesis by (simp only: header_record)
qed

text \<open>A field with a carriage return and nothing else that is special is written bare, and splits its record.\<close>

lemma bare_return_splits:
  assumes "set f \<inter> csv_special = {}" "set g \<inter> csv_special = {}" "f \<noteq> []" "g \<noteq> []"
  shows "csv_escape (f @ [13] @ g) = f @ [13] @ g \<and> csv_records (csv_escape (f @ [13] @ g) @ [10]) = [[f], [g]]"
proof -
  have e: "csv_escape (f @ [13] @ g) = f @ [13] @ g"
    using assms(1,2) by (auto simp: csv_escape_def csv_special_def)
  obtain c f' where f: "f = c # f'" using assms(3) by (cases f) simp_all
  obtain d g' where g: "g = d # g'" using assms(4) by (cases g) simp_all
  have "csv_records (f @ [13] @ g @ [10]) = [f] # csv_read After_Return [] [] (g @ [10])"
    using assms(1) csv_read_unquoted [of f' "[c]" "[]" "[13] @ g @ [10]"] by (auto simp: csv_records_def f csv_special_def)
  also have "csv_read After_Return [] [] (g @ [10]) = [[g]]"
    using assms(2) csv_read_unquoted [of g' "[d]" "[]" "[10]"] by (auto simp: g csv_special_def)
  finally show ?thesis using e by simp
qed

section \<open>Rotation\<close>

lemma generation_path_inj [simp]:
  "generation_path p i c = generation_path p j d \<longleftrightarrow> i = j \<and> c = d"
proof -
  have digits: "\<forall>x \<in> set (dec n). is_ascii_digit x" for n using dec_digits [of n] by (simp add: list_all_iff)
  have suffix: "takeWhile is_ascii_digit (dec n @ (if c then lit ''.gz'' else [])) = dec n" for n c
    using digits [of n] by (simp add: takeWhile_append2 lit_def is_ascii_digit_def)
  show ?thesis
  proof
    assume "generation_path p i c = generation_path p j d"
    then have e: "dec i @ (if c then lit ''.gz'' else []) = dec j @ (if d then lit ''.gz'' else [])"
      by (simp add: generation_path_def)
    then have ij: "dec i = dec j" using suffix [of i c] suffix [of j d] by metis
    with e have "(if c then lit ''.gz'' else []) = (if d then lit ''.gz'' else [])" by simp
    then have "c = d" by (cases c; cases d) (simp_all add: lit_def)
    then show "i = j \<and> c = d" using ij digits_val_dec [of i] digits_val_dec [of j] by metis
  qed simp
qed

lemma generation_path_base [simp]: "generation_path p i c \<noteq> p" "p \<noteq> generation_path p i c"
  by (simp_all add: generation_path_def lit_def)

lemma shift_generation_at:
  "shift_generation p c i fs q =
     (if q = generation_path p i True \<or> q = generation_path p i False then None
      else if \<exists>e. q = generation_path p (i + 1) e \<and> fs (generation_path p i e) \<noteq> None
      then fs (generation_path p i (q = generation_path p (i + 1) True)) else fs q)"
  by (cases c) (auto simp: shift_generation_def rename_file_def)

lemma shift_generations:
  assumes "k \<le> n" "\<forall>e. fs (generation_path p n e) = None"
  shows "(\<forall>i e. k < i \<and> i \<le> n \<longrightarrow>
        fold (shift_generation p c) (rev [k..<n]) fs (generation_path p i e) = fs (generation_path p (i - 1) e))
    \<and> (\<forall>e. fold (shift_generation p c) (rev [k..<n]) fs (generation_path p k e) = None)
    \<and> (\<forall>q. (\<forall>i e. k \<le> i \<and> i \<le> n \<longrightarrow> q \<noteq> generation_path p i e) \<longrightarrow>
        fold (shift_generation p c) (rev [k..<n]) fs q = fs q)"
  using assms(1)
proof (induction k rule: inc_induct)
  case base
  then show ?case using assms(2) by auto
next
  case (step k)
  let ?fs = "fold (shift_generation p c) (rev [Suc k..<n]) fs"
  have fold: "fold (shift_generation p c) (rev [k..<n]) fs = shift_generation p c k ?fs"
    using step.hyps by (simp add: upt_conv_Cons)
  have ih: "\<And>i e. Suc k < i \<Longrightarrow> i \<le> n \<Longrightarrow> ?fs (generation_path p i e) = fs (generation_path p (i - 1) e)"
    "\<And>e. ?fs (generation_path p (Suc k) e) = None"
    "\<And>q. (\<forall>i e. Suc k \<le> i \<and> i \<le> n \<longrightarrow> q \<noteq> generation_path p i e) \<Longrightarrow> ?fs q = fs q"
    using step.IH by blast+
  have same: "?fs (generation_path p k e) = fs (generation_path p k e)" for e by (rule ih(3)) auto
  have "shift_generation p c k ?fs (generation_path p i e) = fs (generation_path p (i - 1) e)" if "k < i" "i \<le> n" for i e
  proof (cases "i = Suc k")
    case True
    then show ?thesis using ih(2) [of e] same [of e] by (cases e) (auto simp: shift_generation_at)
  next
    case False
    then show ?thesis using ih(1) [of i e] that by (simp add: shift_generation_at)
  qed
  moreover have "shift_generation p c k ?fs (generation_path p k e) = None" for e
    by (cases e) (simp_all add: shift_generation_at)
  moreover have "shift_generation p c k ?fs q = fs q" if "\<forall>i e. k \<le> i \<and> i \<le> n \<longrightarrow> q \<noteq> generation_path p i e" for q
  proof -
    have "q \<noteq> generation_path p k e" "q \<noteq> generation_path p (k + 1) e" for e using that step.hyps by auto
    moreover have "?fs q = fs q" using that by (intro ih(3)) auto
    ultimately show ?thesis by (simp add: shift_generation_at)
  qed
  ultimately show ?case unfolding fold by blast
qed

text \<open>The file becomes generation 1, every other generation moves up by one, and only the last
  is lost.\<close>

lemma rotate_files_shift:
  assumes "0 < n" "fs p = Some content"
  shows "rotate_files gzip p n c fs p = None
    \<and> rotate_files gzip p n c fs (generation_path p 1 c) = Some (if c then gzip content else content)
    \<and> rotate_files gzip p n c fs (generation_path p 1 (\<not> c)) = None
    \<and> (\<forall>i e. 1 < i \<and> i \<le> n \<longrightarrow> rotate_files gzip p n c fs (generation_path p i e) = fs (generation_path p (i - 1) e))
    \<and> (\<forall>q. q \<noteq> p \<and> (\<forall>i e. 1 \<le> i \<and> i \<le> n \<longrightarrow> q \<noteq> generation_path p i e) \<longrightarrow> rotate_files gzip p n c fs q = fs q)"
proof -
  define fs2 where "fs2 = fs(generation_path p n c := None, generation_path p n (\<not> c) := None)"
  define fs3 where "fs3 = fold (shift_generation p c) (rev [1..<n]) fs2"
  have gone: "\<forall>e. fs2 (generation_path p n e) = None" by (auto simp: fs2_def)
  have old: "fs2 (generation_path p i e) = fs (generation_path p i e)" if "i < n" for i e
    using that by (simp add: fs2_def)
  have other: "fs2 q = fs q" if "\<forall>i e. 1 \<le> i \<and> i \<le> n \<longrightarrow> q \<noteq> generation_path p i e" for q
    using that assms(1) by (auto simp: fs2_def)
  have shift: "fs3 (generation_path p i e) = fs (generation_path p (i - 1) e)" if "1 < i" "i \<le> n" for i e
    using shift_generations [OF _ gone, of 1 c] that old [of "i - 1" e] by (simp add: fs3_def)
  have first: "fs3 (generation_path p 1 e) = None" for e
    using shift_generations [OF _ gone, of 1 c] assms(1) by (simp add: fs3_def)
  have rest: "fs3 q = fs q" if "\<forall>i e. 1 \<le> i \<and> i \<le> n \<longrightarrow> q \<noteq> generation_path p i e" for q
    using shift_generations [OF _ gone, of 1 c] other [OF that] that assms(1) by (simp add: fs3_def)
  have p: "fs3 p = Some content" using rest [of p] assms(2) by simp
  have r: "rotate_files gzip p n c fs = fs3(generation_path p 1 c := Some (if c then gzip content else content), p := None)"
    using assms(1) p unfolding rotate_files_def Let_def fs2_def [symmetric] fs3_def [symmetric]
    by (auto simp: rename_file_def)
  show ?thesis unfolding r using shift first rest assms(1) by auto
qed

text \<open>Every log file starts with the header, however it was rotated.\<close>

definition headed :: "files \<Rightarrow> rstr \<Rightarrow> bool" where
  "headed fs path \<longleftrightarrow> (\<forall>c. fs path = Some c \<longrightarrow> (\<exists>r. c = as_bytes (CSV_HEADER @ [10]) @ r))"

lemma access_log_headed:
  assumes "lg_file_path lg = Some path" "lg_enabled lg" "headed fs path"
  shows "headed (access_log gzip secs e lg fs) path
    \<and> (\<exists>c. access_log gzip secs e lg fs path = Some (c @ as_bytes (log_line (chrono_now secs) e))
         \<and> (rotation_enabled lg \<longrightarrow> length c < max (lg_max_size_bytes lg) (length (as_bytes (CSV_HEADER @ [10])) + 1)))"
proof -
  define fs1 where "fs1 = (if rotation_enabled lg then rotate_if_needed gzip lg path fs else fs)"
  define fs2 where "fs2 = (if fs1 path = None then ensure_header path fs1 else fs1)"
  have fs1: "fs1 path = fs path \<or> fs1 path = None"
    "rotation_enabled lg \<Longrightarrow> fs1 path = Some c \<Longrightarrow> length c < lg_max_size_bytes lg" for c
    using rotate_files_shift [of "lg_max_generations lg" fs path _ gzip "lg_compress lg"]
    by (auto simp: fs1_def rotate_if_needed_def rotation_enabled_def split: option.splits if_splits)
  have fs2: "fs2 path = Some c \<Longrightarrow> fs1 path = Some c \<or> c = as_bytes (CSV_HEADER @ [10])" "fs2 path \<noteq> None" for c
    by (cases "fs1 path"; auto simp: fs2_def ensure_header_def)+
  then obtain c where c: "fs2 path = Some c" by auto
  have log: "access_log gzip secs e lg fs = fs2(path := Some (c @ as_bytes (log_line (chrono_now secs) e)))"
    using assms(1,2) c unfolding access_log_def Let_def
    by (cases "fs1 path = None") (auto simp: fs1_def [symmetric] fs2_def)
  have "\<exists>r. c = as_bytes (CSV_HEADER @ [10]) @ r" using fs2(1) [OF c] fs1(1) assms(3) by (auto simp: headed_def)
  then have "headed (access_log gzip secs e lg fs) path" unfolding log by (auto simp: headed_def)
  moreover have "length c < max (lg_max_size_bytes lg) (length (as_bytes (CSV_HEADER @ [10])) + 1)" if "rotation_enabled lg"
    using fs2(1) [OF c] fs1(2) [OF that] by fastforce
  ultimately show ?thesis unfolding log by auto
qed

end
