(* ===== verification/Web_Server.thy ===== *)
theory Web_Server
  imports Web_Oauth Access_Log
begin

text \<open>
  The web terminal (\<open>nexterm-server/src/web\<close>): its configuration and start (\<open>mod.rs\<close>), the checks of a
  request (\<open>middleware.rs\<close>), the handlers (\<open>handlers\<close>) and the routes (\<open>router.rs\<close>).  A handler
  is a function from the state to a state and a response.  What comes from outside in
  one request is its input: the two clocks, the two random tokens, and the answers of the network and of
  the file system.  The crates and the embedded pages are the environment.
\<close>

section \<open>Configuration\<close>

record web_auth_config =
  wa_totp_enabled :: bool
  wa_totp_secret :: "rstr option"
  wa_issuer :: rstr
  wa_oauth_enabled :: bool
  wa_oauth :: oauth_config
  wa_session_timeout_secs :: nat

record web_config =
  wc_port :: nat
  wc_token :: "rstr option"
  wc_auth :: web_auth_config
  wc_tls_enabled :: bool
  wc_force_https :: bool
  wc_max_sessions :: nat

text \<open>\<open>we_totp secret issuer\<close> is the generator of codes of \<open>totp-rs\<close>, if the secret is accepted;
  \<open>we_lower\<close> and \<open>we_upper\<close> are the cases of characters beyond ASCII.\<close>

record web_env =
  we_totp :: "rstr \<Rightarrow> rstr \<Rightarrow> (nat \<Rightarrow> rstr) option"
  we_totp_url :: "rstr \<Rightarrow> rstr \<Rightarrow> rstr"
  we_lower :: "uchar \<Rightarrow> rstr"
  we_upper :: "uchar \<Rightarrow> rstr"
  we_oauth :: oauth_crate
  we_asset :: "rstr \<Rightarrow> rstr option"

record web_input =
  wi_unix :: nat
  wi_now :: nat
  wi_token :: rstr
  wi_csrf :: rstr
  wi_net :: oauth_net
  wi_save_ok :: bool

section \<open>State\<close>

record pending_setup =
  ps_secret :: rstr
  ps_totp :: totp_manager

text \<open>\<open>ws_logged\<close> are the entries given to the access log and \<open>ws_saved\<close> is the
  secret in the configuration file.\<close>

record web_state =
  ws_legacy_token :: "rstr option"
  ws_totp :: "totp_manager option"
  ws_auth :: auth_manager
  ws_pending :: "pending_setup option"
  ws_totp_enabled :: bool
  ws_oauth :: "oauth_manager option"
  ws_tls :: bool
  ws_force_https :: bool
  ws_issuer :: rstr
  ws_logged :: "access_log_entry list"
  ws_limiter :: rate_limiter
  ws_saved :: "rstr option"

definition from_secret :: "web_env \<Rightarrow> rstr \<Rightarrow> rstr \<Rightarrow> totp_manager option" where
  "from_secret we secret issuer =
     (let s = uppercase_of (we_upper we) secret in
      map_option (\<lambda>g. \<lparr>tm_generate = g, tm_secret_b32 = s, tm_used_codes = []\<rparr>) (we_totp we s issuer))"

function trim_end_matches :: "rstr \<Rightarrow> rstr \<Rightarrow> rstr" where
  "trim_end_matches pat s =
     (if pat \<noteq> [] \<and> ends_with s pat then trim_end_matches pat (take (length s - length pat) s) else s)"
  by auto
termination by (relation "measure (\<lambda>(_, s). length s)") (auto simp: ends_with_def intro!: diff_less)

declare trim_end_matches.simps [simp del]

definition oauth_redirect_base :: "web_config \<Rightarrow> rstr" where
  "oauth_redirect_base config =
     (let base = (case oc_redirect_url (wa_oauth (wc_auth config)) of
            Some u \<Rightarrow> u
          | None \<Rightarrow> (if wc_tls_enabled config then lit ''https'' else lit ''http'') @ lit ''://localhost:''
                     @ dec (wc_port config)) in
      if break_str (lit ''/auth/callback'') base \<noteq> None then trim_end_matches (lit ''/auth/callback'') base
      else base)"

definition init_totp :: "web_env \<Rightarrow> rstr \<Rightarrow> web_config \<Rightarrow> totp_manager option \<times> pending_setup option" where
  "init_totp we generated config =
     (if wa_totp_enabled (wc_auth config) then
        case wa_totp_secret (wc_auth config) of
          Some secret \<Rightarrow> (from_secret we secret (wa_issuer (wc_auth config)), None)
        | None \<Rightarrow>
            (case from_secret we generated (wa_issuer (wc_auth config)) of
               Some tm \<Rightarrow> (None, Some \<lparr>ps_secret = generated, ps_totp = tm\<rparr>)
             | None \<Rightarrow> (None, None))
      else (None, None))"

text \<open>\<open>generated\<close> is the random secret of a first start.\<close>

definition start_web_server :: "web_env \<Rightarrow> rstr \<Rightarrow> web_config \<Rightarrow> web_state" where
  "start_web_server we generated config =
     (let (active_totp, pending) = init_totp we generated config;
          oauth = (if wa_oauth_enabled (wc_auth config)
                   then Some (oauth_manager_new (wa_oauth (wc_auth config)) (oauth_redirect_base config))
                   else None) in
      \<lparr>ws_legacy_token = wc_token config, ws_totp = active_totp,
       ws_auth = auth_manager_new (wa_session_timeout_secs (wc_auth config)) (wc_max_sessions config),
       ws_pending = pending, ws_totp_enabled = wa_totp_enabled (wc_auth config), ws_oauth = oauth,
       ws_tls = wc_tls_enabled config, ws_force_https = wc_force_https config,
       ws_issuer = wa_issuer (wc_auth config), ws_logged = [],
       ws_limiter = rate_limiter_new totp_default, ws_saved = wa_totp_secret (wc_auth config)\<rparr>)"

section \<open>Requests and responses\<close>

text \<open>The headers that are read, if they are visible ASCII.\<close>

record headers =
  hd_cookie :: "rstr option"
  hd_forwarded_for :: "rstr option"
  hd_real_ip :: "rstr option"
  hd_host :: "rstr option"
  hd_proto :: "rstr option"

datatype web_request =
    GetIndex
  | GetLogin
  | GetSetup
  | PostLogin rstr
  | GetOauth
  | GetCallback "rstr option" "rstr option" "rstr option"
  | PostLogout
  | GetSetupUrl
  | PostSetupVerify rstr
  | GetWs "rstr option" "rstr option"

datatype body =
    EmptyBody
  | HtmlBody rstr
  | TextBody rstr
  | SetupUrlBody rstr rstr
  | UpgradeTo rstr

record response =
  rs_status :: nat
  rs_headers :: "(rstr \<times> rstr) list"
  rs_body :: body

definition status_only :: "nat \<Rightarrow> response" where
  "status_only n = \<lparr>rs_status = n, rs_headers = [], rs_body = EmptyBody\<rparr>"

definition redirect :: "rstr \<Rightarrow> response" where
  "redirect location = \<lparr>rs_status = 302, rs_headers = [(lit ''location'', location)], rs_body = EmptyBody\<rparr>"

definition redirect_with_cookie :: "rstr \<Rightarrow> rstr \<Rightarrow> response" where
  "redirect_with_cookie location cookie =
     \<lparr>rs_status = 302, rs_headers = [(lit ''location'', location), (lit ''set-cookie'', cookie)],
      rs_body = EmptyBody\<rparr>"

definition serve_asset :: "web_env \<Rightarrow> rstr \<Rightarrow> response" where
  "serve_asset we name =
     (case we_asset we name of
        Some html \<Rightarrow> \<lparr>rs_status = 200, rs_headers = [], rs_body = HtmlBody html\<rparr>
      | None \<Rightarrow> \<lparr>rs_status = 404, rs_headers = [], rs_body = TextBody (name @ lit '' not found'')\<rparr>)"

section \<open>The checks of a request\<close>

definition extract_session_cookie :: "headers \<Rightarrow> rstr option" where
  "extract_session_cookie h = Option.bind (hd_cookie h) session_cookie_in"

definition has_valid_session :: "nat \<Rightarrow> headers \<Rightarrow> web_state \<Rightarrow> bool" where
  "has_valid_session now h st =
     (if \<not> (ws_totp_enabled st \<or> ws_oauth st \<noteq> None) then True
      else case extract_session_cookie h of
        None \<Rightarrow> False
      | Some token \<Rightarrow> is_valid now token (ws_auth st))"

definition client_ip :: "headers \<Rightarrow> rstr" where
  "client_ip h =
     (case hd_forwarded_for h of
        Some v \<Rightarrow> trim (hd (split_on 44 v))
      | None \<Rightarrow> (case hd_real_ip h of Some v \<Rightarrow> v | None \<Rightarrow> lit ''unknown''))"

definition https_redirect :: "headers \<Rightarrow> nat \<Rightarrow> response" where
  "https_redirect h port =
     (let host = (case hd_host h of None \<Rightarrow> lit ''localhost'' | Some v \<Rightarrow> v) in
      \<lparr>rs_status = 301,
       rs_headers = [(lit ''location'', lit ''https://'' @ hd (split_on 58 host) @ lit '':'' @ dec port @ lit ''/'')],
       rs_body = EmptyBody\<rparr>)"

definition single_quoted :: "string \<Rightarrow> rstr" where
  "single_quoted s = [39] @ lit s @ [39]"

definition security_header_pairs :: "bool \<Rightarrow> (rstr \<times> rstr) list" where
  "security_header_pairs tls_enabled =
     [(lit ''x-content-type-options'', lit ''nosniff''),
      (lit ''x-frame-options'', lit ''DENY''),
      (lit ''referrer-policy'', lit ''strict-origin-when-cross-origin''),
      (lit ''cross-origin-opener-policy'', lit ''same-origin''),
      (lit ''cross-origin-resource-policy'', lit ''same-origin''),
      (lit ''permissions-policy'', lit ''camera=(), microphone=(), geolocation=(), payment=()''),
      (lit ''content-security-policy'',
       lit ''default-src '' @ single_quoted ''none'' @ lit ''; script-src '' @ single_quoted ''self''
         @ lit ''; style-src '' @ single_quoted ''self'' @ lit '' '' @ single_quoted ''unsafe-inline''
         @ lit ''; connect-src '' @ single_quoted ''self'' @ lit '' ws: wss:; img-src '' @ single_quoted ''self''
         @ lit '' data:; font-src '' @ single_quoted ''self'' @ lit '' data:; frame-ancestors '' @ single_quoted ''none'')]
     @ (if tls_enabled then [(lit ''strict-transport-security'', lit ''max-age=63072000; includeSubDomains'')]
        else [])"

definition security_headers :: "web_state \<Rightarrow> response \<Rightarrow> response" where
  "security_headers st r =
     r\<lparr>rs_headers := fold (\<lambda>(k, v). AList.update k v) (security_header_pairs (ws_tls st)) (rs_headers r)\<rparr>"

section \<open>The handlers\<close>

definition log_entry :: "access_log_entry \<Rightarrow> web_state \<Rightarrow> web_state" where
  "log_entry e st = st\<lparr>ws_logged := ws_logged st @ [e]\<rparr>"

definition log_login :: "headers \<Rightarrow> nat \<Rightarrow> web_state \<Rightarrow> web_state" where
  "log_login h status = log_entry \<lparr>al_remote_addr = client_ip h, al_method = lit ''POST'', al_path = lit ''/auth/login'',
     al_status = status, al_auth_method = lit ''totp'', al_user_id = []\<rparr>"

text \<open>A session is created and its cookie set.\<close>

definition issue_session :: "web_input \<Rightarrow> rstr \<Rightarrow> rstr \<Rightarrow> web_state \<Rightarrow> web_state \<times> rstr option" where
  "issue_session inp auth_method user_id st =
     (let (am, token) = auth_create_session (wi_now inp) (wi_token inp) auth_method user_id (ws_auth st) in
      (st\<lparr>ws_auth := am\<rparr>, token))"

definition handle_login :: "web_input \<Rightarrow> headers \<Rightarrow> rstr \<Rightarrow> web_state \<Rightarrow> web_state \<times> response" where
  "handle_login inp h code st =
     (let addr = client_ip h;
          (lim, allowed) = check_and_record (wi_now inp) addr (ws_limiter st);
          st1 = st\<lparr>ws_limiter := lim\<rparr> in
      if \<not> allowed then
        (log_login h 429 st1,
         \<lparr>rs_status = 429, rs_headers = [(lit ''retry-after'', lit ''60'')],
          rs_body = TextBody (lit ''Too many failed attempts. Try again in 60 seconds.'')\<rparr>)
      else case ws_totp st1 of
        None \<Rightarrow> (log_login h 302 st1, redirect (lit ''/login?error=not_configured''))
      | Some totp \<Rightarrow>
          let (totp', ok) = otp_verify (wi_unix inp) code totp;
              st2 = st1\<lparr>ws_totp := Some totp'\<rparr> in
          if \<not> ok then (log_login h 401 st2, redirect (lit ''/login?error=invalid_code''))
          else
            let st3 = st2\<lparr>ws_limiter := limiter_reset addr (ws_limiter st2)\<rparr> in
            case issue_session inp (lit ''totp'') [] st3 of
              (st4, None) \<Rightarrow> (st4, redirect (lit ''/login?error=session_limit''))
            | (st4, Some token) \<Rightarrow>
                (log_login h 302 st4, redirect_with_cookie (lit ''/'') (make_session_cookie token (ws_tls st4))))"

definition handle_logout :: "headers \<Rightarrow> web_state \<Rightarrow> web_state \<times> response" where
  "handle_logout h st =
     ((case extract_session_cookie h of
         None \<Rightarrow> st
       | Some token \<Rightarrow> st\<lparr>ws_auth := revoke_session token (ws_auth st)\<rparr>),
      redirect_with_cookie (lit ''/login'') make_logout_cookie)"

definition handle_setup_url :: "web_env \<Rightarrow> web_state \<Rightarrow> response" where
  "handle_setup_url we st =
     (case ws_pending st of
        None \<Rightarrow> status_only 404
      | Some ps \<Rightarrow>
          let secret = tm_secret_b32 (ps_totp ps) in
          \<lparr>rs_status = 200, rs_headers = [], rs_body = SetupUrlBody (we_totp_url we secret (ws_issuer st)) secret\<rparr>)"

text \<open>Once the first code is accepted the secret is saved, the setup ends, and a session is issued.\<close>

definition setup_verified :: "web_env \<Rightarrow> web_input \<Rightarrow> rstr \<Rightarrow> web_state \<Rightarrow> web_state \<times> response" where
  "setup_verified we inp secret st =
     (let st1 = (if wi_save_ok inp then st\<lparr>ws_saved := Some secret\<rparr> else st) in
      case from_secret we secret (ws_issuer st1) of
        None \<Rightarrow> (st1, redirect (lit ''/setup?error=internal''))
      | Some mgr \<Rightarrow>
          (case issue_session inp (lit ''totp'') [] (st1\<lparr>ws_totp := Some mgr, ws_pending := None\<rparr>) of
             (st2, None) \<Rightarrow> (st2, redirect (lit ''/login?error=session_limit''))
           | (st2, Some token) \<Rightarrow>
               (st2, redirect_with_cookie (lit ''/'') (make_session_cookie token (ws_tls st2)))))"

definition handle_setup_verify :: "web_env \<Rightarrow> web_input \<Rightarrow> rstr \<Rightarrow> web_state \<Rightarrow> web_state \<times> response" where
  "handle_setup_verify we inp code st =
     (case ws_pending st of
        None \<Rightarrow> (st, redirect (lit ''/?setup=done''))
      | Some ps \<Rightarrow>
          let (totp, ok) = otp_verify (wi_unix inp) code (ps_totp ps);
              st1 = st\<lparr>ws_pending := Some (ps\<lparr>ps_totp := totp\<rparr>)\<rparr> in
          if \<not> ok then (st1, redirect (lit ''/setup?error=invalid_code''))
          else setup_verified we inp (ps_secret ps) st1)"

definition serve_index :: "web_env \<Rightarrow> web_input \<Rightarrow> headers \<Rightarrow> web_state \<Rightarrow> response" where
  "serve_index we inp h st =
     (if ws_force_https st \<and> \<not> ws_tls st
         \<and> (case hd_proto h of None \<Rightarrow> lit ''http'' | Some v \<Rightarrow> v) \<noteq> lit ''https''
      then https_redirect h 7681
      else if \<not> has_valid_session (wi_now inp) h st then redirect (lit ''/login'')
      else serve_asset we (lit ''index.html''))"

text \<open>\<open>replace\<close> of a nonempty pattern; the number is what is left of an occurrence.\<close>

fun replace_from :: "nat \<Rightarrow> rstr \<Rightarrow> rstr \<Rightarrow> rstr \<Rightarrow> rstr" where
  "replace_from n pat w [] = []"
| "replace_from (Suc n) pat w (c # s) = replace_from n pat w s"
| "replace_from 0 pat w (c # s) =
     (if starts_with (c # s) pat then w @ replace_from (length pat - 1) pat w s
      else c # replace_from 0 pat w s)"

definition oauth_section :: "rstr \<Rightarrow> rstr" where
  "oauth_section url =
     lit ''<div class='' @ [34] @ lit ''oauth-section'' @ [34, 62, 10]
       @ lit ''  <div class='' @ [34] @ lit ''or-divider'' @ [34] @ lit ''><span>or</span></div>'' @ [10]
       @ lit ''  <a href='' @ [34] @ url @ [34] @ lit '' class='' @ [34] @ lit ''oauth-btn'' @ [34]
       @ lit ''>Sign in with OAuth</a>'' @ [10] @ lit ''</div>''"

definition serve_login :: "web_env \<Rightarrow> web_input \<Rightarrow> web_state \<Rightarrow> web_state \<times> response" where
  "serve_login we inp st =
     (let (oauth', button) = (case ws_oauth st of
            None \<Rightarrow> (None, [])
          | Some om \<Rightarrow>
              (case authorization_url (we_oauth we) (wi_now inp) (wi_csrf inp) om of
                 (om', Inl _) \<Rightarrow> (Some om', [])
               | (om', Inr url) \<Rightarrow> (Some om', oauth_section url)));
          st1 = st\<lparr>ws_oauth := oauth'\<rparr> in
      case we_asset we (lit ''login.html'') of
        None \<Rightarrow> (st1, status_only 500)
      | Some base_html \<Rightarrow>
          (st1, \<lparr>rs_status = 200, rs_headers = [],
                 rs_body = HtmlBody (replace_from 0 (lit ''<!-- OAUTH_SECTION -->'') button base_html)\<rparr>))"

definition serve_setup :: "web_env \<Rightarrow> web_state \<Rightarrow> response" where
  "serve_setup we st =
     (if ws_pending st = None then redirect (lit ''/'') else serve_asset we (lit ''setup.html''))"

definition handle_oauth_redirect :: "web_env \<Rightarrow> web_input \<Rightarrow> web_state \<Rightarrow> web_state \<times> response" where
  "handle_oauth_redirect we inp st =
     (case ws_oauth st of
        None \<Rightarrow> (st, status_only 404)
      | Some om \<Rightarrow>
          (case authorization_url (we_oauth we) (wi_now inp) (wi_csrf inp) om of
             (om', Inr url) \<Rightarrow> (st\<lparr>ws_oauth := Some om'\<rparr>, redirect url)
           | (om', Inl _) \<Rightarrow> (st\<lparr>ws_oauth := Some om'\<rparr>, redirect (lit ''/login?error=oauth_config''))))"

definition log_callback :: "headers \<Rightarrow> nat \<Rightarrow> rstr \<Rightarrow> rstr \<Rightarrow> web_state \<Rightarrow> web_state" where
  "log_callback h status auth_method user_id = log_entry \<lparr>al_remote_addr = client_ip h, al_method = lit ''GET'',
     al_path = lit ''/auth/callback'', al_status = status, al_auth_method = auth_method, al_user_id = user_id\<rparr>"

text \<open>The part of the callback after the user is known.\<close>

definition oauth_admit ::
    "web_input \<Rightarrow> headers \<Rightarrow> oauth_config \<Rightarrow> oauth_user \<Rightarrow> rstr \<Rightarrow> web_state \<Rightarrow> web_state \<times> response" where
  "oauth_admit inp h cfg user access_token st =
     (let auth_method = lit ''oauth:'' @ ou_provider user in
      if \<not> is_user_allowed (wi_net inp) cfg user access_token then
        (log_callback h 403 auth_method (ou_user_id user) st, redirect (lit ''/login?error=oauth_forbidden''))
      else
        let user_id = (case ou_login user of None \<Rightarrow> ou_user_id user | Some login \<Rightarrow> login) in
        case issue_session inp auth_method user_id st of
          (st1, None) \<Rightarrow> (st1, redirect (lit ''/login?error=session_limit''))
        | (st1, Some token) \<Rightarrow>
            (log_callback h 302 auth_method user_id st1,
             redirect_with_cookie (lit ''/'') (make_session_cookie token (ws_tls st1))))"

definition handle_oauth_callback ::
    "web_env \<Rightarrow> web_input \<Rightarrow> headers \<Rightarrow> rstr option \<Rightarrow> rstr option \<Rightarrow> rstr option \<Rightarrow> web_state
     \<Rightarrow> web_state \<times> response" where
  "handle_oauth_callback we inp h q_code q_state q_error st =
     (case ws_oauth st of
        None \<Rightarrow> (st, status_only 404)
      | Some om \<Rightarrow>
          if q_error \<noteq> None then (st, redirect (lit ''/login?error=oauth_denied''))
          else case q_code of
            None \<Rightarrow> (st, redirect (lit ''/login?error=oauth_no_code''))
          | Some code \<Rightarrow>
              (case q_state of
                 None \<Rightarrow> (st, redirect (lit ''/login?error=oauth_no_state''))
               | Some oauth_state \<Rightarrow>
                   (case exchange_code (we_lower we) (we_oauth we) (wi_net inp) (wi_now inp) code oauth_state om of
                      (om', Inl _) \<Rightarrow>
                        (log_callback h 401 (lit ''oauth'') [] (st\<lparr>ws_oauth := Some om'\<rparr>),
                         redirect (lit ''/login?error=oauth_exchange''))
                    | (om', Inr (user, access_token)) \<Rightarrow>
                        oauth_admit inp h (om_config om') user access_token (st\<lparr>ws_oauth := Some om'\<rparr>))))"

definition log_ws :: "headers \<Rightarrow> nat \<Rightarrow> rstr \<Rightarrow> rstr \<Rightarrow> web_state \<Rightarrow> web_state" where
  "log_ws h status auth_method user_id = log_entry \<lparr>al_remote_addr = client_ip h, al_method = lit ''GET'',
     al_path = lit ''/ws'', al_status = status, al_auth_method = auth_method, al_user_id = user_id\<rparr>"

definition default_session_name :: rstr where
  "default_session_name = lit ''main''"

definition ws_handler :: "web_input \<Rightarrow> headers \<Rightarrow> rstr option \<Rightarrow> rstr option \<Rightarrow> web_state \<Rightarrow> web_state \<times> response" where
  "ws_handler inp h q_session q_token st =
     (let session_name = (case q_session of None \<Rightarrow> default_session_name | Some s \<Rightarrow> s);
          token = (case q_token of None \<Rightarrow> [] | Some t \<Rightarrow> t) in
      if \<not> has_valid_session (wi_now inp) h st then (log_ws h 401 [] [] st, status_only 401)
      else if (case ws_legacy_token st of
                 None \<Rightarrow> False
               | Some expected \<Rightarrow> \<not> (str_len token = str_len expected \<and> as_bytes token = as_bytes expected))
      then (st, status_only 401)
      else
        let (auth_method, user_id) =
              (case Option.bind (extract_session_cookie h) (\<lambda>t. token_info (wi_now inp) t (ws_auth st)) of
                 None \<Rightarrow> ([], []) | Some info \<Rightarrow> info) in
        (log_ws h 101 auth_method user_id st,
         \<lparr>rs_status = 101, rs_headers = [], rs_body = UpgradeTo session_name\<rparr>))"

section \<open>The routes\<close>

definition route :: "web_env \<Rightarrow> web_input \<Rightarrow> headers \<Rightarrow> web_request \<Rightarrow> web_state \<Rightarrow> web_state \<times> response" where
  "route we inp h req st =
     (case req of
        GetIndex \<Rightarrow> (st, serve_index we inp h st)
      | GetLogin \<Rightarrow> serve_login we inp st
      | GetSetup \<Rightarrow> (st, serve_setup we st)
      | PostLogin code \<Rightarrow> handle_login inp h code st
      | GetOauth \<Rightarrow> handle_oauth_redirect we inp st
      | GetCallback c s e \<Rightarrow> handle_oauth_callback we inp h c s e st
      | PostLogout \<Rightarrow> handle_logout h st
      | GetSetupUrl \<Rightarrow> (st, handle_setup_url we st)
      | PostSetupVerify code \<Rightarrow> handle_setup_verify we inp code st
      | GetWs s t \<Rightarrow> ws_handler inp h s t st)"

definition web_step :: "web_env \<Rightarrow> web_input \<Rightarrow> headers \<Rightarrow> web_request \<Rightarrow> web_state \<Rightarrow> web_state \<times> response" where
  "web_step we inp h req st =
     (let (st', r) = route we inp h req st in (st', security_headers st' r))"

end
