(* ===== verification/Web_Auth_Facts.thy ===== *)
theory Web_Auth_Facts
  imports Web_Auth Named_Blocks
begin

text \<open>
  Facts on the authentication state of the web terminal: the rate limiter allows a bounded
  number of attempts in every interval of its window but forgets a key only when it is reset, a one-time password
  is accepted once, the sessions keep their limit.
\<close>

section \<open>The rate limiter over a run of attempts\<close>

text \<open>
  What the handlers do with the limiter: an attempt at a time, and the reset after a success.  A run gives
  for each event whether it was allowed (a reset always is).
\<close>

datatype limiter_event = Attempt nat rstr | Reset rstr

fun limiter_step :: "limiter_event \<Rightarrow> rate_limiter \<Rightarrow> rate_limiter \<times> bool" where
  "limiter_step (Attempt now key) l = check_and_record now key l"
| "limiter_step (Reset key) l = (limiter_reset key l, True)"

fun limiter_run :: "limiter_event list \<Rightarrow> rate_limiter \<Rightarrow> rate_limiter \<times> bool list" where
  "limiter_run [] l = (l, [])"
| "limiter_run (e # es) l =
     (let (l1, ok) = limiter_step e l; (l2, oks) = limiter_run es l1 in (l2, ok # oks))"

lemma limiter_run_snoc:
  "limiter_run (es @ [e]) l =
     (let (l1, oks) = limiter_run es l; (l2, ok) = limiter_step e l1 in (l2, oks @ [ok]))"
  by (induction es l rule: limiter_run.induct) (auto simp: Let_def split: prod.splits)

lemma limiter_run_length: "length (snd (limiter_run es l)) = length es"
  by (induction es l rule: limiter_run.induct) (auto simp: Let_def split: prod.splits)

text \<open>
  The times at which attempts with a key were allowed since its last reset, the keys with an attempt
  since their last reset, and the times on the clock.
\<close>

fun grant :: "rstr \<Rightarrow> limiter_event \<times> bool \<Rightarrow> nat list \<Rightarrow> nat list" where
  "grant k (Attempt t j, ok) ts = (if j = k \<and> ok then ts @ [t] else ts)"
| "grant k (Reset j, ok) ts = (if j = k then [] else ts)"

definition granted :: "rstr \<Rightarrow> (limiter_event \<times> bool) list \<Rightarrow> nat list" where
  "granted k hist = fold (grant k) hist []"

fun try_key :: "limiter_event \<Rightarrow> rstr set \<Rightarrow> rstr set" where
  "try_key (Attempt _ k) ks = insert k ks"
| "try_key (Reset k) ks = ks - {k}"

definition tried :: "limiter_event list \<Rightarrow> rstr set" where
  "tried es = fold try_key es {}"

fun clock_of :: "limiter_event \<Rightarrow> nat list" where
  "clock_of (Attempt t _) = [t]"
| "clock_of (Reset _) = []"

abbreviation clock :: "limiter_event list \<Rightarrow> nat list" where
  "clock es \<equiv> concat (map clock_of es)"

lemma granted_snoc: "granted k (hist @ [x]) = grant k x (granted k hist)"
  by (simp add: granted_def)

lemma tried_snoc: "tried (es @ [e]) = try_key e (tried es)"
  by (simp add: tried_def)

lemma granted_in_clock: "set (granted k (zip es oks)) \<subseteq> set (clock es)"
proof (induction es arbitrary: oks rule: rev_induct)
  case (snoc e es)
  show ?case
  proof (cases "length oks \<le> length es")
    case True
    then have "zip (es @ [e]) oks = zip es oks" by (simp add: zip_append1)
    with snoc.IH [of oks] show ?thesis by auto
  next
    case False
    then have "zip (es @ [e]) oks = zip es (take (length es) oks) @ [(e, oks ! length es)]"
      by (simp add: zip_append1 hd_drop_conv_nth zip_Cons1 split: list.split)
        (metis drop_eq_Nil hd_drop_conv_nth list.sel(1) not_le)
    with snoc.IH [of "take (length es) oks"] show ?thesis
      by (cases e) (auto simp: granted_snoc)
  qed
qed (simp add: granted_def)

lemma map_of_filter_keys:
  "distinct (map fst xs) \<Longrightarrow> map_of (filter (\<lambda>(k, v). P v) xs) k =
     (case map_of xs k of None \<Rightarrow> None | Some v \<Rightarrow> if P v then Some v else None)"
proof (induction xs)
  case (Cons x xs)
  obtain j v where x: "x = (j, v)" by (cases x)
  have "j \<notin> fst ` set xs" using Cons.prems by (simp add: x)
  then have "map_of xs j = None" by (simp add: map_of_eq_None_iff)
  with Cons show ?case by (auto simp: x)
qed simp

lemma check_cases:
  assumes "check_and_record now key l = (l', ok)"
  defines "entry \<equiv> filter (\<lambda>t. now - t < rl_window (lim_config l)) (attempts_of l key)"
  defines "at1 \<equiv> AList.update key (entry @ (if ok then [now] else [])) (lim_attempts l)"
  shows "ok = (length entry < rl_max_attempts (lim_config l)) \<and> lim_config l' = lim_config l
    \<and> (lim_attempts l' = at1 \<or> ok \<and> lim_attempts l' = filter (\<lambda>(_, v). v \<noteq> []) at1)"
  using assms(1) by (auto simp: check_and_record_def Let_def entry_def at1_def not_le split: if_splits)

lemma attempts_of_filter:
  assumes "distinct (map fst xs)"
  shows "attempts_of (l\<lparr>lim_attempts := filter (\<lambda>(_, v). v \<noteq> []) xs\<rparr>) k = attempts_of (l\<lparr>lim_attempts := xs\<rparr>) k"
  using map_of_filter_keys [OF assms, of "\<lambda>v. v \<noteq> []" k] by (simp add: attempts_of_def split: option.split)

lemma attempts_of_check:
  assumes "distinct (map fst (lim_attempts l))" "check_and_record now key l = (l', ok)"
  shows "attempts_of l' k =
      (if k = key then filter (\<lambda>t. now - t < rl_window (lim_config l)) (attempts_of l key) @ (if ok then [now] else [])
       else attempts_of l k)
    \<and> ok = (length (filter (\<lambda>t. now - t < rl_window (lim_config l)) (attempts_of l key)) < rl_max_attempts (lim_config l))
    \<and> distinct (map fst (lim_attempts l')) \<and> lim_config l' = lim_config l"
proof -
  let ?new = "filter (\<lambda>t. now - t < rl_window (lim_config l)) (attempts_of l key) @ (if ok then [now] else [])"
  let ?at1 = "AList.update key ?new (lim_attempts l)"
  have d: "distinct (map fst ?at1)" by (rule distinct_update [OF assms(1)])
  have same: "attempts_of l' k = attempts_of (l\<lparr>lim_attempts := ?at1\<rparr>) k" for k
    using check_cases [OF assms(2)] attempts_of_filter [OF d, of l k] by (auto simp: attempts_of_def)
  have "distinct (map fst (lim_attempts l'))"
    using check_cases [OF assms(2)] d by (auto simp: distinct_map_filter)
  moreover have "attempts_of (l\<lparr>lim_attempts := ?at1\<rparr>) k = (if k = key then ?new else attempts_of l k)"
    by (simp add: attempts_of_def update_conv')
  ultimately show ?thesis using check_cases [OF assms(2)] same [of k] by simp
qed

lemma attempts_of_reset: "attempts_of (limiter_reset a l) k = (if k = a then [] else attempts_of l k)"
  by (simp add: attempts_of_def limiter_reset_def delete_conv')

definition in_window :: "nat \<Rightarrow> nat \<Rightarrow> nat \<Rightarrow> bool" where
  "in_window w a t \<longleftrightarrow> a \<le> t \<and> t < a + w"

text \<open>Inside the window the limiter holds for each key what was granted since its last reset.\<close>

definition holds_granted :: "rate_limit_config \<Rightarrow> limiter_event list \<Rightarrow> bool list \<Rightarrow> rate_limiter \<Rightarrow> bool" where
  "holds_granted cfg es oks l \<longleftrightarrow> lim_config l = cfg \<and> distinct (map fst (lim_attempts l))
     \<and> (\<forall>k n. (\<forall>t \<in> set (clock es). t \<le> n) \<longrightarrow>
          filter (\<lambda>t. n - t < rl_window cfg) (attempts_of l k)
            = filter (\<lambda>t. n - t < rl_window cfg) (granted k (zip es oks)))"

lemma holds_granted_attempt:
  assumes "holds_granted cfg es oks l1" "check_and_record now key l1 = (l2, ok)" "length oks = length es"
    and "\<forall>t \<in> set (clock es). t \<le> now"
  shows "holds_granted cfg (es @ [Attempt now key]) (oks @ [ok]) l2"
    and "ok = (length (filter (\<lambda>t. now - t < rl_window cfg) (granted key (zip es oks))) < rl_max_attempts cfg)"
proof -
  let ?W = "rl_window cfg"
  have T: "lim_config l1 = cfg" "distinct (map fst (lim_attempts l1))"
    "\<And>k n. (\<forall>t \<in> set (clock es). t \<le> n) \<Longrightarrow>
       filter (\<lambda>t. n - t < ?W) (attempts_of l1 k) = filter (\<lambda>t. n - t < ?W) (granted k (zip es oks))"
    using assms(1) by (simp_all add: holds_granted_def)
  have c: "attempts_of l2 k = (if k = key then filter (\<lambda>t. now - t < ?W) (attempts_of l1 key) @ (if ok then [now] else [])
       else attempts_of l1 k)"
    "ok = (length (filter (\<lambda>t. now - t < ?W) (attempts_of l1 key)) < rl_max_attempts cfg)"
    "distinct (map fst (lim_attempts l2))" "lim_config l2 = cfg" for k
    using attempts_of_check [OF T(2) assms(2)] T(1) by auto
  show "ok = (length (filter (\<lambda>t. now - t < ?W) (granted key (zip es oks))) < rl_max_attempts cfg)"
    using c(2) T(3) [OF assms(4)] by simp
  have g: "granted k (zip (es @ [Attempt now key]) (oks @ [ok])) = granted k (zip es oks) @ (if ok \<and> k = key then [now] else [])" for k
    using assms(3) by (simp add: granted_snoc)
  have "filter (\<lambda>t. n - t < ?W) (attempts_of l2 k) = filter (\<lambda>t. n - t < ?W) (granted k (zip (es @ [Attempt now key]) (oks @ [ok])))"
    if "\<forall>t \<in> set (clock (es @ [Attempt now key])). t \<le> n" for k n
  proof -
    have n: "now \<le> n" "\<forall>t \<in> set (clock es). t \<le> n" using that by auto
    have "filter (\<lambda>t. n - t < ?W) (filter (\<lambda>t. now - t < ?W) xs) = filter (\<lambda>t. n - t < ?W) xs" for xs
      using n(1) by (induction xs) auto
    then show ?thesis using T(3) [OF n(2)] by (simp add: c(1) g)
  qed
  then show "holds_granted cfg (es @ [Attempt now key]) (oks @ [ok]) l2" by (simp only: holds_granted_def c(3,4) simp_thms) blast
qed

lemma holds_granted_reset:
  assumes "holds_granted cfg es oks l" "length oks = length es"
  shows "holds_granted cfg (es @ [Reset key]) (oks @ [ok]) (limiter_reset key l)"
  using assms by (auto simp: holds_granted_def attempts_of_reset granted_snoc)
    (auto simp: limiter_reset_def distinct_delete)

text \<open>The bound on what is granted in a window, kept by an attempt that respects it.\<close>

lemma window_bound:
  assumes "length (filter (in_window w a) ts) \<le> m" "\<forall>t \<in> set ts. t \<le> now"
    and "length (filter (\<lambda>t. now - t < w) ts) < m"
  shows "length (filter (in_window w a) (ts @ [now])) \<le> m"
proof (cases "in_window w a now")
  case True
  have "filter (in_window w a) ts = filter (in_window w a) (filter (\<lambda>t. now - t < w) ts)"
    unfolding filter_filter using True assms(2) by (intro filter_cong) (auto simp: in_window_def)
  then have "length (filter (in_window w a) ts) \<le> length (filter (\<lambda>t. now - t < w) ts)"
    by (metis length_filter_le)
  with True assms(3) show ?thesis by simp
qed (use assms(1) in simp)

lemma limiter_run_inv:
  assumes "limiter_run es (rate_limiter_new cfg) = (l, oks)" "sorted (clock es)"
  shows "holds_granted cfg es oks l
    \<and> (\<forall>i < length es. \<forall>now k. es ! i = Attempt now k \<longrightarrow> (oks ! i \<longleftrightarrow>
         length (filter (\<lambda>t. now - t < rl_window cfg) (granted k (zip (take i es) (take i oks)))) < rl_max_attempts cfg))
    \<and> (\<forall>k a. length (filter (in_window (rl_window cfg) a) (granted k (zip es oks))) \<le> rl_max_attempts cfg)"
  using assms
proof (induction es arbitrary: l oks rule: rev_induct)
  case Nil
  then show ?case by (auto simp: rate_limiter_new_def attempts_of_def granted_def holds_granted_def)
next
  case (snoc e es)
  obtain l1 oks1 where r1: "limiter_run es (rate_limiter_new cfg) = (l1, oks1)"
    by (cases "limiter_run es (rate_limiter_new cfg)")
  obtain l2 ok where r2: "limiter_step e l1 = (l2, ok)" by (cases "limiter_step e l1")
  have l: "l = l2" "oks = oks1 @ [ok]" using snoc.prems(1) r1 r2 by (auto simp: limiter_run_snoc)
  have len: "length oks1 = length es" using limiter_run_length [of es "rate_limiter_new cfg"] by (simp add: r1)
  have sorted: "sorted (clock es)" "\<forall>t \<in> set (clock es). \<forall>u \<in> set (clock_of e). t \<le> u"
    using snoc.prems(2) by (auto simp: sorted_append)
  have ih: "holds_granted cfg es oks1 l1"
    "\<forall>i < length es. \<forall>now k. es ! i = Attempt now k \<longrightarrow> (oks1 ! i \<longleftrightarrow>
       length (filter (\<lambda>t. now - t < rl_window cfg) (granted k (zip (take i es) (take i oks1)))) < rl_max_attempts cfg)"
    "\<And>k a. length (filter (in_window (rl_window cfg) a) (granted k (zip es oks1))) \<le> rl_max_attempts cfg"
    using snoc.IH [OF r1 sorted(1)] by blast+
  show ?case
  proof (cases e)
    case (Attempt now key)
    have le: "\<forall>t \<in> set (clock es). t \<le> now" using sorted(2) Attempt by auto
    note t = holds_granted_attempt [OF ih(1) r2 [unfolded Attempt limiter_step.simps] len le]
    have "length (filter (in_window (rl_window cfg) a) (granted k (zip (es @ [e]) oks))) \<le> rl_max_attempts cfg" for k a
    proof -
      have "\<forall>t \<in> set (granted key (zip es oks1)). t \<le> now" using le granted_in_clock by blast
      note b = window_bound [OF ih(3) this, of a]
      have "granted k (zip (es @ [e]) oks) = granted k (zip es oks1) @ (if ok \<and> k = key then [now] else [])"
        using len by (simp add: l(2) Attempt granted_snoc)
      then show ?thesis using b t(2) ih(3) by (cases "ok \<and> k = key") auto
    qed
    moreover have "oks ! i \<longleftrightarrow> length (filter (\<lambda>t. n - t < rl_window cfg)
        (granted k (zip (take i (es @ [e])) (take i oks)))) < rl_max_attempts cfg"
      if "i < length (es @ [e])" "(es @ [e]) ! i = Attempt n k" for i n k
    proof (cases "i < length es")
      case True
      then show ?thesis using ih(2) that len by (simp add: l(2) nth_append)
    next
      case False
      then have "i = length es" using that(1) by simp
      then show ?thesis using t(2) that(2) len Attempt by (simp add: l(2) nth_append)
    qed
    ultimately show ?thesis using t(1) Attempt l by simp
  next
    case (Reset key)
    have "l2 = limiter_reset key l1" using r2 Reset by simp
    then have "holds_granted cfg (es @ [e]) oks l" using holds_granted_reset [OF ih(1) len, of key ok] Reset l by simp
    moreover have "length (filter (in_window (rl_window cfg) a) (granted k (zip (es @ [e]) oks))) \<le> rl_max_attempts cfg" for k a
      using ih(3) len by (simp add: l(2) Reset granted_snoc)
    moreover have "oks ! i \<longleftrightarrow> length (filter (\<lambda>t. n - t < rl_window cfg)
        (granted k (zip (take i (es @ [e])) (take i oks)))) < rl_max_attempts cfg"
      if "i < length (es @ [e])" "(es @ [e]) ! i = Attempt n k" for i n k
    proof -
      have "i < length es" using that Reset by (cases "i < length es") (auto simp: nth_append split: if_splits)
      then show ?thesis using ih(2) that len by (simp add: l(2) nth_append)
    qed
    ultimately show ?thesis by blast
  qed
qed

text \<open>No list of attempts is ever empty, so that the purge of empty lists removes nothing.\<close>

lemma limiter_run_keys:
  assumes "0 < rl_max_attempts cfg"
  shows "(\<forall>(k, v) \<in> set (lim_attempts (fst (limiter_run es (rate_limiter_new cfg)))). v \<noteq> [])
    \<and> fst ` set (lim_attempts (fst (limiter_run es (rate_limiter_new cfg)))) = tried es
    \<and> lim_config (fst (limiter_run es (rate_limiter_new cfg))) = cfg"
proof (induction es rule: rev_induct)
  case (snoc e es)
  obtain l1 oks1 where r1: "limiter_run es (rate_limiter_new cfg) = (l1, oks1)" by (cases "limiter_run es (rate_limiter_new cfg)")
  obtain l2 ok where r2: "limiter_step e l1 = (l2, ok)" by (cases "limiter_step e l1")
  have ih: "\<forall>(k, v) \<in> set (lim_attempts l1). v \<noteq> []" "fst ` set (lim_attempts l1) = tried es" "lim_config l1 = cfg"
    using snoc.IH by (simp_all add: r1)
  show ?case
  proof (cases e)
    case (Attempt now key)
    have r2: "check_and_record now key l1 = (l2, ok)" using r2 Attempt by simp
    have upd: "\<forall>(k, v) \<in> set (AList.update key w (lim_attempts l1)). v \<noteq> []" if "w \<noteq> []" for w
      using ih(1) that update_set [of key w "lim_attempts l1"] by auto
    have keys: "fst ` set (AList.update key w xs) = insert key (fst ` set xs)" for w and xs :: "(rstr \<times> nat list) list"
      by (induction xs) auto
    let ?entry = "filter (\<lambda>t. now - t < rl_window (lim_config l1)) (attempts_of l1 key)"
    let ?w = "?entry @ (if ok then [now] else [])"
    have w: "?w \<noteq> []" using check_cases [OF r2] assms ih(3) by auto
    have "filter (\<lambda>(_, v). v \<noteq> []) (AList.update key ?w (lim_attempts l1)) = AList.update key ?w (lim_attempts l1)"
      using upd [OF w] by (auto simp: filter_id_conv)
    with check_cases [OF r2] ih(3) have "lim_attempts l2 = AList.update key ?w (lim_attempts l1)" "lim_config l2 = cfg"
      by auto
    then show ?thesis using upd [OF w] ih(2) by (simp add: limiter_run_snoc r1 r2 Attempt keys tried_snoc)
  next
    case (Reset key)
    have l2: "l2 = l1\<lparr>lim_attempts := AList.delete key (lim_attempts l1)\<rparr>" using r2 Reset by (simp add: limiter_reset_def)
    have "fst ` set (AList.delete key (lim_attempts l1)) = tried (es @ [e])"
      unfolding tried_snoc Reset try_key.simps ih(2) [symmetric] by (auto simp: AList.delete_eq)
    moreover have "\<forall>(k, v) \<in> set (AList.delete key (lim_attempts l1)). v \<noteq> []" using ih(1) by (auto simp: AList.delete_eq)
    moreover have "fst (limiter_run (es @ [e]) (rate_limiter_new cfg)) = l2" by (simp add: limiter_run_snoc r1 r2)
    ultimately show ?thesis using ih(3) by (simp only: l2) simp
  qed
qed (simp add: rate_limiter_new_def tried_def)

section \<open>One-time passwords over a run of attempts\<close>

text \<open>The attempts whose codes were accepted, in order.\<close>

fun otp_run :: "(nat \<times> rstr) list \<Rightarrow> totp_manager \<Rightarrow> totp_manager \<times> (nat \<times> rstr) list" where
  "otp_run [] tm = (tm, [])"
| "otp_run ((now, code) # es) tm =
     (let (tm1, ok) = otp_verify now code tm; (tm2, accepted) = otp_run es tm1 in
      (tm2, if ok then (now, code) # accepted else accepted))"

text \<open>An accepted code is that of one of the windows tried, which was not used and is then
  used; windows are forgotten only when they are no longer tried.\<close>

lemma otp_verify_cases:
  assumes "otp_verify now code tm = (tm', ok)"
  shows "tm_generate tm' = tm_generate tm \<and>
    (if ok then \<exists>w \<in> set (tried_windows (now div TOTP_STEP)).
         as_bytes (tm_generate tm (w * TOTP_STEP)) = as_bytes (trim code)
         \<and> (w, tm_generate tm (w * TOTP_STEP)) \<notin> set (tm_used_codes tm)
         \<and> set (tm_used_codes tm') = {(v, c) \<in> insert (w, tm_generate tm (w * TOTP_STEP)) (set (tm_used_codes tm)).
              now div TOTP_STEP \<le> v + 2}
     else tm' = tm)"
proof (cases "str_len (trim code) \<noteq> 6 \<or> \<not> list_all is_ascii_digit (trim code)")
  case True
  then show ?thesis using assms by (auto simp: otp_verify_def Let_def)
next
  case False
  let ?c = "now div TOTP_STEP" and ?gen = "\<lambda>w. tm_generate tm (w * TOTP_STEP)"
  let ?m = "\<lambda>w. str_len (?gen w) = str_len (trim code) \<and> as_bytes (?gen w) = as_bytes (trim code)"
  show ?thesis
  proof (cases "List.find ?m (tried_windows ?c)")
    case None
    then show ?thesis using assms False by (auto simp: otp_verify_def Let_def)
  next
    case (Some w)
    then have w: "w \<in> set (tried_windows ?c)" "as_bytes (?gen w) = as_bytes (trim code)"
      by (auto simp: find_Some_iff in_set_conv_nth)
    have t: "try_record_use w (?gen w) ?c tm = (tm', ok)"
      using assms False Some by (auto simp: otp_verify_def Let_def)
    show ?thesis
    proof (cases "(w, ?gen w) \<in> set (tm_used_codes tm)")
      case True
      then show ?thesis using t by (auto simp: try_record_use_def)
    next
      case fresh: False
      then have "tm' = tm\<lparr>tm_used_codes := filter (\<lambda>(v, _). int ?c - 2 \<le> int v) ((w, ?gen w) # tm_used_codes tm)\<rparr>" "ok"
        using t by (auto simp: try_record_use_def Let_def REPLAY_WINDOW_RANGE_def)
      then have "tm_generate tm' = tm_generate tm"
        "set (tm_used_codes tm') = {(v, c) \<in> insert (w, ?gen w) (set (tm_used_codes tm)). ?c \<le> v + 2}"
        by auto
      with fresh w \<open>ok\<close> show ?thesis by auto
    qed
  qed
qed

text \<open>With a clock that does not go back no window is accepted twice.\<close>

lemma tried_windows_set: "w \<in> set (tried_windows c) \<Longrightarrow> c \<le> w + 1 \<and> w \<le> c + 1"
  by (auto simp: tried_windows_def split: if_splits)

definition used_ok :: "totp_manager \<Rightarrow> nat \<Rightarrow> nat set \<Rightarrow> bool" where
  "used_ok tm now ws \<longleftrightarrow>
     (\<forall>w \<in> ws. now div TOTP_STEP \<le> w + 2 \<longrightarrow> (w, tm_generate tm (w * TOTP_STEP)) \<in> set (tm_used_codes tm))"

lemma otp_run_windows:
  assumes "otp_run es tm = (tm', accepted)" "sorted (map fst es)" "used_ok tm t ws" "\<forall>(now, _) \<in> set es. t \<le> now"
  shows "\<exists>windows. length windows = length accepted \<and> distinct windows \<and> set windows \<inter> ws = {}
    \<and> (\<forall>i < length accepted. windows ! i \<in> set (tried_windows (fst (accepted ! i) div TOTP_STEP))
         \<and> as_bytes (tm_generate tm (windows ! i * TOTP_STEP)) = as_bytes (trim (snd (accepted ! i))))"
  using assms
proof (induction es arbitrary: tm accepted t ws)
  case (Cons e es)
  obtain now code where e: "e = (now, code)" by (cases e)
  obtain tm1 ok where v: "otp_verify now code tm = (tm1, ok)" by (cases "otp_verify now code tm")
  obtain acc where r: "otp_run es tm1 = (tm', acc)" "accepted = (if ok then (now, code) # acc else acc)"
    using Cons.prems(1) v by (auto simp: e split: prod.splits)
  have s: "sorted (map fst es)" "\<forall>(n, _) \<in> set es. now \<le> n" "t \<le> now"
    using Cons.prems(2,4) by (auto simp: e)
  have div: "t div TOTP_STEP \<le> now div TOTP_STEP" by (rule div_le_mono [OF s(3)])
  show ?case
  proof (cases ok)
    case False
    then have "tm1 = tm" using otp_verify_cases [OF v] by simp
    then have "used_ok tm1 now ws" using Cons.prems(3) div by (auto simp: used_ok_def)
    from Cons.IH [OF r(1) s(1) this s(2)] False show ?thesis by (simp add: r(2) \<open>tm1 = tm\<close>)
  next
    case True
    then obtain w where w: "w \<in> set (tried_windows (now div TOTP_STEP))"
      "as_bytes (tm_generate tm (w * TOTP_STEP)) = as_bytes (trim code)"
      "(w, tm_generate tm (w * TOTP_STEP)) \<notin> set (tm_used_codes tm)"
      "set (tm_used_codes tm1) = {(v, c) \<in> insert (w, tm_generate tm (w * TOTP_STEP)) (set (tm_used_codes tm)).
         now div TOTP_STEP \<le> v + 2}" "tm_generate tm1 = tm_generate tm"
      using otp_verify_cases [OF v] by auto
    have new: "w \<notin> ws"
      using w(1,3) Cons.prems(3) tried_windows_set [OF w(1)] div by (auto simp: used_ok_def)
    have "used_ok tm1 now (insert w ws)"
      using Cons.prems(3) div by (auto simp: used_ok_def w(4,5))
    from Cons.IH [OF r(1) s(1) this s(2)] obtain windows where
      "length windows = length acc" "distinct windows" "set windows \<inter> insert w ws = {}"
      "\<forall>i < length acc. windows ! i \<in> set (tried_windows (fst (acc ! i) div TOTP_STEP))
         \<and> as_bytes (tm_generate tm1 (windows ! i * TOTP_STEP)) = as_bytes (trim (snd (acc ! i)))" by blast
    with True new w(1,2,5) show ?thesis
      by (intro exI [of _ "w # windows"]) (auto simp: r(2) nth_Cons split: nat.split)
  qed
qed simp

section \<open>Sessions\<close>

definition auth_ok :: "auth_manager \<Rightarrow> bool" where
  "auth_ok am \<longleftrightarrow> distinct (map fst (am_sessions am))
     \<and> (0 < am_max_sessions am \<longrightarrow> length (am_sessions am) \<le> am_max_sessions am)"

lemma oldest_key_in: "xs \<noteq> [] \<Longrightarrow> \<exists>k e. oldest_key xs = Some k \<and> (k, e) \<in> set xs \<and> (\<forall>(_, e') \<in> set xs. se_expiry e \<le> se_expiry e')"
proof (induction xs rule: oldest_key.induct)
  case (2 k e xs)
  show ?case
  proof (cases "\<exists>(_, e') \<in> set xs. se_expiry e' < se_expiry e")
    case True
    then have "xs \<noteq> []" by auto
    from "2.IH" [OF True this] obtain k' e1 where k': "oldest_key xs = Some k'" "(k', e1) \<in> set xs"
      "\<forall>(_, e') \<in> set xs. se_expiry e1 \<le> se_expiry e'" by blast
    moreover have "se_expiry e1 \<le> se_expiry e" using True k'(3) by fastforce
    ultimately show ?thesis using True by auto
  next
    case False
    then show ?thesis by force
  qed
qed simp

lemma auth_create_ok:
  assumes "auth_ok am" "auth_create_session now token method user am = (am', r)"
  shows "auth_ok am' \<and> r = Some token
    \<and> map_of (am_sessions am') token = Some \<lparr>se_expiry = now + am_ttl am, se_auth_method = method, se_user_id = user\<rparr>
    \<and> (\<forall>k e. k \<noteq> token \<longrightarrow> map_of (am_sessions am') k = Some e \<longrightarrow> map_of (am_sessions am) k = Some e)"
proof -
  let ?live = "filter (\<lambda>(_, e). now < se_expiry e) (am_sessions am)"
  let ?full = "0 < am_max_sessions am \<and> am_max_sessions am \<le> length ?live"
  define kept where "kept = (if ?full then case oldest_key ?live of None \<Rightarrow> ?live | Some k \<Rightarrow> AList.delete k ?live else ?live)"
  have d: "distinct (map fst ?live)" using assms(1) by (simp add: auth_ok_def distinct_map_filter)
  have kd: "distinct (map fst kept)" using d by (auto simp: kept_def distinct_delete_keys split: option.split)
  have len: "length kept < am_max_sessions am" if "0 < am_max_sessions am"
  proof (cases ?full)
    case True
    then have "?live \<noteq> []" by auto
    from oldest_key_in [OF this] obtain k e where k: "oldest_key ?live = Some k" "(k, e) \<in> set ?live" by blast
    then have "k \<in> fst ` set ?live" by force
    from length_delete [OF d this] have "length kept < length ?live" using True k(1) by (simp add: kept_def)
    also have "\<dots> \<le> length (am_sessions am)" by (rule length_filter_le)
    also have "\<dots> \<le> am_max_sessions am" using assms(1) that by (simp add: auth_ok_def)
    finally show ?thesis .
  qed (use that in \<open>auto simp: kept_def\<close>)
  have sub: "set kept \<subseteq> set (am_sessions am)"
  proof -
    have "set kept \<subseteq> set ?live" using delete_set [of _ ?live] by (simp add: kept_def split: option.split)
    then show ?thesis by auto
  qed
  have am': "am' = am\<lparr>am_sessions := AList.update token
      \<lparr>se_expiry = now + am_ttl am, se_auth_method = method, se_user_id = user\<rparr> kept\<rparr>" "r = Some token"
    using assms(2) by (auto simp: auth_create_session_def Let_def kept_def)
  have "map_of (am_sessions am) k = Some e" if "map_of kept k = Some e" for k e
    using map_of_SomeD [OF that] sub assms(1) by (auto simp: auth_ok_def)
  then show ?thesis using kd len
    by (auto simp: am' auth_ok_def distinct_update length_update update_conv')
qed

lemma auth_ok_revoke: "auth_ok am \<Longrightarrow> auth_ok (revoke_session token am)"
  using distinct_delete_keys [of "am_sessions am" token]
  by (auto simp: auth_ok_def revoke_session_def AList.delete_eq intro: order_trans [OF length_filter_le])

section \<open>Cookies\<close>

lemma trim_id:
  assumes "s \<noteq> []" "\<not> P (hd s)" "\<not> P (last s)"
  shows "trim_by P s = s"
proof -
  have "dropWhile P s = s" using assms(1,2) by (cases s) auto
  moreover have "dropWhile P (rev s) = rev s" using assms(1,3) by (cases s rule: rev_cases) auto
  ultimately show ?thesis by (simp add: trim_by_def)
qed

lemma cookie_roundtrip:
  assumes "59 \<notin> set token" "token \<noteq> []" "\<not> is_whitespace (last token)"
  shows "session_cookie_in (lit ''nexterm_session='' @ token) = Some token"
proof -
  let ?s = "lit ''nexterm_session='' @ token"
  have "59 \<notin> set ?s" using assms(1) by (auto simp: lit_def)
  moreover have "trim ?s = ?s"
    unfolding trim_def using assms(2,3) by (intro trim_id) (auto simp: lit_def is_whitespace_def)
  ultimately show ?thesis
    by (simp add: session_cookie_in_def split_on_single strip_prefix_def List.map_filter_def)
qed

end
