(* ===== verification/Web_Server_Facts.thy ===== *)
theory Web_Server_Facts
  imports Web_Server Web_Auth_Facts
begin

text \<open>
  Facts on the web terminal: where a valid session comes from, the invariant of the state and the
  form of the responses.  What the server relies on of its session store is the locale
  \<open>session_store\<close>: a lookup finds a session only if it was issued and has not been revoked since.
\<close>

section \<open>Session stores\<close>

datatype ('t, 'i) token_op = Issue nat 't 'i | Revoke 't | Keep

locale session_store =
  fixes issue :: "nat \<Rightarrow> 't \<Rightarrow> 'i \<Rightarrow> 's \<Rightarrow> 's"
    and revoke :: "'t \<Rightarrow> 's \<Rightarrow> 's"
    and session_at :: "'s \<Rightarrow> 't \<Rightarrow> (nat \<times> 'i) option"
    and ttl :: "'s \<Rightarrow> nat"
    and store_ok :: "'s \<Rightarrow> bool"
  assumes ok_issue: "store_ok s \<Longrightarrow> store_ok (issue now t i s)"
    and ok_revoke: "store_ok s \<Longrightarrow> store_ok (revoke t s)"
    and ttl_issue: "ttl (issue now t i s) = ttl s"
    and ttl_revoke: "ttl (revoke t s) = ttl s"
    and issued_at: "\<lbrakk>store_ok s; session_at (issue now t i s) t' = Some x\<rbrakk> \<Longrightarrow>
          (if t' = t then x = (now + ttl s, i) else session_at s t' = Some x)"
    and revoked_at: "\<lbrakk>store_ok s; session_at (revoke t s) t' = Some x\<rbrakk> \<Longrightarrow> t' \<noteq> t \<and> session_at s t' = Some x"
begin

fun store_op :: "('t, 'i) token_op \<Rightarrow> 's \<Rightarrow> 's" where
  "store_op (Issue now t i) s = issue now t i s"
| "store_op (Revoke t) s = revoke t s"
| "store_op Keep s = s"

lemma store_op_ok: "store_ok s \<Longrightarrow> store_ok (store_op op s) \<and> ttl (store_op op s) = ttl s"
  by (cases op) (simp_all add: ok_issue ok_revoke ttl_issue ttl_revoke)

lemma run_ok: "store_ok s \<Longrightarrow> store_ok (fold store_op ops s) \<and> ttl (fold store_op ops s) = ttl s"
  by (induction ops arbitrary: s) (simp_all add: store_op_ok)

text \<open>The session of a token is the one last issued for it, and it was not revoked since.\<close>

lemma provenance:
  assumes "store_ok s" "session_at s t = None" "session_at (fold store_op ops s) t = Some (expiry, info)"
  shows "\<exists>i < length ops. \<exists>now. ops ! i = Issue now t info \<and> expiry = now + ttl s
    \<and> (\<forall>j. i < j \<and> j < length ops \<longrightarrow> ops ! j \<noteq> Revoke t)"
  using assms(3)
proof (induction ops arbitrary: expiry info rule: rev_induct)
  case Nil
  then show ?case using assms(2) by simp
next
  case (snoc op ops)
  let ?s = "fold store_op ops s"
  have ok: "store_ok ?s" "ttl ?s = ttl s" using run_ok [OF assms(1)] by auto
  have old: ?case if "session_at ?s t = Some (expiry, info)" "op \<noteq> Revoke t"
  proof -
    from snoc.IH [OF that(1)] obtain i now where i: "i < length ops" "ops ! i = Issue now t info"
      "expiry = now + ttl s" "\<forall>j. i < j \<and> j < length ops \<longrightarrow> ops ! j \<noteq> Revoke t" by blast
    with that(2) show ?thesis
      by - (rule exI [of _ i], auto simp: nth_append less_Suc_eq)
  qed
  show ?case
  proof (cases op)
    case (Issue now t' i)
    with snoc.prems have "session_at (issue now t' i ?s) t = Some (expiry, info)" by simp
    from issued_at [OF ok(1) this] Issue old ok(2) show ?thesis
      by (cases "t = t'") (auto intro!: exI [of _ "length ops"])
  next
    case (Revoke t')
    with snoc.prems have "session_at (revoke t' ?s) t = Some (expiry, info)" by simp
    from revoked_at [OF ok(1) this] Revoke old show ?thesis by auto
  next
    case Keep
    with snoc.prems old show ?thesis by simp
  qed
qed

end

definition auth_issue :: "nat \<Rightarrow> rstr \<Rightarrow> rstr \<times> rstr \<Rightarrow> auth_manager \<Rightarrow> auth_manager" where
  "auth_issue now token info am = fst (auth_create_session now token (fst info) (snd info) am)"

definition auth_at :: "auth_manager \<Rightarrow> rstr \<Rightarrow> (nat \<times> rstr \<times> rstr) option" where
  "auth_at am token = map_option (\<lambda>e. (se_expiry e, se_auth_method e, se_user_id e)) (map_of (am_sessions am) token)"

lemma auth_create_ttl: "am_ttl (fst (auth_create_session now token m u am)) = am_ttl am"
  by (simp add: auth_create_session_def Let_def)

lemma auth_issue_ok: "auth_ok am \<Longrightarrow> auth_ok (auth_issue now token info am)"
  using auth_create_ok [of am now token "fst info" "snd info"]
  by (cases "auth_create_session now token (fst info) (snd info) am") (auto simp: auth_issue_def)

lemma auth_issued_at:
  assumes "auth_ok am" "auth_at (auth_issue now t i am) t' = Some x"
  shows "if t' = t then x = (now + am_ttl am, i) else auth_at am t' = Some x"
proof -
  obtain am' r where c: "auth_create_session now t (fst i) (snd i) am = (am', r)" by fastforce
  from auth_create_ok [OF assms(1) c] assms(2) c show ?thesis
    by (auto simp: auth_at_def auth_issue_def)
qed

interpretation am: session_store auth_issue revoke_session auth_at am_ttl auth_ok
proof unfold_locales
  show "auth_ok (auth_issue now t i s)" if "auth_ok s" for s now t i using that by (rule auth_issue_ok)
  show "auth_ok (revoke_session t s)" if "auth_ok s" for s t using that by (rule auth_ok_revoke)
  show "am_ttl (auth_issue now t i s) = am_ttl s" for now t i s by (simp add: auth_issue_def auth_create_ttl)
  show "if t' = t then x = (now + am_ttl s, i) else auth_at s t' = Some x"
    if "auth_ok s" "auth_at (auth_issue now t i s) t' = Some x" for s now t i t' x
    using that by (rule auth_issued_at)
  show "t' \<noteq> t \<and> auth_at s t' = Some x" if "auth_ok s" "auth_at (revoke_session t s) t' = Some x" for s t t' x
    using that by (auto simp: auth_at_def revoke_session_def delete_conv' split: if_splits)
qed (simp add: revoke_session_def)

section \<open>What a request does to the sessions\<close>

text \<open>A session is issued to a login with a one-time password, to the end of the setup, and to an OAuth
  callback with a user that is allowed.\<close>

definition session_op_of ::
    "web_env \<Rightarrow> web_input \<Rightarrow> headers \<Rightarrow> web_request \<Rightarrow> web_state \<Rightarrow> (rstr, rstr \<times> rstr) token_op" where
  "session_op_of we inp h req st =
     (case req of
        PostLogin code \<Rightarrow>
          (case ws_totp st of
             None \<Rightarrow> Keep
           | Some totp \<Rightarrow>
               if snd (check_and_record (wi_now inp) (client_ip h) (ws_limiter st)) \<and> snd (otp_verify (wi_unix inp) code totp)
               then Issue (wi_now inp) (wi_token inp) (lit ''totp'', []) else Keep)
      | PostSetupVerify code \<Rightarrow>
          (case ws_pending st of
             None \<Rightarrow> Keep
           | Some ps \<Rightarrow>
               if snd (otp_verify (wi_unix inp) code (ps_totp ps)) \<and> from_secret we (ps_secret ps) (ws_issuer st) \<noteq> None
               then Issue (wi_now inp) (wi_token inp) (lit ''totp'', []) else Keep)
      | GetCallback (Some code) (Some s) None \<Rightarrow>
          (case ws_oauth st of
             None \<Rightarrow> Keep
           | Some om \<Rightarrow>
               (case snd (exchange_code (we_lower we) (we_oauth we) (wi_net inp) (wi_now inp) code s om) of
                  Inl _ \<Rightarrow> Keep
                | Inr (user, access_token) \<Rightarrow>
                    if is_user_allowed (wi_net inp) (om_config om) user access_token
                    then Issue (wi_now inp) (wi_token inp) (lit ''oauth:'' @ ou_provider user,
                           case ou_login user of None \<Rightarrow> ou_user_id user | Some login \<Rightarrow> login)
                    else Keep))
      | PostLogout \<Rightarrow> (case extract_session_cookie h of None \<Rightarrow> Keep | Some token \<Rightarrow> Revoke token)
      | _ \<Rightarrow> Keep)"

text \<open>The requests one after the other.\<close>

type_synonym web_event = "web_input \<times> headers \<times> web_request"

fun web_run :: "web_env \<Rightarrow> web_event list \<Rightarrow> web_state \<Rightarrow> web_state \<times> response list" where
  "web_run we [] st = (st, [])"
| "web_run we ((inp, h, req) # es) st =
     (let (st1, r) = web_step we inp h req st; (st2, rs) = web_run we es st1 in (st2, r # rs))"

fun web_ops :: "web_env \<Rightarrow> web_event list \<Rightarrow> web_state \<Rightarrow> (rstr, rstr \<times> rstr) token_op list" where
  "web_ops we [] st = []"
| "web_ops we ((inp, h, req) # es) st = session_op_of we inp h req st # web_ops we es (fst (web_step we inp h req st))"

lemma web_ops_length: "length (web_ops we es st) = length es"
  by (induction we es st rule: web_ops.induct) simp_all

lemma web_run_Cons: "fst (web_run we ((inp, h, req) # es) st) = fst (web_run we es (fst (web_step we inp h req st)))"
  by (simp add: Let_def split: prod.split)

lemma issue_session_eq:
  "issue_session inp m u st = (st\<lparr>ws_auth := auth_issue (wi_now inp) (wi_token inp) (m, u) (ws_auth st)\<rparr>, Some (wi_token inp))"
  by (simp add: issue_session_def auth_issue_def auth_create_session_def Let_def)

lemma log_entry_simps [simp]:
  "ws_auth (log_entry e st) = ws_auth st" "ws_limiter (log_entry e st) = ws_limiter st"
  "ws_oauth (log_entry e st) = ws_oauth st" "ws_totp (log_entry e st) = ws_totp st"
  "ws_pending (log_entry e st) = ws_pending st" "ws_totp_enabled (log_entry e st) = ws_totp_enabled st"
  "ws_tls (log_entry e st) = ws_tls st" "ws_legacy_token (log_entry e st) = ws_legacy_token st"
  "ws_issuer (log_entry e st) = ws_issuer st"
  by (simp_all add: log_entry_def)

lemmas log_defs = log_login_def log_callback_def log_ws_def

lemma exchange_config: "om_config (fst (exchange_code lc ox net now code s om)) = om_config om"
  by (simp add: exchange_code_def take_state_def Let_def)

lemma login_auth: "ws_auth (fst (handle_login inp h code st)) = am.store_op (session_op_of we inp h (PostLogin code) st) (ws_auth st)"
  by (auto simp: handle_login_def session_op_of_def issue_session_eq log_defs Let_def split: prod.split option.split)

lemma setup_auth:
  "ws_auth (fst (handle_setup_verify we inp code st)) = am.store_op (session_op_of we inp h (PostSetupVerify code) st) (ws_auth st)"
  by (auto simp: handle_setup_verify_def setup_verified_def session_op_of_def issue_session_eq Let_def
      split: prod.split option.split)

lemma callback_auth:
  "ws_auth (fst (handle_oauth_callback we inp h c s e st)) = am.store_op (session_op_of we inp h (GetCallback c s e) st) (ws_auth st)"
proof (cases "ws_oauth st = None \<or> c = None \<or> s = None \<or> e \<noteq> None")
  case True
  then show ?thesis by (auto simp: handle_oauth_callback_def session_op_of_def split: option.split)
next
  case False
  then obtain om code t where o: "ws_oauth st = Some om" "c = Some code" "s = Some t" "e = None" by auto
  obtain om' r where x: "exchange_code (we_lower we) (we_oauth we) (wi_net inp) (wi_now inp) code t om = (om', r)" by fastforce
  have "om_config om' = om_config om" using exchange_config by (metis x fst_conv)
  then show ?thesis
    by (auto simp: handle_oauth_callback_def session_op_of_def oauth_admit_def issue_session_eq log_defs Let_def o x
        split: sum.split)
qed

lemma web_step_auth:
  "ws_auth (fst (web_step we inp h req st)) = am.store_op (session_op_of we inp h req st) (ws_auth st)"
proof -
  have "ws_auth (fst (route we inp h req st)) = am.store_op (session_op_of we inp h req st) (ws_auth st)"
  proof (cases req)
    case GetLogin
    then show ?thesis by (auto simp: route_def serve_login_def session_op_of_def Let_def split: prod.split option.split sum.split)
  next
    case GetOauth
    then show ?thesis by (auto simp: route_def handle_oauth_redirect_def session_op_of_def split: prod.split option.split sum.split)
  next
    case PostLogout
    then show ?thesis by (auto simp: route_def handle_logout_def session_op_of_def split: option.split)
  next
    case (GetWs s t)
    then show ?thesis by (auto simp: route_def ws_handler_def session_op_of_def log_defs Let_def split: prod.split)
  qed (simp_all add: route_def login_auth [of _ _ _ _ we] setup_auth [of _ _ _ _ h] callback_auth, simp_all add: session_op_of_def)
  then show ?thesis by (simp add: web_step_def case_prod_beta)
qed

lemma web_run_auth: "ws_auth (fst (web_run we es st)) = fold am.store_op (web_ops we es st) (ws_auth st)"
  by (induction we es st rule: web_ops.induct) (simp_all add: web_run_Cons web_step_auth del: web_run.simps(2))

section \<open>The invariant of the state\<close>

definition limiter_ok :: "rate_limiter \<Rightarrow> bool" where
  "limiter_ok l \<longleftrightarrow> lim_config l = totp_default \<and> distinct (map fst (lim_attempts l))
     \<and> (\<forall>(k, ts) \<in> set (lim_attempts l). ts \<noteq> [] \<and> length ts \<le> 5)"

definition rest_ok :: "web_state \<Rightarrow> bool" where
  "rest_ok st \<longleftrightarrow> limiter_ok (ws_limiter st)
     \<and> (\<forall>om. ws_oauth st = Some om \<longrightarrow> distinct (map fst (om_pending_states om)))
     \<and> (ws_pending st \<noteq> None \<longrightarrow> ws_totp st = None)
     \<and> (\<not> ws_totp_enabled st \<longrightarrow> ws_totp st = None \<and> ws_pending st = None)"

definition web_ok :: "web_state \<Rightarrow> bool" where
  "web_ok st \<longleftrightarrow> auth_ok (ws_auth st) \<and> rest_ok st"

lemma limiter_ok_check:
  assumes "limiter_ok l" "check_and_record now key l = (l', ok)"
  shows "limiter_ok l'"
proof -
  let ?entry = "filter (\<lambda>t. now - t < rl_window (lim_config l)) (attempts_of l key)"
  let ?w = "?entry @ (if ok then [now] else [])"
  have d: "distinct (map fst (lim_attempts l))" and m: "rl_max_attempts (lim_config l) = 5"
    using assms(1) by (auto simp: limiter_ok_def totp_default_def)
  have "length (attempts_of l key) \<le> 5"
    using assms(1) by (auto simp: limiter_ok_def attempts_of_def split: option.split dest!: map_of_SomeD)
  then have "length ?entry \<le> 5" by (rule order_trans [OF length_filter_le])
  then have len: "length ?w \<le> 5" using check_cases [OF assms(2)] m by auto
  have ne: "?w \<noteq> []" using check_cases [OF assms(2)] m by auto
  have "\<forall>(k, ts) \<in> set (AList.update key ?w (lim_attempts l)). ts \<noteq> [] \<and> length ts \<le> 5"
    using assms(1) len ne update_set [of key ?w "lim_attempts l"] by (auto simp: limiter_ok_def)
  moreover have "set (lim_attempts l') \<subseteq> set (AList.update key ?w (lim_attempts l))"
    using check_cases [OF assms(2)] by auto
  ultimately show ?thesis
    using attempts_of_check [OF d assms(2)] assms(1) by (auto simp: limiter_ok_def)
qed

lemma limiter_ok_reset: "limiter_ok l \<Longrightarrow> limiter_ok (limiter_reset key l)"
  using delete_set [of key "lim_attempts l"] distinct_delete_keys [of "lim_attempts l" key]
  by (auto simp: limiter_ok_def limiter_reset_def)

lemma start_ok: "web_ok (start_web_server we gen config)"
  by (auto simp: start_web_server_def init_totp_def web_ok_def rest_ok_def auth_ok_def auth_manager_new_def limiter_ok_def
      rate_limiter_new_def oauth_manager_new_def split: option.split)

text \<open>The switches are fixed at the start.\<close>

definition same_switches :: "web_state \<Rightarrow> web_state \<Rightarrow> bool" where
  "same_switches st st' \<longleftrightarrow> ws_totp_enabled st' = ws_totp_enabled st \<and> ws_tls st' = ws_tls st
     \<and> ws_force_https st' = ws_force_https st \<and> ws_legacy_token st' = ws_legacy_token st
     \<and> ws_issuer st' = ws_issuer st \<and> (ws_oauth st' = None \<longleftrightarrow> ws_oauth st = None)"

lemma authorization_distinct:
  "distinct (map fst (om_pending_states om)) \<Longrightarrow> distinct (map fst (om_pending_states (fst (authorization_url ox now csrf om))))"
  by (auto simp: authorization_url_def distinct_update distinct_map_filter split: sum.split)

lemma exchange_distinct:
  "distinct (map fst (om_pending_states om)) \<Longrightarrow>
     distinct (map fst (om_pending_states (fst (exchange_code lc ox net now code s om))))"
  by (auto simp: exchange_code_def take_state_def Let_def distinct_delete_keys)

lemma login_rest:
  "rest_ok st \<Longrightarrow> rest_ok (fst (handle_login inp h code st)) \<and> same_switches st (fst (handle_login inp h code st))"
  by (auto simp: handle_login_def issue_session_eq log_defs log_entry_def rest_ok_def same_switches_def Let_def
      intro: limiter_ok_check limiter_ok_reset split: prod.split option.split)

lemma setup_rest:
  "rest_ok st \<Longrightarrow> rest_ok (fst (handle_setup_verify we inp code st)) \<and> same_switches st (fst (handle_setup_verify we inp code st))"
  by (auto simp: handle_setup_verify_def setup_verified_def issue_session_eq rest_ok_def same_switches_def Let_def
      split: prod.split option.split)

lemma login_page_rest:
  "rest_ok st \<Longrightarrow> rest_ok (fst (serve_login we inp st)) \<and> same_switches st (fst (serve_login we inp st))"
proof (cases "ws_oauth st")
  case (Some om)
  obtain om' r where a: "authorization_url (we_oauth we) (wi_now inp) (wi_csrf inp) om = (om', r)" by fastforce
  assume "rest_ok st"
  then have "distinct (map fst (om_pending_states om'))"
    using authorization_distinct [of om "we_oauth we" "wi_now inp" "wi_csrf inp"] Some by (simp add: rest_ok_def a)
  with \<open>rest_ok st\<close> show ?thesis
    by (auto simp: serve_login_def Some a rest_ok_def same_switches_def Let_def split: option.split sum.split)
qed (auto simp: serve_login_def rest_ok_def same_switches_def Let_def split: option.split)

lemma oauth_redirect_rest:
  "rest_ok st \<Longrightarrow> rest_ok (fst (handle_oauth_redirect we inp st)) \<and> same_switches st (fst (handle_oauth_redirect we inp st))"
proof (cases "ws_oauth st")
  case (Some om)
  obtain om' r where a: "authorization_url (we_oauth we) (wi_now inp) (wi_csrf inp) om = (om', r)" by fastforce
  assume "rest_ok st"
  then have "distinct (map fst (om_pending_states om'))"
    using authorization_distinct [of om "we_oauth we" "wi_now inp" "wi_csrf inp"] Some by (simp add: rest_ok_def a)
  with \<open>rest_ok st\<close> show ?thesis
    by (auto simp: handle_oauth_redirect_def Some a rest_ok_def same_switches_def split: sum.split)
qed (auto simp: handle_oauth_redirect_def rest_ok_def same_switches_def)

lemma callback_rest:
  "rest_ok st \<Longrightarrow> rest_ok (fst (handle_oauth_callback we inp h c s e st))
     \<and> same_switches st (fst (handle_oauth_callback we inp h c s e st))"
proof (cases "ws_oauth st = None \<or> c = None \<or> s = None \<or> e \<noteq> None")
  case True
  assume "rest_ok st"
  with True show ?thesis by (auto simp: handle_oauth_callback_def same_switches_def split: option.split)
next
  case False
  then obtain om code t where o: "ws_oauth st = Some om" "c = Some code" "s = Some t" "e = None" by auto
  obtain om' r where x: "exchange_code (we_lower we) (we_oauth we) (wi_net inp) (wi_now inp) code t om = (om', r)" by fastforce
  assume "rest_ok st"
  then have "distinct (map fst (om_pending_states om'))"
    using exchange_distinct [of om "we_lower we" "we_oauth we" "wi_net inp" "wi_now inp" code t] o(1) by (simp add: rest_ok_def x)
  with \<open>rest_ok st\<close> show ?thesis
    by (auto simp: handle_oauth_callback_def oauth_admit_def issue_session_eq log_defs log_entry_def rest_ok_def
        same_switches_def Let_def o x split: sum.split)
qed

lemma same_switches_refl [simp]: "same_switches st st"
  by (simp add: same_switches_def)

lemma route_rest: "rest_ok st \<Longrightarrow> rest_ok (fst (route we inp h req st)) \<and> same_switches st (fst (route we inp h req st))"
proof (cases req)
  case PostLogout
  assume "rest_ok st"
  with PostLogout show ?thesis
    by (auto simp: route_def handle_logout_def rest_ok_def same_switches_def split: option.split)
next
  case (GetWs s t)
  assume "rest_ok st"
  with GetWs show ?thesis
    by (auto simp: route_def ws_handler_def log_defs log_entry_def rest_ok_def same_switches_def Let_def split: prod.split)
qed (simp_all add: route_def login_rest setup_rest login_page_rest oauth_redirect_rest callback_rest)

lemma web_step_ok:
  assumes "web_ok st"
  shows "web_ok (fst (web_step we inp h req st)) \<and> same_switches st (fst (web_step we inp h req st))
    \<and> am_ttl (ws_auth (fst (web_step we inp h req st))) = am_ttl (ws_auth st)"
proof -
  have "fst (web_step we inp h req st) = fst (route we inp h req st)" by (simp add: web_step_def case_prod_beta)
  then show ?thesis
    using assms route_rest [of st we inp h req] web_step_auth [of we inp h req st]
      am.store_op_ok [of "ws_auth st" "session_op_of we inp h req st"] by (simp add: web_ok_def)
qed

lemma same_switches_trans: "\<lbrakk>same_switches a b; same_switches b c\<rbrakk> \<Longrightarrow> same_switches a c"
  by (simp add: same_switches_def)

lemma web_run_ok:
  assumes "web_ok st"
  shows "web_ok (fst (web_run we es st)) \<and> same_switches st (fst (web_run we es st))
    \<and> am_ttl (ws_auth (fst (web_run we es st))) = am_ttl (ws_auth st)"
  using assms
proof (induction we es st rule: web_ops.induct)
  case (2 we inp h req es st)
  from web_step_ok [OF 2(2), of we inp h req] 2(1) show ?case
    by (auto simp: web_run_Cons simp del: web_run.simps(2) intro: same_switches_trans)
qed simp

section \<open>The responses\<close>

text \<open>The headers every response must carry, written out; 39 is the single quote.\<close>

definition content_policy :: rstr where
  "content_policy =
     lit ''default-src '' @ [39] @ lit ''none'' @ [39] @ lit ''; script-src '' @ [39] @ lit ''self'' @ [39]
     @ lit ''; style-src '' @ [39] @ lit ''self'' @ [39] @ lit '' '' @ [39] @ lit ''unsafe-inline'' @ [39]
     @ lit ''; connect-src '' @ [39] @ lit ''self'' @ [39] @ lit '' ws: wss:; img-src '' @ [39] @ lit ''self'' @ [39]
     @ lit '' data:; font-src '' @ [39] @ lit ''self'' @ [39] @ lit '' data:; frame-ancestors '' @ [39] @ lit ''none'' @ [39]"

definition headers_secure :: "bool \<Rightarrow> (rstr \<times> rstr) list \<Rightarrow> bool" where
  "headers_secure tls hs \<longleftrightarrow>
     map_of hs (lit ''x-content-type-options'') = Some (lit ''nosniff'')
     \<and> map_of hs (lit ''x-frame-options'') = Some (lit ''DENY'')
     \<and> map_of hs (lit ''referrer-policy'') = Some (lit ''strict-origin-when-cross-origin'')
     \<and> map_of hs (lit ''cross-origin-opener-policy'') = Some (lit ''same-origin'')
     \<and> map_of hs (lit ''cross-origin-resource-policy'') = Some (lit ''same-origin'')
     \<and> map_of hs (lit ''permissions-policy'') = Some (lit ''camera=(), microphone=(), geolocation=(), payment=()'')
     \<and> map_of hs (lit ''content-security-policy'') = Some content_policy
     \<and> map_of hs (lit ''strict-transport-security'') =
         (if tls then Some (lit ''max-age=63072000; includeSubDomains'') else None)"

definition response_ok :: "web_state \<Rightarrow> response \<Rightarrow> bool" where
  "response_ok st r \<longleftrightarrow> rs_status r \<in> {101, 200, 301, 302, 401, 404, 429, 500}
     \<and> distinct (map fst (rs_headers r))
     \<and> headers_secure (ws_tls st) (rs_headers r)
     \<and> (map_of (rs_headers r) (lit ''location'') \<noteq> None \<longleftrightarrow> rs_status r \<in> {301, 302})"

lemma map_of_fold_update:
  "map_of (fold (\<lambda>(k, v). AList.update k v) ps xs) = map_of xs ++ map_of (rev ps)"
  by (induction ps arbitrary: xs) (auto simp: update_conv' fun_eq_iff map_add_def split: option.splits)

lemma distinct_fold_update:
  "distinct (map fst xs) \<Longrightarrow> distinct (map fst (fold (\<lambda>(k, v). AList.update k v) ps xs))"
  by (induction ps arbitrary: xs) (auto simp: distinct_update)

lemma security_names:
  "distinct (map fst (security_header_pairs tls)) \<and> lit ''location'' \<notin> fst ` set (security_header_pairs tls)
     \<and> lit ''set-cookie'' \<notin> fst ` set (security_header_pairs tls)"
  by (simp add: security_header_pairs_def lit_def)

lemma security_headers_map:
  "map_of (rs_headers (security_headers st r)) k =
     (case map_of (security_header_pairs (ws_tls st)) k of Some v \<Rightarrow> Some v | None \<Rightarrow> map_of (rs_headers r) k)"
proof -
  let ?ps = "security_header_pairs (ws_tls st)"
  have "map_of (rev ?ps) = map_of ?ps"
    using security_names [of "ws_tls st"] by (subst map_of_inject_set) (simp_all add: rev_map [symmetric])
  then show ?thesis by (simp add: security_headers_def map_of_fold_update map_add_def split: option.split)
qed

lemma security_headers_kept:
  "map_of (rs_headers (security_headers st r)) (lit ''location'') = map_of (rs_headers r) (lit ''location'')"
  "map_of (rs_headers (security_headers st r)) (lit ''set-cookie'') = map_of (rs_headers r) (lit ''set-cookie'')"
  "rs_status (security_headers st r) = rs_status r" "rs_body (security_headers st r) = rs_body r"
proof -
  have "map_of (security_header_pairs (ws_tls st)) (lit ''location'') = None"
    "map_of (security_header_pairs (ws_tls st)) (lit ''set-cookie'') = None"
    using security_names [of "ws_tls st"] by (auto simp: map_of_eq_None_iff)
  then show "map_of (rs_headers (security_headers st r)) (lit ''location'') = map_of (rs_headers r) (lit ''location'')"
    "map_of (rs_headers (security_headers st r)) (lit ''set-cookie'') = map_of (rs_headers r) (lit ''set-cookie'')"
    by (simp_all add: security_headers_map)
qed (simp_all add: security_headers_def)

text \<open>What the handlers answer before the security headers are added.\<close>

definition plain_ok :: "response \<Rightarrow> bool" where
  "plain_ok r \<longleftrightarrow> rs_status r \<in> {101, 200, 301, 302, 401, 404, 429, 500} \<and> distinct (map fst (rs_headers r))
     \<and> (map_of (rs_headers r) (lit ''location'') \<noteq> None \<longleftrightarrow> rs_status r \<in> {301, 302})
     \<and> map_of (rs_headers r) (lit ''strict-transport-security'') = None"

lemma plain_ok_simps [simp]:
  "plain_ok (redirect l)" "plain_ok (redirect_with_cookie l c)" "plain_ok (serve_asset we name)"
  "plain_ok (https_redirect h port)" "plain_ok (status_only 401)" "plain_ok (status_only 404)" "plain_ok (status_only 500)"
  "plain_ok \<lparr>rs_status = 101, rs_headers = [], rs_body = b\<rparr>" "plain_ok \<lparr>rs_status = 200, rs_headers = [], rs_body = b\<rparr>"
  "plain_ok \<lparr>rs_status = 429, rs_headers = [(lit ''retry-after'', v)], rs_body = b\<rparr>"
  by (simp_all add: plain_ok_def redirect_def redirect_with_cookie_def serve_asset_def https_redirect_def status_only_def
      lit_def Let_def split: option.split)

lemma route_plain: "plain_ok (snd (route we inp h req st))"
proof (cases req)
  case (PostLogin code)
  then show ?thesis by (simp add: route_def handle_login_def issue_session_eq Let_def split: prod.split option.split)
next
  case (GetCallback c s e)
  then show ?thesis
    by (simp add: route_def handle_oauth_callback_def oauth_admit_def issue_session_eq Let_def
        split: prod.split option.split sum.split)
next
  case (PostSetupVerify code)
  then show ?thesis
    by (simp add: route_def handle_setup_verify_def setup_verified_def issue_session_eq Let_def split: prod.split option.split)
qed (simp_all add: route_def serve_index_def serve_login_def serve_setup_def handle_oauth_redirect_def handle_logout_def
      handle_setup_url_def ws_handler_def Let_def split: prod.split option.split sum.split)

lemma web_step_response:
  assumes "web_ok st"
  shows "response_ok st (snd (web_step we inp h req st))"
proof -
  obtain st' r where r: "route we inp h req st = (st', r)" by fastforce
  have p: "plain_ok r" using route_plain [of we inp h req st] by (simp add: r)
  have "fst (web_step we inp h req st) = st'" by (simp add: web_step_def r)
  then have tls: "ws_tls st' = ws_tls st" using web_step_ok [OF assms, of we inp h req] by (simp add: same_switches_def)
  have "headers_secure (ws_tls st) (rs_headers (security_headers st' r))"
    using p by (simp add: headers_secure_def content_policy_def security_headers_map tls security_header_pairs_def
        single_quoted_def plain_ok_def lit_def)
  moreover have "distinct (map fst (rs_headers (security_headers st' r)))"
    using p by (simp add: security_headers_def plain_ok_def distinct_fold_update)
  ultimately show ?thesis using p
    by (auto simp: web_step_def r response_ok_def plain_ok_def security_headers_kept)
qed

lemma ws_upgraded:
  assumes "rs_status (snd (web_step we inp h (GetWs s t) st)) = 101"
  shows "has_valid_session (wi_now inp) h st
    \<and> (\<forall>expected. ws_legacy_token st = Some expected \<longrightarrow> as_bytes (case t of None \<Rightarrow> [] | Some v \<Rightarrow> v) = as_bytes expected)"
  using assms
  by (auto simp: web_step_def route_def ws_handler_def status_only_def security_headers_def Let_def
      split: prod.splits if_splits option.splits)

end
