(* ===== verification/Web_Limits.thy ===== *)
theory Web_Limits
  imports Web_Server_Facts
begin

text \<open>
  What the web terminal does not keep out: attempts under made-up addresses, a second use of the
  code that ends the setup, and an address of another host in a discovery document; and a state in
  which nobody can log in.
\<close>

section \<open>Attempts under made-up addresses\<close>

lemma cookie_header: "lit ''location'' \<noteq> lit ''set-cookie''" "lit ''set-cookie'' \<noteq> lit ''location''"
  by (simp_all add: lit_def)

text \<open>Attempts from one client that numbers its \<open>X-Forwarded-For\<close> header from \<open>k\<close> on.\<close>

definition forged_run :: "web_input \<Rightarrow> headers \<Rightarrow> nat \<Rightarrow> rstr list \<Rightarrow> web_event list" where
  "forged_run inp h k codes = map (\<lambda>(i, c). (inp, h\<lparr>hd_forwarded_for := Some (dec i)\<rparr>, PostLogin c)) (enumerate k codes)"

lemma forged_Cons:
  "forged_run inp h k (c # cs) = (inp, h\<lparr>hd_forwarded_for := Some (dec k)\<rparr>, PostLogin c) # forged_run inp h (Suc k) cs"
  by (simp add: forged_run_def)

lemma dec_inj: "dec i = dec j \<longleftrightarrow> i = j"
  using digits_val_dec by metis

lemma client_ip_forged: "client_ip (h\<lparr>hd_forwarded_for := Some (dec i)\<rparr>) = dec i"
proof -
  have d: "\<forall>c \<in> set (dec i). 48 \<le> c \<and> c \<le> 57" "dec i \<noteq> []"
    using dec_digits [of i] by (auto simp: list_all_iff is_ascii_digit_def)
  have "44 \<notin> set (dec i)" using d(1) by auto
  moreover have "trim (dec i) = dec i"
  proof -
    have "hd (dec i) \<in> set (dec i)" "last (dec i) \<in> set (dec i)" using d(2) by simp_all
    with d(1) have "48 \<le> hd (dec i) \<and> hd (dec i) \<le> 57" "48 \<le> last (dec i) \<and> last (dec i) \<le> 57" by blast+
    then show ?thesis unfolding trim_def using d(2) by (intro trim_id) (simp_all add: is_whitespace_def)
  qed
  ultimately show ?thesis by (simp add: client_ip_def split_on_single)
qed

lemma login_limiter:
  "ws_limiter (fst (handle_login inp h c st)) = fst (check_and_record (wi_now inp) (client_ip h) (ws_limiter st))
   \<or> ws_limiter (fst (handle_login inp h c st)) =
       limiter_reset (client_ip h) (fst (check_and_record (wi_now inp) (client_ip h) (ws_limiter st)))"
  by (auto simp: handle_login_def issue_session_eq log_defs Let_def split: prod.split option.split)

lemma login_attempts:
  assumes "web_ok st" "k \<noteq> client_ip h"
  shows "attempts_of (ws_limiter (fst (web_step we inp h (PostLogin c) st))) k = attempts_of (ws_limiter st) k"
proof -
  obtain l ok where c: "check_and_record (wi_now inp) (client_ip h) (ws_limiter st) = (l, ok)" by fastforce
  have "distinct (map fst (lim_attempts (ws_limiter st)))" using assms(1) by (simp add: web_ok_def rest_ok_def limiter_ok_def)
  from attempts_of_check [OF this c, of k] assms(2) login_limiter [of inp h "c" st] show ?thesis
    by (auto simp: web_step_def route_def case_prod_beta c attempts_of_reset)
qed

lemma login_step:
  assumes "web_ok st" "attempts_of (ws_limiter st) (client_ip h) = []"
  shows "rs_status (snd (web_step we inp h (PostLogin c) st)) \<noteq> 429
    \<and> (ws_totp st = Some tm \<longrightarrow>
        (if snd (otp_verify (wi_unix inp) c tm)
         then map_of (rs_headers (snd (web_step we inp h (PostLogin c) st))) (lit ''set-cookie'') =
               Some (make_session_cookie (wi_token inp) (ws_tls st))
         else ws_totp (fst (web_step we inp h (PostLogin c) st)) = Some tm))"
proof -
  obtain l ok where c: "check_and_record (wi_now inp) (client_ip h) (ws_limiter st) = (l, ok)" by fastforce
  have lim: "distinct (map fst (lim_attempts (ws_limiter st)))" "rl_max_attempts (lim_config (ws_limiter st)) = 5"
    using assms(1) by (auto simp: web_ok_def rest_ok_def limiter_ok_def totp_default_def)
  have ok: "ok" using attempts_of_check [OF lim(1) c, of "client_ip h"] assms(2) lim(2) by simp
  obtain tm' v where v: "otp_verify (wi_unix inp) c tm = (tm', v)" by fastforce
  have same: "\<not> v \<Longrightarrow> tm' = tm" using otp_verify_cases [OF v] by simp
  show ?thesis
  proof (cases "ws_totp st")
    case None
    then show ?thesis
      by (simp add: web_step_def route_def handle_login_def c ok Let_def security_headers_kept redirect_def)
  next
    case (Some t)
    obtain t' v' where t: "otp_verify (wi_unix inp) c t = (t', v')" by fastforce
    show ?thesis using same v t
      by (auto simp: web_step_def route_def handle_login_def c ok Some issue_session_eq log_defs log_entry_def Let_def
          security_headers_kept redirect_def redirect_with_cookie_def cookie_header)
  qed
qed

text \<open>None of the attempts is refused, and the code that is right gets a session.\<close>

lemma forged_unlimited:
  assumes "web_ok st" "\<forall>i \<ge> k. attempts_of (ws_limiter st) (dec i) = []"
  shows "\<forall>r \<in> set (snd (web_run we (forged_run inp h k codes) st)). rs_status r \<noteq> 429"
  using assms
proof (induction codes arbitrary: k st)
  case (Cons c cs)
  let ?h = "h\<lparr>hd_forwarded_for := Some (dec k)\<rparr>"
  let ?st = "fst (web_step we inp ?h (PostLogin c) st)"
  have "web_ok ?st" using web_step_ok [OF Cons.prems(1)] by blast
  moreover have "\<forall>i \<ge> Suc k. attempts_of (ws_limiter ?st) (dec i) = []"
    using Cons.prems by (simp add: login_attempts client_ip_forged dec_inj)
  ultimately have "\<forall>r \<in> set (snd (web_run we (forged_run inp h (Suc k) cs) ?st)). rs_status r \<noteq> 429" by (rule Cons.IH)
  moreover have "rs_status (snd (web_step we inp ?h (PostLogin c) st)) \<noteq> 429"
    using login_step [OF Cons.prems(1), of ?h] Cons.prems(2) by (simp add: client_ip_forged)
  ultimately show ?case by (simp add: forged_Cons case_prod_beta Let_def)
qed (simp add: forged_run_def)

lemma forged_found:
  assumes "web_ok st" "\<forall>i \<ge> k. attempts_of (ws_limiter st) (dec i) = []"
    "ws_totp st = Some tm" "code \<in> set codes" "snd (otp_verify (wi_unix inp) code tm)"
  shows "\<exists>r \<in> set (snd (web_run we (forged_run inp h k codes) st)).
    map_of (rs_headers r) (lit ''set-cookie'') = Some (make_session_cookie (wi_token inp) (ws_tls st))"
  using assms(1-4)
proof (induction codes arbitrary: k st)
  case (Cons c cs)
  let ?h = "h\<lparr>hd_forwarded_for := Some (dec k)\<rparr>"
  let ?st = "fst (web_step we inp ?h (PostLogin c) st)"
  have a: "attempts_of (ws_limiter st) (client_ip ?h) = []" using Cons.prems(2) by (simp add: client_ip_forged)
  show ?case
  proof (cases "snd (otp_verify (wi_unix inp) c tm)")
    case True
    then show ?thesis using login_step [OF Cons.prems(1) a] Cons.prems(3) by (simp add: forged_Cons case_prod_beta Let_def)
  next
    case False
    then have "code \<in> set cs" using Cons.prems(4) assms(5) by auto
    moreover have "web_ok ?st" "ws_tls ?st = ws_tls st"
      using web_step_ok [OF Cons.prems(1), of we inp ?h "PostLogin c"] by (auto simp: same_switches_def)
    moreover have "\<forall>i \<ge> Suc k. attempts_of (ws_limiter ?st) (dec i) = []"
      using Cons.prems by (simp add: login_attempts client_ip_forged dec_inj)
    moreover have "ws_totp ?st = Some tm" using login_step [OF Cons.prems(1) a] Cons.prems(3) False by simp
    ultimately show ?thesis using Cons.IH [of ?st "Suc k"] by (simp add: forged_Cons case_prod_beta Let_def)
  qed
qed simp

section \<open>Nobody can log in\<close>

definition locked_out :: "web_state \<Rightarrow> bool" where
  "locked_out st \<longleftrightarrow> ws_totp_enabled st \<and> ws_totp st = None \<and> ws_pending st = None \<and> ws_oauth st = None
     \<and> am_sessions (ws_auth st) = []"

lemma locked_out_step: "locked_out st \<Longrightarrow> locked_out (fst (web_step we inp h req st))"
proof -
  assume st: "locked_out st"
  have "locked_out (fst (route we inp h req st))"
  proof (cases req)
    case PostLogout
    with st show ?thesis
      by (auto simp: route_def handle_logout_def locked_out_def revoke_session_def split: option.split)
  next
    case (GetWs s t)
    with st show ?thesis
      by (auto simp: route_def ws_handler_def log_defs log_entry_def locked_out_def Let_def split: prod.split)
  qed (use st in \<open>auto simp: route_def handle_login_def serve_login_def handle_oauth_redirect_def handle_oauth_callback_def
         handle_setup_verify_def log_defs log_entry_def locked_out_def Let_def split: prod.split option.split\<close>)
  then show ?thesis by (simp add: web_step_def case_prod_beta)
qed

lemma locked_out_run: "locked_out st \<Longrightarrow> locked_out (fst (web_run we es st))"
  by (induction we es st rule: web_ops.induct) (simp_all add: web_run_Cons locked_out_step del: web_run.simps(2))

lemma locked_out_refused:
  "locked_out st \<Longrightarrow> \<not> has_valid_session now h st"
  by (simp add: locked_out_def has_valid_session_def is_valid_def split: option.split)

section \<open>The code that ends the setup\<close>

lemma setup_session:
  assumes "ws_pending st = Some ps" "snd (otp_verify (wi_unix inp) code (ps_totp ps))"
    "from_secret we (ps_secret ps) (ws_issuer st) = Some tm"
  shows "map_of (rs_headers (snd (web_step we inp h (PostSetupVerify code) st))) (lit ''set-cookie'') =
      Some (make_session_cookie (wi_token inp) (ws_tls st))
    \<and> ws_totp (fst (web_step we inp h (PostSetupVerify code) st)) = Some tm
    \<and> ws_limiter (fst (web_step we inp h (PostSetupVerify code) st)) = ws_limiter st"
proof -
  obtain t where v: "otp_verify (wi_unix inp) code (ps_totp ps) = (t, True)"
    using assms(2) by (cases "otp_verify (wi_unix inp) code (ps_totp ps)") simp
  show ?thesis using assms(1,3)
    by (simp add: web_step_def route_def handle_setup_verify_def setup_verified_def issue_session_eq v Let_def
        security_headers_kept redirect_with_cookie_def cookie_header)
qed

section \<open>The address of a discovery document\<close>

text \<open>The host of an address after RFC 3986: the authority ends at \<open>/\<close>, \<open>?\<close> or \<open>#\<close>, the user
  information at the last \<open>@\<close>, and the port begins at a colon.\<close>

definition uri_host :: "rstr \<Rightarrow> rstr" where
  "uri_host url =
     (case break_str (lit ''://'') url of
        None \<Rightarrow> []
      | Some (_, r) \<Rightarrow> hd (split_on 58 (last (split_on 64 (takeWhile (\<lambda>c. c \<noteq> 47 \<and> c \<noteq> 63 \<and> c \<noteq> 35) r)))))"

lemma break_str_none: "58 \<notin> set s \<Longrightarrow> break_str (lit ''://'') s = None"
  by (induction s) (auto simp: lit_def starts_with_def)

lemma break_str_skip:
  "\<lbrakk>58 \<notin> set d; break_str (lit ''://'') s = None\<rbrakk> \<Longrightarrow> break_str (lit ''://'') (d @ s) = None"
  by (induction d) (auto simp: lit_def starts_with_def)

lemma split_on_prefix: "sep \<notin> set d \<Longrightarrow> split_on sep (d @ sep # s) = d # split_on sep s"
  by (induction d) auto

lemma hd_split_on: "sep \<notin> set d \<Longrightarrow> hd (split_on sep (d @ sep # s)) = d"
  by (simp add: split_on_prefix)

lemma split_on_join: "split_on sep (s @ sep # h) = split_on sep s @ split_on sep h"
  by (induction s) (auto split: list.split)

lemma last_split_on: "sep \<notin> set h \<Longrightarrow> last (split_on sep (s @ sep # h)) = h"
  by (simp add: split_on_join split_on_single)

lemma takeWhile_stop: "\<lbrakk>\<forall>c \<in> set xs. P c; \<not> P y\<rbrakk> \<Longrightarrow> takeWhile P (xs @ [y]) = xs"
  by (induction xs) auto

lemma endpoint_spoofed:
  assumes "extract_host lc issuer = Some d" "d \<noteq> []" "lowercase_of lc d = d" "\<not> is_disallowed_host lc d"
    "set d \<inter> {47, 58, 63, 35} = {}" "set h \<inter> {47, 58, 63, 35, 64} = {}"
  shows "validate_userinfo_endpoint lc (lit ''https://'' @ d @ lit '':x@'' @ h @ lit ''/'') issuer = Inr ()
    \<and> uri_host (lit ''https://'' @ d @ lit '':x@'' @ h @ lit ''/'') = h"
proof -
  let ?r = "d @ lit '':x@'' @ h @ lit ''/''"
  have b: "break_str (lit ''://'') (lit ''https://'' @ s) = Some (lit ''https'', s)" for s
    by (simp add: lit_def starts_with_def)
  have "break_str (lit ''://'') (lit '':x@'' @ h @ lit ''/'') = None"
    using assms(6) break_str_none [of "h @ lit ''/''"] by (auto simp: lit_def starts_with_def)
  then have none: "break_str (lit ''://'') ?r = None" using assms(5) by (simp add: break_str_skip)
  have "47 \<notin> set (d @ lit '':x@'' @ h)" using assms(5,6) by (auto simp: lit_def)
  then have s1: "hd (split_on 47 ?r) = d @ lit '':x@'' @ h"
    using hd_split_on [of 47 "d @ lit '':x@'' @ h" "[]"] by (simp add: lit_def)
  have s2: "hd (split_on 58 (d @ lit '':x@'' @ h)) = d"
    using hd_split_on [of 58 d "lit ''x@'' @ h"] assms(5) by (simp add: lit_def)
  have "extract_host lc (lit ''https://'' @ ?r) = Some d"
    using assms(2,3) by (simp add: extract_host_def b none s1 s2 Let_def)
  moreover have "starts_with (lowercase_of lc (lit ''https://'' @ ?r)) (lit ''https://'')"
    by (simp add: lowercase_of_def lit_def ascii_lower_def starts_with_def)
  ultimately have "validate_userinfo_endpoint lc (lit ''https://'' @ ?r) issuer = Inr ()"
    using assms(1,4) by (simp add: validate_userinfo_endpoint_def is_same_or_subdomain_def)
  moreover have "takeWhile (\<lambda>c. c \<noteq> 47 \<and> c \<noteq> 63 \<and> c \<noteq> 35) ?r = d @ lit '':x@'' @ h"
  proof -
    have "\<forall>c \<in> set (d @ lit '':x@'' @ h). c \<noteq> 47 \<and> c \<noteq> 63 \<and> c \<noteq> 35" using assms(5,6) by (auto simp: lit_def)
    from takeWhile_stop [of _ "\<lambda>c. c \<noteq> 47 \<and> c \<noteq> 63 \<and> c \<noteq> 35" 47, OF this] show ?thesis by (simp add: lit_def)
  qed
  then have "uri_host (lit ''https://'' @ ?r) = h"
    using last_split_on [of 64 h "d @ lit '':x''"] assms(6) by (simp add: uri_host_def b split_on_single) (simp add: lit_def split_on_single)
  ultimately show ?thesis by simp
qed

end
