(* ===== verification/Web_Socket.thy ===== *)
theory Web_Socket
  imports Web_Limits Manager
begin

text \<open>
  The bridge between a browser and a session (\<open>handle_socket\<close> of \<open>handlers/ws.rs\<close>) and the web terminal as a whole:
  the requests with the sockets they open on the session manager.  The answers of \<open>recv\<close>,
  whether a message could be sent, and what the reader threads have mirrored come with the events.
\<close>

section \<open>Text for the browser\<close>

definition diff_line :: "dirty_row \<Rightarrow> rstr" where
  "diff_line row = [13] @ map cell_ch (dr_cells row) @ [13, 10]"

definition refresh_line :: "cell list \<Rightarrow> rstr" where
  "refresh_line row = map cell_ch row @ [13, 10]"

definition non_empty :: "rstr \<Rightarrow> rstr option" where
  "non_empty text = (if text = [] then None else Some text)"

definition pty_message_to_text :: "server_msg \<Rightarrow> rstr option" where
  "pty_message_to_text msg =
     (case msg of
        GridDiff _ d \<Rightarrow> non_empty (concat (map diff_line (gd_dirty_rows d)))
      | FullRefresh _ g \<Rightarrow> non_empty (concat (map refresh_line (g_rows g)))
      | _ \<Rightarrow> None)"

text \<open>The grids of the panes of the focused window; \<open>serial\<close> are those of the serial panes.\<close>

definition all_full_refreshes :: "(nat \<Rightarrow> pane_shared) \<Rightarrow> (nat \<Rightarrow> grid) \<Rightarrow> window \<Rightarrow> (nat \<times> grid) list" where
  "all_full_refreshes shared serial w =
     map (\<lambda>(i, _). (i, pm_latest_grid (sh_mirror (shared i)))) (w_panes w)
     @ map (\<lambda>(i, _). (i, serial i)) (w_serial_panes w)"

definition focused_window_full_refresh ::
    "(nat \<Rightarrow> pane_shared) \<Rightarrow> (nat \<Rightarrow> grid) \<Rightarrow> session \<Rightarrow> (nat \<times> grid) list" where
  "focused_window_full_refresh shared serial s =
     (case focused_window s of None \<Rightarrow> [] | Some w \<Rightarrow> all_full_refreshes shared serial w)"

section \<open>One socket\<close>

datatype socket_event =
    Received server_msg
  | Lagged
  | ChannelClosed
  | BrowserText rstr
  | BrowserBinary "byte list"
  | BrowserClosed
  | BrowserOther

text \<open>Whether the loop goes on, the texts given to the browser and the writes to panes.\<close>

record socket_result =
  sr_open :: bool
  sr_texts :: "rstr list"
  sr_writes :: "(nat \<times> byte list) list"

text \<open>Sending the texts one after the other until one fails; \<open>sends n\<close> is whether the n-th is sent.\<close>

fun send_all :: "(nat \<Rightarrow> bool) \<Rightarrow> rstr option list \<Rightarrow> socket_result" where
  "send_all sends [] = \<lparr>sr_open = True, sr_texts = [], sr_writes = []\<rparr>"
| "send_all sends (None # ts) = send_all sends ts"
| "send_all sends (Some t # ts) =
     (if sends 0 then (let r = send_all (\<lambda>n. sends (Suc n)) ts in r\<lparr>sr_texts := t # sr_texts r\<rparr>)
      else \<lparr>sr_open = False, sr_texts = [], sr_writes = []\<rparr>)"

definition socket_write :: "rstr \<Rightarrow> byte list \<Rightarrow> manager \<Rightarrow> socket_result" where
  "socket_write name data m =
     \<lparr>sr_open = True, sr_texts = [],
      sr_writes = (case session_of name m of
         None \<Rightarrow> []
       | Some s \<Rightarrow> (case session_write_to_focused data s of Inl _ \<Rightarrow> [] | Inr ws \<Rightarrow> ws))\<rparr>"

definition socket_step ::
    "(nat \<Rightarrow> pane_shared) \<Rightarrow> (nat \<Rightarrow> grid) \<Rightarrow> (nat \<Rightarrow> bool) \<Rightarrow> rstr \<Rightarrow> socket_event \<Rightarrow> manager \<Rightarrow> socket_result" where
  "socket_step shared serial sends name ev m =
     (case ev of
        Received msg \<Rightarrow> send_all sends [pty_message_to_text msg]
      | ChannelClosed \<Rightarrow> \<lparr>sr_open = False, sr_texts = [], sr_writes = []\<rparr>
      | Lagged \<Rightarrow>
          (let refreshes = (case session_of name m of
                 None \<Rightarrow> [] | Some s \<Rightarrow> focused_window_full_refresh shared serial s) in
           send_all sends (map (\<lambda>(i, g). pty_message_to_text (FullRefresh i g)) refreshes))
      | BrowserText text \<Rightarrow> socket_write name (as_bytes text) m
      | BrowserBinary data \<Rightarrow> socket_write name data m
      | BrowserClosed \<Rightarrow> \<lparr>sr_open = False, sr_texts = [], sr_writes = []\<rparr>
      | BrowserOther \<Rightarrow> \<lparr>sr_open = True, sr_texts = [], sr_writes = []\<rparr>)"

text \<open>The start of \<open>handle_socket\<close>: the session is created if it is missing, and there is no loop if that
  failed.\<close>

definition socket_open :: "rstr + nat \<Rightarrow> rstr \<Rightarrow> manager \<Rightarrow> manager \<times> bool" where
  "socket_open spawned name m =
     (let (_, m') = get_or_create_and_attach spawned name 80 24 m in (m', session_of name m' \<noteq> None))"

section \<open>The web terminal\<close>

text \<open>The sockets in the order in which they were opened, with the session while the loop runs.\<close>

record web_terminal =
  wt_web :: web_state
  wt_manager :: manager
  wt_sockets :: "rstr option list"

record socket_input =
  so_shared :: "nat \<Rightarrow> pane_shared"
  so_serial :: "nat \<Rightarrow> grid"
  so_sends :: "nat \<Rightarrow> bool"

datatype terminal_event =
    HttpRequest web_input headers web_request "rstr + nat"
  | SocketEvent nat socket_input socket_event
  | ManagerChanged manager

text \<open>What the other clients make of the sessions in between is \<open>ManagerChanged\<close>.  The writes to panes that an event causes.\<close>

definition terminal_step ::
    "web_env \<Rightarrow> terminal_event \<Rightarrow> web_terminal \<Rightarrow> web_terminal \<times> (nat \<times> byte list) list" where
  "terminal_step we ev wt =
     (case ev of
        HttpRequest inp h req spawned \<Rightarrow>
          (let (st, r) = web_step we inp h req (wt_web wt); wt1 = wt\<lparr>wt_web := st\<rparr> in
           case rs_body r of
             UpgradeTo name \<Rightarrow>
               (let (m, opened) = socket_open spawned name (wt_manager wt1) in
                (wt1\<lparr>wt_manager := m, wt_sockets := wt_sockets wt1 @ [if opened then Some name else None]\<rparr>, []))
           | _ \<Rightarrow> (wt1, []))
      | SocketEvent i so sev \<Rightarrow>
          (case lget (wt_sockets wt) i of
             Some (Some name) \<Rightarrow>
               (let r = socket_step (so_shared so) (so_serial so) (so_sends so) name sev (wt_manager wt) in
                (wt\<lparr>wt_sockets := (wt_sockets wt)[i := if sr_open r then Some name else None]\<rparr>, sr_writes r))
           | _ \<Rightarrow> (wt, []))
      | ManagerChanged m \<Rightarrow> (wt\<lparr>wt_manager := m\<rparr>, []))"

fun terminal_run :: "web_env \<Rightarrow> terminal_event list \<Rightarrow> web_terminal \<Rightarrow> web_terminal" where
  "terminal_run we [] wt = wt"
| "terminal_run we (ev # evs) wt = terminal_run we evs (fst (terminal_step we ev wt))"

definition terminal_start :: "web_env \<Rightarrow> rstr \<Rightarrow> web_config \<Rightarrow> manager \<Rightarrow> web_terminal" where
  "terminal_start we gen config m = \<lparr>wt_web = start_web_server we gen config, wt_manager = m, wt_sockets = []\<rparr>"

text \<open>The requests among the events.\<close>

fun requests_of :: "terminal_event list \<Rightarrow> web_event list" where
  "requests_of [] = []"
| "requests_of (HttpRequest inp h req spawned # evs) = (inp, h, req) # requests_of evs"
| "requests_of (SocketEvent i so sev # evs) = requests_of evs"
| "requests_of (ManagerChanged m # evs) = requests_of evs"

text \<open>
  Facts on the web terminal with its sockets: where a session that is valid comes from, and what each open
  socket goes back to.
\<close>

section \<open>Where a valid session comes from\<close>

definition auth_required :: "web_config \<Rightarrow> bool" where
  "auth_required config \<longleftrightarrow> wa_totp_enabled (wc_auth config) \<or> wa_oauth_enabled (wc_auth config)"

text \<open>A session was issued for the cookie of the headers by one of the requests, has not expired, and no
  logout with it came after.\<close>

definition session_granted :: "web_env \<Rightarrow> web_state \<Rightarrow> nat \<Rightarrow> web_event list \<Rightarrow> nat \<Rightarrow> headers \<Rightarrow> bool" where
  "session_granted we st0 timeout es now h \<longleftrightarrow>
     (\<exists>token issued i since info. extract_session_cookie h = Some token \<and> as_bytes issued = as_bytes token
        \<and> i < length es \<and> web_ops we es st0 ! i = Issue since issued info \<and> now < since + from_secs timeout
        \<and> (\<forall>j. i < j \<and> j < length es \<longrightarrow> web_ops we es st0 ! j \<noteq> Revoke issued))"

lemma start_fields:
  "ws_auth (start_web_server we gen config) = auth_manager_new (wa_session_timeout_secs (wc_auth config)) (wc_max_sessions config)"
  "ws_totp_enabled (start_web_server we gen config) = wa_totp_enabled (wc_auth config)"
  "ws_oauth (start_web_server we gen config) = None \<longleftrightarrow> \<not> wa_oauth_enabled (wc_auth config)"
  "ws_legacy_token (start_web_server we gen config) = wc_token config"
  "ws_tls (start_web_server we gen config) = wc_tls_enabled config"
  by (simp_all add: start_web_server_def case_prod_beta Let_def)

lemma session_provenance:
  assumes "auth_required config"
    "has_valid_session now h (fst (web_run we es (start_web_server we gen config)))"
  shows "session_granted we (start_web_server we gen config) (wa_session_timeout_secs (wc_auth config)) es now h"
proof -
  let ?init = "start_web_server we gen config"
  let ?st = "fst (web_run we es ?init)" and ?first = "ws_auth ?init"
  have run: "web_ok ?st" "same_switches ?init ?st" using web_run_ok [OF start_ok [of we gen config], of we es] by simp_all
  have am0: "am_sessions ?first = []" "am_ttl ?first = from_secs (wa_session_timeout_secs (wc_auth config))"
    by (simp_all add: start_fields auth_manager_new_def)
  have "auth_ok ?first" using start_ok by (simp add: web_ok_def)
  have "ws_totp_enabled ?st \<or> ws_oauth ?st \<noteq> None"
    using run(2) assms(1) by (simp add: same_switches_def start_fields auth_required_def)
  then obtain token where t: "extract_session_cookie h = Some token" "is_valid now token (ws_auth ?st)"
    using assms(2) by (auto simp: has_valid_session_def split: option.splits)
  then obtain issued e where e: "(issued, e) \<in> set (am_sessions (ws_auth ?st))" "as_bytes issued = as_bytes token"
    "now < se_expiry e" by (auto simp: is_valid_def list_ex_iff)
  have "map_of (am_sessions (ws_auth ?st)) issued = Some e"
    using e(1) run(1) by (simp add: web_ok_def auth_ok_def)
  then have "auth_at (fold am.store_op (web_ops we es ?init) ?first) issued = Some (se_expiry e, se_auth_method e, se_user_id e)"
    by (simp add: auth_at_def web_run_auth)
  from am.provenance [OF \<open>auth_ok ?first\<close> _ this] obtain i since where
    "i < length (web_ops we es ?init)" "web_ops we es ?init ! i = Issue since issued (se_auth_method e, se_user_id e)"
    "se_expiry e = since + am_ttl ?first"
    "\<forall>j. i < j \<and> j < length (web_ops we es ?init) \<longrightarrow> web_ops we es ?init ! j \<noteq> Revoke issued"
    by (auto simp: auth_at_def am0)
  with t(1) e(2,3) show ?thesis
    unfolding session_granted_def am0(2) web_ops_length by metis
qed

section \<open>Where a socket comes from\<close>

lemma terminal_step_web:
  "wt_web (fst (terminal_step we ev wt)) =
     (case ev of HttpRequest inp h req spawned \<Rightarrow> fst (web_step we inp h req (wt_web wt)) | _ \<Rightarrow> wt_web wt)"
  by (auto simp: terminal_step_def Let_def split: terminal_event.split prod.split body.split option.split)

lemma terminal_run_append: "terminal_run we (evs @ fvs) wt = terminal_run we fvs (terminal_run we evs wt)"
  by (induction evs arbitrary: wt) simp_all

lemma terminal_run_web: "wt_web (terminal_run we evs wt) = fst (web_run we (requests_of evs) (wt_web wt))"
proof (induction evs arbitrary: wt)
  case (Cons ev evs)
  then show ?case by (cases ev) (simp_all add: terminal_step_web web_run_Cons del: web_run.simps(2))
qed simp

lemma upgrade_by_ws:
  assumes "rs_body (snd (web_step we inp h req st)) = UpgradeTo name"
  shows "\<exists>s q. req = GetWs s q \<and> rs_status (snd (web_step we inp h req st)) = 101"
proof (cases req)
  case (GetWs s q)
  with assms show ?thesis
    by (auto simp: web_step_def route_def ws_handler_def status_only_def security_headers_def Let_def
        split: prod.splits if_splits)
next
  case (PostLogin code)
  with assms show ?thesis
    by (auto simp: web_step_def route_def handle_login_def issue_session_eq security_headers_def Let_def redirect_def
        redirect_with_cookie_def split: prod.splits option.splits if_splits)
next
  case (PostSetupVerify code)
  with assms show ?thesis
    by (auto simp: web_step_def route_def handle_setup_verify_def setup_verified_def issue_session_eq security_headers_def
        Let_def redirect_def redirect_with_cookie_def split: prod.splits option.splits if_splits)
next
  case (GetCallback c s e)
  with assms show ?thesis
    by (auto simp: web_step_def route_def handle_oauth_callback_def oauth_admit_def issue_session_eq security_headers_def
        status_only_def Let_def redirect_def redirect_with_cookie_def split: prod.splits option.splits sum.splits if_splits)
qed (use assms in \<open>auto simp: web_step_def route_def serve_index_def serve_login_def serve_setup_def serve_asset_def
       handle_oauth_redirect_def handle_logout_def handle_setup_url_def https_redirect_def security_headers_def status_only_def
       redirect_def redirect_with_cookie_def Let_def split: prod.splits option.splits sum.splits if_splits\<close>)

text \<open>
  \<open>opened_by we wt i name ev\<close>: in the state \<open>wt\<close> the event is a WebSocket request that is answered with the
  upgrade to the session \<open>name\<close>, and its socket gets the index \<open>i\<close>, the number of those opened before.
\<close>

definition opened_by :: "web_env \<Rightarrow> web_terminal \<Rightarrow> nat \<Rightarrow> rstr \<Rightarrow> web_input \<Rightarrow> headers \<Rightarrow> rstr option \<Rightarrow> rstr option \<Rightarrow> bool" where
  "opened_by we wt i name inp h s q \<longleftrightarrow> i = length (wt_sockets wt)
     \<and> rs_status (snd (web_step we inp h (GetWs s q) (wt_web wt))) = 101
     \<and> rs_body (snd (web_step we inp h (GetWs s q) (wt_web wt))) = UpgradeTo name"

text \<open>A socket that is open after a step was open before it, on the same session, or the step opened it.\<close>

lemma terminal_step_sockets:
  assumes "lget (wt_sockets (fst (terminal_step we ev wt))) i = Some (Some name)"
  shows "lget (wt_sockets wt) i = Some (Some name)
    \<or> (\<exists>inp h s q spawned. ev = HttpRequest inp h (GetWs s q) spawned \<and> opened_by we wt i name inp h s q)"
proof (cases ev)
  case (HttpRequest inp h req spawned)
  obtain st r where r: "web_step we inp h req (wt_web wt) = (st, r)" by fastforce
  show ?thesis
  proof (cases "rs_body r")
    case (UpgradeTo other)
    then obtain s q where q: "req = GetWs s q" "rs_status r = 101"
      using upgrade_by_ws [of we inp h req "wt_web wt" other] by (auto simp: r)
    show ?thesis
    proof (cases "i < length (wt_sockets wt)")
      case False
      then have "i = length (wt_sockets wt) \<and> name = other"
        using assms HttpRequest r UpgradeTo
        by (auto simp: terminal_step_def lget_def nth_append Let_def split: prod.splits if_splits)
      then show ?thesis using HttpRequest q r UpgradeTo by (auto simp: opened_by_def)
    qed (use assms HttpRequest r UpgradeTo in
      \<open>auto simp: terminal_step_def lget_def nth_append Let_def split: prod.splits if_splits\<close>)
  qed (use assms HttpRequest r in \<open>auto simp: terminal_step_def\<close>)
next
  case (SocketEvent j so sev)
  with assms show ?thesis
    by (cases "i = j") (auto simp: terminal_step_def lget_def Let_def nth_list_update split: option.splits if_splits)
qed (use assms in \<open>auto simp: terminal_step_def Let_def split: option.splits\<close>)

lemma socket_provenance:
  assumes "wt_sockets wt = []" "lget (wt_sockets (terminal_run we evs wt)) i = Some (Some name)"
  shows "\<exists>k < length evs. \<exists>inp h s q spawned. evs ! k = HttpRequest inp h (GetWs s q) spawned
    \<and> opened_by we (terminal_run we (take k evs) wt) i name inp h s q"
  using assms(2)
proof (induction evs rule: rev_induct)
  case Nil
  then show ?case using assms(1) by (simp add: lget_def)
next
  case (snoc ev evs)
  from snoc.prems have "lget (wt_sockets (fst (terminal_step we ev (terminal_run we evs wt)))) i = Some (Some name)"
    by (simp add: terminal_run_append)
  from terminal_step_sockets [OF this] show ?case
  proof
    assume "lget (wt_sockets (terminal_run we evs wt)) i = Some (Some name)"
    from snoc.IH [OF this] obtain k where k: "k < length evs" "\<exists>inp h s q spawned. evs ! k = HttpRequest inp h (GetWs s q) spawned
      \<and> opened_by we (terminal_run we (take k evs) wt) i name inp h s q" by blast
    then show ?thesis by - (rule exI [of _ k], simp add: nth_append)
  next
    assume "\<exists>inp h s q spawned. ev = HttpRequest inp h (GetWs s q) spawned
      \<and> opened_by we (terminal_run we evs wt) i name inp h s q"
    then show ?thesis by - (rule exI [of _ "length evs"], simp add: nth_append)
  qed
qed

lemma send_all_writes: "sr_writes (send_all sends ts) = []"
  by (induction sends ts rule: send_all.induct) (simp_all add: Let_def)

text \<open>What an event of a socket writes is what came in from its browser, for the session it is open on.\<close>

lemma writes_by_socket:
  assumes "snd (terminal_step we (SocketEvent i so sev) wt) \<noteq> []"
  shows "\<exists>name session data. lget (wt_sockets wt) i = Some (Some name)
    \<and> session_of name (wt_manager wt) = Some session
    \<and> session_write_to_focused data session = Inr (snd (terminal_step we (SocketEvent i so sev) wt))
    \<and> (sev = BrowserBinary data \<or> (\<exists>text. sev = BrowserText text \<and> data = as_bytes text))"
proof -
  obtain name where n: "lget (wt_sockets wt) i = Some (Some name)"
    using assms by (auto simp: terminal_step_def split: option.splits)
  define r where "r = socket_step (so_shared so) (so_serial so) (so_sends so) name sev (wt_manager wt)"
  have w: "snd (terminal_step we (SocketEvent i so sev) wt) = sr_writes r"
    by (simp add: terminal_step_def n r_def Let_def)
  have by_write: "\<exists>session. session_of name (wt_manager wt) = Some session \<and> session_write_to_focused data session = Inr (sr_writes r)"
    if "r = socket_write name data (wt_manager wt)" for data
    using assms unfolding w that by (auto simp: socket_write_def split: option.splits sum.splits)
  show ?thesis
  proof (cases sev)
    case (BrowserText typed)
    then have "r = socket_write name (as_bytes typed) (wt_manager wt)" by (simp add: r_def socket_step_def)
    from by_write [OF this] n BrowserText show ?thesis unfolding w by blast
  next
    case (BrowserBinary data)
    then have "r = socket_write name data (wt_manager wt)" by (simp add: r_def socket_step_def)
    from by_write [OF this] n BrowserBinary show ?thesis unfolding w by blast
  qed (use assms [unfolded w r_def] in \<open>simp_all add: socket_step_def send_all_writes Let_def\<close>)
qed

lemma logout_forgets:
  assumes "extract_session_cookie h = Some token"
  shows "map_of (am_sessions (ws_auth (fst (web_step we inp h PostLogout st)))) token = None"
  using assms by (simp add: web_step_auth session_op_of_def revoke_session_def delete_conv')

lemma logout_keeps_sockets:
  "wt_sockets (fst (terminal_step we (HttpRequest inp h PostLogout spawned) wt)) = wt_sockets wt
   \<and> wt_manager (fst (terminal_step we (HttpRequest inp h PostLogout spawned) wt)) = wt_manager wt"
  by (simp add: terminal_step_def web_step_def route_def handle_logout_def security_headers_def redirect_with_cookie_def)

section \<open>What the browser is told\<close>

text \<open>The text of a difference does not depend on the pane, the rows it changes or the cursor.\<close>

lemma browser_rows_lost:
  "pty_message_to_text (GridDiff i d) = pty_message_to_text (GridDiff j (d\<lparr>gd_dirty_rows :=
     map (\<lambda>r. r\<lparr>dr_row := f (dr_row r)\<rparr>) (gd_dirty_rows d), gd_cursor_col := col, gd_cursor_row := row\<rparr>))"
proof -
  have "map diff_line (map (\<lambda>r. r\<lparr>dr_row := f (dr_row r)\<rparr>) rows) = map diff_line rows" for rows
    by (simp add: diff_line_def)
  then show ?thesis by (simp add: pty_message_to_text_def del: map_map)
qed

end
