(* ===== verification/Web_Properties.thy ===== *)
theory Web_Properties
  imports Web_Socket Access_Log
begin

text \<open>
  The properties of the web terminal: who can write to a pane, the limits of logins and codes, the
  access log, and what is not kept out; with an instance of the parameters for the witnesses.
\<close>

section \<open>An instance of the parameters\<close>

definition demo_net :: oauth_net where
  "demo_net = \<lparr>on_token = (\<lambda>_. None), on_github_user = (\<lambda>_. None), on_github_emails = (\<lambda>_. None),
     on_google_user = (\<lambda>_. None), on_azure_user = (\<lambda>_. None), on_discovery = (\<lambda>_. None),
     on_oidc_user = (\<lambda>_ _. None), on_org_member = (\<lambda>_ _. False)\<rparr>"

text \<open>Every secret is accepted and its code is always \<open>123456\<close>.\<close>

definition demo_env :: web_env where
  "demo_env = \<lparr>we_totp = (\<lambda>_ _. Some (\<lambda>_. lit ''123456'')), we_totp_url = (\<lambda>_ _. []), we_lower = (\<lambda>c. [c]),
     we_upper = (\<lambda>c. [c]),
     we_oauth = \<lparr>ox_env_secret = None, ox_url_ok = (\<lambda>_. True), ox_authorize_url = (\<lambda>_ _ _ _ _. [])\<rparr>,
     we_asset = (\<lambda>_. None)\<rparr>"

definition demo_oauth :: oauth_config where
  "demo_oauth = \<lparr>oc_provider = lit ''github'', oc_client_id = None, oc_client_secret = None, oc_issuer_url = None,
     oc_allowed_emails = [lit ''a@b.c''], oc_allowed_orgs = [], oc_redirect_url = None\<rparr>"

definition demo_config :: "rstr option \<Rightarrow> bool \<Rightarrow> web_config" where
  "demo_config secret oauth = \<lparr>wc_port = 7681, wc_token = None,
     wc_auth = \<lparr>wa_totp_enabled = True, wa_totp_secret = secret, wa_issuer = lit ''Nexterm'',
       wa_oauth_enabled = oauth, wa_oauth = demo_oauth, wa_session_timeout_secs = 86400\<rparr>,
     wc_tls_enabled = False, wc_force_https = False, wc_max_sessions = 0\<rparr>"

definition demo_input :: "nat \<Rightarrow> rstr \<Rightarrow> web_input" where
  "demo_input now token = \<lparr>wi_unix = 60, wi_now = now, wi_token = token, wi_csrf = [], wi_net = demo_net, wi_save_ok = True\<rparr>"

definition demo_headers :: "rstr option \<Rightarrow> headers" where
  "demo_headers cookie = \<lparr>hd_cookie = cookie, hd_forwarded_for = None, hd_real_ip = None, hd_host = None, hd_proto = None\<rparr>"

definition demo_totp :: totp_manager where
  "demo_totp = \<lparr>tm_generate = (\<lambda>_. lit ''123456''), tm_secret_b32 = lit ''ABCD'', tm_used_codes = []\<rparr>"

lemma demo_secret: "from_secret demo_env (lit ''abcd'') issuer = Some demo_totp"
  by (simp add: from_secret_def demo_env_def demo_totp_def uppercase_of_def ascii_upper_def lit_def)

lemma demo_code: "snd (otp_verify 60 (lit ''123456'') demo_totp)"
  by (simp add: otp_verify_def demo_totp_def trim_def trim_by_def is_whitespace_def lit_def is_ascii_digit_def tried_windows_def
      TOTP_STEP_def REPLAY_WINDOW_RANGE_def try_record_use_def Let_def str_len_def len_utf8_def)

section \<open>Sessions\<close>

text \<open>C18: When authentication is on, bytes from the web reach panes only as what a browser sent through a
  socket that is open, for the session that socket was opened on; and the very request that opened this
  socket, the upgrade that gave it its index, presented a session: one that the server had issued to an
  earlier login, setup or OAuth callback, that had not expired, and with which nobody had logged out in
  between.  If a legacy token is configured, that request carried it.
\<close>

theorem web_write_authenticated:
  assumes "auth_required config"
    and "snd (terminal_step we (SocketEvent i so sev) (terminal_run we evs (terminal_start we gen config m))) \<noteq> []"
  shows "\<exists>name session data.
      lget (wt_sockets (terminal_run we evs (terminal_start we gen config m))) i = Some (Some name)
    \<and> session_of name (wt_manager (terminal_run we evs (terminal_start we gen config m))) = Some session
    \<and> session_write_to_focused data session
        = Inr (snd (terminal_step we (SocketEvent i so sev) (terminal_run we evs (terminal_start we gen config m))))
    \<and> (sev = BrowserBinary data \<or> (\<exists>text. sev = BrowserText text \<and> data = as_bytes text))
    \<and> (\<exists>k < length evs. \<exists>inp h s q spawned. evs ! k = HttpRequest inp h (GetWs s q) spawned
        \<and> opened_by we (terminal_run we (take k evs) (terminal_start we gen config m)) i name inp h s q
        \<and> session_granted we (start_web_server we gen config) (wa_session_timeout_secs (wc_auth config))
            (requests_of (take k evs)) (wi_now inp) h
        \<and> (\<forall>expected. wc_token config = Some expected \<longrightarrow> as_bytes (case q of None \<Rightarrow> [] | Some v \<Rightarrow> v) = as_bytes expected))"
proof -
  let ?start = "terminal_start we gen config m"
  let ?wt = "terminal_run we evs ?start"
  obtain name session data where wr: "lget (wt_sockets ?wt) i = Some (Some name)"
    "session_of name (wt_manager ?wt) = Some session"
    "session_write_to_focused data session = Inr (snd (terminal_step we (SocketEvent i so sev) ?wt))"
    "sev = BrowserBinary data \<or> (\<exists>text. sev = BrowserText text \<and> data = as_bytes text)"
    using writes_by_socket [OF assms(2)] by blast
  have "wt_sockets ?start = []" by (simp add: terminal_start_def)
  from socket_provenance [OF this wr(1)] obtain k inp h s q spawned where
    k: "k < length evs" "evs ! k = HttpRequest inp h (GetWs s q) spawned"
    and op: "opened_by we (terminal_run we (take k evs) ?start) i name inp h s q" by blast
  then have up: "rs_status (snd (web_step we inp h (GetWs s q) (wt_web (terminal_run we (take k evs) ?start)))) = 101"
    by (simp add: opened_by_def)
  have web: "wt_web (terminal_run we (take k evs) ?start) =
      fst (web_run we (requests_of (take k evs)) (start_web_server we gen config))"
    by (simp add: terminal_run_web terminal_start_def)
  have "ws_legacy_token (wt_web (terminal_run we (take k evs) ?start)) = wc_token config"
    using web_run_ok [OF start_ok [of we gen config], of we "requests_of (take k evs)"]
    by (simp add: web same_switches_def start_fields)
  with ws_upgraded [OF up] session_provenance [OF assms(1), of "wi_now inp" h we "requests_of (take k evs)" gen]
  have "session_granted we (start_web_server we gen config) (wa_session_timeout_secs (wc_auth config))
            (requests_of (take k evs)) (wi_now inp) h
        \<and> (\<forall>expected. wc_token config = Some expected \<longrightarrow> as_bytes (case q of None \<Rightarrow> [] | Some v \<Rightarrow> v) = as_bytes expected)"
    unfolding web by simp
  with wr k op show ?thesis by blast
qed

text \<open>A login, the upgrade with its cookie, and a line typed in the browser.\<close>

definition demo_events :: "terminal_event list" where
  "demo_events =
     [HttpRequest (demo_input 0 (lit ''T'')) (demo_headers None) (PostLogin (lit ''123456'')) (Inl []),
      HttpRequest (demo_input 2 []) (demo_headers (Some (lit ''nexterm_session='' @ lit ''T''))) (GetWs None None) (Inr 7)]"

definition demo_keys :: terminal_event where
  "demo_keys = SocketEvent 0 \<lparr>so_shared = (\<lambda>_. shared_new 80 24), so_serial = (\<lambda>_. grid_new 80 24), so_sends = (\<lambda>_. True)\<rparr>
     (BrowserText (lit ''ls''))"

definition demo_terminal :: web_terminal where
  "demo_terminal = terminal_run demo_env demo_events
     (terminal_start demo_env [] (demo_config (Some (lit ''abcd'')) False) (manager_new [] []))"

lemma demo_login:
  fixes wt :: web_terminal
  defines "wt \<equiv> terminal_start demo_env [] (demo_config (Some (lit ''abcd'')) False) (manager_new [] [])"
  shows "\<exists>st. fst (terminal_step demo_env (hd demo_events) wt) = wt\<lparr>wt_web := st\<rparr>
    \<and> am_sessions (ws_auth st) = [(lit ''T'', \<lparr>se_expiry = from_secs 86400, se_auth_method = lit ''totp'', se_user_id = []\<rparr>)]
    \<and> ws_legacy_token st = None"
proof -
  obtain tm' where v: "otp_verify 60 (lit ''123456'') demo_totp = (tm', True)"
    using demo_code by (cases "otp_verify 60 (lit ''123456'') demo_totp") simp
  show ?thesis
    by (simp add: wt_def terminal_start_def demo_events_def terminal_step_def web_step_def route_def handle_login_def
        start_web_server_def init_totp_def demo_config_def demo_secret demo_input_def v Let_def rate_limiter_new_def
        totp_default_def check_and_record_def attempts_of_def issue_session_eq auth_issue_def auth_create_session_def
        auth_manager_new_def log_defs log_entry_def security_headers_def redirect_with_cookie_def)
qed

lemma demo_write: "snd (terminal_step demo_env demo_keys demo_terminal) = [(7, as_bytes (lit ''ls''))]"
proof -
  let ?wt = "terminal_start demo_env [] (demo_config (Some (lit ''abcd'')) False) (manager_new [] [])"
  from demo_login obtain st where st: "fst (terminal_step demo_env (hd demo_events) ?wt) = ?wt\<lparr>wt_web := st\<rparr>"
    "am_sessions (ws_auth st) = [(lit ''T'', \<lparr>se_expiry = from_secs 86400, se_auth_method = lit ''totp'', se_user_id = []\<rparr>)]"
    "ws_legacy_token st = None" by blast
  have run: "demo_terminal = fst (terminal_step demo_env (demo_events ! 1) (?wt\<lparr>wt_web := st\<rparr>))"
    using st(1) by (simp add: demo_terminal_def demo_events_def)
  have cookie: "extract_session_cookie (demo_headers (Some (lit ''nexterm_session='' @ lit ''T''))) = Some (lit ''T'')"
    using cookie_roundtrip [of "lit ''T''"] by (simp add: extract_session_cookie_def demo_headers_def lit_def is_whitespace_def)
  have valid: "has_valid_session 2 (demo_headers (Some (lit ''nexterm_session='' @ lit ''T''))) st"
    by (simp add: has_valid_session_def cookie is_valid_def st(2) from_secs_def)
  have "wt_sockets demo_terminal = [Some (lit ''main'')]
    \<and> wt_manager demo_terminal = snd (get_or_create_and_attach (Inr 7) (lit ''main'') 80 24 (manager_new [] []))"
    by (simp add: run demo_events_def terminal_step_def web_step_def route_def ws_handler_def valid st(3) demo_input_def Let_def
        security_headers_def default_session_name_def terminal_start_def socket_open_def get_or_create_and_attach_def
        insert_new_session_def new_in_workspace_def new_window_id_def spawn_window_def manager_new_def has_key_def
        put_session_def session_of_def split: prod.split option.split)
  then show ?thesis
    by (simp add: demo_keys_def terminal_step_def lget_def socket_step_def socket_write_def Let_def get_or_create_and_attach_def
        insert_new_session_def new_in_workspace_def new_window_id_def spawn_window_def manager_new_def has_key_def
        put_session_def session_of_def session_write_to_focused_def focused_window_def session_window_def
        window_write_to_focused_def window_single_def)
qed

lemma web_write_authenticated_witness:
  "\<exists>k < length demo_events. \<exists>inp h s q spawned. demo_events ! k = HttpRequest inp h (GetWs s q) spawned"
proof -
  have a: "auth_required (demo_config (Some (lit ''abcd'')) False)" by (simp add: auth_required_def demo_config_def)
  have "snd (terminal_step demo_env demo_keys demo_terminal) \<noteq> []" by (simp add: demo_write)
  from web_write_authenticated [OF a this [unfolded demo_keys_def demo_terminal_def]] show ?thesis by blast
qed

text \<open>C19: Whatever requests come in, the state is well-formed (sessions by distinct tokens within the limit, at most
  five attempts for an address, no setup once one-time passwords are active), and every
  response has a known status, each header once, a location exactly when it redirects, and the seven security
  headers with the values that \<open>response_ok\<close> writes out (no sniffing, no framing, the referrer and the two
  cross-origin policies, no camera, microphone, location or payment, and the content security policy), and the
  header for strict transport security, with two years for all subdomains, if TLS is on and not otherwise.
\<close>

theorem web_typed:
  "web_ok (fst (web_run we es (start_web_server we gen config)))
   \<and> response_ok (fst (web_run we es (start_web_server we gen config)))
       (snd (web_step we inp h req (fst (web_run we es (start_web_server we gen config)))))"
  using web_run_ok [OF start_ok [of we gen config], of we es] web_step_response by blast

text \<open>Logging out revokes the session but closes no socket: what is typed into one that is open
  still reaches the same panes.
\<close>

lemma logout_keeps_socket:
  fixes we inp h spawned and wt :: web_terminal
  defines "wt' \<equiv> fst (terminal_step we (HttpRequest inp h PostLogout spawned) wt)"
  assumes "extract_session_cookie h = Some token"
  shows "map_of (am_sessions (ws_auth (wt_web wt'))) token = None
    \<and> snd (terminal_step we (SocketEvent i so sev) wt') = snd (terminal_step we (SocketEvent i so sev) wt)"
proof -
  have same: "wt_sockets wt' = wt_sockets wt" "wt_manager wt' = wt_manager wt"
    unfolding wt'_def using logout_keeps_sockets [of we inp h spawned wt] by simp_all
  have "map_of (am_sessions (ws_auth (wt_web wt'))) token = None"
    unfolding wt'_def using logout_forgets [OF assms(2)] by (simp add: terminal_step_web)
  then show ?thesis by (simp add: terminal_step_def same Let_def split: option.split)
qed

lemma logout_keeps_socket_witness:
  "snd (terminal_step demo_env demo_keys (fst (terminal_step demo_env
     (HttpRequest (demo_input 2 []) (demo_headers (Some (lit ''nexterm_session='' @ lit ''T''))) PostLogout (Inl [])) demo_terminal)))
   = [(7, as_bytes (lit ''ls''))]"
proof -
  have "extract_session_cookie (demo_headers (Some (lit ''nexterm_session='' @ lit ''T''))) = Some (lit ''T'')"
    using cookie_roundtrip [of "lit ''T''"] by (simp add: extract_session_cookie_def demo_headers_def lit_def is_whitespace_def)
  from logout_keeps_socket [OF this, of demo_env _ _ demo_terminal] show ?thesis
    using demo_write unfolding demo_keys_def by metis
qed

section \<open>Logins\<close>

text \<open>C20: In a run of attempts and resets from an empty limiter in which the clock does not go back, an
  attempt is allowed exactly if fewer than the maximum were allowed for its key in the window before it,
  counting from the last reset of that key; so between two resets of a key, every interval of the length of
  the window has at most the maximum of them.  If the maximum is not zero, the keys that the limiter
  holds are all those tried since they were last reset: the purge of idle keys removes nothing.
\<close>

theorem attempts_limited:
  assumes "limiter_run es (rate_limiter_new cfg) = (l, oks)" "sorted (clock es)"
  shows "(\<forall>i < length es. \<forall>now k. es ! i = Attempt now k \<longrightarrow> (oks ! i \<longleftrightarrow>
       length (filter (\<lambda>t. now - t < rl_window cfg) (granted k (zip (take i es) (take i oks)))) < rl_max_attempts cfg))
    \<and> (\<forall>k a. length (filter (in_window (rl_window cfg) a) (granted k (zip es oks))) \<le> rl_max_attempts cfg)
    \<and> (0 < rl_max_attempts cfg \<longrightarrow> fst ` set (lim_attempts l) = tried es)"
  using limiter_run_inv [OF assms] limiter_run_keys [of cfg es] assms(1) by simp

definition demo_attempts :: "limiter_event list" where
  "demo_attempts = [Attempt 1 [65], Attempt 2 [65], Attempt 3 [65], Reset [65], Attempt 4 [65], Attempt 4 [66]]"

lemma attempts_limited_witness:
  "snd (limiter_run demo_attempts (rate_limiter_new \<lparr>rl_window = 60, rl_max_attempts = 2\<rparr>))
     = [True, True, False, True, True, True]
   \<and> fst ` set (lim_attempts (fst (limiter_run demo_attempts (rate_limiter_new \<lparr>rl_window = 60, rl_max_attempts = 2\<rparr>))))
     = {[65], [66]}"
proof -
  let ?l = "rate_limiter_new \<lparr>rl_window = 60, rl_max_attempts = 2\<rparr>"
  have run: "snd (limiter_run demo_attempts ?l) = [True, True, False, True, True, True]"
    by (simp add: demo_attempts_def check_and_record_def rate_limiter_new_def attempts_of_def limiter_reset_def Let_def)
  have "sorted (clock demo_attempts)" by (simp add: demo_attempts_def)
  from attempts_limited [OF prod.collapse [symmetric] this, of "\<lparr>rl_window = 60, rl_max_attempts = 2\<rparr>"]
  have "fst ` set (lim_attempts (fst (limiter_run demo_attempts ?l))) = tried demo_attempts" by simp
  with run show ?thesis by (simp add: demo_attempts_def tried_def insert_commute)
qed

text \<open>The limit is by the address that the client names in its own header: a client that
  numbers the header can try any list of codes at one instant, no attempt is refused, and when the
  right code is among them it gets a session.
\<close>

lemma limit_bypassed:
  assumes "wa_totp_enabled (wc_auth config)" "wa_totp_secret (wc_auth config) = Some secret"
    and "from_secret we secret (wa_issuer (wc_auth config)) = Some tm"
    and "code \<in> set codes" "snd (otp_verify (wi_unix inp) code tm)"
  shows "list_all (\<lambda>r. rs_status r \<noteq> 429)
      (snd (web_run we (forged_run inp h 0 codes) (start_web_server we gen config)))
    \<and> list_ex (\<lambda>r. map_of (rs_headers r) (lit ''set-cookie'') = Some (make_session_cookie (wi_token inp) (wc_tls_enabled config)))
      (snd (web_run we (forged_run inp h 0 codes) (start_web_server we gen config)))"
proof -
  let ?st = "start_web_server we gen config"
  have "ws_totp ?st = Some tm" using assms(1-3) by (simp add: start_web_server_def init_totp_def)
  moreover have "\<forall>i \<ge> 0. attempts_of (ws_limiter ?st) (dec i) = []"
    by (simp add: start_web_server_def case_prod_beta Let_def rate_limiter_new_def attempts_of_def)
  ultimately show ?thesis
    using forged_unlimited [OF start_ok [of we gen config], of 0]
      forged_found [OF start_ok [of we gen config], of 0, OF _ _ assms(4,5)]
    by (simp add: list_all_iff list_ex_iff start_fields)
qed

lemma limit_bypassed_witness:
  "list_all (\<lambda>r. rs_status r \<noteq> 429) (snd (web_run demo_env
     (forged_run (demo_input 0 (lit ''T'')) (demo_headers None) 0 (replicate 100 [] @ [lit ''123456'']))
     (start_web_server demo_env [] (demo_config (Some (lit ''abcd'')) False))))"
  using limit_bypassed [of "demo_config (Some (lit ''abcd'')) False" "lit ''abcd''" demo_env demo_totp "lit ''123456''"
      "replicate 100 [] @ [lit ''123456'']" "demo_input 0 (lit ''T'')" "demo_headers None" "[]"] demo_code demo_secret
  by (simp add: demo_config_def demo_input_def)

text \<open>C21: If the clock does not go back, the accepted codes belong to different windows, each a
  window next to the time of its attempt: no code is accepted a second time.
\<close>

theorem code_used_once:
  assumes "otp_run es tm = (tm', accepted)" "sorted (map fst es)"
  shows "\<exists>windows. length windows = length accepted \<and> distinct windows
    \<and> (\<forall>i < length accepted. windows ! i \<in> set (tried_windows (fst (accepted ! i) div TOTP_STEP))
         \<and> as_bytes (tm_generate tm (windows ! i * TOTP_STEP)) = as_bytes (trim (snd (accepted ! i))))"
  using otp_run_windows [OF assms, of 0 "{}"] by (auto simp: used_ok_def)

lemma code_used_once_witness:
  "\<exists>windows. length windows = length (snd (otp_run [(60, lit ''123456''), (61, lit ''123456'')] demo_totp)) \<and> distinct (windows :: nat list)"
proof -
  obtain tm' accepted where r: "otp_run [(60, lit ''123456''), (61, lit ''123456'')] demo_totp = (tm', accepted)" by fastforce
  from code_used_once [OF r] show ?thesis by (auto simp: r simp del: otp_run.simps)
qed

text \<open>C40: While the setup is pending, also when OAuth with an allow list is on, anybody can read the secret, end the setup with a code, and
  with the same code log in once more.
\<close>

theorem setup_code_replayed:
  assumes "wa_totp_enabled (wc_auth config)" "wa_totp_secret (wc_auth config) = None"
    and "from_secret we gen (wa_issuer (wc_auth config)) = Some tm"
    and "snd (otp_verify (wi_unix inp) code tm)" "wi_unix inp2 = wi_unix inp"
  shows "(\<exists>u. rs_body (snd (web_step we inp0 h0 GetSetupUrl (start_web_server we gen config))) = SetupUrlBody u (tm_secret_b32 tm))
    \<and> map (\<lambda>r. map_of (rs_headers r) (lit ''set-cookie''))
        (snd (web_run we [(inp, h, PostSetupVerify code), (inp2, h2, PostLogin code)] (start_web_server we gen config)))
      = [Some (make_session_cookie (wi_token inp) (wc_tls_enabled config)),
         Some (make_session_cookie (wi_token inp2) (wc_tls_enabled config))]"
proof -
  let ?st = "start_web_server we gen config"
  let ?st1 = "fst (web_step we inp h (PostSetupVerify code) ?st)"
  have p: "ws_pending ?st = Some \<lparr>ps_secret = gen, ps_totp = tm\<rparr>" "ws_issuer ?st = wa_issuer (wc_auth config)"
    "ws_limiter ?st = rate_limiter_new totp_default"
    using assms(1-3) by (simp_all add: start_web_server_def init_totp_def)
  have s: "map_of (rs_headers (snd (web_step we inp h (PostSetupVerify code) ?st))) (lit ''set-cookie'') =
      Some (make_session_cookie (wi_token inp) (wc_tls_enabled config))"
    "ws_totp ?st1 = Some tm" "ws_limiter ?st1 = rate_limiter_new totp_default"
    using setup_session [of ?st, OF p(1), of inp code we tm h] assms(3,4) p by (simp_all add: start_fields)
  have "web_ok ?st1 \<and> ws_tls ?st1 = wc_tls_enabled config"
    using web_step_ok [OF start_ok [of we gen config], of we inp h "PostSetupVerify code"]
    by (simp add: same_switches_def start_fields)
  moreover have "attempts_of (ws_limiter ?st1) (client_ip h2) = []" by (simp add: s(3) rate_limiter_new_def attempts_of_def)
  ultimately have "map_of (rs_headers (snd (web_step we inp2 h2 (PostLogin code) ?st1))) (lit ''set-cookie'') =
      Some (make_session_cookie (wi_token inp2) (wc_tls_enabled config))"
    using login_step [of ?st1 h2 we inp2 code tm] s(2) assms(4,5) by simp
  moreover have "\<exists>u. rs_body (snd (web_step we inp0 h0 GetSetupUrl ?st)) = SetupUrlBody u (tm_secret_b32 tm)"
    by (simp add: web_step_def route_def handle_setup_url_def p(1) security_headers_def Let_def)
  ultimately show ?thesis using s(1) by (simp add: case_prod_beta Let_def)
qed

lemma setup_code_replayed_witness:
  "map (\<lambda>r. map_of (rs_headers r) (lit ''set-cookie''))
     (snd (web_run demo_env [(demo_input 0 (lit ''A''), demo_headers None, PostSetupVerify (lit ''123456'')),
        (demo_input 1 (lit ''B''), demo_headers None, PostLogin (lit ''123456''))]
        (start_web_server demo_env (lit ''abcd'') (demo_config None True))))
   = [Some (make_session_cookie (lit ''A'') False), Some (make_session_cookie (lit ''B'') False)]"
  using setup_code_replayed [of "demo_config None True" demo_env "lit ''abcd''" demo_totp "demo_input 0 (lit ''A'')"
      "lit ''123456''" "demo_input 1 (lit ''B'')" _ _ "demo_headers None" "demo_headers None"] demo_code demo_secret
  by (simp add: demo_config_def demo_input_def del: web_run.simps)

text \<open>If the configured secret is refused, one-time passwords are still required, and without
  OAuth no request can ever get a session.
\<close>

lemma totp_lockout:
  assumes "wa_totp_enabled (wc_auth config)" "wa_totp_secret (wc_auth config) = Some secret"
    and "from_secret we secret (wa_issuer (wc_auth config)) = None" "\<not> wa_oauth_enabled (wc_auth config)"
  shows "\<not> has_valid_session now h (fst (web_run we es (start_web_server we gen config)))"
proof -
  have "locked_out (start_web_server we gen config)"
    using assms by (simp add: locked_out_def start_web_server_def init_totp_def auth_manager_new_def)
  from locked_out_refused [OF locked_out_run [OF this]] show ?thesis .
qed

section \<open>Discovery documents\<close>

text \<open>The check of the userinfo address can be passed for any host: an address with the
  host of the issuer as user information, whose host by RFC 3986 is another (such as that of
  a cloud metadata service), is accepted.
\<close>

lemma userinfo_host_spoofed:
  assumes "extract_host lc issuer = Some d" "d \<noteq> []" "lowercase_of lc d = d" "\<not> is_disallowed_host lc d"
    and "set d \<inter> {47, 58, 63, 35} = {}" "set h \<inter> {47, 58, 63, 35, 64} = {}"
  shows "validate_userinfo_endpoint lc (lit ''https://'' @ d @ lit '':x@'' @ h @ lit ''/'') issuer = Inr ()
    \<and> uri_host (lit ''https://'' @ d @ lit '':x@'' @ h @ lit ''/'') = h"
  by (rule endpoint_spoofed [OF assms])

lemma userinfo_host_spoofed_witness:
  "validate_userinfo_endpoint (\<lambda>c. [c]) (lit ''https://'' @ lit ''id.example.com'' @ lit '':x@'' @ lit ''169.254.169.254'' @ lit ''/'')
     (lit ''https://id.example.com'') = Inr ()"
proof -
  have "extract_host (\<lambda>c. [c]) (lit ''https://id.example.com'') = Some (lit ''id.example.com'')"
    by (simp add: extract_host_def lit_def starts_with_def lowercase_of_def ascii_lower_def Let_def)
  moreover have "lowercase_of (\<lambda>c. [c]) (lit ''id.example.com'') = lit ''id.example.com''"
    by (simp add: lit_def lowercase_of_def ascii_lower_def)
  moreover from this have "\<not> is_disallowed_host (\<lambda>c. [c]) (lit ''id.example.com'')"
    unfolding is_disallowed_host_def by (simp only: Let_def) (simp add: lit_def starts_with_def strip_prefix_def)
  ultimately show ?thesis
    using userinfo_host_spoofed [of "\<lambda>c. [c]" "lit ''https://id.example.com''" "lit ''id.example.com''" "lit ''169.254.169.254''"]
    by (simp add: lit_def)
qed

section \<open>The access log\<close>

text \<open>C38: An access log, the header and one line per request, read by a reader of CSV files, is the names of
  the columns and one record per request with exactly the seven fields of its entry, whatever commas,
  quotes and line feeds a client puts into them, but for the query of the path.  A
  field with a carriage return must have one of the other three as well: alone it is not quoted, and ends the record
  (\<open>bare_return_splits\<close>).
\<close>

theorem log_line_roundtrip:
  assumes "\<forall>(secs, e) \<in> set entries. fields_readable e"
  shows "csv_records (CSV_HEADER @ [10] @ concat (map (\<lambda>(secs, e). log_line (chrono_now secs) e) entries)) =
    header_names # map (\<lambda>(secs, e). entry_fields (chrono_now secs) e) entries"
  by (rule log_records [OF assms])

text \<open>A path with a comma and a quote, and a name with a line feed and a carriage return.\<close>

definition demo_entry :: access_log_entry where
  "demo_entry = \<lparr>al_remote_addr = lit ''::1'', al_method = lit ''GET'', al_path = lit ''/a,'' @ [34] @ lit ''?q'',
     al_status = 200, al_auth_method = [], al_user_id = lit ''x'' @ [10, 13] @ lit ''y''\<rparr>"

lemma log_line_roundtrip_witness:
  "csv_records (CSV_HEADER @ [10] @ log_line (chrono_now 0) demo_entry @ log_line (chrono_now 1) demo_entry) =
     [header_names, entry_fields (chrono_now 0) demo_entry, entry_fields (chrono_now 1) demo_entry]
   \<and> strip_query_string (al_path demo_entry) = lit ''/a,'' @ [34]"
proof -
  have path: "strip_query_string (al_path demo_entry) = lit ''/a,'' @ [34]"
    by (simp add: demo_entry_def strip_query_eq lit_def)
  have "fields_readable demo_entry"
    by (simp add: fields_readable_def path) (simp add: demo_entry_def return_quoted_def lit_def)
  then show ?thesis using log_line_roundtrip [of "[(0, demo_entry), (1, demo_entry)]"] path by simp
qed

text \<open>C39: The date of a day number is that of counting the days from 1970-01-01 in the Gregorian calendar.\<close>

theorem dates_exact: "days_to_ymd n = (next_date ^^ n) (1970, 1, 1)"
  by (rule days_to_ymd_calendar)

text \<open>A rotation of \<open>n\<close> generations moves the log and every older generation one further, loses only the last,
  and touches no other file.
\<close>

lemma log_rotation:
  assumes "0 < n" "fs p = Some content"
  shows "rotate_files gzip p n c fs p = None
    \<and> rotate_files gzip p n c fs (generation_path p 1 c) = Some (if c then gzip content else content)
    \<and> (\<forall>i e. 1 < i \<and> i \<le> n \<longrightarrow> rotate_files gzip p n c fs (generation_path p i e) = fs (generation_path p (i - 1) e))
    \<and> (\<forall>q. q \<noteq> p \<and> (\<forall>i e. 1 \<le> i \<and> i \<le> n \<longrightarrow> q \<noteq> generation_path p i e) \<longrightarrow> rotate_files gzip p n c fs q = fs q)"
  using rotate_files_shift [of n fs p content gzip c, OF assms] by blast

lemma log_rotation_witness:
  "rotate_files id (lit ''a'') 2 False (\<lambda>q. if q = lit ''a'' then Some [1] else None) (generation_path (lit ''a'') 1 False) = Some [1]"
  using log_rotation [of 2 "\<lambda>q. if q = lit ''a'' then Some [1] else None" "lit ''a''" "[1]" id False] by simp

end
