(* ===== verification/Plugin_Host.thy ===== *)
theory Plugin_Host
  imports Rust_Str "HOL-Library.AList"
begin

text \<open>
  The host of the WebAssembly plugins (\<open>nexterm-plugin/src/lib.rs\<close>): the filter in front
  of the hooks, the imports a plugin may call, the hooks, and loading and unloading.

  The code of a plugin and the interpreter that runs it are not part of the repository.  A run
  of an exported function is a tree: it returns, traps, or calls an import of the host and goes
  on with the answer and the memory after the call.  Trees are well-founded because every call is
  given a finite amount of fuel (\<open>FUEL_PER_CALL\<close>).  What a hook does to the program is the
  list of its effects, in order.
\<close>

section \<open>The filter in front of the hooks\<close>

definition skip_csi :: "byte list \<Rightarrow> byte list" where
  "skip_csi bs = drop 1 (dropWhile (\<lambda>b. \<not> (0x40 \<le> b \<and> b \<le> 0x7E)) bs)"

fun skip_string :: "byte list \<Rightarrow> byte list" where
  "skip_string [] = []"
| "skip_string (b # bs) =
     (if b = 0x07 then bs
      else if b = 0x1B \<and> bs \<noteq> [] \<and> hd bs = 0x5C then tl bs
      else skip_string bs)"

lemma skip_csi_length [simp]: "length (skip_csi bs) \<le> length bs"
  unfolding skip_csi_def length_drop by (rule le_trans [OF diff_le_self length_dropWhile_le])

lemma skip_string_length [simp]: "length (skip_string bs) \<le> length bs"
  by (induction bs rule: skip_string.induct) (auto simp: le_SucI)

lemma skip_lengths [intro]:
  "length (skip_csi bs) < Suc (Suc (length bs))" "length (skip_string bs) < Suc (Suc (length bs))"
  using skip_csi_length [of bs] skip_string_length [of bs] by linarith+

text \<open>The bytes that start a string: OSC, DCS, APC and PM.\<close>

definition string_intro :: "byte \<Rightarrow> bool" where
  "string_intro b \<longleftrightarrow> b = 0x5D \<or> b = 0x50 \<or> b = 0x5F \<or> b = 0x5E"

function sanitize_for_plugin :: "byte list \<Rightarrow> byte list" where
  "sanitize_for_plugin [] = []"
| "sanitize_for_plugin (b # r) =
     (if b = 0x1B then
        (case r of
           [] \<Rightarrow> []
         | c # r' \<Rightarrow>
             if c = 0x5B then sanitize_for_plugin (skip_csi r')
             else if string_intro c then sanitize_for_plugin (skip_string r')
             else sanitize_for_plugin r')
      else if b = 0x09 \<or> b = 0x0A \<or> b = 0x0D then b # sanitize_for_plugin r
      else if b \<le> 0x1F \<or> b = 0x7F then sanitize_for_plugin r
      else b # sanitize_for_plugin r)"
  by pat_completeness auto
termination by (relation "measure length") auto

declare sanitize_for_plugin.simps(2) [simp del]

section \<open>The state of the host\<close>

type_synonym i32 = "32 word"

definition PLUGIN_API_VERSION :: nat where "PLUGIN_API_VERSION = 3"
definition MIN_READ_API_VERSION :: nat where "MIN_READ_API_VERSION = 3"
definition MIN_SUPPORTED_API_VERSION :: nat where "MIN_SUPPORTED_API_VERSION = 1"
definition MAX_MEMORY_PAGES :: nat where "MAX_MEMORY_PAGES = 256"

lemmas api_versions = PLUGIN_API_VERSION_def MIN_READ_API_VERSION_def MIN_SUPPORTED_API_VERSION_def

datatype read_kind = PaneText | GridCells | ScrollbackLines nat nat

datatype read_outcome = Denied | UnknownPane | ReadData "byte list"

text \<open>
  The callback that serves reads looks at the state \<open>'w\<close> of the server at the time of the
  call.
\<close>

type_synonym 'w read_fn = "'w \<Rightarrow> nat \<Rightarrow> read_kind \<Rightarrow> read_outcome"

definition deny_all_reads :: "'w read_fn" where
  "deny_all_reads w pane kind = Denied"

record 'w host_state =
  ht_read_fn :: "'w read_fn"
  ht_log_buf :: "rstr list"
  ht_allowed_panes :: "nat set"
  ht_api_version :: nat
  ht_memory_limit :: nat

text \<open>
  What the host does for a plugin: calls of the write callback, calls of the read callback with
  their outcome, lines of the log and the warning at load time.
\<close>

datatype host_effect =
    Wrote nat "byte list"
  | Asked nat read_kind read_outcome
  | Logged rstr
  | LegacyWarned nat

section \<open>The imports\<close>

datatype host_call =
    CallApiVersion
  | CallLog i32 i32
  | CallWritePane i32 i32 i32
  | CallReadPane i32 i32 i32
  | CallReadGrid i32 i32 i32
  | CallReadScrollback i32 i32 i32 i32 i32

text \<open>\<open>as usize\<close> extends the sign, \<open>as u32\<close> keeps the bits.\<close>

definition host_usize_max :: nat where "host_usize_max = 18446744073709551615"

definition as_usize :: "i32 \<Rightarrow> nat" where
  "as_usize p = nat (sint p mod 18446744073709551616)"

definition as_u32 :: "i32 \<Rightarrow> nat" where
  "as_u32 p = unat p"

definition slice_end :: "i32 \<Rightarrow> i32 \<Rightarrow> nat" where
  "slice_end ptr len = min (as_usize ptr + as_usize len) host_usize_max"

definition mem_slice :: "byte list \<Rightarrow> nat \<Rightarrow> nat \<Rightarrow> byte list" where
  "mem_slice m start stop = take (stop - start) (drop start m)"

definition mem_write :: "nat \<Rightarrow> byte list \<Rightarrow> byte list \<Rightarrow> byte list" where
  "mem_write start bs m = take start m @ bs @ drop (start + length bs) m"

text \<open>\<open>exported\<close> says whether the module exports its memory under the name the host looks up.\<close>

definition host_log ::
  "bool \<Rightarrow> byte list \<Rightarrow> i32 \<Rightarrow> i32 \<Rightarrow> 'w host_state \<Rightarrow> 'w host_state \<times> host_effect list" where
  "host_log exported m ptr len h =
     (if exported \<and> slice_end ptr len \<le> length m then
        (let s = from_utf8_lossy (mem_slice m (as_usize ptr) (slice_end ptr len)) in
         (h\<lparr>ht_log_buf := ht_log_buf h @ [s]\<rparr>, [Logged s]))
      else (h, []))"

definition host_write_pane ::
  "bool \<Rightarrow> byte list \<Rightarrow> i32 \<Rightarrow> i32 \<Rightarrow> i32 \<Rightarrow> 'w host_state \<Rightarrow> host_effect list" where
  "host_write_pane exported m pane ptr len h =
     (let pane_u = as_u32 pane in
      if \<not> (ht_api_version h < 2 \<or> pane_u \<in> ht_allowed_panes h) then []
      else if exported \<and> slice_end ptr len \<le> length m
      then [Wrote pane_u (mem_slice m (as_usize ptr) (slice_end ptr len))]
      else [])"

definition perform_plugin_read ::
  "'w \<Rightarrow> bool \<Rightarrow> byte list \<Rightarrow> i32 \<Rightarrow> read_kind \<Rightarrow> i32 \<Rightarrow> i32 \<Rightarrow> 'w host_state
   \<Rightarrow> i32 \<times> byte list \<times> host_effect list" where
  "perform_plugin_read w exported m pane kind out_ptr out_max h =
     (if sint out_ptr < 0 \<or> sint out_max < 0 then (- 3, m, [])
      else let pane_u = as_u32 pane in
      if ht_api_version h < MIN_READ_API_VERSION then (- 1, m, [])
      else if pane_u \<notin> ht_allowed_panes h then (- 2, m, [])
      else let outcome = ht_read_fn h w pane_u kind; es = [Asked pane_u kind outcome] in
      case outcome of
        Denied \<Rightarrow> (- 4, m, es)
      | UnknownPane \<Rightarrow> (- 2, m, es)
      | ReadData bytes \<Rightarrow>
          if as_usize out_max < length bytes then (- 3, m, es)
          else if \<not> exported then (- 3, m, es)
          else if length m < min (as_usize out_ptr + length bytes) host_usize_max then (- 3, m, es)
          else (of_nat (length bytes), mem_write (as_usize out_ptr) bytes m, es))"

definition scrollback_kind :: "i32 \<Rightarrow> i32 \<Rightarrow> read_kind" where
  "scrollback_kind start_line max_lines =
     ScrollbackLines (nat (max (sint start_line) 0)) (nat (max (sint max_lines) 0))"

text \<open>
  One call of an import: the answer and the memory the plugin goes on with, the host state and
  the effects.  The answer of an import without a result is 0 and cannot be seen.
\<close>

definition with_state :: "'w host_state \<Rightarrow> i32 \<times> byte list \<times> host_effect list
   \<Rightarrow> (i32 \<times> byte list) \<times> 'w host_state \<times> host_effect list" where
  "with_state h r = (case r of (code, m, es) \<Rightarrow> ((code, m), h, es))"

fun host_import ::
  "'w \<Rightarrow> bool \<Rightarrow> byte list \<Rightarrow> host_call \<Rightarrow> 'w host_state
   \<Rightarrow> (i32 \<times> byte list) \<times> 'w host_state \<times> host_effect list" where
  "host_import w exported m CallApiVersion h = ((of_nat PLUGIN_API_VERSION, m), h, [])"
| "host_import w exported m (CallLog ptr len) h =
     (case host_log exported m ptr len h of (h', es) \<Rightarrow> ((0, m), h', es))"
| "host_import w exported m (CallWritePane pane ptr len) h =
     ((0, m), h, host_write_pane exported m pane ptr len h)"
| "host_import w exported m (CallReadPane pane out_ptr out_max) h =
     with_state h (perform_plugin_read w exported m pane PaneText out_ptr out_max h)"
| "host_import w exported m (CallReadGrid pane out_ptr out_max) h =
     with_state h (perform_plugin_read w exported m pane GridCells out_ptr out_max h)"
| "host_import w exported m (CallReadScrollback pane start_line max_lines out_ptr out_max) h =
     with_state h (perform_plugin_read w exported m pane (scrollback_kind start_line max_lines)
       out_ptr out_max h)"

section \<open>Running a plugin\<close>

text \<open>
  A run of a plugin with private state \<open>'g\<close> (its globals and tables).  The state and the memory
  are kept after a trap.
\<close>

datatype 'g guest =
    Returned 'g "byte list" i32
  | Trapped 'g "byte list"
  | HostCall "byte list" host_call "i32 \<times> byte list \<Rightarrow> 'g guest"

text \<open>The value a run returned, if it did, with the state, the memory, the host and the effects.\<close>

type_synonym ('g, 'w) run_result = "i32 option \<times> 'g \<times> byte list \<times> 'w host_state \<times> host_effect list"

definition after_effects :: "host_effect list \<Rightarrow> ('g, 'w) run_result \<Rightarrow> ('g, 'w) run_result" where
  "after_effects es r = (case r of (v, g, m, h, es') \<Rightarrow> (v, g, m, h, es @ es'))"

primrec run_guest :: "'g guest \<Rightarrow> 'w \<Rightarrow> bool \<Rightarrow> 'w host_state \<Rightarrow> ('g, 'w) run_result" where
  "run_guest (Returned g m v) = (\<lambda>w exported h. (Some v, g, m, h, []))"
| "run_guest (Trapped g m) = (\<lambda>w exported h. (None, g, m, h, []))"
| "run_guest (HostCall m c k) = (\<lambda>w exported h.
     case host_import w exported m c h of
       (answer, h', es) \<Rightarrow> after_effects es (run_guest (k answer) w exported h'))"

text \<open>
  What a file compiles to: its imports, its memory and globals, and the exported functions
  of the types the host looks for.
\<close>

record 'g wasm_module =
  wm_imports :: "(rstr \<times> rstr) list"
  wm_exports_memory :: bool
  wm_initial_memory :: "byte list"
  wm_initial_globals :: 'g
  wm_start :: "('g \<Rightarrow> byte list \<Rightarrow> 'g guest) option"
  wm_api_version :: "('g \<Rightarrow> byte list \<Rightarrow> 'g guest) option"
  wm_init :: "('g \<Rightarrow> byte list \<Rightarrow> 'g guest) option"
  wm_meta :: "(i32 \<Rightarrow> i32 \<Rightarrow> i32 \<Rightarrow> i32 \<Rightarrow> 'g \<Rightarrow> byte list \<Rightarrow> 'g guest) option"
  wm_on_output :: "(i32 \<Rightarrow> i32 \<Rightarrow> i32 \<Rightarrow> 'g \<Rightarrow> byte list \<Rightarrow> 'g guest) option"
  wm_on_command :: "(i32 \<Rightarrow> i32 \<Rightarrow> 'g \<Rightarrow> byte list \<Rightarrow> 'g guest) option"

record ('g, 'w) plugin =
  pn_path :: rstr
  pn_api_version :: nat
  pn_meta_name :: "rstr option"
  pn_meta_version :: "rstr option"
  pn_host :: "'w host_state"
  pn_memory :: "byte list"
  pn_globals :: 'g
  pn_module :: "'g wasm_module"

definition call_export ::
  "'w \<Rightarrow> ('g \<Rightarrow> byte list \<Rightarrow> 'g guest) \<Rightarrow> ('g, 'w) plugin
   \<Rightarrow> i32 option \<times> ('g, 'w) plugin \<times> host_effect list" where
  "call_export w f p =
     (case run_guest (f (pn_globals p) (pn_memory p)) w (wm_exports_memory (pn_module p)) (pn_host p) of
        (v, g, m, h, es) \<Rightarrow> (v, p\<lparr>pn_globals := g, pn_memory := m, pn_host := h\<rparr>, es))"

definition set_allowed :: "nat set \<Rightarrow> ('g, 'w) plugin \<Rightarrow> ('g, 'w) plugin" where
  "set_allowed panes p = p\<lparr>pn_host := (pn_host p)\<lparr>ht_allowed_panes := panes\<rparr>\<rparr>"

section \<open>The hooks\<close>

definition HOOK_OFFSET :: nat where "HOOK_OFFSET = 65536"

text \<open>One plugin of the loop: whether it ends the loop, the plugin after and the effects.\<close>

definition output_hook ::
  "'w \<Rightarrow> nat \<Rightarrow> byte list \<Rightarrow> byte list \<Rightarrow> ('g, 'w) plugin \<Rightarrow> bool \<times> ('g, 'w) plugin \<times> host_effect list" where
  "output_hook w pane data sanitized p =
     (case wm_on_output (pn_module p) of
        None \<Rightarrow> (False, p, [])
      | Some func \<Rightarrow>
          (let payload = (if 2 \<le> pn_api_version p then sanitized else data) in
           if wm_exports_memory (pn_module p) \<and> HOOK_OFFSET + length payload \<le> length (pn_memory p) then
             (let p1 = p\<lparr>pn_memory := mem_write HOOK_OFFSET payload (pn_memory p)\<rparr>;
                  p2 = set_allowed (if 2 \<le> ht_api_version (pn_host p1) then {pane} else {}) p1 in
              case call_export w (func (of_nat pane) (of_nat HOOK_OFFSET) (of_nat (length payload))) p2 of
                (result, p3, es) \<Rightarrow> (result = Some 1, set_allowed {} p3, es))
           else (False, p, [])))"

definition command_hook ::
  "'w \<Rightarrow> byte list \<Rightarrow> byte list \<Rightarrow> ('g, 'w) plugin \<Rightarrow> bool \<times> ('g, 'w) plugin \<times> host_effect list" where
  "command_hook w cmd sanitized p =
     (case wm_on_command (pn_module p) of
        None \<Rightarrow> (False, p, [])
      | Some func \<Rightarrow>
          (let payload = (if 2 \<le> pn_api_version p then sanitized else cmd) in
           if wm_exports_memory (pn_module p) \<and> HOOK_OFFSET + length payload \<le> length (pn_memory p) then
             (let p1 = p\<lparr>pn_memory := mem_write HOOK_OFFSET payload (pn_memory p)\<rparr>;
                  p2 = set_allowed {} p1 in
              case call_export w (func (of_nat HOOK_OFFSET) (of_nat (length payload))) p2 of
                (result, p3, es) \<Rightarrow> (result = Some 0, set_allowed {} p3, es))
           else (False, p, [])))"

text \<open>The loop over the plugins, which the first that says so ends.\<close>

fun each_plugin ::
  "(('g, 'w) plugin \<Rightarrow> bool \<times> ('g, 'w) plugin \<times> host_effect list) \<Rightarrow> ('g, 'w) plugin list
   \<Rightarrow> bool \<times> ('g, 'w) plugin list \<times> host_effect list" where
  "each_plugin hook [] = (False, [], [])"
| "each_plugin hook (p # ps) =
     (case hook p of
        (True, p', es) \<Rightarrow> (True, p' # ps, es)
      | (False, p', es) \<Rightarrow>
          (case each_plugin hook ps of (b, ps', es') \<Rightarrow> (b, p' # ps', es @ es')))"

record ('g, 'w) plugin_manager =
  pg_plugins :: "('g, 'w) plugin list"
  pg_read_fn :: "'w read_fn"

definition plugin_manager_new :: "('g, 'w) plugin_manager" where
  "plugin_manager_new = \<lparr>pg_plugins = [], pg_read_fn = deny_all_reads\<rparr>"

definition set_read_fn :: "'w read_fn \<Rightarrow> ('g, 'w) plugin_manager \<Rightarrow> ('g, 'w) plugin_manager" where
  "set_read_fn f m = m\<lparr>pg_read_fn := f\<rparr>"

definition on_output ::
  "'w \<Rightarrow> nat \<Rightarrow> byte list \<Rightarrow> ('g, 'w) plugin_manager \<Rightarrow> bool \<times> ('g, 'w) plugin_manager \<times> host_effect list" where
  "on_output w pane data m =
     (case each_plugin (output_hook w pane data (sanitize_for_plugin data)) (pg_plugins m) of
        (suppress, ps, es) \<Rightarrow> (suppress, m\<lparr>pg_plugins := ps\<rparr>, es))"

definition on_command ::
  "'w \<Rightarrow> rstr \<Rightarrow> ('g, 'w) plugin_manager \<Rightarrow> bool \<times> ('g, 'w) plugin_manager \<times> host_effect list" where
  "on_command w cmd m =
     (case each_plugin (command_hook w (as_bytes cmd) (sanitize_for_plugin (as_bytes cmd))) (pg_plugins m) of
        (handled, ps, es) \<Rightarrow> (handled, m\<lparr>pg_plugins := ps\<rparr>, es))"

definition plugin_count :: "('g, 'w) plugin_manager \<Rightarrow> nat" where
  "plugin_count m = length (pg_plugins m)"

definition plugin_paths :: "('g, 'w) plugin_manager \<Rightarrow> rstr list" where
  "plugin_paths m = map pn_path (pg_plugins m)"

record plugin_info =
  pf_path :: rstr
  pf_api_version :: nat
  pf_name :: "rstr option"
  pf_version :: "rstr option"

definition list_info :: "('g, 'w) plugin_manager \<Rightarrow> plugin_info list" where
  "list_info m = map (\<lambda>p. \<lparr>pf_path = pn_path p, pf_api_version = pn_api_version p,
     pf_name = pn_meta_name p, pf_version = pn_meta_version p\<rparr>) (pg_plugins m)"

text \<open>
  Loading, unloading and reloading plugins (\<open>nexterm-plugin/src/lib.rs\<close>), on Unix paths.  The
  files and the compiler of modules are parameters.
\<close>

section \<open>Names a plugin gives\<close>

text \<open>A NUL-terminated string in the memory; nothing when it is empty or not UTF-8.\<close>

definition read_cstr_from :: "byte list \<Rightarrow> nat \<Rightarrow> nat \<Rightarrow> rstr option" where
  "read_cstr_from data offset max_len =
     (if length data < offset + max_len then None
      else let slice = take max_len (drop offset data);
               stop = (case position (\<lambda>b. b = 0) slice of Some n \<Rightarrow> n | None \<Rightarrow> max_len) in
        if stop = 0 then None else from_utf8 (take stop slice))"

definition META_LEN :: nat where "META_LEN = 128"

definition read_plugin_meta ::
  "'w \<Rightarrow> ('g, 'w) plugin \<Rightarrow> (rstr option \<times> rstr option) \<times> ('g, 'w) plugin \<times> host_effect list" where
  "read_plugin_meta w p =
     (case wm_meta (pn_module p) of
        None \<Rightarrow> ((None, None), p, [])
      | Some meta \<Rightarrow>
          (let name_off = HOOK_OFFSET; ver_off = name_off + META_LEN in
           if \<not> wm_exports_memory (pn_module p) \<or> length (pn_memory p) < ver_off + META_LEN
           then ((None, None), p, [])
           else
             (let p1 = p\<lparr>pn_memory := mem_write ver_off (replicate META_LEN 0)
                        (mem_write name_off (replicate META_LEN 0) (pn_memory p))\<rparr> in
              case call_export w (meta (of_nat name_off) (of_nat META_LEN) (of_nat ver_off) (of_nat META_LEN)) p1 of
                (_, p2, es) \<Rightarrow>
                  ((read_cstr_from (pn_memory p2) name_off META_LEN,
                    read_cstr_from (pn_memory p2) ver_off META_LEN), p2, es))))"

section \<open>Loading one plugin\<close>

datatype load_error =
    ReadFailed rstr
  | CompileFailed rstr
  | InstantiateFailed
  | StartFailed
  | MemoryExceeds nat
  | VersionTooNew nat
  | VersionTooOld nat
  | LoadTimedOut rstr
  | DirUnreadable rstr
  | EntryUnreadable

text \<open>The functions of the linker, all of the module \<open>nexterm\<close>.\<close>

definition host_imports :: "(rstr \<times> rstr) list" where
  "host_imports = map (Pair (lit ''nexterm'')) [lit ''api_version'', lit ''log'', lit ''write_pane'',
     lit ''read_pane'', lit ''read_grid'', lit ''read_scrollback'']"

definition initial_host :: "'w read_fn \<Rightarrow> 'w host_state" where
  "initial_host read_fn =
     \<lparr>ht_read_fn = read_fn, ht_log_buf = [], ht_allowed_panes = {},
      ht_api_version = PLUGIN_API_VERSION, ht_memory_limit = MAX_MEMORY_PAGES * 64 * 1024\<rparr>"

text \<open>
  Instantiating a module: its imports must be known and its first memory must respect the limit
  of the store.  Then the start section runs, which must not trap.
\<close>

definition fresh_plugin :: "rstr \<Rightarrow> 'w read_fn \<Rightarrow> 'g wasm_module \<Rightarrow> ('g, 'w) plugin" where
  "fresh_plugin path read_fn module =
     \<lparr>pn_path = path, pn_api_version = MIN_SUPPORTED_API_VERSION, pn_meta_name = None,
      pn_meta_version = None, pn_host = initial_host read_fn, pn_memory = wm_initial_memory module,
      pn_globals = wm_initial_globals module, pn_module = module\<rparr>"

definition call_optional ::
  "'w \<Rightarrow> ('g \<Rightarrow> byte list \<Rightarrow> 'g guest) option \<Rightarrow> ('g, 'w) plugin
   \<Rightarrow> i32 option \<times> ('g, 'w) plugin \<times> host_effect list" where
  "call_optional w f p = (case f of None \<Rightarrow> (Some 0, p, []) | Some func \<Rightarrow> call_export w func p)"

definition instantiate ::
  "'w \<Rightarrow> ('g, 'w) plugin \<Rightarrow> (load_error + ('g, 'w) plugin) \<times> host_effect list" where
  "instantiate w p =
     (let module = pn_module p in
      if \<not> set (wm_imports module) \<subseteq> set host_imports then (Inl InstantiateFailed, [])
      else if ht_memory_limit (pn_host p) < length (wm_initial_memory module) then (Inl InstantiateFailed, [])
      else case call_optional w (wm_start module) p of
        (None, _, es) \<Rightarrow> (Inl StartFailed, es)
      | (Some _, p', es) \<Rightarrow> (Inr p', es))"

text \<open>The version a plugin declares: that of version 1 when it declares none or traps.\<close>

definition resolve_version ::
  "'w \<Rightarrow> ('g, 'w) plugin \<Rightarrow> (load_error + nat \<times> ('g, 'w) plugin) \<times> host_effect list" where
  "resolve_version w p =
     (case wm_api_version (pn_module p) of
        None \<Rightarrow> (Inr (MIN_SUPPORTED_API_VERSION, p), [])
      | Some version_fn \<Rightarrow>
          (case call_export w version_fn p of
             (None, p', es) \<Rightarrow> (Inr (MIN_SUPPORTED_API_VERSION, p'), es)
           | (Some v, p', es) \<Rightarrow>
               (let v_u = as_u32 v in
                if PLUGIN_API_VERSION < v_u then (Inl (VersionTooNew v_u), es)
                else if v_u < MIN_SUPPORTED_API_VERSION then (Inl (VersionTooOld v_u), es)
                else (Inr (v_u, p'), es))))"

definition commit_version :: "nat \<Rightarrow> ('g, 'w) plugin \<Rightarrow> ('g, 'w) plugin" where
  "commit_version v p = p\<lparr>pn_api_version := v, pn_host := (pn_host p)\<lparr>ht_api_version := v\<rparr>\<rparr>"

text \<open>What follows the choice of the version: the warning, the initialisation and the names.\<close>

definition initialise :: "'w \<Rightarrow> nat \<Rightarrow> ('g, 'w) plugin \<Rightarrow> ('g, 'w) plugin \<times> host_effect list" where
  "initialise w v p =
     (let warning = (if v < PLUGIN_API_VERSION then [LegacyWarned v] else []) in
      case call_optional w (wm_init (pn_module p)) (commit_version v p) of
        (_, p2, es2) \<Rightarrow>
          (case read_plugin_meta w p2 of
             ((name, version), p3, es3) \<Rightarrow>
               (p3\<lparr>pn_meta_name := name, pn_meta_version := version\<rparr>, warning @ es2 @ es3)))"

text \<open>\<open>files\<close> reads a file and \<open>compile\<close> is \<open>Module::new\<close> of the interpreter.\<close>

definition load_blocking ::
  "(rstr \<Rightarrow> byte list option) \<Rightarrow> (byte list \<Rightarrow> 'g wasm_module option) \<Rightarrow> 'w \<Rightarrow> 'w read_fn \<Rightarrow> rstr
   \<Rightarrow> (load_error + ('g, 'w) plugin) \<times> host_effect list" where
  "load_blocking files compile w read_fn path =
     (case files path of
        None \<Rightarrow> (Inl (ReadFailed path), [])
      | Some wasm_bytes \<Rightarrow>
     (case compile wasm_bytes of
        None \<Rightarrow> (Inl (CompileFailed path), [])
      | Some module \<Rightarrow>
     (case instantiate w (fresh_plugin path read_fn module) of
        (Inl e, es) \<Rightarrow> (Inl e, es)
      | (Inr p, es) \<Rightarrow>
          if wm_exports_memory module \<and> MAX_MEMORY_PAGES < length (pn_memory p) div 65536
          then (Inl (MemoryExceeds (length (pn_memory p) div 65536)), es)
          else
     (case resolve_version w p of
        (Inl e, es') \<Rightarrow> (Inl e, es @ es')
      | (Inr (v, p'), es') \<Rightarrow>
          (case initialise w v p' of (p'', es'') \<Rightarrow> (Inr p'', es @ es' @ es''))))))"

section \<open>The manager\<close>

text \<open>
  \<open>slow\<close> says that the thread did not answer in \<open>PLUGIN_LOAD_TIMEOUT\<close>: it runs on, what it does
  to panes and log happens, and the plugin is dropped.
\<close>

definition load_plugin ::
  "(rstr \<Rightarrow> byte list option) \<Rightarrow> (byte list \<Rightarrow> 'g wasm_module option) \<Rightarrow> 'w \<Rightarrow> bool \<Rightarrow> rstr
   \<Rightarrow> ('g, 'w) plugin_manager \<Rightarrow> (load_error + unit) \<times> ('g, 'w) plugin_manager \<times> host_effect list" where
  "load_plugin files compile w slow path m =
     (case load_blocking files compile w (pg_read_fn m) path of
        (r, es) \<Rightarrow>
          if slow then (Inl (LoadTimedOut path), m, es)
          else case r of
            Inl e \<Rightarrow> (Inl e, m, es)
          | Inr p \<Rightarrow> (Inr (), m\<lparr>pg_plugins := pg_plugins m @ [p]\<rparr>, es))"

text \<open>Paths are equal when their components are: \<open>a//b\<close>, \<open>a/./b\<close> and \<open>a/b/\<close> are one path.\<close>

definition path_components :: "rstr \<Rightarrow> bool \<times> rstr list" where
  "path_components path =
     (let rooted = starts_with path (lit ''/'');
          parts = filter (\<lambda>c. c \<noteq> []) (split_on 47 path) in
      (rooted,
       case parts of
         [] \<Rightarrow> []
       | c # cs \<Rightarrow>
           (if c = lit ''.'' \<and> rooted then [] else [c])
           @ filter (\<lambda>d. d \<noteq> lit ''.'') cs))"

definition same_path :: "rstr \<Rightarrow> rstr \<Rightarrow> bool" where
  "same_path p q \<longleftrightarrow> path_components p = path_components q"

definition unload :: "rstr \<Rightarrow> ('g, 'w) plugin_manager \<Rightarrow> bool \<times> ('g, 'w) plugin_manager" where
  "unload path m =
     (let kept = filter (\<lambda>p. \<not> same_path (pn_path p) path) (pg_plugins m) in
      (length kept < length (pg_plugins m), m\<lparr>pg_plugins := kept\<rparr>))"

definition reload ::
  "(rstr \<Rightarrow> byte list option) \<Rightarrow> (byte list \<Rightarrow> 'g wasm_module option) \<Rightarrow> 'w \<Rightarrow> bool \<Rightarrow> rstr
   \<Rightarrow> ('g, 'w) plugin_manager \<Rightarrow> (load_error + unit) \<times> ('g, 'w) plugin_manager \<times> host_effect list" where
  "reload files compile w slow path m = load_plugin files compile w slow path (snd (unload path m))"

text \<open>The file extension: what follows the last dot of the name, unless the name starts there.\<close>

definition extension :: "rstr \<Rightarrow> rstr option" where
  "extension path =
     (case rev (snd (path_components path)) of
        [] \<Rightarrow> None
      | name # _ \<Rightarrow>
          if name = lit ''..'' \<or> 46 \<notin> set (tl name) then None
          else Some (rev (takeWhile (\<lambda>c. c \<noteq> 46) (rev name))))"

text \<open>
  The entries of the directory: none when it does not exist, an unreadable one as \<open>None\<close>;
  each readable one with what its load is (\<open>slow\<close> or not).
\<close>

fun load_entries ::
  "(rstr \<Rightarrow> byte list option) \<Rightarrow> (byte list \<Rightarrow> 'g wasm_module option) \<Rightarrow> 'w \<Rightarrow> (rstr \<times> bool) option list
   \<Rightarrow> nat \<Rightarrow> ('g, 'w) plugin_manager
   \<Rightarrow> (load_error + nat) \<times> ('g, 'w) plugin_manager \<times> host_effect list" where
  "load_entries files compile w [] count m = (Inr count, m, [])"
| "load_entries files compile w (None # es) count m = (Inl EntryUnreadable, m, [])"
| "load_entries files compile w (Some (path, slow) # es) count m =
     (if extension path = Some (lit ''wasm'') then
        (case load_plugin files compile w slow path m of
           (r, m', fx) \<Rightarrow>
             (case load_entries files compile w es (if isl r then count else count + 1) m' of
                (r', m'', fx') \<Rightarrow> (r', m'', fx @ fx')))
      else load_entries files compile w es count m)"

definition load_dir ::
  "(rstr \<Rightarrow> byte list option) \<Rightarrow> (byte list \<Rightarrow> 'g wasm_module option) \<Rightarrow> 'w
   \<Rightarrow> rstr \<Rightarrow> bool \<Rightarrow> (rstr \<times> bool) option list option \<Rightarrow> ('g, 'w) plugin_manager
   \<Rightarrow> (load_error + nat) \<times> ('g, 'w) plugin_manager \<times> host_effect list" where
  "load_dir files compile w dir present entries m =
     (if \<not> present then (Inr 0, m, [])
      else case entries of
        None \<Rightarrow> (Inl (DirUnreadable dir), m, [])
      | Some es \<Rightarrow> load_entries files compile w es 0 m)"

text \<open>\<open>PathBuf::join\<close> of a relative path, and the default directory.\<close>

definition path_join :: "rstr \<Rightarrow> rstr \<Rightarrow> rstr" where
  "path_join base rel =
     (if starts_with rel (lit ''/'') then rel
      else if base = [] \<or> last base = 47 then base @ rel
      else base @ [47] @ rel)"

definition default_plugin_dir :: "rstr option \<Rightarrow> rstr" where
  "default_plugin_dir home =
     path_join (path_join (path_join (case home of Some h \<Rightarrow> h | None \<Rightarrow> lit ''.'') (lit ''.config''))
       (lit ''nexterm'')) (lit ''plugins'')"

section \<open>The states of the manager\<close>

text \<open>
  Everything the server and its clients can do with a manager; files, modules and the state of
  the server may change between the steps.
\<close>

inductive plugin_states :: "('g, 'w) plugin_manager \<Rightarrow> bool" where
  states_new: "plugin_states plugin_manager_new"
| states_install: "plugin_states m \<Longrightarrow> plugin_states (set_read_fn f m)"
| states_load: "plugin_states m \<Longrightarrow> plugin_states (fst (snd (load_plugin files compile w slow path m)))"
| states_unload: "plugin_states m \<Longrightarrow> plugin_states (snd (unload path m))"
| states_output: "plugin_states m \<Longrightarrow> plugin_states (fst (snd (on_output w pane data m)))"
| states_command: "plugin_states m \<Longrightarrow> plugin_states (fst (snd (on_command w cmd m)))"

end
