(* ===== verification/Plugin_Read.thy ===== *)
theory Plugin_Read
  imports Plugin_Host Manager Framing Consent
begin

text \<open>
  The server side of plugins: what the read imports return
  (\<open>nexterm-server/src/plugin_read.rs\<close>), the requests that load and unload plugins
  (\<open>ipc/plugin_dispatch.rs\<close>) and the macro request that asks them first (\<open>ipc/dispatch.rs\<close>).
\<close>

section \<open>Texts and dumps\<close>

definition trim_end_text :: "rstr \<Rightarrow> rstr" where
  "trim_end_text s = rev (dropWhile is_whitespace (rev s))"

definition row_text :: "cell list \<Rightarrow> rstr" where
  "row_text row = trim_end_text (map cell_ch row)"

text \<open>The lines of a screen without its blank last lines.\<close>

definition pop_blank :: "rstr list \<Rightarrow> rstr list" where
  "pop_blank ls = rev (dropWhile (\<lambda>l. l = []) (rev ls))"

definition grid_to_text :: "grid \<Rightarrow> rstr" where
  "grid_to_text g = join_with 10 (pop_blank (map row_text (g_rows g)))"

definition color_index :: "color \<Rightarrow> u8" where
  "color_index c = (case c of Indexed i \<Rightarrow> i | _ \<Rightarrow> 0xFF)"

definition attr_bits :: "attrs \<Rightarrow> u8" where
  "attr_bits a =
     (let b0 = (0 :: u8);
          b1 = (if is_bold a then b0 OR 1 else b0);
          b2 = (if is_italic a then b1 OR 2 else b1);
          b3 = (if is_underline a then b2 OR 4 else b2) in
      if is_reverse a then b3 OR 8 else b3)"

definition cell_record :: "cell option \<Rightarrow> byte list" where
  "cell_record c =
     (case c of
        Some x \<Rightarrow> to_le_bytes 4 (cell_ch x) @ [color_index (cell_fg x), color_index (cell_bg x), attr_bits (cell_attrs x), 0]
      | None \<Rightarrow> to_le_bytes 4 32 @ [0xFF, 0xFF, 0, 0])"

definition dump_row :: "grid \<Rightarrow> nat \<Rightarrow> byte list" where
  "dump_row g r = concat (map (\<lambda>c. cell_record (Option.bind (lget (g_rows g) r) (\<lambda>row. lget row c))) [0..<g_width g])"

definition grid_to_dump :: "grid \<Rightarrow> byte list" where
  "grid_to_dump g =
     to_le_bytes 2 (g_width g) @ to_le_bytes 2 (g_height g) @ concat (map (dump_row g) [0..<g_height g])"

definition DUMP_HEADER :: nat where "DUMP_HEADER = 4"
definition DUMP_CELL :: nat where "DUMP_CELL = 8"

text \<open>Indexing a dump that is too short is a panic; it never is one for a dump of a grid.\<close>

definition cap_grid_dump :: "byte list \<Rightarrow> nat \<Rightarrow> byte list option" where
  "cap_grid_dump dump limit =
     (if length dump \<le> limit then Some dump
      else if limit < DUMP_HEADER then Some []
      else if length dump < 4 then None
      else let cols = from_le_bytes (take 2 dump); row_bytes = cols * DUMP_CELL in
        if row_bytes = 0 then Some (take DUMP_HEADER dump)
        else let kept_rows = (limit - DUMP_HEADER) div row_bytes in
          Some (take (DUMP_HEADER + kept_rows * row_bytes)
            (take 2 dump @ to_le_bytes 2 (wrap16 kept_rows) @ drop 4 dump)))"

definition scrollback_to_text :: "cell list list \<Rightarrow> nat \<Rightarrow> nat \<Rightarrow> nat \<Rightarrow> rstr" where
  "scrollback_to_text scrollback start max_lines scrollback_lines =
     join_with 10 (map row_text (take (min max_lines (max scrollback_lines 1)) (drop start scrollback)))"

definition cap_text :: "rstr \<Rightarrow> nat \<Rightarrow> rstr" where
  "cap_text s limit =
     (if limit < str_len s then take_bytes (floor_boundary s limit) s else s)"

section \<open>The callback for reads\<close>

text \<open>What a read looks at: the sessions that are locked, the panes and the manager.\<close>

record server_view =
  vw_locked :: "rstr \<Rightarrow> bool"
  vw_shared :: "nat \<Rightarrow> pane_shared"
  vw_manager :: manager

text \<open>\<open>None\<close> is the panic of \<open>cap_grid_dump\<close>.\<close>

definition read_bytes :: "nat \<Rightarrow> nat \<Rightarrow> grid \<times> cell list list \<Rightarrow> read_kind \<Rightarrow> byte list option" where
  "read_bytes max_bytes scrollback_lines snap kind =
     (case kind of
        PaneText \<Rightarrow> Some (as_bytes (cap_text (grid_to_text (fst snap)) max_bytes))
      | GridCells \<Rightarrow> cap_grid_dump (grid_to_dump (fst snap)) max_bytes
      | ScrollbackLines start_line max_lines \<Rightarrow>
          Some (as_bytes (cap_text (scrollback_to_text (snd snap) start_line max_lines scrollback_lines) max_bytes)))"

definition build_read_fn ::
  "consent_policy \<Rightarrow> nat \<Rightarrow> nat \<Rightarrow> server_view \<Rightarrow> nat \<Rightarrow> read_kind \<Rightarrow> read_outcome" where
  "build_read_fn policy max_bytes scrollback_lines v pane kind =
     (if policy \<noteq> Allow then Denied
      else case pane_snapshot (vw_locked v) (vw_shared v) pane (vw_manager v) of
        None \<Rightarrow> UnknownPane
      | Some snap \<Rightarrow> ReadData (the (read_bytes max_bytes scrollback_lines snap kind)))"

section \<open>The plugin manager of the server\<close>

text \<open>
  The manager the server starts with when plugins are on, with the plugins of the directory.
  Its write callback does nothing, so that the effects \<open>Wrote\<close> of its plugins go nowhere.
\<close>

definition start_plugins ::
  "(rstr \<Rightarrow> byte list option) \<Rightarrow> (byte list \<Rightarrow> 'g wasm_module option) \<Rightarrow> server_view
   \<Rightarrow> consent_policy \<Rightarrow> nat \<Rightarrow> nat \<Rightarrow> rstr \<Rightarrow> bool \<Rightarrow> (rstr \<times> bool) option list option
   \<Rightarrow> ('g, server_view) plugin_manager \<times> host_effect list" where
  "start_plugins files compile v policy max_bytes scrollback_lines dir present entries =
     (let m = set_read_fn (build_read_fn policy max_bytes scrollback_lines) plugin_manager_new in
      if present then snd (load_dir files compile v dir present entries m) else (m, []))"

section \<open>Requests\<close>

definition load_error_text :: "load_error \<Rightarrow> rstr" where
  "load_error_text e =
     (case e of
        ReadFailed path \<Rightarrow> lit ''failed to read plugin file: '' @ path
      | CompileFailed path \<Rightarrow> lit ''failed to compile WASM module: '' @ path
      | InstantiateFailed \<Rightarrow> lit ''failed to instantiate the plugin''
      | StartFailed \<Rightarrow> lit ''failed to start the plugin''
      | MemoryExceeds pages \<Rightarrow>
          lit ''plugin memory exceeds the limit: '' @ dec pages @ lit '' pages > '' @ dec MAX_MEMORY_PAGES
          @ lit '' pages (cap '' @ dec (MAX_MEMORY_PAGES * 64 div 1024) @ lit '' MiB)''
      | VersionTooNew v \<Rightarrow>
          lit ''plugin API version is newer than the host: plugin='' @ dec v @ lit '', host='' @ dec PLUGIN_API_VERSION
      | VersionTooOld v \<Rightarrow>
          lit ''plugin API version is too old: plugin='' @ dec v @ lit '', min='' @ dec MIN_SUPPORTED_API_VERSION
      | LoadTimedOut path \<Rightarrow>
          lit ''plugin load timed out after 5s (parsing/instantiation took too long): '' @ path
      | DirUnreadable dir \<Rightarrow> lit ''failed to read the plugin directory: '' @ dir
      | EntryUnreadable \<Rightarrow> [])"

datatype plugin_reply = PluginList "rstr list" | PluginOk rstr rstr | PluginError rstr

definition handle_list_plugins :: "('g, 'w) plugin_manager option \<Rightarrow> plugin_reply" where
  "handle_list_plugins pm = PluginList (case pm of None \<Rightarrow> [] | Some m \<Rightarrow> plugin_paths m)"

definition not_initialized :: rstr where
  "not_initialized = lit ''plugin manager is not initialized''"

definition load_reply :: "rstr \<Rightarrow> rstr \<Rightarrow> load_error + unit \<Rightarrow> plugin_reply" where
  "load_reply path action r =
     (case r of Inr _ \<Rightarrow> PluginOk path action | Inl e \<Rightarrow> PluginError (load_error_text e))"

definition handle_load_plugin ::
  "(rstr \<Rightarrow> byte list option) \<Rightarrow> (byte list \<Rightarrow> 'g wasm_module option) \<Rightarrow> 'w \<Rightarrow> bool \<Rightarrow> rstr
   \<Rightarrow> ('g, 'w) plugin_manager option \<Rightarrow> plugin_reply \<times> ('g, 'w) plugin_manager option \<times> host_effect list" where
  "handle_load_plugin files compile w slow path pm =
     (case pm of
        None \<Rightarrow> (PluginError not_initialized, None, [])
      | Some m \<Rightarrow>
          (case load_plugin files compile w slow path m of
             (r, m', es) \<Rightarrow> (load_reply path (lit ''loaded'') r, Some m', es)))"

definition handle_unload_plugin ::
  "rstr \<Rightarrow> ('g, 'w) plugin_manager option \<Rightarrow> plugin_reply \<times> ('g, 'w) plugin_manager option" where
  "handle_unload_plugin path pm =
     (case pm of
        None \<Rightarrow> (PluginError not_initialized, None)
      | Some m \<Rightarrow>
          (case unload path m of
             (removed, m') \<Rightarrow>
               (if removed then PluginOk path (lit ''unloaded'') else PluginError (lit ''plugin not found: '' @ path),
                Some m')))"

definition handle_reload_plugin ::
  "(rstr \<Rightarrow> byte list option) \<Rightarrow> (byte list \<Rightarrow> 'g wasm_module option) \<Rightarrow> 'w \<Rightarrow> bool \<Rightarrow> rstr
   \<Rightarrow> ('g, 'w) plugin_manager option \<Rightarrow> plugin_reply \<times> ('g, 'w) plugin_manager option \<times> host_effect list" where
  "handle_reload_plugin files compile w slow path pm =
     (case pm of
        None \<Rightarrow> (PluginError not_initialized, None, [])
      | Some m \<Rightarrow>
          (case reload files compile w slow path m of
             (r, m', es) \<Rightarrow> (load_reply path (lit ''reloaded'') r, Some m', es)))"

text \<open>
  A macro request: the plugins are asked first, and the macro runs (\<open>True\<close>) when none of them
  handles it.
\<close>

definition macro_command :: "rstr \<Rightarrow> rstr \<Rightarrow> rstr" where
  "macro_command macro_fn display_name =
     58 # (if display_name = [] then macro_fn else display_name)"

definition run_macro_request ::
  "'w \<Rightarrow> rstr \<Rightarrow> rstr \<Rightarrow> ('g, 'w) plugin_manager option
   \<Rightarrow> bool \<times> ('g, 'w) plugin_manager option \<times> host_effect list" where
  "run_macro_request w macro_fn display_name pm =
     (case pm of
        None \<Rightarrow> (True, None, [])
      | Some m \<Rightarrow>
          (case on_command w (macro_command macro_fn display_name) m of
             (handled, m', es) \<Rightarrow> (\<not> handled, Some m', es)))"

end
