(* ===== verification/Plugin_Properties.thy ===== *)
theory Plugin_Properties
  imports Plugin_Read
begin

text \<open>
  What the host of the plugins promises: the filter is a byte-by-byte automaton, a plugin of
  version 2 or 3 reaches only the pane its hook is for, and what a read leaves in its memory.
\<close>

section \<open>The filter as an automaton\<close>

text \<open>Where a byte stream is with respect to escape sequences.\<close>

datatype esc_state = Ground | Escape | Csi | Str | StrEscape

fun esc_step :: "esc_state \<Rightarrow> byte \<Rightarrow> esc_state \<times> byte list" where
  "esc_step Ground b =
     (if b = 0x1B then (Escape, [])
      else if b = 9 \<or> b = 10 \<or> b = 13 then (Ground, [b])
      else if b \<le> 0x1F \<or> b = 0x7F then (Ground, [])
      else (Ground, [b]))"
| "esc_step Escape b = ((if b = 0x5B then Csi else if string_intro b then Str else Ground), [])"
| "esc_step Csi b = ((if 0x40 \<le> b \<and> b \<le> 0x7E then Ground else Csi), [])"
| "esc_step Str b = ((if b = 7 then Ground else if b = 0x1B then StrEscape else Str), [])"
| "esc_step StrEscape b =
     ((if b = 7 \<or> b = 0x5C then Ground else if b = 0x1B then StrEscape else Str), [])"

fun esc_run :: "esc_state \<Rightarrow> byte list \<Rightarrow> esc_state \<times> byte list" where
  "esc_run s [] = (s, [])"
| "esc_run s (b # bs) =
     (case esc_step s b of (s', out) \<Rightarrow> case esc_run s' bs of (s'', out') \<Rightarrow> (s'', out @ out'))"

definition strip :: "esc_state \<Rightarrow> byte list \<Rightarrow> byte list" where
  "strip s bs = snd (esc_run s bs)"

lemma strip_Nil [simp]: "strip s [] = []"
  by (simp add: strip_def)

lemma strip_Cons: "strip s (b # bs) = snd (esc_step s b) @ strip (fst (esc_step s b)) bs"
  by (simp add: strip_def split_beta)

lemma esc_run_append:
  "esc_run s (a @ b) = (case esc_run s a of (s', out) \<Rightarrow> case esc_run s' b of (s'', out') \<Rightarrow> (s'', out @ out'))"
  by (induction s a rule: esc_run.induct) (auto split: prod.splits)

lemma strip_append: "strip s (a @ b) = strip s a @ strip (fst (esc_run s a)) b"
  by (simp add: strip_def esc_run_append split_beta)

lemma strip_csi: "strip Csi bs = strip Ground (skip_csi bs)"
  by (induction bs) (simp_all add: strip_Cons skip_csi_def)

lemma strip_str_escape: "strip StrEscape (b # bs) = (if b = 0x5C then strip Ground bs else strip Str (b # bs))"
  by (simp add: strip_Cons)

lemma strip_str: "strip Str bs = strip Ground (skip_string bs)"
proof (induction bs rule: skip_string.induct)
  case (2 b bs)
  show ?case
  proof (cases "b = 7")
    case False
    show ?thesis
    proof (cases "b = 0x1B \<and> bs \<noteq> []")
      case True
      then obtain c cs where c: "bs = c # cs" by (cases bs) auto
      have "strip Str (b # bs) = strip StrEscape (c # cs)"
        using True c by (simp add: strip_Cons [of Str])
      then show ?thesis
        using True False 2 c by (cases "c = 0x5C") (simp_all add: strip_str_escape)
    next
      case escape: False
      then consider "b \<noteq> 0x1B" | "b = 0x1B" "bs = []" by auto
      then show ?thesis using False 2 by cases (simp_all add: strip_Cons [of Str b] strip_Cons [of Str "0x1B"])
    qed
  qed (simp add: strip_Cons)
qed simp

lemma sanitize_strip: "sanitize_for_plugin bs = strip Ground bs"
proof (induction bs rule: sanitize_for_plugin.induct)
  case (2 b r)
  show ?case
  proof (cases "b = 0x1B")
    case True
    show ?thesis
    proof (cases r)
      case (Cons c r')
      with True 2 show ?thesis
        by (simp add: sanitize_for_plugin.simps(2) strip_Cons [of Ground] strip_Cons [of Escape]
            strip_csi strip_str)
    qed (simp add: True sanitize_for_plugin.simps(2) strip_Cons)
  next
    case False
    with 2 show ?thesis by (simp add: sanitize_for_plugin.simps(2) strip_Cons)
  qed
qed simp

text \<open>The bytes that pass, and what the filter does to them.\<close>

definition plain :: "byte \<Rightarrow> bool" where
  "plain b \<longleftrightarrow> b = 9 \<or> b = 10 \<or> b = 13 \<or> (0x20 \<le> b \<and> b \<noteq> 0x7F)"

lemma not_plain: "\<not> plain b \<longleftrightarrow> b \<noteq> 9 \<and> b \<noteq> 10 \<and> b \<noteq> 13 \<and> (b \<le> 0x1F \<or> b = 0x7F)"
  unfolding plain_def word_le_nat_alt by auto

lemma esc_step_plain: "list_all plain (snd (esc_step s b))"
  by (cases s) (auto simp: plain_def word_le_nat_alt)

lemma strip_plain: "list_all plain (strip s bs)"
  by (induction bs arbitrary: s) (simp_all add: strip_Cons esc_step_plain)

lemma esc_step_of_plain: "plain b \<Longrightarrow> esc_step Ground b = (Ground, [b])"
  by (auto simp: plain_def word_le_nat_alt)

lemma strip_of_plain: "list_all plain bs \<Longrightarrow> strip Ground bs = bs"
  by (induction bs) (simp_all add: strip_Cons esc_step_of_plain del: esc_step.simps)

lemma sanitize_length: "length (sanitize_for_plugin bs) \<le> length bs"
proof -
  have one: "length (snd (esc_step s b)) \<le> 1" for s b by (cases s) simp_all
  have "length (strip s bs) \<le> length bs" for s
  proof (induction bs arbitrary: s)
    case (Cons b bs)
    show ?case using one [of s b] Cons [of "fst (esc_step s b)"] by (simp add: strip_Cons)
  qed simp
  then show ?thesis by (simp add: sanitize_strip)
qed

text \<open>C23: the filter in front of the hooks is the automaton of escape sequences that reads
  one byte at a time; only plain bytes pass, plain bytes pass unchanged, and filtering again
  changes nothing; for a text in two parts the second part is filtered from the state the
  first ends in.\<close>

theorem sanitize_exact:
  "sanitize_for_plugin bs = snd (esc_run Ground bs) \<and>
   list_all plain (sanitize_for_plugin bs) \<and>
   sanitize_for_plugin (filter plain bs) = filter plain bs \<and>
   sanitize_for_plugin (sanitize_for_plugin bs) = sanitize_for_plugin bs \<and>
   sanitize_for_plugin (bs @ cs) =
     sanitize_for_plugin bs @ snd (esc_run (fst (esc_run Ground bs)) cs)"
  using strip_plain [of Ground bs] strip_of_plain [of "strip Ground bs"]
    strip_of_plain [of "filter plain bs"] strip_append [of Ground bs cs]
  by (simp add: sanitize_strip list_all_iff flip: strip_def)

section \<open>What the imports keep\<close>

text \<open>
  A relation between the host state before, the effects and the host state after that the
  imports of the host respect, and that composes, holds of every run of every plugin.
\<close>

locale import_invariant =
  fixes R :: "'w host_state \<Rightarrow> host_effect list \<Rightarrow> 'w host_state \<Rightarrow> bool"
  assumes no_effect: "R h [] h"
    and compose: "R h es h' \<Longrightarrow> R h' es' h'' \<Longrightarrow> R h (es @ es') h''"
    and one_import: "host_import w exported m c h = (answer, h', es) \<Longrightarrow> R h es h'"
begin

lemma run: "run_guest t w exported h = (v, g, m, h', es) \<Longrightarrow> R h es h'"
proof (induction t arbitrary: h v g m h' es)
  case (HostCall m0 c k)
  obtain answer h1 es1 where 1: "host_import w exported m0 c h = (answer, h1, es1)"
    by (metis prod_cases3)
  obtain es2 where 2: "run_guest (k answer) w exported h1 = (v, g, m, h', es2)" "es = es1 @ es2"
    using HostCall.prems 1 by (auto simp: after_effects_def split: prod.splits)
  show ?case using compose [OF one_import [OF 1] HostCall.IH [OF _ 2(1)]] 2(2) by simp
qed (auto simp: no_effect)

lemma export: "call_export w f p = (v, p', es) \<Longrightarrow> R (pn_host p) es (pn_host p')"
  by (auto simp: call_export_def split: prod.splits intro: run)

lemma optional: "call_optional w f p = (v, p', es) \<Longrightarrow> R (pn_host p) es (pn_host p')"
  by (auto simp: call_optional_def no_effect split: option.splits dest: export)

end

text \<open>A run of a plugin leaves its path, its version, its module and its names alone.\<close>

lemma call_export_plugin:
  assumes "call_export w f p = (v, p', es)"
  shows "pn_path p' = pn_path p" "pn_api_version p' = pn_api_version p" "pn_module p' = pn_module p"
  using assms by (auto simp: call_export_def split: prod.splits)

lemma call_optional_plugin:
  assumes "call_optional w f p = (v, p', es)"
  shows "pn_path p' = pn_path p" "pn_api_version p' = pn_api_version p" "pn_module p' = pn_module p"
  using assms call_export_plugin by (auto simp: call_optional_def split: option.splits)

text \<open>
  The effects that are open to a plugin of a version, with the panes its hook is for.
\<close>

fun plugin_may :: "nat \<Rightarrow> nat set \<Rightarrow> host_effect \<Rightarrow> bool" where
  "plugin_may v panes (Wrote q bs) \<longleftrightarrow> v < 2 \<or> q \<in> panes"
| "plugin_may v panes (Asked q k r) \<longleftrightarrow> 3 \<le> v \<and> q \<in> panes"
| "plugin_may v panes (Logged s) \<longleftrightarrow> True"
| "plugin_may v panes (LegacyWarned n) \<longleftrightarrow> False"

definition guarded :: "'w host_state \<Rightarrow> host_effect list \<Rightarrow> 'w host_state \<Rightarrow> bool" where
  "guarded h es h' \<longleftrightarrow>
     list_all (plugin_may (ht_api_version h) (ht_allowed_panes h)) es \<and>
     ht_api_version h' = ht_api_version h \<and> ht_allowed_panes h' = ht_allowed_panes h \<and>
     ht_read_fn h' = ht_read_fn h \<and> ht_memory_limit h' = ht_memory_limit h"

lemma read_guarded:
  "perform_plugin_read w exported m pane kind out_ptr out_max h = (code, m', es) \<Longrightarrow> guarded h es h"
  by (auto simp: perform_plugin_read_def guarded_def Let_def api_versions split: if_splits read_outcome.splits)

lemma import_guarded:
  "host_import w exported m c h = (answer, h', es) \<Longrightarrow> guarded h es h'"
proof (cases c)
  case (CallLog ptr len)
  then show "host_import w exported m c h = (answer, h', es) \<Longrightarrow> ?thesis"
    by (auto simp: host_log_def guarded_def Let_def split: if_splits)
next
  case (CallWritePane pane ptr len)
  then show "host_import w exported m c h = (answer, h', es) \<Longrightarrow> ?thesis"
    by (auto simp: host_write_pane_def guarded_def Let_def)
next
  case CallApiVersion
  then show "host_import w exported m c h = (answer, h', es) \<Longrightarrow> ?thesis"
    by (auto simp: guarded_def)
qed (auto simp: with_state_def dest!: read_guarded split: prod.splits)

interpretation confined: import_invariant guarded
  by unfold_locales (auto simp: guarded_def import_guarded [unfolded guarded_def] dest: import_guarded [unfolded guarded_def])

text \<open>The log of a plugin, which only grows.\<close>

definition logged_lines :: "host_effect list \<Rightarrow> rstr list" where
  "logged_lines es = List.map_filter (\<lambda>e. case e of Logged s \<Rightarrow> Some s | _ \<Rightarrow> None) es"

lemma logged_lines_simps [simp]:
  "logged_lines [] = []" "logged_lines (es @ es') = logged_lines es @ logged_lines es'"
  "logged_lines (Logged s # es) = s # logged_lines es"
  "logged_lines (Wrote q bs # es) = logged_lines es" "logged_lines (Asked q k r # es) = logged_lines es"
  by (simp_all add: logged_lines_def List.map_filter_def)

definition log_kept :: "'w host_state \<Rightarrow> host_effect list \<Rightarrow> 'w host_state \<Rightarrow> bool" where
  "log_kept h es h' \<longleftrightarrow> ht_log_buf h' = ht_log_buf h @ logged_lines es"

lemma import_log_kept: "host_import w exported m c h = (answer, h', es) \<Longrightarrow> log_kept h es h'"
  by (cases c)
    (auto simp: log_kept_def with_state_def host_log_def host_write_pane_def perform_plugin_read_def Let_def
      split: if_splits read_outcome.splits)

interpretation logs: import_invariant log_kept
  by unfold_locales (auto simp: log_kept_def dest: import_log_kept [unfolded log_kept_def])

section \<open>The invariant of the loaded plugins\<close>

text \<open>
  Between the calls of the host a plugin has the version it declared, one the host knows, and
  no pane is open to it.
\<close>

definition plugin_ok :: "('g, 'w) plugin \<Rightarrow> bool" where
  "plugin_ok p \<longleftrightarrow>
     ht_api_version (pn_host p) = pn_api_version p \<and> pn_api_version p \<in> {1..3} \<and>
     ht_allowed_panes (pn_host p) = {}"

lemma set_allowed_simps [simp]:
  "pn_path (set_allowed A p) = pn_path p" "pn_api_version (set_allowed A p) = pn_api_version p"
  "pn_module (set_allowed A p) = pn_module p" "pn_memory (set_allowed A p) = pn_memory p"
  "pn_globals (set_allowed A p) = pn_globals p"
  "pn_host (set_allowed A p) = (pn_host p)\<lparr>ht_allowed_panes := A\<rparr>"
  by (simp_all add: set_allowed_def)

lemma plugin_may_mono: "plugin_may v A e \<Longrightarrow> A \<subseteq> B \<Longrightarrow> plugin_may v B e"
  by (cases e) auto

text \<open>What a call with the panes \<open>A\<close> open keeps of a plugin.\<close>

definition kept_plugin :: "nat set \<Rightarrow> ('g, 'w) plugin \<Rightarrow> ('g, 'w) plugin \<Rightarrow> host_effect list \<Rightarrow> bool" where
  "kept_plugin A p p' es \<longleftrightarrow>
     plugin_ok p' \<and> list_all (plugin_may (pn_api_version p) A) es \<and>
     pn_path p' = pn_path p \<and> pn_api_version p' = pn_api_version p \<and> pn_module p' = pn_module p"

lemma kept_plugin_refl: "plugin_ok p \<Longrightarrow> kept_plugin A p p []"
  by (simp add: kept_plugin_def)

lemma guarded_call:
  assumes ok: "plugin_ok p"
    and call: "call_export w f (set_allowed A (p\<lparr>pn_memory := m\<rparr>)) = (v, p', es)"
    and sub: "A \<subseteq> B"
  shows "kept_plugin B p (set_allowed {} p') es"
proof -
  have g: "guarded (pn_host p\<lparr>ht_allowed_panes := A\<rparr>) es (pn_host p')"
    using confined.export [OF call] by simp
  have same: "pn_path p' = pn_path p" "pn_api_version p' = pn_api_version p" "pn_module p' = pn_module p"
    using call_export_plugin [OF call] by simp_all
  have "list_all (plugin_may (pn_api_version p) A) es"
    using g ok by (simp add: guarded_def plugin_ok_def)
  then have "list_all (plugin_may (pn_api_version p) B) es"
    by (rule list.pred_mono_strong) (rule plugin_may_mono [OF _ sub])
  with g ok same show ?thesis by (simp add: kept_plugin_def plugin_ok_def guarded_def)
qed

lemma output_hook_kept:
  assumes "plugin_ok p" and "output_hook w pane data sanitized p = (b, p', es)"
  shows "kept_plugin {pane} p p' es"
  using assms
  by (auto simp: output_hook_def Let_def kept_plugin_refl split: option.splits if_splits prod.splits
      intro!: guarded_call)

lemma command_hook_kept:
  assumes "plugin_ok p" and "command_hook w cmd sanitized p = (b, p', es)"
  shows "kept_plugin {} p p' es"
  using assms
  by (auto simp: command_hook_def Let_def kept_plugin_refl split: option.splits if_splits prod.splits
      intro!: guarded_call)

text \<open>A hook that keeps each plugin keeps them all, and every effect is one of some plugin.\<close>

lemma each_plugin_kept:
  assumes "\<And>p b p' es. plugin_ok p \<Longrightarrow> f p = (b, p', es) \<Longrightarrow> kept_plugin A p p' es"
    and "each_plugin f ps = (b, ps', es)" and "list_all plugin_ok ps"
  shows "list_all plugin_ok ps'" "map pn_path ps' = map pn_path ps"
    "list_all (\<lambda>e. list_ex (\<lambda>p. plugin_may (pn_api_version p) A e) ps) es"
proof -
  have "list_all plugin_ok ps' \<and> map pn_path ps' = map pn_path ps \<and>
    list_all (\<lambda>e. list_ex (\<lambda>p. plugin_may (pn_api_version p) A e) ps) es"
    using assms(2,3)
  proof (induction ps arbitrary: b ps' es)
    case (Cons p ps)
    obtain stop p1 es1 where 1: "f p = (stop, p1, es1)" by (metis prod_cases3)
    have k: "kept_plugin A p p1 es1" using assms(1) [OF _ 1] Cons.prems by simp
    show ?case
    proof (cases stop)
      case True
      with 1 k Cons.prems show ?thesis by (auto simp: kept_plugin_def list_all_iff)
    next
      case False
      obtain b2 ps2 es2 where 2: "each_plugin f ps = (b2, ps2, es2)" by (metis prod_cases3)
      show ?thesis using 1 2 k False Cons.prems Cons.IH [OF 2]
        by (auto simp: kept_plugin_def list_all_iff)
    qed
  qed simp
  then show "list_all plugin_ok ps'" "map pn_path ps' = map pn_path ps"
    "list_all (\<lambda>e. list_ex (\<lambda>p. plugin_may (pn_api_version p) A e) ps) es" by blast+
qed

section \<open>Loading\<close>

text \<open>While a plugin is loaded and its version is not settled the strictest rules hold.\<close>

definition unsettled :: "'w read_fn \<Rightarrow> ('g, 'w) plugin \<Rightarrow> bool" where
  "unsettled f p \<longleftrightarrow>
     ht_api_version (pn_host p) = PLUGIN_API_VERSION \<and> ht_allowed_panes (pn_host p) = {} \<and>
     ht_read_fn (pn_host p) = f"

lemma unsettled_fresh [simp]: "unsettled f (fresh_plugin path f md)"
  by (simp add: unsettled_def fresh_plugin_def initial_host_def)

lemma unsettled_call:
  assumes "unsettled f p" and "call_export w g p = (v, p', es)"
  shows "unsettled f p'" "list_all (plugin_may 3 {}) es"
  using confined.export [OF assms(2)] assms(1)
  by (simp_all add: unsettled_def guarded_def api_versions)

lemma unsettled_optional:
  assumes "unsettled f p" and "call_optional w g p = (v, p', es)"
  shows "unsettled f p'" "list_all (plugin_may 3 {}) es"
  using confined.optional [OF assms(2)] assms(1)
  by (simp_all add: unsettled_def guarded_def api_versions)

lemma instantiate_unsettled:
  assumes "instantiate w p = (r, es)" and "unsettled f p"
  shows "list_all (plugin_may 3 {}) es"
    "\<And>p'. r = Inr p' \<Longrightarrow> unsettled f p' \<and> pn_path p' = pn_path p \<and> pn_module p' = pn_module p"
  using assms
  by (auto simp: instantiate_def Let_def split: if_splits prod.splits option.splits
      dest: unsettled_optional call_optional_plugin)

lemma resolve_version_unsettled:
  assumes "resolve_version w p = (r, es)" and "unsettled f p"
  shows "list_all (plugin_may 3 {}) es"
    "\<And>v p'. r = Inr (v, p') \<Longrightarrow> unsettled f p' \<and> v \<in> {1..3} \<and> pn_path p' = pn_path p"
  using assms
  by (auto simp: resolve_version_def Let_def api_versions split: if_splits prod.splits option.splits
      dest: unsettled_call call_export_plugin)

text \<open>The effects of a settled plugin that has no pane open.\<close>

definition at_load :: "nat \<Rightarrow> host_effect \<Rightarrow> bool" where
  "at_load v e \<longleftrightarrow> plugin_may v {} e \<or> (e = LegacyWarned v \<and> v < PLUGIN_API_VERSION)"

lemma guarded_settled:
  assumes "plugin_ok p" and "guarded (pn_host p) es (pn_host p')"
    and "pn_api_version p' = pn_api_version p"
  shows "plugin_ok p'" "list_all (plugin_may (pn_api_version p) {}) es"
  using assms by (auto simp: plugin_ok_def guarded_def)

lemma read_plugin_meta_ok:
  assumes "plugin_ok p" and "read_plugin_meta w p = (names, p', es)"
  shows "plugin_ok p' \<and> list_all (plugin_may (pn_api_version p) {}) es \<and> pn_path p' = pn_path p
    \<and> pn_api_version p' = pn_api_version p"
proof (cases "wm_meta (pn_module p)")
  case (Some meta)
  show ?thesis
  proof (cases "\<not> wm_exports_memory (pn_module p) \<or> length (pn_memory p) < HOOK_OFFSET + META_LEN + META_LEN")
    case True
    with Some assms show ?thesis by (auto simp: read_plugin_meta_def)
  next
    case False
    let ?q = "p\<lparr>pn_memory := mem_write (HOOK_OFFSET + META_LEN) (replicate META_LEN 0)
      (mem_write HOOK_OFFSET (replicate META_LEN 0) (pn_memory p))\<rparr>"
    obtain v p2 es2 where q: "call_export w (meta (of_nat HOOK_OFFSET) (of_nat META_LEN)
        (of_nat (HOOK_OFFSET + META_LEN)) (of_nat META_LEN)) ?q = (v, p2, es2)"
      by (metis prod_cases3)
    then have "p' = p2" "es = es2" using Some False assms(2) by (auto simp: read_plugin_meta_def Let_def)
    then show ?thesis
      using guarded_settled [OF assms(1), of es2 p2] confined.export [OF q] call_export_plugin [OF q] by simp
  qed
qed (use assms in \<open>auto simp: read_plugin_meta_def\<close>)

lemma initialise_ok:
  assumes "unsettled f p" and "v \<in> {1..3}" and "initialise w v p = (p', es)"
  shows "plugin_ok p'" "pn_api_version p' = v" "pn_path p' = pn_path p" "list_all (at_load v) es"
proof -
  let ?p0 = "commit_version v p"
  have ok0: "plugin_ok ?p0" using assms(1,2) by (simp add: unsettled_def plugin_ok_def commit_version_def)
  obtain r p2 es2 where 2: "call_optional w (wm_init (pn_module p)) ?p0 = (r, p2, es2)"
    by (metis prod_cases3)
  have s2: "pn_path p2 = pn_path p" "pn_api_version p2 = v"
    using call_optional_plugin [OF 2] by (simp_all add: commit_version_def)
  have ok2: "plugin_ok p2" "list_all (plugin_may v {}) es2"
    using guarded_settled [OF ok0 confined.optional [OF 2]] s2(2) by (simp_all add: commit_version_def)
  obtain n ver p3 es3 where 3: "read_plugin_meta w p2 = ((n, ver), p3, es3)"
    by (metis prod_cases3 surj_pair)
  have ok3: "plugin_ok p3" "list_all (plugin_may v {}) es3" "pn_path p3 = pn_path p" "pn_api_version p3 = v"
    using read_plugin_meta_ok [OF ok2(1) 3] s2 by simp_all
  have p': "p' = p3\<lparr>pn_meta_name := n, pn_meta_version := ver\<rparr>"
    and es: "es = (if v < PLUGIN_API_VERSION then [LegacyWarned v] else []) @ es2 @ es3"
    using assms(3) 2 3 by (simp_all add: initialise_def commit_version_def)
  show "plugin_ok p'" "pn_api_version p' = v" "pn_path p' = pn_path p"
    using ok3 p' by (simp_all add: plugin_ok_def)
  show "list_all (at_load v) es"
    using ok2(2) ok3(2) es by (auto simp: at_load_def list_all_iff)
qed

text \<open>A load that fails has written and read nothing; one that succeeds gives a settled plugin.\<close>

definition load_confined :: "rstr \<Rightarrow> (load_error + ('g, 'w) plugin) \<times> host_effect list \<Rightarrow> bool" where
  "load_confined path r =
     (case r of
        (Inl _, es) \<Rightarrow> list_all (plugin_may 3 {}) es
      | (Inr p, es) \<Rightarrow> plugin_ok p \<and> pn_path p = path \<and> list_all (at_load (pn_api_version p)) es)"

lemma at_load_quiet: "plugin_may 3 {} e \<Longrightarrow> at_load v e"
  by (cases e) (auto simp: at_load_def)

lemma quiet_list_at_load: "list_all (plugin_may 3 {}) es \<Longrightarrow> list_all (at_load v) es"
  by (simp add: list_all_iff at_load_quiet)

lemma load_blocking_confined: "load_confined path (load_blocking files compile w rf path)"
proof (cases "files path")
  case (Some bytes)
  note f = this
  show ?thesis
  proof (cases "compile bytes")
    case (Some md)
    obtain r1 es1 where 1: "instantiate w (fresh_plugin path rf md) = (r1, es1)" by fastforce
    note u1 = instantiate_unsettled [OF 1 unsettled_fresh]
    show ?thesis
    proof (cases r1)
      case (Inl e)
      with f Some 1 u1(1) show ?thesis by (simp add: load_blocking_def load_confined_def)
    next
      case (Inr p)
      obtain r2 es2 where 2: "resolve_version w p = (r2, es2)" by fastforce
      note u2 = resolve_version_unsettled [OF 2, of rf]
      show ?thesis
      proof (cases r2)
        case (Inl e)
        with f Some Inr 1 2 u1 u2(1) show ?thesis
          by (simp add: load_blocking_def load_confined_def)
      next
        case (Inr vp)
        obtain v p2 where vp: "vp = (v, p2)" by fastforce
        obtain p3 es3 where 3: "initialise w v p2 = (p3, es3)" by fastforce
        have q: "unsettled rf p2" "v \<in> {1..3}" "pn_path p2 = path"
          using u1(2) \<open>r1 = Inr p\<close> u2(2) Inr vp by (auto simp: fresh_plugin_def)
        note ok = initialise_ok [OF q(1,2) 3]
        show ?thesis
          using f Some \<open>r1 = Inr p\<close> Inr vp 1 2 3 u1 u2(1) q ok
          by (simp add: load_blocking_def load_confined_def quiet_list_at_load)
      qed
    qed
  qed (simp add: f load_blocking_def load_confined_def)
qed (simp add: load_blocking_def load_confined_def)

lemma states_ok: "plugin_states m \<Longrightarrow> list_all plugin_ok (pg_plugins m)"
proof (induction rule: plugin_states.induct)
  case (states_load m files compile w slow path)
  then show ?case
    using load_blocking_confined [of path files compile w "pg_read_fn m"]
    by (auto simp: load_plugin_def load_confined_def split: prod.splits sum.splits)
next
  case (states_unload m path)
  then show ?case by (simp add: unload_def Let_def list_all_iff)
next
  case (states_output m w pane data)
  obtain b ps es where e: "each_plugin (output_hook w pane data (sanitize_for_plugin data)) (pg_plugins m) = (b, ps, es)"
    by (metis prod_cases3)
  show ?case using each_plugin_kept(1) [OF output_hook_kept e states_output.IH] e by (simp add: on_output_def)
next
  case (states_command m w cmd)
  obtain b ps es where e: "each_plugin (command_hook w (as_bytes cmd) (sanitize_for_plugin (as_bytes cmd))) (pg_plugins m) = (b, ps, es)"
    by (metis prod_cases3)
  show ?case using each_plugin_kept(1) [OF command_hook_kept e states_command.IH] e by (simp add: on_command_def)
qed (simp_all add: plugin_manager_new_def set_read_fn_def)

text \<open>The properties of the plugin host that are not about the filter alone.\<close>

section \<open>Confinement\<close>

text \<open>C22: in every state of the manager, whatever a plugin does: in the hook for the output of a
  pane it writes to that pane only, unless it is of version 1, and reads that pane only, if it is
  of version 3; in the hook for commands and while it is loaded it writes to no pane, unless it
  is of version 1, and reads none; a load that fails has touched no pane.  What a plugin of
  version 2 or 3 does in a hook depends only on the plain text of the data.\<close>

theorem plugins_confined:
  assumes "plugin_states m" and "p \<in> set (pg_plugins m)"
  shows "list_all (plugin_may (pn_api_version p) {pane})
           (snd (snd (output_hook w pane data (sanitize_for_plugin data) p))) \<and>
         list_all (plugin_may (pn_api_version p) {})
           (snd (snd (command_hook w cmd (sanitize_for_plugin cmd) p))) \<and>
         list_all (\<lambda>e. list_ex (\<lambda>q. plugin_may (pn_api_version q) {pane} e) (pg_plugins m))
           (snd (snd (on_output w pane data m))) \<and>
         list_all (\<lambda>e. list_ex (\<lambda>q. plugin_may (pn_api_version q) {} e) (pg_plugins m))
           (snd (snd (on_command w line m))) \<and>
         load_confined path (load_blocking files compile w (pg_read_fn m) path) \<and>
         (1 < pn_api_version p \<and> sanitize_for_plugin data = sanitize_for_plugin data' \<longrightarrow>
           output_hook w pane data (sanitize_for_plugin data) p =
           output_hook w pane data' (sanitize_for_plugin data') p)"
proof (intro conjI impI)
  have ok: "list_all plugin_ok (pg_plugins m)" "plugin_ok p"
    using states_ok [OF assms(1)] assms(2) by (auto simp: list_all_iff)
  obtain b p' es where o: "output_hook w pane data (sanitize_for_plugin data) p = (b, p', es)"
    by (metis prod_cases3)
  show "list_all (plugin_may (pn_api_version p) {pane})
      (snd (snd (output_hook w pane data (sanitize_for_plugin data) p)))"
    using output_hook_kept [OF ok(2) o] o by (simp add: kept_plugin_def)
  obtain b p' es where c: "command_hook w cmd (sanitize_for_plugin cmd) p = (b, p', es)"
    by (metis prod_cases3)
  show "list_all (plugin_may (pn_api_version p) {}) (snd (snd (command_hook w cmd (sanitize_for_plugin cmd) p)))"
    using command_hook_kept [OF ok(2) c] c by (simp add: kept_plugin_def)
  obtain b ps es where o: "each_plugin (output_hook w pane data (sanitize_for_plugin data)) (pg_plugins m) = (b, ps, es)"
    by (metis prod_cases3)
  show "list_all (\<lambda>e. list_ex (\<lambda>q. plugin_may (pn_api_version q) {pane} e) (pg_plugins m))
      (snd (snd (on_output w pane data m)))"
    using each_plugin_kept(3) [OF output_hook_kept o ok(1)] o by (simp add: on_output_def)
  obtain b ps es where c: "each_plugin (command_hook w (as_bytes line) (sanitize_for_plugin (as_bytes line))) (pg_plugins m) = (b, ps, es)"
    by (metis prod_cases3)
  show "list_all (\<lambda>e. list_ex (\<lambda>q. plugin_may (pn_api_version q) {} e) (pg_plugins m))
      (snd (snd (on_command w line m)))"
    using each_plugin_kept(3) [OF command_hook_kept c ok(1)] c by (simp add: on_command_def)
qed (auto simp: load_blocking_confined output_hook_def)

section \<open>Reads\<close>

lemma as_usize_pos: "0 \<le> sint p \<Longrightarrow> as_usize p = nat (sint p)"
  using sint_less [of p] by (simp add: as_usize_def)


lemma sint_of_nat_i32: "n < 2147483648 \<Longrightarrow> sint (of_nat n :: i32) = int n"
proof -
  assume n: "n < 2147483648"
  have "sint (of_nat n :: i32) = signed_take_bit 31 (int n)"
    using sint_sbintrunc' [of "int n", where 'a = 32] by simp
  also have "\<dots> = int n" using n by (intro signed_take_bit_int_eq_self) simp_all
  finally show ?thesis .
qed

lemma mem_write_frame:
  assumes "start + length bs \<le> length m"
  shows "length (mem_write start bs m) = length m" "take start (mem_write start bs m) = take start m"
    "take (length bs) (drop start (mem_write start bs m)) = bs"
    "drop (start + length bs) (mem_write start bs m) = drop (start + length bs) m"
  using assms by (simp_all add: mem_write_def)



section \<open>What the server answers\<close>

lemma length_cell_record [simp]: "length (cell_record c) = 8"
  by (simp add: cell_record_def split: option.splits)










section \<open>The grid dump\<close>




















section \<open>A plugin that passes on what it gets\<close>

text \<open>A plugin of version 2 that writes what its output hook gets to the pane and to pane 8.\<close>

definition spy :: "unit wasm_module" where
  "spy = \<lparr>wm_imports = [(lit ''nexterm'', lit ''write_pane'')], wm_exports_memory = True,
     wm_initial_memory = replicate 131072 0, wm_initial_globals = (), wm_start = None,
     wm_api_version = Some (\<lambda>g m. Returned g m 2), wm_init = None, wm_meta = None,
     wm_on_output = Some (\<lambda>pane ptr len g m. HostCall m (CallWritePane pane ptr len)
       (\<lambda>(_, m'). HostCall m' (CallWritePane 8 ptr len) (\<lambda>(_, m''). Returned g m'' 0))),
     wm_on_command = None\<rparr>"

definition spied :: "(unit, unit) plugin \<Rightarrow> bool" where
  "spied p \<longleftrightarrow> pn_module p = spy \<and> pn_api_version p = 2 \<and> ht_api_version (pn_host p) = 2 \<and>
     length (pn_memory p) = 131072"

lemma hook_slice:
  assumes "65536 + length bs \<le> length m" and "length m \<le> 131072"
  shows "slice_end (of_nat HOOK_OFFSET) (of_nat (length bs)) = 65536 + length bs"
    "mem_slice (mem_write HOOK_OFFSET bs m) (as_usize (of_nat HOOK_OFFSET)) (65536 + length bs) = bs"
proof -
  have u: "as_usize (of_nat n) = n" if "n < 2147483648" for n
    using sint_of_nat_i32 [OF that] by (simp add: as_usize_pos)
  have o: "as_usize (of_nat HOOK_OFFSET) = 65536" using u [of 65536] by (simp add: HOOK_OFFSET_def)
  show "slice_end (of_nat HOOK_OFFSET) (of_nat (length bs)) = 65536 + length bs"
    using assms u [of "length bs"] o by (simp add: slice_end_def host_usize_max_def)
  show "mem_slice (mem_write HOOK_OFFSET bs m) (as_usize (of_nat HOOK_OFFSET)) (65536 + length bs) = bs"
    unfolding o mem_slice_def using mem_write_frame(3) [of HOOK_OFFSET bs m] assms by (simp add: HOOK_OFFSET_def)
qed

lemma spy_hook:
  assumes "spied p" and "length s \<le> 65536"
  shows "\<exists>p'. spied p' \<and> output_hook () 7 data s p = (False, p', [Wrote 7 s])"
proof -
  let ?m = "mem_write HOOK_OFFSET s (pn_memory p)"
  have len: "65536 + length s \<le> length (pn_memory p)" "length (pn_memory p) \<le> 131072"
    using assms by (simp_all add: spied_def)
  have m: "length ?m = 131072"
    using assms len(1) mem_write_frame(1) [of HOOK_OFFSET s "pn_memory p"]
    by (simp add: spied_def HOOK_OFFSET_def)
  show ?thesis
    using assms len m hook_slice [OF len]
    by (simp add: output_hook_def spied_def spy_def Let_def call_export_def host_write_pane_def as_u32_def
        after_effects_def HOOK_OFFSET_def [symmetric] set_allowed_def)
qed

lemma spy_output:
  assumes "pg_plugins m = [p]" and "spied p" and "length data \<le> 65536"
  shows "\<exists>p' m'. pg_plugins m' = [p'] \<and> spied p' \<and>
    on_output () 7 data m = (False, m', [Wrote 7 (sanitize_for_plugin data)])"
proof -
  have "length (sanitize_for_plugin data) \<le> length data" by (rule sanitize_length)
  then obtain p' where "spied p'"
    "output_hook () 7 data (sanitize_for_plugin data) p = (False, p', [Wrote 7 (sanitize_for_plugin data)])"
    using spy_hook [OF assms(2), of "sanitize_for_plugin data" data] assms(3) by auto
  then show ?thesis using assms(1) by (simp add: on_output_def)
qed

text \<open>The start of a write of the clipboard: \<open>ESC ] 52 ; c ;\<close>.\<close>

definition clip_start :: "byte list" where
  "clip_start = [0x1B, 0x5D, 0x35, 0x32, 0x3B, 0x63, 0x3B]"

lemma strip_secret:
  assumes "list_all plain secret"
  shows "strip Str (secret @ [7]) = []" "strip Ground (secret @ [7]) = secret"
proof -
  show "strip Str (secret @ [7]) = []"
    using assms by (induction secret) (auto simp: strip_Cons plain_def)
  show "strip Ground (secret @ [7]) = secret"
    using assms by (induction secret) (simp_all add: strip_Cons esc_step_of_plain del: esc_step.simps, simp)
qed

text \<open>C26: a sequence that reaches the hook in two pieces is not stripped: of a clipboard write in
  one piece a plugin of version 2 sees nothing, and of the same bytes in two pieces it sees the
  whole text.\<close>

theorem split_sequence_leaks:
  assumes "pg_plugins m = [p]" and "spied p" and "list_all plain secret" and "length secret < 65000"
  shows "snd (snd (on_output () 7 (clip_start @ secret @ [7]) m)) = [Wrote 7 []] \<and>
    (case on_output () 7 clip_start m of (_, m', es) \<Rightarrow>
       es = [Wrote 7 []] \<and> snd (snd (on_output () 7 (secret @ [7]) m')) = [Wrote 7 secret])"
proof -
  have s: "sanitize_for_plugin (clip_start @ secret @ [7]) = []" "sanitize_for_plugin clip_start = []"
    "sanitize_for_plugin (secret @ [7]) = secret"
    using strip_secret [OF assms(3)]
    by (simp_all add: sanitize_strip clip_start_def strip_Cons string_intro_def)
  obtain p1 m1 where 1: "pg_plugins m1 = [p1]" "spied p1" "on_output () 7 clip_start m = (False, m1, [Wrote 7 []])"
    using spy_output [OF assms(1,2), of clip_start] s(2) by (auto simp: clip_start_def)
  have "\<exists>m'. on_output () 7 (clip_start @ secret @ [7]) m = (False, m', [Wrote 7 []])"
    using spy_output [OF assms(1,2), of "clip_start @ secret @ [7]"] s(1) assms(4) by (auto simp: clip_start_def)
  moreover have "\<exists>m'. on_output () 7 (secret @ [7]) m1 = (False, m', [Wrote 7 secret])"
    using spy_output [OF 1(1,2), of "secret @ [7]"] s(3) assms(4) by auto
  ultimately show ?thesis using 1(3) by auto
qed

text \<open>The manager that has loaded it.\<close>

definition spy_manager :: "(unit, unit) plugin_manager" where
  "spy_manager = fst (snd (load_plugin (\<lambda>_. Some []) (\<lambda>_. Some spy) () False (lit ''/p/spy.wasm'') plugin_manager_new))"

lemma spy_loaded: "\<exists>p. pg_plugins spy_manager = [p] \<and> spied p"
  by (simp add: spy_manager_def load_plugin_def load_blocking_def instantiate_def resolve_version_def initialise_def
      fresh_plugin_def initial_host_def call_optional_def call_export_def read_plugin_meta_def commit_version_def
      spied_def spy_def host_imports_def plugin_manager_new_def MAX_MEMORY_PAGES_def as_u32_def api_versions Let_def)

lemma split_sequence_leaks_witness:
  "snd (snd (on_output () 7 (clip_start @ [65, 66] @ [7]) spy_manager)) = [Wrote 7 []] \<and>
   (case on_output () 7 clip_start spy_manager of (_, m', es) \<Rightarrow>
      es = [Wrote 7 []] \<and> snd (snd (on_output () 7 ([65, 66] @ [7]) m')) = [Wrote 7 [65, 66]])"
proof -
  obtain p where "pg_plugins spy_manager = [p]" "spied p" using spy_loaded by blast
  from split_sequence_leaks [OF this, of "[65, 66]"] show ?thesis by (simp add: plain_def)
qed

lemma plugins_confined_witness:
  "\<exists>p. p \<in> set (pg_plugins spy_manager) \<and> pn_api_version p = 2 \<and>
     snd (snd (output_hook () 7 [65] (sanitize_for_plugin [65]) p)) = [Wrote 7 [65]] \<and>
     list_all (plugin_may (pn_api_version p) {7}) [Wrote 7 [65]]"
proof -
  obtain p where p: "pg_plugins spy_manager = [p]" "spied p" using spy_loaded by blast
  have states: "plugin_states spy_manager" unfolding spy_manager_def by (intro states_load states_new)
  have in_m: "p \<in> set (pg_plugins spy_manager)" using p by simp
  have "sanitize_for_plugin [65] = [65]" by (simp add: sanitize_strip strip_Cons)
  then have "snd (snd (output_hook () 7 [65] (sanitize_for_plugin [65]) p)) = [Wrote 7 [65]]"
    using spy_hook [OF p(2), of "[65]" "[65]"] by auto
  with plugins_confined [OF states in_m, of 7 "()" "[65]"] in_m p(2) show ?thesis
    by (auto simp: spied_def)
qed

section \<open>Divergences from the documentation\<close>

text \<open>An escape before a character of two or more bytes takes its first byte away: what is left
  is not UTF-8.  A sequence with an intermediate byte, as \<open>ESC ( B\<close>, leaves its last byte.\<close>

lemma sanitize_breaks_utf8:
  "is_scalar 0x3042 \<and> as_bytes [0x1B, 0x3042] = [0x1B, 0xE3, 0x81, 0x82] \<and>
   sanitize_for_plugin (as_bytes [0x1B, 0x3042]) = [0x81, 0x82] \<and> from_utf8 [0x81, 0x82] = None"
  by (simp add: is_scalar_def utf8_enc_def sanitize_strip strip_Cons string_intro_def from_utf8.simps
      utf8_step_def byte_at_def is_cont_def)

lemma charset_leaks: "sanitize_for_plugin [0x1B, 0x28, 0x42, 0x78] = [0x42, 0x78]"
  by (simp add: sanitize_strip strip_Cons string_intro_def)

text \<open>A plugin of version 2 gets the warning of version 1.\<close>

lemma v2_called_legacy:
  "snd (snd (load_plugin (\<lambda>_. Some []) (\<lambda>_. Some spy) () False path plugin_manager_new)) = [LegacyWarned 2]"
  by (simp add: load_plugin_def load_blocking_def instantiate_def resolve_version_def initialise_def
      fresh_plugin_def initial_host_def call_optional_def call_export_def read_plugin_meta_def commit_version_def
      spy_def host_imports_def plugin_manager_new_def MAX_MEMORY_PAGES_def as_u32_def api_versions Let_def)

text \<open>Reloading a plugin whose file is broken removes the plugin that runs.\<close>

lemma reload_loses:
  assumes "load_blocking files compile w (pg_read_fn m) path = (Inl e, es)"
  shows "fst (reload files compile w False path m) = Inl e \<and>
    pg_plugins (fst (snd (reload files compile w False path m))) =
      filter (\<lambda>p. \<not> same_path (pn_path p) path) (pg_plugins m)"
  using assms by (simp add: reload_def load_plugin_def unload_def Let_def)

text \<open>Every line a plugin logs stays in the memory of the host.\<close>

lemma output_log_grows:
  assumes "output_hook w pane data sanitized p = (b, p', es)"
  shows "ht_log_buf (pn_host p') = ht_log_buf (pn_host p) @ logged_lines es"
  using assms
  by (auto simp: output_hook_def Let_def log_kept_def split: option.splits if_splits prod.splits
      dest!: logs.export)

section \<open>Requests\<close>

text \<open>A macro runs exactly when no plugin handles its command.\<close>

lemma each_plugin_stops: "fst (each_plugin f ps) = list_ex (\<lambda>p. fst (f p)) ps"
  by (induction ps) (auto split: prod.splits bool.splits)

lemma macro_runs:
  "fst (run_macro_request w macro_fn display_name (Some m)) \<longleftrightarrow>
   list_all (\<lambda>p. \<not> fst (command_hook w (as_bytes (macro_command macro_fn display_name))
     (sanitize_for_plugin (as_bytes (macro_command macro_fn display_name))) p)) (pg_plugins m)"
  by (simp add: run_macro_request_def on_command_def each_plugin_stops list_all_iff list_ex_iff split_beta)

text \<open>After an unload no plugin has the path, and the list shows the others in order.\<close>

lemma filter_length_less: "length (filter P xs) < length xs \<longleftrightarrow> list_ex (\<lambda>x. \<not> P x) xs"
  by (induction xs) (auto simp: less_Suc_eq_le intro: le_imp_less_Suc [OF length_filter_le, simplified])

lemma unload_exact:
  "unload path m = (r, m') \<Longrightarrow>
   plugin_paths m' = filter (\<lambda>q. \<not> same_path q path) (plugin_paths m) \<and>
   (r \<longleftrightarrow> list_ex (\<lambda>q. same_path q path) (plugin_paths m))"
  by (auto simp: unload_def plugin_paths_def Let_def filter_map comp_def filter_length_less list_ex_iff)

end
