(* ===== verification/Spec2Isabelle.thy ===== *)
theory Spec2Isabelle
  imports Terminal_Properties Codec_Properties Layout_Properties Server_Properties Gpu_Properties
    Copy_Facts Web_Properties Plugin_Properties
begin

text \<open>
  Nexterm is a terminal multiplexer: a server (\<open>nexterm-server\<close>) runs programs on
  pseudo terminals, interprets their output (\<open>nexterm-vt\<close>), arranges the panes in windows
  and sends what changes to its clients (\<open>nexterm-client-tui\<close>, \<open>nexterm-client-gpu\<close>)
  in the messages of \<open>nexterm-proto\<close>.  This development follows the output of a program
  from the bytes on the PTY to the rows on a client's screen, and the panes from the split
  tree to the layout message.

  The parts, in the order of the theories.

  Foundations.  \<open>Prelude\<close> has bounded arithmetic (\<open>wrap16\<close>, saturating operations), list
  access that fails (\<open>lget\<close>), counted loops and folds with panics (\<open>foldM\<close>).
  \<open>Rust_Std\<close> and \<open>Rust_Str\<close> model what the code uses of the standard library: UTF-8
  encoding and decoding, byte lengths, character boundaries, slices that panic, trimming,
  splitting, number parsing and printing.  A \<open>String\<close> is a list of scalar values
  (\<open>rstr\<close>), raw bytes are lists of 8-bit words.

  The screen.  \<open>Cell_Grid\<close> is \<open>nexterm-proto/src/{cell,grid}.rs\<close>; the locale
  \<open>cell_store\<close> is what filling a block of cells needs of a store.  \<open>Colors\<close>,
  \<open>Image_Bytes\<close>, \<open>Sixel\<close>, \<open>Image_Decode\<close> are \<open>nexterm-vt/src/{colors,image}.rs\<close>
  (the locale \<open>image_decoder\<close> is the contract of a decoder).  \<open>Osc_Text\<close>,
  \<open>Screen_State\<close> and \<open>Screen_Osc\<close> are \<open>nexterm-vt/src/screen.rs\<close>: the record
  \<open>screen\<close> has the fields of the struct \<open>Screen\<close>.  \<open>Screen_Inv\<close> holds the invariant of
  the grid (\<open>geometry_ok\<close>) and of the dirty rows against a copy of the grid
  (\<open>tracks\<close>), \<open>Screen_Spec\<close> the effect of each operation cell by cell, \<open>Screen_Bufs\<close> the
  bounds of queues and buffers (\<open>bufs_ok\<close>), \<open>Screen_Queues\<close> the queues as an
  interface (locale \<open>outbox\<close>).

  The parser.  \<open>Performer\<close> is \<open>nexterm-vt/src/performer.rs\<close>, the callbacks of the
  \<open>vte\<close> crate as a datatype of events; \<open>Performer_Inv\<close> carries the invariants through
  them (locale \<open>event_consumer\<close>).  \<open>Vt_Parser\<close> is \<open>nexterm-vt/src/lib.rs\<close>.
  \<open>Alt_Screen\<close> follows a program on the alternate screen.

  The pane.  \<open>Pane_Mirror\<close>, \<open>Pane_Codec\<close> and \<open>Pane_Reader\<close> are the reader thread and
  the codecs of \<open>nexterm-server/src/pane.rs\<close>: \<open>reader_chunk\<close> is one iteration of
  the loop, \<open>reader_reach\<close> the states between iterations.  \<open>Server_Msg\<close> has the messages,
  \<open>Client_State\<close> the state of the text client.  \<open>Attach\<close> is \<open>handle_attach\<close> of
  \<open>nexterm-server/src/ipc/session_dispatch.rs\<close> as interleaved steps, \<open>Reader_Facts\<close> and
  \<open>Live_Link\<close> join the reader to it.  \<open>Sample_Run\<close> instantiates the parameters for the
  witnesses, \<open>Terminal_Properties\<close> and \<open>Codec_Properties\<close> state the properties of a pane.

  The layout.  \<open>F32\<close> models single-precision ratios as rationals rounded to even, \<open>Bsp\<close>
  and \<open>Tiling\<close> are \<open>nexterm-server/src/window/{bsp,tiling,floating}.rs\<close> (locale
  \<open>pane_tree\<close>), \<open>Window\<close> is \<open>window/mod.rs\<close>; \<open>Window_Inv\<close>, \<open>Window_Facts\<close> and
  \<open>Window_Life\<close> hold its invariant, its effects and its reachable states, and
  \<open>Layout_Properties\<close> its properties.

  The server.  \<open>Session\<close> and \<open>Manager\<close> are \<open>nexterm-server/src/session.rs\<close> with the
  snapshots of \<open>snapshot.rs\<close> and the start of the server in \<open>lib.rs\<close>: the records
  \<open>session\<close> and \<open>manager\<close> have the fields of \<open>Session\<close> and \<open>SessionManager\<close>, operations
  that draw a window id take the counter and return it.  \<open>Session_Inv\<close>, \<open>Session_Life\<close>,
  \<open>Session_Reach\<close>, \<open>Manager_Inv\<close> and \<open>Manager_Life\<close> hold their invariants and reachable
  states (\<open>session_reach\<close>, \<open>manager_reach\<close>).  \<open>Keys\<close> is \<open>ipc/key.rs\<close>, \<open>Dispatch\<close> the
  handlers that act on one session, \<open>Requests\<close> the requests, the dispatch and the loop of a
  connection (\<open>ipc/{dispatch,handler}.rs\<close>), \<open>Framing\<close> the frames and the receiver of
  \<open>nexterm-client-core\<close>.  \<open>Request_Facts\<close> shows every request to be a step of the manager,
  \<open>Client_Sync\<close> what its answer tells the client, \<open>Server_Properties\<close> states the properties.

  The graphical client (\<open>nexterm-client-gpu/src\<close>).  \<open>Scrollback\<close> is the ring of the history
  (\<open>scrollback.rs\<close>) with its search; the locale \<open>recent_store\<close> is the contract of a store that
  keeps the most recent lines.  \<open>Command_Blocks\<close> (\<open>command_blocks.rs\<close>) groups the marks of the
  shell into blocks, \<open>Block_Facts\<close> compares them with a definition by runs of marks and the rows
  clicked with the rows drawn.  \<open>Selection\<close> (\<open>state/selection.rs\<close>) has URLs and the selections of
  the mouse and the copy mode, \<open>Quick_Select\<close> the labels and keys of \<open>state/menus.rs\<close>,
  \<open>Named_Blocks\<close> the names of blocks, \<open>Consent\<close> the dialogs before sensitive operations,
  \<open>Info_Bars\<close> the bars below the tabs.  \<open>Gpu_State\<close> puts them together: the record
  \<open>gpu_state\<close> has the fields of \<open>ClientState\<close> that the messages of the server and the
  operations above use, and \<open>gpu_apply_server_message\<close> is \<open>state/server_message.rs\<close>;
  \<open>Block_Ui\<close> is \<open>state/blocks.rs\<close>.  \<open>Gpu_Facts\<close> holds the invariant \<open>gpu_ok\<close>, the reachable
  states \<open>gpu_reach\<close> and the agreement with the text client, \<open>Gpu_View\<close> what the user sees of the
  history, \<open>Gpu_Properties\<close> the properties.  \<open>Copy_Mode\<close> has the keys of the copy mode
  (\<open>renderer/input_handler/copy_mode.rs\<close>), and \<open>Copy_Facts\<close> compares its word motions with words in
  reading order and follows what is typed into its search.

  The web terminal (\<open>nexterm-server/src/web\<close>).  \<open>Web_Auth\<close> is the rate limiter, the one-time
  passwords and the sessions (\<open>rate_limit.rs\<close>, \<open>otp.rs\<close>, \<open>auth.rs\<close>), \<open>Web_Auth_Facts\<close> what runs of them
  guarantee.  \<open>Access_Log\<close> is \<open>access_log.rs\<close> with a reader of CSV: its lemmas read the lines
  back, count the days of the calendar and follow the generations of a rotation.  \<open>Web_Oauth\<close> is
  \<open>oauth.rs\<close>.  \<open>Web_Server\<close> has the configuration (\<open>nexterm-config/src/schema/web.rs\<close>), the start, the
  checks of a request, the handlers and the routes: \<open>web_state\<close> has the fields of \<open>AppState\<close> and
  \<open>web_step\<close> serves one request.  \<open>Web_Server_Facts\<close> holds the invariant \<open>web_ok\<close>, the form of the
  responses, and the locale \<open>session_store\<close>: what the server relies on of its sessions, interpreted on
  the authentication manager.  \<open>Web_Limits\<close> shows what is not kept out, \<open>Web_Socket\<close> joins the
  requests to the sockets they open on the session manager (\<open>terminal_step\<close>) and traces
  each socket and session to the request it comes from, \<open>Web_Properties\<close> states the properties.

  Plugins.  \<open>Plugin_Host\<close> is \<open>nexterm-plugin/src/lib.rs\<close>: the filter in front of the
  hooks, the imports, the hooks, and loading; a run of a plugin is any finite tree of calls of the imports
  (\<open>guest\<close>), and its effects are a list.  \<open>Plugin_Read\<close> is \<open>plugin_read.rs\<close>,
  \<open>ipc/plugin_dispatch.rs\<close> and the macro request.  \<open>Plugin_Properties\<close> has the filter as an automaton, the
  locale \<open>import_invariant\<close> (what every import respects holds of every run, interpreted on the guard of the
  panes and on the log), the states of the manager (\<open>plugin_states\<close>) and the properties.

  Conventions.  A function that can panic returns an option, and \<open>None\<close> is the panic.  A
  \<open>u16\<close> or \<open>u32\<close> is a natural number with the wrap-around of the release profile written
  out where it can occur; bytes are 8-bit words.  A method with \<open>&mut self\<close> maps the record
  to the updated record.  Loops are structural recursion or folds; the loops over input that is
  consumed (\<open>sixel_loop\<close>, \<open>trim_start_matches\<close>, \<open>url_loop\<close>) are total with a measure, so that no
  fuel is needed; the loop of the renderer over the history is a \<open>while_option\<close> that is proved to end.  A hash map is an association list with distinct keys.

  Parameters.  \<open>vte\<close> is the \<open>vte\<close> crate: its state and the callbacks each byte causes; the
  properties hold for any such function.  \<open>h_width\<close> is the crate \<open>unicode-width\<close>, \<open>h_load\<close>
  the image crate, which is assumed to return four bytes for each pixel (\<open>loader_law\<close>),
  \<open>h_warn\<close> whether warnings are logged.  Spawning a process and reading its working directory
  are arguments of the window operations.  The regular expressions of the search and of quick select
  (the crate \<open>regex\<close>) are functions.  Of the web server the crates \<open>totp-rs\<close> (\<open>we_totp\<close>) and \<open>oauth2\<close> (\<open>oauth_crate\<close>),
  the network (\<open>oauth_net\<close>), the embedded pages, gzip, the clocks and the random tokens are arguments.  Of the plugins
  the files and the compiler of modules are arguments; the fuel of a call is what makes its tree finite.

  Assumptions of the model.  Locks are never poisoned, writes to the PTY succeed, logging has no
  effect, the platform is not Windows (which strips the slash of a drive letter from an OSC 7
  path).  The broadcast channel drops its oldest messages when it is full and reports the loss to
  the receiver before its next message; a client's own channel keeps the order.  Requests of the web
  are served one at a time, also when they wait for the network, and files of the access log can be written.

  What the groups of lemmas show.  The invariants of the screen hold for every output and the
  reader is total but for one slice of a log message.  The dirty rows are exactly what a copy of
  the grid needs, so that the snapshot and every attached client agree with the screen, also after a
  loss, which is made up for while the window of the pane has the focus, and what is under way arrives in a bounded number of steps.  Windows,
  sessions and the manager keep their invariants under every operation but the few that the properties name,
  each of which breaks them; requests that name what
  exists are answered without a panic, and the client that sent one and was in step stays in step with the focused
  window.  Frames are read back as they were written, a snapshot restores what it
  saved.  The departures are proved as well: the race of the attach handler, the cursor that is
  not sent, the loss in a background window that nothing makes up for, the leaf of a failed spawn, the swap with an unknown pane, the focus of a snapshot outside its tree, the panes lost by a move
  to an unknown window and the session it leaves without a focused window, the sizes of windows in the background, the layout after closing the
  focused window, the panes an attached client does not know, the clients that are not told,
  and the image that closes a connection; in the graphical client the history that takes in rows
  which have not scrolled, scrolling from the wrong end, the jump that cannot be repeated, block
  identifiers that collide, labels that cannot be typed, the consent that goes to another request, and the search text that goes to the
  running program; in the web terminal the limit
  that a header gets round, the code of the setup that is accepted again, the secret that locks everybody out,
  the address that passes for the issuer's, the sockets that outlive their session and the rows that a
  browser cannot place, and the carriage return that splits a record of the log; of the plugins the sequences that arrive in pieces and the plugin that a failed reload loses.  Otherwise every socket goes back to an upgrade with a session that was issued and not given up,
  attempts are counted between the resets of their key, codes count once, and the log can be read back.  What the
  consent carries out is compared with the history of requests and answers alone (\<open>dialog_at\<close>, \<open>standing\<close>).  A plugin of the current versions reaches only
  the pane its hook is for.

  Not modelled: process spawning and inspection (operating system), rendering, input, settings and
  animations of the clients (graphics and terminal libraries), serialization (the \<open>postcard\<close> library), the
  requests of recordings, templates, SSH, SFTP and macros (a parameter of \<open>dispatch\<close>; those of plugins are functions of \<open>Plugin_Read\<close>),
  the interleaving of requests at their locks, TLS and the listening sockets of the web server and the extraction of requests by \<open>axum\<close>, the Lua
  host, the interpreter of WebAssembly, configuration files and the files of snapshots.
\<close>

section \<open>From the terminal to the client\<close>

text \<open>C1: a client that attached to the pane between two steps of the forwarder and has received
  everything under way shows exactly the rows of the terminal, outside synchronized output, whatever
  the program printed and whatever the broadcast channel dropped, provided the last overflow was not
  answered while the pane was in a window in the background: then the pane is passed over
  (\<open>background_loss\<close>).  The window of the pane may lose and get the focus at any time.\<close>

theorem client_shows_terminal:
  assumes "live vte h i p0 wh (p, sh, l)" "fst wh \<le> u16_max" "snd wh \<le> u16_max"
    and "settled l" "\<not> lk_missed l" "\<not> s_synchronized_output (vp_screen p)"
  shows "\<exists>st. map_of (cs_panes (lk_client l)) i = Some st
    \<and> g_rows (cp_grid st) = g_rows (s_grid (vp_screen p))
    \<and> (cp_cursor_col st, cp_cursor_row st) =
        (g_cursor_col (pm_latest_grid (sh_mirror sh)), g_cursor_row (pm_latest_grid (sh_mirror sh)))"
proof -
  have ok: "link_sync wh i l" "lk_grid l = pm_latest_grid (sh_mirror sh)"
    "g_rows (lk_grid l) = g_rows (s_grid (vp_screen p))"
    using live_invariant [OF assms(1-3)] assms(6) by (auto simp: live_ok_def)
  from settled_view [OF ok(1) assms(4,5)] show ?thesis
    by (auto simp: client_view_def grid_view_def ok(2)) (simp add: ok(3) [unfolded ok(2)])
qed

lemma client_shows_terminal_witness:
  "\<exists>p sh l st. live demo_vte demo_host 1 () (3, 1) (p, sh, l)
     \<and> map_of (cs_panes (lk_client l)) 1 = Some st
     \<and> map (map cell_ch) (g_rows (cp_grid st)) = [[72, 32, 32]]"
proof -
  obtain p sh l where l: "live demo_vte demo_host 1 () (3, 1) (p, sh, l)" "settled l"
    "\<not> lk_missed l" "\<not> s_synchronized_output (vp_screen p)"
    and h: "map (map cell_ch) (g_rows (s_grid (vp_screen p))) = [[72, 32, 32]]"
    using demo_live by (elim exE conjE)
  obtain st where "map_of (cs_panes (lk_client l)) 1 = Some st"
    "g_rows (cp_grid st) = g_rows (s_grid (vp_screen p))"
    using client_shows_terminal [OF l(1) _ _ l(2-4)] by (auto simp: u16_max_def)
  then show ?thesis using l(1) h
    by (intro exI [of _ p] exI [of _ sh] exI [of _ l] exI [of _ st]) simp
qed

text \<open>C2: once the program is silent, every run of the delivery ends after at most \<open>load\<close> steps,
  a run that cannot continue has nothing left under way, and such a run exists.\<close>

theorem delivery_settles:
  assumes "lk_refresh l = None"
  shows "((delivery i ^^ n) l m \<longrightarrow> n \<le> load l)
    \<and> ((delivery i ^^ n) l m \<and> (\<nexists>k. delivery i m k) \<longrightarrow> settled m)
    \<and> (\<exists>k m'. k \<le> load l \<and> (delivery i ^^ k) l m' \<and> settled m')"
proof -
  have "(delivery i ^^ n) l m \<Longrightarrow> lk_refresh m = None"
    using assms by (induction n arbitrary: m) (auto dest: delivery_frame)
  then show ?thesis using delivery_run [of n i l m] delivery_drains [OF assms, of i] delivery_progress [of m i]
    by auto
qed

lemma delivery_settles_witness:
  "\<exists>k m. (delivery 1 ^^ k) (link_start 1 (grid_new 2 1) None (client_state_new None)) m \<and> settled m"
proof -
  have "lk_refresh (link_start 1 (grid_new 2 1) None (client_state_new None)) = None"
    by (simp add: link_start_def)
  from delivery_settles [OF this, where i = 1] show ?thesis by blast
qed

text \<open>C3: the full refresh of the attach handler is composed before, but sent after, a
  difference the forwarder has already forwarded: everything has then arrived and the client
  still shows the screen as it was before the difference.\<close>

theorem refresh_overtaken:
  assumes "diff_fits wh d" "rows_shape (fst wh) (snd wh) (g_rows g)"
  shows "\<exists>l. (attach_step wh i)\<^sup>*\<^sup>* (link_subscribed g c) l \<and> settled l
    \<and> client_view i (lk_client l) = Some (grid_view g)
    \<and> grid_view (lk_grid l) = diff_view d (grid_view g)"
  using attach_overtaken [OF assms(1), of i g c] install_diff_view [OF assms(2,1)] by metis

lemma refresh_overtaken_witness:
  "\<exists>l. (attach_step (1, 1) 7)\<^sup>*\<^sup>* (link_subscribed (grid_new 1 1) (client_state_new None)) l \<and> settled l
     \<and> client_view 7 (lk_client l) \<noteq> Some (grid_view (lk_grid l))"
proof -
  let ?d = "\<lparr>gd_dirty_rows = [\<lparr>dr_row = 0, dr_cells = [default_cell\<lparr>cell_ch := 36\<rparr>]\<rparr>], gd_cursor_col = 1,
    gd_cursor_row = 0\<rparr>"
  have stale: "diff_view ?d (grid_view (grid_new 1 1)) \<noteq> grid_view (grid_new 1 1)"
    by (simp add: diff_view_def grid_view_def grid_new_def)
  have shape: "rows_shape (fst (1, 1)) (snd (1, 1)) (g_rows (grid_new 1 1))"
    by (simp add: grid_new_def rows_shape_def)
  have fits: "diff_fits (1, 1) ?d" by (simp add: diff_fits_def)
  obtain l where "(attach_step (1, 1) 7)\<^sup>*\<^sup>* (link_subscribed (grid_new 1 1) (client_state_new None)) l"
    "settled l" "client_view 7 (lk_client l) = Some (grid_view (grid_new 1 1))"
    "grid_view (lk_grid l) = diff_view ?d (grid_view (grid_new 1 1))"
    using refresh_overtaken [of "(1, 1)" ?d "grid_new 1 1" 7 "client_state_new None", OF fits shape]
    by (elim exE conjE)
  then show ?thesis using stale by (intro exI [of _ l]) simp
qed

end
